(* ===== verification/Bytes.thy ===== *)
theory Bytes
  imports Prelude
begin

text \<open>
  Fixed-width byte encodings of machine integers: \<open>to_be_bytes\<close> / \<open>from_be_bytes\<close>,
  \<open>to_le_bytes\<close> / \<open>from_le_bytes\<close> and their native variants, which are little endian on
  amd64, the platform the packet proxy of the sources is written for.

  The locale \<open>fixed_codec\<close> states what the clients of such an encoding rely on (the width
  of the encoding and that decoding inverts it); it is interpreted on the encodings the
  sources use, and the framed formats (proxy commands, VICI packets, IPv6 addresses) are
  verified through it.
\<close>

fun nat_to_le :: "nat \<Rightarrow> nat \<Rightarrow> u8 list" where
  "nat_to_le 0 n = []"
| "nat_to_le (Suc k) n = of_nat (n mod 256) # nat_to_le k (n div 256)"

fun le_value :: "u8 list \<Rightarrow> nat" where
  "le_value [] = 0"
| "le_value (b # bs) = unat b + 256 * le_value bs"

lemma length_nat_to_le [simp]: "length (nat_to_le k n) = k"
  by (induction k arbitrary: n) simp_all

lemma le_value_nat_to_le: "le_value (nat_to_le k n) = n mod 256 ^ k"
proof (induction k arbitrary: n)
  case 0
  then show ?case by simp
next
  case (Suc k)
  have "unat (of_nat (n mod 256) :: u8) = n mod 256"
    by (simp add: unat_of_nat)
  with Suc.IH [of "n div 256"] show ?case
    by (simp add: mod_mult2_eq)
qed

lemma le_value_bound: "le_value bs < 256 ^ length bs"
proof (induction bs)
  case Nil
  then show ?case by simp
next
  case (Cons b bs)
  have "unat b < 256" using unat_lt2p [of b] by simp
  with Cons.IH show ?case by simp
qed

lemma nat_to_le_le_value: "nat_to_le (length bs) (le_value bs) = bs"
proof (induction bs)
  case Nil
  then show ?case by simp
next
  case (Cons b bs)
  have "unat b < 256" using unat_lt2p [of b] by simp
  with Cons.IH show ?case by simp
qed

definition to_le_bytes :: "nat \<Rightarrow> 'a::len word \<Rightarrow> u8 list" where
  "to_le_bytes k w = nat_to_le k (unat w)"

definition from_le_bytes :: "u8 list \<Rightarrow> 'a::len word" where
  "from_le_bytes bs = of_nat (le_value bs)"

definition to_be_bytes :: "nat \<Rightarrow> 'a::len word \<Rightarrow> u8 list" where
  "to_be_bytes k w = rev (to_le_bytes k w)"

definition from_be_bytes :: "u8 list \<Rightarrow> 'a::len word" where
  "from_be_bytes bs = from_le_bytes (rev bs)"

abbreviation "to_ne_bytes \<equiv> to_le_bytes"
abbreviation "from_ne_bytes \<equiv> from_le_bytes"

lemma length_to_bytes [simp]:
  "length (to_le_bytes k w) = k"
  "length (to_be_bytes k w) = k"
  by (simp_all add: to_le_bytes_def to_be_bytes_def)

lemma pow256: "(256::nat) ^ k = 2 ^ (8 * k)"
  by (simp add: power_mult)

lemma from_to_le_bytes:
  fixes w :: "'a::len word"
  assumes "LENGTH('a) \<le> 8 * k"
  shows "from_le_bytes (to_le_bytes k w) = w"
proof -
  have "unat w < 2 ^ LENGTH('a)" by (rule unat_lt2p)
  also have "\<dots> \<le> (256::nat) ^ k" unfolding pow256 using assms by (intro power_increasing) simp_all
  finally have "unat w mod 256 ^ k = unat w" by simp
  then show ?thesis by (simp add: from_le_bytes_def to_le_bytes_def le_value_nat_to_le)
qed

lemma to_from_le_bytes:
  assumes "8 * length bs \<le> LENGTH('a::len)"
  shows "to_le_bytes (length bs) (from_le_bytes bs :: 'a word) = bs"
proof -
  have "le_value bs < 2 ^ (8 * length bs)"
    using le_value_bound [of bs] by (simp add: pow256)
  also have "\<dots> \<le> (2::nat) ^ LENGTH('a)" using assms by (intro power_increasing) simp_all
  finally have "unat (of_nat (le_value bs) :: 'a word) = le_value bs"
    by (simp add: unat_of_nat)
  then show ?thesis by (simp add: from_le_bytes_def to_le_bytes_def nat_to_le_le_value)
qed

lemma from_to_be_bytes:
  fixes w :: "'a::len word"
  shows "LENGTH('a) \<le> 8 * k \<Longrightarrow> from_be_bytes (to_be_bytes k w) = w"
  by (simp add: from_be_bytes_def to_be_bytes_def from_to_le_bytes)

lemma to_from_be_bytes:
  "8 * length bs \<le> LENGTH('a::len) \<Longrightarrow> to_be_bytes (length bs) (from_be_bytes bs :: 'a word) = bs"
  using to_from_le_bytes [of "rev bs", where ?'a = 'a]
  by (simp add: from_be_bytes_def to_be_bytes_def)

section \<open>The contract of a fixed-width encoding\<close>

locale fixed_codec =
  fixes enc :: "'v \<Rightarrow> u8 list"
    and dec :: "u8 list \<Rightarrow> 'v"
    and width :: nat
  assumes enc_length: "length (enc v) = width"
    and dec_enc: "dec (enc v) = v"
    and enc_dec: "length bs = width \<Longrightarrow> enc (dec bs) = bs"
begin

lemma enc_inj: "enc v = enc v' \<longleftrightarrow> v = v'"
  by (metis dec_enc)

lemma dec_inj: "length bs = width \<Longrightarrow> length cs = width \<Longrightarrow> dec bs = dec cs \<longleftrightarrow> bs = cs"
  by (metis enc_dec)

lemma dec_take: "dec (take width (enc v @ rest)) = v"
  by (simp add: enc_length dec_enc)

lemma drop_enc: "drop width (enc v @ rest) = rest"
  by (simp add: enc_length)

lemma enc_append_eq: "enc v @ r = enc v' @ r' \<longleftrightarrow> v = v' \<and> r = r'"
  by (metis append_eq_append_conv enc_inj enc_length)

end

interpretation be16: fixed_codec "to_be_bytes 2 :: u16 \<Rightarrow> u8 list" from_be_bytes 2
proof
  fix bs :: "u8 list" assume "length bs = 2"
  then show "to_be_bytes 2 (from_be_bytes bs :: u16) = bs"
    using to_from_be_bytes [of bs, where ?'a = 16] by simp
qed (simp_all add: from_to_be_bytes)

interpretation be32: fixed_codec "to_be_bytes 4 :: u32 \<Rightarrow> u8 list" from_be_bytes 4
proof
  fix bs :: "u8 list" assume "length bs = 4"
  then show "to_be_bytes 4 (from_be_bytes bs :: u32) = bs"
    using to_from_be_bytes [of bs, where ?'a = 32] by simp
qed (simp_all add: from_to_be_bytes)

interpretation be128: fixed_codec "to_be_bytes 16 :: u128 \<Rightarrow> u8 list" from_be_bytes 16
proof
  fix bs :: "u8 list" assume "length bs = 16"
  then show "to_be_bytes 16 (from_be_bytes bs :: u128) = bs"
    using to_from_be_bytes [of bs, where ?'a = 128] by simp
qed (simp_all add: from_to_be_bytes)

interpretation le16: fixed_codec "to_le_bytes 2 :: u16 \<Rightarrow> u8 list" from_le_bytes 2
proof
  fix bs :: "u8 list" assume "length bs = 2"
  then show "to_le_bytes 2 (from_le_bytes bs :: u16) = bs"
    using to_from_le_bytes [of bs, where ?'a = 16] by simp
qed (simp_all add: from_to_le_bytes)

interpretation le32: fixed_codec "to_le_bytes 4 :: u32 \<Rightarrow> u8 list" from_le_bytes 4
proof
  fix bs :: "u8 list" assume "length bs = 4"
  then show "to_le_bytes 4 (from_le_bytes bs :: u32) = bs"
    using to_from_le_bytes [of bs, where ?'a = 32] by simp
qed (simp_all add: from_to_le_bytes)

lemmas codec_simps [byte_simps] =
  be16.dec_enc be32.dec_enc be128.dec_enc le16.dec_enc le32.dec_enc

end
