(* ===== verification/Cidr.thy ===== *)
theory Cidr
  imports Prelude
begin

unbundle bit_operations_syntax

text \<open>
  Network prefixes over an address word of any width. \<open>hi_mask n\<close> is the word whose
  \<open>n\<close> most significant bits are set; \<open>cidr_block x n\<close> is the set of addresses that share
  the first \<open>n\<close> bits of \<open>x\<close>, the meaning of \<open>x/n\<close>.

  The locale \<open>addr_family\<close> is what an address family has to provide, a mask per prefix
  length with the shift semantics of the sources (zero out of range). The facts the two
  families share, containment, inclusion and overlap of prefixes against the sets of
  addresses they denote, are proved once in it.
\<close>

definition hi_mask :: "nat \<Rightarrow> 'a::len word" where
  "hi_mask n = push_bit (LENGTH('a) - n) (- 1)"

definition cidr_block :: "'a::len word \<Rightarrow> nat \<Rightarrow> 'a word set" where
  "cidr_block x n = {y. unat y div 2 ^ (LENGTH('a) - n) = unat x div 2 ^ (LENGTH('a) - n)}"

lemma hi_mask_0 [simp]: "hi_mask 0 = (0 :: 'a::len word)"
  by (rule bit_word_eqI) (simp add: hi_mask_def bit_simps)

lemma and_hi_mask: "x AND hi_mask n = push_bit (LENGTH('a) - n) (drop_bit (LENGTH('a) - n) x)"
  for x :: "'a::len word"
  by (rule bit_word_eqI) (auto simp: hi_mask_def bit_simps)

lemma unat_and_hi_mask [net_simps]:
  fixes x :: "'a::len word"
  shows "unat (x AND hi_mask n) = unat x div 2 ^ (LENGTH('a) - n) * 2 ^ (LENGTH('a) - n)"
proof -
  let ?k = "LENGTH('a) - n"
  have "unat x div 2 ^ ?k * 2 ^ ?k \<le> unat x" by (rule div_times_less_eq_dividend)
  also have "\<dots> < 2 ^ LENGTH('a)" by (rule unat_lt2p)
  finally have "take_bit LENGTH('a) (unat x div 2 ^ ?k * 2 ^ ?k) = unat x div 2 ^ ?k * 2 ^ ?k"
    by (simp add: take_bit_nat_eq_self_iff)
  then show ?thesis
    unfolding and_hi_mask unsigned_push_bit_eq unsigned_drop_bit_eq
    by (simp add: push_bit_eq_mult drop_bit_eq_div take_bit_nat_eq_self unat_lt2p)
qed

lemma and_hi_mask_eq_iff [net_simps]:
  fixes x y :: "'a::len word"
  shows "x AND hi_mask n = y AND hi_mask n \<longleftrightarrow>
    unat x div 2 ^ (LENGTH('a) - n) = unat y div 2 ^ (LENGTH('a) - n)"
  by (simp add: word_unat_eq_iff unat_and_hi_mask)

lemma in_cidr_block [net_simps]:
  "y \<in> cidr_block x n \<longleftrightarrow> y AND hi_mask n = x AND hi_mask n"
  by (simp add: cidr_block_def and_hi_mask_eq_iff)

lemma cidr_block_self [simp]: "x \<in> cidr_block x n"
  by (simp add: cidr_block_def)

lemma hi_mask_le_iff:
  assumes "n \<le> LENGTH('a::len)" and "m \<le> LENGTH('a)"
  shows "(hi_mask n :: 'a word) \<le> hi_mask m \<longleftrightarrow> n \<le> m"
proof -
  have val: "unat (hi_mask k :: 'a word) = 2 ^ LENGTH('a) - 2 ^ (LENGTH('a) - k)"
    if "k \<le> LENGTH('a)" for k
  proof -
    have "unat (hi_mask k :: 'a word) = unat ((- 1) AND hi_mask k :: 'a word)" by simp
    also have "\<dots> = (2 ^ LENGTH('a) - 1) div 2 ^ (LENGTH('a) - k) * 2 ^ (LENGTH('a) - k)"
      by (simp only: unat_and_hi_mask unsigned_minus_1_eq_mask mask_eq_exp_minus_1)
    also have "(2 ^ LENGTH('a) - 1) div 2 ^ (LENGTH('a) - k) = (2 ^ k - 1 :: nat)"
    proof -
      have "(2::nat) ^ LENGTH('a) = 2 ^ k * 2 ^ (LENGTH('a) - k)"
        using that by (simp flip: power_add)
      then show ?thesis
        by (intro div_nat_eqI)
          (simp_all add: diff_mult_distrib2 algebra_simps diff_le_mono2 Suc_leI)
    qed
    also have "(2 ^ k - 1) * 2 ^ (LENGTH('a) - k) = (2::nat) ^ LENGTH('a) - 2 ^ (LENGTH('a) - k)"
      using that by (simp add: diff_mult_distrib flip: power_add)
    finally show ?thesis .
  qed
  have "(hi_mask n :: 'a word) \<le> hi_mask m \<longleftrightarrow>
      (2::nat) ^ LENGTH('a) - 2 ^ (LENGTH('a) - n) \<le> 2 ^ LENGTH('a) - 2 ^ (LENGTH('a) - m)"
    by (simp only: word_le_nat_alt val assms)
  also have "\<dots> \<longleftrightarrow> (2::nat) ^ (LENGTH('a) - m) \<le> 2 ^ (LENGTH('a) - n)"
    by (simp add: le_diff_iff')
  also have "\<dots> \<longleftrightarrow> n \<le> m" using assms by (simp add: power_increasing_iff) linarith
  finally show ?thesis .
qed

text \<open>Agreeing on more leading bits implies agreeing on fewer.\<close>

lemma block_coarser:
  fixes a b :: "'a::len word"
  assumes "n \<le> m" and "m \<le> LENGTH('a)"
    and "unat a div 2 ^ (LENGTH('a) - m) = unat b div 2 ^ (LENGTH('a) - m)"
  shows "unat a div 2 ^ (LENGTH('a) - n) = unat b div 2 ^ (LENGTH('a) - n)"
proof -
  have "(2::nat) ^ (LENGTH('a) - n) = 2 ^ (LENGTH('a) - m) * 2 ^ (m - n)"
    using assms(1,2) by (simp flip: power_add)
  then show ?thesis using assms(3) by (simp add: div_mult2_eq)
qed

lemma cidr_block_subset_iff:
  fixes x y :: "'a::len word"
  assumes "n \<le> LENGTH('a)" and "m \<le> LENGTH('a)"
  shows "cidr_block y m \<subseteq> cidr_block x n \<longleftrightarrow> n \<le> m \<and> y \<in> cidr_block x n"
proof
  assume "n \<le> m \<and> y \<in> cidr_block x n"
  then have nm: "n \<le> m" and y: "y \<in> cidr_block x n" by auto
  show "cidr_block y m \<subseteq> cidr_block x n"
  proof
    fix z assume "z \<in> cidr_block y m"
    then show "z \<in> cidr_block x n"
      using y block_coarser [OF nm assms(2), of z y] by (simp add: cidr_block_def)
  qed
next
  assume sub: "cidr_block y m \<subseteq> cidr_block x n"
  then have y: "y \<in> cidr_block x n" by auto
  have "n \<le> m"
  proof (rule ccontr)
    assume "\<not> n \<le> m"
    define s where "s = LENGTH('a) - n"
    define b where "b = LENGTH('a) - m"
    have sb: "s < b" "b \<le> LENGTH('a)"
      using \<open>\<not> n \<le> m\<close> assms by (auto simp: s_def b_def)
    define base where "base = unat y div 2 ^ b * 2 ^ b"
    have pow: "(2::nat) ^ s < 2 ^ b" using sb(1) by simp
    have lt: "base + 2 ^ s < 2 ^ LENGTH('a)"
    proof -
      have "unat y < 2 ^ (LENGTH('a) - b) * 2 ^ b"
        using unat_lt2p [of y] sb(2) by (simp flip: power_add)
      then have "unat y div 2 ^ b < 2 ^ (LENGTH('a) - b)"
        by (simp add: less_mult_imp_div_less)
      then have "(unat y div 2 ^ b + 1) * 2 ^ b \<le> 2 ^ (LENGTH('a) - b) * 2 ^ b"
        by (intro mult_right_mono) simp_all
      also have "\<dots> = 2 ^ LENGTH('a)" using sb(2) by (simp flip: power_add)
      finally have "base + 2 ^ b \<le> 2 ^ LENGTH('a)" by (simp add: base_def algebra_simps)
      with pow show ?thesis by linarith
    qed
    define p q :: "'a word" where "p = of_nat base" and "q = of_nat (base + 2 ^ s)"
    have up: "unat p = base" and uq: "unat q = base + 2 ^ s"
      using lt by (simp_all add: p_def q_def unat_of_nat take_bit_nat_eq_self_iff del: of_nat_add)
    have "p \<in> cidr_block y m" by (simp add: cidr_block_def up base_def flip: b_def)
    moreover have "q \<in> cidr_block y m"
      using pow by (simp add: cidr_block_def uq base_def flip: b_def)
    ultimately have "p \<in> cidr_block x n" and "q \<in> cidr_block x n"
      using sub by blast+
    then have "unat p div 2 ^ s = unat q div 2 ^ s" by (simp add: cidr_block_def s_def)
    then show False by (simp add: up uq div_add_self2)
  qed
  with y show "n \<le> m \<and> y \<in> cidr_block x n" by simp
qed

lemma cidr_block_overlap_iff:
  fixes x y :: "'a::len word"
  assumes "n \<le> m" and "m \<le> LENGTH('a)"
  shows "cidr_block x n \<inter> cidr_block y m \<noteq> {} \<longleftrightarrow> y \<in> cidr_block x n"
proof
  assume "cidr_block x n \<inter> cidr_block y m \<noteq> {}"
  then obtain z where "z \<in> cidr_block x n" "z \<in> cidr_block y m" by auto
  then show "y \<in> cidr_block x n"
    using block_coarser [OF assms, of z y] by (simp add: cidr_block_def)
next
  assume "y \<in> cidr_block x n"
  then show "cidr_block x n \<inter> cidr_block y m \<noteq> {}" using cidr_block_self by blast
qed

text \<open>A block is the interval from its network address to its broadcast address.\<close>

lemma or_not_mask: "x OR NOT m = (x AND m) + NOT m" for x m :: "'a::len word"
proof -
  have "(x AND m) + NOT m = (x AND m) OR NOT m"
    by (rule disjunctive_add_eq_or) (auto simp: bit_simps bit_eq_iff)
  also have "\<dots> = x OR NOT m" by (rule bit_word_eqI) (auto simp: bit_simps)
  finally show ?thesis by simp
qed

lemma or_not_mask_plus_1: "(x OR NOT m) + 1 = (x AND m) - m" for x m :: "'a::len word"
  by (subst or_not_mask) (simp add: not_eq_complement)

lemma unat_not_hi_mask:
  "unat (NOT (hi_mask n) :: 'a::len word) = 2 ^ (LENGTH('a) - n) - 1"
proof -
  have "NOT (hi_mask n) = (mask (LENGTH('a) - n) :: 'a word)"
    by (rule bit_word_eqI) (auto simp: hi_mask_def bit_simps)
  also have "\<dots> = of_nat (mask (LENGTH('a) - n))" by (simp add: of_nat_mask_eq)
  finally have e: "NOT (hi_mask n) = (of_nat (2 ^ (LENGTH('a) - n) - 1) :: 'a word)"
    by (simp add: mask_eq_exp_minus_1)
  have "(2::nat) ^ (LENGTH('a) - n) \<le> 2 ^ LENGTH('a)" by (rule power_increasing) simp_all
  then have "(2::nat) ^ (LENGTH('a) - n) - 1 < 2 ^ LENGTH('a)"
    using zero_less_power [of "2::nat" "LENGTH('a) - n"] by linarith
  then show ?thesis unfolding e unat_of_nat by (simp add: take_bit_nat_eq_self)
qed

lemma unat_or_not_hi_mask:
  fixes x :: "'a::len word"
  assumes "n \<le> LENGTH('a)"
  shows "unat (x OR NOT (hi_mask n)) =
    unat x div 2 ^ (LENGTH('a) - n) * 2 ^ (LENGTH('a) - n) + (2 ^ (LENGTH('a) - n) - 1)"
proof -
  let ?k = "LENGTH('a) - n"
  have "unat x < 2 ^ n * 2 ^ ?k" using unat_lt2p [of x] assms by (simp flip: power_add)
  then have "unat x div 2 ^ ?k < 2 ^ n" by (simp add: less_mult_imp_div_less)
  then have "(unat x div 2 ^ ?k + 1) * 2 ^ ?k \<le> 2 ^ n * 2 ^ ?k"
    by (intro mult_right_mono) simp_all
  also have "\<dots> = 2 ^ LENGTH('a)" using assms by (simp flip: power_add)
  finally have "unat x div 2 ^ ?k * 2 ^ ?k + 2 ^ ?k \<le> 2 ^ LENGTH('a)" by simp
  then have "unat x div 2 ^ ?k * 2 ^ ?k + (2 ^ ?k - 1) < 2 ^ LENGTH('a)"
    using zero_less_power [of "2::nat" ?k] by linarith
  then show ?thesis
    by (simp add: or_not_mask unat_word_ariths(1) unat_and_hi_mask unat_not_hi_mask)
qed

lemma cidr_block_interval:
  fixes x :: "'a::len word"
  assumes "n \<le> LENGTH('a)"
  shows "cidr_block x n = {x AND hi_mask n .. x OR NOT (hi_mask n)}"
proof -
  let ?k = "LENGTH('a) - n"
  have "unat y div 2 ^ ?k = unat x div 2 ^ ?k \<longleftrightarrow>
      unat x div 2 ^ ?k * 2 ^ ?k \<le> unat y \<and>
      unat y \<le> unat x div 2 ^ ?k * 2 ^ ?k + (2 ^ ?k - 1)" for y :: "'a word"
  proof -
    let ?q = "unat x div 2 ^ ?k"
    have pos: "(0::nat) < 2 ^ ?k" by simp
    have "unat y div 2 ^ ?k = ?q \<longleftrightarrow> ?q * 2 ^ ?k \<le> unat y \<and> unat y < Suc ?q * 2 ^ ?k"
      using div_nat_eqI [of "2 ^ ?k" ?q "unat y"] pos
      by (metis dividend_less_times_div div_times_less_eq_dividend mult.commute mult_Suc_right
          add.commute)
    moreover have "unat y < Suc ?q * 2 ^ ?k \<longleftrightarrow> unat y \<le> ?q * 2 ^ ?k + (2 ^ ?k - 1)"
      unfolding mult_Suc using pos by linarith
    ultimately show ?thesis by simp
  qed
  note block = this
  show ?thesis
    unfolding set_eq_iff cidr_block_def mem_Collect_eq atLeastAtMost_iff word_le_nat_alt
      unat_and_hi_mask unat_or_not_hi_mask [OF assms]
    by (rule allI) (rule block)
qed

section \<open>Subnets of a network\<close>

lemma neg_hi_mask: "- hi_mask n = (of_nat (2 ^ (LENGTH('a) - n)) :: 'a::len word)"
  by (simp add: hi_mask_def push_bit_eq_mult)

lemma aligned_offset:
  fixes x :: "'a::len word"
  assumes "x AND hi_mask n = x" and "n \<le> LENGTH('a)" and "d < 2 ^ (LENGTH('a) - n)"
  shows "unat (x + of_nat d) = unat x + d" and "x + of_nat d \<in> cidr_block x n"
proof -
  let ?P = "2 ^ (LENGTH('a) - n) :: nat"
  let ?q = "unat x div ?P"
  have split: "(2 :: nat) ^ LENGTH('a) = 2 ^ n * ?P" using assms(2) by (simp flip: power_add)
  have x: "unat x = ?q * ?P" using unat_and_hi_mask [of x n] assms(1) by simp
  have "?q < 2 ^ n" using unat_lt2p [of x] split by (simp add: less_mult_imp_div_less)
  then have "Suc ?q * ?P \<le> 2 ^ n * ?P" by (intro mult_le_mono1) simp
  then have lt: "unat x + d < 2 ^ LENGTH('a)" using x assms(3) split by simp
  then show u: "unat (x + of_nat d) = unat x + d"
    by (simp add: unat_word_ariths unat_of_nat mod_simps)
  have "(unat x + d) div ?P = ?q" using assms(3) by (subst x) simp
  then show "x + of_nat d \<in> cidr_block x n" by (simp add: cidr_block_def u)
qed

text \<open>The first subnet after the network address, and the last one, of a network split into
  subnets of length \<open>m\<close>: both lie in the network, start on a boundary and are in order.\<close>

lemma subnet_pool:
  fixes x :: "'a::len word"
  assumes x: "x AND hi_mask n = x" and nm: "n + 2 \<le> m" and m: "m \<le> LENGTH('a)"
  defines "S \<equiv> 2 ^ (LENGTH('a) - m) :: nat"
  shows "x + of_nat S \<in> cidr_block x n" and "unat (x + of_nat S) mod S = 0"
    and "x - hi_mask n - of_nat S \<in> cidr_block x n" and "unat (x - hi_mask n - of_nat S) mod S = 0"
    and "unat (x + of_nat S) = unat x + S"
    and "unat (x - hi_mask n - of_nat S) = unat x + (2 ^ (LENGTH('a) - n) - S)"
    and "x + of_nat S \<le> x - hi_mask n - of_nat S"
proof -
  let ?P = "2 ^ (LENGTH('a) - n) :: nat"
  have n: "n \<le> LENGTH('a)" using nm m by simp
  have P: "?P = 2 ^ (m - n) * S" using nm m by (simp add: S_def flip: power_add)
  have "(2 :: nat) ^ 2 \<le> 2 ^ (m - n)" using nm by (intro power_increasing) auto
  then have four: "4 * S \<le> ?P" unfolding P by (intro mult_le_mono1) simp
  have pos: "0 < S" by (simp add: S_def)
  have S_lt: "S < ?P" and last_lt: "?P - S < ?P" using four pos by linarith+
  have "x - hi_mask n = x + of_nat ?P" using neg_hi_mask [of n, where 'a = 'a] by (simp add: diff_conv_add_uminus del: of_nat_power)
  then have last: "x - hi_mask n - of_nat S = x + of_nat (?P - S)"
    using S_lt by (simp add: of_nat_diff del: of_nat_power)
  note off1 = aligned_offset [OF x n S_lt] and off2 = aligned_offset [OF x n last_lt]
  have "S dvd ?P" by (simp add: P)
  moreover have "?P dvd unat x" using unat_and_hi_mask [of x n] x by (metis dvd_triv_right)
  ultimately have dvd: "S dvd unat x" "S dvd unat x + (?P - S)"
    by (metis dvd_trans, metis dvd_trans dvd_add dvd_diff_nat dvd_refl)
  show "x + of_nat S \<in> cidr_block x n" by (rule off1(2))
  show u1: "unat (x + of_nat S) = unat x + S" by (rule off1(1))
  show "unat (x + of_nat S) mod S = 0" using dvd by (simp add: u1 mod_eq_0_iff_dvd)
  show "x - hi_mask n - of_nat S \<in> cidr_block x n" unfolding last by (rule off2(2))
  show u2: "unat (x - hi_mask n - of_nat S) = unat x + (?P - S)" unfolding last by (rule off2(1))
  show "unat (x - hi_mask n - of_nat S) mod S = 0" using dvd by (simp add: u2 mod_eq_0_iff_dvd)
  show "x + of_nat S \<le> x - hi_mask n - of_nat S"
    using four unfolding word_le_nat_alt u1 u2 by linarith
qed

section \<open>The contract of an address family\<close>

locale addr_family =
  fixes amask :: "u32 \<Rightarrow> 'a::len word"
  assumes amask_in: "unat p \<le> LENGTH('a) \<Longrightarrow> amask p = hi_mask (unat p)"
begin

lemma contains_iff:
  "unat p \<le> LENGTH('a) \<Longrightarrow> x AND amask p = y AND amask p \<longleftrightarrow> y \<in> cidr_block x (unat p)"
  by (auto simp: amask_in in_cidr_block)

lemma contains_cidr_iff:
  assumes "unat p \<le> LENGTH('a)" and "unat q \<le> LENGTH('a)"
  shows "amask p \<le> amask q \<and> x AND amask p = y AND amask p \<longleftrightarrow>
    cidr_block y (unat q) \<subseteq> cidr_block x (unat p)"
  unfolding contains_iff [OF assms(1)] cidr_block_subset_iff [OF assms]
  using assms by (simp add: amask_in hi_mask_le_iff)

lemma overlaps_iff:
  assumes "unat p \<le> LENGTH('a)" and "unat q \<le> LENGTH('a)"
  shows "x AND (if p < q then amask p else amask q) = y AND (if p < q then amask p else amask q)
    \<longleftrightarrow> cidr_block x (unat p) \<inter> cidr_block y (unat q) \<noteq> {}"
proof (cases "p < q")
  case True
  then have "unat p \<le> unat q" by (simp add: word_less_nat_alt)
  with True assms show ?thesis by (simp add: contains_iff cidr_block_overlap_iff)
next
  case False
  then have "unat q \<le> unat p" by (simp add: word_less_nat_alt)
  then have "cidr_block y (unat q) \<inter> cidr_block x (unat p) \<noteq> {} \<longleftrightarrow> x \<in> cidr_block y (unat q)"
    using assms by (intro cidr_block_overlap_iff)
  with False assms contains_iff [of q y x] show ?thesis by (auto simp: Int_commute)
qed

lemma network_idem: "(x AND amask p) AND amask p = x AND amask p"
  by (simp add: and.assoc)

lemma network_in_block:
  "unat p \<le> LENGTH('a) \<Longrightarrow> cidr_block (x AND amask p) (unat p) = cidr_block x (unat p)"
  by (auto simp: amask_in in_cidr_block and.assoc)

end

end
