(* ===== verification/Ipnet.thy ===== *)
theory Ipnet
  imports Bytes Cidr
begin

unbundle bit_operations_syntax

text \<open>
  IPv4 addresses and networks: \<open>crates/flannel-core/src/ip/ipnet.rs\<close>.

  An address is a \<open>u32\<close> in host order, a network an address with a prefix length. The
  arithmetic keeps the wrap-around of \<open>u32\<close>. Text is parsed and printed as the Rust
  standard library does for \<open>Ipv4Addr\<close> and \<open>u32\<close>; \<open>read_number\<close> is the number reader of
  \<open>core::net::parser\<close> that the IPv6 theory shares.
\<close>

section \<open>Data\<close>

datatype ip4 = IP4 (ip4_val: u32)

text \<open>The derived \<open>PartialOrd\<close>/\<open>Ord\<close> of the newtype is the order of its field.\<close>

instantiation ip4 :: linorder
begin

definition less_eq_ip4 :: "ip4 \<Rightarrow> ip4 \<Rightarrow> bool" where
  "less_eq_ip4 a b \<longleftrightarrow> ip4_val a \<le> ip4_val b"

definition less_ip4 :: "ip4 \<Rightarrow> ip4 \<Rightarrow> bool" where
  "less_ip4 a b \<longleftrightarrow> ip4_val a < ip4_val b"

instance
  by standard (auto simp: less_eq_ip4_def less_ip4_def ip4.expand)

end

record ip4net =
  n4_ip :: ip4
  n4_prefix_len :: u32

datatype ip4_parse_error = InvalidAddr string | InvalidNet string

definition ip4net_default :: ip4net where
  "ip4net_default = \<lparr>n4_ip = IP4 0, n4_prefix_len = 0\<rparr>"

section \<open>Addresses\<close>

definition ip4_from_octets :: "u8 \<Rightarrow> u8 \<Rightarrow> u8 \<Rightarrow> u8 \<Rightarrow> ip4" where
  "ip4_from_octets a b c d =
     IP4 (push_bit 24 (ucast a) OR push_bit 16 (ucast b) OR push_bit 8 (ucast c) OR ucast d)"

definition ip4_from_bytes :: "u8 list \<Rightarrow> ip4" where
  "ip4_from_bytes bs = IP4 (from_be_bytes bs)"

definition ip4_octets :: "ip4 \<Rightarrow> u8 list" where
  "ip4_octets ip = to_be_bytes 4 (ip4_val ip)"

definition show_u8 :: "u8 \<Rightarrow> string" where
  "show_u8 b = show_nat (unat b)"

definition ip4_string_sep :: "ip4 \<Rightarrow> string \<Rightarrow> string" where
  "ip4_string_sep ip sep = join_with sep (map show_u8 (ip4_octets ip))"

definition ip4_is_private :: "ip4 \<Rightarrow> bool" where
  "ip4_is_private ip =
     (let a = ip4_octets ip ! 0; b = ip4_octets ip ! 1 in
      a = 10 \<or> (a = 172 \<and> b AND 0xf0 = 16) \<or> (a = 192 \<and> b = 168))"

definition ip4_to_string :: "ip4 \<Rightarrow> string" where
  "ip4_to_string ip = join_with ''.'' (map show_u8 (ip4_octets ip))"

text \<open>
  The number reader of the standard library: all leading digits are consumed, too many
  digits, an overflow of the target type, no digit and a forbidden leading zero fail.
\<close>

definition read_number :: "nat \<Rightarrow> nat \<Rightarrow> bool \<Rightarrow> nat \<Rightarrow> string \<Rightarrow> (nat \<times> string) option" where
  "read_number radix max_digits allow_zero bound s =
     (let ds = takeWhile (is_digit radix) s; v = digits_value radix ds in
      if ds = [] \<or> max_digits < length ds \<or>
         (\<not> allow_zero \<and> hd ds = CHR ''0'' \<and> 1 < length ds) \<or> bound \<le> v
      then None else Some (v, dropWhile (is_digit radix) s))"

definition read_given_char :: "char \<Rightarrow> string \<Rightarrow> string option" where
  "read_given_char c s = (case s of [] \<Rightarrow> None | x # xs \<Rightarrow> if x = c then Some xs else None)"

text \<open>\<open>read_ipv4_addr\<close>: four groups, a dot before every group but the first.\<close>

definition read_octet :: "string \<Rightarrow> (u8 \<times> string) option" where
  "read_octet s = map_option (\<lambda>(v, r). (of_nat v, r)) (read_number 10 3 False 256 s)"

definition read_dot_octet :: "string \<Rightarrow> (u8 \<times> string) option" where
  "read_dot_octet s = Option.bind (read_given_char (CHR ''.'') s) read_octet"

definition read_ipv4_addr :: "string \<Rightarrow> (u8 list \<times> string) option" where
  "read_ipv4_addr s =
     Option.bind (read_octet s) (\<lambda>(a, s1).
     Option.bind (read_dot_octet s1) (\<lambda>(b, s2).
     Option.bind (read_dot_octet s2) (\<lambda>(c, s3).
     Option.bind (read_dot_octet s3) (\<lambda>(d, s4). Some ([a, b, c, d], s4)))))"

definition ip4_from_str :: "string \<Rightarrow> ip4_parse_error + ip4" where
  "ip4_from_str s =
     (if 15 < length s then Inl (InvalidAddr s)
      else case read_ipv4_addr s of
        Some (octets, []) \<Rightarrow> Inr (ip4_from_bytes octets)
      | _ \<Rightarrow> Inl (InvalidAddr s))"

section \<open>Networks\<close>

definition subnet_size :: "u32 \<Rightarrow> u32" where
  "subnet_size prefix_len =
     (if prefix_len = 0 \<or> prefix_len > 32 then 0 else push_bit (unat (32 - prefix_len)) 1)"

definition mask_value :: "u32 \<Rightarrow> u32" where
  "mask_value bits =
     (if bits = 0 \<or> bits > 32 then 0 else push_bit (unat (32 - bits)) (- 1))"

definition n4_mask :: "ip4net \<Rightarrow> u32" where
  "n4_mask n = mask_value (n4_prefix_len n)"

definition show_u32 :: "u32 \<Rightarrow> string" where
  "show_u32 w = show_nat (unat w)"

definition n4_string_sep :: "ip4net \<Rightarrow> string \<Rightarrow> string \<Rightarrow> string" where
  "n4_string_sep n octet_sep prefix_sep =
     ip4_string_sep (n4_ip n) octet_sep @ prefix_sep @ show_u32 (n4_prefix_len n)"

definition n4_network :: "ip4net \<Rightarrow> ip4net" where
  "n4_network n =
     \<lparr>n4_ip = IP4 (ip4_val (n4_ip n) AND n4_mask n), n4_prefix_len = n4_prefix_len n\<rparr>"

definition n4_clear_host_bits :: "ip4net \<Rightarrow> ip4net" where
  "n4_clear_host_bits n = n4_network n"

definition n4_next :: "ip4net \<Rightarrow> ip4net" where
  "n4_next n =
     \<lparr>n4_ip = IP4 (ip4_val (n4_ip n) + subnet_size (n4_prefix_len n)),
      n4_prefix_len = n4_prefix_len n\<rparr>"

text \<open>Built in release mode, where \<open>+= 1\<close> on a \<open>u32\<close> wraps.\<close>

definition n4_increment_ip :: "ip4net \<Rightarrow> ip4net" where
  "n4_increment_ip n = n\<lparr>n4_ip := IP4 (ip4_val (n4_ip n) + 1)\<rparr>"

definition n4_overlaps :: "ip4net \<Rightarrow> ip4net \<Rightarrow> bool" where
  "n4_overlaps a b =
     (let m = (if n4_prefix_len a < n4_prefix_len b then n4_mask a else n4_mask b) in
      ip4_val (n4_ip a) AND m = ip4_val (n4_ip b) AND m)"

definition n4_contains :: "ip4net \<Rightarrow> ip4 \<Rightarrow> bool" where
  "n4_contains n ip \<longleftrightarrow> ip4_val (n4_ip n) AND n4_mask n = ip4_val ip AND n4_mask n"

definition n4_contains_cidr :: "ip4net \<Rightarrow> ip4net \<Rightarrow> bool" where
  "n4_contains_cidr a b \<longleftrightarrow> n4_mask a \<le> n4_mask b \<and> n4_contains a (n4_ip b)"

definition n4_empty :: "ip4net \<Rightarrow> bool" where
  "n4_empty n \<longleftrightarrow> ip4_val (n4_ip n) = 0 \<and> n4_prefix_len n = 0"

definition n4_broadcast :: "ip4net \<Rightarrow> ip4" where
  "n4_broadcast n = IP4 (ip4_val (n4_ip n) OR NOT (n4_mask n))"

definition n4_to_string :: "ip4net \<Rightarrow> string" where
  "n4_to_string n = ip4_to_string (n4_ip n) @ ''/'' @ show_u32 (n4_prefix_len n)"

definition parse_u32 :: "string \<Rightarrow> u32 option" where
  "parse_u32 s = map_option of_nat (parse_unsigned (2 ^ 32) s)"

definition n4_from_str :: "string \<Rightarrow> ip4_parse_error + ip4net" where
  "n4_from_str s =
     rbind (ok_or (InvalidNet s) (split_once (CHR ''/'') s)) (\<lambda>(addr, prefix).
     rbind (ok_or (InvalidNet s) (parse_u32 prefix)) (\<lambda>prefix_len.
     if prefix_len > 32 then Inl (InvalidNet s)
     else rbind (ip4_from_str addr) (\<lambda>ip.
       Inr (n4_network \<lparr>n4_ip = ip, n4_prefix_len = prefix_len\<rparr>))))"

definition map_ip4_to_string :: "ip4net list \<Rightarrow> string list" where
  "map_ip4_to_string nws = map n4_to_string nws"

definition get_subnet_min :: "ip4 \<Rightarrow> u32 \<Rightarrow> ip4" where
  "get_subnet_min network size' = IP4 (ip4_val network + size')"

definition get_subnet_max :: "ip4 \<Rightarrow> u32 \<Rightarrow> ip4" where
  "get_subnet_max network size' = IP4 (ip4_val network - size')"

definition ip4_mask :: "u32 \<Rightarrow> ip4" where
  "ip4_mask bits = IP4 (mask_value bits)"

definition check_subnet :: "ip4 \<Rightarrow> ip4 \<Rightarrow> bool" where
  "check_subnet subnet m \<longleftrightarrow> IP4 (ip4_val subnet AND ip4_val m) = subnet"

section \<open>The IPv4 family\<close>

text \<open>The set of addresses a network stands for.\<close>

definition n4_addrs :: "ip4net \<Rightarrow> ip4 set" where
  "n4_addrs n = IP4 ` cidr_block (ip4_val (n4_ip n)) (unat (n4_prefix_len n))"

abbreviation n4_wf :: "ip4net \<Rightarrow> bool" where
  "n4_wf n \<equiv> n4_prefix_len n \<le> 32"

lemma n4_wf_unat: "p \<le> (32::u32) \<longleftrightarrow> unat p \<le> 32"
  by (simp add: word_le_nat_alt)

interpretation v4: addr_family mask_value
proof
  fix p :: u32 assume "unat p \<le> LENGTH(32)"
  then have le: "p \<le> 32" by (simp add: word_le_nat_alt)
  then have "unat (32 - p) = 32 - unat p" by (simp add: unat_sub)
  then show "mask_value p = hi_mask (unat p)"
    using le by (cases "p = 0") (simp add: mask_value_def, simp add: mask_value_def hi_mask_def)
qed

lemma n4_contains_iff:
  "n4_wf n \<Longrightarrow> n4_contains n ip \<longleftrightarrow> ip \<in> n4_addrs n"
  by (cases ip)
    (auto simp: n4_contains_def n4_mask_def n4_addrs_def n4_wf_unat v4.contains_iff)

lemma ip4_val_inj: "inj IP4"
  by (auto intro: injI)

lemma image_IP4_subset_iff [simp]: "IP4 ` A \<subseteq> IP4 ` B \<longleftrightarrow> A \<subseteq> B"
  by (simp add: ip4_val_inj inj_image_subset_iff)

section \<open>Text round trip\<close>

lemma read_number_show:
  assumes "n < bound" and "length (show_nat n) \<le> k" and "rest = [] \<or> \<not> is_digit 10 (hd rest)"
  shows "read_number 10 k False bound (show_nat n @ rest) = Some (n, rest)"
proof -
  have all: "\<forall>c \<in> set (show_nat n). is_digit 10 c" using show_nat_digits by blast
  then have tw: "takeWhile (is_digit 10) (show_nat n @ rest) = show_nat n"
    using assms(3) by (cases rest) (auto simp: takeWhile_append2)
  from all have dw: "dropWhile (is_digit 10) (show_nat n @ rest) = rest"
    using assms(3) by (cases rest) (auto simp: dropWhile_append2)
  have "CHR ''0'' = digit_char 0" by code_simp
  then have "\<not> (hd (show_nat n) = CHR ''0'' \<and> 1 < length (show_nat n))"
    using hd_show_nat_zero [of n] by auto
  then show ?thesis
    using assms(1,2) unfolding read_number_def tw dw
    by (simp add: digits_value_show_nat Let_def)
qed

lemma show_u8_length: "length (show_u8 b) \<le> 3"
  using length_show_nat_le [of "unat b" 3] unat_lt2p [of b] by (simp add: show_u8_def)

lemma read_octet_show:
  "rest = [] \<or> \<not> is_digit 10 (hd rest) \<Longrightarrow> read_octet (show_u8 b @ rest) = Some (b, rest)"
  using read_number_show [of "unat b" 256 3 rest] show_u8_length [of b] unat_lt2p [of b]
  by (simp add: read_octet_def show_u8_def)

lemma dot_not_digit: "to_digit 10 (CHR ''.'') = None"
  and slash_not_digit: "to_digit 10 (CHR ''/'') = None"
  by (simp_all add: to_digit_def)

lemma read_dot_octet_show:
  "rest = [] \<or> \<not> is_digit 10 (hd rest) \<Longrightarrow>
   read_dot_octet (CHR ''.'' # show_u8 b @ rest) = Some (b, rest)"
  by (simp add: read_dot_octet_def read_given_char_def read_octet_show)

lemma read_ipv4_addr_show:
  assumes "rest = [] \<or> \<not> is_digit 10 (hd rest)"
  shows "read_ipv4_addr (join_with ''.'' (map show_u8 [a, b, c, d]) @ rest) = Some ([a, b, c, d], rest)"
  using assms
  by (simp add: read_ipv4_addr_def read_octet_show read_dot_octet_show dot_not_digit)

lemma length4_cases: "length xs = 4 \<Longrightarrow> \<exists>a b c d. xs = [a, b, c, d]"
  by (auto simp: numeral_eq_Suc length_Suc_conv)

lemma octets_cases:
  obtains a b c d where "ip4_octets ip = [a, b, c, d]"
  using length4_cases [of "ip4_octets ip"] by (auto simp: ip4_octets_def)

lemma ip4_from_bytes_octets [simp]: "ip4_from_bytes (ip4_octets ip) = ip"
  by (simp add: ip4_from_bytes_def ip4_octets_def be32.dec_enc)

lemma ip4_to_string_length: "length (ip4_to_string ip) \<le> 15"
proof -
  obtain a b c d where o: "ip4_octets ip = [a, b, c, d]" by (rule octets_cases)
  show ?thesis
    using show_u8_length [of a] show_u8_length [of b] show_u8_length [of c] show_u8_length [of d]
    by (simp add: ip4_to_string_def o)
qed

lemma ip4_from_str_to_string [simp]: "ip4_from_str (ip4_to_string ip) = Inr ip"
proof -
  obtain a b c d where o: "ip4_octets ip = [a, b, c, d]" by (rule octets_cases)
  have "read_ipv4_addr (ip4_to_string ip) = Some (ip4_octets ip, [])"
    using read_ipv4_addr_show [of "[]" a b c d] by (simp add: ip4_to_string_def o)
  then show ?thesis using ip4_to_string_length [of ip] by (simp add: ip4_from_str_def)
qed

lemma slash_notin_show_nat: "CHR ''/'' \<notin> set (show_nat n)"
  using show_nat_digits slash_not_digit by blast

lemma slash_notin_ip4: "CHR ''/'' \<notin> set (ip4_to_string ip)"
proof -
  obtain a b c d where o: "ip4_octets ip = [a, b, c, d]" by (rule octets_cases)
  show ?thesis by (simp add: ip4_to_string_def o show_u8_def slash_notin_show_nat)
qed

lemma parse_u32_show [simp]: "parse_u32 (show_u32 w) = Some w"
  using parse_unsigned_show [of "unat w" "2 ^ 32"] unat_lt2p [of w]
  by (simp add: parse_u32_def show_u32_def)

lemma n4_from_str_to_string:
  "n4_wf n \<Longrightarrow> n4_from_str (n4_to_string n) = Inr (n4_network n)"
  by (simp add: n4_from_str_def n4_to_string_def split_once_append slash_notin_ip4 n4_network_def n4_mask_def)

section \<open>Arithmetic of prefixes\<close>

lemma subnet_size_eq: "subnet_size p = - mask_value p"
  by (simp add: subnet_size_def mask_value_def push_bit_eq_mult)

lemma n4_addrs_interval:
  assumes "n4_wf n"
  shows "n4_addrs n = {n4_ip (n4_network n) .. n4_broadcast n}"
proof -
  have "cidr_block (ip4_val (n4_ip n)) (unat (n4_prefix_len n)) =
      {ip4_val (n4_ip n) AND n4_mask n .. ip4_val (n4_ip n) OR NOT (n4_mask n)}"
    using assms cidr_block_interval [of "unat (n4_prefix_len n)" "ip4_val (n4_ip n)"]
      v4.amask_in [of "n4_prefix_len n"]
    by (simp add: n4_mask_def n4_wf_unat)
  note block = this
  have "IP4 w \<in> n4_addrs n \<longleftrightarrow> IP4 w \<in> {n4_ip (n4_network n) .. n4_broadcast n}" for w
    by (auto simp: n4_addrs_def n4_network_def n4_broadcast_def less_eq_ip4_def block)
  then show ?thesis by (metis ip4.collapse set_eq_iff)
qed

lemma check_subnet_iff:
  assumes "bits \<le> 32"
  shows "check_subnet ip (ip4_mask bits) \<longleftrightarrow> unat (ip4_val ip) mod 2 ^ (32 - unat bits) = 0"
proof -
  have m: "mask_value bits = hi_mask (unat bits)"
    using assms by (intro v4.amask_in) (simp add: n4_wf_unat)
  have "check_subnet ip (ip4_mask bits) \<longleftrightarrow> unat (ip4_val ip AND hi_mask (unat bits)) = unat (ip4_val ip)"
    by (cases ip) (simp add: check_subnet_def ip4_mask_def m word_unat_eq_iff)
  also have "\<dots> \<longleftrightarrow> unat (ip4_val ip) mod 2 ^ (32 - unat bits) = 0"
    by (simp add: unat_and_hi_mask) (metis add_cancel_left_right div_mult_mod_eq)
  finally show ?thesis .
qed

section \<open>Properties\<close>

text \<open>A network contains another (\<open>contains_cidr\<close>) exactly when every address of the other
  is an address of it, for prefix lengths in range.\<close>

theorem n4_contains_cidr_subset:
  assumes "n4_prefix_len a \<le> 32" and "n4_prefix_len b \<le> 32"
  shows "n4_contains_cidr a b \<longleftrightarrow> n4_addrs b \<subseteq> n4_addrs a"
  using assms v4.contains_cidr_iff [of "n4_prefix_len a" "n4_prefix_len b"
      "ip4_val (n4_ip a)" "ip4_val (n4_ip b)"]
  by (simp add: n4_contains_cidr_def n4_contains_def n4_mask_def n4_addrs_def n4_wf_unat)

theorem n4_contains_cidr_subset_witness:
  "n4_addrs \<lparr>n4_ip = IP4 0x0AF40500, n4_prefix_len = 24\<rparr> \<subseteq>
     n4_addrs \<lparr>n4_ip = IP4 0x0AF40000, n4_prefix_len = 16\<rparr>"
  using n4_contains_cidr_subset [of "\<lparr>n4_ip = IP4 0x0AF40000, n4_prefix_len = 16\<rparr>"
      "\<lparr>n4_ip = IP4 0x0AF40500, n4_prefix_len = 24\<rparr>"]
  by (simp add: n4_contains_cidr_def n4_contains_def n4_mask_def mask_value_def push_bit_eq_mult)

text \<open>Two networks overlap (\<open>overlaps\<close>) exactly when they share an address, for prefix
  lengths in range.\<close>

theorem n4_overlaps_share_address:
  assumes "n4_prefix_len a \<le> 32" and "n4_prefix_len b \<le> 32"
  shows "n4_overlaps a b \<longleftrightarrow> n4_addrs a \<inter> n4_addrs b \<noteq> {}"
  using assms v4.overlaps_iff [of "n4_prefix_len a" "n4_prefix_len b"
      "ip4_val (n4_ip a)" "ip4_val (n4_ip b)"]
  by (simp add: n4_overlaps_def n4_mask_def n4_addrs_def n4_wf_unat Let_def split: if_splits
      flip: image_Int [OF ip4_val_inj])

theorem n4_overlaps_share_address_witness:
  "n4_addrs \<lparr>n4_ip = IP4 0x01020300, n4_prefix_len = 24\<rparr> \<inter>
     n4_addrs \<lparr>n4_ip = IP4 0x01020000, n4_prefix_len = 16\<rparr> \<noteq> {}"
  using n4_overlaps_share_address [of "\<lparr>n4_ip = IP4 0x01020300, n4_prefix_len = 24\<rparr>"
      "\<lparr>n4_ip = IP4 0x01020000, n4_prefix_len = 16\<rparr>"]
  by (simp add: n4_overlaps_def n4_mask_def mask_value_def push_bit_eq_mult)

text \<open>The addresses of a network are exactly those from its network address to its
  broadcast address, and the network after it starts right after the broadcast address
  (modulo \<open>2^32\<close>).\<close>

theorem n4_range:
  assumes "n4_prefix_len n \<le> 32"
  shows "n4_addrs n = {n4_ip (n4_network n) .. n4_broadcast n} \<and>
    ip4_val (n4_ip (n4_next (n4_network n))) = ip4_val (n4_broadcast n) + 1"
proof
  show "n4_addrs n = {n4_ip (n4_network n) .. n4_broadcast n}"
    using assms by (rule n4_addrs_interval)
  show "ip4_val (n4_ip (n4_next (n4_network n))) = ip4_val (n4_broadcast n) + 1"
    by (simp add: n4_next_def n4_network_def n4_broadcast_def n4_mask_def subnet_size_eq
        or_not_mask_plus_1)
qed

theorem n4_range_witness:
  "n4_addrs \<lparr>n4_ip = IP4 0x01020305, n4_prefix_len = 24\<rparr> = {IP4 0x01020300 .. IP4 0x010203FF}"
  using n4_range [of "\<lparr>n4_ip = IP4 0x01020305, n4_prefix_len = 24\<rparr>"]
  by (simp add: n4_network_def n4_broadcast_def n4_mask_def mask_value_def push_bit_eq_mult)

text \<open>Parsing the printed form of a network gives the network with its host bits cleared,
  so every network without host bits survives the trip through text unchanged.\<close>

theorem n4_text_roundtrip:
  assumes "n4_prefix_len n \<le> 32"
  shows "n4_from_str (n4_to_string n) = Inr (n4_network n) \<and>
    (n4_network n = n \<longrightarrow> n4_from_str (n4_to_string n) = Inr n)"
  using n4_from_str_to_string [of n] assms by simp

theorem n4_text_roundtrip_witness:
  "n4_from_str (n4_to_string \<lparr>n4_ip = IP4 0x01020305, n4_prefix_len = 24\<rparr>)
     = Inr \<lparr>n4_ip = IP4 0x01020300, n4_prefix_len = 24\<rparr>"
  using n4_text_roundtrip [of "\<lparr>n4_ip = IP4 0x01020305, n4_prefix_len = 24\<rparr>"]
  by (simp add: n4_network_def n4_mask_def mask_value_def push_bit_eq_mult)

end
