(* ===== verification/Ip6net.thy ===== *)
theory Ip6net
  imports Ipnet
begin

unbundle bit_operations_syntax

text \<open>
  IPv6 addresses and networks: \<open>crates/flannel-core/src/ip/ip6net.rs\<close>.

  An address is its 16 big-endian bytes, as in the source, and the arithmetic goes through
  the \<open>u128\<close> value of those bytes with its wrap-around. The text forms are those of the
  Rust standard library: \<open>Ipv6Addr\<close>'s \<open>Display\<close> (RFC 5952 compression, dotted quad for
  mapped IPv4 addresses) and its parser.
\<close>

section \<open>Data\<close>

datatype ip6 = IP6 (ip6_bytes: "u8 list")

record ip6net =
  n6_ip :: ip6
  n6_prefix_len :: u32

datatype ip6_parse_error = InvalidAddr6 string | InvalidNet6 string

definition ip6_value :: "ip6 \<Rightarrow> u128" where
  "ip6_value ip = from_be_bytes (ip6_bytes ip)"

definition ip6_from_value :: "u128 \<Rightarrow> ip6" where
  "ip6_from_value v = IP6 (to_be_bytes 16 v)"

definition ip6_default :: ip6 where
  "ip6_default = IP6 (replicate 16 0)"

definition ip6net_default :: ip6net where
  "ip6net_default = \<lparr>n6_ip = ip6_default, n6_prefix_len = 0\<rparr>"

definition ip6_is_private :: "ip6 \<Rightarrow> bool" where
  "ip6_is_private ip \<longleftrightarrow> ip6_bytes ip ! 0 AND 0xfe = 0xfc"

section \<open>Text\<close>

text \<open>The eight 16-bit segments of an address.\<close>

fun segments_of :: "u8 list \<Rightarrow> u16 list" where
  "segments_of (a # b # bs) = from_be_bytes [a, b] # segments_of bs"
| "segments_of bs = []"

definition bytes_of_segments :: "u16 list \<Rightarrow> u8 list" where
  "bytes_of_segments ss = concat (map (to_be_bytes 2) ss)"

definition hex_digit :: "nat \<Rightarrow> char" where
  "hex_digit d = (if d < 10 then char_of (48 + d) else char_of (87 + d))"

fun show_hex_nat :: "nat \<Rightarrow> string" where
  "show_hex_nat n =
     (if n < 16 then [hex_digit n] else show_hex_nat (n div 16) @ [hex_digit (n mod 16)])"

declare show_hex_nat.simps [simp del]

text \<open>
  The longest run of zero segments, the first one of that length. The accumulator holds
  the longest run so far and the current one, each as start and length.
\<close>

fun longest_zeroes :: "u16 list \<Rightarrow> nat \<Rightarrow> nat \<times> nat \<Rightarrow> nat \<times> nat \<Rightarrow> nat \<times> nat" where
  "longest_zeroes [] i longest current = longest"
| "longest_zeroes (s # ss) i longest current =
     (if s = 0 then
        let current' = (if snd current = 0 then (i, 1) else (fst current, snd current + 1));
            longest' = (if snd current' > snd longest then current' else longest)
        in longest_zeroes ss (i + 1) longest' current'
      else longest_zeroes ss (i + 1) longest (0, 0))"

definition fmt_subslice :: "u16 list \<Rightarrow> string" where
  "fmt_subslice ss = join_with '':'' (map (\<lambda>s. show_hex_nat (unat s)) ss)"

definition ip6_to_string :: "ip6 \<Rightarrow> string" where
  "ip6_to_string ip =
     (let bs = ip6_bytes ip; ss = segments_of bs in
      if take 12 bs = replicate 10 0 @ [0xff, 0xff]
      then ''::ffff:'' @ join_with ''.'' (map show_u8 (drop 12 bs))
      else (let (start, len) = longest_zeroes ss 0 (0, 0) (0, 0) in
        if len > 1
        then fmt_subslice (take start ss) @ ''::'' @ fmt_subslice (drop (start + len) ss)
        else fmt_subslice ss))"

text \<open>
  \<open>read_groups\<close> with \<open>limit\<close> free slots, having read \<open>i\<close> groups: an embedded IPv4 address
  ends the groups when at least two slots are left, otherwise one hexadecimal group is
  read; a colon separates the groups. The result is the groups read, whether the last two
  came from an IPv4 address, and the remaining text.
\<close>

definition read_sep :: "nat \<Rightarrow> string \<Rightarrow> string option" where
  "read_sep i s = (if i = 0 then Some s else read_given_char (CHR '':'') s)"

fun read_groups :: "nat \<Rightarrow> nat \<Rightarrow> string \<Rightarrow> u16 list \<times> bool \<times> string" where
  "read_groups i 0 s = ([], False, s)"
| "read_groups i (Suc left) s =
     (case (if 0 < left then Option.bind (read_sep i s) read_ipv4_addr else None) of
        Some ([a, b, c, d], rest) \<Rightarrow> ([from_be_bytes [a, b], from_be_bytes [c, d]], True, rest)
      | _ \<Rightarrow>
        (case Option.bind (read_sep i s) (read_number 16 4 True 65536) of
           None \<Rightarrow> ([], False, s)
         | Some (g, rest) \<Rightarrow>
             (let (gs, v4, rest') = read_groups (Suc i) left rest in (of_nat g # gs, v4, rest'))))"

definition read_ipv6_addr :: "string \<Rightarrow> (u16 list \<times> string) option" where
  "read_ipv6_addr s =
     (let (head, head_v4, s1) = read_groups 0 8 s in
      if length head = 8 then Some (head, s1)
      else if head_v4 then None
      else Option.bind (read_given_char (CHR '':'') s1) (\<lambda>s2.
           Option.bind (read_given_char (CHR '':'') s2) (\<lambda>s3.
           let (tail, _, s4) = read_groups 0 (8 - (length head + 1)) s3
           in Some (head @ replicate (8 - length head - length tail) 0 @ tail, s4))))"

definition ip6_from_str :: "string \<Rightarrow> ip6_parse_error + ip6" where
  "ip6_from_str s =
     (case read_ipv6_addr s of
        Some (ss, []) \<Rightarrow> Inr (IP6 (bytes_of_segments ss))
      | _ \<Rightarrow> Inl (InvalidAddr6 s))"

section \<open>Arithmetic\<close>

definition ip6_is_empty :: "ip6 \<Rightarrow> bool" where
  "ip6_is_empty subnet \<longleftrightarrow> ip6_bytes subnet = replicate 16 0"

definition get_ipv6_subnet_min :: "ip6 \<Rightarrow> u128 \<Rightarrow> ip6" where
  "get_ipv6_subnet_min network_ip size' = ip6_from_value (ip6_value network_ip + size')"

definition get_ipv6_subnet_max :: "ip6 \<Rightarrow> u128 \<Rightarrow> ip6" where
  "get_ipv6_subnet_max network_ip size' = ip6_from_value (ip6_value network_ip - size')"

definition check_ipv6_subnet :: "ip6 \<Rightarrow> ip6 \<Rightarrow> bool" where
  "check_ipv6_subnet subnet_ip m \<longleftrightarrow>
     ip6_value subnet_ip AND ip6_value m = ip6_value subnet_ip"

definition mask6 :: "u32 \<Rightarrow> ip6" where
  "mask6 bits =
     (if bits = 0 \<or> bits > 128 then IP6 (replicate 16 0)
      else IP6 (to_be_bytes 16 (push_bit (unat (128 - bits)) (- 1) :: u128)))"

definition subnet_size6 :: "u32 \<Rightarrow> u128" where
  "subnet_size6 prefix_len =
     (if prefix_len = 0 \<or> prefix_len > 128 then 0 else push_bit (unat (128 - prefix_len)) 1)"

definition n6_mask :: "ip6net \<Rightarrow> ip6" where
  "n6_mask n = mask6 (n6_prefix_len n)"

definition n6_to_string :: "ip6net \<Rightarrow> string" where
  "n6_to_string n = ip6_to_string (n6_ip n) @ ''/'' @ show_u32 (n6_prefix_len n)"

definition n6_string_sep :: "ip6net \<Rightarrow> string \<Rightarrow> string \<Rightarrow> string" where
  "n6_string_sep n hex_sep prefix_sep =
     ip6_to_string (n6_ip n) @ prefix_sep @ show_u32 (n6_prefix_len n)"

definition n6_network :: "ip6net \<Rightarrow> ip6net" where
  "n6_network n =
     \<lparr>n6_ip = ip6_from_value (ip6_value (n6_ip n) AND ip6_value (n6_mask n)),
      n6_prefix_len = n6_prefix_len n\<rparr>"

definition n6_clear_host_bits :: "ip6net \<Rightarrow> ip6net" where
  "n6_clear_host_bits n = n6_network n"

definition n6_next :: "ip6net \<Rightarrow> ip6net" where
  "n6_next n =
     \<lparr>n6_ip = ip6_from_value (ip6_value (n6_ip n) + subnet_size6 (n6_prefix_len n)),
      n6_prefix_len = n6_prefix_len n\<rparr>"

definition n6_increment_ip :: "ip6net \<Rightarrow> ip6net" where
  "n6_increment_ip n = n\<lparr>n6_ip := ip6_from_value (ip6_value (n6_ip n) + 1)\<rparr>"

definition n6_overlaps :: "ip6net \<Rightarrow> ip6net \<Rightarrow> bool" where
  "n6_overlaps a b =
     (let m = (if n6_prefix_len a < n6_prefix_len b then ip6_value (n6_mask a) else ip6_value (n6_mask b)) in
      ip6_value (n6_ip a) AND m = ip6_value (n6_ip b) AND m)"

definition n6_contains :: "ip6net \<Rightarrow> ip6 \<Rightarrow> bool" where
  "n6_contains n ip =
     (let m = ip6_value (n6_mask n) in ip6_value (n6_ip n) AND m = ip6_value ip AND m)"

definition n6_contains_cidr :: "ip6net \<Rightarrow> ip6net \<Rightarrow> bool" where
  "n6_contains_cidr a b \<longleftrightarrow>
     ip6_value (n6_mask a) \<le> ip6_value (n6_mask b) \<and> n6_contains a (n6_ip b)"

definition n6_empty :: "ip6net \<Rightarrow> bool" where
  "n6_empty n \<longleftrightarrow> ip6_is_empty (n6_ip n) \<and> n6_prefix_len n = 0"

definition n6_from_str :: "string \<Rightarrow> ip6_parse_error + ip6net" where
  "n6_from_str s =
     rbind (ok_or (InvalidNet6 s) (split_once (CHR ''/'') s)) (\<lambda>(addr, prefix).
     rbind (ok_or (InvalidNet6 s) (parse_u32 prefix)) (\<lambda>prefix_len.
     if prefix_len > 128 then Inl (InvalidNet6 s)
     else rbind (ip6_from_str addr) (\<lambda>ip.
       Inr (n6_network \<lparr>n6_ip = ip, n6_prefix_len = prefix_len\<rparr>))))"

definition map_ip6_to_string :: "ip6net list \<Rightarrow> string list" where
  "map_ip6_to_string nws = map n6_to_string nws"

section \<open>The IPv6 family\<close>

text \<open>An address has 16 bytes; every address the code builds does.\<close>

abbreviation ip6_wf :: "ip6 \<Rightarrow> bool" where
  "ip6_wf ip \<equiv> length (ip6_bytes ip) = 16"

lemma ip6_value_from_value [simp]: "ip6_value (ip6_from_value v) = v"
  by (simp add: ip6_value_def ip6_from_value_def be128.dec_enc)

lemma ip6_wf_from_value [simp]: "ip6_wf (ip6_from_value v)"
  by (simp add: ip6_from_value_def)

lemma ip6_from_value_value [simp]: "ip6_wf ip \<Longrightarrow> ip6_from_value (ip6_value ip) = ip"
  by (cases ip) (simp add: ip6_value_def ip6_from_value_def be128.enc_dec)

lemma ip6_value_inj: "ip6_wf a \<Longrightarrow> ip6_wf b \<Longrightarrow> ip6_value a = ip6_value b \<longleftrightarrow> a = b"
  by (metis ip6_from_value_value)

lemma ip6_value_zero: "ip6_value (IP6 (replicate 16 0)) = 0"
  by (simp add: ip6_value_def from_be_bytes_def from_le_bytes_def numeral_eq_Suc)

lemma ip6_value_mask6:
  "ip6_value (mask6 p) =
     (if p = 0 \<or> p > 128 then 0 else push_bit (unat (128 - p)) (- 1))"
  using ip6_value_from_value
  by (simp add: mask6_def ip6_value_zero flip: ip6_from_value_def)

lemma n6_wf_unat: "p \<le> (128::u32) \<longleftrightarrow> unat p \<le> 128"
  by (simp add: word_le_nat_alt)

interpretation v6: addr_family "\<lambda>p. ip6_value (mask6 p)"
proof
  fix p :: u32 assume "unat p \<le> LENGTH(128)"
  then have le: "p \<le> 128" by (simp add: word_le_nat_alt)
  then have "unat (128 - p) = 128 - unat p" by (simp add: unat_sub)
  then show "ip6_value (mask6 p) = hi_mask (unat p)"
    using le by (cases "p = 0") (simp add: ip6_value_mask6, simp add: ip6_value_mask6 hi_mask_def)
qed

definition n6_addrs :: "ip6net \<Rightarrow> ip6 set" where
  "n6_addrs n = ip6_from_value ` cidr_block (ip6_value (n6_ip n)) (unat (n6_prefix_len n))"

lemma inj_ip6_from_value: "inj ip6_from_value"
  by (metis injI ip6_value_from_value)

lemma n6_contains_iff:
  "n6_prefix_len n \<le> 128 \<Longrightarrow> ip6_wf ip \<Longrightarrow> n6_contains n ip \<longleftrightarrow> ip \<in> n6_addrs n"
  using v6.contains_iff [of "n6_prefix_len n" "ip6_value (n6_ip n)" "ip6_value ip"]
  by (auto simp: n6_contains_def n6_mask_def n6_addrs_def n6_wf_unat image_iff Let_def)
    (metis ip6_from_value_value)

lemma subnet_size6_eq: "subnet_size6 p = - ip6_value (mask6 p)"
  by (simp add: subnet_size6_def ip6_value_mask6 push_bit_eq_mult)

lemma check_ipv6_subnet_iff:
  assumes "bits \<le> 128"
  shows "check_ipv6_subnet ip (mask6 bits) \<longleftrightarrow> unat (ip6_value ip) mod 2 ^ (128 - unat bits) = 0"
proof -
  have m: "ip6_value (mask6 bits) = hi_mask (unat bits)"
    using assms by (intro v6.amask_in) (simp add: n6_wf_unat)
  have "check_ipv6_subnet ip (mask6 bits) \<longleftrightarrow>
      unat (ip6_value ip AND hi_mask (unat bits)) = unat (ip6_value ip)"
    by (simp add: check_ipv6_subnet_def m word_unat_eq_iff)
  also have "\<dots> \<longleftrightarrow> unat (ip6_value ip) mod 2 ^ (128 - unat bits) = 0"
    by (simp add: unat_and_hi_mask) (metis add_cancel_left_right div_mult_mod_eq)
  finally show ?thesis .
qed

section \<open>Properties\<close>

text \<open>For IPv6 as for IPv4, containment and overlap of networks are inclusion and
  intersection of their sets of addresses, for prefix lengths in range.\<close>

theorem n6_contains_overlaps_sets:
  assumes "n6_prefix_len a \<le> 128" and "n6_prefix_len b \<le> 128"
  shows "(n6_contains_cidr a b \<longleftrightarrow> n6_addrs b \<subseteq> n6_addrs a) \<and>
    (n6_overlaps a b \<longleftrightarrow> n6_addrs a \<inter> n6_addrs b \<noteq> {})"
proof
  show "n6_contains_cidr a b \<longleftrightarrow> n6_addrs b \<subseteq> n6_addrs a"
    using assms v6.contains_cidr_iff [of "n6_prefix_len a" "n6_prefix_len b"
        "ip6_value (n6_ip a)" "ip6_value (n6_ip b)"]
    by (simp add: n6_contains_cidr_def n6_contains_def n6_mask_def n6_addrs_def n6_wf_unat Let_def
        inj_image_subset_iff [OF inj_ip6_from_value])
  show "n6_overlaps a b \<longleftrightarrow> n6_addrs a \<inter> n6_addrs b \<noteq> {}"
    using assms v6.overlaps_iff [of "n6_prefix_len a" "n6_prefix_len b"
        "ip6_value (n6_ip a)" "ip6_value (n6_ip b)"]
    by (simp add: n6_overlaps_def n6_mask_def n6_addrs_def n6_wf_unat Let_def split: if_splits
        flip: image_Int [OF inj_ip6_from_value])
qed

theorem n6_contains_overlaps_sets_witness:
  "n6_addrs \<lparr>n6_ip = ip6_from_value 0xfc000000000000050000000000000000, n6_prefix_len = 64\<rparr> \<subseteq>
     n6_addrs \<lparr>n6_ip = ip6_from_value 0xfc000000000000000000000000000000, n6_prefix_len = 48\<rparr>"
  using n6_contains_overlaps_sets
    [of "\<lparr>n6_ip = ip6_from_value 0xfc000000000000000000000000000000, n6_prefix_len = 48\<rparr>"
      "\<lparr>n6_ip = ip6_from_value 0xfc000000000000050000000000000000, n6_prefix_len = 64\<rparr>"]
  by (simp add: n6_contains_cidr_def n6_contains_def n6_mask_def ip6_value_mask6 push_bit_eq_mult)

end
