(* ===== verification/Keyed.thy ===== *)
theory Keyed
  imports Prelude
begin

text \<open>
  Lists kept as sets under a match predicate. The sources keep leases, static routes and
  proxy routes in vectors and find the entry to overwrite or drop by a linear scan for the
  first match. \<open>upsert\<close> and \<open>remove_first\<close> are those scans; the locale \<open>keyed_store\<close> says
  when such a vector is a finite map, and gives the map each operation produces.
\<close>

text \<open>Overwrite the first match, append when there is none.\<close>

fun upsert :: "('a \<Rightarrow> bool) \<Rightarrow> 'a \<Rightarrow> 'a list \<Rightarrow> 'a list" where
  "upsert p x [] = [x]"
| "upsert p x (y # ys) = (if p y then x # ys else y # upsert p x ys)"

text \<open>Take the first match out.\<close>

fun remove_first :: "('a \<Rightarrow> bool) \<Rightarrow> 'a list \<Rightarrow> ('a \<times> 'a list) option" where
  "remove_first p [] = None"
| "remove_first p (y # ys) =
     (if p y then Some (y, ys) else map_option (\<lambda>(z, zs). (z, y # zs)) (remove_first p ys))"

lemma remove_first_None: "remove_first p xs = None \<longleftrightarrow> (\<forall>x \<in> set xs. \<not> p x)"
  by (induction xs) auto

lemma remove_first_Some:
  "remove_first p xs = Some (z, zs) \<Longrightarrow>
     p z \<and> (\<exists>us vs. xs = us @ z # vs \<and> zs = us @ vs \<and> (\<forall>u \<in> set us. \<not> p u))"
proof (induction xs arbitrary: zs)
  case Nil
  then show ?case by simp
next
  case (Cons y ys)
  show ?case
  proof (cases "p y")
    case True
    with Cons.prems show ?thesis by fastforce
  next
    case False
    with Cons.prems obtain ws where ws: "remove_first p ys = Some (z, ws)" "zs = y # ws"
      by auto
    from Cons.IH [OF ws(1)] obtain us vs where
      "p z" "ys = us @ z # vs" "ws = us @ vs" "\<forall>u \<in> set us. \<not> p u" by blast
    with False ws(2) have "p z \<and> y # ys = (y # us) @ z # vs \<and> zs = (y # us) @ vs \<and>
      (\<forall>u \<in> set (y # us). \<not> p u)" by simp
    then show ?thesis by blast
  qed
qed

lemma upsert_no_match: "(\<forall>x \<in> set xs. \<not> p x) \<Longrightarrow> upsert p v xs = xs @ [v]"
  by (induction xs) auto

definition store_map :: "('a \<Rightarrow> 'k) \<Rightarrow> 'a list \<Rightarrow> 'k \<rightharpoonup> 'a" where
  "store_map key xs = map_of (map (\<lambda>a. (key a, a)) xs)"

lemma store_map_simps [simp]:
  "store_map key [] = Map.empty"
  "store_map key (x # xs) = (store_map key xs)(key x \<mapsto> x)"
  by (simp_all add: store_map_def)

lemma store_map_None: "store_map key xs k = None \<longleftrightarrow> k \<notin> key ` set xs"
  by (induction xs) auto

lemma dom_store_map [simp]: "dom (store_map key xs) = key ` set xs"
  by (rule set_eqI) (metis domIff store_map_None)

lemma store_map_Some:
  "distinct (map key xs) \<Longrightarrow> store_map key xs k = Some x \<longleftrightarrow> x \<in> set xs \<and> key x = k"
  by (induction xs) (auto simp: rev_image_eqI)

lemma store_map_set:
  assumes "distinct (map key xs)" and "distinct (map key ys)" and "set xs = set ys"
  shows "store_map key xs = store_map key ys"
proof
  fix k
  have "store_map key xs k = Some x \<longleftrightarrow> store_map key ys k = Some x" for x
    using assms by (simp add: store_map_Some)
  then show "store_map key xs k = store_map key ys k"
    by (metis not_None_eq)
qed

locale keyed_store =
  fixes matches :: "'a \<Rightarrow> 'a \<Rightarrow> bool"
    and key :: "'a \<Rightarrow> 'k"
    and ok :: "'a \<Rightarrow> bool"
  assumes matches_key: "ok a \<Longrightarrow> ok b \<Longrightarrow> matches a b \<longleftrightarrow> key a = key b"
begin

definition inv :: "'a list \<Rightarrow> bool" where
  "inv xs \<longleftrightarrow> distinct (map key xs) \<and> list_all ok xs"

lemma inv_Nil [simp]: "inv []"
  by (simp add: inv_def)

lemma inv_Cons [simp]: "inv (x # xs) \<longleftrightarrow> key x \<notin> key ` set xs \<and> ok x \<and> inv xs"
  by (auto simp: inv_def)

lemma upsert_map:
  "inv xs \<Longrightarrow> ok x \<Longrightarrow> store_map key (upsert (\<lambda>y. matches y x) x xs) = (store_map key xs)(key x \<mapsto> x)"
  by (induction xs) (auto simp: matches_key fun_eq_iff)

lemma upsert_keys:
  "inv xs \<Longrightarrow> ok x \<Longrightarrow> key ` set (upsert (\<lambda>y. matches y x) x xs) = insert (key x) (key ` set xs)"
  by (induction xs) (auto simp: matches_key)

lemma upsert_inv: "inv xs \<Longrightarrow> ok x \<Longrightarrow> inv (upsert (\<lambda>y. matches y x) x xs)"
proof (induction xs)
  case (Cons y ys)
  then show ?case
    using upsert_keys [of ys x] by (auto simp: matches_key)
qed simp

lemma remove_first_lookup:
  assumes "inv xs" and "ok x"
  shows "map_option fst (remove_first (\<lambda>y. matches y x) xs) = store_map key xs (key x)"
  using assms by (induction xs) (auto simp: matches_key map_option.compositionality comp_def split_def)

lemma remove_first_map:
  assumes "inv xs" and "ok x" and "remove_first (\<lambda>y. matches y x) xs = Some (z, zs)"
  shows "store_map key zs = (store_map key xs)(key x := None)" and "inv zs"
    and "key ` set zs = key ` set xs - {key x}" and "set zs \<subseteq> set xs"
  using assms
proof (induction xs arbitrary: zs)
  case (Cons y ys)
  {
    case 1
    then show ?case using Cons.IH(1)
      by (cases "matches y x") (auto simp: matches_key fun_eq_iff store_map_None split: if_splits)
  next
    case 2
    show ?case
    proof (cases "matches y x")
      case True
      with 2 show ?thesis by simp
    next
      case False
      with 2 obtain ws where "remove_first (\<lambda>y. matches y x) ys = Some (z, ws)" "zs = y # ws"
        by auto
      with 2 Cons.IH(2,4) [of ws] show ?thesis by (simp add: image_iff) (meson subsetD)
    qed
  next
    case 3
    show ?case
    proof (cases "matches y x")
      case True
      with 3 show ?thesis by (auto simp: matches_key)
    next
      case False
      with 3 obtain ws where "remove_first (\<lambda>y. matches y x) ys = Some (z, ws)" "zs = y # ws"
        by auto
      with 3 False Cons.IH(3) [of ws] show ?thesis by (simp add: matches_key insert_Diff_if)
    qed
  next
    case 4
    then show ?case using Cons.IH(4)
      by (cases "matches y x") (auto split: if_splits)
  }
qed simp_all

lemma remove_first_absent:
  "inv xs \<Longrightarrow> ok x \<Longrightarrow> remove_first (\<lambda>y. matches y x) xs = None \<longleftrightarrow> key x \<notin> key ` set xs"
  by (auto simp: remove_first_None inv_def list_all_iff matches_key image_iff)

lemma remove_first_filter:
  assumes "inv xs" and "ok x"
  shows "map_option snd (remove_first (\<lambda>y. matches y x) xs) =
           (if key x \<in> key ` set xs then Some (filter (\<lambda>y. key y \<noteq> key x) xs) else None)"
  using assms
proof (induction xs)
  case (Cons y ys)
  have same: "filter (\<lambda>z. key z \<noteq> key x) ys = ys" if "key x = key y"
    using Cons.prems that by (auto simp: filter_id_conv image_iff)
  from Cons show ?case
    by (auto simp: matches_key same map_option.compositionality comp_def split_def)
qed simp

lemma inv_filter: "inv xs \<Longrightarrow> inv (filter p xs)"
  by (auto simp: inv_def list_all_iff distinct_map inj_on_def)

end

end
