(* ===== verification/Lease.thy ===== *)
theory Lease
  imports Ip6net Keyed
begin

text \<open>
  \<open>lease/mod.rs\<close>: leases, lease events and the \<open>LeaseWatcher\<close>, which folds the watch
  results of the subnet manager into the table of other nodes' leases and derives the
  event batches the backends consume. The table is a vector searched by \<open>same_subnet\<close>;
  \<open>lease_key\<close> is the key that comparison stands for, and the table is interpreted as a
  \<open>keyed_store\<close> over it.
\<close>

section \<open>Data\<close>

datatype event_type = Added | Removed

text \<open>\<open>RawValue\<close> fields hold the raw JSON text they were parsed from.\<close>

record lease_attrs =
  public_ip :: ip4
  public_ipv6 :: "ip6 option"
  backend_type :: string
  backend_data :: "string option"
  backend_v6_data :: "string option"

text \<open>\<open>SystemTime\<close> is a signed count of nanoseconds from the epoch.\<close>

record lease =
  enable_ipv4 :: bool
  enable_ipv6 :: bool
  subnet :: ip4net
  ipv6_subnet :: ip6net
  attrs :: lease_attrs
  expiration :: int
  asof :: "64 word"

record event =
  ev_type :: event_type
  ev_lease :: lease

record lease_watch_result =
  wr_events :: "event list"
  wr_snapshot :: "lease list"

record lease_watcher =
  own_lease :: "lease option"
  leases :: "lease list"

definition raw_eq :: "string option \<Rightarrow> string option \<Rightarrow> bool" where
  "raw_eq a b =
     (case (a, b) of (Some x, Some y) \<Rightarrow> x = y | (None, None) \<Rightarrow> True | _ \<Rightarrow> False)"

definition lease_attrs_eq :: "lease_attrs \<Rightarrow> lease_attrs \<Rightarrow> bool" where
  "lease_attrs_eq a b \<longleftrightarrow>
     public_ip a = public_ip b \<and> public_ipv6 a = public_ipv6 b \<and>
     backend_type a = backend_type b \<and>
     raw_eq (backend_data a) (backend_data b) \<and> raw_eq (backend_v6_data a) (backend_v6_data b)"

definition show_lease_attrs :: "lease_attrs \<Rightarrow> string" where
  "show_lease_attrs a =
     ''BackendType: '' @ backend_type a @ '', PublicIP: '' @ ip4_to_string (public_ip a) @ '', '' @
     (case public_ipv6 a of
        Some ip6 \<Rightarrow> ''PublicIPv6: '' @ ip6_to_string ip6 @ '', ''
      | None \<Rightarrow> ''PublicIPv6: (nil), '') @
     (case backend_data a of
        Some d \<Rightarrow> ''BackendData: '' @ d @ '', '' | None \<Rightarrow> ''BackendData: (nil), '') @
     (case backend_v6_data a of
        Some d \<Rightarrow> ''BackendV6Data: '' @ d | None \<Rightarrow> ''BackendV6Data: (nil)'')"

section \<open>Comparison\<close>

definition same_subnet :: "bool \<Rightarrow> bool \<Rightarrow> lease \<Rightarrow> lease \<Rightarrow> bool" where
  "same_subnet ipv4_enabled ipv6_enabled first_lease second_lease =
     (if ipv4_enabled \<and> \<not> ipv6_enabled \<and> subnet first_lease = subnet second_lease then True
      else if \<not> ipv4_enabled \<and> ipv6_enabled \<and> ipv6_subnet first_lease = ipv6_subnet second_lease then True
      else if ipv4_enabled \<and> ipv6_enabled \<and> subnet first_lease = subnet second_lease \<and>
        ipv6_subnet first_lease = ipv6_subnet second_lease then True
      else if \<not> ipv4_enabled \<and> \<not> ipv6_enabled \<and> subnet first_lease = subnet second_lease then True
      else False)"

section \<open>The watcher\<close>

definition lw_new :: "lease \<Rightarrow> lease_watcher" where
  "lw_new own = \<lparr>own_lease = Some own, leases = []\<rparr>"

text \<open>The match of a stored lease: its own flags decide.\<close>

definition stored_matches :: "lease \<Rightarrow> lease \<Rightarrow> bool" where
  "stored_matches l new = same_subnet (enable_ipv4 l) (enable_ipv6 l) l new"

text \<open>The match against the own lease: the flags of the incoming lease decide.\<close>

definition is_own :: "lease \<Rightarrow> lease \<Rightarrow> bool" where
  "is_own own nl = same_subnet (enable_ipv4 nl) (enable_ipv6 nl) own nl"

text \<open>\<open>add\<close> and \<open>remove\<close>: the table after the call and the event returned.\<close>

definition lw_add :: "lease list \<Rightarrow> lease \<Rightarrow> lease list \<times> event" where
  "lw_add ls l = (upsert (\<lambda>y. stored_matches y l) l ls, \<lparr>ev_type = Added, ev_lease = l\<rparr>)"

definition lw_remove :: "lease list \<Rightarrow> lease \<Rightarrow> lease list \<times> event" where
  "lw_remove ls l =
     (case remove_first (\<lambda>y. stored_matches y l) ls of
        Some (old, rest) \<Rightarrow> (rest, \<lparr>ev_type = Removed, ev_lease = old\<rparr>)
      | None \<Rightarrow> (ls, \<lparr>ev_type = Removed, ev_lease = l\<rparr>))"

fun update_loop :: "lease \<Rightarrow> event list \<Rightarrow> lease list \<Rightarrow> lease list \<times> event list" where
  "update_loop own [] ls = (ls, [])"
| "update_loop own (e # es) ls =
     (if is_own own (ev_lease e) then update_loop own es ls
      else
        let (ls1, e1) = (case ev_type e of
              Added \<Rightarrow> lw_add ls (ev_lease e)
            | Removed \<Rightarrow> lw_remove ls (ev_lease e));
            (ls2, batch) = update_loop own es ls1
        in (ls2, e1 # batch))"

text \<open>\<open>None\<close> is the panic of \<open>expect\<close> on a watcher with no own lease.\<close>

definition lw_update :: "lease_watcher \<Rightarrow> event list \<Rightarrow> (lease_watcher \<times> event list) option" where
  "lw_update lw es =
     (case own_lease lw of
        None \<Rightarrow> None
      | Some own \<Rightarrow>
          let (ls, batch) = update_loop own es (leases lw) in Some (lw\<lparr>leases := ls\<rparr>, batch))"

text \<open>The first loop of \<open>reset\<close>: the events and what is left of the stored vector.\<close>

fun reset_loop :: "lease \<Rightarrow> lease list \<Rightarrow> lease list \<Rightarrow> event list \<times> lease list" where
  "reset_loop own [] stored = ([], stored)"
| "reset_loop own (nl # nls) stored =
     (if is_own own nl then reset_loop own nls stored
      else case remove_first (\<lambda>ol. stored_matches ol nl) stored of
          Some (_, rest) \<Rightarrow> reset_loop own nls rest
        | None \<Rightarrow>
            let (batch, rest) = reset_loop own nls stored
            in (\<lparr>ev_type = Added, ev_lease = nl\<rparr> # batch, rest))"

definition lw_reset :: "lease_watcher \<Rightarrow> lease list \<Rightarrow> (lease_watcher \<times> event list) option" where
  "lw_reset lw nls =
     (case own_lease lw of
        None \<Rightarrow> None
      | Some own \<Rightarrow>
          let (batch, rest) = reset_loop own nls (leases lw)
          in Some (lw\<lparr>leases := nls\<rparr>, batch @ map (\<lambda>l. \<lparr>ev_type = Removed, ev_lease = l\<rparr>) rest))"

section \<open>The table as a map\<close>

type_synonym lease_id = "ip4net option \<times> ip6net option"

definition lease_key :: "bool \<Rightarrow> bool \<Rightarrow> lease \<Rightarrow> lease_id" where
  "lease_key v4 v6 l =
     (if v4 \<or> \<not> v6 then Some (subnet l) else None, if v6 then Some (ipv6_subnet l) else None)"

definition has_flags :: "bool \<Rightarrow> bool \<Rightarrow> lease \<Rightarrow> bool" where
  "has_flags v4 v6 l \<longleftrightarrow> enable_ipv4 l = v4 \<and> enable_ipv6 l = v6"

lemma same_subnet_key: "same_subnet v4 v6 a b \<longleftrightarrow> lease_key v4 v6 a = lease_key v4 v6 b"
  by (auto simp: same_subnet_def lease_key_def)

interpretation lt: keyed_store stored_matches "lease_key v4 v6" "has_flags v4 v6" for v4 v6
  by unfold_locales (auto simp: stored_matches_def has_flags_def same_subnet_key)

lemma is_own_key: "has_flags v4 v6 l \<Longrightarrow> is_own own l \<longleftrightarrow> lease_key v4 v6 l = lease_key v4 v6 own"
  by (auto simp: is_own_def has_flags_def same_subnet_key)


definition table_inv :: "bool \<Rightarrow> bool \<Rightarrow> lease list \<Rightarrow> bool" where
  "table_inv v4 v6 ls \<longleftrightarrow> distinct (map (lease_key v4 v6) ls) \<and> list_all (has_flags v4 v6) ls"

lemma table_inv_lt: "table_inv v4 v6 = lt.inv v4 v6"
  by (simp add: fun_eq_iff table_inv_def lt.inv_def)

definition table :: "bool \<Rightarrow> bool \<Rightarrow> lease list \<Rightarrow> lease_id \<rightharpoonup> lease" where
  "table v4 v6 ls = store_map (lease_key v4 v6) ls"

abbreviation event_key :: "bool \<Rightarrow> bool \<Rightarrow> event \<Rightarrow> lease_id" where
  "event_key v4 v6 e \<equiv> lease_key v4 v6 (ev_lease e)"

text \<open>What an event says about a table of leases, and about a set of lease ids.\<close>

definition apply_event :: "bool \<Rightarrow> bool \<Rightarrow> (lease_id \<rightharpoonup> lease) \<Rightarrow> event \<Rightarrow> (lease_id \<rightharpoonup> lease)" where
  "apply_event v4 v6 m e =
     (case ev_type e of Added \<Rightarrow> m(event_key v4 v6 e \<mapsto> ev_lease e)
                      | Removed \<Rightarrow> m(event_key v4 v6 e := None))"

definition apply_key :: "bool \<Rightarrow> bool \<Rightarrow> lease_id set \<Rightarrow> event \<Rightarrow> lease_id set" where
  "apply_key v4 v6 K e =
     (case ev_type e of Added \<Rightarrow> insert (event_key v4 v6 e) K | Removed \<Rightarrow> K - {event_key v4 v6 e})"

lemma dom_apply_events:
  "dom (foldl (apply_event v4 v6) m es) = foldl (apply_key v4 v6) (dom m) es"
  by (induction es arbitrary: m) (simp_all add: apply_event_def apply_key_def split: event_type.split)

lemma lw_add_table:
  assumes "table_inv v4 v6 ls" and "has_flags v4 v6 l" and "lw_add ls l = (ls', e)"
  shows "table_inv v4 v6 ls'" and "table v4 v6 ls' = (table v4 v6 ls)(lease_key v4 v6 l \<mapsto> l)"
    and "ev_type e = Added" and "ev_lease e = l"
  using assms lt.upsert_inv [of v4 v6 ls l] lt.upsert_map [of v4 v6 ls l]
  by (auto simp: lw_add_def table_inv_lt table_def)

lemma lw_remove_table:
  assumes inv: "table_inv v4 v6 ls" and fl: "has_flags v4 v6 l" and rm: "lw_remove ls l = (ls', e)"
  shows "table_inv v4 v6 ls'" and "table v4 v6 ls' = (table v4 v6 ls)(lease_key v4 v6 l := None)"
    and "ev_type e = Removed" and "lease_key v4 v6 (ev_lease e) = lease_key v4 v6 l"
    and "ev_lease e = (case table v4 v6 ls (lease_key v4 v6 l) of Some old \<Rightarrow> old | None \<Rightarrow> l)"
proof -
  note inv' = inv [unfolded table_inv_lt]
  show "ev_type e = Removed"
    using rm by (auto simp: lw_remove_def split: option.splits)
  show t: "table v4 v6 ls' = (table v4 v6 ls)(lease_key v4 v6 l := None)"
  proof (cases "remove_first (\<lambda>y. stored_matches y l) ls")
    case (Some p)
    with rm lt.remove_first_map(1) [OF inv' fl] show ?thesis
      by (cases p) (simp add: lw_remove_def table_def)
  next
    case None
    with rm lt.remove_first_absent [OF inv' fl] show ?thesis
      by (simp add: lw_remove_def table_def store_map_None fun_upd_idem)
  qed
  show "table_inv v4 v6 ls'"
    using rm lt.remove_first_map(2) [OF inv' fl] inv'
    by (auto simp: lw_remove_def table_inv_lt split: option.splits)
  show k: "ev_lease e = (case table v4 v6 ls (lease_key v4 v6 l) of Some old \<Rightarrow> old | None \<Rightarrow> l)"
    using rm lt.remove_first_lookup [OF inv' fl]
    by (auto simp: lw_remove_def table_def split: option.splits)
  show "lease_key v4 v6 (ev_lease e) = lease_key v4 v6 l"
  proof (cases "remove_first (\<lambda>y. stored_matches y l) ls")
    case (Some p)
    then obtain old rest where p: "remove_first (\<lambda>y. stored_matches y l) ls = Some (old, rest)"
      by (cases p) auto
    from remove_first_Some [OF p] inv' have "stored_matches old l" "has_flags v4 v6 old"
      by (auto simp: lt.inv_def)
    with fl p rm show ?thesis by (auto simp: lw_remove_def lt.matches_key)
  next
    case None
    with rm show ?thesis by (auto simp: lw_remove_def)
  qed
qed

text \<open>One event that is not the node's own, as the loop of \<open>update\<close> handles it.\<close>

lemma update_step_table:
  assumes "table_inv v4 v6 ls" and "has_flags v4 v6 (ev_lease e)"
    and "(case ev_type e of Added \<Rightarrow> lw_add ls (ev_lease e) | Removed \<Rightarrow> lw_remove ls (ev_lease e)) = (ls1, e1)"
  shows "table_inv v4 v6 ls1" and "table v4 v6 ls1 = apply_event v4 v6 (table v4 v6 ls) e"
    and "ev_type e1 = ev_type e" and "event_key v4 v6 e1 = event_key v4 v6 e"
    and "apply_event v4 v6 m e1 = apply_event v4 v6 m e"
  using assms lw_add_table [of v4 v6 ls "ev_lease e" ls1 e1] lw_remove_table [of v4 v6 ls "ev_lease e" ls1 e1]
  by (auto simp: apply_event_def split: event_type.splits)

lemma update_loop_table:
  assumes "table_inv v4 v6 ls" and "list_all (\<lambda>e. has_flags v4 v6 (ev_lease e)) es"
    and "update_loop own es ls = (ls', batch)"
  defines "foreign \<equiv> filter (\<lambda>e. event_key v4 v6 e \<noteq> lease_key v4 v6 own) es"
  shows "table_inv v4 v6 ls' \<and> table v4 v6 ls' = foldl (apply_event v4 v6) (table v4 v6 ls) foreign \<and>
    map ev_type batch = map ev_type foreign \<and> map (event_key v4 v6) batch = map (event_key v4 v6) foreign \<and>
    foldl (apply_event v4 v6) m batch = foldl (apply_event v4 v6) m foreign"
  using assms(1-3) unfolding foreign_def
proof (induction own es ls arbitrary: m batch rule: update_loop.induct)
  case (2 own e es ls)
  have fl: "has_flags v4 v6 (ev_lease e)" using 2(4) by simp
  show ?case
  proof (cases "is_own own (ev_lease e)")
    case True
    with 2 show ?thesis by (simp add: is_own_key [OF fl])
  next
    case False
    obtain ls1 e1 where step:
      "(case ev_type e of Added \<Rightarrow> lw_add ls (ev_lease e) | Removed \<Rightarrow> lw_remove ls (ev_lease e)) = (ls1, e1)"
      by force
    obtain b where rest: "update_loop own es ls1 = (ls', b)" and batch: "batch = e1 # b"
      using 2(5) False step by (auto split: prod.splits)
    note st = update_step_table [OF 2(3) fl step]
    from 2(2) [OF False refl step [symmetric] st(1) _ rest, of "apply_event v4 v6 m e1"] 2(4) False fl st batch
    show ?thesis by (simp add: is_own_key [OF fl])
  qed
qed simp


lemma reset_loop_filter:
  assumes "table_inv v4 v6 stored" and "table_inv v4 v6 nls"
  shows "reset_loop own nls stored =
    (map (\<lambda>l. \<lparr>ev_type = Added, ev_lease = l\<rparr>)
       (filter (\<lambda>l. lease_key v4 v6 l \<noteq> lease_key v4 v6 own \<and>
          lease_key v4 v6 l \<notin> lease_key v4 v6 ` set stored) nls),
     filter (\<lambda>o'. lease_key v4 v6 o' = lease_key v4 v6 own \<or>
       lease_key v4 v6 o' \<notin> lease_key v4 v6 ` set nls) stored)"
  using assms
proof (induction own nls stored rule: reset_loop.induct)
  case (2 own nl nls stored)
  let ?k = "lease_key v4 v6"
  have fl: "has_flags v4 v6 nl" and inv: "table_inv v4 v6 nls" and new: "?k nl \<notin> ?k ` set nls"
    using 2(5) by (auto simp: table_inv_def)
  note rf = lt.remove_first_filter [OF 2(4) [unfolded table_inv_lt] fl]
  consider "?k nl = ?k own"
    | "?k nl \<noteq> ?k own" "remove_first (\<lambda>ol. stored_matches ol nl) stored = None" "?k nl \<notin> ?k ` set stored"
    | z where "?k nl \<noteq> ?k own" "?k nl \<in> ?k ` set stored"
      "remove_first (\<lambda>ol. stored_matches ol nl) stored = Some (z, filter (\<lambda>o'. ?k o' \<noteq> ?k nl) stored)"
    using rf by (cases "?k nl = ?k own"; cases "remove_first (\<lambda>ol. stored_matches ol nl) stored")
      (auto split: if_splits)
  then show ?case
  proof cases
    case 1
    with 2 inv show ?thesis by (auto simp: is_own_key [OF fl] intro!: filter_cong)
  next
    case 2
    then have "?k o' \<noteq> ?k nl" if "o' \<in> set stored" for o' using that by (auto simp: image_iff)
    with 2 "2.IH" (2) "2.prems" inv show ?thesis
      by (auto simp: is_own_key [OF fl] intro!: filter_cong)
  next
    case 3
    have sub: "table_inv v4 v6 (filter (\<lambda>o'. ?k o' \<noteq> ?k nl) stored)"
      using 2(4) by (simp add: table_inv_lt lt.inv_filter)
    let ?rest = "filter (\<lambda>o'. ?k o' \<noteq> ?k nl) stored"
    have "(?k l \<in> ?k ` set ?rest) = (?k l \<in> ?k ` set stored)" if "l \<in> set nls" for l
      using new that by (auto simp: image_iff) metis
    then have added: "filter (\<lambda>l. ?k l \<noteq> ?k own \<and> ?k l \<notin> ?k ` set ?rest) nls =
        filter (\<lambda>l. ?k l \<noteq> ?k own \<and> ?k l \<notin> ?k ` set stored) nls"
      by (intro filter_cong) simp_all
    have removed: "filter (\<lambda>o'. ?k o' = ?k own \<or> ?k o' \<notin> ?k ` set nls) ?rest =
        filter (\<lambda>o'. ?k o' = ?k own \<or> ?k o' \<notin> ?k ` set (nl # nls)) stored"
      using 3(1) by (auto simp: filter_filter intro!: filter_cong)
    from 3 show ?thesis
      using "2.IH" (3) [OF _ 3(3) refl sub inv] by (simp add: is_own_key [OF fl] added removed del: set_filter filter_filter list.set)
  qed
qed simp

section \<open>Properties\<close>

text \<open>C8. \<open>LeaseWatcher::update\<close> refines a fold of map updates: on a table of leases of one
  flag combination with distinct ids it never panics, keeps the table well formed and the own
  lease untouched, and the table it leaves is the old one with exactly the events that do not
  concern the own lease applied in order. The batch it returns has the same kinds and ids in the
  same order, so a consumer that applies the batch to a copy of the table reaches the new
  table, and no event of the batch concerns the own lease.\<close>

theorem lw_update_refines:
  assumes "own_lease lw = Some own" and "table_inv v4 v6 (leases lw)"
    and "list_all (\<lambda>e. has_flags v4 v6 (ev_lease e)) es"
  defines "foreign \<equiv> filter (\<lambda>e. event_key v4 v6 e \<noteq> lease_key v4 v6 own) es"
  shows "\<exists>lw' batch. lw_update lw es = Some (lw', batch) \<and> own_lease lw' = Some own \<and>
     table_inv v4 v6 (leases lw') \<and>
     table v4 v6 (leases lw') = foldl (apply_event v4 v6) (table v4 v6 (leases lw)) foreign \<and>
     foldl (apply_event v4 v6) (table v4 v6 (leases lw)) batch = table v4 v6 (leases lw') \<and>
     map (\<lambda>e. (ev_type e, event_key v4 v6 e)) batch = map (\<lambda>e. (ev_type e, event_key v4 v6 e)) foreign \<and>
     list_all (\<lambda>e. event_key v4 v6 e \<noteq> lease_key v4 v6 own) batch"
proof -
  obtain ls batch where run: "update_loop own es (leases lw) = (ls, batch)" by force
  note tab = update_loop_table [OF assms(2,3) run, of "table v4 v6 (leases lw)", folded foreign_def]
  from tab have keys: "map (event_key v4 v6) batch = map (event_key v4 v6) foreign" by simp
  have "set (map (event_key v4 v6) batch) \<subseteq> - {lease_key v4 v6 own}"
    unfolding keys by (auto simp: foreign_def)
  then have "list_all (\<lambda>e. event_key v4 v6 e \<noteq> lease_key v4 v6 own) batch"
    by (auto simp: list_all_iff image_iff)
  moreover have "map (\<lambda>e. (ev_type e, event_key v4 v6 e)) batch = map (\<lambda>e. (ev_type e, event_key v4 v6 e)) foreign"
    using tab by (intro map_pair_cong) simp_all
  ultimately show ?thesis using tab run assms(1) by (simp add: lw_update_def)
qed

text \<open>\<open>LeaseWatcher::reset\<close> against a snapshot with distinct ids: the batch is the
  leases of the snapshot that are neither the own lease nor stored, in snapshot order, as
  \<open>Added\<close>, followed by the stored leases that are the own lease or missing from the snapshot,
  in stored order, as \<open>Removed\<close>; the table becomes the snapshot.\<close>

theorem lw_reset_batch:
  assumes "own_lease lw = Some own" and "table_inv v4 v6 (leases lw)" and "table_inv v4 v6 nls"
  shows "lw_reset lw nls = Some (lw\<lparr>leases := nls\<rparr>,
     map (\<lambda>l. \<lparr>ev_type = Added, ev_lease = l\<rparr>)
       (filter (\<lambda>l. lease_key v4 v6 l \<noteq> lease_key v4 v6 own \<and>
          lease_key v4 v6 l \<notin> lease_key v4 v6 ` set (leases lw)) nls) @
     map (\<lambda>l. \<lparr>ev_type = Removed, ev_lease = l\<rparr>)
       (filter (\<lambda>l. lease_key v4 v6 l = lease_key v4 v6 own \<or>
          lease_key v4 v6 l \<notin> lease_key v4 v6 ` set nls) (leases lw)))"
  using assms reset_loop_filter [OF assms(2,3), of own] by (simp add: lw_reset_def)


text \<open>Leases of three nodes, for the concrete runs.\<close>

definition sample_lease :: "u32 \<Rightarrow> lease" where
  "sample_lease n =
     \<lparr>enable_ipv4 = True, enable_ipv6 = False,
      subnet = \<lparr>n4_ip = IP4 (0x0AF40000 + 256 * n), n4_prefix_len = 24\<rparr>,
      ipv6_subnet = ip6net_default,
      attrs = \<lparr>public_ip = IP4 (0xC0A80000 + n), public_ipv6 = None, backend_type = ''vxlan'',
        backend_data = None, backend_v6_data = None\<rparr>,
      expiration = 0, asof = 0\<rparr>"

lemma sample_lease_key [simp]:
  "lease_key True False (sample_lease m) = lease_key True False (sample_lease n) \<longleftrightarrow> 256 * m = 256 * n"
  by (simp add: lease_key_def sample_lease_def)

lemma sample_lease_flags [simp]: "has_flags True False (sample_lease n)"
  by (simp add: has_flags_def sample_lease_def)

theorem lw_update_refines_witness:
  "\<exists>lw' batch. lw_update (lw_new (sample_lease 1))
       [\<lparr>ev_type = Added, ev_lease = sample_lease 1\<rparr>, \<lparr>ev_type = Added, ev_lease = sample_lease 2\<rparr>]
     = Some (lw', batch) \<and>
     table True False (leases lw') = [lease_key True False (sample_lease 2) \<mapsto> sample_lease 2]"
  using lw_update_refines [of "lw_new (sample_lease 1)" "sample_lease 1" True False
    "[\<lparr>ev_type = Added, ev_lease = sample_lease 1\<rparr>, \<lparr>ev_type = Added, ev_lease = sample_lease 2\<rparr>]"]
  by (auto simp: lw_new_def table_inv_def table_def apply_event_def)

theorem lw_reset_batch_witness:
  "lw_reset \<lparr>own_lease = Some (sample_lease 1), leases = [sample_lease 1, sample_lease 2]\<rparr>
     [sample_lease 1, sample_lease 3] =
   Some (\<lparr>own_lease = Some (sample_lease 1), leases = [sample_lease 1, sample_lease 3]\<rparr>,
     [\<lparr>ev_type = Added, ev_lease = sample_lease 3\<rparr>,
      \<lparr>ev_type = Removed, ev_lease = sample_lease 1\<rparr>,
      \<lparr>ev_type = Removed, ev_lease = sample_lease 2\<rparr>])"
  by (subst lw_reset_batch [of _ "sample_lease 1" True False]) (simp_all add: table_inv_def)

end
