(* ===== verification/Watch.thy ===== *)
theory Watch
  imports Lease
begin

text \<open>
  \<open>subnet/watch.rs\<close>: \<open>watch_leases\<close> drives one manager watch session after another and
  forwards the batches the \<open>LeaseWatcher\<close> derives; \<open>watch_lease\<close> forwards the events of a
  single lease. Each \<open>tokio::select!\<close> is a step of a state machine whose input says which
  branch fired; an input list is one interleaving of the manager, the receiver and the
  cancellation token. The receiving end is the counter \<open>room\<close> of sends until it is dropped.
\<close>

section \<open>Channels\<close>

record 'a sender =
  sent :: "'a list"
  room :: "nat option"

definition send :: "'a \<Rightarrow> 'a sender \<Rightarrow> 'a sender \<times> bool" where
  "send x s =
     (case room s of
        Some 0 \<Rightarrow> (s, False)
      | Some (Suc n) \<Rightarrow> (\<lparr>sent = sent s @ [x], room = Some n\<rparr>, True)
      | None \<Rightarrow> (\<lparr>sent = sent s @ [x], room = None\<rparr>, True))"

lemma send_sent: "send x s = (s', True) \<Longrightarrow> sent s' = sent s @ [x]"
  by (auto simp: send_def split: option.splits nat.splits)

section \<open>Batches\<close>

definition reduce :: "lease_watcher \<Rightarrow> lease_watch_result \<Rightarrow> (lease_watcher \<times> event list) option" where
  "reduce lw wr =
     (if wr_events wr \<noteq> [] then lw_update lw (wr_events wr) else lw_reset lw (wr_snapshot wr))"

text \<open>\<open>None\<close> is a panic; the flag is what the function returns.\<close>

fun handle_batch_results ::
  "lease_watcher \<Rightarrow> lease_watch_result list \<Rightarrow> event list sender \<Rightarrow>
   (lease_watcher \<times> event list sender \<times> bool) option" where
  "handle_batch_results lw [] rcv = Some (lw, rcv, True)"
| "handle_batch_results lw (wr # wrs) rcv =
     (case reduce lw wr of
        None \<Rightarrow> None
      | Some (lw', batch) \<Rightarrow>
          if batch = [] then handle_batch_results lw' wrs rcv
          else case send batch rcv of
              (rcv', False) \<Rightarrow> Some (lw', rcv', False)
            | (rcv', True) \<Rightarrow> handle_batch_results lw' wrs rcv')"

fun drain_batches ::
  "lease_watcher \<Rightarrow> lease_watch_result list list \<Rightarrow> event list sender \<Rightarrow>
   (lease_watcher \<times> event list sender \<times> bool) option" where
  "drain_batches lw [] rcv = Some (lw, rcv, True)"
| "drain_batches lw (item # items) rcv =
     (case handle_batch_results lw item rcv of
        None \<Rightarrow> None
      | Some (lw', rcv', False) \<Rightarrow> Some (lw', rcv', False)
      | Some (lw', rcv', True) \<Rightarrow> drain_batches lw' items rcv')"

section \<open>The watch of all leases\<close>

definition WATCH_RETRY_DELAY :: nat where "WATCH_RETRY_DELAY = 1"

definition WATCH_RETRY_MAX :: nat where "WATCH_RETRY_MAX = 30"

datatype phase = InSession | InBackoff | Returned | Panicked

text \<open>
  The branch a \<open>select!\<close> takes: the token is cancelled; the channel yields an item, or is
  closed; the manager future ends, with the items \<open>try_recv\<close> still finds and, on an error,
  whether the token is cancelled by then; the backoff sleep ends.
\<close>

datatype watch_input =
    Cancelled
  | Recv "lease_watch_result list"
  | RecvClosed
  | ManagerOk "lease_watch_result list list"
  | ManagerErr "lease_watch_result list list" bool
  | SleepDone

record watch_state =
  w_lw :: lease_watcher
  w_rcv :: "event list sender"
  w_backoff :: nat
  w_slept :: "nat list"
  w_phase :: phase

definition watch_start :: "lease \<Rightarrow> nat option \<Rightarrow> watch_state" where
  "watch_start own cap =
     \<lparr>w_lw = lw_new own, w_rcv = \<lparr>sent = [], room = cap\<rparr>, w_backoff = WATCH_RETRY_DELAY,
      w_slept = [], w_phase = InSession\<rparr>"

text \<open>The phase after the handlers ran: \<open>next\<close> when they went through, return when the
  receiver is gone.\<close>

definition after_handling ::
  "watch_state \<Rightarrow> (lease_watcher \<times> event list sender \<times> bool) option \<Rightarrow> phase \<Rightarrow> watch_state" where
  "after_handling st r next_phase =
     (case r of
        None \<Rightarrow> st\<lparr>w_phase := Panicked\<rparr>
      | Some (lw, rcv, alive) \<Rightarrow>
          st\<lparr>w_lw := lw, w_rcv := rcv, w_phase := (if alive then next_phase else Returned)\<rparr>)"

fun watch_leases_step :: "watch_state \<Rightarrow> watch_input \<Rightarrow> watch_state option" where
  "watch_leases_step st i =
     (case w_phase st of
        InSession \<Rightarrow>
          (case i of
             Cancelled \<Rightarrow> Some (st\<lparr>w_phase := Returned\<rparr>)
           | Recv item \<Rightarrow>
               Some (after_handling st (handle_batch_results (w_lw st) item (w_rcv st)) InSession)
           | RecvClosed \<Rightarrow> Some (st\<lparr>w_phase := InBackoff\<rparr>)
           | ManagerOk items \<Rightarrow>
               Some (after_handling st (drain_batches (w_lw st) items (w_rcv st)) Returned)
           | ManagerErr items cancelled \<Rightarrow>
               Some (after_handling st (drain_batches (w_lw st) items (w_rcv st))
                 (if cancelled then Returned else InBackoff))
           | SleepDone \<Rightarrow> None)
      | InBackoff \<Rightarrow>
          (case i of
             Cancelled \<Rightarrow> Some (st\<lparr>w_phase := Returned\<rparr>)
           | SleepDone \<Rightarrow>
               Some (st\<lparr>w_backoff := min (w_backoff st * 2) WATCH_RETRY_MAX,
                 w_slept := w_slept st @ [w_backoff st], w_phase := InSession\<rparr>)
           | _ \<Rightarrow> None)
      | Returned \<Rightarrow> None
      | Panicked \<Rightarrow> None)"

text \<open>The states \<open>watch_leases\<close> reaches, under any order of its inputs.\<close>

inductive watch_reach :: "(watch_input \<Rightarrow> bool) \<Rightarrow> lease \<Rightarrow> nat option \<Rightarrow> watch_state \<Rightarrow> bool"
  for ok own cap where
  start: "watch_reach ok own cap (watch_start own cap)"
| step: "watch_reach ok own cap st \<Longrightarrow> ok i \<Longrightarrow> watch_leases_step st i = Some st' \<Longrightarrow>
    watch_reach ok own cap st'"

section \<open>The watch of one lease\<close>

definition single_event :: "lease_watch_result \<Rightarrow> event option" where
  "single_event wr =
     (case wr_snapshot wr of
        l # _ \<Rightarrow> Some \<lparr>ev_type = Added, ev_lease = l\<rparr>
      | [] \<Rightarrow> (case wr_events wr of e # _ \<Rightarrow> Some e | [] \<Rightarrow> None))"

fun handle_single_results ::
  "lease_watch_result list \<Rightarrow> event sender \<Rightarrow> event sender \<times> bool" where
  "handle_single_results [] rcv = (rcv, True)"
| "handle_single_results (wr # wrs) rcv =
     (case single_event wr of
        None \<Rightarrow> handle_single_results wrs rcv
      | Some e \<Rightarrow>
          (case send e rcv of
             (rcv', False) \<Rightarrow> (rcv', False)
           | (rcv', True) \<Rightarrow> handle_single_results wrs rcv'))"

fun drain_singles :: "lease_watch_result list list \<Rightarrow> event sender \<Rightarrow> event sender \<times> bool" where
  "drain_singles [] rcv = (rcv, True)"
| "drain_singles (item # items) rcv =
     (case handle_single_results item rcv of
        (rcv', False) \<Rightarrow> (rcv', False)
      | (rcv', True) \<Rightarrow> drain_singles items rcv')"

text \<open>\<open>watch_lease\<close> over its inputs: what the receiver got and whether the loop has ended.\<close>

fun watch_lease_run :: "watch_input list \<Rightarrow> event sender \<Rightarrow> event sender \<times> bool" where
  "watch_lease_run [] rcv = (rcv, False)"
| "watch_lease_run (Cancelled # is) rcv = (rcv, True)"
| "watch_lease_run (Recv item # is) rcv =
     (case handle_single_results item rcv of
        (rcv', False) \<Rightarrow> (rcv', True)
      | (rcv', True) \<Rightarrow> watch_lease_run is rcv')"
| "watch_lease_run (RecvClosed # is) rcv = (rcv, True)"
| "watch_lease_run (ManagerOk items # is) rcv = (fst (drain_singles items rcv), True)"
| "watch_lease_run (ManagerErr items cancelled # is) rcv = (fst (drain_singles items rcv), True)"
| "watch_lease_run (SleepDone # is) rcv = (rcv, False)"

section \<open>What the receiver knows\<close>

text \<open>The inputs of a manager that serves one flag combination: every lease has it, and a
  snapshot names no subnet twice.\<close>

definition result_ok :: "bool \<Rightarrow> bool \<Rightarrow> lease_watch_result \<Rightarrow> bool" where
  "result_ok v4 v6 wr \<longleftrightarrow>
     list_all (\<lambda>e. has_flags v4 v6 (ev_lease e)) (wr_events wr) \<and> table_inv v4 v6 (wr_snapshot wr)"

fun input_ok :: "bool \<Rightarrow> bool \<Rightarrow> watch_input \<Rightarrow> bool" where
  "input_ok v4 v6 (Recv item) = list_all (result_ok v4 v6) item"
| "input_ok v4 v6 (ManagerOk items) = list_all (list_all (result_ok v4 v6)) items"
| "input_ok v4 v6 (ManagerErr items c) = list_all (list_all (result_ok v4 v6)) items"
| "input_ok v4 v6 i = True"

text \<open>The lease ids a receiver holds after applying the batches it got.\<close>

definition receiver_keys :: "bool \<Rightarrow> bool \<Rightarrow> event list sender \<Rightarrow> lease_id set" where
  "receiver_keys v4 v6 rcv = foldl (apply_key v4 v6) {} (concat (sent rcv))"

definition synced :: "bool \<Rightarrow> bool \<Rightarrow> lease \<Rightarrow> lease_watcher \<Rightarrow> event list sender \<Rightarrow> bool" where
  "synced v4 v6 own lw rcv \<longleftrightarrow>
     own_lease lw = Some own \<and> table_inv v4 v6 (leases lw) \<and>
     receiver_keys v4 v6 rcv = lease_key v4 v6 ` set (leases lw) - {lease_key v4 v6 own}"


lemma apply_key_diff:
  "list_all (\<lambda>e. event_key v4 v6 e \<noteq> k) es \<Longrightarrow>
     foldl (apply_key v4 v6) (K - {k}) es = foldl (apply_key v4 v6) K es - {k}"
proof (induction es arbitrary: K)
  case (Cons e es)
  then have "apply_key v4 v6 (K - {k}) e = apply_key v4 v6 K e - {k}"
    by (auto simp: apply_key_def split: event_type.split)
  with Cons show ?case by simp
qed simp

lemma apply_key_added:
  "foldl (apply_key v4 v6) K (map (\<lambda>l. \<lparr>ev_type = Added, ev_lease = l\<rparr>) ls) = K \<union> lease_key v4 v6 ` set ls"
  by (induction ls arbitrary: K) (auto simp: apply_key_def)

lemma apply_key_removed:
  "foldl (apply_key v4 v6) K (map (\<lambda>l. \<lparr>ev_type = Removed, ev_lease = l\<rparr>) ls) = K - lease_key v4 v6 ` set ls"
  by (induction ls arbitrary: K) (auto simp: apply_key_def)

lemma lw_update_keys:
  assumes "own_lease lw = Some own" and "table_inv v4 v6 (leases lw)"
    and "list_all (\<lambda>e. has_flags v4 v6 (ev_lease e)) es"
  shows "\<exists>lw' batch. lw_update lw es = Some (lw', batch) \<and> own_lease lw' = Some own \<and>
    table_inv v4 v6 (leases lw') \<and>
    foldl (apply_key v4 v6) (lease_key v4 v6 ` set (leases lw) - {lease_key v4 v6 own}) batch =
      lease_key v4 v6 ` set (leases lw') - {lease_key v4 v6 own}"
proof -
  let ?own = "lease_key v4 v6 own"
  define foreign where "foreign = filter (\<lambda>e. event_key v4 v6 e \<noteq> ?own) es"
  obtain ls batch where run: "update_loop own es (leases lw) = (ls, batch)" by force
  note tab = update_loop_table [OF assms(2,3) run, folded foreign_def]
  have dom: "dom (table v4 v6 xs) = lease_key v4 v6 ` set xs" for xs by (simp add: table_def)
  have "foldl (apply_key v4 v6) (dom m) batch = foldl (apply_key v4 v6) (dom m) foreign"
    for m :: "lease_id \<rightharpoonup> lease"
    using tab [of m] by (simp flip: dom_apply_events)
  from this [of "(table v4 v6 (leases lw))(?own := None)"]
  have "foldl (apply_key v4 v6) (lease_key v4 v6 ` set (leases lw) - {?own}) batch =
      foldl (apply_key v4 v6) (lease_key v4 v6 ` set (leases lw)) foreign - {?own}"
    by (simp add: dom apply_key_diff foreign_def list_all_iff)
  also have "\<dots> = lease_key v4 v6 ` set ls - {?own}"
    using tab by (simp flip: dom dom_apply_events)
  finally show ?thesis using tab run assms(1) by (simp add: lw_update_def)
qed

lemma lw_reset_keys:
  assumes "own_lease lw = Some own" and "table_inv v4 v6 (leases lw)" and "table_inv v4 v6 nls"
  shows "\<exists>lw' batch. lw_reset lw nls = Some (lw', batch) \<and> own_lease lw' = Some own \<and>
    table_inv v4 v6 (leases lw') \<and>
    foldl (apply_key v4 v6) (lease_key v4 v6 ` set (leases lw) - {lease_key v4 v6 own}) batch =
      lease_key v4 v6 ` set (leases lw') - {lease_key v4 v6 own}"
  using assms reset_loop_filter [OF assms(2,3), of own]
  by (auto simp: lw_reset_def apply_key_added apply_key_removed)

lemma reduce_keys:
  assumes "own_lease lw = Some own" and "table_inv v4 v6 (leases lw)" and "result_ok v4 v6 wr"
  shows "\<exists>lw' batch. reduce lw wr = Some (lw', batch) \<and> own_lease lw' = Some own \<and>
    table_inv v4 v6 (leases lw') \<and>
    foldl (apply_key v4 v6) (lease_key v4 v6 ` set (leases lw) - {lease_key v4 v6 own}) batch =
      lease_key v4 v6 ` set (leases lw') - {lease_key v4 v6 own}"
  using lw_update_keys [OF assms(1,2)] lw_reset_keys [OF assms(1,2)] assms(3)
  by (simp add: reduce_def result_ok_def)

lemma handle_batch_results_synced:
  assumes "synced v4 v6 own lw rcv" and "list_all (result_ok v4 v6) wrs"
  shows "\<exists>lw' rcv' alive. handle_batch_results lw wrs rcv = Some (lw', rcv', alive) \<and>
    (alive \<longrightarrow> synced v4 v6 own lw' rcv')"
  using assms
proof (induction lw wrs rcv rule: handle_batch_results.induct)
  case (2 lw wr wrs rcv)
  from 2(3,4) have own: "own_lease lw = Some own" and inv: "table_inv v4 v6 (leases lw)"
    and ok: "result_ok v4 v6 wr"
    and keys: "receiver_keys v4 v6 rcv = lease_key v4 v6 ` set (leases lw) - {lease_key v4 v6 own}"
    by (simp_all add: synced_def)
  from reduce_keys [OF own inv ok] obtain lw' batch where r: "reduce lw wr = Some (lw', batch)"
    and lw': "own_lease lw' = Some own" "table_inv v4 v6 (leases lw')"
    and k': "foldl (apply_key v4 v6) (receiver_keys v4 v6 rcv) batch =
      lease_key v4 v6 ` set (leases lw') - {lease_key v4 v6 own}"
    unfolding keys by blast
  show ?case
  proof (cases "batch = []")
    case True
    with lw' k' have "synced v4 v6 own lw' rcv" by (simp add: synced_def)
    with 2 r True show ?thesis by simp
  next
    case False
    obtain rcv' alive where s: "send batch rcv = (rcv', alive)" by force
    show ?thesis
    proof (cases alive)
      case True
      with s have "receiver_keys v4 v6 rcv' = foldl (apply_key v4 v6) (receiver_keys v4 v6 rcv) batch"
        by (simp add: receiver_keys_def send_sent)
      with lw' k' have "synced v4 v6 own lw' rcv'" by (simp add: synced_def)
      with 2 r s True False show ?thesis by simp
    next
      case False
      with \<open>batch \<noteq> []\<close> r s show ?thesis by auto
    qed
  qed
qed auto

lemma drain_batches_synced:
  assumes "synced v4 v6 own lw rcv" and "list_all (list_all (result_ok v4 v6)) items"
  shows "\<exists>lw' rcv' alive. drain_batches lw items rcv = Some (lw', rcv', alive) \<and>
    (alive \<longrightarrow> synced v4 v6 own lw' rcv')"
  using assms
proof (induction lw items rcv rule: drain_batches.induct)
  case (2 lw item items rcv)
  with handle_batch_results_synced [of v4 v6 own lw rcv item]
  show ?case by (fastforce split: bool.splits)
qed auto

lemma watch_step_synced:
  assumes "synced v4 v6 own (w_lw st) (w_rcv st)" and "input_ok v4 v6 i"
    and "watch_leases_step st i = Some st'"
  shows "w_phase st' \<noteq> Panicked"
    and "w_phase st' \<in> {InSession, InBackoff} \<Longrightarrow> synced v4 v6 own (w_lw st') (w_rcv st')"
  using assms handle_batch_results_synced [OF assms(1)] drain_batches_synced [OF assms(1)]
  by (cases i; fastforce simp: after_handling_def split: phase.splits if_splits)+


lemma watch_step_running: "watch_leases_step st i = Some st' \<Longrightarrow> w_phase st \<in> {InSession, InBackoff}"
  by (auto split: phase.splits)

lemma watch_start_synced: "synced v4 v6 own (w_lw (watch_start own cap)) (w_rcv (watch_start own cap))"
  by (simp add: synced_def watch_start_def lw_new_def table_inv_def receiver_keys_def)

lemma watch_reach_synced:
  assumes "watch_reach (input_ok v4 v6) own cap st"
  shows "w_phase st \<noteq> Panicked \<and>
    (w_phase st \<in> {InSession, InBackoff} \<longrightarrow> synced v4 v6 own (w_lw st) (w_rcv st))"
  using assms
proof induction
  case start
  show ?case using watch_start_synced by (simp add: watch_start_def)
next
  case (step st i st')
  with watch_step_synced [of v4 v6 own st i st'] watch_step_running [of st i st'] show ?case by auto
qed

lemma send_unbounded: "room rcv = None \<Longrightarrow> send x rcv = (\<lparr>sent = sent rcv @ [x], room = None\<rparr>, True)"
  by (simp add: send_def)

lemma handle_batch_results_room:
  "room rcv = None \<Longrightarrow> handle_batch_results lw wrs rcv = Some (lw', rcv', alive) \<Longrightarrow> alive \<and> room rcv' = None"
proof (induction wrs arbitrary: lw rcv)
  case (Cons wr wrs)
  then obtain lw1 batch where r: "reduce lw wr = Some (lw1, batch)"
    by (auto split: option.splits)
  show ?case
  proof (cases "batch = []")
    case True
    with Cons.IH [of rcv lw1] Cons.prems r show ?thesis by simp
  next
    case False
    with Cons.IH [of "\<lparr>sent = sent rcv @ [batch], room = None\<rparr>" lw1] Cons.prems r
    show ?thesis by (simp add: send_unbounded)
  qed
qed simp

lemma drain_batches_room:
  "room rcv = None \<Longrightarrow> drain_batches lw items rcv = Some (lw', rcv', alive) \<Longrightarrow> alive \<and> room rcv' = None"
proof (induction lw items rcv rule: drain_batches.induct)
  case (2 lw item items rcv)
  then show ?case
    by (auto dest: handle_batch_results_room split: option.splits prod.splits bool.splits)
qed simp

lemma watch_reach_room:
  assumes "watch_reach ok own None st"
  shows "room (w_rcv st) = None"
  using assms
proof induction
  case start
  show ?case by (simp add: watch_start_def)
next
  case (step st i st')
  then show ?case
    by (cases i) (auto simp: after_handling_def split: phase.splits option.splits
      dest: handle_batch_results_room drain_batches_room)
qed

lemma handle_single_results_unbounded:
  "room rcv = None \<Longrightarrow> handle_single_results wrs rcv =
     (\<lparr>sent = sent rcv @ List.map_filter single_event wrs, room = None\<rparr>, True)"
  by (induction wrs rcv rule: handle_single_results.induct)
    (simp_all add: send_unbounded map_filter_simps split: option.split)

lemma drain_singles_unbounded:
  "room rcv = None \<Longrightarrow> drain_singles items rcv =
     (\<lparr>sent = sent rcv @ List.map_filter single_event (concat items), room = None\<rparr>, True)"
  by (induction items rcv rule: drain_singles.induct)
    (simp_all add: handle_single_results_unbounded map_filter_def)

lemma watch_lease_run_recvs:
  "room rcv = None \<Longrightarrow> watch_lease_run (map Recv items @ [ManagerOk drained]) rcv =
     (\<lparr>sent = sent rcv @ List.map_filter single_event (concat (items @ drained)), room = None\<rparr>, True)"
  by (induction items arbitrary: rcv)
    (simp_all add: handle_single_results_unbounded drain_singles_unbounded map_filter_def)

section \<open>Properties\<close>

text \<open>C6. Under every interleaving of manager batches, session failures, backoff sleeps and
  cancellation, and whatever the capacity of the receiver, \<open>watch_leases\<close> never panics, and as
  long as it runs the lease ids the receiver has accumulated from the forwarded batches are
  exactly the ids of the watcher's table less the node's own: no session restart, snapshot or
  dropped empty batch makes the consumer drift from the watcher.\<close>

theorem watch_leases_tracks:
  assumes "watch_reach (input_ok v4 v6) own cap st"
  shows "w_phase st \<noteq> Panicked \<and>
    (w_phase st = InSession \<or> w_phase st = InBackoff \<longrightarrow>
       receiver_keys v4 v6 (w_rcv st) =
         lease_key v4 v6 ` set (leases (w_lw st)) - {lease_key v4 v6 own})"
  using watch_reach_synced [OF assms] by (auto simp: synced_def)

theorem watch_leases_tracks_witness:
  "\<exists>st. watch_leases_step (watch_start (sample_lease 1) None)
      (Recv [\<lparr>wr_events = [\<lparr>ev_type = Added, ev_lease = sample_lease 2\<rparr>], wr_snapshot = []\<rparr>]) = Some st \<and>
    w_phase st = InSession \<and>
    receiver_keys True False (w_rcv st) =
      lease_key True False ` set (leases (w_lw st)) - {lease_key True False (sample_lease 1)}"
proof -
  let ?i = "Recv [\<lparr>wr_events = [\<lparr>ev_type = Added, ev_lease = sample_lease 2\<rparr>], wr_snapshot = []\<rparr>]"
  obtain st where st: "watch_leases_step (watch_start (sample_lease 1) None) ?i = Some st"
    and ph: "w_phase st = InSession"
    by (simp add: watch_start_def after_handling_def reduce_def lw_update_def lw_new_def is_own_key
      [of True False] lw_add_def send_def)
  have "watch_reach (input_ok True False) (sample_lease 1) None st"
    by (rule watch_reach.step [OF watch_reach.start _ st]) (simp add: result_ok_def table_inv_def)
  from watch_leases_tracks [OF this] st ph show ?thesis by auto
qed

text \<open>C31. The watch is retried for ever: in every reachable session whose receiver is never
  dropped, a manager error that is not a cancellation, whatever the manager had buffered,
  leads to the backoff and, once the sleep ends, to a new session with the watcher's table
  kept and the receiver in step with it.\<close>

theorem watch_leases_retries:
  assumes "watch_reach (input_ok v4 v6) own None st" and "w_phase st = InSession"
    and "input_ok v4 v6 (ManagerErr items False)"
  shows "\<exists>st1 st2. watch_leases_step st (ManagerErr items False) = Some st1 \<and> w_phase st1 = InBackoff \<and>
    watch_leases_step st1 SleepDone = Some st2 \<and> w_phase st2 = InSession \<and>
    w_lw st2 = w_lw st1 \<and> w_backoff st2 = min (2 * w_backoff st) 30 \<and>
    receiver_keys v4 v6 (w_rcv st2) = lease_key v4 v6 ` set (leases (w_lw st2)) - {lease_key v4 v6 own}"
proof -
  have sync: "synced v4 v6 own (w_lw st) (w_rcv st)"
    using watch_reach_synced [OF assms(1)] assms(2) by simp
  from drain_batches_synced [OF sync, of items] assms(3) obtain lw rcv alive
    where d: "drain_batches (w_lw st) items (w_rcv st) = Some (lw, rcv, alive)"
      and s: "alive \<longrightarrow> synced v4 v6 own lw rcv" by auto
  from drain_batches_room [OF watch_reach_room [OF assms(1)] d] d s assms(2) show ?thesis
    by (simp add: after_handling_def synced_def WATCH_RETRY_MAX_def)
qed

theorem watch_leases_retries_witness:
  "\<exists>st1 st2. watch_leases_step (watch_start (sample_lease 1) None) (ManagerErr [] False) = Some st1 \<and>
    watch_leases_step st1 SleepDone = Some st2 \<and> w_phase st2 = InSession \<and> w_backoff st2 = 2"
  using watch_leases_retries [OF watch_reach.start [of "input_ok True False" "sample_lease 1" None], of "[]"]
  by (auto simp: watch_start_def WATCH_RETRY_DELAY_def)

text \<open>The backoff schedule: in every reachable state, whatever the inputs, the sleeps so
  far were 1, 2, 4, 8, 16 seconds and then 30 for ever, and the next one follows suit.\<close>

theorem watch_leases_backoff:
  assumes "watch_reach ok own cap st"
  shows "w_slept st = map (\<lambda>n. min (2 ^ n) 30) [0..<length (w_slept st)] \<and>
    w_backoff st = min (2 ^ length (w_slept st)) 30"
  using assms
proof induction
  case start
  show ?case by (simp add: watch_start_def WATCH_RETRY_DELAY_def)
next
  case (step st i st')
  then show ?case
    by (cases i) (auto simp: after_handling_def WATCH_RETRY_MAX_def min_def
      split: phase.splits option.splits)
qed

theorem watch_leases_backoff_witness:
  "\<exists>st1 st2. watch_leases_step (watch_start (sample_lease 1) None) RecvClosed = Some st1 \<and>
    watch_leases_step st1 SleepDone = Some st2 \<and> w_slept st2 = [1] \<and> w_backoff st2 = 2"
proof -
  obtain st1 st2 where s1: "watch_leases_step (watch_start (sample_lease 1) None) RecvClosed = Some st1"
    and s2: "watch_leases_step st1 SleepDone = Some st2" and len: "length (w_slept st2) = 1"
    by (simp add: watch_start_def)
  have "watch_reach (\<lambda>_. True) (sample_lease 1) None st2"
    using watch_reach.step [OF watch_reach.step [OF watch_reach.start _ s1] _ s2] by simp
  from watch_leases_backoff [OF this] s1 s2 len show ?thesis by auto
qed

text \<open>\<open>watch_lease\<close> with a receiver that stays loses and reorders nothing: one event per
  non-empty watch result, in the order the manager sent them, the results still buffered when
  the manager ends included, and then it returns.\<close>

theorem watch_lease_forwards:
  "watch_lease_run (map Recv items @ [ManagerOk drained]) \<lparr>sent = [], room = None\<rparr> =
     (\<lparr>sent = List.map_filter single_event (concat (items @ drained)), room = None\<rparr>, True)"
  by (simp add: watch_lease_run_recvs)

text \<open>Own-lease removals are not always filtered: after a snapshot that contains the own
  lease, an identical second snapshot makes \<open>reduce\<close> emit the removal of the own lease,
  because \<open>reset\<close> stores the own lease but never matches it again.\<close>

theorem reset_twice_removes_own:
  "\<exists>lw. reduce (lw_new own) \<lparr>wr_events = [], wr_snapshot = [own]\<rparr> = Some (lw, []) \<and>
     reduce lw \<lparr>wr_events = [], wr_snapshot = [own]\<rparr> =
       Some (lw, [\<lparr>ev_type = Removed, ev_lease = own\<rparr>])"
  by (simp add: reduce_def lw_reset_def lw_new_def is_own_def same_subnet_key)

end
