(* ===== verification/Json.thy ===== *)
theory Json
  imports Ip6net
begin

text \<open>
  JSON values as \<open>serde_json\<close> hands them to the sources. The parser itself is a library and
  stays a parameter of the definitions that call it: a function from text to an error message
  or a value. \<open>serde_json::Map\<close> without \<open>preserve_order\<close> is a B-tree, so an object is the list
  of its members with distinct keys in key order. The typed reads (\<open>next_value\<close>, \<open>as_u64\<close>)
  are written out; a mismatch is reported with the library's own text, a parameter as well.
\<close>

datatype json =
    JNull
  | JBool bool
  | JPos nat
  | JNeg int
  | JFloat string
  | JString string
  | JArray "json list"
  | JObject "(string \<times> json) list"

type_synonym type_error = "string \<Rightarrow> json \<Rightarrow> string"

section \<open>ASCII case folding\<close>

definition to_ascii_lowercase :: "char \<Rightarrow> char" where
  "to_ascii_lowercase c =
     (let n = (of_char c :: nat) in if 65 \<le> n \<and> n \<le> 90 then char_of (n + 32) else c)"

definition lower :: "string \<Rightarrow> string" where
  "lower s = map to_ascii_lowercase s"

definition eq_ignore_ascii_case :: "string \<Rightarrow> string \<Rightarrow> bool" where
  "eq_ignore_ascii_case a b \<longleftrightarrow> lower a = lower b"

lemma eq_ignore_ascii_case_refl [simp]: "eq_ignore_ascii_case a a"
  by (simp add: eq_ignore_ascii_case_def)

lemma to_ascii_lowercase_idem [simp]: "to_ascii_lowercase (to_ascii_lowercase c) = to_ascii_lowercase c"
  by (simp add: to_ascii_lowercase_def Let_def)

lemma lower_lower [simp]: "lower (lower s) = lower s"
  by (simp add: lower_def)

section \<open>Typed reads\<close>

definition de_bool :: "type_error \<Rightarrow> json \<Rightarrow> string + bool" where
  "de_bool te v = (case v of JBool b \<Rightarrow> Inr b | _ \<Rightarrow> Inl (te ''a boolean'' v))"

definition de_u32 :: "type_error \<Rightarrow> json \<Rightarrow> string + u32" where
  "de_u32 te v =
     (case v of JPos n \<Rightarrow> if n < 2 ^ 32 then Inr (of_nat n) else Inl (te ''u32'' v)
              | _ \<Rightarrow> Inl (te ''u32'' v))"

definition de_string :: "type_error \<Rightarrow> json \<Rightarrow> string + string" where
  "de_string te v = (case v of JString s \<Rightarrow> Inr s | _ \<Rightarrow> Inl (te ''a string'' v))"

text \<open>\<open>Deserialize\<close> of the address types reads a string and runs \<open>FromStr\<close>.\<close>

definition de_parsed :: "(string \<Rightarrow> 'e + 'a) \<Rightarrow> type_error \<Rightarrow> json \<Rightarrow> string + 'a" where
  "de_parsed parse te v =
     rbind (de_string te v) (\<lambda>s.
       case parse s of Inl _ \<Rightarrow> Inl (te s v) | Inr x \<Rightarrow> Inr x)"

definition de_option :: "(type_error \<Rightarrow> json \<Rightarrow> string + 'a) \<Rightarrow> type_error \<Rightarrow> json \<Rightarrow> string + 'a option" where
  "de_option de te v = (case v of JNull \<Rightarrow> Inr None | _ \<Rightarrow> map_sum id Some (de te v))"

text \<open>A field of a derived \<open>Deserialize\<close> with a default.\<close>

definition de_field :: "'a \<Rightarrow> (json \<Rightarrow> string + 'a) \<Rightarrow> json option \<Rightarrow> string + 'a" where
  "de_field d de v = (case v of None \<Rightarrow> Inr d | Some w \<Rightarrow> de w)"

text \<open>A \<open>Vec\<close>, and a field without a default.\<close>

fun de_list :: "(json \<Rightarrow> string + 'a) \<Rightarrow> json list \<Rightarrow> string + 'a list" where
  "de_list de [] = Inr []"
| "de_list de (v # vs) = rbind (de v) (\<lambda>x. map_sum id (Cons x) (de_list de vs))"

definition de_vec :: "(json \<Rightarrow> string + 'a) \<Rightarrow> type_error \<Rightarrow> json \<Rightarrow> string + 'a list" where
  "de_vec de te v = (case v of JArray vs \<Rightarrow> de_list de vs | _ \<Rightarrow> Inl (te ''a sequence'' v))"

definition de_required :: "(json \<Rightarrow> string + 'a) \<Rightarrow> type_error \<Rightarrow> json \<Rightarrow> json option \<Rightarrow> string + 'a" where
  "de_required de te v w = (case w of None \<Rightarrow> Inl (te ''missing field'' v) | Some x \<Rightarrow> de x)"

definition de_i32 :: "type_error \<Rightarrow> json \<Rightarrow> string + u32" where
  "de_i32 te v =
     (case v of
        JPos n \<Rightarrow> if n < 2 ^ 31 then Inr (of_nat n) else Inl (te ''i32'' v)
      | JNeg i \<Rightarrow> if - (2 ^ 31) \<le> i then Inr (of_int i) else Inl (te ''i32'' v)
      | _ \<Rightarrow> Inl (te ''i32'' v))"

text \<open>The members of a derived \<open>Deserialize\<close> for a struct: an object, whose known keys must not repeat, or an
  array of the fields in order. A number is a field's position in the struct.\<close>

definition struct_members :: "type_error \<Rightarrow> string \<Rightarrow> string list \<Rightarrow> json \<Rightarrow> string + (nat \<Rightarrow> json option)" where
  "struct_members te name keys v =
     (case v of
        JObject ms \<Rightarrow>
          if \<not> distinct (filter (\<lambda>k. k \<in> set keys) (map fst ms)) then Inl (te ''duplicate field'' v)
          else Inr (\<lambda>i. map_of ms (keys ! i))
      | JArray vs \<Rightarrow>
          if length vs > length keys then Inl (te ''fewer elements in array'' v)
          else Inr (\<lambda>i. if i < length vs then Some (vs ! i) else None)
      | _ \<Rightarrow> Inl (te (''struct '' @ name) v))"

section \<open>Object members\<close>

definition fold_lookup :: "(string \<times> json) list \<Rightarrow> string \<Rightarrow> json option" where
  "fold_lookup members name =
     (case map_of members name of
        Some v \<Rightarrow> Some v
      | None \<Rightarrow> map_option snd (find (\<lambda>(k, _). eq_ignore_ascii_case k name) members))"

lemma fold_lookup_None:
  "fold_lookup members name = None \<longleftrightarrow> (\<forall>k \<in> fst ` set members. lower k \<noteq> lower name)"
proof
  assume "fold_lookup members name = None"
  then show "\<forall>k \<in> fst ` set members. lower k \<noteq> lower name"
    by (auto simp: fold_lookup_def find_None_iff eq_ignore_ascii_case_def split: option.splits)
next
  assume *: "\<forall>k \<in> fst ` set members. lower k \<noteq> lower name"
  then have "map_of members name = None" by (auto simp: map_of_eq_None_iff)
  with * show "fold_lookup members name = None"
    by (auto simp: fold_lookup_def find_None_iff eq_ignore_ascii_case_def)
qed

end
