(* ===== verification/Config.thy ===== *)
theory Config
  imports Json
begin

text \<open>
  \<open>subnet/config.rs\<close>: decoding of net-conf.json with the field matching of Go's
  \<open>encoding/json\<close>, the backend type, and \<open>check_network_config\<close>, which validates the
  subnet pool and fills in its defaults. A document is the list of its members in text order,
  each with its value and its raw text.
\<close>

section \<open>Data\<close>

datatype config_error =
    Json string
  | Backend string
  | MissingNetwork
  | MissingIpv6Network
  | SubnetLenTooBigV4
  | SubnetLenTooBigV6
  | TooFewSubnets
  | NetworkTooSmallV4
  | NetworkTooSmallV6
  | SubnetMinOutOfRange
  | SubnetMaxOutOfRange
  | Ipv6SubnetMinOutOfRange
  | Ipv6SubnetMaxOutOfRange
  | SubnetMinUnaligned ip4
  | SubnetMaxUnaligned ip4
  | Ipv6SubnetMinUnaligned ip6
  | Ipv6SubnetMaxUnaligned ip6

record config =
  cfg_enable_ipv4 :: bool
  cfg_enable_ipv6 :: bool
  cfg_enable_nftables :: bool
  cfg_network :: ip4net
  cfg_ipv6_network :: ip6net
  cfg_subnet_min :: ip4
  cfg_subnet_max :: ip4
  cfg_ipv6_subnet_min :: "ip6 option"
  cfg_ipv6_subnet_max :: "ip6 option"
  cfg_subnet_len :: u32
  cfg_ipv6_subnet_len :: u32
  cfg_backend_type :: string
  cfg_backend :: "string option"

definition config_default :: config where
  "config_default =
     \<lparr>cfg_enable_ipv4 = False, cfg_enable_ipv6 = False, cfg_enable_nftables = False,
      cfg_network = ip4net_default, cfg_ipv6_network = ip6net_default,
      cfg_subnet_min = IP4 0, cfg_subnet_max = IP4 0,
      cfg_ipv6_subnet_min = None, cfg_ipv6_subnet_max = None,
      cfg_subnet_len = 0, cfg_ipv6_subnet_len = 0, cfg_backend_type = [], cfg_backend = None\<rparr>"

record member =
  mb_key :: string
  mb_value :: json
  mb_raw :: string

section \<open>Decoding\<close>

definition CONFIG_FIELDS :: "string list" where
  "CONFIG_FIELDS =
     [''EnableIPv4'', ''EnableIPv6'', ''EnableNFTables'', ''Network'', ''IPv6Network'',
      ''SubnetMin'', ''SubnetMax'', ''IPv6SubnetMin'', ''IPv6SubnetMax'', ''SubnetLen'',
      ''IPv6SubnetLen'', ''Backend'']"

definition match_config_field :: "string \<Rightarrow> string option" where
  "match_config_field key =
     (case find (\<lambda>name. name = key) CONFIG_FIELDS of
        Some name \<Rightarrow> Some name
      | None \<Rightarrow> find (\<lambda>name. eq_ignore_ascii_case name key) CONFIG_FIELDS)"

definition visit_member :: "type_error \<Rightarrow> config \<Rightarrow> member \<Rightarrow> string + config" where
  "visit_member te cfg mb =
     (let v = mb_value mb; f = match_config_field (mb_key mb) in
      if f = Some ''EnableIPv4'' then map_sum id (\<lambda>b. cfg\<lparr>cfg_enable_ipv4 := b\<rparr>) (de_bool te v)
      else if f = Some ''EnableIPv6'' then map_sum id (\<lambda>b. cfg\<lparr>cfg_enable_ipv6 := b\<rparr>) (de_bool te v)
      else if f = Some ''EnableNFTables'' then map_sum id (\<lambda>b. cfg\<lparr>cfg_enable_nftables := b\<rparr>) (de_bool te v)
      else if f = Some ''Network'' then map_sum id (\<lambda>n. cfg\<lparr>cfg_network := n\<rparr>) (de_parsed n4_from_str te v)
      else if f = Some ''IPv6Network'' then map_sum id (\<lambda>n. cfg\<lparr>cfg_ipv6_network := n\<rparr>) (de_parsed n6_from_str te v)
      else if f = Some ''SubnetMin'' then map_sum id (\<lambda>a. cfg\<lparr>cfg_subnet_min := a\<rparr>) (de_parsed ip4_from_str te v)
      else if f = Some ''SubnetMax'' then map_sum id (\<lambda>a. cfg\<lparr>cfg_subnet_max := a\<rparr>) (de_parsed ip4_from_str te v)
      else if f = Some ''IPv6SubnetMin'' then
        map_sum id (\<lambda>a. cfg\<lparr>cfg_ipv6_subnet_min := a\<rparr>) (de_option (de_parsed ip6_from_str) te v)
      else if f = Some ''IPv6SubnetMax'' then
        map_sum id (\<lambda>a. cfg\<lparr>cfg_ipv6_subnet_max := a\<rparr>) (de_option (de_parsed ip6_from_str) te v)
      else if f = Some ''SubnetLen'' then map_sum id (\<lambda>n. cfg\<lparr>cfg_subnet_len := n\<rparr>) (de_u32 te v)
      else if f = Some ''IPv6SubnetLen'' then map_sum id (\<lambda>n. cfg\<lparr>cfg_ipv6_subnet_len := n\<rparr>) (de_u32 te v)
      else if f = Some ''Backend'' then Inr (cfg\<lparr>cfg_backend := Some (mb_raw mb)\<rparr>)
      else Inr cfg)"

fun visit_members :: "type_error \<Rightarrow> config \<Rightarrow> member list \<Rightarrow> string + config" where
  "visit_members te cfg [] = Inr cfg"
| "visit_members te cfg (mb # mbs) = rbind (visit_member te cfg mb) (\<lambda>cfg'. visit_members te cfg' mbs)"

definition visit_map :: "type_error \<Rightarrow> member list \<Rightarrow> string + config" where
  "visit_map te mbs = visit_members te (config_default\<lparr>cfg_enable_ipv4 := True\<rparr>) mbs"

fun json_type_name :: "json \<Rightarrow> string" where
  "json_type_name JNull = ''null''"
| "json_type_name (JBool _) = ''bool''"
| "json_type_name (JPos _) = ''number''"
| "json_type_name (JNeg _) = ''number''"
| "json_type_name (JFloat _) = ''number''"
| "json_type_name (JString _) = ''string''"
| "json_type_name (JArray _) = ''array''"
| "json_type_name (JObject _) = ''object''"

definition parse_backend_type :: "(string \<Rightarrow> string + json) \<Rightarrow> string option \<Rightarrow> config_error + string" where
  "parse_backend_type parse_value backend =
     (case backend of
        None \<Rightarrow> Inr ''udp''
      | Some raw \<Rightarrow>
          if raw = [] then Inr ''udp''
          else case parse_value raw of
              Inl e \<Rightarrow> Inl (Backend e)
            | Inr JNull \<Rightarrow> Inr []
            | Inr (JObject ms) \<Rightarrow>
                (case fold_lookup ms ''Type'' of
                   None \<Rightarrow> Inr []
                 | Some (JString ty) \<Rightarrow> Inr ty
                 | Some other \<Rightarrow>
                     Inl (Backend (''cannot unmarshal '' @ json_type_name other @
                       '' into Go struct field .Type of type string'')))
            | Inr other \<Rightarrow>
                Inl (Backend (''cannot unmarshal '' @ json_type_name other @
                  '' into Go value of type struct { Type string }'')))"

text \<open>\<open>members\<close> reads the text of an object, \<open>parse_value\<close> any value: the two entries of the
  JSON library.\<close>

definition parse_config ::
  "(string \<Rightarrow> string + member list) \<Rightarrow> (string \<Rightarrow> string + json) \<Rightarrow> type_error \<Rightarrow> string \<Rightarrow>
   config_error + config" where
  "parse_config members parse_value te s =
     (case rbind (members s) (visit_map te) of
        Inl e \<Rightarrow> Inl (Json e)
      | Inr cfg \<Rightarrow>
          map_sum id (\<lambda>ty. cfg\<lparr>cfg_backend_type := ty\<rparr>) (parse_backend_type parse_value (cfg_backend cfg)))"

section \<open>Validation\<close>

definition v4_subnet_len :: "config \<Rightarrow> config_error + u32" where
  "v4_subnet_len c =
     (if cfg_subnet_len c > 0 then
        (if cfg_subnet_len c > 30 then Inl SubnetLenTooBigV4
         else if cfg_subnet_len c < n4_prefix_len (cfg_network c) + 2 then Inl TooFewSubnets
         else Inr (cfg_subnet_len c))
      else if n4_prefix_len (cfg_network c) > 28 then Inl NetworkTooSmallV4
      else if n4_prefix_len (cfg_network c) \<le> 22 then Inr 24
      else Inr (n4_prefix_len (cfg_network c) + 2))"

definition v4_subnet_min :: "config \<Rightarrow> u32 \<Rightarrow> config_error + ip4" where
  "v4_subnet_min c size' =
     (if cfg_subnet_min c = IP4 0 then Inr (get_subnet_min (n4_ip (cfg_network c)) size')
      else if \<not> n4_contains (cfg_network c) (cfg_subnet_min c) then Inl SubnetMinOutOfRange
      else Inr (cfg_subnet_min c))"

definition v4_subnet_max :: "config \<Rightarrow> u32 \<Rightarrow> config_error + ip4" where
  "v4_subnet_max c size' =
     (if cfg_subnet_max c = IP4 0 then Inr (get_subnet_max (n4_ip (n4_next (cfg_network c))) size')
      else if \<not> n4_contains (cfg_network c) (cfg_subnet_max c) then Inl SubnetMaxOutOfRange
      else Inr (cfg_subnet_max c))"

definition check_v4 :: "config \<Rightarrow> config_error + config" where
  "check_v4 c =
     (if n4_empty (cfg_network c) then Inl MissingNetwork
      else
        rbind (v4_subnet_len c) (\<lambda>len.
        let size' = push_bit (unat (32 - len)) 1 in
        rbind (v4_subnet_min c size') (\<lambda>mn.
        rbind (v4_subnet_max c size') (\<lambda>mx.
        if \<not> check_subnet mn (ip4_mask len) then Inl (SubnetMinUnaligned mn)
        else if \<not> check_subnet mx (ip4_mask len) then Inl (SubnetMaxUnaligned mx)
        else Inr (c\<lparr>cfg_subnet_len := len, cfg_subnet_min := mn, cfg_subnet_max := mx\<rparr>)))))"

definition v6_subnet_len :: "config \<Rightarrow> config_error + u32" where
  "v6_subnet_len c =
     (if cfg_ipv6_subnet_len c > 0 then
        (if cfg_ipv6_subnet_len c > 126 then Inl SubnetLenTooBigV6
         else if cfg_ipv6_subnet_len c < n6_prefix_len (cfg_ipv6_network c) + 2 then Inl TooFewSubnets
         else Inr (cfg_ipv6_subnet_len c))
      else if n6_prefix_len (cfg_ipv6_network c) > 124 then Inl NetworkTooSmallV6
      else if n6_prefix_len (cfg_ipv6_network c) \<le> 62 then Inr 64
      else Inr (n6_prefix_len (cfg_ipv6_network c) + 2))"

definition v6_subnet_bound ::
  "config \<Rightarrow> ip6 option \<Rightarrow> config_error \<Rightarrow> ip6 \<Rightarrow> config_error + ip6" where
  "v6_subnet_bound c given out_of_range dflt =
     (case given of
        Some a \<Rightarrow>
          if \<not> ip6_is_empty a then
            (if \<not> n6_contains (cfg_ipv6_network c) a then Inl out_of_range else Inr a)
          else Inr dflt
      | None \<Rightarrow> Inr dflt)"

definition check_v6 :: "config \<Rightarrow> config_error + config" where
  "check_v6 c =
     (if n6_empty (cfg_ipv6_network c) then Inl MissingIpv6Network
      else
        rbind (v6_subnet_len c) (\<lambda>len.
        let size' = push_bit (unat (128 - len)) 1;
            net = cfg_ipv6_network c in
        rbind (v6_subnet_bound c (cfg_ipv6_subnet_min c) Ipv6SubnetMinOutOfRange
            (get_ipv6_subnet_min (n6_ip net) size')) (\<lambda>mn.
        rbind (v6_subnet_bound c (cfg_ipv6_subnet_max c) Ipv6SubnetMaxOutOfRange
            (get_ipv6_subnet_max (n6_ip (n6_next net)) size')) (\<lambda>mx.
        if \<not> check_ipv6_subnet mn (mask6 len) then Inl (Ipv6SubnetMinUnaligned mn)
        else if \<not> check_ipv6_subnet mx (mask6 len) then Inl (Ipv6SubnetMaxUnaligned mx)
        else Inr (c\<lparr>cfg_ipv6_subnet_len := len, cfg_ipv6_subnet_min := Some mn,
                    cfg_ipv6_subnet_max := Some mx\<rparr>)))))"

definition check_network_config :: "config \<Rightarrow> config_error + config" where
  "check_network_config c =
     rbind (if cfg_enable_ipv4 c then check_v4 c else Inr c) (\<lambda>c1.
     if cfg_enable_ipv6 c1 then check_v6 c1 else Inr c1)"


section \<open>The subnet pool\<close>

lemma size_of_len:
  assumes "unat len \<le> w"
  shows "push_bit (w - unat len) (1 :: 'a::len word) = of_nat (2 ^ (w - unat len))"
  by (simp add: push_bit_eq_mult)

lemma n4_addrs_subset:
  assumes "n4_wf n" and "n4_wf b"
  shows "n4_addrs b \<subseteq> n4_addrs n \<longleftrightarrow> unat (n4_prefix_len n) \<le> unat (n4_prefix_len b) \<and> n4_ip b \<in> n4_addrs n"
  using cidr_block_subset_iff [of "unat (n4_prefix_len n)" "unat (n4_prefix_len b)" "ip4_val (n4_ip b)" "ip4_val (n4_ip n)"] assms
  by (cases "n4_ip b") (auto simp: n4_addrs_def n4_wf_unat)

lemma v4_subnet_len_bounds:
  assumes "v4_subnet_len c = Inr len" and "n4_wf (cfg_network c)"
  shows "unat (n4_prefix_len (cfg_network c)) + 2 \<le> unat len" and "unat len \<le> 30"
proof -
  let ?p = "n4_prefix_len (cfg_network c)"
  have p: "unat ?p \<le> 32" using assms(2) by (simp add: n4_wf_unat)
  then have "unat (?p + 2) = unat ?p + 2" by (simp add: unat_word_ariths)
  then show "unat ?p + 2 \<le> unat len" "unat len \<le> 30"
    using assms(1) by (auto simp: v4_subnet_len_def word_less_nat_alt word_le_nat_alt split: if_splits)
qed

text \<open>What the two ends of the pool are when the configuration leaves them out.\<close>

lemma v4_default_ends:
  assumes wf: "n4_wf net" and al: "n4_network net = net"
    and p: "unat (n4_prefix_len net) + 2 \<le> unat len" and len: "unat len \<le> 30"
  defines "size' \<equiv> push_bit (unat (32 - len)) 1"
  shows "get_subnet_min (n4_ip net) size' \<in> n4_addrs net"
    and "get_subnet_max (n4_ip (n4_next net)) size' \<in> n4_addrs net"
    and "check_subnet (get_subnet_min (n4_ip net) size') (ip4_mask len)"
    and "check_subnet (get_subnet_max (n4_ip (n4_next net)) size') (ip4_mask len)"
    and "unat (ip4_val (get_subnet_min (n4_ip net) size')) = unat (ip4_val (n4_ip net)) + 2 ^ (32 - unat len)"
    and "unat (ip4_val (get_subnet_max (n4_ip (n4_next net)) size')) =
      unat (ip4_val (n4_ip net)) + (2 ^ (32 - unat (n4_prefix_len net)) - 2 ^ (32 - unat len))"
    and "get_subnet_min (n4_ip net) size' \<le> get_subnet_max (n4_ip (n4_next net)) size'"
proof -
  let ?x = "ip4_val (n4_ip net)" and ?n = "unat (n4_prefix_len net)"
  have m: "mask_value (n4_prefix_len net) = hi_mask ?n"
    using wf by (intro v4.amask_in) (simp add: n4_wf_unat)
  have l32: "len \<le> 32" using len by (simp add: word_le_nat_alt)
  then have "unat (32 - len) = 32 - unat len" by (simp add: unat_sub)
  then have size: "size' = of_nat (2 ^ (LENGTH(32) - unat len))"
    by (simp add: size'_def size_of_len [of len 32])
  have al': "?x AND hi_mask ?n = ?x"
    using arg_cong [OF al, of "\<lambda>n. ip4_val (n4_ip n)"] by (simp add: n4_network_def n4_mask_def m)
  have lens: "unat len \<le> LENGTH(32)" using len by simp
  note pool = subnet_pool [OF al' p lens, folded size]
  have mx: "ip4_val (get_subnet_max (n4_ip (n4_next net)) size') = ?x - hi_mask ?n - size'"
    by (simp add: get_subnet_max_def n4_next_def subnet_size_eq m)
  have mn: "ip4_val (get_subnet_min (n4_ip net) size') = ?x + size'"
    by (simp add: get_subnet_min_def)
  show "get_subnet_min (n4_ip net) size' \<in> n4_addrs net"
    using pool(1) by (auto simp: n4_addrs_def get_subnet_min_def)
  show "get_subnet_max (n4_ip (n4_next net)) size' \<in> n4_addrs net"
    using pool(3) mx by (auto simp: n4_addrs_def image_iff) (metis ip4.collapse)
  show "check_subnet (get_subnet_min (n4_ip net) size') (ip4_mask len)"
    using pool(2) by (simp add: check_subnet_iff [OF l32] mn)
  show "check_subnet (get_subnet_max (n4_ip (n4_next net)) size') (ip4_mask len)"
    using pool(4) by (simp add: check_subnet_iff [OF l32] mx)
  show "unat (ip4_val (get_subnet_min (n4_ip net) size')) = unat ?x + 2 ^ (32 - unat len)"
    using pool(5) by (simp add: mn)
  show "unat (ip4_val (get_subnet_max (n4_ip (n4_next net)) size')) =
      unat ?x + (2 ^ (32 - ?n) - 2 ^ (32 - unat len))"
    using pool(6) by (simp add: mx)
  show "get_subnet_min (n4_ip net) size' \<le> get_subnet_max (n4_ip (n4_next net)) size'"
    using pool(7) by (simp add: less_eq_ip4_def mn mx)
qed

lemma check_v4_sound:
  assumes ok: "check_v4 c = Inr c'" and wf: "n4_wf (cfg_network c)"
    and al: "n4_network (cfg_network c) = cfg_network c"
  shows "\<exists>len mn mx. c' = c\<lparr>cfg_subnet_len := len, cfg_subnet_min := mn, cfg_subnet_max := mx\<rparr> \<and>
    unat (n4_prefix_len (cfg_network c)) + 2 \<le> unat len \<and> unat len \<le> 30 \<and>
    mn \<in> n4_addrs (cfg_network c) \<and> mx \<in> n4_addrs (cfg_network c) \<and>
    check_subnet mn (ip4_mask len) \<and> check_subnet mx (ip4_mask len)"
proof -
  let ?net = "cfg_network c"
  from ok obtain len mn mx where len: "v4_subnet_len c = Inr len"
    and mn: "v4_subnet_min c (push_bit (unat (32 - len)) 1) = Inr mn"
    and mx: "v4_subnet_max c (push_bit (unat (32 - len)) 1) = Inr mx"
    and chk: "check_subnet mn (ip4_mask len)" "check_subnet mx (ip4_mask len)"
    and c': "c' = c\<lparr>cfg_subnet_len := len, cfg_subnet_min := mn, cfg_subnet_max := mx\<rparr>"
    by (auto simp: check_v4_def Let_def split: if_splits)
  note lb = v4_subnet_len_bounds [OF len wf]
  note ends = v4_default_ends [OF wf al lb]
  have "mn \<in> n4_addrs ?net"
    using mn ends(1) n4_contains_iff [OF wf] by (auto simp: v4_subnet_min_def split: if_splits)
  moreover have "mx \<in> n4_addrs ?net"
    using mx ends(2) n4_contains_iff [OF wf] by (auto simp: v4_subnet_max_def split: if_splits)
  ultimately show ?thesis using c' chk lb by blast
qed

lemma check_v6_keeps_v4:
  assumes "check_v6 c = Inr c'"
  shows "cfg_network c' = cfg_network c \<and> cfg_subnet_len c' = cfg_subnet_len c \<and>
    cfg_subnet_min c' = cfg_subnet_min c \<and> cfg_subnet_max c' = cfg_subnet_max c"
  using assms by (auto simp: check_v6_def Let_def split: if_splits)

lemma n6_addrs_subset:
  assumes "n6_prefix_len n \<le> 128" and "n6_prefix_len b \<le> 128" and "ip6_wf (n6_ip b)"
  shows "n6_addrs b \<subseteq> n6_addrs n \<longleftrightarrow> unat (n6_prefix_len n) \<le> unat (n6_prefix_len b) \<and> n6_ip b \<in> n6_addrs n"
proof -
  have "n6_ip b \<in> n6_addrs n \<longleftrightarrow>
      ip6_value (n6_ip b) \<in> cidr_block (ip6_value (n6_ip n)) (unat (n6_prefix_len n))"
    using assms(3) by (auto simp: n6_addrs_def image_iff) (metis ip6_from_value_value)
  then show ?thesis
    using assms by (simp add: n6_addrs_def n6_wf_unat inj_image_subset_iff [OF inj_ip6_from_value]
      cidr_block_subset_iff)
qed

lemma v6_subnet_len_bounds:
  assumes "v6_subnet_len c = Inr len" and "n6_prefix_len (cfg_ipv6_network c) \<le> 128"
  shows "unat (n6_prefix_len (cfg_ipv6_network c)) + 2 \<le> unat len" and "unat len \<le> 126"
proof -
  let ?p = "n6_prefix_len (cfg_ipv6_network c)"
  have p: "unat ?p \<le> 128" using assms(2) by (simp add: n6_wf_unat)
  then have "unat (?p + 2) = unat ?p + 2" by (simp add: unat_word_ariths)
  then show "unat ?p + 2 \<le> unat len" "unat len \<le> 126"
    using assms(1) by (auto simp: v6_subnet_len_def word_less_nat_alt word_le_nat_alt split: if_splits)
qed

lemma v6_default_ends:
  fixes len :: u32
  assumes wf: "n6_prefix_len net \<le> 128" and al: "n6_network net = net"
    and p: "unat (n6_prefix_len net) + 2 \<le> unat len" and len: "unat len \<le> 126"
  defines "size' \<equiv> push_bit (unat (128 - len)) 1"
  shows "get_ipv6_subnet_min (n6_ip net) size' \<in> n6_addrs net"
    and "get_ipv6_subnet_max (n6_ip (n6_next net)) size' \<in> n6_addrs net"
proof -
  let ?x = "ip6_value (n6_ip net)" and ?n = "unat (n6_prefix_len net)"
  have m: "ip6_value (mask6 (n6_prefix_len net)) = hi_mask ?n"
    using wf by (intro v6.amask_in) (simp add: n6_wf_unat)
  have "len \<le> 128" using len by (simp add: word_le_nat_alt)
  then have "unat (128 - len) = 128 - unat len" by (simp add: unat_sub)
  then have size: "size' = of_nat (2 ^ (LENGTH(128) - unat len))"
    by (simp add: size'_def size_of_len [of len 128])
  have al': "?x AND hi_mask ?n = ?x"
    using arg_cong [OF al, of "\<lambda>n. ip6_value (n6_ip n)"] by (simp add: n6_network_def n6_mask_def m)
  have lens: "unat len \<le> LENGTH(128)" using len by simp
  note pool = subnet_pool [OF al' p lens, folded size]
  show "get_ipv6_subnet_min (n6_ip net) size' \<in> n6_addrs net"
    using pool(1) by (auto simp: n6_addrs_def get_ipv6_subnet_min_def)
  show "get_ipv6_subnet_max (n6_ip (n6_next net)) size' \<in> n6_addrs net"
    using pool(3) by (auto simp: n6_addrs_def get_ipv6_subnet_max_def n6_next_def subnet_size6_eq m)
qed

lemma v6_subnet_bound_in:
  assumes "v6_subnet_bound c given e dflt = Inr a" and "n6_prefix_len (cfg_ipv6_network c) \<le> 128"
    and "dflt \<in> n6_addrs (cfg_ipv6_network c)" and "\<forall>g. given = Some g \<longrightarrow> ip6_wf g"
  shows "a \<in> n6_addrs (cfg_ipv6_network c)"
  using assms n6_contains_iff [OF assms(2), of a]
  by (auto simp: v6_subnet_bound_def split: option.splits if_splits)

lemma n6_addrs_wf: "a \<in> n6_addrs n \<Longrightarrow> ip6_wf a"
  by (auto simp: n6_addrs_def)

lemma check_v6_sound:
  assumes ok: "check_v6 c = Inr c'" and wf: "n6_prefix_len (cfg_ipv6_network c) \<le> 128"
    and al: "n6_network (cfg_ipv6_network c) = cfg_ipv6_network c"
    and given: "\<forall>a. cfg_ipv6_subnet_min c = Some a \<or> cfg_ipv6_subnet_max c = Some a \<longrightarrow> ip6_wf a"
  shows "\<exists>len mn mx. c' = c\<lparr>cfg_ipv6_subnet_len := len, cfg_ipv6_subnet_min := Some mn, cfg_ipv6_subnet_max := Some mx\<rparr> \<and>
    unat (n6_prefix_len (cfg_ipv6_network c)) + 2 \<le> unat len \<and> unat len \<le> 126 \<and>
    mn \<in> n6_addrs (cfg_ipv6_network c) \<and> mx \<in> n6_addrs (cfg_ipv6_network c) \<and>
    check_ipv6_subnet mn (mask6 len) \<and> check_ipv6_subnet mx (mask6 len)"
proof -
  let ?net = "cfg_ipv6_network c"
  from ok obtain len mn mx where len: "v6_subnet_len c = Inr len"
    and mn: "v6_subnet_bound c (cfg_ipv6_subnet_min c) Ipv6SubnetMinOutOfRange
      (get_ipv6_subnet_min (n6_ip ?net) (push_bit (unat (128 - len)) 1)) = Inr mn"
    and mx: "v6_subnet_bound c (cfg_ipv6_subnet_max c) Ipv6SubnetMaxOutOfRange
      (get_ipv6_subnet_max (n6_ip (n6_next ?net)) (push_bit (unat (128 - len)) 1)) = Inr mx"
    and chk: "check_ipv6_subnet mn (mask6 len)" "check_ipv6_subnet mx (mask6 len)"
    and c': "c' = c\<lparr>cfg_ipv6_subnet_len := len, cfg_ipv6_subnet_min := Some mn, cfg_ipv6_subnet_max := Some mx\<rparr>"
    by (auto simp: check_v6_def Let_def split: if_splits)
  note lb = v6_subnet_len_bounds [OF len wf]
  note ends = v6_default_ends [OF wf al lb]
  have "mn \<in> n6_addrs ?net" using v6_subnet_bound_in [OF mn wf ends(1)] given by simp
  moreover have "mx \<in> n6_addrs ?net" using v6_subnet_bound_in [OF mx wf ends(2)] given by simp
  ultimately show ?thesis using c' chk lb by blast
qed

lemma check_v4_keeps_v6:
  assumes "check_v4 c = Inr c'"
  shows "cfg_ipv6_network c' = cfg_ipv6_network c \<and> cfg_enable_ipv6 c' = cfg_enable_ipv6 c \<and>
    cfg_ipv6_subnet_min c' = cfg_ipv6_subnet_min c \<and> cfg_ipv6_subnet_max c' = cfg_ipv6_subnet_max c"
  using assms by (auto simp: check_v4_def Let_def split: if_splits)

section \<open>What decoding leaves\<close>

definition net4_clean :: "ip4net \<Rightarrow> bool" where
  "net4_clean n \<longleftrightarrow> n4_wf n \<and> n4_network n = n"

definition net6_clean :: "ip6net \<Rightarrow> bool" where
  "net6_clean n \<longleftrightarrow> n6_prefix_len n \<le> 128 \<and> n6_network n = n"

lemma n4_from_str_clean: "n4_from_str s = Inr n \<Longrightarrow> net4_clean n"
  by (auto simp: n4_from_str_def net4_clean_def n4_network_def n4_mask_def and.assoc
    split: prod.splits if_splits)

lemma n6_from_str_clean: "n6_from_str s = Inr n \<Longrightarrow> net6_clean n"
  by (auto simp: n6_from_str_def net6_clean_def n6_network_def n6_mask_def and.assoc
    split: prod.splits if_splits)

lemma de_parsed_Inr: "de_parsed parse te v = Inr x \<Longrightarrow> \<exists>s. v = JString s \<and> parse s = Inr x"
  by (auto simp: de_parsed_def de_string_def split: json.splits sum.splits)

lemma map_sum_Inr: "map_sum f g r = Inr y \<longleftrightarrow> (\<exists>x. r = Inr x \<and> y = g x)"
  by (cases r) auto

lemma visit_member_clean:
  assumes "visit_member te cfg mb = Inr cfg'"
    and "net4_clean (cfg_network cfg)" and "net6_clean (cfg_ipv6_network cfg)"
  shows "net4_clean (cfg_network cfg') \<and> net6_clean (cfg_ipv6_network cfg')"
  using assms de_parsed_Inr [of n4_from_str te "mb_value mb"] de_parsed_Inr [of n6_from_str te "mb_value mb"]
  by (auto simp: visit_member_def Let_def map_sum_Inr intro: n4_from_str_clean n6_from_str_clean
    split: if_splits)

lemma visit_members_clean:
  "visit_members te cfg mbs = Inr cfg' \<Longrightarrow> net4_clean (cfg_network cfg) \<Longrightarrow>
     net6_clean (cfg_ipv6_network cfg) \<Longrightarrow>
     net4_clean (cfg_network cfg') \<and> net6_clean (cfg_ipv6_network cfg')"
  by (induction mbs arbitrary: cfg) (auto dest: visit_member_clean)

text \<open>The last member of a document that stands for a field.\<close>

fun last_member :: "string \<Rightarrow> member list \<Rightarrow> member option" where
  "last_member f [] = None"
| "last_member f (mb # mbs) =
     (case last_member f mbs of
        Some m \<Rightarrow> Some m
      | None \<Rightarrow> if match_config_field (mb_key mb) = Some f then Some mb else None)"

lemma visit_members_last:
  assumes "visit_members te cfg mbs = Inr cfg'"
  shows "cfg_enable_ipv4 cfg' =
      (case last_member ''EnableIPv4'' mbs of None \<Rightarrow> cfg_enable_ipv4 cfg | Some m \<Rightarrow> mb_value m = JBool True) \<and>
    cfg_backend cfg' =
      (case last_member ''Backend'' mbs of None \<Rightarrow> cfg_backend cfg | Some m \<Rightarrow> Some (mb_raw m)) \<and>
    (case last_member ''Network'' mbs of None \<Rightarrow> cfg_network cfg' = cfg_network cfg
       | Some m \<Rightarrow> \<exists>s. mb_value m = JString s \<and> n4_from_str s = Inr (cfg_network cfg')) \<and>
    (case last_member ''SubnetLen'' mbs of None \<Rightarrow> cfg_subnet_len cfg' = cfg_subnet_len cfg
       | Some m \<Rightarrow> mb_value m = JPos (unat (cfg_subnet_len cfg')))"
  using assms
proof (induction mbs arbitrary: cfg)
  case (Cons mb mbs)
  then obtain c1 where c1: "visit_member te cfg mb = Inr c1" and r: "visit_members te c1 mbs = Inr cfg'"
    by auto
  have u: "de_u32 te v = Inr n \<Longrightarrow> v = JPos (unat n)" for v n
    by (auto simp: de_u32_def unat_of_nat split: json.splits if_splits)
  have b: "de_bool te v = Inr n \<Longrightarrow> v = JBool n" for v n
    by (auto simp: de_bool_def split: json.splits)
  have step:
    "cfg_enable_ipv4 c1 = (if match_config_field (mb_key mb) = Some ''EnableIPv4'' then mb_value mb = JBool True else cfg_enable_ipv4 cfg)"
    "cfg_backend c1 = (if match_config_field (mb_key mb) = Some ''Backend'' then Some (mb_raw mb) else cfg_backend cfg)"
    "if match_config_field (mb_key mb) = Some ''Network'' then \<exists>s. mb_value mb = JString s \<and> n4_from_str s = Inr (cfg_network c1)
       else cfg_network c1 = cfg_network cfg"
    "if match_config_field (mb_key mb) = Some ''SubnetLen'' then mb_value mb = JPos (unat (cfg_subnet_len c1))
       else cfg_subnet_len c1 = cfg_subnet_len cfg"
    using c1 de_parsed_Inr [of n4_from_str te "mb_value mb"]
    by (auto simp: visit_member_def Let_def map_sum_Inr dest: u b split: if_splits)
  from Cons.IH [OF r] step show ?case
    by (auto split: option.splits if_splits)
qed simp

section \<open>Properties\<close>

text \<open>C17. A configuration with IPv4 enabled that passes \<open>check_network_config\<close> describes a
  usable pool: the subnet length is between the network's prefix plus two and 30, and the
  subnets at both ends of the pool, given or filled in, start on a subnet boundary and lie
  entirely inside the network. The network is the one given, as parsing leaves it (host bits
  clear, prefix in range).\<close>

theorem check_network_config_pool:
  assumes "check_network_config c = Inr c'" and "cfg_enable_ipv4 c"
    and "n4_wf (cfg_network c)" and "n4_network (cfg_network c) = cfg_network c"
  shows "cfg_network c' = cfg_network c \<and>
    unat (n4_prefix_len (cfg_network c)) + 2 \<le> unat (cfg_subnet_len c') \<and> unat (cfg_subnet_len c') \<le> 30 \<and>
    (\<forall>a. a = cfg_subnet_min c' \<or> a = cfg_subnet_max c' \<longrightarrow>
       unat (ip4_val a) mod 2 ^ (32 - unat (cfg_subnet_len c')) = 0 \<and>
       n4_addrs \<lparr>n4_ip = a, n4_prefix_len = cfg_subnet_len c'\<rparr> \<subseteq> n4_addrs (cfg_network c))"
proof -
  from assms(1,2) obtain c1 where c1: "check_v4 c = Inr c1"
    and c': "c' = c1 \<or> check_v6 c1 = Inr c'"
    by (auto simp: check_network_config_def split: if_splits)
  from check_v4_sound [OF c1 assms(3,4)] obtain len mn mx where
    eq: "c1 = c\<lparr>cfg_subnet_len := len, cfg_subnet_min := mn, cfg_subnet_max := mx\<rparr>" and
    len: "unat (n4_prefix_len (cfg_network c)) + 2 \<le> unat len" "unat len \<le> 30" and
    mem: "mn \<in> n4_addrs (cfg_network c)" "mx \<in> n4_addrs (cfg_network c)" and
    chk: "check_subnet mn (ip4_mask len)" "check_subnet mx (ip4_mask len)" by blast
  have c'_eq: "cfg_network c' = cfg_network c" "cfg_subnet_len c' = len"
      "cfg_subnet_min c' = mn" "cfg_subnet_max c' = mx"
    using c' eq check_v6_keeps_v4 [of c1 c'] by auto
  have "len \<le> 32" using len(2) by (simp add: word_le_nat_alt)
  then show ?thesis
    using len mem chk assms(3) by (auto simp: c'_eq check_subnet_iff n4_addrs_subset)
qed

theorem check_network_config_pool_witness:
  "\<exists>c'. check_network_config (config_default\<lparr>cfg_enable_ipv4 := True,
       cfg_network := \<lparr>n4_ip = IP4 0x0A000000, n4_prefix_len = 8\<rparr>\<rparr>) = Inr c' \<and>
     n4_addrs \<lparr>n4_ip = cfg_subnet_max c', n4_prefix_len = cfg_subnet_len c'\<rparr> \<subseteq>
       n4_addrs \<lparr>n4_ip = IP4 0x0A000000, n4_prefix_len = 8\<rparr>"
proof -
  let ?c = "config_default\<lparr>cfg_enable_ipv4 := True,
       cfg_network := \<lparr>n4_ip = IP4 0x0A000000, n4_prefix_len = 8\<rparr>\<rparr>"
  obtain c' where "check_network_config ?c = Inr c'"
    by (simp add: check_network_config_def config_default_def check_v4_def n4_empty_def v4_subnet_len_def
      v4_subnet_min_def v4_subnet_max_def check_subnet_def ip4_mask_def mask_value_def get_subnet_min_def
      get_subnet_max_def n4_next_def subnet_size_def push_bit_eq_mult)
  with check_network_config_pool [of ?c c'] show ?thesis
    by (auto simp: config_default_def n4_network_def n4_mask_def mask_value_def push_bit_eq_mult)
qed

text \<open>The defaults always work: with only a network of prefix length at most 28 given,
  \<open>check_network_config\<close> succeeds; the pool starts one subnet above the network address and
  ends with the last subnet of the network, and it is not empty.\<close>

theorem check_network_config_defaults:
  assumes "cfg_enable_ipv4 c" and "\<not> cfg_enable_ipv6 c" and "\<not> n4_empty (cfg_network c)"
    and "n4_network (cfg_network c) = cfg_network c" and "n4_prefix_len (cfg_network c) \<le> 28"
    and "cfg_subnet_len c = 0" and "cfg_subnet_min c = IP4 0" and "cfg_subnet_max c = IP4 0"
  shows "\<exists>c'. check_network_config c = Inr c' \<and> cfg_subnet_min c' \<le> cfg_subnet_max c' \<and>
    unat (ip4_val (cfg_subnet_min c')) =
      unat (ip4_val (n4_ip (cfg_network c))) + 2 ^ (32 - unat (cfg_subnet_len c')) \<and>
    unat (ip4_val (cfg_subnet_max c')) + 2 ^ (32 - unat (cfg_subnet_len c')) =
      unat (ip4_val (n4_ip (cfg_network c))) + 2 ^ (32 - unat (n4_prefix_len (cfg_network c)))"
proof -
  let ?p = "n4_prefix_len (cfg_network c)"
  have wf: "n4_wf (cfg_network c)" using assms(5) by (simp add: word_le_nat_alt)
  obtain len where len: "v4_subnet_len c = Inr len"
    using assms(5,6) by (cases "?p \<le> 22") (simp_all add: v4_subnet_len_def leD)
  note lb = v4_subnet_len_bounds [OF len wf]
  note ends = v4_default_ends [OF wf assms(4) lb]
  have "(2::nat) ^ (32 - unat len) \<le> 2 ^ (32 - unat ?p)"
    using lb by (intro power_increasing) auto
  with ends(6) have "unat (ip4_val (get_subnet_max (n4_ip (n4_next (cfg_network c))) (push_bit (unat (32 - len)) 1))) +
      2 ^ (32 - unat len) = unat (ip4_val (n4_ip (cfg_network c))) + 2 ^ (32 - unat ?p)" by linarith
  with ends(3-5,7) assms len show ?thesis
    by (simp add: check_network_config_def check_v4_def v4_subnet_min_def v4_subnet_max_def Let_def)
qed

theorem check_network_config_defaults_witness:
  "\<exists>c'. check_network_config (config_default\<lparr>cfg_enable_ipv4 := True,
       cfg_network := \<lparr>n4_ip = IP4 0x0A000000, n4_prefix_len = 8\<rparr>\<rparr>) = Inr c' \<and>
     cfg_subnet_min c' \<le> cfg_subnet_max c'"
  using check_network_config_defaults [of "config_default\<lparr>cfg_enable_ipv4 := True,
       cfg_network := \<lparr>n4_ip = IP4 0x0A000000, n4_prefix_len = 8\<rparr>\<rparr>"]
  by (auto simp: config_default_def n4_empty_def n4_network_def n4_mask_def mask_value_def push_bit_eq_mult)


text \<open>The same for IPv6: a dual-stack or IPv6 configuration that passes has a subnet
  length between the prefix plus two and 126, and both ends of the pool are set, start on a
  subnet boundary and lie with their whole subnet inside the network.\<close>

theorem check_network_config_pool6:
  assumes "check_network_config c = Inr c'" and "cfg_enable_ipv6 c"
    and "n6_prefix_len (cfg_ipv6_network c) \<le> 128"
    and "n6_network (cfg_ipv6_network c) = cfg_ipv6_network c"
    and "\<forall>a. cfg_ipv6_subnet_min c = Some a \<or> cfg_ipv6_subnet_max c = Some a \<longrightarrow> ip6_wf a"
  shows "\<exists>mn mx. cfg_ipv6_subnet_min c' = Some mn \<and> cfg_ipv6_subnet_max c' = Some mx \<and>
    unat (n6_prefix_len (cfg_ipv6_network c)) + 2 \<le> unat (cfg_ipv6_subnet_len c') \<and>
    unat (cfg_ipv6_subnet_len c') \<le> 126 \<and>
    (\<forall>a. a = mn \<or> a = mx \<longrightarrow>
       unat (ip6_value a) mod 2 ^ (128 - unat (cfg_ipv6_subnet_len c')) = 0 \<and>
       n6_addrs \<lparr>n6_ip = a, n6_prefix_len = cfg_ipv6_subnet_len c'\<rparr> \<subseteq> n6_addrs (cfg_ipv6_network c))"
proof -
  from assms(1,2) obtain c1 where c1: "c1 = c \<or> check_v4 c = Inr c1" and c': "check_v6 c1 = Inr c'"
    using check_v4_keeps_v6 by (fastforce simp: check_network_config_def split: if_splits)
  have same: "cfg_ipv6_network c1 = cfg_ipv6_network c" "cfg_ipv6_subnet_min c1 = cfg_ipv6_subnet_min c"
      "cfg_ipv6_subnet_max c1 = cfg_ipv6_subnet_max c"
    using c1 check_v4_keeps_v6 by auto
  from check_v6_sound [OF c'] assms(3-5) obtain len mn mx where
    eq: "c' = c1\<lparr>cfg_ipv6_subnet_len := len, cfg_ipv6_subnet_min := Some mn, cfg_ipv6_subnet_max := Some mx\<rparr>" and
    len: "unat (n6_prefix_len (cfg_ipv6_network c)) + 2 \<le> unat len" "unat len \<le> 126" and
    mem: "mn \<in> n6_addrs (cfg_ipv6_network c)" "mx \<in> n6_addrs (cfg_ipv6_network c)" and
    chk: "check_ipv6_subnet mn (mask6 len)" "check_ipv6_subnet mx (mask6 len)"
    unfolding same by blast
  have "len \<le> 128" using len(2) by (simp add: word_le_nat_alt)
  then show ?thesis
    using len mem chk assms(3) n6_addrs_wf [OF mem(1)] n6_addrs_wf [OF mem(2)]
    by (auto simp: eq check_ipv6_subnet_iff n6_addrs_subset)
qed


theorem check_network_config_pool6_witness:
  "\<exists>c' mn. check_network_config (config_default\<lparr>cfg_enable_ipv6 := True,
       cfg_ipv6_network := \<lparr>n6_ip = ip6_from_value (push_bit 120 0xfc), n6_prefix_len = 48\<rparr>\<rparr>) = Inr c' \<and>
     cfg_ipv6_subnet_min c' = Some mn \<and>
     n6_addrs \<lparr>n6_ip = mn, n6_prefix_len = cfg_ipv6_subnet_len c'\<rparr> \<subseteq>
       n6_addrs \<lparr>n6_ip = ip6_from_value (push_bit 120 0xfc), n6_prefix_len = 48\<rparr>"
proof -
  let ?net = "\<lparr>n6_ip = ip6_from_value (push_bit 120 0xfc), n6_prefix_len = 48\<rparr>"
  let ?c = "config_default\<lparr>cfg_enable_ipv6 := True, cfg_ipv6_network := ?net\<rparr>"
  have "\<exists>c'. check_network_config ?c = Inr c'"
    by (simp add: check_network_config_def config_default_def check_v6_def n6_empty_def v6_subnet_len_def
      v6_subnet_bound_def check_ipv6_subnet_def ip6_value_mask6 get_ipv6_subnet_min_def
      get_ipv6_subnet_max_def n6_next_def subnet_size6_def push_bit_eq_mult)
  then obtain c' where c': "check_network_config ?c = Inr c'" ..
  have "n6_network ?net = ?net"
    by (simp add: n6_network_def n6_mask_def ip6_value_mask6 push_bit_eq_mult)
  with check_network_config_pool6 [OF c'] c' show ?thesis by (auto simp: config_default_def)
qed


text \<open>Decoding of net-conf.json: for every JSON reader, a document that decodes gives the
  fields \<open>EnableIPv4\<close>, \<open>Network\<close>, \<open>SubnetLen\<close> and \<open>Backend\<close> the value of the last member whose
  name matches exactly or up to ASCII case, the Go defaults when there is none (IPv4 enabled,
  no network, no length, no backend), and both networks have a prefix in range and no host
  bits, which is what the pool check relies on.\<close>

theorem parse_config_fields:
  assumes "parse_config members parse_value te s = Inr cfg"
  shows "\<exists>mbs. members s = Inr mbs \<and>
    cfg_enable_ipv4 cfg =
      (case last_member ''EnableIPv4'' mbs of None \<Rightarrow> True | Some m \<Rightarrow> mb_value m = JBool True) \<and>
    cfg_backend cfg = map_option mb_raw (last_member ''Backend'' mbs) \<and>
    (case last_member ''Network'' mbs of None \<Rightarrow> cfg_network cfg = ip4net_default
       | Some m \<Rightarrow> \<exists>t. mb_value m = JString t \<and> n4_from_str t = Inr (cfg_network cfg)) \<and>
    (case last_member ''SubnetLen'' mbs of None \<Rightarrow> cfg_subnet_len cfg = 0
       | Some m \<Rightarrow> mb_value m = JPos (unat (cfg_subnet_len cfg))) \<and>
    n4_wf (cfg_network cfg) \<and> n4_network (cfg_network cfg) = cfg_network cfg \<and>
    n6_prefix_len (cfg_ipv6_network cfg) \<le> 128 \<and> n6_network (cfg_ipv6_network cfg) = cfg_ipv6_network cfg"
proof -
  let ?c0 = "config_default\<lparr>cfg_enable_ipv4 := True\<rparr>"
  from assms obtain mbs c1 ty where mbs: "members s = Inr mbs"
    and c1: "visit_members te ?c0 mbs = Inr c1" and cfg: "cfg = c1\<lparr>cfg_backend_type := ty\<rparr>"
    by (auto simp: parse_config_def visit_map_def map_sum_Inr split: sum.splits)
  have "net4_clean (cfg_network ?c0)"
    by (simp add: config_default_def net4_clean_def ip4net_default_def n4_network_def)
  moreover have "net6_clean (cfg_ipv6_network ?c0)"
    using ip6_from_value_value [of ip6_default]
    by (simp add: config_default_def net6_clean_def ip6net_default_def n6_network_def ip6_default_def
      ip6_value_zero)
  ultimately have "net4_clean (cfg_network c1) \<and> net6_clean (cfg_ipv6_network c1)"
    by (rule visit_members_clean [OF c1])
  moreover note visit_members_last [OF c1]
  ultimately show ?thesis
    by (simp add: mbs cfg net4_clean_def net6_clean_def config_default_def map_option_case split: option.splits)
qed

theorem parse_config_fields_witness:
  "\<exists>cfg. parse_config (\<lambda>s. Inr [\<lparr>mb_key = ''network'', mb_value = JString ''10.0.0.0/8'', mb_raw = s\<rparr>])
      (\<lambda>s. Inl s) (\<lambda>e v. e) ''x'' = Inr cfg \<and> cfg_enable_ipv4 cfg \<and>
    n4_from_str ''10.0.0.0/8'' = Inr (cfg_network cfg)"
proof -
  let ?p = "parse_config (\<lambda>s. Inr [\<lparr>mb_key = ''network'', mb_value = JString ''10.0.0.0/8'', mb_raw = s\<rparr>])
      (\<lambda>s. Inl s) (\<lambda>e v. e) ''x''"
  have m: "match_config_field ''network'' = Some ''Network''" by code_simp
  have "\<not> isl ?p" by code_simp
  then obtain cfg where p: "?p = Inr cfg" by (cases ?p) auto
  from parse_config_fields [OF p] p show ?thesis by (auto simp: m)
qed

end
