(* ===== verification/Packet.thy ===== *)
theory Packet
  imports Bytes
begin

text \<open>
  \<open>backend/udp/proxy_packet.rs\<close>: the Internet checksum, the TTL decrement with its
  incremental checksum update, and the ICMP net-unreachable reply. Packets are byte lists;
  the native byte order is that of amd64, as in the C code the sources port.
\<close>

unbundle bit_operations_syntax

section \<open>Byte slices\<close>

text \<open>\<open>xs[i..i + n]\<close> and \<open>xs[i..].copy_from_slice(bs)\<close>.\<close>

definition slice :: "nat \<Rightarrow> nat \<Rightarrow> 'a list \<Rightarrow> 'a list" where
  "slice i n xs = take n (drop i xs)"

definition copy_at :: "nat \<Rightarrow> 'a list \<Rightarrow> 'a list \<Rightarrow> 'a list" where
  "copy_at i bs xs = take i xs @ bs @ drop (i + length bs) xs"

lemma length_copy_at [simp]: "i + length bs \<le> length xs \<Longrightarrow> length (copy_at i bs xs) = length xs"
  by (simp add: copy_at_def)

lemma copy_at_append1:
  "i + length bs \<le> length xs \<Longrightarrow> copy_at i bs (xs @ ys) = copy_at i bs xs @ ys"
  by (simp add: copy_at_def)

lemma copy_at_append2:
  "length xs \<le> i \<Longrightarrow> copy_at i bs (xs @ ys) = xs @ copy_at (i - length xs) bs ys"
  by (simp add: copy_at_def)

lemma copy_at_0: "length z = length bs \<Longrightarrow> copy_at 0 bs (z @ r) = bs @ r"
  by (simp add: copy_at_def)

section \<open>Constants\<close>

definition IPHDR_LEN :: nat where "IPHDR_LEN = 20"
definition MAX_IPOPTLEN :: nat where "MAX_IPOPTLEN = 40"
definition ICMP_DEST_UNREACH :: u8 where "ICMP_DEST_UNREACH = 3"
definition ICMP_NET_UNREACH :: u8 where "ICMP_NET_UNREACH = 0"
definition PROTO_ICMP :: u8 where "PROTO_ICMP = 1"

section \<open>The checksum\<close>

text \<open>The 64-bit sum of the native 4-byte words; \<open>chunks_exact\<close> drops an incomplete last chunk.\<close>

fun chunk_sum :: "u64 \<Rightarrow> u8 list \<Rightarrow> u64" where
  "chunk_sum acc (a # b # c # d # rest) =
     chunk_sum (acc + ucast (from_ne_bytes [a, b, c, d] :: u32)) rest"
| "chunk_sum acc _ = acc"

lemma unat_low16: "unat (s AND 0xFFFF) = unat s mod 65536" for s :: u64
proof -
  have "s AND 0xFFFF = take_bit 16 s" by (simp add: take_bit_eq_mask mask_numeral)
  then show ?thesis by (simp only: unsigned_take_bit_eq) (simp add: take_bit_eq_mod)
qed

lemma unat_high16: "unat (drop_bit 16 s) = unat s div 65536" for s :: u64
  by (simp only: unsigned_drop_bit_eq) (use unat_lt2p [of s] in \<open>simp add: drop_bit_eq_div take_bit_nat_eq_self\<close>)

lemma unat_fold_step:
  "unat ((s AND 0xFFFF) + drop_bit 16 s) = unat s mod 65536 + unat s div 65536" for s :: u64
proof -
  have "unat s < 2 ^ 64" using unat_lt2p [of s] by simp
  then have "unat s div 65536 < 2 ^ 48" by (simp add: less_mult_imp_div_less)
  moreover have "unat s mod 65536 < 65536" by simp
  ultimately have "unat s mod 65536 + unat s div 65536 < 2 ^ 64" by simp
  then show ?thesis by (simp only: unat_word_ariths unat_low16 unat_high16) simp
qed

lemma fold_step_less:
  fixes s :: u64
  assumes "drop_bit 16 s \<noteq> 0"
  shows "unat ((s AND 0xFFFF) + drop_bit 16 s) < unat s"
proof -
  have "unat s div 65536 \<noteq> 0" using assms by (metis unat_high16 unat_eq_0)
  moreover have "unat s = unat s mod 65536 + 65536 * (unat s div 65536)" by simp
  ultimately show ?thesis unfolding unat_fold_step by linarith
qed

function fold_carries :: "u64 \<Rightarrow> u64" where
  "fold_carries s = (if drop_bit 16 s \<noteq> 0 then fold_carries ((s AND 0xFFFF) + drop_bit 16 s) else s)"
  by pat_completeness auto
termination by (relation "measure unat") (simp, unfold in_measure, rule fold_step_less)

declare fold_carries.simps [simp del]

definition cksum :: "u8 list \<Rightarrow> u16" where
  "cksum data = NOT (ucast (fold_carries (chunk_sum 0 data)))"

section \<open>Headers\<close>

definition to_be16 :: "u16 \<Rightarrow> u16" where
  "to_be16 w = from_ne_bytes (to_be_bytes 2 w)"

text \<open>\<open>decrement_ttl\<close>: the packet after the call and whether it is kept. A slice shorter than
  a header makes the indexing panic: \<open>None\<close>.\<close>

definition decrement_ttl :: "u8 list \<Rightarrow> (u8 list \<times> bool) option" where
  "decrement_ttl pkt =
     (if length pkt < IPHDR_LEN then None
      else
        let ttl = pkt ! 8 - 1;
            pkt1 = pkt[8 := ttl] in
        if ttl = 0 then Some (pkt1, False)
        else
          let check = (from_ne_bytes [pkt1 ! 10, pkt1 ! 11] :: u16);
              threshold = to_be16 (0xFFFF - 0x100);
              inc = to_be16 0x100;
              patched = (if check \<ge> threshold then check + inc + 1 else check + inc)
          in Some (copy_at 10 (to_ne_bytes 2 patched) pkt1, True))"

text \<open>The two halves of the reply are written into a zeroed buffer.\<close>

definition reply_ip_header :: "nat \<Rightarrow> u32 \<Rightarrow> u8 list \<Rightarrow> u8 list \<Rightarrow> u8 list" where
  "reply_ip_header pktlen tun_addr offender pkt =
     (let pkt = pkt[0 := 0x45];
          pkt = copy_at 2 (to_be_bytes 2 (of_nat pktlen :: u16)) pkt;
          pkt = pkt[8 := 8];
          pkt = pkt[9 := PROTO_ICMP];
          pkt = copy_at 12 (to_ne_bytes 4 tun_addr) pkt;
          pkt = copy_at 16 (slice 12 4 offender) pkt;
          ip_check = cksum (take IPHDR_LEN pkt)
      in copy_at 10 (to_ne_bytes 2 ip_check) pkt)"

definition reply_icmp :: "nat \<Rightarrow> u8 list \<Rightarrow> u8 list \<Rightarrow> u8 list" where
  "reply_icmp off_iph_len offender pkt =
     (let pkt = pkt[20 := ICMP_DEST_UNREACH];
          pkt = pkt[21 := ICMP_NET_UNREACH];
          pkt = copy_at 28 (take (off_iph_len + 8) offender) pkt;
          icmp_check = cksum (drop 20 pkt)
      in copy_at 22 (to_ne_bytes 2 icmp_check) pkt)"

definition build_net_unreachable :: "u8 list \<Rightarrow> u32 \<Rightarrow> u8 list option" where
  "build_net_unreachable offender tun_addr =
     (if length offender < IPHDR_LEN then None
      else
        let off_iph_len = unat (offender ! 0 AND 0x0F) * 4 in
        if off_iph_len \<ge> IPHDR_LEN + MAX_IPOPTLEN then None
        else if offender ! 9 = PROTO_ICMP then None
        else if (from_be_bytes [offender ! 6, offender ! 7] :: u16) AND 0x1FFF \<noteq> 0 then None
        else if length offender < off_iph_len + 8 then None
        else
          let pktlen = IPHDR_LEN + 8 + off_iph_len + 8;
              pkt = reply_ip_header pktlen tun_addr offender (replicate pktlen (0 :: u8))
          in Some (reply_icmp off_iph_len offender pkt))"

section \<open>The sum as a number\<close>

fun csum :: "u8 list \<Rightarrow> nat" where
  "csum (a # b # c # d # rest) = le_value [a, b, c, d] + csum rest"
| "csum _ = 0"

lemma csum_bound: "csum bs \<le> length bs * 2 ^ 32"
proof (induction bs rule: csum.induct)
  case (1 a b c d rest)
  then show ?case using le_value_bound [of "[a, b, c, d]"] by simp
qed simp_all

lemma csum_append: "4 dvd length xs \<Longrightarrow> csum (xs @ ys) = csum xs + csum ys"
proof (induction xs rule: csum.induct)
  case (1 a b c d rest)
  then have "4 dvd length rest" by simp presburger
  with 1 show ?case by simp
qed (auto dest: dvd_imp_le)

lemma chunk_sum_csum:
  assumes "unat s + csum bs < 2 ^ 64"
  shows "unat (chunk_sum s bs) = unat s + csum bs"
  using assms
proof (induction s bs rule: chunk_sum.induct)
  case (1 s a b c d rest)
  let ?w = "from_ne_bytes [a, b, c, d] :: u32"
  have "unat ?w = le_value [a, b, c, d]"
    using le_value_bound [of "[a, b, c, d]"]
    by (simp add: from_le_bytes_def unat_of_nat del: le_value.simps)
  then have w: "unat (ucast ?w :: u64) = le_value [a, b, c, d]"
    using le_value_bound [of "[a, b, c, d]"]
    by (simp add: unsigned_ucast_eq take_bit_nat_eq_self del: le_value.simps)
  have "unat (s + ucast ?w) = unat s + le_value [a, b, c, d]"
    using 1(2) by (simp add: unat_word_ariths w)
  with 1 show ?case by simp
qed simp_all

lemma fold_carries_spec:
  "unat (fold_carries s) < 65536 \<and> unat (fold_carries s) mod 65535 = unat s mod 65535 \<and>
   (unat (fold_carries s) = 0 \<longleftrightarrow> unat s = 0)"
proof (induction s rule: fold_carries.induct)
  case (1 s)
  show ?case
  proof (cases "drop_bit 16 s = 0")
    case True
    then have "unat s div 65536 = 0" by (metis unat_high16 unat_0)
    with True show ?thesis by (simp add: fold_carries.simps [of s] div_eq_0_iff)
  next
    case False
    let ?t = "(s AND 0xFFFF) + drop_bit 16 s"
    let ?q = "unat s div 65536" and ?r = "unat s mod 65536"
    have eq: "unat s = (?r + ?q) + 65535 * ?q" using mod_mult_div_eq [of "unat s" 65536] by linarith
    then have "unat s mod 65535 = unat ?t mod 65535" unfolding unat_fold_step
      by (metis mod_mult_self2)
    moreover have "unat ?t = 0 \<longleftrightarrow> unat s = 0" unfolding unat_fold_step using eq by linarith
    ultimately show ?thesis using 1 [OF False] False by (simp add: fold_carries.simps [of s])
  qed
qed

lemma cksum_value:
  assumes "length data < 2 ^ 31"
  shows "\<exists>r. unat (cksum data) = 65535 - r \<and> r \<le> 65535 \<and> r mod 65535 = csum data mod 65535 \<and>
    (r = 0 \<longleftrightarrow> csum data = 0)"
proof -
  have "csum data < 2 ^ 64" using csum_bound [of data] assms by simp
  then have s: "unat (chunk_sum 0 data) = csum data" by (subst chunk_sum_csum) simp_all
  let ?r = "fold_carries (chunk_sum 0 data)"
  note spec = fold_carries_spec [of "chunk_sum 0 data"]
  have u: "unat (ucast ?r :: u16) = unat ?r"
    using spec by (simp add: unsigned_ucast_eq take_bit_nat_eq_self)
  have "unat (NOT w) = 65535 - unat w" for w :: u16
  proof -
    have "unat (- 1 - w) = unat (- 1 :: u16) - unat w" by (rule unat_sub) simp
    moreover have "NOT w = - 1 - w" by (simp add: not_eq_complement)
    moreover have "unat (- 1 :: u16) = 65535" by (simp add: unsigned_minus_1_eq_mask mask_eq_exp_minus_1)
    ultimately show ?thesis by simp
  qed
  from this [of "ucast ?r"] u have "unat (cksum data) = 65535 - unat ?r"
    by (simp add: cksum_def)
  with spec s show ?thesis
    by (intro exI [of _ "unat ?r"]) (simp add: unat_eq_0)
qed

lemma cksum_zero_iff:
  assumes "length data < 2 ^ 31"
  shows "cksum data = 0 \<longleftrightarrow> csum data mod 65535 = 0 \<and> csum data \<noteq> 0"
proof -
  obtain r where r: "unat (cksum data) = 65535 - r" "r \<le> 65535" "r mod 65535 = csum data mod 65535"
    "r = 0 \<longleftrightarrow> csum data = 0" 
    by (rule exE [OF cksum_value [OF assms]]) (elim conjE)
  have "cksum data = 0 \<longleftrightarrow> unat (cksum data) = 0" by (simp add: unat_eq_0)
  also have "\<dots> \<longleftrightarrow> r = 65535" using r(1,2) by linarith
  also have "\<dots> \<longleftrightarrow> r mod 65535 = 0 \<and> r \<noteq> 0"
  proof (cases "r = 65535")
    case False
    with r(2) have "r < 65535" by linarith
    then show ?thesis by auto
  qed simp
  finally show ?thesis using r(3,4) by simp
qed

lemma cksum_completes:
  assumes "length data < 2 ^ 31"
  shows "(unat (cksum data) + csum data) mod 65535 = 0"
proof -
  obtain r where r: "unat (cksum data) = 65535 - r" "r \<le> 65535" "r mod 65535 = csum data mod 65535"
    using cksum_value [OF assms] by blast
  have "(65535 - r + csum data) mod 65535 = (65535 - r + r) mod 65535"
    using r(3) by (metis mod_add_right_eq)
  with r show ?thesis by simp
qed


lemma le_value_le16: "le_value (to_le_bytes 2 w) = unat w" for w :: u16
  using unat_lt2p [of w] by (simp add: to_le_bytes_def le_value_nat_to_le)

lemma le_value_append: "le_value (xs @ ys) = le_value xs + 256 ^ length xs * le_value ys"
  by (induction xs) (simp_all add: algebra_simps)

lemma ttl_constants: "to_be16 (0xFFFF - 0x100) = 0xFFFE" "to_be16 0x100 = 1"
  by code_simp+

text \<open>The patched checksum is one more in one's complement arithmetic.\<close>

lemma patched_check:
  fixes c :: u16
  shows "unat (if c \<ge> 0xFFFE then c + 1 + 1 else c + 1) mod 65535 = (unat c + 1) mod 65535"
proof (cases "c \<ge> 0xFFFE")
  case True
  then have "unat c = 65534 \<or> unat c = 65535"
    using unat_lt2p [of c] by (simp add: word_le_nat_alt) linarith
  then have "c = 0xFFFE \<or> c = 0xFFFF" by (auto simp: word_unat_eq_iff)
  then show ?thesis by auto
next
  case False
  then have "unat c < 65534" by (simp add: word_le_nat_alt)
  then have "unat (c + 1) = unat c + 1" by (simp add: unat_word_ariths)
  with False show ?thesis by simp
qed

text \<open>A packet of at least twelve bytes, split at the word with the TTL and the checksum.\<close>

lemma header_split:
  fixes pkt :: "u8 list"
  assumes "12 \<le> length pkt"
  obtains h t p c0 c1 r where "pkt = h @ [t, p, c0, c1] @ r" and "length h = 8"
proof -
  have "4 \<le> length (drop 8 pkt)" using assms by simp
  then obtain t p c0 c1 r where "drop 8 pkt = [t, p, c0, c1] @ r"
    by (cases "drop 8 pkt" rule: csum.cases) auto
  then have "pkt = take 8 pkt @ [t, p, c0, c1] @ r" by (metis append_take_drop_id)
  moreover have "length (take 8 pkt) = 8" using assms by simp
  ultimately show ?thesis by (rule that)
qed

lemma decrement_ttl_split:
  assumes "length h = 8" and "20 \<le> length (h @ [t, p, c0, c1] @ r)"
  shows "decrement_ttl (h @ [t, p, c0, c1] @ r) =
    (if t - 1 = 0 then Some (h @ [0, p, c0, c1] @ r, False)
     else Some (h @ [t - 1, p] @
       to_ne_bytes 2 (if (from_ne_bytes [c0, c1] :: u16) \<ge> 0xFFFE
         then from_ne_bytes [c0, c1] + 1 + 1 else from_ne_bytes [c0, c1] + 1 :: u16) @ r, True))"
  using assms unfolding decrement_ttl_def IPHDR_LEN_def ttl_constants
  by (simp add: nth_append list_update_append copy_at_def Let_def)

lemma csum_header:
  assumes "length h = 8" and "length w = 2"
  shows "csum (h @ [t, p] @ w @ r) = csum h + unat t + 256 * unat p + 65536 * le_value w + csum r"
proof -
  obtain c0 c1 where w: "w = [c0, c1]" using assms(2) by (auto simp: numeral_2_eq_2 length_Suc_conv)
  have "csum (h @ [t, p, c0, c1] @ r) = csum h + csum ([t, p, c0, c1] @ r)"
    using assms(1) by (intro csum_append) simp
  then show ?thesis by (simp add: w)
qed


lemma cksum_inserted:
  assumes "length old < 2 ^ 31" and "length new < 2 ^ 31"
    and "csum new = csum old + 65536 * unat (cksum old)" and "csum old \<noteq> 0"
  shows "cksum new = 0"
proof -
  have "csum new = (unat (cksum old) + csum old) + 65535 * unat (cksum old)" using assms(3) by simp
  then have "csum new mod 65535 = (unat (cksum old) + csum old) mod 65535" by (metis mod_mult_self2)
  with cksum_completes [OF assms(1)] assms show ?thesis by (simp add: cksum_zero_iff)
qed

text \<open>The reply, byte by byte, before its two checksums are filled in.\<close>

definition unreachable_ip :: "u8 list \<Rightarrow> nat \<Rightarrow> u32 \<Rightarrow> u8 list \<Rightarrow> u8 list" where
  "unreachable_ip check pktlen tun_addr offender =
     [0x45, 0] @ to_be_bytes 2 (of_nat pktlen :: u16) @ [0, 0, 0, 0] @ [8, PROTO_ICMP] @ check @
     to_ne_bytes 4 tun_addr @ slice 12 4 offender"

definition unreachable_icmp :: "u8 list \<Rightarrow> nat \<Rightarrow> u8 list \<Rightarrow> u8 list" where
  "unreachable_icmp check len offender =
     [ICMP_DEST_UNREACH, ICMP_NET_UNREACH] @ check @ [0, 0, 0, 0] @ take len offender"

lemma list4_cases: "length xs = 4 \<Longrightarrow> \<exists>a b c d. xs = [a, b, c, d]"
  by (auto simp: numeral_eq_Suc length_Suc_conv)

lemma list2_cases: "length xs = 2 \<Longrightarrow> \<exists>a b. xs = [a, b]"
  by (auto simp: numeral_2_eq_2 length_Suc_conv)

lemma reply_ip_header_layout:
  assumes "length (slice 12 4 offender) = 4"
  shows "reply_ip_header pktlen tun_addr offender (replicate 20 0 @ r) =
    unreachable_ip (to_ne_bytes 2 (cksum (unreachable_ip [0, 0] pktlen tun_addr offender))) pktlen tun_addr offender @ r"
proof -
  obtain s0 s1 s2 s3 where src: "slice 12 4 offender = [s0, s1, s2, s3]"
    using list4_cases [OF assms] by blast
  obtain t0 t1 t2 t3 where tun: "to_ne_bytes 4 tun_addr = [t0, t1, t2, t3]"
    using list4_cases [of "to_ne_bytes 4 tun_addr"] by auto
  obtain l0 l1 where tl: "to_be_bytes 2 (of_nat pktlen :: u16) = [l0, l1]"
    using list2_cases [of "to_be_bytes 2 (of_nat pktlen :: u16)"] by auto
  have zeros: "replicate 20 (0 :: u8) = [0,0,0,0,0,0,0,0,0,0,0,0,0,0,0,0,0,0,0,0]"
    by (simp add: numeral_eq_Suc)
  show ?thesis
    unfolding reply_ip_header_def unreachable_ip_def src tun tl zeros
    by (simp add: Let_def copy_at_def IPHDR_LEN_def)
qed

lemma reply_icmp_layout:
  assumes "length ip = 20" and "L + 8 \<le> length offender"
  shows "reply_icmp L offender (ip @ replicate 8 0 @ replicate (L + 8) 0) =
    ip @ unreachable_icmp (to_ne_bytes 2 (cksum (unreachable_icmp [0, 0] (L + 8) offender))) (L + 8) offender"
proof -
  have zeros: "replicate 8 (0 :: u8) = [0,0,0,0,0,0,0,0]" by (simp add: numeral_eq_Suc)
  show ?thesis
    using assms unfolding reply_icmp_def unreachable_icmp_def zeros
    by (simp add: Let_def copy_at_def list_update_append)
qed

lemma build_net_unreachable_layout:
  assumes "build_net_unreachable offender tun_addr = Some pkt"
  defines "L \<equiv> unat (offender ! 0 AND 0x0F) * 4"
  shows "20 \<le> length offender \<and> L < 60 \<and> L + 8 \<le> length offender \<and>
    pkt = unreachable_ip (to_ne_bytes 2 (cksum (unreachable_ip [0, 0] (36 + L) tun_addr offender))) (36 + L) tun_addr offender @
      unreachable_icmp (to_ne_bytes 2 (cksum (unreachable_icmp [0, 0] (L + 8) offender))) (L + 8) offender"
proof -
  from assms(1) have len: "20 \<le> length offender" "L < 60" "L + 8 \<le> length offender"
    and pkt: "pkt = reply_icmp L offender (reply_ip_header (IPHDR_LEN + 8 + L + 8) tun_addr offender
      (replicate (IPHDR_LEN + 8 + L + 8) 0))"
    by (auto simp: build_net_unreachable_def IPHDR_LEN_def MAX_IPOPTLEN_def L_def Let_def split: if_splits)
  have src: "length (slice 12 4 offender) = 4" using len by (simp add: slice_def)
  have zeros: "replicate (36 + L) (0 :: u8) = replicate 20 0 @ replicate 8 0 @ replicate (L + 8) 0"
    by (simp flip: replicate_add)
  have sum: "IPHDR_LEN + 8 + L + 8 = 36 + L" by (simp add: IPHDR_LEN_def)
  have "length (unreachable_ip c (36 + L) tun_addr offender) = 20" if "length c = 2" for c
    using src that by (simp add: unreachable_ip_def)
  with len show ?thesis
    unfolding pkt sum zeros reply_ip_header_layout [OF src] by (simp add: reply_icmp_layout)
qed

lemma header_addresses:
  assumes "length l = 2" and "length c = 2" and "length t = 4" and "length s = 4"
  shows "slice 12 4 (([v, z] @ l @ [z0, z1, z2, z3] @ [ttl, proto] @ c @ t @ s) @ rest) = t"
    and "slice 16 4 (([v, z] @ l @ [z0, z1, z2, z3] @ [ttl, proto] @ c @ t @ s) @ rest) = s"
  using assms by (simp_all add: slice_def)

section \<open>Properties\<close>

text \<open>C19. The incremental checksum update is right: when \<open>decrement_ttl\<close> keeps a packet whose
  TTL was not zero, the TTL is one less, everything but the TTL and the checksum bytes is
  unchanged, and the header checksum (over any whole number of 32-bit words that covers the
  checksum field, so for every header length) verifies after the call exactly when it verified
  before.\<close>

theorem decrement_ttl_checksum:
  assumes "decrement_ttl pkt = Some (pkt', True)" and "pkt ! 8 \<noteq> 0"
    and "4 dvd n" and "12 \<le> n" and "n \<le> length pkt" and "length pkt < 2 ^ 31"
  shows "(cksum (take n pkt') = 0 \<longleftrightarrow> cksum (take n pkt) = 0) \<and> pkt' ! 8 = pkt ! 8 - 1 \<and>
    take 8 pkt' = take 8 pkt \<and> pkt' ! 9 = pkt ! 9 \<and> drop 12 pkt' = drop 12 pkt"
proof -
  have "12 \<le> length pkt" using assms(4,5) by linarith
  then obtain h t p c0 c1 r where pkt: "pkt = h @ [t, p, c0, c1] @ r" and h: "length h = 8"
    by (rule header_split)
  have len: "20 \<le> length (h @ [t, p, c0, c1] @ r)"
    using assms(1) by (simp add: decrement_ttl_def IPHDR_LEN_def pkt split: if_splits)
  let ?c = "from_ne_bytes [c0, c1] :: u16"
  let ?c' = "if ?c \<ge> 0xFFFE then ?c + 1 + 1 else ?c + 1"
  have pkt': "pkt' = h @ [t - 1, p] @ to_ne_bytes 2 ?c' @ r" and nz: "t - 1 \<noteq> 0"
    using assms(1) unfolding pkt decrement_ttl_split [OF h len] by (auto split: if_splits)
  have t: "t \<noteq> 0" using assms(2) h by (simp add: pkt nth_append)
  then have ut: "unat t = Suc (unat (t - 1))" 
    using unat_minus_one [of t] unat_gt_0 [of t] by simp
  let ?r = "take (n - 12) r"
  have tk: "take n (x @ r) = x @ ?r" if "length x = 12" for x using that assms(4) by simp
  have old: "take n pkt = h @ [t, p] @ [c0, c1] @ ?r"
    using tk [of "h @ [t, p, c0, c1]"] h by (simp add: pkt)
  have new: "take n pkt' = h @ [t - 1, p] @ to_ne_bytes 2 ?c' @ ?r"
    using tk [of "h @ [t - 1, p] @ to_ne_bytes 2 ?c'"] h by (simp add: pkt')
  have cc: "le_value [c0, c1] = unat ?c"
    using le_value_bound [of "[c0, c1]"] by (simp add: from_le_bytes_def unat_of_nat del: le_value.simps)
  have s_old: "csum (take n pkt) = csum h + unat t + 256 * unat p + 65536 * unat ?c + csum ?r"
    unfolding old using csum_header [OF h, of "[c0, c1]" t p ?r] cc by simp
  have s_new: "csum (take n pkt') = csum h + unat (t - 1) + 256 * unat p + 65536 * unat ?c' + csum ?r"
    unfolding new by (subst csum_header [OF h]) (simp_all only: le_value_le16 length_to_bytes)
  define B where "B = csum h + unat (t - 1) + 256 * unat p + csum ?r"
  have "csum (take n pkt) = (B + (unat ?c + 1)) + 65535 * unat ?c" unfolding s_old B_def ut by simp
  then have m1: "csum (take n pkt) mod 65535 = (B + (unat ?c + 1)) mod 65535" by (metis mod_mult_self2)
  have "csum (take n pkt') = (B + unat ?c') + 65535 * unat ?c'" unfolding s_new B_def by simp
  then have "csum (take n pkt') mod 65535 = (B + unat ?c') mod 65535" by (metis mod_mult_self2)
  also have "\<dots> = (B + (unat ?c + 1)) mod 65535" by (rule mod_add_cong [OF refl patched_check])
  finally have "csum (take n pkt') mod 65535 = csum (take n pkt) mod 65535" using m1 by simp
  moreover have "csum (take n pkt) \<noteq> 0" "csum (take n pkt') \<noteq> 0"
    unfolding s_old s_new using t nz by (simp_all add: unat_eq_0)
  moreover have "length pkt' = length pkt" by (simp add: pkt pkt')
  ultimately have "cksum (take n pkt') = 0 \<longleftrightarrow> cksum (take n pkt) = 0"
    using assms(6) by (simp add: cksum_zero_iff)
  with h show ?thesis by (simp add: pkt pkt' nth_append)
qed

text \<open>A net-unreachable reply verifies: both the IP header checksum and the ICMP checksum
  of the packet built are right, its length is the one its header states, it goes from the
  tun address to the sender of the offending packet, and it quotes that packet's header and
  first eight payload bytes. Nothing is built about ICMP packets or later fragments.\<close>

theorem build_net_unreachable_valid:
  assumes "build_net_unreachable offender tun_addr = Some pkt"
  defines "L \<equiv> unat (offender ! 0 AND 0x0F) * 4"
  shows "cksum (take 20 pkt) = 0 \<and> cksum (drop 20 pkt) = 0 \<and> length pkt = 36 + L \<and>
    unat (from_be_bytes (slice 2 2 pkt) :: u16) = length pkt \<and>
    slice 12 4 pkt = to_ne_bytes 4 tun_addr \<and> slice 16 4 pkt = slice 12 4 offender \<and>
    drop 28 pkt = take (L + 8) offender \<and>
    offender ! 9 \<noteq> 1 \<and> (from_be_bytes [offender ! 6, offender ! 7] :: u16) AND 0x1FFF = 0"
proof -
  let ?ipz = "unreachable_ip [0, 0] (36 + L) tun_addr offender"
  let ?icz = "unreachable_icmp [0, 0] (L + 8) offender"
  let ?ip = "unreachable_ip (to_ne_bytes 2 (cksum ?ipz)) (36 + L) tun_addr offender"
  let ?ic = "unreachable_icmp (to_ne_bytes 2 (cksum ?icz)) (L + 8) offender"
  note lay = build_net_unreachable_layout [OF assms(1), folded L_def]
  then have pkt: "pkt = ?ip @ ?ic" and len: "20 \<le> length offender" "L < 60" "L + 8 \<le> length offender"
    by blast+
  have src: "length (slice 12 4 offender) = 4" using len by (simp add: slice_def)
  then have lip: "length ?ip = 20" "length ?ipz = 20" by (simp_all add: unreachable_ip_def)
  have lic: "length ?ic = 16 + L" "length ?icz = 16 + L" using len by (simp_all add: unreachable_icmp_def)
  let ?h = "[0x45, 0] @ to_be_bytes 2 (of_nat (36 + L) :: u16) @ [0, 0, 0, 0]"
  have ip_sum: "csum (unreachable_ip c (36 + L) tun_addr offender) =
      csum ?h + 8 + 256 + 65536 * le_value c + csum (to_ne_bytes 4 tun_addr @ slice 12 4 offender)"
    if "length c = 2" for c
    using csum_header [of ?h c 8 PROTO_ICMP] that by (simp add: unreachable_ip_def PROTO_ICMP_def)
  have ic_sum: "csum (unreachable_icmp c (L + 8) offender) = 3 + 65536 * le_value c + csum (take (L + 8) offender)"
    if "length c = 2" for c
    using list2_cases [OF that] by (auto simp: unreachable_icmp_def ICMP_DEST_UNREACH_def ICMP_NET_UNREACH_def)
  have "cksum ?ip = 0"
  proof (rule cksum_inserted [of ?ipz])
    show "csum ?ip = csum ?ipz + 65536 * unat (cksum ?ipz)"
      by (simp add: ip_sum le_value_le16)
    show "csum ?ipz \<noteq> 0" by (simp add: ip_sum)
  qed (simp_all add: lip)
  moreover have "cksum ?ic = 0"
    using len by (intro cksum_inserted [of ?icz]) (simp_all add: lic ic_sum le_value_le16)
  moreover have "from_be_bytes (slice 2 2 pkt) = (of_nat (36 + L) :: u16)"
    by (simp add: pkt unreachable_ip_def slice_def be16.dec_enc)
  moreover have "unat (of_nat (36 + L) :: u16) = 36 + L" using len by (simp add: unat_of_nat del: of_nat_add)
  moreover have "slice 12 4 pkt = to_ne_bytes 4 tun_addr" "slice 16 4 pkt = slice 12 4 offender"
    unfolding pkt unreachable_ip_def by (intro header_addresses; simp add: src)+
  moreover have "drop 28 pkt = take (L + 8) offender"
    using src by (simp add: pkt unreachable_ip_def unreachable_icmp_def)
  moreover have "offender ! 9 \<noteq> 1" "(from_be_bytes [offender ! 6, offender ! 7] :: u16) AND 0x1FFF = 0"
    using assms(1) by (auto simp: build_net_unreachable_def PROTO_ICMP_def Let_def split: if_splits)
  ultimately show ?thesis using lip lic by (simp add: pkt)
qed


definition sample_header :: "u8 list" where
  "sample_header =
     [0x45, 0x00, 0x00, 0x3c, 0x1c, 0x46, 0x40, 0x00, 0x40, 0x06, 0xb1, 0xe6,
      0xac, 0x10, 0x0a, 0x63, 0xac, 0x10, 0x0a, 0x0c]"

theorem decrement_ttl_checksum_witness:
  "\<exists>pkt'. decrement_ttl sample_header = Some (pkt', True) \<and> pkt' ! 8 = 0x3f \<and> cksum (take 20 pkt') = 0"
proof -
  have ok: "map_option snd (decrement_ttl sample_header) = Some True" by code_simp
  then obtain pkt' where d: "decrement_ttl sample_header = Some (pkt', True)" by auto
  have "cksum (take 20 sample_header) = 0" by code_simp
  with decrement_ttl_checksum [OF d, of 20] d show ?thesis by (simp add: sample_header_def)
qed

theorem build_net_unreachable_valid_witness:
  "\<exists>pkt. build_net_unreachable (sample_header @ [9, 9, 9, 9, 8, 8, 8, 8]) 0x0100630A = Some pkt \<and>
     cksum (take 20 pkt) = 0 \<and> cksum (drop 20 pkt) = 0 \<and> length pkt = 56"
proof -
  have "build_net_unreachable (sample_header @ [9, 9, 9, 9, 8, 8, 8, 8]) 0x0100630A \<noteq> None" by code_simp
  then obtain pkt where b: "build_net_unreachable (sample_header @ [9, 9, 9, 9, 8, 8, 8, 8]) 0x0100630A = Some pkt"
    by blast
  from build_net_unreachable_valid [OF b] b show ?thesis by (simp add: sample_header_def)
qed

end
