(* ===== verification/Proxy.thy ===== *)
theory Proxy
  imports Packet Lease "HOL-Library.Multiset"
begin

text \<open>
  \<open>backend/udp/proxy.rs\<close> and the control side in \<open>backend/udp/network.rs\<close>: the ctl commands
  and their wire format, the route table of the userspace proxy, one forwarding step in each
  direction, and the poll loop. System calls are inputs (what a read or poll returns) and
  outputs (what is written). Addresses are network order words, so a native load on amd64
  has the bytes of the address reversed.
\<close>

unbundle bit_operations_syntax

section \<open>Commands\<close>

text \<open>The \<open>i32\<close> and \<open>i16\<close> fields are words; \<open>sint\<close> reads their sign.\<close>

record command =
  c_cmd :: u32
  c_dest_net :: u32
  c_dest_net_len :: u32
  c_next_hop_ip :: u32
  c_next_hop_port :: u16

definition CMD_SET_ROUTE :: u32 where "CMD_SET_ROUTE = 1"
definition CMD_DEL_ROUTE :: u32 where "CMD_DEL_ROUTE = 2"
definition CMD_STOP :: u32 where "CMD_STOP = 3"
definition COMMAND_SIZE :: nat where "COMMAND_SIZE = 20"

definition command_to_bytes :: "command \<Rightarrow> u8 list" where
  "command_to_bytes c =
     (let b = replicate COMMAND_SIZE 0;
          b = copy_at 0 (to_le_bytes 4 (c_cmd c)) b;
          b = copy_at 4 (to_le_bytes 4 (c_dest_net c)) b;
          b = copy_at 8 (to_le_bytes 4 (c_dest_net_len c)) b;
          b = copy_at 12 (to_le_bytes 4 (c_next_hop_ip c)) b
      in copy_at 16 (to_le_bytes 2 (c_next_hop_port c)) b)"

definition command_from_bytes :: "u8 list \<Rightarrow> command" where
  "command_from_bytes b =
     \<lparr>c_cmd = from_le_bytes (slice 0 4 b), c_dest_net = from_le_bytes (slice 4 4 b),
      c_dest_net_len = from_le_bytes (slice 8 4 b), c_next_hop_ip = from_le_bytes (slice 12 4 b),
      c_next_hop_port = from_le_bytes (slice 16 2 b)\<rparr>"

section \<open>The route table\<close>

record ip_net =
  net_ip :: u32
  net_mask :: u32

record route_entry =
  re_dst :: ip_net
  re_next_hop_ip :: u32
  re_next_hop_port :: u16

definition set_route :: "ip_net \<Rightarrow> u32 \<Rightarrow> u16 \<Rightarrow> route_entry list \<Rightarrow> route_entry list" where
  "set_route dst hop port entries =
     upsert (\<lambda>e. re_dst e = dst)
       \<lparr>re_dst = dst, re_next_hop_ip = hop, re_next_hop_port = port\<rparr> entries"

text \<open>\<open>Vec::swap_remove\<close> and \<open>slice::swap\<close>.\<close>

definition swap_remove :: "nat \<Rightarrow> 'a list \<Rightarrow> 'a list" where
  "swap_remove i xs = (if i = length xs - 1 then butlast xs else (butlast xs)[i := last xs])"

definition swap :: "nat \<Rightarrow> nat \<Rightarrow> 'a list \<Rightarrow> 'a list" where
  "swap i j xs = xs[i := xs ! j, j := xs ! i]"

definition del_route :: "ip_net \<Rightarrow> route_entry list \<Rightarrow> route_entry list \<times> bool" where
  "del_route dst entries =
     (case position (\<lambda>e. re_dst e = dst) entries of
        Some i \<Rightarrow> (swap_remove i entries, True)
      | None \<Rightarrow> (entries, False))"

definition find_route :: "u32 \<Rightarrow> route_entry list \<Rightarrow> route_entry list \<times> (u32 \<times> u16) option" where
  "find_route dst_ip entries =
     (case position (\<lambda>e. net_ip (re_dst e) = dst_ip AND net_mask (re_dst e)) entries of
        None \<Rightarrow> (entries, None)
      | Some i \<Rightarrow>
          let entries1 = (if i \<noteq> 0 then swap 0 i entries else entries);
              e = entries1 ! 0
          in (entries1, Some (re_next_hop_ip e, re_next_hop_port e)))"

definition to_be32 :: "u32 \<Rightarrow> u32" where
  "to_be32 w = from_ne_bytes (to_be_bytes 4 w)"

definition netmask :: "u32 \<Rightarrow> u32" where
  "netmask prefix_len =
     (let bits = nat (max 0 (min 32 (sint prefix_len))) in
      if bits = 0 then 0 else to_be32 (push_bit (32 - bits) (- 1)))"

section \<open>System calls\<close>

text \<open>What \<open>read\<close> or \<open>recv\<close> returns.\<close>

datatype recv_result = RecvError | RecvData "u8 list"

datatype sent_packet =
    WriteTun "u8 list"
  | SendUdp "u8 list" u32 u16

text \<open>\<open>tun_recv_packet\<close> and \<open>sock_recv_packet\<close>: no packet on an error or a short read.\<close>

definition recv_packet :: "recv_result \<Rightarrow> u8 list option" where
  "recv_packet r =
     (case r of RecvError \<Rightarrow> None
      | RecvData bs \<Rightarrow> if length bs < IPHDR_LEN then None else Some bs)"

text \<open>One step in each direction: the route table, what is sent, and the activity flag.\<close>

definition tun_to_udp ::
  "u32 \<Rightarrow> recv_result \<Rightarrow> route_entry list \<Rightarrow> route_entry list \<times> sent_packet list \<times> bool" where
  "tun_to_udp tun_ip r routes =
     (case recv_packet r of
        None \<Rightarrow> (routes, [], False)
      | Some pkt \<Rightarrow>
          let daddr = from_ne_bytes (slice 16 4 pkt) in
          (case find_route daddr routes of
             (routes', None) \<Rightarrow>
               (routes', (case build_net_unreachable pkt tun_ip of None \<Rightarrow> [] | Some p \<Rightarrow> [WriteTun p]), True)
           | (routes', Some (hop_ip, hop_port)) \<Rightarrow>
               (case decrement_ttl pkt of
                  Some (pkt', True) \<Rightarrow> (routes', [SendUdp pkt' hop_ip hop_port], True)
                | _ \<Rightarrow> (routes', [], True))))"

definition udp_to_tun :: "recv_result \<Rightarrow> sent_packet list \<times> bool" where
  "udp_to_tun r =
     (case recv_packet r of
        None \<Rightarrow> ([], False)
      | Some pkt \<Rightarrow>
          (case decrement_ttl pkt of
             Some (pkt', True) \<Rightarrow> ([WriteTun pkt'], True)
           | _ \<Rightarrow> ([], True)))"

definition process_cmd :: "recv_result \<Rightarrow> route_entry list \<times> bool \<Rightarrow> route_entry list \<times> bool" where
  "process_cmd r st =
     (case st of (routes, exit_flag) \<Rightarrow>
       (case r of
          RecvError \<Rightarrow> (routes, exit_flag)
        | RecvData bytes \<Rightarrow>
            if bytes = [] then (routes, True)
            else if length bytes < COMMAND_SIZE then (routes, exit_flag)
            else
              let cmd = command_from_bytes bytes;
                  m = netmask (c_dest_net_len cmd);
                  dst = \<lparr>net_ip = c_dest_net cmd AND m, net_mask = m\<rparr> in
              if c_cmd cmd = CMD_SET_ROUTE then
                (set_route dst (c_next_hop_ip cmd) (c_next_hop_port cmd) routes, exit_flag)
              else if c_cmd cmd = CMD_DEL_ROUTE then (fst (del_route dst routes), exit_flag)
              else if c_cmd cmd = CMD_STOP then (routes, True)
              else (routes, exit_flag)))"

text \<open>
  The inner loop of \<open>run_proxy\<close>: it runs until neither direction had anything. What the two
  descriptors return is a list of reads each; an exhausted list is \<open>EAGAIN\<close>.
\<close>

fun next_read :: "recv_result list \<Rightarrow> recv_result \<times> recv_result list" where
  "next_read [] = (RecvError, [])"
| "next_read (r # rs) = (r, rs)"

lemma next_read_length: "next_read rs = (r, rs') \<Longrightarrow> recv_packet r \<noteq> None \<Longrightarrow> length rs' < length rs"
  by (cases rs) (auto simp: recv_packet_def)

lemma next_read_length_le: "next_read rs = (r, rs') \<Longrightarrow> length rs' \<le> length rs"
  by (cases rs) auto

lemma activity_iff:
  "snd (snd (tun_to_udp tun_ip r routes)) \<longleftrightarrow> recv_packet r \<noteq> None"
  "snd (udp_to_tun r) \<longleftrightarrow> recv_packet r \<noteq> None"
  by (auto simp: tun_to_udp_def udp_to_tun_def Let_def split: option.splits prod.splits bool.splits)

function forward_loop ::
  "u32 \<Rightarrow> recv_result list \<Rightarrow> recv_result list \<Rightarrow> route_entry list \<Rightarrow> route_entry list \<times> sent_packet list" where
  "forward_loop tun_ip tun_reads sock_reads routes =
     (let (r, tun_reads') = next_read tun_reads;
          (q, sock_reads') = next_read sock_reads;
          t = tun_to_udp tun_ip r routes;
          u = udp_to_tun q;
          out = fst (snd t) @ fst u
      in if snd (snd t) \<or> snd u then
           (let (routes', rest) = forward_loop tun_ip tun_reads' sock_reads' (fst t)
            in (routes', out @ rest))
         else (fst t, out))"
  by pat_completeness auto
termination
proof (relation "measure (\<lambda>(_, ts, ss, _). length ts + length ss)", goal_cases)
  case (2 tun_ip tun_reads sock_reads routes x r tun_reads' y q sock_reads' t u out)
  then show ?case
    using next_read_length [of tun_reads r tun_reads'] next_read_length [of sock_reads q sock_reads']
      next_read_length_le [of tun_reads r tun_reads'] next_read_length_le [of sock_reads q sock_reads']
      activity_iff(1) [of tun_ip r routes] activity_iff(2) [of q]
    by auto
qed simp

declare forward_loop.simps [simp del]

datatype poll_result =
    PollInterrupted
  | PollFailed
  | PollReady "recv_result option" bool "recv_result list" "recv_result list"

text \<open>
  \<open>run_proxy\<close> from the results of its \<open>poll\<close> calls: what the ctl socket returns when it is
  readable, whether the tun or the socket is, and the reads that follow. The result is what was
  sent and whether the loop has ended.
\<close>

fun proxy_loop :: "u32 \<Rightarrow> poll_result list \<Rightarrow> route_entry list \<Rightarrow> sent_packet list \<times> bool" where
  "proxy_loop tun_ip [] routes = ([], False)"
| "proxy_loop tun_ip (PollInterrupted # ps) routes = proxy_loop tun_ip ps routes"
| "proxy_loop tun_ip (PollFailed # ps) routes = ([], True)"
| "proxy_loop tun_ip (PollReady ctl ready tun_reads sock_reads # ps) routes =
     (let (routes1, exit_flag) =
            (case ctl of None \<Rightarrow> (routes, False) | Some r \<Rightarrow> process_cmd r (routes, False));
          (routes2, out) =
            (if ready then forward_loop tun_ip tun_reads sock_reads routes1 else (routes1, []))
      in if exit_flag then (out, True)
         else (let (rest, ended) = proxy_loop tun_ip ps routes2 in (out @ rest, ended)))"

definition run_proxy :: "u32 \<Rightarrow> nat \<Rightarrow> poll_result list \<Rightarrow> sent_packet list \<times> bool" where
  "run_proxy tun_ip tun_mtu polls = (if tun_mtu = 0 then ([], True) else proxy_loop tun_ip polls [])"

section \<open>The control side\<close>

definition udp_set_route :: "u32 \<Rightarrow> ip4net \<Rightarrow> ip4 \<Rightarrow> command" where
  "udp_set_route port dst next_hop =
     \<lparr>c_cmd = CMD_SET_ROUTE, c_dest_net = to_be32 (ip4_val (n4_ip dst)),
      c_dest_net_len = n4_prefix_len dst, c_next_hop_ip = to_be32 (ip4_val next_hop),
      c_next_hop_port = ucast port\<rparr>"

definition udp_remove_route :: "ip4net \<Rightarrow> command" where
  "udp_remove_route dst =
     \<lparr>c_cmd = CMD_DEL_ROUTE, c_dest_net = to_be32 (ip4_val (n4_ip dst)),
      c_dest_net_len = n4_prefix_len dst, c_next_hop_ip = 0, c_next_hop_port = 0\<rparr>"

definition udp_stop_proxy :: command where
  "udp_stop_proxy =
     \<lparr>c_cmd = CMD_STOP, c_dest_net = 0, c_dest_net_len = 0, c_next_hop_ip = 0, c_next_hop_port = 0\<rparr>"

text \<open>The datagrams \<open>process_subnet_events\<close> writes to the ctl socket.\<close>

definition process_subnet_events :: "u32 \<Rightarrow> event list \<Rightarrow> u8 list list" where
  "process_subnet_events port batch =
     map (\<lambda>evt. command_to_bytes (case ev_type evt of
            Added \<Rightarrow> udp_set_route port (subnet (ev_lease evt)) (public_ip (attrs (ev_lease evt)))
          | Removed \<Rightarrow> udp_remove_route (subnet (ev_lease evt)))) batch"


section \<open>Byte order\<close>

lemma bit_byte_concat:
  fixes a v :: nat
  assumes "a < 256"
  shows "bit (a + 256 * v) n \<longleftrightarrow> (if n < 8 then bit a n else bit v (n - 8))"
proof -
  have "take_bit 8 a = a" using assms by (simp add: take_bit_nat_eq_self)
  then have small: "\<not> bit a n" if "8 \<le> n" for n
    using that by (metis bit_take_bit_iff not_less)
  have "a + push_bit 8 v = a OR push_bit 8 v"
    by (rule disjunctive_add_eq_or) (auto simp: bit_eq_iff bit_simps dest: small)
  then have "a + 256 * v = a OR push_bit 8 v" by (simp add: push_bit_eq_mult mult.commute)
  then show ?thesis using small by (auto simp: bit_simps)
qed


lemma byte_concat_and:
  fixes a b v w :: nat
  assumes "a < 256" and "b < 256"
  shows "(a + 256 * v) AND (b + 256 * w) = (a AND b) + 256 * (v AND w)"
proof (rule bit_eqI)
  fix n
  have "take_bit 8 (a AND b) = a AND b" using assms by (simp add: take_bit_nat_eq_self)
  then have "a AND b < 256" using take_bit_nat_less_exp [of 8 "a AND b"] by simp
  then show "bit ((a + 256 * v) AND (b + 256 * w)) n = bit ((a AND b) + 256 * (v AND w)) n"
    by (simp add: bit_and_iff bit_byte_concat assms)
qed

lemma le_value_and:
  "length xs = length ys \<Longrightarrow> le_value (map2 (AND) xs ys) = le_value xs AND le_value ys"
proof (induction xs ys rule: list_induct2)
  case (Cons x xs y ys)
  have "unat x < 256" "unat y < 256" using unat_lt2p [of x] unat_lt2p [of y] by simp_all
  with Cons show ?case by (simp add: byte_concat_and unsigned_and_eq)
qed simp

lemma nat_to_le_and: "nat_to_le k (m AND n) = map2 (AND) (nat_to_le k m) (nat_to_le k n)"
proof (induction k arbitrary: m n)
  case (Suc k)
  have "(of_nat ((m AND n) mod 256) :: u8) = of_nat (m mod 256) AND of_nat (n mod 256)"
  proof -
    have "(m AND n) mod 256 = take_bit 8 m AND take_bit 8 n" 
      using take_bit_and [of 8 m n] by (simp add: take_bit_eq_mod)
    then show ?thesis by (simp add: of_nat_and_eq take_bit_eq_mod)
  qed
  moreover have "(m AND n) div 256 = (m div 256) AND (n div 256)"
    using drop_bit_and [of 8 m n] by (simp add: drop_bit_eq_div)
  ultimately show ?case using Suc by simp
qed simp

lemma to_be32_and: "to_be32 (a AND b) = to_be32 a AND to_be32 b"
proof -
  have "to_le_bytes 4 (a AND b) = map2 (AND) (to_le_bytes 4 a) (to_le_bytes 4 b)"
    by (simp add: to_le_bytes_def unsigned_and_eq nat_to_le_and)
  then have "to_be_bytes 4 (a AND b) = map2 (AND) (to_be_bytes 4 a) (to_be_bytes 4 b)"
    by (simp add: to_be_bytes_def rev_map zip_rev)
  then show ?thesis
    by (simp add: to_be32_def from_le_bytes_def le_value_and of_nat_and_eq)
qed

lemma to_be32_inj [simp]: "to_be32 a = to_be32 b \<longleftrightarrow> a = b"
  by (simp add: to_be32_def le32.dec_inj be32.enc_inj)

lemma netmask_mask_value:
  assumes "len \<le> 32"
  shows "netmask len = to_be32 (mask_value len)"
proof -
  have u: "unat len \<le> 32" using assms by (simp add: word_le_nat_alt)
  have "sint (of_nat n :: u32) = int n" if "n \<le> 32" for n
    using that by (simp add: signed_of_nat signed_take_bit_int_eq_self)
  from this [OF u] have "sint len = int (unat len)" by simp
  then have "max 0 (min 32 (sint len)) = int (unat len)" using u by linarith
  then have "nat (max 0 (min 32 (sint len))) = unat len" by (simp only: nat_int)
  moreover have "unat (32 - len) = 32 - unat len" using assms by (simp add: unat_sub)
  moreover have "to_be32 0 = 0" by code_simp
  ultimately show ?thesis
    using assms by (auto simp: netmask_def mask_value_def unat_eq_0)
qed


section \<open>Commands on the wire\<close>

lemma command_layout:
  "command_to_bytes c = to_le_bytes 4 (c_cmd c) @ to_le_bytes 4 (c_dest_net c) @
     to_le_bytes 4 (c_dest_net_len c) @ to_le_bytes 4 (c_next_hop_ip c) @
     to_le_bytes 2 (c_next_hop_port c) @ [0, 0]"
proof -
  have z: "replicate 20 (0 :: u8) = [0, 0, 0, 0] @ [0, 0, 0, 0] @ [0, 0, 0, 0] @ [0, 0, 0, 0] @ [0, 0] @ [0, 0]"
    by (simp add: numeral_eq_Suc)
  show ?thesis unfolding command_to_bytes_def COMMAND_SIZE_def z Let_def
    by (simp add: copy_at_append2 copy_at_0 del: append.simps)
qed

lemma command_to_bytes_length [simp]: "length (command_to_bytes c) = 20"
  by (simp add: command_layout)

lemma command_from_to_bytes [simp]: "command_from_bytes (command_to_bytes c) = c"
  by (simp add: command_from_bytes_def command_layout slice_def le32.dec_enc le16.dec_enc)

section \<open>The table as a set of routes\<close>

lemma mset_swap_remove:
  assumes "i < length xs"
  shows "mset (swap_remove i xs) = mset xs - {#xs ! i#}"
proof -
  have ne: "xs \<noteq> []" using assms by auto
  then have perm: "mset xs = mset (butlast xs) + {#last xs#}"
    by (metis append_butlast_last_id mset.simps(1,2) mset_append)
  show ?thesis
  proof (cases "i = length xs - 1")
    case True
    with ne perm show ?thesis by (simp add: swap_remove_def last_conv_nth)
  next
    case False
    with assms have i: "i < length (butlast xs)" by auto
    then have eq: "butlast xs ! i = xs ! i" by (simp add: nth_butlast)
    with i have "xs ! i \<in># mset (butlast xs)" by (metis nth_mem set_mset_mset)
    with False i eq perm show ?thesis by (simp add: swap_remove_def mset_update diff_union_swap2)
  qed
qed

lemma mset_swap0: "i < length xs \<Longrightarrow> mset (swap 0 i xs) = mset xs"
  unfolding swap_def by (rule mset_swap) auto

interpretation rt: keyed_store "\<lambda>a b. re_dst a = re_dst b" re_dst "\<lambda>_. True"
  by unfold_locales simp

definition routes_wf :: "route_entry list \<Rightarrow> bool" where
  "routes_wf es \<longleftrightarrow> distinct (map re_dst es)"

lemma routes_wf_inv: "routes_wf es \<longleftrightarrow> rt.inv es"
  by (simp add: routes_wf_def rt.inv_def list_all_iff)

lemma routes_wf_mset: "mset es = mset es' \<Longrightarrow> routes_wf es \<longleftrightarrow> routes_wf es'"
  unfolding routes_wf_def by (metis mset_eq_imp_distinct_iff mset_map)

lemma set_route_wf:
  assumes "routes_wf es"
  shows "routes_wf (set_route dst hop port es)"
    and "store_map re_dst (set_route dst hop port es) =
      (store_map re_dst es)(dst \<mapsto> \<lparr>re_dst = dst, re_next_hop_ip = hop, re_next_hop_port = port\<rparr>)"
  using assms rt.upsert_inv [of es "\<lparr>re_dst = dst, re_next_hop_ip = hop, re_next_hop_port = port\<rparr>"]
    rt.upsert_map [of es "\<lparr>re_dst = dst, re_next_hop_ip = hop, re_next_hop_port = port\<rparr>"]
  by (simp_all add: set_route_def routes_wf_inv)

lemma del_route_wf:
  assumes "routes_wf es"
  shows "routes_wf (fst (del_route dst es))"
    and "store_map re_dst (fst (del_route dst es)) = (store_map re_dst es)(dst := None)"
proof -
  have "routes_wf (fst (del_route dst es)) \<and>
    store_map re_dst (fst (del_route dst es)) = (store_map re_dst es)(dst := None)"
  proof (cases "position (\<lambda>e. re_dst e = dst) es")
    case None
    then have "store_map re_dst es dst = None" by (auto simp: position_None store_map_None)
    with None assms show ?thesis by (simp add: del_route_def fun_upd_idem)
  next
    case (Some i)
    from position_Some [OF Some] have i: "i < length es" "re_dst (es ! i) = dst" by auto
    have perm: "mset es = mset (es ! i # swap_remove i es)"
      using i by (simp add: mset_swap_remove)
    then have wf: "routes_wf (es ! i # swap_remove i es)" using assms routes_wf_mset by blast
    have "store_map re_dst es = store_map re_dst (es ! i # swap_remove i es)"
      using assms wf mset_eq_setD [OF perm] by (intro store_map_set) (simp_all only: routes_wf_def)
    moreover have "store_map re_dst (swap_remove i es) dst = None"
      using i wf by (simp add: routes_wf_def store_map_None)
    ultimately have "(store_map re_dst es)(dst := None) = store_map re_dst (swap_remove i es)"
      using i by (simp add: fun_upd_idem)
    with wf Some show ?thesis by (simp add: del_route_def routes_wf_def)
  qed
  then show "routes_wf (fst (del_route dst es))"
    "store_map re_dst (fst (del_route dst es)) = (store_map re_dst es)(dst := None)" by blast+
qed

lemma find_route_mset: "mset (fst (find_route ip es)) = mset es"
  by (auto simp: find_route_def Let_def mset_swap0 dest: position_Some split: option.splits)

lemma find_route_wf:
  assumes "routes_wf es"
  shows "routes_wf (fst (find_route ip es))"
    and "store_map re_dst (fst (find_route ip es)) = store_map re_dst es"
proof -
  show wf: "routes_wf (fst (find_route ip es))"
    using assms routes_wf_mset [OF find_route_mset] by simp
  show "store_map re_dst (fst (find_route ip es)) = store_map re_dst es"
    using wf assms by (intro store_map_set) (simp_all add: routes_wf_def mset_eq_setD [OF find_route_mset])
qed

lemma find_route_result:
  "(\<exists>e \<in> set es. net_ip (re_dst e) = ip AND net_mask (re_dst e) \<and>
      snd (find_route ip es) = Some (re_next_hop_ip e, re_next_hop_port e)) \<or>
   snd (find_route ip es) = None \<and> (\<forall>e \<in> set es. net_ip (re_dst e) \<noteq> ip AND net_mask (re_dst e))"
proof (cases "position (\<lambda>e. net_ip (re_dst e) = ip AND net_mask (re_dst e)) es")
  case None
  then have "snd (find_route ip es) = None" by (simp add: find_route_def)
  with None show ?thesis unfolding position_None by blast
next
  case (Some i)
  from position_Some [OF Some] have i: "i < length es" and m: "net_ip (re_dst (es ! i)) = ip AND net_mask (re_dst (es ! i))"
    by auto
  have "es \<noteq> []" using i by auto
  then have "fst (find_route ip es) ! 0 = es ! i"
    using Some i by (simp add: find_route_def Let_def swap_def)
  then have "snd (find_route ip es) = Some (re_next_hop_ip (es ! i), re_next_hop_port (es ! i))"
    using Some by (simp add: find_route_def Let_def)
  with i m show ?thesis using nth_mem by blast
qed


section \<open>Leases and routes\<close>

text \<open>The entry the proxy keeps for a lease's subnet.\<close>

definition dst_of :: "ip4net \<Rightarrow> ip_net" where
  "dst_of n = \<lparr>net_ip = to_be32 (ip4_val (n4_ip n) AND n4_mask n), net_mask = to_be32 (n4_mask n)\<rparr>"

definition entry_of :: "u32 \<Rightarrow> ip4net \<Rightarrow> ip4 \<Rightarrow> route_entry" where
  "entry_of port n hop =
     \<lparr>re_dst = dst_of n, re_next_hop_ip = to_be32 (ip4_val hop), re_next_hop_port = ucast port\<rparr>"

text \<open>An address is matched by the entry of a network exactly when it is in the network.\<close>

lemma entry_matches:
  assumes "n4_wf n"
  shows "net_ip (dst_of n) = to_be32 (ip4_val a) AND net_mask (dst_of n) \<longleftrightarrow> a \<in> n4_addrs n"
  using n4_contains_iff [OF assms, of a] by (simp add: dst_of_def n4_contains_def flip: to_be32_and)

lemma mask_value_inj:
  assumes "p \<le> 32" and "q \<le> 32" and "mask_value p = mask_value q"
  shows "p = q"
proof -
  have "unat p \<le> LENGTH(32)" "unat q \<le> LENGTH(32)" using assms(1,2) by (simp_all add: word_le_nat_alt)
  with assms(3) have "unat p = unat q"
    using hi_mask_le_iff [of "unat p" "unat q", where 'a = 32] hi_mask_le_iff [of "unat q" "unat p", where 'a = 32]
    by (simp add: v4.amask_in)
  then show ?thesis by (simp add: word_unat_eq_iff)
qed

definition clean4 :: "ip4net \<Rightarrow> bool" where
  "clean4 n \<longleftrightarrow> n4_wf n \<and> n4_network n = n"

lemma dst_of_inj:
  assumes "clean4 m" and "clean4 n" and "dst_of m = dst_of n"
  shows "m = n"
proof -
  have ips: "ip4_val (n4_ip m) AND n4_mask m = ip4_val (n4_ip n) AND n4_mask n"
    using arg_cong [OF assms(3), of net_ip] by (simp add: dst_of_def)
  have mask: "n4_mask m = n4_mask n"
    using arg_cong [OF assms(3), of net_mask] by (simp add: dst_of_def)
  have "n4_prefix_len m = n4_prefix_len n"
    using assms(1,2) mask unfolding clean4_def n4_mask_def by (blast intro: mask_value_inj)
  with ips have "n4_network m = n4_network n" by (simp add: n4_network_def)
  then show ?thesis using assms(1,2) by (simp add: clean4_def)
qed

text \<open>What a batch of lease events means for routing: a map from subnets to public addresses.\<close>

definition route_event :: "(ip4net \<rightharpoonup> ip4) \<Rightarrow> event \<Rightarrow> (ip4net \<rightharpoonup> ip4)" where
  "route_event m e =
     (case ev_type e of
        Added \<Rightarrow> m(subnet (ev_lease e) \<mapsto> public_ip (attrs (ev_lease e)))
      | Removed \<Rightarrow> m(subnet (ev_lease e) := None))"

definition routes_rep :: "u32 \<Rightarrow> (ip4net \<rightharpoonup> ip4) \<Rightarrow> route_entry list \<Rightarrow> bool" where
  "routes_rep port m es \<longleftrightarrow>
     routes_wf es \<and> (\<forall>n \<in> dom m. clean4 n) \<and>
     set es = {entry_of port n hop | n hop. m n = Some hop}"

text \<open>The proxy between two ctl datagrams looks routes up; both kinds of step, in any order.\<close>

datatype proxy_step = Ctl event | Lookup u32

definition proxy_step_routes :: "u32 \<Rightarrow> route_entry list \<times> bool \<Rightarrow> proxy_step \<Rightarrow> route_entry list \<times> bool" where
  "proxy_step_routes port st s =
     (case s of
        Ctl e \<Rightarrow> foldl (\<lambda>st bytes. process_cmd (RecvData bytes) st) st (process_subnet_events port [e])
      | Lookup ip \<Rightarrow> (fst (find_route ip (fst st)), snd st))"

fun step_event :: "proxy_step \<Rightarrow> event list" where
  "step_event (Ctl e) = [e]"
| "step_event (Lookup ip) = []"

lemma process_subnet_event:
  assumes "n4_wf (subnet (ev_lease e))"
  shows "proxy_step_routes port (es, x) (Ctl e) =
    (case ev_type e of
       Added \<Rightarrow> (set_route (dst_of (subnet (ev_lease e))) (to_be32 (ip4_val (public_ip (attrs (ev_lease e))))) (ucast port) es, x)
     | Removed \<Rightarrow> (fst (del_route (dst_of (subnet (ev_lease e))) es), x))"
  using assms command_to_bytes_length [of "udp_set_route port (subnet (ev_lease e)) (public_ip (attrs (ev_lease e)))"]
    command_to_bytes_length [of "udp_remove_route (subnet (ev_lease e))"]
  by (auto simp: proxy_step_routes_def process_subnet_events_def process_cmd_def COMMAND_SIZE_def Let_def
    udp_set_route_def udp_remove_route_def CMD_SET_ROUTE_def CMD_DEL_ROUTE_def dst_of_def
    netmask_mask_value n4_mask_def to_be32_and simp del: command_to_bytes_length split: event_type.split)


lemma routes_wf_mem: "routes_wf es \<Longrightarrow> x \<in> set es \<longleftrightarrow> store_map re_dst es (re_dst x) = Some x"
  by (simp add: routes_wf_def store_map_Some)

lemma re_dst_entry [simp]: "re_dst (entry_of port n hop) = dst_of n"
  by (simp add: entry_of_def)

lemma routes_rep_add:
  assumes rep: "routes_rep port m es" and n: "clean4 n"
  shows "routes_rep port (m(n \<mapsto> hop)) (set_route (dst_of n) (to_be32 (ip4_val hop)) (ucast port) es)"
proof -
  let ?es = "set_route (dst_of n) (to_be32 (ip4_val hop)) (ucast port) es"
  have wf: "routes_wf es" and dom: "\<forall>n \<in> dom m. clean4 n"
    and set: "set es = {entry_of port n hop | n hop. m n = Some hop}"
    using rep by (auto simp: routes_rep_def)
  note new = set_route_wf [OF wf, of "dst_of n" "to_be32 (ip4_val hop)" "ucast port", folded entry_of_def]
  have "x \<in> set ?es \<longleftrightarrow> (if re_dst x = dst_of n then x = entry_of port n hop else x \<in> set es)" for x
    unfolding routes_wf_mem [OF new(1)] new(2) by (auto simp: routes_wf_mem [OF wf])
  then have "set ?es = {entry_of port n' h | n' h. (m(n \<mapsto> hop)) n' = Some h}"
    using dst_of_inj n dom unfolding set
    by (auto split: if_splits) (metis domI)+
  with new(1) dom n show ?thesis by (auto simp: routes_rep_def)
qed

lemma routes_rep_del:
  assumes rep: "routes_rep port m es" and n: "clean4 n"
  shows "routes_rep port (m(n := None)) (fst (del_route (dst_of n) es))"
proof -
  let ?es = "fst (del_route (dst_of n) es)"
  have wf: "routes_wf es" and dom: "\<forall>n \<in> dom m. clean4 n"
    and set: "set es = {entry_of port n hop | n hop. m n = Some hop}"
    using rep by (auto simp: routes_rep_def)
  note new = del_route_wf [OF wf, of "dst_of n"]
  have "x \<in> set ?es \<longleftrightarrow> x \<in> set es \<and> re_dst x \<noteq> dst_of n" for x
    unfolding routes_wf_mem [OF new(1)] new(2) by (auto simp: routes_wf_mem [OF wf])
  then have "set ?es = {entry_of port n' h | n' h. (m(n := None)) n' = Some h}"
    using dst_of_inj n dom unfolding set
    by (auto split: if_splits) (metis domI)+
  with new(1) dom n show ?thesis by (auto simp: routes_rep_def)
qed

lemma routes_rep_step:
  assumes "routes_rep port m (fst st)" and "list_all (\<lambda>e. clean4 (subnet (ev_lease e))) (step_event s)"
  shows "routes_rep port (foldl route_event m (step_event s)) (fst (proxy_step_routes port st s)) \<and>
    snd (proxy_step_routes port st s) = snd st"
proof (cases s)
  case (Ctl e)
  have "n4_wf (subnet (ev_lease e))" using assms(2) Ctl by (simp add: clean4_def)
  from process_subnet_event [OF this, of port "fst st" "snd st"] assms Ctl show ?thesis
    by (auto simp: route_event_def intro: routes_rep_add routes_rep_del split: event_type.splits)
next
  case (Lookup ip)
  with assms(1) find_route_wf(1) [of "fst st" ip] show ?thesis
    by (simp add: proxy_step_routes_def routes_rep_def mset_eq_setD [OF find_route_mset])
qed

lemma routes_rep_steps:
  assumes "routes_rep port m (fst st)"
    and "list_all (\<lambda>e. clean4 (subnet (ev_lease e))) (concat (map step_event ss))"
  shows "routes_rep port (foldl route_event m (concat (map step_event ss))) (fst (foldl (proxy_step_routes port) st ss)) \<and>
    snd (foldl (proxy_step_routes port) st ss) = snd st"
  using assms
proof (induction ss arbitrary: m st)
  case (Cons s ss)
  show ?case using Cons.prems routes_rep_step [of port m st s]
    Cons.IH [of "foldl route_event m (step_event s)" "proxy_step_routes port st s"]
    by simp
qed simp

lemma routes_rep_Nil: "routes_rep port Map.empty []"
  by (simp add: routes_rep_def routes_wf_def)


section \<open>Properties\<close>

text \<open>A ctl command survives the wire: it is 20 bytes long and the proxy decodes the
  command that was encoded, whatever its fields.\<close>

theorem command_roundtrip:
  "length (command_to_bytes c) = COMMAND_SIZE \<and> command_from_bytes (command_to_bytes c) = c"
  by (simp add: COMMAND_SIZE_def)

text \<open>C11. The UDP data plane follows the leases. Whatever lease events the backend has sent to
  the proxy, interleaved in any way with route lookups (which move entries to the front of the
  table), the table is the one the events describe: the proxy has not stopped, and a packet for
  an address finds the public address and port of a lease whose subnet contains the address,
  or no route when no current lease's subnet contains it. When the leased subnets are disjoint
  the next hop is therefore determined. Subnets are as leases carry them: prefix in range, no
  host bits.\<close>

theorem proxy_routes_leases:
  fixes port :: u32 and a :: ip4
  assumes "list_all (\<lambda>e. clean4 (subnet (ev_lease e))) (concat (map step_event ss))"
  defines "m \<equiv> foldl route_event Map.empty (concat (map step_event ss))"
    and "st \<equiv> foldl (proxy_step_routes port) ([], False) ss"
  shows "\<not> snd st \<and>
    (case snd (find_route (to_be32 (ip4_val a)) (fst st)) of
       None \<Rightarrow> \<forall>n hop. m n = Some hop \<longrightarrow> a \<notin> n4_addrs n
     | Some (ip, p) \<Rightarrow> \<exists>n hop. m n = Some hop \<and> a \<in> n4_addrs n \<and> ip = to_be32 (ip4_val hop) \<and> p = ucast port)"
proof -
  have "routes_rep port m (fst st)" and stop: "\<not> snd st"
    using routes_rep_steps [of port Map.empty "([], False)" ss] assms(1) routes_rep_Nil
    by (simp_all add: m_def st_def)
  then have dom: "\<forall>n \<in> dom m. clean4 n" and set: "set (fst st) = {entry_of port n hop | n hop. m n = Some hop}"
    by (auto simp: routes_rep_def)
  have match: "net_ip (re_dst (entry_of port n hop)) = to_be32 (ip4_val a) AND net_mask (re_dst (entry_of port n hop)) \<longleftrightarrow>
      a \<in> n4_addrs n" if "m n = Some hop" for n hop
    using that dom by (simp add: entry_matches clean4_def domI)
  from find_route_result [where ip = "to_be32 (ip4_val a)" and es = "fst st"] stop show ?thesis
  proof (elim disjE)
    assume "\<exists>e \<in> set (fst st). net_ip (re_dst e) = to_be32 (ip4_val a) AND net_mask (re_dst e) \<and>
      snd (find_route (to_be32 (ip4_val a)) (fst st)) = Some (re_next_hop_ip e, re_next_hop_port e)"
    with stop match show ?thesis unfolding set by (fastforce simp: entry_of_def)
  next
    assume "snd (find_route (to_be32 (ip4_val a)) (fst st)) = None \<and>
      (\<forall>e \<in> set (fst st). net_ip (re_dst e) \<noteq> to_be32 (ip4_val a) AND net_mask (re_dst e))"
    with stop match show ?thesis unfolding set by fastforce
  qed
qed


theorem proxy_routes_leases_witness:
  "\<exists>n hop. foldl route_event Map.empty [\<lparr>ev_type = Added, ev_lease = sample_lease 2\<rparr>] n = Some hop \<and>
     IP4 0x0AF40207 \<in> n4_addrs n \<and>
     snd (find_route (to_be32 0x0AF40207) (fst (foldl (proxy_step_routes 8285) ([], False)
       [Ctl \<lparr>ev_type = Added, ev_lease = sample_lease 2\<rparr>]))) = Some (to_be32 (ip4_val hop), ucast (8285 :: u32))"
proof -
  let ?e = "\<lparr>ev_type = Added, ev_lease = sample_lease 2\<rparr>"
  have clean: "list_all (\<lambda>e. clean4 (subnet (ev_lease e))) (concat (map step_event [Ctl ?e]))"
    by (simp add: clean4_def sample_lease_def n4_network_def n4_mask_def mask_value_def push_bit_eq_mult)
  have "snd (find_route (to_be32 0x0AF40207) (fst (foldl (proxy_step_routes 8285) ([], False) [Ctl ?e]))) \<noteq> None"
    by code_simp
  with proxy_routes_leases [OF clean, where a = "IP4 0x0AF40207" and port = 8285] show ?thesis
    by (auto split: option.splits)
qed

text \<open>The proxy stops when told: a poll that delivers the stop command the backend writes
  ends the loop after the packets of that round, whatever was due later.\<close>

theorem proxy_stops:
  "snd (run_proxy tun_ip (Suc mtu)
     (PollReady (Some (RecvData (command_to_bytes udp_stop_proxy))) ready tun_reads sock_reads # later))"
  using command_to_bytes_length [of udp_stop_proxy]
  by (auto simp: run_proxy_def process_cmd_def COMMAND_SIZE_def Let_def udp_stop_proxy_def CMD_STOP_def
    CMD_SET_ROUTE_def CMD_DEL_ROUTE_def simp del: command_to_bytes_length split: prod.split)

end
