(* ===== verification/Vici.thy ===== *)
theory Vici
  imports Bytes
begin

text \<open>
  \<open>backend/ipsec/vici.rs\<close>: the VICI message encoding, packet framing and the three requests
  flannel sends to charon. Strings are their UTF-8 bytes, and \<open>from_utf8_lossy\<close> is written out
  on bytes. The parser works on the bytes that are left instead of an offset. It recurses per
  segment with fuel; one more than the number of bytes is always enough, which is proved.
\<close>

section \<open>Text\<close>

definition between :: "u8 \<Rightarrow> u8 \<Rightarrow> u8 \<Rightarrow> bool" where
  "between lo hi b \<longleftrightarrow> lo \<le> b \<and> b \<le> hi"

abbreviation "is_cont \<equiv> between 0x80 0xBF"

text \<open>The byte at an index, zero past the end.\<close>

definition safe_get :: "u8 list \<Rightarrow> nat \<Rightarrow> u8" where
  "safe_get bs i = (if i < length bs then bs ! i else 0)"

text \<open>How many bytes after \<open>b\<close> belong to its character, and whether the character is valid;
  of an invalid one the well-formed prefix is consumed.\<close>

definition utf8_tail :: "u8 \<Rightarrow> u8 list \<Rightarrow> nat \<times> bool" where
  "utf8_tail b bs =
     (let second = safe_get bs 0 in
      if b < 0x80 then (0, True)
      else if between 0xC2 0xDF b then (if is_cont second then (1, True) else (0, False))
      else if between 0xE0 0xEF b then
        (if \<not> (if b = 0xE0 then between 0xA0 0xBF second
                else if b = 0xED then between 0x80 0x9F second
                else is_cont second) then (0, False)
         else if is_cont (safe_get bs 1) then (2, True) else (1, False))
      else if between 0xF0 0xF4 b then
        (if \<not> (if b = 0xF0 then between 0x90 0xBF second
                else if b = 0xF4 then between 0x80 0x8F second
                else is_cont second) then (0, False)
         else if \<not> is_cont (safe_get bs 1) then (1, False)
         else if is_cont (safe_get bs 2) then (3, True) else (2, False))
      else (0, False))"

function from_utf8_lossy :: "u8 list \<Rightarrow> u8 list" where
  "from_utf8_lossy [] = []"
| "from_utf8_lossy (b # bs) =
     (let (n, valid) = utf8_tail b bs in
      (if valid then b # take n bs else [0xEF, 0xBF, 0xBD]) @ from_utf8_lossy (drop n bs))"
  by pat_completeness auto
termination by (relation "measure length") (auto simp: less_Suc_eq_le)

section \<open>Messages\<close>

datatype vici_segment =
    VKey "u8 list" "u8 list"
  | VList "u8 list" "u8 list list"
  | VSection "u8 list" "vici_segment list"

type_synonym vici_message = "vici_segment list"

datatype vici_error =
    TruncatedName
  | TruncatedLength
  | TruncatedValue
  | UnterminatedList
  | SegmentInsideList u8
  | UnknownSegment u8
  | TrailingBytes
  | EmptyPacket
  | PacketTooLong nat
  | UnexpectedEof
  | UnknownCommand "u8 list"
  | Refused "u8 list"
  | OutOfFuel

fun seg_name :: "vici_segment \<Rightarrow> u8 list" where
  "seg_name (VKey k _) = k"
| "seg_name (VList k _) = k"
| "seg_name (VSection k _) = k"

definition SECTION_START :: u8 where "SECTION_START = 1"
definition SECTION_END :: u8 where "SECTION_END = 2"
definition KEY_VALUE :: u8 where "KEY_VALUE = 3"
definition LIST_START :: u8 where "LIST_START = 4"
definition LIST_ITEM :: u8 where "LIST_ITEM = 5"
definition LIST_END :: u8 where "LIST_END = 6"

lemmas segment_types = SECTION_START_def SECTION_END_def KEY_VALUE_def LIST_START_def LIST_ITEM_def LIST_END_def

lemma segment_types_distinct [simp]:
  "SECTION_END \<noteq> SECTION_START" "KEY_VALUE \<noteq> SECTION_START" "LIST_START \<noteq> SECTION_START"
  "KEY_VALUE \<noteq> SECTION_END" "LIST_START \<noteq> SECTION_END" "LIST_START \<noteq> KEY_VALUE"
  "LIST_END \<noteq> LIST_ITEM"
  by (simp_all add: segment_types)

section \<open>Encoding\<close>

text \<open>Lengths are truncated to their width, as the casts do.\<close>

definition push_name :: "u8 list \<Rightarrow> u8 list" where
  "push_name name = of_nat (length name) # name"

definition push_value :: "u8 list \<Rightarrow> u8 list" where
  "push_value v = to_be_bytes 2 (of_nat (length v) :: u16) @ v"

fun encode_segments :: "vici_message \<Rightarrow> u8 list" where
  "encode_segments [] = []"
| "encode_segments (VKey k v # segs) = KEY_VALUE # push_name k @ push_value v @ encode_segments segs"
| "encode_segments (VList name items # segs) =
     LIST_START # push_name name @ concat (map (\<lambda>item. LIST_ITEM # push_value item) items) @
     LIST_END # encode_segments segs"
| "encode_segments (VSection name inner # segs) =
     SECTION_START # push_name name @ encode_segments inner @ SECTION_END # encode_segments segs"

section \<open>Decoding\<close>

definition read_name :: "u8 list \<Rightarrow> vici_error + (u8 list \<times> u8 list)" where
  "read_name bs =
     (case bs of
        [] \<Rightarrow> Inl TruncatedName
      | len # rest \<Rightarrow>
          if length rest < unat len then Inl TruncatedName
          else Inr (from_utf8_lossy (take (unat len) rest), drop (unat len) rest))"

definition read_u16_bytes :: "u8 list \<Rightarrow> vici_error + (u8 list \<times> u8 list)" where
  "read_u16_bytes bs =
     (if length bs < 2 then Inl TruncatedLength
      else
        let len = unat (from_be_bytes (take 2 bs) :: u16); rest = drop 2 bs in
        if length rest < len then Inl TruncatedValue else Inr (take len rest, drop len rest))"

fun parse_items :: "nat \<Rightarrow> u8 list \<Rightarrow> vici_error + (u8 list list \<times> u8 list)" where
  "parse_items 0 bs = Inl OutOfFuel"
| "parse_items (Suc fuel) bs =
     (case bs of
        [] \<Rightarrow> Inl UnterminatedList
      | b # rest \<Rightarrow>
          if b = LIST_ITEM then
            rbind (read_u16_bytes rest) (\<lambda>(item, rest1).
            rbind (parse_items fuel rest1) (\<lambda>(items, rest2). Inr (item # items, rest2)))
          else if b = LIST_END then Inr ([], rest)
          else Inl (SegmentInsideList b))"

fun parse_segments :: "nat \<Rightarrow> u8 list \<Rightarrow> vici_error + (vici_message \<times> u8 list)" where
  "parse_segments 0 bs = Inl OutOfFuel"
| "parse_segments (Suc fuel) bs =
     (case bs of
        [] \<Rightarrow> Inr ([], [])
      | b # rest \<Rightarrow>
          if b = SECTION_START then
            rbind (read_name rest) (\<lambda>(name, rest1).
            rbind (parse_segments fuel rest1) (\<lambda>(inner, rest2).
            rbind (parse_segments fuel rest2) (\<lambda>(out, rest3). Inr (VSection name inner # out, rest3))))
          else if b = SECTION_END then Inr ([], rest)
          else if b = KEY_VALUE then
            rbind (read_name rest) (\<lambda>(key, rest1).
            rbind (read_u16_bytes rest1) (\<lambda>(v, rest2).
            rbind (parse_segments fuel rest2) (\<lambda>(out, rest3). Inr (VKey key v # out, rest3))))
          else if b = LIST_START then
            rbind (read_name rest) (\<lambda>(name, rest1).
            rbind (parse_items (Suc (length rest1)) rest1) (\<lambda>(items, rest2).
            rbind (parse_segments fuel rest2) (\<lambda>(out, rest3). Inr (VList name items # out, rest3))))
          else Inl (UnknownSegment b))"

definition vici_parse :: "u8 list \<Rightarrow> vici_error + vici_message" where
  "vici_parse bs =
     rbind (parse_segments (Suc (length bs)) bs) (\<lambda>(segs, rest).
       if rest \<noteq> [] then Inl TrailingBytes else Inr segs)"

definition vici_get :: "vici_message \<Rightarrow> u8 list \<Rightarrow> vici_segment option" where
  "vici_get msg name = find (\<lambda>s. seg_name s = name) msg"

definition get_str :: "vici_message \<Rightarrow> u8 list \<Rightarrow> u8 list option" where
  "get_str msg name =
     (case vici_get msg name of Some (VKey _ v) \<Rightarrow> Some (from_utf8_lossy v) | _ \<Rightarrow> None)"

section \<open>Packets\<close>

definition CMD_REQUEST :: u8 where "CMD_REQUEST = 0"
definition CMD_RESPONSE :: u8 where "CMD_RESPONSE = 1"
definition CMD_UNKNOWN :: u8 where "CMD_UNKNOWN = 2"
definition MAX_PACKET_LEN :: nat where "MAX_PACKET_LEN = 64 * 1024"

definition write_packet :: "u8 \<Rightarrow> u8 list \<Rightarrow> u8 list" where
  "write_packet ptype payload =
     to_be_bytes 4 (of_nat (length payload + 1) :: u32) @ [ptype] @ payload"

text \<open>One packet off the stream, with what is left of it.\<close>

definition read_packet :: "u8 list \<Rightarrow> vici_error + ((u8 \<times> u8 list) \<times> u8 list)" where
  "read_packet s =
     (if length s < 4 then Inl UnexpectedEof
      else
        let len = unat (from_be_bytes (take 4 s) :: u32); rest = drop 4 s in
        if len = 0 then Inl EmptyPacket
        else if len > MAX_PACKET_LEN then Inl (PacketTooLong len)
        else if length rest < len then Inl UnexpectedEof
        else let body = take len rest in Inr ((hd body, tl body), drop len rest))"

definition cmd_request_payload :: "u8 list \<Rightarrow> u8 list \<Rightarrow> u8 list" where
  "cmd_request_payload name msg = of_nat (length name) # name @ msg"

lemma read_packet_shrinks: "read_packet s = Inr (p, rest) \<Longrightarrow> length rest < length s"
  by (auto simp: read_packet_def Let_def split: if_splits)

text \<open>The wait for the response on what charon sends: packets of other types are skipped.\<close>

function await_response :: "u8 list \<Rightarrow> u8 list \<Rightarrow> vici_error + (vici_message \<times> u8 list)" where
  "await_response name s =
     (case read_packet s of
        Inl e \<Rightarrow> Inl e
      | Inr ((ptype, body), rest) \<Rightarrow>
          if ptype = CMD_RESPONSE then map_sum id (\<lambda>m. (m, rest)) (vici_parse body)
          else if ptype = CMD_UNKNOWN then Inl (UnknownCommand name)
          else await_response name rest)"
  by pat_completeness auto
termination by (relation "measure (length \<circ> snd)") (auto dest: read_packet_shrinks)

declare await_response.simps [simp del]

text \<open>\<open>request\<close>: the bytes written and what comes back.\<close>

definition vici_request ::
  "u8 list \<Rightarrow> u8 list \<Rightarrow> u8 list \<Rightarrow> u8 list \<times> (vici_error + (vici_message \<times> u8 list))" where
  "vici_request name msg s =
     (write_packet CMD_REQUEST (cmd_request_payload name msg), await_response name s)"

definition bytes_of :: "string \<Rightarrow> u8 list" where
  "bytes_of s = map of_char s"

definition check_success :: "vici_message \<Rightarrow> vici_error + unit" where
  "check_success resp =
     (if get_str resp (bytes_of ''success'') = Some (bytes_of ''yes'') then Inr ()
      else Inl (Refused (case get_str resp (bytes_of ''err'') of
          Some e \<Rightarrow> e | None \<Rightarrow> bytes_of ''unknown error'')))"

section \<open>Requests\<close>

record child_conf =
  cc_local_ts :: "u8 list list"
  cc_remote_ts :: "u8 list list"
  cc_esp_proposals :: "u8 list list"
  cc_start_action :: "u8 list"
  cc_close_action :: "u8 list"
  cc_dpd_action :: "u8 list"
  cc_mode :: "u8 list"
  cc_reqid :: "u8 list"
  cc_rekey_time :: "u8 list"
  cc_install_policy :: "u8 list"

record ike_conf =
  ic_local_addrs :: "u8 list list"
  ic_remote_addrs :: "u8 list list"
  ic_proposals :: "u8 list list"
  ic_version :: "u8 list"
  ic_keying_tries :: "u8 list"
  ic_encap :: "u8 list"
  ic_child_name :: "u8 list"
  ic_child :: child_conf

definition load_shared_msg :: "u8 list \<Rightarrow> u8 list \<Rightarrow> u8 list list \<Rightarrow> vici_message" where
  "load_shared_msg typ data owners =
     [VKey (bytes_of ''type'') typ, VKey (bytes_of ''data'') data, VList (bytes_of ''owners'') owners]"

definition child_msg :: "child_conf \<Rightarrow> vici_message" where
  "child_msg c =
     [VList (bytes_of ''local_ts'') (cc_local_ts c),
      VList (bytes_of ''remote_ts'') (cc_remote_ts c),
      VList (bytes_of ''esp_proposals'') (cc_esp_proposals c),
      VKey (bytes_of ''start_action'') (cc_start_action c),
      VKey (bytes_of ''close_action'') (cc_close_action c),
      VKey (bytes_of ''dpd_action'') (cc_dpd_action c),
      VKey (bytes_of ''mode'') (cc_mode c),
      VKey (bytes_of ''reqid'') (cc_reqid c),
      VKey (bytes_of ''rekey_time'') (cc_rekey_time c),
      VKey (bytes_of ''install_policy'') (cc_install_policy c)]"

definition load_conn_msg :: "u8 list \<Rightarrow> ike_conf \<Rightarrow> vici_message" where
  "load_conn_msg name ike =
     [VSection name
       [VList (bytes_of ''local_addrs'') (ic_local_addrs ike),
        VList (bytes_of ''remote_addrs'') (ic_remote_addrs ike),
        VList (bytes_of ''proposals'') (ic_proposals ike),
        VKey (bytes_of ''version'') (ic_version ike),
        VKey (bytes_of ''keying_tries'') (ic_keying_tries ike),
        VKey (bytes_of ''encap'') (ic_encap ike),
        VSection (bytes_of ''local-1'') [VKey (bytes_of ''auth'') (bytes_of ''psk'')],
        VSection (bytes_of ''remote-1'') [VKey (bytes_of ''auth'') (bytes_of ''psk'')],
        VSection (bytes_of ''children'') [VSection (ic_child_name ike) (child_msg (ic_child ike))]]]"

definition unload_conn_msg :: "u8 list \<Rightarrow> vici_message" where
  "unload_conn_msg name = [VKey (bytes_of ''name'') name]"

text \<open>A request followed by the check of its response: bytes written, result.\<close>

definition vici_call :: "string \<Rightarrow> vici_message \<Rightarrow> u8 list \<Rightarrow> u8 list \<times> (vici_error + unit)" where
  "vici_call name msg s =
     (let (sent, r) = vici_request (bytes_of name) (encode_segments msg) s
      in (sent, rbind r (\<lambda>(resp, _). check_success resp)))"

definition load_shared :: "u8 list \<Rightarrow> u8 list \<Rightarrow> u8 list list \<Rightarrow> u8 list \<Rightarrow> u8 list \<times> (vici_error + unit)" where
  "load_shared typ data owners s = vici_call ''load-shared'' (load_shared_msg typ data owners) s"

definition load_conn :: "u8 list \<Rightarrow> ike_conf \<Rightarrow> u8 list \<Rightarrow> u8 list \<times> (vici_error + unit)" where
  "load_conn name ike s = vici_call ''load-conn'' (load_conn_msg name ike) s"

definition unload_conn :: "u8 list \<Rightarrow> u8 list \<Rightarrow> u8 list \<times> (vici_error + unit)" where
  "unload_conn name s = vici_call ''unload-conn'' (unload_conn_msg name) s"


section \<open>Round trips\<close>

definition fits_name :: "u8 list \<Rightarrow> bool" where
  "fits_name n \<longleftrightarrow> length n < 256 \<and> from_utf8_lossy n = n"

definition fits_value :: "u8 list \<Rightarrow> bool" where
  "fits_value v \<longleftrightarrow> length v < 65536"

text \<open>The messages the encoding can carry: names are UTF-8 text of at most 255 bytes, values
  have at most 65535 bytes.\<close>

fun fits :: "vici_message \<Rightarrow> bool" where
  "fits [] = True"
| "fits (VKey k v # segs) \<longleftrightarrow> fits_name k \<and> fits_value v \<and> fits segs"
| "fits (VList k items # segs) \<longleftrightarrow> fits_name k \<and> list_all fits_value items \<and> fits segs"
| "fits (VSection k inner # segs) \<longleftrightarrow> fits_name k \<and> fits inner \<and> fits segs"

lemma read_name_push [simp]: "fits_name n \<Longrightarrow> read_name (push_name n @ rest) = Inr (n, rest)"
  by (simp add: read_name_def push_name_def fits_name_def unat_of_nat)

lemma read_u16_push [simp]: "fits_value v \<Longrightarrow> read_u16_bytes (push_value v @ rest) = Inr (v, rest)"
  by (simp add: read_u16_bytes_def push_value_def fits_value_def be16.dec_enc unat_of_nat Let_def)

lemma parse_items_encode:
  "list_all fits_value items \<Longrightarrow> length items < fuel \<Longrightarrow>
   parse_items fuel (concat (map (\<lambda>item. LIST_ITEM # push_value item) items) @ LIST_END # rest) = Inr (items, rest)"
proof (induction items arbitrary: fuel)
  case Nil
  then show ?case by (cases fuel) simp_all
next
  case (Cons i items)
  then show ?case by (cases fuel) simp_all
qed

lemma length_items_encode: "length items \<le> length (concat (map (\<lambda>item. LIST_ITEM # push_value item) items))"
  by (induction items) (simp_all add: push_value_def)

lemma parse_segments_encode:
  assumes "fits segs" and "length (encode_segments segs) < fuel"
    and "tail = [] \<and> rest = [] \<or> tail = SECTION_END # rest"
  shows "parse_segments fuel (encode_segments segs @ tail) = Inr (segs, rest)"
  using assms
proof (induction segs arbitrary: fuel tail rest rule: encode_segments.induct)
  case 1
  then show ?case by (cases fuel) auto
next
  case (2 k v segs)
  obtain f where f: "fuel = Suc f" using "2.prems"(2) by (cases fuel) auto
  have "parse_segments f (encode_segments segs @ tail) = Inr (segs, rest)"
    using "2.prems" f by (intro "2.IH") auto
  with "2.prems"(1) f show ?case by simp
next
  case (3 name items segs)
  let ?e = "concat (map (\<lambda>item. LIST_ITEM # push_value item) items)"
  obtain f where f: "fuel = Suc f" using "3.prems"(2) by (cases fuel) auto
  have "parse_items (Suc (length (?e @ LIST_END # encode_segments segs @ tail)))
      (?e @ LIST_END # encode_segments segs @ tail) = Inr (items, encode_segments segs @ tail)"
    using "3.prems"(1) length_items_encode [of items] by (intro parse_items_encode) auto
  moreover have "parse_segments f (encode_segments segs @ tail) = Inr (segs, rest)"
    using "3.prems" f by (intro "3.IH") auto
  ultimately show ?case using "3.prems"(1) f by (simp del: parse_items.simps)
next
  case (4 name inner segs)
  obtain f where f: "fuel = Suc f" using "4.prems"(2) by (cases fuel) auto
  have "parse_segments f (encode_segments inner @ SECTION_END # encode_segments segs @ tail) =
      Inr (inner, encode_segments segs @ tail)"
    using "4.prems"(1,2) f by (intro "4.IH"(1)) auto
  moreover have "parse_segments f (encode_segments segs @ tail) = Inr (segs, rest)"
    using "4.prems" f by (intro "4.IH"(2)) auto
  ultimately show ?case using "4.prems"(1) f by simp
qed

lemma read_name_total:
  "read_name bs \<noteq> Inl OutOfFuel"
  "read_name bs = Inr (n, rest) \<Longrightarrow> length rest < length bs"
  by (auto simp: read_name_def split: list.splits if_splits)

lemma read_u16_total:
  "read_u16_bytes bs \<noteq> Inl OutOfFuel"
  "read_u16_bytes bs = Inr (v, rest) \<Longrightarrow> length rest < length bs"
  by (auto simp: read_u16_bytes_def Let_def split: if_splits)

text \<open>A result that is not a fuel error and leaves no more input than it was given.\<close>

definition within :: "u8 list \<Rightarrow> vici_error + ('a \<times> u8 list) \<Rightarrow> bool" where
  "within bs r \<longleftrightarrow> (case r of Inl e \<Rightarrow> e \<noteq> OutOfFuel | Inr (_, rest) \<Rightarrow> length rest \<le> length bs)"

lemma within_rbind:
  assumes "within bs r" and "\<And>x rest. r = Inr (x, rest) \<Longrightarrow> within bs (f (x, rest))"
  shows "within bs (rbind r f)"
  using assms by (cases r) (auto simp: within_def)

lemma within_map:
  "within bs r \<Longrightarrow> within bs (rbind r (\<lambda>(x, rest). Inr (g x, rest)))"
  by (auto simp: within_def rbind_def split: sum.splits prod.splits)

lemma within_weaken: "within bs r \<Longrightarrow> length bs \<le> length cs \<Longrightarrow> within cs r"
  by (auto simp: within_def split: sum.splits)

lemma within_reads: "within bs (read_name bs)" "within bs (read_u16_bytes bs)"
  using read_name_total [of bs] read_u16_total [of bs]
  by (auto simp: within_def less_imp_le split: sum.splits)

lemma within_Cons: "within bs r \<Longrightarrow> within (b # bs) r"
  by (erule within_weaken) simp

lemma parse_items_total: "length bs < fuel \<Longrightarrow> within bs (parse_items fuel bs)"
proof (induction fuel arbitrary: bs)
  case (Suc fuel)
  have "within rest (rbind (read_u16_bytes rest) (\<lambda>(item, rest1).
      rbind (parse_items fuel rest1) (\<lambda>(items, rest2). Inr (item # items, rest2))))"
    if bs: "bs = b # rest" for b rest
  proof (rule within_rbind [OF within_reads(2)])
    fix item rest1
    assume "read_u16_bytes rest = Inr (item, rest1)"
    then have "length rest1 < length rest" by (rule read_u16_total)
    with Suc.IH [of rest1] Suc.prems bs have "within rest (parse_items fuel rest1)"
      by (auto intro: within_weaken)
    then show "within rest (case (item, rest1) of (item, rest1) \<Rightarrow>
        rbind (parse_items fuel rest1) (\<lambda>(items, rest2). Inr (item # items, rest2)))"
      using within_map [of rest _ "\<lambda>items. item # items"] by simp
  qed
  then show ?case
    by (auto intro: within_Cons simp: within_def [of "[]"] within_def [of "_ # _" "Inr _"] within_def [of _ "Inl _"] split: list.split)
qed simp

text \<open>The three kinds of segment read something and then the segments that follow.\<close>

lemma within_then:
  assumes "within bs r" and "\<And>x rest. r = Inr (x, rest) \<Longrightarrow> length rest \<le> length bs \<Longrightarrow> within rest (f (x, rest))"
  shows "within bs (rbind r f)"
proof (rule within_rbind [OF assms(1)])
  fix x rest assume r: "r = Inr (x, rest)"
  then have "length rest \<le> length bs" using assms(1) by (simp add: within_def)
  with assms(2) [OF r] show "within bs (f (x, rest))" by (blast intro: within_weaken)
qed

lemma parse_segments_total: "length bs < fuel \<Longrightarrow> within bs (parse_segments fuel bs)"
proof (induction fuel arbitrary: bs)
  case (Suc fuel)
  have more: "within rest (rbind (parse_segments fuel rest) (\<lambda>(out, r). Inr (f out, r)))"
    if "length rest < fuel" for rest and f :: "vici_message \<Rightarrow> vici_message"
    using within_map [OF Suc.IH [OF that]] .
  show ?case
  proof (cases bs)
    case Nil
    then show ?thesis by (simp add: within_def)
  next
    case (Cons b rest)
    then have short: "length rest < fuel" using Suc.prems by simp
    have key: "within rest (rbind (read_name rest) (\<lambda>(key, rest1).
            rbind (read_u16_bytes rest1) (\<lambda>(v, rest2).
            rbind (parse_segments fuel rest2) (\<lambda>(out, rest3). Inr (VKey key v # out, rest3)))))"
      using short by (auto intro!: within_then [OF within_reads(1)] within_then [OF within_reads(2)] more)
    have list: "within rest (rbind (read_name rest) (\<lambda>(name, rest1).
            rbind (parse_items (Suc (length rest1)) rest1) (\<lambda>(items, rest2).
            rbind (parse_segments fuel rest2) (\<lambda>(out, rest3). Inr (VList name items # out, rest3)))))"
      using short by (auto intro!: within_then [OF within_reads(1)] within_then [OF parse_items_total] more
        simp del: parse_items.simps)
    have sect: "within rest (rbind (read_name rest) (\<lambda>(name, rest1).
            rbind (parse_segments fuel rest1) (\<lambda>(inner, rest2).
            rbind (parse_segments fuel rest2) (\<lambda>(out, rest3). Inr (VSection name inner # out, rest3)))))"
      using short by (auto intro!: within_then [OF within_reads(1)] within_then [OF Suc.IH] more)
    show ?thesis
    proof (cases "b \<in> {SECTION_START, KEY_VALUE, LIST_START}")
      case True
      with within_Cons [OF key] within_Cons [OF list] within_Cons [OF sect] Cons show ?thesis
        by (auto simp: segment_types_distinct [symmetric] simp del: parse_items.simps)
    next
      case False
      with Cons show ?thesis by (simp add: within_def)
    qed
  qed
qed simp


section \<open>Packets on the stream\<close>

lemma read_write_packet:
  assumes "length p + 1 < 2 ^ 32"
  shows "read_packet (write_packet t p @ rest) =
    (if length p + 1 \<le> MAX_PACKET_LEN then Inr ((t, p), rest) else Inl (PacketTooLong (length p + 1)))"
proof -
  have "unat (of_nat (length p + 1) :: u32) = length p + 1"
    using assms by (simp add: unat_of_nat del: of_nat_add of_nat_Suc)
  then show ?thesis
    by (simp add: read_packet_def write_packet_def be32.dec_enc Let_def del: of_nat_add of_nat_Suc)
qed

text \<open>Packets other than the two kinds of answer.\<close>

definition stray :: "u8 \<times> u8 list \<Rightarrow> bool" where
  "stray p \<longleftrightarrow> fst p \<noteq> CMD_RESPONSE \<and> fst p \<noteq> CMD_UNKNOWN \<and> length (snd p) < MAX_PACKET_LEN"

lemma await_response_skips:
  "list_all stray ps \<Longrightarrow>
     await_response name (concat (map (\<lambda>(t, b). write_packet t b) ps) @ s) = await_response name s"
proof (induction ps)
  case (Cons p ps)
  obtain t b where p: "p = (t, b)" by force
  have "read_packet (write_packet t b @ r) = Inr ((t, b), r)" for r
    using Cons.prems p by (subst read_write_packet) (simp_all add: stray_def MAX_PACKET_LEN_def)
  with Cons p show ?case
    by (subst await_response.simps) (simp add: stray_def)
qed simp

lemma await_response_found:
  assumes "fits resp" and "length (encode_segments resp) < MAX_PACKET_LEN"
  shows "await_response name (write_packet CMD_RESPONSE (encode_segments resp) @ later) = Inr (resp, later)"
proof -
  have "vici_parse (encode_segments resp) = Inr resp"
    using parse_segments_encode [OF assms(1), of "Suc (length (encode_segments resp))" "[]" "[]"]
    by (simp add: vici_parse_def del: parse_segments.simps)
  moreover have "read_packet (write_packet CMD_RESPONSE (encode_segments resp) @ later) =
      Inr ((CMD_RESPONSE, encode_segments resp), later)"
    using assms(2) by (subst read_write_packet) (simp_all add: MAX_PACKET_LEN_def)
  ultimately show ?thesis by (subst await_response.simps) simp
qed

section \<open>Properties\<close>

text \<open>C30. The VICI encoding is unambiguous: every message whose names are UTF-8 of at most 255
  bytes and whose values have at most 65535 bytes, nested sections and lists included, is
  decoded from its encoding.\<close>

theorem vici_message_roundtrip:
  assumes "fits msg"
  shows "vici_parse (encode_segments msg) = Inr msg"
  using parse_segments_encode [OF assms, of "Suc (length (encode_segments msg))" "[]" "[]"]
  by (simp add: vici_parse_def del: parse_segments.simps)

theorem vici_message_roundtrip_witness:
  "vici_parse (encode_segments [VSection [97] [VKey [98] [1, 2], VList [99] [[], [3]]], VKey [] []]) =
     Inr [VSection [97] [VKey [98] [1, 2], VList [99] [[], [3]]], VKey [] []]"
  by (rule vici_message_roundtrip)
    (simp add: fits_name_def fits_value_def utf8_tail_def)

text \<open>The parser is total: on every byte sequence it returns a message or one of its error
  values; the fuel never runs out.\<close>

theorem vici_parse_total: "vici_parse bs \<noteq> Inl OutOfFuel"
  using parse_segments_total [of bs "Suc (length bs)"]
  by (auto simp: vici_parse_def within_def rbind_def simp del: parse_segments.simps
    split: sum.splits prod.splits if_splits)

text \<open>Packet framing: a packet that was written is read back with the rest of the stream
  untouched when it is within the 64 KiB limit, and refused before its body is read when it is
  longer.\<close>

theorem vici_packet_roundtrip:
  assumes "length p + 1 < 2 ^ 32"
  shows "read_packet (write_packet t p @ rest) =
    (if length p + 1 \<le> 65536 then Inr ((t, p), rest) else Inl (PacketTooLong (length p + 1)))"
  using read_write_packet [OF assms] by (simp add: MAX_PACKET_LEN_def)

theorem vici_packet_roundtrip_witness:
  "read_packet (write_packet 1 [7, 8] @ [9]) = Inr ((1, [7, 8]), [9])"
  using vici_packet_roundtrip [of "[7, 8]" 1 "[9]"] by simp

text \<open>A load-conn exchange: charon receives one request packet that carries the name
  load-conn and a message that decodes to the connection, its two psk sections and its child;
  and whatever events charon sends before its answer, the call succeeds exactly when the answer
  says so.\<close>

theorem load_conn_exchange:
  fixes later :: "u8 list"
  assumes "fits (load_conn_msg name ike)" and "length (encode_segments (load_conn_msg name ike)) < 65000"
    and "fits resp" and "length (encode_segments resp) < MAX_PACKET_LEN" and "list_all stray events"
  defines "run \<equiv> load_conn name ike (concat (map (\<lambda>(t, b). write_packet t b) events) @
      write_packet CMD_RESPONSE (encode_segments resp) @ later)"
  shows "(\<exists>payload body. read_packet (fst run) = Inr ((CMD_REQUEST, payload), []) \<and>
      read_name payload = Inr (bytes_of ''load-conn'', body) \<and> vici_parse body = Inr (load_conn_msg name ike)) \<and>
    snd run = check_success resp"
proof -
  let ?msg = "encode_segments (load_conn_msg name ike)"
  let ?n = "bytes_of ''load-conn''"
  have n: "length ?n = 9" "fits_name ?n" by code_simp+
  have "read_packet (write_packet CMD_REQUEST (cmd_request_payload ?n ?msg) @ []) =
      Inr ((CMD_REQUEST, cmd_request_payload ?n ?msg), [])"
    using assms(2) n(1) by (subst read_write_packet) (simp_all add: MAX_PACKET_LEN_def cmd_request_payload_def)
  moreover have "read_name (cmd_request_payload ?n ?msg) = Inr (?n, ?msg)"
    using read_name_push [OF n(2), of ?msg] by (simp add: cmd_request_payload_def push_name_def)
  moreover have "vici_parse ?msg = Inr (load_conn_msg name ike)"
    using parse_segments_encode [OF assms(1), of "Suc (length ?msg)" "[]" "[]"]
    by (simp add: vici_parse_def del: parse_segments.simps)
  moreover have "await_response ?n (concat (map (\<lambda>(t, b). write_packet t b) events) @
      write_packet CMD_RESPONSE (encode_segments resp) @ later) = Inr (resp, later)"
    using await_response_skips [OF assms(5)] await_response_found [OF assms(3,4)] by simp
  ultimately show ?thesis
    by (simp add: run_def load_conn_def vici_call_def vici_request_def)
qed


definition sample_ike :: ike_conf where
  "sample_ike =
     \<lparr>ic_local_addrs = [bytes_of ''10.0.0.1''], ic_remote_addrs = [bytes_of ''10.0.0.2''],
      ic_proposals = [bytes_of ''aes256-sha256''], ic_version = bytes_of ''2'',
      ic_keying_tries = bytes_of ''0'', ic_encap = bytes_of ''no'', ic_child_name = bytes_of ''c'',
      ic_child = \<lparr>cc_local_ts = [], cc_remote_ts = [], cc_esp_proposals = [],
        cc_start_action = [], cc_close_action = [], cc_dpd_action = [], cc_mode = [],
        cc_reqid = [], cc_rekey_time = [], cc_install_policy = []\<rparr>\<rparr>"

theorem load_conn_exchange_witness:
  "snd (load_conn (bytes_of ''n'') sample_ike (write_packet 7 [1, 2] @
     write_packet CMD_RESPONSE (encode_segments [VKey (bytes_of ''success'') (bytes_of ''yes'')]))) = Inr ()"
proof -
  have fit: "fits (load_conn_msg (bytes_of ''n'') sample_ike)" by code_simp
  have len: "length (encode_segments (load_conn_msg (bytes_of ''n'') sample_ike)) < 65000" by code_simp
  have resp: "fits [VKey (bytes_of ''success'') (bytes_of ''yes'')]" by code_simp
  have rlen: "length (encode_segments [VKey (bytes_of ''success'') (bytes_of ''yes'')]) < MAX_PACKET_LEN"
    by code_simp
  have ev: "list_all stray [(7, [1, 2])]" by code_simp
  have ok: "check_success [VKey (bytes_of ''success'') (bytes_of ''yes'')] = Inr ()" by code_simp
  from load_conn_exchange [OF fit len resp rlen ev, of "[]"] ok show ?thesis by simp
qed

end
