(* ===== verification/Kube.thy ===== *)
theory Kube
  imports Lease
begin

text \<open>
  \<open>subnet/kube/annotations.rs\<close> and \<open>subnet/kube/events.rs\<close>: the annotation keys flannel uses on
  nodes, the lease a node stands for, and the handlers that turn node changes into lease events.
  The reader of raw JSON (\<open>RawValue::from_string\<close>) is the parameter \<open>raw\<close>: the text kept for a
  valid document, nothing for an invalid one. The regular expression of the prefix check is
  written out as the language it denotes.
\<close>

section \<open>Annotation keys\<close>

record annotations =
  an_subnet_kube_managed :: string
  an_backend_data :: string
  an_backend_v6_data :: string
  an_backend_type :: string
  an_backend_public_ip :: string
  an_backend_public_ipv6 :: string
  an_backend_node_public_ip :: string
  an_backend_node_public_ipv6 :: string
  an_backend_public_ip_overwrite :: string
  an_backend_public_ipv6_overwrite :: string

datatype kube_error =
    TooManySlashes
  | BadPrefix
  | BadIp4 ip4_parse_error
  | BadIp6 ip6_parse_error
  | TooManyCidrs string
  | MissingV4Cidr
  | MissingV6Cidr
  | NotContainedV4 ip4net ip4net string
  | NotContainedV6 ip6net ip6net string
  | WaitTimeout string
  | WaitCancelled string
  | PatchTimeout string
  | PatchCancelled string

text \<open>The class \<open>[a-z0-9_-]\<close>.\<close>

definition label_char :: "char \<Rightarrow> bool" where
  "label_char c \<longleftrightarrow>
     (let n = (of_char c :: nat) in
      97 \<le> n \<and> n \<le> 122 \<or> 48 \<le> n \<and> n \<le> 57 \<or> c = CHR ''_'' \<or> c = CHR ''-'')"

definition is_label :: "string \<Rightarrow> bool" where
  "is_label s \<longleftrightarrow> s \<noteq> [] \<and> list_all label_char s"

text \<open>The strings the whole expression matches: at least two labels joined by dots, a slash, and
  optionally a label that ends in a dash.\<close>

definition prefix_language :: "string \<Rightarrow> bool" where
  "prefix_language s \<longleftrightarrow>
     (case split_once (CHR ''/'') s of
        None \<Rightarrow> False
      | Some (fqdn, rest) \<Rightarrow>
          (let ls = split_on (CHR ''.'') fqdn in 2 \<le> length ls \<and> list_all is_label ls) \<and>
          (rest = [] \<or> 2 \<le> length rest \<and> list_all label_char rest \<and> last rest = CHR ''-''))"

fun tails :: "string \<Rightarrow> string list" where
  "tails [] = [[]]"
| "tails (c # cs) = (c # cs) # tails cs"

text \<open>The search is anchored at the end only.\<close>

definition prefix_regex_is_match :: "string \<Rightarrow> bool" where
  "prefix_regex_is_match s \<longleftrightarrow> list_ex prefix_language (tails s)"

definition normalize_prefix :: "string \<Rightarrow> string" where
  "normalize_prefix prefix =
     (let p = (if count_list prefix (CHR ''/'') = 0 then prefix @ ''/'' else prefix)
      in if p \<noteq> [] \<and> (last p = CHR ''/'' \<or> last p = CHR ''-'') then p else p @ ''-'')"

definition new_annotations :: "string \<Rightarrow> kube_error + annotations" where
  "new_annotations prefix =
     (if count_list prefix (CHR ''/'') > 1 then Inl TooManySlashes
      else
        let p = normalize_prefix prefix in
        if \<not> prefix_regex_is_match p then Inl BadPrefix
        else Inr
          \<lparr>an_subnet_kube_managed = p @ ''kube-subnet-manager'',
           an_backend_data = p @ ''backend-data'',
           an_backend_v6_data = p @ ''backend-v6-data'',
           an_backend_type = p @ ''backend-type'',
           an_backend_public_ip = p @ ''public-ip'',
           an_backend_public_ipv6 = p @ ''public-ipv6'',
           an_backend_node_public_ip = p @ ''node-public-ip'',
           an_backend_node_public_ipv6 = p @ ''node-public-ipv6'',
           an_backend_public_ip_overwrite = p @ ''public-ip-overwrite'',
           an_backend_public_ipv6_overwrite = p @ ''public-ipv6-overwrite''\<rparr>)"

text \<open>A missing key reads as the empty string.\<close>

definition annotation :: "(string \<rightharpoonup> string) \<Rightarrow> string \<Rightarrow> string" where
  "annotation m key = (case m key of Some v \<Rightarrow> v | None \<Rightarrow> [])"

section \<open>Nodes\<close>

record node =
  nd_name :: string
  nd_uid :: string
  nd_resource_version :: "string option"
  nd_annotations :: "string \<rightharpoonup> string"
  nd_pod_cidr :: "string option"
  nd_pod_cidrs :: "string list"

definition has_colon :: "string \<Rightarrow> bool" where
  "has_colon s \<longleftrightarrow> CHR '':'' \<in> set s"

definition spec_pod_cidr :: "node \<Rightarrow> string" where
  "spec_pod_cidr n = (case nd_pod_cidr n of Some s \<Rightarrow> s | None \<Rightarrow> [])"

definition lease_cidr4 :: "node \<Rightarrow> kube_error + ip4net option" where
  "lease_cidr4 n =
     (let cidrs = nd_pod_cidrs n in
      if length cidrs = 0 then
        (let s = spec_pod_cidr n in
         if has_colon s then Inr None else map_sum BadIp4 Some (n4_from_str s))
      else if length cidrs \<le> 2 then
        (case find (\<lambda>c. \<not> has_colon c) cidrs of
           None \<Rightarrow> Inr None
         | Some c \<Rightarrow> map_sum BadIp4 Some (n4_from_str c))
      else Inl (TooManyCidrs (nd_name n)))"

definition lease_cidr6 :: "node \<Rightarrow> kube_error + ip6net option" where
  "lease_cidr6 n =
     (let cidrs = nd_pod_cidrs n in
      if length cidrs = 0 then
        (let s = spec_pod_cidr n in
         if has_colon s then map_sum BadIp6 Some (n6_from_str s) else Inr None)
      else if length cidrs \<le> 2 then
        (case find has_colon cidrs of
           None \<Rightarrow> Inr None
         | Some c \<Rightarrow> map_sum BadIp6 Some (n6_from_str c))
      else Inl (TooManyCidrs (nd_name n)))"

text \<open>The CIDR depends on the name and the CIDR fields alone.\<close>

lemma lease_cidr4_same:
  "nd_name n = nd_name m \<Longrightarrow> nd_pod_cidr n = nd_pod_cidr m \<Longrightarrow> nd_pod_cidrs n = nd_pod_cidrs m \<Longrightarrow>
     lease_cidr4 n = lease_cidr4 m"
  by (simp add: lease_cidr4_def spec_pod_cidr_def Let_def)

definition raw_from_annotation :: "(string \<Rightarrow> string option) \<Rightarrow> (string \<rightharpoonup> string) \<Rightarrow> string \<Rightarrow> string option" where
  "raw_from_annotation raw m key = Option.bind (m key) raw"

definition lease_attrs_default :: lease_attrs where
  "lease_attrs_default =
     \<lparr>public_ip = IP4 0, public_ipv6 = None, backend_type = [], backend_data = None,
      backend_v6_data = None\<rparr>"

definition blank_lease :: lease where
  "blank_lease =
     \<lparr>enable_ipv4 = False, enable_ipv6 = False, subnet = ip4net_default, ipv6_subnet = ip6net_default,
      attrs = lease_attrs_default, expiration = 0, asof = 0\<rparr>"

record event_env =
  ev_annotations :: annotations
  ev_enable_ipv4 :: bool
  ev_enable_ipv6 :: bool
  ev_raw :: "string \<Rightarrow> string option"

text \<open>The two blocks of \<open>node_to_lease\<close>.\<close>

definition fill_v4 :: "event_env \<Rightarrow> node \<Rightarrow> lease \<Rightarrow> kube_error + lease" where
  "fill_v4 env n l =
     (let a = ev_annotations env; ann = nd_annotations n in
      rbind (map_sum BadIp4 id (ip4_from_str (annotation ann (an_backend_public_ip a)))) (\<lambda>ip.
      rbind (lease_cidr4 n) (\<lambda>cidr.
      rbind (ok_or MissingV4Cidr cidr) (\<lambda>c.
      Inr (l\<lparr>attrs := (attrs l)\<lparr>public_ip := ip,
               backend_data := raw_from_annotation (ev_raw env) ann (an_backend_data a)\<rparr>,
             subnet := c, enable_ipv4 := True\<rparr>)))))"

definition fill_v6 :: "event_env \<Rightarrow> node \<Rightarrow> lease \<Rightarrow> kube_error + lease" where
  "fill_v6 env n l =
     (let a = ev_annotations env; ann = nd_annotations n in
      rbind (map_sum BadIp6 id (ip6_from_str (annotation ann (an_backend_public_ipv6 a)))) (\<lambda>ip.
      rbind (lease_cidr6 n) (\<lambda>cidr.
      rbind (ok_or MissingV6Cidr cidr) (\<lambda>c.
      Inr (l\<lparr>attrs := (attrs l)\<lparr>public_ipv6 := Some ip,
               backend_v6_data := raw_from_annotation (ev_raw env) ann (an_backend_v6_data a)\<rparr>,
             ipv6_subnet := c, enable_ipv6 := True\<rparr>)))))"

definition node_to_lease :: "event_env \<Rightarrow> node \<Rightarrow> kube_error + lease" where
  "node_to_lease env n =
     rbind (if ev_enable_ipv4 env then fill_v4 env n blank_lease else Inr blank_lease) (\<lambda>l.
     rbind (if ev_enable_ipv6 env then fill_v6 env n l else Inr l) (\<lambda>l.
     Inr (l\<lparr>attrs := (attrs l)\<lparr>backend_type :=
       annotation (nd_annotations n) (an_backend_type (ev_annotations env))\<rparr>\<rparr>)))"

section \<open>Handlers\<close>

definition managed :: "event_env \<Rightarrow> node \<Rightarrow> bool" where
  "managed env n \<longleftrightarrow> annotation (nd_annotations n) (an_subnet_kube_managed (ev_annotations env)) = ''true''"

text \<open>The events a handler hands to \<open>enqueue_lease_event\<close>: none or one.\<close>

definition handle_add_lease_event :: "event_env \<Rightarrow> event_type \<Rightarrow> node \<Rightarrow> event list" where
  "handle_add_lease_event env et n =
     (if \<not> managed env n then []
      else case node_to_lease env n of
          Inl _ \<Rightarrow> []
        | Inr l \<Rightarrow> [\<lparr>ev_type = et, ev_lease = l\<rparr>])"

definition v4_unchanged :: "event_env \<Rightarrow> node \<Rightarrow> node \<Rightarrow> bool" where
  "v4_unchanged env old new \<longleftrightarrow>
     (let a = ev_annotations env; o' = nd_annotations old; n = nd_annotations new in
      annotation o' (an_backend_data a) = annotation n (an_backend_data a) \<and>
      annotation o' (an_backend_type a) = annotation n (an_backend_type a) \<and>
      annotation o' (an_backend_public_ip a) = annotation n (an_backend_public_ip a))"

definition v6_unchanged :: "event_env \<Rightarrow> node \<Rightarrow> node \<Rightarrow> bool" where
  "v6_unchanged env old new \<longleftrightarrow>
     (let a = ev_annotations env; o' = nd_annotations old; n = nd_annotations new in
      annotation o' (an_backend_v6_data a) = annotation n (an_backend_v6_data a) \<and>
      annotation o' (an_backend_type a) = annotation n (an_backend_type a) \<and>
      annotation o' (an_backend_public_ipv6 a) = annotation n (an_backend_public_ipv6 a))"

definition handle_update_lease_event :: "event_env \<Rightarrow> node \<Rightarrow> node \<Rightarrow> event list" where
  "handle_update_lease_event env old new =
     (if \<not> managed env new then []
      else
        let changed = True;
            changed = (if ev_enable_ipv4 env \<and> v4_unchanged env old new then False else changed);
            changed = (if ev_enable_ipv6 env \<and> v6_unchanged env old new then False else changed)
        in if \<not> changed then []
           else case node_to_lease env new of
               Inl _ \<Rightarrow> []
             | Inr l \<Rightarrow> [\<lparr>ev_type = Added, ev_lease = l\<rparr>])"

end
