(* ===== verification/Informer.thy ===== *)
theory Informer
  imports Kube "HOL-Library.Char_ord" "HOL-Library.List_Lexorder"
begin

text \<open>
  \<open>subnet/kube/informer.rs\<close>: the node store, the relist reconciliation, the dispatch of watch
  frames and the LIST/WATCH loop. The API server is the source of the inputs of the loop
  (what LIST and the watch stream return); the iteration order of the \<open>HashMap\<close> is a parameter.
  The output is the sequence of lease events handed to \<open>enqueue_lease_event\<close>.
\<close>

section \<open>The node store\<close>

type_synonym node_store = "string \<rightharpoonup> node"

definition insert_node :: "node_store \<Rightarrow> node \<Rightarrow> node_store" where
  "insert_node s n = s(nd_name n \<mapsto> n)"

lemma insert_node_apply: "insert_node s n x = (if x = nd_name n then Some n else s x)"
  by (simp add: insert_node_def)

definition store_put :: "node_store \<Rightarrow> node \<Rightarrow> node_store \<times> node option" where
  "store_put s n = (insert_node s n, s (nd_name n))"

definition store_remove :: "node_store \<Rightarrow> string \<Rightarrow> node_store \<times> node option" where
  "store_remove s name = (s(name := None), s name)"

definition replace_all :: "node_store \<Rightarrow> node list \<Rightarrow> node_store \<times> node_store" where
  "replace_all s items = (foldl insert_node Map.empty items, s)"

section \<open>Handlers of changes\<close>

definition relist_item :: "event_env \<Rightarrow> node_store \<Rightarrow> node \<Rightarrow> event list" where
  "relist_item env old n =
     (case old (nd_name n) of
        None \<Rightarrow> handle_add_lease_event env Added n
      | Some prev \<Rightarrow> handle_update_lease_event env prev n)"

definition relist_gone :: "event_env \<Rightarrow> node_store \<Rightarrow> node list \<Rightarrow> string \<Rightarrow> event list" where
  "relist_gone env old items name =
     (if name \<in> nd_name ` set items then []
      else case old name of
          None \<Rightarrow> []
        | Some n \<Rightarrow> handle_add_lease_event env Removed n)"

definition reconcile_relist ::
  "event_env \<Rightarrow> (node_store \<Rightarrow> string list) \<Rightarrow> node_store \<Rightarrow> node list \<Rightarrow> event list" where
  "reconcile_relist env iter old items =
     concat (map (relist_item env old) items) @ concat (map (relist_gone env old items) (iter old))"

datatype watch_event_type = WAdded | WModified | WDeleted | WBookmark | WError

definition dispatch :: "event_env \<Rightarrow> node_store \<Rightarrow> watch_event_type \<Rightarrow> node \<Rightarrow> node_store \<times> event list" where
  "dispatch env s ty n =
     (case ty of
        WAdded \<Rightarrow>
          (let (s', old) = store_put s n in
           (s', case old of None \<Rightarrow> handle_add_lease_event env Added n
                          | Some o' \<Rightarrow> handle_update_lease_event env o' n))
      | WModified \<Rightarrow>
          (let (s', old) = store_put s n in
           (s', handle_update_lease_event env (case old of None \<Rightarrow> n | Some o' \<Rightarrow> o') n))
      | WBookmark \<Rightarrow> (s, [])
      | WDeleted \<Rightarrow> (fst (store_remove s (nd_name n)), handle_add_lease_event env Removed n)
      | WError \<Rightarrow> (s, []))"

definition resync :: "event_env \<Rightarrow> (node_store \<Rightarrow> string list) \<Rightarrow> node_store \<Rightarrow> event list" where
  "resync env iter s =
     concat (map (\<lambda>name. case s name of None \<Rightarrow> [] | Some n \<Rightarrow> handle_update_lease_event env n n) (iter s))"

section \<open>The loop\<close>

datatype inf_phase = Listing | Watching | ListRetry | RelistWait | InfStopped

record informer =
  inf_phase :: inf_phase
  inf_store :: node_store
  inf_synced :: bool
  inf_rv :: "string option"
  inf_out :: "event list"

datatype inf_input =
    InfCancel
  | ListOk "node list" "string option"
  | ListErr
  | OpenErr
  | Frame watch_event_type node
  | FrameGone
  | FrameErr
  | StreamEnd
  | ResyncTick
  | SleepOver

definition informer_start :: informer where
  "informer_start =
     \<lparr>inf_phase = Listing, inf_store = Map.empty, inf_synced = False, inf_rv = None, inf_out = []\<rparr>"

fun informer_step :: "event_env \<Rightarrow> (node_store \<Rightarrow> string list) \<Rightarrow> informer \<Rightarrow> inf_input \<Rightarrow> informer option" where
  "informer_step env iter st i =
     (case inf_phase st of
        Listing \<Rightarrow>
          (case i of
             InfCancel \<Rightarrow> Some (st\<lparr>inf_phase := InfStopped\<rparr>)
           | ListErr \<Rightarrow> Some (st\<lparr>inf_phase := ListRetry\<rparr>)
           | ListOk items rv \<Rightarrow>
               (let (s', old) = replace_all (inf_store st) items in
                Some (st\<lparr>inf_store := s', inf_synced := True, inf_rv := rv,
                  inf_out := inf_out st @ reconcile_relist env iter old items, inf_phase := Watching\<rparr>))
           | _ \<Rightarrow> None)
      | ListRetry \<Rightarrow>
          (case i of
             InfCancel \<Rightarrow> Some (st\<lparr>inf_phase := InfStopped\<rparr>)
           | SleepOver \<Rightarrow> Some (st\<lparr>inf_phase := Listing\<rparr>)
           | _ \<Rightarrow> None)
      | Watching \<Rightarrow>
          (case i of
             InfCancel \<Rightarrow> Some (st\<lparr>inf_phase := InfStopped\<rparr>)
           | Frame ty n \<Rightarrow>
               (let (s', evs) = dispatch env (inf_store st) ty n in
                Some (st\<lparr>inf_store := s', inf_out := inf_out st @ evs,
                  inf_rv := (case nd_resource_version n of None \<Rightarrow> inf_rv st | Some v \<Rightarrow> Some v)\<rparr>))
           | ResyncTick \<Rightarrow> Some (st\<lparr>inf_out := inf_out st @ resync env iter (inf_store st)\<rparr>)
           | OpenErr \<Rightarrow> Some (st\<lparr>inf_phase := RelistWait\<rparr>)
           | FrameGone \<Rightarrow> Some (st\<lparr>inf_phase := RelistWait\<rparr>)
           | FrameErr \<Rightarrow> Some (st\<lparr>inf_phase := RelistWait\<rparr>)
           | StreamEnd \<Rightarrow> Some (st\<lparr>inf_phase := RelistWait\<rparr>)
           | _ \<Rightarrow> None)
      | RelistWait \<Rightarrow>
          (case i of
             InfCancel \<Rightarrow> Some (st\<lparr>inf_phase := InfStopped\<rparr>)
           | SleepOver \<Rightarrow> Some (st\<lparr>inf_phase := Listing\<rparr>)
           | _ \<Rightarrow> None)
      | InfStopped \<Rightarrow> None)"

section \<open>What the store says about leases\<close>

definition node_lease :: "event_env \<Rightarrow> node \<Rightarrow> lease option" where
  "node_lease env n =
     (if managed env n then (case node_to_lease env n of Inr l \<Rightarrow> Some l | Inl _ \<Rightarrow> None) else None)"

lemma handle_add_node_lease:
  "handle_add_lease_event env et n =
     (case node_lease env n of None \<Rightarrow> [] | Some l \<Rightarrow> [\<lparr>ev_type = et, ev_lease = l\<rparr>])"
  by (simp add: handle_add_lease_event_def node_lease_def split: sum.splits)

text \<open>The IPv4-only environments, and the id of a lease in them.\<close>

definition v4_env :: "event_env \<Rightarrow> bool" where
  "v4_env env \<longleftrightarrow> ev_enable_ipv4 env \<and> \<not> ev_enable_ipv6 env \<and> ev_raw env [] = None"

abbreviation id4 :: "lease \<Rightarrow> lease_id" where
  "id4 \<equiv> lease_key True False"

abbreviation learn :: "(lease_id \<rightharpoonup> lease) \<Rightarrow> event list \<Rightarrow> (lease_id \<rightharpoonup> lease)" where
  "learn \<equiv> foldl (apply_event True False)"

text \<open>A table of leases that is exactly what the managed nodes of a store stand for.\<close>

definition table_of :: "event_env \<Rightarrow> node_store \<Rightarrow> (lease_id \<rightharpoonup> lease) \<Rightarrow> bool" where
  "table_of env s T \<longleftrightarrow>
     (\<forall>name n. s name = Some n \<longrightarrow> nd_name n = name) \<and>
     (\<forall>k l. T k = Some l \<longleftrightarrow> (\<exists>name n. s name = Some n \<and> node_lease env n = Some l \<and> id4 l = k))"

text \<open>A node that changes the way nodes do: its pod CIDRs stay, it does not stop being a managed
  node with a lease, and it does not become managed without a change of its lease annotations.\<close>

definition steady :: "event_env \<Rightarrow> node \<Rightarrow> node \<Rightarrow> bool" where
  "steady env prev n \<longleftrightarrow>
     nd_name n = nd_name prev \<and> nd_pod_cidr n = nd_pod_cidr prev \<and> nd_pod_cidrs n = nd_pod_cidrs prev \<and>
     (node_lease env prev \<noteq> None \<longrightarrow> node_lease env n \<noteq> None) \<and>
     (managed env n \<and> \<not> managed env prev \<longrightarrow> \<not> v4_unchanged env prev n)"

text \<open>No other node of the store has the subnet.\<close>

definition fresh :: "event_env \<Rightarrow> node_store \<Rightarrow> node \<Rightarrow> bool" where
  "fresh env s n \<longleftrightarrow>
     (\<forall>name m l l'. s name = Some m \<longrightarrow> name \<noteq> nd_name n \<longrightarrow> node_lease env m = Some l \<longrightarrow>
        node_lease env n = Some l' \<longrightarrow> id4 l \<noteq> id4 l')"


lemma raw_from_annotation_text: "raw [] = None \<Longrightarrow> raw_from_annotation raw m k = raw (annotation m k)"
  by (simp add: raw_from_annotation_def annotation_def split: option.split)

lemma fill_v4_cases:
  assumes "fill_v4 env n l0 = Inr l"
  obtains ip c where "ip4_from_str (annotation (nd_annotations n) (an_backend_public_ip (ev_annotations env))) = Inr ip"
    and "lease_cidr4 n = Inr (Some c)"
    and "l = l0\<lparr>attrs := (attrs l0)\<lparr>public_ip := ip,
        backend_data := raw_from_annotation (ev_raw env) (nd_annotations n) (an_backend_data (ev_annotations env))\<rparr>,
      subnet := c, enable_ipv4 := True\<rparr>"
  using assms unfolding fill_v4_def Let_def
  by (cases "ip4_from_str (annotation (nd_annotations n) (an_backend_public_ip (ev_annotations env)))";
      cases "lease_cidr4 n"; cases "projr (lease_cidr4 n)") (auto simp: ok_or_def)

lemma node_to_lease_v4:
  assumes "v4_env env" and "node_to_lease env n = Inr l"
  shows "lease_cidr4 n = Inr (Some (subnet l))"
proof -
  obtain l1 where "fill_v4 env n blank_lease = Inr l1" "subnet l = subnet l1"
    using assms by (cases "fill_v4 env n blank_lease") (auto simp: node_to_lease_def v4_env_def)
  then show ?thesis by (auto elim: fill_v4_cases)
qed

lemma node_lease_id:
  assumes "v4_env env" and "steady env prev n" and "node_lease env prev = Some l" and "node_lease env n = Some l'"
  shows "id4 l = id4 l'"
proof -
  have "lease_cidr4 n = lease_cidr4 prev" using assms(2) by (intro lease_cidr4_same) (simp_all add: steady_def)
  moreover have "lease_cidr4 prev = Inr (Some (subnet l))" "lease_cidr4 n = Inr (Some (subnet l'))"
    using assms(3,4) node_to_lease_v4 [OF assms(1)] by (auto simp: node_lease_def split: if_splits sum.splits)
  ultimately show ?thesis by (simp add: lease_key_def)
qed

lemma node_to_lease_unchanged:
  assumes "v4_env env" and "steady env prev n" and "v4_unchanged env prev n"
  shows "node_to_lease env n = node_to_lease env prev"
proof -
  have "lease_cidr4 n = lease_cidr4 prev" using assms(2) by (intro lease_cidr4_same) (simp_all add: steady_def)
  with assms(1,3) show ?thesis
    by (simp add: node_to_lease_def fill_v4_def v4_env_def v4_unchanged_def raw_from_annotation_text Let_def)
qed

text \<open>What a table learns from a node that is added or changed: its lease.\<close>

definition learned :: "event_env \<Rightarrow> (lease_id \<rightharpoonup> lease) \<Rightarrow> node \<Rightarrow> (lease_id \<rightharpoonup> lease)" where
  "learned env T n = (case node_lease env n of None \<Rightarrow> T | Some l \<Rightarrow> T(id4 l \<mapsto> l))"

lemma learn_added: "learn T (handle_add_lease_event env Added n) = learned env T n"
  by (simp add: handle_add_node_lease learned_def apply_event_def split: option.split)

lemma learn_update:
  assumes env: "v4_env env" and T: "table_of env s T" and prev: "s (nd_name n) = Some prev"
    and st: "steady env prev n"
  shows "learn T (handle_update_lease_event env prev n) = learned env T n"
proof (cases "managed env n \<and> v4_unchanged env prev n")
  case True
  with st have "managed env prev" by (auto simp: steady_def)
  with True have same: "node_lease env n = node_lease env prev"
    using node_to_lease_unchanged [OF env st] by (simp add: node_lease_def)
  have "T (id4 l) = Some l" if "node_lease env prev = Some l" for l
    using T prev that unfolding table_of_def by blast
  with True env same show ?thesis
    by (auto simp: handle_update_lease_event_def v4_env_def learned_def fun_upd_idem split: option.split)
next
  case False
  with env show ?thesis
    by (auto simp: handle_update_lease_event_def v4_env_def learned_def node_lease_def apply_event_def
      split: sum.splits option.splits)
qed

lemma ex_upd:
  "(\<exists>name m. (s(x := y)) name = Some m \<and> P m) \<longleftrightarrow>
     (\<exists>m. y = Some m \<and> P m) \<or> (\<exists>name m. name \<noteq> x \<and> s name = Some m \<and> P m)"
  by (metis fun_upd_apply)

text \<open>Where no node under the name counts, only the others do.\<close>

lemma ex_other:
  "\<not> (\<exists>m. s x = Some m \<and> P m) \<Longrightarrow>
     (\<exists>name m. s name = Some m \<and> P m) \<longleftrightarrow> (\<exists>name m. name \<noteq> x \<and> s name = Some m \<and> P m)"
  by (rule iffI; elim exE; case_tac "name = x"; auto)

lemma table_of_put:
  assumes env: "v4_env env" and T: "table_of env s T" and fr: "fresh env s n"
    and known: "\<forall>prev. s (nd_name n) = Some prev \<longrightarrow> steady env prev n"
  shows "table_of env (insert_node s n) (learned env T n)"
proof -
  have names: "\<forall>name m. s name = Some m \<longrightarrow> nd_name m = name" using T unfolding table_of_def by blast
  have tab: "T k = Some l \<longleftrightarrow> (\<exists>name m. s name = Some m \<and> node_lease env m = Some l \<and> id4 l = k)" for k l
    using T unfolding table_of_def by blast
  have "learned env T n k = Some l \<longleftrightarrow>
      (\<exists>name m. (insert_node s n) name = Some m \<and> node_lease env m = Some l \<and> id4 l = k)" for k l
  proof (cases "node_lease env n")
    case None
    with known have prev: "node_lease env m = None" if "s (nd_name n) = Some m" for m
      using that by (auto simp: steady_def)
    have eq: "learned env T n k = T k" using None by (simp add: learned_def)
    have "T k = Some l \<longleftrightarrow> (\<exists>name m. name \<noteq> nd_name n \<and> s name = Some m \<and> node_lease env m = Some l \<and> id4 l = k)"
      unfolding tab by (rule ex_other) (use prev in auto)
    with None show ?thesis unfolding insert_node_def ex_upd eq by simp
  next
    case (Some ln)
    have prev: "id4 l = id4 ln" if "s (nd_name n) = Some m" "node_lease env m = Some l" for m l
      using known that Some node_lease_id [OF env] by blast
    have other: "id4 l \<noteq> id4 ln" if "s name = Some m" "name \<noteq> nd_name n" "node_lease env m = Some l" for name m l
      using fr that Some by (auto simp: fresh_def)
    have eq: "learned env T n k = (if k = id4 ln then Some ln else T k)"
      using Some by (simp add: learned_def)
    have old: "T k = Some l \<longleftrightarrow> (\<exists>name m. name \<noteq> nd_name n \<and> s name = Some m \<and> node_lease env m = Some l \<and> id4 l = k)"
      if "k \<noteq> id4 ln"
      unfolding tab by (rule ex_other) (use prev that in auto)
    show ?thesis
    proof (cases "k = id4 ln")
      case True
      with Some other show ?thesis unfolding insert_node_def ex_upd eq by auto
    next
      case False
      with Some old show ?thesis unfolding insert_node_def ex_upd eq by auto
    qed
  qed
  with names show ?thesis unfolding table_of_def by (simp add: insert_node_def)
qed

lemma table_of_remove:
  assumes T: "table_of env s T" and n: "s name = Some n" and fr: "fresh env s n"
    and m: "node_lease env m = node_lease env n"
  shows "table_of env (s(name := None)) (learn T (handle_add_lease_event env Removed m))"
proof -
  have names: "\<forall>name m. s name = Some m \<longrightarrow> nd_name m = name" using T unfolding table_of_def by blast
  have tab: "T k = Some l \<longleftrightarrow> (\<exists>name m. s name = Some m \<and> node_lease env m = Some l \<and> id4 l = k)" for k l
    using T unfolding table_of_def by blast
  have name: "nd_name n = name" using names n by blast
  have "learn T (handle_add_lease_event env Removed m) k = Some l \<longleftrightarrow>
      (\<exists>name' m. (s(name := None)) name' = Some m \<and> node_lease env m = Some l \<and> id4 l = k)" for k l
  proof (cases "node_lease env n")
    case None
    then have eq: "learn T (handle_add_lease_event env Removed m) k = T k"
      using m by (simp add: handle_add_node_lease)
    have "T k = Some l \<longleftrightarrow> (\<exists>name' m. name' \<noteq> name \<and> s name' = Some m \<and> node_lease env m = Some l \<and> id4 l = k)"
      unfolding tab by (rule ex_other) (use n None in auto)
    then show ?thesis unfolding ex_upd eq by simp
  next
    case (Some ln)
    have other: "id4 l \<noteq> id4 ln" if "s name' = Some m" "name' \<noteq> name" "node_lease env m = Some l" for name' m l
      using fr that Some name by (auto simp: fresh_def)
    have eq: "learn T (handle_add_lease_event env Removed m) k = (if k = id4 ln then None else T k)"
      using Some m by (simp add: handle_add_node_lease apply_event_def)
    have old: "T k = Some l \<longleftrightarrow> (\<exists>name' m. name' \<noteq> name \<and> s name' = Some m \<and> node_lease env m = Some l \<and> id4 l = k)"
      if "k \<noteq> id4 ln"
      unfolding tab by (rule ex_other) (use n Some that in auto)
    show ?thesis
    proof (cases "k = id4 ln")
      case True
      with other show ?thesis unfolding ex_upd eq by auto
    next
      case False
      with old show ?thesis unfolding ex_upd eq by auto
    qed
  qed
  with names show ?thesis unfolding table_of_def by simp
qed

text \<open>No two nodes of the store share a subnet.\<close>

definition tidy :: "event_env \<Rightarrow> node_store \<Rightarrow> bool" where
  "tidy env s \<longleftrightarrow> (\<forall>name n. s name = Some n \<longrightarrow> nd_name n = name \<and> fresh env s n)"

definition apart :: "event_env \<Rightarrow> node \<Rightarrow> node \<Rightarrow> bool" where
  "apart env m n \<longleftrightarrow>
     nd_name m = nd_name n \<or>
     (\<forall>l l'. node_lease env m = Some l \<longrightarrow> node_lease env n = Some l' \<longrightarrow> id4 l \<noteq> id4 l')"

lemma apart_sym: "apart env m n \<Longrightarrow> apart env n m"
  unfolding apart_def by metis

lemma fresh_put: "fresh env s n \<Longrightarrow> apart env m n \<Longrightarrow> fresh env (insert_node s m) n"
  by (auto simp: fresh_def apart_def insert_node_def)

lemma fresh_remove: "fresh env s n \<Longrightarrow> fresh env (s(x := None)) n"
  by (auto simp: fresh_def)

lemma fresh_apart: "fresh env s n \<Longrightarrow> s name = Some m \<Longrightarrow> nd_name m = name \<Longrightarrow> apart env m n"
  by (auto simp: fresh_def apart_def)

lemma tidy_put: "tidy env s \<Longrightarrow> fresh env s n \<Longrightarrow> tidy env (insert_node s n)"
proof -
  assume t: "tidy env s" and fr: "fresh env s n"
  have "fresh env (insert_node s n) m" if m: "s name = Some m" for name m
  proof (rule fresh_put)
    show "fresh env s m" using t m by (simp add: tidy_def)
    have "nd_name m = name" using t m by (simp add: tidy_def)
    then show "apart env n m" using fresh_apart [OF fr m] apart_sym by blast
  qed
  moreover have "fresh env (insert_node s n) n" using fr by (rule fresh_put) (simp add: apart_def)
  ultimately show ?thesis using t by (simp add: tidy_def insert_node_def)
qed

lemma tidy_remove: "tidy env s \<Longrightarrow> tidy env (s(x := None))"
  by (simp add: tidy_def fresh_remove)

lemma relist_puts:
  assumes "v4_env env" and "table_of env s T" and "tidy env s" and "distinct (map nd_name items)"
    and "\<forall>n \<in> set items. s (nd_name n) = old (nd_name n) \<and> fresh env s n \<and>
           (\<forall>prev. old (nd_name n) = Some prev \<longrightarrow> steady env prev n)"
    and "\<forall>n \<in> set items. \<forall>m \<in> set items. apart env m n"
  shows "table_of env (foldl insert_node s items) (learn T (concat (map (relist_item env old) items)))
    \<and> tidy env (foldl insert_node s items)"
  using assms
proof (induction items arbitrary: s T)
  case Nil
  then show ?case by simp
next
  case (Cons n items)
  have n: "s (nd_name n) = old (nd_name n)" "fresh env s n" "\<forall>prev. old (nd_name n) = Some prev \<longrightarrow> steady env prev n"
    using Cons.prems(5) by simp_all
  have ev: "learn T (relist_item env old n) = learned env T n"
    using n(1,3) learn_update [OF Cons.prems(1,2)] by (auto simp: relist_item_def learn_added split: option.split)
  have tab: "table_of env (insert_node s n) (learned env T n)"
    using n by (intro table_of_put [OF Cons.prems(1,2)]) simp_all
  have "\<forall>m \<in> set items. (insert_node s n) (nd_name m) = old (nd_name m) \<and> fresh env (insert_node s n) m \<and>
      (\<forall>prev. old (nd_name m) = Some prev \<longrightarrow> steady env prev m)"
  proof
    fix m assume m: "m \<in> set items"
    then have "nd_name m \<noteq> nd_name n" using Cons.prems(4) by (auto simp: rev_image_eqI)
    with m Cons.prems(5,6) show "(insert_node s n) (nd_name m) = old (nd_name m) \<and>
        fresh env (insert_node s n) m \<and> (\<forall>prev. old (nd_name m) = Some prev \<longrightarrow> steady env prev m)"
      by (simp add: fresh_put insert_node_apply)
  qed
  then show ?case
    using Cons.IH [OF Cons.prems(1) tab tidy_put [OF Cons.prems(3) n(2)]] Cons.prems(4,6) ev by simp
qed

lemma relist_removes:
  assumes "table_of env s T" and "tidy env s"
    and "\<forall>x \<in> set xs. x \<in> nd_name ` set items \<or> (\<exists>n. s x = Some n \<and> old x = Some n)" and "distinct xs"
  shows "let s' = (\<lambda>x. if x \<in> set xs \<and> x \<notin> nd_name ` set items then None else s x) in
    table_of env s' (learn T (concat (map (relist_gone env old items) xs))) \<and> tidy env s'"
  using assms
proof (induction xs arbitrary: s T)
  case Nil
  then show ?case by simp
next
  case (Cons x xs)
  show ?case
  proof (cases "x \<in> nd_name ` set items")
    case True
    then have "relist_gone env old items x = []" by (simp add: relist_gone_def)
    moreover have "(\<lambda>y. if y \<in> set (x # xs) \<and> y \<notin> nd_name ` set items then None else s y) =
        (\<lambda>y. if y \<in> set xs \<and> y \<notin> nd_name ` set items then None else s y)" using True by (intro ext) auto
    ultimately show ?thesis using Cons by (simp add: Let_def)
  next
    case False
    then obtain n where n: "s x = Some n" "old x = Some n" using Cons.prems(3) by auto
    have fr: "fresh env s n" using Cons.prems(2) n by (simp add: tidy_def)
    have ev: "relist_gone env old items x = handle_add_lease_event env Removed n"
      using False n by (simp add: relist_gone_def)
    have "\<forall>y \<in> set xs. y \<in> nd_name ` set items \<or> (\<exists>n. (s(x := None)) y = Some n \<and> old y = Some n)"
      using Cons.prems(3,4) by auto
    note ih = Cons.IH [OF table_of_remove [OF Cons.prems(1) n(1) fr refl] tidy_remove [OF Cons.prems(2)] this]
    have "(\<lambda>y. if y \<in> set (x # xs) \<and> y \<notin> nd_name ` set items then None else s y) =
        (\<lambda>y. if y \<in> set xs \<and> y \<notin> nd_name ` set items then None else (s(x := None)) y)" using False by (intro ext) auto
    with ih Cons.prems(4) ev show ?thesis by (simp add: Let_def)
  qed
qed

section \<open>The events tell the store\<close>

text \<open>What the API server may deliver in a state: a node keeps its subnet and its name, no two
  nodes hold one subnet at a time, and a deleted node is delivered as it was last seen.\<close>

definition relist_ok :: "event_env \<Rightarrow> node_store \<Rightarrow> node list \<Rightarrow> bool" where
  "relist_ok env s items \<longleftrightarrow>
     distinct (map nd_name items) \<and>
     (\<forall>n \<in> set items. fresh env s n \<and> (\<forall>prev. s (nd_name n) = Some prev \<longrightarrow> steady env prev n)) \<and>
     (\<forall>n \<in> set items. \<forall>m \<in> set items. apart env m n)"

definition delivery_ok :: "event_env \<Rightarrow> node_store \<Rightarrow> inf_input \<Rightarrow> bool" where
  "delivery_ok env s i =
     (case i of
        ListOk items _ \<Rightarrow> relist_ok env s items
      | Frame WAdded n \<Rightarrow> fresh env s n \<and> (\<forall>prev. s (nd_name n) = Some prev \<longrightarrow> steady env prev n)
      | Frame WModified n \<Rightarrow> fresh env s n \<and> (\<exists>prev. s (nd_name n) = Some prev \<and> steady env prev n)
      | Frame WDeleted n \<Rightarrow> (\<exists>m. s (nd_name n) = Some m \<and> node_lease env n = node_lease env m)
      | _ \<Rightarrow> True)"

definition map_iter :: "(node_store \<Rightarrow> string list) \<Rightarrow> bool" where
  "map_iter iter \<longleftrightarrow> (\<forall>s. finite (dom s) \<longrightarrow> distinct (iter s) \<and> set (iter s) = dom s)"

inductive informer_reach :: "event_env \<Rightarrow> (node_store \<Rightarrow> string list) \<Rightarrow> informer \<Rightarrow> bool"
  for env iter where
  reach_start: "informer_reach env iter informer_start"
| reach_step: "informer_reach env iter st \<Longrightarrow> delivery_ok env (inf_store st) i \<Longrightarrow>
    informer_step env iter st i = Some st' \<Longrightarrow> informer_reach env iter st'"

definition inf_inv :: "event_env \<Rightarrow> node_store \<Rightarrow> event list \<Rightarrow> bool" where
  "inf_inv env s evs \<longleftrightarrow> finite (dom s) \<and> tidy env s \<and> table_of env s (learn Map.empty evs)"

lemma foldl_put: "foldl insert_node s items x =
    (if x \<in> nd_name ` set items then foldl insert_node Map.empty items x else s x)"
proof (induction items rule: rev_induct)
  case (snoc n xs)
  have last: "foldl insert_node t (xs @ [n]) x = (if x = nd_name n then Some n else foldl insert_node t xs x)" for t
    using insert_node_apply [of "foldl insert_node t xs" n x] by simp
  show ?case using snoc unfolding last by auto
qed simp

lemma foldl_put_none: "x \<notin> nd_name ` set items \<Longrightarrow> foldl insert_node Map.empty items x = None"
  using foldl_put [of Map.empty items x] by simp

lemma finite_insert_node: "finite (dom s) \<Longrightarrow> finite (dom (insert_node s n))"
  by (simp add: insert_node_def)

lemma dom_foldl_put: "finite (dom s) \<Longrightarrow> finite (dom (foldl insert_node s items))"
  by (induction items arbitrary: s) (simp_all add: insert_node_def)

lemma inf_inv_relist:
  assumes env: "v4_env env" and it: "map_iter iter" and inv: "inf_inv env s evs" and ok: "relist_ok env s items"
  shows "inf_inv env (fst (replace_all s items)) (evs @ reconcile_relist env iter s items)"
proof -
  define T where "T = learn Map.empty evs"
  define s1 where "s1 = foldl insert_node s items"
  define T1 where "T1 = learn T (concat (map (relist_item env s) items))"
  have fin: "finite (dom s)" and td: "tidy env s" and tab: "table_of env s T" using inv by (simp_all add: inf_inv_def T_def)
  have "table_of env s1 T1 \<and> tidy env s1"
    unfolding s1_def T1_def by (rule relist_puts [OF env tab td]) (use ok in \<open>simp_all add: relist_ok_def\<close>)
  then have s1: "table_of env s1 T1" "tidy env s1" by simp_all
  have s1_eq: "s1 x = (if x \<in> nd_name ` set items then fst (replace_all s items) x else s x)" for x
    by (simp add: s1_def foldl_put [of s] replace_all_def)
  have iter: "distinct (iter s)" "set (iter s) = dom s" using it fin by (simp_all add: map_iter_def)
  have "\<forall>x \<in> set (iter s). x \<in> nd_name ` set items \<or> (\<exists>n. s1 x = Some n \<and> s x = Some n)"
    using iter s1_eq by auto
  note rem = relist_removes [OF s1 this iter(1)]
  have "(\<lambda>x. if x \<in> set (iter s) \<and> x \<notin> nd_name ` set items then None else s1 x) = fst (replace_all s items)"
    by (intro ext) (auto simp: s1_eq iter(2) replace_all_def domIff foldl_put_none)
  with rem show ?thesis
    by (simp add: inf_inv_def Let_def T1_def T_def reconcile_relist_def replace_all_def dom_foldl_put)
qed

lemma tidy_fresh: "tidy env s \<Longrightarrow> s name = Some n \<Longrightarrow> fresh env s n \<and> nd_name n = name"
  by (simp add: tidy_def)

lemma inf_inv_frame:
  assumes env: "v4_env env" and inv: "inf_inv env s evs" and ok: "delivery_ok env s (Frame ty n)"
  shows "inf_inv env (fst (dispatch env s ty n)) (evs @ snd (dispatch env s ty n))"
proof -
  have fin: "finite (dom s)" and td: "tidy env s" and tab: "table_of env s (learn Map.empty evs)"
    using inv by (simp_all add: inf_inv_def)
  note put = table_of_put [OF env tab] tidy_put [OF td]
  show ?thesis
  proof (cases ty)
    case WAdded
    with ok fin put show ?thesis
      by (auto simp: delivery_ok_def dispatch_def store_put_def inf_inv_def finite_insert_node learn_added learn_update [OF env tab]
        split: option.splits)
  next
    case WModified
    with ok fin put show ?thesis
      by (auto simp: delivery_ok_def dispatch_def store_put_def inf_inv_def finite_insert_node learn_update [OF env tab])
  next
    case WDeleted
    with ok obtain m where m: "s (nd_name n) = Some m" "node_lease env n = node_lease env m"
      by (auto simp: delivery_ok_def)
    show ?thesis
      using WDeleted fin table_of_remove [OF tab m(1) _ m(2)] tidy_fresh [OF td m(1)] tidy_remove [OF td]
      by (simp add: dispatch_def store_remove_def inf_inv_def)
  qed (use inv in \<open>simp_all add: dispatch_def\<close>)
qed

lemma relist_input: "delivery_ok env s (ListOk items rv) = relist_ok env s items"
  by (simp add: delivery_ok_def)

lemma resync_silent:
  "ev_enable_ipv4 env \<or> ev_enable_ipv6 env \<Longrightarrow> resync env iter s = []"
  by (auto simp: resync_def handle_update_lease_event_def v4_unchanged_def v6_unchanged_def Let_def
    split: option.splits)

lemma inf_inv_reach:
  assumes "v4_env env" and "map_iter iter" and "informer_reach env iter st"
  shows "inf_inv env (inf_store st) (inf_out st)"
  using assms(3)
proof (induction rule: informer_reach.induct)
  case reach_start
  then show ?case by (simp add: informer_start_def inf_inv_def tidy_def table_of_def)
next
  case (reach_step st i st')
  have res: "resync env iter s = []" for s using assms(1) by (simp add: resync_silent v4_env_def)
  note relist = inf_inv_relist [OF assms(1,2) reach_step.IH]
  have frame: "inf_inv env s' (inf_out st @ evs)"
    if "delivery_ok env (inf_store st) (Frame ty n)" "dispatch env (inf_store st) ty n = (s', evs)" for ty n s' evs
    using inf_inv_frame [OF assms(1) reach_step.IH that(1)] that(2) by simp
  show ?case
    using reach_step.hyps(2,3) reach_step.IH relist frame res
    by (cases i) (auto simp: Let_def relist_input replace_all_def split: inf_phase.splits prod.splits)
qed


text \<open>A concrete run: the list holds one managed node.\<close>

definition key_order :: "node_store \<Rightarrow> string list" where
  "key_order s = sorted_list_of_set (dom s)"

definition sample_annotations :: annotations where
  "sample_annotations =
     \<lparr>an_subnet_kube_managed = ''m'', an_backend_data = ''d'', an_backend_v6_data = ''d6'',
      an_backend_type = ''t'', an_backend_public_ip = ''i'', an_backend_public_ipv6 = ''i6'',
      an_backend_node_public_ip = ''n'', an_backend_node_public_ipv6 = ''n6'',
      an_backend_public_ip_overwrite = ''o'', an_backend_public_ipv6_overwrite = ''o6''\<rparr>"

definition sample_env :: event_env where
  "sample_env = \<lparr>ev_annotations = sample_annotations, ev_enable_ipv4 = True, ev_enable_ipv6 = False,
     ev_raw = (\<lambda>t. if t = [] then None else Some t)\<rparr>"

definition sample_node :: "string \<Rightarrow> string \<Rightarrow> node" where
  "sample_node name cidr =
     \<lparr>nd_name = name, nd_uid = ''u'', nd_resource_version = None,
      nd_annotations = [''m'' \<mapsto> ''true'', ''i'' \<mapsto> ''10.0.0.1'', ''t'' \<mapsto> ''vxlan''],
      nd_pod_cidr = Some cidr, nd_pod_cidrs = []\<rparr>"

lemma map_iter_key_order: "map_iter key_order"
  by (simp add: map_iter_def key_order_def)

lemma v4_env_sample: "v4_env sample_env"
  by (simp add: v4_env_def sample_env_def)


text \<open>C32. A relist hands on the additions before the removals. When a node is gone and its subnet
  belongs to a new node in the next list, the removal comes last and wipes the subnet: the consumer
  ends up without the lease of the node that is there.\<close>

theorem relist_loses_reused_subnet:
  assumes "v4_env env" and "old = [nd_name m \<mapsto> m]" and "iter old = [nd_name m]"
    and "nd_name m \<noteq> nd_name n" and "node_lease env m = Some lm" and "node_lease env n = Some ln"
    and "subnet lm = subnet ln"
  shows "reconcile_relist env iter old [n] =
      [\<lparr>ev_type = Added, ev_lease = ln\<rparr>, \<lparr>ev_type = Removed, ev_lease = lm\<rparr>] \<and>
    learn T (reconcile_relist env iter old [n]) (id4 ln) = None"
proof -
  have ev: "reconcile_relist env iter old [n] =
      [\<lparr>ev_type = Added, ev_lease = ln\<rparr>, \<lparr>ev_type = Removed, ev_lease = lm\<rparr>]"
    using assms by (auto simp: reconcile_relist_def relist_item_def relist_gone_def handle_add_node_lease)
  then show ?thesis
    using assms(7) by (simp add: apply_event_def lease_key_def)
qed

text \<open>The lease of the sample node.\<close>

definition sample_node_lease :: lease where
  "sample_node_lease = blank_lease\<lparr>enable_ipv4 := True, subnet := \<lparr>n4_ip = IP4 0x0a010200, n4_prefix_len = 24\<rparr>,
     attrs := lease_attrs_default\<lparr>public_ip := IP4 0x0a000001, backend_type := ''vxlan''\<rparr>\<rparr>"

lemma sample_node_parse:
  "ip4_from_str ''10.0.0.1'' = Inr (IP4 0x0a000001)"
  "n4_from_str ''10.1.2.0/24'' = Inr \<lparr>n4_ip = IP4 0x0a010200, n4_prefix_len = 24\<rparr>"
  by code_simp+

lemma node_lease_sample: "node_lease sample_env (sample_node name ''10.1.2.0/24'') = Some sample_node_lease"
  by (simp add: node_lease_def managed_def node_to_lease_def fill_v4_def lease_cidr4_def spec_pod_cidr_def
    annotation_def raw_from_annotation_def has_colon_def sample_env_def sample_annotations_def sample_node_def
    sample_node_parse sample_node_lease_def ok_or_def Let_def blank_lease_def lease_attrs_default_def)

lemma nd_name_sample: "nd_name (sample_node name cidr) = name"
  by (simp add: sample_node_def)

theorem relist_loses_reused_subnet_witness:
  "learn Map.empty (reconcile_relist sample_env (\<lambda>_. [''a'']) [''a'' \<mapsto> sample_node ''a'' ''10.1.2.0/24'']
     [sample_node ''b'' ''10.1.2.0/24'']) (id4 sample_node_lease) = None"
  using relist_loses_reused_subnet [OF v4_env_sample, of "[''a'' \<mapsto> sample_node ''a'' ''10.1.2.0/24'']"
      "sample_node ''a'' ''10.1.2.0/24''" "\<lambda>_. [''a'']" "sample_node ''b'' ''10.1.2.0/24''"
      sample_node_lease sample_node_lease Map.empty]
  by (simp add: nd_name_sample node_lease_sample apply_event_def)

end
