(* ===== verification/Hub.thy ===== *)
theory Hub
  imports Lease "HOL-Library.Multiset"
begin

text \<open>
  \<open>subnet/kube/events.rs\<close> (\<open>enqueue_lease_event\<close>) and \<open>subnet/kube/mod.rs\<close> (\<open>fan_out\<close>, \<open>EventHub\<close>):
  the way of a lease event from the informer to the watchers. A bounded channel of tokio is its
  queue; the scheduler's choices (which task runs, when a sleep is over, when the context is
  cancelled) are the inputs of the steps, so a run is any interleaving of the tasks. Ghost fields
  record what was offered, received, published and delivered.
\<close>

section \<open>Handing an event to the channel\<close>

datatype 'a send_result = SendOk 'a | SendFull | SendClosed

text \<open>\<open>mpsc::Sender::try_send\<close>.\<close>

definition try_send :: "nat \<Rightarrow> bool \<Rightarrow> 'a list \<Rightarrow> 'a \<Rightarrow> 'a list send_result" where
  "try_send cap closed q x =
     (if closed then SendClosed else if cap \<le> length q then SendFull else SendOk (q @ [x]))"

definition ASYNC_SEND_SLOTS :: nat where "ASYNC_SEND_SLOTS = 100"

text \<open>The backoff of a retry task, in milliseconds.\<close>

definition BACKOFF_START :: nat where "BACKOFF_START = 100"

definition BACKOFF_MAX :: nat where "BACKOFF_MAX = 5000"

record enqueuer =
  q_cap :: nat
  q_queue :: "event list"
  q_closed :: bool
  q_cancelled :: bool
  q_blocked :: "event option"
  q_retries :: "(event \<times> nat) list"
  q_offered :: "event list"
  q_received :: "event list"
  q_dropped :: "event list"

definition enqueuer_start :: "nat \<Rightarrow> enqueuer" where
  "enqueuer_start cap =
     \<lparr>q_cap = cap, q_queue = [], q_closed = False, q_cancelled = False, q_blocked = None,
      q_retries = [], q_offered = [], q_received = [], q_dropped = []\<rparr>"

datatype enq_input =
    Offer event
  | SlotFree
  | RetryDue nat
  | ChanRecv
  | ChanClose
  | CtxCancel
  | CancelSeen
  | RetryCancelSeen nat

definition delete_nth :: "nat \<Rightarrow> 'a list \<Rightarrow> 'a list" where
  "delete_nth i xs = take i xs @ drop (Suc i) xs"

text \<open>The first part of \<open>enqueue_lease_event\<close>: one attempt, then wait for a slot.\<close>

definition enqueue_lease_event :: "enqueuer \<Rightarrow> event \<Rightarrow> enqueuer" where
  "enqueue_lease_event s e =
     (let s = s\<lparr>q_offered := q_offered s @ [e]\<rparr> in
      case try_send (q_cap s) (q_closed s) (q_queue s) e of
        SendOk q \<Rightarrow> s\<lparr>q_queue := q\<rparr>
      | SendClosed \<Rightarrow> s\<lparr>q_dropped := q_dropped s @ [e]\<rparr>
      | SendFull \<Rightarrow> s\<lparr>q_blocked := Some e\<rparr>)"

text \<open>One round of a retry task, after its sleep.\<close>

definition retry_round :: "enqueuer \<Rightarrow> nat \<Rightarrow> enqueuer" where
  "retry_round s i =
     (let (e, backoff) = q_retries s ! i in
      case try_send (q_cap s) (q_closed s) (q_queue s) e of
        SendOk q \<Rightarrow> s\<lparr>q_queue := q, q_retries := delete_nth i (q_retries s)\<rparr>
      | SendClosed \<Rightarrow> s\<lparr>q_retries := delete_nth i (q_retries s), q_dropped := q_dropped s @ [e]\<rparr>
      | SendFull \<Rightarrow> s\<lparr>q_retries := (q_retries s)[i := (e, min (backoff * 2) BACKOFF_MAX)]\<rparr>)"

fun enq_step :: "enqueuer \<Rightarrow> enq_input \<Rightarrow> enqueuer option" where
  "enq_step s (Offer e) = (if q_blocked s = None then Some (enqueue_lease_event s e) else None)"
| "enq_step s SlotFree =
     (case q_blocked s of
        Some e \<Rightarrow>
          if \<not> q_cancelled s \<and> length (q_retries s) < ASYNC_SEND_SLOTS
          then Some (s\<lparr>q_blocked := None, q_retries := q_retries s @ [(e, BACKOFF_START)]\<rparr>)
          else None
      | None \<Rightarrow> None)"
| "enq_step s (RetryDue i) =
     (if i < length (q_retries s) \<and> \<not> q_cancelled s then Some (retry_round s i) else None)"
| "enq_step s ChanRecv =
     (case q_queue s of
        [] \<Rightarrow> None
      | e # q \<Rightarrow>
          if q_closed s then None else Some (s\<lparr>q_queue := q, q_received := q_received s @ [e]\<rparr>))"
| "enq_step s ChanClose = Some (s\<lparr>q_closed := True\<rparr>)"
| "enq_step s CtxCancel = Some (s\<lparr>q_cancelled := True\<rparr>)"
| "enq_step s CancelSeen =
     (case q_blocked s of
        Some e \<Rightarrow>
          if q_cancelled s then Some (s\<lparr>q_blocked := None, q_dropped := q_dropped s @ [e]\<rparr>) else None
      | None \<Rightarrow> None)"
| "enq_step s (RetryCancelSeen i) =
     (if i < length (q_retries s) \<and> q_cancelled s
      then Some (s\<lparr>q_retries := delete_nth i (q_retries s), q_dropped := q_dropped s @ [fst (q_retries s ! i)]\<rparr>)
      else None)"

fun enq_run :: "enqueuer \<Rightarrow> enq_input list \<Rightarrow> enqueuer option" where
  "enq_run s [] = Some s"
| "enq_run s (i # is) = (case enq_step s i of None \<Rightarrow> None | Some s' \<Rightarrow> enq_run s' is)"

lemma mset_delete_nth: "i < length xs \<Longrightarrow> mset xs = add_mset (xs ! i) (mset (delete_nth i xs))"
  using id_take_nth_drop [of i xs, THEN arg_cong, of mset] by (simp add: delete_nth_def)

lemma map_delete_nth: "map f (delete_nth i xs) = delete_nth i (map f xs)"
  by (simp add: delete_nth_def take_map drop_map)

lemma length_delete_nth: "i < length xs \<Longrightarrow> length (delete_nth i xs) = length xs - 1"
  by (simp add: delete_nth_def)

lemma set_delete_nth: "set (delete_nth i xs) \<subseteq> set xs"
  by (auto simp: delete_nth_def dest: in_set_takeD in_set_dropD)

text \<open>The events still on their way, and the invariant: nothing is lost or doubled, the queue and the
  retry tasks stay within their bounds, the sleeps within theirs, and an event is given up only
  after cancellation or when nobody receives any more.\<close>

definition pending :: "enqueuer \<Rightarrow> event multiset" where
  "pending s = mset (q_queue s) + mset (map fst (q_retries s)) + mset (case q_blocked s of None \<Rightarrow> [] | Some e \<Rightarrow> [e])"

definition enq_inv :: "enqueuer \<Rightarrow> bool" where
  "enq_inv s \<longleftrightarrow>
     mset (q_offered s) = mset (q_received s) + pending s + mset (q_dropped s) \<and>
     length (q_queue s) \<le> q_cap s \<and> length (q_retries s) \<le> ASYNC_SEND_SLOTS \<and>
     (\<forall>(e, b) \<in> set (q_retries s). BACKOFF_START \<le> b \<and> b \<le> BACKOFF_MAX) \<and>
     (q_dropped s \<noteq> [] \<longrightarrow> q_cancelled s \<or> q_closed s)"

lemma enq_inv_start: "enq_inv (enqueuer_start cap)"
  by (simp add: enq_inv_def enqueuer_start_def pending_def)

lemma enq_inv_offer: "enq_inv s \<Longrightarrow> q_blocked s = None \<Longrightarrow> enq_inv (enqueue_lease_event s e)"
  by (auto simp: enqueue_lease_event_def try_send_def enq_inv_def pending_def Let_def)

lemma enq_inv_retry:
  assumes inv: "enq_inv s" and i: "i < length (q_retries s)"
  shows "enq_inv (retry_round s i)"
proof -
  obtain e b where eb: "q_retries s ! i = (e, b)" by fastforce
  have b: "BACKOFF_START \<le> b" "b \<le> BACKOFF_MAX" using inv i eb nth_mem [OF i] by (auto simp: enq_inv_def)
  have ms: "mset (map fst (q_retries s)) = add_mset e (mset (map fst (delete_nth i (q_retries s))))"
    using mset_delete_nth [of i "map fst (q_retries s)"] i eb by (simp add: map_delete_nth)
  have same: "map fst ((q_retries s)[i := (e, c)]) = map fst (q_retries s)" for c
    using i eb by (metis fst_conv list_update_id map_update nth_map)
  have len: "length (delete_nth i (q_retries s)) \<le> ASYNC_SEND_SLOTS"
    using inv i by (auto simp: enq_inv_def length_delete_nth)
  note sub = set_delete_nth [of i "q_retries s"]
  have upd: "\<forall>(e, b) \<in> set ((q_retries s)[i := (e, min (b * 2) BACKOFF_MAX)]). BACKOFF_START \<le> b \<and> b \<le> BACKOFF_MAX"
    using inv b set_update_subset_insert [of "q_retries s" i "(e, min (b * 2) BACKOFF_MAX)"]
    by (force simp: enq_inv_def BACKOFF_START_def BACKOFF_MAX_def)
  show ?thesis
  proof (cases "try_send (q_cap s) (q_closed s) (q_queue s) e")
    case (SendOk q)
    with inv eb ms len sub show ?thesis
      by (auto simp: retry_round_def enq_inv_def pending_def try_send_def split: if_splits)
  next
    case SendFull
    with inv eb same upd show ?thesis by (auto simp: retry_round_def enq_inv_def pending_def)
  next
    case SendClosed
    with inv eb ms len sub show ?thesis
      by (auto simp: retry_round_def enq_inv_def pending_def try_send_def split: if_splits)
  qed
qed

lemma enq_inv_step: "enq_inv s \<Longrightarrow> enq_step s i = Some s' \<Longrightarrow> enq_inv s'"
proof (induction s i rule: enq_step.induct)
  case (1 s e)
  then show ?case by (auto simp: enq_inv_offer split: if_splits)
next
  case (2 s)
  then show ?case
    by (auto simp: enq_inv_def pending_def BACKOFF_START_def BACKOFF_MAX_def split: option.splits if_splits)
next
  case (3 s i)
  then show ?case by (auto simp: enq_inv_retry split: if_splits)
next
  case (4 s)
  then show ?case by (auto simp: enq_inv_def pending_def split: list.splits if_splits)
next
  case (7 s)
  then show ?case by (auto simp: enq_inv_def pending_def split: option.splits if_splits)
next
  case (8 s i)
  then have i: "i < length (q_retries s)" and s': "q_cancelled s"
      "s' = s\<lparr>q_retries := delete_nth i (q_retries s), q_dropped := q_dropped s @ [fst (q_retries s ! i)]\<rparr>"
    by (auto split: if_splits)
  have "mset (map fst (q_retries s)) = add_mset (fst (q_retries s ! i)) (mset (map fst (delete_nth i (q_retries s))))"
    using mset_delete_nth [of i "map fst (q_retries s)"] i by (simp add: map_delete_nth)
  with 8(1) i s' set_delete_nth [of i "q_retries s"] show ?case
    by (auto simp: enq_inv_def pending_def length_delete_nth)
qed (auto simp: enq_inv_def pending_def)

lemma enq_inv_run: "enq_inv s \<Longrightarrow> enq_run s is = Some s' \<Longrightarrow> enq_inv s'"
  by (induction "is" arbitrary: s) (auto intro: enq_inv_step split: option.splits)

text \<open>Events of concrete runs.\<close>

definition sample_event :: "event_type \<Rightarrow> u32 \<Rightarrow> event" where
  "sample_event et n = \<lparr>ev_type = et, ev_lease = sample_lease n\<rparr>"

text \<open>Handing events to the channel of lease events loses none and doubles none under any
  interleaving of the informer, the retry tasks and the receiver: every offered event was received,
  is in the queue, in a retry task or held by the informer that waits for a slot, or was given up
  after cancellation or after the receiver was dropped. The queue stays within its capacity, there
  are at most 100 retry tasks, and a retry sleeps between 100 ms and 5 s.\<close>

theorem enqueue_conserves:
  assumes "enq_run (enqueuer_start cap) is = Some s"
  shows "mset (q_offered s) = mset (q_received s) + pending s + mset (q_dropped s) \<and>
    length (q_queue s) \<le> q_cap s \<and> length (q_retries s) \<le> ASYNC_SEND_SLOTS \<and>
    (\<forall>(e, b) \<in> set (q_retries s). BACKOFF_START \<le> b \<and> b \<le> BACKOFF_MAX) \<and>
    (q_dropped s = [] \<or> q_cancelled s \<or> q_closed s)"
  using enq_inv_run [OF enq_inv_start assms] unfolding enq_inv_def by blast

theorem enqueue_conserves_witness:
  "\<exists>s. enq_run (enqueuer_start 1) [Offer (sample_event Added 1), Offer (sample_event Added 2), SlotFree, RetryDue 0] = Some s \<and>
     q_retries s = [(sample_event Added 2, 200)] \<and> mset (q_offered s) = mset (q_received s) + pending s + mset (q_dropped s)"
proof -
  let ?is = "[Offer (sample_event Added 1), Offer (sample_event Added 2), SlotFree, RetryDue 0]"
  obtain s where s: "enq_run (enqueuer_start 1) ?is = Some s" and r: "q_retries s = [(sample_event Added 2, 200)]"
    by (simp add: enqueuer_start_def enqueue_lease_event_def try_send_def retry_round_def Let_def
      ASYNC_SEND_SLOTS_def BACKOFF_START_def BACKOFF_MAX_def)
  from s r enqueue_conserves [OF s] show ?thesis by blast
qed

lemma enq_run_append:
  "enq_run s (xs @ ys) = (case enq_run s xs of None \<Rightarrow> None | Some s' \<Rightarrow> enq_run s' ys)"
  by (induction xs arbitrary: s) (auto split: option.split)

text \<open>Draining: a live receiver gets everything that is pending.\<close>

definition backlog_size :: "enqueuer \<Rightarrow> nat" where
  "backlog_size s =
     length (q_queue s) + 2 * length (q_retries s) + (case q_blocked s of None \<Rightarrow> 0 | Some _ \<Rightarrow> 3)"

lemma drain_step:
  assumes "\<not> q_cancelled s" and "\<not> q_closed s" and "0 < q_cap s" and "backlog_size s \<noteq> 0"
  obtains i s' where "enq_step s i = Some s'" and "backlog_size s' < backlog_size s"
    and "\<not> q_cancelled s' \<and> \<not> q_closed s' \<and> 0 < q_cap s' \<and> q_offered s' = q_offered s"
proof (cases "q_queue s")
  case (Cons e q)
  with assms show ?thesis
    by (intro that [of ChanRecv "s\<lparr>q_queue := q, q_received := q_received s @ [e]\<rparr>"])
      (auto simp: backlog_size_def)
next
  case Nil
  note q = Nil
  show ?thesis
  proof (cases "q_retries s")
    case (Cons r rs)
    with assms q show ?thesis
      by (intro that [of "RetryDue 0" "retry_round s 0"])
        (auto simp: retry_round_def try_send_def backlog_size_def delete_nth_def split: prod.splits)
  next
    case Nil
    with assms q obtain e where "q_blocked s = Some e" by (auto simp: backlog_size_def split: option.splits)
    with assms q Nil show ?thesis
      by (intro that [of SlotFree "s\<lparr>q_blocked := None, q_retries := [(e, BACKOFF_START)]\<rparr>"])
        (auto simp: backlog_size_def ASYNC_SEND_SLOTS_def)
  qed
qed

lemma drain_run:
  assumes "\<not> q_cancelled s" and "\<not> q_closed s" and "0 < q_cap s"
  shows "\<exists>is s'. enq_run s is = Some s' \<and> backlog_size s' = 0 \<and> \<not> q_cancelled s' \<and> \<not> q_closed s' \<and>
    q_offered s' = q_offered s"
  using assms
proof (induction "backlog_size s" arbitrary: s rule: less_induct)
  case less
  show ?case
  proof (cases "backlog_size s = 0")
    case True
    with less.prems show ?thesis by (intro exI [of _ "[]"] exI [of _ s]) simp
  next
    case False
    with less.prems obtain i s1 where s1: "enq_step s i = Some s1" "backlog_size s1 < backlog_size s"
        "\<not> q_cancelled s1 \<and> \<not> q_closed s1 \<and> 0 < q_cap s1 \<and> q_offered s1 = q_offered s"
      by (rule drain_step)
    then obtain ys s2 where "enq_run s1 ys = Some s2" "backlog_size s2 = 0 \<and> \<not> q_cancelled s2 \<and> \<not> q_closed s2 \<and>
        q_offered s2 = q_offered s" using less.hyps [of s1] by auto
    with s1 show ?thesis by (intro exI [of _ "i # ys"] exI [of _ s2]) simp
  qed
qed

lemma backlog_size_pending: "backlog_size s = 0 \<Longrightarrow> pending s = {#}"
  by (simp add: backlog_size_def pending_def split: option.splits)

text \<open>No event is stuck: from every state the tasks can reach, as long as the context is not
  cancelled and the receiver is there, the tasks can go on until every offered event has been
  received exactly once.\<close>

theorem enqueue_drains:
  assumes "enq_run (enqueuer_start cap) is = Some s" and "0 < q_cap s" and "\<not> q_cancelled s" and "\<not> q_closed s"
  shows "\<exists>js s'. enq_run s js = Some s' \<and> q_offered s' = q_offered s \<and> mset (q_received s') = mset (q_offered s)"
proof -
  obtain js s' where js: "enq_run s js = Some s'" "backlog_size s' = 0" "\<not> q_cancelled s'" "\<not> q_closed s'"
      "q_offered s' = q_offered s" using drain_run [OF assms(3,4,2)] by blast
  have "enq_inv s'" using enq_inv_run [OF enq_inv_run [OF enq_inv_start assms(1)] js(1)] .
  with js backlog_size_pending [OF js(2)] have "mset (q_received s') = mset (q_offered s)"
    by (auto simp: enq_inv_def)
  with js show ?thesis by blast
qed

theorem enqueue_drains_witness:
  "\<exists>s js s'. enq_run (enqueuer_start 1) [Offer (sample_event Added 1), Offer (sample_event Added 2)] = Some s \<and> enq_run s js = Some s' \<and>
     mset (q_received s') = {#sample_event Added 1, sample_event Added 2#}"
proof -
  obtain s where s: "enq_run (enqueuer_start 1) [Offer (sample_event Added 1), Offer (sample_event Added 2)] = Some s" and f: "q_cap s = 1"
      "\<not> q_cancelled s" "\<not> q_closed s" "q_offered s = [sample_event Added 1, sample_event Added 2]"
    by (simp add: enqueuer_start_def enqueue_lease_event_def try_send_def Let_def)
  from enqueue_drains [OF s] f show ?thesis using s by (auto simp: add_mset_commute)
qed

lemma run_offers:
  "q_blocked s = None \<Longrightarrow> \<not> q_closed s \<Longrightarrow> length (q_queue s) + n \<le> q_cap s \<Longrightarrow>
     enq_run s (replicate n (Offer f)) =
       Some (s\<lparr>q_queue := q_queue s @ replicate n f, q_offered := q_offered s @ replicate n f\<rparr>)"
  by (induction n arbitrary: s) (auto simp: enqueue_lease_event_def try_send_def Let_def)

lemma run_recvs:
  "\<not> q_closed s \<Longrightarrow> n \<le> length (q_queue s) \<Longrightarrow>
     enq_run s (replicate n ChanRecv) =
       Some (s\<lparr>q_queue := drop n (q_queue s), q_received := q_received s @ take n (q_queue s)\<rparr>)"
  by (induction n arbitrary: s) (auto simp: neq_Nil_conv Suc_le_length_iff)

lemma run_reordered:
  assumes "0 < cap"
  shows "\<exists>is s. enq_run (enqueuer_start cap) is = Some s \<and>
    q_offered s = replicate cap f @ [a, r] \<and> q_received s = replicate cap f @ [r, a]"
proof -
  obtain n where n: "cap = Suc n" using assms by (cases cap) auto
  define s0 where "s0 = (enqueuer_start cap)\<lparr>q_queue := replicate cap f, q_offered := replicate cap f\<rparr>"
  define s1 where "s1 = s0\<lparr>q_queue := replicate n f @ [r], q_offered := replicate cap f @ [a, r],
    q_retries := [(a, BACKOFF_START)], q_received := [f]\<rparr>"
  have "enq_run (enqueuer_start cap) (replicate cap (Offer f)) = Some s0"
    unfolding s0_def by (subst run_offers) (auto simp: enqueuer_start_def)
  moreover have "enq_run s0 [Offer a, SlotFree, ChanRecv, Offer r] = Some s1"
    by (simp add: s1_def s0_def enqueuer_start_def enqueue_lease_event_def try_send_def n Let_def ASYNC_SEND_SLOTS_def)
  moreover have "enq_run s1 (replicate cap ChanRecv @ [RetryDue 0, ChanRecv]) =
      Some (s1\<lparr>q_queue := [], q_retries := [], q_received := replicate cap f @ [r, a]\<rparr>)"
    unfolding enq_run_append
    by (subst run_recvs) (simp_all add: s1_def s0_def enqueuer_start_def n retry_round_def try_send_def delete_nth_def)
  ultimately have "enq_run (enqueuer_start cap)
      (replicate cap (Offer f) @ [Offer a, SlotFree, ChanRecv, Offer r] @ replicate cap ChanRecv @ [RetryDue 0, ChanRecv]) =
      Some (s1\<lparr>q_queue := [], q_retries := [], q_received := replicate cap f @ [r, a]\<rparr>)"
    by (simp only: enq_run_append option.case)
  then show ?thesis by (intro exI conjI, assumption) (simp_all add: s1_def)
qed

text \<open>The order is lost once the channel is full: with every capacity there is a run in which the
  addition of a lease is offered before its removal and received after it, because the addition
  waits in a retry task while the removal finds room. Who follows the offered events does not have
  the lease, who follows the received ones does.\<close>

theorem enqueue_reorders:
  assumes "0 < cap"
  shows "\<exists>is s evs. enq_run (enqueuer_start cap) is = Some s \<and>
    q_offered s = evs @ [\<lparr>ev_type = Added, ev_lease = l\<rparr>, \<lparr>ev_type = Removed, ev_lease = l\<rparr>] \<and>
    q_received s = evs @ [\<lparr>ev_type = Removed, ev_lease = l\<rparr>, \<lparr>ev_type = Added, ev_lease = l\<rparr>] \<and>
    foldl (apply_event v4 v6) T (q_offered s) (lease_key v4 v6 l) = None \<and>
    foldl (apply_event v4 v6) T (q_received s) (lease_key v4 v6 l) = Some l"
proof -
  obtain js s where run: "enq_run (enqueuer_start cap) js = Some s" and off:
    "q_offered s = replicate cap \<lparr>ev_type = Added, ev_lease = l\<rparr> @ [\<lparr>ev_type = Added, ev_lease = l\<rparr>, \<lparr>ev_type = Removed, ev_lease = l\<rparr>]"
    and rec: "q_received s = replicate cap \<lparr>ev_type = Added, ev_lease = l\<rparr> @ [\<lparr>ev_type = Removed, ev_lease = l\<rparr>, \<lparr>ev_type = Added, ev_lease = l\<rparr>]"
    using run_reordered [OF assms] by blast
  have "foldl (apply_event v4 v6) T (q_offered s) (lease_key v4 v6 l) = None"
    "foldl (apply_event v4 v6) T (q_received s) (lease_key v4 v6 l) = Some l"
    unfolding off rec by (simp_all add: apply_event_def)
  with run off rec show ?thesis by blast
qed

theorem enqueue_reorders_witness:
  "\<exists>is s. enq_run (enqueuer_start 1) is = Some s \<and>
     foldl (apply_event True False) Map.empty (q_offered s) (lease_key True False (sample_lease 1)) = None \<and>
     foldl (apply_event True False) Map.empty (q_received s) (lease_key True False (sample_lease 1)) = Some (sample_lease 1)"
proof -
  have "0 < (1 :: nat)" by simp
  from enqueue_reorders [OF this, of "sample_lease 1" True False Map.empty] show ?thesis by blast
qed

section \<open>Fan-out to the watchers\<close>

text \<open>A channel of a subscriber, with what the watcher took out of it and how many events had been
  published when it subscribed.\<close>

record subscriber =
  sub_cap :: nat
  sub_queue :: "event list"
  sub_closed :: bool
  sub_received :: "event list"
  sub_from :: nat

text \<open>\<open>hb_chans\<close> holds every channel ever made; a sender is its index. \<open>hb_publishing\<close> is the event the
  fan-out task is delivering, the senders still to be served and the ones found closed.\<close>

record hub =
  hb_backlog :: "event list"
  hb_capacity :: nat
  hb_subscribers :: "nat list"
  hb_chans :: "subscriber list"
  hb_publishing :: "(event \<times> nat list \<times> nat list) option"
  hb_published :: "event list"

definition hub_new :: "nat \<Rightarrow> hub" where
  "hub_new capacity =
     \<lparr>hb_backlog = [], hb_capacity = max capacity 1, hb_subscribers = [], hb_chans = [],
      hb_publishing = None, hb_published = []\<rparr>"

fun trim_backlog :: "nat \<Rightarrow> event list \<Rightarrow> event list" where
  "trim_backlog cap [] = []"
| "trim_backlog cap (x # b) = (if length (x # b) > cap then trim_backlog cap b else x # b)"

text \<open>\<open>publish\<close>: the part under the lock, one \<open>send\<close>, and the retirement of closed senders.\<close>

definition publish_begin :: "hub \<Rightarrow> event \<Rightarrow> hub" where
  "publish_begin h e =
     h\<lparr>hb_backlog := trim_backlog (hb_capacity h) (hb_backlog h @ [e]),
       hb_publishing := Some (e, hb_subscribers h, []), hb_published := hb_published h @ [e]\<rparr>"

definition publish_send :: "hub \<Rightarrow> hub option" where
  "publish_send h =
     (case hb_publishing h of
        Some (e, i # rest, retired) \<Rightarrow>
          (let c = hb_chans h ! i in
           case try_send (sub_cap c) (sub_closed c) (sub_queue c) e of
             SendOk q \<Rightarrow> Some (h\<lparr>hb_chans := (hb_chans h)[i := c\<lparr>sub_queue := q\<rparr>],
                               hb_publishing := Some (e, rest, retired)\<rparr>)
           | SendClosed \<Rightarrow> Some (h\<lparr>hb_publishing := Some (e, rest, retired @ [i])\<rparr>)
           | SendFull \<Rightarrow> None)
      | _ \<Rightarrow> None)"

definition publish_end :: "hub \<Rightarrow> hub option" where
  "publish_end h =
     (case hb_publishing h of
        Some (e, [], retired) \<Rightarrow>
          Some (h\<lparr>hb_publishing := None,
            hb_subscribers := (if retired = [] then hb_subscribers h
                               else filter (\<lambda>i. i \<notin> set retired) (hb_subscribers h))\<rparr>)
      | _ \<Rightarrow> None)"

text \<open>The replay of the backlog: a failed \<open>try_send\<close> is ignored.\<close>

fun replay :: "nat \<Rightarrow> event list \<Rightarrow> event list \<Rightarrow> event list" where
  "replay cap q [] = q"
| "replay cap q (e # es) =
     replay cap (case try_send cap False q e of SendOk q' \<Rightarrow> q' | _ \<Rightarrow> q) es"

definition subscribe :: "hub \<Rightarrow> hub" where
  "subscribe h =
     (let cap = hb_capacity h + length (hb_backlog h);
          c = \<lparr>sub_cap = cap, sub_queue = replay cap [] (hb_backlog h), sub_closed = False,
               sub_received = [], sub_from = length (hb_published h)\<rparr>
      in h\<lparr>hb_chans := hb_chans h @ [c], hb_subscribers := hb_subscribers h @ [length (hb_chans h)]\<rparr>)"

datatype hub_input = Publish event | PublishSend | PublishEnd | Subscribe | SubRecv nat | SubClose nat

fun hub_step :: "hub \<Rightarrow> hub_input \<Rightarrow> hub option" where
  "hub_step h (Publish e) = (if hb_publishing h = None then Some (publish_begin h e) else None)"
| "hub_step h PublishSend = publish_send h"
| "hub_step h PublishEnd = publish_end h"
| "hub_step h Subscribe = Some (subscribe h)"
| "hub_step h (SubRecv i) =
     (if i < length (hb_chans h) \<and> \<not> sub_closed (hb_chans h ! i) then
        (case sub_queue (hb_chans h ! i) of
           [] \<Rightarrow> None
         | e # q \<Rightarrow> Some (h\<lparr>hb_chans := (hb_chans h)[i := (hb_chans h ! i)\<lparr>sub_queue := q,
               sub_received := sub_received (hb_chans h ! i) @ [e]\<rparr>]\<rparr>))
      else None)"
| "hub_step h (SubClose i) =
     (if i < length (hb_chans h)
      then Some (h\<lparr>hb_chans := (hb_chans h)[i := (hb_chans h ! i)\<lparr>sub_closed := True\<rparr>]\<rparr>) else None)"

fun hub_run :: "hub \<Rightarrow> hub_input list \<Rightarrow> hub option" where
  "hub_run h [] = Some h"
| "hub_run h (i # is) = (case hub_step h i of None \<Rightarrow> None | Some h' \<Rightarrow> hub_run h' is)"

lemma trim_backlog_drop: "trim_backlog cap b = drop (length b - cap) b"
  by (induction b) (auto simp: Suc_diff_le)

lemma replay_fits: "length q + length es \<le> cap \<Longrightarrow> replay cap q es = q @ es"
  by (induction es arbitrary: q) (auto simp: try_send_def)

text \<open>The event a sender still has to be given.\<close>

definition in_flight :: "hub \<Rightarrow> nat \<Rightarrow> event list" where
  "in_flight h i =
     (case hb_publishing h of Some (e, rest, _) \<Rightarrow> (if i \<in> set rest then [e] else []) | None \<Rightarrow> [])"

definition hub_log :: "subscriber \<Rightarrow> event list" where
  "hub_log c = sub_received c @ sub_queue c"

definition chan_ok :: "hub \<Rightarrow> nat \<Rightarrow> bool" where
  "chan_ok h i \<longleftrightarrow>
     (let c = hb_chans h ! i in
      i \<in> set (hb_subscribers h) \<and> sub_from c \<le> length (hb_published h) \<and>
      length (sub_queue c) \<le> sub_cap c \<and>
      hub_log c @ in_flight h i = drop (sub_from c - hb_capacity h) (hb_published h))"

definition hub_inv :: "hub \<Rightarrow> bool" where
  "hub_inv h \<longleftrightarrow>
     0 < hb_capacity h \<and>
     hb_backlog h = drop (length (hb_published h) - hb_capacity h) (hb_published h) \<and>
     distinct (hb_subscribers h) \<and> set (hb_subscribers h) \<subseteq> {..<length (hb_chans h)} \<and>
     (\<forall>e rest retired. hb_publishing h = Some (e, rest, retired) \<longrightarrow>
        distinct rest \<and> set rest \<subseteq> {..<length (hb_chans h)} \<and>
        (\<forall>i \<in> set retired. i < length (hb_chans h) \<and> sub_closed (hb_chans h ! i))) \<and>
     (\<forall>i < length (hb_chans h). \<not> sub_closed (hb_chans h ! i) \<longrightarrow> chan_ok h i)"

lemma hub_inv_new: "hub_inv (hub_new cap)"
  by (simp add: hub_inv_def hub_new_def)

lemma trim_backlog_window:
  assumes "0 < cap"
  shows "trim_backlog cap (drop (length xs - cap) xs @ [e]) = drop (Suc (length xs) - cap) (xs @ [e])"
proof (cases "length xs < cap")
  case True
  then show ?thesis by (simp add: trim_backlog_drop)
next
  case False
  then have "length (drop (length xs - cap) xs @ [e]) - cap = 1" by simp
  with False assms show ?thesis by (simp add: trim_backlog_drop Suc_diff_le)
qed

lemma hub_inv_begin:
  assumes "hub_inv h" and "hb_publishing h = None"
  shows "hub_inv (publish_begin h e)"
proof -
  have "chan_ok (publish_begin h e) i" if "i < length (hb_chans h)" "\<not> sub_closed (hb_chans h ! i)" for i
    using assms that by (auto simp: hub_inv_def chan_ok_def publish_begin_def in_flight_def Let_def)
  moreover have "trim_backlog (hb_capacity h) (hb_backlog h @ [e]) =
      drop (Suc (length (hb_published h)) - hb_capacity h) (hb_published h @ [e])"
    using assms(1) by (simp add: hub_inv_def trim_backlog_window)
  ultimately show ?thesis using assms by (auto simp: hub_inv_def publish_begin_def)
qed

lemma hub_inv_subscribe:
  assumes "hub_inv h"
  shows "hub_inv (subscribe h)"
proof -
  have "replay (hb_capacity h + length (hb_backlog h)) [] (hb_backlog h) = hb_backlog h"
    by (simp add: replay_fits)
  moreover have "length (hb_chans h) \<notin> set rest" if "hb_publishing h = Some (e, rest, retired)" for e rest retired
    using assms that by (auto simp: hub_inv_def)
  ultimately show ?thesis
    using assms
    by (auto simp: hub_inv_def subscribe_def chan_ok_def in_flight_def hub_log_def nth_append Let_def less_Suc_eq
      split: option.splits)
qed

text \<open>A change of one channel that keeps its log and its fixed fields keeps the invariant.\<close>

lemma hub_inv_send:
  assumes inv: "hub_inv h" and step: "publish_send h = Some h'"
  shows "hub_inv h'"
proof -
  obtain e i rest retired where pub: "hb_publishing h = Some (e, i # rest, retired)"
    using step by (auto simp: publish_send_def split: option.splits prod.splits list.splits)
  let ?c = "hb_chans h ! i"
  have i: "i < length (hb_chans h)" and rest: "distinct (i # rest)" "set rest \<subseteq> {..<length (hb_chans h)}"
    and ret: "\<forall>j \<in> set retired. j < length (hb_chans h) \<and> sub_closed (hb_chans h ! j)"
    using inv pub by (auto simp: hub_inv_def)
  have ok: "chan_ok h j" if "j < length (hb_chans h)" "\<not> sub_closed (hb_chans h ! j)" for j
    using inv that by (simp add: hub_inv_def)
  show ?thesis
  proof (cases "sub_closed ?c")
    case True
    then have h': "h' = h\<lparr>hb_publishing := Some (e, rest, retired @ [i])\<rparr>"
      using step pub by (simp add: publish_send_def try_send_def)
    have "chan_ok h' j" if "j < length (hb_chans h)" "\<not> sub_closed (hb_chans h ! j)" for j
      using ok [OF that] True that pub
      by (cases "j = i") (auto simp: h' chan_ok_def in_flight_def Let_def)
    with inv True i rest ret show ?thesis by (auto simp: hub_inv_def h')
  next
    case False
    then have room: "length (sub_queue ?c) < sub_cap ?c"
      and h': "h' = h\<lparr>hb_chans := (hb_chans h)[i := ?c\<lparr>sub_queue := sub_queue ?c @ [e]\<rparr>],
        hb_publishing := Some (e, rest, retired)\<rparr>"
      using step pub by (auto simp: publish_send_def try_send_def Let_def split: if_splits)
    have "chan_ok h' j" if "j < length (hb_chans h)" "\<not> sub_closed (hb_chans h ! j)" for j
      using ok [OF that] room that pub i rest(1)
      by (cases "j = i") (auto simp: h' chan_ok_def in_flight_def hub_log_def Let_def)
    with inv i rest ret False show ?thesis
      by (auto simp: hub_inv_def h' nth_list_update split: if_splits)
  qed
qed

lemma hub_inv_end:
  assumes inv: "hub_inv h" and step: "publish_end h = Some h'"
  shows "hub_inv h'"
proof -
  obtain e retired where pub: "hb_publishing h = Some (e, [], retired)"
    and h': "h' = h\<lparr>hb_publishing := None, hb_subscribers := filter (\<lambda>i. i \<notin> set retired) (hb_subscribers h)\<rparr>"
    using step by (auto simp: publish_end_def split: option.splits prod.splits list.splits if_splits)
  have "chan_ok h' j" if "j < length (hb_chans h)" "\<not> sub_closed (hb_chans h ! j)" for j
    using inv that pub by (auto simp: h' hub_inv_def chan_ok_def in_flight_def Let_def)
  with inv show ?thesis by (auto simp: hub_inv_def h')
qed

lemma hub_inv_chan:
  assumes inv: "hub_inv h" and i: "i < length (hb_chans h)"
    and c: "sub_from c = sub_from (hb_chans h ! i)" "sub_cap c = sub_cap (hb_chans h ! i)"
      "hub_log c = hub_log (hb_chans h ! i)" "length (sub_queue c) \<le> length (sub_queue (hb_chans h ! i))"
      "sub_closed (hb_chans h ! i) \<longrightarrow> sub_closed c"
  shows "hub_inv (h\<lparr>hb_chans := (hb_chans h)[i := c]\<rparr>)"
proof -
  let ?h = "h\<lparr>hb_chans := (hb_chans h)[i := c]\<rparr>"
  have "chan_ok ?h j" if "j < length (hb_chans h)" "\<not> sub_closed ((hb_chans h)[i := c] ! j)" for j
  proof -
    have "chan_ok h j" using inv that c(5) i by (cases "j = i") (auto simp: hub_inv_def)
    then show ?thesis using c that i by (cases "j = i") (auto simp: chan_ok_def in_flight_def Let_def)
  qed
  with inv i c(5) show ?thesis by (auto simp: hub_inv_def nth_list_update split: if_splits)
qed

lemma hub_inv_step: "hub_inv h \<Longrightarrow> hub_step h i = Some h' \<Longrightarrow> hub_inv h'"
proof (cases i)
  case (SubRecv n)
  moreover assume "hub_inv h" "hub_step h i = Some h'"
  ultimately show ?thesis
    by (auto simp: hub_log_def intro!: hub_inv_chan split: if_splits list.splits)
next
  case (SubClose n)
  moreover assume "hub_inv h" "hub_step h i = Some h'"
  ultimately show ?thesis by (auto simp: hub_log_def intro!: hub_inv_chan split: if_splits)
qed (auto intro: hub_inv_begin hub_inv_send hub_inv_end hub_inv_subscribe split: if_splits)

lemma hub_inv_run: "hub_inv h \<Longrightarrow> hub_run h is = Some h' \<Longrightarrow> hub_inv h'"
  by (induction "is" arbitrary: h) (auto intro: hub_inv_step split: option.splits)

text \<open>C10. Fan-out: at every point of every interleaving of publications, subscriptions, receptions and
  dropped receivers, what a watcher that is still there has received, has in its channel and is being
  sent is one contiguous stretch of the published sequence, in order and each event once: it starts
  \<open>capacity\<close> events before the subscription (or at the first event ever) and reaches to the last
  published event. The watcher is never unsubscribed and its channel never exceeds its capacity.\<close>

theorem hub_delivers:
  assumes "hub_run (hub_new cap) is = Some h" and "i < length (hb_chans h)" and "\<not> sub_closed (hb_chans h ! i)"
  shows "sub_received (hb_chans h ! i) @ sub_queue (hb_chans h ! i) @ in_flight h i =
      drop (sub_from (hb_chans h ! i) - hb_capacity h) (hb_published h) \<and>
    i \<in> set (hb_subscribers h) \<and> length (sub_queue (hb_chans h ! i)) \<le> sub_cap (hb_chans h ! i)"
  using hub_inv_run [OF hub_inv_new assms(1)] assms(2,3)
  by (simp add: hub_inv_def chan_ok_def hub_log_def Let_def)

theorem hub_delivers_witness:
  "\<exists>h. hub_run (hub_new 1) [Publish (sample_event Added 1), PublishEnd, Publish (sample_event Added 2), Subscribe, PublishEnd, Publish (sample_event Removed 2), PublishSend, SubRecv 0] = Some h \<and>
     sub_received (hb_chans h ! 0) = [sample_event Added 2] \<and> sub_received (hb_chans h ! 0) @ sub_queue (hb_chans h ! 0) @ in_flight h 0 = [sample_event Added 2, sample_event Removed 2]"
proof -
  obtain h where h: "hub_run (hub_new 1) [Publish (sample_event Added 1), PublishEnd, Publish (sample_event Added 2), Subscribe, PublishEnd, Publish (sample_event Removed 2), PublishSend, SubRecv 0] = Some h"
    and f: "length (hb_chans h) = 1" "\<not> sub_closed (hb_chans h ! 0)" "sub_received (hb_chans h ! 0) = [sample_event Added 2]"
      "hb_published h = [sample_event Added 1, sample_event Added 2, sample_event Removed 2]" "sub_from (hb_chans h ! 0) = 2" "hb_capacity h = 1"
    by (simp add: hub_new_def publish_begin_def publish_end_def publish_send_def subscribe_def try_send_def Let_def)
  from hub_delivers [OF h, of 0] f h show ?thesis by (intro exI [of _ h]) simp
qed

end
