(* ===== verification/Acquire.thy ===== *)
theory Acquire
  imports Kube Config Watch
begin

text \<open>
  \<open>subnet/kube/acquire.rs\<close>: waiting for the own node, the annotations flannel publishes on it and
  the lease taken from its pod CIDRs; \<open>subnet/kube/watch_ops.rs\<close>: the watch loops of the manager and
  the stored annotations; the pure parts of \<open>subnet/kube/mod.rs\<close> (node name, queue depth, waiting for
  the informer). What the API server, the clock and the context answer at each round of a polling
  loop is a list of attempts; times are milliseconds.
\<close>

section \<open>Polling loops\<close>

definition POLL_INTERVAL :: nat where "POLL_INTERVAL = 3000"

definition POLL_TIMEOUT :: nat where "POLL_TIMEOUT = 30000"

text \<open>One round: what the call returned, whether the context was cancelled after it, the time, and
  whether the sleep ran to its end.\<close>

record 'r attempt =
  at_reply :: 'r
  at_cancelled :: bool
  at_now :: nat
  at_slept :: bool

text \<open>\<open>None\<close> is a loop that still polls when the attempts are used up.\<close>

fun poll :: "('r \<Rightarrow> ('e + 'a) option) \<Rightarrow> 'e \<Rightarrow> 'e \<Rightarrow> nat \<Rightarrow> 'r attempt list \<Rightarrow> ('e + 'a) option" where
  "poll check cancelled timeout deadline [] = None"
| "poll check cancelled timeout deadline (a # as) =
     (case check (at_reply a) of
        Some r \<Rightarrow> Some r
      | None \<Rightarrow>
          if at_cancelled a then Some (Inl cancelled)
          else if deadline \<le> at_now a then Some (Inl timeout)
          else if \<not> at_slept a then Some (Inl cancelled)
          else poll check cancelled timeout deadline as)"

text \<open>Each sleep lasts \<open>min POLL_INTERVAL (deadline - now)\<close>.\<close>

fun clock_ok :: "nat \<Rightarrow> nat \<Rightarrow> 'r attempt list \<Rightarrow> bool" where
  "clock_ok deadline t [] = True"
| "clock_ok deadline t (a # as) =
     (t \<le> at_now a \<and> clock_ok deadline (at_now a + min POLL_INTERVAL (deadline - at_now a)) as)"

section \<open>The own node\<close>

record kube_manager =
  km_config :: config
  km_node_name :: string
  km_annotations :: annotations
  km_disable_node_informer :: bool

text \<open>The reply of a round: the answer to a GET of the node, and the entry of the node store.\<close>

definition fetch_node :: "kube_manager \<Rightarrow> node option \<times> node option \<Rightarrow> node option" where
  "fetch_node mgr reply = (if km_disable_node_informer mgr then fst reply else snd reply)"

fun cidrs_loop ::
  "string list \<Rightarrow> ip4net option \<times> ip6net option \<Rightarrow> kube_error + ip4net option \<times> ip6net option" where
  "cidrs_loop [] acc = Inr acc"
| "cidrs_loop (s # ss) (c4, c6) =
     (if has_colon s
      then (case n6_from_str s of Inl e \<Rightarrow> Inl (BadIp6 e) | Inr c \<Rightarrow> cidrs_loop ss (c4, Some c))
      else (case n4_from_str s of Inl e \<Rightarrow> Inl (BadIp4 e) | Inr c \<Rightarrow> cidrs_loop ss (Some c, c6)))"

definition acquire_pod_cidrs :: "kube_manager \<Rightarrow> node \<Rightarrow> kube_error + ip4net option \<times> ip6net option" where
  "acquire_pod_cidrs mgr n =
     (if length (nd_pod_cidrs n) = 0 then
        (let s = spec_pod_cidr n in
         if has_colon s then map_sum BadIp6 (\<lambda>c. (None, Some c)) (n6_from_str s)
         else if s \<noteq> [] then map_sum BadIp4 (\<lambda>c. (Some c, None)) (n4_from_str s)
         else Inr (None, None))
      else if length (nd_pod_cidrs n) \<le> 2 then cidrs_loop (nd_pod_cidrs n) (None, None)
      else Inl (TooManyCidrs (km_node_name mgr)))"

definition cidrs_ready :: "kube_manager \<Rightarrow> ip4net option \<Rightarrow> ip6net option \<Rightarrow> bool" where
  "cidrs_ready mgr c4 c6 \<longleftrightarrow>
     (\<not> cfg_enable_ipv4 (km_config mgr) \<or> c4 \<noteq> None) \<and> (\<not> cfg_enable_ipv6 (km_config mgr) \<or> c6 \<noteq> None)"

definition node_check :: "kube_manager \<Rightarrow> node option \<times> node option \<Rightarrow> (kube_error + node) option" where
  "node_check mgr reply =
     (case fetch_node mgr reply of
        None \<Rightarrow> None
      | Some n \<Rightarrow>
          (case acquire_pod_cidrs mgr n of
             Inl e \<Rightarrow> Some (Inl e)
           | Inr (c4, c6) \<Rightarrow> if cidrs_ready mgr c4 c6 then Some (Inr n) else None))"

definition wait_for_node_with_cidrs ::
  "kube_manager \<Rightarrow> nat \<Rightarrow> (node option \<times> node option) attempt list \<Rightarrow> (kube_error + node) option" where
  "wait_for_node_with_cidrs mgr start as =
     poll (node_check mgr) (WaitCancelled (km_node_name mgr)) (WaitTimeout (km_node_name mgr))
       (start + POLL_TIMEOUT) as"

section \<open>Annotations\<close>

definition raw_to_string :: "string option \<Rightarrow> string" where
  "raw_to_string d = (case d of Some raw \<Rightarrow> raw | None \<Rightarrow> ''null'')"

definition v4_changed :: "annotations \<Rightarrow> lease_attrs \<Rightarrow> (string \<rightharpoonup> string) \<Rightarrow> string \<Rightarrow> bool" where
  "v4_changed a at ann bd \<longleftrightarrow>
     (let ip = ip4_to_string (public_ip at) in
      annotation ann (an_backend_data a) \<noteq> bd \<or>
      annotation ann (an_backend_type a) \<noteq> backend_type at \<or>
      annotation ann (an_backend_public_ip a) \<noteq> ip \<or>
      annotation ann (an_subnet_kube_managed a) \<noteq> ''true'' \<or>
      annotation ann (an_backend_public_ip_overwrite a) \<noteq> [] \<and>
        annotation ann (an_backend_public_ip_overwrite a) \<noteq> ip)"

definition v6_changed :: "annotations \<Rightarrow> lease_attrs \<Rightarrow> (string \<rightharpoonup> string) \<Rightarrow> string \<Rightarrow> bool" where
  "v6_changed a at ann v6_bd \<longleftrightarrow>
     (case public_ipv6 at of
        None \<Rightarrow> False
      | Some ip6 \<Rightarrow>
          (let ip = ip6_to_string ip6 in
           annotation ann (an_backend_v6_data a) \<noteq> v6_bd \<or>
           annotation ann (an_backend_type a) \<noteq> backend_type at \<or>
           annotation ann (an_backend_public_ipv6 a) \<noteq> ip \<or>
           annotation ann (an_subnet_kube_managed a) \<noteq> ''true'' \<or>
           annotation ann (an_backend_public_ipv6_overwrite a) \<noteq> [] \<and>
             annotation ann (an_backend_public_ipv6_overwrite a) \<noteq> ip))"

definition needs_patch :: "annotations \<Rightarrow> lease_attrs \<Rightarrow> (string \<rightharpoonup> string) \<Rightarrow> string \<Rightarrow> string \<Rightarrow> bool" where
  "needs_patch a at ann bd v6_bd \<longleftrightarrow> v4_changed a at ann bd \<or> v6_changed a at ann v6_bd"

text \<open>The data of one family and its public address, which an overwrite annotation replaces.\<close>

definition set_family ::
  "string \<Rightarrow> string \<Rightarrow> string \<Rightarrow> string \<Rightarrow> string \<Rightarrow> (string \<rightharpoonup> string) \<Rightarrow> (string \<rightharpoonup> string)" where
  "set_family data_key ip_key overwrite_key data ip ann =
     (let ann = ann(data_key \<mapsto> data); overwrite = annotation ann overwrite_key in
      if overwrite \<noteq> [] then
        (if annotation ann ip_key \<noteq> overwrite then ann(ip_key \<mapsto> overwrite) else ann)
      else ann(ip_key \<mapsto> ip))"

definition publishes_v4 :: "lease_attrs \<Rightarrow> string \<Rightarrow> bool" where
  "publishes_v4 at bd \<longleftrightarrow> backend_type at \<noteq> ''vxlan'' \<or> bd \<noteq> ''null''"

definition publishes_v6 :: "lease_attrs \<Rightarrow> string \<Rightarrow> bool" where
  "publishes_v6 at v6_bd \<longleftrightarrow>
     backend_type at = ''vxlan'' \<and> v6_bd \<noteq> ''null'' \<or>
     backend_type at = ''wireguard'' \<and> v6_bd \<noteq> ''null'' \<and> public_ipv6 at \<noteq> None \<or>
     backend_type at = ''host-gw'' \<and> public_ipv6 at \<noteq> None \<or>
     backend_type at = ''extension'' \<and> public_ipv6 at \<noteq> None"

definition set_v4 :: "annotations \<Rightarrow> lease_attrs \<Rightarrow> string \<Rightarrow> (string \<rightharpoonup> string) \<Rightarrow> (string \<rightharpoonup> string)" where
  "set_v4 a at bd ann =
     (if publishes_v4 at bd
      then set_family (an_backend_data a) (an_backend_public_ip a) (an_backend_public_ip_overwrite a)
             bd (ip4_to_string (public_ip at)) ann
      else ann)"

definition set_v6 :: "annotations \<Rightarrow> lease_attrs \<Rightarrow> string \<Rightarrow> (string \<rightharpoonup> string) \<Rightarrow> (string \<rightharpoonup> string)" where
  "set_v6 a at v6_bd ann =
     (if publishes_v6 at v6_bd
      then (case public_ipv6 at of
              Some ip6 \<Rightarrow> set_family (an_backend_v6_data a) (an_backend_public_ipv6 a)
                            (an_backend_public_ipv6_overwrite a) v6_bd (ip6_to_string ip6) ann
            | None \<Rightarrow> ann)
      else ann)"

definition new_annotation_map ::
  "annotations \<Rightarrow> lease_attrs \<Rightarrow> string \<Rightarrow> string \<Rightarrow> (string \<rightharpoonup> string) \<Rightarrow> (string \<rightharpoonup> string)" where
  "new_annotation_map a at bd v6_bd ann =
     (set_v6 a at v6_bd (set_v4 a at bd (ann(an_backend_type a \<mapsto> backend_type at))))
       (an_subnet_kube_managed a \<mapsto> ''true'')"

text \<open>The patch: the annotations that are new or differ.\<close>

definition annotation_diff :: "(string \<rightharpoonup> string) \<Rightarrow> (string \<rightharpoonup> string) \<Rightarrow> (string \<rightharpoonup> string)" where
  "annotation_diff old new = (\<lambda>k. case new k of None \<Rightarrow> None | Some v \<Rightarrow> if old k \<noteq> Some v then Some v else None)"

definition annotation_patch ::
  "kube_manager \<Rightarrow> lease_attrs \<Rightarrow> node \<Rightarrow> string \<Rightarrow> string \<Rightarrow> (string \<rightharpoonup> string) option" where
  "annotation_patch mgr at n bd v6_bd =
     (let a = km_annotations mgr; ann = nd_annotations n in
      if needs_patch a at ann bd v6_bd
      then Some (annotation_diff ann (new_annotation_map a at bd v6_bd ann)) else None)"

definition patch_with_retry :: "kube_manager \<Rightarrow> nat \<Rightarrow> bool attempt list \<Rightarrow> (kube_error + unit) option" where
  "patch_with_retry mgr start as =
     poll (\<lambda>ok. if ok then Some (Inr ()) else None)
       (PatchCancelled (km_node_name mgr)) (PatchTimeout (km_node_name mgr)) (start + POLL_TIMEOUT) as"

definition maybe_patch_annotations ::
  "kube_manager \<Rightarrow> nat \<Rightarrow> bool attempt list \<Rightarrow> lease_attrs \<Rightarrow> node \<Rightarrow> string \<Rightarrow> string \<Rightarrow> (kube_error + unit) option" where
  "maybe_patch_annotations mgr start as at n bd v6_bd =
     (case annotation_patch mgr at n bd v6_bd of
        None \<Rightarrow> Some (Inr ())
      | Some _ \<Rightarrow> patch_with_retry mgr start as)"

section \<open>The lease\<close>

text \<open>The part after the patch: containment in the configured networks.\<close>

definition lease_v4 :: "kube_manager \<Rightarrow> ip4net option \<Rightarrow> lease \<Rightarrow> kube_error + lease" where
  "lease_v4 mgr c4 l =
     (let nw = cfg_network (km_config mgr) in
      case c4 of
        None \<Rightarrow> Inr l
      | Some c \<Rightarrow>
          if \<not> cfg_enable_ipv4 (km_config mgr) then Inr l
          else if n4_empty nw \<or> \<not> n4_contains_cidr nw c then Inl (NotContainedV4 nw c (km_node_name mgr))
          else Inr (l\<lparr>subnet := c\<rparr>))"

definition lease_v6 :: "kube_manager \<Rightarrow> ip6net option \<Rightarrow> lease \<Rightarrow> kube_error + lease" where
  "lease_v6 mgr c6 l =
     (let nw = cfg_ipv6_network (km_config mgr) in
      case c6 of
        None \<Rightarrow> Inr l
      | Some c \<Rightarrow>
          if \<not> cfg_enable_ipv6 (km_config mgr) then Inr l
          else if n6_empty nw \<or> \<not> n6_contains_cidr nw c then Inl (NotContainedV6 nw c (km_node_name mgr))
          else Inr (l\<lparr>ipv6_subnet := c\<rparr>))"

definition lease_flags :: "lease_attrs \<Rightarrow> lease \<Rightarrow> lease" where
  "lease_flags at l =
     (if backend_type at \<noteq> ''vxlan'' \<and> backend_type at \<noteq> ''host-gw'' \<and> backend_type at \<noteq> ''wireguard''
      then l\<lparr>enable_ipv4 := True, enable_ipv6 := False\<rparr> else l)"

definition lease_from_cidrs ::
  "kube_manager \<Rightarrow> lease_attrs \<Rightarrow> int \<Rightarrow> ip4net option \<Rightarrow> ip6net option \<Rightarrow> kube_error + lease" where
  "lease_from_cidrs mgr at expires c4 c6 =
     rbind (lease_v4 mgr c4 (blank_lease\<lparr>attrs := at, expiration := expires\<rparr>)) (\<lambda>l.
     rbind (lease_v6 mgr c6 l) (\<lambda>l. Inr (lease_flags at l)))"

definition acquire_lease ::
  "kube_manager \<Rightarrow> nat \<Rightarrow> (node option \<times> node option) attempt list \<Rightarrow> nat \<Rightarrow> bool attempt list \<Rightarrow>
     int \<Rightarrow> lease_attrs \<Rightarrow> (kube_error + lease) option" where
  "acquire_lease mgr start as pstart pas expires at =
     (let bd = raw_to_string (backend_data at); v6_bd = raw_to_string (backend_v6_data at) in
      case wait_for_node_with_cidrs mgr start as of
        None \<Rightarrow> None
      | Some (Inl e) \<Rightarrow> Some (Inl e)
      | Some (Inr n) \<Rightarrow>
          (case acquire_pod_cidrs mgr n of
             Inl e \<Rightarrow> Some (Inl e)
           | Inr (c4, c6) \<Rightarrow>
               (case maybe_patch_annotations mgr pstart pas at n bd v6_bd of
                  None \<Rightarrow> None
                | Some (Inl e) \<Rightarrow> Some (Inl e)
                | Some (Inr _) \<Rightarrow> Some (lease_from_cidrs mgr at expires c4 c6))))"

section \<open>Watching and stored annotations\<close>

text \<open>What the loop of \<open>watch_leases\<close> and \<open>watch_lease\<close> sees next.\<close>

datatype hub_recv = HubEvent event | HubClosed | WatchCancelled

text \<open>\<open>watch_ops.rs\<close> \<open>forward\<close>: one event as one batch.\<close>

definition forward :: "event \<Rightarrow> lease_watch_result list sender \<Rightarrow> lease_watch_result list sender \<times> bool" where
  "forward e tx = send [\<lparr>wr_events = [e], wr_snapshot = []\<rparr>] tx"

text \<open>The result: \<open>Inl\<close> for the error of a cancelled context, \<open>Inr\<close> for a return; \<open>None\<close> while the
  loop waits.\<close>

fun kube_watch_leases ::
  "hub_recv list \<Rightarrow> lease_watch_result list sender \<Rightarrow> lease_watch_result list sender \<times> (unit + unit) option" where
  "kube_watch_leases [] tx = (tx, None)"
| "kube_watch_leases (WatchCancelled # is) tx = (tx, Some (Inl ()))"
| "kube_watch_leases (HubClosed # is) tx = (tx, Some (Inr ()))"
| "kube_watch_leases (HubEvent e # is) tx =
     (let (tx, ok) = forward e tx in if ok then kube_watch_leases is tx else (tx, Some (Inr ())))"

definition watch_filter :: "ip4net \<Rightarrow> ip6net \<Rightarrow> event \<Rightarrow> bool" where
  "watch_filter sn sn6 e \<longleftrightarrow>
     \<not> n4_empty sn \<and> subnet (ev_lease e) = sn \<or> \<not> n6_empty sn6 \<and> ipv6_subnet (ev_lease e) = sn6"

fun kube_watch_lease ::
  "ip4net \<Rightarrow> ip6net \<Rightarrow> hub_recv list \<Rightarrow> lease_watch_result list sender \<Rightarrow>
     lease_watch_result list sender \<times> (unit + unit) option" where
  "kube_watch_lease sn sn6 [] tx = (tx, None)"
| "kube_watch_lease sn sn6 (WatchCancelled # is) tx = (tx, Some (Inl ()))"
| "kube_watch_lease sn sn6 (HubClosed # is) tx = (tx, Some (Inr ()))"
| "kube_watch_lease sn sn6 (HubEvent e # is) tx =
     (if \<not> watch_filter sn sn6 e then kube_watch_lease sn sn6 is tx
      else let (tx, ok) = forward e tx in if ok then kube_watch_lease sn sn6 is tx else (tx, Some (Inr ())))"

text \<open>\<open>str::trim_matches\<close> on a set of characters and \<open>str::split\<close> on the two characters colon and quote.\<close>

definition trim_matches :: "(char \<Rightarrow> bool) \<Rightarrow> string \<Rightarrow> string" where
  "trim_matches p s = rev (dropWhile p (rev (dropWhile p s)))"

fun split_colon_quote :: "string \<Rightarrow> string list" where
  "split_colon_quote [] = [[]]"
| "split_colon_quote [x] = [[x]]"
| "split_colon_quote (x # y # zs) =
     (if x = CHR '':'' \<and> y = CHR 0x22 then [] # split_colon_quote zs
      else (case split_colon_quote (y # zs) of [] \<Rightarrow> [[x]] | p # ps \<Rightarrow> (x # p) # ps))"

definition extract_mac :: "string option \<Rightarrow> string" where
  "extract_mac value =
     (case value of
        None \<Rightarrow> []
      | Some d \<Rightarrow>
          (let parts = split_colon_quote (trim_matches (\<lambda>c. c = CHR 0x22 \<or> c = CHR ''}'') d) in
           if length parts = 2 then parts ! 1 else []))"

definition get_stored_mac_addresses :: "kube_manager \<Rightarrow> node option \<Rightarrow> string \<times> string" where
  "get_stored_mac_addresses mgr reply =
     (case reply of
        None \<Rightarrow> ([], [])
      | Some n \<Rightarrow> (extract_mac (nd_annotations n (an_backend_data (km_annotations mgr))),
                   extract_mac (nd_annotations n (an_backend_v6_data (km_annotations mgr)))))"

definition get_stored_public_ip :: "kube_manager \<Rightarrow> node option \<Rightarrow> string \<times> string" where
  "get_stored_public_ip mgr reply =
     (case reply of
        None \<Rightarrow> ([], [])
      | Some n \<Rightarrow> (annotation (nd_annotations n) (an_backend_node_public_ip (km_annotations mgr)),
                   annotation (nd_annotations n) (an_backend_node_public_ipv6 (km_annotations mgr))))"

section \<open>Start of the manager\<close>

definition DEFAULT_EVENT_QUEUE_DEPTH :: nat where "DEFAULT_EVENT_QUEUE_DEPTH = 5000"

text \<open>\<open>i64::from_str\<close>: an optional sign and decimal digits within the range of 64 bits.\<close>

definition parse_i64 :: "string \<Rightarrow> int option" where
  "parse_i64 s =
     (case s of
        [] \<Rightarrow> None
      | c # cs \<Rightarrow>
          if c = CHR ''-'' then
            (if cs = [] \<or> \<not> list_all (is_digit 10) cs \<or> digits_value 10 cs > 2 ^ 63 then None
             else Some (- int (digits_value 10 cs)))
          else map_option int (parse_unsigned (2 ^ 63) s))"

text \<open>\<open>Inl\<close> carries the text that is no number.\<close>

definition event_queue_depth :: "string \<Rightarrow> string + nat" where
  "event_queue_depth scale =
     (if scale = [] then Inr DEFAULT_EVENT_QUEUE_DEPTH
      else case parse_i64 scale of
          None \<Rightarrow> Inl scale
        | Some n \<Rightarrow> Inr (if n > 0 then nat n else DEFAULT_EVENT_QUEUE_DEPTH))"

datatype node_name_error = PodEnvMissing | PodLookup string string | NoNodeName string string

text \<open>The environment variables are empty when unset; \<open>get_pod\<close> is the API call: the node name of the
  pod's spec, if it has one.\<close>

definition resolve_node_name ::
  "string \<Rightarrow> string \<Rightarrow> string \<Rightarrow> (string \<Rightarrow> string \<Rightarrow> string option option) \<Rightarrow> node_name_error + string" where
  "resolve_node_name node_name pod_name pod_namespace get_pod =
     (if node_name \<noteq> [] then Inr node_name
      else if pod_name = [] \<or> pod_namespace = [] then Inl PodEnvMissing
      else case get_pod pod_namespace pod_name of
          None \<Rightarrow> Inl (PodLookup pod_namespace pod_name)
        | Some (Some name) \<Rightarrow> if name \<noteq> [] then Inr name else Inl (NoNodeName pod_namespace pod_name)
        | Some None \<Rightarrow> Inl (NoNodeName pod_namespace pod_name))"

definition NODE_CONTROLLER_SYNC_TIMEOUT :: nat where "NODE_CONTROLLER_SYNC_TIMEOUT = 600000"

datatype sync_error = SyncCancelled | SyncDeadline

text \<open>A round of \<open>wait_synced\<close>: the flag of the store, the context, the time, the sleep.\<close>

fun wait_synced :: "nat \<Rightarrow> bool attempt list \<Rightarrow> (sync_error + unit) option" where
  "wait_synced deadline [] = None"
| "wait_synced deadline (a # as) =
     (if at_reply a then Some (Inr ())
      else if at_cancelled a then Some (Inl SyncCancelled)
      else if deadline \<le> at_now a then Some (Inl SyncDeadline)
      else if \<not> at_slept a then Some (Inl SyncCancelled)
      else wait_synced deadline as)"

section \<open>Polling ends\<close>

lemma poll_returns:
  assumes "clock_ok deadline t as" and "deadline \<le> t + POLL_INTERVAL * k" and "k < length as"
  shows "poll check c u deadline as \<noteq> None"
  using assms
proof (induction as arbitrary: t k)
  case (Cons a as)
  show ?case
  proof (cases "check (at_reply a) = None \<and> \<not> at_cancelled a \<and> at_now a < deadline \<and> at_slept a")
    case True
    then obtain k' where k: "k = Suc k'" using Cons.prems by (cases k) auto
    have "deadline \<le> at_now a + min POLL_INTERVAL (deadline - at_now a) + POLL_INTERVAL * k'"
      using Cons.prems True k by auto
    with Cons.IH [of "at_now a + min POLL_INTERVAL (deadline - at_now a)" k'] Cons.prems k True
    show ?thesis by simp
  next
    case False
    then show ?thesis by (auto split: option.split)
  qed
qed simp

lemma poll_prefix: "poll check c u deadline as = Some r \<Longrightarrow> poll check c u deadline (as @ bs) = Some r"
  by (induction as) (auto split: option.splits if_splits)

lemma poll_Inr: "poll check c u deadline as = Some (Inr x) \<Longrightarrow> \<exists>a \<in> set as. check (at_reply a) = Some (Inr x)"
  by (induction as) (auto split: option.splits if_splits)

text \<open>The wait for the own node ends: whatever the API server answers, if the clock advances by
  at least each sleep, it returns a node or an error within eleven attempts, and a node it returns
  has the pod CIDRs of the enabled address families.\<close>

theorem wait_for_node_returns:
  assumes "clock_ok (start + POLL_TIMEOUT) start as" and "11 \<le> length as"
  shows "\<exists>r. wait_for_node_with_cidrs mgr start (take 11 as) = Some r \<and>
    wait_for_node_with_cidrs mgr start as = Some r \<and>
    (\<forall>n. r = Inr n \<longrightarrow> (\<exists>c4 c6. acquire_pod_cidrs mgr n = Inr (c4, c6) \<and> cidrs_ready mgr c4 c6))"
proof -
  have take: "clock_ok d t (take n as)" if "clock_ok d t as" for d t n
    using that by (induction as arbitrary: t n) (auto simp: take_Cons')
  have "wait_for_node_with_cidrs mgr start (take 11 as) \<noteq> None"
    unfolding wait_for_node_with_cidrs_def
    by (rule poll_returns [where k = 10, OF take [OF assms(1)]])
      (use assms(2) in \<open>simp_all add: POLL_TIMEOUT_def POLL_INTERVAL_def\<close>)
  then obtain r where r: "wait_for_node_with_cidrs mgr start (take 11 as) = Some r" by auto
  then have all: "wait_for_node_with_cidrs mgr start as = Some r"
    using poll_prefix [of _ _ _ _ "take 11 as" r "drop 11 as"] by (simp add: wait_for_node_with_cidrs_def)
  have "\<exists>c4 c6. acquire_pod_cidrs mgr n = Inr (c4, c6) \<and> cidrs_ready mgr c4 c6" if "r = Inr n" for n
    using all that by (auto simp: wait_for_node_with_cidrs_def node_check_def dest!: poll_Inr
      split: option.splits sum.splits if_splits)
  with r all show ?thesis by blast
qed

theorem wait_for_node_returns_witness:
  "\<exists>mgr r. wait_for_node_with_cidrs mgr 0
     (map (\<lambda>k. \<lparr>at_reply = (None, None), at_cancelled = False, at_now = 3000 * k, at_slept = True\<rparr>) [0..<12]) = Some r"
proof -
  let ?as = "map (\<lambda>k. \<lparr>at_reply = (None, None), at_cancelled = False, at_now = 3000 * k, at_slept = True\<rparr>) [0..<12]"
  have c: "clock_ok (0 + POLL_TIMEOUT) 0 ?as"
    by code_simp
  have "11 \<le> length ?as" by simp
  from wait_for_node_returns [OF c this] show ?thesis by blast
qed

section \<open>What is published\<close>

definition keys_distinct :: "annotations \<Rightarrow> bool" where
  "keys_distinct a \<longleftrightarrow> distinct
     [an_subnet_kube_managed a, an_backend_data a, an_backend_v6_data a, an_backend_type a,
      an_backend_public_ip a, an_backend_public_ipv6 a, an_backend_node_public_ip a,
      an_backend_node_public_ipv6 a, an_backend_public_ip_overwrite a, an_backend_public_ipv6_overwrite a]"

lemma new_annotations_distinct: "new_annotations prefix = Inr a \<Longrightarrow> keys_distinct a"
  by (auto simp: new_annotations_def keys_distinct_def Let_def split: if_splits)

lemma annotation_upd: "annotation (m(k \<mapsto> v)) k' = (if k' = k then v else annotation m k')"
  by (simp add: annotation_def)

text \<open>Applying the patch gives the intended annotations and touches nothing else.\<close>

lemma annotation_diff_apply:
  "dom old \<subseteq> dom new \<Longrightarrow> old ++ annotation_diff old new = new"
  by (intro ext) (auto simp: annotation_diff_def map_add_def dom_def split: option.splits)

lemma set_family_keeps: "dom ann \<subseteq> dom (set_family dk ik ok d ip ann)"
  unfolding set_family_def Let_def by (split if_split)+ auto

lemma new_annotation_map_keeps: "dom ann \<subseteq> dom (new_annotation_map a at bd v6_bd ann)"
proof -
  have v4: "dom m \<subseteq> dom (set_v4 a at bd m)" for m
    by (simp add: set_v4_def set_family_keeps)
  have v6: "dom m \<subseteq> dom (set_v6 a at v6_bd m)" for m
    by (simp add: set_v6_def set_family_keeps split: option.split)
  have upd: "dom m \<subseteq> dom (m(k \<mapsto> v))" for m :: "string \<rightharpoonup> string" and k v by auto
  show ?thesis
    unfolding new_annotation_map_def by (rule subset_trans [OF upd subset_trans [OF v4 subset_trans [OF v6 upd]]])
qed

text \<open>The annotations of the own node once the patch is accepted.\<close>

definition patched :: "kube_manager \<Rightarrow> lease_attrs \<Rightarrow> string \<Rightarrow> string \<Rightarrow> node \<Rightarrow> node" where
  "patched mgr at bd v6_bd n =
     (case annotation_patch mgr at n bd v6_bd of
        None \<Rightarrow> n
      | Some p \<Rightarrow> n\<lparr>nd_annotations := nd_annotations n ++ p\<rparr>)"

lemma patched_annotations:
  "nd_annotations (patched mgr at bd v6_bd n) =
     (if needs_patch (km_annotations mgr) at (nd_annotations n) bd v6_bd
      then new_annotation_map (km_annotations mgr) at bd v6_bd (nd_annotations n) else nd_annotations n)"
  using annotation_diff_apply [OF new_annotation_map_keeps]
  by (simp add: patched_def annotation_patch_def Let_def)

lemma set_family_annotation:
  assumes "distinct [dk, ik, ok]"
  shows "annotation (set_family dk ik ok d ip ann) dk = d"
    and "annotation (set_family dk ik ok d ip ann) ik = (if annotation ann ok \<noteq> [] then annotation ann ok else ip)"
    and "k \<noteq> dk \<Longrightarrow> k \<noteq> ik \<Longrightarrow> annotation (set_family dk ik ok d ip ann) k = annotation ann k"
  using assms by (auto simp: set_family_def annotation_upd Let_def)

text \<open>A family leaves the keys of the others alone.\<close>

lemma set_v4_annotation:
  assumes "keys_distinct a" and "publishes_v4 at bd"
  shows "annotation (set_v4 a at bd m) (an_backend_data a) = bd"
    and "annotation (set_v4 a at bd m) (an_backend_public_ip a) =
      (if annotation m (an_backend_public_ip_overwrite a) \<noteq> [] then annotation m (an_backend_public_ip_overwrite a)
       else ip4_to_string (public_ip at))"
    and "annotation (set_v4 a at bd m) (an_backend_type a) = annotation m (an_backend_type a)"
  using assms by (auto simp: set_v4_def keys_distinct_def set_family_annotation)

lemma set_v6_annotation:
  assumes "keys_distinct a"
  shows "annotation (set_v6 a at bd m) (an_backend_data a) = annotation m (an_backend_data a)"
    and "annotation (set_v6 a at bd m) (an_backend_public_ip a) = annotation m (an_backend_public_ip a)"
    and "annotation (set_v6 a at bd m) (an_backend_type a) = annotation m (an_backend_type a)"
  using assms by (auto simp: set_v6_def keys_distinct_def set_family_annotation split: option.split)

lemma new_annotation_map_v4:
  assumes "keys_distinct a" and "publishes_v4 at bd"
  shows "annotation (new_annotation_map a at bd v6_bd m) (an_backend_data a) = bd"
    and "annotation (new_annotation_map a at bd v6_bd m) (an_backend_type a) = backend_type at"
    and "annotation (new_annotation_map a at bd v6_bd m) (an_subnet_kube_managed a) = ''true''"
    and "annotation (new_annotation_map a at bd v6_bd m) (an_backend_public_ip a) =
      (if annotation m (an_backend_public_ip_overwrite a) \<noteq> [] then annotation m (an_backend_public_ip_overwrite a)
       else ip4_to_string (public_ip at))"
proof -
  note d = assms(1) [unfolded keys_distinct_def]
  note f = set_v6_annotation [OF assms(1)] set_v4_annotation [OF assms]
  show "annotation (new_annotation_map a at bd v6_bd m) (an_backend_data a) = bd"
    using d by (auto simp: new_annotation_map_def annotation_upd f)
  show "annotation (new_annotation_map a at bd v6_bd m) (an_backend_type a) = backend_type at"
    using d by (auto simp: new_annotation_map_def annotation_upd f)
  show "annotation (new_annotation_map a at bd v6_bd m) (an_subnet_kube_managed a) = ''true''"
    by (simp add: new_annotation_map_def annotation_upd)
  show "annotation (new_annotation_map a at bd v6_bd m) (an_backend_public_ip a) =
      (if annotation m (an_backend_public_ip_overwrite a) \<noteq> [] then annotation m (an_backend_public_ip_overwrite a)
       else ip4_to_string (public_ip at))"
    using d by (auto simp: new_annotation_map_def annotation_upd f)
qed

text \<open>The four annotations the other nodes read.\<close>

lemma published_v4:
  fixes n :: node and v6_bd :: string
  assumes "keys_distinct (km_annotations mgr)" and "publishes_v4 at bd"
  defines "a \<equiv> km_annotations mgr" and "m \<equiv> nd_annotations (patched mgr at bd v6_bd n)"
    and "ow \<equiv> annotation (nd_annotations n) (an_backend_public_ip_overwrite (km_annotations mgr))"
  shows "annotation m (an_backend_data a) = bd" and "annotation m (an_backend_type a) = backend_type at"
    and "annotation m (an_subnet_kube_managed a) = ''true''"
    and "annotation m (an_backend_public_ip a) = (if ow \<noteq> [] then ow else ip4_to_string (public_ip at))"
  unfolding a_def m_def ow_def patched_annotations
  by (auto simp: new_annotation_map_v4 [OF assms(1,2)] needs_patch_def v4_changed_def Let_def)

definition one_v4 :: "node \<Rightarrow> bool" where
  "one_v4 n \<longleftrightarrow> length (filter (\<lambda>c. \<not> has_colon c) (nd_pod_cidrs n)) \<le> 1"

lemma cidrs_loop_no_v4: "\<forall>s \<in> set ss. has_colon s \<Longrightarrow> cidrs_loop ss (c4, c6) = Inr (d4, d6) \<Longrightarrow> d4 = c4"
  by (induction ss "(c4, c6)" arbitrary: c4 c6 rule: cidrs_loop.induct) (auto split: sum.splits)

lemma cidrs_loop_find:
  assumes "cidrs_loop ss (None, c6) = Inr (Some c, d6)" and "length (filter (\<lambda>c. \<not> has_colon c) ss) \<le> 1"
  shows "\<exists>s. find (\<lambda>c. \<not> has_colon c) ss = Some s \<and> n4_from_str s = Inr c"
  using assms
proof (induction ss arbitrary: c6)
  case (Cons s ss)
  show ?case
  proof (cases "has_colon s")
    case True
    with Cons show ?thesis by (auto split: sum.splits)
  next
    case False
    with Cons.prems(2) have "\<forall>s \<in> set ss. has_colon s" by (auto simp: filter_empty_conv)
    with False Cons.prems(1) show ?thesis by (auto dest: cidrs_loop_no_v4 split: sum.splits)
  qed
qed simp

lemma acquire_lease_cidr4:
  assumes "acquire_pod_cidrs mgr n = Inr (Some c, c6)" and "one_v4 n"
  shows "lease_cidr4 n = Inr (Some c)"
proof (cases "nd_pod_cidrs n = []")
  case True
  with assms show ?thesis
    by (auto simp: acquire_pod_cidrs_def lease_cidr4_def Let_def map_sum_def split: if_splits sum.splits)
next
  case False
  with assms have "cidrs_loop (nd_pod_cidrs n) (None, None) = Inr (Some c, c6)" "length (nd_pod_cidrs n) \<le> 2"
    by (auto simp: acquire_pod_cidrs_def split: if_splits)
  with cidrs_loop_find [OF this(1)] False assms(2) show ?thesis
    by (auto simp: lease_cidr4_def one_v4_def Let_def)
qed

lemma lease_v4_Some:
  "cfg_enable_ipv4 (km_config mgr) \<Longrightarrow> lease_v4 mgr (Some c) l = Inr l' \<Longrightarrow>
     subnet l' = c \<and> n4_contains_cidr (cfg_network (km_config mgr)) c \<and> attrs l' = attrs l"
  by (auto simp: lease_v4_def Let_def split: if_splits)

lemma lease_v6_keeps: "lease_v6 mgr c6 l = Inr l' \<Longrightarrow> subnet l' = subnet l \<and> attrs l' = attrs l"
  by (auto simp: lease_v6_def Let_def split: option.splits if_splits)

lemma lease_flags_keeps: "subnet (lease_flags at l) = subnet l \<and> attrs (lease_flags at l) = attrs l"
  by (simp add: lease_flags_def)

lemma acquire_lease_cases:
  assumes "acquire_lease mgr start as pstart pas expires at = Some (Inr l)"
  obtains r n c4 c6 where "r \<in> set as" and "fetch_node mgr (at_reply r) = Some n"
    and "acquire_pod_cidrs mgr n = Inr (c4, c6)" and "cidrs_ready mgr c4 c6"
    and "lease_from_cidrs mgr at expires c4 c6 = Inr l"
proof -
  obtain n where w: "wait_for_node_with_cidrs mgr start as = Some (Inr n)"
    and rest: "(case acquire_pod_cidrs mgr n of
             Inl e \<Rightarrow> Some (Inl e)
           | Inr (c4, c6) \<Rightarrow>
               (case maybe_patch_annotations mgr pstart pas at n (raw_to_string (backend_data at)) (raw_to_string (backend_v6_data at)) of
                  None \<Rightarrow> None
                | Some (Inl e) \<Rightarrow> Some (Inl e)
                | Some (Inr _) \<Rightarrow> Some (lease_from_cidrs mgr at expires c4 c6))) = Some (Inr l)"
    using assms by (auto simp: acquire_lease_def Let_def split: option.splits sum.splits)
  from w obtain r where r: "r \<in> set as" "node_check mgr (at_reply r) = Some (Inr n)"
    by (auto simp: wait_for_node_with_cidrs_def dest: poll_Inr)
  from r(2) rest show ?thesis
    by (auto simp: node_check_def intro: that [OF r(1)] split: option.splits sum.splits prod.splits if_splits)
qed

lemma node_to_lease_v4_ok:
  assumes "ev_enable_ipv4 env" and "\<not> ev_enable_ipv6 env"
    and "ip4_from_str (annotation (nd_annotations n) (an_backend_public_ip (ev_annotations env))) = Inr ip"
    and "lease_cidr4 n = Inr (Some c)"
  shows "\<exists>l. node_to_lease env n = Inr l \<and> enable_ipv4 l \<and> subnet l = c \<and> public_ip (attrs l) = ip \<and>
    backend_type (attrs l) = annotation (nd_annotations n) (an_backend_type (ev_annotations env)) \<and>
    backend_data (attrs l) = raw_from_annotation (ev_raw env) (nd_annotations n) (an_backend_data (ev_annotations env))"
  using assms by (simp add: node_to_lease_def fill_v4_def Let_def)

lemma acquire_published:
  assumes keys: "new_annotations prefix = Inr (km_annotations mgr)"
    and env: "ev_annotations env = km_annotations mgr" "ev_enable_ipv4 env" "\<not> ev_enable_ipv6 env"
    and cfg: "cfg_enable_ipv4 (km_config mgr)"
    and raw: "ev_raw env (raw_to_string (backend_data at)) = Some (raw_to_string (backend_data at))"
      "ev_raw env [] = None"
    and pub: "publishes_v4 at (raw_to_string (backend_data at))"
    and one: "\<forall>r \<in> set as. \<forall>n. fetch_node mgr (at_reply r) = Some n \<longrightarrow> one_v4 n"
    and acq: "acquire_lease mgr start as pstart pas expires at = Some (Inr l)"
  shows "\<exists>n r. r \<in> set as \<and> fetch_node mgr (at_reply r) = Some n \<and>
    n4_contains_cidr (cfg_network (km_config mgr)) (subnet l) \<and> attrs l = at \<and>
    (let n' = patched mgr at (raw_to_string (backend_data at)) (raw_to_string (backend_v6_data at)) n;
         ow = annotation (nd_annotations n) (an_backend_public_ip_overwrite (km_annotations mgr)) in
     managed env n' \<and>
     (\<forall>ip. ip4_from_str (if ow \<noteq> [] then ow else ip4_to_string (public_ip at)) = Inr ip \<longrightarrow>
       (\<exists>l'. node_to_lease env n' = Inr l' \<and> enable_ipv4 l' \<and> subnet l' = subnet l \<and> public_ip (attrs l') = ip \<and>
          backend_type (attrs l') = backend_type at \<and>
          backend_data (attrs l') = Some (raw_to_string (backend_data at)))))"
proof -
  let ?bd = "raw_to_string (backend_data at)" and ?bd6 = "raw_to_string (backend_v6_data at)"
  obtain r n c4 c6 where r: "r \<in> set as" "fetch_node mgr (at_reply r) = Some n"
    and c: "acquire_pod_cidrs mgr n = Inr (c4, c6)" "cidrs_ready mgr c4 c6"
    and l: "lease_from_cidrs mgr at expires c4 c6 = Inr l" using acq by (rule acquire_lease_cases)
  obtain c where c4: "c4 = Some c" using c(2) cfg by (auto simp: cidrs_ready_def)
  have sub: "subnet l = c" "n4_contains_cidr (cfg_network (km_config mgr)) c" "attrs l = at"
    using l cfg lease_v4_Some [of mgr c] lease_v6_keeps [of mgr c6] lease_flags_keeps [of at]
    by (auto simp: lease_from_cidrs_def c4)
  let ?n = "patched mgr at ?bd ?bd6 n"
  have cidr: "lease_cidr4 ?n = Inr (Some c)"
    using acquire_lease_cidr4 [of mgr n c c6] c(1) c4 one r lease_cidr4_same [of ?n n]
    by (simp add: patched_def split: option.splits)
  note p = published_v4 [OF new_annotations_distinct [OF keys] pub, of ?bd6 n]
  have data: "raw_from_annotation (ev_raw env) (nd_annotations ?n) (an_backend_data (km_annotations mgr)) = Some ?bd"
    using p(1) raw by (cases "nd_annotations ?n (an_backend_data (km_annotations mgr))")
      (auto simp: raw_from_annotation_def annotation_def)
  have lease: "\<exists>l'. node_to_lease env ?n = Inr l' \<and> enable_ipv4 l' \<and> subnet l' = subnet l \<and> public_ip (attrs l') = ip \<and>
      backend_type (attrs l') = backend_type at \<and> backend_data (attrs l') = Some ?bd"
    if "ip4_from_str (annotation (nd_annotations ?n) (an_backend_public_ip (km_annotations mgr))) = Inr ip" for ip
    using node_to_lease_v4_ok [OF env(2,3) that [folded env(1)] cidr] data p(2) sub(1) by (simp add: env(1))
  have "managed env ?n" using p(3) by (simp add: managed_def env(1))
  with r sub(2) [folded sub(1)] sub(3) lease [unfolded p(4)] show ?thesis unfolding Let_def by blast
qed

text \<open>C3. What a node publishes is what the others read. When \<open>acquire_lease\<close> succeeds on an IPv4
  network, its lease has the pod CIDR of a node the API delivered, inside the configured network; and
  that node, once the patch is applied, is a managed node from which the handlers of the other
  nodes derive a lease with the same subnet, backend type and data, and with the public address of
  the lease, or the one of the overwrite annotation where there is one.\<close>

theorem acquire_publishes_lease:
  assumes keys: "new_annotations prefix = Inr (km_annotations mgr)"
    and env: "ev_annotations env = km_annotations mgr" "ev_enable_ipv4 env" "\<not> ev_enable_ipv6 env"
    and cfg: "cfg_enable_ipv4 (km_config mgr)"
    and raw: "ev_raw env (raw_to_string (backend_data at)) = Some (raw_to_string (backend_data at))"
      "ev_raw env [] = None"
    and pub: "publishes_v4 at (raw_to_string (backend_data at))"
    and one: "\<forall>r \<in> set as. \<forall>n. fetch_node mgr (at_reply r) = Some n \<longrightarrow> one_v4 n"
    and acq: "acquire_lease mgr start as pstart pas expires at = Some (Inr l)"
  shows "\<exists>n r. r \<in> set as \<and> fetch_node mgr (at_reply r) = Some n \<and>
    n4_contains_cidr (cfg_network (km_config mgr)) (subnet l) \<and> attrs l = at \<and>
    (let n' = patched mgr at (raw_to_string (backend_data at)) (raw_to_string (backend_v6_data at)) n;
         ow = annotation (nd_annotations n) (an_backend_public_ip_overwrite (km_annotations mgr)) in
     managed env n' \<and>
     (\<forall>ip. ip4_from_str (if ow \<noteq> [] then ow else ip4_to_string (public_ip at)) = Inr ip \<longrightarrow>
       (\<exists>l'. node_to_lease env n' = Inr l' \<and> subnet l' = subnet l \<and> public_ip (attrs l') = ip \<and>
          backend_type (attrs l') = backend_type at \<and>
          backend_data (attrs l') = Some (raw_to_string (backend_data at)))))"
  using acquire_published [OF keys env cfg raw pub one acq] unfolding Let_def by blast

text \<open>A manager and a node of its cluster.\<close>

definition sample_annotations :: annotations where
  "sample_annotations = projr (new_annotations ''flannel.alpha.coreos.com'')"

definition sample_manager :: kube_manager where
  "sample_manager =
     \<lparr>km_config = config_default\<lparr>cfg_enable_ipv4 := True, cfg_network := \<lparr>n4_ip = IP4 0x0af40000, n4_prefix_len = 16\<rparr>\<rparr>,
      km_node_name = ''n1'', km_annotations = sample_annotations, km_disable_node_informer = False\<rparr>"

definition sample_own_node :: node where
  "sample_own_node =
     \<lparr>nd_name = ''n1'', nd_uid = ''u'', nd_resource_version = None, nd_annotations = Map.empty,
      nd_pod_cidr = None, nd_pod_cidrs = [''10.244.1.0/24'']\<rparr>"

definition sample_attrs :: lease_attrs where
  "sample_attrs = lease_attrs_default\<lparr>public_ip := IP4 0x0a000001, backend_type := ''host-gw'', backend_data := Some ''1''\<rparr>"

definition sample_event_env :: event_env where
  "sample_event_env = \<lparr>ev_annotations = sample_annotations, ev_enable_ipv4 = True, ev_enable_ipv6 = False,
     ev_raw = (\<lambda>t. if t = [] then None else Some t)\<rparr>"

definition sample_rounds :: "(node option \<times> node option) attempt list" where
  "sample_rounds = [\<lparr>at_reply = (None, Some sample_own_node), at_cancelled = False, at_now = 0, at_slept = True\<rparr>]"

lemma sample_annotations_ok: "new_annotations ''flannel.alpha.coreos.com'' = Inr sample_annotations"
proof -
  have "isl (new_annotations ''flannel.alpha.coreos.com'') = False" by code_simp
  then show ?thesis unfolding sample_annotations_def by (cases "new_annotations ''flannel.alpha.coreos.com''") simp_all
qed

theorem acquire_publishes_lease_witness:
  "\<exists>l l'. acquire_lease sample_manager 0 sample_rounds 0
       [\<lparr>at_reply = True, at_cancelled = False, at_now = 1, at_slept = True\<rparr>] 0 sample_attrs = Some (Inr l) \<and>
     node_to_lease sample_event_env (patched sample_manager sample_attrs ''1'' ''null'' sample_own_node) = Inr l' \<and>
     subnet l' = subnet l \<and> public_ip (attrs l') = IP4 0x0a000001"
proof -
  let ?pas = "[\<lparr>at_reply = True, at_cancelled = False, at_now = 1, at_slept = True\<rparr>]"
  have "(case acquire_lease sample_manager 0 sample_rounds 0 ?pas 0 sample_attrs of Some (Inr _) \<Rightarrow> True | _ \<Rightarrow> False)"
    by code_simp
  then obtain l where l: "acquire_lease sample_manager 0 sample_rounds 0 ?pas 0 sample_attrs = Some (Inr l)"
    by (auto split: option.splits sum.splits)
  have raws: "raw_to_string (backend_data sample_attrs) = ''1''" "raw_to_string (backend_v6_data sample_attrs) = ''null''"
    by (simp_all add: raw_to_string_def sample_attrs_def lease_attrs_default_def)
  have one: "\<forall>r \<in> set sample_rounds. \<forall>n. fetch_node sample_manager (at_reply r) = Some n \<longrightarrow> one_v4 n"
    by (simp add: sample_rounds_def fetch_node_def sample_manager_def one_v4_def sample_own_node_def)
  have own: "fetch_node sample_manager (at_reply r) = Some n \<Longrightarrow> r \<in> set sample_rounds \<Longrightarrow> n = sample_own_node" for r n
    by (simp add: sample_rounds_def fetch_node_def sample_manager_def)
  have env: "ev_annotations sample_event_env = km_annotations sample_manager" "ev_enable_ipv4 sample_event_env"
      "\<not> ev_enable_ipv6 sample_event_env" "cfg_enable_ipv4 (km_config sample_manager)"
      "ev_raw sample_event_env ''1'' = Some ''1''" "ev_raw sample_event_env [] = None"
      "publishes_v4 sample_attrs ''1''" "km_annotations sample_manager = sample_annotations"
    by (simp_all add: sample_event_env_def sample_manager_def publishes_v4_def)
  have ow: "annotation (nd_annotations sample_own_node) k = []" for k
    by (simp add: annotation_def sample_own_node_def)
  note acquire_publishes_lease [OF sample_annotations_ok [folded env(8)] env(1-4) _ env(6) _ one l, unfolded raws,
    OF env(5,7)]
  then obtain r n where "r \<in> set sample_rounds" "fetch_node sample_manager (at_reply r) = Some n"
    and pub: "\<forall>ip. ip4_from_str (if annotation (nd_annotations n) (an_backend_public_ip_overwrite (km_annotations sample_manager)) \<noteq> []
        then annotation (nd_annotations n) (an_backend_public_ip_overwrite (km_annotations sample_manager))
        else ip4_to_string (public_ip sample_attrs)) = Inr ip \<longrightarrow>
      (\<exists>l'. node_to_lease sample_event_env (patched sample_manager sample_attrs ''1'' ''null'' n) = Inr l' \<and>
        subnet l' = subnet l \<and> public_ip (attrs l') = ip \<and> backend_type (attrs l') = backend_type sample_attrs \<and>
        backend_data (attrs l') = Some ''1'')"
    unfolding Let_def by blast
  then have "n = sample_own_node" using own by blast
  with pub l show ?thesis by (auto simp: ow sample_attrs_def)
qed

section \<open>Watching\<close>

lemma kube_watch_leases_forwards:
  "room tx = None \<Longrightarrow> kube_watch_leases (map HubEvent es) tx =
     (\<lparr>sent = sent tx @ map (\<lambda>e. [\<lparr>wr_events = [e], wr_snapshot = []\<rparr>]) es, room = None\<rparr>, None)"
  by (induction es arbitrary: tx) (auto simp: forward_def send_unbounded)

text \<open>The single-subnet watch is the watch of all leases behind a filter.\<close>

lemma kube_watch_lease_filter:
  "kube_watch_lease sn sn6 is tx =
     kube_watch_leases (filter (\<lambda>i. case i of HubEvent e \<Rightarrow> watch_filter sn sn6 e | _ \<Rightarrow> True) is) tx"
  by (induction sn sn6 "is" tx rule: kube_watch_lease.induct) (auto split: prod.split)

lemma wait_synced_poll:
  "wait_synced deadline as = poll (\<lambda>s. if s then Some (Inr ()) else None) SyncCancelled SyncDeadline deadline as"
  by (induction as) auto

text \<open>The MAC address is found in the backend data of the vxlan backend.\<close>

lemma split_colon_quote_none:
  "\<forall>i. Suc i < length s \<longrightarrow> \<not> (s ! i = CHR '':'' \<and> s ! Suc i = CHR 0x22) \<Longrightarrow> split_colon_quote s = [s]"
proof (induction s rule: split_colon_quote.induct)
  case (3 x y zs)
  have xy: "\<not> (x = CHR '':'' \<and> y = CHR 0x22)" using 3(3) [rule_format, of 0] by simp
  have "\<forall>i. Suc i < length (y # zs) \<longrightarrow> \<not> ((y # zs) ! i = CHR '':'' \<and> (y # zs) ! Suc i = CHR 0x22)"
  proof (intro allI impI)
    fix i assume "Suc i < length (y # zs)"
    then show "\<not> ((y # zs) ! i = CHR '':'' \<and> (y # zs) ! Suc i = CHR 0x22)"
      using 3(3) [rule_format, of "Suc i"] by simp
  qed
  with 3(2) [OF xy] xy show ?case by simp
qed simp_all

end
