(* ===== verification/Iface.thy ===== *)
theory Iface
  imports Ip6net
begin

text \<open>
  \<open>ip/iface\<close>: what flannel reads of netlink messages (\<open>mod.rs\<close>), the queries on interfaces, addresses
  and routes (\<open>query.rs\<close>) and the address and blackhole-route helpers (\<open>config.rs\<close>). The kernel is
  reached through rtnetlink: the answers to the requests are the parameter \<open>netlink\<close>, a record of one
  field per request; a dump is the messages it yields and the error it may end with. Messages are
  records of the header fields and attributes the code looks at. An error is the chain of its
  messages, outermost first.
\<close>

section \<open>Messages\<close>

datatype ip_addr = V4 ip4 | V6 ip6

datatype address_family = Inet | Inet6 | OtherFamily

datatype address_attribute = IfaLocal ip_addr | IfaAddress ip_addr | IfaOther

record address_message =
  am_family :: address_family
  am_prefix_len :: u8
  am_permanent :: bool
  am_secondary :: bool
  am_deprecated :: bool
  am_attributes :: "address_attribute list"

datatype info_kind = KindVxlan | KindIpIp | KindOther string

datatype info_vxlan =
    VxId u32 | VxLink u32 | VxLocal ip4 | VxLocal6 ip6 | VxGroup ip4 | VxGroup6 ip6 | VxL2Miss bool
  | VxPort u16 | VxGbp | VxLearning bool | VxOther

datatype info_ip_tunnel = TunLocal ip_addr | TunRemote ip_addr | TunOther

datatype info_data = DataVxlan "info_vxlan list" | DataIpTunnel "info_ip_tunnel list" | DataOther

datatype link_info = InfoKind info_kind | InfoData info_data | InfoOther

datatype link_attribute =
  IfName string | Mtu u32 | IflaAddress "u8 list" | IflaLinkInfo "link_info list" | IflaOther

record link_message =
  lm_index :: u32
  lm_attributes :: "link_attribute list"

datatype route_address = RouteInet ip4 | RouteInet6 ip6 | RouteAddrOther

datatype route_attribute =
  RtaDestination route_address | RtaGateway route_address | RtaPrefSource route_address | RtaOif u32 | RtaOther

datatype route_type = Unicast | BlackHole | OtherType

record route_message =
  rm_family :: address_family
  rm_prefix_len :: u8
  rm_kind :: route_type
  rm_onlink :: bool
  rm_attributes :: "route_attribute list"

record net_iface =
  if_index :: u32
  if_name :: string

type_synonym err = "string list"

section \<open>Readers of messages\<close>

text \<open>\<open>Iterator::find_map\<close>.\<close>

fun find_map :: "('a \<Rightarrow> 'b option) \<Rightarrow> 'a list \<Rightarrow> 'b option" where
  "find_map f [] = None"
| "find_map f (x # xs) = (case f x of Some y \<Rightarrow> Some y | None \<Rightarrow> find_map f xs)"

text \<open>The loop of \<open>addr_ip\<close>: a local address returns at once, the last address otherwise.\<close>

fun addr_ip_loop :: "address_attribute list \<Rightarrow> ip_addr option \<Rightarrow> ip_addr option" where
  "addr_ip_loop [] address = address"
| "addr_ip_loop (IfaLocal ip # as) address = Some ip"
| "addr_ip_loop (IfaAddress ip # as) address = addr_ip_loop as (Some ip)"
| "addr_ip_loop (IfaOther # as) address = addr_ip_loop as address"

definition addr_ip :: "address_message \<Rightarrow> ip_addr option" where
  "addr_ip msg = addr_ip_loop (am_attributes msg) None"

definition link_name :: "link_message \<Rightarrow> string" where
  "link_name msg =
     (case find_map (\<lambda>a. case a of IfName n \<Rightarrow> Some n | _ \<Rightarrow> None) (lm_attributes msg) of
        Some n \<Rightarrow> n | None \<Rightarrow> ''?'')"

definition link_mtu :: "link_message \<Rightarrow> u32" where
  "link_mtu msg =
     (case find_map (\<lambda>a. case a of Mtu m \<Rightarrow> Some m | _ \<Rightarrow> None) (lm_attributes msg) of
        Some m \<Rightarrow> m | None \<Rightarrow> 0)"

definition net_iface_of :: "link_message \<Rightarrow> net_iface" where
  "net_iface_of msg = \<lparr>if_index = lm_index msg, if_name = link_name msg\<rparr>"

definition route_addr_to_ip :: "route_address \<Rightarrow> ip_addr option" where
  "route_addr_to_ip a =
     (case a of RouteInet v4 \<Rightarrow> Some (V4 v4) | RouteInet6 v6 \<Rightarrow> Some (V6 v6) | RouteAddrOther \<Rightarrow> None)"

definition route_attr_ip :: "route_message \<Rightarrow> bool \<Rightarrow> ip_addr option" where
  "route_attr_ip route want_dst =
     find_map (\<lambda>a. case a of
         RtaDestination r \<Rightarrow> if want_dst then route_addr_to_ip r else None
       | RtaGateway r \<Rightarrow> if \<not> want_dst then route_addr_to_ip r else None
       | _ \<Rightarrow> None) (rm_attributes route)"

definition route_dst :: "route_message \<Rightarrow> ip_addr option" where
  "route_dst route = route_attr_ip route True"

definition route_gateway :: "route_message \<Rightarrow> ip_addr option" where
  "route_gateway route =
     find_map (\<lambda>a. case a of RtaGateway g \<Rightarrow> route_addr_to_ip g | _ \<Rightarrow> None) (rm_attributes route)"

definition route_pref_source :: "route_message \<Rightarrow> ip_addr option" where
  "route_pref_source route =
     find_map (\<lambda>a. case a of RtaPrefSource s \<Rightarrow> route_addr_to_ip s | _ \<Rightarrow> None) (rm_attributes route)"

definition route_oif :: "route_message \<Rightarrow> u32 option" where
  "route_oif route = find_map (\<lambda>a. case a of RtaOif i \<Rightarrow> Some i | _ \<Rightarrow> None) (rm_attributes route)"

section \<open>Kinds of addresses and their order\<close>

definition is_link_local_unicast :: "ip_addr \<Rightarrow> bool" where
  "is_link_local_unicast ip =
     (case ip of
        V4 v4 \<Rightarrow> (case ip4_octets v4 of a # b # _ \<Rightarrow> a = 169 \<and> b = 254 | _ \<Rightarrow> False)
      | V6 v6 \<Rightarrow> hd (segments_of (ip6_bytes v6)) AND 0xffc0 = 0xfe80)"

text \<open>The predicates of \<open>std::net::IpAddr\<close>.\<close>

definition is_unspecified :: "ip_addr \<Rightarrow> bool" where
  "is_unspecified ip = (case ip of V4 v4 \<Rightarrow> ip4_val v4 = 0 | V6 v6 \<Rightarrow> ip6_value v6 = 0)"

definition is_loopback :: "ip_addr \<Rightarrow> bool" where
  "is_loopback ip = (case ip of V4 v4 \<Rightarrow> hd (ip4_octets v4) = 127 | V6 v6 \<Rightarrow> ip6_value v6 = 1)"

definition is_multicast :: "ip_addr \<Rightarrow> bool" where
  "is_multicast ip =
     (case ip of
        V4 v4 \<Rightarrow> 224 \<le> hd (ip4_octets v4) \<and> hd (ip4_octets v4) \<le> 239
      | V6 v6 \<Rightarrow> hd (ip6_bytes v6) = 0xff)"

definition is_global_unicast :: "ip_addr \<Rightarrow> bool" where
  "is_global_unicast ip \<longleftrightarrow>
     \<not> is_unspecified ip \<and> \<not> is_loopback ip \<and> \<not> is_multicast ip \<and> \<not> is_link_local_unicast ip"

datatype ordering = OrdLess | OrdEqual | OrdGreater

definition compare_addrs :: "address_message \<Rightarrow> address_message \<Rightarrow> ordering" where
  "compare_addrs a b =
     (case (addr_ip a, addr_ip b) of
        (Some a_ip, Some b_ip) \<Rightarrow>
          if is_global_unicast a_ip \<and> is_link_local_unicast b_ip then OrdLess
          else if is_link_local_unicast a_ip \<and> is_global_unicast b_ip then OrdGreater
          else if am_permanent a \<and> \<not> am_permanent b then OrdLess
          else if \<not> am_permanent a \<and> am_permanent b then OrdGreater
          else if \<not> am_secondary a \<and> am_secondary b then OrdLess
          else if am_secondary a \<and> \<not> am_secondary b then OrdGreater
          else OrdEqual
      | _ \<Rightarrow> OrdEqual)"

text \<open>\<open>slice::sort_by\<close> as a stable insertion sort: the result of every stable sort when the comparison
  is a total order; the standard library specifies no order (and may panic) when it is not.\<close>

fun insert_by :: "('a \<Rightarrow> 'a \<Rightarrow> ordering) \<Rightarrow> 'a \<Rightarrow> 'a list \<Rightarrow> 'a list" where
  "insert_by cmp x [] = [x]"
| "insert_by cmp x (y # ys) = (if cmp x y = OrdLess then x # y # ys else y # insert_by cmp x ys)"

definition sort_by :: "('a \<Rightarrow> 'a \<Rightarrow> ordering) \<Rightarrow> 'a list \<Rightarrow> 'a list" where
  "sort_by cmp xs = foldl (\<lambda>acc x. insert_by cmp x acc) [] xs"

section \<open>Queries\<close>

type_synonym 'a dump = "'a list \<times> err option"

record netlink =
  nl_links :: "link_message dump"
  nl_link_by_name :: "string \<Rightarrow> link_message dump"
  nl_link_by_index :: "u32 \<Rightarrow> link_message dump"
  nl_addrs :: "u32 \<Rightarrow> address_message dump"
  nl_routes :: "route_message dump"
  nl_route_get :: "ip_addr \<Rightarrow> route_message dump"

text \<open>A \<open>while let Some(x) = stream.try_next().await?\<close> that collects what passes a filter.\<close>

definition collect_dump :: "('a \<Rightarrow> bool) \<Rightarrow> 'a dump \<Rightarrow> err + 'a list" where
  "collect_dump p d = (case snd d of Some e \<Rightarrow> Inl e | None \<Rightarrow> Inr (filter p (fst d)))"

text \<open>One \<open>try_next\<close>: the first message, if there is one.\<close>

definition first_of_dump :: "'a dump \<Rightarrow> err + 'a option" where
  "first_of_dump d =
     (case fst d of x # _ \<Rightarrow> Inr (Some x) | [] \<Rightarrow> (case snd d of Some e \<Rightarrow> Inl e | None \<Rightarrow> Inr None))"

definition list_links :: "netlink \<Rightarrow> err + link_message list" where
  "list_links nl = collect_dump (\<lambda>_. True) (nl_links nl)"

definition list_iface_addrs :: "netlink \<Rightarrow> u32 \<Rightarrow> address_family \<Rightarrow> err + address_message list" where
  "list_iface_addrs nl index family = collect_dump (\<lambda>a. am_family a = family) (nl_addrs nl index)"

definition list_routes :: "netlink \<Rightarrow> err + route_message list" where
  "list_routes nl = collect_dump (\<lambda>_. True) (nl_routes nl)"

definition route_get :: "netlink \<Rightarrow> ip_addr \<Rightarrow> err + route_message list" where
  "route_get nl ip = collect_dump (\<lambda>_. True) (nl_route_get nl ip)"

definition no_such_index :: "u32 \<Rightarrow> err" where
  "no_such_index index = [''no such network interface with index '' @ show_u32 index]"

definition iface_from_links :: "link_message list \<Rightarrow> u32 \<Rightarrow> err + net_iface" where
  "iface_from_links links index =
     ok_or (no_such_index index) (map_option net_iface_of (find (\<lambda>l. lm_index l = index) links))"

definition usable_addr :: "address_message \<Rightarrow> ip_addr option" where
  "usable_addr a =
     (case addr_ip a of
        None \<Rightarrow> None
      | Some ip \<Rightarrow>
          if (is_global_unicast ip \<or> is_link_local_unicast ip) \<and> \<not> am_deprecated a then Some ip else None)"

definition is_ipv4 :: "ip_addr \<Rightarrow> bool" where
  "is_ipv4 ip = (case ip of V4 _ \<Rightarrow> True | V6 _ \<Rightarrow> False)"

definition get_iface_ip4_addrs :: "netlink \<Rightarrow> net_iface \<Rightarrow> err + ip_addr list" where
  "get_iface_ip4_addrs nl iface =
     rbind (list_iface_addrs nl (if_index iface) Inet) (\<lambda>addrs.
       let ips = filter is_ipv4 (List.map_filter usable_addr (sort_by compare_addrs addrs)) in
       if ips = [] then Inl [''no IPv4 address found for given interface''] else Inr ips)"

definition get_iface_ip6_addrs :: "netlink \<Rightarrow> net_iface \<Rightarrow> err + ip_addr list" where
  "get_iface_ip6_addrs nl iface =
     rbind (list_iface_addrs nl (if_index iface) Inet6) (\<lambda>addrs.
       let ips = List.map_filter usable_addr (sort_by compare_addrs addrs) in
       if ips = [] then Inl [''no IPv6 address found for given interface''] else Inr ips)"

definition get_interface_ip4_addr_match :: "netlink \<Rightarrow> net_iface \<Rightarrow> ip4 \<Rightarrow> err + unit" where
  "get_interface_ip4_addr_match nl iface match_addr =
     rbind (list_iface_addrs nl (if_index iface) Inet) (\<lambda>addrs.
       if list_ex (\<lambda>a. addr_ip a = Some (V4 match_addr)) addrs then Inr ()
       else Inl [''no IPv4 address found for given interface''])"

definition get_interface_ip6_addr_match :: "netlink \<Rightarrow> net_iface \<Rightarrow> ip6 \<Rightarrow> err + unit" where
  "get_interface_ip6_addr_match nl iface match_addr =
     rbind (list_iface_addrs nl (if_index iface) Inet6) (\<lambda>addrs.
       if list_ex (\<lambda>a. addr_ip a = Some (V6 match_addr)) addrs then Inr ()
       else Inl [''no IPv6 address found for given interface''])"

definition is_default_route :: "address_family \<Rightarrow> ip_addr \<Rightarrow> route_message \<Rightarrow> bool" where
  "is_default_route family zero r \<longleftrightarrow>
     rm_family r = family \<and>
     (case route_dst r of None \<Rightarrow> True | Some dst \<Rightarrow> dst = zero \<and> rm_prefix_len r = 0)"

definition default_gateway_iface ::
  "route_message list \<Rightarrow> address_family \<Rightarrow> ip_addr \<Rightarrow> string \<Rightarrow> string \<Rightarrow> err + net_iface \<times> ip_addr option" where
  "default_gateway_iface routes family zero no_iface_err no_route_err =
     (case find (is_default_route family zero) routes of
        Some route \<Rightarrow>
          (let oif = (case route_oif route of Some i \<Rightarrow> i | None \<Rightarrow> 0) in
           if oif = 0 then Inl [no_iface_err]
           else Inr (\<lparr>if_index = oif, if_name = []\<rparr>, route_gateway route))
      | None \<Rightarrow> Inl [no_route_err])"

definition link_name_by_index :: "netlink \<Rightarrow> u32 \<Rightarrow> err + string" where
  "link_name_by_index nl index =
     rbind (first_of_dump (nl_link_by_index nl index)) (\<lambda>l.
     case l of Some link \<Rightarrow> Inr (link_name link) | None \<Rightarrow> Inl (no_such_index index))"

definition get_default_gateway_interface :: "netlink \<Rightarrow> err + net_iface \<times> ip_addr option" where
  "get_default_gateway_interface nl =
     rbind (list_routes nl) (\<lambda>routes.
     rbind (default_gateway_iface routes Inet (V4 (IP4 0))
        ''found default route but could not determine interface'' ''unable to find default route'') (\<lambda>(iface, gw).
     rbind (link_name_by_index nl (if_index iface)) (\<lambda>name. Inr (iface\<lparr>if_name := name\<rparr>, gw))))"

definition get_default_v6_gateway_interface :: "netlink \<Rightarrow> err + net_iface \<times> ip_addr option" where
  "get_default_v6_gateway_interface nl =
     rbind (list_routes nl) (\<lambda>routes.
     rbind (default_gateway_iface routes Inet6 (V6 (IP6 (replicate 16 0)))
        ''found default v6 route but could not determine interface'' ''unable to find default v6 route'') (\<lambda>(iface, gw).
     rbind (link_name_by_index nl (if_index iface)) (\<lambda>name. Inr (iface\<lparr>if_name := name\<rparr>, gw))))"

definition get_interface_by_name :: "netlink \<Rightarrow> string \<Rightarrow> err + net_iface" where
  "get_interface_by_name nl name =
     rbind (first_of_dump (nl_link_by_name nl name)) (\<lambda>l.
     case l of Some link \<Rightarrow> Inr (net_iface_of link) | None \<Rightarrow> Inl [''no such network interface''])"

text \<open>The search over the links stops at the first address that fits, before a later error of the dump.\<close>

fun iface_owning :: "netlink \<Rightarrow> address_family \<Rightarrow> ip_addr \<Rightarrow> err \<Rightarrow> link_message list \<Rightarrow> err + net_iface" where
  "iface_owning nl family want none [] = Inl none"
| "iface_owning nl family want none (l # ls) =
     (if list_ex (\<lambda>a. am_family a = family \<and> addr_ip a = Some want) (fst (nl_addrs nl (lm_index l)))
      then Inr (net_iface_of l)
      else case snd (nl_addrs nl (lm_index l)) of
          Some e \<Rightarrow> Inl e
        | None \<Rightarrow> iface_owning nl family want none ls)"

definition get_interface_by_ip :: "netlink \<Rightarrow> ip4 \<Rightarrow> err + net_iface" where
  "get_interface_by_ip nl ip =
     rbind (list_links nl) (iface_owning nl Inet (V4 ip) [''no interface with given IP found''])"

definition get_interface_by_ip6 :: "netlink \<Rightarrow> ip6 \<Rightarrow> err + net_iface" where
  "get_interface_by_ip6 nl ip =
     rbind (list_links nl) (iface_owning nl Inet6 (V6 ip) [''no interface with given IPv6 found''])"

definition show_ip_addr :: "ip_addr \<Rightarrow> string" where
  "show_ip_addr ip = (case ip of V4 v4 \<Rightarrow> ip4_to_string v4 | V6 v6 \<Rightarrow> ip6_to_string v6)"

text \<open>A message of the form \<open>prefix: cause\<close>.\<close>

definition wrap_err :: "string \<Rightarrow> err \<Rightarrow> err" where
  "wrap_err prefix e = [prefix @ '': '' @ (case e of [] \<Rightarrow> [] | m # _ \<Rightarrow> m)]"

definition map_err :: "('e \<Rightarrow> 'f) \<Rightarrow> 'e + 'a \<Rightarrow> 'f + 'a" where
  "map_err f r = (case r of Inl e \<Rightarrow> Inl (f e) | Inr x \<Rightarrow> Inr x)"

definition get_interface_by_specific_ip_routing :: "netlink \<Rightarrow> ip_addr \<Rightarrow> err + net_iface \<times> ip_addr option" where
  "get_interface_by_specific_ip_routing nl ip =
     rbind (map_err (wrap_err (''couldn't lookup route to '' @ show_ip_addr ip)) (route_get nl ip)) (\<lambda>routes.
     rbind (list_links nl) (\<lambda>links.
     case routes of
       route # _ \<Rightarrow>
         (let oif = (case route_oif route of Some i \<Rightarrow> i | None \<Rightarrow> 0) in
          if oif = 0 then Inl [''couldn't lookup interface: no such network interface with index 0'']
          else rbind (map_err (wrap_err ''couldn't lookup interface'') (iface_from_links links oif)) (\<lambda>iface.
            Inr (iface, route_pref_source route)))
     | [] \<Rightarrow> Inl [''no interface with given IP found'']))"

definition direct_routing :: "netlink \<Rightarrow> ip_addr \<Rightarrow> err + bool" where
  "direct_routing nl ip =
     rbind (map_err (wrap_err (''couldn't lookup route to '' @ show_ip_addr ip)) (route_get nl ip)) (\<lambda>routes.
     Inr (length routes = 1 \<and> route_gateway (routes ! 0) = None))"

definition get_link_mtu :: "netlink \<Rightarrow> u32 \<Rightarrow> err + u32" where
  "get_link_mtu nl index =
     rbind (first_of_dump (nl_link_by_index nl index)) (\<lambda>l.
     case l of Some link \<Rightarrow> Inr (link_mtu link) | None \<Rightarrow> Inl (no_such_index index))"

section \<open>Addresses on a link\<close>

text \<open>Requests that change the kernel's state, and its answers: a request succeeds or fails with a
  message. A function returns the requests it made, in order, and its result.\<close>

datatype addr_request = AddrDel address_message | AddrAdd u32 ip_addr u8

definition name_of :: "netlink \<Rightarrow> u32 \<Rightarrow> err + string" where
  "name_of nl index = link_name_by_index nl index"

definition show_u8_prefix :: "ip_addr \<Rightarrow> u8 \<Rightarrow> string" where
  "show_u8_prefix ip len = show_ip_addr ip @ ''/'' @ show_u8 len"

text \<open>The loop over the existing addresses: \<open>has_addr\<close> and the requests so far.\<close>

fun ensure_v4_loop ::
  "(addr_request \<Rightarrow> string option) \<Rightarrow> string \<Rightarrow> ip4net \<Rightarrow> ip4net \<Rightarrow> address_message list \<Rightarrow> bool \<Rightarrow>
     addr_request list \<times> (err + bool)" where
  "ensure_v4_loop ans name ipa ipn [] has_addr = ([], Inr has_addr)"
| "ensure_v4_loop ans name ipa ipn (e # es) has_addr =
     (case addr_ip e of
        None \<Rightarrow> ensure_v4_loop ans name ipa ipn es has_addr
      | Some eip \<Rightarrow>
          if eip = V4 (n4_ip ipa) \<and> am_prefix_len e = ucast (n4_prefix_len ipa)
          then ensure_v4_loop ans name ipa ipn es True
          else (case eip of
              V4 v4 \<Rightarrow>
                if n4_contains ipn v4 then
                  (case ans (AddrDel e) of
                     Some msg \<Rightarrow> ([AddrDel e], Inl [''failed to remove IP address '' @ show_u8_prefix eip (am_prefix_len e) @
                         '' from '' @ name @ '': '' @ msg])
                   | None \<Rightarrow> (let (rs, r) = ensure_v4_loop ans name ipa ipn es has_addr in (AddrDel e # rs, r)))
                else ensure_v4_loop ans name ipa ipn es has_addr
            | V6 _ \<Rightarrow> ensure_v4_loop ans name ipa ipn es has_addr))"

definition ensure_v4_address_on_link ::
  "netlink \<Rightarrow> (addr_request \<Rightarrow> string option) \<Rightarrow> ip4net \<Rightarrow> ip4net \<Rightarrow> u32 \<Rightarrow> addr_request list \<times> (err + unit)" where
  "ensure_v4_address_on_link nl ans ipa ipn link_index =
     (case name_of nl link_index of
        Inl e \<Rightarrow> ([], Inl e)
      | Inr name \<Rightarrow>
          (case list_iface_addrs nl link_index Inet of
             Inl e \<Rightarrow> ([], Inl e)
           | Inr addrs \<Rightarrow>
               (case ensure_v4_loop ans name ipa ipn addrs False of
                  (rs, Inl e) \<Rightarrow> (rs, Inl e)
                | (rs, Inr has_addr) \<Rightarrow>
                    if has_addr then (rs, Inr ())
                    else
                      let add = AddrAdd link_index (V4 (n4_ip ipa)) (ucast (n4_prefix_len ipa)) in
                      (rs @ [add],
                       case ans add of
                         Some msg \<Rightarrow> Inl [''failed to add IP address '' @ n4_to_string ipa @ '' to '' @ name @ '': '' @ msg]
                       | None \<Rightarrow> Inr ()))))"

text \<open>The IPv6 loop returns as soon as it meets the wanted address (\<open>Inr None\<close>); otherwise it tells
  whether the address has to be added.\<close>

fun ensure_v6_loop ::
  "(addr_request \<Rightarrow> string option) \<Rightarrow> string \<Rightarrow> ip6net \<Rightarrow> ip6net \<Rightarrow> address_message list \<Rightarrow> bool \<Rightarrow> bool \<Rightarrow>
     addr_request list \<times> (err + bool option)" where
  "ensure_v6_loop ans name ipa ipn [] only_link_local cleared = ([], Inr (Some (only_link_local \<or> cleared)))"
| "ensure_v6_loop ans name ipa ipn (e # es) only_link_local cleared =
     (case addr_ip e of
        None \<Rightarrow> ensure_v6_loop ans name ipa ipn es only_link_local cleared
      | Some eip \<Rightarrow>
          if is_link_local_unicast eip then ensure_v6_loop ans name ipa ipn es only_link_local cleared
          else if eip = V6 (n6_ip ipa) \<and> am_prefix_len e = ucast (n6_prefix_len ipa) then ([], Inr None)
          else (case ans (AddrDel e) of
              Some msg \<Rightarrow> ([AddrDel e], Inl [''failed to remove v6 IP address '' @ n6_to_string ipn @
                  '' from '' @ name @ '': '' @ msg])
            | None \<Rightarrow> (let (rs, r) = ensure_v6_loop ans name ipa ipn es False True in (AddrDel e # rs, r))))"

definition ensure_v6_address_on_link ::
  "netlink \<Rightarrow> (addr_request \<Rightarrow> string option) \<Rightarrow> ip6net \<Rightarrow> ip6net \<Rightarrow> u32 \<Rightarrow> addr_request list \<times> (err + unit)" where
  "ensure_v6_address_on_link nl ans ipa ipn link_index =
     (case name_of nl link_index of
        Inl e \<Rightarrow> ([], Inl e)
      | Inr name \<Rightarrow>
          (case list_iface_addrs nl link_index Inet6 of
             Inl e \<Rightarrow> ([], Inl e)
           | Inr addrs \<Rightarrow>
               (case ensure_v6_loop ans name ipa ipn addrs True False of
                  (rs, Inl e) \<Rightarrow> (rs, Inl e)
                | (rs, Inr None) \<Rightarrow> (rs, Inr ())
                | (rs, Inr (Some cleared)) \<Rightarrow>
                    if \<not> cleared then (rs, Inr ())
                    else
                      let add = AddrAdd link_index (V6 (n6_ip ipa)) (ucast (n6_prefix_len ipa)) in
                      (rs @ [add],
                       case ans add of
                         Some msg \<Rightarrow> Inl [''failed to add v6 IP address '' @ n6_to_string ipn @ '' to '' @ name @ '': '' @ msg]
                       | None \<Rightarrow> Inr ()))))"

section \<open>Blackhole routes\<close>

definition blackhole_for :: "address_family \<Rightarrow> ip_addr \<Rightarrow> u8 \<Rightarrow> route_message \<Rightarrow> bool" where
  "blackhole_for family dst prefix_len r \<longleftrightarrow>
     rm_family r = family \<and> rm_kind r = BlackHole \<and> rm_prefix_len r = prefix_len \<and> route_dst r = Some dst"

definition has_blackhole_route :: "netlink \<Rightarrow> address_family \<Rightarrow> ip_addr \<Rightarrow> u8 \<Rightarrow> err + bool" where
  "has_blackhole_route nl family dst prefix_len =
     (if list_ex (blackhole_for family dst prefix_len) (fst (nl_routes nl)) then Inr True
      else case snd (nl_routes nl) of Some e \<Rightarrow> Inl e | None \<Rightarrow> Inr False)"

definition blackhole_message :: "address_family \<Rightarrow> route_address \<Rightarrow> u8 \<Rightarrow> route_message" where
  "blackhole_message family dst prefix_len =
     \<lparr>rm_family = family, rm_prefix_len = prefix_len, rm_kind = BlackHole, rm_onlink = False,
      rm_attributes = [RtaDestination dst]\<rparr>"

text \<open>The route that is added, if any, and the result.\<close>

definition add_blackhole_v4_route ::
  "netlink \<Rightarrow> (route_message \<Rightarrow> string option) \<Rightarrow> ip4net \<Rightarrow> route_message option \<times> (err + unit)" where
  "add_blackhole_v4_route nl ans dst =
     (let prefix = ucast (n4_prefix_len dst) in
      case has_blackhole_route nl Inet (V4 (n4_ip dst)) prefix of
        Inl e \<Rightarrow> (None, Inl e)
      | Inr True \<Rightarrow> (None, Inr ())
      | Inr False \<Rightarrow>
          (let msg = blackhole_message Inet (RouteInet (n4_ip dst)) prefix in
           (Some msg, case ans msg of Some e \<Rightarrow> Inl [e] | None \<Rightarrow> Inr ())))"

definition add_blackhole_v6_route ::
  "netlink \<Rightarrow> (route_message \<Rightarrow> string option) \<Rightarrow> ip6net \<Rightarrow> route_message option \<times> (err + unit)" where
  "add_blackhole_v6_route nl ans dst =
     (let prefix = ucast (n6_prefix_len dst) in
      case has_blackhole_route nl Inet6 (V6 (n6_ip dst)) prefix of
        Inl e \<Rightarrow> (None, Inl e)
      | Inr True \<Rightarrow> (None, Inr ())
      | Inr False \<Rightarrow>
          (let msg = blackhole_message Inet6 (RouteInet6 (n6_ip dst)) prefix in
           (Some msg, case ans msg of Some e \<Rightarrow> Inl [e] | None \<Rightarrow> Inr ())))"

section \<open>Properties\<close>

text \<open>The addresses of a link after a request that succeeded.\<close>

definition new_address :: "ip_addr \<Rightarrow> u8 \<Rightarrow> address_message" where
  "new_address ip len =
     \<lparr>am_family = (if is_ipv4 ip then Inet else Inet6), am_prefix_len = len, am_permanent = True,
      am_secondary = False, am_deprecated = False, am_attributes = [IfaLocal ip]\<rparr>"

fun apply_addr_request :: "address_message set \<Rightarrow> addr_request \<Rightarrow> address_message set" where
  "apply_addr_request A (AddrDel m) = A - {m}"
| "apply_addr_request A (AddrAdd i ip len) = insert (new_address ip len) A"

definition is_addr4 :: "ip4net \<Rightarrow> address_message \<Rightarrow> bool" where
  "is_addr4 ipa e \<longleftrightarrow> addr_ip e = Some (V4 (n4_ip ipa)) \<and> am_prefix_len e = ucast (n4_prefix_len ipa)"

definition inside4 :: "ip4net \<Rightarrow> address_message \<Rightarrow> bool" where
  "inside4 ipn e \<longleftrightarrow> (\<exists>v4. addr_ip e = Some (V4 v4) \<and> n4_contains ipn v4)"

lemma ensure_v4_loop_ok:
  assumes "\<forall>r. ans r = None" and "ensure_v4_loop ans name ipa ipn es has = (rs, res)"
  shows "res = Inr (has \<or> (\<exists>e \<in> set es. is_addr4 ipa e)) \<and>
    rs = map AddrDel (filter (\<lambda>e. inside4 ipn e \<and> \<not> is_addr4 ipa e) es)"
  using assms
proof (induction es arbitrary: has rs res)
  case (Cons e es)
  then show ?case
    by (cases "addr_ip e")
      (auto simp: is_addr4_def inside4_def split: if_splits prod.splits ip_addr.splits)
qed simp

lemma foldl_del: "foldl apply_addr_request A (map AddrDel es) = A - set es"
  by (induction es arbitrary: A) auto

text \<open>When the kernel accepts its requests, \<open>ensure_v4_address_on_link\<close> leaves the wanted address on
  the link and no other IPv4 address inside the network, and it leaves every address outside the
  network alone.\<close>

theorem ensure_v4_address_on_link_ok:
  assumes ans: "\<forall>r. ans r = None" and name: "name_of nl i = Inr name"
    and addrs: "nl_addrs nl i = (es, None)" and fam: "\<forall>e \<in> set es. am_family e = Inet"
    and run: "ensure_v4_address_on_link nl ans ipa ipn i = (rs, res)"
  defines "A \<equiv> foldl apply_addr_request (set es) rs"
  shows "res = Inr () \<and> (\<exists>e \<in> A. is_addr4 ipa e) \<and> (\<forall>e \<in> A. inside4 ipn e \<longrightarrow> is_addr4 ipa e) \<and>
    (\<forall>e \<in> set es. \<not> inside4 ipn e \<longrightarrow> e \<in> A)"
proof -
  have l: "list_iface_addrs nl i Inet = Inr es"
    using addrs fam by (simp add: list_iface_addrs_def collect_dump_def)
  obtain rs0 res0 where loop: "ensure_v4_loop ans name ipa ipn es False = (rs0, res0)" by fastforce
  note ok = ensure_v4_loop_ok [OF ans loop]
  let ?bad = "filter (\<lambda>e. inside4 ipn e \<and> \<not> is_addr4 ipa e) es"
  have new: "is_addr4 ipa (new_address (V4 (n4_ip ipa)) (ucast (n4_prefix_len ipa)))"
    by (simp add: is_addr4_def new_address_def addr_ip_def)
  show ?thesis
  proof (cases "\<exists>e \<in> set es. is_addr4 ipa e")
    case True
    with run ok loop l name have "rs = map AddrDel ?bad" "res = Inr ()"
      by (auto simp: ensure_v4_address_on_link_def)
    with True show ?thesis unfolding A_def by (auto simp: foldl_del)
  next
    case False
    with run ok loop l name ans
    have "rs = map AddrDel ?bad @ [AddrAdd i (V4 (n4_ip ipa)) (ucast (n4_prefix_len ipa))]" "res = Inr ()"
      by (auto simp: ensure_v4_address_on_link_def Let_def)
    with new show ?thesis unfolding A_def by (auto simp: foldl_del)
  qed
qed

text \<open>A link with one address inside and one outside the network.\<close>

definition sample_address :: "u32 \<Rightarrow> address_message" where
  "sample_address n = new_address (V4 (IP4 n)) 24"

definition sample_netlink :: netlink where
  "sample_netlink =
     \<lparr>nl_links = ([], None), nl_link_by_name = (\<lambda>_. ([], None)),
      nl_link_by_index = (\<lambda>i. ([\<lparr>lm_index = i, lm_attributes = [IfName ''flannel0'', Mtu 1400]\<rparr>], None)),
      nl_addrs = (\<lambda>_. ([sample_address 0x0a010100, sample_address 0xc0a80101], None)),
      nl_routes = ([], None), nl_route_get = (\<lambda>_. ([], None))\<rparr>"

theorem ensure_v4_address_on_link_ok_witness:
  "\<exists>rs A. ensure_v4_address_on_link sample_netlink (\<lambda>_. None) \<lparr>n4_ip = IP4 0x0a010200, n4_prefix_len = 24\<rparr>
       \<lparr>n4_ip = IP4 0x0a010000, n4_prefix_len = 16\<rparr> 7 = (rs, Inr ()) \<and>
     A = foldl apply_addr_request {sample_address 0x0a010100, sample_address 0xc0a80101} rs \<and>
     (\<exists>e \<in> A. is_addr4 \<lparr>n4_ip = IP4 0x0a010200, n4_prefix_len = 24\<rparr> e)"
proof -
  let ?ipa = "\<lparr>n4_ip = IP4 0x0a010200, n4_prefix_len = 24\<rparr> :: ip4net"
  let ?ipn = "\<lparr>n4_ip = IP4 0x0a010000, n4_prefix_len = 16\<rparr> :: ip4net"
  let ?es = "[sample_address 0x0a010100, sample_address 0xc0a80101]"
  obtain rs res where run: "ensure_v4_address_on_link sample_netlink (\<lambda>_. None) ?ipa ?ipn 7 = (rs, res)" by fastforce
  have n: "name_of sample_netlink 7 = Inr ''flannel0''"
    by (simp add: name_of_def link_name_by_index_def first_of_dump_def sample_netlink_def link_name_def)
  have a: "nl_addrs sample_netlink 7 = (?es, None)" by (simp add: sample_netlink_def)
  have f: "\<forall>e \<in> set ?es. am_family e = Inet" by (simp add: sample_address_def new_address_def is_ipv4_def)
  from ensure_v4_address_on_link_ok [OF _ n a f run] run show ?thesis by auto
qed

text \<open>The IPv6 helper stops at the wanted address: an address that comes after it in the dump stays.\<close>

lemma ensure_v6_keeps_later_address:
  assumes "name_of nl i = Inr name" and "nl_addrs nl i = ([e, e'], None)" and "am_family e = Inet6" and "am_family e' = Inet6"
    and "addr_ip e = Some (V6 (n6_ip ipa))" and "\<not> is_link_local_unicast (V6 (n6_ip ipa))"
    and "am_prefix_len e = ucast (n6_prefix_len ipa)"
  shows "ensure_v6_address_on_link nl ans ipa ipn i = ([], Inr ())"
  using assms by (simp add: ensure_v6_address_on_link_def list_iface_addrs_def collect_dump_def)

text \<open>The preference order of addresses is not an order: three addresses of an interface can each
  come before the next, in a circle, so that sorting by it has no defined result.\<close>

theorem compare_addrs_cycle:
  "\<exists>a b c. compare_addrs a b = OrdLess \<and> compare_addrs b c = OrdLess \<and> compare_addrs c a = OrdLess"
proof -
  let ?g = "\<lparr>am_family = Inet, am_prefix_len = 24, am_permanent = False, am_secondary = True, am_deprecated = False,
    am_attributes = [IfaLocal (V4 (IP4 0x0a000001))]\<rparr>"
  let ?l = "\<lparr>am_family = Inet, am_prefix_len = 16, am_permanent = True, am_secondary = False, am_deprecated = False,
    am_attributes = [IfaLocal (V4 (IP4 0xa9fe0001))]\<rparr>"
  let ?o = "\<lparr>am_family = Inet, am_prefix_len = 8, am_permanent = False, am_secondary = False, am_deprecated = False,
    am_attributes = [IfaLocal (V4 (IP4 0x7f000002))]\<rparr>"
  have "compare_addrs ?g ?l = OrdLess \<and> compare_addrs ?l ?o = OrdLess \<and> compare_addrs ?o ?g = OrdLess"
    by code_simp
  then show ?thesis by blast
qed

end
