(* ===== verification/Ipmatch.thy ===== *)
theory Ipmatch
  imports Iface
begin

text \<open>
  \<open>ipmatch/mod.rs\<close>: the choice of the external interface from \<open>--iface\<close>, \<open>--iface-regex\<close>,
  \<open>--iface-can-reach\<close> or the default route, and \<open>backend/common.rs\<close>, its result. The regular
  expression library is the parameter \<open>regex_new\<close>: the compiled pattern is the set of texts it
  matches, an invalid one its error message.
\<close>

section \<open>Data\<close>

type_synonym regex = "string \<Rightarrow> bool"

datatype ip_stack = IPV4_STACK | IPV6_STACK | DUAL_STACK | NONE_STACK

record public_ip_opts =
  po_public_ip :: string
  po_public_ip_v6 :: string

record external_interface =
  ei_iface_index :: u32
  ei_iface_name :: string
  ei_iface_addr :: "ip_addr option"
  ei_iface_v6_addr :: "ip_addr option"
  ei_ext_addr :: "ip_addr option"
  ei_ext_v6_addr :: "ip_addr option"

definition get_ip_family :: "bool \<Rightarrow> bool \<Rightarrow> err + ip_stack" where
  "get_ip_family auto_detect_ipv4 auto_detect_ipv6 =
     (if auto_detect_ipv4 \<and> \<not> auto_detect_ipv6 then Inr IPV4_STACK
      else if \<not> auto_detect_ipv4 \<and> auto_detect_ipv6 then Inr IPV6_STACK
      else if auto_detect_ipv4 \<and> auto_detect_ipv6 then Inr DUAL_STACK
      else Inl [''none defined stack''])"

text \<open>\<open>IpAddr::from_str\<close>: an IPv4 address or else an IPv6 address.\<close>

definition parse_ip_addr :: "string \<Rightarrow> ip_addr option" where
  "parse_ip_addr s =
     (case ip4_from_str s of
        Inr ip \<Rightarrow> Some (V4 ip)
      | Inl _ \<Rightarrow> (case ip6_from_str s of Inr ip \<Rightarrow> Some (V6 ip) | Inl _ \<Rightarrow> None))"

definition show_ip :: "ip_addr option \<Rightarrow> string" where
  "show_ip ip = (case ip of None \<Rightarrow> ''<nil>'' | Some a \<Rightarrow> show_ip_addr a)"

text \<open>\<open>Error::context\<close>.\<close>

definition ctx_err :: "string \<Rightarrow> err \<Rightarrow> err" where
  "ctx_err prefix e = prefix # e"

definition lookup_err :: "string \<Rightarrow> err \<Rightarrow> err" where
  "lookup_err ifname e = ctx_err (''error looking up interface '' @ ifname) e"

definition lookup_v6_err :: "string \<Rightarrow> err \<Rightarrow> err" where
  "lookup_v6_err name e = ctx_err (''error looking up v6 interface '' @ name) e"

definition iface_by_ip :: "netlink \<Rightarrow> ip_addr \<Rightarrow> err + net_iface" where
  "iface_by_ip nl ip =
     (case ip of V4 v4 \<Rightarrow> get_interface_by_ip nl v4 | V6 _ \<Rightarrow> Inl [''no interface with given IP found''])"

definition iface_by_ip6 :: "netlink \<Rightarrow> ip_addr \<Rightarrow> err + net_iface" where
  "iface_by_ip6 nl ip =
     (case ip of V6 v6 \<Rightarrow> get_interface_by_ip6 nl v6 | V4 _ \<Rightarrow> Inl [''no interface with given IPv6 found''])"

definition match_ip :: "regex \<Rightarrow> ip_addr list \<Rightarrow> ip_addr option" where
  "match_ip re ips = find (\<lambda>ip. re (show_ip_addr ip)) ips"

definition face_desc :: "string \<Rightarrow> ip_addr list \<Rightarrow> string" where
  "face_desc name ips = name @ '':['' @ join_with '' '' (map show_ip_addr ips) @ '']''"

section \<open>The four ways to choose\<close>

text \<open>What the matching leaves behind: interface, IPv4 address, IPv6 address.\<close>

type_synonym found = "net_iface option \<times> ip_addr option \<times> ip_addr option"

text \<open>\<open>--iface\<close> with an address. In a dual stack the interface of an IPv4 address is looked up first; then
  the one of the public IPv6 address, if there is one.\<close>

definition by_address_dual :: "netlink \<Rightarrow> string \<Rightarrow> public_ip_opts \<Rightarrow> ip_addr \<Rightarrow> err + found" where
  "by_address_dual nl ifname opts ip =
     rbind (if is_ipv4 ip then rbind (map_err (lookup_err ifname) (iface_by_ip nl ip)) (\<lambda>i. Inr (Some i)) else Inr None)
       (\<lambda>iface.
     if po_public_ip_v6 opts = [] then Inr (iface, Some ip, None)
     else case parse_ip_addr (po_public_ip_v6 opts) of
         None \<Rightarrow> Inr (iface, Some ip, None)
       | Some v6 \<Rightarrow>
           rbind (map_err (lookup_v6_err (po_public_ip_v6 opts)) (iface_by_ip6 nl v6)) (\<lambda>v6_iface.
           case iface of
             None \<Rightarrow> Inr (Some v6_iface, None, Some v6)
           | Some i \<Rightarrow>
               if if_name i \<noteq> if_name v6_iface
               then Inl [''v6 interface '' @ if_name v6_iface @ '' must be the same with v4 interface '' @ if_name i]
               else Inr (Some i, Some ip, Some v6)))"

definition by_address :: "netlink \<Rightarrow> string \<Rightarrow> ip_stack \<Rightarrow> public_ip_opts \<Rightarrow> ip_addr \<Rightarrow> err + found" where
  "by_address nl ifname stack opts ip =
     (case stack of
        IPV4_STACK \<Rightarrow> rbind (map_err (lookup_err ifname) (iface_by_ip nl ip)) (\<lambda>i. Inr (Some i, Some ip, None))
      | IPV6_STACK \<Rightarrow> rbind (map_err (lookup_v6_err ifname) (iface_by_ip6 nl ip)) (\<lambda>i. Inr (Some i, Some ip, Some ip))
      | DUAL_STACK \<Rightarrow> by_address_dual nl ifname opts ip
      | NONE_STACK \<Rightarrow> Inr (None, Some ip, None))"

definition by_name :: "netlink \<Rightarrow> string \<Rightarrow> err + found" where
  "by_name nl ifname =
     rbind (map_err (lookup_err ifname) (get_interface_by_name nl ifname)) (\<lambda>i. Inr (Some i, None, None))"

text \<open>The loop over the interfaces: the addresses found so far are kept when an interface only matches
  in one family.\<close>

fun regex_addr_loop ::
  "netlink \<Rightarrow> regex \<Rightarrow> ip_stack \<Rightarrow> net_iface list \<Rightarrow> ip_addr option \<Rightarrow> ip_addr option \<Rightarrow> found" where
  "regex_addr_loop nl re stack [] addr v6_addr = (None, addr, v6_addr)"
| "regex_addr_loop nl re stack (face # faces) addr v6_addr =
     (case stack of
        IPV4_STACK \<Rightarrow>
          (case get_iface_ip4_addrs nl face of
             Inr ips \<Rightarrow>
               (case match_ip re ips of
                  Some m \<Rightarrow> (Some face, Some m, v6_addr)
                | None \<Rightarrow> regex_addr_loop nl re stack faces addr v6_addr)
           | Inl _ \<Rightarrow> regex_addr_loop nl re stack faces addr v6_addr)
      | IPV6_STACK \<Rightarrow>
          (case get_iface_ip6_addrs nl face of
             Inr ips \<Rightarrow>
               (case match_ip re ips of
                  Some m \<Rightarrow> (Some face, addr, Some m)
                | None \<Rightarrow> regex_addr_loop nl re stack faces addr v6_addr)
           | Inl _ \<Rightarrow> regex_addr_loop nl re stack faces addr v6_addr)
      | DUAL_STACK \<Rightarrow>
          (case (get_iface_ip4_addrs nl face, get_iface_ip6_addrs nl face) of
             (Inr v4s, Inr v6s) \<Rightarrow>
               (case match_ip re v4s of
                  None \<Rightarrow> regex_addr_loop nl re stack faces addr v6_addr
                | Some m \<Rightarrow>
                    (case match_ip re v6s of
                       Some m6 \<Rightarrow> (Some face, Some m, Some m6)
                     | None \<Rightarrow> regex_addr_loop nl re stack faces (Some m) v6_addr))
           | _ \<Rightarrow> regex_addr_loop nl re stack faces addr v6_addr)
      | NONE_STACK \<Rightarrow> regex_addr_loop nl re stack faces addr v6_addr)"

definition or_empty :: "err + 'a list \<Rightarrow> 'a list" where
  "or_empty r = (case r of Inr xs \<Rightarrow> xs | Inl _ \<Rightarrow> [])"

definition available :: "netlink \<Rightarrow> ip_stack \<Rightarrow> net_iface \<Rightarrow> string" where
  "available nl stack face =
     face_desc (if_name face)
       (if stack = IPV6_STACK then or_empty (get_iface_ip6_addrs nl face) else or_empty (get_iface_ip4_addrs nl face))"

definition by_regex :: "netlink \<Rightarrow> string \<Rightarrow> regex \<Rightarrow> ip_stack \<Rightarrow> err + found" where
  "by_regex nl ifregex re stack =
     rbind (map_err (ctx_err ''error listing all interfaces'') (list_links nl)) (\<lambda>links.
     let faces = map net_iface_of links;
         (iface, addr, v6_addr) = regex_addr_loop nl re stack faces None None;
         iface = (if iface = None \<and> (addr = None \<or> v6_addr = None)
                  then find (\<lambda>f. re (if_name f)) faces else iface)
     in if iface = None
        then Inl [''could not match pattern '' @ ifregex @ '' to any of the available network interfaces ('' @
               join_with '', '' (map (available nl stack) faces) @ '')'']
        else Inr (iface, addr, v6_addr))"

definition by_reach :: "netlink \<Rightarrow> string \<Rightarrow> err + found" where
  "by_reach nl ifcanreach =
     (case parse_ip_addr ifcanreach of
        None \<Rightarrow> Inl [''failed to get ifcanreach based interface'', ''invalid IP address syntax'']
      | Some ip \<Rightarrow>
          rbind (map_err (ctx_err ''failed to get ifcanreach based interface'')
            (get_interface_by_specific_ip_routing nl ip)) (\<lambda>(i, addr). Inr (Some i, addr, None)))"

definition by_default_route :: "netlink \<Rightarrow> ip_stack \<Rightarrow> err + found" where
  "by_default_route nl stack =
     (let v4 = map_err (ctx_err ''failed to get default interface'') (get_default_gateway_interface nl);
          v6 = map_err (ctx_err ''failed to get default v6 interface'') (get_default_v6_gateway_interface nl)
      in case stack of
        IPV4_STACK \<Rightarrow> rbind v4 (\<lambda>(i, _). Inr (Some i, None, None))
      | IPV6_STACK \<Rightarrow> rbind v6 (\<lambda>(i, _). Inr (Some i, None, None))
      | DUAL_STACK \<Rightarrow>
          rbind v4 (\<lambda>(i, _). rbind v6 (\<lambda>(v6_iface, _).
          if if_name i \<noteq> if_name v6_iface
          then Inl [''v6 default route interface '' @ if_name v6_iface @
                 '' must be the same with v4 default route interface '' @ if_name i]
          else Inr (Some i, None, None)))
      | NONE_STACK \<Rightarrow> Inr (None, None, None))"

section \<open>The whole lookup\<close>

definition fill_v4_addr :: "netlink \<Rightarrow> ip_stack \<Rightarrow> net_iface \<Rightarrow> ip_addr option \<Rightarrow> err + ip_addr option" where
  "fill_v4_addr nl stack i addr =
     (if (stack = IPV4_STACK \<or> stack = DUAL_STACK) \<and> addr = None then
        (case get_iface_ip4_addrs nl i of
           Inr (a # _) \<Rightarrow> Inr (Some a)
         | _ \<Rightarrow> Inl [''failed to find IPv4 address for interface '' @ if_name i])
      else Inr addr)"

definition fill_v6_addr :: "netlink \<Rightarrow> ip_stack \<Rightarrow> net_iface \<Rightarrow> ip_addr option \<Rightarrow> err + ip_addr option" where
  "fill_v6_addr nl stack i addr =
     (if (stack = IPV6_STACK \<or> stack = DUAL_STACK) \<and> addr = None then
        (case get_iface_ip6_addrs nl i of
           Inr (a # _) \<Rightarrow> Inr (Some a)
         | _ \<Rightarrow> Inl [''failed to find IPv6 address for interface '' @ if_name i])
      else Inr addr)"

text \<open>A public address of the options, else the interface address unless the stack is the other family.\<close>

definition external_addr :: "string \<Rightarrow> string \<Rightarrow> bool \<Rightarrow> ip_addr option \<Rightarrow> err + ip_addr option" where
  "external_addr what public use_iface addr =
     rbind (if public = [] then Inr None
            else case parse_ip_addr public of
                Some ip \<Rightarrow> Inr (Some ip)
              | None \<Rightarrow> Inl [what @ public]) (\<lambda>ext.
     Inr (if ext = None \<and> use_iface then addr else ext))"

definition finish_lookup :: "netlink \<Rightarrow> ip_stack \<Rightarrow> public_ip_opts \<Rightarrow> found \<Rightarrow> err + external_interface" where
  "finish_lookup nl stack opts found =
     (let (iface, addr, v6_addr) = found in
      rbind (ok_or [''couldn't find interface to use''] iface) (\<lambda>i.
      rbind (fill_v4_addr nl stack i addr) (\<lambda>addr.
      rbind (fill_v6_addr nl stack i v6_addr) (\<lambda>v6_addr.
      if (case get_link_mtu nl (if_index i) of Inr m \<Rightarrow> m | Inl _ \<Rightarrow> 0) = 0
      then Inl [''failed to determine MTU for '' @ show_ip addr @ '' interface'']
      else
        rbind (external_addr ''invalid public IP address: '' (po_public_ip opts) (stack \<noteq> IPV6_STACK) addr) (\<lambda>ext.
        rbind (external_addr ''invalid public IPv6 address: '' (po_public_ip_v6 opts) (stack \<noteq> IPV4_STACK) v6_addr) (\<lambda>ext6.
        Inr \<lparr>ei_iface_index = if_index i, ei_iface_name = if_name i, ei_iface_addr = addr,
             ei_iface_v6_addr = v6_addr, ei_ext_addr = ext, ei_ext_v6_addr = ext6\<rparr>))))))"

definition lookup_ext_iface ::
  "(string \<Rightarrow> string + regex) \<Rightarrow> netlink \<Rightarrow> string \<Rightarrow> string \<Rightarrow> string \<Rightarrow> ip_stack \<Rightarrow> public_ip_opts \<Rightarrow>
     err + external_interface" where
  "lookup_ext_iface regex_new nl ifname ifregex ifcanreach stack opts =
     rbind (if ifregex = [] then Inr None
            else case regex_new ifregex of
                Inr re \<Rightarrow> Inr (Some re)
              | Inl e \<Rightarrow> Inl [''could not compile the IP address regex '' @ [CHR 0x27] @ ifregex @ [CHR 0x27] @ '': '' @ e])
       (\<lambda>compiled.
     if stack = NONE_STACK then Inl [''none matched ip stack'']
     else
       rbind (if ifname \<noteq> [] then
                (case parse_ip_addr ifname of
                   Some ip \<Rightarrow> by_address nl ifname stack opts ip
                 | None \<Rightarrow> by_name nl ifname)
              else case compiled of
                  Some re \<Rightarrow> by_regex nl ifregex re stack
                | None \<Rightarrow>
                    if ifcanreach \<noteq> [] then by_reach nl ifcanreach
                    else by_default_route nl stack)
         (finish_lookup nl stack opts))"

section \<open>The address belongs to the interface\<close>

definition owns :: "netlink \<Rightarrow> u32 \<Rightarrow> address_family \<Rightarrow> ip_addr \<Rightarrow> bool" where
  "owns nl index family ip \<longleftrightarrow>
     (\<exists>a \<in> set (fst (nl_addrs nl index)). am_family a = family \<and> addr_ip a = Some ip)"

lemma set_insert_by: "set (insert_by cmp x ys) = insert x (set ys)"
  by (induction ys) auto

lemma set_sort_by: "set (sort_by cmp xs) = set xs"
proof -
  have "set (foldl (\<lambda>acc x. insert_by cmp x acc) acc xs) = set acc \<union> set xs" for acc
    by (induction xs arbitrary: acc) (auto simp: set_insert_by)
  then show ?thesis by (simp add: sort_by_def)
qed

lemma usable_addr_Some: "usable_addr a = Some ip \<Longrightarrow> addr_ip a = Some ip"
  by (auto simp: usable_addr_def split: option.splits if_splits)

lemma map_filter_mem: "y \<in> set (List.map_filter f xs) \<longleftrightarrow> (\<exists>x \<in> set xs. f x = Some y)"
  by (induction xs) (auto simp: map_filter_simps split: option.split)

lemma get_iface_ip4_addrs_owns:
  assumes "get_iface_ip4_addrs nl i = Inr ips" and "ip \<in> set ips"
  shows "owns nl (if_index i) Inet ip"
proof -
  obtain as where as: "list_iface_addrs nl (if_index i) Inet = Inr as"
    and ips: "ips = filter is_ipv4 (List.map_filter usable_addr (sort_by compare_addrs as))"
    using assms(1) by (auto simp: get_iface_ip4_addrs_def Let_def split: if_splits)
  have "as = filter (\<lambda>a. am_family a = Inet) (fst (nl_addrs nl (if_index i)))"
    using as by (auto simp: list_iface_addrs_def collect_dump_def split: option.splits)
  with assms(2) ips show ?thesis
    by (auto simp: owns_def map_filter_mem set_sort_by dest!: usable_addr_Some)
qed

lemma iface_owning_owns: "iface_owning nl fam ip none ls = Inr i \<Longrightarrow> owns nl (if_index i) fam ip"
  by (induction ls) (auto simp: list_ex_iff owns_def net_iface_of_def split: if_splits option.splits)

lemma iface_by_ip_owns: "iface_by_ip nl ip = Inr i \<Longrightarrow> owns nl (if_index i) Inet ip"
  by (auto simp: iface_by_ip_def get_interface_by_ip_def dest: iface_owning_owns split: ip_addr.splits)

lemma map_err_Inr: "map_err f r = Inr x \<longleftrightarrow> r = Inr x"
  by (cases r) (simp_all add: map_err_def)

lemma match_ip_mem: "match_ip re ips = Some m \<Longrightarrow> m \<in> set ips"
  by (auto simp: match_ip_def find_Some_iff)

lemma regex_addr_loop_v4:
  "regex_addr_loop nl re IPV4_STACK faces None v6 = (iface, addr, v6') \<Longrightarrow>
     (iface = None \<and> addr = None) \<or> (\<exists>i ip. iface = Some i \<and> addr = Some ip \<and> owns nl (if_index i) Inet ip)"
proof (induction faces)
  case (Cons face faces)
  show ?case
  proof (cases "\<exists>ips m. get_iface_ip4_addrs nl face = Inr ips \<and> match_ip re ips = Some m")
    case True
    then obtain ips m where m: "get_iface_ip4_addrs nl face = Inr ips" "match_ip re ips = Some m" by blast
    have "owns nl (if_index face) Inet m" using get_iface_ip4_addrs_owns [OF m(1) match_ip_mem [OF m(2)]] .
    with m Cons.prems show ?thesis by auto
  next
    case False
    with Cons show ?thesis by (auto split: sum.splits option.splits)
  qed
qed simp

text \<open>What a choice leaves on an IPv4 stack: an interface with no address yet, or with one of its own.\<close>

definition found_v4 :: "netlink \<Rightarrow> found \<Rightarrow> bool" where
  "found_v4 nl f \<longleftrightarrow>
     (case f of (iface, addr, _) \<Rightarrow> addr = None \<or> (\<exists>i ip. iface = Some i \<and> addr = Some ip \<and> owns nl (if_index i) Inet ip))"

lemma by_address_v4: "by_address nl ifname IPV4_STACK opts ip = Inr f \<Longrightarrow> found_v4 nl f"
  by (auto simp: by_address_def map_err_Inr found_v4_def dest: iface_by_ip_owns)

lemma by_name_v4: "by_name nl ifname = Inr f \<Longrightarrow> found_v4 nl f"
  by (auto simp: by_name_def found_v4_def)

lemma by_default_route_v4: "by_default_route nl IPV4_STACK = Inr f \<Longrightarrow> found_v4 nl f"
  by (auto simp: by_default_route_def found_v4_def)

lemma by_regex_v4:
  assumes "by_regex nl ifregex re IPV4_STACK = Inr f"
  shows "found_v4 nl f"
proof -
  obtain links where links: "list_links nl = Inr links"
    using assms by (auto simp: by_regex_def map_err_Inr)
  obtain iface addr v6 where loop: "regex_addr_loop nl re IPV4_STACK (map net_iface_of links) None None = (iface, addr, v6)"
    by (metis prod_cases3)
  from regex_addr_loop_v4 [OF loop] assms links loop show ?thesis
    by (auto simp: by_regex_def map_err_Inr found_v4_def map_err_def Let_def split: if_splits)
qed

lemma finish_lookup_v4:
  assumes "finish_lookup nl IPV4_STACK opts f = Inr ei" and "found_v4 nl f"
  shows "\<exists>ip. ei_iface_addr ei = Some ip \<and> owns nl (ei_iface_index ei) Inet ip \<and>
    ei_ext_addr ei = (if po_public_ip opts = [] then Some ip else parse_ip_addr (po_public_ip opts))"
proof -
  obtain i addr v6 where f: "f = (Some i, addr, v6)"
    using assms(1) by (cases f) (auto simp: finish_lookup_def)
  obtain a where a: "fill_v4_addr nl IPV4_STACK i addr = Inr a"
    and ext: "external_addr ''invalid public IP address: '' (po_public_ip opts) True a = Inr (ei_ext_addr ei)"
    and ei: "ei_iface_addr ei = a" "ei_iface_index ei = if_index i"
    using assms(1) by (auto simp: finish_lookup_def f split: if_splits)
  obtain ip where "a = Some ip" "owns nl (if_index i) Inet ip"
    using a assms(2)
    by (auto simp: fill_v4_addr_def found_v4_def f dest: get_iface_ip4_addrs_owns split: if_splits sum.splits list.splits)
  with ext ei show ?thesis by (auto simp: external_addr_def split: if_splits option.splits)
qed

text \<open>On an IPv4 network the interface that flannel picks by name, by address, by pattern or by the
  default route has the interface address it reports: the kernel lists that address on that
  interface. The external address is the configured public address, or else the interface address.\<close>

theorem lookup_ext_iface_owns:
  assumes "lookup_ext_iface regex_new nl ifname ifregex ifcanreach IPV4_STACK opts = Inr ei"
    and "ifname \<noteq> [] \<or> ifregex \<noteq> [] \<or> ifcanreach = []"
  shows "\<exists>ip. ei_iface_addr ei = Some ip \<and> owns nl (ei_iface_index ei) Inet ip \<and>
    ei_ext_addr ei = (if po_public_ip opts = [] then Some ip else parse_ip_addr (po_public_ip opts))"
proof -
  obtain f where "finish_lookup nl IPV4_STACK opts f = Inr ei" and "found_v4 nl f"
    using assms by (auto simp: lookup_ext_iface_def
      dest: by_address_v4 by_name_v4 by_regex_v4 by_default_route_v4 split: if_splits option.splits sum.splits)
  then show ?thesis by (rule finish_lookup_v4)
qed

text \<open>Two interfaces: \<open>eth0\<close> with an IPv4 address the pattern names and an IPv6 address it does not,
  \<open>eth1\<close> that the pattern names.\<close>

definition two_links :: netlink where
  "two_links =
     (let link = (\<lambda>i name. \<lparr>lm_index = i, lm_attributes = [IfName name, Mtu 1500]\<rparr>);
          addrs = (\<lambda>i. if i = 1 then [new_address (V4 (IP4 0x0a000001)) 24, new_address (V6 (IP6 (0x20 # replicate 14 0 @ [1]))) 64]
                       else [new_address (V4 (IP4 0x0a000102)) 24, new_address (V6 (IP6 (0x20 # replicate 14 0 @ [2]))) 64])
      in \<lparr>nl_links = ([link 1 ''eth0'', link 2 ''eth1''], None),
         nl_link_by_name = (\<lambda>n. ([if n = ''eth0'' then link 1 n else link 2 n], None)),
         nl_link_by_index = (\<lambda>i. ([if i = 1 then link 1 ''eth0'' else link 2 ''eth1''], None)),
         nl_addrs = (\<lambda>i. (addrs i, None)), nl_routes = ([], None), nl_route_get = (\<lambda>_. ([], None))\<rparr>)"

definition no_opts :: public_ip_opts where
  "no_opts = \<lparr>po_public_ip = [], po_public_ip_v6 = []\<rparr>"

definition sample_regex :: "string \<Rightarrow> string + regex" where
  "sample_regex pattern = Inr (\<lambda>t. t = ''10.0.0.1'' \<or> t = ''eth1'')"

theorem lookup_ext_iface_owns_witness:
  "\<exists>ei ip. lookup_ext_iface sample_regex two_links ''eth1'' [] [] IPV4_STACK no_opts = Inr ei \<and>
     ei_iface_addr ei = Some ip \<and> owns two_links (ei_iface_index ei) Inet ip"
proof -
  have "\<not> isl (lookup_ext_iface sample_regex two_links ''eth1'' [] [] IPV4_STACK no_opts)" by code_simp
  then obtain ei where ei: "lookup_ext_iface sample_regex two_links ''eth1'' [] [] IPV4_STACK no_opts = Inr ei"
    by (cases "lookup_ext_iface sample_regex two_links ''eth1'' [] [] IPV4_STACK no_opts") auto
  from lookup_ext_iface_owns [OF ei] ei show ?thesis by auto
qed

text \<open>On a dual stack the pattern can leave behind the IPv4 address of an interface that was then
  rejected for its IPv6 addresses: \<open>eth1\<close> is chosen by its name, with the address of \<open>eth0\<close>.\<close>

theorem lookup_ext_iface_mixes:
  "\<exists>ei. lookup_ext_iface sample_regex two_links [] ''10.0.0.1|eth1'' [] DUAL_STACK no_opts = Inr ei \<and>
     ei_iface_name ei = ''eth1'' \<and> ei_iface_addr ei = Some (V4 (IP4 0x0a000001)) \<and>
     owns two_links 1 Inet (V4 (IP4 0x0a000001)) \<and> \<not> owns two_links (ei_iface_index ei) Inet (V4 (IP4 0x0a000001))"
proof -
  let ?re = "\<lambda>t. t = ''10.0.0.1'' \<or> t = ''eth1''"
  let ?f0 = "\<lparr>if_index = 1, if_name = ''eth0''\<rparr>" and ?f1 = "\<lparr>if_index = 2, if_name = ''eth1''\<rparr>"
  have faces: "map net_iface_of (fst (nl_links two_links)) = [?f0, ?f1]" by code_simp
  have "snd (nl_links two_links) = None" by (simp add: two_links_def Let_def)
  with faces have links: "list_links two_links = Inr (fst (nl_links two_links))"
    by (simp add: list_links_def collect_dump_def)
  have v4: "get_iface_ip4_addrs two_links ?f0 = Inr [V4 (IP4 0x0a000001)]"
      "get_iface_ip4_addrs two_links ?f1 = Inr [V4 (IP4 0x0a000102)]" by code_simp+
  have v6: "get_iface_ip6_addrs two_links ?f0 = Inr [V6 (IP6 (0x20 # replicate 14 0 @ [1]))]"
      "get_iface_ip6_addrs two_links ?f1 = Inr [V6 (IP6 (0x20 # replicate 14 0 @ [2]))]" by code_simp+
  have matches: "match_ip ?re [V4 (IP4 0x0a000001)] = Some (V4 (IP4 0x0a000001))" "match_ip ?re [V4 (IP4 0x0a000102)] = None"
      "match_ip ?re [V6 (IP6 (0x20 # replicate 14 0 @ [1]))] = None" by code_simp+
  have loop: "regex_addr_loop two_links ?re DUAL_STACK [?f0, ?f1] None None = (None, Some (V4 (IP4 0x0a000001)), None)"
    by (simp only: regex_addr_loop.simps v4 v6 matches ip_stack.case prod.case sum.case option.case)
  have chosen: "by_regex two_links ''10.0.0.1|eth1'' ?re DUAL_STACK = Inr (Some ?f1, Some (V4 (IP4 0x0a000001)), None)"
    unfolding by_regex_def links map_err_def by (simp add: faces loop Let_def del: regex_addr_loop.simps)
  have mtu: "get_link_mtu two_links 2 = Inr 1500" by code_simp
  have "lookup_ext_iface sample_regex two_links [] ''10.0.0.1|eth1'' [] DUAL_STACK no_opts =
      Inr \<lparr>ei_iface_index = 2, ei_iface_name = ''eth1'', ei_iface_addr = Some (V4 (IP4 0x0a000001)),
        ei_iface_v6_addr = Some (V6 (IP6 (0x20 # replicate 14 0 @ [2]))), ei_ext_addr = Some (V4 (IP4 0x0a000001)),
        ei_ext_v6_addr = Some (V6 (IP6 (0x20 # replicate 14 0 @ [2])))\<rparr>"
    by (simp add: lookup_ext_iface_def sample_regex_def chosen finish_lookup_def fill_v4_addr_def fill_v6_addr_def v6 mtu
      external_addr_def no_opts_def)
  moreover have "owns two_links 1 Inet (V4 (IP4 0x0a000001))" "\<not> owns two_links 2 Inet (V4 (IP4 0x0a000001))"
    by (simp_all add: owns_def two_links_def new_address_def addr_ip_def is_ipv4_def Let_def)
  ultimately show ?thesis by simp
qed

end
