(* ===== verification/RouteNetwork.thy ===== *)
theory RouteNetwork
  imports Iface Lease
begin

text \<open>
  \<open>backend/route_network/spec.rs\<close> and \<open>backend/route_network.rs\<close>: the routes of the route-based backends,
  the handler of lease events and the periodic route check; the route closures of \<open>backend/hostgw.rs\<close>
  and \<open>backend/ipip.rs\<close>. The kernel is a parameter: a state with a dump of its routes and the add and
  delete requests, each of which gives the next state and an error, if any.
\<close>

section \<open>Routes\<close>

record route_spec =
  rs_dst :: ip_addr
  rs_prefix_len :: u8
  rs_gateway :: ip_addr
  rs_link_index :: u32
  rs_family :: address_family
  rs_onlink :: bool

definition ip4_of :: "ip_addr \<Rightarrow> ip4" where
  "ip4_of ip = (case ip of V4 v4 \<Rightarrow> v4 | V6 _ \<Rightarrow> IP4 0)"

definition ip6_of :: "ip_addr \<Rightarrow> ip6" where
  "ip6_of ip = (case ip of V6 v6 \<Rightarrow> v6 | V4 _ \<Rightarrow> IP6 (replicate 16 0))"

definition dst_net :: "route_spec \<Rightarrow> string" where
  "dst_net s = show_ip_addr (rs_dst s) @ ''/'' @ show_u8 (rs_prefix_len s)"

definition to_message :: "route_spec \<Rightarrow> route_message" where
  "to_message s =
     (if rs_family s = Inet then
        \<lparr>rm_family = Inet, rm_prefix_len = rs_prefix_len s, rm_kind = Unicast, rm_onlink = rs_onlink s,
         rm_attributes = [RtaDestination (RouteInet (ip4_of (rs_dst s))), RtaOif (rs_link_index s)] @
           (case rs_gateway s of V4 g \<Rightarrow> [RtaGateway (RouteInet g)] | V6 _ \<Rightarrow> [])\<rparr>
      else
        \<lparr>rm_family = Inet6, rm_prefix_len = rs_prefix_len s, rm_kind = Unicast, rm_onlink = rs_onlink s,
         rm_attributes = [RtaDestination (RouteInet6 (ip6_of (rs_dst s))), RtaOif (rs_link_index s)] @
           (case rs_gateway s of V6 g \<Rightarrow> [RtaGateway (RouteInet6 g)] | V4 _ \<Rightarrow> [])\<rparr>)"

definition route_spec_equal :: "route_spec \<Rightarrow> route_spec \<Rightarrow> bool" where
  "route_spec_equal x y \<longleftrightarrow>
     rs_dst x = rs_dst y \<and> rs_prefix_len x = rs_prefix_len y \<and> rs_gateway x = rs_gateway y \<and>
     rs_link_index x = rs_link_index y"

definition route_msg_matches :: "route_message \<Rightarrow> route_spec \<Rightarrow> bool" where
  "route_msg_matches msg s \<longleftrightarrow>
     route_dst msg = Some (rs_dst s) \<and> rm_prefix_len msg = rs_prefix_len s \<and>
     route_gateway msg = Some (rs_gateway s) \<and> route_oif msg = Some (rs_link_index s)"

definition spec_of :: "route_message \<Rightarrow> route_spec" where
  "spec_of msg =
     \<lparr>rs_dst = (case route_dst msg of Some ip \<Rightarrow> ip | None \<Rightarrow> V4 (IP4 0)),
      rs_prefix_len = rm_prefix_len msg,
      rs_gateway = (case route_gateway msg of Some ip \<Rightarrow> ip | None \<Rightarrow> V4 (IP4 0)),
      rs_link_index = (case route_oif msg of Some i \<Rightarrow> i | None \<Rightarrow> 0),
      rs_family = rm_family msg, rs_onlink = False\<rparr>"

definition add_to_route_list :: "route_spec list \<Rightarrow> route_spec \<Rightarrow> route_spec list" where
  "add_to_route_list routes route =
     (if list_ex (\<lambda>r. route_spec_equal r route) routes then routes else routes @ [route])"

text \<open>Drop the first entry that satisfies the predicate.\<close>

fun drop_first :: "('a \<Rightarrow> bool) \<Rightarrow> 'a list \<Rightarrow> 'a list" where
  "drop_first p [] = []"
| "drop_first p (x # xs) = (if p x then xs else x # drop_first p xs)"

definition remove_from_route_list :: "route_spec list \<Rightarrow> route_spec \<Rightarrow> route_spec list" where
  "remove_from_route_list routes route = drop_first (\<lambda>r. route_spec_equal r route) routes"

definition remove_msg_from_route_list :: "route_spec list \<Rightarrow> route_message \<Rightarrow> route_spec list" where
  "remove_msg_from_route_list routes msg = drop_first (\<lambda>r. route_msg_matches msg r) routes"

section \<open>The kernel\<close>

record 'k rt_kernel =
  rk_routes :: "'k \<Rightarrow> route_message dump"
  rk_add :: "route_message \<Rightarrow> 'k \<Rightarrow> 'k \<times> string option"
  rk_del :: "route_message \<Rightarrow> 'k \<Rightarrow> 'k \<times> string option"

definition dump_routes :: "'k rt_kernel \<Rightarrow> 'k \<Rightarrow> address_family \<Rightarrow> err + route_message list" where
  "dump_routes kern k family = collect_dump (\<lambda>r. rm_family r = family) (rk_routes kern k)"

definition list_routes_by_dst ::
  "'k rt_kernel \<Rightarrow> 'k \<Rightarrow> address_family \<Rightarrow> route_spec \<Rightarrow> err + route_message list" where
  "list_routes_by_dst kern k family route =
     rbind (dump_routes kern k family) (\<lambda>rs.
     Inr (filter (\<lambda>r. route_dst r = Some (rs_dst route) \<and> rm_prefix_len r = rs_prefix_len route) rs))"

section \<open>Events\<close>

definition listed :: "err + 'a list \<Rightarrow> 'a list" where
  "listed r = (case r of Inr xs \<Rightarrow> xs | Inl _ \<Rightarrow> [])"

text \<open>The first half of \<open>route_add\<close>: remove a route to the same destination that differs. \<open>None\<close> is the
  early return.\<close>

definition replace_existing ::
  "'k rt_kernel \<Rightarrow> address_family \<Rightarrow> route_spec \<Rightarrow> route_spec list \<times> 'k \<Rightarrow> (route_spec list \<times> 'k) \<times> bool" where
  "replace_existing kern family route st =
     (let (list, k) = st in
      case listed (list_routes_by_dst kern k family route) of
        [] \<Rightarrow> ((list, k), True)
      | first # _ \<Rightarrow>
          if route_msg_matches first route then ((list, k), True)
          else (case rk_del kern first k of
              (k', Some _) \<Rightarrow> ((list, k'), False)
            | (k', None) \<Rightarrow> ((remove_msg_from_route_list list first, k'), True)))"

definition add_unless_there ::
  "'k rt_kernel \<Rightarrow> address_family \<Rightarrow> route_spec \<Rightarrow> route_spec list \<times> 'k \<Rightarrow> route_spec list \<times> 'k" where
  "add_unless_there kern family route st =
     (let (list, k) = st in
      case listed (list_routes_by_dst kern k family route) of
        first # _ \<Rightarrow>
          if route_msg_matches first route then (list, k)
          else (list, fst (rk_add kern (to_message route) k))
      | [] \<Rightarrow> (list, fst (rk_add kern (to_message route) k)))"

definition route_add ::
  "'k rt_kernel \<Rightarrow> address_family \<Rightarrow> route_spec \<Rightarrow> route_spec list \<times> 'k \<Rightarrow> route_spec list \<times> 'k" where
  "route_add kern family route st =
     (let (list, k) = st;
          (st, go_on) = replace_existing kern family route (add_to_route_list list route, k)
      in if go_on then add_unless_there kern family route st else st)"

definition route_remove ::
  "'k rt_kernel \<Rightarrow> route_spec \<Rightarrow> route_spec list \<times> 'k \<Rightarrow> route_spec list \<times> 'k" where
  "route_remove kern route st =
     (let (list, k) = st in (remove_from_route_list list route, fst (rk_del kern (to_message route) k)))"

text \<open>The routes of the two families and the kernel. \<open>get_route\<close> may look at the kernel.\<close>

record 'k route_state =
  rt_routes :: "route_spec list"
  rt_v6_routes :: "route_spec list"
  rt_kernel :: 'k

type_synonym 'k get_route = "'k \<Rightarrow> lease \<Rightarrow> route_spec"

definition on_v4 :: "(route_spec list \<times> 'k \<Rightarrow> route_spec list \<times> 'k) \<Rightarrow> 'k route_state \<Rightarrow> 'k route_state" where
  "on_v4 f st = (let (list, k) = f (rt_routes st, rt_kernel st) in st\<lparr>rt_routes := list, rt_kernel := k\<rparr>)"

definition on_v6 :: "(route_spec list \<times> 'k \<Rightarrow> route_spec list \<times> 'k) \<Rightarrow> 'k route_state \<Rightarrow> 'k route_state" where
  "on_v6 f st = (let (list, k) = f (rt_v6_routes st, rt_kernel st) in st\<lparr>rt_v6_routes := list, rt_kernel := k\<rparr>)"

text \<open>One event: the IPv4 half, which ends the event when there is no closure, then the IPv6 half.\<close>

definition handle_family ::
  "'k get_route option \<Rightarrow> ('k \<Rightarrow> lease \<Rightarrow> route_spec \<Rightarrow> 'k route_state \<Rightarrow> 'k route_state) \<Rightarrow> lease \<Rightarrow>
     'k route_state \<Rightarrow> ('k route_state) option" where
  "handle_family gr act l st =
     (case gr of None \<Rightarrow> None | Some g \<Rightarrow> Some (act (rt_kernel st) l (g (rt_kernel st) l) st))"

definition handle_event ::
  "'k rt_kernel \<Rightarrow> string \<Rightarrow> 'k get_route option \<Rightarrow> 'k get_route option \<Rightarrow> 'k route_state \<Rightarrow> event \<Rightarrow> 'k route_state" where
  "handle_event kern bt gr gr6 st evt =
     (let l = ev_lease evt;
          v4 = (\<lambda>_ _ route. on_v4 (case ev_type evt of Added \<Rightarrow> route_add kern Inet route | Removed \<Rightarrow> route_remove kern route));
          v6 = (\<lambda>_ _ route. on_v6 (case ev_type evt of Added \<Rightarrow> route_add kern Inet6 route | Removed \<Rightarrow> route_remove kern route))
      in if backend_type (attrs l) \<noteq> bt then st
         else case (if enable_ipv4 l then handle_family gr v4 l st else Some st) of
             None \<Rightarrow> st
           | Some st1 \<Rightarrow>
               (case (if enable_ipv6 l then handle_family gr6 v6 l st1 else Some st1) of
                  None \<Rightarrow> st1 | Some st2 \<Rightarrow> st2))"

definition handle_subnet_events ::
  "'k rt_kernel \<Rightarrow> string \<Rightarrow> 'k get_route option \<Rightarrow> 'k get_route option \<Rightarrow> event list \<Rightarrow> 'k route_state \<Rightarrow> 'k route_state" where
  "handle_subnet_events kern bt gr gr6 batch st = foldl (handle_event kern bt gr gr6) st batch"

text \<open>The periodic check: the routes of the dump taken at its start decide what is missing.\<close>

definition recover_missing ::
  "'k rt_kernel \<Rightarrow> route_message list \<Rightarrow> route_spec list \<Rightarrow> 'k \<Rightarrow> 'k" where
  "recover_missing kern dump routes k =
     foldl (\<lambda>k route.
       if list_ex (\<lambda>r. route_dst r \<noteq> None \<and> route_msg_matches r route) dump then k
       else fst (rk_add kern (to_message route) k)) k routes"

definition check_subnet_exist_in_routes ::
  "'k rt_kernel \<Rightarrow> address_family \<Rightarrow> route_spec list \<Rightarrow> 'k \<Rightarrow> 'k" where
  "check_subnet_exist_in_routes kern family routes k =
     (case dump_routes kern k family of
        Inl _ \<Rightarrow> k
      | Inr dump \<Rightarrow> recover_missing kern dump routes k)"

definition route_check :: "'k rt_kernel \<Rightarrow> 'k route_state \<Rightarrow> 'k route_state" where
  "route_check kern st =
     st\<lparr>rt_kernel := check_subnet_exist_in_routes kern Inet6 (rt_v6_routes st)
         (check_subnet_exist_in_routes kern Inet (rt_routes st) (rt_kernel st))\<rparr>"

section \<open>Route closures\<close>

definition hostgw_get_route :: "u32 \<Rightarrow> 'k get_route" where
  "hostgw_get_route link_index k l =
     \<lparr>rs_dst = V4 (n4_ip (subnet l)), rs_prefix_len = ucast (n4_prefix_len (subnet l)),
      rs_gateway = V4 (public_ip (attrs l)), rs_link_index = link_index, rs_family = Inet, rs_onlink = False\<rparr>"

definition hostgw_get_v6_route :: "u32 \<Rightarrow> 'k get_route" where
  "hostgw_get_v6_route link_index k l =
     (let gw = (case public_ipv6 (attrs l) of Some ip \<Rightarrow> ip | None \<Rightarrow> IP6 (replicate 16 0)) in
      \<lparr>rs_dst = V6 (n6_ip (ipv6_subnet l)), rs_prefix_len = ucast (n6_prefix_len (ipv6_subnet l)),
       rs_gateway = V6 gw, rs_link_index = link_index, rs_family = Inet6, rs_onlink = False\<rparr>)"

text \<open>\<open>direct\<close> is the answer of \<open>direct_routing\<close> for the gateway.\<close>

definition ipip_get_route :: "('k \<Rightarrow> ip_addr \<Rightarrow> err + bool) \<Rightarrow> bool \<Rightarrow> u32 \<Rightarrow> u32 \<Rightarrow> 'k get_route" where
  "ipip_get_route direct is_direct_routing tunnel_index ext_index k l =
     (let spec = \<lparr>rs_dst = V4 (n4_ip (subnet l)), rs_prefix_len = ucast (n4_prefix_len (subnet l)),
            rs_gateway = V4 (public_ip (attrs l)), rs_link_index = tunnel_index, rs_family = Inet, rs_onlink = True\<rparr>
      in if \<not> is_direct_routing then spec
         else case direct k (rs_gateway spec) of
             Inr True \<Rightarrow> spec\<lparr>rs_link_index := ext_index\<rparr>
           | _ \<Rightarrow> spec)"

definition expected_tunnel_mtu :: "u32 \<Rightarrow> string \<Rightarrow> err + u32" where
  "expected_tunnel_mtu ext_mtu iface_name =
     (if ext_mtu \<le> 20
      then Inl [''MTU '' @ show_u32 ext_mtu @ '' of iface '' @ iface_name @ '' is too small for ipip mode to work'']
      else Inr (ext_mtu - 20))"

definition should_apply_mtu :: "u32 \<Rightarrow> u32 \<Rightarrow> bool" where
  "should_apply_mtu old_mtu expect_mtu \<longleftrightarrow> old_mtu > expect_mtu \<or> old_mtu = 0"

section \<open>The forwarding table\<close>

text \<open>What the code compares of a route: its destination and its next hop.\<close>

type_synonym rt_key = "ip_addr option \<times> u8"
type_synonym rt_hop = "ip_addr option \<times> u32 option"

definition route_key :: "route_message \<Rightarrow> rt_key" where
  "route_key m = (route_dst m, rm_prefix_len m)"

definition route_hop :: "route_message \<Rightarrow> rt_hop" where
  "route_hop m = (route_gateway m, route_oif m)"

definition spec_key :: "route_spec \<Rightarrow> rt_key" where
  "spec_key s = (Some (rs_dst s), rs_prefix_len s)"

definition spec_hop :: "route_spec \<Rightarrow> rt_hop" where
  "spec_hop s = (Some (rs_gateway s), Some (rs_link_index s))"

definition hop_map :: "('a \<Rightarrow> rt_key) \<Rightarrow> ('a \<Rightarrow> rt_hop) \<Rightarrow> 'a list \<Rightarrow> rt_key \<rightharpoonup> rt_hop" where
  "hop_map key hop xs = map_of (map (\<lambda>x. (key x, hop x)) xs)"

abbreviation tracked :: "route_spec list \<Rightarrow> rt_key \<rightharpoonup> rt_hop" where
  "tracked \<equiv> hop_map spec_key spec_hop"

text \<open>The IPv4 main table: \<open>fib k\<close> is its content, one next hop per destination (the code sets no metric);
  a request to add is refused when the destination is taken or the gateway cannot be reached, a request to
  delete removes the route with that next hop, and IPv6 requests do not touch it.\<close>

definition fib_dump :: "'k rt_kernel \<Rightarrow> ('k \<Rightarrow> rt_key \<rightharpoonup> rt_hop) \<Rightarrow> 'k \<Rightarrow> bool" where
  "fib_dump kern fib k \<longleftrightarrow>
     snd (rk_routes kern k) = None \<and>
     distinct (map route_key (filter (\<lambda>m. rm_family m = Inet) (fst (rk_routes kern k)))) \<and>
     fib k = hop_map route_key route_hop (filter (\<lambda>m. rm_family m = Inet) (fst (rk_routes kern k)))"

definition fib_ok ::
  "'k rt_kernel \<Rightarrow> ('k \<Rightarrow> rt_key \<rightharpoonup> rt_hop) \<Rightarrow> (route_message \<Rightarrow> bool) \<Rightarrow> bool" where
  "fib_ok kern fib reach \<longleftrightarrow>
     (\<forall>k. fib_dump kern fib k) \<and>
     (\<forall>m k. rm_family m = Inet \<and> rm_prefix_len m \<noteq> 0 \<longrightarrow>
        fib (fst (rk_add kern m k)) =
          (if fib k (route_key m) = None \<and> reach m then (fib k)(route_key m \<mapsto> route_hop m) else fib k)) \<and>
     (\<forall>m k. rm_family m = Inet \<and> fib k (route_key m) = Some (route_hop m) \<longrightarrow>
        snd (rk_del kern m k) = None \<and> fib (fst (rk_del kern m k)) = (fib k)(route_key m := None)) \<and>
     (\<forall>m k. rm_family m = Inet \<and> route_gateway m \<noteq> None \<and> route_oif m \<noteq> None \<and>
          fib k (route_key m) \<noteq> Some (route_hop m) \<longrightarrow>
        fib (fst (rk_del kern m k)) = fib k) \<and>
     (\<forall>m k. rm_family m \<noteq> Inet \<longrightarrow>
        fib (fst (rk_add kern m k)) = fib k \<and> fib (fst (rk_del kern m k)) = fib k)"

lemma fib_okD:
  assumes "fib_ok kern fib reach"
  shows "fib_dump kern fib k"
    and "rm_family m = Inet \<Longrightarrow> rm_prefix_len m \<noteq> 0 \<Longrightarrow> fib (fst (rk_add kern m k)) =
      (if fib k (route_key m) = None \<and> reach m then (fib k)(route_key m \<mapsto> route_hop m) else fib k)"
    and "rm_family m = Inet \<Longrightarrow> fib k (route_key m) = Some (route_hop m) \<Longrightarrow> snd (rk_del kern m k) = None"
    and "rm_family m = Inet \<Longrightarrow> fib k (route_key m) = Some (route_hop m) \<Longrightarrow>
      fib (fst (rk_del kern m k)) = (fib k)(route_key m := None)"
    and "rm_family m = Inet \<Longrightarrow> route_gateway m \<noteq> None \<Longrightarrow> route_oif m \<noteq> None \<Longrightarrow>
      fib k (route_key m) \<noteq> Some (route_hop m) \<Longrightarrow> fib (fst (rk_del kern m k)) = fib k"
    and "rm_family m \<noteq> Inet \<Longrightarrow> fib (fst (rk_add kern m k)) = fib k"
    and "rm_family m \<noteq> Inet \<Longrightarrow> fib (fst (rk_del kern m k)) = fib k"
  using assms unfolding fib_ok_def by auto

text \<open>A route the IPv4 closures build.\<close>

definition v4_route :: "route_spec \<Rightarrow> bool" where
  "v4_route s \<longleftrightarrow> rs_family s = Inet \<and> rs_prefix_len s \<noteq> 0 \<and>
     (\<exists>d. rs_dst s = V4 d) \<and> (\<exists>g. rs_gateway s = V4 g)"

text \<open>What an event does to a map of next hops.\<close>

definition hop_step :: "event_type \<Rightarrow> rt_key \<Rightarrow> rt_hop \<Rightarrow> (rt_key \<rightharpoonup> rt_hop) \<Rightarrow> rt_key \<rightharpoonup> rt_hop" where
  "hop_step t key hop m =
     (case t of
        Added \<Rightarrow> m(key \<mapsto> hop)
      | Removed \<Rightarrow> if m key = Some hop then m(key := None) else m)"

lemma matches_key_hop:
  "route_msg_matches m s \<longleftrightarrow> route_key m = spec_key s \<and> route_hop m = spec_hop s"
  by (auto simp: route_msg_matches_def route_key_def spec_key_def route_hop_def spec_hop_def)

lemma equal_key_hop:
  "route_spec_equal x y \<longleftrightarrow> spec_key x = spec_key y \<and> spec_hop x = spec_hop y"
  by (auto simp: route_spec_equal_def spec_key_def spec_hop_def)

lemma to_message_v4:
  assumes "v4_route s"
  shows "route_key (to_message s) = spec_key s" "route_hop (to_message s) = spec_hop s"
    "rm_family (to_message s) = Inet" "rm_prefix_len (to_message s) \<noteq> 0"
    "route_gateway (to_message s) \<noteq> None" "route_oif (to_message s) \<noteq> None"
  using assms
  by (auto simp: v4_route_def to_message_def route_key_def spec_key_def route_hop_def spec_hop_def route_dst_def
      route_attr_ip_def route_gateway_def route_oif_def route_addr_to_ip_def ip4_of_def)

lemma hop_map_simps [simp]:
  "hop_map key hop [] = Map.empty"
  "hop_map key hop (x # xs) = (hop_map key hop xs)(key x \<mapsto> hop x)"
  by (simp_all add: hop_map_def)

lemma hop_map_None: "hop_map key hop xs q = None \<longleftrightarrow> q \<notin> key ` set xs"
  by (induction xs) auto

lemma hop_map_append: "hop_map key hop (xs @ ys) = hop_map key hop ys ++ hop_map key hop xs"
  by (simp add: hop_map_def)

lemma hop_map_snoc:
  "key x \<notin> key ` set xs \<Longrightarrow> hop_map key hop (xs @ [x]) = (hop_map key hop xs)(key x \<mapsto> hop x)"
  by (induction xs) (auto simp: fun_upd_twist)

lemma hop_map_set:
  "distinct (map key xs) \<Longrightarrow> x \<in> set xs \<Longrightarrow> hop_map key hop xs (key x) = Some (hop x)"
  by (auto simp: hop_map_def o_def)

lemma hop_map_SomeD: "hop_map key hop xs q = Some h \<Longrightarrow> \<exists>x \<in> set xs. key x = q \<and> hop x = h"
  by (induction xs) (auto split: if_splits)

lemma set_drop_first: "set (drop_first p xs) \<subseteq> set xs"
  by (induction xs) auto

lemma distinct_drop_first: "distinct (map key xs) \<Longrightarrow> distinct (map key (drop_first p xs))"
proof (induction xs)
  case (Cons x xs)
  then show ?case using set_drop_first [of p xs] by auto
qed simp

lemma drop_first_id: "\<forall>x \<in> set xs. \<not> p x \<Longrightarrow> drop_first p xs = xs"
  by (induction xs) auto

lemma drop_first_append: "\<exists>x \<in> set xs. p x \<Longrightarrow> drop_first p (xs @ ys) = drop_first p xs @ ys"
  by (induction xs) auto

lemma hop_map_drop_first:
  assumes "distinct (map key xs)"
  shows "hop_map key hop (drop_first (\<lambda>x. key x = q \<and> hop x = h) xs) =
    (if hop_map key hop xs q = Some h then (hop_map key hop xs)(q := None) else hop_map key hop xs)"
  using assms
proof (induction xs)
  case (Cons x xs)
  then have none: "hop_map key hop xs (key x) = None" by (simp add: hop_map_None)
  from Cons none show ?case by (auto simp: fun_upd_twist)
qed simp

lemma drop_first_absent:
  "distinct (map key xs) \<Longrightarrow> hop_map key hop xs q = Some h \<Longrightarrow>
     q \<notin> key ` set (drop_first (\<lambda>x. key x = q \<and> hop x = h) xs)"
  by (simp add: hop_map_None [symmetric, where hop = hop] hop_map_drop_first)

lemma filter_distinct_key:
  "distinct (map key xs) \<Longrightarrow>
     (case filter (\<lambda>x. key x = q) xs of
        [] \<Rightarrow> hop_map key hop xs q = None
      | [x] \<Rightarrow> x \<in> set xs \<and> key x = q \<and> hop_map key hop xs q = Some (hop x)
      | _ \<Rightarrow> False)"
proof (induction xs)
  case (Cons x xs)
  show ?case
  proof (cases "key x = q")
    case True
    then have "filter (\<lambda>x. key x = q) xs = []" using Cons.prems by (auto simp: filter_empty_conv image_iff)
    with True show ?thesis by simp
  next
    case False
    with Cons show ?thesis by (auto split: list.splits)
  qed
qed simp

lemma list_routes_v4:
  assumes "fib_dump kern fib k"
  obtains (none) "listed (list_routes_by_dst kern k Inet s) = []" "fib k (spec_key s) = None"
  | (one) m where "listed (list_routes_by_dst kern k Inet s) = [m]" "rm_family m = Inet"
      "route_key m = spec_key s" "fib k (spec_key s) = Some (route_hop m)"
proof -
  let ?ms = "filter (\<lambda>m. rm_family m = Inet) (fst (rk_routes kern k))"
  have eq: "listed (list_routes_by_dst kern k Inet s) = filter (\<lambda>m. route_key m = spec_key s) ?ms"
    using assms
    by (auto simp: fib_dump_def list_routes_by_dst_def dump_routes_def collect_dump_def listed_def route_key_def spec_key_def)
  have fib: "fib k = hop_map route_key route_hop ?ms" and dist: "distinct (map route_key ?ms)"
    using assms by (simp_all add: fib_dump_def)
  show thesis
    using filter_distinct_key [OF dist, where q = "spec_key s" and hop = route_hop] none one eq
    by (auto simp: fib split: list.splits)
qed

lemma map_le_Some: "m \<subseteq>\<^sub>m n \<Longrightarrow> m q = Some h \<Longrightarrow> n q = Some h"
  unfolding map_le_def by (drule bspec [of _ _ q]) auto

text \<open>One route added. The tracked list and the table change alike.\<close>

definition in_sync :: "('k \<Rightarrow> rt_key \<rightharpoonup> rt_hop) \<Rightarrow> route_spec list \<times> 'k \<Rightarrow> bool" where
  "in_sync fib st \<longleftrightarrow> distinct (map spec_key (fst st)) \<and> tracked (fst st) \<subseteq>\<^sub>m fib (snd st)"

lemma add_unless_there_v4:
  assumes ok: "fib_ok kern fib reach" and s: "v4_route s" "reach (to_message s)"
    and free: "fib k (spec_key s) = None \<or> fib k (spec_key s) = Some (spec_hop s)"
  shows "fst (add_unless_there kern Inet s (list, k)) = list"
    "fib (snd (add_unless_there kern Inet s (list, k))) = (fib k)(spec_key s \<mapsto> spec_hop s)"
proof -
  have both: "fst (add_unless_there kern Inet s (list, k)) = list \<and>
    fib (snd (add_unless_there kern Inet s (list, k))) = (fib k)(spec_key s \<mapsto> spec_hop s)"
    using fib_okD(1) [OF ok, of k]
  proof (cases rule: list_routes_v4 [where s = s])
    case none
    then show ?thesis
      using s fib_okD(2) [OF ok, of "to_message s" k] by (simp add: add_unless_there_def to_message_v4)
  next
    case (one m)
    with free have "route_hop m = spec_hop s" by simp
    with one show ?thesis
      by (simp add: add_unless_there_def matches_key_hop fun_upd_idem)
  qed
  then show "fst (add_unless_there kern Inet s (list, k)) = list"
    "fib (snd (add_unless_there kern Inet s (list, k))) = (fib k)(spec_key s \<mapsto> spec_hop s)" by simp_all
qed

lemma replace_existing_v4:
  assumes ok: "fib_ok kern fib reach"
  obtains (keep) "replace_existing kern Inet s (list, k) = ((list, k), True)"
      "fib k (spec_key s) = None \<or> fib k (spec_key s) = Some (spec_hop s)"
  | (swap) k' h where "h \<noteq> spec_hop s" "fib k (spec_key s) = Some h" "fib k' = (fib k)(spec_key s := None)"
      "replace_existing kern Inet s (list, k) =
         ((drop_first (\<lambda>r. spec_key r = spec_key s \<and> spec_hop r = h) list, k'), True)"
  using fib_okD(1) [OF ok, of k]
proof (cases rule: list_routes_v4 [where s = s])
  case none
  then show thesis by (intro keep) (simp_all add: replace_existing_def)
next
  case (one m)
  show thesis
  proof (cases "route_hop m = spec_hop s")
    case True
    with one show thesis by (intro keep) (simp_all add: replace_existing_def matches_key_hop)
  next
    case False
    obtain k' e where del: "rk_del kern m k = (k', e)" by (cases "rk_del kern m k")
    have e: "e = None" using fib_okD(3) [OF ok, of m k] one del by simp
    have fib': "fib k' = (fib k)(spec_key s := None)"
      using fib_okD(4) [OF ok, of m k] one del by simp
    have eq: "(\<lambda>r. route_msg_matches m r) = (\<lambda>r. spec_key r = spec_key s \<and> spec_hop r = route_hop m)"
      using one(3) by (auto simp: matches_key_hop)
    show thesis
      by (rule swap [OF False one(4) fib'])
        (use one False del e eq in \<open>simp add: replace_existing_def matches_key_hop remove_msg_from_route_list_def\<close>)
  qed
qed

lemma route_add_v4:
  assumes ok: "fib_ok kern fib reach" and s: "v4_route s" "reach (to_message s)"
    and sync: "in_sync fib (list, k)"
  shows "tracked (fst (route_add kern Inet s (list, k))) = (tracked list)(spec_key s \<mapsto> spec_hop s)"
    "fib (snd (route_add kern Inet s (list, k))) = (fib k)(spec_key s \<mapsto> spec_hop s)"
    "distinct (map spec_key (fst (route_add kern Inet s (list, k))))"
proof -
  let ?list = "add_to_route_list list s"
  from sync have dist: "distinct (map spec_key list)" and sub: "tracked list \<subseteq>\<^sub>m fib k"
    by (simp_all add: in_sync_def)
  have at: "fib k q = Some h" if "tracked list q = Some h" for q h
    using sub that by (rule map_le_Some)
  have fresh: "?list = list @ [s]" if ne: "tracked list (spec_key s) \<noteq> Some (spec_hop s)"
  proof -
    have "\<not> route_spec_equal r s" if "r \<in> set list" for r
    proof
      assume "route_spec_equal r s"
      then have "spec_key r = spec_key s" "spec_hop r = spec_hop s" by (simp_all add: equal_key_hop)
      with hop_map_set [OF dist that, of spec_hop] ne show False by simp
    qed
    then show ?thesis by (auto simp: add_to_route_list_def list_ex_iff)
  qed
  have all: "tracked (fst (route_add kern Inet s (list, k))) = (tracked list)(spec_key s \<mapsto> spec_hop s) \<and>
    fib (snd (route_add kern Inet s (list, k))) = (fib k)(spec_key s \<mapsto> spec_hop s) \<and>
    distinct (map spec_key (fst (route_add kern Inet s (list, k))))"
    using ok
  proof (cases rule: replace_existing_v4 [where s = s and list = ?list and k = k])
    case keep
    have "tracked ?list = (tracked list)(spec_key s \<mapsto> spec_hop s) \<and> distinct (map spec_key ?list)"
    proof (cases "tracked list (spec_key s)")
      case None
      then have "spec_key s \<notin> spec_key ` set list" by (simp add: hop_map_None)
      with None fresh dist show ?thesis by (simp add: hop_map_snoc)
    next
      case (Some h)
      with at keep(2) have h: "h = spec_hop s" by fastforce
      with Some have "\<exists>r \<in> set list. route_spec_equal r s"
        by (auto simp: equal_key_hop dest: hop_map_SomeD)
      then have "?list = list" by (simp add: add_to_route_list_def list_ex_iff)
      with Some h dist show ?thesis by (simp add: fun_upd_idem)
    qed
    with keep add_unless_there_v4 [OF ok s keep(2), of ?list] show ?thesis
      by (simp add: route_add_def)
  next
    case (swap k' h)
    let ?p = "\<lambda>r. spec_key r = spec_key s \<and> spec_hop r = h"
    have ne: "tracked list (spec_key s) \<noteq> Some (spec_hop s)"
      using at swap(1,2) by fastforce
    have drop: "drop_first ?p ?list = drop_first ?p list @ [s]"
    proof (cases "\<exists>r \<in> set list. ?p r")
      case False
      then have "drop_first ?p (list @ [s]) = list @ [s]" using swap(1) by (intro drop_first_id) auto
      moreover from False have "drop_first ?p list = list" by (intro drop_first_id) blast
      ultimately show ?thesis using fresh [OF ne] by simp
    qed (use fresh [OF ne] in \<open>simp add: drop_first_append\<close>)
    have sub': "tracked list (spec_key s) = None \<or> tracked list (spec_key s) = Some h"
      using at swap(2) by (cases "tracked list (spec_key s)") fastforce+
    have absent: "spec_key s \<notin> spec_key ` set (drop_first ?p list)"
      using sub'
    proof
      assume "tracked list (spec_key s) = None"
      then show ?thesis using set_drop_first [of ?p list] unfolding hop_map_None by blast
    next
      assume "tracked list (spec_key s) = Some h"
      then show ?thesis by (rule drop_first_absent [OF dist])
    qed
    have "tracked (drop_first ?p list @ [s]) = (tracked list)(spec_key s \<mapsto> spec_hop s)"
      using absent by (simp add: hop_map_snoc hop_map_drop_first [OF dist])
    moreover have "distinct (map spec_key (drop_first ?p list @ [s]))"
      using absent distinct_drop_first [OF dist] by simp
    moreover have "fib (snd (add_unless_there kern Inet s (drop_first ?p list @ [s], k'))) =
        (fib k)(spec_key s \<mapsto> spec_hop s)"
      using add_unless_there_v4(2) [OF ok s, of k'] swap(3) by simp
    moreover have "fst (add_unless_there kern Inet s (drop_first ?p list @ [s], k')) = drop_first ?p list @ [s]"
      using add_unless_there_v4(1) [OF ok s, of k'] swap(3) by simp
    ultimately show ?thesis using swap(4) drop by (simp add: route_add_def)
  qed
  then show "tracked (fst (route_add kern Inet s (list, k))) = (tracked list)(spec_key s \<mapsto> spec_hop s)"
    "fib (snd (route_add kern Inet s (list, k))) = (fib k)(spec_key s \<mapsto> spec_hop s)"
    "distinct (map spec_key (fst (route_add kern Inet s (list, k))))" by simp_all
qed

lemma route_remove_v4:
  assumes ok: "fib_ok kern fib reach" and s: "v4_route s" and dist: "distinct (map spec_key list)"
  shows "tracked (fst (route_remove kern s (list, k))) = hop_step Removed (spec_key s) (spec_hop s) (tracked list)"
    "fib (snd (route_remove kern s (list, k))) = hop_step Removed (spec_key s) (spec_hop s) (fib k)"
    "distinct (map spec_key (fst (route_remove kern s (list, k))))"
proof -
  show "tracked (fst (route_remove kern s (list, k))) = hop_step Removed (spec_key s) (spec_hop s) (tracked list)"
    using hop_map_drop_first [OF dist]
    by (simp add: route_remove_def remove_from_route_list_def equal_key_hop hop_step_def)
  show "distinct (map spec_key (fst (route_remove kern s (list, k))))"
    using distinct_drop_first [OF dist] by (simp add: route_remove_def remove_from_route_list_def)
  show "fib (snd (route_remove kern s (list, k))) = hop_step Removed (spec_key s) (spec_hop s) (fib k)"
    using fib_okD(4,5) [OF ok, of "to_message s" k] to_message_v4 [OF s]
    by (simp add: route_remove_def hop_step_def)
qed

text \<open>The IPv6 half leaves the IPv4 table alone.\<close>

lemma dump_family: "x \<in> set (listed (list_routes_by_dst kern k family s)) \<Longrightarrow> rm_family x = family"
  by (auto simp: listed_def list_routes_by_dst_def dump_routes_def collect_dump_def rbind_def split: sum.splits option.splits)

lemma to_message_v6: "rs_family s \<noteq> Inet \<Longrightarrow> rm_family (to_message s) \<noteq> Inet"
  by (simp add: to_message_def)

lemma route_add_v6:
  assumes ok: "fib_ok kern fib reach" and s: "rs_family s \<noteq> Inet"
  shows "fib (snd (route_add kern Inet6 s (list, k))) = fib k"
proof -
  have add: "fib (snd (add_unless_there kern Inet6 s st)) = fib (snd st)" for st
    using fib_okD(6) [OF ok to_message_v6 [OF s]]
    by (auto simp: add_unless_there_def split: list.splits prod.splits)
  have rep: "fib (snd (fst (replace_existing kern Inet6 s (l, k)))) = fib k" for l
  proof (cases "listed (list_routes_by_dst kern k Inet6 s)")
    case (Cons m ms)
    then have "rm_family m \<noteq> Inet" using dump_family [of m kern k Inet6 s] by simp
    then have "fib (fst (rk_del kern m k)) = fib k" by (rule fib_okD(7) [OF ok])
    with Cons show ?thesis
      by (cases "rk_del kern m k") (auto simp: replace_existing_def split: option.splits)
  qed (simp add: replace_existing_def)
  from add rep [of "add_to_route_list list s"] show ?thesis by (simp add: route_add_def split_beta)
qed

lemma route_remove_v6:
  "fib_ok kern fib reach \<Longrightarrow> rs_family s \<noteq> Inet \<Longrightarrow> fib (snd (route_remove kern s (list, k))) = fib k"
  using fib_okD(7) [of kern fib reach "to_message s" k] to_message_v6 [of s] by (simp add: route_remove_def)

text \<open>One event, with a closure that does not look at the kernel.\<close>

definition v4_event :: "string \<Rightarrow> event \<Rightarrow> bool" where
  "v4_event bt e \<longleftrightarrow> backend_type (attrs (ev_lease e)) = bt \<and> enable_ipv4 (ev_lease e)"

definition event_step :: "string \<Rightarrow> (lease \<Rightarrow> route_spec) \<Rightarrow> event \<Rightarrow> (rt_key \<rightharpoonup> rt_hop) \<Rightarrow> rt_key \<rightharpoonup> rt_hop" where
  "event_step bt g e m =
     (if v4_event bt e then hop_step (ev_type e) (spec_key (g (ev_lease e))) (spec_hop (g (ev_lease e))) m else m)"

abbreviation state_sync :: "('k \<Rightarrow> rt_key \<rightharpoonup> rt_hop) \<Rightarrow> 'k route_state \<Rightarrow> bool" where
  "state_sync fib st \<equiv> in_sync fib (rt_routes st, rt_kernel st)"

lemma hop_step_mono: "m \<subseteq>\<^sub>m n \<Longrightarrow> hop_step t q h m \<subseteq>\<^sub>m hop_step t q h n"
  by (auto simp: hop_step_def map_le_def dom_def split: event_type.splits)

lemma v4_half:
  assumes ok: "fib_ok kern fib reach" and s: "v4_route s" "reach (to_message s)" and sync: "state_sync fib st"
    and act: "act = (case t of Added \<Rightarrow> route_add kern Inet s | Removed \<Rightarrow> route_remove kern s)"
  shows "tracked (rt_routes (on_v4 act st)) = hop_step t (spec_key s) (spec_hop s) (tracked (rt_routes st))"
    "fib (rt_kernel (on_v4 act st)) = hop_step t (spec_key s) (spec_hop s) (fib (rt_kernel st))"
    "distinct (map spec_key (rt_routes (on_v4 act st)))"
    "rt_v6_routes (on_v4 act st) = rt_v6_routes st"
proof -
  have dist: "distinct (map spec_key (rt_routes st))" using sync by (simp add: in_sync_def)
  note facts = route_add_v4 [OF ok s sync] route_remove_v4 [OF ok s(1) dist, of "rt_kernel st"]
  show "tracked (rt_routes (on_v4 act st)) = hop_step t (spec_key s) (spec_hop s) (tracked (rt_routes st))"
    "fib (rt_kernel (on_v4 act st)) = hop_step t (spec_key s) (spec_hop s) (fib (rt_kernel st))"
    "distinct (map spec_key (rt_routes (on_v4 act st)))"
    "rt_v6_routes (on_v4 act st) = rt_v6_routes st"
    using facts by (cases t; simp add: act on_v4_def split_beta hop_step_def)+
qed

lemma v6_half:
  assumes ok: "fib_ok kern fib reach" and s: "rs_family s \<noteq> Inet"
    and act: "act = (case t of Added \<Rightarrow> route_add kern Inet6 s | Removed \<Rightarrow> route_remove kern s)"
  shows "fib (rt_kernel (on_v6 act st)) = fib (rt_kernel st)" "rt_routes (on_v6 act st) = rt_routes st"
  using route_add_v6 [OF ok s] route_remove_v6 [OF ok s]
  by (cases t; simp add: act on_v6_def split_beta)+

lemma handle_event_v4:
  assumes ok: "fib_ok kern fib reach" and sync: "state_sync fib st"
    and gr: "gr = (\<lambda>k. g)" and gr6: "\<forall>g6 k l. gr6 = Some g6 \<longrightarrow> rs_family (g6 k l) \<noteq> Inet"
    and e: "v4_event bt e \<Longrightarrow> v4_route (g (ev_lease e)) \<and> reach (to_message (g (ev_lease e)))"
  shows "state_sync fib (handle_event kern bt (Some gr) gr6 st e) \<and>
    tracked (rt_routes (handle_event kern bt (Some gr) gr6 st e)) = event_step bt g e (tracked (rt_routes st)) \<and>
    fib (rt_kernel (handle_event kern bt (Some gr) gr6 st e)) = event_step bt g e (fib (rt_kernel st))"
proof -
  let ?l = "ev_lease e"
  let ?s = "g ?l"
  define act where "act = (case ev_type e of Added \<Rightarrow> route_add kern Inet ?s | Removed \<Rightarrow> route_remove kern ?s)"
  define st1 where "st1 = (if enable_ipv4 ?l then on_v4 act st else st)"
  define st2 where "st2 = (case gr6 of Some g6 \<Rightarrow>
    if enable_ipv6 ?l then on_v6 (case ev_type e of
        Added \<Rightarrow> route_add kern Inet6 (g6 (rt_kernel st1) ?l) | Removed \<Rightarrow> route_remove kern (g6 (rt_kernel st1) ?l)) st1
    else st1 | None \<Rightarrow> st1)"
  have eq: "handle_event kern bt (Some gr) gr6 st e = (if backend_type (attrs ?l) \<noteq> bt then st else st2)"
    unfolding st2_def st1_def act_def
    by (simp add: handle_event_def Let_def handle_family_def gr split: option.splits)
  have same: "fib (rt_kernel st2) = fib (rt_kernel st1)" "rt_routes st2 = rt_routes st1"
    using v6_half [OF ok _ refl] gr6 by (auto simp: st2_def split: option.splits)
  have sync1: "distinct (map spec_key (rt_routes st))" "tracked (rt_routes st) \<subseteq>\<^sub>m fib (rt_kernel st)"
    using sync by (simp_all add: in_sync_def)
  show ?thesis
  proof (cases "v4_event bt e")
    case True
    note half = v4_half [OF ok _ _ sync act_def]
    from True e half have "tracked (rt_routes st1) = event_step bt g e (tracked (rt_routes st))"
      "fib (rt_kernel st1) = event_step bt g e (fib (rt_kernel st))" "distinct (map spec_key (rt_routes st1))"
      by (simp_all add: v4_event_def event_step_def st1_def)
    moreover have "event_step bt g e (tracked (rt_routes st)) \<subseteq>\<^sub>m event_step bt g e (fib (rt_kernel st))"
      using hop_step_mono [OF sync1(2)] sync1(2) by (simp add: event_step_def)
    ultimately show ?thesis using True eq same by (simp add: v4_event_def in_sync_def)
  next
    case False
    then have "backend_type (attrs ?l) = bt \<Longrightarrow> st1 = st" by (simp add: v4_event_def st1_def)
    with False eq same sync show ?thesis by (auto simp: event_step_def in_sync_def)
  qed
qed

lemma handle_subnet_events_v4:
  assumes ok: "fib_ok kern fib reach" and sync: "state_sync fib st"
    and gr: "gr = (\<lambda>k. g)" and gr6: "\<forall>g6 k l. gr6 = Some g6 \<longrightarrow> rs_family (g6 k l) \<noteq> Inet"
    and batch: "\<forall>e \<in> set batch. v4_event bt e \<longrightarrow> v4_route (g (ev_lease e)) \<and> reach (to_message (g (ev_lease e)))"
  shows "state_sync fib (handle_subnet_events kern bt (Some gr) gr6 batch st) \<and>
    tracked (rt_routes (handle_subnet_events kern bt (Some gr) gr6 batch st)) =
      fold (event_step bt g) batch (tracked (rt_routes st)) \<and>
    fib (rt_kernel (handle_subnet_events kern bt (Some gr) gr6 batch st)) =
      fold (event_step bt g) batch (fib (rt_kernel st))"
  using sync batch
proof (induction batch arbitrary: st)
  case (Cons e batch)
  have step: "state_sync fib (handle_event kern bt (Some gr) gr6 st e)"
    "tracked (rt_routes (handle_event kern bt (Some gr) gr6 st e)) = event_step bt g e (tracked (rt_routes st))"
    "fib (rt_kernel (handle_event kern bt (Some gr) gr6 st e)) = event_step bt g e (fib (rt_kernel st))"
    using handle_event_v4 [OF ok Cons.prems(1) gr gr6] Cons.prems(2) by auto
  from Cons.IH [OF step(1)] Cons.prems(2) step(2,3) show ?case by (simp add: handle_subnet_events_def)
qed (simp add: handle_subnet_events_def)

section \<open>The route check\<close>

lemma recover_missing_v4:
  assumes ok: "fib_ok kern fib reach"
    and routes: "\<forall>s \<in> set routes. v4_route s \<and> reach (to_message s)"
    and dump: "\<And>s. s \<in> set routes \<Longrightarrow>
      list_ex (\<lambda>r. route_dst r \<noteq> None \<and> route_msg_matches r s) dump \<Longrightarrow> fib k (spec_key s) \<noteq> None"
  shows "fib (recover_missing kern dump routes k) = tracked routes ++ fib k"
  using routes dump
proof (induction routes arbitrary: k)
  case (Cons s routes)
  let ?k = "if list_ex (\<lambda>r. route_dst r \<noteq> None \<and> route_msg_matches r s) dump then k
    else fst (rk_add kern (to_message s) k)"
  have k: "fib ?k = (if fib k (spec_key s) = None then (fib k)(spec_key s \<mapsto> spec_hop s) else fib k)"
  proof (cases "list_ex (\<lambda>r. route_dst r \<noteq> None \<and> route_msg_matches r s) dump")
    case True
    then show ?thesis using Cons.prems(2) [of s] by auto
  next
    case False
    then show ?thesis
      using Cons.prems(1) to_message_v4 [of s] fib_okD(2) [OF ok, of "to_message s" k] by simp
  qed
  have "fib (recover_missing kern dump routes ?k) = tracked routes ++ fib ?k"
  proof (rule Cons.IH)
    fix r assume r: "r \<in> set routes" "list_ex (\<lambda>m. route_dst m \<noteq> None \<and> route_msg_matches m r) dump"
    then show "fib ?k (spec_key r) \<noteq> None" unfolding k using Cons.prems(2) [of r] by simp
  qed (use Cons.prems(1) in simp)
  moreover have "recover_missing kern dump (s # routes) k = recover_missing kern dump routes ?k"
    by (simp add: recover_missing_def)
  moreover have "tracked routes ++ fib ?k = tracked (s # routes) ++ fib k"
    unfolding k by (auto simp: map_add_def fun_eq_iff split: option.splits)
  ultimately show ?case by (simp only:)
qed (simp add: recover_missing_def)

lemma check_v4:
  assumes ok: "fib_ok kern fib reach" and routes: "\<forall>s \<in> set routes. v4_route s \<and> reach (to_message s)"
  shows "fib (check_subnet_exist_in_routes kern Inet routes k) = tracked routes ++ fib k"
proof -
  let ?dump = "filter (\<lambda>r. rm_family r = Inet) (fst (rk_routes kern k))"
  from fib_okD(1) [OF ok, of k] have dump: "dump_routes kern k Inet = Inr ?dump"
    and fib: "fib k = hop_map route_key route_hop ?dump"
    by (simp_all add: fib_dump_def dump_routes_def collect_dump_def)
  have "fib (recover_missing kern ?dump routes k) = tracked routes ++ fib k"
  proof (rule recover_missing_v4 [OF ok routes])
    fix s assume "list_ex (\<lambda>r. route_dst r \<noteq> None \<and> route_msg_matches r s) ?dump"
    then have "spec_key s \<in> route_key ` set ?dump" by (auto simp: list_ex_iff matches_key_hop image_iff)
    then show "fib k (spec_key s) \<noteq> None" by (simp add: fib hop_map_None)
  qed
  with dump show ?thesis by (simp add: check_subnet_exist_in_routes_def)
qed

lemma check_v6:
  assumes ok: "fib_ok kern fib reach" and routes: "\<forall>s \<in> set routes. rs_family s \<noteq> Inet"
  shows "fib (check_subnet_exist_in_routes kern Inet6 routes k) = fib k"
proof -
  have "fib (recover_missing kern dump routes k) = fib k" for dump
    using routes
  proof (induction routes arbitrary: k)
    case (Cons s routes)
    then show ?case using fib_okD(6) [OF ok to_message_v6 [of s]] by (simp add: recover_missing_def)
  qed (simp add: recover_missing_def)
  then show ?thesis by (simp add: check_subnet_exist_in_routes_def split: sum.splits)
qed

section \<open>Properties\<close>

definition hostgw_spec :: "u32 \<Rightarrow> lease \<Rightarrow> route_spec" where
  "hostgw_spec idx l = hostgw_get_route idx () l"

text \<open>A lease whose subnet is a proper network and whose node can be reached through the link.\<close>

definition reachable_lease :: "(route_message \<Rightarrow> bool) \<Rightarrow> u32 \<Rightarrow> lease \<Rightarrow> bool" where
  "reachable_lease reach idx l \<longleftrightarrow>
     0 < n4_prefix_len (subnet l) \<and> n4_prefix_len (subnet l) \<le> 32 \<and> reach (to_message (hostgw_spec idx l))"

lemma hostgw_get_route_spec: "hostgw_get_route idx = (\<lambda>k. hostgw_spec idx)"
  by (simp add: fun_eq_iff hostgw_spec_def hostgw_get_route_def)

lemma hostgw_v4_route: "reachable_lease reach idx l \<Longrightarrow> v4_route (hostgw_spec idx l)"
proof -
  assume l: "reachable_lease reach idx l"
  then have n: "unat (n4_prefix_len (subnet l)) \<le> 32" "n4_prefix_len (subnet l) \<noteq> 0"
    by (auto simp: reachable_lease_def word_le_nat_alt)
  then have "unat (ucast (n4_prefix_len (subnet l)) :: u8) = unat (n4_prefix_len (subnet l))"
    by (simp add: unsigned_ucast_eq take_bit_eq_mod unsigned_take_bit_eq)
  with n have "(ucast (n4_prefix_len (subnet l)) :: u8) \<noteq> 0" by (metis unat_0 unat_eq_zero)
  then show "v4_route (hostgw_spec idx l)" by (simp add: v4_route_def hostgw_spec_def hostgw_get_route_def)
qed

text \<open>C7. host-gw follows the lease events. While the IPv4 table of the kernel behaves as \<open>fib_ok\<close> says and
  every lease of a batch is a proper subnet of a reachable node, \<open>handle_subnet_events\<close> changes the tracked
  routes and the kernel table alike, event by event: an added lease makes the public address of its node the
  next hop of its subnet, whatever route was there; a removed lease takes the route out when it still points
  to that node; every other destination, and the events of other backends, are left alone. Afterwards every
  tracked destination occurs once and is in the kernel.\<close>

theorem hostgw_routes_follow_leases:
  assumes "fib_ok kern fib reach" and "state_sync fib st"
    and "\<forall>e \<in> set batch. v4_event ''host-gw'' e \<longrightarrow> reachable_lease reach idx (ev_lease e)"
    and st': "st' = handle_subnet_events kern ''host-gw'' (Some (hostgw_get_route idx))
      (Some (hostgw_get_v6_route idx)) batch st"
  shows "state_sync fib st' \<and>
    tracked (rt_routes st') = fold (event_step ''host-gw'' (hostgw_spec idx)) batch (tracked (rt_routes st)) \<and>
    fib (rt_kernel st') = fold (event_step ''host-gw'' (hostgw_spec idx)) batch (fib (rt_kernel st))"
  unfolding st'
  by (rule handle_subnet_events_v4 [OF assms(1,2) hostgw_get_route_spec])
    (use assms(3) in \<open>auto simp: hostgw_get_v6_route_def Let_def reachable_lease_def
        hostgw_v4_route [unfolded reachable_lease_def]\<close>)

text \<open>The periodic check restores routes and does nothing else: the table afterwards is the table before,
  completed with the tracked routes for destinations it had no route to. A destination that another route
  holds keeps that route.\<close>

theorem route_check_restores:
  assumes "fib_ok kern fib reach"
    and "\<forall>s \<in> set (rt_routes st). v4_route s \<and> reach (to_message s)"
    and "\<forall>s \<in> set (rt_v6_routes st). rs_family s \<noteq> Inet"
  shows "fib (rt_kernel (route_check kern st)) = tracked (rt_routes st) ++ fib (rt_kernel st)"
  using check_v4 [OF assms(1,2)] check_v6 [OF assms(1,3)] by (simp add: route_check_def)

text \<open>A kernel for the witnesses: a list of routes, the first of a destination counts.\<close>

fun first_of_key :: "route_message list \<Rightarrow> route_message list" where
  "first_of_key [] = []"
| "first_of_key (m # ms) = m # filter (\<lambda>x. route_key x \<noteq> route_key m) (first_of_key ms)"

definition list_fib :: "route_message list \<Rightarrow> rt_key \<rightharpoonup> rt_hop" where
  "list_fib k = hop_map route_key route_hop (filter (\<lambda>m. rm_family m = Inet) k)"

definition list_kernel :: "route_message list rt_kernel" where
  "list_kernel =
     \<lparr>rk_routes = (\<lambda>k. (first_of_key (filter (\<lambda>m. rm_family m = Inet) k), None)),
      rk_add = (\<lambda>m k. if rm_family m = Inet \<and> list_fib k (route_key m) \<noteq> None then (k, Some ''File exists'')
                 else (k @ [m], None)),
      rk_del = (\<lambda>m k. if rm_family m = Inet \<and> list_fib k (route_key m) = Some (route_hop m)
                 then (filter (\<lambda>x. \<not> (rm_family x = Inet \<and> route_key x = route_key m)) k, None)
                 else (k, Some ''No such process''))\<rparr>"

lemma first_of_key_set: "route_key ` set (first_of_key xs) = route_key ` set xs"
proof (induction xs)
  case (Cons m ms)
  have "route_key ` set (filter (\<lambda>x. route_key x \<noteq> route_key m) (first_of_key ms)) =
      route_key ` set (first_of_key ms) - {route_key m}" by auto
  with Cons show ?case by auto
qed simp

lemma first_of_key_distinct: "distinct (map route_key (first_of_key xs))"
  by (induction xs) (auto simp: distinct_map_filter)

lemma hop_map_filter_del:
  "hop_map key hop (filter (\<lambda>x. key x \<noteq> q) xs) = (hop_map key hop xs)(q := None)"
  by (induction xs) (auto simp: fun_upd_twist)

lemma first_of_key_map: "hop_map route_key route_hop (first_of_key xs) = hop_map route_key route_hop xs"
  by (induction xs) (simp_all add: hop_map_filter_del)

lemma list_fib_append: "rm_family m = Inet \<Longrightarrow> list_fib k (route_key m) = None \<Longrightarrow>
    list_fib (k @ [m]) = (list_fib k)(route_key m \<mapsto> route_hop m)"
  by (simp add: list_fib_def hop_map_snoc hop_map_None)

lemma list_fib_del:
  "list_fib (filter (\<lambda>x. rm_family x = Inet \<longrightarrow> route_key x \<noteq> q) k) = (list_fib k)(q := None)"
proof -
  have "filter (\<lambda>m. rm_family m = Inet) (filter (\<lambda>x. rm_family x = Inet \<longrightarrow> route_key x \<noteq> q) k) =
    filter (\<lambda>x. route_key x \<noteq> q) (filter (\<lambda>m. rm_family m = Inet) k)" by (induction k) auto
  then show ?thesis by (simp add: list_fib_def hop_map_filter_del del: filter_filter)
qed

lemma list_kernel_ok: "fib_ok list_kernel list_fib (\<lambda>_. True)"
proof -
  have family: "filter (\<lambda>m. rm_family m = Inet) (first_of_key (filter (\<lambda>m. rm_family m = Inet) k)) =
      first_of_key (filter (\<lambda>m. rm_family m = Inet) k)" for k
  proof -
    have "set (first_of_key xs) \<subseteq> set xs" for xs by (induction xs) auto
    from subsetD [OF this] show ?thesis by (intro filter_True) fastforce
  qed
  have "fib_dump list_kernel list_fib k" for k
    unfolding fib_dump_def list_kernel_def
    by (simp add: family first_of_key_distinct first_of_key_map list_fib_def)
  moreover have "list_fib (k @ [m]) = list_fib k" if "rm_family m \<noteq> Inet" for m k
    using that by (simp add: list_fib_def)
  ultimately show ?thesis
    unfolding fib_ok_def by (auto simp: list_kernel_def list_fib_append list_fib_del)
qed

definition sample_added :: event where
  "sample_added = \<lparr>ev_type = Added, ev_lease = (sample_lease 2)\<lparr>attrs := (attrs (sample_lease 2))\<lparr>backend_type := ''host-gw''\<rparr>\<rparr>\<rparr>"

definition sample_route_state :: "route_message list route_state" where
  "sample_route_state = \<lparr>rt_routes = [], rt_v6_routes = [], rt_kernel = []\<rparr>"

lemma sample_spec: "hostgw_spec 3 (ev_lease sample_added) =
   \<lparr>rs_dst = V4 (n4_ip (subnet (sample_lease 2))), rs_prefix_len = 24, rs_gateway = V4 (public_ip (attrs (sample_lease 2))),
    rs_link_index = 3, rs_family = Inet, rs_onlink = False\<rparr>"
  by (simp add: hostgw_spec_def hostgw_get_route_def sample_added_def sample_lease_def)

theorem hostgw_routes_follow_leases_witness:
  "list_fib (rt_kernel (handle_subnet_events list_kernel ''host-gw'' (Some (hostgw_get_route 3))
       (Some (hostgw_get_v6_route 3)) [sample_added] sample_route_state))
     (Some (V4 (n4_ip (subnet (sample_lease 2)))), 24) =
   Some (Some (V4 (public_ip (attrs (sample_lease 2)))), Some 3)"
proof -
  have sync: "state_sync list_fib sample_route_state" by (simp add: in_sync_def sample_route_state_def)
  have ok: "\<forall>e \<in> set [sample_added]. v4_event ''host-gw'' e \<longrightarrow> reachable_lease (\<lambda>_. True) 3 (ev_lease e)"
    by (simp add: reachable_lease_def sample_added_def sample_lease_def)
  have "v4_event ''host-gw'' sample_added" "ev_type sample_added = Added"
    by (simp_all add: v4_event_def sample_added_def sample_lease_def)
  then show ?thesis
    using hostgw_routes_follow_leases [OF list_kernel_ok sync ok refl]
    by (simp add: event_step_def hop_step_def sample_spec spec_key_def spec_hop_def)
qed

theorem route_check_restores_witness:
  "list_fib (rt_kernel (route_check list_kernel (sample_route_state\<lparr>rt_routes := [hostgw_spec 3 (ev_lease sample_added)]\<rparr>)))
     (Some (V4 (n4_ip (subnet (sample_lease 2)))), 24) =
   Some (Some (V4 (public_ip (attrs (sample_lease 2)))), Some 3)"
  by (subst route_check_restores [OF list_kernel_ok])
    (simp_all add: sample_route_state_def sample_spec v4_route_def spec_key_def spec_hop_def list_fib_def)

text \<open>A stale route can come back. When the tracked route of a subnet is missing from the kernel at the time
  its node announces another address, \<open>route_add\<close> finds nothing to replace and the list keeps the old route in
  front of the new one. The next time the kernel loses the route, the check restores the old one, and the new
  one is refused because the destination is taken.\<close>

theorem stale_route_restored:
  assumes ok: "fib_ok kern fib reach" and old: "v4_route old" "reach (to_message old)"
    and new: "v4_route new" "reach (to_message new)"
    and same: "spec_key old = spec_key new" "spec_hop old \<noteq> spec_hop new"
    and lost: "fib k (spec_key new) = None" "fib k2 (spec_key new) = None"
  shows "fst (route_add kern Inet new ([old], k)) = [old, new] \<and>
    fib (snd (route_add kern Inet new ([old], k))) (spec_key new) = Some (spec_hop new) \<and>
    fib (check_subnet_exist_in_routes kern Inet (fst (route_add kern Inet new ([old], k))) k2) (spec_key new) =
      Some (spec_hop old)"
proof -
  have list: "add_to_route_list [old] new = [old, new]"
    using same by (simp add: add_to_route_list_def equal_key_hop)
  have none: "fib k (spec_key new) = None \<or> fib k (spec_key new) = Some (spec_hop new)" using lost by simp
  have rep: "replace_existing kern Inet new ([old, new], k) = (([old, new], k), True)"
    using ok by (cases rule: replace_existing_v4 [where s = new and list = "[old, new]" and k = k]) (use lost in auto)
  have fst: "fst (route_add kern Inet new ([old], k)) = [old, new]"
    using add_unless_there_v4(1) [OF ok new none] by (simp add: route_add_def list rep)
  moreover have "fib (snd (route_add kern Inet new ([old], k))) (spec_key new) = Some (spec_hop new)"
    using add_unless_there_v4(2) [OF ok new none] by (simp add: route_add_def list rep)
  moreover have "fib (check_subnet_exist_in_routes kern Inet [old, new] k2) (spec_key new) = Some (spec_hop old)"
    using check_v4 [OF ok, of "[old, new]" k2] old new same lost by (simp add: map_add_def)
  ultimately show ?thesis by simp
qed

theorem stale_route_restored_witness:
  "\<exists>old new. spec_hop old \<noteq> spec_hop new \<and>
     list_fib (check_subnet_exist_in_routes list_kernel Inet (fst (route_add list_kernel Inet new ([old], []))) [])
       (spec_key new) = Some (spec_hop old)"
proof -
  define new where "new = hostgw_spec 3 (ev_lease sample_added)"
  define old where "old = new\<lparr>rs_gateway := V4 (IP4 1)\<rparr>"
  have wf: "v4_route old" "v4_route new" "spec_key old = spec_key new" "spec_hop old \<noteq> spec_hop new"
    by (simp_all add: old_def new_def sample_spec v4_route_def spec_key_def spec_hop_def sample_lease_def)
  have empty: "list_fib [] (spec_key new) = None" by (simp add: list_fib_def)
  have "list_fib (check_subnet_exist_in_routes list_kernel Inet (fst (route_add list_kernel Inet new ([old], []))) [])
       (spec_key new) = Some (spec_hop old)"
    using stale_route_restored [OF list_kernel_ok wf(1) TrueI wf(2) TrueI wf(3,4) empty empty] by blast
  with wf(4) show ?thesis by blast
qed

end
