(* ===== verification/Vxlan.thy ===== *)
theory Vxlan
  imports Acquire Ipmatch Config
begin

text \<open>
  The VXLAN backend up to the registration of its network: \<open>mac.rs\<close>, \<open>backend/vxlan/config.rs\<close>,
  \<open>link_info.rs\<close>, \<open>device.rs\<close> and \<open>mod.rs\<close>. Parameters are the JSON parser, the random bytes of the
  uuid crate, and the kernel's links, which requests to add and delete links change.
\<close>

section \<open>Hardware addresses\<close>

type_synonym mac_addr = "u8 list"

definition new_hardware_addr :: "u8 list \<Rightarrow> mac_addr" where
  "new_hardware_addr random =
     (let hardware_addr = take 6 random in hardware_addr[0 := (hardware_addr ! 0 AND 0xfe) OR 0x02])"

text \<open>The format \<open>{:02x}\<close> of an octet.\<close>

definition show_hex2 :: "u8 \<Rightarrow> string" where
  "show_hex2 b = [hex_digit (unat b div 16), hex_digit (unat b mod 16)]"

definition mac_to_string :: "mac_addr \<Rightarrow> string" where
  "mac_to_string addr = join_with '':'' (map show_hex2 addr)"

text \<open>\<open>str::split\<close> with a set of separators.\<close>

fun split_any :: "(char \<Rightarrow> bool) \<Rightarrow> string \<Rightarrow> string list" where
  "split_any p [] = [[]]"
| "split_any p (c # cs) =
     (if p c then [] # split_any p cs
      else case split_any p cs of [] \<Rightarrow> [[c]] | x # xs \<Rightarrow> (c # x) # xs)"

text \<open>\<open>u8::from_str_radix(p, 16)\<close>: an optional plus sign, at least one digit, a value below 256.\<close>

definition u8_from_hex :: "string \<Rightarrow> u8 option" where
  "u8_from_hex s =
     (let ds = (case s of [] \<Rightarrow> [] | c # cs \<Rightarrow> if c = CHR ''+'' then cs else s)
      in if ds = [] \<or> \<not> list_all (is_digit 16) ds then None
         else if digits_value 16 ds < 256 then Some (of_nat (digits_value 16 ds)) else None)"

fun parse_octets :: "string \<Rightarrow> string list \<Rightarrow> string + mac_addr" where
  "parse_octets s [] = Inr []"
| "parse_octets s (p # ps) =
     (if length p \<noteq> 2 then Inl (''address '' @ s @ '': invalid MAC address'')
      else case u8_from_hex p of
          None \<Rightarrow> Inl (''address '' @ s @ '': invalid hex digit in MAC address'')
        | Some b \<Rightarrow> rbind (parse_octets s ps) (\<lambda>bs. Inr (b # bs)))"

definition parse_mac :: "string \<Rightarrow> string + mac_addr" where
  "parse_mac s =
     (let parts = split_any (\<lambda>c. c = CHR '':'' \<or> c = CHR ''-'') s in
      if length parts \<noteq> 6 then Inl (''address '' @ s @ '': invalid MAC address'') else parse_octets s parts)"

section \<open>Backend configuration\<close>

record vxlan_config =
  vc_vni :: u32
  vc_port :: u32
  vc_mtu :: u32
  vc_gbp :: bool
  vc_learning :: bool
  vc_direct_routing :: bool

definition VXLAN_FIELDS :: "string list" where
  "VXLAN_FIELDS = [''mtu'', ''vni'', ''port'', ''gbp'', ''learning'', ''directRouting'']"

definition match_field :: "string \<Rightarrow> string option" where
  "match_field key =
     (case find (\<lambda>tag. key = tag) VXLAN_FIELDS of
        Some tag \<Rightarrow> Some tag
      | None \<Rightarrow> find (\<lambda>tag. eq_ignore_ascii_case key tag) VXLAN_FIELDS)"

fun json_type :: "json \<Rightarrow> string" where
  "json_type JNull = ''null''"
| "json_type (JBool _) = ''bool''"
| "json_type (JPos _) = ''number''"
| "json_type (JNeg _) = ''number''"
| "json_type (JFloat _) = ''number''"
| "json_type (JString _) = ''string''"
| "json_type (JArray _) = ''array''"
| "json_type (JObject _) = ''object''"

text \<open>\<open>Value::as_i64\<close>.\<close>

definition as_i64 :: "json \<Rightarrow> int option" where
  "as_i64 v = (case v of JPos n \<Rightarrow> if n < 2 ^ 63 then Some (int n) else None | JNeg i \<Rightarrow> Some i | _ \<Rightarrow> None)"

definition field_error :: "string \<Rightarrow> json \<Rightarrow> string \<Rightarrow> string" where
  "field_error tag val ty =
     ''json: cannot unmarshal '' @ json_type val @ '' into Go struct field VXLANConfig.'' @ tag @ '' of type '' @ ty"

definition int_field :: "string \<Rightarrow> json \<Rightarrow> string + u32" where
  "int_field tag val = (case as_i64 val of None \<Rightarrow> Inl (field_error tag val ''int'') | Some n \<Rightarrow> Inr (word_of_int n))"

definition bool_field :: "string \<Rightarrow> json \<Rightarrow> string + bool" where
  "bool_field tag val = (case val of JBool b \<Rightarrow> Inr b | _ \<Rightarrow> Inl (field_error tag val ''bool''))"

definition set_field :: "string \<Rightarrow> json \<Rightarrow> vxlan_config \<Rightarrow> string + vxlan_config" where
  "set_field tag val cfg =
     (if tag = ''mtu'' then map_sum id (\<lambda>n. cfg\<lparr>vc_mtu := n\<rparr>) (int_field tag val)
      else if tag = ''vni'' then map_sum id (\<lambda>n. cfg\<lparr>vc_vni := n\<rparr>) (int_field tag val)
      else if tag = ''port'' then map_sum id (\<lambda>n. cfg\<lparr>vc_port := n\<rparr>) (int_field tag val)
      else if tag = ''gbp'' then map_sum id (\<lambda>b. cfg\<lparr>vc_gbp := b\<rparr>) (bool_field tag val)
      else if tag = ''learning'' then map_sum id (\<lambda>b. cfg\<lparr>vc_learning := b\<rparr>) (bool_field tag val)
      else map_sum id (\<lambda>b. cfg\<lparr>vc_direct_routing := b\<rparr>) (bool_field tag val))"

fun set_fields :: "(string \<times> json) list \<Rightarrow> vxlan_config \<Rightarrow> string + vxlan_config" where
  "set_fields [] cfg = Inr cfg"
| "set_fields ((key, val) # ms) cfg =
     (case match_field key of
        None \<Rightarrow> set_fields ms cfg
      | Some tag \<Rightarrow> rbind (set_field tag val cfg) (set_fields ms))"

definition vxlan_config_default :: "u32 \<Rightarrow> vxlan_config" where
  "vxlan_config_default mtu =
     \<lparr>vc_vni = 1, vc_port = 0, vc_mtu = mtu, vc_gbp = False, vc_learning = False, vc_direct_routing = False\<rparr>"

definition parse_vxlan_config :: "(string \<Rightarrow> string + json) \<Rightarrow> string option \<Rightarrow> u32 \<Rightarrow> string + vxlan_config" where
  "parse_vxlan_config parse backend default_mtu =
     (case backend of
        None \<Rightarrow> Inr (vxlan_config_default default_mtu)
      | Some text \<Rightarrow>
          if text = ''null'' then Inr (vxlan_config_default default_mtu)
          else rbind (parse text) (\<lambda>value.
            case value of
              JObject m \<Rightarrow> set_fields m (vxlan_config_default default_mtu)
            | _ \<Rightarrow> Inl (''json: cannot unmarshal '' @ json_type value @ '' into Go value of type vxlan.VXLANConfig'')))"

section \<open>Link messages\<close>

definition vx_link_name :: "link_message \<Rightarrow> string" where
  "vx_link_name link =
     (case find_map (\<lambda>a. case a of IfName n \<Rightarrow> Some n | _ \<Rightarrow> None) (lm_attributes link) of
        Some n \<Rightarrow> n | None \<Rightarrow> [])"

definition get_link_by_name :: "link_message dump \<Rightarrow> string \<Rightarrow> err + link_message" where
  "get_link_by_name links name =
     rbind (collect_dump (\<lambda>_. True) links) (\<lambda>ls.
     case find (\<lambda>l. vx_link_name l = name) ls of
       Some l \<Rightarrow> Inr l
     | None \<Rightarrow> Inl [''no such network interface with name '' @ name])"

definition link_mac :: "link_message \<Rightarrow> mac_addr option" where
  "link_mac link =
     find_map (\<lambda>a. case a of IflaAddress b \<Rightarrow> if length b = 6 then Some b else None | _ \<Rightarrow> None) (lm_attributes link)"

definition link_kind :: "link_message \<Rightarrow> info_kind option" where
  "link_kind link =
     find_map (\<lambda>a. case a of
         IflaLinkInfo infos \<Rightarrow> find_map (\<lambda>i. case i of InfoKind k \<Rightarrow> Some k | _ \<Rightarrow> None) infos
       | _ \<Rightarrow> None) (lm_attributes link)"

record vxlan_info =
  vi_vni :: u32
  vi_vtep_index :: u32
  vi_vtep_addr :: "ip_addr option"
  vi_group :: "ip_addr option"
  vi_l2miss :: bool
  vi_port :: u32
  vi_gbp :: bool

definition vxlan_info_default :: vxlan_info where
  "vxlan_info_default =
     \<lparr>vi_vni = 0, vi_vtep_index = 0, vi_vtep_addr = None, vi_group = None, vi_l2miss = False, vi_port = 0, vi_gbp = False\<rparr>"

fun set_info :: "vxlan_info \<Rightarrow> info_vxlan \<Rightarrow> vxlan_info" where
  "set_info v (VxId n) = v\<lparr>vi_vni := n\<rparr>"
| "set_info v (VxLink i) = v\<lparr>vi_vtep_index := i\<rparr>"
| "set_info v (VxLocal ip) = v\<lparr>vi_vtep_addr := Some (V4 ip)\<rparr>"
| "set_info v (VxLocal6 ip) = v\<lparr>vi_vtep_addr := Some (V6 ip)\<rparr>"
| "set_info v (VxGroup ip) = v\<lparr>vi_group := Some (V4 ip)\<rparr>"
| "set_info v (VxGroup6 ip) = v\<lparr>vi_group := Some (V6 ip)\<rparr>"
| "set_info v (VxL2Miss b) = v\<lparr>vi_l2miss := b\<rparr>"
| "set_info v (VxPort p) = v\<lparr>vi_port := ucast p\<rparr>"
| "set_info v VxGbp = v\<lparr>vi_gbp := True\<rparr>"
| "set_info v (VxLearning _) = v"
| "set_info v VxOther = v"

text \<open>The loop over the link info: whether the kind is vxlan, and the last data block.\<close>

definition scan_info :: "link_info list \<Rightarrow> bool \<times> info_data option" where
  "scan_info infos =
     foldl (\<lambda>(is_vxlan, data) i. case i of
         InfoKind k \<Rightarrow> (is_vxlan \<or> k = KindVxlan, data)
       | InfoData d \<Rightarrow> (is_vxlan, Some d)
       | InfoOther \<Rightarrow> (is_vxlan, data)) (False, None) infos"

definition vxlan_info :: "link_message \<Rightarrow> vxlan_info option" where
  "vxlan_info link =
     (case find_map (\<lambda>a. case a of IflaLinkInfo infos \<Rightarrow> Some infos | _ \<Rightarrow> None) (lm_attributes link) of
        None \<Rightarrow> None
      | Some infos \<Rightarrow>
          (case scan_info infos of
             (False, _) \<Rightarrow> None
           | (True, Some (DataVxlan items)) \<Rightarrow> Some (foldl set_info vxlan_info_default items)
           | (True, _) \<Rightarrow> Some vxlan_info_default))"

section \<open>The device\<close>

definition ENCAP_OVERHEAD :: u32 where "ENCAP_OVERHEAD = 50"

record vxlan_attrs =
  va_name :: string
  va_vni :: u32
  va_mtu :: u32
  va_vtep_index :: u32
  va_vtep_addr :: "ip_addr option"
  va_port :: u32
  va_gbp :: bool
  va_learning :: bool
  va_hw_addr :: "mac_addr option"

record vxlan_device =
  vd_name :: string
  vd_ifindex :: u32
  vd_mtu :: u32
  vd_mac :: mac_addr
  vd_direct_routing :: bool

text \<open>The request of \<open>build_vxlan_link\<close>: the data of the link, in the order the builder is called, and
  the attributes. \<open>attrs.port as u16\<close> keeps the low 16 bits.\<close>

definition vxlan_items :: "vxlan_attrs \<Rightarrow> info_vxlan list" where
  "vxlan_items a =
     [VxId (va_vni a), VxLearning (va_learning a)] @
     (if va_vtep_index a > 0 then [VxLink (va_vtep_index a)] else []) @
     (case va_vtep_addr a of Some (V4 ip) \<Rightarrow> [VxLocal ip] | Some (V6 ip) \<Rightarrow> [VxLocal6 ip] | None \<Rightarrow> []) @
     (if va_port a > 0 then [VxPort (ucast (va_port a))] else []) @
     (if va_gbp a then [VxGbp] else [])"

definition build_vxlan_link :: "vxlan_attrs \<Rightarrow> mac_addr \<Rightarrow> link_message" where
  "build_vxlan_link a hw =
     \<lparr>lm_index = 0,
      lm_attributes = [IfName (va_name a), IflaLinkInfo [InfoKind KindVxlan, InfoData (DataVxlan (vxlan_items a))],
        IflaAddress hw] @
        (let mtu = uint (va_mtu a) - uint ENCAP_OVERHEAD in if mtu > 0 then [Mtu (word_of_int mtu)] else [])\<rparr>"

definition show_bool :: "bool \<Rightarrow> string" where
  "show_bool b = (if b then ''true'' else ''false'')"

definition show_kind :: "info_kind option \<Rightarrow> string" where
  "show_kind k =
     (case k of None \<Rightarrow> ''unknown'' | Some KindVxlan \<Rightarrow> ''vxlan'' | Some KindIpIp \<Rightarrow> ''ipip'' | Some (KindOther s) \<Rightarrow> s)"

definition vxlan_links_incompat :: "vxlan_attrs \<Rightarrow> link_message \<Rightarrow> string + unit" where
  "vxlan_links_incompat a existing =
     (case vxlan_info existing of
        None \<Rightarrow> Inl (''link type: vxlan vs '' @ show_kind (link_kind existing))
      | Some v2 \<Rightarrow>
          if va_vni a \<noteq> vi_vni v2 then Inl (''vni: '' @ show_u32 (va_vni a) @ '' vs '' @ show_u32 (vi_vni v2))
          else if va_vtep_index a > 0 \<and> vi_vtep_index v2 > 0 \<and> va_vtep_index a \<noteq> vi_vtep_index v2
          then Inl (''vtep (external) interface: '' @ show_u32 (va_vtep_index a) @ '' vs '' @ show_u32 (vi_vtep_index v2))
          else case (case (va_vtep_addr a, vi_vtep_addr v2) of
                 (Some x, Some y) \<Rightarrow>
                   if x \<noteq> y then Some (''vtep (external) IP: '' @ show_ip_addr x @ '' vs '' @ show_ip_addr y) else None
               | _ \<Rightarrow> None) of
              Some e \<Rightarrow> Inl e
            | None \<Rightarrow>
                if vi_l2miss v2 then Inl (''l2miss: false vs '' @ show_bool (vi_l2miss v2))
                else if va_port a > 0 \<and> vi_port v2 > 0 \<and> va_port a \<noteq> vi_port v2
                then Inl (''port: '' @ show_u32 (va_port a) @ '' vs '' @ show_u32 (vi_port v2))
                else if va_gbp a \<noteq> vi_gbp v2 then Inl (''gbp: '' @ show_bool (va_gbp a) @ '' vs '' @ show_bool (vi_gbp v2))
                else Inr ())"

text \<open>Requests on links. \<open>EEXIST\<close> is told apart from the other refusals.\<close>

datatype link_error = EExist string | LinkErr string

definition link_err_text :: "link_error \<Rightarrow> string" where
  "link_err_text e = (case e of EExist s \<Rightarrow> s | LinkErr s \<Rightarrow> s)"

record 'k link_kernel =
  lk_netlink :: "'k \<Rightarrow> netlink"
  lk_add :: "link_message \<Rightarrow> 'k \<Rightarrow> 'k \<times> link_error option"
  lk_del :: "u32 \<Rightarrow> 'k \<Rightarrow> 'k \<times> link_error option"
  lk_set_up :: "u32 \<Rightarrow> 'k \<Rightarrow> 'k \<times> link_error option"
  lk_set_mtu :: "u32 \<Rightarrow> u32 \<Rightarrow> 'k \<Rightarrow> 'k \<times> link_error option"
  lk_addr_answer :: "'k \<Rightarrow> addr_request \<Rightarrow> string option"
  lk_addr_apply :: "addr_request list \<Rightarrow> 'k \<Rightarrow> 'k"

text \<open>\<open>anyhow!("...{e}")\<close>: a new error with the text of the outermost message.\<close>

definition prefix_err :: "string \<Rightarrow> err \<Rightarrow> err" where
  "prefix_err p e = [p @ (case e of [] \<Rightarrow> [] | m # _ \<Rightarrow> m)]"

text \<open>The end of \<open>ensure_link\<close>: look the created device up and check its kind.\<close>

definition locate_created :: "'k link_kernel \<Rightarrow> vxlan_attrs \<Rightarrow> 'k \<Rightarrow> err + link_message" where
  "locate_created kern a k =
     (case get_link_by_name (nl_links (lk_netlink kern k)) (va_name a) of
        Inl e \<Rightarrow> Inl (prefix_err (''can'' @ [CHR 0x27] @ ''t locate created vxlan device with index 0: '') e)
      | Inr link \<Rightarrow>
          if vxlan_info link = None
          then Inl [''created vxlan device with index '' @ show_u32 (lm_index link) @ '' is not vxlan'']
          else Inr link)"

definition recreate_link ::
  "'k link_kernel \<Rightarrow> vxlan_attrs \<Rightarrow> link_message \<Rightarrow> link_message \<Rightarrow> 'k \<Rightarrow> 'k \<times> (err + link_message)" where
  "recreate_link kern a msg existing k =
     (case lk_del kern (lm_index existing) k of
        (k1, Some e) \<Rightarrow> (k1, Inl [''failed to delete interface: '' @ link_err_text e])
      | (k1, None) \<Rightarrow>
          (case lk_add kern msg k1 of
             (k2, Some e) \<Rightarrow> (k2, Inl [''failed to create vxlan interface: '' @ link_err_text e])
           | (k2, None) \<Rightarrow> (k2, locate_created kern a k2)))"

definition ensure_link ::
  "'k link_kernel \<Rightarrow> vxlan_attrs \<Rightarrow> mac_addr \<Rightarrow> 'k \<Rightarrow> 'k \<times> (err + link_message)" where
  "ensure_link kern a hw k =
     (let msg = build_vxlan_link a hw in
      case lk_add kern msg k of
        (k1, None) \<Rightarrow> (k1, locate_created kern a k1)
      | (k1, Some (LinkErr e)) \<Rightarrow> (k1, Inl [e])
      | (k1, Some (EExist _)) \<Rightarrow>
          (case get_link_by_name (nl_links (lk_netlink kern k1)) (va_name a) of
             Inl e \<Rightarrow> (k1, Inl e)
           | Inr existing \<Rightarrow>
               (case vxlan_links_incompat a existing of
                  Inr _ \<Rightarrow> (k1, Inr existing)
                | Inl _ \<Rightarrow> recreate_link kern a msg existing k1)))"

text \<open>The \<open>accept_ra\<close> sysctl is written best effort and has no part in the result. \<open>random\<close> are the bytes
  of the generator.\<close>

definition new_vxlan_device ::
  "'k link_kernel \<Rightarrow> u8 list \<Rightarrow> vxlan_attrs \<Rightarrow> 'k \<Rightarrow> 'k \<times> (err + vxlan_device)" where
  "new_vxlan_device kern random a k =
     (let hw = (case va_hw_addr a of Some m \<Rightarrow> m | None \<Rightarrow> new_hardware_addr random) in
      case ensure_link kern a hw k of
        (k', Inl e) \<Rightarrow> (k', Inl e)
      | (k', Inr link) \<Rightarrow>
          (k', Inr \<lparr>vd_name = va_name a, vd_ifindex = lm_index link, vd_mtu = link_mtu link,
             vd_mac = (case link_mac link of Some m \<Rightarrow> m | None \<Rightarrow> hw), vd_direct_routing = False\<rparr>))"

definition set_link_up :: "'k link_kernel \<Rightarrow> vxlan_device \<Rightarrow> 'k \<Rightarrow> 'k \<times> (err + unit)" where
  "set_link_up kern dev k =
     (case lk_set_up kern (vd_ifindex dev) k of
        (k', Some e) \<Rightarrow> (k', Inl [''failed to set interface '' @ vd_name dev @ '' to UP state: '' @ link_err_text e])
      | (k', None) \<Rightarrow> (k', Inr ()))"

definition check_mac :: "'k link_kernel \<Rightarrow> vxlan_device \<Rightarrow> string \<Rightarrow> 'k \<Rightarrow> err + unit" where
  "check_mac kern dev label k =
     (case get_link_by_name (nl_links (lk_netlink kern k)) (vd_name dev) of
        Inl _ \<Rightarrow> Inr ()
      | Inr link \<Rightarrow>
          (case (vxlan_info link, link_mac link) of
             (Some _, Some mac) \<Rightarrow>
               if mac \<noteq> vd_mac dev
               then Inl [vd_name dev @ [CHR 0x27] @ ''s '' @ label @ ''mac address wanted: '' @ mac_to_string (vd_mac dev) @
                 '', but got: '' @ mac_to_string mac]
               else Inr ()
           | _ \<Rightarrow> Inr ()))"

definition configure_device_v4 ::
  "'k link_kernel \<Rightarrow> vxlan_device \<Rightarrow> ip4net \<Rightarrow> ip4net \<Rightarrow> 'k \<Rightarrow> 'k \<times> (err + unit)" where
  "configure_device_v4 kern dev ipa flannelnet k =
     (let (rs, r) = ensure_v4_address_on_link (lk_netlink kern k) (lk_addr_answer kern k) ipa flannelnet (vd_ifindex dev);
          k1 = lk_addr_apply kern rs k
      in case r of
           Inl e \<Rightarrow> (k1, Inl (prefix_err (''failed to ensure address of interface '' @ vd_name dev @ '': '') e))
         | Inr _ \<Rightarrow>
             (case set_link_up kern dev k1 of
                (k2, Inl e) \<Rightarrow> (k2, Inl e)
              | (k2, Inr _) \<Rightarrow> (k2, check_mac kern dev [] k2)))"

definition configure_device_v6 ::
  "'k link_kernel \<Rightarrow> vxlan_device \<Rightarrow> ip6net \<Rightarrow> ip6net \<Rightarrow> 'k \<Rightarrow> 'k \<times> (err + unit)" where
  "configure_device_v6 kern dev ipn flannelnet k =
     (let (rs, r) = ensure_v6_address_on_link (lk_netlink kern k) (lk_addr_answer kern k) ipn flannelnet (vd_ifindex dev);
          k1 = lk_addr_apply kern rs k
      in case r of
           Inl e \<Rightarrow> (k1, Inl (prefix_err (''failed to ensure v6 address of interface '' @ vd_name dev @ '': '') e))
         | Inr _ \<Rightarrow>
             (case set_link_up kern dev k1 of
                (k2, Inl e) \<Rightarrow> (k2, Inl (prefix_err (''failed to set v6 interface '' @ vd_name dev @ '' to UP state: '') e))
              | (k2, Inr _) \<Rightarrow> (k2, check_mac kern dev ''v6 '' k2)))"

section \<open>Registration\<close>

definition stored_mac :: "string \<Rightarrow> mac_addr option" where
  "stored_mac s = (if s = [] then None else case parse_mac s of Inr m \<Rightarrow> Some m | Inl _ \<Rightarrow> None)"

text \<open>The device of one family.\<close>

definition family_device ::
  "'k link_kernel \<Rightarrow> u8 list \<Rightarrow> vxlan_config \<Rightarrow> string \<Rightarrow> u32 \<Rightarrow> ip_addr option \<Rightarrow> string \<Rightarrow> bool \<Rightarrow> 'k \<Rightarrow>
     'k \<times> (err + vxlan_device option)" where
  "family_device kern random cfg name ext_index ext_addr mac_str enabled k =
     (if \<not> enabled then (k, Inr None)
      else case new_vxlan_device kern random
             \<lparr>va_name = name @ show_u32 (vc_vni cfg), va_vni = vc_vni cfg, va_mtu = vc_mtu cfg, va_vtep_index = ext_index,
              va_vtep_addr = ext_addr, va_port = vc_port cfg, va_gbp = vc_gbp cfg, va_learning = vc_learning cfg,
              va_hw_addr = stored_mac mac_str\<rparr> k of
          (k', Inl e) \<Rightarrow> (k', Inl e)
        | (k', Inr d) \<Rightarrow> (k', Inr (Some (d\<lparr>vd_direct_routing := vc_direct_routing cfg\<rparr>))))"

definition create_vxlan_device ::
  "'k link_kernel \<Rightarrow> u8 list \<times> u8 list \<Rightarrow> config \<Rightarrow> vxlan_config \<Rightarrow> string \<times> string \<Rightarrow> u32 \<Rightarrow> ip_addr option \<Rightarrow>
     ip_addr option \<Rightarrow> 'k \<Rightarrow> 'k \<times> (err + vxlan_device option \<times> vxlan_device option)" where
  "create_vxlan_device kern random config cfg macs ext_index ext_addr ext_v6_addr k =
     (case family_device kern (fst random) cfg ''flannel.'' ext_index ext_addr (fst macs) (cfg_enable_ipv4 config) k of
        (k1, Inl e) \<Rightarrow> (k1, Inl e)
      | (k1, Inr dev) \<Rightarrow>
          (case family_device kern (snd random) cfg ''flannel-v6.'' ext_index ext_v6_addr (snd macs) (cfg_enable_ipv6 config) k1 of
             (k2, Inl e) \<Rightarrow> (k2, Inl e)
           | (k2, Inr v6_dev) \<Rightarrow> (k2, Inr (dev, v6_dev))))"

definition configure_family_v4 ::
  "'k link_kernel \<Rightarrow> vxlan_device option \<Rightarrow> lease \<Rightarrow> config \<Rightarrow> 'k \<Rightarrow> 'k \<times> (err + unit)" where
  "configure_family_v4 kern dev l config k =
     (case dev of
        None \<Rightarrow> (k, Inl [''failed to configure interface: IPv4 is enabled but no vxlan device''])
      | Some d \<Rightarrow>
          if n4_empty (subnet l)
          then (k, Inl [''failed to configure interface '' @ vd_name d @ '': IPv4 is enabled but the lease has no IPv4''])
          else case configure_device_v4 kern d \<lparr>n4_ip = n4_ip (subnet l), n4_prefix_len = 32\<rparr> (cfg_network config) k of
              (k', Inl e) \<Rightarrow> (k', Inl (prefix_err (''failed to configure interface '' @ vd_name d @ '': '') e))
            | (k', Inr _) \<Rightarrow> (k', Inr ()))"

definition configure_family_v6 ::
  "'k link_kernel \<Rightarrow> vxlan_device option \<Rightarrow> lease \<Rightarrow> config \<Rightarrow> 'k \<Rightarrow> 'k \<times> (err + unit)" where
  "configure_family_v6 kern dev l config k =
     (case dev of
        None \<Rightarrow> (k, Inl [''failed to configure interface: IPv6 is enabled but no vxlan device''])
      | Some d \<Rightarrow>
          if n6_empty (ipv6_subnet l)
          then (k, Inl [''failed to configure interface '' @ vd_name d @ '': IPv6 is enabled but the lease has no IPv6''])
          else case configure_device_v6 kern d \<lparr>n6_ip = n6_ip (ipv6_subnet l), n6_prefix_len = 128\<rparr> (cfg_ipv6_network config) k of
              (k', Inl e) \<Rightarrow> (k', Inl (prefix_err (''failed to configure interface '' @ vd_name d @ '': '') e))
            | (k', Inr _) \<Rightarrow> (k', Inr ()))"

definition configure_device_ipv4_ipv6 ::
  "'k link_kernel \<Rightarrow> vxlan_device option \<Rightarrow> vxlan_device option \<Rightarrow> lease \<Rightarrow> config \<Rightarrow> 'k \<Rightarrow> 'k \<times> (err + unit)" where
  "configure_device_ipv4_ipv6 kern dev v6_dev l config k =
     (case (if cfg_enable_ipv4 config then configure_family_v4 kern dev l config k else (k, Inr ())) of
        (k1, Inl e) \<Rightarrow> (k1, Inl e)
      | (k1, Inr _) \<Rightarrow> if cfg_enable_ipv6 config then configure_family_v6 kern v6_dev l config k1 else (k1, Inr ()))"

text \<open>\<open>ser\<close> is \<open>serde_json::to_string\<close> on a struct, given as its fields.\<close>

type_synonym serializer = "(string \<times> json) list \<Rightarrow> string"

definition vxlan_lease_attrs :: "serializer \<Rightarrow> u32 \<Rightarrow> mac_addr \<Rightarrow> string" where
  "vxlan_lease_attrs ser vni mac = ser [(''VNI'', JPos (unat vni)), (''VtepMAC'', JString (mac_to_string mac))]"

definition new_subnet_attrs ::
  "serializer \<Rightarrow> ip_addr option \<Rightarrow> ip_addr option \<Rightarrow> u32 \<Rightarrow> vxlan_device option \<Rightarrow> vxlan_device option \<Rightarrow> lease_attrs" where
  "new_subnet_attrs ser pub pub6 vni dev v6_dev =
     (let a = \<lparr>public_ip = IP4 0, public_ipv6 = None, backend_type = ''vxlan'', backend_data = None, backend_v6_data = None\<rparr>;
          a = (case (pub, dev) of
                 (Some (V4 ip), Some d) \<Rightarrow>
                   a\<lparr>public_ip := ip, backend_data := Some (vxlan_lease_attrs ser vni (vd_mac d))\<rparr>
               | _ \<Rightarrow> a)
      in case (pub6, v6_dev) of
           (Some (V6 ip), Some d) \<Rightarrow>
             a\<lparr>public_ipv6 := Some ip, backend_v6_data := Some (vxlan_lease_attrs ser vni (vd_mac d))\<rparr>
         | _ \<Rightarrow> a)"

record net_state =
  ns_dev :: "vxlan_device option"
  ns_v6_dev :: "vxlan_device option"
  ns_mtu :: u32

text \<open>The environment of the registration: the parser and serializer, the manager's stored addresses and
  its \<open>acquire_lease\<close>, and whether the context is cancelled by then.\<close>

record reg_env =
  re_parse :: "string \<Rightarrow> string + json"
  re_ser :: serializer
  re_macs :: "string \<times> string"
  re_random :: "u8 list \<times> u8 list"
  re_acquire :: "lease_attrs \<Rightarrow> err + lease"
  re_cancelled :: bool

definition acquire_or_fail :: "reg_env \<Rightarrow> lease_attrs \<Rightarrow> err + lease" where
  "acquire_or_fail env a =
     (case re_acquire env a of
        Inr l \<Rightarrow> Inr l
      | Inl e \<Rightarrow> Inl (if re_cancelled env then e else prefix_err ''failed to acquire lease: '' e))"

definition register_network ::
  "'k link_kernel \<Rightarrow> reg_env \<Rightarrow> external_interface \<Rightarrow> config \<Rightarrow> 'k \<Rightarrow> 'k \<times> (err + lease \<times> net_state)" where
  "register_network kern env ei config k =
     (case get_link_mtu (lk_netlink kern k) (ei_iface_index ei) of
        Inl e \<Rightarrow> (k, Inl e)
      | Inr ext_mtu \<Rightarrow>
          (case parse_vxlan_config (re_parse env) (cfg_backend config) ext_mtu of
             Inl e \<Rightarrow> (k, Inl [''error decoding VXLAN backend config: '' @ e])
           | Inr cfg \<Rightarrow>
               (case create_vxlan_device kern (re_random env) config cfg (re_macs env) (ei_iface_index ei)
                       (ei_ext_addr ei) (ei_ext_v6_addr ei) k of
                  (k1, Inl e) \<Rightarrow> (k1, Inl (prefix_err ''failed to create vxlan device: '' e))
                | (k1, Inr (dev, v6_dev)) \<Rightarrow>
                    (case acquire_or_fail env
                            (new_subnet_attrs (re_ser env) (ei_ext_addr ei) (ei_ext_v6_addr ei) (vc_vni cfg) dev v6_dev) of
                       Inl e \<Rightarrow> (k1, Inl e)
                     | Inr l \<Rightarrow>
                         (case configure_device_ipv4_ipv6 kern dev v6_dev l config k1 of
                            (k2, Inl e) \<Rightarrow> (k2, Inl e)
                          | (k2, Inr _) \<Rightarrow> (k2, Inr (l, \<lparr>ns_dev = dev, ns_v6_dev = v6_dev, ns_mtu = vc_mtu cfg\<rparr>)))))))"

text \<open>\<open>Network::mtu\<close>.\<close>

definition vxlan_mtu :: "net_state \<Rightarrow> u32" where
  "vxlan_mtu st = (if ns_mtu st < ENCAP_OVERHEAD then 0 else ns_mtu st - ENCAP_OVERHEAD)"

section \<open>Properties\<close>

lemma to_digit_hex_digit [text_simps]: "d < 16 \<Longrightarrow> to_digit 16 (hex_digit d) = Some d"
  by (auto simp: hex_digit_def to_digit_def Let_def)

lemma show_hex2_digits: "c \<in> set (show_hex2 b) \<Longrightarrow> is_digit 16 c"
  using unat_lt2p [of b] by (auto simp: show_hex2_def to_digit_hex_digit less_mult_imp_div_less)

lemma hex_not_separator: "is_digit 16 c \<Longrightarrow> c \<noteq> CHR '':'' \<and> c \<noteq> CHR ''-'' \<and> c \<noteq> CHR ''+'' \<and> c \<noteq> CHR 0x22"
  by (auto simp: to_digit_def Let_def)

lemma show_hex2_plain [simp]:
  "CHR '':'' \<notin> set (show_hex2 b)" "CHR ''-'' \<notin> set (show_hex2 b)" "CHR 0x22 \<notin> set (show_hex2 b)"
  using show_hex2_digits hex_not_separator by blast+

lemma u8_from_hex_show: "u8_from_hex (show_hex2 b) = Some b"
proof -
  let ?h = "unat b div 16" and ?l = "unat b mod 16"
  have h: "?h < 16" "?l < 16" using unat_lt2p [of b] by auto
  have "hex_digit ?h \<noteq> CHR ''+''"
    using hex_not_separator [of "hex_digit ?h"] to_digit_hex_digit [OF h(1)] by auto
  moreover have "digits_value 16 (show_hex2 b) = unat b"
    by (simp add: digits_value_def show_hex2_def to_digit_hex_digit h)
  ultimately show ?thesis
    using h unat_lt2p [of b] by (simp add: u8_from_hex_def show_hex2_def to_digit_hex_digit)
qed

lemma parse_octets_show: "parse_octets s (map show_hex2 m) = Inr m"
  by (induction m) (simp_all add: u8_from_hex_show, simp add: show_hex2_def)

lemma split_any_single: "\<forall>c \<in> set x. \<not> p c \<Longrightarrow> split_any p x = [x]"
  by (induction x) auto

lemma split_any_append:
  "\<forall>c \<in> set x. \<not> p c \<Longrightarrow> p d \<Longrightarrow> split_any p (x @ d # ys) = x # split_any p ys"
  by (induction x) auto

lemma split_any_join:
  "p c \<Longrightarrow> xs \<noteq> [] \<Longrightarrow> \<forall>x \<in> set xs. \<forall>d \<in> set x. \<not> p d \<Longrightarrow> split_any p (join_with [c] xs) = xs"
  by (induction "[c]" xs rule: join_with.induct) (auto simp: split_any_single split_any_append)

lemma parse_mac_show:
  assumes "length m = 6"
  shows "parse_mac (mac_to_string m) = Inr m"
proof -
  have "split_any (\<lambda>c. c = CHR '':'' \<or> c = CHR ''-'') (mac_to_string m) = map show_hex2 m"
    unfolding mac_to_string_def
    by (rule split_any_join) (use assms in auto)
  with assms show ?thesis by (simp add: parse_mac_def parse_octets_show)
qed

text \<open>Text in which no colon is followed by a quote.\<close>

fun no_cq :: "string \<Rightarrow> bool" where
  "no_cq (x # y # zs) \<longleftrightarrow> \<not> (x = CHR '':'' \<and> y = CHR 0x22) \<and> no_cq (y # zs)"
| "no_cq _ \<longleftrightarrow> True"

lemma no_cq_plain: "CHR 0x22 \<notin> set s \<Longrightarrow> no_cq s"
  by (induction s rule: no_cq.induct) auto

lemma no_cq_append:
  "no_cq xs \<Longrightarrow> no_cq (y # ys) \<Longrightarrow> y \<noteq> CHR 0x22 \<Longrightarrow> no_cq (xs @ y # ys)"
  by (induction xs rule: no_cq.induct; cases ys) auto

lemma split_colon_quote_plain: "no_cq s \<Longrightarrow> split_colon_quote s = [s]"
  by (induction s rule: split_colon_quote.induct) auto

lemma split_colon_quote_append:
  "no_cq xs \<Longrightarrow> split_colon_quote (xs @ CHR '':'' # CHR 0x22 # ys) = xs # split_colon_quote ys"
proof (induction xs rule: no_cq.induct)
  case (1 x y zs)
  then show ?case by simp
qed simp_all

text \<open>The text \<open>serde_json::to_string\<close> gives for the lease attributes: the members in order, without
  blanks.\<close>

definition lease_json :: "nat \<Rightarrow> string \<Rightarrow> string" where
  "lease_json n s =
     [CHR ''{'', CHR 0x22] @ ''VNI'' @ [CHR 0x22, CHR '':''] @ show_nat n @ [CHR '','', CHR 0x22] @ ''VtepMAC'' @
     [CHR 0x22, CHR '':'', CHR 0x22] @ s @ [CHR 0x22, CHR ''}'']"

definition compact_json :: "serializer \<Rightarrow> bool" where
  "compact_json ser \<longleftrightarrow> (\<forall>n s. list_all (\<lambda>c. is_digit 16 c \<or> c = CHR '':'') s \<longrightarrow>
     ser [(''VNI'', JPos n), (''VtepMAC'', JString s)] = lease_json n s)"

lemma set_join_with: "set (join_with sep xs) \<subseteq> set sep \<union> \<Union> (set ` set xs)"
  by (induction sep xs rule: join_with.induct) auto

lemma mac_to_string_chars: "c \<in> set (mac_to_string m) \<Longrightarrow> is_digit 16 c \<or> c = CHR '':''"
  using set_join_with [of "'':''" "map show_hex2 m"] show_hex2_digits unfolding mac_to_string_def by fastforce

lemma last_mac_to_string: "m \<noteq> [] \<Longrightarrow> mac_to_string m \<noteq> [] \<and> is_digit 16 (last (mac_to_string m))"
proof (induction m)
  case (Cons b m)
  show ?case
  proof (cases m)
    case Nil
    have "last (show_hex2 b) \<in> set (show_hex2 b)" by (simp add: show_hex2_def)
    then show ?thesis using show_hex2_digits [of _ b] by (simp add: Nil mac_to_string_def) (simp add: show_hex2_def)
  next
    case (Cons b' m')
    with Cons.IH show ?thesis by (simp add: mac_to_string_def)
  qed
qed simp

lemma extract_mac_lease_json:
  assumes "m \<noteq> []"
  shows "extract_mac (Some (lease_json n (mac_to_string m))) = mac_to_string m"
proof -
  let ?s = "mac_to_string m"
  let ?a = "[CHR ''{'', CHR 0x22] @ ''VNI'' @ [CHR 0x22, CHR '':'']"
  let ?pre = "?a @ show_nat n @ [CHR '','', CHR 0x22] @ ''VtepMAC'' @ [CHR 0x22]"
  have last: "last ?s \<noteq> CHR 0x22" "last ?s \<noteq> CHR ''}''" "?s \<noteq> []"
    using last_mac_to_string [OF assms] by (auto simp: to_digit_def Let_def)
  have trim: "trim_matches (\<lambda>c. c = CHR 0x22 \<or> c = CHR ''}'') (lease_json n ?s) = ?pre @ CHR '':'' # CHR 0x22 # ?s"
  proof -
    obtain s' c where s: "?s = s' @ [c]" using last(3) by (cases ?s rule: rev_cases) auto
    with last show ?thesis by (simp add: trim_matches_def lease_json_def)
  qed
  obtain c cs where nat: "show_nat n = c # cs" by (cases "show_nat n") auto
  have digits: "CHR 0x22 \<notin> set (show_nat n)" using show_nat_digits [of "CHR 0x22" n] by (auto simp: to_digit_def)
  have "no_cq (show_nat n @ CHR '','' # [CHR 0x22] @ ''VtepMAC'' @ [CHR 0x22])"
    by (rule no_cq_append [OF no_cq_plain [OF digits]]) simp_all
  then have "no_cq (?a @ show_nat n @ CHR '','' # [CHR 0x22] @ ''VtepMAC'' @ [CHR 0x22])"
    using digits unfolding nat by (auto simp: nat)
  then have pre: "no_cq ?pre" by simp
  have "CHR 0x22 \<notin> set ?s" using mac_to_string_chars [of "CHR 0x22" m] by (auto simp: to_digit_def)
  then have "split_colon_quote (?pre @ CHR '':'' # CHR 0x22 # ?s) = [?pre, ?s]"
    using split_colon_quote_append [OF pre] by (simp add: split_colon_quote_plain no_cq_plain del: split_colon_quote.simps)
  with trim show ?thesis by (simp add: extract_mac_def del: split_colon_quote.simps)
qed

text \<open>The hardware address survives a restart: the backend data a node announces for its VXLAN device,
  stored as its annotation, gives the same address back when \<open>create_vxlan_device\<close> reads it through
  \<open>get_stored_mac_addresses\<close>.\<close>

theorem vxlan_mac_restored:
  assumes "compact_json ser" and mac: "length (vd_mac d) = 6"
    and at: "at = new_subnet_attrs ser (Some (V4 ip)) pub6 vni (Some d) v6_dev"
    and ann: "nd_annotations n (an_backend_data (km_annotations mgr)) = Some (raw_to_string (backend_data at))"
  shows "stored_mac (fst (get_stored_mac_addresses mgr (Some n))) = Some (vd_mac d)"
proof -
  have "list_all (\<lambda>c. is_digit 16 c \<or> c = CHR '':'') (mac_to_string (vd_mac d))"
    using mac_to_string_chars by (auto simp: list_all_iff)
  then have "vxlan_lease_attrs ser vni (vd_mac d) = lease_json (unat vni) (mac_to_string (vd_mac d))"
    using assms(1) by (simp add: compact_json_def vxlan_lease_attrs_def)
  then have raw: "raw_to_string (backend_data at) = lease_json (unat vni) (mac_to_string (vd_mac d))"
    by (simp add: at new_subnet_attrs_def Let_def raw_to_string_def split: option.splits ip_addr.splits)
  have "vd_mac d \<noteq> []" using mac by auto
  then have ne: "vd_mac d \<noteq> []" "mac_to_string (vd_mac d) \<noteq> []" using last_mac_to_string by blast+
  have "fst (get_stored_mac_addresses mgr (Some n)) = mac_to_string (vd_mac d)"
    using ann by (simp add: get_stored_mac_addresses_def raw extract_mac_lease_json [OF ne(1)])
  with ne mac show ?thesis by (simp add: stored_mac_def parse_mac_show)
qed

section \<open>The device is compatible with its attributes\<close>

text \<open>What the kernel promises of links: after a successful request the device is listed under its name with
  the data of the request.\<close>

definition link_kernel_ok :: "'k link_kernel \<Rightarrow> bool" where
  "link_kernel_ok kern \<longleftrightarrow>
     (\<forall>a hw k k' link. lk_add kern (build_vxlan_link a hw) k = (k', None) \<and>
        get_link_by_name (nl_links (lk_netlink kern k')) (va_name a) = Inr link \<longrightarrow>
        vxlan_info link = vxlan_info (build_vxlan_link a hw))"

lemma vxlan_info_build:
  "vxlan_info (build_vxlan_link a hw) =
     Some \<lparr>vi_vni = va_vni a, vi_vtep_index = va_vtep_index a, vi_vtep_addr = va_vtep_addr a, vi_group = None,
       vi_l2miss = False, vi_port = ucast (ucast (va_port a) :: u16), vi_gbp = va_gbp a\<rparr>"
  by (auto simp: vxlan_info_def build_vxlan_link_def scan_info_def vxlan_items_def vxlan_info_default_def
      word_gt_0 split: option.splits ip_addr.splits)

lemma vxlan_links_compat_iff:
  "vxlan_links_incompat a l = Inr () \<longleftrightarrow>
     (\<exists>v. vxlan_info l = Some v \<and> vi_vni v = va_vni a \<and> vi_gbp v = va_gbp a \<and> \<not> vi_l2miss v \<and>
       (va_vtep_index a \<noteq> 0 \<longrightarrow> vi_vtep_index v \<noteq> 0 \<longrightarrow> vi_vtep_index v = va_vtep_index a) \<and>
       (va_port a \<noteq> 0 \<longrightarrow> vi_port v \<noteq> 0 \<longrightarrow> vi_port v = va_port a) \<and>
       (va_vtep_addr a \<noteq> None \<longrightarrow> vi_vtep_addr v \<noteq> None \<longrightarrow> vi_vtep_addr v = va_vtep_addr a))"
  by (cases "vxlan_info l"; cases "va_vtep_addr a")
    (auto simp: vxlan_links_incompat_def word_gt_0 split: option.splits if_splits)

lemma ucast_port: "p < 0x10000 \<Longrightarrow> (ucast (ucast p :: u16) :: u32) = p" for p :: u32
proof -
  assume "p < 0x10000"
  then have "unat p < 65536" by (simp add: word_less_nat_alt)
  then show ?thesis by (simp add: word_unat_eq_iff unsigned_ucast_eq unsigned_take_bit_eq take_bit_nat_eq_self)
qed

lemma build_compatible:
  assumes "vxlan_info l = vxlan_info (build_vxlan_link a hw)" "va_port a < 0x10000"
  shows "vxlan_links_incompat a l = Inr ()"
  using assms by (simp add: vxlan_links_compat_iff vxlan_info_build ucast_port)

text \<open>Whenever \<open>ensure_link\<close> succeeds, the device it returns carries the configured name's link and is
  compatible with the configuration: same VNI, group policy, external interface, address and port, and no
  l2miss. It gets there on each of its three ways: a new device, an old compatible device, an old device
  deleted and created again. The port has to fit into 16 bits, as the request truncates it.\<close>

theorem ensure_link_compatible:
  assumes ok: "link_kernel_ok kern" and port: "va_port a < 0x10000"
    and res: "ensure_link kern a hw k = (k', Inr link)"
  shows "vxlan_links_incompat a link = Inr ()"
proof -
  have created: "vxlan_links_incompat a link = Inr ()"
    if "lk_add kern (build_vxlan_link a hw) k1 = (k2, None)" "locate_created kern a k2 = Inr link" for k1 k2
  proof (rule build_compatible [OF _ port])
    have "get_link_by_name (nl_links (lk_netlink kern k2)) (va_name a) = Inr link"
      using that(2) by (auto simp: locate_created_def split: sum.splits if_splits)
    with ok that(1) show "vxlan_info link = vxlan_info (build_vxlan_link a hw)"
      unfolding link_kernel_ok_def by blast
  qed
  have again: "vxlan_links_incompat a link = Inr ()"
    if "recreate_link kern a (build_vxlan_link a hw) e k1 = (k2, Inr link)" for e k1 k2
    using that created by (auto simp: recreate_link_def split: prod.splits option.splits)
  from res show ?thesis
    by (auto simp: ensure_link_def Let_def split: prod.splits option.splits link_error.splits sum.splits
        dest: created again)
qed

text \<open>A kernel with one link for the runs below.\<close>

definition one_link_kernel :: "link_message list link_kernel" where
  "one_link_kernel =
     \<lparr>lk_netlink = (\<lambda>k. \<lparr>nl_links = (k, None), nl_link_by_name = (\<lambda>_. (k, None)), nl_link_by_index = (\<lambda>_. (k, None)),
        nl_addrs = (\<lambda>_. ([], None)), nl_routes = ([], None), nl_route_get = (\<lambda>_. ([], None))\<rparr>),
      lk_add = (\<lambda>m k. if k \<noteq> [] then (k, Some (EExist ''File exists'')) else ([m\<lparr>lm_index := 7\<rparr>], None)),
      lk_del = (\<lambda>i k. ([], None)), lk_set_up = (\<lambda>i k. (k, None)), lk_set_mtu = (\<lambda>i m k. (k, None)),
      lk_addr_answer = (\<lambda>k r. None), lk_addr_apply = (\<lambda>rs k. k)\<rparr>"

lemma one_link_kernel_ok: "link_kernel_ok one_link_kernel"
proof -
  have "vxlan_info (m\<lparr>lm_index := 7\<rparr>) = vxlan_info m" for m by (simp add: vxlan_info_def)
  then show ?thesis
    by (auto simp: link_kernel_ok_def one_link_kernel_def get_link_by_name_def collect_dump_def split: if_splits)
qed

definition sample_vxlan_attrs :: vxlan_attrs where
  "sample_vxlan_attrs = \<lparr>va_name = ''flannel.1'', va_vni = 1, va_mtu = 1500, va_vtep_index = 2, va_vtep_addr = Some (V4 (IP4 5)),
     va_port = 8472, va_gbp = False, va_learning = False, va_hw_addr = None\<rparr>"

theorem ensure_link_compatible_witness:
  "\<exists>k link. ensure_link one_link_kernel sample_vxlan_attrs [2, 0, 0, 0, 0, 1]
      [build_vxlan_link (sample_vxlan_attrs\<lparr>va_vni := 9\<rparr>) [2, 0, 0, 0, 0, 2]] = (k, Inr link) \<and>
    vxlan_links_incompat sample_vxlan_attrs link = Inr ()"
proof -
  let ?old = "build_vxlan_link (sample_vxlan_attrs\<lparr>va_vni := 9\<rparr>) [2, 0, 0, 0, 0, 2]"
  let ?new = "(build_vxlan_link sample_vxlan_attrs [2, 0, 0, 0, 0, 1])\<lparr>lm_index := 7\<rparr>"
  have name: "vx_link_name ?old = va_name sample_vxlan_attrs" "vx_link_name ?new = va_name sample_vxlan_attrs"
    by (simp_all add: vx_link_name_def build_vxlan_link_def sample_vxlan_attrs_def)
  have incompat: "vxlan_links_incompat sample_vxlan_attrs ?old \<noteq> Inr ()"
    by (simp add: vxlan_links_compat_iff vxlan_info_build sample_vxlan_attrs_def)
  have info: "vxlan_info ?new \<noteq> None" using vxlan_info_build [of sample_vxlan_attrs] by (simp add: vxlan_info_def)
  have run: "ensure_link one_link_kernel sample_vxlan_attrs [2, 0, 0, 0, 0, 1] [?old] = ([?new], Inr ?new)"
    using incompat name info
    by (cases "vxlan_links_incompat sample_vxlan_attrs ?old")
      (auto simp: ensure_link_def Let_def recreate_link_def locate_created_def one_link_kernel_def get_link_by_name_def collect_dump_def)
  have "va_port sample_vxlan_attrs < 0x10000" by (simp add: sample_vxlan_attrs_def)
  from ensure_link_compatible [OF one_link_kernel_ok this run] run show ?thesis by blast
qed

section \<open>The configuration\<close>

text \<open>The value that counts for a field: the last member in key order whose key matches it.\<close>

definition last_value :: "string \<Rightarrow> (string \<times> json) list \<Rightarrow> json option" where
  "last_value tag ms = find_map (\<lambda>(k, v). if match_field k = Some tag then Some v else None) (rev ms)"

lemma find_map_append: "find_map f (xs @ ys) = (case find_map f xs of Some y \<Rightarrow> Some y | None \<Rightarrow> find_map f ys)"
  by (induction xs) (auto split: option.splits)

lemma last_value_Cons:
  "last_value tag ((k, v) # ms) =
     (case last_value tag ms of Some w \<Rightarrow> Some w | None \<Rightarrow> if match_field k = Some tag then Some v else None)"
  by (simp add: last_value_def find_map_append split: option.splits)

lemma match_field_known: "match_field k = Some tag \<Longrightarrow> tag \<in> set VXLAN_FIELDS"
  by (auto simp: match_field_def find_Some_iff split: option.splits intro: nth_mem)

lemma match_field_bool:
  assumes "match_field k = Some tag" "tag \<notin> {''mtu'', ''vni'', ''port''}"
  shows "tag \<in> {''gbp'', ''learning'', ''directRouting''}"
proof -
  have "tag \<in> {''mtu'', ''vni'', ''port''} \<union> {''gbp'', ''learning'', ''directRouting''}"
    using match_field_known [OF assms(1)] by (simp add: VXLAN_FIELDS_def disj_ac)
  with assms(2) show ?thesis by blast
qed

text \<open>A field of the configuration, read as JSON would give it.\<close>

definition int_value :: "u32 \<Rightarrow> json option \<Rightarrow> u32" where
  "int_value d v = (case v of None \<Rightarrow> d | Some w \<Rightarrow> (case as_i64 w of Some n \<Rightarrow> word_of_int n | None \<Rightarrow> 0))"

definition bool_value :: "bool \<Rightarrow> json option \<Rightarrow> bool" where
  "bool_value d v = (case v of None \<Rightarrow> d | Some w \<Rightarrow> w = JBool True)"

definition config_of :: "vxlan_config \<Rightarrow> (string \<times> json) list \<Rightarrow> vxlan_config" where
  "config_of d ms =
     \<lparr>vc_vni = int_value (vc_vni d) (last_value ''vni'' ms), vc_port = int_value (vc_port d) (last_value ''port'' ms),
      vc_mtu = int_value (vc_mtu d) (last_value ''mtu'' ms), vc_gbp = bool_value (vc_gbp d) (last_value ''gbp'' ms),
      vc_learning = bool_value (vc_learning d) (last_value ''learning'' ms),
      vc_direct_routing = bool_value (vc_direct_routing d) (last_value ''directRouting'' ms)\<rparr>"

definition well_typed :: "string \<times> json \<Rightarrow> bool" where
  "well_typed m = (case match_field (fst m) of
     None \<Rightarrow> True
   | Some tag \<Rightarrow> if tag \<in> {''mtu'', ''vni'', ''port''} then as_i64 (snd m) \<noteq> None else (\<exists>b. snd m = JBool b))"

lemma int_value_Cons:
  "int_value d (case l of Some w \<Rightarrow> Some w | None \<Rightarrow> Some v) = int_value (int_value d (Some v)) l"
  "int_value d (case l of Some w \<Rightarrow> Some w | None \<Rightarrow> None) = int_value d l"
  by (simp_all add: int_value_def split: option.splits)

lemma bool_value_Cons:
  "bool_value d (case l of Some w \<Rightarrow> Some w | None \<Rightarrow> Some v) = bool_value (bool_value d (Some v)) l"
  "bool_value d (case l of Some w \<Rightarrow> Some w | None \<Rightarrow> None) = bool_value d l"
  by (simp_all add: bool_value_def split: option.splits)

lemmas config_of_simps = config_of_def last_value_Cons int_value_Cons bool_value_Cons

lemma int_value_Some: "as_i64 v = Some n \<Longrightarrow> int_value d (Some v) = word_of_int n"
  by (simp add: int_value_def)

lemma bool_value_Some: "bool_value d (Some (JBool b)) = b"
  by (simp add: bool_value_def)

lemma set_int_field:
  assumes "match_field k = Some tag" "tag \<in> {''mtu'', ''vni'', ''port''}" "as_i64 v = Some n"
  shows "\<exists>cfg'. set_field tag v cfg = Inr cfg' \<and> (\<forall>ms. config_of cfg' ms = config_of cfg ((k, v) # ms))"
proof -
  have f: "int_field tag v = Inr (word_of_int n)" using assms(3) by (simp add: int_field_def)
  from assms(2) consider "tag = ''mtu''" | "tag = ''vni''" | "tag = ''port''" by blast
  then show ?thesis
    using f assms(1) by cases (simp_all add: set_field_def config_of_simps int_value_Some [OF assms(3)])
qed

lemma set_bool_field:
  assumes "match_field k = Some tag" "tag \<in> {''gbp'', ''learning'', ''directRouting''}"
  shows "\<exists>cfg'. set_field tag (JBool b) cfg = Inr cfg' \<and> (\<forall>ms. config_of cfg' ms = config_of cfg ((k, JBool b) # ms))"
proof -
  have f: "bool_field tag (JBool b) = Inr b" by (simp add: bool_field_def)
  from assms(2) consider "tag = ''gbp''" | "tag = ''learning''" | "tag = ''directRouting''" by blast
  then show ?thesis
    using f assms(1) by cases (simp_all add: set_field_def config_of_simps bool_value_Some)
qed

lemma set_field_ill_typed:
  assumes "match_field k = Some tag" "\<not> well_typed (k, v)"
  shows "\<exists>e. set_field tag v cfg = Inl e"
proof (cases "tag \<in> {''mtu'', ''vni'', ''port''}")
  case True
  with assms have f: "int_field tag v = Inl (field_error tag v ''int'')" by (simp add: well_typed_def int_field_def)
  from True consider "tag = ''mtu''" | "tag = ''vni''" | "tag = ''port''" by blast
  then show ?thesis using f by cases (simp_all add: set_field_def)
next
  case False
  with assms have f: "bool_field tag v = Inl (field_error tag v ''bool'')"
    by (cases v) (simp_all add: well_typed_def bool_field_def)
  from match_field_bool [OF assms(1) False] consider "tag = ''gbp''" | "tag = ''learning''" | "tag = ''directRouting''"
    by blast
  then show ?thesis using f by cases (simp_all add: set_field_def)
qed

lemma set_field_well_typed:
  assumes "match_field k = Some tag" "well_typed (k, v)"
  shows "\<exists>cfg'. set_field tag v cfg = Inr cfg' \<and> (\<forall>ms. config_of cfg' ms = config_of cfg ((k, v) # ms))"
proof (cases "tag \<in> {''mtu'', ''vni'', ''port''}")
  case True
  with assms obtain n where "as_i64 v = Some n" by (auto simp: well_typed_def)
  with assms(1) True show ?thesis by (rule set_int_field)
next
  case False
  with assms obtain b where b: "v = JBool b" by (auto simp: well_typed_def)
  show ?thesis using set_bool_field [OF assms(1) match_field_bool [OF assms(1) False]] b by blast
qed

lemma set_fields_config:
  "if list_all well_typed ms then set_fields ms cfg = Inr (config_of cfg ms) else \<exists>e. set_fields ms cfg = Inl e"
proof (induction ms arbitrary: cfg)
  case Nil
  then show ?case by (simp add: config_of_def last_value_def int_value_def bool_value_def)
next
  case (Cons m ms)
  obtain k v where m: "m = (k, v)" by (cases m)
  show ?case
  proof (cases "match_field k")
    case None
    have "config_of cfg (m # ms) = config_of cfg ms" using None by (simp add: m config_of_simps)
    moreover have "well_typed m" using None by (simp add: m well_typed_def)
    ultimately show ?thesis using Cons.IH [of cfg] None by (simp add: m)
  next
    case (Some tag)
    show ?thesis
    proof (cases "well_typed m")
      case True
      with set_field_well_typed [OF Some, of v cfg] obtain cfg' where
        "set_field tag v cfg = Inr cfg'" "config_of cfg' ms = config_of cfg (m # ms)" by (auto simp: m)
      with True Some Cons.IH [of cfg'] show ?thesis by (simp add: m)
    next
      case False
      with set_field_ill_typed [OF Some, of v cfg] Some show ?thesis by (auto simp: m)
    qed
  qed
qed

text \<open>The VXLAN configuration: absent or \<open>null\<close> gives VNI 1, port 0 and the MTU of the external
  interface; an object is refused when a member that matches a field has the wrong type, and otherwise each
  field is the last member in key order that matches it, whatever its case, integers wrapped to 32 bits;
  anything else is refused.\<close>

theorem parse_vxlan_config_fields:
  "parse_vxlan_config parse None mtu = Inr (vxlan_config_default mtu) \<and>
   parse_vxlan_config parse (Some ''null'') mtu = Inr (vxlan_config_default mtu) \<and>
   (\<forall>text ms. text \<noteq> ''null'' \<longrightarrow> parse text = Inr (JObject ms) \<longrightarrow>
      (if list_all well_typed ms then parse_vxlan_config parse (Some text) mtu = Inr (config_of (vxlan_config_default mtu) ms)
       else \<exists>e. parse_vxlan_config parse (Some text) mtu = Inl e)) \<and>
   (\<forall>text. text \<noteq> ''null'' \<longrightarrow> (\<nexists>ms. parse text = Inr (JObject ms)) \<longrightarrow>
      (\<exists>e. parse_vxlan_config parse (Some text) mtu = Inl e))"
  using set_fields_config [of _ "vxlan_config_default mtu"]
  by (auto simp: parse_vxlan_config_def rbind_def split: sum.splits json.splits)

theorem parse_vxlan_config_fields_witness:
  "parse_vxlan_config (\<lambda>_. Inr (JObject [(''VNI'', JPos 5), (''vni'', JPos 7)])) (Some ''{}'') 1500 =
     Inr \<lparr>vc_vni = 7, vc_port = 0, vc_mtu = 1500, vc_gbp = False, vc_learning = False, vc_direct_routing = False\<rparr>"
proof -
  let ?ms = "[(''VNI'', JPos 5), (''vni'', JPos 7)]"
  have tags: "match_field ''VNI'' = Some ''vni''" "match_field ''vni'' = Some ''vni''" by code_simp+
  have wt: "list_all well_typed ?ms" by (simp add: well_typed_def tags as_i64_def)
  have "config_of (vxlan_config_default 1500) ?ms =
      \<lparr>vc_vni = 7, vc_port = 0, vc_mtu = 1500, vc_gbp = False, vc_learning = False, vc_direct_routing = False\<rparr>"
    by (simp add: config_of_def last_value_def tags int_value_def bool_value_def as_i64_def vxlan_config_default_def)
  moreover have "(''{}'' :: string) \<noteq> ''null''" by simp
  ultimately show ?thesis
    using parse_vxlan_config_fields [of "\<lambda>_. Inr (JObject ?ms)" 1500] wt by (metis (no_types, lifting))
qed

definition sample_ser :: serializer where
  "sample_ser ms = (case ms of [(_, JPos n), (_, JString s)] \<Rightarrow> lease_json n s | _ \<Rightarrow> [])"

definition sample_device :: vxlan_device where
  "sample_device = \<lparr>vd_name = ''flannel.1'', vd_ifindex = 7, vd_mtu = 1450, vd_mac = [0x0a, 0xff, 1, 2, 3, 0x10],
     vd_direct_routing = False\<rparr>"

theorem vxlan_mac_restored_witness:
  "stored_mac (fst (get_stored_mac_addresses sample_manager (Some (sample_own_node\<lparr>nd_annotations :=
      [an_backend_data (km_annotations sample_manager) \<mapsto>
        raw_to_string (backend_data (new_subnet_attrs sample_ser (Some (V4 (IP4 1))) None 1 (Some sample_device) None))]\<rparr>)))) =
   Some [0x0a, 0xff, 1, 2, 3, 0x10]"
  using vxlan_mac_restored [of sample_ser sample_device, OF _ _ refl]
  by (simp add: compact_json_def sample_ser_def sample_device_def)

end
