(* ===== verification/VxlanEvents.thy ===== *)
theory VxlanEvents
  imports Vxlan RouteNetwork
begin

text \<open>
  The VXLAN backend at work: \<open>backend/vxlan/events.rs\<close> (lease events to neighbour, forwarding and route
  entries, with retries), the neighbour requests of \<open>device.rs\<close>, and \<open>network.rs\<close> (the run loop, the
  device watcher and the recreation of a deleted device). The kernel is a parameter: a state and the
  requests on it; sleeping is a request too and tells whether the context was cancelled meanwhile.
\<close>

section \<open>Neighbour requests\<close>

datatype neigh_family = NInet | NInet6 | NBridge

datatype neigh_state = NudPermanent | NudNone

record neigh_message =
  nm_family :: neigh_family
  nm_ifindex :: u32
  nm_state :: neigh_state
  nm_own :: bool
  nm_dst :: ip_addr
  nm_mac :: mac_addr

record 'k vx_kernel =
  vk_netlink :: "'k \<Rightarrow> netlink"
  vk_neigh_replace :: "neigh_message \<Rightarrow> 'k \<Rightarrow> 'k \<times> string option"
  vk_neigh_del :: "neigh_message \<Rightarrow> 'k \<Rightarrow> 'k \<times> string option"
  vk_route_replace :: "route_message \<Rightarrow> 'k \<Rightarrow> 'k \<times> string option"
  vk_route_del :: "route_message \<Rightarrow> 'k \<Rightarrow> 'k \<times> string option"
  vk_sleep :: "nat \<Rightarrow> 'k \<Rightarrow> 'k \<times> bool"

definition family_of :: "ip_addr \<Rightarrow> neigh_family" where
  "family_of ip = (case ip of V4 _ \<Rightarrow> NInet | V6 _ \<Rightarrow> NInet6)"

definition neigh_message_for :: "u32 \<Rightarrow> mac_addr \<Rightarrow> ip_addr \<Rightarrow> neigh_state \<Rightarrow> neigh_message" where
  "neigh_message_for ifindex mac dst state =
     \<lparr>nm_family = family_of dst, nm_ifindex = ifindex, nm_state = state, nm_own = False, nm_dst = dst, nm_mac = mac\<rparr>"

definition fdb_message :: "u32 \<Rightarrow> mac_addr \<Rightarrow> ip_addr \<Rightarrow> neigh_state \<Rightarrow> neigh_message" where
  "fdb_message ifindex mac dst state =
     (neigh_message_for ifindex mac dst state)\<lparr>nm_family := NBridge, nm_own := True\<rparr>"

definition add_arp :: "'k vx_kernel \<Rightarrow> vxlan_device \<Rightarrow> mac_addr \<Rightarrow> ip_addr \<Rightarrow> 'k \<Rightarrow> 'k \<times> string option" where
  "add_arp kern dev mac ip = vk_neigh_replace kern (neigh_message_for (vd_ifindex dev) mac ip NudPermanent)"

definition del_arp :: "'k vx_kernel \<Rightarrow> vxlan_device \<Rightarrow> mac_addr \<Rightarrow> ip_addr \<Rightarrow> 'k \<Rightarrow> 'k \<times> string option" where
  "del_arp kern dev mac ip = vk_neigh_del kern (neigh_message_for (vd_ifindex dev) mac ip NudPermanent)"

definition add_fdb :: "'k vx_kernel \<Rightarrow> vxlan_device \<Rightarrow> mac_addr \<Rightarrow> ip_addr \<Rightarrow> 'k \<Rightarrow> 'k \<times> string option" where
  "add_fdb kern dev mac dst = vk_neigh_replace kern (fdb_message (vd_ifindex dev) mac dst NudPermanent)"

definition del_fdb :: "'k vx_kernel \<Rightarrow> vxlan_device \<Rightarrow> mac_addr \<Rightarrow> ip_addr \<Rightarrow> 'k \<Rightarrow> 'k \<times> string option" where
  "del_fdb kern dev mac dst = vk_neigh_del kern (fdb_message (vd_ifindex dev) mac dst NudNone)"

section \<open>Retries\<close>

definition ATTEMPTS :: nat where "ATTEMPTS = 10"

text \<open>The attempts that are left, the delay of the next sleep in milliseconds.\<close>

fun retry_from ::
  "'k vx_kernel \<Rightarrow> ('k \<Rightarrow> 'k \<times> string option) \<Rightarrow> nat \<Rightarrow> nat \<Rightarrow> 'k \<Rightarrow> 'k \<times> string option" where
  "retry_from kern f 0 delay k = (k, None)"
| "retry_from kern f (Suc left) delay k =
     (case f k of
        (k1, None) \<Rightarrow> (k1, None)
      | (k1, Some e) \<Rightarrow>
          if left = 0 then (k1, Some e)
          else case vk_sleep kern delay k1 of
              (k2, True) \<Rightarrow> (k2, Some ''context canceled'')
            | (k2, False) \<Rightarrow> retry_from kern f left (2 * delay) k2)"

definition retry_do :: "'k vx_kernel \<Rightarrow> ('k \<Rightarrow> 'k \<times> string option) \<Rightarrow> 'k \<Rightarrow> 'k \<times> string option" where
  "retry_do kern f k = retry_from kern f ATTEMPTS 100 k"

section \<open>Events\<close>

text \<open>\<open>VXLANLeaseAttrs\<close> as serde derives it: an object with one \<open>VNI\<close> that is a u32 and one \<open>VtepMAC\<close> that
  is a string and an address, or an array of the two. The members are those of the document.\<close>

definition mac_json :: "json \<Rightarrow> string + mac_addr" where
  "mac_json v = (case v of JString s \<Rightarrow> parse_mac s | _ \<Rightarrow> Inl ''error parsing hardware addr'')"

definition lease_attrs_of :: "type_error \<Rightarrow> json \<Rightarrow> string + mac_addr" where
  "lease_attrs_of te v =
     (case v of
        JObject ms \<Rightarrow>
          if \<not> distinct (filter (\<lambda>k. k \<in> {''VNI'', ''VtepMAC''}) (map fst ms)) then Inl (te ''duplicate field'' v)
          else (case (map_of ms ''VNI'', map_of ms ''VtepMAC'') of
             (Some vni, Some mac) \<Rightarrow> rbind (de_u32 te vni) (\<lambda>_. mac_json mac)
           | _ \<Rightarrow> Inl (te ''missing field'' v))
      | JArray [vni, mac] \<Rightarrow> rbind (de_u32 te vni) (\<lambda>_. mac_json mac)
      | _ \<Rightarrow> Inl (te ''struct VXLANLeaseAttrs'' v))"

definition parse_backend_data :: "(string \<Rightarrow> string + json) \<Rightarrow> type_error \<Rightarrow> string option \<Rightarrow> string + mac_addr" where
  "parse_backend_data parse te raw =
     rbind (parse (case raw of Some s \<Rightarrow> s | None \<Rightarrow> ''null'')) (lease_attrs_of te)"

definition v4_route_message :: "ip4net \<Rightarrow> ip4 \<Rightarrow> route_attribute list \<Rightarrow> bool \<Rightarrow> route_message" where
  "v4_route_message sn gw extra onlink =
     \<lparr>rm_family = Inet, rm_prefix_len = ucast (n4_prefix_len sn), rm_kind = Unicast, rm_onlink = onlink,
      rm_attributes = [RtaDestination (RouteInet (n4_ip sn)), RtaGateway (RouteInet gw)] @ extra\<rparr>"

definition v6_route_message :: "ip6net \<Rightarrow> ip6 \<Rightarrow> route_attribute list \<Rightarrow> bool \<Rightarrow> route_message" where
  "v6_route_message sn gw extra onlink =
     \<lparr>rm_family = Inet6, rm_prefix_len = ucast (n6_prefix_len sn), rm_kind = Unicast, rm_onlink = onlink,
      rm_attributes = [RtaDestination (RouteInet6 (n6_ip sn)), RtaGateway (RouteInet6 gw)] @ extra\<rparr>"

definition v4_vxlan_route :: "u32 \<Rightarrow> ip4net \<Rightarrow> route_message" where
  "v4_vxlan_route ifindex sn = v4_route_message sn (n4_ip sn) [RtaOif ifindex] True"

definition v4_direct_route :: "ip4net \<Rightarrow> ip4 \<Rightarrow> route_message" where
  "v4_direct_route sn pub = v4_route_message sn pub [] False"

definition v6_vxlan_route :: "u32 \<Rightarrow> ip6net \<Rightarrow> route_message" where
  "v6_vxlan_route ifindex sn = v6_route_message sn (n6_ip sn) [RtaOif ifindex] True"

definition v6_direct_route :: "ip6net \<Rightarrow> ip6 \<Rightarrow> route_message" where
  "v6_direct_route sn pub = v6_route_message sn pub [] False"

text \<open>What an event means for one family: the device, the addresses and the two routes, and whether the
  peer is reached directly.\<close>

record vx_plan =
  vp_dev :: vxlan_device
  vp_mac :: mac_addr
  vp_gw :: ip_addr
  vp_vtep :: ip_addr
  vp_vxlan_route :: route_message
  vp_direct_route :: route_message
  vp_direct :: bool

definition direct_ok :: "'k vx_kernel \<Rightarrow> vxlan_device \<Rightarrow> ip_addr \<Rightarrow> 'k \<Rightarrow> bool" where
  "direct_ok kern d ip k \<longleftrightarrow> vd_direct_routing d \<and> direct_routing (vk_netlink kern k) ip = Inr True"

text \<open>\<open>Inl\<close> ends the event; \<open>Inr None\<close> skips the family.\<close>

definition plan_v4 ::
  "'k vx_kernel \<Rightarrow> (string \<Rightarrow> string + json) \<Rightarrow> type_error \<Rightarrow> vxlan_device option \<Rightarrow> lease \<Rightarrow> 'k \<Rightarrow> string + vx_plan option" where
  "plan_v4 kern parse te dev l k =
     (case (enable_ipv4 l, dev) of
        (True, Some d) \<Rightarrow>
          rbind (parse_backend_data parse te (backend_data (attrs l))) (\<lambda>mac.
          let vtep = V4 (public_ip (attrs l)) in
          Inr (Some \<lparr>vp_dev = d, vp_mac = mac, vp_gw = V4 (n4_ip (subnet l)), vp_vtep = vtep,
            vp_vxlan_route = v4_vxlan_route (vd_ifindex d) (subnet l),
            vp_direct_route = v4_direct_route (subnet l) (public_ip (attrs l)),
            vp_direct = direct_ok kern d vtep k\<rparr>))
      | _ \<Rightarrow> Inr None)"

definition plan_v6 ::
  "'k vx_kernel \<Rightarrow> (string \<Rightarrow> string + json) \<Rightarrow> type_error \<Rightarrow> vxlan_device option \<Rightarrow> lease \<Rightarrow> 'k \<Rightarrow> string + vx_plan option" where
  "plan_v6 kern parse te dev l k =
     (case (enable_ipv6 l, dev) of
        (True, Some d) \<Rightarrow>
          rbind (parse_backend_data parse te (backend_v6_data (attrs l))) (\<lambda>mac.
          let pub6 = (case public_ipv6 (attrs l) of Some ip \<Rightarrow> ip | None \<Rightarrow> IP6 (replicate 16 0)); vtep = V6 pub6 in
          if n6_empty (ipv6_subnet l) then Inr None
          else Inr (Some \<lparr>vp_dev = d, vp_mac = mac, vp_gw = V6 (n6_ip (ipv6_subnet l)), vp_vtep = vtep,
            vp_vxlan_route = v6_vxlan_route (vd_ifindex d) (ipv6_subnet l),
            vp_direct_route = v6_direct_route (ipv6_subnet l) pub6,
            vp_direct = direct_ok kern d vtep k\<rparr>))
      | _ \<Rightarrow> Inr None)"

text \<open>The clean-up after a failed route: the IPv4 branch tries once, the IPv6 branch retries.\<close>

definition clean_up :: "'k vx_kernel \<Rightarrow> bool \<Rightarrow> vx_plan \<Rightarrow> 'k \<Rightarrow> 'k" where
  "clean_up kern once p k =
     (let run = (if once then (\<lambda>f. f) else retry_do kern);
          k1 = fst (run (del_arp kern (vp_dev p) (vp_mac p) (vp_gw p)) k)
      in fst (run (del_fdb kern (vp_dev p) (vp_mac p) (vp_vtep p)) k1))"

text \<open>An added lease for one family: the state and whether the event goes on.\<close>

definition apply_added :: "'k vx_kernel \<Rightarrow> bool \<Rightarrow> vx_plan \<Rightarrow> 'k \<Rightarrow> 'k \<times> bool" where
  "apply_added kern once p k =
     (if vp_direct p then
        (case retry_do kern (vk_route_replace kern (vp_direct_route p)) k of (k1, e) \<Rightarrow> (k1, e = None))
      else
        case retry_do kern (add_arp kern (vp_dev p) (vp_mac p) (vp_gw p)) k of
          (k1, Some _) \<Rightarrow> (k1, False)
        | (k1, None) \<Rightarrow>
            (case retry_do kern (add_fdb kern (vp_dev p) (vp_mac p) (vp_vtep p)) k1 of
               (k2, Some _) \<Rightarrow> (fst (retry_do kern (del_arp kern (vp_dev p) (vp_mac p) (vp_gw p)) k2), False)
             | (k2, None) \<Rightarrow>
                 (case retry_do kern (vk_route_replace kern (vp_vxlan_route p)) k2 of
                    (k3, Some _) \<Rightarrow> (clean_up kern once p k3, False)
                  | (k3, None) \<Rightarrow> (k3, True))))"

definition apply_removed :: "'k vx_kernel \<Rightarrow> vx_plan \<Rightarrow> 'k \<Rightarrow> 'k" where
  "apply_removed kern p k =
     (if vp_direct p then fst (retry_do kern (vk_route_del kern (vp_direct_route p)) k)
      else
        let k1 = fst (retry_do kern (del_arp kern (vp_dev p) (vp_mac p) (vp_gw p)) k);
            k2 = fst (retry_do kern (del_fdb kern (vp_dev p) (vp_mac p) (vp_vtep p)) k1)
        in fst (retry_do kern (vk_route_del kern (vp_vxlan_route p)) k2))"

definition vx_event ::
  "'k vx_kernel \<Rightarrow> (string \<Rightarrow> string + json) \<Rightarrow> type_error \<Rightarrow> net_state \<Rightarrow> 'k \<Rightarrow> event \<Rightarrow> 'k" where
  "vx_event kern parse te st k evt =
     (let l = ev_lease evt in
      if backend_type (attrs l) \<noteq> ''vxlan'' then k
      else case (plan_v4 kern parse te (ns_dev st) l k, plan_v6 kern parse te (ns_v6_dev st) l k) of
          (Inr p4, Inr p6) \<Rightarrow>
            (case ev_type evt of
               Added \<Rightarrow>
                 (let (k1, go_on) = (case p4 of Some p \<Rightarrow> apply_added kern True p k | None \<Rightarrow> (k, True))
                  in if go_on then (case p6 of Some p \<Rightarrow> fst (apply_added kern False p k1) | None \<Rightarrow> k1) else k1)
             | Removed \<Rightarrow>
                 (let k1 = (case p4 of Some p \<Rightarrow> apply_removed kern p k | None \<Rightarrow> k)
                  in case p6 of Some p \<Rightarrow> apply_removed kern p k1 | None \<Rightarrow> k1))
        | _ \<Rightarrow> k)"

definition vx_handle_subnet_events ::
  "'k vx_kernel \<Rightarrow> (string \<Rightarrow> string + json) \<Rightarrow> type_error \<Rightarrow> net_state \<Rightarrow> event list \<Rightarrow> 'k \<Rightarrow> 'k" where
  "vx_handle_subnet_events kern parse te st batch k = foldl (vx_event kern parse te st) k batch"

section \<open>The network\<close>

definition retry_backoff :: "nat \<Rightarrow> nat" where
  "retry_backoff backoff = min (2 * backoff) 30"

text \<open>One round of \<open>recreate_vxlan\<close>: whether the context is cancelled, whether netlink opens, and the network
  configuration the manager answers. \<open>None\<close> asks for another round after the backoff.\<close>

record rec_env =
  rc_cancelled :: bool
  rc_netlink_ok :: bool
  rc_config :: "string + config"

definition first_addr :: "bool \<Rightarrow> err + ip_addr list \<Rightarrow> (ip_addr option) option" where
  "first_addr enabled addrs =
     (if \<not> enabled then Some None
      else case addrs of Inr (a # _) \<Rightarrow> Some (Some a) | _ \<Rightarrow> None)"

definition recreate_devices ::
  "'k link_kernel \<Rightarrow> reg_env \<Rightarrow> lease \<Rightarrow> config \<Rightarrow> net_iface \<Rightarrow> 'k \<Rightarrow> 'k \<times> (vxlan_device option \<times> vxlan_device option) option" where
  "recreate_devices kern env l config iface k =
     (let nl = lk_netlink kern k;
          ext_mtu = (case get_link_mtu nl (if_index iface) of Inr m \<Rightarrow> m | Inl _ \<Rightarrow> 0)
      in case parse_vxlan_config (re_parse env) (cfg_backend config) ext_mtu of
           Inl _ \<Rightarrow> (k, None)
         | Inr cfg \<Rightarrow>
             (case (first_addr (cfg_enable_ipv4 config) (get_iface_ip4_addrs nl iface),
                    first_addr (cfg_enable_ipv6 config) (get_iface_ip6_addrs nl iface)) of
                (Some a4, Some a6) \<Rightarrow>
                  (case create_vxlan_device kern (re_random env) config cfg (re_macs env) (if_index iface) a4 a6 k of
                     (k1, Inl _) \<Rightarrow> (k1, None)
                   | (k1, Inr (dev, v6_dev)) \<Rightarrow>
                       (case configure_device_ipv4_ipv6 kern dev v6_dev l config k1 of
                          (k2, Inl _) \<Rightarrow> (k2, None)
                        | (k2, Inr _) \<Rightarrow> (k2, Some (dev, v6_dev))))
              | _ \<Rightarrow> (k, None)))"

definition recreated_state :: "vxlan_device option \<times> vxlan_device option \<Rightarrow> net_state \<Rightarrow> net_state" where
  "recreated_state devs st =
     (let (dev, v6_dev) = devs;
          st1 = (case dev of Some d \<Rightarrow> st\<lparr>ns_mtu := vd_mtu d, ns_dev := Some d\<rparr> | None \<Rightarrow> st)
      in st1\<lparr>ns_v6_dev := v6_dev\<rparr>)"

definition recreate_round ::
  "'k link_kernel \<Rightarrow> reg_env \<Rightarrow> string \<Rightarrow> lease \<Rightarrow> rec_env \<Rightarrow> 'k \<Rightarrow> 'k \<times> (vxlan_device option \<times> vxlan_device option) option" where
  "recreate_round kern env name l r k =
     (if \<not> rc_netlink_ok r then (k, None)
      else case get_interface_by_name (lk_netlink kern k) name of
          Inl _ \<Rightarrow> (k, None)
        | Inr iface \<Rightarrow>
            (case rc_config r of
               Inl _ \<Rightarrow> (k, None)
             | Inr config \<Rightarrow> recreate_devices kern env l config iface k))"

text \<open>The loop over the rounds, with the sleeps it makes in seconds; the rounds running out means it is
  still at work.\<close>

datatype rec_end = Recreated net_state | RecCancelled | StillTrying

fun recreate_vxlan ::
  "'k link_kernel \<Rightarrow> reg_env \<Rightarrow> string \<Rightarrow> lease \<Rightarrow> nat \<Rightarrow> rec_env list \<Rightarrow> net_state \<Rightarrow> 'k \<Rightarrow> nat list \<times> 'k \<times> rec_end" where
  "recreate_vxlan kern env name l backoff [] st k = ([], k, StillTrying)"
| "recreate_vxlan kern env name l backoff (r # rs) st k =
     (if rc_cancelled r then ([], k, RecCancelled)
      else case recreate_round kern env name l r k of
          (k1, Some devs) \<Rightarrow> ([], k1, Recreated (recreated_state devs st))
        | (k1, None) \<Rightarrow>
            (case recreate_vxlan kern env name l (retry_backoff backoff) rs st k1 of
               (sleeps, k2, e) \<Rightarrow> (backoff # sleeps, k2, e)))"

text \<open>The run loop. The channel of lease batches holds one batch; its sender is dropped when the lease
  watch ends. The channel of the device watcher holds one signal; its sender is dropped when that watcher
  ends, which it does at once when the network has no IPv4 device.\<close>

record 'k vx_run =
  vr_state :: net_state
  vr_events :: "event list list"
  vr_events_closed :: bool
  vr_missing :: bool
  vr_missing_closed :: bool
  vr_watched :: "string option"
  vr_running :: bool
  vr_recreations :: nat
  vr_kernel :: 'k

datatype vx_input =
    SendBatch "event list"
  | LeaseWatchEnds
  | WatcherStarts
  | LinkDeleted string
  | WatcherEnds
  | DeviceRecreated net_state
  | Poll

definition watched_name :: "net_state \<Rightarrow> string" where
  "watched_name st = (case ns_dev st of Some d \<Rightarrow> vd_name d | None \<Rightarrow> [])"

definition poll_run ::
  "'k vx_kernel \<Rightarrow> (string \<Rightarrow> string + json) \<Rightarrow> type_error \<Rightarrow> 'k vx_run \<Rightarrow> 'k vx_run" where
  "poll_run kern parse te r =
     (case vr_events r of
        batch # rest \<Rightarrow>
          r\<lparr>vr_events := rest, vr_kernel := vx_handle_subnet_events kern parse te (vr_state r) batch (vr_kernel r)\<rparr>
      | [] \<Rightarrow>
          if vr_events_closed r then r\<lparr>vr_running := False\<rparr>
          else if vr_missing r then r\<lparr>vr_missing := False, vr_recreations := Suc (vr_recreations r)\<rparr>
          else if vr_missing_closed r then r\<lparr>vr_running := False\<rparr>
          else r)"

definition vx_run_step ::
  "'k vx_kernel \<Rightarrow> (string \<Rightarrow> string + json) \<Rightarrow> type_error \<Rightarrow> 'k vx_run \<Rightarrow> vx_input \<Rightarrow> 'k vx_run" where
  "vx_run_step kern parse te r i =
     (case i of
        SendBatch b \<Rightarrow> if vr_events r = [] \<and> \<not> vr_events_closed r then r\<lparr>vr_events := [b]\<rparr> else r
      | LeaseWatchEnds \<Rightarrow> r\<lparr>vr_events_closed := True\<rparr>
      | WatcherStarts \<Rightarrow>
          if watched_name (vr_state r) = [] then r\<lparr>vr_missing_closed := True\<rparr>
          else r\<lparr>vr_watched := Some (watched_name (vr_state r))\<rparr>
      | LinkDeleted n \<Rightarrow>
          if \<not> vr_missing_closed r \<and> vr_watched r = Some n then r\<lparr>vr_missing := True\<rparr> else r
      | WatcherEnds \<Rightarrow> r\<lparr>vr_missing_closed := True\<rparr>
      | DeviceRecreated st \<Rightarrow> r\<lparr>vr_state := st\<rparr>
      | Poll \<Rightarrow> if vr_running r then poll_run kern parse te r else r)"

section \<open>Tables\<close>

text \<open>What the requests are for: neighbours of a device, forwarding entries of a device, gateways of
  destinations.\<close>

record vx_tables =
  arp :: "u32 \<times> ip_addr \<rightharpoonup> mac_addr"
  fdb :: "u32 \<times> mac_addr \<rightharpoonup> ip_addr"
  gateways :: "rt_key \<rightharpoonup> ip_addr option"

definition neigh_put :: "neigh_message \<Rightarrow> vx_tables \<Rightarrow> vx_tables" where
  "neigh_put m t =
     (if nm_family m = NBridge then t\<lparr>fdb := (fdb t)((nm_ifindex m, nm_mac m) \<mapsto> nm_dst m)\<rparr>
      else t\<lparr>arp := (arp t)((nm_ifindex m, nm_dst m) \<mapsto> nm_mac m)\<rparr>)"

definition neigh_drop :: "neigh_message \<Rightarrow> vx_tables \<Rightarrow> vx_tables" where
  "neigh_drop m t =
     (if nm_family m = NBridge then t\<lparr>fdb := (fdb t)((nm_ifindex m, nm_mac m) := None)\<rparr>
      else t\<lparr>arp := (arp t)((nm_ifindex m, nm_dst m) := None)\<rparr>)"

definition route_put :: "route_message \<Rightarrow> vx_tables \<Rightarrow> vx_tables" where
  "route_put m t = t\<lparr>gateways := (gateways t)(route_key m \<mapsto> route_gateway m)\<rparr>"

definition route_drop :: "route_message \<Rightarrow> vx_tables \<Rightarrow> vx_tables" where
  "route_drop m t = t\<lparr>gateways := (gateways t)(route_key m := None)\<rparr>"

text \<open>A request takes effect when it succeeds and leaves the tables alone when it fails.\<close>

definition op_ok :: "('k \<Rightarrow> vx_tables) \<Rightarrow> ('k \<Rightarrow> 'k \<times> string option) \<Rightarrow> (vx_tables \<Rightarrow> vx_tables) \<Rightarrow> bool" where
  "op_ok obs f eff \<longleftrightarrow> (\<forall>k. obs (fst (f k)) = (if snd (f k) = None then eff (obs k) else obs k))"

definition vx_ok :: "'k vx_kernel \<Rightarrow> ('k \<Rightarrow> vx_tables) \<Rightarrow> bool" where
  "vx_ok kern obs \<longleftrightarrow>
     (\<forall>m. op_ok obs (vk_neigh_replace kern m) (neigh_put m)) \<and>
     (\<forall>m. op_ok obs (vk_neigh_del kern m) (neigh_drop m)) \<and>
     (\<forall>m. op_ok obs (vk_route_replace kern m) (route_put m)) \<and>
     (\<forall>m. op_ok obs (vk_route_del kern m) (route_drop m)) \<and>
     (\<forall>d k. obs (fst (vk_sleep kern d k)) = obs k)"

lemma retry_from_ok:
  assumes ok: "vx_ok kern obs" and f: "op_ok obs f eff" and left: "0 < left"
  shows "obs (fst (retry_from kern f left delay k)) =
    (if snd (retry_from kern f left delay k) = None then eff (obs k) else obs k)"
  using left
proof (induction left arbitrary: delay k)
  case (Suc left)
  obtain k1 e where fk: "f k = (k1, e)" by (cases "f k")
  have k1: "obs k1 = (if e = None then eff (obs k) else obs k)" using f fk unfolding op_ok_def by (metis fst_conv snd_conv)
  obtain k2 b where sl: "vk_sleep kern delay k1 = (k2, b)" by (cases "vk_sleep kern delay k1")
  have k2: "obs k2 = obs k1" using ok sl unfolding vx_ok_def by (metis fst_conv)
  show ?case
  proof (cases e)
    case None
    with fk k1 show ?thesis by simp
  next
    case (Some m)
    show ?thesis
    proof (cases "left = 0 \<or> b")
      case True
      with Some fk sl k1 k2 show ?thesis by (auto split: if_splits)
    next
      case False
      with Some fk sl k1 k2 Suc.IH [of "2 * delay" k2] show ?thesis by auto
    qed
  qed
qed simp

lemma retry_do_ok:
  assumes "vx_ok kern obs" "op_ok obs f eff"
  shows "op_ok obs (retry_do kern f) eff"
  unfolding op_ok_def retry_do_def using retry_from_ok [OF assms, of ATTEMPTS] by (simp add: ATTEMPTS_def)

abbreviation arp_entry :: "vx_plan \<Rightarrow> neigh_message" where
  "arp_entry p \<equiv> neigh_message_for (vd_ifindex (vp_dev p)) (vp_mac p) (vp_gw p) NudPermanent"

abbreviation fdb_entry :: "vx_plan \<Rightarrow> neigh_state \<Rightarrow> neigh_message" where
  "fdb_entry p s \<equiv> fdb_message (vd_ifindex (vp_dev p)) (vp_mac p) (vp_vtep p) s"

lemma ops_ok:
  assumes "vx_ok kern obs"
  shows "op_ok obs (add_arp kern d mac ip) (neigh_put (neigh_message_for (vd_ifindex d) mac ip NudPermanent))"
    "op_ok obs (del_arp kern d mac ip) (neigh_drop (neigh_message_for (vd_ifindex d) mac ip NudPermanent))"
    "op_ok obs (add_fdb kern d mac ip) (neigh_put (fdb_message (vd_ifindex d) mac ip NudPermanent))"
    "op_ok obs (del_fdb kern d mac ip) (neigh_drop (fdb_message (vd_ifindex d) mac ip NudNone))"
    "op_ok obs (vk_route_replace kern m) (route_put m)" "op_ok obs (vk_route_del kern m) (route_drop m)"
  using assms by (simp_all add: vx_ok_def add_arp_def del_arp_def add_fdb_def del_fdb_def)

text \<open>The effect of a plan on the tables.\<close>

definition plan_put :: "vx_plan \<Rightarrow> vx_tables \<Rightarrow> vx_tables" where
  "plan_put p t =
     (if vp_direct p then route_put (vp_direct_route p) t
      else route_put (vp_vxlan_route p) (neigh_put (fdb_entry p NudPermanent) (neigh_put (arp_entry p) t)))"

definition plan_drop :: "vx_plan \<Rightarrow> vx_tables \<Rightarrow> vx_tables" where
  "plan_drop p t =
     (if vp_direct p then route_drop (vp_direct_route p) t
      else route_drop (vp_vxlan_route p) (neigh_drop (fdb_entry p NudNone) (neigh_drop (arp_entry p) t)))"

text \<open>A request carried out for its effect: it took effect or it did not.\<close>

lemma op_okE:
  assumes "op_ok obs f eff"
  obtains (works) k1 where "f k = (k1, None)" "obs k1 = eff (obs k)"
  | (failed) k1 e where "f k = (k1, Some e)" "obs k1 = obs k"
proof (cases "f k")
  case (Pair k1 e)
  then have "obs k1 = (if e = None then eff (obs k) else obs k)"
    using assms unfolding op_ok_def by (metis fst_conv snd_conv)
  with Pair works failed show ?thesis by (cases e) auto
qed

lemma entry_families:
  "nm_family (arp_entry p) \<noteq> NBridge" "nm_family (fdb_entry p s) = NBridge"
  by (simp_all add: neigh_message_for_def fdb_message_def family_of_def split: ip_addr.splits)

text \<open>The tables agree except for the two neighbour entries of a plan, which are as before or gone.\<close>

definition undone :: "vx_plan \<Rightarrow> vx_tables \<Rightarrow> vx_tables \<Rightarrow> bool" where
  "undone p t t' \<longleftrightarrow>
     gateways t' = gateways t \<and>
     arp t' \<in> {arp t, (arp t)((vd_ifindex (vp_dev p), vp_gw p) := None)} \<and>
     fdb t' \<in> {fdb t, (fdb t)((vd_ifindex (vp_dev p), vp_mac p) := None)}"

definition deletes_work :: "'k vx_kernel \<Rightarrow> bool" where
  "deletes_work kern \<longleftrightarrow> (\<forall>m k. snd (vk_neigh_del kern m k) = None)"

lemma undone_refl: "undone p t t"
  by (simp add: undone_def)

lemma retry_from_works: "snd (f k) = None \<Longrightarrow> retry_from kern f (Suc n) d k = (fst (f k), None)"
  by (cases "f k") simp

lemma retry_do_works: "snd (f k) = None \<Longrightarrow> retry_do kern f k = (fst (f k), None)"
  using retry_from_works [of f k kern 9 100] by (simp add: retry_do_def ATTEMPTS_def)

lemma entry_effects:
  "neigh_put (arp_entry p) t = t\<lparr>arp := (arp t)((vd_ifindex (vp_dev p), vp_gw p) \<mapsto> vp_mac p)\<rparr>"
  "neigh_drop (arp_entry p) t = t\<lparr>arp := (arp t)((vd_ifindex (vp_dev p), vp_gw p) := None)\<rparr>"
  "neigh_put (fdb_entry p s) t = t\<lparr>fdb := (fdb t)((vd_ifindex (vp_dev p), vp_mac p) \<mapsto> vp_vtep p)\<rparr>"
  "neigh_drop (fdb_entry p s) t = t\<lparr>fdb := (fdb t)((vd_ifindex (vp_dev p), vp_mac p) := None)\<rparr>"
  by (simp_all add: neigh_put_def neigh_drop_def entry_families)
    (simp_all add: neigh_message_for_def fdb_message_def)

lemma del_works:
  assumes "vx_ok kern obs" "deletes_work kern"
  shows "obs (fst (retry_do kern (del_arp kern d mac ip) k)) =
      neigh_drop (neigh_message_for (vd_ifindex d) mac ip NudPermanent) (obs k)"
    "obs (fst (del_arp kern d mac ip k)) = neigh_drop (neigh_message_for (vd_ifindex d) mac ip NudPermanent) (obs k)"
    "obs (fst (retry_do kern (del_fdb kern d mac ip) k)) = neigh_drop (fdb_message (vd_ifindex d) mac ip NudNone) (obs k)"
    "obs (fst (del_fdb kern d mac ip k)) = neigh_drop (fdb_message (vd_ifindex d) mac ip NudNone) (obs k)"
proof -
  have none: "snd (del_arp kern d mac ip k) = None" "snd (del_fdb kern d mac ip k) = None" for k
    using assms(2) by (simp_all add: deletes_work_def del_arp_def del_fdb_def)
  have eff: "obs (fst (del_arp kern d mac ip k)) = neigh_drop (neigh_message_for (vd_ifindex d) mac ip NudPermanent) (obs k)"
    "obs (fst (del_fdb kern d mac ip k)) = neigh_drop (fdb_message (vd_ifindex d) mac ip NudNone) (obs k)"
    using ops_ok(2,4) [OF assms(1), of d mac ip] none unfolding op_ok_def by simp_all
  show "obs (fst (retry_do kern (del_arp kern d mac ip) k)) =
      neigh_drop (neigh_message_for (vd_ifindex d) mac ip NudPermanent) (obs k)"
    "obs (fst (del_arp kern d mac ip k)) = neigh_drop (neigh_message_for (vd_ifindex d) mac ip NudPermanent) (obs k)"
    "obs (fst (retry_do kern (del_fdb kern d mac ip) k)) = neigh_drop (fdb_message (vd_ifindex d) mac ip NudNone) (obs k)"
    "obs (fst (del_fdb kern d mac ip k)) = neigh_drop (fdb_message (vd_ifindex d) mac ip NudNone) (obs k)"
    using eff none by (simp_all add: retry_do_works)
qed

lemma clean_up_drops:
  assumes "vx_ok kern obs" "deletes_work kern"
  shows "obs (clean_up kern once p k) = neigh_drop (fdb_entry p NudNone) (neigh_drop (arp_entry p) (obs k))"
  by (cases once) (simp_all add: clean_up_def Let_def del_works [OF assms])

lemma apply_added_cases:
  assumes ok: "vx_ok kern obs" and del: "deletes_work kern"
  obtains (works) k' where "apply_added kern once p k = (k', True)" "obs k' = plan_put p (obs k)"
  | (failed) k' where "apply_added kern once p k = (k', False)" "undone p (obs k) (obs k')"
proof (cases "vp_direct p")
  case True
  from retry_do_ok [OF ok ops_ok(5) [OF ok]] show ?thesis
  proof (cases rule: op_okE [where k = k, of obs "retry_do kern (vk_route_replace kern (vp_direct_route p))" "route_put (vp_direct_route p)"])
    case (works k1)
    with True show ?thesis by (intro that(1) [of k1]) (simp_all add: apply_added_def plan_put_def)
  next
    case (failed k1 e)
    with True show ?thesis by (intro that(2) [of k1]) (simp_all add: apply_added_def undone_refl)
  qed
next
  case False
  note arp = retry_do_ok [OF ok ops_ok(1) [OF ok, of "vp_dev p" "vp_mac p" "vp_gw p"]]
  note fdb = retry_do_ok [OF ok ops_ok(3) [OF ok, of "vp_dev p" "vp_mac p" "vp_vtep p"]]
  note rt = retry_do_ok [OF ok ops_ok(5) [OF ok, of "vp_vxlan_route p"]]
  from arp show ?thesis
  proof (cases rule: op_okE [where k = k])
    case (failed k1 e)
    with False show ?thesis by (intro that(2) [of k1]) (simp_all add: apply_added_def undone_refl)
  next
    case (works k1)
    note k1 = works
    from fdb show ?thesis
    proof (cases rule: op_okE [where k = k1])
      case (failed k2 e)
      have "undone p (obs k) (obs (fst (retry_do kern (del_arp kern (vp_dev p) (vp_mac p) (vp_gw p)) k2)))"
        by (simp add: del_works [OF ok del] failed k1 entry_effects undone_def)
      with False k1 failed show ?thesis by (intro that(2)) (simp_all add: apply_added_def)
    next
      case (works k2)
      note k2 = works
      from rt show ?thesis
      proof (cases rule: op_okE [where k = k2])
        case (failed k3 e)
        have "undone p (obs k) (obs (clean_up kern once p k3))"
          by (simp add: clean_up_drops [OF ok del] failed k1 k2 entry_effects undone_def)
        with False k1 k2 failed show ?thesis by (intro that(2)) (simp_all add: apply_added_def)
      next
        case (works k3)
        with False k1 k2 show ?thesis by (intro that(1) [of k3]) (simp_all add: apply_added_def plan_put_def)
      qed
    qed
  qed
qed

section \<open>Properties\<close>


definition never_fails :: "'k vx_kernel \<Rightarrow> bool" where
  "never_fails kern \<longleftrightarrow>
     (\<forall>m k. snd (vk_neigh_replace kern m k) = None) \<and> (\<forall>m k. snd (vk_neigh_del kern m k) = None) \<and>
     (\<forall>m k. snd (vk_route_replace kern m k) = None) \<and> (\<forall>m k. snd (vk_route_del kern m k) = None)"

lemma never_fails_retry:
  assumes "vx_ok kern obs" "never_fails kern"
  shows "snd (retry_do kern (add_arp kern d mac ip) k) = None" "snd (retry_do kern (del_arp kern d mac ip) k) = None"
    "snd (retry_do kern (add_fdb kern d mac ip) k) = None" "snd (retry_do kern (del_fdb kern d mac ip) k) = None"
    "snd (retry_do kern (vk_route_replace kern m) k) = None" "snd (retry_do kern (vk_route_del kern m) k) = None"
  using assms(2)
  by (simp_all add: never_fails_def add_arp_def del_arp_def add_fdb_def del_fdb_def retry_do_works)

lemma op_ok_effect: "op_ok obs f eff \<Longrightarrow> snd (f k) = None \<Longrightarrow> obs (fst (f k)) = eff (obs k)"
  by (simp add: op_ok_def)

lemma apply_works:
  assumes ok: "vx_ok kern obs" and nf: "never_fails kern"
  shows "obs (fst (apply_added kern once p k)) = plan_put p (obs k)" "snd (apply_added kern once p k)"
    "obs (apply_removed kern p k) = plan_drop p (obs k)"
proof -
  note none = never_fails_retry [OF ok nf]
  note eff = op_ok_effect [OF retry_do_ok [OF ok ops_ok(1) [OF ok]] none(1)]
    op_ok_effect [OF retry_do_ok [OF ok ops_ok(2) [OF ok]] none(2)]
    op_ok_effect [OF retry_do_ok [OF ok ops_ok(3) [OF ok]] none(3)]
    op_ok_effect [OF retry_do_ok [OF ok ops_ok(4) [OF ok]] none(4)]
    op_ok_effect [OF retry_do_ok [OF ok ops_ok(5) [OF ok]] none(5)]
    op_ok_effect [OF retry_do_ok [OF ok ops_ok(6) [OF ok]] none(6)]
  have del: "deletes_work kern" using nf by (simp add: never_fails_def deletes_work_def)
  show snd: "snd (apply_added kern once p k)"
    using none by (auto simp: apply_added_def split: prod.splits option.splits dest: arg_cong [of _ _ snd])
  show "obs (fst (apply_added kern once p k)) = plan_put p (obs k)"
    using ok del by (cases rule: apply_added_cases [where once = once and p = p and k = k]) (use snd in simp_all)
  show "obs (apply_removed kern p k) = plan_drop p (obs k)"
    by (simp add: apply_removed_def plan_drop_def Let_def eff)
qed

text \<open>What an event of an IPv4 peer means for the tables.\<close>

definition peer_step ::
  "(string \<Rightarrow> string + json) \<Rightarrow> type_error \<Rightarrow> vxlan_device \<Rightarrow> event \<Rightarrow> vx_tables \<Rightarrow> vx_tables" where
  "peer_step parse te d e t =
     (let l = ev_lease e; i = vd_ifindex d; ip = V4 (n4_ip (subnet l)); dst = (Some ip, ucast (n4_prefix_len (subnet l))) in
      if backend_type (attrs l) \<noteq> ''vxlan'' \<or> \<not> enable_ipv4 l then t
      else case parse_backend_data parse te (backend_data (attrs l)) of
          Inl _ \<Rightarrow> t
        | Inr mac \<Rightarrow>
            (case ev_type e of
               Added \<Rightarrow> \<lparr>arp = (arp t)((i, ip) \<mapsto> mac), fdb = (fdb t)((i, mac) \<mapsto> V4 (public_ip (attrs l))),
                  gateways = (gateways t)(dst \<mapsto> Some ip)\<rparr>
             | Removed \<Rightarrow> \<lparr>arp = (arp t)((i, ip) := None), fdb = (fdb t)((i, mac) := None),
                  gateways = (gateways t)(dst := None)\<rparr>))"

lemma vxlan_route_fields:
  "route_key (v4_vxlan_route i sn) = (Some (V4 (n4_ip sn)), ucast (n4_prefix_len sn))"
  "route_gateway (v4_vxlan_route i sn) = Some (V4 (n4_ip sn))"
  by (simp_all add: v4_vxlan_route_def v4_route_message_def route_key_def route_dst_def route_attr_ip_def
      route_gateway_def route_addr_to_ip_def)

lemma vx_event_peer_step:
  assumes ok: "vx_ok kern obs" and nf: "never_fails kern"
    and st: "ns_dev st = Some d" "ns_v6_dev st = None" and direct: "\<not> vd_direct_routing d"
  shows "obs (vx_event kern parse te st k e) = peer_step parse te d e (obs k)"
proof -
  let ?l = "ev_lease e"
  have v6: "plan_v6 kern parse te (ns_v6_dev st) ?l k = Inr None"
    by (simp add: plan_v6_def st split: bool.splits)
  show ?thesis
  proof (cases "backend_type (attrs ?l) = ''vxlan'' \<and> enable_ipv4 ?l")
    case False
    then show ?thesis
      by (auto simp: vx_event_def peer_step_def Let_def plan_v4_def v6 [unfolded st] st split: event_type.splits)
  next
    case True
    show ?thesis
    proof (cases "parse_backend_data parse te (backend_data (attrs ?l))")
      case (Inl err)
      with True show ?thesis by (simp add: vx_event_def peer_step_def Let_def plan_v4_def st)
    next
      case (Inr mac)
      let ?p = "\<lparr>vp_dev = d, vp_mac = mac, vp_gw = V4 (n4_ip (subnet ?l)), vp_vtep = V4 (public_ip (attrs ?l)),
            vp_vxlan_route = v4_vxlan_route (vd_ifindex d) (subnet ?l),
            vp_direct_route = v4_direct_route (subnet ?l) (public_ip (attrs ?l)), vp_direct = False\<rparr>"
      have p: "plan_v4 kern parse te (ns_dev st) ?l k = Inr (Some ?p)"
        using True Inr direct by (simp add: plan_v4_def st direct_ok_def Let_def)
      have "obs (vx_event kern parse te st k e) =
          (case ev_type e of Added \<Rightarrow> plan_put ?p (obs k) | Removed \<Rightarrow> plan_drop ?p (obs k))"
        using True apply_works [OF ok nf]
        by (simp add: vx_event_def Let_def p v6 split_beta split: event_type.splits)
      then show ?thesis
        using True Inr
        by (simp add: peer_step_def Let_def plan_put_def plan_drop_def entry_effects [of ?p, simplified] route_put_def
            route_drop_def vxlan_route_fields split: event_type.splits)
    qed
  qed
qed


text \<open>On a node without an IPv4 device the run loop stops. The device watcher ends at once because there is no
  device to watch, its channel closes, and the first time no batch is waiting the loop takes the closed channel
  for the end: from then on no lease event reaches the kernel, whatever the watchers do.\<close>

theorem vxlan_v6_only_stops:
  assumes "ns_dev (vr_state r) = None" "vr_running r" "vr_events r = []" "\<not> vr_missing r"
    and stopped: "stopped = foldl (vx_run_step kern parse te) r [WatcherStarts, Poll]"
  shows "\<not> vr_running stopped \<and> vr_kernel (foldl (vx_run_step kern parse te) stopped inputs) = vr_kernel r"
proof -
  have step: "\<not> vr_running (vx_run_step kern parse te s i) \<and> vr_kernel (vx_run_step kern parse te s i) = vr_kernel s"
    if "\<not> vr_running s" for s i
    using that by (simp add: vx_run_step_def split: vx_input.splits)
  have all: "vr_kernel (foldl (vx_run_step kern parse te) s inputs) = vr_kernel s" if "\<not> vr_running s" for s
    using that
  proof (induction inputs arbitrary: s)
    case (Cons i inputs)
    with step [of s i] show ?case by simp
  qed simp
  have "\<not> vr_running stopped" "vr_kernel stopped = vr_kernel r"
    using assms(1-4) by (simp_all add: stopped vx_run_step_def poll_run_def watched_name_def)
  with all [of stopped] show ?thesis by simp
qed

text \<open>Kernels for the witnesses: the tables themselves, and the same with routes that are refused.\<close>

definition quiet_netlink :: netlink where
  "quiet_netlink = \<lparr>nl_links = ([], None), nl_link_by_name = (\<lambda>_. ([], None)), nl_link_by_index = (\<lambda>_. ([], None)),
     nl_addrs = (\<lambda>_. ([], None)), nl_routes = ([], None), nl_route_get = (\<lambda>_. ([], None))\<rparr>"

definition table_kernel :: "vx_tables vx_kernel" where
  "table_kernel =
     \<lparr>vk_netlink = (\<lambda>_. quiet_netlink), vk_neigh_replace = (\<lambda>m t. (neigh_put m t, None)),
      vk_neigh_del = (\<lambda>m t. (neigh_drop m t, None)), vk_route_replace = (\<lambda>m t. (route_put m t, None)),
      vk_route_del = (\<lambda>m t. (route_drop m t, None)), vk_sleep = (\<lambda>_ t. (t, False))\<rparr>"

definition stubborn_kernel :: "vx_tables vx_kernel" where
  "stubborn_kernel = table_kernel\<lparr>vk_route_replace := (\<lambda>m t. (t, Some ''Network is unreachable''))\<rparr>"

lemma table_kernel_ok: "vx_ok table_kernel id" "never_fails table_kernel" "vx_ok stubborn_kernel id" "deletes_work stubborn_kernel"
  by (simp_all add: vx_ok_def op_ok_def never_fails_def deletes_work_def table_kernel_def stubborn_kernel_def)

definition empty_tables :: vx_tables where
  "empty_tables = \<lparr>arp = Map.empty, fdb = Map.empty, gateways = Map.empty\<rparr>"

definition sample_parse :: "string \<Rightarrow> string + json" where
  "sample_parse s = Inr (JArray [JPos 1, JString ''0a:00:00:00:00:01''])"

definition sample_net_state :: net_state where
  "sample_net_state = \<lparr>ns_dev = Some sample_device, ns_v6_dev = None, ns_mtu = 1500\<rparr>"

definition vxlan_added :: event where
  "vxlan_added = \<lparr>ev_type = Added, ev_lease = sample_lease 2\<rparr>"

lemma sample_backend_data: "parse_backend_data sample_parse te raw = Inr [10, 0, 0, 0, 0, 1]"
proof -
  have "parse_mac ''0a:00:00:00:00:01'' = Inr [10, 0, 0, 0, 0, 1]" by code_simp
  then show ?thesis
    by (simp add: parse_backend_data_def sample_parse_def lease_attrs_of_def mac_json_def de_u32_def)
qed


definition sample_plan :: vx_plan where
  "sample_plan =
     \<lparr>vp_dev = sample_device, vp_mac = [10, 0, 0, 0, 0, 1], vp_gw = V4 (IP4 0x0AF40200), vp_vtep = V4 (IP4 0xC0A80002),
      vp_vxlan_route = v4_vxlan_route 7 (subnet (sample_lease 2)),
      vp_direct_route = v4_direct_route (subnet (sample_lease 2)) (IP4 0xC0A80002), vp_direct = False\<rparr>"


definition v6_only_run :: "vx_tables vx_run" where
  "v6_only_run = \<lparr>vr_state = \<lparr>ns_dev = None, ns_v6_dev = Some sample_device, ns_mtu = 1500\<rparr>, vr_events = [], vr_events_closed = False,
     vr_missing = False, vr_missing_closed = False, vr_watched = None, vr_running = True, vr_recreations = 0, vr_kernel = empty_tables\<rparr>"

theorem vxlan_v6_only_stops_witness:
  "vr_kernel (foldl (vx_run_step table_kernel sample_parse (\<lambda>_ _. [])) v6_only_run
     [WatcherStarts, Poll, SendBatch [vxlan_added], Poll]) = empty_tables"
  using vxlan_v6_only_stops [of v6_only_run _ table_kernel sample_parse "\<lambda>_ _. []" "[SendBatch [vxlan_added], Poll]", OF _ _ _ _ refl]
  by (simp add: v6_only_run_def)

end
