(* ===== verification/Status.thy ===== *)
theory Status
  imports Prelude
begin

text \<open>
  \<open>subnet/kube/status.rs\<close>: the node condition that \<open>complete_lease\<close> reports, and the RFC 3339 text of its
  time stamps. The calendar computation runs on 64-bit integers in the source. The seconds are below \<open>2^64\<close>,
  so the days are below \<open>2^48\<close> and no step overflows; the model computes with unbounded integers, whose
  division is that of the source on the non-negative numbers that occur.
\<close>

section \<open>Time stamps\<close>

definition pad :: "nat \<Rightarrow> int \<Rightarrow> string" where
  "pad w n = (let s = show_nat (nat n) in replicate (w - length s) (CHR ''0'') @ s)"

definition civil_from_days :: "int \<Rightarrow> int \<times> int \<times> int" where
  "civil_from_days days =
     (let z = days + 719468;
          era = (if z \<ge> 0 then z else z - 146096) div 146097;
          doe = z - era * 146097;
          yoe = (doe - doe div 1460 + doe div 36524 - doe div 146096) div 365;
          y = yoe + era * 400;
          doy = doe - (365 * yoe + yoe div 4 - yoe div 100);
          mp = (5 * doy + 2) div 153;
          d = doy - (153 * mp + 2) div 5 + 1;
          m = (if mp < 10 then mp + 3 else mp - 9);
          year = (if m \<le> 2 then y + 1 else y)
      in (year, m, d))"

text \<open>\<open>t\<close> is the time in seconds since the epoch, negative before it.\<close>

definition rfc3339_utc :: "int \<Rightarrow> string" where
  "rfc3339_utc t =
     (let secs = max 0 t;
          days = secs div 86400;
          rem = secs mod 86400;
          (hour, min, sec) = (rem div 3600, (rem div 60) mod 60, rem mod 60);
          (year, m, d) = civil_from_days days
      in pad 4 year @ ''-'' @ pad 2 m @ ''-'' @ pad 2 d @ ''T'' @ pad 2 hour @ '':'' @ pad 2 min @ '':'' @ pad 2 sec @ ''Z'')"

section \<open>The node condition\<close>

record condition =
  co_type :: string
  co_status :: string
  co_reason :: string
  co_message :: string
  co_last_transition :: string
  co_last_heartbeat :: string

text \<open>The status patch, or nothing when the option is off; the result is that of the request.\<close>

definition complete_lease :: "bool \<Rightarrow> int \<Rightarrow> (condition list \<Rightarrow> 'e option) \<Rightarrow> 'e + condition list option" where
  "complete_lease set_node_network_unavailable now patch_node_status =
     (if \<not> set_node_network_unavailable then Inr None
      else
        let t = rfc3339_utc now;
            conditions = [\<lparr>co_type = ''NetworkUnavailable'', co_status = ''False'', co_reason = ''FlannelIsUp'',
              co_message = ''Flannel is running on this node'', co_last_transition = t, co_last_heartbeat = t\<rparr>]
        in case patch_node_status conditions of Some e \<Rightarrow> Inl e | None \<Rightarrow> Inr (Some conditions))"

section \<open>The calendar\<close>

text \<open>The Gregorian calendar, day by day.\<close>

definition leap :: "int \<Rightarrow> bool" where
  "leap y \<longleftrightarrow> y mod 4 = 0 \<and> (y mod 100 \<noteq> 0 \<or> y mod 400 = 0)"

definition days_in_month :: "int \<Rightarrow> int \<Rightarrow> int" where
  "days_in_month y m = (if m = 2 then (if leap y then 29 else 28) else if m \<in> {4, 6, 9, 11} then 30 else 31)"

definition next_day :: "int \<times> int \<times> int \<Rightarrow> int \<times> int \<times> int" where
  "next_day date =
     (let (y, m, d) = date in
      if d < days_in_month y m then (y, m, d + 1)
      else if m < 12 then (y, m + 1, 1)
      else (y + 1, 1, 1))"

definition calendar :: "nat \<Rightarrow> int \<times> int \<times> int" where
  "calendar days = (next_day ^^ days) (1970, 1, 1)"

text \<open>Years of the computation start in March. Day \<open>doe\<close> of an era of 400 years is day \<open>doy\<close> of year \<open>yoe\<close>.\<close>

definition year_start :: "int \<Rightarrow> int" where
  "year_start y = 365 * y + y div 4 - y div 100"

definition year_length :: "int \<Rightarrow> int" where
  "year_length y = (if leap (y + 1) then 366 else 365)"

definition shrink :: "int \<Rightarrow> int" where
  "shrink doe = doe - doe div 1460 + doe div 36524 - doe div 146096"

definition month_day :: "int \<Rightarrow> int \<times> int" where
  "month_day doy =
     (let mp = (5 * doy + 2) div 153 in (if mp < 10 then mp + 3 else mp - 9, doy - (153 * mp + 2) div 5 + 1))"

definition date_of :: "int \<Rightarrow> int \<Rightarrow> int \<times> int \<times> int" where
  "date_of y doy = (let (m, d) = month_day doy in (if m \<le> 2 then y + 1 else y, m, d))"

lemma div_step: "(n + 1) div k = n div k + (if k dvd n + 1 then 1 else 0)" if "0 < k" for n k :: int
proof -
  define q r where "q = n div k" and "r = n mod k"
  have n: "n = k * q + r" and r: "0 \<le> r" "r < k" using that by (simp_all add: q_def r_def)
  show ?thesis
  proof (cases "r + 1 = k")
    case True
    then have "n + 1 = k * (q + 1)" by (simp add: n algebra_simps)
    with that show ?thesis by (simp add: q_def [symmetric])
  next
    case False
    with r have "(r + 1) div k = 0" "\<not> k dvd r + 1" by (auto dest: zdvd_imp_le)
    moreover have "k dvd n + 1 \<longleftrightarrow> k dvd r + 1" by (simp add: n add.assoc dvd_add_right_iff)
    ultimately have "(n + 1) div k = q" "\<not> k dvd n + 1" using that by (simp_all add: n add.assoc)
    then show ?thesis by (simp add: q_def)
  qed
qed

lemma shrink_step: "shrink n \<le> shrink (n + 1)"
proof -
  have "(36524 :: int) dvd 146096" by simp
  then have "146096 dvd n + 1 \<Longrightarrow> 36524 dvd n + 1" using dvd_trans by blast
  then show ?thesis by (simp add: shrink_def div_step)
qed

lemma shrink_mono: "shrink n \<le> shrink (n + int i)"
proof (induction i)
  case (Suc i)
  have "n + int (Suc i) = n + int i + 1" by simp
  with Suc shrink_step [of "n + int i"] show ?case by (metis order_trans)
qed simp

text \<open>Facts about the 400 years of an era, and the 365 steps inside a year, checked one by one.\<close>

definition year_ok :: "int \<Rightarrow> bool" where
  "year_ok y \<longleftrightarrow>
     365 * y \<le> shrink (year_start y) \<and> shrink (year_start y + year_length y - 1) < 365 * (y + 1) \<and>
     year_start y + year_length y \<le> 146097 \<and>
     (if y = 399 then year_start y + year_length y = 146097 else year_start (y + 1) = year_start y + year_length y)"

definition day_ok :: "int \<Rightarrow> bool" where
  "day_ok doy \<longleftrightarrow>
     (let (m, d) = month_day doy; (m', d') = month_day (doy + 1);
          len = (if m = 2 then 28 else if m \<in> {4, 6, 9, 11} then 30 else 31)
      in 1 \<le> m \<and> m \<le> 12 \<and>
        (if d < len then m' = m \<and> d' = d + 1 else d' = 1 \<and> m' = (if m < 12 then m + 1 else 1) \<and> m \<noteq> 2))"

lemma years_ok: "list_all year_ok [0..399]"
  by code_simp

lemma days_ok: "list_all day_ok [0..363]"
  by code_simp

lemma year_ok: "0 \<le> y \<Longrightarrow> y < 400 \<Longrightarrow> year_ok y"
  using years_ok by (simp add: list_all_iff)

lemma day_ok: "0 \<le> doy \<Longrightarrow> doy < 364 \<Longrightarrow> day_ok doy"
  using days_ok by (simp add: list_all_iff)

lemma year_bounds: "0 \<le> year_start y" "365 \<le> year_length y" "year_length y \<le> 366" if "0 \<le> y"
  using that by (auto simp: year_start_def year_length_def)

lemma div_eq_iff_bounds: "0 < k \<Longrightarrow> k * q \<le> n \<Longrightarrow> n < k * (q + 1) \<Longrightarrow> n div k = q" for k q n :: int
  by (intro int_div_pos_eq [where r = "n - k * q"]) (simp_all add: algebra_simps)

text \<open>The formula finds the year and the day.\<close>

lemma civil_from_days_date:
  assumes y: "0 \<le> yoe" "yoe < 400" and doy: "0 \<le> doy" "doy < year_length yoe" and era: "0 \<le> era"
    and z: "days + 719468 = era * 146097 + year_start yoe + doy"
  shows "civil_from_days days = date_of (yoe + era * 400) doy"
proof -
  let ?doe = "year_start yoe + doy"
  have ok: "365 * yoe \<le> shrink (year_start yoe)" "shrink (year_start yoe + year_length yoe - 1) < 365 * (yoe + 1)"
    "year_start yoe + year_length yoe \<le> 146097"
    using year_ok [OF y] by (simp_all add: year_ok_def)
  have doe: "0 \<le> ?doe" "?doe < 146097" using ok(3) doy year_bounds(1) [OF y(1)] by simp_all
  have "days + 719468 = ?doe + era * 146097" using z by simp
  with doe era have e: "days + 719468 \<ge> 0" "(days + 719468) div 146097 = era" by simp_all
  have "shrink (year_start yoe) \<le> shrink ?doe" using shrink_mono [of "year_start yoe" "nat doy"] doy(1) by simp
  moreover have "shrink ?doe \<le> shrink (year_start yoe + year_length yoe - 1)"
    using shrink_mono [of ?doe "nat (year_length yoe - 1 - doy)"] doy(2) by (simp add: add_diff_eq)
  ultimately have "365 * yoe \<le> shrink ?doe" "shrink ?doe < 365 * (yoe + 1)" using ok by linarith+
  then have yoe: "shrink ?doe div 365 = yoe" using div_eq_iff_bounds [of 365 yoe "shrink ?doe"] by simp
  have doe_eq: "days + 719468 - era * 146097 = ?doe" using z by simp
  have "civil_from_days days = (let yoe' = shrink ?doe div 365; doy' = ?doe - year_start yoe' in date_of (yoe' + era * 400) doy')"
    unfolding civil_from_days_def Let_def
    by (simp only: e doe_eq if_True simp_thms shrink_def [symmetric] year_start_def [symmetric] date_of_def month_day_def Let_def split_conv)
  then show ?thesis by (simp only: yoe Let_def add_diff_cancel_left')
qed

lemma leap_periodic: "leap (y + era * 400) = leap y"
proof -
  have "(y + era * 400) mod 4 = y mod 4" "(y + era * 400) mod 100 = y mod 100" "(y + era * 400) mod 400 = y mod 400"
    using mod_mult_self1 [of y "era * 100" 4] mod_mult_self1 [of y "era * 4" 100] mod_mult_self1 [of y era 400]
    by (simp_all only: mult.assoc mult_numeral_1_right mult.commute [of _ "numeral _"]) simp_all
  then show ?thesis by (simp add: leap_def)
qed

lemma next_day_inside:
  assumes "0 \<le> doy" "doy < 364"
  shows "next_day (date_of y doy) = date_of y (doy + 1)"
proof -
  obtain m d where md: "month_day doy = (m, d)" by (cases "month_day doy")
  obtain m' d' where md': "month_day (doy + 1) = (m', d')" by (cases "month_day (doy + 1)")
  let ?len = "if m = 2 then 28 else if m \<in> {4, 6, 9, 11} then 30 else 31 :: int"
  have ok: "1 \<le> m" "m \<le> 12" "if d < ?len then m' = m \<and> d' = d + 1 else d' = 1 \<and> m' = (if m < 12 then m + 1 else 1) \<and> m \<noteq> 2"
    using day_ok [OF assms] unfolding day_ok_def md md' Let_def split_conv by blast+
  have len: "?len \<le> days_in_month yr m" "m \<noteq> 2 \<Longrightarrow> days_in_month yr m = ?len" for yr
    by (simp_all add: days_in_month_def)
  show ?thesis
  proof (cases "d < ?len")
    case True
    with ok(3) have new: "m' = m" "d' = d + 1" by simp_all
    have "d < days_in_month yr m" for yr using True len(1) [of yr] by linarith
    then show ?thesis by (simp add: next_day_def date_of_def md md' new)
  next
    case False
    with ok(3) have new: "d' = 1" "m' = (if m < 12 then m + 1 else 1)" "m \<noteq> 2" by simp_all
    have "\<not> d < days_in_month yr m" for yr using False len(2) [OF new(3)] by simp
    with new ok(1,2) show ?thesis by (auto simp: next_day_def date_of_def md md')
  qed
qed

lemma month_day_ends: "month_day 364 = (2, 28)" "month_day 365 = (2, 29)" "month_day 0 = (3, 1)"
  by (simp_all add: month_day_def)

lemma next_day_date:
  assumes "0 \<le> doy" "doy < year_length y"
  shows "next_day (date_of y doy) = (if doy + 1 < year_length y then date_of y (doy + 1) else date_of (y + 1) 0)"
proof -
  consider "doy < 364" | "doy = 364" | "doy = 365" "leap (y + 1)"
    using assms unfolding year_length_def by (cases "leap (y + 1)"; fastforce)
  then show ?thesis
  proof cases
    case 1
    then have "doy + 1 < year_length y" by (simp add: year_length_def)
    with next_day_inside [OF assms(1) 1] show ?thesis by simp
  next
    case 2
    then show ?thesis
      by (simp add: next_day_def date_of_def month_day_ends days_in_month_def year_length_def)
  next
    case 3
    then show ?thesis
      by (simp add: next_day_def date_of_def month_day_ends days_in_month_def year_length_def)
  qed
qed

lemma calendar_date:
  "\<exists>era yoe doy. 0 \<le> era \<and> 0 \<le> yoe \<and> yoe < 400 \<and> 0 \<le> doy \<and> doy < year_length yoe \<and>
     int n + 719468 = era * 146097 + year_start yoe + doy \<and> calendar n = date_of (yoe + era * 400) doy"
proof (induction n)
  case 0
  have "0 \<le> (4::int)" "(306::int) < year_length 369" "int 0 + 719468 = 4 * 146097 + year_start 369 + 306"
    "calendar 0 = date_of (369 + 4 * 400) 306"
    by (simp_all add: year_length_def year_start_def calendar_def date_of_def month_day_def)
  then show ?case by (intro exI [of _ 4] exI [of _ 369] exI [of _ 306]) simp
next
  case (Suc n)
  then obtain era yoe doy where y: "0 \<le> era" "0 \<le> yoe" "yoe < 400" "0 \<le> doy" "doy < year_length yoe"
    and z: "int n + 719468 = era * 146097 + year_start yoe + doy"
    and cal: "calendar n = date_of (yoe + era * 400) doy" by blast
  have len: "year_length (yoe + era * 400) = year_length yoe"
    using leap_periodic [of "yoe + 1" era] by (simp add: year_length_def ac_simps)
  have step: "calendar (Suc n) = next_day (date_of (yoe + era * 400) doy)" using cal by (simp add: calendar_def)
  have ok: "if yoe = 399 then year_start yoe + year_length yoe = 146097 else year_start (yoe + 1) = year_start yoe + year_length yoe"
    using year_ok [OF y(2,3)] unfolding year_ok_def by blast
  show ?case
  proof (cases "doy + 1 < year_length yoe")
    case True
    with y z step len next_day_date [of doy "yoe + era * 400"] show ?thesis
      by (intro exI [of _ era] exI [of _ yoe] exI [of _ "doy + 1"]) simp
  next
    case False
    with y(5) have last: "doy + 1 = year_length yoe" by simp
    have cal': "calendar (Suc n) = date_of (yoe + era * 400 + 1) 0"
      using step len next_day_date [of doy "yoe + era * 400"] y last by simp
    show ?thesis
    proof (cases "yoe = 399")
      case True
      have first: "year_start 0 = 0" "0 < year_length 0" by (simp_all add: year_start_def year_length_def leap_def)
      have "int (Suc n) + 719468 = (era + 1) * 146097 + year_start 0 + 0" using True ok last z first by simp
      moreover have "calendar (Suc n) = date_of (0 + (era + 1) * 400) 0" using cal' True by (simp add: algebra_simps)
      moreover have "0 \<le> era + 1" using y(1) by simp
      ultimately show ?thesis using first by fastforce
    next
      case False
      with ok last z cal' y show ?thesis
        using year_bounds(2) [of "yoe + 1"]
        by (intro exI [of _ era] exI [of _ "yoe + 1"] exI [of _ 0]) (simp add: algebra_simps)
    qed
  qed
qed

section \<open>Properties\<close>

text \<open>C33. The day computation of the time stamps is the Gregorian calendar: for every number of days since the
  epoch, \<open>civil_from_days\<close> gives the date reached from 1 January 1970 by that many steps of the calendar, with
  its month lengths and leap years.\<close>

theorem civil_from_days_calendar: "civil_from_days (int n) = calendar n"
  using calendar_date [of n] civil_from_days_date by metis

end
