(* ===== verification/SubnetEnv.thy ===== *)
theory SubnetEnv
  imports Config
begin

text \<open>
  The file \<open>subnet.env\<close>, by which flanneld tells the CNI plugin and its own next run what it leased:
  \<open>subnet/writefile.rs\<close> writes it, \<open>flanneld/src/subnetfile.rs\<close> reads the previous networks back, and the
  CNI plugin parses it in \<open>flannel-cni/src/netconf.rs\<close>. The file system is a parameter: the result of each
  call. Text is ASCII.
\<close>

section \<open>Lines\<close>

definition is_whitespace :: "char \<Rightarrow> bool" where
  "is_whitespace c \<longleftrightarrow> (let n = (of_char c :: nat) in 9 \<le> n \<and> n \<le> 13 \<or> n = 32)"

definition trim :: "string \<Rightarrow> string" where
  "trim s = rev (dropWhile is_whitespace (rev (dropWhile is_whitespace s)))"

definition newline :: char where "newline = char_of (10 :: nat)"

definition strip_cr :: "string \<Rightarrow> string" where
  "strip_cr s = (if s \<noteq> [] \<and> last s = char_of (13 :: nat) then butlast s else s)"

text \<open>\<open>str::lines\<close>: the text after the last newline counts when it is not empty.\<close>

definition lines_of :: "string \<Rightarrow> string list" where
  "lines_of s =
     (let ps = split_on newline s in map strip_cr (if last ps = [] then butlast ps else ps))"

section \<open>Writing\<close>

definition show_flag :: "bool \<Rightarrow> string" where
  "show_flag b = (if b then ''true'' else ''false'')"

definition env_line :: "string \<Rightarrow> string \<Rightarrow> string" where
  "env_line key val = key @ ''='' @ val @ [newline]"

definition subnet_file_text :: "config \<Rightarrow> bool \<Rightarrow> ip4net \<Rightarrow> ip6net \<Rightarrow> u32 \<Rightarrow> string" where
  "subnet_file_text config ip_masq sn ipv6sn mtu =
     (if cfg_enable_ipv4 config
      then env_line ''FLANNEL_NETWORK'' (n4_to_string (cfg_network config)) @
        env_line ''FLANNEL_SUBNET'' (n4_to_string (n4_increment_ip sn))
      else []) @
     (if cfg_enable_ipv6 config
      then env_line ''FLANNEL_IPV6_NETWORK'' (n6_to_string (cfg_ipv6_network config)) @
        env_line ''FLANNEL_IPV6_SUBNET'' (n6_to_string (n6_increment_ip ipv6sn))
      else []) @
     env_line ''FLANNEL_MTU'' (show_u32 mtu) @ env_line ''FLANNEL_IPMASQ'' (show_flag ip_masq)"

text \<open>\<open>mkdir\<close> creates the parent directory, \<open>write\<close> is \<open>write_file_atomic\<close> on the path.\<close>

definition write_subnet_file ::
  "'e option \<Rightarrow> (string \<Rightarrow> 'e option) \<Rightarrow> config \<Rightarrow> bool \<Rightarrow> ip4net \<Rightarrow> ip6net \<Rightarrow> u32 \<Rightarrow> 'e + string" where
  "write_subnet_file mkdir write config ip_masq sn ipv6sn mtu =
     (case mkdir of
        Some e \<Rightarrow> Inl e
      | None \<Rightarrow>
          (let b = subnet_file_text config ip_masq sn ipv6sn mtu in
           case write b of Some e \<Rightarrow> Inl e | None \<Rightarrow> Inr b))"

section \<open>Reading the previous networks\<close>

definition parse_ip4net :: "string \<Rightarrow> ip4net option" where
  "parse_ip4net s =
     (case split_once (CHR ''/'') s of
        None \<Rightarrow> None
      | Some (addr, prefix) \<Rightarrow>
          (case parse_u32 prefix of
             None \<Rightarrow> None
           | Some prefix_len \<Rightarrow>
               if prefix_len > 32 then None
               else (case ip4_from_str addr of
                   Inl _ \<Rightarrow> None
                 | Inr ip \<Rightarrow> Some (n4_network \<lparr>n4_ip = ip, n4_prefix_len = prefix_len\<rparr>))))"

definition rsplit_once :: "char \<Rightarrow> string \<Rightarrow> (string \<times> string) option" where
  "rsplit_once c s = map_option (\<lambda>(b, a). (rev a, rev b)) (split_once c (rev s))"

definition parse_ip6net :: "string \<Rightarrow> ip6net option" where
  "parse_ip6net s =
     (case rsplit_once (CHR ''/'') s of
        None \<Rightarrow> None
      | Some (addr, prefix) \<Rightarrow>
          (case parse_u32 prefix of
             None \<Rightarrow> None
           | Some prefix_len \<Rightarrow>
               if prefix_len > 128 then None
               else (case ip6_from_str addr of
                   Inl _ \<Rightarrow> None
                 | Inr ip \<Rightarrow> Some (n6_network \<lparr>n6_ip = ip, n6_prefix_len = prefix_len\<rparr>))))"

text \<open>One line of the file: the pair it sets, if any.\<close>

definition env_pair :: "string \<Rightarrow> (string \<times> string) option" where
  "env_pair raw_line =
     (let line = trim raw_line in
      if line = [] \<or> hd line = CHR ''#'' then None
      else case split_once (CHR ''='') line of
          None \<Rightarrow> None
        | Some (key, value) \<Rightarrow> if trim key = [] then None else Some (trim key, trim value))"

definition env_values :: "string \<Rightarrow> string \<rightharpoonup> string" where
  "env_values content =
     foldl (\<lambda>m l. case env_pair l of None \<Rightarrow> m | Some (k, v) \<Rightarrow> m(k \<mapsto> v)) Map.empty (lines_of content)"

text \<open>Reading the file: the text, nothing when it does not exist, or an error.\<close>

definition read_env_file :: "'e + string option \<Rightarrow> 'e + (string \<rightharpoonup> string) option" where
  "read_env_file file = (case file of Inl e \<Rightarrow> Inl e | Inr None \<Rightarrow> Inr None | Inr (Some s) \<Rightarrow> Inr (Some (env_values s)))"

definition read_values :: "(string \<Rightarrow> 'n option) \<Rightarrow> 'e + string option \<Rightarrow> string \<Rightarrow> 'n list" where
  "read_values parse file key =
     (case read_env_file file of
        Inr (Some values) \<Rightarrow>
          (case values key of
             None \<Rightarrow> []
           | Some raw \<Rightarrow> List.map_filter parse (split_on (CHR '','') raw))
      | _ \<Rightarrow> [])"

definition read_cidrs_from_subnet_file :: "'e + string option \<Rightarrow> string \<Rightarrow> ip4net list" where
  "read_cidrs_from_subnet_file file key = read_values parse_ip4net file key"

definition read_cidr_from_subnet_file :: "'e + string option \<Rightarrow> string \<Rightarrow> ip4net" where
  "read_cidr_from_subnet_file file key =
     (case read_cidrs_from_subnet_file file key of [n] \<Rightarrow> n | _ \<Rightarrow> ip4net_default)"

definition read_ip6_cidrs_from_subnet_file :: "'e + string option \<Rightarrow> string \<Rightarrow> ip6net list" where
  "read_ip6_cidrs_from_subnet_file file key = read_values parse_ip6net file key"

definition read_ip6_cidr_from_subnet_file :: "'e + string option \<Rightarrow> string \<Rightarrow> ip6net" where
  "read_ip6_cidr_from_subnet_file file key =
     (case read_ip6_cidrs_from_subnet_file file key of [n] \<Rightarrow> n | _ \<Rightarrow> ip6net_default)"

section \<open>The environment of the CNI plugin\<close>

record flannel_subnet_env =
  fe_network :: "ip4net option"
  fe_subnet :: "ip4net option"
  fe_ipv6_network :: "ip6net option"
  fe_ipv6_subnet :: "ip6net option"
  fe_mtu :: "u32 option"
  fe_ipmasq :: bool

definition subnet_env_default :: flannel_subnet_env where
  "subnet_env_default =
     \<lparr>fe_network = None, fe_subnet = None, fe_ipv6_network = None, fe_ipv6_subnet = None, fe_mtu = None, fe_ipmasq = False\<rparr>"

definition parse_bool :: "string \<Rightarrow> bool option" where
  "parse_bool val = (if lower val = ''true'' then Some True else if lower val = ''false'' then Some False else None)"

definition env_value_error :: "string \<Rightarrow> string \<Rightarrow> string" where
  "env_value_error key val = ''invalid '' @ key @ '' value: '' @ val"

definition set_env :: "string \<Rightarrow> string \<Rightarrow> flannel_subnet_env \<Rightarrow> string + flannel_subnet_env" where
  "set_env key val env =
     (let v4 = (\<lambda>f. case n4_from_str val of Inl _ \<Rightarrow> Inl (env_value_error key val) | Inr n \<Rightarrow> Inr (f n));
          v6 = (\<lambda>f. case n6_from_str val of Inl _ \<Rightarrow> Inl (env_value_error key val) | Inr n \<Rightarrow> Inr (f n));
          k = trim key
      in if k = ''FLANNEL_NETWORK'' then v4 (\<lambda>n. env\<lparr>fe_network := Some n\<rparr>)
         else if k = ''FLANNEL_SUBNET'' then v4 (\<lambda>n. env\<lparr>fe_subnet := Some n\<rparr>)
         else if k = ''FLANNEL_IPV6_NETWORK'' then v6 (\<lambda>n. env\<lparr>fe_ipv6_network := Some n\<rparr>)
         else if k = ''FLANNEL_IPV6_SUBNET'' then v6 (\<lambda>n. env\<lparr>fe_ipv6_subnet := Some n\<rparr>)
         else if k = ''FLANNEL_MTU'' then
           (case parse_u32 val of None \<Rightarrow> Inl (env_value_error ''FLANNEL_MTU'' val) | Some m \<Rightarrow> Inr (env\<lparr>fe_mtu := Some m\<rparr>))
         else if k = ''FLANNEL_IPMASQ'' then
           (case parse_bool val of None \<Rightarrow> Inl (env_value_error ''FLANNEL_IPMASQ'' val) | Some b \<Rightarrow> Inr (env\<lparr>fe_ipmasq := b\<rparr>))
         else Inr env)"

fun parse_env_lines :: "string list \<Rightarrow> flannel_subnet_env \<Rightarrow> string + flannel_subnet_env" where
  "parse_env_lines [] env = Inr env"
| "parse_env_lines (raw # ls) env =
     (let line = trim raw in
      if line = [] then parse_env_lines ls env
      else case split_once (CHR ''='') line of
          None \<Rightarrow> parse_env_lines ls env
        | Some (key, val) \<Rightarrow> rbind (set_env key (trim val) env) (parse_env_lines ls))"

definition parse_subnet_env :: "string \<Rightarrow> string + flannel_subnet_env" where
  "parse_subnet_env contents = parse_env_lines (lines_of contents) subnet_env_default"

section \<open>Lines written and read\<close>

text \<open>Characters of keys and values: not whitespace, not a separator of the file.\<close>

definition plain :: "string \<Rightarrow> bool" where
  "plain s \<longleftrightarrow> s \<noteq> [] \<and> (\<forall>c \<in> set s. \<not> is_whitespace c \<and> c \<notin> {CHR ''='', CHR '','', CHR ''#''})"

lemma newline_whitespace: "is_whitespace newline" "is_whitespace (char_of (13 :: nat))"
  by (simp_all add: is_whitespace_def newline_def)

lemma dropWhile_none: "\<forall>x \<in> set xs. \<not> p x \<Longrightarrow> dropWhile p xs = xs"
  by (cases xs) auto

lemma trim_plain: "\<forall>c \<in> set s. \<not> is_whitespace c \<Longrightarrow> trim s = s"
  by (simp add: trim_def dropWhile_none)

lemma plainD: "plain s \<Longrightarrow> \<forall>c \<in> set s. \<not> is_whitespace c" "plain s \<Longrightarrow> CHR ''='' \<notin> set s" "plain s \<Longrightarrow> CHR '','' \<notin> set s"
  "plain s \<Longrightarrow> hd s \<noteq> CHR ''#''" "plain s \<Longrightarrow> s \<noteq> []"
  unfolding plain_def by (blast, blast, blast, use hd_in_set in blast, blast)

lemma digit_plain: "is_digit 10 c \<Longrightarrow> \<not> is_whitespace c \<and> c \<notin> {CHR ''='', CHR '','', CHR ''#''}"
  by (auto simp: to_digit_def is_whitespace_def Let_def)

lemma plain_show_nat: "plain (show_nat n)"
  using digit_plain show_nat_digits by (auto simp: plain_def)

lemma plain_append: "plain a \<Longrightarrow> plain b \<Longrightarrow> plain (a @ b)"
  by (auto simp: plain_def)

lemma plain_dot: "plain ''.''" "plain ''/''"
  by (simp_all add: plain_def is_whitespace_def)

lemma plain_ip4: "plain (ip4_to_string ip)"
proof -
  obtain a b c d where o: "ip4_octets ip = [a, b, c, d]" by (rule octets_cases)
  have "plain (show_u8 a @ ''.'' @ show_u8 b @ ''.'' @ show_u8 c @ ''.'' @ show_u8 d)"
    by (intro plain_append plain_dot) (simp_all add: show_u8_def plain_show_nat)
  then show ?thesis by (simp add: ip4_to_string_def o)
qed

lemma plain_n4: "plain (n4_to_string n)"
proof -
  have "plain (ip4_to_string (n4_ip n) @ ''/'' @ show_u32 (n4_prefix_len n))"
    by (intro plain_append plain_dot plain_ip4) (simp add: show_u32_def plain_show_nat)
  then show ?thesis by (simp add: n4_to_string_def)
qed

lemma plain_u32: "plain (show_u32 w)"
  by (simp add: show_u32_def plain_show_nat)

lemma plain_flag: "plain (show_flag b)"
  by (simp add: show_flag_def plain_def is_whitespace_def)

lemma plain_keys: "plain ''FLANNEL_NETWORK''" "plain ''FLANNEL_SUBNET''" "plain ''FLANNEL_MTU''" "plain ''FLANNEL_IPMASQ''"
  by (simp_all add: plain_def is_whitespace_def)

lemma lines_of_Nil: "lines_of [] = []"
  by (simp add: lines_of_def)

lemma lines_of_env_line:
  assumes "plain k" "plain v"
  shows "lines_of (env_line k v @ rest) = (k @ ''='' @ v) # lines_of rest"
proof -
  let ?l = "k @ ''='' @ v"
  have "newline \<notin> set k" "newline \<notin> set v" using assms plainD(1) newline_whitespace(1) by blast+
  moreover have "\<not> is_whitespace (CHR ''='')" by (simp add: is_whitespace_def)
  then have "newline \<noteq> CHR ''=''" using newline_whitespace(1) by metis
  ultimately have nl: "newline \<notin> set ?l" by simp
  have "last ?l \<in> set v" using plainD(5) [OF assms(2)] by simp
  then have "last ?l \<noteq> char_of (13 :: nat)" using plainD(1) [OF assms(2)] newline_whitespace(2) by metis
  then have cr: "strip_cr ?l = ?l" by (simp add: strip_cr_def)
  have "split_on newline (env_line k v @ rest) = ?l # split_on newline rest"
    using split_on_append [OF nl, of rest] by (simp add: env_line_def)
  with cr show ?thesis by (simp add: lines_of_def Let_def)
qed

lemma env_line_trim:
  assumes "plain k" "plain v"
  shows "trim (k @ ''='' @ v) = k @ ''='' @ v" "split_once (CHR ''='') (k @ ''='' @ v) = Some (k, v)" "trim k = k" "trim v = v"
proof -
  have eq: "\<not> is_whitespace (CHR ''='')" by (simp add: is_whitespace_def)
  show "trim (k @ ''='' @ v) = k @ ''='' @ v"
    by (rule trim_plain) (use plainD(1) [OF assms(1)] plainD(1) [OF assms(2)] eq in auto)
  show "split_once (CHR ''='') (k @ ''='' @ v) = Some (k, v)"
    using plainD(2) [OF assms(1)] by (simp add: split_once_append)
  show "trim k = k" "trim v = v" using assms plainD(1) by (simp_all add: trim_plain)
qed

lemma parse_env_line:
  assumes "plain k" "plain v"
  shows "parse_env_lines ((k @ ''='' @ v) # ls) env = rbind (set_env k v env) (parse_env_lines ls)"
  using env_line_trim [OF assms] by (simp add: Let_def)

lemma env_pair_line:
  assumes "plain k" "plain v"
  shows "env_pair (k @ ''='' @ v) = Some (k, v)"
proof -
  have "k \<noteq> []" "hd (k @ ''='' @ v) \<noteq> CHR ''#''" using plainD(4,5) [OF assms(1)] by simp_all
  then show ?thesis using env_line_trim [OF assms] by (simp add: env_pair_def Let_def)
qed

text \<open>The first usable address of an aligned network, masked, is the network.\<close>

lemma increment_network:
  assumes "n4_network n = n" "n4_prefix_len n < 32"
  shows "n4_network (n4_increment_ip n) = n"
proof -
  obtain w p where n: "n = \<lparr>n4_ip = IP4 w, n4_prefix_len = p\<rparr>" by (cases n; cases "n4_ip n") auto
  let ?h = "32 - unat p"
  have p: "unat p < 32" using assms(2) by (simp add: n word_less_nat_alt)
  have m: "mask_value p = hi_mask (unat p)" using p v4.amask_in [of p] by simp
  have w: "w AND hi_mask (unat p) = w" using assms(1) by (simp add: n n4_network_def n4_mask_def m)
  then have "unat w = unat w div 2 ^ ?h * 2 ^ ?h" using unat_and_hi_mask [of w "unat p"] by simp
  then obtain q where q: "unat w = q * 2 ^ ?h" by blast
  have h: "1 < (2 :: nat) ^ ?h" using p one_less_power [of "2 :: nat" ?h] by simp
  have "even (unat w)" using q p by simp
  then have "unat w \<noteq> 4294967295" by auto
  with unat_lt2p [of w] have "unat w + 1 < 2 ^ 32" by simp
  then have "unat (w + 1) = q * 2 ^ ?h + 1" using q by (simp add: unat_word_ariths)
  moreover have "(q * 2 ^ ?h + 1) div 2 ^ ?h = q" using h by (intro div_nat_eqI) (simp_all add: mult.commute)
  ultimately have "unat (w + 1) div 2 ^ ?h = unat w div 2 ^ ?h" using h q by simp
  then have "(w + 1) AND hi_mask (unat p) = w" using w and_hi_mask_eq_iff [of "w + 1" "unat p" w] by simp
  then show ?thesis by (simp add: n n4_network_def n4_increment_ip_def n4_mask_def m)
qed

lemma subnet_file_lines:
  assumes "cfg_enable_ipv4 config" "\<not> cfg_enable_ipv6 config"
  shows "lines_of (subnet_file_text config ip_masq sn sn6 mtu) =
    [''FLANNEL_NETWORK'' @ ''='' @ n4_to_string (cfg_network config), ''FLANNEL_SUBNET'' @ ''='' @ n4_to_string (n4_increment_ip sn),
     ''FLANNEL_MTU'' @ ''='' @ show_u32 mtu, ''FLANNEL_IPMASQ'' @ ''='' @ show_flag ip_masq]"
proof -
  note line = lines_of_env_line [OF plain_keys(1) plain_n4] lines_of_env_line [OF plain_keys(2) plain_n4]
    lines_of_env_line [OF plain_keys(3) plain_u32] lines_of_env_line [OF plain_keys(4) plain_flag, of _ "[]"]
  have "subnet_file_text config ip_masq sn sn6 mtu =
      env_line ''FLANNEL_NETWORK'' (n4_to_string (cfg_network config)) @
      env_line ''FLANNEL_SUBNET'' (n4_to_string (n4_increment_ip sn)) @
      env_line ''FLANNEL_MTU'' (show_u32 mtu) @ env_line ''FLANNEL_IPMASQ'' (show_flag ip_masq) @ []"
    using assms by (simp add: subnet_file_text_def)
  then show ?thesis by (simp only: line lines_of_Nil)
qed

lemma set_env_cases:
  "n4_from_str v = Inr n \<Longrightarrow> set_env ''FLANNEL_NETWORK'' v env = Inr (env\<lparr>fe_network := Some n\<rparr>)"
  "n4_from_str v = Inr n \<Longrightarrow> set_env ''FLANNEL_SUBNET'' v env = Inr (env\<lparr>fe_subnet := Some n\<rparr>)"
  "parse_u32 v = Some m \<Longrightarrow> set_env ''FLANNEL_MTU'' v env = Inr (env\<lparr>fe_mtu := Some m\<rparr>)"
  "parse_bool v = Some b \<Longrightarrow> set_env ''FLANNEL_IPMASQ'' v env = Inr (env\<lparr>fe_ipmasq := b\<rparr>)"
  by (simp_all add: set_env_def env_line_trim(3) [OF plain_keys(1) plain_keys(1)] env_line_trim(3) [OF plain_keys(2) plain_keys(1)]
      env_line_trim(3) [OF plain_keys(3) plain_keys(1)] env_line_trim(3) [OF plain_keys(4) plain_keys(1)] Let_def)

lemma parse_bool_show: "parse_bool (show_flag b) = Some b"
  by (cases b) (simp_all add: parse_bool_def show_flag_def lower_def to_ascii_lowercase_def)

lemma parse_ip4net_show: "n4_wf n \<Longrightarrow> parse_ip4net (n4_to_string n) = Some (n4_network n)"
  by (simp add: parse_ip4net_def n4_to_string_def split_once_append slash_notin_ip4 n4_network_def n4_mask_def linorder_not_less)

section \<open>Properties\<close>

text \<open>C15. What flanneld writes, the CNI plugin and the next flanneld read. For an IPv4 configuration the plugin
  gets the network, the leased subnet, the MTU and the masquerade flag from \<open>subnet.env\<close>, and the reader of the
  previous networks gets the same two networks: the address written is the first usable one, and both
  readers mask it back to the lease. The lease must be an aligned subnet with room for that address.\<close>

theorem subnet_env_roundtrip:
  assumes "cfg_enable_ipv4 config" "\<not> cfg_enable_ipv6 config"
    and net: "n4_wf (cfg_network config)" and sn: "n4_network sn = sn" "n4_prefix_len sn < 32"
    and written: "write_subnet_file mkdir write config ip_masq sn sn6 mtu = Inr file"
  shows "parse_subnet_env file =
      Inr \<lparr>fe_network = Some (n4_network (cfg_network config)), fe_subnet = Some sn, fe_ipv6_network = None,
        fe_ipv6_subnet = None, fe_mtu = Some mtu, fe_ipmasq = ip_masq\<rparr> \<and>
    read_cidr_from_subnet_file (Inr (Some file) :: unit + string option) ''FLANNEL_SUBNET'' = sn \<and>
    read_cidr_from_subnet_file (Inr (Some file) :: unit + string option) ''FLANNEL_NETWORK'' = n4_network (cfg_network config)"
proof -
  let ?a = "n4_to_string (cfg_network config)" and ?b = "n4_to_string (n4_increment_ip sn)"
  have lines: "lines_of file = [''FLANNEL_NETWORK'' @ ''='' @ ?a, ''FLANNEL_SUBNET'' @ ''='' @ ?b,
     ''FLANNEL_MTU'' @ ''='' @ show_u32 mtu, ''FLANNEL_IPMASQ'' @ ''='' @ show_flag ip_masq]"
    using written subnet_file_lines [OF assms(1,2)] by (auto simp: write_subnet_file_def Let_def split: option.splits)
  have wf: "n4_wf (n4_increment_ip sn)" using sn(2) by (simp add: n4_increment_ip_def)
  have b: "n4_from_str ?b = Inr sn" "parse_ip4net ?b = Some sn"
    using n4_from_str_to_string [OF wf] parse_ip4net_show [OF wf] increment_network [OF sn] by simp_all
  have a: "n4_from_str ?a = Inr (n4_network (cfg_network config))" "parse_ip4net ?a = Some (n4_network (cfg_network config))"
    using n4_from_str_to_string [OF net] parse_ip4net_show [OF net] by simp_all
  have "parse_subnet_env file =
      Inr \<lparr>fe_network = Some (n4_network (cfg_network config)), fe_subnet = Some sn, fe_ipv6_network = None,
        fe_ipv6_subnet = None, fe_mtu = Some mtu, fe_ipmasq = ip_masq\<rparr>"
    unfolding parse_subnet_env_def lines
    by (simp only: parse_env_line plain_keys plain_n4 plain_u32 plain_flag set_env_cases a b parse_u32_show parse_bool_show
        rbind_simps parse_env_lines.simps(1)) (simp add: subnet_env_default_def)
  moreover have pairs: "env_values file = [''FLANNEL_NETWORK'' \<mapsto> ?a, ''FLANNEL_SUBNET'' \<mapsto> ?b,
      ''FLANNEL_MTU'' \<mapsto> show_u32 mtu, ''FLANNEL_IPMASQ'' \<mapsto> show_flag ip_masq]"
    unfolding env_values_def lines foldl.simps
    by (simp only: env_pair_line plain_keys plain_n4 plain_u32 plain_flag option.case prod.case)
  have "split_on (CHR '','') ?a = [?a]" "split_on (CHR '','') ?b = [?b]"
    using plainD(3) [OF plain_n4] by (simp_all add: split_on_single)
  then have "read_values parse_ip4net (Inr (Some file) :: unit + string option) ''FLANNEL_NETWORK'' = [n4_network (cfg_network config)]"
    "read_values parse_ip4net (Inr (Some file) :: unit + string option) ''FLANNEL_SUBNET'' = [sn]"
    by (simp_all add: read_values_def read_env_file_def pairs map_filter_def a b)
  ultimately show ?thesis by (simp add: read_cidr_from_subnet_file_def read_cidrs_from_subnet_file_def)
qed

definition sample_env_config :: config where
  "sample_env_config = config_default\<lparr>cfg_enable_ipv4 := True, cfg_network := \<lparr>n4_ip = IP4 0x0AF40000, n4_prefix_len = 16\<rparr>\<rparr>"

theorem subnet_env_roundtrip_witness:
  "\<exists>file. write_subnet_file None (\<lambda>_. None :: unit option) sample_env_config True \<lparr>n4_ip = IP4 0x0AF40500, n4_prefix_len = 24\<rparr>
       ip6net_default 1450 = Inr file \<and>
     read_cidr_from_subnet_file (Inr (Some file) :: unit + string option) ''FLANNEL_SUBNET'' = \<lparr>n4_ip = IP4 0x0AF40500, n4_prefix_len = 24\<rparr>"
proof -
  let ?sn = "\<lparr>n4_ip = IP4 0x0AF40500, n4_prefix_len = 24\<rparr> :: ip4net"
  define content where "content = subnet_file_text sample_env_config True ?sn ip6net_default 1450"
  have written: "write_subnet_file None (\<lambda>_. None :: unit option) sample_env_config True ?sn ip6net_default 1450 = Inr content"
    by (simp add: write_subnet_file_def content_def Let_def)
  have "n4_network ?sn = ?sn" by (simp add: n4_network_def n4_mask_def mask_value_def push_bit_eq_mult)
  then show ?thesis
    using subnet_env_roundtrip [OF _ _ _ _ _ written] written by (simp add: sample_env_config_def config_default_def)
qed

end
