(* ===== verification/World.thy ===== *)
theory World
  imports SubnetEnv
begin

text \<open>
  What the daemon and the plugin share with the world outside: programs they run, the search path, and
  computations that pass a state of the outside world along and may fail. The state is a type variable; what
  is assumed of a program is stated where a theorem needs it. Keys of a \<open>BTreeMap\<close> are ordered bytewise.
\<close>

section \<open>Text\<close>

text \<open>\<open>str::contains\<close>.\<close>

fun contains_text :: "string \<Rightarrow> string \<Rightarrow> bool" where
  "contains_text needle [] \<longleftrightarrow> needle = []"
| "contains_text needle (c # cs) \<longleftrightarrow> take (length needle) (c # cs) = needle \<or> contains_text needle cs"

definition trim_end :: "string \<Rightarrow> string" where
  "trim_end s = rev (dropWhile is_whitespace (rev s))"

text \<open>The bytes of a text.\<close>

definition text_bytes :: "string \<Rightarrow> u8 list" where
  "text_bytes s = map (\<lambda>c. of_nat (of_char c)) s"

definition bytes_text :: "u8 list \<Rightarrow> string" where
  "bytes_text bs = map (\<lambda>b. char_of (unat b)) bs"

text \<open>The order of \<open>String\<close>.\<close>

fun str_less :: "string \<Rightarrow> string \<Rightarrow> bool" where
  "str_less a [] \<longleftrightarrow> False"
| "str_less [] (b # bs) \<longleftrightarrow> True"
| "str_less (a # as) (b # bs) \<longleftrightarrow> (of_char a :: nat) < of_char b \<or> a = b \<and> str_less as bs"

lemma str_less_trans: "str_less a b \<Longrightarrow> str_less b c \<Longrightarrow> str_less a c"
proof (induction a b arbitrary: c rule: str_less.induct)
  case (3 a as b bs)
  then show ?case by (cases c) auto
next
  case (2 b bs)
  then show ?case by (cases c) auto
qed simp

lemma str_less_total: "a = b \<or> str_less a b \<or> str_less b a"
proof (induction a b rule: str_less.induct)
  case (1 a)
  then show ?case by (cases a) auto
next
  case (3 a as b bs)
  have "(of_char a :: nat) < of_char b \<or> a = b \<or> (of_char b :: nat) < of_char a" by (metis linorder_neqE_nat of_char_eq_iff)
  with 3 show ?case by auto
qed simp

section \<open>Fallible steps\<close>

type_synonym ('s, 'e, 'a) step = "'s \<Rightarrow> 's \<times> ('e + 'a)"

definition then_do :: "('s, 'e, 'a) step \<Rightarrow> ('a \<Rightarrow> ('s, 'e, 'b) step) \<Rightarrow> ('s, 'e, 'b) step" where
  "then_do m f s = (case m s of (s1, Inl e) \<Rightarrow> (s1, Inl e) | (s1, Inr x) \<Rightarrow> f x s1)"

definition on_err :: "('e \<Rightarrow> 'f) \<Rightarrow> ('s, 'e, 'a) step \<Rightarrow> ('s, 'f, 'a) step" where
  "on_err g m s = (case m s of (s1, Inl e) \<Rightarrow> (s1, Inl (g e)) | (s1, Inr x) \<Rightarrow> (s1, Inr x))"

definition give :: "'a \<Rightarrow> ('s, 'e, 'a) step" where
  "give x s = (s, Inr x)"

definition lift_result :: "'e + 'a \<Rightarrow> ('s, 'e, 'a) step" where
  "lift_result r s = (s, r)"

text \<open>The value \<open>r\<close> with the state \<open>s1\<close> after a step.\<close>

lemma then_do_Inr: "m s = (s1, Inr x) \<Longrightarrow> then_do m f s = f x s1"
  by (simp add: then_do_def)

lemma then_do_Inl: "m s = (s1, Inl e) \<Longrightarrow> then_do m f s = (s1, Inl e)"
  by (simp add: then_do_def)

lemma on_err_Inr: "m s = (s1, Inr x) \<Longrightarrow> on_err g m s = (s1, Inr x)"
  by (simp add: on_err_def)

lemma on_err_Inl: "m s = (s1, Inl e) \<Longrightarrow> on_err g m s = (s1, Inl (g e))"
  by (simp add: on_err_def)

lemma then_do_eq_Inr: "then_do m f s = (s', Inr y) \<longleftrightarrow> (\<exists>s1 x. m s = (s1, Inr x) \<and> f x s1 = (s', Inr y))"
  by (auto simp: then_do_def split: prod.splits sum.splits)

lemma on_err_eq_Inr: "on_err g m s = (s', Inr y) \<longleftrightarrow> m s = (s', Inr y)"
  by (auto simp: on_err_def split: prod.splits sum.splits)

lemma give_apply [simp]: "give x s = (s, Inr x)"
  by (simp add: give_def)

section \<open>Programs\<close>

record process_output =
  po_success :: bool
  po_status :: string
  po_code :: "int option"
  po_stdout :: string
  po_stderr :: string

text \<open>The search path, which files are executable, and running a program with arguments and standard input:
  the text of the error when it cannot be run, its output otherwise.\<close>

record 's system =
  sy_path_var :: "string option"
  sy_executable :: "string \<Rightarrow> bool"
  sy_exec :: "string \<Rightarrow> string list \<Rightarrow> string \<Rightarrow> ('s, string, process_output) step"

text \<open>\<open>Path::join\<close>.\<close>

definition path_join :: "string \<Rightarrow> string \<Rightarrow> string" where
  "path_join dir name =
     (if dir = [] \<or> name \<noteq> [] \<and> hd name = CHR ''/'' then name
      else if last dir = CHR ''/'' then dir @ name
      else dir @ ''/'' @ name)"

definition look_path :: "'s system \<Rightarrow> string \<Rightarrow> string option" where
  "look_path sys cmd =
     (if CHR ''/'' \<in> set cmd then (if sy_executable sys cmd then Some cmd else None)
      else case sy_path_var sys of
          None \<Rightarrow> None
        | Some path_var \<Rightarrow>
            find (sy_executable sys) (map (\<lambda>dir. path_join dir cmd) (split_on (CHR '':'') path_var)))"

end
