(* ===== verification/Cni.thy ===== *)
theory Cni
  imports World
begin

text \<open>
  The CNI plugin \<open>flannel-cni\<close>: \<open>netconf.rs\<close> (network configuration and the configuration of the delegate
  plugin), \<open>delegate.rs\<close> (finding and running it), \<open>masq.rs\<close> (masquerade rules), \<open>lib.rs\<close> (the commands) and
  \<open>skel.rs\<close> (arguments and dispatch). Parameters are the JSON parser, the file \<open>subnet.env\<close>, the existence of
  files, the delegate processes and the iptables programs. A JSON object is the list of its members in key
  order, as \<open>serde_json::Map\<close> keeps them. An error is the text of its outermost context; the causes that \<open>{e:#}\<close> appends are left out.
\<close>

section \<open>JSON objects\<close>

text \<open>\<open>Map::insert\<close>.\<close>

fun obj_insert :: "string \<Rightarrow> json \<Rightarrow> (string \<times> json) list \<Rightarrow> (string \<times> json) list" where
  "obj_insert k v [] = [(k, v)]"
| "obj_insert k v ((k', v') # ms) =
     (if k = k' then (k, v) # ms else if str_less k k' then (k, v) # (k', v') # ms else (k', v') # obj_insert k v ms)"

definition obj_extend :: "(string \<times> json) list \<Rightarrow> (string \<times> json) list \<Rightarrow> (string \<times> json) list" where
  "obj_extend m user = foldl (\<lambda>m (k, v). obj_insert k v m) m user"

section \<open>Network configuration\<close>

definition DEFAULT_DELEGATE_TYPE :: string where "DEFAULT_DELEGATE_TYPE = ''bridge''"

definition DEFAULT_DELEGATE_IPAM_TYPE :: string where "DEFAULT_DELEGATE_IPAM_TYPE = ''host-local''"

record net_conf =
  nc_cni_version :: string
  nc_name :: string
  nc_plugin_type :: string
  nc_delegate :: "(string \<times> json) list"

definition default_cni_version :: string where "default_cni_version = ''1.0.0''"

definition de_map :: "type_error \<Rightarrow> json \<Rightarrow> string + (string \<times> json) list" where
  "de_map te v = (case v of JObject ms \<Rightarrow> Inr ms | _ \<Rightarrow> Inl (te ''a map'' v))"

definition net_conf_fields :: "type_error \<Rightarrow> (nat \<Rightarrow> json option) \<Rightarrow> string + net_conf" where
  "net_conf_fields te f =
     rbind (de_field default_cni_version (de_string te) (f 0)) (\<lambda>v.
     rbind (de_field [] (de_string te) (f 1)) (\<lambda>n.
     rbind (de_field [] (de_string te) (f 2)) (\<lambda>t.
     rbind (de_field [] (de_map te) (f 3)) (\<lambda>d.
     Inr \<lparr>nc_cni_version = v, nc_name = n, nc_plugin_type = t, nc_delegate = d\<rparr>))))"

definition NET_CONF_KEYS :: "string list" where
  "NET_CONF_KEYS = [''cniVersion'', ''name'', ''type'', ''delegate'']"

definition net_conf_of :: "type_error \<Rightarrow> json \<Rightarrow> string + net_conf" where
  "net_conf_of te v = rbind (struct_members te ''NetConf'' NET_CONF_KEYS v) (net_conf_fields te)"

definition load_flannel_net_conf :: "(string \<Rightarrow> string + json) \<Rightarrow> type_error \<Rightarrow> string \<Rightarrow> string + net_conf" where
  "load_flannel_net_conf parse te bytes =
     map_sum (\<lambda>_. ''failed to parse flannel netconf'') id (rbind (parse bytes) (net_conf_of te))"

text \<open>A component of a version: \<open>u64::from_str\<close>, zero when it fails.\<close>

definition version_component :: "string \<Rightarrow> nat" where
  "version_component c = (case parse_unsigned (2 ^ 64) c of Some n \<Rightarrow> n | None \<Rightarrow> 0)"

fun version_ge :: "nat list \<Rightarrow> nat list \<Rightarrow> bool" where
  "version_ge [] [] \<longleftrightarrow> True"
| "version_ge (x # xs) [] \<longleftrightarrow> (if x \<noteq> 0 then True else version_ge xs [])"
| "version_ge [] (y # ys) \<longleftrightarrow> (if y \<noteq> 0 then False else version_ge [] ys)"
| "version_ge (x # xs) (y # ys) \<longleftrightarrow> (if x \<noteq> y then x > y else version_ge xs ys)"

definition version_at_least :: "string \<Rightarrow> string \<Rightarrow> bool" where
  "version_at_least a b \<longleftrightarrow>
     version_ge (map version_component (split_on (CHR ''.'') a)) (map version_component (split_on (CHR ''.'') b))"

definition user_routes_present :: "net_conf \<Rightarrow> bool" where
  "user_routes_present conf \<longleftrightarrow>
     map_of (nc_delegate conf) ''routes'' \<noteq> None \<or>
     (case map_of (nc_delegate conf) ''ipam'' of Some (JObject ipam) \<Rightarrow> map_of ipam ''routes'' \<noteq> None | _ \<Rightarrow> False)"

definition subnet_range :: "string \<Rightarrow> json" where
  "subnet_range s = JArray [JObject [(''subnet'', JString s)]]"

definition default_route :: "string \<Rightarrow> json" where
  "default_route dst = JObject [(''dst'', JString dst)]"

definition ipam_base :: "net_conf \<Rightarrow> (string \<times> json) list" where
  "ipam_base conf =
     (let m = [(''type'', JString DEFAULT_DELEGATE_IPAM_TYPE)] in
      case map_of (nc_delegate conf) ''ipam'' of Some (JObject user) \<Rightarrow> obj_extend m user | _ \<Rightarrow> m)"

definition ipam_ranges :: "net_conf \<Rightarrow> flannel_subnet_env \<Rightarrow> (string \<times> json) list \<Rightarrow> string + (string \<times> json) list" where
  "ipam_ranges conf env ipam =
     (if version_at_least (nc_cni_version conf) ''0.3.0'' then
        Inr (obj_insert ''ranges'' (JArray (
          (case fe_subnet env of Some n \<Rightarrow> [subnet_range (n4_to_string n)] | None \<Rightarrow> []) @
          (case fe_ipv6_subnet env of Some n \<Rightarrow> [subnet_range (n6_to_string n)] | None \<Rightarrow> []))) ipam)
      else case fe_subnet env of
          Some n \<Rightarrow> Inr (obj_insert ''subnet'' (JString (n4_to_string n)) ipam)
        | None \<Rightarrow> Inl (''IPv6 subnets are not supported for cniVersion '' @ nc_cni_version conf))"

definition ipam_routes :: "net_conf \<Rightarrow> flannel_subnet_env \<Rightarrow> (string \<times> json) list \<Rightarrow> (string \<times> json) list" where
  "ipam_routes conf env ipam =
     (if user_routes_present conf then ipam
      else obj_insert ''routes'' (JArray (
        (if fe_subnet env \<noteq> None then [default_route ''0.0.0.0/0''] else []) @
        (if fe_ipv6_subnet env \<noteq> None then [default_route ''::/0''] else []))) ipam)"

definition build_ipam :: "net_conf \<Rightarrow> flannel_subnet_env \<Rightarrow> string + json" where
  "build_ipam conf env =
     rbind (ipam_ranges conf env (ipam_base conf)) (\<lambda>ipam. Inr (JObject (ipam_routes conf env ipam)))"

definition delegate_base :: "net_conf \<Rightarrow> (string \<times> json) list" where
  "delegate_base conf =
     obj_extend (obj_insert ''type'' (JString DEFAULT_DELEGATE_TYPE)
       (obj_insert ''name'' (JString (nc_name conf)) (obj_insert ''cniVersion'' (JString (nc_cni_version conf)) [])))
       (nc_delegate conf)"

definition build_delegate_conf :: "net_conf \<Rightarrow> flannel_subnet_env \<Rightarrow> string + json" where
  "build_delegate_conf conf env =
     (if fe_subnet env = None \<and> fe_ipv6_subnet env = None
      then Inl ''no subnet found in subnet.env (need FLANNEL_SUBNET or FLANNEL_IPV6_SUBNET)''
      else
        let d0 = delegate_base conf;
            d1 = (if map_of d0 ''type'' = Some (JString DEFAULT_DELEGATE_TYPE) \<and> map_of d0 ''isGateway'' = None
                  then obj_insert ''isGateway'' (JBool True) d0 else d0);
            d2 = obj_insert ''ipMasq'' (JBool False) d1;
            d3 = (case fe_mtu env of Some m \<Rightarrow> obj_insert ''mtu'' (JPos (unat m)) d2 | None \<Rightarrow> d2)
        in rbind (build_ipam conf env) (\<lambda>ipam. Inr (JObject (obj_insert ''ipam'' ipam d3))))"

definition minimal_delegate_conf :: "net_conf \<Rightarrow> json" where
  "minimal_delegate_conf conf = JObject (delegate_base conf)"

section \<open>The delegate plugin\<close>

record cni_args =
  ca_command :: string
  ca_container_id :: string
  ca_netns :: string
  ca_if_name :: string
  ca_args :: string
  ca_path :: string

record cni_output =
  out_success :: bool
  out_status :: string
  out_stdout :: string
  out_stderr :: string

definition find_plugin :: "(string \<Rightarrow> bool) \<Rightarrow> string \<Rightarrow> json option \<Rightarrow> string + string" where
  "find_plugin is_file path plugin_type =
     (case plugin_type of
        Some (JString name) \<Rightarrow>
          if name = [] then Inl ''delegate config has an empty 'type' field''
          else (case find is_file (map (\<lambda>dir. path_join dir name) (filter (\<lambda>dir. dir \<noteq> []) (split_on (CHR '':'') path))) of
              Some p \<Rightarrow> Inr p
            | None \<Rightarrow> Inl (''failed to find plugin '' @ name @ '' in CNI_PATH '' @ path))
      | _ \<Rightarrow> Inl ''delegate config has no string 'type' field'')"

type_synonym runner = "string \<Rightarrow> string \<Rightarrow> cni_args \<Rightarrow> json \<Rightarrow> string + cni_output"

definition json_int :: "json \<Rightarrow> int option" where
  "json_int v = (case v of JPos n \<Rightarrow> if n < 2 ^ 63 then Some (int n) else None | JNeg i \<Rightarrow> Some i | _ \<Rightarrow> None)"

definition cni_error_of :: "json \<Rightarrow> (int \<times> string) option" where
  "cni_error_of v =
     (case v of
        JObject ms \<Rightarrow>
          (case (Option.bind (map_of ms ''code'') json_int, map_of ms ''msg'') of
             (Some code, Some (JString msg)) \<Rightarrow> Some (code, msg)
           | _ \<Rightarrow> None)
      | _ \<Rightarrow> None)"

definition delegate_error :: "(string \<Rightarrow> string + json) \<Rightarrow> string \<Rightarrow> string \<Rightarrow> cni_output \<Rightarrow> string" where
  "delegate_error parse op plugin out =
     (case (case parse (out_stdout out) of Inr v \<Rightarrow> cni_error_of v | Inl _ \<Rightarrow> None) of
        Some (code, msg) \<Rightarrow>
          ''delegate '' @ op @ '' via '' @ plugin @ '' failed: code '' @ show_int code @ '': '' @ msg @ '' (stderr: '' @
          trim (out_stderr out) @ '')''
      | None \<Rightarrow>
          ''delegate '' @ op @ '' via '' @ plugin @ '' exited with '' @ out_status out @ '': stdout: '' @ trim (out_stdout out) @
          ''; stderr: '' @ trim (out_stderr out))"

definition delegate_add ::
  "(string \<Rightarrow> string + json) \<Rightarrow> runner \<Rightarrow> json \<Rightarrow> string \<Rightarrow> cni_args \<Rightarrow> string + json" where
  "delegate_add parse run conf plugin args =
     rbind (run plugin ''ADD'' args conf) (\<lambda>out.
     if \<not> out_success out then Inl (delegate_error parse ''ADD'' plugin out)
     else case parse (out_stdout out) of
         Inl _ \<Rightarrow> Inl (plugin @ '': unparseable ADD result: '' @ out_stdout out)
       | Inr v \<Rightarrow> Inr v)"

definition delegate_run ::
  "(string \<Rightarrow> string + json) \<Rightarrow> runner \<Rightarrow> string \<Rightarrow> json \<Rightarrow> string \<Rightarrow> cni_args \<Rightarrow> string + unit" where
  "delegate_run parse run op conf plugin args =
     rbind (run plugin op args conf) (\<lambda>out.
     if out_success out then Inr () else Inl (delegate_error parse op plugin out))"

definition delegate_del ::
  "(string \<Rightarrow> string + json) \<Rightarrow> runner \<Rightarrow> json \<Rightarrow> string \<Rightarrow> cni_args \<Rightarrow> string + unit" where
  "delegate_del parse run conf plugin args = delegate_run parse run ''DEL'' conf plugin args"

definition delegate_check ::
  "(string \<Rightarrow> string + json) \<Rightarrow> runner \<Rightarrow> json \<Rightarrow> string \<Rightarrow> cni_args \<Rightarrow> string + unit" where
  "delegate_check parse run conf plugin args = delegate_run parse run ''CHECK'' conf plugin args"

section \<open>Masquerade rules\<close>

definition CHAIN :: string where "CHAIN = ''FLANNEL-POSTRTG-CHAIN-01''"

definition COMMENT :: string where "COMMENT = ''flannel masq''"

text \<open>One run of \<open>iptables\<close> or \<open>ip6tables\<close>: the program, its arguments, the state it changes, and the error
  text when it fails.\<close>

type_synonym 's exec = "string \<Rightarrow> string list \<Rightarrow> 's \<Rightarrow> 's \<times> string option"

definition ensure_chain :: "'s exec \<Rightarrow> string \<Rightarrow> 's \<Rightarrow> 's \<times> string option" where
  "ensure_chain exec binary s =
     (case exec binary [''-t'', ''nat'', ''-N'', CHAIN] s of
        (s1, None) \<Rightarrow> (s1, None)
      | (s1, Some e) \<Rightarrow> (s1, if contains_text ''Chain already exists'' e then None else Some e))"

definition ensure_masq_rule :: "'s exec \<Rightarrow> string \<Rightarrow> string list \<Rightarrow> 's \<Rightarrow> 's \<times> string option" where
  "ensure_masq_rule exec binary match_spec s =
     (let rule = match_spec @ [''-m'', ''comment'', ''--comment'', COMMENT, ''-j'', ''MASQUERADE''] in
      case exec binary ([''-t'', ''nat'', ''-C'', CHAIN] @ rule) s of
        (s1, None) \<Rightarrow> (s1, None)
      | (s1, Some _) \<Rightarrow>
          (case exec binary ([''-t'', ''nat'', ''-A'', CHAIN] @ rule) s1 of
             (s2, None) \<Rightarrow> (s2, None)
           | (s2, Some _) \<Rightarrow> (s2, Some (binary @ '': failed to append rule to '' @ CHAIN))))"

definition jump_rule :: "string list" where
  "jump_rule = [''-m'', ''comment'', ''--comment'', COMMENT, ''-j'', CHAIN]"

definition ensure_jump :: "'s exec \<Rightarrow> string \<Rightarrow> 's \<Rightarrow> 's \<times> string option" where
  "ensure_jump exec binary s =
     (case exec binary ([''-t'', ''nat'', ''-C'', ''POSTROUTING''] @ jump_rule) s of
        (s1, None) \<Rightarrow> (s1, None)
      | (s1, Some _) \<Rightarrow>
          (case exec binary ([''-t'', ''nat'', ''-I'', ''POSTROUTING'', ''1''] @ jump_rule) s1 of
             (s2, None) \<Rightarrow> (s2, None)
           | (s2, Some _) \<Rightarrow> (s2, Some (binary @ '': failed to insert POSTROUTING jump to '' @ CHAIN))))"

text \<open>Steps in order, up to the first that fails.\<close>

definition and_then :: "('s \<Rightarrow> 's \<times> 'e option) \<Rightarrow> ('s \<Rightarrow> 's \<times> 'e option) \<Rightarrow> 's \<Rightarrow> 's \<times> 'e option" where
  "and_then f g s = (case f s of (s1, Some e) \<Rightarrow> (s1, Some e) | (s1, None) \<Rightarrow> g s1)"

definition masq_family :: "'s exec \<Rightarrow> string \<Rightarrow> string \<Rightarrow> string \<Rightarrow> 's \<Rightarrow> 's \<times> string option" where
  "masq_family exec binary network subnet =
     and_then (ensure_chain exec binary) (and_then (ensure_jump exec binary)
       (and_then (ensure_masq_rule exec binary [''-s'', subnet, ''!'', ''-d'', network])
         (ensure_masq_rule exec binary [''!'', ''-s'', subnet, ''-d'', network])))"

definition ip_masq_config :: "'s exec \<Rightarrow> flannel_subnet_env \<Rightarrow> 's \<Rightarrow> 's \<times> string option" where
  "ip_masq_config exec env =
     and_then
       (case (fe_network env, fe_subnet env) of
          (Some net, Some sn) \<Rightarrow> masq_family exec ''iptables'' (n4_to_string net) (n4_to_string sn)
        | _ \<Rightarrow> (\<lambda>s. (s, None)))
       (case (fe_ipv6_network env, fe_ipv6_subnet env) of
          (Some net, Some sn) \<Rightarrow> masq_family exec ''ip6tables'' (n6_to_string net) (n6_to_string sn)
        | _ \<Rightarrow> (\<lambda>s. (s, None)))"

section \<open>Commands\<close>

text \<open>The environment of the plugin: the parser, the file \<open>subnet.env\<close> as read, the plugins on disk, the
  delegate processes, the iptables programs.\<close>

record 's cni_env =
  ce_parse :: "string \<Rightarrow> string + json"
  ce_type_error :: type_error
  ce_subnet_env :: "string + string"
  ce_is_file :: "string \<Rightarrow> bool"
  ce_run :: runner
  ce_exec :: "'s exec"

definition load_flannel_subnet_env :: "'s cni_env \<Rightarrow> string + flannel_subnet_env" where
  "load_flannel_subnet_env ce = rbind (ce_subnet_env ce) parse_subnet_env"

definition conf_type :: "json \<Rightarrow> json option" where
  "conf_type conf = (case conf of JObject ms \<Rightarrow> map_of ms ''type'' | _ \<Rightarrow> None)"

definition load_conf :: "'s cni_env \<Rightarrow> string \<Rightarrow> string + net_conf" where
  "load_conf ce bytes = load_flannel_net_conf (ce_parse ce) (ce_type_error ce) bytes"

definition cmd_add :: "'s cni_env \<Rightarrow> cni_args \<Rightarrow> string \<Rightarrow> 's \<Rightarrow> 's \<times> (string + json)" where
  "cmd_add ce args bytes s =
     (case rbind (load_conf ce bytes) (\<lambda>conf.
           rbind (load_flannel_subnet_env ce) (\<lambda>env.
           rbind (build_delegate_conf conf env) (\<lambda>delegate_conf.
           rbind (find_plugin (ce_is_file ce) (ca_path args) (conf_type delegate_conf)) (\<lambda>plugin.
           rbind (delegate_add (ce_parse ce) (ce_run ce) delegate_conf plugin args) (\<lambda>result.
           Inr (env, result)))))) of
        Inl e \<Rightarrow> (s, Inl e)
      | Inr (env, result) \<Rightarrow>
          if fe_ipmasq env then
            (case ip_masq_config (ce_exec ce) env s of (s1, Some e) \<Rightarrow> (s1, Inl e) | (s1, None) \<Rightarrow> (s1, Inr result))
          else (s, Inr result))"

definition del_conf :: "'s cni_env \<Rightarrow> net_conf \<Rightarrow> json" where
  "del_conf ce conf =
     (case rbind (load_flannel_subnet_env ce) (build_delegate_conf conf) of
        Inr delegate_conf \<Rightarrow> delegate_conf
      | Inl _ \<Rightarrow> minimal_delegate_conf conf)"

definition cmd_del :: "'s cni_env \<Rightarrow> cni_args \<Rightarrow> string \<Rightarrow> string + unit" where
  "cmd_del ce args bytes =
     rbind (load_conf ce bytes) (\<lambda>conf.
     rbind (find_plugin (ce_is_file ce) (ca_path args) (conf_type (del_conf ce conf))) (\<lambda>plugin.
     case delegate_del (ce_parse ce) (ce_run ce) (del_conf ce conf) plugin args of Inr _ \<Rightarrow> Inr () | Inl _ \<Rightarrow> Inr ()))"

definition cmd_check :: "'s cni_env \<Rightarrow> cni_args \<Rightarrow> string \<Rightarrow> string + unit" where
  "cmd_check ce args bytes =
     rbind (load_conf ce bytes) (\<lambda>conf.
     rbind (load_flannel_subnet_env ce) (\<lambda>env.
     rbind (build_delegate_conf conf env) (\<lambda>delegate_conf.
     rbind (find_plugin (ce_is_file ce) (ca_path args) (conf_type delegate_conf)) (\<lambda>plugin.
     delegate_check (ce_parse ce) (ce_run ce) delegate_conf plugin args))))"

definition SUPPORTED_VERSIONS :: "string list" where
  "SUPPORTED_VERSIONS = [''0.1.0'', ''0.2.0'', ''0.3.0'', ''0.3.1'', ''0.4.0'', ''1.0.0'']"

definition conf_version :: "'s cni_env \<Rightarrow> string \<Rightarrow> string" where
  "conf_version ce bytes = (case load_conf ce bytes of Inr conf \<Rightarrow> nc_cni_version conf | Inl _ \<Rightarrow> ''1.0.0'')"

definition cmd_version :: "'s cni_env \<Rightarrow> string \<Rightarrow> json" where
  "cmd_version ce bytes =
     JObject [(''cniVersion'', JString (conf_version ce bytes)), (''supportedVersions'', JArray (map JString SUPPORTED_VERSIONS))]"

section \<open>Arguments and dispatch\<close>

definition args_from :: "(string \<Rightarrow> string option) \<Rightarrow> string + cni_args" where
  "args_from lookup =
     (let get = (\<lambda>k. case lookup k of Some v \<Rightarrow> v | None \<Rightarrow> []) in
      case lookup ''CNI_COMMAND'' of
        Some (c # cs) \<Rightarrow>
          Inr \<lparr>ca_command = c # cs, ca_container_id = get ''CNI_CONTAINERID'', ca_netns = get ''CNI_NETNS'',
            ca_if_name = get ''CNI_IFNAME'', ca_args = get ''CNI_ARGS'', ca_path = get ''CNI_PATH''\<rparr>
      | _ \<Rightarrow> Inl ''CNI_COMMAND env var missing'')"

definition error_json :: "string \<Rightarrow> int \<Rightarrow> string \<Rightarrow> json" where
  "error_json version code msg =
     JObject [(''cniVersion'', JString version), (''code'', if code < 0 then JNeg code else JPos (nat code)),
       (''details'', JString []), (''msg'', JString msg)]"

text \<open>What is printed and the exit code. DEL and CHECK print nothing when they succeed.\<close>

definition dispatch_fail :: "'s cni_env \<Rightarrow> string \<Rightarrow> string \<Rightarrow> json option \<times> int" where
  "dispatch_fail ce bytes e = (Some (error_json (conf_version ce bytes) 100 e), 1)"

definition cni_dispatch :: "'s cni_env \<Rightarrow> cni_args \<Rightarrow> string \<Rightarrow> 's \<Rightarrow> 's \<times> json option \<times> int" where
  "cni_dispatch ce args bytes s =
     (case (if ca_command args = ''VERSION'' then None
            else case load_conf ce bytes of Inl e \<Rightarrow> Some e | Inr _ \<Rightarrow> None) of
        Some e \<Rightarrow> (s, Some (error_json ''1.0.0'' 1 (''invalid flannel netconf: '' @ e)), 1)
      | None \<Rightarrow>
          if ca_command args = ''ADD'' then
            (case cmd_add ce args bytes s of
               (s1, Inr result) \<Rightarrow> (s1, Some result, 0)
             | (s1, Inl e) \<Rightarrow> (s1, dispatch_fail ce bytes e))
          else if ca_command args = ''DEL'' then
            (s, case cmd_del ce args bytes of Inr _ \<Rightarrow> (None, 0) | Inl e \<Rightarrow> dispatch_fail ce bytes e)
          else if ca_command args = ''CHECK'' then
            (s, case cmd_check ce args bytes of Inr _ \<Rightarrow> (None, 0) | Inl e \<Rightarrow> dispatch_fail ce bytes e)
          else if ca_command args = ''VERSION'' then (s, Some (cmd_version ce bytes), 0)
          else (s, Some (error_json (conf_version ce bytes) 4 (''unknown CNI_COMMAND '' @ ca_command args)), 1))"

section \<open>The delegate configuration\<close>

lemma map_of_obj_insert [simp]: "map_of (obj_insert k v m) = (map_of m)(k \<mapsto> v)"
  by (induction k v m rule: obj_insert.induct) (auto simp: fun_upd_twist)

lemma map_of_obj_extend: "map_of (obj_extend m user) = map_of m ++ map_of (rev user)"
proof (induction user arbitrary: m)
  case (Cons p user)
  have "map_of (obj_extend m (p # user)) = (map_of m)(fst p \<mapsto> snd p) ++ map_of (rev user)"
    using Cons [of "obj_insert (fst p) (snd p) m"]
    unfolding obj_extend_def foldl_Cons map_of_obj_insert by (simp only: case_prod_beta)
  also have "\<dots> = map_of m ++ map_of (rev user @ [p])"
    by (cases p) (auto simp: map_add_def fun_eq_iff split: option.splits)
  finally show ?case by simp
qed (simp add: obj_extend_def)

lemma map_of_user:
  "distinct (map fst user) \<Longrightarrow> map_of user k = Some v \<Longrightarrow> map_of (obj_extend m user) k = Some v"
proof -
  assume d: "distinct (map fst user)" "map_of user k = Some v"
  then have "(k, v) \<in> set (rev user)" by (auto dest: map_of_SomeD)
  moreover have "distinct (map fst (rev user))" using d(1) by (simp add: rev_map [symmetric])
  ultimately have "map_of (rev user) k = Some v" by (simp add: map_of_is_SomeI)
  then show ?thesis by (simp add: map_of_obj_extend)
qed

definition pod_ranges :: "flannel_subnet_env \<Rightarrow> json" where
  "pod_ranges env = JArray (
     (case fe_subnet env of Some n \<Rightarrow> [subnet_range (n4_to_string n)] | None \<Rightarrow> []) @
     (case fe_ipv6_subnet env of Some n \<Rightarrow> [subnet_range (n6_to_string n)] | None \<Rightarrow> []))"

lemma build_ipam_ranges:
  assumes "build_ipam conf env = Inr j" "version_at_least (nc_cni_version conf) ''0.3.0''"
  shows "\<exists>ipam. j = JObject ipam \<and> map_of ipam ''ranges'' = Some (pod_ranges env)"
  using assms by (auto simp: build_ipam_def ipam_ranges_def ipam_routes_def pod_ranges_def)

text \<open>C18. The configuration handed to the delegate. Whenever \<open>build_delegate_conf\<close> succeeds, masquerading by
  the delegate is off, the MTU is the one flanneld wrote, the address ranges are exactly the leased subnets of
  this node (for plugins from version 0.3.0), and every other key the user set keeps the user's value. It
  fails when the file names no subnet at all.\<close>

theorem delegate_conf_forced:
  assumes user: "distinct (map fst (nc_delegate conf))"
    and ver: "version_at_least (nc_cni_version conf) ''0.3.0''"
    and some: "fe_subnet env \<noteq> None \<or> fe_ipv6_subnet env \<noteq> None"
  shows "\<exists>m ipam. build_delegate_conf conf env = Inr (JObject m) \<and>
    map_of m ''ipMasq'' = Some (JBool False) \<and>
    (\<forall>mtu. fe_mtu env = Some mtu \<longrightarrow> map_of m ''mtu'' = Some (JPos (unat mtu))) \<and>
    map_of m ''ipam'' = Some (JObject ipam) \<and> map_of ipam ''ranges'' = Some (pod_ranges env) \<and>
    (\<forall>k v. map_of (nc_delegate conf) k = Some v \<and> k \<notin> {''ipMasq'', ''ipam''} \<and> (k = ''mtu'' \<longrightarrow> fe_mtu env = None) \<longrightarrow>
       map_of m k = Some v)"
proof -
  have "\<exists>j. build_ipam conf env = Inr j" using ver by (simp add: build_ipam_def ipam_ranges_def)
  then obtain j where j: "build_ipam conf env = Inr j" ..
  from build_ipam_ranges [OF j ver] obtain ipam where ipam: "j = JObject ipam" "map_of ipam ''ranges'' = Some (pod_ranges env)"
    by blast
  define d1 where "d1 = (if map_of (delegate_base conf) ''type'' = Some (JString DEFAULT_DELEGATE_TYPE) \<and>
    map_of (delegate_base conf) ''isGateway'' = None then obj_insert ''isGateway'' (JBool True) (delegate_base conf) else delegate_base conf)"
  define m where "m = obj_insert ''ipam'' j (case fe_mtu env of
      Some m \<Rightarrow> obj_insert ''mtu'' (JPos (unat m)) (obj_insert ''ipMasq'' (JBool False) d1)
    | None \<Rightarrow> obj_insert ''ipMasq'' (JBool False) d1)"
  have run: "build_delegate_conf conf env = Inr (JObject m)"
    using some unfolding m_def d1_def build_delegate_conf_def Let_def j by (auto split: option.split)
  have base: "map_of d1 k = Some v" if "map_of (nc_delegate conf) k = Some v" for k v
    using map_of_user [OF user that] by (auto simp: d1_def delegate_base_def)
  have "map_of m ''ipMasq'' = Some (JBool False)" "\<forall>mtu. fe_mtu env = Some mtu \<longrightarrow> map_of m ''mtu'' = Some (JPos (unat mtu))"
    "map_of m ''ipam'' = Some (JObject ipam)"
    by (simp_all add: m_def ipam(1) split: option.splits)
  moreover have "map_of m k = Some v"
    if "map_of (nc_delegate conf) k = Some v" "k \<notin> {''ipMasq'', ''ipam''}" "k = ''mtu'' \<longrightarrow> fe_mtu env = None" for k v
    using base [OF that(1)] that(2,3) by (simp add: m_def split: option.splits)
  ultimately show ?thesis using run ipam(2) by blast
qed

text \<open>Removing a pod's network never fails for want of state: once the network configuration parses and the
  delegate plugin is found, DEL exits with 0 and prints nothing, whether or not \<open>subnet.env\<close> can be read or
  parsed and whatever the delegate answers; the masquerade rules stay as they are.\<close>

theorem cni_del_succeeds:
  assumes "load_conf ce bytes = Inr conf"
    and "find_plugin (ce_is_file ce) (ca_path args) (conf_type (del_conf ce conf)) = Inr plugin"
    and "ca_command args = ''DEL''"
  shows "cni_dispatch ce args bytes s = (s, None, 0)"
  using assms by (simp add: cni_dispatch_def cmd_del_def split: sum.splits)

section \<open>Masquerading\<close>

text \<open>What iptables does with the requests made here: the nat table of a program as lists of rules by chain.\<close>

type_synonym nat_table = "string \<times> string \<rightharpoonup> string list list"

definition ipt_ok :: "'s exec \<Rightarrow> ('s \<Rightarrow> nat_table) \<Rightarrow> bool" where
  "ipt_ok exec tab \<longleftrightarrow>
     (\<forall>b c s. tab s (b, c) = None \<longrightarrow>
        snd (exec b [''-t'', ''nat'', ''-N'', c] s) = None \<and>
        tab (fst (exec b [''-t'', ''nat'', ''-N'', c] s)) = (tab s)((b, c) \<mapsto> [])) \<and>
     (\<forall>b c s. tab s (b, c) \<noteq> None \<longrightarrow>
        (\<exists>e. snd (exec b [''-t'', ''nat'', ''-N'', c] s) = Some e \<and> contains_text ''Chain already exists'' e) \<and>
        tab (fst (exec b [''-t'', ''nat'', ''-N'', c] s)) = tab s) \<and>
     (\<forall>b c r s rs. tab s (b, c) = Some rs \<longrightarrow>
        (snd (exec b ([''-t'', ''nat'', ''-C'', c] @ r) s) = None \<longleftrightarrow> r \<in> set rs) \<and>
        tab (fst (exec b ([''-t'', ''nat'', ''-C'', c] @ r) s)) = tab s) \<and>
     (\<forall>b c r s rs. tab s (b, c) = Some rs \<longrightarrow>
        snd (exec b ([''-t'', ''nat'', ''-A'', c] @ r) s) = None \<and>
        tab (fst (exec b ([''-t'', ''nat'', ''-A'', c] @ r) s)) = (tab s)((b, c) \<mapsto> rs @ [r])) \<and>
     (\<forall>b c r s rs. tab s (b, c) = Some rs \<longrightarrow>
        snd (exec b ([''-t'', ''nat'', ''-I'', c, ''1''] @ r) s) = None \<and>
        tab (fst (exec b ([''-t'', ''nat'', ''-I'', c, ''1''] @ r) s)) = (tab s)((b, c) \<mapsto> r # rs))"

text \<open>Put a rule into a chain unless it is there.\<close>

definition put_last :: "string \<times> string \<Rightarrow> string list \<Rightarrow> nat_table \<Rightarrow> nat_table" where
  "put_last k r t = (case t k of Some rs \<Rightarrow> if r \<in> set rs then t else t(k \<mapsto> rs @ [r]) | None \<Rightarrow> t)"

definition put_first :: "string \<times> string \<Rightarrow> string list \<Rightarrow> nat_table \<Rightarrow> nat_table" where
  "put_first k r t = (case t k of Some rs \<Rightarrow> if r \<in> set rs then t else t(k \<mapsto> r # rs) | None \<Rightarrow> t)"

definition put_chain :: "string \<times> string \<Rightarrow> nat_table \<Rightarrow> nat_table" where
  "put_chain k t = (if t k = None then t(k \<mapsto> []) else t)"

abbreviation masq_rule :: "string list \<Rightarrow> string list" where
  "masq_rule ms \<equiv> ms @ [''-m'', ''comment'', ''--comment'', COMMENT, ''-j'', ''MASQUERADE'']"

lemma ipt_new:
  "ipt_ok exec tab \<Longrightarrow> tab s (b, c) = None \<Longrightarrow>
    snd (exec b [''-t'', ''nat'', ''-N'', c] s) = None \<and>
    tab (fst (exec b [''-t'', ''nat'', ''-N'', c] s)) = (tab s)((b, c) \<mapsto> [])"
  unfolding ipt_ok_def by (elim conjE) blast

lemma ipt_new_exists:
  "ipt_ok exec tab \<Longrightarrow> tab s (b, c) \<noteq> None \<Longrightarrow>
    (\<exists>e. snd (exec b [''-t'', ''nat'', ''-N'', c] s) = Some e \<and> contains_text ''Chain already exists'' e) \<and>
    tab (fst (exec b [''-t'', ''nat'', ''-N'', c] s)) = tab s"
  unfolding ipt_ok_def by (elim conjE) blast

lemma ipt_check:
  "ipt_ok exec tab \<Longrightarrow> tab s (b, c) = Some rs \<Longrightarrow>
    (snd (exec b ([''-t'', ''nat'', ''-C'', c] @ r) s) = None \<longleftrightarrow> r \<in> set rs) \<and>
    tab (fst (exec b ([''-t'', ''nat'', ''-C'', c] @ r) s)) = tab s"
  unfolding ipt_ok_def by (elim conjE) blast

lemma ipt_append:
  "ipt_ok exec tab \<Longrightarrow> tab s (b, c) = Some rs \<Longrightarrow>
    snd (exec b ([''-t'', ''nat'', ''-A'', c] @ r) s) = None \<and>
    tab (fst (exec b ([''-t'', ''nat'', ''-A'', c] @ r) s)) = (tab s)((b, c) \<mapsto> rs @ [r])"
  unfolding ipt_ok_def by (elim conjE) blast

lemma ipt_insert:
  "ipt_ok exec tab \<Longrightarrow> tab s (b, c) = Some rs \<Longrightarrow>
    snd (exec b ([''-t'', ''nat'', ''-I'', c, ''1''] @ r) s) = None \<and>
    tab (fst (exec b ([''-t'', ''nat'', ''-I'', c, ''1''] @ r) s)) = (tab s)((b, c) \<mapsto> r # rs)"
  by (simp add: ipt_ok_def del: append_Cons)

lemma ensure_chain_ok:
  assumes "ipt_ok exec tab"
  shows "\<exists>s1. ensure_chain exec b s = (s1, None) \<and> tab s1 = put_chain (b, CHAIN) (tab s)"
proof (cases "tab s (b, CHAIN)")
  case None
  from ipt_new [OF assms this] show ?thesis
    using None by (auto simp: ensure_chain_def put_chain_def split: prod.split)
next
  case (Some rs)
  then have "tab s (b, CHAIN) \<noteq> None" by simp
  from ipt_new_exists [OF assms this] show ?thesis
    using Some by (auto simp: ensure_chain_def put_chain_def simp del: contains_text.simps split: prod.split)
qed

lemma ensure_jump_ok:
  assumes "ipt_ok exec tab" "tab s (b, ''POSTROUTING'') = Some rs"
  shows "\<exists>s1. ensure_jump exec b s = (s1, None) \<and> tab s1 = put_first (b, ''POSTROUTING'') jump_rule (tab s)"
proof -
  obtain s1 o1 where 1: "exec b ([''-t'', ''nat'', ''-C'', ''POSTROUTING''] @ jump_rule) s = (s1, o1)" by fastforce
  have c: "o1 = None \<longleftrightarrow> jump_rule \<in> set rs" "tab s1 = tab s"
    using ipt_check [of exec tab s b "''POSTROUTING''" rs jump_rule, OF assms] unfolding 1 fst_conv snd_conv by blast+
  obtain s2 o2 where 2: "exec b ([''-t'', ''nat'', ''-I'', ''POSTROUTING'', ''1''] @ jump_rule) s1 = (s2, o2)" by fastforce
  have "o2 = None" "tab s2 = (tab s)((b, ''POSTROUTING'') \<mapsto> jump_rule # rs)"
    using ipt_insert [of exec tab s1 b "''POSTROUTING''" rs jump_rule, OF assms(1) assms(2) [folded c(2)]] unfolding 2 c(2) fst_conv snd_conv by blast+
  with c assms(2) show ?thesis
    unfolding ensure_jump_def put_first_def 1 prod.case 2 by (cases o1) simp_all
qed

lemma ensure_masq_rule_ok:
  assumes "ipt_ok exec tab" "tab s (b, CHAIN) = Some rs"
  shows "\<exists>s1. ensure_masq_rule exec b ms s = (s1, None) \<and> tab s1 = put_last (b, CHAIN) (masq_rule ms) (tab s)"
proof -
  obtain s1 o1 where 1: "exec b ([''-t'', ''nat'', ''-C'', CHAIN] @ masq_rule ms) s = (s1, o1)" by fastforce
  have c: "o1 = None \<longleftrightarrow> masq_rule ms \<in> set rs" "tab s1 = tab s"
    using ipt_check [OF assms, of "masq_rule ms"] unfolding 1 fst_conv snd_conv by blast+
  obtain s2 o2 where 2: "exec b ([''-t'', ''nat'', ''-A'', CHAIN] @ masq_rule ms) s1 = (s2, o2)" by fastforce
  have "o2 = None" "tab s2 = (tab s)((b, CHAIN) \<mapsto> rs @ [masq_rule ms])"
    using ipt_append [OF assms(1) assms(2) [folded c(2)], of "masq_rule ms"] unfolding 2 c(2) fst_conv snd_conv by blast+
  with c assms(2) show ?thesis
    unfolding ensure_masq_rule_def put_last_def Let_def 1 prod.case 2 by (cases o1) simp_all
qed

lemma and_then_ok:
  "f s = (s1, None) \<Longrightarrow> and_then f g s = g s1"
  by (simp add: and_then_def)

text \<open>The rules of one program with the masquerading of a subnet in place.\<close>

definition masq_tab :: "string \<Rightarrow> string \<Rightarrow> string \<Rightarrow> nat_table \<Rightarrow> nat_table" where
  "masq_tab b network subnet t =
     put_last (b, CHAIN) (masq_rule [''!'', ''-s'', subnet, ''-d'', network])
       (put_last (b, CHAIN) (masq_rule [''-s'', subnet, ''!'', ''-d'', network])
         (put_first (b, ''POSTROUTING'') jump_rule (put_chain (b, CHAIN) t)))"

lemma put_dom [simp]:
  "put_last k r t k' = None \<longleftrightarrow> t k' = None"
  "put_first k r t k' = None \<longleftrightarrow> t k' = None"
  "put_chain k t k' = None \<longleftrightarrow> k' \<noteq> k \<and> t k' = None"
  by (auto simp: put_last_def put_first_def put_chain_def split: option.split)

lemma not_NoneD: "x \<noteq> None \<Longrightarrow> \<exists>y. x = Some y" by auto

lemma masq_family_ok:
  assumes ok: "ipt_ok exec tab" and post: "tab s (b, ''POSTROUTING'') \<noteq> None"
  shows "\<exists>s1. masq_family exec b network subnet s = (s1, None) \<and> tab s1 = masq_tab b network subnet (tab s)"
proof -
  from ensure_chain_ok [OF ok] obtain s1 where
    1: "ensure_chain exec b s = (s1, None)" "tab s1 = put_chain (b, CHAIN) (tab s)" by blast
  have "tab s1 (b, ''POSTROUTING'') \<noteq> None" "tab s1 (b, CHAIN) \<noteq> None" using post 1(2) by simp_all
  with ensure_jump_ok [OF ok] obtain s2 where
    2: "ensure_jump exec b s1 = (s2, None)" "tab s2 = put_first (b, ''POSTROUTING'') jump_rule (tab s1)" by blast
  have "tab s2 (b, CHAIN) \<noteq> None" using 1 2 by simp
  with ensure_masq_rule_ok [OF ok] obtain s3 where
    3: "ensure_masq_rule exec b [''-s'', subnet, ''!'', ''-d'', network] s2 = (s3, None)"
       "tab s3 = put_last (b, CHAIN) (masq_rule [''-s'', subnet, ''!'', ''-d'', network]) (tab s2)" by blast
  have "tab s3 (b, CHAIN) \<noteq> None" using 1 2 3 by simp
  with ensure_masq_rule_ok [OF ok] obtain s4 where
    4: "ensure_masq_rule exec b [''!'', ''-s'', subnet, ''-d'', network] s3 = (s4, None)"
       "tab s4 = put_last (b, CHAIN) (masq_rule [''!'', ''-s'', subnet, ''-d'', network]) (tab s3)" by blast
  show ?thesis
    using 1 2 3 4 by (simp add: masq_family_def and_then_ok masq_tab_def)
qed

lemma put_last_in: "t k = Some rs \<Longrightarrow> \<exists>rs'. put_last k r t k = Some rs' \<and> insert r (set rs) = set rs'"
  by (auto simp: put_last_def)

lemma put_first_in: "t k = Some rs \<Longrightarrow> \<exists>rs'. put_first k r t k = Some rs' \<and> insert r (set rs) = set rs'"
  by (auto simp: put_first_def)

lemma put_other [simp]:
  "k' \<noteq> k \<Longrightarrow> put_last k r t k' = t k'" "k' \<noteq> k \<Longrightarrow> put_first k r t k' = t k'" "k' \<noteq> k \<Longrightarrow> put_chain k t k' = t k'"
  by (auto simp: put_last_def put_first_def put_chain_def split: option.split)

lemma chain_not_post: "CHAIN \<noteq> ''POSTROUTING''" by (simp add: CHAIN_def)

lemma masq_tab_rules:
  assumes "t (b, ''POSTROUTING'') \<noteq> None"
  shows "\<exists>rs ps. masq_tab b network subnet t (b, CHAIN) = Some rs \<and> masq_tab b network subnet t (b, ''POSTROUTING'') = Some ps \<and>
    masq_rule [''-s'', subnet, ''!'', ''-d'', network] \<in> set rs \<and> masq_rule [''!'', ''-s'', subnet, ''-d'', network] \<in> set rs \<and>
    jump_rule \<in> set ps"
proof -
  let ?c = "put_chain (b, CHAIN) t" and ?j = "put_first (b, ''POSTROUTING'') jump_rule (put_chain (b, CHAIN) t)"
  let ?m = "put_last (b, CHAIN) (masq_rule [''-s'', subnet, ''!'', ''-d'', network]) ?j"
  have "?j (b, CHAIN) \<noteq> None" by simp
  then obtain rs where "?j (b, CHAIN) = Some rs" by blast
  from put_last_in [of ?j, OF this] obtain rs1 where
    1: "?m (b, CHAIN) = Some rs1" "masq_rule [''-s'', subnet, ''!'', ''-d'', network] \<in> set rs1" by blast
  from put_last_in [of ?m, OF 1(1)] obtain rs2 where
    2: "masq_tab b network subnet t (b, CHAIN) = Some rs2" "insert (masq_rule [''!'', ''-s'', subnet, ''-d'', network]) (set rs1) = set rs2"
    unfolding masq_tab_def by blast
  have "?c (b, ''POSTROUTING'') \<noteq> None" using assms by simp
  then obtain ps where "?c (b, ''POSTROUTING'') = Some ps" by blast
  from put_first_in [of ?c, OF this] obtain ps1 where
    3: "?j (b, ''POSTROUTING'') = Some ps1" "jump_rule \<in> set ps1" by blast
  have "masq_tab b network subnet t (b, ''POSTROUTING'') = Some ps1"
    using 3(1) chain_not_post by (simp add: masq_tab_def)
  with 1 2 3 show ?thesis by blast
qed

lemma masq_tab_same:
  assumes "t (b, CHAIN) = Some rs" "t (b, ''POSTROUTING'') = Some ps"
    and "masq_rule [''-s'', subnet, ''!'', ''-d'', network] \<in> set rs" "masq_rule [''!'', ''-s'', subnet, ''-d'', network] \<in> set rs"
    and "jump_rule \<in> set ps"
  shows "masq_tab b network subnet t = t"
proof -
  have "put_chain (b, CHAIN) t = t" "put_first (b, ''POSTROUTING'') jump_rule t = t"
    using assms by (simp_all add: put_chain_def put_first_def)
  moreover have "put_last (b, CHAIN) (masq_rule [''-s'', subnet, ''!'', ''-d'', network]) t = t"
    "put_last (b, CHAIN) (masq_rule [''!'', ''-s'', subnet, ''-d'', network]) t = t"
    using assms by (simp_all add: put_last_def)
  ultimately show ?thesis by (simp add: masq_tab_def)
qed

lemma masq_tab_idem:
  "t (b, ''POSTROUTING'') \<noteq> None \<Longrightarrow> masq_tab b network subnet (masq_tab b network subnet t) = masq_tab b network subnet t"
  using masq_tab_rules [of t b network subnet] masq_tab_same by blast

lemma masq_tab_other: "b' \<noteq> b \<Longrightarrow> masq_tab b network subnet t (b', c) = t (b', c)"
  by (simp add: masq_tab_def)

lemma masq_tab_keeps: "t k \<noteq> None \<Longrightarrow> masq_tab b network subnet t k \<noteq> None"
  by (simp add: masq_tab_def)

text \<open>One family of \<open>ip_masq_config\<close>: nothing is done unless both the network and the subnet are known.\<close>

definition masq_step :: "'s exec \<Rightarrow> string \<Rightarrow> (string \<times> string) option \<Rightarrow> 's \<Rightarrow> 's \<times> string option" where
  "masq_step exec b f = (case f of Some (net, sn) \<Rightarrow> masq_family exec b net sn | None \<Rightarrow> (\<lambda>s. (s, None)))"

definition masq_step_tab :: "string \<Rightarrow> (string \<times> string) option \<Rightarrow> nat_table \<Rightarrow> nat_table" where
  "masq_step_tab b f t = (case f of Some (net, sn) \<Rightarrow> masq_tab b net sn t | None \<Rightarrow> t)"

definition masq_v4 :: "flannel_subnet_env \<Rightarrow> (string \<times> string) option" where
  "masq_v4 env = (case (fe_network env, fe_subnet env) of
     (Some net, Some sn) \<Rightarrow> Some (n4_to_string net, n4_to_string sn) | _ \<Rightarrow> None)"

definition masq_v6 :: "flannel_subnet_env \<Rightarrow> (string \<times> string) option" where
  "masq_v6 env = (case (fe_ipv6_network env, fe_ipv6_subnet env) of
     (Some net, Some sn) \<Rightarrow> Some (n6_to_string net, n6_to_string sn) | _ \<Rightarrow> None)"

lemma ip_masq_config_steps:
  "ip_masq_config exec env =
     and_then (masq_step exec ''iptables'' (masq_v4 env)) (masq_step exec ''ip6tables'' (masq_v6 env))"
  by (simp add: ip_masq_config_def masq_step_def masq_v4_def masq_v6_def split: option.split)

lemma masq_step_ok:
  assumes "ipt_ok exec tab" "tab s (b, ''POSTROUTING'') \<noteq> None"
  shows "\<exists>s1. masq_step exec b f s = (s1, None) \<and> tab s1 = masq_step_tab b f (tab s)"
proof (cases f)
  case (Some p)
  then show ?thesis using masq_family_ok [of exec tab s b, OF assms] by (cases p) (simp add: masq_step_def masq_step_tab_def)
qed (simp add: masq_step_def masq_step_tab_def)

lemma masq_step_tab_keeps: "t k \<noteq> None \<Longrightarrow> masq_step_tab b f t k \<noteq> None"
  using masq_tab_keeps [of t k b] by (simp add: masq_step_tab_def split: option.split prod.split)

lemma masq_step_tab_other: "b' \<noteq> b \<Longrightarrow> masq_step_tab b f t (b', c) = t (b', c)"
  by (simp add: masq_step_tab_def masq_tab_other split: option.split prod.split)

lemma ip_masq_config_ok:
  assumes ok: "ipt_ok exec tab"
    and post: "tab s (''iptables'', ''POSTROUTING'') \<noteq> None" "tab s (''ip6tables'', ''POSTROUTING'') \<noteq> None"
  shows "\<exists>s1. ip_masq_config exec env s = (s1, None) \<and>
    tab s1 = masq_step_tab ''ip6tables'' (masq_v6 env) (masq_step_tab ''iptables'' (masq_v4 env) (tab s))"
proof -
  from masq_step_ok [of exec tab s "''iptables''" "masq_v4 env", OF ok post(1)] obtain s1 where
    1: "masq_step exec ''iptables'' (masq_v4 env) s = (s1, None)" "tab s1 = masq_step_tab ''iptables'' (masq_v4 env) (tab s)" by blast
  have p: "tab s1 (''ip6tables'', ''POSTROUTING'') \<noteq> None" unfolding 1(2) using post(2) by (rule masq_step_tab_keeps)
  from masq_step_ok [of exec tab s1 "''ip6tables''" "masq_v6 env", OF ok p] obtain s2 where
    2: "masq_step exec ''ip6tables'' (masq_v6 env) s1 = (s2, None)" "tab s2 = masq_step_tab ''ip6tables'' (masq_v6 env) (tab s1)" by blast
  show ?thesis
    unfolding ip_masq_config_steps and_then_ok [of "masq_step exec ''iptables'' (masq_v4 env)", OF 1(1)]
    using 2 1(2) by auto
qed

text \<open>The masquerading of a family is in place: both rules in the chain, and the jump to it.\<close>

definition masq_present :: "string \<Rightarrow> (string \<times> string) option \<Rightarrow> nat_table \<Rightarrow> bool" where
  "masq_present b f t \<longleftrightarrow>
     (case f of
        Some (network, subnet) \<Rightarrow>
          (\<exists>rs ps. t (b, CHAIN) = Some rs \<and> t (b, ''POSTROUTING'') = Some ps \<and>
             masq_rule [''-s'', subnet, ''!'', ''-d'', network] \<in> set rs \<and>
             masq_rule [''!'', ''-s'', subnet, ''-d'', network] \<in> set rs \<and> jump_rule \<in> set ps)
      | None \<Rightarrow> True)"

lemma masq_step_present: "t (b, ''POSTROUTING'') \<noteq> None \<Longrightarrow> masq_present b f (masq_step_tab b f t)"
  using masq_tab_rules [of t b] by (simp add: masq_present_def masq_step_tab_def split: option.split prod.split)

lemma masq_present_same: "masq_present b f t \<Longrightarrow> masq_step_tab b f t = t"
  using masq_tab_same [of t b] by (auto simp add: masq_present_def masq_step_tab_def split: option.splits prod.split)

lemma masq_present_other: "b' \<noteq> b \<Longrightarrow> masq_present b' f (masq_step_tab b g t) = masq_present b' f t"
  by (simp add: masq_present_def masq_step_tab_other split: option.split prod.split)

text \<open>Masquerading is idempotent. On an iptables that answers as \<open>ipt_ok\<close> says and has the built-in chain,
  \<open>ip_masq_config\<close> succeeds and leaves, for each family whose network and subnet flanneld wrote, both masquerade
  rules in the flannel chain and the jump from POSTROUTING; running it again (every pod start does) succeeds
  and leaves the tables as they are, without a second copy of any rule.\<close>

theorem ip_masq_config_idempotent:
  assumes ok: "ipt_ok exec tab"
    and post: "tab s (''iptables'', ''POSTROUTING'') \<noteq> None" "tab s (''ip6tables'', ''POSTROUTING'') \<noteq> None"
  shows "\<exists>s1 s2. ip_masq_config exec env s = (s1, None) \<and>
    masq_present ''iptables'' (masq_v4 env) (tab s1) \<and> masq_present ''ip6tables'' (masq_v6 env) (tab s1) \<and>
    ip_masq_config exec env s1 = (s2, None) \<and> tab s2 = tab s1"
proof -
  from ip_masq_config_ok [of exec tab s, OF assms] obtain s1 where
    1: "ip_masq_config exec env s = (s1, None)"
       "tab s1 = masq_step_tab ''ip6tables'' (masq_v6 env) (masq_step_tab ''iptables'' (masq_v4 env) (tab s))" by blast
  have p4: "masq_present ''iptables'' (masq_v4 env) (tab s1)"
    unfolding 1(2) using masq_step_present [of "tab s" "''iptables''", OF post(1)] by (subst masq_present_other) simp_all
  have p6: "masq_present ''ip6tables'' (masq_v6 env) (tab s1)"
    unfolding 1(2) by (rule masq_step_present, rule masq_step_tab_keeps, rule post(2))
  have "tab s1 (''iptables'', ''POSTROUTING'') \<noteq> None" "tab s1 (''ip6tables'', ''POSTROUTING'') \<noteq> None"
    unfolding 1(2) by (rule masq_step_tab_keeps, rule masq_step_tab_keeps, rule post)+
  from ip_masq_config_ok [of exec tab s1 env, OF ok this] obtain s2 where
    "ip_masq_config exec env s1 = (s2, None)" "tab s2 = tab s1"
    using masq_present_same [OF p4] masq_present_same [OF p6] by auto
  with 1(1) p4 p6 show ?thesis by blast
qed

type_synonym rule_list = "((string \<times> string) \<times> string list list) list"

definition sample_iptables :: "rule_list exec" where
  "sample_iptables b args s =
     (case args of
        _ # _ # cmd # c # r \<Rightarrow>
          (case map_of s (b, c) of
             None \<Rightarrow> if cmd = ''-N'' then (((b, c), []) # s, None) else (s, Some ''No chain/target/match by that name'')
           | Some rs \<Rightarrow>
               if cmd = ''-N'' then (s, Some ''Chain already exists'')
               else if cmd = ''-C'' then (s, if r \<in> set rs then None else Some ''Bad rule'')
               else if cmd = ''-A'' then (((b, c), rs @ [r]) # s, None)
               else (((b, c), tl r # rs) # s, None))
      | _ \<Rightarrow> (s, Some ''no command specified''))"

lemma sample_iptables_ok: "ipt_ok sample_iptables map_of"
  unfolding ipt_ok_def
proof (intro conjI allI impI)
  fix b c :: string and s :: rule_list
  assume "map_of s (b, c) \<noteq> None"
  then show "\<exists>e. snd (sample_iptables b [''-t'', ''nat'', ''-N'', c] s) = Some e \<and> contains_text ''Chain already exists'' e"
    by (auto simp: sample_iptables_def)
qed (auto simp: sample_iptables_def)

definition sample_subnet_env :: flannel_subnet_env where
  "sample_subnet_env = subnet_env_default\<lparr>fe_network := Some \<lparr>n4_ip = IP4 0x0AF40000, n4_prefix_len = 16\<rparr>,
     fe_subnet := Some \<lparr>n4_ip = IP4 0x0AF40501, n4_prefix_len = 24\<rparr>, fe_mtu := Some 1450, fe_ipmasq := True\<rparr>"

theorem ip_masq_config_idempotent_witness:
  "\<exists>s1 s2 rs. ip_masq_config sample_iptables sample_subnet_env
       [((''iptables'', ''POSTROUTING''), []), ((''ip6tables'', ''POSTROUTING''), [])] = (s1, None) \<and>
     map_of s1 (''iptables'', CHAIN) = Some rs \<and>
     masq_rule [''-s'', n4_to_string \<lparr>n4_ip = IP4 0x0AF40501, n4_prefix_len = 24\<rparr>, ''!'', ''-d'',
       n4_to_string \<lparr>n4_ip = IP4 0x0AF40000, n4_prefix_len = 16\<rparr>] \<in> set rs \<and>
     ip_masq_config sample_iptables sample_subnet_env s1 = (s2, None) \<and> map_of s2 = map_of s1"
proof -
  let ?s = "[((''iptables'', ''POSTROUTING''), []), ((''ip6tables'', ''POSTROUTING''), [])] :: rule_list"
  have "map_of ?s (''iptables'', ''POSTROUTING'') \<noteq> None" "map_of ?s (''ip6tables'', ''POSTROUTING'') \<noteq> None" by simp_all
  from ip_masq_config_idempotent [of sample_iptables map_of ?s sample_subnet_env, OF sample_iptables_ok this]
  obtain s1 s2 where run: "ip_masq_config sample_iptables sample_subnet_env ?s = (s1, None)"
      "masq_present ''iptables'' (masq_v4 sample_subnet_env) (map_of s1)"
      "ip_masq_config sample_iptables sample_subnet_env s1 = (s2, None)" "map_of s2 = map_of s1"
    by blast
  have "masq_v4 sample_subnet_env = Some (n4_to_string \<lparr>n4_ip = IP4 0x0AF40000, n4_prefix_len = 16\<rparr>,
      n4_to_string \<lparr>n4_ip = IP4 0x0AF40501, n4_prefix_len = 24\<rparr>)"
    by (simp add: masq_v4_def sample_subnet_env_def)
  with run(2) show ?thesis using run(1,3,4) unfolding masq_present_def by (simp only: option.case prod.case) blast
qed

definition sample_net_conf :: net_conf where
  "sample_net_conf = \<lparr>nc_cni_version = ''1.0.0'', nc_name = ''cbr0'', nc_plugin_type = ''flannel'',
     nc_delegate = [(''hairpinMode'', JBool True)]\<rparr>"

theorem delegate_conf_forced_witness:
  "\<exists>m. build_delegate_conf sample_net_conf sample_subnet_env = Inr (JObject m) \<and>
     map_of m ''ipMasq'' = Some (JBool False) \<and> map_of m ''mtu'' = Some (JPos 1450) \<and>
     map_of m ''hairpinMode'' = Some (JBool True)"
proof -
  have "distinct (map fst (nc_delegate sample_net_conf))" by (simp add: sample_net_conf_def)
  moreover have "version_at_least (nc_cni_version sample_net_conf) ''0.3.0''" by code_simp
  moreover have "fe_subnet sample_subnet_env \<noteq> None \<or> fe_ipv6_subnet sample_subnet_env \<noteq> None"
    by (simp add: sample_subnet_env_def)
  ultimately obtain m where run: "build_delegate_conf sample_net_conf sample_subnet_env = Inr (JObject m)"
      "map_of m ''ipMasq'' = Some (JBool False)" and
    mtu: "\<And>mtu. fe_mtu sample_subnet_env = Some mtu \<Longrightarrow> map_of m ''mtu'' = Some (JPos (unat mtu))" and
    user: "\<And>k v. map_of (nc_delegate sample_net_conf) k = Some v \<Longrightarrow> k \<notin> {''ipMasq'', ''ipam''} \<Longrightarrow>
      (k = ''mtu'' \<longrightarrow> fe_mtu sample_subnet_env = None) \<Longrightarrow> map_of m k = Some v"
    using delegate_conf_forced [of sample_net_conf sample_subnet_env] by blast
  have "map_of m ''mtu'' = Some (JPos 1450)" using mtu [of 1450] by (simp add: sample_subnet_env_def)
  moreover have "map_of m ''hairpinMode'' = Some (JBool True)"
    by (rule user) (simp_all add: sample_net_conf_def)
  ultimately show ?thesis using run by blast
qed

definition sample_cni_env :: "rule_list cni_env" where
  "sample_cni_env = \<lparr>ce_parse = (\<lambda>_. Inr (JObject [(''name'', JString ''cbr0'')])), ce_type_error = (\<lambda>what _. what),
     ce_subnet_env = Inl ''No such file or directory'', ce_is_file = (\<lambda>p. p = ''/opt/cni/bin/bridge''),
     ce_run = (\<lambda>_ _ _ _. Inl ''cannot run''), ce_exec = sample_iptables\<rparr>"

definition sample_del_args :: cni_args where
  "sample_del_args = \<lparr>ca_command = ''DEL'', ca_container_id = ''c1'', ca_netns = [], ca_if_name = ''eth0'',
     ca_args = [], ca_path = ''/opt/cni/bin''\<rparr>"

theorem cni_del_succeeds_witness: "cni_dispatch sample_cni_env sample_del_args ''{}'' [] = ([], None, 0)"
proof -
  have "load_conf sample_cni_env ''{}'' = Inr \<lparr>nc_cni_version = ''1.0.0'', nc_name = ''cbr0'', nc_plugin_type = [], nc_delegate = []\<rparr>"
    by (simp add: load_conf_def load_flannel_net_conf_def sample_cni_env_def net_conf_of_def struct_members_def NET_CONF_KEYS_def
        net_conf_fields_def de_field_def de_string_def default_cni_version_def)
  moreover have "find_plugin (ce_is_file sample_cni_env) (ca_path sample_del_args) (conf_type (del_conf sample_cni_env
      \<lparr>nc_cni_version = ''1.0.0'', nc_name = ''cbr0'', nc_plugin_type = [], nc_delegate = []\<rparr>)) = Inr ''/opt/cni/bin/bridge''"
    by code_simp
  moreover have "ca_command sample_del_args = ''DEL''" by (simp add: sample_del_args_def)
  ultimately show ?thesis by (rule cni_del_succeeds)
qed

section \<open>Objects stay well formed\<close>

text \<open>The order of \<open>serde_json::Map\<close>: every object, at any depth, has its members in strictly increasing key order.\<close>

fun json_wf :: "json \<Rightarrow> bool" where
  "json_wf (JArray vs) \<longleftrightarrow> list_all json_wf vs"
| "json_wf (JObject ms) \<longleftrightarrow> sorted_wrt str_less (map fst ms) \<and> list_all (\<lambda>(k, v). json_wf v) ms"
| "json_wf _ \<longleftrightarrow> True"

abbreviation obj_wf :: "(string \<times> json) list \<Rightarrow> bool" where
  "obj_wf ms \<equiv> json_wf (JObject ms)"

lemma set_obj_insert: "fst ` set (obj_insert k v m) = insert k (fst ` set m)"
  by (induction k v m rule: obj_insert.induct) auto

lemma obj_insert_wf [simp]: "obj_wf m \<Longrightarrow> json_wf v \<Longrightarrow> obj_wf (obj_insert k v m)"
proof (induction k v m rule: obj_insert.induct)
  case (2 k v k' v' ms)
  show ?case
  proof (cases "k = k' \<or> str_less k k'")
    case True
    with 2 show ?thesis by (auto intro: str_less_trans)
  next
    case False
    then have "str_less k' k" using str_less_total by blast
    moreover have "obj_wf (obj_insert k v ms)" using 2 False by simp
    ultimately show ?thesis
      using 2(2) False set_obj_insert [of k v ms] by auto
  qed
qed simp

lemma obj_extend_wf [simp]: "obj_wf m \<Longrightarrow> list_all (\<lambda>(k, v). json_wf v) user \<Longrightarrow> obj_wf (obj_extend m user)"
  by (induction user arbitrary: m) (auto simp: obj_extend_def simp del: json_wf.simps)

lemma obj_wf_member: "obj_wf ms \<Longrightarrow> map_of ms k = Some v \<Longrightarrow> json_wf v"
  by (fastforce dest!: map_of_SomeD simp: list_all_iff)

lemma obj_wf_members: "obj_wf ms \<Longrightarrow> list_all (\<lambda>(k, v). json_wf v) ms"
  by simp

lemma ipam_base_wf: "obj_wf (nc_delegate conf) \<Longrightarrow> obj_wf (ipam_base conf)"
  unfolding ipam_base_def Let_def
  by (auto split: option.split json.split simp del: json_wf.simps(2) intro!: obj_extend_wf obj_wf_members dest: obj_wf_member)
    simp_all

lemma ipam_parts_wf [simp]: "json_wf (subnet_range net)" "json_wf (default_route dst)"
  by (simp_all add: subnet_range_def default_route_def)

lemma build_ipam_wf:
  assumes "obj_wf (nc_delegate conf)" "build_ipam conf env = Inr j"
  shows "json_wf j"
proof -
  obtain ipam where ipam: "ipam_ranges conf env (ipam_base conf) = Inr ipam" "j = JObject (ipam_routes conf env ipam)"
    using assms(2) by (auto simp: build_ipam_def rbind_eq_Inr)
  have "obj_wf ipam"
    using ipam(1) ipam_base_wf [OF assms(1)]
    by (auto simp: ipam_ranges_def split: if_splits option.splits simp del: json_wf.simps(2))
  then show ?thesis
    unfolding ipam(2) ipam_routes_def by (auto simp del: json_wf.simps(2))
qed

lemma delegate_base_wf: "obj_wf (nc_delegate conf) \<Longrightarrow> obj_wf (delegate_base conf)"
  unfolding delegate_base_def by (intro obj_extend_wf obj_insert_wf obj_wf_members) simp_all

text \<open>The objects the plugin hands out are well formed. When the user's delegate section is an object as the
  parser builds it, the configuration for the delegate, full or minimal, has its members in strictly increasing
  key order at every depth, so no key occurs twice in what the delegate reads; so do the error and version
  reports the plugin prints.\<close>

theorem delegate_conf_wf:
  assumes "obj_wf (nc_delegate conf)"
  shows "(\<forall>j. build_delegate_conf conf env = Inr j \<longrightarrow> json_wf j) \<and> json_wf (minimal_delegate_conf conf) \<and>
    json_wf (error_json ver code msg) \<and> json_wf (cmd_version ce bytes)"
proof (intro conjI allI impI)
  fix j
  assume "build_delegate_conf conf env = Inr j"
  then obtain d ipam where "build_ipam conf env = Inr ipam" "j = JObject (obj_insert ''ipam'' ipam d)" "obj_wf d"
    using delegate_base_wf [OF assms]
    by (auto simp: build_delegate_conf_def Let_def rbind_eq_Inr split: if_splits option.splits simp del: json_wf.simps(2))
  then show "json_wf j" using build_ipam_wf [OF assms] by (auto simp del: json_wf.simps(2))
qed (use delegate_base_wf [OF assms] in \<open>simp_all add: minimal_delegate_conf_def error_json_def cmd_version_def list_all_iff del: json_wf.simps(2)\<close>, simp_all add: list_all_iff)

theorem delegate_conf_wf_witness:
  "\<exists>j. build_delegate_conf sample_net_conf sample_subnet_env = Inr j \<and> json_wf j \<and> json_wf (error_json ''1.0.0'' 100 ''x'')"
proof -
  have "obj_wf (nc_delegate sample_net_conf)" by (simp add: sample_net_conf_def)
  from delegate_conf_wf [OF this] have wf: "\<And>j. build_delegate_conf sample_net_conf sample_subnet_env = Inr j \<Longrightarrow> json_wf j"
    "json_wf (error_json ''1.0.0'' 100 ''x'')" by blast+
  have "version_at_least (nc_cni_version sample_net_conf) ''0.3.0''" by code_simp
  then have "\<exists>j. build_delegate_conf sample_net_conf sample_subnet_env = Inr j"
    by (simp add: build_delegate_conf_def build_ipam_def ipam_ranges_def sample_subnet_env_def Let_def)
  with wf show ?thesis by blast
qed

end
