(* ===== verification/Iptables.thy ===== *)
theory Iptables
  imports World Lease
begin

text \<open>
  The iptables traffic manager, \<open>trafficmngr/\<close>: the wrapper of the iptables program (\<open>ipt.rs\<close>), the payload
  of \<open>iptables-restore\<close> (\<open>iptables_restore.rs\<close>), the rules (\<open>iptables_rules.rs\<close>), bootstrap, teardown and resync
  (\<open>ip_tables.rs\<close>) and the manager (\<open>iptables.rs\<close>). The programs are run through a parameter. A failure to write
  the standard input of a program or to wait for it counts as a failure to run it.
\<close>

section \<open>The iptables program\<close>

datatype protocol = IPv4 | IPv6

definition proto_cmd :: "protocol \<Rightarrow> string" where
  "proto_cmd proto = (case proto of IPv4 \<Rightarrow> ''iptables'' | IPv6 \<Rightarrow> ''ip6tables'')"

text \<open>An error is a non-zero exit of the program with its error output, or any other failure.\<close>

datatype ipt_err = IPTablesError string | AnyErr string

definition err_text :: "ipt_err \<Rightarrow> string" where
  "err_text e = (case e of IPTablesError msg \<Rightarrow> trim_end msg | AnyErr t \<Rightarrow> t)"

definition is_not_exist :: "string \<Rightarrow> bool" where
  "is_not_exist msg \<longleftrightarrow>
     contains_text ''does a matching rule exist in that chain?'' msg \<or> contains_text ''No chain/target/match by that name'' msg"

definition is_exist :: "string \<Rightarrow> bool" where
  "is_exist msg \<longleftrightarrow> contains_text ''Chain already exists'' msg"

record iptables =
  it_path :: string
  it_has_wait :: bool
  it_has_random_fully :: bool

text \<open>The pattern \<open>v([0-9]+)\.([0-9]+)\.([0-9]+)\<close> at the start of a text, and its leftmost match.\<close>

definition digits_dot :: "string \<Rightarrow> (string \<times> string) option" where
  "digits_dot s =
     (let ds = takeWhile (is_digit 10) s in
      case dropWhile (is_digit 10) s of
        c # rest \<Rightarrow> if ds \<noteq> [] \<and> c = CHR ''.'' then Some (ds, rest) else None
      | [] \<Rightarrow> None)"

definition version_here :: "string \<Rightarrow> (string \<times> string \<times> string) option" where
  "version_here s =
     (case s of
        c # r0 \<Rightarrow>
          if c \<noteq> CHR ''v'' then None
          else (case digits_dot r0 of
              None \<Rightarrow> None
            | Some (a, r1) \<Rightarrow>
                (case digits_dot r1 of
                   None \<Rightarrow> None
                 | Some (b, r2) \<Rightarrow>
                     let d = takeWhile (is_digit 10) r2 in if d = [] then None else Some (a, b, d)))
      | [] \<Rightarrow> None)"

fun find_version :: "string \<Rightarrow> (string \<times> string \<times> string) option" where
  "find_version [] = None"
| "find_version (c # cs) = (case version_here (c # cs) of Some v \<Rightarrow> Some v | None \<Rightarrow> find_version cs)"

type_synonym version = "nat \<times> nat \<times> nat"

definition version_number :: "string \<Rightarrow> ipt_err + nat" where
  "version_number s = ok_or (AnyErr ''number too large to fit in target type'') (parse_unsigned (2 ^ 32) s)"

definition parse_version :: "string \<Rightarrow> ipt_err + version" where
  "parse_version s =
     (case find_version s of
        None \<Rightarrow> Inl (AnyErr (''no iptables version found in string: '' @ s))
      | Some (a, b, c) \<Rightarrow>
          rbind (version_number a) (\<lambda>x. rbind (version_number b) (\<lambda>y. rbind (version_number c) (\<lambda>z. Inr (x, y, z)))))"

text \<open>The order of Rust tuples.\<close>

definition version_from :: "version \<Rightarrow> version \<Rightarrow> bool" where
  "version_from v w =
     (let (a, b, c) = v; (x, y, z) = w in a > x \<or> a = x \<and> (b > y \<or> b = y \<and> c \<ge> z))"

definition has_wait_support :: "version \<Rightarrow> bool" where
  "has_wait_support v \<longleftrightarrow> version_from v (1, 6, 0)"

definition has_random_fully_support :: "version \<Rightarrow> bool" where
  "has_random_fully_support v \<longleftrightarrow> version_from v (1, 6, 2)"

definition iptables_new :: "'s system \<Rightarrow> protocol \<Rightarrow> ('s, ipt_err, iptables) step" where
  "iptables_new sys proto =
     then_do (lift_result (ok_or (AnyErr (''iptables binary was not found: '' @ proto_cmd proto)) (look_path sys (proto_cmd proto)))) (\<lambda>path.
     then_do (on_err (\<lambda>_. AnyErr (''unable to find iptables version: '' @ proto_cmd proto)) (sy_exec sys path [''--version''] [])) (\<lambda>out.
     if \<not> po_success out then
       lift_result (Inl (AnyErr (''unable to find iptables version: '' @ proto_cmd proto @ '' exited with '' @ po_status out)))
     else
       then_do (lift_result (parse_version (po_stdout out))) (\<lambda>v.
       give \<lparr>it_path = path, it_has_wait = has_wait_support v, it_has_random_fully = has_random_fully_support v\<rparr>)))"

definition wait_args :: "iptables \<Rightarrow> string list \<Rightarrow> string list" where
  "wait_args ipt args = (if it_has_wait ipt then ''-w'' # args else args)"

definition ipt_run :: "'s system \<Rightarrow> iptables \<Rightarrow> string list \<Rightarrow> ('s, ipt_err, string) step" where
  "ipt_run sys ipt args =
     then_do (on_err (\<lambda>_. AnyErr (''failed to run '' @ it_path ipt)) (sy_exec sys (it_path ipt) (wait_args ipt args) [])) (\<lambda>out.
     lift_result (if po_success out then Inr (po_stdout out) else Inl (IPTablesError (po_stderr out))))"

definition table_chain :: "string \<Rightarrow> string \<Rightarrow> string \<Rightarrow> string list" where
  "table_chain tbl flag chain = [''-t'', tbl, flag, chain]"

definition ipt_exists :: "'s system \<Rightarrow> iptables \<Rightarrow> string \<Rightarrow> string \<Rightarrow> string list \<Rightarrow> ('s, ipt_err, bool) step" where
  "ipt_exists sys ipt tbl chain rulespec s =
     (case ipt_run sys ipt (table_chain tbl ''-C'' chain @ rulespec) s of
        (s1, Inr _) \<Rightarrow> (s1, Inr True)
      | (s1, Inl (IPTablesError msg)) \<Rightarrow> (s1, if is_not_exist msg then Inr False else Inl (IPTablesError msg))
      | (s1, Inl e) \<Rightarrow> (s1, Inl e))"

definition new_chain :: "'s system \<Rightarrow> iptables \<Rightarrow> string \<Rightarrow> string \<Rightarrow> ('s, ipt_err, unit) step" where
  "new_chain sys ipt tbl chain = then_do (ipt_run sys ipt (table_chain tbl ''-N'' chain)) (\<lambda>_. give ())"

definition clear_chain :: "'s system \<Rightarrow> iptables \<Rightarrow> string \<Rightarrow> string \<Rightarrow> ('s, ipt_err, unit) step" where
  "clear_chain sys ipt tbl chain s =
     (case new_chain sys ipt tbl chain s of
        (s1, Inr _) \<Rightarrow> (s1, Inr ())
      | (s1, Inl e) \<Rightarrow>
          if (case e of IPTablesError msg \<Rightarrow> \<not> is_exist msg | AnyErr _ \<Rightarrow> True) then (s1, Inl e)
          else then_do (ipt_run sys ipt (table_chain tbl ''-F'' chain)) (\<lambda>_. give ()) s1)"

definition chain_exists :: "'s system \<Rightarrow> iptables \<Rightarrow> string \<Rightarrow> string \<Rightarrow> ('s, ipt_err, bool) step" where
  "chain_exists sys ipt tbl chain s =
     (case ipt_run sys ipt (table_chain tbl ''-nL'' chain) s of
        (s1, Inr _) \<Rightarrow> (s1, Inr True)
      | (s1, Inl (IPTablesError msg)) \<Rightarrow>
          (s1, if is_not_exist msg \<or> contains_text ''is incompatible, use 'nft' tool'' msg then Inr False else Inl (IPTablesError msg))
      | (s1, Inl e) \<Rightarrow> (s1, Inl e))"

definition ipt_delete :: "'s system \<Rightarrow> iptables \<Rightarrow> string \<Rightarrow> string \<Rightarrow> string list \<Rightarrow> ('s, ipt_err, unit) step" where
  "ipt_delete sys ipt tbl chain rulespec = then_do (ipt_run sys ipt (table_chain tbl ''-D'' chain @ rulespec)) (\<lambda>_. give ())"

definition clear_and_delete_chain :: "'s system \<Rightarrow> iptables \<Rightarrow> string \<Rightarrow> string \<Rightarrow> ('s, ipt_err, unit) step" where
  "clear_and_delete_chain sys ipt tbl chain =
     then_do (chain_exists sys ipt tbl chain) (\<lambda>there.
     if \<not> there then give ()
     else then_do (ipt_run sys ipt (table_chain tbl ''-F'' chain)) (\<lambda>_.
          then_do (ipt_run sys ipt (table_chain tbl ''-X'' chain)) (\<lambda>_. give ())))"

section \<open>The restore program\<close>

text \<open>\<open>BTreeMap<String, Vec<Vec<String>>>\<close>: the lines of each tbl, tables in key order.\<close>

type_synonym restore_rules = "(string \<times> string list list) list"

text \<open>\<open>entry(table).or_default().push(line)\<close>.\<close>

fun entry_push :: "string \<Rightarrow> string list \<Rightarrow> restore_rules \<Rightarrow> restore_rules" where
  "entry_push k l [] = [(k, [l])]"
| "entry_push k l ((k', ls) # m) =
     (if k = k' then (k, ls @ [l]) # m
      else if str_less k k' then (k, [l]) # (k', ls) # m
      else (k', ls) # entry_push k l m)"

record iptables_restore =
  ir_path :: string
  ir_has_wait :: bool

definition restore_command :: "protocol \<Rightarrow> string" where
  "restore_command proto = (case proto of IPv6 \<Rightarrow> ''ip6tables-restore'' | IPv4 \<Rightarrow> ''iptables-restore'')"

definition ip_tables_has_wait_support :: "version \<Rightarrow> bool" where
  "ip_tables_has_wait_support v \<longleftrightarrow> version_from v (1, 6, 2)"

definition show_code :: "int option \<Rightarrow> string" where
  "show_code code =
     (let i = (case code of Some i \<Rightarrow> i | None \<Rightarrow> - 1) in
      if i < 0 then ''-'' @ show_nat (nat (- i)) else show_nat (nat i))"

definition version_string :: "'s system \<Rightarrow> string \<Rightarrow> ('s, ipt_err, string) step" where
  "version_string sys path =
     then_do (on_err (\<lambda>e. AnyErr (''unable to find iptables-restore version: '' @ e)) (sy_exec sys path [''--version''] [])) (\<lambda>out.
     lift_result (if po_success out then Inr (po_stdout out)
       else Inl (AnyErr (''unable to find iptables-restore version: exit status '' @ show_code (po_code out)))))"

definition restore_new :: "'s system \<Rightarrow> protocol \<Rightarrow> ('s, ipt_err, iptables_restore) step" where
  "restore_new sys proto =
     then_do (lift_result (ok_or (AnyErr (restore_command proto @ '' binary was not found'')) (look_path sys (restore_command proto)))) (\<lambda>path.
     then_do (lift_result (ok_or (AnyErr (proto_cmd proto @ '' binary was not found'')) (look_path sys (proto_cmd proto)))) (\<lambda>ipt_path.
     then_do (version_string sys ipt_path) (\<lambda>version.
     then_do (on_err (\<lambda>_. AnyErr (''no iptables-restore version found in string: '' @ version)) (lift_result (parse_version version))) (\<lambda>v.
     give \<lparr>ir_path = path, ir_has_wait = ip_tables_has_wait_support v\<rparr>))))"

text \<open>The tokens of a line; the token after \<open>--comment\<close> is quoted.\<close>

definition quote_char :: char where "quote_char = char_of (34 :: nat)"

definition payload_token :: "bool \<Rightarrow> string \<Rightarrow> string" where
  "payload_token quoted t = (if quoted then quote_char # t @ [quote_char] else t)"

fun payload_line :: "bool \<Rightarrow> string list \<Rightarrow> string" where
  "payload_line quoted [] = []"
| "payload_line quoted [t] = payload_token quoted t @ [newline]"
| "payload_line quoted (t # u # us) = payload_token quoted t @ '' '' @ payload_line (t = ''--comment'') (u # us)"

definition build_payload :: "restore_rules \<Rightarrow> string" where
  "build_payload table_rules =
     concat (map (\<lambda>(tbl, rules).
       ''*'' @ tbl @ [newline] @ concat (map (payload_line False) rules) @ ''COMMIT'' @ [newline]) table_rules)"

definition restore_args :: "iptables_restore \<Rightarrow> string list" where
  "restore_args iptr = ''--noflush'' # (if ir_has_wait iptr then [''--wait''] else [])"

definition apply_without_flush :: "'s system \<Rightarrow> iptables_restore \<Rightarrow> restore_rules \<Rightarrow> ('s, ipt_err, unit) step" where
  "apply_without_flush sys iptr rules =
     then_do (on_err (\<lambda>_. AnyErr (''failed to run '' @ ir_path iptr))
       (sy_exec sys (ir_path iptr) (restore_args iptr) (build_payload rules))) (\<lambda>out.
     lift_result (if po_success out then Inr ()
       else Inl (AnyErr (''unable to run iptables-restore ('' @ po_stdout out @ '', '' @ po_stderr out @ ''): exit status '' @ show_code (po_code out)))))"

section \<open>Rules\<close>

record ip_tables_rule =
  rl_table :: string
  rl_action :: string
  rl_chain :: string
  rl_rulespec :: "string list"

definition KUBE_PROXY_MARK :: string where "KUBE_PROXY_MARK = ''0x4000/0x4000''"

definition commented :: "string list \<Rightarrow> string \<Rightarrow> string \<Rightarrow> string list" where
  "commented parts comment jump = parts @ [''-m'', ''comment'', ''--comment'', comment, ''-j'', jump]"

definition rule :: "string \<Rightarrow> string \<Rightarrow> string list \<Rightarrow> ip_tables_rule" where
  "rule tbl chain rulespec = \<lparr>rl_table = tbl, rl_action = ''-A'', rl_chain = chain, rl_rulespec = rulespec\<rparr>"

definition postrtg_rule :: "string list \<Rightarrow> string \<Rightarrow> ip_tables_rule" where
  "postrtg_rule parts jump = rule ''nat'' ''FLANNEL-POSTRTG'' (commented parts ''flanneld masq'' jump)"

definition add_random_fully :: "bool \<Rightarrow> ip_tables_rule \<Rightarrow> ip_tables_rule" where
  "add_random_fully random_fully r =
     (if random_fully then r\<lparr>rl_rulespec := rl_rulespec r @ [''--random-fully'']\<rparr> else r)"

definition masq_rules_with :: "string \<Rightarrow> string \<Rightarrow> string \<Rightarrow> bool \<Rightarrow> bool \<Rightarrow> ip_tables_rule list" where
  "masq_rules_with cluster_cidr pod_cidr multicast ip_masq_random_fully_disable supports =
     (let random_fully = supports \<and> \<not> ip_masq_random_fully_disable in
      [rule ''nat'' ''POSTROUTING'' (commented [] ''flanneld masq'' ''FLANNEL-POSTRTG''),
       postrtg_rule [''-m'', ''mark'', ''--mark'', KUBE_PROXY_MARK] ''RETURN'',
       postrtg_rule [''-s'', pod_cidr, ''-d'', cluster_cidr] ''RETURN'',
       postrtg_rule [''-s'', cluster_cidr, ''-d'', pod_cidr] ''RETURN'',
       postrtg_rule [''!'', ''-s'', cluster_cidr, ''-d'', pod_cidr] ''RETURN'',
       add_random_fully random_fully (postrtg_rule [''-s'', cluster_cidr, ''!'', ''-d'', multicast] ''MASQUERADE''),
       add_random_fully random_fully (postrtg_rule [''!'', ''-s'', cluster_cidr, ''-d'', cluster_cidr] ''MASQUERADE'')])"

definition forward_rules :: "string \<Rightarrow> ip_tables_rule list" where
  "forward_rules flannel_network =
     [rule ''filter'' ''FORWARD'' (commented [] ''flanneld forward'' ''FLANNEL-FWD''),
      rule ''filter'' ''FLANNEL-FWD'' (commented [''-s'', flannel_network] ''flanneld forward'' ''ACCEPT''),
      rule ''filter'' ''FLANNEL-FWD'' (commented [''-d'', flannel_network] ''flanneld forward'' ''ACCEPT'')]"

definition supports_random_fully :: "'s system \<Rightarrow> protocol \<Rightarrow> 's \<Rightarrow> 's \<times> bool" where
  "supports_random_fully sys proto s =
     (case iptables_new sys proto s of (s1, Inr ipt) \<Rightarrow> (s1, it_has_random_fully ipt) | (s1, Inl _) \<Rightarrow> (s1, False))"

definition masq_rules :: "'s system \<Rightarrow> ip4net \<Rightarrow> lease \<Rightarrow> bool \<Rightarrow> 's \<Rightarrow> 's \<times> ip_tables_rule list" where
  "masq_rules sys ccidr l disable s =
     (let (s1, supports) = supports_random_fully sys IPv4 s in
      (s1, masq_rules_with (n4_to_string ccidr) (n4_to_string (subnet l)) ''224.0.0.0/4'' disable supports))"

definition masq_ip6_rules :: "'s system \<Rightarrow> ip6net \<Rightarrow> lease \<Rightarrow> bool \<Rightarrow> 's \<Rightarrow> 's \<times> ip_tables_rule list" where
  "masq_ip6_rules sys ccidr l disable s =
     (let (s1, supports) = supports_random_fully sys IPv6 s in
      (s1, masq_rules_with (n6_to_string ccidr) (n6_to_string (ipv6_subnet l)) ''ff00::/8'' disable supports))"

section \<open>Bootstrap, teardown and resync\<close>

definition iptables_family :: "protocol \<Rightarrow> string" where
  "iptables_family proto = (case proto of IPv4 \<Rightarrow> ''IPTables'' | IPv6 \<Rightarrow> ''IP6Tables'')"

definition clean_up_chains :: "'s system \<Rightarrow> protocol \<Rightarrow> ('s, ipt_err, unit) step" where
  "clean_up_chains sys proto =
     then_do (on_err (\<lambda>e. AnyErr (''failed to setup IPTables. '' @ proto_cmd proto @ '' binary was not found: '' @ err_text e))
       (iptables_new sys proto)) (\<lambda>ipt s.
     let s1 = fst (clear_and_delete_chain sys ipt ''nat'' ''FLANNEL-POSTRTG'' s);
         s2 = fst (clear_and_delete_chain sys ipt ''nat'' ''FLANNEL-FWD'' s1)
     in (s2, Inr ()))"

definition create_chain :: "'s system \<Rightarrow> protocol \<Rightarrow> string \<Rightarrow> string \<Rightarrow> 's \<Rightarrow> 's" where
  "create_chain sys proto tbl chain s =
     fst (then_do (iptables_new sys proto) (\<lambda>ipt. clear_chain sys ipt tbl chain) s)"

definition flannel_chain :: "ip_tables_rule \<Rightarrow> string option" where
  "flannel_chain r =
     (let last_is = (\<lambda>c. rl_rulespec r \<noteq> [] \<and> last (rl_rulespec r) = c) in
      if rl_chain r = ''FLANNEL-FWD'' \<or> last_is ''FLANNEL-FWD'' then Some ''FLANNEL-FWD''
      else if rl_chain r = ''FLANNEL-POSTRTG'' \<or> last_is ''FLANNEL-POSTRTG'' then Some ''FLANNEL-POSTRTG''
      else None)"

definition check_err :: "ipt_err \<Rightarrow> ipt_err" where
  "check_err e = AnyErr (''failed to check rule existence: '' @ err_text e)"

definition flannel_chain_exists :: "'s system \<Rightarrow> iptables \<Rightarrow> ip_tables_rule \<Rightarrow> ('s, ipt_err, bool) step" where
  "flannel_chain_exists sys ipt r =
     (case flannel_chain r of
        Some chain \<Rightarrow> on_err check_err (chain_exists sys ipt (rl_table r) chain)
      | None \<Rightarrow> give True)"

abbreviation rule_exists :: "'s system \<Rightarrow> iptables \<Rightarrow> ip_tables_rule \<Rightarrow> ('s, ipt_err, bool) step" where
  "rule_exists sys ipt r \<equiv> on_err check_err (ipt_exists sys ipt (rl_table r) (rl_chain r) (rl_rulespec r))"

fun ip_tables_rules_exist :: "'s system \<Rightarrow> iptables \<Rightarrow> ip_tables_rule list \<Rightarrow> ('s, ipt_err, bool) step" where
  "ip_tables_rules_exist sys ipt [] = give True"
| "ip_tables_rules_exist sys ipt (r # rs) =
     then_do (flannel_chain_exists sys ipt r) (\<lambda>there.
     if \<not> there then give False
     else then_do (rule_exists sys ipt r) (\<lambda>present.
       if present then ip_tables_rules_exist sys ipt rs else give False))"

definition with_prefix :: "string \<Rightarrow> string \<Rightarrow> string list \<Rightarrow> string list" where
  "with_prefix a b rulespec = [a, b] @ rulespec"

text \<open>One round of the loop of \<open>ip_tables_clean_and_build\<close>: the chain, the presence of the rule, the lines.\<close>

definition ensure_flannel_chain :: "'s system \<Rightarrow> iptables \<Rightarrow> ip_tables_rule \<Rightarrow> ('s, ipt_err, unit) step" where
  "ensure_flannel_chain sys ipt r =
     (case flannel_chain r of
        None \<Rightarrow> give ()
      | Some chain \<Rightarrow>
          then_do (flannel_chain_exists sys ipt r) (\<lambda>there.
          if there then give ()
          else on_err (\<lambda>e. AnyErr (''failed to create rule chain: '' @ err_text e)) (clear_chain sys ipt (rl_table r) chain)))"

definition push_rule :: "ip_tables_rule \<Rightarrow> bool \<Rightarrow> restore_rules \<Rightarrow> restore_rules" where
  "push_rule r present tables =
     entry_push (rl_table r) (with_prefix (rl_action r) (rl_chain r) (rl_rulespec r))
       (if present then entry_push (rl_table r) (with_prefix ''-D'' (rl_chain r) (rl_rulespec r)) tables else tables)"

fun build_lines :: "'s system \<Rightarrow> iptables \<Rightarrow> ip_tables_rule list \<Rightarrow> restore_rules \<Rightarrow> ('s, ipt_err, restore_rules) step" where
  "build_lines sys ipt [] tables = give tables"
| "build_lines sys ipt (r # rs) tables =
     then_do (ensure_flannel_chain sys ipt r) (\<lambda>_.
     then_do (rule_exists sys ipt r) (\<lambda>present. build_lines sys ipt rs (push_rule r present tables)))"

definition ip_tables_clean_and_build :: "'s system \<Rightarrow> iptables \<Rightarrow> ip_tables_rule list \<Rightarrow> ('s, ipt_err, restore_rules) step" where
  "ip_tables_clean_and_build sys ipt rules = build_lines sys ipt rules []"

definition ip_tables_bootstrap :: "'s system \<Rightarrow> iptables \<Rightarrow> iptables_restore \<Rightarrow> ip_tables_rule list \<Rightarrow> ('s, ipt_err, unit) step" where
  "ip_tables_bootstrap sys ipt iptr rules =
     then_do (on_err (\<lambda>e. AnyErr (''failed to setup iptables-restore payload: '' @ err_text e)) (ip_tables_clean_and_build sys ipt rules)) (\<lambda>tables.
     on_err (\<lambda>e. AnyErr (''failed to apply partial iptables-restore '' @ err_text e)) (apply_without_flush sys iptr tables))"

definition ensure_iptables :: "'s system \<Rightarrow> iptables \<Rightarrow> iptables_restore \<Rightarrow> ip_tables_rule list \<Rightarrow> ('s, ipt_err, unit) step" where
  "ensure_iptables sys ipt iptr rules =
     then_do (on_err (\<lambda>e. AnyErr (''error checking rule existence: '' @ err_text e)) (ip_tables_rules_exist sys ipt rules)) (\<lambda>present.
     if present then give ()
     else on_err (\<lambda>e. AnyErr (''error setting up rules: '' @ err_text e)) (ip_tables_bootstrap sys ipt iptr rules))"

fun teardown_lines :: "'s system \<Rightarrow> iptables \<Rightarrow> ip_tables_rule list \<Rightarrow> restore_rules \<Rightarrow> ('s, ipt_err, restore_rules) step" where
  "teardown_lines sys ipt [] tables = give tables"
| "teardown_lines sys ipt (r # rs) tables =
     then_do (flannel_chain_exists sys ipt r) (\<lambda>there.
     if \<not> there then teardown_lines sys ipt rs tables
     else then_do (rule_exists sys ipt r) (\<lambda>present.
       teardown_lines sys ipt rs
         (if present then entry_push (rl_table r) (with_prefix ''-D'' (rl_chain r) (rl_rulespec r)) tables else tables)))"

definition teardown_ip_tables :: "'s system \<Rightarrow> iptables \<Rightarrow> iptables_restore \<Rightarrow> ip_tables_rule list \<Rightarrow> ('s, ipt_err, unit) step" where
  "teardown_ip_tables sys ipt iptr rules =
     then_do (teardown_lines sys ipt rules []) (\<lambda>tables.
     on_err (\<lambda>e. AnyErr (''unable to teardown iptables: '' @ err_text e)) (apply_without_flush sys iptr tables))"

definition delete_tables :: "'s system \<Rightarrow> protocol \<Rightarrow> ip_tables_rule list \<Rightarrow> ('s, ipt_err, unit) step" where
  "delete_tables sys proto rules =
     then_do (iptables_new sys proto) (\<lambda>ipt.
     then_do (restore_new sys proto) (\<lambda>iptr.
     teardown_ip_tables sys ipt iptr rules))"

text \<open>The task that \<open>spawn_resync\<close> starts: it ensures the rules after every period until it is cancelled.\<close>

record resync_task =
  rt_ipt :: iptables
  rt_iptr :: iptables_restore
  rt_rules :: "ip_tables_rule list"
  rt_period :: int

definition spawn_resync :: "iptables \<Rightarrow> iptables_restore \<Rightarrow> ip_tables_rule list \<Rightarrow> int \<Rightarrow> resync_task" where
  "spawn_resync ipt iptr rules resync_seconds =
     \<lparr>rt_ipt = ipt, rt_iptr = iptr, rt_rules = rules, rt_period = max resync_seconds 1\<rparr>"

definition resync_tick :: "'s system \<Rightarrow> resync_task \<Rightarrow> 's \<Rightarrow> 's" where
  "resync_tick sys task s = fst (ensure_iptables sys (rt_ipt task) (rt_iptr task) (rt_rules task) s)"

text \<open>The manager: the rules of each family and the tasks it started.\<close>

record iptables_manager =
  im_ipv4_rules :: "ip_tables_rule list"
  im_ipv6_rules :: "ip_tables_rule list"
  im_tasks :: "resync_task list"

definition add_mgr_rules :: "protocol \<Rightarrow> ip_tables_rule list \<Rightarrow> iptables_manager \<Rightarrow> iptables_manager" where
  "add_mgr_rules proto rules mgr =
     (case proto of
        IPv4 \<Rightarrow> mgr\<lparr>im_ipv4_rules := im_ipv4_rules mgr @ rules\<rparr>
      | IPv6 \<Rightarrow> mgr\<lparr>im_ipv6_rules := im_ipv6_rules mgr @ rules\<rparr>)"

definition setup_and_ensure ::
  "'s system \<Rightarrow> protocol \<Rightarrow> ip_tables_rule list \<Rightarrow> int \<Rightarrow> 's \<times> iptables_manager \<Rightarrow> 's \<times> iptables_manager" where
  "setup_and_ensure sys proto rules resync_seconds st =
     (let (s, mgr) = st in
      case iptables_new sys proto s of
        (s1, Inl _) \<Rightarrow> (s1, mgr)
      | (s1, Inr ipt) \<Rightarrow>
          (case restore_new sys proto s1 of
             (s2, Inl _) \<Rightarrow> (s2, mgr)
           | (s2, Inr iptr) \<Rightarrow>
               let s3 = fst (ip_tables_bootstrap sys ipt iptr rules s2);
                   mgr1 = add_mgr_rules proto rules mgr
               in (s3, mgr1\<lparr>im_tasks := im_tasks mgr1 @ [spawn_resync ipt iptr rules resync_seconds]\<rparr>)))"

section \<open>The manager\<close>

definition ipt_init :: "iptables_manager \<Rightarrow> iptables_manager" where
  "ipt_init mgr = mgr\<lparr>im_ipv4_rules := [], im_ipv6_rules := []\<rparr>"

definition ipt_clean_up :: "'s system \<Rightarrow> ('s, ipt_err, unit) step" where
  "ipt_clean_up sys = then_do (clean_up_chains sys IPv4) (\<lambda>_. clean_up_chains sys IPv6)"

definition prev_lease :: "ip4net \<Rightarrow> ip6net \<Rightarrow> lease" where
  "prev_lease sn sn6 = \<lparr>enable_ipv4 = False, enable_ipv6 = False, subnet = sn, ipv6_subnet = sn6,
     attrs = \<lparr>public_ip = IP4 0, public_ipv6 = None, backend_type = [], backend_data = None, backend_v6_data = None\<rparr>,
     expiration = 0, asof = 0\<rparr>"

text \<open>One family of \<open>setup_and_ensure_masq_rules\<close>: old rules go when the network or the subnet changed.\<close>

definition masq_for ::
  "'s system \<Rightarrow> protocol \<Rightarrow> bool \<Rightarrow> ('s \<Rightarrow> 's \<times> ip_tables_rule list) \<Rightarrow> ('s \<Rightarrow> 's \<times> ip_tables_rule list) \<Rightarrow> int \<Rightarrow>
   ('s \<times> iptables_manager, ipt_err, unit) step" where
  "masq_for sys proto changed old_rules new_rules resync_seconds st =
     (let (s, mgr) = st in
      case (if changed then (case old_rules s of (s1, old) \<Rightarrow> delete_tables sys proto old s1) else (s, Inr ())) of
        (s2, Inl e) \<Rightarrow> ((s2, mgr), Inl e)
      | (s2, Inr _) \<Rightarrow>
          (case new_rules (create_chain sys proto ''nat'' ''FLANNEL-POSTRTG'' s2) of
             (s3, rules) \<Rightarrow> (setup_and_ensure sys proto rules resync_seconds (s3, mgr), Inr ())))"

definition setup_and_ensure_masq_rules ::
  "'s system \<Rightarrow> ip4net \<Rightarrow> ip4net \<Rightarrow> ip4net \<Rightarrow> ip6net \<Rightarrow> ip6net \<Rightarrow> ip6net \<Rightarrow> lease \<Rightarrow> int \<Rightarrow> bool \<Rightarrow>
   ('s \<times> iptables_manager, ipt_err, unit) step" where
  "setup_and_ensure_masq_rules sys network prev_subnet prev_network v6_network prev_v6_subnet prev_v6_network l resync_seconds disable =
     then_do (if n4_empty network then give ()
       else masq_for sys IPv4 (network \<noteq> prev_network \<or> prev_subnet \<noteq> subnet l)
         (masq_rules sys prev_network (prev_lease prev_subnet ip6net_default) disable) (masq_rules sys network l disable) resync_seconds) (\<lambda>_.
     if n6_empty v6_network then give ()
     else masq_for sys IPv6 (v6_network \<noteq> prev_v6_network \<or> prev_v6_subnet \<noteq> ipv6_subnet l)
       (masq_ip6_rules sys prev_v6_network (prev_lease ip4net_default prev_v6_subnet) disable) (masq_ip6_rules sys v6_network l disable) resync_seconds)"

definition forward_for ::
  "'s system \<Rightarrow> protocol \<Rightarrow> string \<Rightarrow> int \<Rightarrow> 's \<times> iptables_manager \<Rightarrow> 's \<times> iptables_manager" where
  "forward_for sys proto network resync_seconds st =
     (let (s, mgr) = st in
      setup_and_ensure sys proto (forward_rules network) resync_seconds (create_chain sys proto ''filter'' ''FLANNEL-FWD'' s, mgr))"

definition setup_and_ensure_forward_rules ::
  "'s system \<Rightarrow> ip4net \<Rightarrow> ip6net \<Rightarrow> int \<Rightarrow> 's \<times> iptables_manager \<Rightarrow> 's \<times> iptables_manager" where
  "setup_and_ensure_forward_rules sys network v6_network resync_seconds st =
     (let st1 = (if n4_empty network then st else forward_for sys IPv4 (n4_to_string network) resync_seconds st) in
      if n6_empty v6_network then st1 else forward_for sys IPv6 (n6_to_string v6_network) resync_seconds st1)"

end
