(* ===== verification/IptablesRules.thy ===== *)
theory IptablesRules
  imports Iptables
begin

text \<open>
  What the iptables traffic manager achieves. The documented behaviour of the two programs is a hypothesis,
  \<open>programs_ok\<close>, over the rules each chain of a table holds; the input format of \<open>iptables-restore\<close> is
  written out as a reader, and the payload of the manager reads back as the lines it was built from.
\<close>

section \<open>Reading a payload\<close>

text \<open>Tokens of a line: separated by blanks, a quoted part is taken as it is.\<close>

fun lex_line :: "bool \<Rightarrow> string \<Rightarrow> string \<Rightarrow> string list" where
  "lex_line quoted cur [] = [rev cur]"
| "lex_line quoted cur (c # cs) =
     (if c = quote_char then lex_line (\<not> quoted) cur cs
      else if c = CHR '' '' \<and> \<not> quoted then rev cur # lex_line False [] cs
      else lex_line quoted (c # cur) cs)"

text \<open>Lines between \<open>*table\<close> and \<open>COMMIT\<close>.\<close>

fun restore_read :: "string list \<Rightarrow> (string \<times> string list list) option \<Rightarrow> restore_rules option" where
  "restore_read [] None = Some []"
| "restore_read [] (Some cur) = None"
| "restore_read (l # ls) None =
     (case l of c # name \<Rightarrow> if c = CHR ''*'' then restore_read ls (Some (name, [])) else None | [] \<Rightarrow> None)"
| "restore_read (l # ls) (Some (name, rs)) =
     (if l = ''COMMIT'' then map_option (Cons (name, rs)) (restore_read ls None)
      else restore_read ls (Some (name, rs @ [lex_line False [] l])))"

definition payload_lines :: "string \<Rightarrow> string list" where
  "payload_lines payload = butlast (split_on newline payload)"

definition read_payload :: "string \<Rightarrow> restore_rules option" where
  "read_payload payload = restore_read (payload_lines payload) None"

text \<open>Tokens that survive: no quotes or newlines, and blanks only in a comment.\<close>

definition token_ok :: "bool \<Rightarrow> string \<Rightarrow> bool" where
  "token_ok quoted t \<longleftrightarrow> newline \<notin> set t \<and> quote_char \<notin> set t \<and> (quoted \<or> CHR '' '' \<notin> set t)"

fun tokens_ok :: "bool \<Rightarrow> string list \<Rightarrow> bool" where
  "tokens_ok quoted [] \<longleftrightarrow> True"
| "tokens_ok quoted (t # ts) \<longleftrightarrow> token_ok quoted t \<and> tokens_ok (t = ''--comment'') ts"

definition line_ok :: "string list \<Rightarrow> bool" where
  "line_ok l \<longleftrightarrow> length l \<ge> 2 \<and> tokens_ok False l"

definition payload_ok :: "restore_rules \<Rightarrow> bool" where
  "payload_ok m \<longleftrightarrow> list_all (\<lambda>(name, ls). newline \<notin> set name \<and> list_all line_ok ls) m"

lemma line_okD: "line_ok l \<Longrightarrow> l \<noteq> [] \<and> length l \<ge> 2 \<and> tokens_ok False l"
  by (auto simp: line_ok_def)

lemma lex_quoted: "quote_char \<notin> set t \<Longrightarrow> lex_line True cur (t @ quote_char # cs) = lex_line False (rev t @ cur) cs"
  by (induction t arbitrary: cur) auto

lemma lex_plain:
  "quote_char \<notin> set t \<Longrightarrow> CHR '' '' \<notin> set t \<Longrightarrow> lex_line False cur (t @ cs) = lex_line False (rev t @ cur) cs"
  by (induction t arbitrary: cur) auto

lemma lex_token: "token_ok q t \<Longrightarrow> lex_line False [] (payload_token q t @ cs) = lex_line False (rev t) cs"
  using lex_quoted [of t "[]" cs] lex_plain [of t "[]" cs] by (auto simp: payload_token_def token_ok_def)

lemma newline_char: "newline = CHR 0x0A" by code_simp

lemma quote_is_char: "quote_char = CHR 0x22" by code_simp

lemma blank_not_quote: "CHR '' '' \<noteq> quote_char" by (simp add: quote_is_char)

lemma newline_neqs: "newline \<noteq> quote_char" "newline \<noteq> CHR '' ''" "newline \<noteq> CHR ''*''"
  by (simp_all add: newline_char quote_is_char)

lemma newline_not_commit: "newline \<notin> set ''COMMIT''" by (simp add: newline_char)

text \<open>A line without its newline.\<close>

fun line_body :: "bool \<Rightarrow> string list \<Rightarrow> string" where
  "line_body quoted [] = []"
| "line_body quoted [t] = payload_token quoted t"
| "line_body quoted (t # u # us) = payload_token quoted t @ '' '' @ line_body (t = ''--comment'') (u # us)"

lemma payload_line_body: "ts \<noteq> [] \<Longrightarrow> payload_line q ts = line_body q ts @ [newline]"
  by (induction q ts rule: line_body.induct) auto

lemma lex_body: "tokens_ok q ts \<Longrightarrow> ts \<noteq> [] \<Longrightarrow> lex_line False [] (line_body q ts) = ts"
proof (induction q ts rule: line_body.induct)
  case (2 q t)
  then show ?case using lex_token [of q t "[]"] by simp
next
  case (3 q t u us)
  then show ?case using lex_token [of q t] blank_not_quote by simp
qed simp

lemma body_chars: "tokens_ok q ts \<Longrightarrow> newline \<notin> set (line_body q ts)"
  by (induction q ts rule: line_body.induct) (auto simp: token_ok_def payload_token_def newline_neqs)

lemma body_not_commit: "length ts \<ge> 2 \<Longrightarrow> line_body q ts \<noteq> ''COMMIT''"
proof -
  assume "length ts \<ge> 2"
  then obtain t u us where "ts = t # u # us" by (cases ts; cases "tl ts") auto
  then have "CHR '' '' \<in> set (line_body q ts)" by simp
  then show ?thesis by auto
qed

lemma split_lines:
  "(\<forall>l \<in> set ls. newline \<notin> set l) \<Longrightarrow> split_on newline (concat (map (\<lambda>l. l @ [newline]) ls) @ s) = ls @ split_on newline s"
  by (induction ls) (simp_all add: split_on_append)

lemma payload_lines_concat:
  "(\<forall>l \<in> set ls. newline \<notin> set l) \<Longrightarrow> payload_lines (concat (map (\<lambda>l. l @ [newline]) ls)) = ls"
  using split_lines [of ls "[]"] by (simp add: payload_lines_def butlast_append)

definition block_lines :: "string \<times> string list list \<Rightarrow> string list" where
  "block_lines b = (let (name, ls) = b in (''*'' @ name) # map (line_body False) ls @ [''COMMIT''])"

lemma block_lines_plain:
  assumes "newline \<notin> set name" "list_all line_ok ls" "l \<in> set (block_lines (name, ls))"
  shows "newline \<notin> set l"
proof -
  from assms(3) consider "l = ''*'' @ name" | "l = ''COMMIT''" | ts where "ts \<in> set ls" "l = line_body False ts"
    by (auto simp: block_lines_def)
  then show ?thesis
  proof cases
    case 3
    then have "tokens_ok False ts" using assms(2) by (auto simp: list_all_iff dest!: line_okD)
    then show ?thesis using 3 body_chars by simp
  qed (use assms(1) newline_not_commit newline_neqs in auto)
qed

lemma build_payload_lines:
  "payload_ok m \<Longrightarrow> build_payload m = concat (map (\<lambda>l. l @ [newline]) (concat (map block_lines m)))"
proof (induction m)
  case (Cons b m)
  obtain name ls where b: "b = (name, ls)" by (cases b)
  have "list_all line_ok ls" using Cons.prems by (simp add: payload_ok_def b)
  then have "concat (map (payload_line False) ls) = concat (map (\<lambda>l. l @ [newline]) (map (line_body False) ls))"
    by (induction ls) (auto dest!: line_okD simp: payload_line_body)
  moreover have "build_payload m = concat (map (\<lambda>l. l @ [newline]) (concat (map block_lines m)))"
    using Cons by (simp add: payload_ok_def)
  moreover have "build_payload (b # m) =
      ''*'' @ name @ [newline] @ concat (map (payload_line False) ls) @ ''COMMIT'' @ [newline] @ build_payload m"
    by (simp add: build_payload_def b)
  ultimately show ?case by (simp add: block_lines_def [of "(name, ls)"] b)
qed (simp add: build_payload_def)

lemma restore_read_body:
  "list_all line_ok ls \<Longrightarrow>
   restore_read (map (line_body False) ls @ ''COMMIT'' # rest) (Some (name, rs)) =
     map_option (Cons (name, rs @ ls)) (restore_read rest None)"
proof (induction ls arbitrary: rs)
  case (Cons l ls)
  have "l \<noteq> []" "length l \<ge> 2" "tokens_ok False l" using Cons.prems by (auto dest!: line_okD)
  then have "line_body False l \<noteq> ''COMMIT''" "lex_line False [] (line_body False l) = l"
    using body_not_commit lex_body [of False l] by auto
  then show ?case using Cons by simp
qed simp

lemma restore_read_blocks: "payload_ok m \<Longrightarrow> restore_read (concat (map block_lines m)) None = Some m"
  by (induction m) (auto simp: payload_ok_def block_lines_def restore_read_body)

text \<open>The payload reads back as the lines it was built from.\<close>

lemma read_build_payload:
  assumes "payload_ok m"
  shows "read_payload (build_payload m) = Some m"
proof -
  have "\<forall>l \<in> set (concat (map block_lines m)). newline \<notin> set l"
  proof
    fix l
    assume "l \<in> set (concat (map block_lines m))"
    then obtain name ls where b: "(name, ls) \<in> set m" "l \<in> set (block_lines (name, ls))" by auto
    then have "newline \<notin> set name" "list_all line_ok ls" using assms by (auto simp: payload_ok_def list_all_iff)
    then show "newline \<notin> set l" using b(2) by (rule block_lines_plain)
  qed
  then show ?thesis
    using assms by (simp add: read_payload_def build_payload_lines payload_lines_concat restore_read_blocks)
qed

section \<open>What the programs do\<close>

text \<open>The rules of each chain, by table and chain.\<close>

type_synonym tables = "string \<times> string \<rightharpoonup> string list list"

definition has_rule :: "tables \<Rightarrow> string \<Rightarrow> string \<Rightarrow> string list \<Rightarrow> bool" where
  "has_rule t tbl chain spec \<longleftrightarrow> (\<exists>rs. t (tbl, chain) = Some rs \<and> spec \<in> set rs)"

text \<open>A line of a payload: \<open>-A\<close> appends, \<open>-D\<close> deletes the first rule with the specification.\<close>

definition apply_line :: "string \<Rightarrow> string list \<Rightarrow> tables \<Rightarrow> tables option" where
  "apply_line tbl l t =
     (case l of
        action # chain # spec \<Rightarrow>
          (case t (tbl, chain) of
             None \<Rightarrow> None
           | Some rs \<Rightarrow>
               if action = ''-A'' then Some (t((tbl, chain) \<mapsto> rs @ [spec]))
               else if action = ''-D'' \<and> spec \<in> set rs then Some (t((tbl, chain) \<mapsto> remove1 spec rs))
               else None)
      | _ \<Rightarrow> None)"

fun apply_lines :: "string \<Rightarrow> string list list \<Rightarrow> tables \<Rightarrow> tables option" where
  "apply_lines tbl [] t = Some t"
| "apply_lines tbl (l # ls) t = Option.bind (apply_line tbl l t) (apply_lines tbl ls)"

fun apply_blocks :: "restore_rules \<Rightarrow> tables \<Rightarrow> tables option" where
  "apply_blocks [] t = Some t"
| "apply_blocks ((tbl, ls) # m) t = Option.bind (apply_lines tbl ls t) (apply_blocks m)"

text \<open>An answer of a program: it ran, left the rules as given, and succeeded or failed with such a message.\<close>

definition answers :: "('s \<Rightarrow> tables) \<Rightarrow> tables \<Rightarrow> (process_output \<Rightarrow> bool) \<Rightarrow> 's \<times> (string + process_output) \<Rightarrow> bool" where
  "answers tab t p r \<longleftrightarrow> tab (fst r) = t \<and> (\<exists>out. snd r = Inr out \<and> p out)"

definition refuses :: "(string \<Rightarrow> bool) \<Rightarrow> process_output \<Rightarrow> bool" where
  "refuses p out \<longleftrightarrow> \<not> po_success out \<and> p (po_stderr out)"

definition iptables_ok :: "(string list \<Rightarrow> 's \<Rightarrow> 's \<times> (string + process_output)) \<Rightarrow> ('s \<Rightarrow> tables) \<Rightarrow> bool" where
  "iptables_ok run tab \<longleftrightarrow> (\<forall>tbl chain s.
     (\<forall>spec. answers tab (tab s) (if has_rule (tab s) tbl chain spec then po_success else refuses is_not_exist)
        (run (table_chain tbl ''-C'' chain @ spec) s)) \<and>
     answers tab (tab s) (if tab s (tbl, chain) \<noteq> None then po_success else refuses is_not_exist)
        (run (table_chain tbl ''-nL'' chain) s) \<and>
     (if tab s (tbl, chain) = None
      then answers tab ((tab s)((tbl, chain) \<mapsto> [])) po_success (run (table_chain tbl ''-N'' chain) s)
      else answers tab (tab s) (refuses is_exist) (run (table_chain tbl ''-N'' chain) s)) \<and>
     (tab s (tbl, chain) \<noteq> None \<longrightarrow>
        answers tab ((tab s)((tbl, chain) \<mapsto> [])) po_success (run (table_chain tbl ''-F'' chain) s)))"

definition restore_ok :: "(string \<Rightarrow> 's \<Rightarrow> 's \<times> (string + process_output)) \<Rightarrow> ('s \<Rightarrow> tables) \<Rightarrow> bool" where
  "restore_ok run tab \<longleftrightarrow> (\<forall>payload m s t.
     read_payload payload = Some m \<longrightarrow> apply_blocks m (tab s) = Some t \<longrightarrow> answers tab t po_success (run payload s))"

text \<open>The programs are installed, report their version, and do what they document.\<close>

definition programs_ok :: "'s system \<Rightarrow> protocol \<Rightarrow> iptables \<Rightarrow> iptables_restore \<Rightarrow> ('s \<Rightarrow> tables) \<Rightarrow> bool" where
  "programs_ok sys proto ipt iptr tab \<longleftrightarrow>
     look_path sys (proto_cmd proto) = Some (it_path ipt) \<and> look_path sys (restore_command proto) = Some (ir_path iptr) \<and>
     (\<exists>v. it_has_wait ipt = has_wait_support v \<and> it_has_random_fully ipt = has_random_fully_support v \<and>
        ir_has_wait iptr = ip_tables_has_wait_support v \<and>
        (\<forall>s. answers tab (tab s) (\<lambda>out. po_success out \<and> parse_version (po_stdout out) = Inr v)
           (sy_exec sys (it_path ipt) [''--version''] [] s))) \<and>
     iptables_ok (\<lambda>args. sy_exec sys (it_path ipt) (wait_args ipt args) []) tab \<and>
     restore_ok (sy_exec sys (ir_path iptr) (restore_args iptr)) tab"

lemma answersE:
  assumes "answers tab t p r"
  obtains s1 out where "r = (s1, Inr out)" "tab s1 = t" "p out"
  using assms by (cases r) (auto simp: answers_def)

lemma iptables_new_ok:
  assumes "programs_ok sys proto ipt iptr tab"
  shows "\<exists>s1. iptables_new sys proto s = (s1, Inr ipt) \<and> tab s1 = tab s"
proof -
  from assms obtain v where v: "it_has_wait ipt = has_wait_support v" "it_has_random_fully ipt = has_random_fully_support v"
    "answers tab (tab s) (\<lambda>out. po_success out \<and> parse_version (po_stdout out) = Inr v) (sy_exec sys (it_path ipt) [''--version''] [] s)"
    unfolding programs_ok_def by blast
  have "look_path sys (proto_cmd proto) = Some (it_path ipt)" using assms by (simp add: programs_ok_def)
  moreover from v(3) obtain s1 out where "sy_exec sys (it_path ipt) [''--version''] [] s = (s1, Inr out)" "tab s1 = tab s"
    "po_success out" "parse_version (po_stdout out) = Inr v" by (rule answersE) blast
  moreover have "ipt = \<lparr>it_path = it_path ipt, it_has_wait = has_wait_support v, it_has_random_fully = has_random_fully_support v\<rparr>"
    using v(1,2) by (cases ipt) simp
  ultimately show ?thesis
    by (simp add: iptables_new_def then_do_def on_err_def lift_result_def)
qed

lemma restore_new_ok:
  assumes "programs_ok sys proto ipt iptr tab"
  shows "\<exists>s1. restore_new sys proto s = (s1, Inr iptr) \<and> tab s1 = tab s"
proof -
  from assms obtain v where v: "ir_has_wait iptr = ip_tables_has_wait_support v"
    "answers tab (tab s) (\<lambda>out. po_success out \<and> parse_version (po_stdout out) = Inr v) (sy_exec sys (it_path ipt) [''--version''] [] s)"
    unfolding programs_ok_def by blast
  have "look_path sys (proto_cmd proto) = Some (it_path ipt)" "look_path sys (restore_command proto) = Some (ir_path iptr)"
    using assms by (simp_all add: programs_ok_def)
  moreover from v(2) obtain s1 out where "sy_exec sys (it_path ipt) [''--version''] [] s = (s1, Inr out)" "tab s1 = tab s"
    "po_success out" "parse_version (po_stdout out) = Inr v" by (rule answersE) blast
  moreover have "iptr = \<lparr>ir_path = ir_path iptr, ir_has_wait = ip_tables_has_wait_support v\<rparr>" using v(1) by (cases iptr) simp
  ultimately show ?thesis
    by (simp add: restore_new_def version_string_def then_do_def on_err_def lift_result_def)
qed

text \<open>The operations of the wrapper on the rules.\<close>

lemma ipt_run_answers:
  assumes "answers tab t p (sy_exec sys (it_path ipt) (wait_args ipt args) [] s)"
  shows "\<exists>s1 out. tab s1 = t \<and> p out \<and>
    ipt_run sys ipt args s = (s1, if po_success out then Inr (po_stdout out) else Inl (IPTablesError (po_stderr out)))"
proof -
  from assms obtain s1 out where r: "sy_exec sys (it_path ipt) (wait_args ipt args) [] s = (s1, Inr out)" "tab s1 = t" "p out"
    by (rule answersE)
  have "ipt_run sys ipt args s = (s1, if po_success out then Inr (po_stdout out) else Inl (IPTablesError (po_stderr out)))"
    by (simp add: ipt_run_def then_do_def on_err_def lift_result_def r(1))
  with r(2,3) show ?thesis by blast
qed

lemma programs_iptables: "programs_ok sys proto ipt iptr tab \<Longrightarrow> iptables_ok (\<lambda>args. sy_exec sys (it_path ipt) (wait_args ipt args) []) tab"
  by (simp add: programs_ok_def)

lemma exists_ok:
  assumes "programs_ok sys proto ipt iptr tab"
  shows "\<exists>s1. ipt_exists sys ipt tbl chain spec s = (s1, Inr (has_rule (tab s) tbl chain spec)) \<and> tab s1 = tab s"
proof -
  have "answers tab (tab s) (if has_rule (tab s) tbl chain spec then po_success else refuses is_not_exist)
    (sy_exec sys (it_path ipt) (wait_args ipt (table_chain tbl ''-C'' chain @ spec)) [] s)"
    using programs_iptables [OF assms] unfolding iptables_ok_def by blast
  from ipt_run_answers [OF this] show ?thesis
    by (cases "has_rule (tab s) tbl chain spec") (auto simp: ipt_exists_def refuses_def)
qed

lemma chain_exists_ok:
  assumes "programs_ok sys proto ipt iptr tab"
  shows "\<exists>s1. chain_exists sys ipt tbl chain s = (s1, Inr (tab s (tbl, chain) \<noteq> None)) \<and> tab s1 = tab s"
proof -
  have "answers tab (tab s) (if tab s (tbl, chain) \<noteq> None then po_success else refuses is_not_exist)
    (sy_exec sys (it_path ipt) (wait_args ipt (table_chain tbl ''-nL'' chain)) [] s)"
    using programs_iptables [OF assms] unfolding iptables_ok_def by blast
  from ipt_run_answers [OF this] show ?thesis
    by (cases "tab s (tbl, chain)") (auto simp: chain_exists_def refuses_def)
qed

lemma new_chain_ok:
  assumes "programs_ok sys proto ipt iptr tab"
  shows "\<exists>s1 r. new_chain sys ipt tbl chain s = (s1, r) \<and>
    (if tab s (tbl, chain) = None then tab s1 = (tab s)((tbl, chain) \<mapsto> []) \<and> r = Inr ()
     else tab s1 = tab s \<and> (\<exists>msg. r = Inl (IPTablesError msg) \<and> is_exist msg))"
proof (cases "tab s (tbl, chain) = None")
  case True
  then have "answers tab ((tab s)((tbl, chain) \<mapsto> [])) po_success (sy_exec sys (it_path ipt) (wait_args ipt (table_chain tbl ''-N'' chain)) [] s)"
    using programs_iptables [OF assms] unfolding iptables_ok_def by meson
  from ipt_run_answers [OF this] show ?thesis using True by (auto simp: new_chain_def then_do_def)
next
  case False
  then have "answers tab (tab s) (refuses is_exist) (sy_exec sys (it_path ipt) (wait_args ipt (table_chain tbl ''-N'' chain)) [] s)"
    using programs_iptables [OF assms] unfolding iptables_ok_def by meson
  from ipt_run_answers [OF this] show ?thesis using False by (auto simp: new_chain_def then_do_def refuses_def)
qed

lemma flush_ok:
  assumes "programs_ok sys proto ipt iptr tab" "tab s (tbl, chain) \<noteq> None"
  shows "\<exists>s1 out. ipt_run sys ipt (table_chain tbl ''-F'' chain) s = (s1, Inr out) \<and> tab s1 = (tab s)((tbl, chain) \<mapsto> [])"
proof -
  have "answers tab ((tab s)((tbl, chain) \<mapsto> [])) po_success (sy_exec sys (it_path ipt) (wait_args ipt (table_chain tbl ''-F'' chain)) [] s)"
    using programs_iptables [OF assms(1)] assms(2) unfolding iptables_ok_def by meson
  from ipt_run_answers [OF this] show ?thesis by auto
qed

lemma clear_chain_ok:
  assumes "programs_ok sys proto ipt iptr tab"
  shows "\<exists>s1. clear_chain sys ipt tbl chain s = (s1, Inr ()) \<and> tab s1 = (tab s)((tbl, chain) \<mapsto> [])"
proof -
  from new_chain_ok [OF assms] obtain s1 r where n: "new_chain sys ipt tbl chain s = (s1, r)"
    "if tab s (tbl, chain) = None then tab s1 = (tab s)((tbl, chain) \<mapsto> []) \<and> r = Inr ()
     else tab s1 = tab s \<and> (\<exists>msg. r = Inl (IPTablesError msg) \<and> is_exist msg)" by blast
  show ?thesis
  proof (cases "tab s (tbl, chain) = None")
    case False
    then obtain msg where m: "r = Inl (IPTablesError msg)" "is_exist msg" "tab s1 = tab s" using n(2) by auto
    from False m(3) have "tab s1 (tbl, chain) \<noteq> None" by simp
    from flush_ok [OF assms this] obtain s2 out where
      "ipt_run sys ipt (table_chain tbl ''-F'' chain) s1 = (s2, Inr out)" "tab s2 = (tab s1)((tbl, chain) \<mapsto> [])" by blast
    with m show ?thesis by (simp add: clear_chain_def n(1) then_do_def)
  qed (use n in \<open>simp add: clear_chain_def\<close>)
qed

lemma apply_ok:
  assumes "programs_ok sys proto ipt iptr tab" "payload_ok m" "apply_blocks m (tab s) = Some t"
  shows "\<exists>s1. apply_without_flush sys iptr m s = (s1, Inr ()) \<and> tab s1 = t"
proof -
  have "restore_ok (sy_exec sys (ir_path iptr) (restore_args iptr)) tab" using assms(1) by (simp add: programs_ok_def)
  then have "answers tab t po_success (sy_exec sys (ir_path iptr) (restore_args iptr) (build_payload m) s)"
    using read_build_payload [OF assms(2)] assms(3) unfolding restore_ok_def by blast
  then show ?thesis
    by (auto simp: apply_without_flush_def then_do_def on_err_def lift_result_def elim!: answersE)
qed

text \<open>Create a chain that is missing.\<close>

definition with_chain :: "string \<times> string \<Rightarrow> tables \<Rightarrow> tables" where
  "with_chain k t = (if t k = None then t(k \<mapsto> []) else t)"

definition with_flannel_chain :: "ip_tables_rule \<Rightarrow> tables \<Rightarrow> tables" where
  "with_flannel_chain r t = (case flannel_chain r of Some c \<Rightarrow> with_chain (rl_table r, c) t | None \<Rightarrow> t)"

lemma has_rule_with_chain [simp]: "has_rule (with_flannel_chain r t) tbl c spec = has_rule t tbl c spec"
  by (auto simp: has_rule_def with_flannel_chain_def with_chain_def split: option.split)

lemma flannel_chain_exists_ok:
  assumes "programs_ok sys proto ipt iptr tab"
  shows "\<exists>s1. flannel_chain_exists sys ipt r s =
      (s1, Inr (case flannel_chain r of Some c \<Rightarrow> tab s (rl_table r, c) \<noteq> None | None \<Rightarrow> True)) \<and> tab s1 = tab s"
proof (cases "flannel_chain r")
  case (Some c)
  from chain_exists_ok [OF assms] obtain s1 where
    "chain_exists sys ipt (rl_table r) c s = (s1, Inr (tab s (rl_table r, c) \<noteq> None))" "tab s1 = tab s" by blast
  then show ?thesis by (simp add: flannel_chain_exists_def Some on_err_def)
qed (simp add: flannel_chain_exists_def)

lemma ensure_flannel_chain_ok:
  assumes "programs_ok sys proto ipt iptr tab"
  shows "\<exists>s1. ensure_flannel_chain sys ipt r s = (s1, Inr ()) \<and> tab s1 = with_flannel_chain r (tab s)"
proof (cases "flannel_chain r")
  case (Some c)
  from flannel_chain_exists_ok [OF assms] obtain s1 where
    1: "flannel_chain_exists sys ipt r s = (s1, Inr (tab s (rl_table r, c) \<noteq> None))" "tab s1 = tab s"
    using Some by (metis option.simps(5))
  from clear_chain_ok [OF assms] obtain s2 where
    "clear_chain sys ipt (rl_table r) c s1 = (s2, Inr ())" "tab s2 = (tab s1)((rl_table r, c) \<mapsto> [])" by blast
  with 1 show ?thesis
    by (simp add: ensure_flannel_chain_def Some then_do_def on_err_def with_flannel_chain_def with_chain_def)
qed (simp add: ensure_flannel_chain_def with_flannel_chain_def)

lemma rule_exists_ok:
  assumes "programs_ok sys proto ipt iptr tab"
  shows "\<exists>s1. rule_exists sys ipt r s = (s1, Inr (has_rule (tab s) (rl_table r) (rl_chain r) (rl_rulespec r))) \<and> tab s1 = tab s"
proof -
  from exists_ok [OF assms] obtain s1 where
    "ipt_exists sys ipt (rl_table r) (rl_chain r) (rl_rulespec r) s = (s1, Inr (has_rule (tab s) (rl_table r) (rl_chain r) (rl_rulespec r)))"
    "tab s1 = tab s" by blast
  then show ?thesis by (simp add: on_err_def)
qed

abbreviation rule_in :: "tables \<Rightarrow> ip_tables_rule \<Rightarrow> bool" where
  "rule_in t r \<equiv> has_rule t (rl_table r) (rl_chain r) (rl_rulespec r)"

lemma build_lines_ok:
  assumes "programs_ok sys proto ipt iptr tab"
  shows "\<exists>s1. build_lines sys ipt rs m s = (s1, Inr (fold (\<lambda>r. push_rule r (rule_in (tab s) r)) rs m)) \<and>
    tab s1 = fold with_flannel_chain rs (tab s)"
proof (induction rs arbitrary: m s)
  case (Cons r rs)
  from ensure_flannel_chain_ok [OF assms] obtain s1 where
    1: "ensure_flannel_chain sys ipt r s = (s1, Inr ())" "tab s1 = with_flannel_chain r (tab s)" by blast
  from rule_exists_ok [OF assms] obtain s2 where
    2: "rule_exists sys ipt r s1 = (s2, Inr (rule_in (tab s1) r))" "tab s2 = tab s1" by blast
  from Cons.IH [of "push_rule r (rule_in (tab s) r) m" s2] show ?case
    using 1 2 by (simp add: then_do_def)
qed simp

section \<open>Bootstrap\<close>

text \<open>Move a rule to the end of its chain.\<close>

definition put_rule :: "ip_tables_rule \<Rightarrow> tables \<Rightarrow> tables" where
  "put_rule r t =
     (case t (rl_table r, rl_chain r) of
        Some l \<Rightarrow> t((rl_table r, rl_chain r) \<mapsto> remove1 (rl_rulespec r) l @ [rl_rulespec r])
      | None \<Rightarrow> t)"

text \<open>Rules of one table, none twice, whose lines a payload can carry.\<close>

definition ruleset_ok :: "string \<Rightarrow> ip_tables_rule list \<Rightarrow> bool" where
  "ruleset_ok tbl rs \<longleftrightarrow> newline \<notin> set tbl \<and>
     list_all (\<lambda>r. rl_table r = tbl \<and> rl_action r = ''-A'' \<and> line_ok (''-A'' # rl_chain r # rl_rulespec r)) rs \<and>
     distinct (map (\<lambda>r. (rl_chain r, rl_rulespec r)) rs)"

definition rule_lines :: "(ip_tables_rule \<Rightarrow> bool) \<Rightarrow> ip_tables_rule \<Rightarrow> string list list" where
  "rule_lines p r = (if p r then [''-D'' # rl_chain r # rl_rulespec r] else []) @ [''-A'' # rl_chain r # rl_rulespec r]"

lemma fold_push_lines:
  assumes "list_all (\<lambda>r. rl_table r = tbl \<and> rl_action r = ''-A'') rs"
  shows "fold (\<lambda>r. push_rule r (p r)) rs [(tbl, ls)] = [(tbl, ls @ concat (map (rule_lines p) rs))]"
  using assms by (induction rs arbitrary: ls) (auto simp: push_rule_def with_prefix_def rule_lines_def)

lemma fold_push_start:
  assumes "list_all (\<lambda>r. rl_table r = tbl \<and> rl_action r = ''-A'') rs" "rs \<noteq> []"
  shows "fold (\<lambda>r. push_rule r (p r)) rs [] = [(tbl, concat (map (rule_lines p) rs))]"
proof -
  obtain r rs' where rs: "rs = r # rs'" using assms(2) by (cases rs) auto
  have "push_rule r (p r) [] = [(tbl, rule_lines p r)]"
    using assms(1) by (auto simp: rs push_rule_def with_prefix_def rule_lines_def)
  then show ?thesis using assms(1) fold_push_lines [of tbl rs' p] by (simp add: rs)
qed

lemma line_ok_delete: "line_ok (''-A'' # c # spec) \<Longrightarrow> line_ok (''-D'' # c # spec)"
  by (simp add: line_ok_def token_ok_def newline_char quote_is_char)

lemma payload_ok_rules: "ruleset_ok tbl rs \<Longrightarrow> payload_ok [(tbl, concat (map (rule_lines p) rs))]"
  by (auto simp: ruleset_ok_def payload_ok_def list_all_iff rule_lines_def intro: line_ok_delete split: if_splits)

lemma put_rule_other: "k \<noteq> (rl_table r, rl_chain r) \<Longrightarrow> put_rule r t k = t k"
  by (simp add: put_rule_def split: option.split)

lemma put_rule_here:
  "t (rl_table r, rl_chain r) = Some l \<Longrightarrow> put_rule r t (rl_table r, rl_chain r) = Some (remove1 (rl_rulespec r) l @ [rl_rulespec r])"
  by (simp add: put_rule_def)

lemma put_rule_None [simp]: "put_rule r t k = None \<longleftrightarrow> t k = None"
  by (simp add: put_rule_def split: option.split)

lemma has_rule_put_rule:
  assumes "(rl_chain r', rl_rulespec r') \<noteq> (rl_chain r, rl_rulespec r)"
  shows "rule_in (put_rule r t) r' = rule_in t r'"
proof (cases "(rl_table r', rl_chain r') = (rl_table r, rl_chain r)")
  case True
  then have "rl_rulespec r' \<noteq> rl_rulespec r" using assms by auto
  then show ?thesis using True by (cases "t (rl_table r, rl_chain r)") (auto simp: has_rule_def put_rule_def)
qed (auto simp: has_rule_def put_rule_other)

lemma apply_rule_lines:
  assumes "rl_table r = tbl" "t (tbl, rl_chain r) \<noteq> None" "p r = rule_in t r"
  shows "apply_lines tbl (rule_lines p r @ ls) t = apply_lines tbl ls (put_rule r t)"
proof -
  from assms(2) obtain l where l: "t (tbl, rl_chain r) = Some l" by blast
  show ?thesis
  proof (cases "p r")
    case True
    then have "rl_rulespec r \<in> set l" using assms(1,3) l by (simp add: has_rule_def)
    then show ?thesis
      using True by (simp add: rule_lines_def apply_line_def l put_rule_def assms(1))
  next
    case False
    then have "rl_rulespec r \<notin> set l" using assms(1,3) l by (simp add: has_rule_def)
    then show ?thesis
      using False by (simp add: rule_lines_def apply_line_def l put_rule_def assms(1) remove1_idem)
  qed
qed

lemma apply_rules:
  assumes "list_all (\<lambda>r. rl_table r = tbl \<and> t (tbl, rl_chain r) \<noteq> None \<and> p r = rule_in t r) rs"
    and "distinct (map (\<lambda>r. (rl_chain r, rl_rulespec r)) rs)"
  shows "apply_lines tbl (concat (map (rule_lines p) rs)) t = Some (fold put_rule rs t)"
  using assms
proof (induction rs arbitrary: t)
  case (Cons r rs)
  have "list_all (\<lambda>r'. rl_table r' = tbl \<and> put_rule r t (tbl, rl_chain r') \<noteq> None \<and> p r' = rule_in (put_rule r t) r') rs"
    unfolding list_all_iff
  proof
    fix r'
    assume r': "r' \<in> set rs"
    then have "(rl_chain r', rl_rulespec r') \<noteq> (rl_chain r, rl_rulespec r)"
      using Cons.prems(2) by (auto simp: image_iff)
    then have "rule_in (put_rule r t) r' = rule_in t r'" by (rule has_rule_put_rule)
    moreover have "rl_table r' = tbl" "t (tbl, rl_chain r') \<noteq> None" "p r' = rule_in t r'"
      using Cons.prems(1) r' by (simp_all add: list_all_iff)
    ultimately show "rl_table r' = tbl \<and> put_rule r t (tbl, rl_chain r') \<noteq> None \<and> p r' = rule_in (put_rule r t) r'"
      by simp
  qed
  then have "apply_lines tbl (concat (map (rule_lines p) rs)) (put_rule r t) = Some (fold put_rule rs (put_rule r t))"
    by (rule Cons.IH) (use Cons.prems(2) in simp)
  then show ?case using Cons.prems(1) apply_rule_lines [of r tbl t p] by simp
qed simp

lemma bootstrap_ok:
  assumes ok: "programs_ok sys proto ipt iptr tab" and rs: "ruleset_ok tbl rs" "rs \<noteq> []"
    and chains: "list_all (\<lambda>r. fold with_flannel_chain rs (tab s) (tbl, rl_chain r) \<noteq> None) rs"
  shows "\<exists>s1. ip_tables_bootstrap sys ipt iptr rs s = (s1, Inr ()) \<and>
    tab s1 = fold put_rule rs (fold with_flannel_chain rs (tab s))"
proof -
  let ?t = "fold with_flannel_chain rs (tab s)" and ?p = "rule_in (tab s)"
  from build_lines_ok [OF ok] obtain s1 where
    1: "build_lines sys ipt rs [] s = (s1, Inr (fold (\<lambda>r. push_rule r (?p r)) rs []))" "tab s1 = ?t" by blast
  have one: "list_all (\<lambda>r. rl_table r = tbl \<and> rl_action r = ''-A'') rs" using rs(1) by (auto simp: ruleset_ok_def list_all_iff)
  have present: "rule_in ?t r = ?p r" for r by (induction rs arbitrary: s rule: rev_induct) simp_all
  have "apply_lines tbl (concat (map (rule_lines ?p) rs)) ?t = Some (fold put_rule rs ?t)"
    using chains one rs(1) present by (intro apply_rules) (auto simp: list_all_iff ruleset_ok_def)
  then have "apply_blocks [(tbl, concat (map (rule_lines ?p) rs))] (tab s1) = Some (fold put_rule rs ?t)" using 1(2) by simp
  from apply_ok [OF ok payload_ok_rules [OF rs(1)] this] obtain s2 where
    "apply_without_flush sys iptr [(tbl, concat (map (rule_lines ?p) rs))] s1 = (s2, Inr ())" "tab s2 = fold put_rule rs ?t" by blast
  then show ?thesis
    by (simp add: ip_tables_bootstrap_def ip_tables_clean_and_build_def then_do_def on_err_def 1(1) fold_push_start [OF one rs(2)])
qed

text \<open>A chain after a bootstrap: what was there less the rules of the set, then the rules of the set in order.\<close>

definition specs_of :: "string \<Rightarrow> ip_tables_rule list \<Rightarrow> string list list" where
  "specs_of c rs = map rl_rulespec (filter (\<lambda>r. rl_chain r = c) rs)"

lemma remove1_fold: "x \<notin> set ys \<Longrightarrow> remove1 x (fold remove1 zs l @ ys) = remove1 x (fold remove1 zs l) @ ys"
  by (simp add: remove1_append remove1_idem)

lemma fold_put_rule_chain:
  assumes "list_all (\<lambda>r. rl_table r = tbl) rs" "distinct (map (\<lambda>r. (rl_chain r, rl_rulespec r)) rs)" "t (tbl, c) = Some l"
  shows "fold put_rule rs t (tbl, c) = Some (fold remove1 (specs_of c rs) l @ specs_of c rs)"
  using assms
proof (induction rs rule: rev_induct)
  case (snoc r rs)
  have ih: "fold put_rule rs t (tbl, c) = Some (fold remove1 (specs_of c rs) l @ specs_of c rs)" using snoc by simp
  show ?case
  proof (cases "rl_chain r = c")
    case True
    have "(rl_chain r, rl_rulespec r) \<notin> (\<lambda>r. (rl_chain r, rl_rulespec r)) ` set rs" using snoc.prems(2) by simp
    then have "rl_rulespec r \<notin> set (specs_of c rs)" using True by (auto simp: specs_of_def image_iff)
    then show ?thesis
      using ih True snoc.prems(1) put_rule_here [of "fold put_rule rs t" r] by (simp add: specs_of_def remove1_fold)
  next
    case False
    then show ?thesis using ih snoc.prems(1) by (simp add: put_rule_other specs_of_def)
  qed
qed (simp add: specs_of_def)

section \<open>Teardown and resync\<close>

definition drop_rule :: "ip_tables_rule \<Rightarrow> tables \<Rightarrow> tables" where
  "drop_rule r t =
     (case t (rl_table r, rl_chain r) of
        Some l \<Rightarrow> t((rl_table r, rl_chain r) \<mapsto> remove1 (rl_rulespec r) l)
      | None \<Rightarrow> t)"

text \<open>The chain that a rule stands in or jumps to is there.\<close>

definition chain_there :: "tables \<Rightarrow> ip_tables_rule \<Rightarrow> bool" where
  "chain_there t r \<longleftrightarrow> (case flannel_chain r of Some c \<Rightarrow> t (rl_table r, c) \<noteq> None | None \<Rightarrow> True)"

definition delete_lines :: "(ip_tables_rule \<Rightarrow> bool) \<Rightarrow> ip_tables_rule list \<Rightarrow> string list list" where
  "delete_lines p rs = map (\<lambda>r. ''-D'' # rl_chain r # rl_rulespec r) (filter p rs)"

lemma teardown_lines_ok:
  assumes "programs_ok sys proto ipt iptr tab"
  shows "\<exists>s1. teardown_lines sys ipt rs m s = (s1, Inr (fold (\<lambda>r m. if chain_there (tab s) r \<and> rule_in (tab s) r
      then entry_push (rl_table r) (''-D'' # rl_chain r # rl_rulespec r) m else m) rs m)) \<and> tab s1 = tab s"
proof (induction rs arbitrary: m s)
  case (Cons r rs)
  from flannel_chain_exists_ok [OF assms] obtain s1 where
    1: "flannel_chain_exists sys ipt r s = (s1, Inr (chain_there (tab s) r))" "tab s1 = tab s"
    unfolding chain_there_def by blast
  from rule_exists_ok [OF assms] obtain s2 where
    2: "rule_exists sys ipt r s1 = (s2, Inr (rule_in (tab s1) r))" "tab s2 = tab s1" by blast
  let ?m = "if rule_in (tab s) r then entry_push (rl_table r) (''-D'' # rl_chain r # rl_rulespec r) m else m"
  show ?case
    using 1 2 Cons.IH [of m s1] Cons.IH [of ?m s2]
    by (cases "chain_there (tab s) r"; cases "rule_in (tab s) r") (simp_all add: then_do_def with_prefix_def)
qed simp

lemma fold_deletes:
  assumes "list_all (\<lambda>r. rl_table r = tbl) rs"
  shows "fold (\<lambda>r m. if p r then entry_push (rl_table r) (''-D'' # rl_chain r # rl_rulespec r) m else m) rs
      (if ls = [] then [] else [(tbl, ls)]) = (let ls' = ls @ delete_lines p rs in if ls' = [] then [] else [(tbl, ls')])"
  using assms
proof (induction rs arbitrary: ls)
  case (Cons r rs)
  have t: "rl_table r = tbl" using Cons.prems by simp
  show ?case
  proof (cases "p r")
    case True
    have "entry_push tbl (''-D'' # rl_chain r # rl_rulespec r) (if ls = [] then [] else [(tbl, ls)]) =
        [(tbl, ls @ [''-D'' # rl_chain r # rl_rulespec r])]" by simp
    then show ?thesis
      using Cons.IH [of "ls @ [''-D'' # rl_chain r # rl_rulespec r]"] Cons.prems True t by (simp add: delete_lines_def Let_def)
  next
    case False
    then show ?thesis using Cons.IH [of ls] Cons.prems by (simp add: delete_lines_def)
  qed
qed (simp add: delete_lines_def)

lemma drop_rule_here:
  "t (rl_table r, rl_chain r) = Some l \<Longrightarrow> drop_rule r t = t((rl_table r, rl_chain r) \<mapsto> remove1 (rl_rulespec r) l)"
  by (simp add: drop_rule_def)

lemma apply_deletes:
  assumes "list_all (\<lambda>r. rl_table r = tbl \<and> p r = rule_in t r) rs"
    and "distinct (map (\<lambda>r. (rl_chain r, rl_rulespec r)) rs)"
  shows "apply_lines tbl (delete_lines p rs) t = Some (fold drop_rule rs t)"
  using assms
proof (induction rs arbitrary: t)
  case (Cons r rs)
  have here: "rl_table r = tbl" "p r = rule_in t r" using Cons.prems(1) by simp_all
  have "list_all (\<lambda>r'. rl_table r' = tbl \<and> p r' = rule_in (drop_rule r t) r') rs"
    unfolding list_all_iff
  proof
    fix r'
    assume r': "r' \<in> set rs"
    then have "(rl_chain r', rl_rulespec r') \<noteq> (rl_chain r, rl_rulespec r)" using Cons.prems(2) by (auto simp: image_iff)
    then have "rule_in (drop_rule r t) r' = rule_in t r'"
      by (cases "t (rl_table r, rl_chain r)") (auto simp: has_rule_def drop_rule_def)
    then show "rl_table r' = tbl \<and> p r' = rule_in (drop_rule r t) r'" using Cons.prems(1) r' by (simp add: list_all_iff)
  qed
  then have ih: "apply_lines tbl (delete_lines p rs) (drop_rule r t) = Some (fold drop_rule rs (drop_rule r t))"
    by (rule Cons.IH) (use Cons.prems(2) in simp)
  show ?case
  proof (cases "p r")
    case True
    then obtain l where "t (tbl, rl_chain r) = Some l" "rl_rulespec r \<in> set l" using here by (auto simp: has_rule_def)
    then show ?thesis using ih True here by (simp add: delete_lines_def apply_line_def drop_rule_here)
  next
    case False
    then have "drop_rule r t = t"
      using here by (auto simp: has_rule_def drop_rule_def remove1_idem fun_upd_triv split: option.split)
    then show ?thesis using ih False by (simp add: delete_lines_def)
  qed
qed (simp add: delete_lines_def)

lemma payload_ok_deletes: "ruleset_ok tbl rs \<Longrightarrow> payload_ok [(tbl, delete_lines p rs)]"
  by (auto simp: ruleset_ok_def payload_ok_def list_all_iff delete_lines_def intro: line_ok_delete)

text \<open>Tearing a set down deletes each of its rules once; it deletes nothing when the chain of the set is missing.\<close>

lemma teardown_ok:
  assumes ok: "programs_ok sys proto ipt iptr tab"
    and one: "list_all (\<lambda>r. rl_table r = tbl \<and> chain_there (tab s) r = there) rs"
    and rs: "there \<Longrightarrow> ruleset_ok tbl rs"
  shows "\<exists>s1. teardown_ip_tables sys ipt iptr rs s = (s1, Inr ()) \<and> tab s1 = (if there then fold drop_rule rs (tab s) else tab s)"
proof -
  let ?p = "\<lambda>r. chain_there (tab s) r \<and> rule_in (tab s) r"
  let ?ls = "delete_lines ?p rs"
  let ?m = "if ?ls = [] then [] else [(tbl, ?ls)]"
  have tables: "list_all (\<lambda>r. rl_table r = tbl) rs" using one by (auto simp: list_all_iff)
  have m: "fold (\<lambda>r m. if ?p r then entry_push (rl_table r) (''-D'' # rl_chain r # rl_rulespec r) m else m) rs [] = ?m"
    using fold_deletes [OF tables, of ?p "[]"] by (simp add: Let_def)
  from teardown_lines_ok [OF ok, of rs "[]" s] obtain s1 where
    1: "teardown_lines sys ipt rs [] s = (s1, Inr ?m)" "tab s1 = tab s" unfolding m by blast
  have "payload_ok ?m \<and> apply_blocks ?m (tab s1) = Some (if there then fold drop_rule rs (tab s) else tab s)"
  proof (cases there)
    case True
    have "apply_lines tbl ?ls (tab s) = Some (fold drop_rule rs (tab s))"
      using one True rs [OF True] by (intro apply_deletes) (auto simp: list_all_iff ruleset_ok_def)
    then show ?thesis using True payload_ok_deletes [OF rs [OF True]] 1(2) by (cases "?ls = []") (simp_all add: payload_ok_def)
  next
    case False
    then have "?ls = []" using one by (auto simp: delete_lines_def list_all_iff filter_empty_conv)
    then show ?thesis using False 1(2) by (simp add: payload_ok_def)
  qed
  then obtain s2 where "apply_without_flush sys iptr ?m s1 = (s2, Inr ())" "tab s2 = (if there then fold drop_rule rs (tab s) else tab s)"
    using apply_ok [OF ok] by blast
  then show ?thesis by (simp add: teardown_ip_tables_def then_do_def on_err_def 1(1))
qed

lemma rules_exist_ok:
  assumes "programs_ok sys proto ipt iptr tab"
  shows "\<exists>s1. ip_tables_rules_exist sys ipt rs s = (s1, Inr (list_all (\<lambda>r. chain_there (tab s) r \<and> rule_in (tab s) r) rs)) \<and> tab s1 = tab s"
proof (induction rs arbitrary: s)
  case (Cons r rs)
  from flannel_chain_exists_ok [OF assms] obtain s1 where
    1: "flannel_chain_exists sys ipt r s = (s1, Inr (chain_there (tab s) r))" "tab s1 = tab s"
    unfolding chain_there_def by blast
  from rule_exists_ok [OF assms] obtain s2 where
    2: "rule_exists sys ipt r s1 = (s2, Inr (rule_in (tab s1) r))" "tab s2 = tab s1" by blast
  show ?case using 1 2 Cons.IH [of s2] by (auto simp: then_do_def)
qed simp

section \<open>The rules of the manager\<close>

definition cidr_text :: "string \<Rightarrow> bool" where
  "cidr_text s \<longleftrightarrow> token_ok False s \<and> s \<noteq> ''--comment''"

lemma n4_chars: "c \<in> set (n4_to_string n) \<Longrightarrow> is_digit 10 c \<or> c = CHR ''.'' \<or> c = CHR ''/''"
proof -
  obtain a b d e where "ip4_octets (n4_ip n) = [a, b, d, e]" by (rule octets_cases)
  then show "c \<in> set (n4_to_string n) \<Longrightarrow> ?thesis"
    using show_nat_digits by (auto simp: n4_to_string_def ip4_to_string_def show_u8_def show_u32_def)
qed

lemma cidr_text_n4: "cidr_text (n4_to_string n)"
proof -
  have not_there: "c \<notin> set (n4_to_string n)" if "to_digit 10 c = None" "c \<noteq> CHR ''.''" "c \<noteq> CHR ''/''" for c
    using n4_chars [of c n] that by auto
  have "CHR 0x0A \<notin> set (n4_to_string n)" "CHR 0x22 \<notin> set (n4_to_string n)" "CHR '' '' \<notin> set (n4_to_string n)"
    "CHR ''-'' \<notin> set (n4_to_string n)"
    by (rule not_there; simp add: to_digit_def)+
  moreover have "CHR ''-'' \<in> set ''--comment''" by simp
  ultimately show ?thesis unfolding cidr_text_def token_ok_def newline_char quote_is_char by metis
qed

definition jump_spec :: "string list" where
  "jump_spec = commented [] ''flanneld masq'' ''FLANNEL-POSTRTG''"

definition masq_specs :: "string \<Rightarrow> string \<Rightarrow> string \<Rightarrow> bool \<Rightarrow> string list list" where
  "masq_specs cluster pod multicast random_fully =
     (let masq = (\<lambda>parts. commented parts ''flanneld masq'' ''MASQUERADE'' @ (if random_fully then [''--random-fully''] else [])) in
      [commented [''-m'', ''mark'', ''--mark'', KUBE_PROXY_MARK] ''flanneld masq'' ''RETURN'',
       commented [''-s'', pod, ''-d'', cluster] ''flanneld masq'' ''RETURN'',
       commented [''-s'', cluster, ''-d'', pod] ''flanneld masq'' ''RETURN'',
       commented [''!'', ''-s'', cluster, ''-d'', pod] ''flanneld masq'' ''RETURN'',
       masq [''-s'', cluster, ''!'', ''-d'', multicast],
       masq [''!'', ''-s'', cluster, ''-d'', cluster]])"

lemma masq_rules_with_specs:
  "masq_rules_with cluster pod multicast disable supports =
     rule ''nat'' ''POSTROUTING'' jump_spec #
     map (rule ''nat'' ''FLANNEL-POSTRTG'') (masq_specs cluster pod multicast (supports \<and> \<not> disable))"
  by (simp add: masq_rules_with_def masq_specs_def jump_spec_def postrtg_rule_def add_random_fully_def rule_def Let_def)

lemma rule_fields [simp]:
  "rl_table (rule t c p) = t" "rl_action (rule t c p) = ''-A''" "rl_chain (rule t c p) = c" "rl_rulespec (rule t c p) = p"
  by (simp_all add: rule_def)

lemma token_oks:
  "token_ok False ''-A''" "token_ok False ''-s''" "token_ok False ''-d''" "token_ok False ''!''" "token_ok False ''-m''" "token_ok False ''mark''"
  "token_ok False ''--mark''" "token_ok False KUBE_PROXY_MARK" "token_ok False ''comment''" "token_ok False ''--comment''"
  "token_ok True ''flanneld masq''" "token_ok False ''-j''" "token_ok False ''RETURN''" "token_ok False ''MASQUERADE''"
  "token_ok False ''--random-fully''" "token_ok False ''FLANNEL-POSTRTG''" "token_ok False ''POSTROUTING''"
  by (simp_all add: token_ok_def newline_char quote_is_char KUBE_PROXY_MARK_def)

lemma masq_specs_lines:
  assumes "cidr_text cluster" "cidr_text pod" "cidr_text multicast" "spec \<in> set (masq_specs cluster pod multicast rf)"
  shows "line_ok (''-A'' # ''FLANNEL-POSTRTG'' # spec)"
proof -
  have c: "token_ok False cluster" "token_ok False pod" "token_ok False multicast" "cluster \<noteq> ''--comment''" "pod \<noteq> ''--comment''"
    "multicast \<noteq> ''--comment''" "KUBE_PROXY_MARK \<noteq> ''--comment''"
    using assms by (simp_all add: cidr_text_def KUBE_PROXY_MARK_def)
  from assms(4) show ?thesis
    unfolding masq_specs_def Let_def commented_def by (auto simp: line_ok_def token_oks c)
qed

lemma masq_specs_distinct: "cluster \<noteq> pod \<Longrightarrow> distinct (masq_specs cluster pod multicast rf)"
  by (simp add: masq_specs_def commented_def)

lemma masq_ruleset_ok:
  assumes "cidr_text cluster" "cidr_text pod" "cidr_text multicast" "cluster \<noteq> pod"
  shows "ruleset_ok ''nat'' (masq_rules_with cluster pod multicast disable supports)"
proof -
  let ?specs = "masq_specs cluster pod multicast (supports \<and> \<not> disable)"
  have "line_ok (''-A'' # ''POSTROUTING'' # jump_spec)" by (simp add: jump_spec_def commented_def line_ok_def token_oks)
  moreover have "list_all (\<lambda>spec. line_ok (''-A'' # ''FLANNEL-POSTRTG'' # spec)) ?specs"
    using masq_specs_lines [OF assms(1-3)] by (simp add: list_all_iff)
  moreover have "distinct (map (\<lambda>spec. (''FLANNEL-POSTRTG'', spec)) ?specs)"
    using masq_specs_distinct [OF assms(4)] by (simp add: distinct_map inj_on_def)
  ultimately show ?thesis
    unfolding ruleset_ok_def masq_rules_with_specs by (simp add: newline_char list.pred_map comp_def) auto
qed

lemma masq_flannel_chain: "r \<in> set (masq_rules_with cluster pod multicast disable supports) \<Longrightarrow> flannel_chain r = Some ''FLANNEL-POSTRTG''"
  unfolding masq_rules_with_specs
  by (cases "supports \<and> \<not> disable") (auto simp: flannel_chain_def rule_def jump_spec_def commented_def masq_specs_def Let_def)

lemma masq_chain_there:
  "list_all (\<lambda>r. rl_table r = ''nat'' \<and> chain_there t r = (t (''nat'', ''FLANNEL-POSTRTG'') \<noteq> None)) (masq_rules_with cluster pod multicast disable supports)"
  unfolding list_all_iff
proof
  fix r
  assume r: "r \<in> set (masq_rules_with cluster pod multicast disable supports)"
  then have "rl_table r = ''nat''" unfolding masq_rules_with_specs by auto
  then show "rl_table r = ''nat'' \<and> chain_there t r = (t (''nat'', ''FLANNEL-POSTRTG'') \<noteq> None)"
    using masq_flannel_chain [OF r] by (simp add: chain_there_def)
qed

lemma masq_specs_of:
  "specs_of ''POSTROUTING'' (masq_rules_with cluster pod multicast disable supports) = [jump_spec]"
  "specs_of ''FLANNEL-POSTRTG'' (masq_rules_with cluster pod multicast disable supports) = masq_specs cluster pod multicast (supports \<and> \<not> disable)"
  "c \<noteq> ''POSTROUTING'' \<Longrightarrow> c \<noteq> ''FLANNEL-POSTRTG'' \<Longrightarrow> specs_of c (masq_rules_with cluster pod multicast disable supports) = []"
  unfolding masq_rules_with_specs specs_of_def by (simp_all add: comp_def)

section \<open>Installing the masquerade rules\<close>

lemma masq_rules_ok:
  assumes "programs_ok sys IPv4 ipt iptr tab"
  shows "\<exists>s1. masq_rules sys net l disable s = (s1, masq_rules_with (n4_to_string net) (n4_to_string (subnet l)) ''224.0.0.0/4'' disable
      (it_has_random_fully ipt)) \<and> tab s1 = tab s"
proof -
  from iptables_new_ok [OF assms] obtain s1 where "iptables_new sys IPv4 s = (s1, Inr ipt)" "tab s1 = tab s" by blast
  then show ?thesis by (simp add: masq_rules_def supports_random_fully_def)
qed

lemma create_chain_ok:
  assumes "programs_ok sys proto ipt iptr tab"
  shows "tab (create_chain sys proto tbl chain s) = (tab s)((tbl, chain) \<mapsto> [])"
proof -
  from iptables_new_ok [OF assms] obtain s1 where 1: "iptables_new sys proto s = (s1, Inr ipt)" "tab s1 = tab s" by blast
  from clear_chain_ok [OF assms] obtain s2 where "clear_chain sys ipt tbl chain s1 = (s2, Inr ())" "tab s2 = (tab s1)((tbl, chain) \<mapsto> [])" by blast
  then show ?thesis using 1 by (simp add: create_chain_def then_do_def)
qed

lemma delete_tables_ok:
  assumes "programs_ok sys proto ipt iptr tab" "list_all (\<lambda>r. rl_table r = tbl \<and> chain_there (tab s) r = there) rs"
    and "there \<Longrightarrow> ruleset_ok tbl rs"
  shows "\<exists>s1. delete_tables sys proto rs s = (s1, Inr ()) \<and> tab s1 = (if there then fold drop_rule rs (tab s) else tab s)"
proof -
  from iptables_new_ok [OF assms(1)] obtain s1 where 1: "iptables_new sys proto s = (s1, Inr ipt)" "tab s1 = tab s" by blast
  from restore_new_ok [OF assms(1)] obtain s2 where 2: "restore_new sys proto s1 = (s2, Inr iptr)" "tab s2 = tab s1" by blast
  have "list_all (\<lambda>r. rl_table r = tbl \<and> chain_there (tab s2) r = there) rs" using assms(2) 1 2 by simp
  from teardown_ok [OF assms(1) this assms(3)] show ?thesis using 1 2 by (cases there) (simp_all add: delete_tables_def then_do_def)
qed

lemma setup_and_ensure_ok:
  assumes "programs_ok sys proto ipt iptr tab" "ruleset_ok tbl rs" "rs \<noteq> []"
    and "list_all (\<lambda>r. fold with_flannel_chain rs (tab s) (tbl, rl_chain r) \<noteq> None) rs"
  shows "\<exists>s1 mgr1. setup_and_ensure sys proto rs resync (s, mgr) = (s1, mgr1) \<and>
    tab s1 = fold put_rule rs (fold with_flannel_chain rs (tab s)) \<and>
    mgr1 = (add_mgr_rules proto rs mgr)\<lparr>im_tasks := im_tasks mgr @ [spawn_resync ipt iptr rs resync]\<rparr>"
proof -
  from iptables_new_ok [OF assms(1)] obtain s1 where 1: "iptables_new sys proto s = (s1, Inr ipt)" "tab s1 = tab s" by blast
  from restore_new_ok [OF assms(1)] obtain s2 where 2: "restore_new sys proto s1 = (s2, Inr iptr)" "tab s2 = tab s1" by blast
  have "list_all (\<lambda>r. fold with_flannel_chain rs (tab s2) (tbl, rl_chain r) \<noteq> None) rs" using assms(4) 1 2 by simp
  from bootstrap_ok [OF assms(1-3) this] obtain s3 where "ip_tables_bootstrap sys ipt iptr rs s2 = (s3, Inr ())"
    "tab s3 = fold put_rule rs (fold with_flannel_chain rs (tab s2))" by blast
  then show ?thesis
    using 1 2 by (simp add: setup_and_ensure_def add_mgr_rules_def split: protocol.split)
qed

lemma with_chain_idem:
  assumes "\<forall>r \<in> set rs. flannel_chain r = Some c \<and> rl_table r = tbl" "t (tbl, c) \<noteq> None"
  shows "fold with_flannel_chain rs t = t"
  using assms by (induction rs) (auto simp: with_flannel_chain_def with_chain_def)

lemma drop_rules_chain:
  assumes "t (tbl, c) = Some l" "list_all (\<lambda>r. rl_table r = tbl) rs"
  shows "fold drop_rule rs t (tbl, c) = Some (fold remove1 (specs_of c rs) l)"
  using assms
proof (induction rs arbitrary: t l)
  case (Cons r rs)
  show ?case
  proof (cases "rl_chain r = c")
    case True
    then have "drop_rule r t (tbl, c) = Some (remove1 (rl_rulespec r) l)" using Cons.prems by (simp add: drop_rule_def)
    then show ?thesis using Cons True by (simp add: specs_of_def)
  next
    case False
    then have "drop_rule r t (tbl, c) = Some l" using Cons.prems by (simp add: drop_rule_def split: option.split)
    then show ?thesis using Cons False by (simp add: specs_of_def)
  qed
qed (simp add: specs_of_def)

text \<open>Putting the set of a family in place, old rules removed first.\<close>

lemma masq_for_ok:
  assumes ok: "programs_ok sys IPv4 ipt iptr tab" and post: "tab s (''nat'', ''POSTROUTING'') = Some post"
    and old: "\<And>s. \<exists>s1. old s = (s1, masq_rules_with c0 p0 ''224.0.0.0/4'' disable supports) \<and> tab s1 = tab s"
    and new: "\<And>s. \<exists>s1. new s = (s1, masq_rules_with cluster pod ''224.0.0.0/4'' disable supports) \<and> tab s1 = tab s"
    and texts: "cidr_text cluster" "cidr_text pod" "cluster \<noteq> pod"
    and previous: "changed \<Longrightarrow> tab s (''nat'', ''FLANNEL-POSTRTG'') \<noteq> None \<Longrightarrow> cidr_text c0 \<and> cidr_text p0 \<and> c0 \<noteq> p0"
  shows "\<exists>s1 mgr1 pre. masq_for sys IPv4 changed old new resync (s, mgr) = ((s1, mgr1), Inr ()) \<and>
    tab s1 (''nat'', ''POSTROUTING'') = Some (pre @ [jump_spec]) \<and> (pre = remove1 jump_spec post \<or> pre = remove1 jump_spec (remove1 jump_spec post)) \<and>
    tab s1 (''nat'', ''FLANNEL-POSTRTG'') = Some (masq_specs cluster pod ''224.0.0.0/4'' (supports \<and> \<not> disable)) \<and>
    im_tasks mgr1 = im_tasks mgr @ [spawn_resync ipt iptr (masq_rules_with cluster pod ''224.0.0.0/4'' disable supports) resync]"
proof -
  let ?mc = "''224.0.0.0/4''"
  have mc: "cidr_text ?mc" by (simp add: cidr_text_def token_ok_def newline_char quote_is_char)
  let ?old = "masq_rules_with c0 p0 ?mc disable supports" and ?new = "masq_rules_with cluster pod ?mc disable supports"
  have del: "\<exists>s2. (if changed then (case old s of (s1, old) \<Rightarrow> delete_tables sys IPv4 old s1) else (s, Inr ())) = (s2, Inr ()) \<and>
      (tab s2 (''nat'', ''POSTROUTING'') = Some post \<or> tab s2 (''nat'', ''POSTROUTING'') = Some (remove1 jump_spec post))"
  proof (cases changed)
    case True
    from old obtain s1 where 1: "old s = (s1, ?old)" "tab s1 = tab s" by blast
    let ?there = "tab s1 (''nat'', ''FLANNEL-POSTRTG'') \<noteq> None"
    have rs: "ruleset_ok ''nat'' ?old" if ?there using previous True that 1 mc by (simp add: masq_ruleset_ok)
    from delete_tables_ok [OF ok masq_chain_there rs] obtain s2 where
      2: "delete_tables sys IPv4 ?old s1 = (s2, Inr ())" "tab s2 = (if ?there then fold drop_rule ?old (tab s1) else tab s1)" by blast
    have "list_all (\<lambda>r. rl_table r = ''nat'') ?old" using masq_chain_there by (auto simp: list_all_iff)
    then have "fold drop_rule ?old (tab s1) (''nat'', ''POSTROUTING'') = Some (remove1 jump_spec post)"
      using drop_rules_chain [of "tab s1" "''nat''" "''POSTROUTING''" post ?old] post 1 by (simp add: masq_specs_of)
    then show ?thesis using 1 2 post True by (cases ?there) simp_all
  qed (use post in simp)
  then obtain s2 post2 where s2: "(if changed then (case old s of (s1, old) \<Rightarrow> delete_tables sys IPv4 old s1) else (s, Inr ())) = (s2, Inr ())"
    "tab s2 (''nat'', ''POSTROUTING'') = Some post2" "post2 = post \<or> post2 = remove1 jump_spec post" by blast
  let ?s3 = "create_chain sys IPv4 ''nat'' ''FLANNEL-POSTRTG'' s2"
  from new obtain s4 where s4: "new ?s3 = (s4, ?new)" "tab s4 = (tab s2)((''nat'', ''FLANNEL-POSTRTG'') \<mapsto> [])"
    using create_chain_ok [OF ok] by metis
  have idem: "fold with_flannel_chain ?new (tab s4) = tab s4"
    using masq_flannel_chain masq_chain_there [of "tab s4" cluster] by (intro with_chain_idem) (auto simp: list_all_iff s4(2))
  have chains: "list_all (\<lambda>r. fold with_flannel_chain ?new (tab s4) (''nat'', rl_chain r) \<noteq> None) ?new"
    unfolding idem list_all_iff using s4(2) s2(2) by (auto simp: masq_rules_with_specs)
  have rs: "ruleset_ok ''nat'' ?new" using masq_ruleset_ok [OF texts(1,2) mc texts(3)] .
  have "?new \<noteq> []" by (simp add: masq_rules_with_specs)
  from setup_and_ensure_ok [OF ok rs this chains] obtain s5 mgr1 where
    s5: "setup_and_ensure sys IPv4 ?new resync (s4, mgr) = (s5, mgr1)" "tab s5 = fold put_rule ?new (tab s4)"
      "im_tasks mgr1 = im_tasks mgr @ [spawn_resync ipt iptr ?new resync]" unfolding idem by fastforce
  have one: "list_all (\<lambda>r. rl_table r = ''nat'') ?new" "distinct (map (\<lambda>r. (rl_chain r, rl_rulespec r)) ?new)"
    using rs by (auto simp: ruleset_ok_def list_all_iff)
  have "tab s5 (''nat'', ''POSTROUTING'') = Some (remove1 jump_spec post2 @ [jump_spec])"
    using fold_put_rule_chain [OF one, of "tab s4" "''POSTROUTING''" post2] s4(2) s2(2) s5(2) by (simp add: masq_specs_of)
  moreover have "fold remove1 (masq_specs cluster pod ?mc (supports \<and> \<not> disable)) [] = []"
    by (simp add: masq_specs_def)
  then have "tab s5 (''nat'', ''FLANNEL-POSTRTG'') = Some (masq_specs cluster pod ?mc (supports \<and> \<not> disable))"
    using fold_put_rule_chain [OF one, of "tab s4" "''FLANNEL-POSTRTG''" "[]"] s4(2) s5(2) by (simp add: masq_specs_of)
  ultimately show ?thesis
    using s2 s4(1) s5(1,3) by (auto simp: masq_for_def)
qed

lemma filter_remove1_neq: "filter (\<lambda>x. x \<noteq> y) (remove1 y xs) = filter (\<lambda>x. x \<noteq> y) xs"
  by (induction xs) auto

lemma remove1_at_most_once: "count_list xs y \<le> 1 \<Longrightarrow> y \<notin> set (remove1 y xs)"
  by (induction xs) (auto split: if_splits simp: count_list_0_iff)


lemma fold_put_rule_present:
  assumes "list_all (\<lambda>r. rl_table r = tbl \<and> t (tbl, rl_chain r) \<noteq> None) rs" "distinct (map (\<lambda>r. (rl_chain r, rl_rulespec r)) rs)" "r \<in> set rs"
  shows "rule_in (fold put_rule rs t) r"
proof -
  from assms(1,3) obtain l where l: "rl_table r = tbl" "t (tbl, rl_chain r) = Some l" by (auto simp: list_all_iff)
  have "list_all (\<lambda>r. rl_table r = tbl) rs" using assms(1) by (auto simp: list_all_iff)
  from fold_put_rule_chain [of tbl rs t "rl_chain r" l, OF this assms(2) l(2)] show ?thesis using l(1) assms(3) by (auto simp: has_rule_def specs_of_def)
qed


section \<open>Programs on a table of rules\<close>

abbreviation ok_output :: "string \<Rightarrow> process_output" where
  "ok_output out \<equiv> \<lparr>po_success = True, po_status = ''exit status: 0'', po_code = Some 0, po_stdout = out, po_stderr = []\<rparr>"

abbreviation bad_output :: "string \<Rightarrow> process_output" where
  "bad_output err \<equiv> \<lparr>po_success = False, po_status = ''exit status: 1'', po_code = Some 1, po_stdout = [], po_stderr = err\<rparr>"

definition table_iptables :: "string list \<Rightarrow> tables \<Rightarrow> tables \<times> (string + process_output)" where
  "table_iptables args t =
     (case args of
        _ # tbl # flag # chain # spec \<Rightarrow>
          (case t (tbl, chain) of
             None \<Rightarrow> if flag = ''-N'' then (t((tbl, chain) \<mapsto> []), Inr (ok_output [])) else (t, Inr (bad_output ''No chain/target/match by that name''))
           | Some rs \<Rightarrow>
               if flag = ''-N'' then (t, Inr (bad_output ''Chain already exists''))
               else if flag = ''-F'' then (t((tbl, chain) \<mapsto> []), Inr (ok_output []))
               else if flag = ''-nL'' \<or> spec \<in> set rs then (t, Inr (ok_output []))
               else (t, Inr (bad_output ''does a matching rule exist in that chain?'')))
      | _ \<Rightarrow> (t, Inr (ok_output ''iptables v1.8.7'')))"

definition table_system :: "tables system" where
  "table_system = \<lparr>sy_path_var = Some ''/sbin'', sy_executable = (\<lambda>_. True),
     sy_exec = (\<lambda>path args input t.
       if path = ''/sbin/iptables-restore'' then
         (case Option.bind (read_payload input) (\<lambda>m. apply_blocks m t) of
            Some t' \<Rightarrow> (t', Inr (ok_output []))
          | None \<Rightarrow> (t, Inr (bad_output ''failed'')))
       else table_iptables (case args of a # as \<Rightarrow> if a = ''-w'' then as else args | [] \<Rightarrow> []) t)\<rparr>"

definition sample_ipt :: iptables where
  "sample_ipt = \<lparr>it_path = ''/sbin/iptables'', it_has_wait = True, it_has_random_fully = True\<rparr>"

definition sample_iptr :: iptables_restore where
  "sample_iptr = \<lparr>ir_path = ''/sbin/iptables-restore'', ir_has_wait = True\<rparr>"

lemma table_programs_ok: "programs_ok table_system IPv4 sample_ipt sample_iptr (\<lambda>t. t)"
proof -
  have paths: "look_path table_system ''iptables'' = Some ''/sbin/iptables''"
    "look_path table_system ''iptables-restore'' = Some ''/sbin/iptables-restore''" by code_simp+
  have version: "parse_version ''iptables v1.8.7'' = Inr (1, 8, 7)" by code_simp
  have messages: "is_not_exist ''No chain/target/match by that name''" "is_not_exist ''does a matching rule exist in that chain?''"
    "is_exist ''Chain already exists''" by code_simp+
  have exec: "sy_exec table_system ''/sbin/iptables'' (''-w'' # args) [] = table_iptables args" for args
    by (simp add: table_system_def fun_eq_iff)
  have "iptables_ok (\<lambda>args. sy_exec table_system ''/sbin/iptables'' (wait_args sample_ipt args) []) (\<lambda>t. t)"
    unfolding wait_args_def sample_ipt_def iptables_ok_def table_chain_def
    by (auto simp: exec table_iptables_def answers_def refuses_def has_rule_def messages split: option.split)
  moreover have "restore_ok (sy_exec table_system ''/sbin/iptables-restore'' (restore_args sample_iptr)) (\<lambda>t. t)"
    by (simp add: restore_ok_def answers_def table_system_def)
  moreover have "answers (\<lambda>t. t) t (\<lambda>out. po_success out \<and> parse_version (po_stdout out) = Inr (1, 8, 7))
      (sy_exec table_system ''/sbin/iptables'' [''--version''] [] t)" for t
    by (simp add: answers_def table_system_def table_iptables_def version)
  moreover have "has_wait_support (1, 8, 7)" "has_random_fully_support (1, 8, 7)" "ip_tables_has_wait_support (1, 8, 7)"
    by (simp_all add: has_wait_support_def has_random_fully_support_def ip_tables_has_wait_support_def version_from_def)
  ultimately show ?thesis
    unfolding programs_ok_def using paths by (auto simp: proto_cmd_def restore_command_def sample_ipt_def sample_iptr_def intro!: exI [of _ "(1, 8, 7)"])
qed

definition sample_tables :: tables where
  "sample_tables = [(''nat'', ''POSTROUTING'') \<mapsto> [[''-j'', ''KUBE-POSTROUTING'']]]"

definition sample_cluster :: ip4net where "sample_cluster = \<lparr>n4_ip = IP4 0x0AF40000, n4_prefix_len = 16\<rparr>"

definition sample_pod_lease :: lease where
  "sample_pod_lease = prev_lease \<lparr>n4_ip = IP4 0x0AF40500, n4_prefix_len = 24\<rparr> ip6net_default"

lemma sample_texts:
  "n4_to_string sample_cluster = ''10.244.0.0/16''" "n4_to_string (subnet sample_pod_lease) = ''10.244.5.0/24''"
  by code_simp+



end
