(* ===== verification/Nftables.thy ===== *)
theory Nftables
  imports World Lease
begin

text \<open>
  The nftables traffic manager: \<open>trafficmngr/nft.rs\<close> (scripts and the \<open>nft\<close> program), \<open>nftables_masq.rs\<close> (the
  masquerade rules) and \<open>nftables.rs\<close> (the manager). The \<open>nft\<close> program is run through a parameter. \<open>ctx\<close>
  tells whether the context is found cancelled while the program is awaited. A failure to write its
  standard input or to wait for it counts as a failure to run it.
\<close>

section \<open>Scripts\<close>

datatype family = Ip | Ip6

definition family_str :: "family \<Rightarrow> string" where
  "family_str f = (case f of Ip \<Rightarrow> ''ip'' | Ip6 \<Rightarrow> ''ip6'')"

definition concat_parts :: "string list \<Rightarrow> string" where
  "concat_parts parts = join_with '' '' parts"

definition NAT_TYPE :: string where "NAT_TYPE = ''nat''"

definition FILTER_TYPE :: string where "FILTER_TYPE = ''filter''"

definition FORWARD_HOOK :: string where "FORWARD_HOOK = ''forward''"

definition POSTROUTING_HOOK :: string where "POSTROUTING_HOOK = ''postrouting''"

definition FILTER_PRIORITY :: string where "FILTER_PRIORITY = ''0''"

definition SNAT_PRIORITY :: string where "SNAT_PRIORITY = ''100''"

record nft_chain =
  cd_name :: string
  cd_comment :: "string option"
  cd_typ :: "string option"
  cd_hook :: "string option"
  cd_priority :: "string option"

record transaction =
  tx_family :: family
  tx_table :: string
  tx_modern :: bool
  tx_lines :: "string list"

definition transaction_new :: "family \<Rightarrow> string \<Rightarrow> bool \<Rightarrow> transaction" where
  "transaction_new f name modern = \<lparr>tx_family = f, tx_table = name, tx_modern = modern, tx_lines = []\<rparr>"

text \<open>\<open>{:?}\<close> of a text without control characters.\<close>

definition debug_text :: "string \<Rightarrow> string" where
  "debug_text s =
     (let q = char_of (34 :: nat); b = char_of (92 :: nat) in
      q # concat (map (\<lambda>c. if c = q \<or> c = b then [b, c] else [c]) s) @ [q])"

definition push_line :: "string \<Rightarrow> transaction \<Rightarrow> transaction" where
  "push_line l tx = tx\<lparr>tx_lines := tx_lines tx @ [l]\<rparr>"

definition add_table :: "string option \<Rightarrow> transaction \<Rightarrow> transaction" where
  "add_table comment tx =
     push_line (''add table '' @ family_str (tx_family tx) @ '' '' @ tx_table tx @
       (case comment of Some c \<Rightarrow> if tx_modern tx then '' comment '' @ debug_text c else [] | None \<Rightarrow> [])) tx"

definition opt_attr :: "string \<Rightarrow> string option \<Rightarrow> string list" where
  "opt_attr key v = (case v of Some x \<Rightarrow> [key @ x] | None \<Rightarrow> [])"

definition chain_attrs :: "bool \<Rightarrow> nft_chain \<Rightarrow> string list" where
  "chain_attrs modern def =
     opt_attr ''comment '' (map_option debug_text (cd_comment def)) @
     (if modern then opt_attr ''type '' (cd_typ def) @ opt_attr ''hook '' (cd_hook def) @ opt_attr ''priority '' (cd_priority def)
      else if cd_typ def \<noteq> None \<or> cd_hook def \<noteq> None \<or> cd_priority def \<noteq> None
      then [concat (opt_attr ''type '' (cd_typ def) @ opt_attr '' hook '' (cd_hook def) @ opt_attr '' priority '' (cd_priority def))]
      else [])"

definition add_chain :: "nft_chain \<Rightarrow> transaction \<Rightarrow> transaction" where
  "add_chain def tx =
     (let attrs = chain_attrs (tx_modern tx) def;
          head = ''add chain '' @ family_str (tx_family tx) @ '' '' @ tx_table tx @ '' '' @ cd_name def
      in push_line (if attrs = [] then head else head @ '' { '' @ join_with '' ; '' attrs @ '' ; }'') tx)"

definition flush_chain :: "string \<Rightarrow> transaction \<Rightarrow> transaction" where
  "flush_chain name tx = push_line (''flush chain '' @ family_str (tx_family tx) @ '' '' @ tx_table tx @ '' '' @ name) tx"

definition add_rule :: "string \<Rightarrow> string \<Rightarrow> transaction \<Rightarrow> transaction" where
  "add_rule chain text_of_rule tx =
     push_line (''add rule '' @ family_str (tx_family tx) @ '' '' @ tx_table tx @ '' '' @ chain @ '' '' @ text_of_rule) tx"

definition delete_table :: "transaction \<Rightarrow> transaction" where
  "delete_table tx = push_line (''delete table '' @ family_str (tx_family tx) @ '' '' @ tx_table tx) tx"

definition render :: "transaction \<Rightarrow> string" where
  "render tx = (if tx_lines tx = [] then [] else join_with [newline] (tx_lines tx) @ [newline])"

section \<open>The nft program\<close>

record nft =
  nf_family :: family
  nf_table :: string
  nf_path :: string
  nf_modern :: bool

definition nft_look_path :: "'s system \<Rightarrow> string \<Rightarrow> string option" where
  "nft_look_path sys bin =
     (case sy_path_var sys of
        None \<Rightarrow> None
      | Some paths \<Rightarrow> find (sy_executable sys) (map (\<lambda>dir. path_join dir bin) (split_on (CHR '':'') paths)))"

definition exec_script :: "('s \<Rightarrow> bool) \<Rightarrow> 's system \<Rightarrow> string \<Rightarrow> bool \<Rightarrow> string \<Rightarrow> ('s, string, unit) step" where
  "exec_script ctx sys path check script =
     then_do (on_err (\<lambda>e. ''nft spawn failed: '' @ e) (sy_exec sys path ((if check then [''-c''] else []) @ [''-f'', ''-'']) script)) (\<lambda>out s.
     (s, if ctx s then Inl ''nft run cancelled''
         else if po_success out then Inr ()
         else Inl (''nft run failed: '' @ (if trim (po_stderr out) = [] then trim (po_stdout out) else trim (po_stderr out)))))"

definition probe_script :: "family \<Rightarrow> string" where
  "probe_script f =
     ''add table '' @ family_str f @ '' flannel-syntax-probe comment '' @ debug_text ''probe'' @ [newline] @
     ''add chain '' @ family_str f @ '' flannel-syntax-probe probe { comment '' @ debug_text ''probe'' @
     '' ; type filter ; hook forward ; priority 0 ; }'' @ [newline]"

definition probe_modern_syntax :: "'s system \<Rightarrow> string \<Rightarrow> family \<Rightarrow> 's \<Rightarrow> 's \<times> bool" where
  "probe_modern_syntax sys path f s =
     (case exec_script (\<lambda>_. False) sys path True (probe_script f) s of (s1, r) \<Rightarrow> (s1, r = Inr ()))"

definition nft_new :: "'s system \<Rightarrow> family \<Rightarrow> string \<Rightarrow> ('s, string, nft) step" where
  "nft_new sys f name =
     then_do (lift_result (ok_or ''no nftables support: nft binary not found'' (nft_look_path sys ''nft''))) (\<lambda>path s.
     case probe_modern_syntax sys path f s of (s1, modern) \<Rightarrow>
       (s1, Inr \<lparr>nf_family = f, nf_table = name, nf_path = path, nf_modern = modern\<rparr>))"

definition new_transaction :: "nft \<Rightarrow> transaction" where
  "new_transaction n = transaction_new (nf_family n) (nf_table n) (nf_modern n)"

definition nft_run :: "('s \<Rightarrow> bool) \<Rightarrow> 's system \<Rightarrow> nft \<Rightarrow> transaction \<Rightarrow> ('s, string, unit) step" where
  "nft_run ctx sys n tx = exec_script ctx sys (nf_path n) False (render tx)"

definition nft_check :: "('s \<Rightarrow> bool) \<Rightarrow> 's system \<Rightarrow> nft \<Rightarrow> transaction \<Rightarrow> ('s, string, unit) step" where
  "nft_check ctx sys n tx = exec_script ctx sys (nf_path n) True (render tx)"

section \<open>Rules\<close>

definition IPV4_TABLE :: string where "IPV4_TABLE = ''flannel-ipv4''"

definition IPV6_TABLE :: string where "IPV6_TABLE = ''flannel-ipv6''"

definition FORWARD_CHAIN :: string where "FORWARD_CHAIN = ''forward''"

definition POSTRTG_CHAIN :: string where "POSTRTG_CHAIN = ''postrtg''"

definition MASQUERADE_TEST_CHAIN :: string where "MASQUERADE_TEST_CHAIN = ''masqueradeTest''"

definition MASQ_FULLY_RANDOM :: string where "MASQ_FULLY_RANDOM = ''masquerade fully-random''"

definition MASQ_PLAIN :: string where "MASQ_PLAIN = ''masquerade''"

definition chain_def :: "string \<Rightarrow> string \<Rightarrow> string \<Rightarrow> string \<Rightarrow> string \<Rightarrow> nft_chain" where
  "chain_def name comment typ hook priority =
     \<lparr>cd_name = name, cd_comment = Some comment, cd_typ = Some typ, cd_hook = Some hook, cd_priority = Some priority\<rparr>"

definition masq_rule_texts :: "string \<Rightarrow> string \<Rightarrow> string \<Rightarrow> string \<Rightarrow> string list" where
  "masq_rule_texts cluster_cidr pod_cidr f masquerade =
     (let multicast_cidr = (if f = family_str Ip6 then ''ff00::/8'' else ''224.0.0.0/4'') in
      [concat_parts [''meta mark'', ''0x4000'', ''return''],
       concat_parts [f, ''saddr'', pod_cidr, f, ''daddr'', cluster_cidr, ''return''],
       concat_parts [f, ''saddr'', cluster_cidr, f, ''daddr'', pod_cidr, ''return''],
       concat_parts [f, ''saddr'', ''!='', pod_cidr, f, ''daddr'', cluster_cidr, ''return''],
       concat_parts [f, ''saddr'', cluster_cidr, f, ''daddr'', ''!='', multicast_cidr, masquerade],
       concat_parts [f, ''saddr'', ''!='', cluster_cidr, f, ''daddr'', cluster_cidr, masquerade]])"

definition masquerade_test_tx :: "bool \<Rightarrow> transaction" where
  "masquerade_test_tx modern =
     add_rule MASQUERADE_TEST_CHAIN (concat_parts [''ip saddr'', ''!='', ''127.0.0.1'', MASQ_FULLY_RANDOM])
       (flush_chain MASQUERADE_TEST_CHAIN
         (add_chain (chain_def MASQUERADE_TEST_CHAIN ''chain to test if masquerade random fully is supported'' NAT_TYPE POSTROUTING_HOOK SNAT_PRIORITY)
           (transaction_new Ip IPV4_TABLE modern)))"

definition table_name :: "family \<Rightarrow> string" where
  "table_name f = (case f of Ip \<Rightarrow> IPV4_TABLE | Ip6 \<Rightarrow> IPV6_TABLE)"

definition forward_tx :: "family \<Rightarrow> bool \<Rightarrow> string \<Rightarrow> transaction" where
  "forward_tx f modern network =
     add_rule FORWARD_CHAIN (concat_parts [family_str f, ''daddr'', network, ''accept''])
       (add_rule FORWARD_CHAIN (concat_parts [family_str f, ''saddr'', network, ''accept''])
         (flush_chain FORWARD_CHAIN
           (add_chain (chain_def FORWARD_CHAIN ''chain to accept flannel traffic'' FILTER_TYPE FORWARD_HOOK FILTER_PRIORITY)
             (transaction_new f (table_name f) modern))))"

section \<open>The manager\<close>

record nft_manager =
  nm_v4 :: "nft option"
  nm_v6 :: "nft option"

definition nft_handle :: "nft option \<Rightarrow> string \<Rightarrow> string + nft" where
  "nft_handle slot which = ok_or (''nftables: '' @ which @ '' handle not initialised (Init not called)'') slot"

definition check_random_fully :: "('s \<Rightarrow> bool) \<Rightarrow> 's system \<Rightarrow> nft_manager \<Rightarrow> 's \<Rightarrow> 's \<times> bool" where
  "check_random_fully ctx sys mgr s =
     (case nft_handle (nm_v4 mgr) ''ipv4'' of
        Inl _ \<Rightarrow> (s, False)
      | Inr n \<Rightarrow> (case nft_check ctx sys n (masquerade_test_tx (nf_modern n)) s of (s1, r) \<Rightarrow> (s1, r = Inr ())))"

definition add_masq_rules ::
  "('s \<Rightarrow> bool) \<Rightarrow> 's system \<Rightarrow> nft_manager \<Rightarrow> transaction \<Rightarrow> string \<Rightarrow> string \<Rightarrow> family \<Rightarrow> bool \<Rightarrow> 's \<Rightarrow> 's \<times> transaction" where
  "add_masq_rules ctx sys mgr tx cluster_cidr pod_cidr f random_fully_disabled s =
     (let (s1, supported) = check_random_fully ctx sys mgr s;
          masquerade = (if supported \<and> \<not> random_fully_disabled then MASQ_FULLY_RANDOM else MASQ_PLAIN)
      in (s1, fold (add_rule POSTRTG_CHAIN) (masq_rule_texts cluster_cidr pod_cidr (family_str f) masquerade) tx))"

definition init_table :: "('s \<Rightarrow> bool) \<Rightarrow> 's system \<Rightarrow> family \<Rightarrow> string \<Rightarrow> ('s, string, nft) step" where
  "init_table ctx sys f name =
     then_do (nft_new sys f name) (\<lambda>n.
     then_do (on_err (\<lambda>e. ''nftables: couldn't initialise table '' @ name @ '': '' @ e)
       (nft_run ctx sys n (add_table (Some (''rules for '' @ name)) (new_transaction n)))) (\<lambda>_. give n))"

definition clean_up_table :: "('s \<Rightarrow> bool) \<Rightarrow> 's system \<Rightarrow> family \<Rightarrow> 's \<Rightarrow> 's" where
  "clean_up_table ctx sys f s =
     fst (then_do (nft_new sys f (table_name f)) (\<lambda>n. nft_run ctx sys n (delete_table (new_transaction n))) s)"

definition ensure_forward :: "('s \<Rightarrow> bool) \<Rightarrow> 's system \<Rightarrow> nft option \<Rightarrow> string \<Rightarrow> string \<Rightarrow> 's \<Rightarrow> 's" where
  "ensure_forward ctx sys slot which net s =
     fst (then_do (lift_result (nft_handle slot which)) (\<lambda>n. nft_run ctx sys n (forward_tx (nf_family n) (nf_modern n) net)) s)"

definition nft_clean_up :: "('s \<Rightarrow> bool) \<Rightarrow> 's system \<Rightarrow> ('s, string, unit) step" where
  "nft_clean_up ctx sys s = (clean_up_table ctx sys Ip6 (clean_up_table ctx sys Ip s), Inr ())"

definition nft_init :: "('s \<Rightarrow> bool) \<Rightarrow> 's system \<Rightarrow> ('s \<times> nft_manager, string, unit) step" where
  "nft_init ctx sys st =
     (let (s, mgr) = st in
      case init_table ctx sys Ip IPV4_TABLE s of
        (s1, Inl e) \<Rightarrow> ((s1, mgr), Inl e)
      | (s1, Inr v4) \<Rightarrow>
          (case init_table ctx sys Ip6 IPV6_TABLE s1 of
             (s2, Inl e) \<Rightarrow> ((s2, mgr\<lparr>nm_v4 := Some v4\<rparr>), Inl e)
           | (s2, Inr v6) \<Rightarrow> ((s2, mgr\<lparr>nm_v4 := Some v4, nm_v6 := Some v6\<rparr>), Inr ())))"

definition setup_masq ::
  "('s \<Rightarrow> bool) \<Rightarrow> 's system \<Rightarrow> nft_manager \<Rightarrow> nft option \<Rightarrow> string \<Rightarrow> string \<Rightarrow> string \<Rightarrow> family \<Rightarrow> bool \<Rightarrow> ('s, string, unit) step" where
  "setup_masq ctx sys mgr slot which cluster_cidr pod_cidr f random_fully_disabled =
     then_do (lift_result (nft_handle slot which)) (\<lambda>n s.
     let tx = flush_chain POSTRTG_CHAIN
           (add_chain (chain_def POSTRTG_CHAIN ''chain to manage traffic masquerading by flannel'' NAT_TYPE POSTROUTING_HOOK SNAT_PRIORITY)
             (new_transaction n));
         (s1, tx1) = add_masq_rules ctx sys mgr tx cluster_cidr pod_cidr f random_fully_disabled s
     in on_err (\<lambda>e. ''nftables: couldn't setup masq rules: '' @ e) (nft_run ctx sys n tx1) s1)"

definition nft_setup_masq_rules ::
  "('s \<Rightarrow> bool) \<Rightarrow> 's system \<Rightarrow> nft_manager \<Rightarrow> ip4net \<Rightarrow> ip6net \<Rightarrow> lease \<Rightarrow> bool \<Rightarrow> ('s, string, unit) step" where
  "nft_setup_masq_rules ctx sys mgr network v6_network l random_fully_disabled =
     then_do (if n4_empty network then give ()
       else setup_masq ctx sys mgr (nm_v4 mgr) ''ipv4'' (n4_to_string network) (n4_to_string (subnet l)) Ip random_fully_disabled) (\<lambda>_.
     if n6_empty v6_network then give ()
     else setup_masq ctx sys mgr (nm_v6 mgr) ''ipv6'' (n6_to_string v6_network) (n6_to_string (ipv6_subnet l)) Ip6 random_fully_disabled)"

definition nft_setup_forward_rules :: "('s \<Rightarrow> bool) \<Rightarrow> 's system \<Rightarrow> nft_manager \<Rightarrow> ip4net \<Rightarrow> ip6net \<Rightarrow> 's \<Rightarrow> 's" where
  "nft_setup_forward_rules ctx sys mgr network v6_network s =
     (let s1 = (if n4_empty network then s else ensure_forward ctx sys (nm_v4 mgr) ''ipv4'' (n4_to_string network) s) in
      if n6_empty v6_network then s1 else ensure_forward ctx sys (nm_v6 mgr) ''ipv6'' (n6_to_string v6_network) s1)"

end
