(* ===== verification/Masquerade.thy ===== *)
theory Masquerade
  imports IptablesRules Nftables
begin

text \<open>
  Which packets the installed rules masquerade. The meaning of the match options and expressions that the rules
  use is written out for IPv4; the rules are those that the iptables and the nftables manager install.
\<close>

section \<open>Packets and matches\<close>

record packet =
  pk_src :: ip4
  pk_dst :: ip4
  pk_mark :: u32

datatype verdict = Pass | Masq

definition in_cidr :: "string \<Rightarrow> ip4 \<Rightarrow> bool" where
  "in_cidr c ip = (case n4_from_str c of Inr n \<Rightarrow> n4_contains n ip | Inl _ \<Rightarrow> False)"

text \<open>A hexadecimal number with its prefix.\<close>

definition hex_word :: "string \<Rightarrow> u32" where
  "hex_word s = of_nat (digits_value 16 (drop 2 s))"

definition mark_matches :: "string \<Rightarrow> u32 \<Rightarrow> bool" where
  "mark_matches a m =
     (case split_once (CHR ''/'') a of Some (v, k) \<Rightarrow> m AND hex_word k = hex_word v | None \<Rightarrow> m = hex_word a)"

subsection \<open>iptables\<close>

text \<open>Options with one argument each; \<open>!\<close> negates the next one.\<close>

fun spec_matches :: "bool \<Rightarrow> string list \<Rightarrow> packet \<Rightarrow> bool" where
  "spec_matches neg [] p \<longleftrightarrow> True"
| "spec_matches neg [t] p \<longleftrightarrow> True"
| "spec_matches neg (t # a # ts) p \<longleftrightarrow>
     (if t = ''!'' then spec_matches True (a # ts) p
      else (t = ''-s'' \<longrightarrow> in_cidr a (pk_src p) \<noteq> neg) \<and> (t = ''-d'' \<longrightarrow> in_cidr a (pk_dst p) \<noteq> neg) \<and>
        (t = ''--mark'' \<longrightarrow> mark_matches a (pk_mark p) \<noteq> neg) \<and> spec_matches False ts p)"

fun spec_target :: "string list \<Rightarrow> string option" where
  "spec_target [] = None"
| "spec_target [t] = None"
| "spec_target (t # a # ts) =
     (if t = ''-j'' then Some a else if t = ''!'' then spec_target (a # ts) else spec_target ts)"

text \<open>The first matching rule with a final target decides.\<close>

fun chain_verdict :: "string list list \<Rightarrow> packet \<Rightarrow> verdict" where
  "chain_verdict [] p = Pass"
| "chain_verdict (spec # rest) p =
     (if spec_matches False spec p \<and> spec_target spec = Some ''RETURN'' then Pass
      else if spec_matches False spec p \<and> spec_target spec = Some ''MASQUERADE'' then Masq
      else chain_verdict rest p)"

subsection \<open>nftables\<close>

definition nft_field :: "string \<Rightarrow> string \<Rightarrow> packet \<Rightarrow> bool" where
  "nft_field key a p =
     (if key = ''saddr'' then in_cidr a (pk_src p)
      else if key = ''daddr'' then in_cidr a (pk_dst p)
      else key = ''mark'' \<and> pk_mark p = hex_word a)"

text \<open>Matches of a rule in order, then its statement; \<open>None\<close> when a match fails.\<close>

fun nft_rule :: "string list \<Rightarrow> packet \<Rightarrow> verdict option" where
  "nft_rule [] p = None"
| "nft_rule (t # ts) p =
     (if t = ''return'' then Some Pass
      else if t = ''masquerade'' then Some Masq
      else case ts of
          key # a # rest \<Rightarrow>
            if a = ''!='' then (case rest of c # rest' \<Rightarrow> if nft_field key c p then None else nft_rule rest' p | [] \<Rightarrow> None)
            else if nft_field key a p then nft_rule rest p else None
        | _ \<Rightarrow> None)"

fun nft_verdict :: "string list \<Rightarrow> packet \<Rightarrow> verdict" where
  "nft_verdict [] p = Pass"
| "nft_verdict (text_of_rule # rest) p =
     (case nft_rule (split_on (CHR '' '') text_of_rule) p of Some v \<Rightarrow> v | None \<Rightarrow> nft_verdict rest p)"

section \<open>The iptables rules\<close>

lemma in_cidr_n4: "n4_wf n \<Longrightarrow> in_cidr (n4_to_string n) ip \<longleftrightarrow> ip \<in> n4_addrs n"
proof -
  assume wf: "n4_wf n"
  have "n4_contains (n4_network n) ip = n4_contains n ip"
    by (simp add: n4_contains_def n4_network_def n4_mask_def and.assoc)
  then show ?thesis by (simp add: in_cidr_def n4_from_str_to_string wf n4_contains_iff)
qed

definition multicast_net :: ip4net where "multicast_net = \<lparr>n4_ip = IP4 0xE0000000, n4_prefix_len = 4\<rparr>"

lemma multicast_text: "''224.0.0.0/4'' = n4_to_string multicast_net" by code_simp

definition kube_marked :: "packet \<Rightarrow> bool" where
  "kube_marked p \<longleftrightarrow> pk_mark p AND 0x4000 = 0x4000"

lemma kube_mark_matches: "mark_matches KUBE_PROXY_MARK (pk_mark p) \<longleftrightarrow> kube_marked p"
proof -
  have "split_once (CHR ''/'') KUBE_PROXY_MARK = Some (''0x4000'', ''0x4000'')" "hex_word ''0x4000'' = 0x4000" by code_simp+
  then show ?thesis by (simp add: mark_matches_def kube_marked_def)
qed

definition rf_tail :: "bool \<Rightarrow> string list" where
  "rf_tail random_fully = (if random_fully then [''--random-fully''] else [])"

lemma tail_matches: "spec_matches False (commented [] c j @ rf_tail rf) p" "spec_target (commented [] c j @ rf_tail rf) = Some j"
  by (simp_all add: commented_def rf_tail_def)

lemma rule_matches:
  "spec_matches False (commented [''-m'', ''mark'', ''--mark'', a] c j @ rf_tail rf) p \<longleftrightarrow> mark_matches a (pk_mark p)"
  "spec_matches False (commented [''-s'', a, ''-d'', b] c j @ rf_tail rf) p \<longleftrightarrow> in_cidr a (pk_src p) \<and> in_cidr b (pk_dst p)"
  "spec_matches False (commented [''!'', ''-s'', a, ''-d'', b] c j @ rf_tail rf) p \<longleftrightarrow> \<not> in_cidr a (pk_src p) \<and> in_cidr b (pk_dst p)"
  "spec_matches False (commented [''-s'', a, ''!'', ''-d'', b] c j @ rf_tail rf) p \<longleftrightarrow> in_cidr a (pk_src p) \<and> \<not> in_cidr b (pk_dst p)"
  using tail_matches(1) [of c j rf p] by (simp_all add: commented_def)

lemma rule_targets:
  "spec_target (commented [''-m'', ''mark'', ''--mark'', a] c j @ rf_tail rf) = Some j"
  "spec_target (commented [''-s'', a, ''-d'', b] c j @ rf_tail rf) = Some j"
  "spec_target (commented [''!'', ''-s'', a, ''-d'', b] c j @ rf_tail rf) = Some j"
  "spec_target (commented [''-s'', a, ''!'', ''-d'', b] c j @ rf_tail rf) = Some j"
  using tail_matches(2) [of c j rf] by (simp_all add: commented_def)

lemma masq_specs_tail:
  "masq_specs cluster pod multicast rf =
     [commented [''-m'', ''mark'', ''--mark'', KUBE_PROXY_MARK] ''flanneld masq'' ''RETURN'' @ rf_tail False,
      commented [''-s'', pod, ''-d'', cluster] ''flanneld masq'' ''RETURN'' @ rf_tail False,
      commented [''-s'', cluster, ''-d'', pod] ''flanneld masq'' ''RETURN'' @ rf_tail False,
      commented [''!'', ''-s'', cluster, ''-d'', pod] ''flanneld masq'' ''RETURN'' @ rf_tail False,
      commented [''-s'', cluster, ''!'', ''-d'', multicast] ''flanneld masq'' ''MASQUERADE'' @ rf_tail rf,
      commented [''!'', ''-s'', cluster, ''-d'', cluster] ''flanneld masq'' ''MASQUERADE'' @ rf_tail rf]"
  by (simp add: masq_specs_def rf_tail_def)

lemma chain_verdict_return:
  "spec_target spec = Some ''RETURN'' \<Longrightarrow> chain_verdict (spec # rest) p = (if spec_matches False spec p then Pass else chain_verdict rest p)"
  by simp

lemma chain_verdict_masq:
  "spec_target spec = Some ''MASQUERADE'' \<Longrightarrow> chain_verdict (spec # rest) p = (if spec_matches False spec p then Masq else chain_verdict rest p)"
  by simp

lemma iptables_verdict:
  assumes "n4_wf cluster" "n4_wf pod"
  shows "chain_verdict (masq_specs (n4_to_string cluster) (n4_to_string pod) ''224.0.0.0/4'' random_fully) p = Masq \<longleftrightarrow>
    \<not> kube_marked p \<and> pk_dst p \<notin> n4_addrs pod \<and> \<not> (pk_src p \<in> n4_addrs pod \<and> pk_dst p \<in> n4_addrs cluster) \<and>
    (if pk_src p \<in> n4_addrs cluster then pk_dst p \<notin> n4_addrs multicast_net else pk_dst p \<in> n4_addrs cluster)"
proof -
  have mc: "n4_wf multicast_net" by (simp add: multicast_net_def)
  have mct: "''224.0.0.0/4'' = n4_to_string multicast_net" by (rule multicast_text)
  have empty: "chain_verdict [] p = Pass" by simp
  show ?thesis
    unfolding masq_specs_tail mct
      chain_verdict_return [OF rule_targets(1)] chain_verdict_return [OF rule_targets(2)] chain_verdict_return [OF rule_targets(3)]
      chain_verdict_masq [OF rule_targets(4)] chain_verdict_masq [OF rule_targets(3)] rule_matches kube_mark_matches empty
      in_cidr_n4 [OF assms(1)] in_cidr_n4 [OF assms(2)] in_cidr_n4 [OF mc]
    by auto
qed

text \<open>C14. What iptables mode masquerades. For a packet that leaves the node, the flannel chain masquerades it exactly
  when it does not carry the mark of kube-proxy, is not for a pod of this node, does not go from a pod of this
  node into the cluster network, and either comes from the cluster network and is not multicast, or comes from
  outside and goes into the cluster network.\<close>

theorem iptables_masquerades:
  assumes "n4_wf cluster" "n4_wf pod"
  shows "chain_verdict (masq_specs (n4_to_string cluster) (n4_to_string pod) ''224.0.0.0/4'' random_fully) p = Masq \<longleftrightarrow>
    \<not> kube_marked p \<and> pk_dst p \<notin> n4_addrs pod \<and> \<not> (pk_src p \<in> n4_addrs pod \<and> pk_dst p \<in> n4_addrs cluster) \<and>
    (if pk_src p \<in> n4_addrs cluster then pk_dst p \<notin> n4_addrs multicast_net else pk_dst p \<in> n4_addrs cluster)"
  by (rule iptables_verdict [OF assms])

section \<open>The nftables rules\<close>

lemma split_blank_n4 [simp]: "split_on (CHR '' '') (n4_to_string n @ CHR '' '' # rest) = n4_to_string n # split_on (CHR '' '') rest"
  using cidr_text_n4 [of n] by (simp add: split_on_append cidr_text_def token_ok_def)

lemma n4_not_neq [simp]: "n4_to_string n \<noteq> ''!=''"
  using n4_chars [of "CHR ''!''" n] by (auto simp: to_digit_def)

definition masq_statement :: "bool \<Rightarrow> string" where
  "masq_statement fully_random = (if fully_random then MASQ_FULLY_RANDOM else MASQ_PLAIN)"

lemma nft_return: "nft_rule (split_on (CHR '' '') ''return'') p = Some Pass"
  and nft_masq: "nft_rule (split_on (CHR '' '') (masq_statement fr)) p = Some Masq"
  by (simp_all add: masq_statement_def MASQ_FULLY_RANDOM_def MASQ_PLAIN_def)

lemma nft_addr_rules:
  assumes wf: "n4_wf a" "n4_wf b" and final: "nft_rule (split_on (CHR '' '') st) p = Some v"
  shows "nft_rule (split_on (CHR '' '') (concat_parts [''ip'', ''saddr'', n4_to_string a, ''ip'', ''daddr'', n4_to_string b, st])) p =
      (if pk_src p \<in> n4_addrs a \<and> pk_dst p \<in> n4_addrs b then Some v else None)"
    "nft_rule (split_on (CHR '' '') (concat_parts [''ip'', ''saddr'', ''!='', n4_to_string a, ''ip'', ''daddr'', n4_to_string b, st])) p =
      (if pk_src p \<notin> n4_addrs a \<and> pk_dst p \<in> n4_addrs b then Some v else None)"
    "nft_rule (split_on (CHR '' '') (concat_parts [''ip'', ''saddr'', n4_to_string a, ''ip'', ''daddr'', ''!='', n4_to_string b, st])) p =
      (if pk_src p \<in> n4_addrs a \<and> pk_dst p \<notin> n4_addrs b then Some v else None)"
  by (simp_all add: concat_parts_def nft_field_def in_cidr_n4 wf final)

lemma nft_mark_rule:
  "nft_rule (split_on (CHR '' '') (concat_parts [''meta mark'', ''0x4000'', ''return''])) p = (if pk_mark p = 0x4000 then Some Pass else None)"
proof -
  have "hex_word ''0x4000'' = 0x4000" by code_simp
  then show ?thesis by (simp add: concat_parts_def nft_field_def)
qed

lemma first_match: "(case (if c then Some x else None) of None \<Rightarrow> y | Some v \<Rightarrow> v) = (if c then x else y)"
  by simp

lemma nft_verdict_masq:
  assumes wf: "n4_wf cluster" "n4_wf pod" and inside: "n4_addrs pod \<subseteq> n4_addrs cluster"
  shows "nft_verdict (masq_rule_texts (n4_to_string cluster) (n4_to_string pod) ''ip'' (masq_statement fully_random)) p = Masq \<longleftrightarrow>
      pk_mark p \<noteq> 0x4000 \<and> pk_src p \<in> n4_addrs cluster \<and> pk_dst p \<notin> n4_addrs cluster \<and> pk_dst p \<notin> n4_addrs multicast_net"
proof -
  have mc: "n4_wf multicast_net" by (simp add: multicast_net_def)
  have fam: "''ip'' \<noteq> family_str Ip6" by (simp add: family_str_def)
  have texts: "masq_rule_texts (n4_to_string cluster) (n4_to_string pod) ''ip'' (masq_statement fully_random) =
     [concat_parts [''meta mark'', ''0x4000'', ''return''],
      concat_parts [''ip'', ''saddr'', n4_to_string pod, ''ip'', ''daddr'', n4_to_string cluster, ''return''],
      concat_parts [''ip'', ''saddr'', n4_to_string cluster, ''ip'', ''daddr'', n4_to_string pod, ''return''],
      concat_parts [''ip'', ''saddr'', ''!='', n4_to_string pod, ''ip'', ''daddr'', n4_to_string cluster, ''return''],
      concat_parts [''ip'', ''saddr'', n4_to_string cluster, ''ip'', ''daddr'', ''!='', n4_to_string multicast_net, masq_statement fully_random],
      concat_parts [''ip'', ''saddr'', ''!='', n4_to_string cluster, ''ip'', ''daddr'', n4_to_string cluster, masq_statement fully_random]]"
    unfolding masq_rule_texts_def Let_def multicast_text using fam by simp
  show ?thesis
    unfolding texts nft_verdict.simps nft_mark_rule nft_addr_rules [OF wf(2) wf(1) nft_return] nft_addr_rules [OF wf(1) wf(2) nft_return]
      nft_addr_rules [OF wf(1) mc nft_masq] nft_addr_rules [OF wf(1) wf(1) nft_masq] first_match
    using inside by auto
qed

text \<open>What nftables mode masquerades. The rules written for the IPv4 network masquerade a packet exactly when its
  mark is not that of kube-proxy, it comes from the cluster network, and it goes neither into the cluster
  network nor to a multicast address. The last of the six rules, meant for traffic from the host into the
  network, is never reached: the fourth rule returns every packet it would match.\<close>

theorem nft_masquerades:
  assumes wf: "n4_wf cluster" "n4_wf pod" and inside: "n4_addrs pod \<subseteq> n4_addrs cluster"
  shows "nft_verdict (masq_rule_texts (n4_to_string cluster) (n4_to_string pod) ''ip'' (masq_statement fully_random)) p = Masq \<longleftrightarrow>
      pk_mark p \<noteq> 0x4000 \<and> pk_src p \<in> n4_addrs cluster \<and> pk_dst p \<notin> n4_addrs cluster \<and> pk_dst p \<notin> n4_addrs multicast_net"
  by (rule nft_verdict_masq [OF assms])

text \<open>C21. The two modes differ. On packets without any mark, iptables and nftables mode give different verdicts exactly
  for packets into the cluster network but not to a pod of this node, that come neither from a pod of this
  node nor, inside the cluster network, as multicast: iptables mode masquerades them, nftables mode does not.\<close>

theorem masq_modes_differ:
  assumes wf: "n4_wf cluster" "n4_wf pod" and inside: "n4_addrs pod \<subseteq> n4_addrs cluster" and mark: "pk_mark p = 0"
  shows "chain_verdict (masq_specs (n4_to_string cluster) (n4_to_string pod) ''224.0.0.0/4'' random_fully) p \<noteq>
      nft_verdict (masq_rule_texts (n4_to_string cluster) (n4_to_string pod) ''ip'' (masq_statement fully_random)) p \<longleftrightarrow>
    pk_dst p \<in> n4_addrs cluster \<and> pk_dst p \<notin> n4_addrs pod \<and> pk_src p \<notin> n4_addrs pod \<and>
    (pk_src p \<in> n4_addrs cluster \<longrightarrow> pk_dst p \<notin> n4_addrs multicast_net)"
proof -
  have verdicts: "v \<noteq> w \<longleftrightarrow> (v = Masq) \<noteq> (w = Masq)" for v w by (cases v; cases w) simp_all
  have "\<not> kube_marked p" "pk_mark p \<noteq> 0x4000" using mark by (simp_all add: kube_marked_def)
  then show ?thesis
    unfolding verdicts iptables_verdict [OF wf] nft_verdict_masq [OF wf inside] using inside by auto
qed

section \<open>Samples\<close>

definition sample_pod_net :: ip4net where "sample_pod_net = \<lparr>n4_ip = IP4 0x0AF40500, n4_prefix_len = 24\<rparr>"

text \<open>From a pod of this node to the outside, and from the host to a pod of another node.\<close>

definition pod_to_world :: packet where "pod_to_world = \<lparr>pk_src = IP4 0x0AF40507, pk_dst = IP4 0x08080808, pk_mark = 0\<rparr>"

definition host_to_pod :: packet where "host_to_pod = \<lparr>pk_src = IP4 0xC0A80105, pk_dst = IP4 0x0AF40907, pk_mark = 0\<rparr>"

lemma n4_contains_cidr_addrs:
  "n4_wf a \<Longrightarrow> n4_wf b \<Longrightarrow> n4_contains_cidr a b \<Longrightarrow> n4_addrs b \<subseteq> n4_addrs a"
  using v4.contains_cidr_iff [of "n4_prefix_len a" "n4_prefix_len b" "ip4_val (n4_ip a)" "ip4_val (n4_ip b)"]
  by (simp add: n4_contains_cidr_def n4_contains_def n4_mask_def n4_addrs_def n4_wf_unat)

lemma sample_addrs:
  "n4_wf sample_cluster" "n4_wf sample_pod_net" "n4_addrs sample_pod_net \<subseteq> n4_addrs sample_cluster"
  "pk_src pod_to_world \<in> n4_addrs sample_cluster" "pk_dst pod_to_world \<notin> n4_addrs sample_cluster" "pk_dst pod_to_world \<notin> n4_addrs sample_pod_net"
  "pk_dst pod_to_world \<notin> n4_addrs multicast_net" "pk_src host_to_pod \<notin> n4_addrs sample_cluster" "pk_src host_to_pod \<notin> n4_addrs sample_pod_net"
  "pk_dst host_to_pod \<in> n4_addrs sample_cluster" "pk_dst host_to_pod \<notin> n4_addrs sample_pod_net"
proof -
  show wf: "n4_wf sample_cluster" "n4_wf sample_pod_net" by code_simp+
  have mc: "n4_wf multicast_net" by code_simp
  have "n4_contains_cidr sample_cluster sample_pod_net" by code_simp
  then show "n4_addrs sample_pod_net \<subseteq> n4_addrs sample_cluster"
    by (rule n4_contains_cidr_addrs [OF wf])
  show "pk_src pod_to_world \<in> n4_addrs sample_cluster" "pk_dst pod_to_world \<notin> n4_addrs sample_cluster" "pk_src host_to_pod \<notin> n4_addrs sample_cluster"
    "pk_dst host_to_pod \<in> n4_addrs sample_cluster"
    unfolding n4_contains_iff [OF wf(1), symmetric] by code_simp+
  show "pk_dst pod_to_world \<notin> n4_addrs sample_pod_net" "pk_src host_to_pod \<notin> n4_addrs sample_pod_net" "pk_dst host_to_pod \<notin> n4_addrs sample_pod_net"
    unfolding n4_contains_iff [OF wf(2), symmetric] by code_simp+
  show "pk_dst pod_to_world \<notin> n4_addrs multicast_net" unfolding n4_contains_iff [OF mc, symmetric] by code_simp
qed

theorem iptables_masquerades_witness:
  "chain_verdict (masq_specs (n4_to_string sample_cluster) (n4_to_string sample_pod_net) ''224.0.0.0/4'' True) pod_to_world = Masq"
  using iptables_masquerades [OF sample_addrs(1,2), of True pod_to_world] sample_addrs by (simp add: kube_marked_def pod_to_world_def)

theorem nft_masquerades_witness:
  "nft_verdict (masq_rule_texts (n4_to_string sample_cluster) (n4_to_string sample_pod_net) ''ip'' (masq_statement True)) pod_to_world = Masq"
  using nft_masquerades [OF sample_addrs(1-3), of True pod_to_world] sample_addrs by (simp add: pod_to_world_def)

theorem masq_modes_differ_witness:
  "chain_verdict (masq_specs (n4_to_string sample_cluster) (n4_to_string sample_pod_net) ''224.0.0.0/4'' True) host_to_pod \<noteq>
   nft_verdict (masq_rule_texts (n4_to_string sample_cluster) (n4_to_string sample_pod_net) ''ip'' (masq_statement True)) host_to_pod"
proof -
  have "pk_mark host_to_pod = 0" by (simp add: host_to_pod_def)
  from masq_modes_differ [OF sample_addrs(1-3) this] show ?thesis using sample_addrs(8-11) by blast
qed

end
