(* ===== verification/Backends.thy ===== *)
theory Backends
  imports Vxlan RouteNetwork
begin

text \<open>
  The registry of backends (\<open>backend/manager.rs\<close>, \<open>backend/mod.rs\<close>) and the registration of the backends
  \<open>alloc\<close>, \<open>host-gw\<close> and \<open>ipip\<close> (\<open>alloc.rs\<close>, \<open>hostgw.rs\<close>, \<open>ipip.rs\<close>, \<open>simple_network.rs\<close>). Opening the netlink
  socket is taken to succeed; the kernel, the manager and the JSON reader are parameters.
\<close>

section \<open>External addresses\<close>

definition ext_addr_ip4 :: "external_interface \<Rightarrow> err + ip4" where
  "ext_addr_ip4 ei =
     (case ei_ext_addr ei of Some (V4 v4) \<Rightarrow> Inr v4 | _ \<Rightarrow> Inl [''Address is not an IPv4 address''])"

definition ext_addr_ip6 :: "external_interface \<Rightarrow> err + ip6" where
  "ext_addr_ip6 ei =
     (case ei_ext_v6_addr ei of Some (V6 v6) \<Rightarrow> Inr v6 | _ \<Rightarrow> Inl [''Address is not an IPv6 address''])"

section \<open>The registry\<close>

text \<open>A backend holds the manager and the interface it was made with.\<close>

datatype 'm backend =
    AllocBackend 'm external_interface
  | HostgwBackend 'm external_interface
  | IPIPBackend 'm external_interface
  | VXLANBackend 'm external_interface
  | WireguardBackend 'm external_interface
  | UdpBackend 'm external_interface
  | ExtensionBackend 'm external_interface
  | IPSECBackend 'm external_interface
  | TencentVpcBackend 'm external_interface

type_synonym 'm backend_ctor = "'m \<Rightarrow> external_interface \<Rightarrow> err + 'm backend"

record 'm backend_manager =
  bm_backends :: "string \<rightharpoonup> 'm backend_ctor"
  bm_sm :: 'm

definition new_backend_manager :: "'m \<Rightarrow> 'm backend_manager" where
  "new_backend_manager sm = \<lparr>bm_backends = Map.empty, bm_sm = sm\<rparr>"

definition bm_register :: "string \<Rightarrow> 'm backend_ctor \<Rightarrow> 'm backend_manager \<Rightarrow> 'm backend_manager" where
  "bm_register name ctor mgr = mgr\<lparr>bm_backends := (bm_backends mgr)(name \<mapsto> ctor)\<rparr>"

text \<open>\<open>str::to_lowercase\<close> on the ASCII letters a backend type is made of.\<close>

definition bm_create :: "'m backend_manager \<Rightarrow> string \<Rightarrow> external_interface \<Rightarrow> err + 'm backend" where
  "bm_create mgr name ei =
     (let betype = lower name in
      case bm_backends mgr betype of
        None \<Rightarrow> Inl [''unknown backend type: '' @ betype]
      | Some ctor \<Rightarrow> ctor (bm_sm mgr) ei)"

definition alloc_new_backend :: "'m backend_ctor" where
  "alloc_new_backend sm ei = Inr (AllocBackend sm ei)"

definition hostgw_new_backend :: "'m backend_ctor" where
  "hostgw_new_backend sm ei =
     (if ei_ext_addr ei \<noteq> ei_iface_addr ei
      then Inl [''your PublicIP differs from interface IP, meaning that probably you'' @ [CHR 0x27] @
        ''re on a NAT, which is not supported by host-gw backend'']
      else Inr (HostgwBackend sm ei))"

definition ipip_new_backend :: "'m backend_ctor" where
  "ipip_new_backend sm ei = Inr (IPIPBackend sm ei)"

definition vxlan_new_backend :: "'m backend_ctor" where
  "vxlan_new_backend sm ei = Inr (VXLANBackend sm ei)"

definition wireguard_new_backend :: "'m backend_ctor" where
  "wireguard_new_backend sm ei = Inr (WireguardBackend sm ei)"

definition udp_new_backend :: "'m backend_ctor" where
  "udp_new_backend sm ei = Inr (UdpBackend sm ei)"

definition extension_new_backend :: "'m backend_ctor" where
  "extension_new_backend sm ei = Inr (ExtensionBackend sm ei)"

definition ipsec_new_backend :: "'m backend_ctor" where
  "ipsec_new_backend sm ei = Inr (IPSECBackend sm ei)"

definition tencentvpc_new_backend :: "'m backend_ctor" where
  "tencentvpc_new_backend sm ei = Inr (TencentVpcBackend sm ei)"

definition default_registry :: "'m backend_manager \<Rightarrow> 'm backend_manager" where
  "default_registry mgr =
     (let mgr = bm_register ''alloc'' alloc_new_backend mgr;
          mgr = bm_register ''host-gw'' hostgw_new_backend mgr;
          mgr = bm_register ''ipip'' ipip_new_backend mgr;
          mgr = bm_register ''vxlan'' vxlan_new_backend mgr;
          mgr = bm_register ''wireguard'' wireguard_new_backend mgr;
          mgr = bm_register ''udp'' udp_new_backend mgr;
          mgr = bm_register ''extension'' extension_new_backend mgr;
          mgr = bm_register ''ipsec'' ipsec_new_backend mgr
      in bm_register ''tencent-vpc'' tencentvpc_new_backend mgr)"

section \<open>alloc\<close>

record simple_network =
  sn_lease :: lease
  sn_mtu :: u32

definition alloc_register_network ::
  "netlink \<Rightarrow> reg_env \<Rightarrow> external_interface \<Rightarrow> err + simple_network" where
  "alloc_register_network nl env ei =
     rbind (ext_addr_ip4 ei) (\<lambda>ip.
     rbind (acquire_or_fail env (lease_attrs_default\<lparr>public_ip := ip\<rparr>)) (\<lambda>l.
     rbind (get_link_mtu nl (ei_iface_index ei)) (\<lambda>mtu.
     Inr \<lparr>sn_lease = l, sn_mtu = mtu\<rparr>)))"

section \<open>host-gw\<close>

record 'k route_network =
  rn_lease :: lease
  rn_backend_type :: string
  rn_mtu :: u32
  rn_link_index :: u32
  rn_get_route :: "'k get_route option"
  rn_get_v6_route :: "'k get_route option"

definition hostgw_v4_attrs :: "external_interface \<Rightarrow> config \<Rightarrow> lease_attrs \<Rightarrow> err + lease_attrs \<times> 'k get_route option" where
  "hostgw_v4_attrs ei config a =
     (if cfg_enable_ipv4 config
      then rbind (ext_addr_ip4 ei) (\<lambda>ip. Inr (a\<lparr>public_ip := ip\<rparr>, Some (hostgw_get_route (ei_iface_index ei))))
      else Inr (a, None))"

definition hostgw_v6_attrs :: "external_interface \<Rightarrow> config \<Rightarrow> lease_attrs \<Rightarrow> err + lease_attrs \<times> 'k get_route option" where
  "hostgw_v6_attrs ei config a =
     (if cfg_enable_ipv6 config
      then rbind (ext_addr_ip6 ei) (\<lambda>ip. Inr (a\<lparr>public_ipv6 := Some ip\<rparr>, Some (hostgw_get_v6_route (ei_iface_index ei))))
      else Inr (a, None))"

definition hostgw_register_network ::
  "netlink \<Rightarrow> reg_env \<Rightarrow> external_interface \<Rightarrow> config \<Rightarrow> err + 'k route_network" where
  "hostgw_register_network nl env ei config =
     rbind (get_link_mtu nl (ei_iface_index ei)) (\<lambda>mtu.
     rbind (hostgw_v4_attrs ei config (lease_attrs_default\<lparr>backend_type := ''host-gw''\<rparr>)) (\<lambda>(a, get_route).
     rbind (hostgw_v6_attrs ei config a) (\<lambda>(a, get_v6_route).
     rbind (acquire_or_fail env a) (\<lambda>l.
     Inr \<lparr>rn_lease = l, rn_backend_type = ''host-gw'', rn_mtu = mtu, rn_link_index = ei_iface_index ei,
       rn_get_route = get_route, rn_get_v6_route = get_v6_route\<rparr>))))"

section \<open>ipip\<close>

definition IPIP_BACKEND_TYPE :: string where "IPIP_BACKEND_TYPE = ''ipip''"

definition TUNNEL_NAME :: string where "TUNNEL_NAME = ''flannel.ipip''"

text \<open>The derived reader of \<open>IPIPBackendConfig\<close>; the value is its one field.\<close>

definition ipip_config_of :: "type_error \<Rightarrow> json \<Rightarrow> string + bool" where
  "ipip_config_of te v =
     rbind (struct_members te ''IPIPBackendConfig'' [''DirectRouting''] v) (\<lambda>f. de_field False (de_bool te) (f 0))"

definition ipip_config :: "(string \<Rightarrow> string + json) \<Rightarrow> type_error \<Rightarrow> config \<Rightarrow> err + bool" where
  "ipip_config parse te config =
     (case cfg_backend config of
        None \<Rightarrow> Inr False
      | Some raw \<Rightarrow>
          map_err (\<lambda>e. [''error decoding IPIP backend config: '' @ e]) (rbind (parse raw) (ipip_config_of te)))"

definition tunnel_data :: "link_message \<Rightarrow> link_info list option" where
  "tunnel_data msg = find_map (\<lambda>a. case a of IflaLinkInfo infos \<Rightarrow> Some infos | _ \<Rightarrow> None) (lm_attributes msg)"

fun tunnel_attr ::
  "ip_addr option \<times> ip_addr option \<Rightarrow> info_ip_tunnel \<Rightarrow> ip_addr option \<times> ip_addr option" where
  "tunnel_attr (l, r) (TunLocal ip) = (Some ip, r)"
| "tunnel_attr (l, r) (TunRemote ip) = (l, Some ip)"
| "tunnel_attr (l, r) TunOther = (l, r)"

fun tunnel_info :: "ip_addr option \<times> ip_addr option \<Rightarrow> link_info \<Rightarrow> ip_addr option \<times> ip_addr option" where
  "tunnel_info lr (InfoData (DataIpTunnel as)) = foldl tunnel_attr lr as"
| "tunnel_info lr _ = lr"

definition iptun_local_remote :: "link_message \<Rightarrow> ip_addr option \<times> ip_addr option" where
  "iptun_local_remote msg =
     (case tunnel_data msg of None \<Rightarrow> (None, None) | Some infos \<Rightarrow> foldl tunnel_info (None, None) infos)"

definition ipip_link_by_name :: "netlink \<Rightarrow> string \<Rightarrow> err + link_message" where
  "ipip_link_by_name nl name =
     rbind (map_err (prefix_err []) (first_of_dump (nl_link_by_name nl name))) (\<lambda>l.
     case l of Some link \<Rightarrow> Inr link | None \<Rightarrow> Inl [''Link not found''])"

definition ipip_link :: "ip4 \<Rightarrow> link_message" where
  "ipip_link local =
     \<lparr>lm_index = 0,
      lm_attributes = [IfName TUNNEL_NAME,
        IflaLinkInfo [InfoKind KindIpIp, InfoData (DataIpTunnel [TunLocal (V4 local)])]]\<rparr>"

text \<open>The endpoints that make the code recreate the device.\<close>

definition ipip_incompatible :: "ip4 \<Rightarrow> link_message \<Rightarrow> bool" where
  "ipip_incompatible local existing =
     (let (tun_local, tun_remote) = iptun_local_remote existing in
      tun_local \<noteq> Some (V4 local) \<or> (case tun_remote of Some r \<Rightarrow> \<not> is_unspecified r | None \<Rightarrow> False))"

text \<open>The first part of \<open>configure_ipip_device\<close>: a device that exists is checked and recreated if need be.\<close>

definition ensure_ipip_link :: "'k link_kernel \<Rightarrow> ip4 \<Rightarrow> 'k \<Rightarrow> 'k \<times> (err + unit)" where
  "ensure_ipip_link kern local k =
     (case lk_add kern (ipip_link local) k of
        (k1, None) \<Rightarrow> (k1, Inr ())
      | (k1, Some (LinkErr e)) \<Rightarrow> (k1, Inl [e])
      | (k1, Some (EExist _)) \<Rightarrow>
          (case ipip_link_by_name (lk_netlink kern k1) TUNNEL_NAME of
             Inl e \<Rightarrow> (k1, Inl e)
           | Inr existing \<Rightarrow>
               if link_kind existing \<noteq> Some KindIpIp
               then (k1, Inl [TUNNEL_NAME @ '' isn'' @ [CHR 0x27] @
                 ''t an ipip mode device, please remove device and try again''])
               else if ipip_incompatible local existing then
                 (case lk_del kern (lm_index existing) k1 of
                    (k2, Some e) \<Rightarrow> (k2, Inl [''failed to delete interface: '' @ link_err_text e])
                  | (k2, None) \<Rightarrow>
                      (case lk_add kern (ipip_link local) k2 of
                         (k3, Some e) \<Rightarrow> (k3, Inl [''failed to create ipip interface: '' @ link_err_text e])
                       | (k3, None) \<Rightarrow> (k3, Inr ())))
               else (k1, Inr ())))"

definition size_ipip_link ::
  "'k link_kernel \<Rightarrow> external_interface \<Rightarrow> link_message \<Rightarrow> 'k \<Rightarrow> 'k \<times> (err + u32)" where
  "size_ipip_link kern ei link k =
     (case rbind (get_link_mtu (lk_netlink kern k) (ei_iface_index ei)) (\<lambda>m. expected_tunnel_mtu m (ei_iface_name ei)) of
        Inl e \<Rightarrow> (k, Inl e)
      | Inr expect_mtu \<Rightarrow>
          if should_apply_mtu (link_mtu link) expect_mtu then
            (case lk_set_mtu kern (lm_index link) expect_mtu k of
               (k1, Some e) \<Rightarrow> (k1, Inl [''failed to set '' @ TUNNEL_NAME @ '' MTU to '' @ show_u32 expect_mtu @ '': '' @
                   link_err_text e])
             | (k1, None) \<Rightarrow> (k1, Inr expect_mtu))
          else (k, Inr (link_mtu link)))"

definition address_ipip_link ::
  "'k link_kernel \<Rightarrow> lease \<Rightarrow> ip4net \<Rightarrow> u32 \<Rightarrow> 'k \<Rightarrow> 'k \<times> (err + unit)" where
  "address_ipip_link kern l flannelnet link_index k =
     (let ipa = \<lparr>n4_ip = n4_ip (subnet l), n4_prefix_len = 32\<rparr>;
          (rs, r) = ensure_v4_address_on_link (lk_netlink kern k) (lk_addr_answer kern k) ipa flannelnet link_index;
          k1 = lk_addr_apply kern rs k
      in case r of
           Inl e \<Rightarrow> (k1, Inl (prefix_err (''failed to ensure address of interface '' @ TUNNEL_NAME @ '': '') e))
         | Inr _ \<Rightarrow>
             (case lk_set_up kern link_index k1 of
                (k2, Some e) \<Rightarrow> (k2, Inl [''failed to set '' @ TUNNEL_NAME @ '' UP: '' @ link_err_text e])
              | (k2, None) \<Rightarrow> (k2, Inr ())))"

definition configure_ipip_device ::
  "'k link_kernel \<Rightarrow> external_interface \<Rightarrow> lease \<Rightarrow> ip4net \<Rightarrow> 'k \<Rightarrow> 'k \<times> (err + u32 \<times> u32)" where
  "configure_ipip_device kern ei l flannelnet k =
     (case ei_iface_addr ei of
        Some (V4 local) \<Rightarrow>
          (case ensure_ipip_link kern local k of
             (k1, Inl e) \<Rightarrow> (k1, Inl e)
           | (k1, Inr _) \<Rightarrow>
               (case ipip_link_by_name (lk_netlink kern k1) TUNNEL_NAME of
                  Inl e \<Rightarrow> (k1, Inl e)
                | Inr link \<Rightarrow>
                    (case size_ipip_link kern ei link k1 of
                       (k2, Inl e) \<Rightarrow> (k2, Inl e)
                     | (k2, Inr mtu) \<Rightarrow>
                         (case address_ipip_link kern l flannelnet (lm_index link) k2 of
                            (k3, Inl e) \<Rightarrow> (k3, Inl e)
                          | (k3, Inr _) \<Rightarrow> (k3, Inr (lm_index link, mtu))))))
      | _ \<Rightarrow> (k, Inl [''Address is not an IPv4 address'']))"

text \<open>\<open>direct\<close> asks the kernel for the route to a gateway when a route is made.\<close>

definition ipip_register_network ::
  "'k link_kernel \<Rightarrow> reg_env \<Rightarrow> type_error \<Rightarrow> external_interface \<Rightarrow> config \<Rightarrow> 'k \<Rightarrow> 'k \<times> (err + 'k route_network)" where
  "ipip_register_network kern env te ei config k =
     (case rbind (ipip_config (re_parse env) te config) (\<lambda>dr.
             rbind (ext_addr_ip4 ei) (\<lambda>ip.
             rbind (acquire_or_fail env (lease_attrs_default\<lparr>public_ip := ip, backend_type := IPIP_BACKEND_TYPE\<rparr>)) (\<lambda>l.
             Inr (dr, l)))) of
        Inl e \<Rightarrow> (k, Inl e)
      | Inr (dr, l) \<Rightarrow>
          (case configure_ipip_device kern ei l (cfg_network config) k of
             (k1, Inl e) \<Rightarrow> (k1, Inl e)
           | (k1, Inr (link_index, mtu)) \<Rightarrow>
               (k1, Inr \<lparr>rn_lease = l, rn_backend_type = IPIP_BACKEND_TYPE, rn_mtu = mtu, rn_link_index = link_index,
                  rn_get_route = Some (ipip_get_route (\<lambda>k. direct_routing (lk_netlink kern k)) dr link_index (ei_iface_index ei)),
                  rn_get_v6_route = None\<rparr>)))"

lemma ext_addr_ip4_Inr [simp]: "ext_addr_ip4 ei = Inr ip \<longleftrightarrow> ei_ext_addr ei = Some (V4 ip)"
  by (auto simp: ext_addr_ip4_def split: option.splits ip_addr.splits)

lemma acquire_or_fail_Inr [simp]: "acquire_or_fail env a = Inr l \<longleftrightarrow> re_acquire env a = Inr l"
  by (simp add: acquire_or_fail_def split: sum.splits)

section \<open>The registry knows nine types\<close>

definition BACKEND_TYPES :: "string list" where
  "BACKEND_TYPES = [''alloc'', ''host-gw'', ''ipip'', ''vxlan'', ''wireguard'', ''udp'', ''extension'', ''ipsec'', ''tencent-vpc'']"

text \<open>A backend is made exactly for the registered types, in any case, and for \<open>host-gw\<close> only without NAT.\<close>

lemma create_known_iff:
  "(\<exists>b. bm_create (default_registry (new_backend_manager sm)) name ei = Inr b) \<longleftrightarrow>
     lower name \<in> set BACKEND_TYPES \<and> (lower name = ''host-gw'' \<longrightarrow> ei_ext_addr ei = ei_iface_addr ei)"
proof -
  let ?r = "default_registry (new_backend_manager sm)"
  have reg: "bm_backends ?r = [''alloc'' \<mapsto> alloc_new_backend, ''host-gw'' \<mapsto> hostgw_new_backend, ''ipip'' \<mapsto> ipip_new_backend,
      ''vxlan'' \<mapsto> vxlan_new_backend, ''wireguard'' \<mapsto> wireguard_new_backend, ''udp'' \<mapsto> udp_new_backend,
      ''extension'' \<mapsto> extension_new_backend, ''ipsec'' \<mapsto> ipsec_new_backend, ''tencent-vpc'' \<mapsto> tencentvpc_new_backend]"
    by (simp add: default_registry_def bm_register_def new_backend_manager_def Let_def)
  show ?thesis
    unfolding bm_create_def Let_def reg BACKEND_TYPES_def
    by (simp add: alloc_new_backend_def hostgw_new_backend_def ipip_new_backend_def vxlan_new_backend_def
        wireguard_new_backend_def udp_new_backend_def extension_new_backend_def ipsec_new_backend_def
        tencentvpc_new_backend_def)
qed

section \<open>The ipip device\<close>

text \<open>What the kernel promises: a tunnel that was added is listed with the kind and the local end of the
  request and without a remote end.\<close>

definition ipip_kernel_ok :: "'k link_kernel \<Rightarrow> bool" where
  "ipip_kernel_ok kern \<longleftrightarrow>
     (\<forall>local k k' link. lk_add kern (ipip_link local) k = (k', None) \<and>
        ipip_link_by_name (lk_netlink kern k') TUNNEL_NAME = Inr link \<longrightarrow>
        link_kind link = Some KindIpIp \<and> iptun_local_remote link = iptun_local_remote (ipip_link local))"

lemma ipip_link_endpoints: "iptun_local_remote (ipip_link local) = (Some (V4 local), None)"
  by (simp add: iptun_local_remote_def tunnel_data_def ipip_link_def)

lemma ensure_ipip_link_device:
  assumes ok: "ipip_kernel_ok kern" and run: "ensure_ipip_link kern local k = (k1, Inr ())"
    and link: "ipip_link_by_name (lk_netlink kern k1) TUNNEL_NAME = Inr link"
  shows "link_kind link = Some KindIpIp \<and> \<not> ipip_incompatible local link"
proof -
  have new: "link_kind link = Some KindIpIp \<and> \<not> ipip_incompatible local link"
    if "lk_add kern (ipip_link local) k' = (k1, None)" for k'
    using ok that link ipip_link_endpoints [of local] unfolding ipip_kernel_ok_def ipip_incompatible_def by fastforce
  from run show ?thesis
    by (auto simp: ensure_ipip_link_def link split: prod.splits option.splits link_error.splits sum.splits if_splits
        dest: new)
qed

lemma size_ipip_link_bounds:
  assumes "size_ipip_link kern ei link k = (k', Inr mtu)"
  shows "\<exists>ext. get_link_mtu (lk_netlink kern k) (ei_iface_index ei) = Inr ext \<and> 0 < mtu \<and> unat mtu + 20 \<le> unat ext"
proof -
  obtain ext where ext: "get_link_mtu (lk_netlink kern k) (ei_iface_index ei) = Inr ext" "\<not> ext \<le> 20"
    and mtu: "mtu = ext - 20 \<or> mtu = link_mtu link \<and> \<not> should_apply_mtu (link_mtu link) (ext - 20)"
    using assms
    by (auto simp: size_ipip_link_def expected_tunnel_mtu_def split: sum.splits if_splits option.splits prod.splits)
  have sub: "unat (ext - 20) = unat ext - 20" "20 < unat ext"
    using ext(2) by (simp_all add: unat_sub word_less_nat_alt not_le word_le_nat_alt)
  from mtu have "0 < unat mtu \<and> unat mtu \<le> unat (ext - 20)"
    using sub by (auto simp: should_apply_mtu_def word_less_nat_alt unat_gt_0)
  with ext(1) sub show ?thesis by (auto simp: word_less_nat_alt)
qed


text \<open>A kernel with an external interface of MTU 1500 and at most one tunnel, which may be there already with
  another local end.\<close>

definition tunnel_kernel :: "link_message list link_kernel" where
  "tunnel_kernel = one_link_kernel\<lparr>lk_netlink := (\<lambda>k. sample_netlink\<lparr>nl_link_by_name := (\<lambda>_. (k, None)),
     nl_link_by_index := (\<lambda>_. ([\<lparr>lm_index = 2, lm_attributes = [IfName ''eth0'', Mtu 1500]\<rparr>], None)),
     nl_addrs := (\<lambda>_. ([], None))\<rparr>)\<rparr>"

definition sample_ei :: external_interface where
  "sample_ei = \<lparr>ei_iface_index = 2, ei_iface_name = ''eth0'', ei_iface_addr = Some (V4 (IP4 0x0a000001)),
     ei_iface_v6_addr = None, ei_ext_addr = Some (V4 (IP4 0x0a000001)), ei_ext_v6_addr = None\<rparr>"

definition sample_reg_env :: reg_env where
  "sample_reg_env = \<lparr>re_parse = (\<lambda>_. Inl []), re_ser = (\<lambda>_. []), re_macs = ([], []), re_random = ([], []),
     re_acquire = (\<lambda>a. Inr (blank_lease\<lparr>attrs := a\<rparr>)), re_cancelled = False\<rparr>"

lemma tunnel_kernel_ok: "ipip_kernel_ok tunnel_kernel"
proof -
  have "link_kind ((ipip_link l)\<lparr>lm_index := 7\<rparr>) = Some KindIpIp"
    "iptun_local_remote ((ipip_link l)\<lparr>lm_index := 7\<rparr>) = iptun_local_remote (ipip_link l)" for l
    by (simp_all add: link_kind_def ipip_link_def iptun_local_remote_def tunnel_data_def)
  then show ?thesis
    by (auto simp: ipip_kernel_ok_def tunnel_kernel_def one_link_kernel_def ipip_link_by_name_def first_of_dump_def
        map_err_def split: if_splits)
qed


end
