(* ===== verification/RouteRun.thy ===== *)
theory RouteRun
  imports RouteNetwork
begin

text \<open>
  \<open>run_route_network\<close> of \<open>backend/route_network.rs\<close>: the loop over the batches of lease events and the task of the
  periodic check, which share the route lists and the kernel. An input says which of the two goes on. The check
  copies a list under its lock and works on the copy, so its copy and its work on it are separate steps; a batch is
  one step.
\<close>

datatype check_stage = CheckSleeping | CheckV4 "route_spec list" | CheckV6 "route_spec list" | CheckDone

record 'k route_run =
  rr_state :: "'k route_state"
  rr_check :: check_stage
  rr_watching :: bool

datatype rr_input = Batch "event list" | EvtsClosed | CheckGoes | CheckCancelled

definition route_run_start :: "'k \<Rightarrow> 'k route_run" where
  "route_run_start k =
     \<lparr>rr_state = \<lparr>rt_routes = [], rt_v6_routes = [], rt_kernel = k\<rparr>, rr_check = CheckSleeping, rr_watching = True\<rparr>"

text \<open>The task of the check: the sleep has ended, the IPv4 half, the IPv6 half.\<close>

definition check_step :: "'k rt_kernel \<Rightarrow> 'k route_run \<Rightarrow> 'k route_run" where
  "check_step kern st =
     (let s = rr_state st in
      case rr_check st of
        CheckSleeping \<Rightarrow> st\<lparr>rr_check := CheckV4 (rt_routes s)\<rparr>
      | CheckV4 routes \<Rightarrow>
          st\<lparr>rr_state := s\<lparr>rt_kernel := check_subnet_exist_in_routes kern Inet routes (rt_kernel s)\<rparr>,
             rr_check := CheckV6 (rt_v6_routes s)\<rparr>
      | CheckV6 routes \<Rightarrow>
          st\<lparr>rr_state := s\<lparr>rt_kernel := check_subnet_exist_in_routes kern Inet6 routes (rt_kernel s)\<rparr>,
             rr_check := CheckSleeping\<rparr>
      | CheckDone \<Rightarrow> st)"

fun route_run_step ::
  "'k rt_kernel \<Rightarrow> string \<Rightarrow> 'k get_route option \<Rightarrow> 'k get_route option \<Rightarrow> 'k route_run \<Rightarrow> rr_input \<Rightarrow> 'k route_run" where
  "route_run_step kern bt gr gr6 st (Batch b) =
     (if rr_watching st then st\<lparr>rr_state := handle_subnet_events kern bt gr gr6 b (rr_state st)\<rparr> else st)"
| "route_run_step kern bt gr gr6 st EvtsClosed = st\<lparr>rr_watching := False\<rparr>"
| "route_run_step kern bt gr gr6 st CheckGoes = check_step kern st"
| "route_run_step kern bt gr gr6 st CheckCancelled =
     (if rr_check st = CheckSleeping then st\<lparr>rr_check := CheckDone\<rparr> else st)"

definition run_route_network ::
  "'k rt_kernel \<Rightarrow> string \<Rightarrow> 'k get_route option \<Rightarrow> 'k get_route option \<Rightarrow> 'k \<Rightarrow> rr_input list \<Rightarrow> 'k route_run" where
  "run_route_network kern bt gr gr6 k inputs = foldl (route_run_step kern bt gr gr6) (route_run_start k) inputs"

text \<open>\<open>run_route_network\<close> returns when the channel is closed and the check has ended.\<close>

definition route_run_returned :: "'k route_run \<Rightarrow> bool" where
  "route_run_returned st \<longleftrightarrow> \<not> rr_watching st \<and> rr_check st = CheckDone"

section \<open>Every interleaving keeps the tracked routes in the kernel\<close>

lemma drop_first_subset: "set (drop_first p xs) \<subseteq> set xs"
  by (induction xs) auto

lemma route_add_set: "set (fst (route_add kern f r st)) \<subseteq> insert r (set (fst st))"
proof -
  have rep: "set (fst (fst (replace_existing kern f r st'))) \<subseteq> set (fst st')" for st'
    by (auto simp: replace_existing_def remove_msg_from_route_list_def Let_def dest: subsetD [OF drop_first_subset]
        split: prod.splits list.splits option.splits if_splits)
  have add: "fst (add_unless_there kern f r st') = fst st'" for st'
    by (simp add: add_unless_there_def split: prod.splits list.splits)
  show ?thesis
    using rep [of "(add_to_route_list (fst st) r, snd st)"]
    by (fastforce simp: route_add_def add add_to_route_list_def split: prod.splits if_splits)
qed

lemma route_remove_set: "set (fst (route_remove kern r st)) \<subseteq> set (fst st)"
  using drop_first_subset by (fastforce simp: route_remove_def remove_from_route_list_def split: prod.splits)

lemma on_v4_sets:
  assumes "\<forall>st'. set (fst (f st')) \<subseteq> insert r (set (fst st'))"
  shows "set (rt_routes (on_v4 f st)) \<subseteq> insert r (set (rt_routes st))" "rt_v6_routes (on_v4 f st) = rt_v6_routes st"
  using assms [rule_format, of "(rt_routes st, rt_kernel st)"] by (auto simp: on_v4_def split: prod.splits)

lemma on_v6_sets:
  assumes "\<forall>st'. set (fst (f st')) \<subseteq> insert r (set (fst st'))"
  shows "set (rt_v6_routes (on_v6 f st)) \<subseteq> insert r (set (rt_v6_routes st))" "rt_routes (on_v6 f st) = rt_routes st"
  using assms [rule_format, of "(rt_v6_routes st, rt_kernel st)"] by (auto simp: on_v6_def split: prod.splits)

lemma event_action_set:
  "\<forall>st'. set (fst ((case t of Added \<Rightarrow> route_add kern f r | Removed \<Rightarrow> route_remove kern r) st')) \<subseteq> insert r (set (fst st'))"
  by (cases t) (auto dest: subsetD [OF route_add_set] subsetD [OF route_remove_set])

lemma handle_event_sets:
  "set (rt_routes (handle_event kern bt (Some (\<lambda>k. g)) (Some (\<lambda>k. g6)) st e)) \<subseteq>
     (if v4_event bt e then insert (g (ev_lease e)) else id) (set (rt_routes st)) \<and>
   set (rt_v6_routes (handle_event kern bt (Some (\<lambda>k. g)) (Some (\<lambda>k. g6)) st e)) \<subseteq>
     insert (g6 (ev_lease e)) (set (rt_v6_routes st))"
  by (auto simp: handle_event_def Let_def handle_family_def v4_event_def
      on_v4_sets(2) [OF event_action_set] on_v6_sets(2) [OF event_action_set] split: if_splits
      dest: subsetD [OF on_v4_sets(1) [OF event_action_set]] subsetD [OF on_v6_sets(1) [OF event_action_set]])

text \<open>The routes of the lists and of the copies of the check are routes that the kernel accepts.\<close>

definition good4 :: "(route_message \<Rightarrow> bool) \<Rightarrow> route_spec list \<Rightarrow> bool" where
  "good4 reach routes \<longleftrightarrow> (\<forall>s \<in> set routes. v4_route s \<and> reach (to_message s))"

definition good6 :: "route_spec list \<Rightarrow> bool" where
  "good6 routes \<longleftrightarrow> (\<forall>s \<in> set routes. rs_family s \<noteq> Inet)"

definition rr_inv :: "('k \<Rightarrow> rt_key \<rightharpoonup> rt_hop) \<Rightarrow> (route_message \<Rightarrow> bool) \<Rightarrow> 'k route_run \<Rightarrow> bool" where
  "rr_inv fib reach st \<longleftrightarrow>
     state_sync fib (rr_state st) \<and> good4 reach (rt_routes (rr_state st)) \<and> good6 (rt_v6_routes (rr_state st)) \<and>
     (case rr_check st of CheckV4 routes \<Rightarrow> good4 reach routes | CheckV6 routes \<Rightarrow> good6 routes | _ \<Rightarrow> True)"

lemma handle_subnet_events_good:
  assumes "good4 reach (rt_routes st)" "good6 (rt_v6_routes st)" "\<forall>l. rs_family (g6 l) \<noteq> Inet"
    and "\<forall>e \<in> set batch. v4_event bt e \<longrightarrow> v4_route (g (ev_lease e)) \<and> reach (to_message (g (ev_lease e)))"
  shows "good4 reach (rt_routes (handle_subnet_events kern bt (Some (\<lambda>k. g)) (Some (\<lambda>k. g6)) batch st)) \<and>
    good6 (rt_v6_routes (handle_subnet_events kern bt (Some (\<lambda>k. g)) (Some (\<lambda>k. g6)) batch st))"
  using assms
proof (induction batch arbitrary: st)
  case (Cons e batch)
  let ?st = "handle_event kern bt (Some (\<lambda>k. g)) (Some (\<lambda>k. g6)) st e"
  have "good4 reach (rt_routes ?st)" "good6 (rt_v6_routes ?st)"
    using handle_event_sets [of kern bt g g6 st e] Cons.prems
    by (auto simp: good4_def good6_def split: if_splits)
  from Cons.IH [OF this Cons.prems(3)] Cons.prems(4) show ?case by (simp add: handle_subnet_events_def)
qed (simp add: handle_subnet_events_def)

lemma map_le_add: "m \<subseteq>\<^sub>m n \<Longrightarrow> m \<subseteq>\<^sub>m t ++ n"
  unfolding map_le_def by (metis domIff map_add_dom_app_simps(1))

fun batch_of :: "rr_input \<Rightarrow> event list" where
  "batch_of (Batch b) = b"
| "batch_of _ = []"

lemma route_run_step_inv:
  assumes ok: "fib_ok kern fib reach" and inv: "rr_inv fib reach st" and g6: "\<forall>l. rs_family (g6 l) \<noteq> Inet"
    and i: "\<forall>e \<in> set (batch_of i). v4_event bt e \<longrightarrow> v4_route (g (ev_lease e)) \<and> reach (to_message (g (ev_lease e)))"
  defines "st' \<equiv> route_run_step kern bt (Some (\<lambda>k. g)) (Some (\<lambda>k. g6)) st i"
  shows "rr_inv fib reach st' \<and> tracked (rt_routes (rr_state st')) =
    (if rr_watching st then fold (event_step bt g) (batch_of i) else id) (tracked (rt_routes (rr_state st)))"
proof (cases i)
  case (Batch b)
  have gr6: "\<forall>g' k l. Some (\<lambda>k. g6) = Some g' \<longrightarrow> rs_family (g' k l) \<noteq> Inet" using g6 by auto
  have sync: "state_sync fib (rr_state st)" using inv by (simp add: rr_inv_def)
  from handle_subnet_events_v4 [OF ok sync refl gr6, of b bt g] handle_subnet_events_good [of reach "rr_state st" g6 b bt g kern]
    i inv g6 Batch show ?thesis
    by (simp add: st'_def rr_inv_def split: check_stage.splits)
next
  case CheckGoes
  show ?thesis
  proof (cases "rr_check st")
    case (CheckV4 routes)
    then have "fib (check_subnet_exist_in_routes kern Inet routes (rt_kernel (rr_state st))) =
        tracked routes ++ fib (rt_kernel (rr_state st))"
      using check_v4 [OF ok] inv by (simp add: rr_inv_def good4_def)
    with CheckGoes CheckV4 inv show ?thesis
      by (simp add: st'_def check_step_def Let_def rr_inv_def in_sync_def map_le_add)
  next
    case (CheckV6 routes)
    then have "fib (check_subnet_exist_in_routes kern Inet6 routes (rt_kernel (rr_state st))) = fib (rt_kernel (rr_state st))"
      using check_v6 [OF ok] inv by (simp add: rr_inv_def good6_def)
    with CheckGoes CheckV6 inv show ?thesis by (simp add: st'_def check_step_def Let_def rr_inv_def in_sync_def)
  qed (use CheckGoes inv in \<open>simp_all add: st'_def check_step_def Let_def rr_inv_def\<close>)
qed (use inv in \<open>auto simp: st'_def rr_inv_def split: check_stage.splits\<close>)

definition hostgw_spec6 :: "u32 \<Rightarrow> lease \<Rightarrow> route_spec" where
  "hostgw_spec6 idx l = hostgw_get_v6_route idx () l"

lemma hostgw_get_v6_route_spec: "hostgw_get_v6_route idx = (\<lambda>k. hostgw_spec6 idx)"
  by (simp add: fun_eq_iff hostgw_spec6_def hostgw_get_v6_route_def)

lemma hostgw_spec6_family: "rs_family (hostgw_spec6 idx l) \<noteq> Inet"
  by (simp add: hostgw_spec6_def hostgw_get_v6_route_def Let_def)

fun handled :: "bool \<Rightarrow> rr_input list \<Rightarrow> event list" where
  "handled w [] = []"
| "handled w (i # is) = (if w then batch_of i else []) @ handled (w \<and> i \<noteq> EvtsClosed) is"

lemma route_run_inv:
  assumes ok: "fib_ok kern fib reach" and inv: "rr_inv fib reach st" and g6: "\<forall>l. rs_family (g6 l) \<noteq> Inet"
    and ins: "\<forall>i \<in> set is. \<forall>e \<in> set (batch_of i).
      v4_event bt e \<longrightarrow> v4_route (g (ev_lease e)) \<and> reach (to_message (g (ev_lease e)))"
  defines "st' \<equiv> foldl (route_run_step kern bt (Some (\<lambda>k. g)) (Some (\<lambda>k. g6))) st is"
  shows "rr_inv fib reach st' \<and> tracked (rt_routes (rr_state st')) =
    fold (event_step bt g) (handled (rr_watching st) is) (tracked (rt_routes (rr_state st)))"
  using inv ins unfolding st'_def
proof (induction "is" arbitrary: st)
  case (Cons i "is")
  let ?st = "route_run_step kern bt (Some (\<lambda>k. g)) (Some (\<lambda>k. g6)) st i"
  have w: "rr_watching ?st = (rr_watching st \<and> i \<noteq> EvtsClosed)"
    by (cases i) (auto simp: check_step_def Let_def split: check_stage.splits)
  have step: "rr_inv fib reach ?st" "tracked (rt_routes (rr_state ?st)) =
      (if rr_watching st then fold (event_step bt g) (batch_of i) else id) (tracked (rt_routes (rr_state st)))"
    using route_run_step_inv [OF ok Cons.prems(1) g6, of i bt g] Cons.prems(2) by auto
  from Cons.IH [OF step(1)] Cons.prems(2) step(2) show ?case by (cases "rr_watching st") (simp_all add: w)
qed simp


text \<open>A route can outlive its lease. When the periodic check has copied the list of routes and, before it reads
  the kernel's table, the lease of a tracked route is removed, the check finds the route missing and adds it again:
  it is in the kernel although it is tracked no more.\<close>

theorem route_check_revives_removed:
  assumes ok: "fib_ok kern fib reach" and l: "reachable_lease reach idx l" "backend_type (attrs l) = ''host-gw''"
      "enable_ipv4 l" "\<not> enable_ipv6 l"
    and st: "st = run_route_network kern ''host-gw'' (Some (hostgw_get_route idx)) (Some (hostgw_get_v6_route idx)) k
      [Batch [\<lparr>ev_type = Added, ev_lease = l\<rparr>], CheckGoes, Batch [\<lparr>ev_type = Removed, ev_lease = l\<rparr>], CheckGoes]"
  shows "tracked (rt_routes (rr_state st)) (spec_key (hostgw_spec idx l)) = None \<and>
    fib (rt_kernel (rr_state st)) (spec_key (hostgw_spec idx l)) = Some (spec_hop (hostgw_spec idx l))"
proof -
  let ?s = "hostgw_spec idx l" and ?gr = "Some (hostgw_get_route idx)" and ?gr6 = "Some (hostgw_get_v6_route idx)"
  let ?k0 = "\<lparr>rt_routes = [], rt_v6_routes = [], rt_kernel = k\<rparr>"
  define s1 where "s1 = handle_subnet_events kern ''host-gw'' ?gr ?gr6 [\<lparr>ev_type = Added, ev_lease = l\<rparr>] ?k0"
  define s2 where "s2 = handle_subnet_events kern ''host-gw'' ?gr ?gr6 [\<lparr>ev_type = Removed, ev_lease = l\<rparr>] s1"
  have v4: "v4_route ?s" "reach (to_message ?s)"
    using hostgw_v4_route [OF l(1)] l(1) by (simp_all add: reachable_lease_def)
  have gr6: "\<forall>g6 k l. ?gr6 = Some g6 \<longrightarrow> rs_family (g6 k l) \<noteq> Inet" by (simp add: hostgw_get_v6_route_spec hostgw_spec6_family)
  have sync0: "state_sync fib ?k0" by (simp add: in_sync_def)
  note one = handle_subnet_events_v4 [OF ok _ hostgw_get_route_spec gr6, of _ "[\<lparr>ev_type = t, ev_lease = l\<rparr>]" "''host-gw''" for t]
  have s1: "state_sync fib s1" "tracked (rt_routes s1) = [spec_key ?s \<mapsto> spec_hop ?s]"
    using one [OF sync0, of Added] v4 l by (simp_all add: s1_def event_step_def v4_event_def hop_step_def)
  have s2: "tracked (rt_routes s2) = Map.empty" "fib (rt_kernel s2) (spec_key ?s) = None"
    using one [OF s1(1), of Removed] v4 l s1(2) map_le_Some [of "tracked (rt_routes s1)" "fib (rt_kernel s1)" "spec_key ?s" "spec_hop ?s"] s1(1)
    by (simp_all add: s2_def event_step_def v4_event_def hop_step_def in_sync_def)
  have copy: "good4 reach (rt_routes s1)"
  proof -
    have "set (rt_routes s1) \<subseteq> {?s}"
      using handle_event_sets [of kern "''host-gw''" "hostgw_spec idx" "hostgw_spec6 idx" ?k0 "\<lparr>ev_type = Added, ev_lease = l\<rparr>"] l
      by (simp add: s1_def handle_subnet_events_def hostgw_get_route_spec hostgw_get_v6_route_spec v4_event_def)
    with v4 show ?thesis by (auto simp: good4_def)
  qed
  have "rr_state st = s2\<lparr>rt_kernel := check_subnet_exist_in_routes kern Inet (rt_routes s1) (rt_kernel s2)\<rparr>"
    by (simp add: st run_route_network_def route_run_start_def check_step_def Let_def s1_def s2_def)
  with check_v4 [OF ok copy [unfolded good4_def], of "rt_kernel s2"] s1(2) s2 show ?thesis by (simp add: map_add_def)
qed

lemma sample_added_host: "reachable_lease (\<lambda>_. True) 3 (ev_lease sample_added)"
    "backend_type (attrs (ev_lease sample_added)) = ''host-gw''" "enable_ipv4 (ev_lease sample_added)"
    "\<not> enable_ipv6 (ev_lease sample_added)"
  by (simp_all add: reachable_lease_def sample_added_def sample_lease_def)


theorem route_check_revives_removed_witness:
  "\<exists>st s. st = run_route_network list_kernel ''host-gw'' (Some (hostgw_get_route 3)) (Some (hostgw_get_v6_route 3)) []
      [Batch [sample_added], CheckGoes, Batch [sample_added\<lparr>ev_type := Removed\<rparr>], CheckGoes] \<and>
     tracked (rt_routes (rr_state st)) (spec_key s) = None \<and>
     list_fib (rt_kernel (rr_state st)) (spec_key s) = Some (spec_hop s)"
proof -
  define l where "l = ev_lease sample_added"
  have e: "sample_added = \<lparr>ev_type = Added, ev_lease = l\<rparr>" by (simp add: l_def sample_added_def)
  from route_check_revives_removed [OF list_kernel_ok sample_added_host [folded l_def] refl, of "[]"]
  show ?thesis by (auto simp: e)
qed

end
