(* ===== verification/Mesh.thy ===== *)
theory Mesh
  imports Backends Informer RouteRun
begin

text \<open>
  The parts together: a node registers with its backend and publishes its lease, another node reads the node
  object and its backend programs the kernel.
\<close>

section \<open>host-gw\<close>

text \<open>The manager of the registration is the Kubernetes manager: a lease it returns was acquired by it.\<close>

definition acquires_from ::
  "reg_env \<Rightarrow> (lease_attrs \<Rightarrow> (kube_error + lease) option) \<Rightarrow> bool" where
  "acquires_from renv acquire \<longleftrightarrow> (\<forall>a l. re_acquire renv a = Inr l \<longrightarrow> acquire a = Some (Inr l))"

lemma hostgw_register_attrs:
  assumes "hostgw_register_network nl renv ei config = Inr rn" and "cfg_enable_ipv4 config"
  shows "\<exists>ip ip6. ei_ext_addr ei = Some (V4 ip) \<and>
    re_acquire renv \<lparr>public_ip = ip, public_ipv6 = ip6, backend_type = ''host-gw'', backend_data = None,
      backend_v6_data = None\<rparr> = Inr (rn_lease rn)"
  using assms
  by (auto simp: hostgw_register_network_def hostgw_v4_attrs_def hostgw_v6_attrs_def lease_attrs_default_def
      split: if_splits)

lemma hostgw_added:
  assumes ok: "fib_ok kern fib reach" and sync: "state_sync fib st"
    and l: "backend_type (attrs l) = ''host-gw''" "enable_ipv4 l" "reachable_lease reach i l"
  shows "fib (rt_kernel (handle_subnet_events kern ''host-gw'' (Some (hostgw_get_route i))
      (Some (hostgw_get_v6_route i)) [\<lparr>ev_type = Added, ev_lease = l\<rparr>] st))
    (Some (V4 (n4_ip (subnet l))), ucast (n4_prefix_len (subnet l))) = Some (Some (V4 (public_ip (attrs l))), Some i)"
proof -
  have gr6: "\<forall>g6 k l. Some (hostgw_get_v6_route i) = Some g6 \<longrightarrow> rs_family (g6 k l) \<noteq> Inet"
    by (simp add: hostgw_get_v6_route_def Let_def)
  from handle_subnet_events_v4 [OF ok sync hostgw_get_route_spec gr6, of "[\<lparr>ev_type = Added, ev_lease = l\<rparr>]" "''host-gw''"]
  show ?thesis
    using l hostgw_v4_route [OF l(3)]
    by (simp add: event_step_def v4_event_def hop_step_def reachable_lease_def hostgw_spec_def hostgw_get_route_def
        spec_key_def spec_hop_def)
qed

text \<open>C1. A node that joins is routed to. When node A registers with \<open>host-gw\<close> on an IPv4 network and no
  overwrite annotation is set, its node object, once patched, gives every other node B one added event; when B's
  backend handles it, B's kernel has a route to the subnet of A's lease whose next hop is A's external address on
  B's external interface. The hypotheses are the annotation keys both sides share, a kernel that keeps its
  documented promises, and that A's address is on a network B is attached to.\<close>

theorem hostgw_peers_are_routed:
  assumes keys: "new_annotations prefix = Inr (km_annotations mgr)"
    and env: "ev_annotations env = km_annotations mgr" "ev_enable_ipv4 env" "\<not> ev_enable_ipv6 env"
    and raw: "ev_raw env ''null'' = Some ''null''" "ev_raw env [] = None"
    and cfg: "cfg_enable_ipv4 (km_config mgr)"
    and own: "\<forall>r \<in> set as. \<forall>n. fetch_node mgr (at_reply r) = Some n \<longrightarrow> one_v4 n \<and>
      annotation (nd_annotations n) (an_backend_public_ip_overwrite (km_annotations mgr)) = []"
    and acq: "acquires_from renv (acquire_lease mgr start as pstart pas expires)"
    and reg: "hostgw_register_network nl renv ei (km_config mgr) = Inr rn"
    and len: "0 < n4_prefix_len (subnet (rn_lease rn))" "n4_prefix_len (subnet (rn_lease rn)) \<le> 32"
    and ok: "fib_ok kern fib reach" and sync: "state_sync fib st"
    and near: "\<forall>m. route_gateway m = ei_ext_addr ei \<longrightarrow> reach m"
  shows "\<exists>r n e. r \<in> set as \<and> fetch_node mgr (at_reply r) = Some n \<and>
    handle_add_lease_event env Added (patched mgr (attrs (rn_lease rn)) ''null'' ''null'' n) = [e] \<and>
    fib (rt_kernel (handle_subnet_events kern ''host-gw'' (Some (hostgw_get_route i)) (Some (hostgw_get_v6_route i)) [e] st))
      (Some (V4 (n4_ip (subnet (rn_lease rn)))), ucast (n4_prefix_len (subnet (rn_lease rn)))) =
    Some (ei_ext_addr ei, Some i)"
proof -
  obtain ip ip6 where ip: "ei_ext_addr ei = Some (V4 ip)" and l: "re_acquire renv \<lparr>public_ip = ip, public_ipv6 = ip6,
      backend_type = ''host-gw'', backend_data = None, backend_v6_data = None\<rparr> = Inr (rn_lease rn)" (is "re_acquire _ ?a = _")
    using hostgw_register_attrs [OF reg cfg] by blast
  define a where "a = ?a"
  then have a: "public_ip a = ip" "backend_type a = ''host-gw''" "backend_data a = None" "backend_v6_data a = None"
      "re_acquire renv a = Inr (rn_lease rn)"
    using l by simp_all
  have acq': "acquire_lease mgr start as pstart pas expires a = Some (Inr (rn_lease rn))"
    using acq a(5) by (simp add: acquires_from_def)
  have data: "raw_to_string (backend_data a) = ''null''" "raw_to_string (backend_v6_data a) = ''null''"
    by (simp_all add: raw_to_string_def a)
  have pub: "publishes_v4 a (raw_to_string (backend_data a))" by (simp add: publishes_v4_def a)
  have one: "\<forall>r \<in> set as. \<forall>n. fetch_node mgr (at_reply r) = Some n \<longrightarrow> one_v4 n" using own by blast
  obtain r n where at: "attrs (rn_lease rn) = a" and r: "r \<in> set as" "fetch_node mgr (at_reply r) = Some n"
    and m: "managed env (patched mgr a ''null'' ''null'' n)"
    and derived: "\<forall>ip. ip4_from_str (if annotation (nd_annotations n) (an_backend_public_ip_overwrite (km_annotations mgr)) \<noteq> []
          then annotation (nd_annotations n) (an_backend_public_ip_overwrite (km_annotations mgr))
          else ip4_to_string (public_ip a)) = Inr ip \<longrightarrow>
      (\<exists>l'. node_to_lease env (patched mgr a ''null'' ''null'' n) = Inr l' \<and> enable_ipv4 l' \<and>
        subnet l' = subnet (rn_lease rn) \<and> public_ip (attrs l') = ip \<and> backend_type (attrs l') = backend_type a \<and>
        backend_data (attrs l') = Some ''null'')"
    using acquire_published [OF keys env cfg _ raw(2) pub one acq'] raw(1) unfolding data Let_def by blast
  have "annotation (nd_annotations n) (an_backend_public_ip_overwrite (km_annotations mgr)) = []" using own r by blast
  with derived [THEN spec, of ip] obtain l' where
      l': "node_to_lease env (patched mgr a ''null'' ''null'' n) = Inr l'" "enable_ipv4 l'"
      "subnet l' = subnet (rn_lease rn)" "public_ip (attrs l') = ip" "backend_type (attrs l') = ''host-gw''"
    by (auto simp: a)
  have "route_gateway (to_message (hostgw_spec i l')) = Some (V4 ip)"
    by (simp add: hostgw_spec_def hostgw_get_route_def to_message_def route_gateway_def route_attr_ip_def
        route_addr_to_ip_def l')
  then have "reachable_lease reach i l'" using near ip len l'(3) by (simp add: reachable_lease_def)
  note routed = hostgw_added [OF ok sync l'(5,2) this, unfolded l'(3,4), folded ip]
  have "handle_add_lease_event env Added (patched mgr (attrs (rn_lease rn)) ''null'' ''null'' n) =
      [\<lparr>ev_type = Added, ev_lease = l'\<rparr>]"
    using m l'(1) by (simp add: handle_add_lease_event_def at)
  with routed r show ?thesis by blast
qed

definition sample_mesh_env :: reg_env where
  "sample_mesh_env = sample_reg_env\<lparr>re_acquire := (\<lambda>a.
     case acquire_lease sample_manager 0 sample_rounds 0
         [\<lparr>at_reply = True, at_cancelled = False, at_now = 1, at_slept = True\<rparr>] 0 a of
       Some (Inr l) \<Rightarrow> Inr l | _ \<Rightarrow> Inl [])\<rparr>"

theorem hostgw_peers_are_routed_witness:
  "\<exists>(rn :: unit route_network) e.
     hostgw_register_network sample_netlink sample_mesh_env sample_ei (km_config sample_manager) = Inr rn \<and>
     handle_add_lease_event sample_event_env Added
       (patched sample_manager (attrs (rn_lease rn)) ''null'' ''null'' sample_own_node) = [e] \<and>
     list_fib (rt_kernel (handle_subnet_events list_kernel ''host-gw'' (Some (hostgw_get_route 3))
         (Some (hostgw_get_v6_route 3)) [e] sample_route_state))
       (Some (V4 (IP4 0x0af40100)), 24) = Some (Some (V4 (IP4 0x0a000001)), Some 3)"
proof -
  let ?r = "hostgw_register_network sample_netlink sample_mesh_env sample_ei (km_config sample_manager) :: err + unit route_network"
  let ?a = "lease_attrs_default\<lparr>backend_type := ''host-gw'', public_ip := IP4 0x0a000001\<rparr>"
  have "(case acquire_lease sample_manager 0 sample_rounds 0
         [\<lparr>at_reply = True, at_cancelled = False, at_now = 1, at_slept = True\<rparr>] 0 ?a of
      Some (Inr l) \<Rightarrow> subnet l = \<lparr>n4_ip = IP4 0x0af40100, n4_prefix_len = 24\<rparr> | _ \<Rightarrow> False)"
    by code_simp
  then obtain l where l: "re_acquire sample_mesh_env ?a = Inr l" "subnet l = \<lparr>n4_ip = IP4 0x0af40100, n4_prefix_len = 24\<rparr>"
    by (auto simp: sample_mesh_env_def split: option.splits sum.splits)
  have attrs: "hostgw_v4_attrs sample_ei (km_config sample_manager) (lease_attrs_default\<lparr>backend_type := ''host-gw''\<rparr>) =
      Inr (?a, Some (hostgw_get_route 2 :: unit get_route))"
      "hostgw_v6_attrs sample_ei (km_config sample_manager) ?a = Inr (?a, None :: unit get_route option)"
    by (simp_all add: hostgw_v4_attrs_def hostgw_v6_attrs_def sample_manager_def config_default_def ext_addr_ip4_def sample_ei_def)
  have mtu: "get_link_mtu sample_netlink (ei_iface_index sample_ei) = Inr 1400"
    by (simp add: get_link_mtu_def sample_netlink_def first_of_dump_def link_mtu_def)
  have "acquire_or_fail sample_mesh_env ?a = Inr l" using l(1) by simp
  then have "\<exists>rn. ?r = Inr rn \<and> rn_lease rn = l"
    unfolding hostgw_register_network_def mtu rbind_simps attrs prod.case by simp
  with l(2) obtain rn where rn: "?r = Inr rn" "subnet (rn_lease rn) = \<lparr>n4_ip = IP4 0x0af40100, n4_prefix_len = 24\<rparr>"
    by auto
  have acq: "acquires_from sample_mesh_env (acquire_lease sample_manager 0 sample_rounds 0
      [\<lparr>at_reply = True, at_cancelled = False, at_now = 1, at_slept = True\<rparr>] 0)"
    by (auto simp: acquires_from_def sample_mesh_env_def split: option.splits sum.splits)
  have keys: "new_annotations ''flannel.alpha.coreos.com'' = Inr (km_annotations sample_manager)"
    using sample_annotations_ok by (simp add: sample_manager_def)
  have env: "ev_annotations sample_event_env = km_annotations sample_manager" "ev_enable_ipv4 sample_event_env"
      "\<not> ev_enable_ipv6 sample_event_env" "ev_raw sample_event_env ''null'' = Some ''null''"
      "ev_raw sample_event_env [] = None" "cfg_enable_ipv4 (km_config sample_manager)"
    by (simp_all add: sample_event_env_def sample_manager_def)
  have own: "\<forall>r \<in> set sample_rounds. \<forall>n. fetch_node sample_manager (at_reply r) = Some n \<longrightarrow> one_v4 n \<and>
      annotation (nd_annotations n) (an_backend_public_ip_overwrite (km_annotations sample_manager)) = []"
    by (simp add: sample_rounds_def fetch_node_def sample_manager_def one_v4_def sample_own_node_def annotation_def)
  have node: "r \<in> set sample_rounds \<Longrightarrow> fetch_node sample_manager (at_reply r) = Some n \<Longrightarrow> n = sample_own_node" for r n
    by (simp add: sample_rounds_def fetch_node_def sample_manager_def)
  have len: "0 < n4_prefix_len (subnet (rn_lease rn))" "n4_prefix_len (subnet (rn_lease rn)) \<le> 32" by (simp_all add: rn(2))
  have sync: "state_sync list_fib sample_route_state" by (simp add: in_sync_def sample_route_state_def)
  have ext: "ei_ext_addr sample_ei = Some (V4 (IP4 0x0a000001))" by (simp add: sample_ei_def)
  have near: "\<forall>m. route_gateway m = ei_ext_addr sample_ei \<longrightarrow> True" by simp
  from hostgw_peers_are_routed [OF keys env own acq rn(1) len list_kernel_ok sync near, of 3] rn node show ?thesis
    unfolding ext by fastforce
qed

end
