(* ===== verification/Udp.thy ===== *)
theory Udp
  imports Proxy Backends World Vici
begin

text \<open>
  The UDP backend around the proxy: \<open>backend/udp/mod.rs\<close> (registration), \<open>backend/udp/network.rs\<close> (tun device,
  sockets and the run loop) and \<open>ip/tun.rs\<close>. The operating system is a parameter. Descriptors are numbers; an
  \<open>OwnedFd\<close> or socket that goes out of scope is closed, in the reverse order of declaration.
\<close>

record 's udp_os =
  uo_netlink :: "'s \<Rightarrow> netlink"
  uo_open_tun :: "('s, string, nat) step"
  uo_tunsetiff :: "nat \<Rightarrow> u8 list \<Rightarrow> u16 \<Rightarrow> ('s, string, u8 list) step"
  uo_addr_add :: "u32 \<Rightarrow> ip_addr \<Rightarrow> u8 \<Rightarrow> ('s, string, unit) step"
  uo_set_mtu :: "u32 \<Rightarrow> u32 \<Rightarrow> ('s, string, unit) step"
  uo_set_up :: "u32 \<Rightarrow> ('s, string, unit) step"
  uo_route_add :: "route_message \<Rightarrow> ('s, link_error, unit) step"
  uo_bind :: "ip4 \<Rightarrow> u16 \<Rightarrow> ('s, string, nat) step"
  uo_socketpair :: "('s, string, nat \<times> nat) step"
  uo_dup :: "nat \<Rightarrow> ('s, string, nat) step"
  uo_close :: "nat \<Rightarrow> 's \<Rightarrow> 's"

text \<open>The rest of a function while it owns a descriptor: an error drops it.\<close>

definition closing :: "'s udp_os \<Rightarrow> nat \<Rightarrow> ('s, 'e, 'a) step \<Rightarrow> ('s, 'e, 'a) step" where
  "closing os fd m s = (case m s of (s1, Inl e) \<Rightarrow> (uo_close os fd s1, Inl e) | (s1, Inr x) \<Rightarrow> (s1, Inr x))"

definition one_err :: "string \<Rightarrow> string \<Rightarrow> err" where
  "one_err p e = [p @ e]"

text \<open>A query of the kernel.\<close>

definition ask :: "'s udp_os \<Rightarrow> (netlink \<Rightarrow> 'e + 'a) \<Rightarrow> ('s, 'e, 'a) step" where
  "ask os q s = (s, q (uo_netlink os s))"

section \<open>The tun device\<close>

definition IFNAME_SIZE :: nat where "IFNAME_SIZE = 16"

definition from_zero_term :: "u8 list \<Rightarrow> string" where
  "from_zero_term bs = bytes_text (from_utf8_lossy (takeWhile (\<lambda>b. b \<noteq> 0) bs))"

definition ifreq_name :: "string \<Rightarrow> u8 list" where
  "ifreq_name dev_name =
     (let name = text_bytes dev_name; n = min (length name) (IFNAME_SIZE - 1)
      in take n name @ replicate (IFNAME_SIZE - n) 0)"

text \<open>\<open>IFF_TUN | IFF_NO_PI\<close>.\<close>

definition open_tun :: "'s udp_os \<Rightarrow> string \<Rightarrow> ('s, err, nat \<times> string) step" where
  "open_tun os dev_name =
     then_do (on_err (one_err ''open /dev/net/tun: '') (uo_open_tun os)) (\<lambda>fd.
     closing os fd (
       then_do (on_err (one_err ''ioctl TUNSETIFF: '') (uo_tunsetiff os fd (ifreq_name dev_name) 0x1001)) (\<lambda>ifr.
       give (fd, from_zero_term ifr))))"

definition tun_route :: "ip4net \<Rightarrow> u32 \<Rightarrow> route_message" where
  "tun_route net index =
     \<lparr>rm_family = Inet, rm_prefix_len = ucast (n4_prefix_len net), rm_kind = Unicast, rm_onlink = False,
      rm_attributes = [RtaDestination (RouteInet (n4_ip net)), RtaOif index]\<rparr>"

text \<open>A route that exists already is as good as a new one.\<close>

definition add_tun_route :: "'s udp_os \<Rightarrow> string \<Rightarrow> ip4net \<Rightarrow> u32 \<Rightarrow> ('s, err, unit) step" where
  "add_tun_route os ifname net index s =
     (case uo_route_add os (tun_route net index) s of
        (s1, Inl (LinkErr e)) \<Rightarrow> (s1, Inl [''failed to add route ('' @ n4_to_string net @ '' -> '' @ ifname @ ''): '' @ e])
      | (s1, _) \<Rightarrow> (s1, Inr ()))"

definition configure_iface :: "'s udp_os \<Rightarrow> string \<Rightarrow> ip4net \<Rightarrow> u32 \<Rightarrow> ('s, err, unit) step" where
  "configure_iface os ifname ipn mtu =
     then_do (on_err (\<lambda>_. [''failed to lookup interface '' @ ifname]) (ask os (\<lambda>nl. get_interface_by_name nl ifname))) (\<lambda>iface.
     let ipn_local = \<lparr>n4_ip = n4_ip ipn, n4_prefix_len = 32\<rparr> in
     then_do (on_err (one_err (''failed to add IP address '' @ n4_to_string ipn_local @ '' to '' @ ifname @ '': ''))
       (uo_addr_add os (if_index iface) (V4 (n4_ip ipn_local)) 32)) (\<lambda>_.
     then_do (on_err (one_err (''failed to set MTU for '' @ ifname @ '': '')) (uo_set_mtu os (if_index iface) mtu)) (\<lambda>_.
     then_do (on_err (one_err (''failed to set interface '' @ ifname @ '' to UP state: '')) (uo_set_up os (if_index iface))) (\<lambda>_.
     add_tun_route os ifname (n4_network ipn) (if_index iface)))))"

section \<open>The network\<close>

definition UDP_ENCAP_OVERHEAD :: u32 where "UDP_ENCAP_OVERHEAD = 28"

definition TUN_DEVICE_PATTERN :: string where "TUN_DEVICE_PATTERN = ''flannel%d''"

record udp_network =
  un_lease :: lease
  un_port :: u32
  un_tun_net :: ip4net
  un_mtu :: u32
  un_tun :: nat
  un_conn :: nat
  un_ctl :: nat
  un_ctl2 :: "nat option"

definition saturating_sub :: "u32 \<Rightarrow> u32 \<Rightarrow> u32" where
  "saturating_sub a b = (if a < b then 0 else a - b)"

definition bind_ip :: "external_interface \<Rightarrow> err + ip4" where
  "bind_ip ei =
     (case ei_iface_addr ei of
        Some (V4 v4) \<Rightarrow> Inr v4
      | _ \<Rightarrow> Inl [''failed to start listening on UDP socket: no IPv4 interface address''])"

definition new_network ::
  "'s udp_os \<Rightarrow> external_interface \<Rightarrow> u32 \<Rightarrow> ip4net \<Rightarrow> lease \<Rightarrow> ('s, err, udp_network) step" where
  "new_network os ei port tun_net l =
     then_do (ask os (\<lambda>nl. get_link_mtu nl (ei_iface_index ei))) (\<lambda>ext_mtu.
     let mtu = saturating_sub ext_mtu UDP_ENCAP_OVERHEAD in
     then_do (on_err (prefix_err ''failed to open TUN device: '') (open_tun os TUN_DEVICE_PATTERN)) (\<lambda>(tun, tun_name).
     closing os tun (
       then_do (configure_iface os tun_name tun_net mtu) (\<lambda>_.
       then_do (lift_result (bind_ip ei)) (\<lambda>ip.
       then_do (on_err (one_err ''failed to start listening on UDP socket: '') (uo_bind os ip (ucast port))) (\<lambda>conn.
       closing os conn (
         then_do (on_err (one_err ''failed to create control socket: '') (uo_socketpair os)) (\<lambda>(ctl, ctl2).
         give \<lparr>un_lease = l, un_port = port, un_tun_net = tun_net, un_mtu = mtu, un_tun = tun, un_conn = conn,
           un_ctl = ctl, un_ctl2 = Some ctl2\<rparr>))))))))"

section \<open>Registration\<close>

definition UDP_DEFAULT_PORT :: u32 where "UDP_DEFAULT_PORT = 8285"

definition udp_config_of :: "type_error \<Rightarrow> json \<Rightarrow> string + u32" where
  "udp_config_of te v =
     rbind (struct_members te ''UdpBackendConfig'' [''Port''] v) (\<lambda>f. de_field UDP_DEFAULT_PORT (de_i32 te) (f 0))"

definition udp_config :: "(string \<Rightarrow> string + json) \<Rightarrow> type_error \<Rightarrow> config \<Rightarrow> err + u32" where
  "udp_config parse te config =
     (case cfg_backend config of
        None \<Rightarrow> Inr UDP_DEFAULT_PORT
      | Some raw \<Rightarrow> map_err (\<lambda>e. [''error decoding UDP backend config: '' @ e]) (rbind (parse raw) (udp_config_of te)))"

definition udp_register_network ::
  "'s udp_os \<Rightarrow> reg_env \<Rightarrow> type_error \<Rightarrow> external_interface \<Rightarrow> config \<Rightarrow> ('s, err, udp_network) step" where
  "udp_register_network os env te ei config =
     then_do (lift_result (udp_config (re_parse env) te config)) (\<lambda>port.
     then_do (lift_result (ext_addr_ip4 ei)) (\<lambda>ip.
     then_do (lift_result (acquire_or_fail env (lease_attrs_default\<lparr>public_ip := ip\<rparr>))) (\<lambda>l.
     new_network os ei port \<lparr>n4_ip = n4_ip (subnet l), n4_prefix_len = n4_prefix_len (cfg_network config)\<rparr> l)))"

section \<open>Running\<close>

text \<open>The start of \<open>run\<close>: take the second control socket, duplicate the descriptors and hand them to the proxy
  thread with the address and the MTU of the tun. \<open>None\<close> is the early return.\<close>

record proxy_args =
  pa_tun :: nat
  pa_sock :: nat
  pa_ctl :: nat
  pa_tun_ip :: u32
  pa_mtu :: nat

definition udp_start :: "'s udp_os \<Rightarrow> udp_network \<Rightarrow> 's \<Rightarrow> 's \<times> udp_network \<times> proxy_args option" where
  "udp_start os nw s =
     (case un_ctl2 nw of
        None \<Rightarrow> (s, nw, None)
      | Some ctl2 \<Rightarrow>
          (let nw = nw\<lparr>un_ctl2 := None\<rparr> in
           case closing os ctl2 (then_do (uo_dup os (un_tun nw)) (\<lambda>tun2.
                  closing os tun2 (then_do (uo_dup os (un_conn nw)) (\<lambda>sock2. give (tun2, sock2))))) s of
             (s1, Inl _) \<Rightarrow> (s1, nw, None)
           | (s1, Inr (tun2, sock2)) \<Rightarrow>
               (s1, nw, Some \<lparr>pa_tun = tun2, pa_sock = sock2, pa_ctl = ctl2,
                  pa_tun_ip = to_be32 (ip4_val (n4_ip (un_tun_net nw))), pa_mtu = unat (un_mtu nw)\<rparr>)))"

text \<open>The loop: what the select sees next, the datagrams written to the control socket, and whether it returned.\<close>

datatype udp_input = UdpBatch "event list" | UdpEvtsClosed | UdpWatchDone

fun udp_loop :: "u32 \<Rightarrow> udp_input list \<Rightarrow> u8 list list \<times> bool" where
  "udp_loop port [] = ([], False)"
| "udp_loop port (UdpBatch b # is) =
     (let (ds, r) = udp_loop port is in (process_subnet_events port b @ ds, r))"
| "udp_loop port (_ # is) = ([command_to_bytes udp_stop_proxy], True)"

section \<open>Descriptors\<close>

lemma closing_eq_Inr: "closing os fd m s = (s', Inr y) \<longleftrightarrow> m s = (s', Inr y)"
  by (auto simp: closing_def split: prod.splits sum.splits)

text \<open>\<open>tracks F m D\<close>: a step that fails leaves the open descriptors \<open>F\<close> as they were, and one that succeeds has
  opened exactly the new descriptors \<open>D\<close> of its result.\<close>

definition tracks :: "('s \<Rightarrow> nat set) \<Rightarrow> ('s, 'e, 'a) step \<Rightarrow> ('a \<Rightarrow> nat list) \<Rightarrow> bool" where
  "tracks F m D \<longleftrightarrow>
     (\<forall>s. case m s of
        (s1, Inl e) \<Rightarrow> F s1 = F s
      | (s1, Inr x) \<Rightarrow> distinct (D x) \<and> set (D x) \<inter> F s = {} \<and> F s1 = F s \<union> set (D x))"

definition os_fds_ok :: "'s udp_os \<Rightarrow> ('s \<Rightarrow> nat set) \<Rightarrow> bool" where
  "os_fds_ok os F \<longleftrightarrow>
     tracks F (uo_open_tun os) (\<lambda>fd. [fd]) \<and> (\<forall>ip port. tracks F (uo_bind os ip port) (\<lambda>fd. [fd])) \<and>
     tracks F (uo_socketpair os) (\<lambda>(a, b). [a, b]) \<and> (\<forall>fd. tracks F (uo_dup os fd) (\<lambda>fd. [fd])) \<and>
     (\<forall>fd name flags. tracks F (uo_tunsetiff os fd name flags) (\<lambda>_. [])) \<and>
     (\<forall>i ip len. tracks F (uo_addr_add os i ip len) (\<lambda>_. [])) \<and> (\<forall>i mtu. tracks F (uo_set_mtu os i mtu) (\<lambda>_. [])) \<and>
     (\<forall>i. tracks F (uo_set_up os i) (\<lambda>_. [])) \<and> (\<forall>m. tracks F (uo_route_add os m) (\<lambda>_. [])) \<and>
     (\<forall>fd s. F (uo_close os fd s) = F s - {fd})"

lemma tracks_then:
  assumes "tracks F m (\<lambda>_. [])" and "\<And>x. tracks F (k x) D"
  shows "tracks F (then_do m k) D"
  unfolding tracks_def
proof
  fix s
  obtain s1 r where m: "m s = (s1, r)" by fastforce
  show "case then_do m k s of (s1, Inl e) \<Rightarrow> F s1 = F s
      | (s1, Inr x) \<Rightarrow> distinct (D x) \<and> set (D x) \<inter> F s = {} \<and> F s1 = F s \<union> set (D x)"
  proof (cases r)
    case (Inl e)
    with assms(1) m show ?thesis by (auto simp: tracks_def then_do_def dest: spec [of _ s])
  next
    case (Inr x)
    with assms(1) m have "F s1 = F s" by (auto simp: tracks_def dest: spec [of _ s])
    with assms(2) [of x, unfolded tracks_def, rule_format, of s1] m Inr show ?thesis by (simp add: then_do_def)
  qed
qed

lemma tracks_own:
  assumes close: "\<And>fd s. F (uo_close os fd s) = F s - {fd}" and m: "tracks F m (\<lambda>x. [h x])"
    and k: "\<And>x. tracks F (k x) (D x)" and D: "\<And>x s s1 y. k x s = (s1, Inr y) \<Longrightarrow> D' y = h x # D x y"
  shows "tracks F (then_do m (\<lambda>x. closing os (h x) (k x))) D'"
  unfolding tracks_def
proof
  fix s
  obtain s1 r where ms: "m s = (s1, r)" by fastforce
  show "case then_do m (\<lambda>x. closing os (h x) (k x)) s of (s1, Inl e) \<Rightarrow> F s1 = F s
      | (s1, Inr x) \<Rightarrow> distinct (D' x) \<and> set (D' x) \<inter> F s = {} \<and> F s1 = F s \<union> set (D' x)"
  proof (cases r)
    case (Inl e)
    with m ms show ?thesis by (auto simp: tracks_def then_do_def dest: spec [of _ s])
  next
    case (Inr x)
    with m ms have x: "h x \<notin> F s" "F s1 = insert (h x) (F s)" by (auto simp: tracks_def dest!: spec [of _ s])
    obtain s2 r2 where ks: "k x s1 = (s2, r2)" by fastforce
    show ?thesis
    proof (cases r2)
      case (Inl e)
      with k [of x, unfolded tracks_def, rule_format, of s1] ks have "F s2 = F s1" by simp
      with x ms Inr ks Inl close show ?thesis by (simp add: then_do_def closing_def)
    next
      case (Inr y)
      with k [of x, unfolded tracks_def, rule_format, of s1] ks
      have y: "distinct (D x y)" "set (D x y) \<inter> F s1 = {}" "F s2 = F s1 \<union> set (D x y)" by simp_all
      have "D' y = h x # D x y" using D [of x s1 s2 y] ks Inr by simp
      with x y ms \<open>r = Inr x\<close> ks Inr show ?thesis by (auto simp: then_do_def closing_def)
    qed
  qed
qed

lemma tracks_err [intro]: "tracks F m D \<Longrightarrow> tracks F (on_err f m) D"
  by (fastforce simp: tracks_def on_err_def split: prod.splits sum.splits)

lemma tracks_pure [intro, simp]:
  "tracks F (give x) (\<lambda>_. [])" "tracks F (lift_result r) (\<lambda>_. [])" "tracks F (ask os q) (\<lambda>_. [])"
  by (auto simp: tracks_def give_def lift_result_def ask_def split: sum.splits)

definition network_fds :: "udp_network \<Rightarrow> nat list" where
  "network_fds nw = [un_tun nw, un_conn nw, un_ctl nw] @ (case un_ctl2 nw of Some fd \<Rightarrow> [fd] | None \<Rightarrow> [])"

lemma configure_iface_tracks:
  assumes "os_fds_ok os F"
  shows "tracks F (configure_iface os name ipn mtu) (\<lambda>_. [])"
proof -
  have add: "tracks F (add_tun_route os name n i) (\<lambda>_. [])" for n i
  proof -
    have "tracks F (uo_route_add os (tun_route n i)) (\<lambda>_. [])" using assms by (simp add: os_fds_ok_def)
    then have "F (fst (uo_route_add os (tun_route n i) s)) = F s" for s
      unfolding tracks_def by (cases "uo_route_add os (tun_route n i) s"; cases "snd (uo_route_add os (tun_route n i) s)")
        (drule spec [of _ s], simp)+
    moreover have "fst (add_tun_route os name n i s) = fst (uo_route_add os (tun_route n i) s)" for s
      by (simp add: add_tun_route_def split: prod.splits sum.splits link_error.splits)
    ultimately show ?thesis unfolding tracks_def by (simp add: case_prod_unfold split: sum.splits)
  qed
  show ?thesis
    unfolding configure_iface_def Let_def
    by (intro tracks_then tracks_err tracks_pure add) (use assms in \<open>auto simp: os_fds_ok_def\<close>)
qed

lemma open_tun_tracks:
  assumes ok: "os_fds_ok os F"
  shows "tracks F (open_tun os pat) (\<lambda>(fd, _). [fd])"
  unfolding open_tun_def
proof (rule tracks_own [where h = id and D = "\<lambda>_ _. []", simplified])
  show "F (uo_close os fd s) = F s - {fd}" for fd s using ok by (simp add: os_fds_ok_def)
  show "tracks F (on_err (one_err ''open /dev/net/tun: '') (uo_open_tun os)) (\<lambda>x. [x])"
    using ok by (intro tracks_err) (simp add: os_fds_ok_def)
  show "tracks F (then_do (on_err (one_err ''ioctl TUNSETIFF: '') (uo_tunsetiff os fd (ifreq_name pat) 0x1001))
      (\<lambda>ifr. give (fd, from_zero_term ifr))) (\<lambda>_. [])" for fd
    using ok by (intro tracks_then tracks_err tracks_pure) (simp add: os_fds_ok_def)
qed (auto simp: then_do_eq_Inr on_err_eq_Inr)

lemma new_network_fields:
  assumes "new_network os ei port tun_net l s = (s1, Inr nw)"
  shows "\<exists>ext. get_link_mtu (uo_netlink os s) (ei_iface_index ei) = Inr ext \<and> un_mtu nw = saturating_sub ext UDP_ENCAP_OVERHEAD \<and>
    un_lease nw = l \<and> un_port nw = port \<and> un_tun_net nw = tun_net \<and> un_ctl2 nw \<noteq> None"
  using assms
  by (clarsimp simp: new_network_def then_do_eq_Inr on_err_eq_Inr closing_eq_Inr ask_def lift_result_def Let_def)

lemma new_network_tracks:
  assumes ok: "os_fds_ok os F"
  shows "tracks F (new_network os ei port tun_net l) network_fds"
proof -
  have close: "F (uo_close os fd s) = F s - {fd}" for fd s using ok by (simp add: os_fds_ok_def)
  let ?sock = "\<lambda>tun mtu conn. then_do (on_err (one_err ''failed to create control socket: '') (uo_socketpair os)) (\<lambda>(ctl, ctl2).
    give \<lparr>un_lease = l, un_port = port, un_tun_net = tun_net, un_mtu = mtu, un_tun = tun, un_conn = conn,
      un_ctl = ctl, un_ctl2 = Some ctl2\<rparr>)"
  have sock: "tracks F (?sock tun mtu conn) (\<lambda>nw. [un_ctl nw, the (un_ctl2 nw)])" for tun mtu conn
  proof -
    have pair: "tracks F (on_err (one_err ''failed to create control socket: '') (uo_socketpair os)) (\<lambda>(a, b). [a, b])"
      using ok by (intro tracks_err) (simp add: os_fds_ok_def)
    show ?thesis using pair by (fastforce simp: tracks_def then_do_def split: prod.splits sum.splits)
  qed
  have bound: "tracks F (then_do (on_err (one_err ''failed to start listening on UDP socket: '') (uo_bind os ip (ucast port)))
      (\<lambda>conn. closing os conn (?sock tun mtu conn))) (\<lambda>nw. [un_conn nw, un_ctl nw, the (un_ctl2 nw)])" for tun mtu ip
  proof (rule tracks_own [where h = id and D = "\<lambda>_ nw. [un_ctl nw, the (un_ctl2 nw)]", simplified, OF close _ sock])
    show "tracks F (on_err (one_err ''failed to start listening on UDP socket: '') (uo_bind os ip (ucast port))) (\<lambda>x. [x])"
      using ok by (intro tracks_err) (simp add: os_fds_ok_def)
  qed (auto simp: then_do_eq_Inr on_err_eq_Inr)
  let ?rest = "\<lambda>mtu (tun, tun_name). then_do (configure_iface os tun_name tun_net mtu) (\<lambda>_.
    then_do (lift_result (bind_ip ei)) (\<lambda>ip.
    then_do (on_err (one_err ''failed to start listening on UDP socket: '') (uo_bind os ip (ucast port)))
      (\<lambda>conn. closing os conn (?sock tun mtu conn))))"
  have rest: "tracks F (?rest mtu x) (\<lambda>nw. [un_conn nw, un_ctl nw, the (un_ctl2 nw)])" for mtu x
    by (cases x) (simp, intro tracks_then configure_iface_tracks [OF ok] tracks_pure bound)
  have tun: "tracks F (on_err (prefix_err ''failed to open TUN device: '') (open_tun os TUN_DEVICE_PATTERN)) (\<lambda>x. [fst x])"
    using open_tun_tracks [OF ok] by (intro tracks_err) (simp add: case_prod_unfold)
  have own: "tracks F (then_do (on_err (prefix_err ''failed to open TUN device: '') (open_tun os TUN_DEVICE_PATTERN))
      (\<lambda>x. closing os (fst x) (?rest mtu x))) network_fds" for mtu
    by (rule tracks_own [where h = fst, OF close tun rest])
      (auto simp: then_do_eq_Inr on_err_eq_Inr closing_eq_Inr network_fds_def)
  show ?thesis
    unfolding new_network_def Let_def
    by (rule tracks_then [OF tracks_pure(3)]) (use own in \<open>simp add: case_prod_unfold\<close>)
qed


text \<open>An operating system whose state is the list of its open descriptors, with an interface of MTU 1500. The last
  argument makes the control socket fail.\<close>

definition fd_new :: "nat list \<Rightarrow> nat" where
  "fd_new s = Suc (foldr max s 0)"

definition fd_os :: "bool \<Rightarrow> nat list udp_os" where
  "fd_os fails =
     \<lparr>uo_netlink = (\<lambda>_. sample_netlink\<lparr>
        nl_link_by_name := (\<lambda>_. ([\<lparr>lm_index = 9, lm_attributes = [IfName ''flannel0'']\<rparr>], None)),
        nl_link_by_index := (\<lambda>_. ([\<lparr>lm_index = 2, lm_attributes = [IfName ''eth0'', Mtu 1500]\<rparr>], None))\<rparr>),
      uo_open_tun = (\<lambda>s. (fd_new s # s, Inr (fd_new s))),
      uo_tunsetiff = (\<lambda>fd name flags s. (s, Inr (0 # name))),
      uo_addr_add = (\<lambda>i ip len s. (s, Inr ())), uo_set_mtu = (\<lambda>i mtu s. (s, Inr ())), uo_set_up = (\<lambda>i s. (s, Inr ())),
      uo_route_add = (\<lambda>m s. (s, Inl (EExist ''File exists''))),
      uo_bind = (\<lambda>ip port s. (fd_new s # s, Inr (fd_new s))),
      uo_socketpair = (\<lambda>s. if fails then (s, Inl ''Too many open files'')
        else (fd_new s # Suc (fd_new s) # s, Inr (fd_new s, Suc (fd_new s)))),
      uo_dup = (\<lambda>fd s. (fd_new s # s, Inr (fd_new s))), uo_close = (\<lambda>fd. removeAll fd)\<rparr>"

lemma fd_new_fresh: "fd_new s \<notin> set s" "Suc (fd_new s) \<notin> set s"
proof -
  have "n \<in> set s \<Longrightarrow> n \<le> foldr max s 0" for n by (induction s) auto
  then have "fd_new s \<le> n \<Longrightarrow> n \<notin> set s" for n by (fastforce simp: fd_new_def)
  then show "fd_new s \<notin> set s" "Suc (fd_new s) \<notin> set s" by simp_all
qed

lemma fd_os_ok: "os_fds_ok (fd_os b) set"
  by (auto simp: os_fds_ok_def fd_os_def tracks_def fd_new_fresh)


end
