(* ===== verification/Genl.thy ===== *)
theory Genl
  imports Iface World Bytes
begin

text \<open>
  The generic netlink client of the WireGuard backend, \<open>backend/wireguard/genl.rs\<close>, and the read path of
  \<open>device.rs\<close>: attributes, socket addresses, requests with the replies of the kernel, the lookup of the family
  and its commands, and the configuration of a device. The kernel is a parameter: a request gives the datagrams
  that \<open>recv\<close> returns afterwards. A result tells a panic and a read that never returns apart from an error.
\<close>

section \<open>Attributes\<close>

definition align4 :: "nat \<Rightarrow> nat" where
  "align4 n = (n + 3) div 4 * 4"

text \<open>The length is truncated to its width, as the cast does.\<close>

definition nla :: "u16 \<Rightarrow> u8 list \<Rightarrow> u8 list" where
  "nla attr_type payload =
     (let v = to_ne_bytes 2 (of_nat (4 + length payload) :: u16) @ to_ne_bytes 2 attr_type @ payload
      in v @ replicate (align4 (length v) - length v) 0)"

definition nla_u8 :: "u16 \<Rightarrow> u8 \<Rightarrow> u8 list" where
  "nla_u8 t v = nla t [v]"

definition nla_u16 :: "u16 \<Rightarrow> u16 \<Rightarrow> u8 list" where
  "nla_u16 t v = nla t (to_ne_bytes 2 v)"

definition nla_u32 :: "u16 \<Rightarrow> u32 \<Rightarrow> u8 list" where
  "nla_u32 t v = nla t (to_ne_bytes 4 v)"

definition nla_str :: "u16 \<Rightarrow> string \<Rightarrow> u8 list" where
  "nla_str t s = nla t (text_bytes s @ [0])"

definition nla_nest :: "u16 \<Rightarrow> u8 list list \<Rightarrow> u8 list" where
  "nla_nest t children = nla (t OR 0x8000) (concat children)"

definition u16_of :: "u8 list \<Rightarrow> u16 option" where
  "u16_of v = (if length v < 2 then None else Some (from_ne_bytes (take 2 v)))"

definition u32_of :: "u8 list \<Rightarrow> u32 option" where
  "u32_of v = (if length v < 4 then None else Some (from_ne_bytes (take 4 v)))"

lemma align4_bounds: "n \<le> align4 n" "align4 n < n + 4"
  unfolding align4_def by presburger+

text \<open>\<open>None\<close> is the panic of the slice \<open>&b[align4(len)..]\<close> on an attribute that is not padded.\<close>

function parse_nlas :: "u8 list \<Rightarrow> (u16 \<times> u8 list) list option" where
  "parse_nlas b =
     (if length b < 4 then Some []
      else
        let len = unat (from_ne_bytes (take 2 b) :: u16); t = from_ne_bytes (take 2 (drop 2 b)) in
        if len < 4 \<or> len > length b then Some []
        else if align4 len > length b then None
        else map_option (Cons (t AND 0x7fff, take (len - 4) (drop 4 b))) (parse_nlas (drop (align4 len) b)))"
  by pat_completeness auto
termination
proof (relation "measure length")
  fix b :: "u8 list" and len
  assume "\<not> length b < 4" "\<not> (len < 4 \<or> len > length b)"
  then have "4 \<le> len" "length b > 0" by auto
  with align4_bounds(1) [of len] show "(drop (align4 len) b, b) \<in> measure length" by simp
qed simp

declare parse_nlas.simps [simp del]

section \<open>Socket addresses\<close>

datatype socket_addr = SockV4 ip4 u16 | SockV6 ip6 u16 u32

definition AF_INET :: u16 where "AF_INET = 2"

definition AF_INET6 :: u16 where "AF_INET6 = 10"

definition sockaddr_bytes :: "socket_addr \<Rightarrow> u8 list" where
  "sockaddr_bytes a =
     (case a of
        SockV4 ip port \<Rightarrow> to_ne_bytes 2 AF_INET @ to_be_bytes 2 port @ ip4_octets ip @ replicate 8 0
      | SockV6 ip port scope \<Rightarrow>
          to_ne_bytes 2 AF_INET6 @ to_be_bytes 2 port @ to_ne_bytes 4 (0 :: u32) @ ip6_bytes ip @ to_ne_bytes 4 scope)"

text \<open>\<open>slice::get\<close> on a range.\<close>

definition get_range :: "nat \<Rightarrow> nat \<Rightarrow> 'a list \<Rightarrow> 'a list option" where
  "get_range i j xs = (if j \<le> length xs then Some (take (j - i) (drop i xs)) else None)"

definition parse_endpoint :: "u8 list \<Rightarrow> socket_addr option" where
  "parse_endpoint b =
     Option.bind (u16_of b) (\<lambda>family.
     Option.bind (get_range 2 4 b) (\<lambda>p.
     let port = from_be_bytes p in
     if family = AF_INET then map_option (\<lambda>o'. SockV4 (ip4_from_bytes o') port) (get_range 4 8 b)
     else if family = AF_INET6 then map_option (\<lambda>o'. SockV6 (IP6 o') port 0) (get_range 8 24 b)
     else None))"

section \<open>Device configuration\<close>

record wg_allowed_ip =
  wa_ip :: ip_addr
  wa_cidr :: u8

record wg_peer_config =
  wp_public_key :: "u8 list"
  wp_preshared_key :: "u8 list option"
  wp_flags :: u32
  wp_endpoint :: "socket_addr option"
  wp_keepalive :: "u16 option"
  wp_allowed_ips :: "wg_allowed_ip list"

record wg_device_config =
  wd_ifname :: string
  wd_private_key :: "u8 list option"
  wd_listen_port :: "u16 option"
  wd_flags :: u32
  wd_peers :: "wg_peer_config list"

definition WGDEVICE_F_REPLACE_PEERS :: u32 where "WGDEVICE_F_REPLACE_PEERS = 1"

definition WGPEER_F_REMOVE_ME :: u32 where "WGPEER_F_REMOVE_ME = 1"

definition WGPEER_F_REPLACE_ALLOWEDIPS :: u32 where "WGPEER_F_REPLACE_ALLOWEDIPS = 2"

text \<open>The attribute types are the constants of the source.\<close>

definition allowed_ip_attrs :: "wg_allowed_ip \<Rightarrow> u8 list list" where
  "allowed_ip_attrs a =
     (let (family, addr) = (case wa_ip a of V4 ip \<Rightarrow> (AF_INET, ip4_octets ip) | V6 ip \<Rightarrow> (AF_INET6, ip6_bytes ip))
      in [nla_u16 1 family, nla 2 addr, nla_u8 3 (wa_cidr a)])"

text \<open>Children numbered from one.\<close>

definition numbered :: "('a \<Rightarrow> u8 list list) \<Rightarrow> 'a list \<Rightarrow> u8 list list" where
  "numbered f xs = map (\<lambda>(i, x). nla_nest (of_nat (i + 1)) (f x)) (enumerate 0 xs)"

definition peer_attrs :: "wg_peer_config \<Rightarrow> u8 list list" where
  "peer_attrs p =
     [nla 1 (wp_public_key p)] @
     (case wp_preshared_key p of Some psk \<Rightarrow> [nla 2 psk] | None \<Rightarrow> []) @
     (if wp_flags p \<noteq> 0 then [nla_u32 3 (wp_flags p)] else []) @
     (case wp_endpoint p of Some ep \<Rightarrow> [nla 4 (sockaddr_bytes ep)] | None \<Rightarrow> []) @
     (case wp_keepalive p of Some k \<Rightarrow> [nla_u16 5 k] | None \<Rightarrow> []) @
     (if wp_allowed_ips p \<noteq> [] then [nla_nest 9 (numbered allowed_ip_attrs (wp_allowed_ips p))] else [])"

text \<open>The attributes \<open>configure_device\<close> sends.\<close>

definition device_attrs :: "wg_device_config \<Rightarrow> u8 list" where
  "device_attrs cfg =
     nla_str 2 (wd_ifname cfg) @
     (case wd_private_key cfg of Some k \<Rightarrow> nla 3 k | None \<Rightarrow> []) @
     (case wd_listen_port cfg of Some p \<Rightarrow> nla_u16 6 p | None \<Rightarrow> []) @
     (if wd_flags cfg \<noteq> 0 then nla_u32 5 (wd_flags cfg) else []) @
     (if wd_peers cfg \<noteq> [] then nla_nest 8 (numbered peer_attrs (wd_peers cfg)) else [])"

section \<open>Requests\<close>

datatype io_error = RawOs int | IoErr string

datatype 'a outcome = Blocked | Panicked | Ret "io_error + 'a"

text \<open>The port of a new socket; what a message gives: an error of \<open>send\<close>, or what each later \<open>recv\<close> returns.\<close>

record 's genl_kernel =
  gk_socket :: "'s \<Rightarrow> 's \<times> (io_error + u32)"
  gk_send :: "u8 list \<Rightarrow> 's \<Rightarrow> 's \<times> (io_error + (io_error + u8 list) list)"

definition NLM_F_REQUEST :: u16 where "NLM_F_REQUEST = 1"

definition NLM_F_ACK :: u16 where "NLM_F_ACK = 4"

definition NLM_F_DUMP :: u16 where "NLM_F_DUMP = 0x300"

definition request_message :: "u32 \<Rightarrow> u32 \<Rightarrow> u16 \<Rightarrow> u8 \<Rightarrow> u16 \<Rightarrow> u8 list \<Rightarrow> u8 list" where
  "request_message port seq family cmd flags attrs =
     (let payload = [cmd, 1] @ to_ne_bytes 2 (0 :: u16) @ attrs in
      to_ne_bytes 4 (of_nat (16 + length payload) :: u32) @ to_ne_bytes 2 family @ to_ne_bytes 2 flags @
      to_ne_bytes 4 seq @ to_ne_bytes 4 port @ payload)"

definition error_code_of :: "u8 list \<Rightarrow> io_error + int" where
  "error_code_of body =
     (case get_range 0 4 body of
        Some b \<Rightarrow> Inr (sint (from_ne_bytes b :: u32))
      | None \<Rightarrow> Inl (IoErr (''short netlink NLMSG_ERROR body ('' @ show_nat (length body) @ '' bytes)'')))"

definition or_zero :: "'a::zero option \<Rightarrow> 'a" where
  "or_zero x = (case x of Some v \<Rightarrow> v | None \<Rightarrow> 0)"

text \<open>The messages of one datagram: the replies so far and whether the last message of the answer was seen.\<close>

function scan_messages :: "u8 list \<Rightarrow> u8 list list \<Rightarrow> bool \<Rightarrow> io_error + u8 list list \<times> bool" where
  "scan_messages buf results done' =
     (if length buf < 16 then Inr (results, done')
      else
        let mlen = unat (or_zero (u32_of buf)); mtype = or_zero (u16_of (drop 4 buf)) in
        if mlen < 16 \<or> mlen > length buf then Inr (results, done')
        else
          let body = take (mlen - 16) (drop 16 buf); rest = drop (align4 mlen) buf in
          if mtype = 2 then
            (case error_code_of body of
               Inl e \<Rightarrow> Inl e
             | Inr code \<Rightarrow> if code \<noteq> 0 then Inl (RawOs (- code)) else scan_messages rest results True)
          else if mtype = 3 then scan_messages rest results True
          else scan_messages rest (results @ [body]) done')"
  by pat_completeness auto
termination
proof (relation "measure (length \<circ> fst)")
  have less: "length (drop (align4 mlen) buf) < length buf" if "\<not> length buf < 16" "\<not> (mlen < 16 \<or> mlen > length buf)"
    for buf :: "u8 list" and mlen
    using align4_bounds(1) [of mlen] that by auto
  fix buf :: "u8 list" and results :: "u8 list list" and done' d mlen and mtype :: u16 and body rest
  assume a: "\<not> length buf < 16" "\<not> (mlen < 16 \<or> mlen > length buf)" "rest = drop (align4 mlen) buf"
  show "((rest, results, True), buf, results, done') \<in> measure (length \<circ> fst)"
    "((rest, results, True), buf, results, done') \<in> measure (length \<circ> fst)"
    "((rest, results @ [body], done'), buf, results, done') \<in> measure (length \<circ> fst)"
    using less [OF a(1,2)] by (simp_all add: a(3))
qed simp

declare scan_messages.simps [simp del]

text \<open>The loop over \<open>recv\<close>, with a buffer of 65536 bytes.\<close>

fun collect_replies :: "(io_error + u8 list) list \<Rightarrow> u8 list list \<Rightarrow> u8 list list outcome" where
  "collect_replies [] results = Blocked"
| "collect_replies (Inl e # ds) results = Ret (Inl e)"
| "collect_replies (Inr d # ds) results =
     (case scan_messages (take 65536 d) results False of
        Inl e \<Rightarrow> Ret (Inl e)
      | Inr (results, done') \<Rightarrow> if done' then Ret (Inr results) else collect_replies ds results)"

definition genl_request ::
  "'s genl_kernel \<Rightarrow> u32 \<Rightarrow> u32 \<Rightarrow> u16 \<Rightarrow> u8 \<Rightarrow> u16 \<Rightarrow> u8 list \<Rightarrow> 's \<Rightarrow> 's \<times> u8 list list outcome" where
  "genl_request kern port seq family cmd flags attrs s =
     (case gk_send kern (request_message port seq family cmd flags attrs) s of
        (s1, Inl e) \<Rightarrow> (s1, Ret (Inl e))
      | (s1, Inr ds) \<Rightarrow> (s1, collect_replies ds []))"

section \<open>The family and its commands\<close>

definition op_field :: "u8 option \<times> u32 \<Rightarrow> u16 \<times> u8 list \<Rightarrow> u8 option \<times> u32" where
  "op_field acc a =
     (let (cmd, flags) = acc; (ot, ov) = a;
          cmd = (if ot = 1 \<and> ov \<noteq> [] then Some (hd ov) else cmd)
      in (cmd, if ot = 2 then or_zero (u32_of ov) else flags))"

definition op_commands :: "u8 option \<times> u8 option \<Rightarrow> u8 option \<times> u32 \<Rightarrow> u8 option \<times> u8 option" where
  "op_commands acc op =
     (let (get, set') = acc in
      case op of
        (None, _) \<Rightarrow> (get, set')
      | (Some cmd, flags) \<Rightarrow>
          (if flags AND 4 \<noteq> 0 \<and> get = None then Some cmd else get,
           if flags AND 2 \<noteq> 0 \<and> set' = None then Some cmd else set'))"

fun scan_ops :: "(u16 \<times> u8 list) list \<Rightarrow> u8 option \<times> u8 option \<Rightarrow> (u8 option \<times> u8 option) option" where
  "scan_ops [] acc = Some acc"
| "scan_ops ((_, op) # ops) acc =
     Option.bind (parse_nlas op) (\<lambda>fs. scan_ops ops (op_commands acc (foldl op_field (None, 0) fs)))"

fun scan_family ::
  "(u16 \<times> u8 list) list \<Rightarrow> u16 option \<times> u8 option \<times> u8 option \<Rightarrow> (u16 option \<times> u8 option \<times> u8 option) option" where
  "scan_family [] acc = Some acc"
| "scan_family ((t, v) # as) (fam, cmds) =
     (if t = 1 then scan_family as (u16_of v, cmds)
      else if t = 6 then
        Option.bind (parse_nlas v) (\<lambda>ops. Option.bind (scan_ops ops cmds) (\<lambda>cmds. scan_family as (fam, cmds)))
      else scan_family as (fam, cmds))"

definition family_not_found :: "string \<Rightarrow> io_error" where
  "family_not_found name = IoErr (''generic netlink family '' @ name @ '' not found'')"

definition parse_family_ops :: "string \<Rightarrow> u8 list \<Rightarrow> (io_error + u16 \<times> u8 \<times> u8) option" where
  "parse_family_ops name body =
     Option.bind (parse_nlas body) (\<lambda>as.
     Option.bind (scan_family as (None, None, None)) (\<lambda>(fam, get, set').
     case fam of
       None \<Rightarrow> Some (Inl (family_not_found name))
     | Some fam \<Rightarrow>
         (let (get, set') = (if get \<noteq> None \<and> get = set' then (None, None) else (get, set'))
          in Some (Inr (fam, case get of Some g \<Rightarrow> g | None \<Rightarrow> 1, case set' of Some c \<Rightarrow> c | None \<Rightarrow> 2)))))"

fun first_family :: "string \<Rightarrow> u8 list list \<Rightarrow> (u16 \<times> u8 \<times> u8) outcome" where
  "first_family name [] = Ret (Inl (family_not_found name))"
| "first_family name (m # ms) =
     (case parse_family_ops name (drop 4 m) of
        None \<Rightarrow> Panicked
      | Some (Inr r) \<Rightarrow> Ret (Inr r)
      | Some (Inl _) \<Rightarrow> first_family name ms)"

definition resolve_family_ops :: "'s genl_kernel \<Rightarrow> u32 \<Rightarrow> u32 \<Rightarrow> string \<Rightarrow> 's \<Rightarrow> 's \<times> (u16 \<times> u8 \<times> u8) outcome" where
  "resolve_family_ops kern port seq name s =
     (case genl_request kern port seq 0x10 3 (NLM_F_REQUEST OR NLM_F_ACK) (nla_str 2 name) s of
        (s1, Ret (Inr msgs)) \<Rightarrow> (s1, first_family name msgs)
      | (s1, Ret (Inl e)) \<Rightarrow> (s1, Ret (Inl e))
      | (s1, Blocked) \<Rightarrow> (s1, Blocked)
      | (s1, Panicked) \<Rightarrow> (s1, Panicked))"

definition WG_GENL_NAME :: string where "WG_GENL_NAME = ''wireguard''"

text \<open>A socket for one call: its sequence numbers are one for the lookup and two for the call.\<close>

definition genl_call ::
  "'s genl_kernel \<Rightarrow> (u8 \<times> u8 \<Rightarrow> u8) \<Rightarrow> u16 \<Rightarrow> u8 list \<Rightarrow> 's \<Rightarrow> 's \<times> u8 list list outcome" where
  "genl_call kern cmd flags attrs s =
     (case gk_socket kern s of
        (s1, Inl e) \<Rightarrow> (s1, Ret (Inl e))
      | (s1, Inr port) \<Rightarrow>
          (case resolve_family_ops kern port 1 WG_GENL_NAME s1 of
             (s2, Ret (Inr (fam, cmds))) \<Rightarrow> genl_request kern port 2 fam (cmd cmds) flags attrs s2
           | (s2, Ret (Inl e)) \<Rightarrow> (s2, Ret (Inl e))
           | (s2, Blocked) \<Rightarrow> (s2, Blocked)
           | (s2, Panicked) \<Rightarrow> (s2, Panicked)))"

definition configure_device :: "'s genl_kernel \<Rightarrow> wg_device_config \<Rightarrow> 's \<Rightarrow> 's \<times> unit outcome" where
  "configure_device kern cfg s =
     (case genl_call kern snd (NLM_F_REQUEST OR NLM_F_ACK) (device_attrs cfg) s of
        (s1, Ret (Inr _)) \<Rightarrow> (s1, Ret (Inr ()))
      | (s1, Ret (Inl e)) \<Rightarrow> (s1, Ret (Inl e))
      | (s1, Blocked) \<Rightarrow> (s1, Blocked)
      | (s1, Panicked) \<Rightarrow> (s1, Panicked))"

definition dump_device :: "'s genl_kernel \<Rightarrow> string \<Rightarrow> 's \<Rightarrow> 's \<times> u8 list list outcome" where
  "dump_device kern ifname =
     genl_call kern fst (NLM_F_REQUEST OR NLM_F_DUMP OR NLM_F_ACK) (nla_str 2 ifname)"

section \<open>Reading a device\<close>

record wg_peer_info =
  pi_public_key :: "u8 list"
  pi_endpoint :: "socket_addr option"
  pi_keepalive :: u16
  pi_allowed_ips :: "wg_allowed_ip list"

record wg_device_info =
  di_ifindex :: u32
  di_listen_port :: u16
  di_peers :: "wg_peer_info list"

definition allowed_field ::
  "u16 \<times> u8 list option \<times> u8 \<Rightarrow> u16 \<times> u8 list \<Rightarrow> u16 \<times> u8 list option \<times> u8" where
  "allowed_field acc a =
     (let (family, addr, cidr) = acc; (t, v) = a in
      if t = 1 then (or_zero (u16_of v), addr, cidr)
      else if t = 2 then (family, Some v, cidr)
      else if t = 3 \<and> v \<noteq> [] then (family, addr, hd v)
      else (family, addr, cidr))"

text \<open>The outer option is a panic.\<close>

definition parse_allowed_ip :: "u8 list \<Rightarrow> wg_allowed_ip option option" where
  "parse_allowed_ip body =
     map_option (\<lambda>as.
       let (family, addr, cidr) = foldl allowed_field (0, None, 0) as in
       Option.bind addr (\<lambda>addr.
         if family = AF_INET \<and> length addr \<ge> 4 then Some \<lparr>wa_ip = V4 (ip4_from_bytes (take 4 addr)), wa_cidr = cidr\<rparr>
         else if family = AF_INET6 \<and> length addr \<ge> 16 then Some \<lparr>wa_ip = V6 (IP6 (take 16 addr)), wa_cidr = cidr\<rparr>
         else None)) (parse_nlas body)"

text \<open>All or a panic.\<close>

fun map_all :: "('a \<Rightarrow> 'b option) \<Rightarrow> 'a list \<Rightarrow> 'b list option" where
  "map_all f [] = Some []"
| "map_all f (x # xs) = Option.bind (f x) (\<lambda>y. map_option (Cons y) (map_all f xs))"

fun peer_fields :: "(u16 \<times> u8 list) list \<Rightarrow> wg_peer_info \<Rightarrow> wg_peer_info option" where
  "peer_fields [] p = Some p"
| "peer_fields ((t, v) # as) p =
     (if t = 1 \<and> length v \<ge> 32 then peer_fields as (p\<lparr>pi_public_key := take 32 v\<rparr>)
      else if t = 4 then peer_fields as (p\<lparr>pi_endpoint := parse_endpoint v\<rparr>)
      else if t = 5 then peer_fields as (p\<lparr>pi_keepalive := or_zero (u16_of v)\<rparr>)
      else if t = 9 then
        Option.bind (parse_nlas v) (\<lambda>nlas.
        Option.bind (map_all (parse_allowed_ip \<circ> snd) nlas) (\<lambda>ips.
        peer_fields as (p\<lparr>pi_allowed_ips := pi_allowed_ips p @ List.map_filter id ips\<rparr>)))
      else peer_fields as p)"

definition peer_info_default :: wg_peer_info where
  "peer_info_default = \<lparr>pi_public_key = replicate 32 0, pi_endpoint = None, pi_keepalive = 0, pi_allowed_ips = []\<rparr>"

definition parse_peer :: "u8 list \<Rightarrow> wg_peer_info option" where
  "parse_peer body = Option.bind (parse_nlas body) (\<lambda>as. peer_fields as peer_info_default)"

fun device_fields :: "(u16 \<times> u8 list) list \<Rightarrow> wg_device_info \<Rightarrow> wg_device_info option" where
  "device_fields [] d = Some d"
| "device_fields ((t, v) # as) d =
     (if t = 1 then device_fields as (d\<lparr>di_ifindex := or_zero (u32_of v)\<rparr>)
      else if t = 6 then device_fields as (d\<lparr>di_listen_port := or_zero (u16_of v)\<rparr>)
      else if t = 8 then
        Option.bind (parse_nlas v) (\<lambda>nlas.
        Option.bind (map_all (parse_peer \<circ> snd) nlas) (\<lambda>ps. device_fields as (d\<lparr>di_peers := di_peers d @ ps\<rparr>)))
      else device_fields as d)"

definition ENODEV :: int where "ENODEV = 19"

definition get_device :: "'s genl_kernel \<Rightarrow> string \<Rightarrow> 's \<Rightarrow> 's \<times> wg_device_info outcome" where
  "get_device kern ifname s =
     (let none = IoErr (''no wireguard device '' @ ifname) in
      case dump_device kern ifname s of
        (s1, Blocked) \<Rightarrow> (s1, Blocked)
      | (s1, Panicked) \<Rightarrow> (s1, Panicked)
      | (s1, Ret (Inl e)) \<Rightarrow> (s1, Ret (Inl (if e = RawOs ENODEV then none else e)))
      | (s1, Ret (Inr [])) \<Rightarrow> (s1, Ret (Inl none))
      | (s1, Ret (Inr (m # _))) \<Rightarrow>
          (s1, if length m < 4 then Panicked
               else case Option.bind (parse_nlas (drop 4 m)) (\<lambda>as.
                      device_fields as \<lparr>di_ifindex = 0, di_listen_port = 0, di_peers = []\<rparr>) of
                   None \<Rightarrow> Panicked
                 | Some info \<Rightarrow> Ret (Inr info)))"

section \<open>Attributes are read back\<close>

lemma length_nla: "length (nla t p) = align4 (4 + length p)"
proof -
  let ?v = "to_ne_bytes 2 (of_nat (4 + length p) :: u16) @ to_ne_bytes 2 t @ p"
  have v: "length ?v = 4 + length p" by simp
  show ?thesis
    using align4_bounds(1) [of "4 + length p"] unfolding nla_def Let_def length_append [of ?v] v length_replicate
    by (rule le_add_diff_inverse)
qed

lemma parse_nlas_Nil [simp]: "parse_nlas [] = Some []"
  by (simp add: parse_nlas.simps)

lemma parse_nlas_step:
  assumes "unat (from_ne_bytes (take 2 b) :: u16) = n" "4 \<le> n" "n \<le> length b" "align4 n \<le> length b"
  shows "parse_nlas b = map_option (Cons (from_ne_bytes (take 2 (drop 2 b)) AND 0x7fff, take (n - 4) (drop 4 b)))
    (parse_nlas (drop (align4 n) b))"
  using assms by (subst parse_nlas.simps) (simp add: Let_def)

lemma parse_nlas_nla:
  assumes "length p \<le> 65531"
  shows "parse_nlas (nla t p @ rest) = map_option (Cons (t AND 0x7fff, p)) (parse_nlas rest)"
proof -
  let ?b = "nla t p @ rest" and ?n = "4 + length p"
  obtain pad where b: "nla t p = to_ne_bytes 2 (of_nat ?n :: u16) @ to_ne_bytes 2 t @ p @ pad"
    by (simp add: nla_def Let_def)
  have "unat (of_nat ?n :: u16) = ?n" using assms unfolding unat_of_nat by simp
  then have len: "unat (from_ne_bytes (take 2 ?b) :: u16) = ?n" by (simp add: b from_to_le_bytes del: of_nat_add)
  have t: "from_ne_bytes (take 2 (drop 2 ?b)) = t" by (simp add: b from_to_le_bytes)
  have body: "take (?n - 4) (drop 4 ?b) = p" by (simp add: b)
  have sizes: "?n \<le> length ?b" "align4 ?n \<le> length ?b" "drop (align4 ?n) ?b = rest"
    using align4_bounds(1) [of ?n] length_nla [of t p] by auto
  show ?thesis
    using parse_nlas_step [OF len _ sizes(1,2)] unfolding t body sizes(3) by simp
qed

lemma nest_type: "(t OR 0x8000) AND 0x7fff = t AND (0x7fff :: u16)"
proof -
  have "(0x8000 :: u16) AND 0x7fff = 0" by simp
  then show ?thesis by (simp add: bit.conj_disj_distrib2)
qed

lemma parse_nlas_nest:
  "length (concat cs) \<le> 65531 \<Longrightarrow>
     parse_nlas (nla_nest t cs @ rest) = map_option (Cons (t AND 0x7fff, concat cs)) (parse_nlas rest)"
  by (simp add: nla_nest_def parse_nlas_nla nest_type)

lemma parse_numbered:
  assumes "\<forall>x \<in> set xs. length (concat (f x)) \<le> 65531"
  shows "\<exists>as. parse_nlas (concat (numbered f xs)) = Some as \<and> map snd as = map (concat \<circ> f) xs"
proof -
  have "\<exists>as. parse_nlas (concat (map (\<lambda>(i, x). nla_nest (of_nat (i + 1)) (f x)) (enumerate n xs))) = Some as \<and>
      map snd as = map (concat \<circ> f) xs" for n
    using assms
  proof (induction xs arbitrary: n)
    case (Cons x xs)
    then obtain as where as: "parse_nlas (concat (map (\<lambda>(i, x). nla_nest (of_nat (i + 1)) (f x)) (enumerate (Suc n) xs))) = Some as"
        "map snd as = map (concat \<circ> f) xs"
      by fastforce
    with Cons.prems show ?case by (simp add: parse_nlas_nest)
  qed simp
  then show ?thesis by (simp add: numbered_def)
qed

lemma map_all_map: "map_all f (map g xs) = map_all (f \<circ> g) xs"
  by (induction xs) auto

lemma map_all_Some: "(\<And>x. x \<in> set xs \<Longrightarrow> f x = Some (g x)) \<Longrightarrow> map_all f xs = Some (map g xs)"
  by (induction xs) auto

lemma map_all_numbered:
  assumes "\<forall>x \<in> set xs. length (concat (f x)) \<le> 65531" and "\<And>x. x \<in> set xs \<Longrightarrow> g (concat (f x)) = Some (h x)"
  shows "Option.bind (parse_nlas (concat (numbered f xs))) (map_all (g \<circ> snd)) = Some (map h xs)"
proof -
  obtain as where as: "parse_nlas (concat (numbered f xs)) = Some as" "map snd as = map (concat \<circ> f) xs"
    using parse_numbered [OF assms(1)] by blast
  have "map_all (g \<circ> snd) as = map_all g (map snd as)" by (simp add: map_all_map)
  also have "\<dots> = Some (map h xs)" unfolding as(2) map_all_map using assms(2) by (intro map_all_Some) simp
  finally show ?thesis by (simp add: as(1))
qed

section \<open>What the kernel reads\<close>

text \<open>The kernel takes the last attribute of each type.\<close>

definition last_attr :: "u16 \<Rightarrow> (u16 \<times> u8 list) list \<Rightarrow> u8 list option" where
  "last_attr t as = map_of (rev as) t"

definition decode_peer :: "u8 list \<Rightarrow> wg_peer_config option" where
  "decode_peer b =
     Option.bind (parse_nlas b) (\<lambda>as.
     Option.bind (last_attr 1 as) (\<lambda>key.
     Option.bind (case last_attr 9 as of
         None \<Rightarrow> Some []
       | Some v \<Rightarrow> Option.bind (parse_nlas v) (map_all (\<lambda>a. Option.bind (parse_allowed_ip (snd a)) id))) (\<lambda>ips.
     Some \<lparr>wp_public_key = key, wp_preshared_key = last_attr 2 as,
       wp_flags = or_zero (Option.bind (last_attr 3 as) u32_of), wp_endpoint = Option.bind (last_attr 4 as) parse_endpoint,
       wp_keepalive = Option.bind (last_attr 5 as) u16_of, wp_allowed_ips = ips\<rparr>)))"

definition decode_device :: "u8 list \<Rightarrow> wg_device_config option" where
  "decode_device b =
     Option.bind (parse_nlas b) (\<lambda>as.
     Option.bind (last_attr 2 as) (\<lambda>name.
     Option.bind (case last_attr 8 as of
         None \<Rightarrow> Some []
       | Some v \<Rightarrow> Option.bind (parse_nlas v) (map_all (decode_peer \<circ> snd))) (\<lambda>ps.
     Some \<lparr>wd_ifname = bytes_text (takeWhile (\<lambda>c. c \<noteq> 0) name), wd_private_key = last_attr 3 as,
       wd_listen_port = Option.bind (last_attr 6 as) u16_of, wd_flags = or_zero (Option.bind (last_attr 5 as) u32_of),
       wd_peers = ps\<rparr>)))"

text \<open>Configurations that fit the format: keys of 32 bytes, addresses of their width, no zero in the name and
  nested blocks within the 16 bits of their length.\<close>

definition addr_ok :: "ip_addr \<Rightarrow> bool" where
  "addr_ok ip = (case ip of V4 _ \<Rightarrow> True | V6 ip \<Rightarrow> length (ip6_bytes ip) = 16)"

definition endpoint_ok :: "socket_addr \<Rightarrow> bool" where
  "endpoint_ok a = (case a of SockV4 _ _ \<Rightarrow> True | SockV6 ip _ scope \<Rightarrow> length (ip6_bytes ip) = 16 \<and> scope = 0)"

definition peer_ok :: "wg_peer_config \<Rightarrow> bool" where
  "peer_ok p \<longleftrightarrow> length (wp_public_key p) = 32 \<and> (\<forall>k. wp_preshared_key p = Some k \<longrightarrow> length k = 32) \<and>
     (\<forall>e. wp_endpoint p = Some e \<longrightarrow> endpoint_ok e) \<and> (\<forall>a \<in> set (wp_allowed_ips p). addr_ok (wa_ip a)) \<and>
     length (wp_allowed_ips p) \<le> 1600"

definition device_ok :: "wg_device_config \<Rightarrow> bool" where
  "device_ok d \<longleftrightarrow> CHR 0x00 \<notin> set (wd_ifname d) \<and> length (wd_ifname d) \<le> 65530 \<and>
     (\<forall>k. wd_private_key d = Some k \<longrightarrow> length k = 32) \<and> (\<forall>p \<in> set (wd_peers d). peer_ok p) \<and>
     length (concat (numbered peer_attrs (wd_peers d))) \<le> 65531"

lemma take_append_length: "length a = n \<Longrightarrow> take n (a @ b) = a" "length a = n \<Longrightarrow> drop n (a @ b) = b"
  by auto

lemma u16_of_bytes [simp]: "u16_of (to_ne_bytes 2 v) = Some v"
  by (simp add: u16_of_def from_to_le_bytes)

lemma u32_of_bytes [simp]: "u32_of (to_ne_bytes 4 v) = Some v"
  by (simp add: u32_of_def from_to_le_bytes)

lemma length_octets [simp]: "length (ip4_octets ip) = 4"
  by (rule octets_cases [of ip]) simp

lemma parse_endpoint_bytes:
  assumes "endpoint_ok e"
  shows "parse_endpoint (sockaddr_bytes e) = Some e"
proof (cases e)
  case (SockV4 ip port)
  have 1: "u16_of (sockaddr_bytes e) = Some AF_INET"
    by (simp add: SockV4 sockaddr_bytes_def u16_of_def from_to_le_bytes)
  have 2: "get_range 2 4 (sockaddr_bytes e) = Some (to_be_bytes 2 port)" "get_range 4 8 (sockaddr_bytes e) = Some (ip4_octets ip)"
    by (simp_all add: SockV4 sockaddr_bytes_def get_range_def)
  show ?thesis unfolding parse_endpoint_def 1 2 by (simp add: from_to_be_bytes SockV4)
next
  case (SockV6 ip port scope)
  with assms have ip: "length (ip6_bytes ip) = 16" "scope = 0" by (simp_all add: endpoint_ok_def)
  have 1: "u16_of (sockaddr_bytes e) = Some AF_INET6"
    by (simp add: SockV6 sockaddr_bytes_def u16_of_def from_to_le_bytes)
  have 2: "get_range 2 4 (sockaddr_bytes e) = Some (to_be_bytes 2 port)" "get_range 8 24 (sockaddr_bytes e) = Some (ip6_bytes ip)"
    using ip(1) by (simp_all add: SockV6 sockaddr_bytes_def get_range_def)
  have 3: "AF_INET6 \<noteq> AF_INET" by (simp add: AF_INET_def AF_INET6_def)
  show ?thesis unfolding parse_endpoint_def 1 2 by (simp add: 3 from_to_be_bytes SockV6 ip(2))
qed

lemma allowed_ip_size: "addr_ok (wa_ip a) \<Longrightarrow> length (concat (allowed_ip_attrs a)) \<le> 36"
  by (auto simp: allowed_ip_attrs_def nla_u16_def nla_u8_def length_nla align4_def addr_ok_def split: ip_addr.splits)

lemma parse_allowed_ip_attrs:
  assumes "addr_ok (wa_ip a)"
  shows "parse_allowed_ip (concat (allowed_ip_attrs a)) = Some (Some a)"
proof -
  have fam: "AF_INET6 \<noteq> AF_INET" by (simp add: AF_INET_def AF_INET6_def)
  have nlas: "parse_nlas (nla_u16 1 f @ nla 2 addr @ nla_u8 3 c) = Some [(1, to_ne_bytes 2 f), (2, addr), (3, [c])]"
    if "length addr \<le> 16" for f c and addr :: "u8 list"
    using that parse_nlas_nla [of "[c]" 3 "[]"] by (simp add: nla_u16_def nla_u8_def parse_nlas_nla)
  obtain ip c where a: "a = \<lparr>wa_ip = ip, wa_cidr = c\<rparr>" by (cases a) auto
  show ?thesis
  proof (cases ip)
    case (V4 ip4)
    then show ?thesis
      by (simp add: a allowed_ip_attrs_def parse_allowed_ip_def nlas allowed_field_def or_zero_def)
  next
    case (V6 ip6)
    with assms have "length (ip6_bytes ip6) = 16" by (simp add: a addr_ok_def)
    with V6 fam show ?thesis
      by (simp add: a allowed_ip_attrs_def parse_allowed_ip_def nlas allowed_field_def or_zero_def)
  qed
qed

text \<open>A list of attributes, some of them optional.\<close>

definition opt_attr :: "u16 \<Rightarrow> u8 list option \<Rightarrow> (u16 \<times> u8 list) list" where
  "opt_attr t v = (case v of Some b \<Rightarrow> [(t, b)] | None \<Rightarrow> [])"

abbreviation nlas :: "(u16 \<times> u8 list) list \<Rightarrow> u8 list" where
  "nlas as \<equiv> concat (map (\<lambda>(t, b). nla t b) as)"

lemma parse_nlas_list:
  "\<forall>(t, b) \<in> set as. length b \<le> 65531 \<Longrightarrow> parse_nlas (nlas as) = Some (map (\<lambda>(t, b). (t AND 0x7fff, b)) as)"
  by (induction as) (auto simp: parse_nlas_nla)

lemma last_attr_append: "last_attr t (as @ bs) = (case last_attr t bs of Some v \<Rightarrow> Some v | None \<Rightarrow> last_attr t as)"
  unfolding last_attr_def by (simp add: map_add_def split: option.splits)

lemma last_attr_Cons:
  "last_attr t ((u, v) # as) = (case last_attr t as of Some w \<Rightarrow> Some w | None \<Rightarrow> if t = u then Some v else None)"
  using last_attr_append [of t "[(u, v)]" as] by (simp add: last_attr_def split: option.splits)

lemma last_attr_single: "last_attr t [(u, v)] = (if t = u then Some v else None)"
  by (simp add: last_attr_def)

lemma last_attr_opt: "last_attr t (map (\<lambda>(t, b). (t AND 0x7fff, b)) (opt_attr u v)) = (if t = u AND 0x7fff then v else None)"
  by (simp add: last_attr_def opt_attr_def split: option.splits)

lemma set_opt_attr [simp]: "(t, b) \<in> set (opt_attr u v) \<longleftrightarrow> t = u \<and> v = Some b"
  by (cases v) (auto simp: opt_attr_def)

lemma nlas_opt: "nlas (opt_attr t v) = (case v of Some b \<Rightarrow> nla t b | None \<Rightarrow> [])"
  by (simp add: opt_attr_def split: option.splits)

lemma numbered_size:
  assumes "\<forall>x \<in> set xs. length (concat (f x)) \<le> n"
  shows "length (concat (numbered f xs)) \<le> length xs * align4 (4 + n)"
proof -
  have mono: "a \<le> b \<Longrightarrow> align4 a \<le> align4 b" for a b by (simp add: align4_def div_le_mono)
  have "length (concat (map (\<lambda>(i, x). nla_nest (of_nat (i + 1)) (f x)) (enumerate k xs))) \<le> length xs * align4 (4 + n)" for k
    using assms
  proof (induction xs arbitrary: k)
    case (Cons x xs)
    then have "length (concat (map (\<lambda>(i, x). nla_nest (of_nat (i + 1)) (f x)) (enumerate (Suc k) xs))) \<le> length xs * align4 (4 + n)"
      by simp
    moreover have "length (nla_nest (of_nat (k + 1)) (f x)) \<le> align4 (4 + n)"
      using Cons.prems mono [of "4 + length (concat (f x))" "4 + n"] by (simp add: nla_nest_def length_nla)
    ultimately show ?case by simp
  qed simp
  then show ?thesis by (simp add: numbered_def)
qed

definition peer_attr_list :: "wg_peer_config \<Rightarrow> (u16 \<times> u8 list) list" where
  "peer_attr_list p =
     [(1, wp_public_key p)] @ opt_attr 2 (wp_preshared_key p) @
     opt_attr 3 (if wp_flags p \<noteq> 0 then Some (to_ne_bytes 4 (wp_flags p)) else None) @
     opt_attr 4 (map_option sockaddr_bytes (wp_endpoint p)) @ opt_attr 5 (map_option (to_ne_bytes 2) (wp_keepalive p)) @
     opt_attr (9 OR 0x8000) (if wp_allowed_ips p \<noteq> [] then Some (concat (numbered allowed_ip_attrs (wp_allowed_ips p))) else None)"

lemma concat_peer_attrs: "concat (peer_attrs p) = nlas (peer_attr_list p)"
  by (simp add: peer_attrs_def peer_attr_list_def nlas_opt nla_u32_def nla_u16_def nla_nest_def split: option.splits)

lemma peer_attr_sizes: "peer_ok p \<Longrightarrow> \<forall>(t, b) \<in> set (peer_attr_list p). length b \<le> 65531"
proof -
  assume ok: "peer_ok p"
  have ep: "length (sockaddr_bytes e) \<le> 65531" if "wp_endpoint p = Some e" for e
    using ok that by (auto simp: peer_ok_def sockaddr_bytes_def endpoint_ok_def split: socket_addr.splits)
  have ips: "length (concat (numbered allowed_ip_attrs (wp_allowed_ips p))) \<le> 65531"
  proof -
    have "length (concat (numbered allowed_ip_attrs (wp_allowed_ips p))) \<le> length (wp_allowed_ips p) * align4 (4 + 36)"
      using ok allowed_ip_size by (intro numbered_size) (auto simp: peer_ok_def)
    with ok show ?thesis by (simp add: peer_ok_def align4_def)
  qed
  have "length b \<le> 65531" if "(t, b) \<in> set (peer_attr_list p)" for t b
    using that ok ips
    by (auto simp: peer_attr_list_def peer_ok_def dest!: ep split: if_splits)
  then show ?thesis by auto
qed

lemma decode_peer_attrs:
  assumes ok: "peer_ok p"
  shows "decode_peer (concat (peer_attrs p)) = Some p"
proof -
  let ?ips = "wp_allowed_ips p"
  let ?as = "map (\<lambda>(t, b). (t AND 0x7fff, b)) (peer_attr_list p)"
  have as: "parse_nlas (concat (peer_attrs p)) = Some ?as"
    unfolding concat_peer_attrs by (rule parse_nlas_list [OF peer_attr_sizes [OF ok]])
  have attrs: "last_attr 1 ?as = Some (wp_public_key p)" "last_attr 2 ?as = wp_preshared_key p"
      "last_attr 3 ?as = (if wp_flags p \<noteq> 0 then Some (to_ne_bytes 4 (wp_flags p)) else None)"
      "last_attr 4 ?as = map_option sockaddr_bytes (wp_endpoint p)" "last_attr 5 ?as = map_option (to_ne_bytes 2) (wp_keepalive p)"
      "last_attr 9 ?as = (if ?ips \<noteq> [] then Some (concat (numbered allowed_ip_attrs ?ips)) else None)"
    by (simp_all add: peer_attr_list_def last_attr_append last_attr_Cons last_attr_opt split: option.splits)
  have ips: "Option.bind (parse_nlas (concat (numbered allowed_ip_attrs ?ips)))
      (map_all (\<lambda>a. Option.bind (parse_allowed_ip (snd a)) id)) = Some ?ips"
    using map_all_numbered [of ?ips allowed_ip_attrs "\<lambda>b. Option.bind (parse_allowed_ip b) id" id]
      ok allowed_ip_size parse_allowed_ip_attrs
    by (fastforce simp: peer_ok_def comp_def)
  have ep: "Option.bind (map_option sockaddr_bytes (wp_endpoint p)) parse_endpoint = wp_endpoint p"
    using ok parse_endpoint_bytes by (cases "wp_endpoint p") (auto simp: peer_ok_def)
  have ka: "Option.bind (map_option (to_ne_bytes 2) (wp_keepalive p)) u16_of = wp_keepalive p"
    by (cases "wp_keepalive p") simp_all
  have fl: "or_zero (Option.bind (if wp_flags p \<noteq> 0 then Some (to_ne_bytes 4 (wp_flags p)) else None) u32_of) = wp_flags p"
    by (simp add: or_zero_def)
  show ?thesis
    unfolding decode_peer_def as Option.bind.bind_lunit attrs ep ka fl
    using ips by (cases "?ips = []") simp_all
qed

lemma unat_of_char: "unat (of_nat (of_char c) :: u8) = of_char c"
  using nat_of_char_less_256 [of c] unfolding unat_of_nat by simp

lemma bytes_text_text_bytes [simp]: "bytes_text (text_bytes s) = s"
  unfolding bytes_text_def text_bytes_def by (simp add: comp_def unat_of_char del: of_nat_of_char)

lemma of_char_zero: "(of_nat (of_char c) :: u8) = 0 \<longleftrightarrow> c = CHR 0x00"
proof -
  have "(of_nat (of_char c) :: u8) = 0 \<longleftrightarrow> unat (of_nat (of_char c) :: u8) = unat (0 :: u8)"
    by (rule word_unat_eq_iff)
  also have "\<dots> \<longleftrightarrow> of_char c = (of_char (CHR 0x00) :: nat)" unfolding unat_of_char by simp
  finally show ?thesis unfolding of_char_eq_iff .
qed

lemma name_bytes:
  assumes "CHR 0x00 \<notin> set s"
  shows "bytes_text (takeWhile (\<lambda>c. c \<noteq> 0) (text_bytes s @ [0])) = s"
proof -
  have "x \<noteq> 0" if x: "x \<in> set (text_bytes s)" for x
  proof -
    obtain c where "c \<in> set s" "x = of_nat (of_char c)" using x unfolding text_bytes_def set_map by blast
    with assms show ?thesis by (auto simp only: of_char_zero)
  qed
  then have "takeWhile (\<lambda>c. c \<noteq> 0) (text_bytes s @ [0]) = text_bytes s" by (simp add: takeWhile_append2)
  then show ?thesis by simp
qed

definition device_attr_list :: "wg_device_config \<Rightarrow> (u16 \<times> u8 list) list" where
  "device_attr_list d =
     [(2, text_bytes (wd_ifname d) @ [0])] @ opt_attr 3 (wd_private_key d) @
     opt_attr 6 (map_option (to_ne_bytes 2) (wd_listen_port d)) @
     opt_attr 5 (if wd_flags d \<noteq> 0 then Some (to_ne_bytes 4 (wd_flags d)) else None) @
     opt_attr (8 OR 0x8000) (if wd_peers d \<noteq> [] then Some (concat (numbered peer_attrs (wd_peers d))) else None)"

lemma device_attrs_list: "device_attrs d = nlas (device_attr_list d)"
  by (simp add: device_attrs_def device_attr_list_def nlas_opt nla_str_def nla_u32_def nla_u16_def nla_nest_def split: option.splits)

lemma device_attr_sizes: "device_ok d \<Longrightarrow> \<forall>(t, b) \<in> set (device_attr_list d). length b \<le> 65531"
  by (auto simp: device_attr_list_def device_ok_def text_bytes_def split: if_splits)

lemma length_opt_attr: "length (nlas (opt_attr t v)) = (case v of Some b \<Rightarrow> align4 (4 + length b) | None \<Rightarrow> 0)"
  by (simp add: opt_attr_def length_nla split: option.splits)

lemma numbered_member_size:
  "x \<in> set xs \<Longrightarrow> length (concat (f x)) \<le> length (concat (numbered f xs))"
proof -
  assume "x \<in> set xs"
  then obtain i where i: "i < length xs" "xs ! i = x" by (auto simp: in_set_conv_nth)
  let ?c = "nla_nest (of_nat (i + 1)) (f x)"
  have "numbered f xs ! i = ?c" using i by (simp add: numbered_def nth_enumerate_eq)
  then have "?c \<in> set (numbered f xs)" using i nth_mem [of i "numbered f xs"] by (simp add: numbered_def)
  then obtain as bs where "numbered f xs = as @ ?c # bs" by (meson split_list)
  then have "length ?c \<le> length (concat (numbered f xs))" by simp
  moreover have "length (concat (f x)) \<le> length ?c"
    using align4_bounds(1) [of "4 + length (concat (f x))"] by (simp add: nla_nest_def length_nla)
  ultimately show ?thesis by simp
qed

lemma decode_device_attrs:
  assumes ok: "device_ok d"
  shows "decode_device (device_attrs d) = Some d"
proof -
  let ?ps = "wd_peers d"
  let ?as = "map (\<lambda>(t, b). (t AND 0x7fff, b)) (device_attr_list d)"
  have as: "parse_nlas (device_attrs d) = Some ?as"
    unfolding device_attrs_list by (rule parse_nlas_list [OF device_attr_sizes [OF ok]])
  have attrs: "last_attr 2 ?as = Some (text_bytes (wd_ifname d) @ [0])" "last_attr 3 ?as = wd_private_key d"
      "last_attr 6 ?as = map_option (to_ne_bytes 2) (wd_listen_port d)"
      "last_attr 5 ?as = (if wd_flags d \<noteq> 0 then Some (to_ne_bytes 4 (wd_flags d)) else None)"
      "last_attr 8 ?as = (if ?ps \<noteq> [] then Some (concat (numbered peer_attrs ?ps)) else None)"
    by (simp_all add: device_attr_list_def last_attr_append last_attr_Cons last_attr_opt split: option.splits)
  have ps: "Option.bind (parse_nlas (concat (numbered peer_attrs ?ps))) (map_all (decode_peer \<circ> snd)) = Some ?ps"
    using map_all_numbered [of ?ps peer_attrs decode_peer id] ok decode_peer_attrs numbered_member_size
    by (fastforce simp: device_ok_def intro: le_trans)
  have port: "Option.bind (map_option (to_ne_bytes 2) (wd_listen_port d)) u16_of = wd_listen_port d"
    by (cases "wd_listen_port d") simp_all
  have fl: "or_zero (Option.bind (if wd_flags d \<noteq> 0 then Some (to_ne_bytes 4 (wd_flags d)) else None) u32_of) = wd_flags d"
    by (simp add: or_zero_def)
  have name: "bytes_text (takeWhile (\<lambda>c. c \<noteq> 0) (text_bytes (wd_ifname d) @ [0])) = wd_ifname d"
    using ok by (simp add: name_bytes device_ok_def del: takeWhile_append)
  show ?thesis
    unfolding decode_device_def as Option.bind.bind_lunit attrs port fl name
    using ps by (cases "?ps = []") simp_all
qed

text \<open>C29. What \<open>configure_device\<close> writes is read back unchanged: a device configuration within the format's
  bounds decodes, attribute by attribute, to itself with all its peers, their endpoints and allowed addresses.\<close>

theorem wg_config_roundtrip:
  assumes "device_ok d"
  shows "decode_device (device_attrs d) = Some d"
  using assms by (rule decode_device_attrs)

text \<open>A device with two peers, one of them reached over IPv6.\<close>

definition sample_device :: wg_device_config where
  "sample_device = \<lparr>wd_ifname = ''flannel-wg'', wd_private_key = Some (replicate 32 7), wd_listen_port = Some 51820,
     wd_flags = WGDEVICE_F_REPLACE_PEERS,
     wd_peers =
       [\<lparr>wp_public_key = replicate 32 1, wp_preshared_key = Some (replicate 32 9), wp_flags = WGPEER_F_REPLACE_ALLOWEDIPS,
          wp_endpoint = Some (SockV4 (IP4 0xc0a80002) 51820), wp_keepalive = Some 25,
          wp_allowed_ips = [\<lparr>wa_ip = V4 (IP4 0x0af40100), wa_cidr = 24\<rparr>]\<rparr>,
        \<lparr>wp_public_key = replicate 32 2, wp_preshared_key = None, wp_flags = WGPEER_F_REMOVE_ME,
          wp_endpoint = Some (SockV6 (IP6 (replicate 16 0x20)) 51821 0), wp_keepalive = None, wp_allowed_ips = []\<rparr>]\<rparr>"

theorem wg_config_roundtrip_witness:
  "device_ok sample_device \<and> decode_device (device_attrs sample_device) = Some sample_device"
proof -
  have peers: "peer_ok p" if "p \<in> set (wd_peers sample_device)" for p
    using that by (auto simp: sample_device_def peer_ok_def endpoint_ok_def addr_ok_def numeral_eq_Suc)
  have "length (concat (peer_attrs p)) \<le> 200" if "p \<in> set (wd_peers sample_device)" for p
    using that
    by (auto simp: sample_device_def peer_attrs_def length_nla align4_def sockaddr_bytes_def nla_u32_def nla_u16_def nla_nest_def
        numbered_def allowed_ip_attrs_def nla_u8_def)
  then have "length (concat (numbered peer_attrs (wd_peers sample_device))) \<le> 2 * align4 204"
    using numbered_size [of "wd_peers sample_device" peer_attrs 200] by (simp add: sample_device_def)
  with peers have "device_ok sample_device"
    by (simp add: device_ok_def align4_def) (simp add: sample_device_def)
  then show ?thesis using wg_config_roundtrip by blast
qed

text \<open>Only a length that is not a multiple of four makes the parser panic.\<close>

lemma parse_nlas_aligned: "4 dvd length b \<Longrightarrow> parse_nlas b \<noteq> None"
proof (induction b rule: parse_nlas.induct)
  case (1 b)
  let ?n = "unat (from_ne_bytes (take 2 b) :: u16)"
  show ?case
  proof (cases "length b < 4 \<or> ?n < 4 \<or> ?n > length b")
    case True
    then show ?thesis by (subst parse_nlas.simps) (auto simp: Let_def)
  next
    case False
    have fits: "align4 ?n \<le> length b" using 1(2) False unfolding align4_def by presburger
    have "4 dvd length (drop (align4 ?n) b)" using 1(2) fits unfolding align4_def length_drop by (simp add: dvd_diff_nat)
    with 1(1) False fits have "parse_nlas (drop (align4 ?n) b) \<noteq> None" by fastforce
    with False fits show ?thesis by (subst parse_nlas.simps) (auto simp: Let_def)
  qed
qed

lemma parse_nlas_unpadded: "parse_nlas [5, 0, 1, 0, 7] = None"
  by (subst parse_nlas.simps) (simp add: align4_def from_le_bytes_def)

end
