(* ===== verification/Wireguard.thy ===== *)
theory Wireguard
  imports Genl Backends
begin

text \<open>
  The WireGuard backend: keys (\<open>keys.rs\<close>), the device (\<open>device.rs\<close>), its configuration and registration
  (\<open>mod.rs\<close>) and the event handlers (\<open>network.rs\<close>). Parameters are the kernel, the file system, base64,
  the curve, the resolver, the runtime's tasks and the manager. A step ends with a value, an error, a panic, or
  never: the netlink client may wait for an answer for ever.
\<close>

section \<open>The environment\<close>

datatype halt = Fail err | Stuck | Crash string

text \<open>Opening the netlink socket is taken to succeed. \<open>wo_join\<close> is the text of a task that panicked.\<close>

record 's wg_os =
  wo_links :: "'s link_kernel"
  wo_genl :: "'s genl_kernel"
  wo_route_replace :: "route_message \<Rightarrow> ('s, string, unit) step"
  wo_key_file_var :: "string option"
  wo_exists :: "string \<Rightarrow> 's \<Rightarrow> bool"
  wo_read :: "string \<Rightarrow> 's \<Rightarrow> string + string"
  wo_create_dir_all :: "string \<Rightarrow> ('s, string, unit) step"
  wo_open_truncate :: "string \<Rightarrow> nat \<Rightarrow> ('s, string, unit) step"
  wo_write_all :: "string \<Rightarrow> string \<Rightarrow> ('s, string, unit) step"
  wo_random :: "('s, string, u8 list) step"
  wo_encode :: "u8 list \<Rightarrow> string"
  wo_decode :: "string \<Rightarrow> string + u8 list"
  wo_mul_base :: "u8 list \<Rightarrow> u8 list"
  wo_resolve :: "string \<Rightarrow> 's \<Rightarrow> string + socket_addr list"
  wo_io_text :: "io_error \<Rightarrow> string"
  wo_join :: string
  wo_spawn_removal :: "string \<Rightarrow> u32 \<Rightarrow> 's \<Rightarrow> 's"
  wo_network_config :: "('s, err, config) step"
  wo_parse :: "string \<Rightarrow> string + json"
  wo_ser :: serializer
  wo_type_error :: type_error
  wo_acquire :: "lease_attrs \<Rightarrow> ('s, err, lease) step"
  wo_cancelled :: bool

definition fails :: "(string \<Rightarrow> string) \<Rightarrow> ('s, string, 'a) step \<Rightarrow> ('s, halt, 'a) step" where
  "fails f m = on_err (\<lambda>e. Fail [f e]) m"

definition failing :: "string \<Rightarrow> ('s, halt, 'a) step" where
  "failing e = lift_result (Inl (Fail [e]))"

text \<open>\<open>map_err(|e| anyhow!("prefix{e}"))\<close>.\<close>

definition prefixed :: "string \<Rightarrow> ('s, halt, 'a) step \<Rightarrow> ('s, halt, 'a) step" where
  "prefixed p m = on_err (\<lambda>h. case h of Fail e \<Rightarrow> Fail (prefix_err p e) | _ \<Rightarrow> h) m"

definition lift_err :: "err + 'a \<Rightarrow> ('s, halt, 'a) step" where
  "lift_err r = lift_result (map_err Fail r)"

text \<open>\<open>if let Err(e)\<close> with a log message.\<close>

definition logged :: "('s, halt, 'a) step \<Rightarrow> ('s, halt, unit) step" where
  "logged m s =
     (case m s of
        (s1, Inl (Fail _)) \<Rightarrow> (s1, Inr ())
      | (s1, Inl h) \<Rightarrow> (s1, Inl h)
      | (s1, Inr _) \<Rightarrow> (s1, Inr ()))"

section \<open>Keys\<close>

type_synonym key = "u8 list"

definition clamp :: "u8 list \<Rightarrow> key" where
  "clamp b = (let b = b[0 := b ! 0 AND 248]; b = b[31 := b ! 31 AND 127] in b[31 := b ! 31 OR 64])"

definition generate_private_key :: "'s wg_os \<Rightarrow> ('s, string, key) step" where
  "generate_private_key os =
     then_do (on_err (\<lambda>e. ''getrandom: '' @ e) (wo_random os)) (\<lambda>b. give (clamp b))"

definition public_key :: "'s wg_os \<Rightarrow> key \<Rightarrow> key" where
  "public_key os k = wo_mul_base os k"

definition parse_key :: "'s wg_os \<Rightarrow> string \<Rightarrow> string + key" where
  "parse_key os s =
     (case wo_decode os s of
        Inl e \<Rightarrow> Inl (''failed to parse base64 key: '' @ e)
      | Inr b \<Rightarrow> if length b = 32 then Inr b else Inl (''key must be 32 bytes: '' @ show_nat (length b)))"

section \<open>Device attributes\<close>

definition WG_BACKEND_TYPE :: string where "WG_BACKEND_TYPE = ''wireguard''"

definition OVERHEAD :: u32 where "OVERHEAD = 80"

record wg_device_attrs =
  wa_listen_port :: u16
  wa_private_key :: "key option"
  wa_public_key :: "key option"
  wa_psk :: "key option"
  wa_keepalive :: "64 word option"
  wa_name :: string
  wa_mtu :: u32

record wg_device =
  wv_attrs :: wg_device_attrs
  wv_ifindex :: u32
  wv_ifname :: string

text \<open>\<open>Path::parent\<close>: without its last component and the separators before it; the arguments are reversed.\<close>

fun strip_sep :: "string \<Rightarrow> string" where
  "strip_sep (c # d # cs) =
     (if c = CHR ''/'' then strip_sep (d # cs)
      else if c = CHR ''.'' \<and> d = CHR ''/'' then strip_sep (d # cs)
      else c # d # cs)"
| "strip_sep cs = cs"

definition path_parent :: "string \<Rightarrow> string" where
  "path_parent path =
     (let r = strip_sep (rev path) in
      if r = [] \<or> r = ''/'' then [] else rev (strip_sep (dropWhile (\<lambda>c. c \<noteq> CHR ''/'') r)))"

text \<open>The mode 256 is \<open>0o400\<close>.\<close>

definition write_private_key :: "'s wg_os \<Rightarrow> string \<Rightarrow> string \<Rightarrow> ('s, string, unit) step" where
  "write_private_key os path content =
     then_do (if path_parent path \<noteq> [] then wo_create_dir_all os (path_parent path) else give ()) (\<lambda>_.
     then_do (wo_open_truncate os path 256) (\<lambda>_.
     wo_write_all os path content))"

definition key_file :: "'s wg_os \<Rightarrow> string" where
  "key_file os = (case wo_key_file_var os of Some f \<Rightarrow> f | None \<Rightarrow> ''/run/flannel/wgkey'')"

definition with_keys :: "'s wg_os \<Rightarrow> key \<Rightarrow> wg_device_attrs \<Rightarrow> wg_device_attrs" where
  "with_keys os k a = a\<lparr>wa_private_key := Some k, wa_public_key := Some (public_key os k)\<rparr>"

definition new_keys :: "'s wg_os \<Rightarrow> wg_device_attrs \<Rightarrow> ('s, halt, wg_device_attrs) step" where
  "new_keys os a =
     then_do (fails (\<lambda>e. ''could not generate private key: '' @ e) (generate_private_key os)) (\<lambda>k.
     then_do (fails (\<lambda>e. ''could not write key file: '' @ e) (write_private_key os (key_file os) (wo_encode os k))) (\<lambda>_.
     give (with_keys os k a)))"

definition load_keys :: "'s wg_os \<Rightarrow> wg_device_attrs \<Rightarrow> ('s, halt, wg_device_attrs) step" where
  "load_keys os a s =
     then_do (fails (\<lambda>e. e) (lift_result (wo_read os (key_file os) s))) (\<lambda>data.
     then_do (fails (\<lambda>e. ''could not parse private key from file: '' @ e) (lift_result (parse_key os data))) (\<lambda>k.
     give (with_keys os k a))) s"

definition setup_psk :: "'s wg_os \<Rightarrow> string \<Rightarrow> wg_device_attrs \<Rightarrow> ('s, halt, wg_device_attrs) step" where
  "setup_psk os psk a =
     (if psk = [] then give a
      else then_do (fails (\<lambda>e. ''could not parse psk: '' @ e) (lift_result (parse_key os psk))) (\<lambda>k.
        give (a\<lparr>wa_psk := Some k\<rparr>)))"

definition setup_keys :: "'s wg_os \<Rightarrow> wg_device_attrs \<Rightarrow> string \<Rightarrow> ('s, halt, wg_device_attrs) step" where
  "setup_keys os a psk s =
     then_do (if wo_exists os (key_file os) s then load_keys os a else new_keys os a) (setup_psk os psk) s"

section \<open>The device\<close>

text \<open>\<open>configure_device\<close> on a blocking thread: a panic there is the error of the join.\<close>

definition configure_blocking :: "'s wg_os \<Rightarrow> string \<Rightarrow> wg_device_config \<Rightarrow> ('s, halt, unit) step" where
  "configure_blocking os what cfg s =
     (case configure_device (wo_genl os) cfg s of
        (s1, Blocked) \<Rightarrow> (s1, Inl Stuck)
      | (s1, outcome.Panicked) \<Rightarrow> (s1, Inl (Fail [what @ '': '' @ wo_join os]))
      | (s1, Ret (Inl e)) \<Rightarrow> (s1, Inl (Fail [what @ '' '' @ wo_io_text os e]))
      | (s1, Ret (Inr _)) \<Rightarrow> (s1, Inr ()))"

definition build_wg_link :: "wg_device_attrs \<Rightarrow> link_message" where
  "build_wg_link a =
     \<lparr>lm_index = 0,
      lm_attributes = [IfName (wa_name a), IflaLinkInfo [InfoKind (KindOther ''wireguard'')]] @
        (let mtu = uint (wa_mtu a) - uint OVERHEAD in if mtu > 0 then [Mtu (word_of_int mtu)] else [])\<rparr>"

definition link_step :: "('s \<Rightarrow> 's \<times> link_error option) \<Rightarrow> ('s, link_error, unit) step" where
  "link_step f s = (case f s of (s1, None) \<Rightarrow> (s1, Inr ()) | (s1, Some e) \<Rightarrow> (s1, Inl e))"

definition link_fails :: "string \<Rightarrow> ('s \<Rightarrow> 's \<times> link_error option) \<Rightarrow> ('s, halt, unit) step" where
  "link_fails p f = on_err (\<lambda>e. Fail [p @ link_err_text e]) (link_step f)"

definition link_named :: "'s wg_os \<Rightarrow> string \<Rightarrow> ('s, halt, net_iface) step" where
  "link_named os name s = lift_err (get_interface_by_name (lk_netlink (wo_links os) s) name) s"

definition recreate_wg_link :: "'s wg_os \<Rightarrow> wg_device_attrs \<Rightarrow> ('s, halt, unit) step" where
  "recreate_wg_link os a =
     then_do (link_named os (wa_name a)) (\<lambda>existing.
     then_do (link_fails [] (lk_del (wo_links os) (if_index existing))) (\<lambda>_.
     link_fails ''could not create wireguard interface: '' (lk_add (wo_links os) (build_wg_link a))))"

definition ensure_wg_link :: "'s wg_os \<Rightarrow> wg_device_attrs \<Rightarrow> ('s, halt, u32) step" where
  "ensure_wg_link os a s =
     then_do (\<lambda>s. case lk_add (wo_links os) (build_wg_link a) s of
           (s1, None) \<Rightarrow> (s1, Inr ())
         | (s1, Some (EExist _)) \<Rightarrow> recreate_wg_link os a s1
         | (s1, Some (LinkErr e)) \<Rightarrow> (s1, Inl (Fail [''could not create wireguard interface: '' @ e]))) (\<lambda>_.
     then_do (prefixed (''can'' @ [CHR 0x27] @ ''t locate created wireguard device with index ('' @ wa_name a @ ''): '')
       (link_named os (wa_name a))) (\<lambda>iface.
     give (if_index iface))) s"

definition initial_config :: "wg_device_attrs \<Rightarrow> wg_device_config" where
  "initial_config a =
     \<lparr>wd_ifname = wa_name a, wd_private_key = wa_private_key a, wd_listen_port = Some (wa_listen_port a),
      wd_flags = WGDEVICE_F_REPLACE_PEERS, wd_peers = []\<rparr>"

definition new_wg_device :: "'s wg_os \<Rightarrow> wg_device_attrs \<Rightarrow> ('s, halt, wg_device) step" where
  "new_wg_device os a =
     then_do (ensure_wg_link os a) (\<lambda>ifindex.
     then_do (configure_blocking os ''failed to configure device'' (initial_config a)) (\<lambda>_ s.
     (wo_spawn_removal os (wa_name a) ifindex s,
      Inr \<lparr>wv_attrs = a, wv_ifindex = ifindex, wv_ifname = wa_name a\<rparr>)))"

text \<open>The body of the task that waits for the end; an error is only logged.\<close>

definition removal_task :: "'s wg_os \<Rightarrow> u32 \<Rightarrow> 's \<Rightarrow> 's" where
  "removal_task os ifindex s = fst (lk_del (wo_links os) ifindex s)"

text \<open>Every route has the scope link.\<close>

definition wg_route_v4 :: "u32 \<Rightarrow> ip4 \<Rightarrow> u8 \<Rightarrow> route_message" where
  "wg_route_v4 ifindex ip len =
     \<lparr>rm_family = Inet, rm_prefix_len = len, rm_kind = Unicast, rm_onlink = False,
      rm_attributes = [RtaDestination (RouteInet ip), RtaOif ifindex]\<rparr>"

definition wg_route_v6 :: "u32 \<Rightarrow> ip6 \<Rightarrow> u8 \<Rightarrow> route_message" where
  "wg_route_v6 ifindex ip len =
     \<lparr>rm_family = Inet6, rm_prefix_len = len, rm_kind = Unicast, rm_onlink = False,
      rm_attributes = [RtaDestination (RouteInet6 ip), RtaOif ifindex]\<rparr>"

definition wg_set_link_up :: "'s wg_os \<Rightarrow> wg_device \<Rightarrow> ('s, halt, unit) step" where
  "wg_set_link_up os dev =
     link_fails (''failed to set interface '' @ wv_ifname dev @ '' to UP state: '') (lk_set_up (wo_links os) (wv_ifindex dev))"

definition wg_add_route :: "'s wg_os \<Rightarrow> wg_device \<Rightarrow> route_message \<Rightarrow> ('s, halt, unit) step" where
  "wg_add_route os dev msg =
     fails (\<lambda>e. ''failed to add route '' @ wv_ifname dev @ '': '' @ e) (wo_route_replace os msg)"

definition up_and_add_route :: "'s wg_os \<Rightarrow> wg_device \<Rightarrow> route_message \<Rightarrow> string \<Rightarrow> ('s, halt, unit) step" where
  "up_and_add_route os dev msg dst =
     then_do (wg_set_link_up os dev) (\<lambda>_.
     prefixed (''failed to add route to destination ('' @ dst @ '') to interface ('' @ wv_ifname dev @ ''): '')
       (wg_add_route os dev msg))"

text \<open>The requests of the address helpers are applied to the kernel.\<close>

definition addr_step :: "'s wg_os \<Rightarrow> ('s \<Rightarrow> addr_request list \<times> (err + unit)) \<Rightarrow> ('s, halt, unit) step" where
  "addr_step os f s = (let (rs, r) = f s in (lk_addr_apply (wo_links os) rs s, map_err Fail r))"

definition wg_configure :: "'s wg_os \<Rightarrow> wg_device \<Rightarrow> ip4 \<Rightarrow> ip4net \<Rightarrow> ('s, halt, unit) step" where
  "wg_configure os dev dev_ip flannelnet =
     then_do (prefixed (''failed to ensure address of interface '' @ wv_ifname dev @ '': '')
       (addr_step os (\<lambda>s. ensure_v4_address_on_link (lk_netlink (wo_links os) s) (lk_addr_answer (wo_links os) s)
          \<lparr>n4_ip = dev_ip, n4_prefix_len = 32\<rparr> flannelnet (wv_ifindex dev)))) (\<lambda>_.
     prefixed ''failed to set up the route: ''
       (up_and_add_route os dev (wg_route_v4 (wv_ifindex dev) (n4_ip flannelnet) (ucast (n4_prefix_len flannelnet)))
          (n4_to_string flannelnet)))"

definition wg_configure_v6 :: "'s wg_os \<Rightarrow> wg_device \<Rightarrow> ip6 \<Rightarrow> ip6net \<Rightarrow> ('s, halt, unit) step" where
  "wg_configure_v6 os dev dev_ip flannelnet =
     then_do (prefixed (''failed to ensure address of interface '' @ wv_ifname dev @ '': '')
       (addr_step os (\<lambda>s. ensure_v6_address_on_link (lk_netlink (wo_links os) s) (lk_addr_answer (wo_links os) s)
          \<lparr>n6_ip = dev_ip, n6_prefix_len = 128\<rparr> flannelnet (wv_ifindex dev)))) (\<lambda>_.
     prefixed ''failed to set up the route: ''
       (up_and_add_route os dev (wg_route_v6 (wv_ifindex dev) (n6_ip flannelnet) (ucast (n6_prefix_len flannelnet)))
          (n6_to_string flannelnet)))"

definition resolve_udp_addr :: "'s wg_os \<Rightarrow> string \<Rightarrow> ('s, halt, socket_addr) step" where
  "resolve_udp_addr os a s =
     (s, case wo_resolve os a s of
           Inl e \<Rightarrow> Inl (Fail [''failed to resolve UDP address: '' @ e])
         | Inr [] \<Rightarrow> Inl (Fail [''failed to resolve UDP address''])
         | Inr (x # _) \<Rightarrow> Inr x)"

definition peer_config :: "wg_device \<Rightarrow> socket_addr \<Rightarrow> key \<Rightarrow> wg_allowed_ip list \<Rightarrow> wg_peer_config" where
  "peer_config dev endpoint k subnets =
     \<lparr>wp_public_key = k, wp_preshared_key = wa_psk (wv_attrs dev), wp_flags = WGPEER_F_REPLACE_ALLOWEDIPS,
      wp_endpoint = Some endpoint, wp_keepalive = map_option ucast (wa_keepalive (wv_attrs dev)),
      wp_allowed_ips = subnets\<rparr>"

definition add_peer :: "'s wg_os \<Rightarrow> wg_device \<Rightarrow> string \<Rightarrow> string \<Rightarrow> wg_allowed_ip list \<Rightarrow> ('s, halt, unit) step" where
  "add_peer os dev public_endpoint raw_key subnets =
     then_do (resolve_udp_addr os public_endpoint) (\<lambda>endpoint.
     then_do (fails (\<lambda>e. ''failed to parse publicKey: '' @ e) (lift_result (parse_key os raw_key))) (\<lambda>k.
     configure_blocking os ''failed to configure device''
       \<lparr>wd_ifname = wv_ifname dev, wd_private_key = wa_private_key (wv_attrs dev),
        wd_listen_port = Some (wa_listen_port (wv_attrs dev)), wd_flags = 0,
        wd_peers = [peer_config dev endpoint k subnets]\<rparr>))"

definition removed_peer :: "key \<Rightarrow> wg_peer_config" where
  "removed_peer k =
     \<lparr>wp_public_key = k, wp_preshared_key = None, wp_flags = WGPEER_F_REMOVE_ME, wp_endpoint = None,
      wp_keepalive = None, wp_allowed_ips = []\<rparr>"

definition remove_peer :: "'s wg_os \<Rightarrow> wg_device \<Rightarrow> string \<Rightarrow> ('s, halt, unit) step" where
  "remove_peer os dev raw_key =
     then_do (fails (\<lambda>e. ''failed to parse publicKey: '' @ e) (lift_result (parse_key os raw_key))) (\<lambda>k.
     configure_blocking os ''failed to remove peer''
       \<lparr>wd_ifname = wv_ifname dev, wd_private_key = None, wd_listen_port = None, wd_flags = 0,
        wd_peers = [removed_peer k]\<rparr>)"

section \<open>Backend configuration\<close>

datatype wg_mode = Separate | Auto | Ipv4Mode | Ipv6Mode

definition parse_mode :: "string \<Rightarrow> wg_mode option" where
  "parse_mode s =
     (if s = ''separate'' then Some Separate
      else if s = ''auto'' then Some Auto
      else if s = ''ipv4'' then Some Ipv4Mode
      else if s = ''ipv6'' then Some Ipv6Mode
      else None)"

record wg_config =
  wc_listen_port :: u32
  wc_listen_port_v6 :: u32
  wc_mtu :: u32
  wc_psk :: string
  wc_keepalive_secs :: "64 word"
  wc_mode :: "wg_mode option"

definition WG_FIELDS :: "string list" where
  "WG_FIELDS = [''ListenPort'', ''ListenPortV6'', ''MTU'', ''PSK'', ''PersistentKeepaliveInterval'', ''Mode'']"

definition wg_match_field :: "string \<Rightarrow> string option" where
  "wg_match_field key =
     (case find (\<lambda>tag. key = tag) WG_FIELDS of
        Some tag \<Rightarrow> Some tag
      | None \<Rightarrow> find (\<lambda>tag. eq_ignore_ascii_case key tag) WG_FIELDS)"

definition wg_field_error :: "string \<Rightarrow> json \<Rightarrow> string \<Rightarrow> string" where
  "wg_field_error tag val ty =
     ''json: cannot unmarshal '' @ json_type val @ '' into Go struct field .'' @ tag @ '' of type '' @ ty"

definition wg_int_field :: "string \<Rightarrow> json \<Rightarrow> string + u32" where
  "wg_int_field tag val =
     (case as_i64 val of None \<Rightarrow> Inl (wg_field_error tag val ''int'') | Some n \<Rightarrow> Inr (word_of_int n))"

definition wg_string_field :: "string \<Rightarrow> json \<Rightarrow> string + string" where
  "wg_string_field tag val = (case val of JString s \<Rightarrow> Inr s | _ \<Rightarrow> Inl (wg_field_error tag val ''string''))"

definition wg_set_field :: "string \<Rightarrow> json \<Rightarrow> wg_config \<Rightarrow> string + wg_config" where
  "wg_set_field tag val cfg =
     (if tag = ''ListenPort'' then map_sum id (\<lambda>n. cfg\<lparr>wc_listen_port := n\<rparr>) (wg_int_field tag val)
      else if tag = ''ListenPortV6'' then map_sum id (\<lambda>n. cfg\<lparr>wc_listen_port_v6 := n\<rparr>) (wg_int_field tag val)
      else if tag = ''MTU'' then map_sum id (\<lambda>n. cfg\<lparr>wc_mtu := n\<rparr>) (wg_int_field tag val)
      else if tag = ''PSK'' then map_sum id (\<lambda>s. cfg\<lparr>wc_psk := s\<rparr>) (wg_string_field tag val)
      else if tag = ''PersistentKeepaliveInterval'' then
        (case as_i64 val of
           None \<Rightarrow> Inl (wg_field_error tag val ''time.Duration'')
         | Some n \<Rightarrow> Inr (cfg\<lparr>wc_keepalive_secs := word_of_int (max n 0)\<rparr>))
      else map_sum id (\<lambda>s. cfg\<lparr>wc_mode := parse_mode s\<rparr>) (wg_string_field tag val))"

fun wg_set_fields :: "(string \<times> json) list \<Rightarrow> wg_config \<Rightarrow> string + wg_config" where
  "wg_set_fields [] cfg = Inr cfg"
| "wg_set_fields ((key, val) # ms) cfg =
     (case wg_match_field key of
        None \<Rightarrow> wg_set_fields ms cfg
      | Some tag \<Rightarrow> rbind (wg_set_field tag val cfg) (wg_set_fields ms))"

definition wg_config_default :: "u32 \<Rightarrow> wg_config" where
  "wg_config_default mtu =
     \<lparr>wc_listen_port = 51820, wc_listen_port_v6 = 51821, wc_mtu = mtu, wc_psk = [], wc_keepalive_secs = 0,
      wc_mode = Some Separate\<rparr>"

definition parse_wg_config :: "(string \<Rightarrow> string + json) \<Rightarrow> string option \<Rightarrow> u32 \<Rightarrow> string + wg_config" where
  "parse_wg_config parse backend default_mtu =
     (case backend of
        None \<Rightarrow> Inr (wg_config_default default_mtu)
      | Some text \<Rightarrow>
          if text = ''null'' then Inr (wg_config_default default_mtu)
          else rbind (parse text) (\<lambda>value.
            case value of
              JObject m \<Rightarrow> wg_set_fields m (wg_config_default default_mtu)
            | _ \<Rightarrow> Inl (''json: cannot unmarshal '' @ json_type value @
                '' into Go value of type struct { ListenPort int; ListenPortV6 int; MTU int; PSK string; PersistentKeepaliveInterval time.Duration; Mode wireguard.Mode }'')))"

section \<open>Lease attributes\<close>

record wg_lease_attrs =
  wl_public_key :: string
  wl_port :: u16

definition wg_lease_attrs_default :: wg_lease_attrs where
  "wg_lease_attrs_default = \<lparr>wl_public_key = [], wl_port = 0\<rparr>"

definition de_u16 :: "type_error \<Rightarrow> json \<Rightarrow> string + u16" where
  "de_u16 te v =
     (case v of JPos n \<Rightarrow> if n < 2 ^ 16 then Inr (of_nat n) else Inl (te ''u16'' v) | _ \<Rightarrow> Inl (te ''u16'' v))"

text \<open>A field without a default.\<close>

definition de_required :: "type_error \<Rightarrow> json \<Rightarrow> (json \<Rightarrow> string + 'a) \<Rightarrow> json option \<Rightarrow> string + 'a" where
  "de_required te whole de v = (case v of None \<Rightarrow> Inl (te ''missing field'' whole) | Some w \<Rightarrow> de w)"

definition wg_attrs_of :: "type_error \<Rightarrow> json \<Rightarrow> string + wg_lease_attrs" where
  "wg_attrs_of te v =
     rbind (struct_members te ''WireguardLeaseAttrs'' [''PublicKey'', ''Port''] v) (\<lambda>f.
     rbind (de_required te v (de_string te) (f 0)) (\<lambda>k.
     rbind (de_required te v (de_u16 te) (f 1)) (\<lambda>p.
     Inr \<lparr>wl_public_key = k, wl_port = p\<rparr>)))"

definition wg_attrs_text :: "serializer \<Rightarrow> wg_lease_attrs \<Rightarrow> string" where
  "wg_attrs_text ser a = ser [(''PublicKey'', JString (wl_public_key a)), (''Port'', JPos (unat (wl_port a)))]"

definition wg_subnet_attrs ::
  "serializer \<Rightarrow> ip_addr option \<Rightarrow> ip_addr option \<Rightarrow> bool \<Rightarrow> bool \<Rightarrow> string \<Rightarrow> u32 \<Rightarrow> u32 \<Rightarrow> lease_attrs" where
  "wg_subnet_attrs ser pub pub6 enable4 enable6 key v4_port v6_port =
     (let v4_data = wg_attrs_text ser \<lparr>wl_public_key = key, wl_port = ucast v4_port\<rparr>;
          v6_data = wg_attrs_text ser \<lparr>wl_public_key = key, wl_port = ucast v6_port\<rparr>;
          a = lease_attrs_default\<lparr>backend_type := WG_BACKEND_TYPE\<rparr>;
          a = (case pub of Some (V4 ip) \<Rightarrow> a\<lparr>public_ip := ip\<rparr> | _ \<Rightarrow> a);
          a = (if enable4 then a\<lparr>backend_data := Some v4_data\<rparr> else a);
          a = (case pub6 of Some (V6 ip) \<Rightarrow> a\<lparr>public_ipv6 := Some ip\<rparr> | _ \<Rightarrow> a)
      in if enable6 then a\<lparr>backend_v6_data := Some v6_data\<rparr> else a)"

section \<open>Registration\<close>

record wg_network =
  wn_ei :: external_interface
  wn_dev :: "wg_device option"
  wn_v6_dev :: "wg_device option"
  wn_mode :: wg_mode
  wn_lease :: lease
  wn_mtu :: u32

definition wg_network_mtu :: "wg_network \<Rightarrow> u32" where
  "wg_network_mtu net = (if wn_mtu net < OVERHEAD then 0 else wn_mtu net - OVERHEAD)"

definition create_wg_dev :: "'s wg_os \<Rightarrow> string \<Rightarrow> string \<Rightarrow> 64 word \<Rightarrow> u32 \<Rightarrow> u32 \<Rightarrow> ('s, halt, wg_device) step" where
  "create_wg_dev os name psk keepalive listen_port mtu =
     then_do (setup_keys os \<lparr>wa_listen_port = ucast listen_port, wa_private_key = None, wa_public_key = None,
        wa_psk = None, wa_keepalive = Some keepalive, wa_name = name, wa_mtu = mtu\<rparr> psk) (new_wg_device os)"

definition public_key_of :: "'s wg_os \<Rightarrow> wg_device \<Rightarrow> string" where
  "public_key_of os dev = (case wa_public_key (wv_attrs dev) of Some k \<Rightarrow> wo_encode os k | None \<Rightarrow> [])"

definition create_if ::
  "bool \<Rightarrow> ('s, halt, wg_device) step \<Rightarrow> ('s, halt, wg_device option) step" where
  "create_if b m = (if b then then_do m (\<lambda>d. give (Some d)) else give None)"

text \<open>The devices and the public key of the last one.\<close>

definition create_devices ::
  "'s wg_os \<Rightarrow> config \<Rightarrow> wg_config \<Rightarrow> wg_mode \<Rightarrow> ('s, halt, wg_device option \<times> wg_device option \<times> string) step" where
  "create_devices os config cfg mode =
     (let dev = create_wg_dev os ''flannel-wg'' (wc_psk cfg) (wc_keepalive_secs cfg) (wc_listen_port cfg) (wc_mtu cfg);
          v6_dev = create_wg_dev os ''flannel-wg-v6'' (wc_psk cfg) (wc_keepalive_secs cfg) (wc_listen_port_v6 cfg) (wc_mtu cfg)
      in if mode = Separate then
           then_do (create_if (cfg_enable_ipv4 config) dev) (\<lambda>d.
           then_do (create_if (cfg_enable_ipv6 config) v6_dev) (\<lambda>d6.
           give (d, d6, case (d6, d) of
               (Some x, _) \<Rightarrow> public_key_of os x
             | (None, Some x) \<Rightarrow> public_key_of os x
             | (None, None) \<Rightarrow> [])))
         else then_do dev (\<lambda>d. give (Some d, None, public_key_of os d)))"

definition wg_acquire :: "'s wg_os \<Rightarrow> lease_attrs \<Rightarrow> ('s, halt, lease) step" where
  "wg_acquire os a =
     on_err (\<lambda>e. Fail (if wo_cancelled os then e else prefix_err ''failed to acquire lease: '' e)) (wo_acquire os a)"

definition configure_v4_part ::
  "'s wg_os \<Rightarrow> config \<Rightarrow> wg_device option \<Rightarrow> lease \<Rightarrow> ('s, halt, unit) step" where
  "configure_v4_part os config dev l =
     (if \<not> cfg_enable_ipv4 config then give ()
      else if n4_empty (subnet l)
      then failing ''failed to configure wg interface: IPv4 is enabled but the lease has no IPv4''
      else case dev of
          None \<Rightarrow> lift_result (Inl (Crash ''dev is created when IPv4 is enabled''))
        | Some d \<Rightarrow> wg_configure os d (n4_ip (subnet l)) (cfg_network config))"

definition configure_v6_part ::
  "'s wg_os \<Rightarrow> config \<Rightarrow> wg_mode \<Rightarrow> wg_device option \<Rightarrow> wg_device option \<Rightarrow> lease \<Rightarrow> ('s, halt, unit) step" where
  "configure_v6_part os config mode dev v6_dev l =
     (if \<not> cfg_enable_ipv6 config then give ()
      else if n6_empty (ipv6_subnet l)
      then failing ''failed to configure wg interface: IPv6 is enabled but the lease has no IPv6''
      else case (if mode = Separate then v6_dev else dev) of
          None \<Rightarrow> lift_result (Inl (Crash ((if mode = Separate then ''v6Dev'' else ''dev'') @ '' is created when IPv6 is enabled'')))
        | Some d \<Rightarrow> wg_configure_v6 os d (n6_ip (ipv6_subnet l)) (cfg_ipv6_network config))"

definition wg_register_network :: "'s wg_os \<Rightarrow> external_interface \<Rightarrow> config \<Rightarrow> ('s, halt, wg_network) step" where
  "wg_register_network os ei config s =
     then_do (lift_err (get_link_mtu (lk_netlink (wo_links os) s) (ei_iface_index ei))) (\<lambda>ext_mtu.
     then_do (fails (\<lambda>e. ''error decoding backend config: '' @ e)
       (lift_result (parse_wg_config (wo_parse os) (cfg_backend config) ext_mtu))) (\<lambda>cfg.
     case wc_mode cfg of
       None \<Rightarrow> failing ''no valid Mode configured''
     | Some mode \<Rightarrow>
         then_do (create_devices os config cfg mode) (\<lambda>(dev, v6_dev, key).
         then_do (wg_acquire os (wg_subnet_attrs (wo_ser os) (ei_ext_addr ei) (ei_ext_v6_addr ei) (cfg_enable_ipv4 config)
           (cfg_enable_ipv6 config) key (wc_listen_port cfg) (wc_listen_port_v6 cfg))) (\<lambda>l.
         then_do (configure_v4_part os config dev l) (\<lambda>_.
         then_do (configure_v6_part os config mode dev v6_dev l) (\<lambda>_.
         give \<lparr>wn_ei = ei, wn_dev = dev, wn_v6_dev = v6_dev, wn_mode = mode, wn_lease = l, wn_mtu = wc_mtu cfg\<rparr>)))))) s"

section \<open>Events\<close>

definition select_mode :: "external_interface \<Rightarrow> ip4 \<Rightarrow> ip6 option \<Rightarrow> wg_mode" where
  "select_mode ei ip4 ip6 =
     (case ip6 of
        None \<Rightarrow> Ipv4Mode
      | Some ip6 \<Rightarrow>
          if \<not> ip4_is_private ip4 \<and> ei_ext_addr ei \<noteq> None then Ipv4Mode
          else if \<not> ip6_is_private ip6 \<and> (case ei_ext_v6_addr ei of Some (V6 v6) \<Rightarrow> \<not> ip6_is_private v6 | _ \<Rightarrow> False)
          then Ipv6Mode
          else Ipv4Mode)"

definition add_net_route :: "'s wg_os \<Rightarrow> wg_device \<Rightarrow> ip_addr \<Rightarrow> u8 \<Rightarrow> string \<Rightarrow> ('s, halt, unit) step" where
  "add_net_route os dev dst prefix_len disp =
     up_and_add_route os dev
       (case dst of V4 v4 \<Rightarrow> wg_route_v4 (wv_ifindex dev) v4 prefix_len | V6 v6 \<Rightarrow> wg_route_v6 (wv_ifindex dev) v6 prefix_len) disp"

definition add_v4_net_route :: "'s wg_os \<Rightarrow> wg_device \<Rightarrow> config \<Rightarrow> ('s, halt, unit) step" where
  "add_v4_net_route os dev netconf =
     add_net_route os dev (V4 (n4_ip (cfg_network netconf))) (ucast (n4_prefix_len (cfg_network netconf)))
       (n4_to_string (cfg_network netconf))"

definition add_v6_net_route :: "'s wg_os \<Rightarrow> wg_device \<Rightarrow> config \<Rightarrow> ('s, halt, unit) step" where
  "add_v6_net_route os dev netconf =
     add_net_route os dev (V6 (n6_ip (cfg_ipv6_network netconf))) (ucast (n6_prefix_len (cfg_ipv6_network netconf)))
       (n6_to_string (cfg_ipv6_network netconf))"

text \<open>A configuration that cannot be read is logged and the routes are skipped.\<close>

definition with_network_config :: "'s wg_os \<Rightarrow> (config \<Rightarrow> ('s, halt, unit) step) \<Rightarrow> ('s, halt, unit) step" where
  "with_network_config os f s =
     (case wo_network_config os s of (s1, Inl _) \<Rightarrow> (s1, Inr ()) | (s1, Inr netconf) \<Rightarrow> f netconf s1)"

definition add_config_route :: "'s wg_os \<Rightarrow> wg_device option \<Rightarrow> bool \<Rightarrow> ('s, halt, unit) step" where
  "add_config_route os dev v4 =
     (case dev of
        None \<Rightarrow> give ()
      | Some dev \<Rightarrow>
          with_network_config os (\<lambda>netconf.
            logged (if v4 then add_v4_net_route os dev netconf else add_v6_net_route os dev netconf)))"

definition v4_allowed :: "lease \<Rightarrow> wg_allowed_ip" where
  "v4_allowed l = \<lparr>wa_ip = V4 (n4_ip (subnet l)), wa_cidr = ucast (n4_prefix_len (subnet l))\<rparr>"

definition v6_allowed :: "lease \<Rightarrow> wg_allowed_ip" where
  "v6_allowed l = \<lparr>wa_ip = V6 (n6_ip (ipv6_subnet l)), wa_cidr = ucast (n6_prefix_len (ipv6_subnet l))\<rparr>"

text \<open>The attributes of one family; \<open>None\<close> when they cannot be read, which ends the handler.\<close>

definition family_attrs :: "'s wg_os \<Rightarrow> bool \<Rightarrow> string option \<Rightarrow> wg_lease_attrs option" where
  "family_attrs os enabled raw =
     (case raw of
        Some text \<Rightarrow>
          if enabled then (case rbind (wo_parse os text) (wg_attrs_of (wo_type_error os)) of Inl _ \<Rightarrow> None | Inr a \<Rightarrow> Some a)
          else Some wg_lease_attrs_default
      | None \<Rightarrow> Some wg_lease_attrs_default)"

definition port_or_listen :: "wg_lease_attrs \<Rightarrow> wg_device option \<Rightarrow> u16" where
  "port_or_listen a dev =
     (if wl_port a = 0 then (case dev of Some d \<Rightarrow> wa_listen_port (wv_attrs d) | None \<Rightarrow> 0) else wl_port a)"

definition v4_endpoint :: "wg_network \<Rightarrow> lease \<Rightarrow> wg_lease_attrs \<Rightarrow> string" where
  "v4_endpoint net l a =
     ip4_to_string (public_ip (attrs l)) @ '':'' @ show_nat (unat (port_or_listen a (wn_dev net)))"

definition v6_endpoint :: "wg_network \<Rightarrow> lease \<Rightarrow> wg_lease_attrs \<Rightarrow> string" where
  "v6_endpoint net l a =
     (case public_ipv6 (attrs l) of
        None \<Rightarrow> []
      | Some ip \<Rightarrow> ''['' @ ip6_to_string ip @ '']:'' @ show_nat (unat (port_or_listen a (wn_v6_dev net))))"

text \<open>Adding a peer to a device, if there is one.\<close>

definition try_add_peer ::
  "'s wg_os \<Rightarrow> wg_device option \<Rightarrow> string \<Rightarrow> string \<Rightarrow> wg_allowed_ip list \<Rightarrow> ('s, halt, unit) step" where
  "try_add_peer os dev endpoint key ips =
     (case dev of None \<Rightarrow> give () | Some d \<Rightarrow> logged (add_peer os d endpoint key ips))"

definition added_separate ::
  "'s wg_os \<Rightarrow> wg_network \<Rightarrow> lease \<Rightarrow> wg_lease_attrs \<Rightarrow> wg_lease_attrs \<Rightarrow> ('s, halt, unit) step" where
  "added_separate os net l v4 v6 =
     then_do (if enable_ipv4 l then
         then_do (try_add_peer os (wn_dev net) (v4_endpoint net l v4) (wl_public_key v4) [v4_allowed l]) (\<lambda>_.
         add_config_route os (wn_dev net) True)
       else give ()) (\<lambda>_.
     if enable_ipv6 l then
       then_do (try_add_peer os (wn_v6_dev net) (v6_endpoint net l v6) (wl_public_key v6) [v6_allowed l]) (\<lambda>_.
       add_config_route os (wn_v6_dev net) False)
     else give ())"

definition added_shared ::
  "'s wg_os \<Rightarrow> wg_network \<Rightarrow> lease \<Rightarrow> wg_lease_attrs \<Rightarrow> wg_lease_attrs \<Rightarrow> ('s, halt, unit) step" where
  "added_shared os net l v4 v6 =
     (let mode = (if wn_mode net = Auto then select_mode (wn_ei net) (public_ip (attrs l)) (public_ipv6 (attrs l)) else wn_mode net);
          endpoint = (if mode = Ipv6Mode then v6_endpoint net l v6 else v4_endpoint net l v4);
          a = (if enable_ipv6 l then v6 else if enable_ipv4 l then v4 else wg_lease_attrs_default);
          ips = (if enable_ipv4 l then [v4_allowed l] else []) @ (if enable_ipv6 l then [v6_allowed l] else [])
      in then_do (try_add_peer os (wn_dev net) endpoint (wl_public_key a) ips) (\<lambda>_.
         with_network_config os (\<lambda>netconf.
           case wn_dev net of
             None \<Rightarrow> give ()
           | Some dev \<Rightarrow>
               then_do (logged (add_v4_net_route os dev netconf)) (\<lambda>_. logged (add_v6_net_route os dev netconf)))))"

definition wg_handle_added :: "'s wg_os \<Rightarrow> wg_network \<Rightarrow> lease \<Rightarrow> ('s, halt, unit) step" where
  "wg_handle_added os net l =
     (if backend_type (attrs l) \<noteq> WG_BACKEND_TYPE then give ()
      else case family_attrs os (enable_ipv4 l) (backend_data (attrs l)) of
          None \<Rightarrow> give ()
        | Some v4 \<Rightarrow>
            (case family_attrs os (enable_ipv6 l) (backend_v6_data (attrs l)) of
               None \<Rightarrow> give ()
             | Some v6 \<Rightarrow>
                 if wn_mode net = Separate then added_separate os net l v4 v6 else added_shared os net l v4 v6))"

text \<open>The attributes are kept from one family to the next when the second has no data.\<close>

definition removed_attrs :: "'s wg_os \<Rightarrow> wg_lease_attrs \<Rightarrow> string option \<Rightarrow> wg_lease_attrs option" where
  "removed_attrs os a raw =
     (case raw of
        None \<Rightarrow> Some a
      | Some text \<Rightarrow> (case rbind (wo_parse os text) (wg_attrs_of (wo_type_error os)) of Inl _ \<Rightarrow> None | Inr a \<Rightarrow> Some a))"

definition removed_v6 :: "'s wg_os \<Rightarrow> wg_network \<Rightarrow> lease \<Rightarrow> wg_lease_attrs \<Rightarrow> ('s, halt, unit) step" where
  "removed_v6 os net l a =
     (if enable_ipv6 l then
        (case removed_attrs os a (backend_v6_data (attrs l)) of
           None \<Rightarrow> give ()
         | Some a \<Rightarrow>
             (case (if wn_mode net = Separate \<and> wn_v6_dev net \<noteq> None then wn_v6_dev net else wn_dev net) of
                None \<Rightarrow> give ()
              | Some dev \<Rightarrow> logged (remove_peer os dev (wl_public_key a))))
      else give ())"

definition wg_handle_removed :: "'s wg_os \<Rightarrow> wg_network \<Rightarrow> lease \<Rightarrow> ('s, halt, unit) step" where
  "wg_handle_removed os net l =
     (if backend_type (attrs l) \<noteq> WG_BACKEND_TYPE then give ()
      else case (enable_ipv4 l, wn_dev net) of
          (True, Some dev) \<Rightarrow>
            (case removed_attrs os wg_lease_attrs_default (backend_data (attrs l)) of
               None \<Rightarrow> give ()
             | Some a \<Rightarrow> then_do (logged (remove_peer os dev (wl_public_key a))) (\<lambda>_. removed_v6 os net l a))
        | _ \<Rightarrow> removed_v6 os net l wg_lease_attrs_default)"

definition wg_handle_event :: "'s wg_os \<Rightarrow> wg_network \<Rightarrow> event \<Rightarrow> ('s, halt, unit) step" where
  "wg_handle_event os net e =
     (case ev_type e of
        Added \<Rightarrow> wg_handle_added os net (ev_lease e)
      | Removed \<Rightarrow> wg_handle_removed os net (ev_lease e))"

fun wg_handle_subnet_events :: "'s wg_os \<Rightarrow> wg_network \<Rightarrow> event list \<Rightarrow> ('s, halt, unit) step" where
  "wg_handle_subnet_events os net [] = give ()"
| "wg_handle_subnet_events os net (e # es) =
     then_do (wg_handle_event os net e) (\<lambda>_. wg_handle_subnet_events os net es)"

text \<open>The loop of \<open>run\<close>: what the biased select sees at each turn.\<close>

datatype run_input = Cancelled | Batch "event list" | Closed

fun wg_run :: "'s wg_os \<Rightarrow> wg_network \<Rightarrow> run_input list \<Rightarrow> ('s, halt, unit) step" where
  "wg_run os net [] = lift_result (Inl Stuck)"
| "wg_run os net (Cancelled # ins) = give ()"
| "wg_run os net (Closed # ins) = give ()"
| "wg_run os net (Batch es # ins) = then_do (wg_handle_subnet_events os net es) (\<lambda>_. wg_run os net ins)"

section \<open>The kernel's devices\<close>

text \<open>A device has its private key and public key, its peers with their last endpoint, and the table that gives
  the peer of an allowed network; a network belongs to one peer at a time.\<close>

record wg_state =
  ws_private :: "key option"
  ws_own :: "key option"
  ws_port :: u16
  ws_peers :: "key \<rightharpoonup> socket_addr option"
  ws_routes :: "wg_allowed_ip \<rightharpoonup> key"

definition allowed_net :: "wg_allowed_ip \<Rightarrow> wg_allowed_ip" where
  "allowed_net a =
     a\<lparr>wa_ip := (case wa_ip a of
         V4 ip \<Rightarrow> V4 (n4_ip (n4_network \<lparr>n4_ip = ip, n4_prefix_len = ucast (wa_cidr a)\<rparr>))
       | V6 ip \<Rightarrow> V6 (n6_ip (n6_network \<lparr>n6_ip = ip, n6_prefix_len = ucast (wa_cidr a)\<rparr>)))\<rparr>"

definition drop_routes :: "key \<Rightarrow> (wg_allowed_ip \<rightharpoonup> key) \<Rightarrow> (wg_allowed_ip \<rightharpoonup> key)" where
  "drop_routes k r = (\<lambda>a. if r a = Some k then None else r a)"

definition apply_peer :: "wg_state \<Rightarrow> wg_peer_config \<Rightarrow> wg_state" where
  "apply_peer st p =
     (let k = wp_public_key p in
      if ws_own st = Some k then st
      else if wp_flags p AND WGPEER_F_REMOVE_ME \<noteq> 0
      then st\<lparr>ws_peers := (ws_peers st)(k := None), ws_routes := drop_routes k (ws_routes st)\<rparr>
      else
        let old = (if wp_flags p AND WGPEER_F_REPLACE_ALLOWEDIPS \<noteq> 0 then drop_routes k (ws_routes st) else ws_routes st);
            endpoint = (case wp_endpoint p of Some e \<Rightarrow> Some e | None \<Rightarrow> Option.bind (ws_peers st k) id)
        in st\<lparr>ws_peers := (ws_peers st)(k \<mapsto> endpoint),
              ws_routes := foldl (\<lambda>r a. r(allowed_net a \<mapsto> k)) old (wp_allowed_ips p)\<rparr>)"

definition apply_config :: "wg_device_config \<Rightarrow> wg_state \<Rightarrow> wg_state" where
  "apply_config cfg st =
     (let st = (case wd_listen_port cfg of Some p \<Rightarrow> st\<lparr>ws_port := p\<rparr> | None \<Rightarrow> st);
          st = (if wd_flags cfg AND WGDEVICE_F_REPLACE_PEERS \<noteq> 0
                then st\<lparr>ws_peers := Map.empty, ws_routes := Map.empty\<rparr> else st)
      in foldl apply_peer st (wd_peers cfg))"

definition cidr_ok :: "wg_allowed_ip \<Rightarrow> bool" where
  "cidr_ok a \<longleftrightarrow> (case wa_ip a of V4 _ \<Rightarrow> wa_cidr a \<le> 32 | V6 _ \<Rightarrow> wa_cidr a \<le> 128)"

text \<open>What is documented of the kernel: a socket can be opened, the family \<open>wireguard\<close> is found with an
  identifier and a command to set a device, and setting an existing device without changing its key, with
  attributes that decode to a configuration of valid prefixes, applies it and is acknowledged.\<close>

definition wg_kernel_ok :: "'s genl_kernel \<Rightarrow> ('s \<Rightarrow> string \<rightharpoonup> wg_state) \<Rightarrow> bool" where
  "wg_kernel_ok kern devs \<longleftrightarrow>
     (\<exists>fam get set'.
        (\<forall>s. \<exists>s1 port. gk_socket kern s = (s1, Inr port) \<and> devs s1 = devs s) \<and>
        (\<forall>port seq s. \<exists>s1 ds m.
           gk_send kern (request_message port seq 0x10 3 (NLM_F_REQUEST OR NLM_F_ACK) (nla_str 2 WG_GENL_NAME)) s = (s1, Inr ds) \<and>
           devs s1 = devs s \<and> collect_replies ds [] = Ret (Inr [m]) \<and>
           parse_family_ops WG_GENL_NAME (drop 4 m) = Some (Inr (fam, get, set'))) \<and>
        (\<forall>port seq s as cfg st.
           decode_device as = Some cfg \<and> devs s (wd_ifname cfg) = Some st \<and>
           (wd_private_key cfg = None \<or> wd_private_key cfg = ws_private st) \<and>
           list_all (\<lambda>p. list_all cidr_ok (wp_allowed_ips p)) (wd_peers cfg) \<longrightarrow>
           (\<exists>s1 ds. gk_send kern (request_message port seq fam set' (NLM_F_REQUEST OR NLM_F_ACK) as) s = (s1, Inr ds) \<and>
              collect_replies ds [] = Ret (Inr []) \<and> devs s1 = (devs s)(wd_ifname cfg \<mapsto> apply_config cfg st))))"

lemma configure_device_applies:
  assumes ok: "wg_kernel_ok kern devs" and cfg: "device_ok cfg" "devs s (wd_ifname cfg) = Some st"
      "wd_private_key cfg = None \<or> wd_private_key cfg = ws_private st"
      "list_all (\<lambda>p. list_all cidr_ok (wp_allowed_ips p)) (wd_peers cfg)"
  shows "\<exists>s'. configure_device kern cfg s = (s', Ret (Inr ())) \<and> devs s' = (devs s)(wd_ifname cfg \<mapsto> apply_config cfg st)"
proof -
  let ?fl = "NLM_F_REQUEST OR NLM_F_ACK"
  obtain fam get set' where sock: "\<And>s. \<exists>s1 port. gk_socket kern s = (s1, Inr port) \<and> devs s1 = devs s"
    and look: "\<And>port seq s. \<exists>s1 ds m. gk_send kern (request_message port seq 0x10 3 ?fl (nla_str 2 WG_GENL_NAME)) s = (s1, Inr ds) \<and>
        devs s1 = devs s \<and> collect_replies ds [] = Ret (Inr [m]) \<and>
        parse_family_ops WG_GENL_NAME (drop 4 m) = Some (Inr (fam, get, set'))"
    and send: "\<And>port seq s as cfg st. decode_device as = Some cfg \<and> devs s (wd_ifname cfg) = Some st \<and>
        (wd_private_key cfg = None \<or> wd_private_key cfg = ws_private st) \<and>
        list_all (\<lambda>p. list_all cidr_ok (wp_allowed_ips p)) (wd_peers cfg) \<Longrightarrow>
        \<exists>s1 ds. gk_send kern (request_message port seq fam set' ?fl as) s = (s1, Inr ds) \<and>
          collect_replies ds [] = Ret (Inr []) \<and> devs s1 = (devs s)(wd_ifname cfg \<mapsto> apply_config cfg st)"
    using ok unfolding wg_kernel_ok_def by blast
  obtain s1 port where 1: "gk_socket kern s = (s1, Inr port)" "devs s1 = devs s" using sock by blast
  obtain s2 ds m where 2: "gk_send kern (request_message port 1 0x10 3 ?fl (nla_str 2 WG_GENL_NAME)) s1 = (s2, Inr ds)"
      "devs s2 = devs s" "collect_replies ds [] = Ret (Inr [m])"
      "parse_family_ops WG_GENL_NAME (drop 4 m) = Some (Inr (fam, get, set'))"
    using look [of port 1 s1] 1(2) by auto
  obtain s3 ds' where 3: "gk_send kern (request_message port 2 fam set' ?fl (device_attrs cfg)) s2 = (s3, Inr ds')"
      "collect_replies ds' [] = Ret (Inr [])" "devs s3 = (devs s)(wd_ifname cfg \<mapsto> apply_config cfg st)"
    using send [of "device_attrs cfg" cfg s2 st port 2] decode_device_attrs [OF cfg(1)] cfg(2-) 2(2) by auto
  show ?thesis
    by (simp add: configure_device_def genl_call_def resolve_family_ops_def genl_request_def 1(1) 2 3)
qed

lemma peer_attrs_size:
  assumes ok: "peer_ok p" and one: "length (wp_allowed_ips p) \<le> 1"
  shows "length (concat (peer_attrs p)) \<le> 300"
proof -
  have ips: "length (concat (numbered allowed_ip_attrs (wp_allowed_ips p))) \<le> 40"
  proof -
    have "length (concat (numbered allowed_ip_attrs (wp_allowed_ips p))) \<le> length (wp_allowed_ips p) * align4 (4 + 36)"
      using ok allowed_ip_size by (intro numbered_size) (auto simp: peer_ok_def)
    also have "\<dots> \<le> 1 * align4 (4 + 36)" by (rule mult_le_mono1 [OF one])
    finally show ?thesis by (simp add: align4_def)
  qed
  have bounds: "align4 n \<le> n + 3" for n using align4_bounds(2) [of n] by simp
  have ep: "length (sockaddr_bytes e) \<le> 28" if "wp_endpoint p = Some e" for e
    using ok that by (auto simp: peer_ok_def sockaddr_bytes_def endpoint_ok_def split: socket_addr.splits)
  have parts: "length (nlas (opt_attr 2 (wp_preshared_key p))) \<le> 36"
      "length (nlas (opt_attr 3 (if wp_flags p \<noteq> 0 then Some (to_ne_bytes 4 (wp_flags p)) else None))) \<le> 8"
      "length (nlas (opt_attr 4 (map_option sockaddr_bytes (wp_endpoint p)))) \<le> 35"
      "length (nlas (opt_attr 5 (map_option (to_ne_bytes 2) (wp_keepalive p)))) \<le> 8"
      "length (nlas (opt_attr t (if wp_allowed_ips p \<noteq> [] then Some (concat (numbered allowed_ip_attrs (wp_allowed_ips p))) else None))) \<le> 47" for t
    using ok ips ep bounds [of "4 + length (concat (numbered allowed_ip_attrs (wp_allowed_ips p)))"]
      bounds [of "4 + length (sockaddr_bytes (the (wp_endpoint p)))"]
    by (auto simp: length_opt_attr peer_ok_def align4_def split: option.splits)
  have key: "length (nlas [(1, wp_public_key p)]) = 36" using ok by (simp add: length_nla peer_ok_def align4_def)
  show ?thesis
    unfolding concat_peer_attrs peer_attr_list_def map_append concat_append length_append
    using parts(1-4) parts(5) [of "9 OR 0x8000"] key by linarith
qed

lemma one_peer_fits:
  assumes "peer_ok p" "length (wp_allowed_ips p) \<le> 1"
  shows "length (concat (numbered peer_attrs [p])) \<le> 65531"
  using numbered_size [of "[p]" peer_attrs 300] peer_attrs_size [OF assms] by (simp add: align4_def)

definition wg_key_ok :: "key option \<Rightarrow> bool" where
  "wg_key_ok k \<longleftrightarrow> (case k of None \<Rightarrow> True | Some b \<Rightarrow> length b = 32)"

text \<open>A device that the kernel knows under its name and with its key.\<close>

definition wg_device_ok :: "wg_device \<Rightarrow> bool" where
  "wg_device_ok dev \<longleftrightarrow> CHR 0x00 \<notin> set (wv_ifname dev) \<and> length (wv_ifname dev) \<le> 15 \<and>
     wg_key_ok (wa_private_key (wv_attrs dev)) \<and> wg_key_ok (wa_psk (wv_attrs dev))"

lemma logged_Inr: "m s = (s1, Inr x) \<Longrightarrow> logged m s = (s1, Inr ())"
  by (simp add: logged_def)

lemma add_peer_applies:
  assumes kern: "wg_kernel_ok (wo_genl os) devs" and dev: "wg_device_ok dev"
    and st: "devs s (wv_ifname dev) = Some st" "wa_private_key (wv_attrs dev) = ws_private st"
    and peer: "wo_resolve os endpoint s = Inr (e # es)" "endpoint_ok e" "parse_key os raw = Inr k"
      "addr_ok (wa_ip a)" "cidr_ok a" "ws_own st \<noteq> Some k"
  shows "\<exists>s'. add_peer os dev endpoint raw [a] s = (s', Inr ()) \<and>
    devs s' = (devs s)(wv_ifname dev \<mapsto> st\<lparr>ws_port := wa_listen_port (wv_attrs dev), ws_peers := (ws_peers st)(k \<mapsto> Some e),
      ws_routes := (drop_routes k (ws_routes st))(allowed_net a \<mapsto> k)\<rparr>)"
proof -
  let ?p = "peer_config dev e k [a]"
  let ?cfg = "\<lparr>wd_ifname = wv_ifname dev, wd_private_key = wa_private_key (wv_attrs dev),
    wd_listen_port = Some (wa_listen_port (wv_attrs dev)), wd_flags = 0, wd_peers = [?p]\<rparr>"
  have len: "length k = 32" using peer(3) by (auto simp: parse_key_def split: sum.splits if_splits)
  have pok: "peer_ok ?p"
    using dev peer(2,4) len by (auto simp: peer_ok_def peer_config_def wg_device_ok_def wg_key_ok_def)
  have cfg: "device_ok ?cfg"
    using dev pok one_peer_fits [OF pok] by (auto simp: device_ok_def wg_device_ok_def wg_key_ok_def peer_config_def)
  have eff: "apply_config ?cfg st = st\<lparr>ws_port := wa_listen_port (wv_attrs dev), ws_peers := (ws_peers st)(k \<mapsto> Some e),
      ws_routes := (drop_routes k (ws_routes st))(allowed_net a \<mapsto> k)\<rparr>"
    using peer(6) by (simp add: apply_config_def apply_peer_def peer_config_def Let_def
      WGPEER_F_REPLACE_ALLOWEDIPS_def WGPEER_F_REMOVE_ME_def)
  obtain s' where "configure_device (wo_genl os) ?cfg s = (s', Ret (Inr ()))"
      "devs s' = (devs s)(wv_ifname dev \<mapsto> apply_config ?cfg st)"
    using configure_device_applies [OF kern cfg, of s st] st peer(5) by (auto simp: peer_config_def)
  then show ?thesis
    unfolding eff
    by (simp add: add_peer_def then_do_def resolve_udp_addr_def peer(1,3) fails_def on_err_def lift_result_def
        configure_blocking_def)
qed

lemma remove_peer_applies:
  assumes kern: "wg_kernel_ok (wo_genl os) devs" and dev: "wg_device_ok dev"
    and st: "devs s (wv_ifname dev) = Some st" and key: "parse_key os raw = Inr k" "ws_own st \<noteq> Some k"
  shows "\<exists>s'. remove_peer os dev raw s = (s', Inr ()) \<and>
    devs s' = (devs s)(wv_ifname dev \<mapsto> st\<lparr>ws_peers := (ws_peers st)(k := None), ws_routes := drop_routes k (ws_routes st)\<rparr>)"
proof -
  let ?cfg = "\<lparr>wd_ifname = wv_ifname dev, wd_private_key = None, wd_listen_port = None, wd_flags = 0,
    wd_peers = [removed_peer k]\<rparr>"
  have len: "length k = 32" using key(1) by (auto simp: parse_key_def split: sum.splits if_splits)
  have pok: "peer_ok (removed_peer k)" using len by (simp add: peer_ok_def removed_peer_def)
  have cfg: "device_ok ?cfg"
    using dev pok one_peer_fits [OF pok] by (auto simp: device_ok_def wg_device_ok_def removed_peer_def)
  have eff: "apply_config ?cfg st = st\<lparr>ws_peers := (ws_peers st)(k := None), ws_routes := drop_routes k (ws_routes st)\<rparr>"
    using key(2) by (simp add: apply_config_def apply_peer_def removed_peer_def Let_def WGPEER_F_REMOVE_ME_def)
  obtain s' where "configure_device (wo_genl os) ?cfg s = (s', Ret (Inr ()))"
      "devs s' = (devs s)(wv_ifname dev \<mapsto> apply_config ?cfg st)"
    using configure_device_applies [OF kern cfg, of s st] st by (auto simp: removed_peer_def)
  then show ?thesis
    unfolding eff by (simp add: remove_peer_def then_do_def key(1) fails_def on_err_def lift_result_def configure_blocking_def)
qed

section \<open>Peers follow leases\<close>

text \<open>Requests on links and routes and reading the configuration do not touch the WireGuard devices.\<close>

definition wg_env_ok :: "'s wg_os \<Rightarrow> ('s \<Rightarrow> string \<rightharpoonup> wg_state) \<Rightarrow> bool" where
  "wg_env_ok os devs \<longleftrightarrow>
     (\<forall>i s. devs (fst (lk_set_up (wo_links os) i s)) = devs s) \<and>
     (\<forall>m s. devs (fst (wo_route_replace os m s)) = devs s) \<and>
     (\<forall>s. devs (fst (wo_network_config os s)) = devs s)"

lemma up_and_add_route_frame:
  assumes "wg_env_ok os devs" "up_and_add_route os dev msg dst s = (s', r)"
  shows "devs s' = devs s \<and> (r = Inr () \<or> (\<exists>e. r = Inl (Fail e)))"
proof -
  obtain s1 u where up: "lk_set_up (wo_links os) (wv_ifindex dev) s = (s1, u)" "devs s1 = devs s"
    using assms(1) unfolding wg_env_ok_def by (metis prod.collapse)
  obtain s2 v where rt: "wo_route_replace os msg s1 = (s2, v)" "devs s2 = devs s"
    using assms(1) up(2) unfolding wg_env_ok_def by (metis prod.collapse)
  from assms(2) up(2) rt(2) show ?thesis
    by (cases u; cases v)
      (auto simp: up_and_add_route_def then_do_def wg_set_link_up_def link_fails_def link_step_def on_err_def up(1) rt(1)
        prefixed_def wg_add_route_def fails_def)
qed

lemma logged_route_frame:
  assumes "wg_env_ok os devs"
  shows "\<exists>s'. logged (up_and_add_route os dev msg dst) s = (s', Inr ()) \<and> devs s' = devs s"
proof -
  obtain s' r where "up_and_add_route os dev msg dst s = (s', r)" by (meson surj_pair)
  with up_and_add_route_frame [OF assms this] show ?thesis by (auto simp: logged_def)
qed

lemma with_network_config_frame:
  assumes "wg_env_ok os devs" and "\<And>netconf s. \<exists>s'. f netconf s = (s', Inr ()) \<and> devs s' = devs s"
  shows "\<exists>s'. with_network_config os f s = (s', Inr ()) \<and> devs s' = devs s"
proof -
  obtain s1 r where cfg: "wo_network_config os s = (s1, r)" "devs s1 = devs s"
    using assms(1) unfolding wg_env_ok_def by (metis prod.collapse)
  show ?thesis
  proof (cases r)
    case (Inr netconf)
    with assms(2) [of netconf s1] cfg show ?thesis by (simp add: with_network_config_def)
  qed (use cfg in \<open>simp add: with_network_config_def\<close>)
qed

lemma add_config_route_frame:
  assumes "wg_env_ok os devs"
  shows "\<exists>s'. add_config_route os dev v4 s = (s', Inr ()) \<and> devs s' = devs s"
proof (cases dev)
  case (Some d)
  have "\<exists>s'. logged (if v4 then add_v4_net_route os d netconf else add_v6_net_route os d netconf) s = (s', Inr ()) \<and>
      devs s' = devs s" for netconf s
    using logged_route_frame [OF assms] by (simp add: add_v4_net_route_def add_v6_net_route_def add_net_route_def)
  with with_network_config_frame [OF assms] Some show ?thesis by (simp add: add_config_route_def)
qed (simp add: add_config_route_def)

text \<open>An IPv4 lease of a WireGuard node with the key and the address that its data give.\<close>

definition wg_lease_ok ::
  "'s wg_os \<Rightarrow> wg_network \<Rightarrow> key option \<Rightarrow> (lease \<Rightarrow> key) \<Rightarrow> (lease \<Rightarrow> socket_addr) \<Rightarrow> lease \<Rightarrow> bool" where
  "wg_lease_ok os net own key_of addr_of l \<longleftrightarrow>
     backend_type (attrs l) = WG_BACKEND_TYPE \<and> enable_ipv4 l \<and> \<not> enable_ipv6 l \<and> n4_prefix_len (subnet l) \<le> 32 \<and>
     own \<noteq> Some (key_of l) \<and> endpoint_ok (addr_of l) \<and>
     (\<exists>raw a es. backend_data (attrs l) = Some raw \<and> rbind (wo_parse os raw) (wg_attrs_of (wo_type_error os)) = Inr a \<and>
        parse_key os (wl_public_key a) = Inr (key_of l) \<and> (\<forall>s. wo_resolve os (v4_endpoint net l a) s = Inr (addr_of l # es)))"

text \<open>The abstract step: a lease that is added is the peer of its subnet, which no other peer serves then; a
  lease that is removed takes its peer and all its subnets along.\<close>

definition peer_event :: "(lease \<Rightarrow> key) \<Rightarrow> (lease \<Rightarrow> socket_addr) \<Rightarrow> wg_state \<Rightarrow> event \<Rightarrow> wg_state" where
  "peer_event key_of addr_of st e =
     (let l = ev_lease e; k = key_of l in
      case ev_type e of
        Added \<Rightarrow> st\<lparr>ws_peers := (ws_peers st)(k \<mapsto> Some (addr_of l)),
            ws_routes := (drop_routes k (ws_routes st))(allowed_net (v4_allowed l) \<mapsto> k)\<rparr>
      | Removed \<Rightarrow> st\<lparr>ws_peers := (ws_peers st)(k := None), ws_routes := drop_routes k (ws_routes st)\<rparr>)"

lemma v4_allowed_ok:
  assumes "n4_prefix_len (subnet l) \<le> 32"
  shows "addr_ok (wa_ip (v4_allowed l))" "cidr_ok (v4_allowed l)"
proof -
  have "unat (n4_prefix_len (subnet l)) \<le> 32" using assms by (simp add: word_le_nat_alt)
  then have "unat (ucast (n4_prefix_len (subnet l)) :: u8) \<le> 32"
    unfolding unsigned_ucast_eq by (rule le_trans [OF take_bit_nat_less_eq_self])
  then show "cidr_ok (v4_allowed l)" by (simp add: cidr_ok_def v4_allowed_def word_le_nat_alt)
qed (simp add: addr_ok_def v4_allowed_def)

lemma wg_event_step:
  assumes kern: "wg_kernel_ok (wo_genl os) devs" and env: "wg_env_ok os devs"
    and net: "wn_mode net = Separate" "wn_dev net = Some dev" "wg_device_ok dev"
    and st: "devs s (wv_ifname dev) = Some st" "ws_private st = wa_private_key (wv_attrs dev)"
      "ws_port st = wa_listen_port (wv_attrs dev)"
    and l: "wg_lease_ok os net (ws_own st) key_of addr_of (ev_lease e)"
  shows "\<exists>s'. wg_handle_event os net e s = (s', Inr ()) \<and>
    devs s' = (devs s)(wv_ifname dev \<mapsto> peer_event key_of addr_of st e)"
proof -
  let ?l = "ev_lease e"
  obtain raw a es where data: "backend_data (attrs ?l) = Some raw" "rbind (wo_parse os raw) (wg_attrs_of (wo_type_error os)) = Inr a"
      "parse_key os (wl_public_key a) = Inr (key_of ?l)" "\<And>s. wo_resolve os (v4_endpoint net ?l a) s = Inr (addr_of ?l # es)"
    and lease: "backend_type (attrs ?l) = WG_BACKEND_TYPE" "enable_ipv4 ?l" "\<not> enable_ipv6 ?l"
      "n4_prefix_len (subnet ?l) \<le> 32" "ws_own st \<noteq> Some (key_of ?l)" "endpoint_ok (addr_of ?l)"
    using l unfolding wg_lease_ok_def by blast
  have fam: "family_attrs os True (backend_data (attrs ?l)) = Some a"
      "removed_attrs os wg_lease_attrs_default (backend_data (attrs ?l)) = Some a"
      "family_attrs os False raw6 = Some wg_lease_attrs_default" for raw6
    unfolding family_attrs_def removed_attrs_def data(1) option.case data(2) by (simp_all split: option.splits)
  show ?thesis
  proof (cases "ev_type e")
    case Added
    obtain s1 where 1: "add_peer os dev (v4_endpoint net ?l a) (wl_public_key a) [v4_allowed ?l] s = (s1, Inr ())"
        "devs s1 = (devs s)(wv_ifname dev \<mapsto> peer_event key_of addr_of st e)"
      using add_peer_applies [OF kern net(3) st(1) st(2) [symmetric] data(4) lease(6) data(3) v4_allowed_ok [OF lease(4)] lease(5)]
      by (auto simp: peer_event_def Let_def Added st(3) [symmetric])
    obtain s2 where 2: "add_config_route os (Some dev) True s1 = (s2, Inr ())" "devs s2 = devs s1"
      using add_config_route_frame [OF env] by blast
    have "wg_handle_event os net e s = (s2, Inr ())"
      using lease(1-3) net(1,2) 1(1) 2(1)
      by (simp add: wg_handle_event_def wg_handle_added_def Added fam added_separate_def try_add_peer_def then_do_def logged_def)
    with 1(2) 2(2) show ?thesis by auto
  next
    case Removed
    obtain s1 where 1: "remove_peer os dev (wl_public_key a) s = (s1, Inr ())"
        "devs s1 = (devs s)(wv_ifname dev \<mapsto> peer_event key_of addr_of st e)"
      using remove_peer_applies [OF kern net(3) st(1) data(3) lease(5)] by (auto simp: peer_event_def Let_def Removed)
    then show ?thesis
      using lease(1-3) net(1,2)
      by (simp add: wg_handle_event_def wg_handle_removed_def Removed fam then_do_def logged_def removed_v6_def)
  qed
qed

lemma peer_event_keeps [simp]:
  "ws_private (peer_event key_of addr_of st e) = ws_private st" "ws_own (peer_event key_of addr_of st e) = ws_own st"
  "ws_port (peer_event key_of addr_of st e) = ws_port st"
  by (simp_all add: peer_event_def Let_def split: event_type.splits)

text \<open>C22. In the mode \<open>separate\<close>, the peers of the device follow the IPv4 leases of the network: handling a batch
  of events always ends, and leaves in the kernel the peers that the abstract steps give, each with the endpoint
  its lease announces and serving its subnet; whether the routes could be set has no influence on them.\<close>

theorem wg_peers_follow_leases:
  assumes kern: "wg_kernel_ok (wo_genl os) devs" and env: "wg_env_ok os devs"
    and net: "wn_mode net = Separate" "wn_dev net = Some dev" "wg_device_ok dev"
    and st: "devs s (wv_ifname dev) = Some st" "ws_private st = wa_private_key (wv_attrs dev)"
      "ws_port st = wa_listen_port (wv_attrs dev)"
    and es: "list_all (\<lambda>e. wg_lease_ok os net (ws_own st) key_of addr_of (ev_lease e)) es"
  shows "\<exists>s'. wg_handle_subnet_events os net es s = (s', Inr ()) \<and>
    devs s' = (devs s)(wv_ifname dev \<mapsto> foldl (peer_event key_of addr_of) st es)"
  using st es
proof (induction es arbitrary: s st)
  case Nil
  then show ?case by (auto simp: fun_upd_idem)
next
  case (Cons e es)
  obtain s1 where 1: "wg_handle_event os net e s = (s1, Inr ())"
      "devs s1 = (devs s)(wv_ifname dev \<mapsto> peer_event key_of addr_of st e)"
    using wg_event_step [OF kern env net Cons.prems(1-3), of key_of addr_of e] Cons.prems(4) by auto
  let ?st = "peer_event key_of addr_of st e"
  have pre: "devs s1 (wv_ifname dev) = Some ?st" "ws_private ?st = wa_private_key (wv_attrs dev)"
      "ws_port ?st = wa_listen_port (wv_attrs dev)"
      "list_all (\<lambda>e. wg_lease_ok os net (ws_own ?st) key_of addr_of (ev_lease e)) es"
    using Cons.prems(2-4) by (simp_all add: 1(2))
  obtain s2 where "wg_handle_subnet_events os net es s1 = (s2, Inr ())"
      "devs s2 = (devs s1)(wv_ifname dev \<mapsto> foldl (peer_event key_of addr_of) ?st es)"
    using Cons.IH [OF pre] by blast
  with 1 show ?case by (simp add: then_do_def fun_eq_iff)
qed

text \<open>A kernel that knows the family as 28 without listing commands, so that the command to set is 2.\<close>

definition family_reply :: "u8 list" where
  "family_reply =
     [28, 0, 0, 0, 16, 0, 0, 0, 1, 0, 0, 0, 1, 0, 0, 0, 1, 2, 0, 0, 6, 0, 1, 0, 28, 0, 0, 0] @
     [20, 0, 0, 0, 2, 0, 0, 0, 1, 0, 0, 0, 1, 0, 0, 0, 0, 0, 0, 0]"

definition ack_reply :: "u8 list" where
  "ack_reply = [20, 0, 0, 0, 2, 0, 0, 0, 2, 0, 0, 0, 1, 0, 0, 0, 0, 0, 0, 0]"

type_synonym sample_world = "string \<rightharpoonup> wg_state"

definition sample_genl :: "sample_world genl_kernel" where
  "sample_genl =
     \<lparr>gk_socket = (\<lambda>s. (s, Inr 1)),
      gk_send = (\<lambda>msg s.
        if from_ne_bytes (take 2 (drop 4 msg)) = (0x10 :: u16) then (s, Inr [Inr family_reply])
        else case decode_device (drop 20 msg) of
            None \<Rightarrow> (s, Inl (RawOs 22))
          | Some cfg \<Rightarrow>
              (case s (wd_ifname cfg) of
                 None \<Rightarrow> (s, Inl (RawOs 19))
               | Some st \<Rightarrow> (s(wd_ifname cfg \<mapsto> apply_config cfg st), Inr [Inr ack_reply])))\<rparr>"

lemma request_message_parts:
  "take 2 (drop 4 (request_message port seq fam cmd flags as)) = to_ne_bytes 2 fam"
  "drop 20 (request_message port seq fam cmd flags as) = as"
  by (simp_all add: request_message_def Let_def)

lemma sample_genl_ok: "wg_kernel_ok sample_genl (\<lambda>s. s)"
proof -
  have fam: "collect_replies [Inr family_reply] [] = Ret (Inr [[1, 2, 0, 0, 6, 0, 1, 0, 28, 0, 0, 0]])"
      "parse_family_ops WG_GENL_NAME (drop 4 [1, 2, 0, 0, 6, 0, 1, 0, 28, 0, 0, 0]) = Some (Inr (28, 1, 2))"
    by code_simp+
  have ack: "collect_replies [Inr ack_reply] [] = Ret (Inr [])" by code_simp
  show ?thesis
    unfolding wg_kernel_ok_def
  proof (rule exI [of _ 28], rule exI [of _ 1], rule exI [of _ 2], intro conjI allI impI)
    show "\<exists>s1 port. gk_socket sample_genl s = (s1, Inr port) \<and> s1 = s" for s by (simp add: sample_genl_def)
    show "\<exists>s1 ds m. gk_send sample_genl (request_message port seq 0x10 3 (NLM_F_REQUEST OR NLM_F_ACK) (nla_str 2 WG_GENL_NAME)) s =
        (s1, Inr ds) \<and> s1 = s \<and> collect_replies ds [] = Ret (Inr [m]) \<and>
        parse_family_ops WG_GENL_NAME (drop 4 m) = Some (Inr (28, 1, 2))" for port seq s
      unfolding sample_genl_def using fam by (fastforce simp: request_message_parts from_to_le_bytes)
    fix port seq as cfg and s :: sample_world and st :: wg_state
    assume "decode_device as = Some cfg \<and> s (wd_ifname cfg) = Some st \<and>
      (wd_private_key cfg = None \<or> wd_private_key cfg = ws_private st) \<and>
      list_all (\<lambda>p. list_all cidr_ok (wp_allowed_ips p)) (wd_peers cfg)"
    then show "\<exists>s1 ds. gk_send sample_genl (request_message port seq 28 2 (NLM_F_REQUEST OR NLM_F_ACK) as) s = (s1, Inr ds) \<and>
        collect_replies ds [] = Ret (Inr []) \<and> s1 = s(wd_ifname cfg \<mapsto> apply_config cfg st)"
      using ack by (simp add: sample_genl_def request_message_parts from_to_le_bytes)
  qed
qed

definition sample_links :: "'s link_kernel" where
  "sample_links =
     \<lparr>lk_netlink = (\<lambda>_. sample_netlink\<lparr>nl_link_by_name := (\<lambda>n. ([\<lparr>lm_index = 7, lm_attributes = [IfName n]\<rparr>], None)),
        nl_addrs := (\<lambda>_. ([], None))\<rparr>), lk_add = (\<lambda>_ s. (s, None)), lk_del = (\<lambda>_ s. (s, None)),
      lk_set_up = (\<lambda>_ s. (s, None)), lk_set_mtu = (\<lambda>_ _ s. (s, None)), lk_addr_answer = (\<lambda>_ _. None),
      lk_addr_apply = (\<lambda>_ s. s)\<rparr>"

text \<open>The world has a key that is the length of the text, and one address for every name.\<close>

definition sample_wg_os :: "sample_world wg_os" where
  "sample_wg_os =
     \<lparr>wo_links = sample_links, wo_genl = sample_genl, wo_route_replace = (\<lambda>_ s. (s, Inl ''no device'')),
      wo_key_file_var = None, wo_exists = (\<lambda>_ _. False), wo_read = (\<lambda>_ _. Inl []), wo_create_dir_all = (\<lambda>_ s. (s, Inr ())),
      wo_open_truncate = (\<lambda>_ _ s. (s, Inr ())), wo_write_all = (\<lambda>_ _ s. (s, Inr ())),
      wo_random = (\<lambda>s. (s, Inr (replicate 32 0))), wo_encode = (\<lambda>_. ''key''),
      wo_decode = (\<lambda>t. Inr (replicate 32 (of_nat (length t)))), wo_mul_base = (\<lambda>k. k),
      wo_resolve = (\<lambda>_ _. Inr [SockV4 (IP4 0xc0a80002) 51820]), wo_io_text = (\<lambda>_. []), wo_join = [],
      wo_spawn_removal = (\<lambda>_ _ s. s), wo_network_config = (\<lambda>s. (s, Inr config_default)),
      wo_parse = (\<lambda>t. Inr (JObject [(''PublicKey'', JString t), (''Port'', JPos 51820)])),
      wo_ser = (\<lambda>_. []), wo_type_error = (\<lambda>_ _. []),
      wo_acquire = (\<lambda>a s. (s, Inr (blank_lease\<lparr>attrs := a\<rparr>))), wo_cancelled = False\<rparr>"

definition sample_wg_device :: wg_device where
  "sample_wg_device =
     \<lparr>wv_attrs = \<lparr>wa_listen_port = 51820, wa_private_key = Some (replicate 32 9), wa_public_key = Some (replicate 32 8),
        wa_psk = None, wa_keepalive = Some 0, wa_name = ''flannel-wg'', wa_mtu = 1500\<rparr>,
      wv_ifindex = 7, wv_ifname = ''flannel-wg''\<rparr>"

definition sample_wg_network :: wg_network where
  "sample_wg_network =
     \<lparr>wn_ei = sample_ei, wn_dev = Some sample_wg_device, wn_v6_dev = None, wn_mode = Separate, wn_lease = blank_lease,
      wn_mtu = 1500\<rparr>"

definition sample_wg_state :: wg_state where
  "sample_wg_state =
     \<lparr>ws_private = Some (replicate 32 9), ws_own = Some (replicate 32 8), ws_port = 51820, ws_peers = Map.empty,
      ws_routes = Map.empty\<rparr>"

definition wg_lease :: "u32 \<Rightarrow> string \<Rightarrow> lease" where
  "wg_lease ip key =
     blank_lease\<lparr>enable_ipv4 := True, enable_ipv6 := False, subnet := \<lparr>n4_ip = IP4 ip, n4_prefix_len = 24\<rparr>,
       attrs := lease_attrs_default\<lparr>public_ip := IP4 0xc0a80002, backend_type := ''wireguard'', backend_data := Some key\<rparr>\<rparr>"

text \<open>Two nodes join and the first leaves.\<close>

theorem wg_peers_follow_leases_witness:
  "\<exists>s'. wg_handle_subnet_events sample_wg_os sample_wg_network
      [\<lparr>ev_type = Added, ev_lease = wg_lease 0x0af40100 ''a''\<rparr>, \<lparr>ev_type = Added, ev_lease = wg_lease 0x0af40200 ''bc''\<rparr>,
       \<lparr>ev_type = Removed, ev_lease = wg_lease 0x0af40100 ''a''\<rparr>] [''flannel-wg'' \<mapsto> sample_wg_state] = (s', Inr ()) \<and>
    map_option ws_peers (s' ''flannel-wg'') = Some [replicate 32 2 \<mapsto> Some (SockV4 (IP4 0xc0a80002) 51820)] \<and>
    map_option ws_routes (s' ''flannel-wg'') = Some [\<lparr>wa_ip = V4 (IP4 0x0af40200), wa_cidr = 24\<rparr> \<mapsto> replicate 32 2]"
proof -
  define es where "es = [\<lparr>ev_type = Added, ev_lease = wg_lease 0x0af40100 ''a''\<rparr>,
    \<lparr>ev_type = Added, ev_lease = wg_lease 0x0af40200 ''bc''\<rparr>, \<lparr>ev_type = Removed, ev_lease = wg_lease 0x0af40100 ''a''\<rparr>]"
  define key_of :: "lease \<Rightarrow> key" where "key_of l = replicate 32 (of_nat (length (the (backend_data (attrs l)))))" for l
  define addr_of :: "lease \<Rightarrow> socket_addr" where "addr_of l = SockV4 (IP4 0xc0a80002) 51820" for l
  have lease: "wg_lease_ok sample_wg_os sample_wg_network (ws_own sample_wg_state) key_of addr_of (wg_lease ip k)"
    if "length k \<in> {1, 2}" for ip k
    using that
    by (auto simp: wg_lease_ok_def wg_lease_def WG_BACKEND_TYPE_def key_of_def addr_of_def endpoint_ok_def sample_wg_os_def
        sample_wg_state_def parse_key_def wg_attrs_of_def struct_members_def de_required_def de_string_def de_u16_def
        lease_attrs_default_def)
  have env: "wg_env_ok sample_wg_os (\<lambda>s. s)"
    by (simp add: wg_env_ok_def sample_wg_os_def sample_links_def)
  have "wg_kernel_ok (wo_genl sample_wg_os) (\<lambda>s. s)" using sample_genl_ok by (simp add: sample_wg_os_def)
  from wg_peers_follow_leases [OF this env, of sample_wg_network sample_wg_device "[''flannel-wg'' \<mapsto> sample_wg_state]"
      sample_wg_state key_of addr_of es] lease
  have "\<exists>s'. wg_handle_subnet_events sample_wg_os sample_wg_network es [''flannel-wg'' \<mapsto> sample_wg_state] = (s', Inr ()) \<and>
      s' = [''flannel-wg'' \<mapsto> foldl (peer_event key_of addr_of) sample_wg_state es]"
    by (simp add: sample_wg_network_def sample_wg_device_def sample_wg_state_def wg_device_ok_def wg_key_ok_def es_def)
  then obtain s' where s': "wg_handle_subnet_events sample_wg_os sample_wg_network es [''flannel-wg'' \<mapsto> sample_wg_state] = (s', Inr ())"
      "s' = [''flannel-wg'' \<mapsto> foldl (peer_event key_of addr_of) sample_wg_state es]" by blast
  have net: "allowed_net \<lparr>wa_ip = V4 (IP4 0x0af40200), wa_cidr = 24\<rparr> = \<lparr>wa_ip = V4 (IP4 0x0af40200), wa_cidr = 24\<rparr>"
      "allowed_net \<lparr>wa_ip = V4 (IP4 0x0af40100), wa_cidr = 24\<rparr> = \<lparr>wa_ip = V4 (IP4 0x0af40100), wa_cidr = 24\<rparr>"
    by code_simp+
  have ne: "replicate 32 (1 :: u8) \<noteq> replicate 32 2" by (simp add: numeral_eq_Suc)
  have "foldl (peer_event key_of addr_of) sample_wg_state es = sample_wg_state\<lparr>
      ws_peers := [replicate 32 2 \<mapsto> Some (SockV4 (IP4 0xc0a80002) 51820)],
      ws_routes := [\<lparr>wa_ip = V4 (IP4 0x0af40200), wa_cidr = 24\<rparr> \<mapsto> replicate 32 2]\<rparr>"
    using ne by (auto simp: es_def peer_event_def Let_def key_of_def addr_of_def wg_lease_def lease_attrs_default_def sample_wg_state_def
        v4_allowed_def net drop_routes_def fun_eq_iff)
  with s' show ?thesis unfolding es_def by auto
qed

section \<open>The key of the node\<close>

text \<open>What is documented of base64, the random generator and the file system: a key is decoded from its text, 32
  bytes are filled, and a file that was opened for writing and written has that content.\<close>

definition key_env_ok :: "'s wg_os \<Rightarrow> bool" where
  "key_env_ok os \<longleftrightarrow>
     (\<forall>k. length k = 32 \<longrightarrow> wo_decode os (wo_encode os k) = Inr k) \<and>
     (\<forall>s s1 b. wo_random os s = (s1, Inr b) \<longrightarrow> length b = 32) \<and>
     (\<forall>p c s s1 s2. wo_open_truncate os p 256 s = (s1, Inr ()) \<and> wo_write_all os p c s1 = (s2, Inr ()) \<longrightarrow>
        wo_exists os p s2 \<and> wo_read os p s2 = Inr c)"

lemma length_clamp [simp]: "length (clamp b) = length b"
  by (simp add: clamp_def Let_def)

text \<open>A generated key is clamped.\<close>

lemma clamp_bits:
  assumes "length b = 32"
  shows "clamp b ! 0 AND 7 = 0" "clamp b ! 31 AND 0xc0 = 0x40"
proof -
  have "(x AND 248) AND 7 = (0 :: u8)" for x by (simp add: and.assoc)
  moreover have "((x AND 127) OR 64) AND 0xc0 = (0x40 :: u8)" for x
    by (simp add: bit.conj_disj_distrib2 and.assoc)
  ultimately show "clamp b ! 0 AND 7 = 0" "clamp b ! 31 AND 0xc0 = 0x40"
    using assms by (simp_all add: clamp_def Let_def)
qed

lemmas step_Inr = then_do_eq_Inr on_err_eq_Inr fails_def lift_result_def

lemma setup_psk_Inr:
  "setup_psk os psk a s = (s1, Inr a1) \<longleftrightarrow>
     s1 = s \<and> (if psk = [] then a1 = a else \<exists>k. parse_key os psk = Inr k \<and> a1 = a\<lparr>wa_psk := Some k\<rparr>)"
  by (auto simp: setup_psk_def step_Inr)

lemma load_keys_Inr:
  "load_keys os a s = (s1, Inr a1) \<longleftrightarrow>
     s1 = s \<and> (\<exists>text k. wo_read os (key_file os) s = Inr text \<and> parse_key os text = Inr k \<and> a1 = with_keys os k a)"
  by (auto simp: load_keys_def step_Inr)

lemma new_keys_Inr:
  assumes env: "key_env_ok os" and new: "new_keys os a s = (s1, Inr a1)"
  shows "\<exists>k. length k = 32 \<and> wo_exists os (key_file os) s1 \<and> wo_read os (key_file os) s1 = Inr (wo_encode os k) \<and>
    a1 = with_keys os k a"
proof -
  obtain r b s0 s2 s3 where "wo_random os s = (r, Inr b)" "wo_open_truncate os (key_file os) 256 s2 = (s3, Inr ())"
      "wo_write_all os (key_file os) (wo_encode os (clamp b)) s3 = (s1, Inr ())" "a1 = with_keys os (clamp b) a"
    using new by (auto simp: new_keys_def step_Inr generate_private_key_def write_private_key_def)
  with env show ?thesis unfolding key_env_ok_def by (intro exI [of _ "clamp b"]) auto
qed

text \<open>The private key is 32 bytes long and its text is in the key file, whether it was made or read.\<close>

lemma setup_keys_stored:
  assumes env: "key_env_ok os" and run: "setup_keys os a psk s = (s1, Inr a1)"
  shows "\<exists>text k. wo_exists os (key_file os) s1 \<and> wo_read os (key_file os) s1 = Inr text \<and> parse_key os text = Inr k \<and>
    setup_psk os psk (with_keys os k a) s1 = (s1, Inr a1)"
proof -
  obtain s0 a0 where keys: "(if wo_exists os (key_file os) s then load_keys os a else new_keys os a) s = (s0, Inr a0)"
    and psk: "setup_psk os psk a0 s0 = (s1, Inr a1)"
    using run by (auto simp: setup_keys_def then_do_eq_Inr)
  have same: "s1 = s0" using psk by (simp add: setup_psk_Inr)
  show ?thesis
  proof (cases "wo_exists os (key_file os) s")
    case True
    with keys psk same show ?thesis by (auto simp: load_keys_Inr)
  next
    case False
    with keys new_keys_Inr [OF env, of a s s0 a0] obtain k where k: "length k = 32" "wo_exists os (key_file os) s0"
        "wo_read os (key_file os) s0 = Inr (wo_encode os k)" "a0 = with_keys os k a" by auto
    have "parse_key os (wo_encode os k) = Inr k" using env k(1) by (simp add: key_env_ok_def parse_key_def)
    with k psk same show ?thesis by auto
  qed
qed

text \<open>A node keeps its identity over restarts: once \<open>setup_keys\<close> has succeeded, a later run that finds the key
  file unchanged succeeds with the same preshared key text, makes no change, and yields the same private and
  public key, whatever the attributes of the device.\<close>

theorem wg_identity_kept:
  assumes env: "key_env_ok os" and first: "setup_keys os a psk s = (s1, Inr a1)"
    and kept: "wo_exists os (key_file os) s2 = wo_exists os (key_file os) s1" "wo_read os (key_file os) s2 = wo_read os (key_file os) s1"
  shows "\<exists>b2. setup_keys os b psk s2 = (s2, Inr b2) \<and> wa_private_key b2 = wa_private_key a1 \<and>
    wa_public_key b2 = wa_public_key a1 \<and> wa_private_key a1 \<noteq> None"
proof -
  obtain data k where st: "wo_exists os (key_file os) s1" "wo_read os (key_file os) s1 = Inr data" "parse_key os data = Inr k"
      "setup_psk os psk (with_keys os k a) s1 = (s1, Inr a1)"
    using setup_keys_stored [OF env first] by blast
  obtain b2 where b2: "setup_psk os psk (with_keys os k b) s2 = (s2, Inr b2)"
      "wa_private_key b2 = Some k" "wa_public_key b2 = Some (public_key os k)"
    using st(4) by (auto simp: setup_psk_Inr with_keys_def split: if_splits)
  have "load_keys os b s2 = (s2, Inr (with_keys os k b))" using st kept by (simp add: load_keys_Inr)
  with b2(1) st(1) kept(1) have "setup_keys os b psk s2 = (s2, Inr b2)" by (simp add: setup_keys_def then_do_def)
  moreover have "wa_private_key a1 = Some k" "wa_public_key a1 = Some (public_key os k)"
    using st(4) by (auto simp: setup_psk_Inr with_keys_def split: if_splits)
  ultimately show ?thesis using b2 by auto
qed

text \<open>A world with one file and a kernel that accepts every configuration.\<close>

definition quiet_genl :: "'s genl_kernel" where
  "quiet_genl =
     \<lparr>gk_socket = (\<lambda>s. (s, Inr 1)),
      gk_send = (\<lambda>msg s. (s, Inr [Inr (if from_ne_bytes (take 2 (drop 4 msg)) = (0x10 :: u16) then family_reply else ack_reply)]))\<rparr>"

definition file_world :: "string option wg_os" where
  "file_world =
     \<lparr>wo_links = sample_links, wo_genl = quiet_genl,
      wo_route_replace = (\<lambda>_ s. (s, Inr ())), wo_key_file_var = None, wo_exists = (\<lambda>_ s. s \<noteq> None),
      wo_read = (\<lambda>_ s. case s of None \<Rightarrow> Inl ''No such file or directory'' | Some c \<Rightarrow> Inr c),
      wo_create_dir_all = (\<lambda>_ s. (s, Inr ())), wo_open_truncate = (\<lambda>_ _ s. (Some [], Inr ())),
      wo_write_all = (\<lambda>_ c s. (Some c, Inr ())), wo_random = (\<lambda>s. (s, Inr (replicate 32 0xff))), wo_encode = bytes_text,
      wo_decode = (\<lambda>t. Inr (text_bytes t)), wo_mul_base = rev,
      wo_resolve = (\<lambda>_ _. Inl []), wo_io_text = (\<lambda>_. []), wo_join = [], wo_spawn_removal = (\<lambda>_ _ s. s),
      wo_network_config = (\<lambda>s. (s, Inr config_default)), wo_parse = (\<lambda>_. Inr (JObject [(''Mode'', JString ''auto'')])),
      wo_ser = (\<lambda>_. []), wo_type_error = (\<lambda>_ _. []),
      wo_acquire = (\<lambda>a s. (s, Inr (blank_lease\<lparr>enable_ipv4 := True, enable_ipv6 := True,
        subnet := \<lparr>n4_ip = IP4 0x0af40100, n4_prefix_len = 24\<rparr>, ipv6_subnet := \<lparr>n6_ip = IP6 (replicate 16 0x20), n6_prefix_len = 64\<rparr>,
        attrs := a\<rparr>))), wo_cancelled = False\<rparr>"

lemma text_bytes_bytes_text [simp]: "text_bytes (bytes_text bs) = bs"
proof -
  have "(of_nat (of_char (char_of (unat b) :: char)) :: u8) = b" for b :: u8
  proof -
    have "unat b < 256" using unsigned_less [of b, where ?'a = nat] by simp
    then show ?thesis by simp
  qed
  then show ?thesis by (simp add: text_bytes_def bytes_text_def comp_def)
qed

theorem wg_identity_kept_witness:
  "key_env_ok file_world \<and>
   (\<exists>s1 a1 b2. setup_keys file_world (wv_attrs sample_wg_device) [] None = (s1, Inr a1) \<and>
      setup_keys file_world (wv_attrs sample_wg_device) [] s1 = (s1, Inr b2) \<and> wa_private_key b2 = wa_private_key a1)"
proof -
  have env: "key_env_ok file_world" by (simp add: key_env_ok_def file_world_def)
  have sel: "wo_exists file_world p s = (s \<noteq> None)" "wo_random file_world s = (s, Inr (replicate 32 0xff))"
      "wo_create_dir_all file_world p s = (s, Inr ())" "wo_open_truncate file_world p m s = (Some [], Inr ())"
      "wo_write_all file_world p c s = (Some c, Inr ())" for p m c s
    by (simp_all add: file_world_def)
  have "write_private_key file_world p c s = (Some c, Inr ())" for p c s
    by (simp add: write_private_key_def then_do_def sel)
  then obtain s1 a1 where "setup_keys file_world (wv_attrs sample_wg_device) [] None = (s1, Inr a1)"
    by (simp add: setup_keys_def new_keys_def generate_private_key_def setup_psk_def then_do_def fails_def on_err_def sel)
  with env wg_identity_kept [OF env this refl refl, of "wv_attrs sample_wg_device"] show ?thesis by blast
qed

section \<open>What a node announces\<close>

lemma create_wg_dev_port:
  assumes "create_wg_dev os name psk keepalive listen_port mtu s = (s', Inr d)"
  shows "wa_listen_port (wv_attrs d) = ucast listen_port"
  using assms
  by (auto simp: create_wg_dev_def new_wg_device_def step_Inr setup_keys_def setup_psk_Inr load_keys_Inr new_keys_def
      with_keys_def split: if_splits)

lemma create_devices_Inr:
  assumes "create_devices os config cfg mode s = (s', Inr (d, d6, key))"
  shows "mode = Separate \<longrightarrow>
      (cfg_enable_ipv4 config \<longrightarrow> (\<exists>x. d = Some x \<and> wa_listen_port (wv_attrs x) = ucast (wc_listen_port cfg))) \<and>
      (cfg_enable_ipv6 config \<longrightarrow> (\<exists>x. d6 = Some x \<and> wa_listen_port (wv_attrs x) = ucast (wc_listen_port_v6 cfg)))"
    and "mode \<noteq> Separate \<longrightarrow>
      d6 = None \<and> (\<exists>x. d = Some x \<and> wa_listen_port (wv_attrs x) = ucast (wc_listen_port cfg) \<and> key = public_key_of os x)"
  using assms
  by (auto simp: create_devices_def create_if_def Let_def then_do_eq_Inr dest: create_wg_dev_port split: if_splits)

lemma wg_register_network_Inr:
  assumes "wg_register_network os ei config s = (s', Inr net)"
  obtains ext_mtu cfg s1 key s2 s3 where "get_link_mtu (lk_netlink (wo_links os) s) (ei_iface_index ei) = Inr ext_mtu"
    "parse_wg_config (wo_parse os) (cfg_backend config) ext_mtu = Inr cfg" "wc_mode cfg = Some (wn_mode net)"
    "create_devices os config cfg (wn_mode net) s = (s1, Inr (wn_dev net, wn_v6_dev net, key))"
    "wo_acquire os (wg_subnet_attrs (wo_ser os) (ei_ext_addr ei) (ei_ext_v6_addr ei) (cfg_enable_ipv4 config)
       (cfg_enable_ipv6 config) key (wc_listen_port cfg) (wc_listen_port_v6 cfg)) s1 = (s2, Inr (wn_lease net))"
    "configure_v4_part os config (wn_dev net) (wn_lease net) s2 = (s3, Inr ())"
    "configure_v6_part os config (wn_mode net) (wn_dev net) (wn_v6_dev net) (wn_lease net) s3 = (s', Inr ())"
proof -
  obtain ext_mtu cfg where 1: "get_link_mtu (lk_netlink (wo_links os) s) (ei_iface_index ei) = Inr ext_mtu"
      "parse_wg_config (wo_parse os) (cfg_backend config) ext_mtu = Inr cfg"
    and 2: "(case wc_mode cfg of
       None \<Rightarrow> failing ''no valid Mode configured''
     | Some mode \<Rightarrow>
         then_do (create_devices os config cfg mode) (\<lambda>(dev, v6_dev, key).
         then_do (wg_acquire os (wg_subnet_attrs (wo_ser os) (ei_ext_addr ei) (ei_ext_v6_addr ei) (cfg_enable_ipv4 config)
           (cfg_enable_ipv6 config) key (wc_listen_port cfg) (wc_listen_port_v6 cfg))) (\<lambda>l.
         then_do (configure_v4_part os config dev l) (\<lambda>_.
         then_do (configure_v6_part os config mode dev v6_dev l) (\<lambda>_.
         give \<lparr>wn_ei = ei, wn_dev = dev, wn_v6_dev = v6_dev, wn_mode = mode, wn_lease = l, wn_mtu = wc_mtu cfg\<rparr>))))) s = (s', Inr net)"
    using assms unfolding wg_register_network_def
    by (auto simp: step_Inr lift_err_def map_err_def split: sum.splits)
  obtain mode where mode: "wc_mode cfg = Some mode" using 2 by (cases "wc_mode cfg") (auto simp: failing_def lift_result_def)
  obtain s1 dev v6_dev key s2 l s3 where 3: "create_devices os config cfg mode s = (s1, Inr (dev, v6_dev, key))"
      "wo_acquire os (wg_subnet_attrs (wo_ser os) (ei_ext_addr ei) (ei_ext_v6_addr ei) (cfg_enable_ipv4 config)
         (cfg_enable_ipv6 config) key (wc_listen_port cfg) (wc_listen_port_v6 cfg)) s1 = (s2, Inr l)"
      "configure_v4_part os config dev l s2 = (s3, Inr ())" "configure_v6_part os config mode dev v6_dev l s3 = (s', Inr ())"
      "net = \<lparr>wn_ei = ei, wn_dev = dev, wn_v6_dev = v6_dev, wn_mode = mode, wn_lease = l, wn_mtu = wc_mtu cfg\<rparr>"
    using 2 by (auto simp: mode then_do_eq_Inr wg_acquire_def on_err_eq_Inr)
  show thesis by (rule that [OF 1]) (use mode 3 in simp_all)
qed

text \<open>The ports a node announces, when its registration succeeds. In the mode \<open>separate\<close> each enabled family
  announces the port its own device listens on. In the other modes one device carries both families: it listens
  on \<open>ListenPort\<close>, but the data for IPv6 announce \<open>ListenPortV6\<close>, 51821 unless configured, where nothing
  listens.\<close>

theorem wg_announced_ports:
  assumes "wg_register_network os ei config s = (s', Inr net)"
  shows "\<exists>ext_mtu cfg key a s1 s2. get_link_mtu (lk_netlink (wo_links os) s) (ei_iface_index ei) = Inr ext_mtu \<and>
    parse_wg_config (wo_parse os) (cfg_backend config) ext_mtu = Inr cfg \<and>
    wo_acquire os a s1 = (s2, Inr (wn_lease net)) \<and> backend_type a = ''wireguard'' \<and>
    (cfg_enable_ipv4 config \<longrightarrow> (\<exists>d. wn_dev net = Some d \<and>
       backend_data a = Some (wg_attrs_text (wo_ser os) \<lparr>wl_public_key = key, wl_port = wa_listen_port (wv_attrs d)\<rparr>))) \<and>
    (cfg_enable_ipv6 config \<longrightarrow>
       (if wn_mode net = Separate then \<exists>d. wn_v6_dev net = Some d \<and>
          backend_v6_data a = Some (wg_attrs_text (wo_ser os) \<lparr>wl_public_key = key, wl_port = wa_listen_port (wv_attrs d)\<rparr>)
        else \<exists>d. wn_v6_dev net = None \<and> wn_dev net = Some d \<and> wa_listen_port (wv_attrs d) = ucast (wc_listen_port cfg) \<and>
          backend_v6_data a = Some (wg_attrs_text (wo_ser os) \<lparr>wl_public_key = key, wl_port = ucast (wc_listen_port_v6 cfg)\<rparr>)))"
proof -
  obtain ext_mtu cfg s1 key s2 where conf: "get_link_mtu (lk_netlink (wo_links os) s) (ei_iface_index ei) = Inr ext_mtu"
      "parse_wg_config (wo_parse os) (cfg_backend config) ext_mtu = Inr cfg"
    and dev: "create_devices os config cfg (wn_mode net) s = (s1, Inr (wn_dev net, wn_v6_dev net, key))"
    and acq: "wo_acquire os (wg_subnet_attrs (wo_ser os) (ei_ext_addr ei) (ei_ext_v6_addr ei) (cfg_enable_ipv4 config)
       (cfg_enable_ipv6 config) key (wc_listen_port cfg) (wc_listen_port_v6 cfg)) s1 = (s2, Inr (wn_lease net))"
    using wg_register_network_Inr [OF assms] by metis
  let ?a = "wg_subnet_attrs (wo_ser os) (ei_ext_addr ei) (ei_ext_v6_addr ei) (cfg_enable_ipv4 config)
     (cfg_enable_ipv6 config) key (wc_listen_port cfg) (wc_listen_port_v6 cfg)"
  have a: "backend_type ?a = ''wireguard''"
      "cfg_enable_ipv4 config \<Longrightarrow>
         backend_data ?a = Some (wg_attrs_text (wo_ser os) \<lparr>wl_public_key = key, wl_port = ucast (wc_listen_port cfg)\<rparr>)"
      "cfg_enable_ipv6 config \<Longrightarrow>
         backend_v6_data ?a = Some (wg_attrs_text (wo_ser os) \<lparr>wl_public_key = key, wl_port = ucast (wc_listen_port_v6 cfg)\<rparr>)"
    by (simp_all add: wg_subnet_attrs_def Let_def WG_BACKEND_TYPE_def split: option.splits ip_addr.splits)
  show ?thesis
    by (rule exI [of _ ext_mtu], rule exI [of _ cfg], rule exI [of _ key], rule exI [of _ ?a], rule exI [of _ s1],
        rule exI [of _ s2]) (use conf acq a create_devices_Inr [OF dev] in auto)
qed

lemma quiet_configure:
  fixes s :: 's
  shows "configure_device quiet_genl cfg s = (s, Ret (Inr ()))"
proof -
  have fam: "collect_replies [Inr family_reply] [] = Ret (Inr [[1, 2, 0, 0, 6, 0, 1, 0, 28, 0, 0, 0]])"
      "parse_family_ops WG_GENL_NAME (drop 4 [1, 2, 0, 0, 6, 0, 1, 0, 28, 0, 0, 0]) = Some (Inr (28, 1, 2))"
      "collect_replies [Inr ack_reply] [] = Ret (Inr [])"
    by code_simp+
  have send: "gk_send quiet_genl (request_message port seq f c fl as) s =
      (s, Inr [Inr (if f = 0x10 then family_reply else ack_reply)])" "gk_socket quiet_genl s = (s, Inr 1)"
    for port seq f c fl as and s :: 's
    by (simp_all add: quiet_genl_def request_message_parts from_to_le_bytes)
  have "resolve_family_ops quiet_genl port seq WG_GENL_NAME s = (s, Ret (Inr (28, 1, 2)))" for port seq and s :: 's
    using fam(1,2) by (simp add: resolve_family_ops_def genl_request_def send del: collect_replies.simps)
  then show ?thesis using fam(3) by (simp add: configure_device_def genl_call_def send genl_request_def del: collect_replies.simps)
qed

definition dual_config :: config where
  "dual_config = config_default\<lparr>cfg_enable_ipv4 := True, cfg_enable_ipv6 := True, cfg_backend := Some ''{}''\<rparr>"

lemma file_world_sel [simp]:
  "wo_exists file_world p s \<longleftrightarrow> s \<noteq> None" "wo_random file_world s = (s, Inr (replicate 32 0xff))"
  "wo_create_dir_all file_world p s = (s, Inr ())" "wo_open_truncate file_world p m s = (Some [], Inr ())"
  "wo_write_all file_world p c s = (Some c, Inr ())" "wo_links file_world = sample_links" "wo_genl file_world = quiet_genl"
  "wo_route_replace file_world r s = (s, Inr ())" "wo_spawn_removal file_world n i s = s"
  by (simp_all add: file_world_def)

lemma file_world_create:
  "\<exists>d. create_wg_dev file_world name [] k port mtu None = (Some (bytes_text (clamp (replicate 32 0xff))), Inr d)"
proof -
  have "write_private_key file_world p c s = (Some c, Inr ())" for p c s by (simp add: write_private_key_def then_do_def)
  moreover have "wo_encode file_world = bytes_text" by (simp add: file_world_def)
  moreover have "ensure_wg_link file_world a s = (s, Inr 7)" for a s
    by (simp add: ensure_wg_link_def then_do_def sample_links_def prefixed_def on_err_def link_named_def lift_err_def map_err_def
        lift_result_def get_interface_by_name_def first_of_dump_def net_iface_of_def)
  ultimately show ?thesis
    by (simp add: create_wg_dev_def setup_keys_def new_keys_def generate_private_key_def setup_psk_def then_do_def fails_def
        on_err_def new_wg_device_def configure_blocking_def quiet_configure)
qed

lemma file_world_route: "up_and_add_route file_world dev msg dst s = (s, Inr ())"
  by (simp add: up_and_add_route_def then_do_def wg_set_link_up_def link_fails_def link_step_def on_err_def sample_links_def
      prefixed_def wg_add_route_def fails_def)

lemma file_world_configure:
  "wg_configure file_world dev (IP4 0x0af40100) ip4net_default s = (s, Inr ())"
  "wg_configure_v6 file_world dev (IP6 (replicate 16 0x20)) ip6net_default s = (s, Inr ())"
proof -
  let ?nl = "sample_netlink\<lparr>nl_link_by_name := (\<lambda>n. ([\<lparr>lm_index = 7, lm_attributes = [IfName n]\<rparr>], None)),
    nl_addrs := (\<lambda>_. ([], None))\<rparr>"
  have "snd (ensure_v4_address_on_link ?nl (\<lambda>_. None) \<lparr>n4_ip = IP4 0x0af40100, n4_prefix_len = 32\<rparr> ip4net_default i) = Inr ()"
      "snd (ensure_v6_address_on_link ?nl (\<lambda>_. None) \<lparr>n6_ip = IP6 (replicate 16 0x20), n6_prefix_len = 128\<rparr> ip6net_default i) = Inr ()" for i
    by (simp_all add: ensure_v4_address_on_link_def ensure_v6_address_on_link_def name_of_def link_name_by_index_def first_of_dump_def
        sample_netlink_def list_iface_addrs_def collect_dump_def Let_def)
  moreover have "addr_step file_world f s = (s, map_err Fail (snd (f s)))" for f s
    by (simp add: addr_step_def sample_links_def split_beta)
  ultimately show "wg_configure file_world dev (IP4 0x0af40100) ip4net_default s = (s, Inr ())"
    "wg_configure_v6 file_world dev (IP6 (replicate 16 0x20)) ip6net_default s = (s, Inr ())"
    by (simp_all add: wg_configure_def wg_configure_v6_def then_do_def prefixed_def on_err_def sample_links_def
        map_err_def file_world_route)
qed

lemma file_world_config:
  "parse_wg_config (wo_parse file_world) (cfg_backend dual_config) m = Inr ((wg_config_default m)\<lparr>wc_mode := Some Auto\<rparr>)"
  by (simp add: parse_wg_config_def file_world_def dual_config_def wg_match_field_def WG_FIELDS_def wg_set_field_def
      wg_string_field_def wg_config_default_def parse_mode_def)

lemma file_world_registers:
  "\<exists>s' net. wg_register_network file_world sample_ei dual_config None = (s', Inr net) \<and> wn_mode net = Auto"
proof -
  obtain m where m: "get_link_mtu (lk_netlink sample_links (None :: string option)) (ei_iface_index sample_ei) = Inr m"
    by (simp add: get_link_mtu_def sample_links_def sample_netlink_def first_of_dump_def)
  let ?cfg = "(wg_config_default m)\<lparr>wc_mode := Some Auto\<rparr>"
  obtain s1 d where dev: "create_wg_dev file_world ''flannel-wg'' [] 0 51820 m None = (s1, Inr d)"
    using file_world_create by blast
  have devs: "create_devices file_world dual_config ?cfg Auto None = (s1, Inr (Some d, None, public_key_of file_world d))"
    using dev by (simp add: create_devices_def then_do_def wg_config_default_def)
  have acq: "\<exists>l. wg_acquire file_world a s1 = (s1, Inr l) \<and> subnet l = \<lparr>n4_ip = IP4 0x0af40100, n4_prefix_len = 24\<rparr> \<and>
      ipv6_subnet l = \<lparr>n6_ip = IP6 (replicate 16 0x20), n6_prefix_len = 64\<rparr>" for a
    by (simp add: wg_acquire_def on_err_def file_world_def)
  let ?a = "wg_subnet_attrs (wo_ser file_world) (ei_ext_addr sample_ei) (ei_ext_v6_addr sample_ei) (cfg_enable_ipv4 dual_config)
     (cfg_enable_ipv6 dual_config) (public_key_of file_world d) (wc_listen_port ?cfg) (wc_listen_port_v6 ?cfg)"
  obtain l where l: "wg_acquire file_world ?a s1 = (s1, Inr l)" "subnet l = \<lparr>n4_ip = IP4 0x0af40100, n4_prefix_len = 24\<rparr>"
      "ipv6_subnet l = \<lparr>n6_ip = IP6 (replicate 16 0x20), n6_prefix_len = 64\<rparr>" using acq by blast
  have parts: "configure_v4_part file_world dual_config (Some d) l s1 = (s1, Inr ())"
      "configure_v6_part file_world dual_config Auto (Some d) None l s1 = (s1, Inr ())"
    by (simp_all add: configure_v4_part_def configure_v6_part_def dual_config_def config_default_def l n4_empty_def n6_empty_def
        file_world_configure)
  show ?thesis
    using m devs l(1) parts unfolding wg_register_network_def
    by (simp add: then_do_def fails_def on_err_def lift_err_def lift_result_def map_err_def file_world_config)
qed

theorem wg_announced_ports_witness:
  "\<exists>s' net a s1 s2 key d. wg_register_network file_world sample_ei dual_config None = (s', Inr net) \<and> wn_mode net = Auto \<and>
     wo_acquire file_world a s1 = (s2, Inr (wn_lease net)) \<and> wn_dev net = Some d \<and> wa_listen_port (wv_attrs d) = 51820 \<and>
     backend_v6_data a = Some (wg_attrs_text (wo_ser file_world) \<lparr>wl_public_key = key, wl_port = 51821\<rparr>)"
proof -
  obtain s' net where net: "wg_register_network file_world sample_ei dual_config None = (s', Inr net)" "wn_mode net = Auto"
    using file_world_registers by blast
  have ports: "wc_listen_port cfg = 51820" "wc_listen_port_v6 cfg = 51821"
    if "parse_wg_config (wo_parse file_world) (cfg_backend dual_config) m = Inr cfg" for m cfg
    using that by (auto simp: file_world_config wg_config_default_def)
  have dual: "cfg_enable_ipv6 dual_config" by (simp add: dual_config_def)
  obtain ext_mtu cfg key a s1 s2 d where "parse_wg_config (wo_parse file_world) (cfg_backend dual_config) ext_mtu = Inr cfg"
      "wo_acquire file_world a s1 = (s2, Inr (wn_lease net))" "wn_dev net = Some d" "wa_listen_port (wv_attrs d) = ucast (wc_listen_port cfg)"
      "backend_v6_data a = Some (wg_attrs_text (wo_ser file_world) \<lparr>wl_public_key = key, wl_port = ucast (wc_listen_port_v6 cfg)\<rparr>)"
    using wg_announced_ports [OF net(1)] dual net(2) by auto
  moreover from this(1) have "ucast (wc_listen_port cfg) = (51820 :: u16)" "ucast (wc_listen_port_v6 cfg) = (51821 :: u16)"
    using ports by simp_all
  ultimately show ?thesis using net by (metis)
qed

section \<open>Routes in the shared modes\<close>

text \<open>In the modes with one device, a lease that is added sets the routes of both families, whether they are
  enabled or not. With IPv6 disabled the configured IPv6 network is \<open>::/0\<close>, so the last request replaces the IPv6
  default route by one through the WireGuard device.\<close>

theorem wg_shared_replaces_default_v6:
  assumes net: "wn_mode net \<noteq> Separate" "wn_dev net = Some dev"
    and l: "backend_type (attrs l) = ''wireguard''"
      "family_attrs os (enable_ipv4 l) (backend_data (attrs l)) = Some v4"
      "family_attrs os (enable_ipv6 l) (backend_v6_data (attrs l)) = Some v6"
    and peer: "\<And>endpoint key ips s. \<exists>s1. logged (add_peer os dev endpoint key ips) s = (s1, Inr ())"
    and conf: "\<And>s. \<exists>s1. wo_network_config os s = (s1, Inr netconf)" "cfg_ipv6_network netconf = ip6net_default"
    and links: "\<And>i s. \<exists>s1. lk_set_up (wo_links os) i s = (s1, None)" "\<And>m s. \<exists>s1. wo_route_replace os m s = (s1, Inr ())"
  shows "\<exists>s1 s2. wg_handle_added os net l s = (s2, Inr ()) \<and>
    wo_route_replace os (wg_route_v6 (wv_ifindex dev) ip6_default 0) s1 = (s2, Inr ())"
proof -
  have route: "\<exists>s1 s2. logged (up_and_add_route os dev msg dst) s = (s2, Inr ()) \<and> wo_route_replace os msg s1 = (s2, Inr ())"
    for msg dst s
  proof -
    obtain s1 where 1: "lk_set_up (wo_links os) (wv_ifindex dev) s = (s1, None)" using links(1) by blast
    obtain s2 where 2: "wo_route_replace os msg s1 = (s2, Inr ())" using links(2) by blast
    from 1 2 have "logged (up_and_add_route os dev msg dst) s = (s2, Inr ())"
      by (simp add: logged_def up_and_add_route_def then_do_def wg_set_link_up_def link_fails_def link_step_def on_err_def
          prefixed_def wg_add_route_def fails_def)
    with 2 show ?thesis by blast
  qed
  let ?mode = "if wn_mode net = Auto then select_mode (wn_ei net) (public_ip (attrs l)) (public_ipv6 (attrs l)) else wn_mode net"
  let ?endpoint = "if ?mode = Ipv6Mode then v6_endpoint net l v6 else v4_endpoint net l v4"
  let ?a = "if enable_ipv6 l then v6 else if enable_ipv4 l then v4 else wg_lease_attrs_default"
  let ?ips = "(if enable_ipv4 l then [v4_allowed l] else []) @ (if enable_ipv6 l then [v6_allowed l] else [])"
  obtain s1 where 1: "logged (add_peer os dev ?endpoint (wl_public_key ?a) ?ips) s = (s1, Inr ())" using peer by blast
  obtain s2 where 2: "wo_network_config os s1 = (s2, Inr netconf)" using conf(1) by blast
  obtain s3 where 3: "logged (add_v4_net_route os dev netconf) s2 = (s3, Inr ())"
    using route by (fastforce simp: add_v4_net_route_def add_net_route_def)
  obtain s4 s5 where 4: "logged (add_v6_net_route os dev netconf) s3 = (s5, Inr ())"
      "wo_route_replace os (wg_route_v6 (wv_ifindex dev) ip6_default 0) s4 = (s5, Inr ())"
    using route [of "wg_route_v6 (wv_ifindex dev) ip6_default 0" _ s3]
    by (force simp: add_v6_net_route_def add_net_route_def conf(2) ip6net_default_def)
  have "added_shared os net l v4 v6 s = (s5, Inr ())"
    unfolding added_shared_def Let_def net(2) try_add_peer_def option.case
    by (simp only: then_do_def with_network_config_def 1 2 3 4 prod.case sum.case)
  with net l have "wg_handle_added os net l s = (s5, Inr ())"
    by (simp add: wg_handle_added_def WG_BACKEND_TYPE_def)
  with 4(2) show ?thesis by blast
qed

definition quiet_os :: "sample_world wg_os" where
  "quiet_os = sample_wg_os\<lparr>wo_genl := quiet_genl, wo_route_replace := (\<lambda>_ s. (s, Inr ()))\<rparr>"

theorem wg_shared_replaces_default_v6_witness:
  "\<exists>s1 s2. wg_handle_added quiet_os (sample_wg_network\<lparr>wn_mode := Auto\<rparr>) (wg_lease 0x0af40100 ''a'') Map.empty = (s2, Inr ()) \<and>
     wo_route_replace quiet_os (wg_route_v6 7 ip6_default 0) s1 = (s2, Inr ())"
proof -
  let ?net = "sample_wg_network\<lparr>wn_mode := Auto\<rparr>" and ?l = "wg_lease 0x0af40100 ''a''"
  have peer: "\<exists>s1. logged (add_peer quiet_os sample_wg_device endpoint key ips) s = (s1, Inr ())" for endpoint key ips s
    by (simp add: logged_def add_peer_def then_do_def resolve_udp_addr_def quiet_os_def sample_wg_os_def fails_def on_err_def
        lift_result_def configure_blocking_def quiet_configure split: sum.splits)
  have conf: "\<exists>s1. wo_network_config quiet_os s = (s1, Inr config_default)" for s by (simp add: quiet_os_def sample_wg_os_def)
  have links: "\<exists>s1. lk_set_up (wo_links quiet_os) i s = (s1, None)" "\<exists>s1. wo_route_replace quiet_os m s = (s1, Inr ())" for i m s
    by (simp_all add: quiet_os_def sample_wg_os_def sample_links_def)
  have data: "\<exists>v4. family_attrs quiet_os (enable_ipv4 ?l) (backend_data (attrs ?l)) = Some v4"
      "\<exists>v6. family_attrs quiet_os (enable_ipv6 ?l) (backend_v6_data (attrs ?l)) = Some v6"
    by (auto simp: family_attrs_def wg_lease_def lease_attrs_default_def quiet_os_def sample_wg_os_def wg_attrs_of_def
        struct_members_def de_required_def de_string_def de_u16_def)
  then obtain v4 v6 where "family_attrs quiet_os (enable_ipv4 ?l) (backend_data (attrs ?l)) = Some v4"
      "family_attrs quiet_os (enable_ipv6 ?l) (backend_v6_data (attrs ?l)) = Some v6" by blast
  from wg_shared_replaces_default_v6 [OF _ _ _ this peer conf _ links, of ?net Map.empty]
  show ?thesis by (simp add: sample_wg_network_def sample_wg_device_def wg_lease_def config_default_def)
qed

end
