(* ===== verification/Flags.thy ===== *)
theory Flags
  imports Json World Iface
begin

text \<open>
  The command line of flanneld: the port of Go's \<open>flag\<close> package (\<open>flags.rs\<close>), the registered flags and the
  options read from them (\<open>flags_defs.rs\<close>). A panic (a flag defined twice, or read with another type) is
  \<open>None\<close>. The environment is a parameter, a function that is empty where a variable is not set. Texts are taken as
  ASCII where the source changes their case or quotes them.
\<close>

section \<open>Flags\<close>

datatype flag_error =
    UnknownFlag string
  | BadValue string string string
  | MissingValue string
  | BadSyntax string
  | Help

record env_error =
  ee_flag :: string
  ee_env_key :: string
  ee_value :: string
  ee_reason :: string

datatype kind = KBool | KInt | KStr | KSlice

datatype fvalue = VBool bool | VInt int | VStr string | VSlice "string list"

record flag =
  fl_name :: string
  fl_kind :: kind
  fl_help :: string
  fl_value :: fvalue
  fl_default :: fvalue
  fl_set_by_cli :: bool
  fl_set_by_env :: bool

record flag_set =
  fs_name :: string
  fs_flags :: "flag list"
  fs_remaining :: "string list"
  fs_tolerated_unknown :: "string list"

definition quoted :: "string \<Rightarrow> string" where
  "quoted s = [CHR 0x22] @ s @ [CHR 0x22]"

definition flag_error_text :: "flag_error \<Rightarrow> string" where
  "flag_error_text e =
     (case e of
        UnknownFlag n \<Rightarrow> ''flag provided but not defined: -'' @ n
      | BadValue n v r \<Rightarrow> ''invalid value '' @ quoted v @ '' for flag -'' @ n @ '': '' @ r
      | MissingValue n \<Rightarrow> ''flag needs an argument: -'' @ n
      | BadSyntax a \<Rightarrow> ''bad flag syntax: '' @ a
      | Help \<Rightarrow> ''flag: help requested'')"

definition flag_parse_bool :: "string \<Rightarrow> string + bool" where
  "flag_parse_bool s =
     (if s \<in> set [''1'', ''t'', ''T'', ''TRUE'', ''true'', ''True''] then Inr True
      else if s \<in> set [''0'', ''f'', ''F'', ''FALSE'', ''false'', ''False''] then Inr False
      else Inl (''strconv.ParseBool: parsing '' @ quoted s @ '': invalid syntax''))"

text \<open>\<open>i64::from_str_radix\<close>: a digit is read before the overflow of what was read so far is noticed.\<close>

datatype int_error = InvalidDigit | Overflow

definition in_i64 :: "int \<Rightarrow> bool" where
  "in_i64 i \<longleftrightarrow> - (2 ^ 63) \<le> i \<and> i < 2 ^ 63"

fun radix_loop :: "nat \<Rightarrow> bool \<Rightarrow> string \<Rightarrow> int \<Rightarrow> int_error + int" where
  "radix_loop radix neg [] acc = Inr acc"
| "radix_loop radix neg (c # cs) acc =
     (case to_digit radix c of
        None \<Rightarrow> Inl InvalidDigit
      | Some d \<Rightarrow>
          (let m = acc * int radix; v = (if neg then m - int d else m + int d) in
           if \<not> in_i64 m \<or> \<not> in_i64 v then Inl Overflow else radix_loop radix neg cs v))"

definition i64_from_str_radix :: "string \<Rightarrow> nat \<Rightarrow> int_error + int" where
  "i64_from_str_radix s radix =
     (if s = [] \<or> s = ''+'' \<or> s = ''-'' then Inl InvalidDigit
      else if hd s = CHR ''+'' then radix_loop radix False (tl s) 0
      else if hd s = CHR ''-'' then radix_loop radix True (tl s) 0
      else radix_loop radix False s 0)"

definition split_sign :: "string \<Rightarrow> string \<times> string" where
  "split_sign s =
     (case s of
        [] \<Rightarrow> ([], s)
      | c # cs \<Rightarrow> if c = CHR ''+'' then (''+'', cs) else if c = CHR ''-'' then (''-'', cs) else ([], s))"

definition split_radix :: "string \<Rightarrow> string \<times> nat" where
  "split_radix body =
     (let prefix = (if length body \<ge> 2 then lower (take 2 body) else []) in
      if prefix = ''0x'' then (drop 2 body, 16)
      else if prefix = ''0o'' then (drop 2 body, 8)
      else if prefix = ''0b'' then (drop 2 body, 2)
      else if length body > 1 \<and> hd body = CHR ''0'' then (tl body, 8)
      else (body, 10))"

definition flag_parse_int :: "string \<Rightarrow> string + int" where
  "flag_parse_int s =
     (let invalid = ''strconv.ParseInt: parsing '' @ quoted s @ '': invalid syntax'';
          out_of_range = ''strconv.ParseInt: parsing '' @ quoted s @ '': value out of range'';
          (sign, body) = split_sign s
      in if body = [] then Inl invalid
         else let (digits, radix) = split_radix body in
           if digits = [] then Inl invalid
           else case i64_from_str_radix (sign @ digits) radix of
               Inr n \<Rightarrow> Inr n
             | Inl Overflow \<Rightarrow> Inl out_of_range
             | Inl InvalidDigit \<Rightarrow> Inl invalid)"

definition set_flag_value :: "flag \<Rightarrow> string \<Rightarrow> string + flag" where
  "set_flag_value f raw =
     (case fl_kind f of
        KBool \<Rightarrow> map_sum id (\<lambda>b. f\<lparr>fl_value := VBool b\<rparr>) (flag_parse_bool raw)
      | KInt \<Rightarrow> map_sum id (\<lambda>n. f\<lparr>fl_value := VInt n\<rparr>) (flag_parse_int raw)
      | KStr \<Rightarrow> Inr (f\<lparr>fl_value := VStr raw\<rparr>)
      | KSlice \<Rightarrow>
          Inr (case fl_value f of VSlice items \<Rightarrow> f\<lparr>fl_value := VSlice (items @ [raw])\<rparr> | _ \<Rightarrow> f))"

definition def_value_string :: "flag \<Rightarrow> string" where
  "def_value_string f =
     (case fl_default f of
        VBool b \<Rightarrow> if b then ''true'' else ''false''
      | VInt i \<Rightarrow> show_int i
      | VStr s \<Rightarrow> s
      | VSlice items \<Rightarrow> ''['' @ join_with '' '' items @ '']'')"

definition shows_default :: "flag \<Rightarrow> bool" where
  "shows_default f =
     (case fl_default f of VBool b \<Rightarrow> b | VInt i \<Rightarrow> i \<noteq> 0 | VStr s \<Rightarrow> s \<noteq> [] | VSlice items \<Rightarrow> items \<noteq> [])"

section \<open>Flag sets\<close>

definition flag_set_new :: "string \<Rightarrow> flag_set" where
  "flag_set_new name = \<lparr>fs_name = name, fs_flags = [], fs_remaining = [], fs_tolerated_unknown = []\<rparr>"

definition find_flag :: "flag_set \<Rightarrow> string \<Rightarrow> nat option" where
  "find_flag fs name = position (\<lambda>f. fl_name f = name) (fs_flags fs)"

definition register_flag :: "string \<Rightarrow> kind \<Rightarrow> fvalue \<Rightarrow> string \<Rightarrow> flag_set \<Rightarrow> flag_set option" where
  "register_flag name k dflt help fs =
     (if find_flag fs name \<noteq> None then None
      else Some (fs\<lparr>fs_flags := fs_flags fs @
        [\<lparr>fl_name = name, fl_kind = k, fl_help = help, fl_value = dflt, fl_default = dflt,
          fl_set_by_cli = False, fl_set_by_env = False\<rparr>]\<rparr>))"

definition register_bool :: "string \<Rightarrow> bool \<Rightarrow> string \<Rightarrow> flag_set \<Rightarrow> flag_set option" where
  "register_bool name dflt help = register_flag name KBool (VBool dflt) help"

definition register_int :: "string \<Rightarrow> int \<Rightarrow> string \<Rightarrow> flag_set \<Rightarrow> flag_set option" where
  "register_int name dflt help = register_flag name KInt (VInt dflt) help"

definition register_string :: "string \<Rightarrow> string \<Rightarrow> string \<Rightarrow> flag_set \<Rightarrow> flag_set option" where
  "register_string name dflt help = register_flag name KStr (VStr dflt) help"

definition register_slice :: "string \<Rightarrow> string \<Rightarrow> flag_set \<Rightarrow> flag_set option" where
  "register_slice name help = register_flag name KSlice (VSlice []) help"

definition with_tolerated_unknown :: "string list \<Rightarrow> flag_set \<Rightarrow> flag_set" where
  "with_tolerated_unknown names fs = fs\<lparr>fs_tolerated_unknown := names\<rparr>"

definition flag_of :: "flag_set \<Rightarrow> string \<Rightarrow> flag option" where
  "flag_of fs name = map_option (\<lambda>i. fs_flags fs ! i) (find_flag fs name)"

section \<open>Parsing\<close>

datatype arg_form = Positional | Terminator | BadForm | FlagForm string "string option"

definition split_arg :: "string \<Rightarrow> arg_form" where
  "split_arg arg =
     (if length arg < 2 \<or> hd arg \<noteq> CHR ''-'' then Positional
      else
        let minuses = (if arg ! 1 = CHR ''-'' then 2 else 1) in
        if minuses = 2 \<and> length arg = 2 then Terminator
        else
          let body = drop minuses arg in
          if body = [] \<or> hd body = CHR ''-'' \<or> hd body = CHR ''='' then BadForm
          else case split_once (CHR ''='') body of
              Some (name, inline) \<Rightarrow> FlagForm name (Some inline)
            | None \<Rightarrow> FlagForm body None)"

text \<open>The raw value of a flag and the arguments that are left.\<close>

definition take_value :: "kind \<Rightarrow> string option \<Rightarrow> string list \<Rightarrow> (string \<times> string list) option" where
  "take_value k inline rest =
     (case inline of
        Some v \<Rightarrow> Some (v, rest)
      | None \<Rightarrow>
          if k = KBool then Some (''true'', rest)
          else case rest of [] \<Rightarrow> None | v # rest' \<Rightarrow> Some (v, rest'))"

definition skip_value :: "string option \<Rightarrow> string list \<Rightarrow> string list" where
  "skip_value inline rest =
     (case rest of
        [] \<Rightarrow> []
      | v # rest' \<Rightarrow> if inline = None \<and> (v = [] \<or> hd v \<noteq> CHR ''-'') then rest' else rest)"

lemma take_value_length: "take_value k inline rest = Some (raw, rest') \<Longrightarrow> length rest' \<le> length rest"
  by (auto simp: take_value_def split: option.splits if_splits list.splits)

lemma skip_value_length: "length (skip_value inline rest) \<le> length rest"
  by (auto simp: skip_value_def split: list.splits)

definition store_flag :: "nat \<Rightarrow> flag \<Rightarrow> flag_set \<Rightarrow> flag_set" where
  "store_flag i f fs = fs\<lparr>fs_flags := (fs_flags fs)[i := f]\<rparr>"

function parse_flags :: "string list \<Rightarrow> flag_set \<Rightarrow> flag_set \<times> (flag_error + unit)" where
  "parse_flags [] fs = (fs\<lparr>fs_remaining := []\<rparr>, Inr ())"
| "parse_flags (arg # rest) fs =
     (case split_arg arg of
        Positional \<Rightarrow> (fs\<lparr>fs_remaining := arg # rest\<rparr>, Inr ())
      | Terminator \<Rightarrow> (fs\<lparr>fs_remaining := rest\<rparr>, Inr ())
      | BadForm \<Rightarrow> (fs, Inl (BadSyntax arg))
      | FlagForm name inline \<Rightarrow>
          (case find_flag fs name of
             Some i \<Rightarrow>
               (case take_value (fl_kind (fs_flags fs ! i)) inline rest of
                  None \<Rightarrow> (fs, Inl (MissingValue name))
                | Some (raw, rest') \<Rightarrow>
                    (case set_flag_value (fs_flags fs ! i) raw of
                       Inl reason \<Rightarrow> (fs, Inl (BadValue name raw reason))
                     | Inr f \<Rightarrow> parse_flags rest' (store_flag i (f\<lparr>fl_set_by_cli := True\<rparr>) fs)))
           | None \<Rightarrow>
               if name = ''help'' \<or> name = ''h'' then (fs\<lparr>fs_remaining := rest\<rparr>, Inl Help)
               else if name \<in> set (fs_tolerated_unknown fs) then parse_flags (skip_value inline rest) fs
               else (fs, Inl (UnknownFlag name))))"
  by pat_completeness auto
termination
  by (relation "measure (length \<circ> fst)") (auto dest: take_value_length simp: less_Suc_eq_le skip_value_length)

section \<open>The environment\<close>

definition env_char :: "char \<Rightarrow> char" where
  "env_char c =
     (if c = CHR ''-'' then CHR ''_''
      else let n = (of_char c :: nat) in if 97 \<le> n \<and> n \<le> 122 then char_of (n - 32) else c)"

definition env_key :: "string \<Rightarrow> string \<Rightarrow> string" where
  "env_key prefix name = prefix @ ''_'' @ map env_char name"

definition env_step ::
  "(string \<Rightarrow> string) \<Rightarrow> string \<Rightarrow> flag_set \<times> env_error list \<Rightarrow> string \<Rightarrow> flag_set \<times> env_error list" where
  "env_step env prefix st name =
     (let (fs, errors) = st; key = env_key prefix name; raw = env key in
      if raw = [] then st
      else case find_flag fs name of
          None \<Rightarrow> st
        | Some i \<Rightarrow>
            (case set_flag_value (fs_flags fs ! i) raw of
               Inr f \<Rightarrow> (store_flag i (f\<lparr>fl_set_by_env := True\<rparr>) fs, errors)
             | Inl reason \<Rightarrow>
                 (fs, errors @ [\<lparr>ee_flag = name, ee_env_key = key, ee_value = raw, ee_reason = reason\<rparr>])))"

definition set_flags_from_env :: "(string \<Rightarrow> string) \<Rightarrow> string \<Rightarrow> flag_set \<Rightarrow> flag_set \<times> env_error list" where
  "set_flags_from_env env prefix fs = foldl (env_step env prefix) (fs, []) (map fl_name (fs_flags fs))"

section \<open>Reading\<close>

definition get_bool :: "flag_set \<Rightarrow> string \<Rightarrow> bool option" where
  "get_bool fs name = (case map_option fl_value (flag_of fs name) of Some (VBool b) \<Rightarrow> Some b | _ \<Rightarrow> None)"

definition get_int :: "flag_set \<Rightarrow> string \<Rightarrow> int option" where
  "get_int fs name = (case map_option fl_value (flag_of fs name) of Some (VInt n) \<Rightarrow> Some n | _ \<Rightarrow> None)"

definition get_string :: "flag_set \<Rightarrow> string \<Rightarrow> string option" where
  "get_string fs name = (case map_option fl_value (flag_of fs name) of Some (VStr s) \<Rightarrow> Some s | _ \<Rightarrow> None)"

definition get_slice :: "flag_set \<Rightarrow> string \<Rightarrow> string list option" where
  "get_slice fs name = (case map_option fl_value (flag_of fs name) of Some (VSlice xs) \<Rightarrow> Some xs | _ \<Rightarrow> None)"

definition is_set :: "flag_set \<Rightarrow> string \<Rightarrow> bool" where
  "is_set fs name = (case flag_of fs name of Some f \<Rightarrow> fl_set_by_cli f \<or> fl_set_by_env f | None \<Rightarrow> False)"

definition was_set_by_env :: "flag_set \<Rightarrow> string \<Rightarrow> bool" where
  "was_set_by_env fs name = (case flag_of fs name of Some f \<Rightarrow> fl_set_by_env f | None \<Rightarrow> False)"

definition remaining_args :: "flag_set \<Rightarrow> string list" where
  "remaining_args fs = fs_remaining fs"

definition default_value :: "flag_set \<Rightarrow> string \<Rightarrow> string option" where
  "default_value fs name = map_option def_value_string (flag_of fs name)"

text \<open>The format \<open>{:?}\<close> of a text.\<close>

definition debug_char :: "char \<Rightarrow> string" where
  "debug_char c =
     (let n = (of_char c :: nat) in
      if n = 34 \<or> n = 92 then [CHR 0x5c, c]
      else if n = 10 then CHR 0x5c # ''n''
      else if n = 13 then CHR 0x5c # ''r''
      else if n = 9 then CHR 0x5c # ''t''
      else if n = 0 then CHR 0x5c # ''0''
      else if n < 32 \<or> n = 127
      then CHR 0x5c # ''u{'' @ (if n < 16 then [hex_digit n] else [hex_digit (n div 16), hex_digit (n mod 16)]) @ ''}''
      else [c])"

definition flag_order :: "flag \<Rightarrow> flag \<Rightarrow> ordering" where
  "flag_order a b =
     (if fl_name a = fl_name b then OrdEqual else if str_less (fl_name a) (fl_name b) then OrdLess else OrdGreater)"

definition usage_line :: "flag \<Rightarrow> string" where
  "usage_line f =
     (let type_name = (case fl_kind f of KBool \<Rightarrow> [] | KInt \<Rightarrow> ''int'' | KStr \<Rightarrow> ''string'' | KSlice \<Rightarrow> ''value'');
          head = ''  -'' @ fl_name f @ (if type_name \<noteq> [] then '' '' @ type_name else []);
          def = def_value_string f;
          rendered = (if fl_kind f = KStr then quoted (concat (map debug_char def)) else def)
      in head @ (if length head \<le> 4 then [CHR 0x09] else [CHR 0x0a] @ ''    '' @ [CHR 0x09]) @ fl_help f @
         (if shows_default f then '' (default '' @ rendered @ '')'' else []) @ [CHR 0x0a])"

definition usage :: "flag_set \<Rightarrow> string" where
  "usage fs =
     ''Usage of '' @ fs_name fs @ '':'' @ [CHR 0x0a] @ concat (map usage_line (sort_by flag_order (fs_flags fs)))"

section \<open>The flags of flanneld\<close>

definition KLOG_TOLERATED_FLAGS :: "string list" where
  "KLOG_TOLERATED_FLAGS =
     [''v'', ''vmodule'', ''logtostderr'', ''alsologtostderr'', ''stderrthreshold'', ''log_dir'', ''log_file'',
      ''log_file_max_size'', ''add_dir_header'', ''skip_headers'', ''skip_log_headers'', ''one_output'']"

definition flannel_flags :: "(flag_set \<Rightarrow> flag_set option) list" where
  "flannel_flags =
     [register_string ''etcd-endpoints'' ''http://127.0.0.1:4001,http://127.0.0.1:2379''
        ''a comma-delimited list of etcd endpoints'',
      register_string ''etcd-prefix'' ''/coreos.com/network'' ''etcd prefix'',
      register_string ''etcd-keyfile'' '''' ''SSL key file used to secure etcd communication'',
      register_string ''etcd-certfile'' '''' ''SSL certification file used to secure etcd communication'',
      register_string ''etcd-cafile'' '''' ''SSL Certificate Authority file used to secure etcd communication'',
      register_string ''etcd-username'' '''' ''username for BasicAuth to etcd'',
      register_string ''etcd-password'' '''' ''password for BasicAuth to etcd'',
      register_slice ''iface''
        ''interface to use (IP or name) for inter-host communication. Can be specified multiple times to check each option in order. Returns the first match found.'',
      register_slice ''iface-regex''
        ''regex expression to match the first interface to use (IP or name) for inter-host communication. Can be specified multiple times to check each regex in order. Returns the first match found. Regexes are checked after specific interfaces specified by the iface option have already been checked.'',
      register_string ''iface-can-reach'' ''''
        (''detect interface to use (IP or name) for inter-host communication based on which will be used for provided IP. This is exactly the interface to use of command '' @ [CHR 0x27] @ ''ip route get <ip-address>'' @ [CHR 0x27]),
      register_string ''subnet-file'' ''/run/flannel/subnet.env''
        ''filename where env variables (subnet, MTU, ... ) will be written to'',
      register_string ''public-ip'' '''' ''IP accessible by other nodes for inter-host communication'',
      register_string ''public-ipv6'' '''' ''IPv6 accessible by other nodes for inter-host communication'',
      register_int ''subnet-lease-renew-margin'' 60 ''subnet lease renewal margin, in minutes, ranging from 1 to 1439'',
      register_bool ''ip-masq'' False ''setup IP masquerade rule for traffic destined outside of overlay network'',
      register_bool ''ip-masq-fully-random-disable'' False ''disable fully-random mode for MASQUERADE'',
      register_bool ''kube-subnet-mgr'' False ''contact the Kubernetes API for subnet assignment instead of etcd.'',
      register_string ''kube-api-url'' ''''
        ''Kubernetes API server URL. Does not need to be specified if flannel is running in a pod.'',
      register_string ''kube-annotation-prefix'' ''flannel.alpha.coreos.com''
        (''Kubernetes annotation prefix. Can contain single slash '' @ quoted ''/'' @ '', otherwise it will be appended at the end.''),
      register_string ''kubeconfig-file'' ''''
        ''kubeconfig file location. Does not need to be specified if flannel is running in a pod.'',
      register_bool ''version'' False ''print version and exit'',
      register_string ''healthz-ip'' ''0.0.0.0'' ''the IP address for healthz server to listen'',
      register_int ''healthz-port'' 0 ''the port for healthz server to listen(0 to disable)'',
      register_int ''iptables-resync'' 5 ''resync period for iptables rules, in seconds'',
      register_bool ''iptables-forward-rules'' True ''add default accept rules to FORWARD chain in iptables'',
      register_bool ''ip-blackhole-route'' False ''add blackroute route ont the node for the local podCIDR'',
      register_string ''net-config-path'' ''/etc/kube-flannel/net-conf.json'' ''path to the network configuration file'',
      register_bool ''set-node-network-unavailable'' True ''set NodeNetworkUnavailable after ready'']"

definition build_flag_set :: "flag_set option" where
  "build_flag_set =
     map_option (with_tolerated_unknown KLOG_TOLERATED_FLAGS)
       (foldl (\<lambda>fs r. Option.bind fs r) (Some (flag_set_new ''flannel'')) flannel_flags)"

record options =
  op_etcd_endpoints :: string
  op_etcd_prefix :: string
  op_etcd_keyfile :: string
  op_etcd_certfile :: string
  op_etcd_cafile :: string
  op_etcd_username :: string
  op_etcd_password :: string
  op_version :: bool
  op_kube_subnet_mgr :: bool
  op_kube_api_url :: string
  op_kube_annotation_prefix :: string
  op_kubeconfig_file :: string
  op_iface :: "string list"
  op_iface_regex :: "string list"
  op_iface_can_reach :: string
  op_ip_masq :: bool
  op_ip_masq_random_fully_disable :: bool
  op_subnet_file :: string
  op_public_ip :: string
  op_public_ipv6 :: string
  op_subnet_lease_renew_margin :: int
  op_healthz_ip :: string
  op_healthz_port :: int
  op_iptables_resync_seconds :: int
  op_iptables_forward_rules :: bool
  op_blackhole_route :: bool
  op_net_config_path :: string
  op_set_node_network_unavailable :: bool
  op_install_signal_handlers :: bool

text \<open>The flags are read in the order of the fields.\<close>

definition options_from_flag_set :: "flag_set \<Rightarrow> options option" where
  "options_from_flag_set fs =
     Option.bind (get_string fs ''etcd-endpoints'') (\<lambda>x0.
     Option.bind (get_string fs ''etcd-prefix'') (\<lambda>x1.
     Option.bind (get_string fs ''etcd-keyfile'') (\<lambda>x2.
     Option.bind (get_string fs ''etcd-certfile'') (\<lambda>x3.
     Option.bind (get_string fs ''etcd-cafile'') (\<lambda>x4.
     Option.bind (get_string fs ''etcd-username'') (\<lambda>x5.
     Option.bind (get_string fs ''etcd-password'') (\<lambda>x6.
     Option.bind (get_bool fs ''version'') (\<lambda>x7.
     Option.bind (get_bool fs ''kube-subnet-mgr'') (\<lambda>x8.
     Option.bind (get_string fs ''kube-api-url'') (\<lambda>x9.
     Option.bind (get_string fs ''kube-annotation-prefix'') (\<lambda>x10.
     Option.bind (get_string fs ''kubeconfig-file'') (\<lambda>x11.
     Option.bind (get_slice fs ''iface'') (\<lambda>x12.
     Option.bind (get_slice fs ''iface-regex'') (\<lambda>x13.
     Option.bind (get_string fs ''iface-can-reach'') (\<lambda>x14.
     Option.bind (get_bool fs ''ip-masq'') (\<lambda>x15.
     Option.bind (get_bool fs ''ip-masq-fully-random-disable'') (\<lambda>x16.
     Option.bind (get_string fs ''subnet-file'') (\<lambda>x17.
     Option.bind (get_string fs ''public-ip'') (\<lambda>x18.
     Option.bind (get_string fs ''public-ipv6'') (\<lambda>x19.
     Option.bind (get_int fs ''subnet-lease-renew-margin'') (\<lambda>x20.
     Option.bind (get_string fs ''healthz-ip'') (\<lambda>x21.
     Option.bind (get_int fs ''healthz-port'') (\<lambda>x22.
     Option.bind (get_int fs ''iptables-resync'') (\<lambda>x23.
     Option.bind (get_bool fs ''iptables-forward-rules'') (\<lambda>x24.
     Option.bind (get_bool fs ''ip-blackhole-route'') (\<lambda>x25.
     Option.bind (get_string fs ''net-config-path'') (\<lambda>x26.
     Option.bind (get_bool fs ''set-node-network-unavailable'') (\<lambda>x27.
     Some \<lparr>op_etcd_endpoints = x0, op_etcd_prefix = x1, op_etcd_keyfile = x2, op_etcd_certfile = x3,
       op_etcd_cafile = x4, op_etcd_username = x5, op_etcd_password = x6, op_version = x7,
       op_kube_subnet_mgr = x8, op_kube_api_url = x9, op_kube_annotation_prefix = x10,
       op_kubeconfig_file = x11, op_iface = x12, op_iface_regex = x13, op_iface_can_reach = x14,
       op_ip_masq = x15, op_ip_masq_random_fully_disable = x16, op_subnet_file = x17,
       op_public_ip = x18, op_public_ipv6 = x19, op_subnet_lease_renew_margin = x20,
       op_healthz_ip = x21, op_healthz_port = x22, op_iptables_resync_seconds = x23,
       op_iptables_forward_rules = x24, op_blackhole_route = x25, op_net_config_path = x26,
       op_set_node_network_unavailable = x27, op_install_signal_handlers = True\<rparr>))))))))))))))))))))))))))))"

definition options_default :: "options option" where
  "options_default = Option.bind build_flag_set options_from_flag_set"

section \<open>The types of the flags\<close>

fun kind_of :: "fvalue \<Rightarrow> kind" where
  "kind_of (VBool b) = KBool"
| "kind_of (VInt i) = KInt"
| "kind_of (VStr s) = KStr"
| "kind_of (VSlice xs) = KSlice"

fun value_in_range :: "fvalue \<Rightarrow> bool" where
  "value_in_range (VInt i) = in_i64 i"
| "value_in_range _ = True"

definition flag_typed :: "flag \<Rightarrow> bool" where
  "flag_typed f \<longleftrightarrow>
     kind_of (fl_value f) = fl_kind f \<and> value_in_range (fl_value f) \<and> kind_of (fl_default f) = fl_kind f"

text \<open>What no operation but a registration changes.\<close>

definition flag_shape :: "flag \<Rightarrow> string \<times> kind \<times> string \<times> fvalue" where
  "flag_shape f = (fl_name f, fl_kind f, fl_help f, fl_default f)"

definition keeps_flags :: "flag_set \<Rightarrow> flag_set \<Rightarrow> bool" where
  "keeps_flags fs fs' \<longleftrightarrow>
     map flag_shape (fs_flags fs') = map flag_shape (fs_flags fs) \<and>
     (list_all flag_typed (fs_flags fs) \<longrightarrow> list_all flag_typed (fs_flags fs')) \<and>
     fs_tolerated_unknown fs' = fs_tolerated_unknown fs \<and> fs_name fs' = fs_name fs"

lemma keeps_flags_refl [simp]: "keeps_flags fs fs"
  by (simp add: keeps_flags_def)

lemma keeps_flags_trans: "keeps_flags a b \<Longrightarrow> keeps_flags b c \<Longrightarrow> keeps_flags a c"
  by (simp add: keeps_flags_def)

lemma keeps_flags_remaining [simp]: "keeps_flags fs (fs'\<lparr>fs_remaining := r\<rparr>) = keeps_flags fs fs'"
  by (simp add: keeps_flags_def)

lemma radix_loop_range: "radix_loop r neg s acc = Inr v \<Longrightarrow> in_i64 acc \<Longrightarrow> in_i64 v"
  by (induction r neg s acc rule: radix_loop.induct) (auto simp: Let_def split: option.splits if_splits)

lemma in_i64_0 [simp]: "in_i64 0"
  by (simp add: in_i64_def)

lemma flag_parse_int_range: "flag_parse_int s = Inr n \<Longrightarrow> in_i64 n"
  by (auto simp: flag_parse_int_def i64_from_str_radix_def Let_def
      split: prod.splits if_splits sum.splits int_error.splits dest: radix_loop_range)

lemma set_flag_value_shape: "set_flag_value f raw = Inr f' \<Longrightarrow> flag_shape f' = flag_shape f"
  by (auto simp: set_flag_value_def flag_shape_def map_sum_def split: kind.splits fvalue.splits sum.splits)

lemma set_flag_value_typed: "set_flag_value f raw = Inr f' \<Longrightarrow> flag_typed f \<Longrightarrow> flag_typed f'"
  by (auto simp: set_flag_value_def flag_typed_def map_sum_def flag_parse_int_range
      split: kind.splits fvalue.splits sum.splits)

lemma store_flag_keeps:
  assumes "i < length (fs_flags fs)" and "flag_shape f = flag_shape (fs_flags fs ! i)"
    and "flag_typed (fs_flags fs ! i) \<Longrightarrow> flag_typed f"
  shows "keeps_flags fs (store_flag i f fs)"
  using assms
  by (auto simp: keeps_flags_def store_flag_def map_update list_update_same_conv list_all_length nth_list_update)

lemma flag_marks [simp]:
  "flag_shape (f\<lparr>fl_set_by_cli := b\<rparr>) = flag_shape f" "flag_shape (f\<lparr>fl_set_by_env := b\<rparr>) = flag_shape f"
  "flag_typed (f\<lparr>fl_set_by_cli := b\<rparr>) = flag_typed f" "flag_typed (f\<lparr>fl_set_by_env := b\<rparr>) = flag_typed f"
  by (simp_all add: flag_shape_def flag_typed_def)

lemma assign_keeps:
  assumes "find_flag fs name = Some i" and "set_flag_value (fs_flags fs ! i) raw = Inr f"
  shows "keeps_flags fs (store_flag i (f\<lparr>fl_set_by_cli := True\<rparr>) fs)"
    and "keeps_flags fs (store_flag i (f\<lparr>fl_set_by_env := True\<rparr>) fs)"
proof -
  have "i < length (fs_flags fs)" using assms(1) by (auto simp: find_flag_def dest: position_Some)
  then show "keeps_flags fs (store_flag i (f\<lparr>fl_set_by_cli := True\<rparr>) fs)"
    and "keeps_flags fs (store_flag i (f\<lparr>fl_set_by_env := True\<rparr>) fs)"
    using assms(2) by (auto intro!: store_flag_keeps dest: set_flag_value_shape set_flag_value_typed)
qed

lemma parse_flags_keeps: "keeps_flags fs (fst (parse_flags args fs))"
proof (induction args fs rule: parse_flags.induct)
  case (2 arg rest fs)
  show ?case
  proof (cases "split_arg arg")
    case (FlagForm name inline)
    show ?thesis
    proof (cases "find_flag fs name")
      case None
      with FlagForm "2.IH"(1) show ?thesis by simp
    next
      case (Some i)
      show ?thesis
      proof (cases "take_value (fl_kind (fs_flags fs ! i)) inline rest")
        case None
        with FlagForm Some show ?thesis by simp
      next
        case raw: (Some p)
        obtain r rest' where p: "p = (r, rest')" by fastforce
        show ?thesis
        proof (cases "set_flag_value (fs_flags fs ! i) r")
          case (Inl a)
          with FlagForm Some raw p show ?thesis by simp
        next
          case (Inr f)
          show ?thesis
            using "2.IH"(2) [OF FlagForm Some raw p [symmetric] Inr] assign_keeps(1) [OF Some Inr] FlagForm Some raw p Inr
            by (auto intro: keeps_flags_trans)
        qed
      qed
    qed
  qed simp_all
qed simp

lemma env_step_keeps: "keeps_flags (fst st) (fst (env_step env prefix st name))"
  by (auto simp: env_step_def Let_def assign_keeps split: prod.splits option.splits sum.splits)

lemma set_flags_from_env_keeps: "keeps_flags fs (fst (set_flags_from_env env prefix fs))"
proof -
  have "keeps_flags (fst st) (fst (foldl (env_step env prefix) st names))" for st names
  proof (induction names arbitrary: st)
    case (Cons n names)
    show ?case using keeps_flags_trans [OF env_step_keeps Cons.IH] by simp
  qed simp
  from this [of "(fs, [])"] show ?thesis by (simp add: set_flags_from_env_def)
qed

text \<open>A flag that is registered with a kind is read with that kind.\<close>

lemma flag_of_find: "flag_of fs name = find (\<lambda>f. fl_name f = name) (fs_flags fs)"
proof -
  have "map_option ((!) xs) (position p xs) = find p xs" for p and xs :: "'a list"
    by (induction p xs rule: position.induct) (auto simp: option.map_comp comp_def)
  then show ?thesis by (simp add: flag_of_def find_flag_def)
qed

definition kinds :: "flag_set \<Rightarrow> string \<Rightarrow> kind option" where
  "kinds fs = map_of (map (\<lambda>f. (fl_name f, fl_kind f)) (fs_flags fs))"

lemma kinds_flag_of: "kinds fs name = map_option fl_kind (flag_of fs name)"
proof -
  have "map_of (map (\<lambda>f. (fl_name f, fl_kind f)) xs) name = map_option fl_kind (find (\<lambda>f. fl_name f = name) xs)"
    for xs :: "flag list"
    by (induction xs) auto
  then show ?thesis by (simp add: kinds_def flag_of_find)
qed

lemma kinds_keeps: "keeps_flags fs fs' \<Longrightarrow> kinds fs' = kinds fs"
proof -
  assume "keeps_flags fs fs'"
  then have "map ((\<lambda>(n, k, h, d). (n, k)) \<circ> flag_shape) (fs_flags fs') = map ((\<lambda>(n, k, h, d). (n, k)) \<circ> flag_shape) (fs_flags fs)"
    unfolding map_map [symmetric] keeps_flags_def by simp
  then show ?thesis by (simp add: kinds_def flag_shape_def comp_def)
qed

lemma kinds_value:
  assumes "list_all flag_typed (fs_flags fs)" and "kinds fs name = Some k"
  obtains f where "flag_of fs name = Some f" "kind_of (fl_value f) = k" "value_in_range (fl_value f)"
  using assms unfolding kinds_flag_of flag_of_find
  by (auto simp: find_Some_iff list_all_length flag_typed_def)

lemma typed_reads:
  assumes "list_all flag_typed (fs_flags fs)"
  shows "kinds fs name = Some KBool \<Longrightarrow> \<exists>b. get_bool fs name = Some b"
    and "kinds fs name = Some KInt \<Longrightarrow> \<exists>i. get_int fs name = Some i \<and> in_i64 i"
    and "kinds fs name = Some KStr \<Longrightarrow> \<exists>s. get_string fs name = Some s"
    and "kinds fs name = Some KSlice \<Longrightarrow> \<exists>xs. get_slice fs name = Some xs"
  by (erule kinds_value [OF assms],
      auto simp: get_bool_def get_int_def get_string_def get_slice_def elim: kind_of.elims split: fvalue.splits)+

text \<open>No flag of flanneld is defined twice; these are their kinds.\<close>

definition flannel_kinds :: "(string \<times> kind) list" where
  "flannel_kinds =
     [(''etcd-endpoints'', KStr), (''etcd-prefix'', KStr), (''etcd-keyfile'', KStr), (''etcd-certfile'', KStr),
      (''etcd-cafile'', KStr), (''etcd-username'', KStr), (''etcd-password'', KStr), (''iface'', KSlice),
      (''iface-regex'', KSlice), (''iface-can-reach'', KStr), (''subnet-file'', KStr), (''public-ip'', KStr),
      (''public-ipv6'', KStr), (''subnet-lease-renew-margin'', KInt), (''ip-masq'', KBool),
      (''ip-masq-fully-random-disable'', KBool), (''kube-subnet-mgr'', KBool), (''kube-api-url'', KStr),
      (''kube-annotation-prefix'', KStr), (''kubeconfig-file'', KStr), (''version'', KBool), (''healthz-ip'', KStr),
      (''healthz-port'', KInt), (''iptables-resync'', KInt), (''iptables-forward-rules'', KBool),
      (''ip-blackhole-route'', KBool), (''net-config-path'', KStr), (''set-node-network-unavailable'', KBool)]"

lemma build_flag_set_eval:
  "map_option (\<lambda>fs. (map (\<lambda>f. (fl_name f, fl_kind f)) (fs_flags fs), list_all flag_typed (fs_flags fs))) build_flag_set =
   Some (flannel_kinds, True)"
  by code_simp

lemma options_of_typed:
  assumes typed: "list_all flag_typed (fs_flags fs)" and kinds: "kinds fs = map_of flannel_kinds"
  shows "\<exists>opts. options_from_flag_set fs = Some opts \<and> in_i64 (op_subnet_lease_renew_margin opts) \<and>
    in_i64 (op_healthz_port opts) \<and> in_i64 (op_iptables_resync_seconds opts)"
proof -
  define gb gi gs gl where "gb n = the (get_bool fs n)" and "gi n = the (get_int fs n)"
    and "gs n = the (get_string fs n)" and "gl n = the (get_slice fs n)" for n
  have b: "map_of flannel_kinds n = Some KBool \<Longrightarrow> get_bool fs n = Some (gb n)"
    and i: "map_of flannel_kinds n = Some KInt \<Longrightarrow> get_int fs n = Some (gi n)"
    and r: "map_of flannel_kinds n = Some KInt \<Longrightarrow> in_i64 (gi n)"
    and s: "map_of flannel_kinds n = Some KStr \<Longrightarrow> get_string fs n = Some (gs n)"
    and l: "map_of flannel_kinds n = Some KSlice \<Longrightarrow> get_slice fs n = Some (gl n)" for n
    using typed_reads [OF typed, of n] kinds by (auto simp: gb_def gi_def gs_def gl_def)
  show ?thesis
    unfolding options_from_flag_set_def by (simp add: b i r s l flannel_kinds_def)
qed

lemma options_read:
  assumes "build_flag_set = Some fs"
  shows "\<exists>opts. options_from_flag_set (fst (set_flags_from_env env prefix (fst (parse_flags args fs)))) = Some opts \<and>
      in_i64 (op_subnet_lease_renew_margin opts) \<and> in_i64 (op_healthz_port opts) \<and>
      in_i64 (op_iptables_resync_seconds opts)"
proof (rule options_of_typed)
  have fs: "list_all flag_typed (fs_flags fs)" "kinds fs = map_of flannel_kinds"
    using build_flag_set_eval unfolding assms by (simp_all add: kinds_def)
  let ?fs = "fst (set_flags_from_env env prefix (fst (parse_flags args fs)))"
  have keeps: "keeps_flags fs ?fs"
    by (rule keeps_flags_trans [OF parse_flags_keeps set_flags_from_env_keeps])
  then show "list_all flag_typed (fs_flags ?fs)" using fs(1) by (simp add: keeps_flags_def)
  show "kinds ?fs = map_of flannel_kinds" using kinds_keeps [OF keeps] fs(2) by simp
qed


section \<open>The environment after the command line\<close>

text \<open>What one variable does to its flag, and the error it leaves.\<close>

definition env_flag :: "(string \<Rightarrow> string) \<Rightarrow> string \<Rightarrow> flag \<Rightarrow> flag" where
  "env_flag env prefix f =
     (let raw = env (env_key prefix (fl_name f)) in
      if raw = [] then f
      else case set_flag_value f raw of Inr f' \<Rightarrow> f'\<lparr>fl_set_by_env := True\<rparr> | Inl _ \<Rightarrow> f)"

definition env_flag_errors :: "(string \<Rightarrow> string) \<Rightarrow> string \<Rightarrow> flag \<Rightarrow> env_error list" where
  "env_flag_errors env prefix f =
     (let key = env_key prefix (fl_name f); raw = env key in
      if raw = [] then []
      else case set_flag_value f raw of
          Inr _ \<Rightarrow> []
        | Inl reason \<Rightarrow> [\<lparr>ee_flag = fl_name f, ee_env_key = key, ee_value = raw, ee_reason = reason\<rparr>])"

lemma position_append:
  "\<forall>x \<in> set xs. \<not> p x \<Longrightarrow> p y \<Longrightarrow> position p (xs @ y # ys) = Some (length xs)"
  by (induction xs) auto

lemma set_flag_value_name: "set_flag_value f raw = Inr f' \<Longrightarrow> fl_name f' = fl_name f"
  by (drule set_flag_value_shape) (simp add: flag_shape_def)

lemma env_flag_name [simp]: "fl_name (env_flag env prefix f) = fl_name f"
  by (auto simp: env_flag_def Let_def dest: set_flag_value_name split: sum.splits)

lemma env_step_at:
  assumes "fs_flags fs = xs @ f # ys" and "fl_name f \<notin> fl_name ` set xs"
  shows "env_step env prefix (fs, errs) (fl_name f) =
    (fs\<lparr>fs_flags := xs @ env_flag env prefix f # ys\<rparr>, errs @ env_flag_errors env prefix f)"
proof -
  have same: "fs\<lparr>fs_flags := xs @ f # ys\<rparr> = fs" using assms(1) by (cases fs) simp
  have "find_flag fs (fl_name f) = Some (length xs)" "fs_flags fs ! length xs = f"
    using assms by (auto simp: find_flag_def image_iff intro!: position_append)
  then show ?thesis using assms(1) same
    by (auto simp: env_step_def env_flag_def env_flag_errors_def Let_def store_flag_def split: sum.splits)
qed

lemma env_steps:
  assumes "fs_flags fs = xs @ ys" and "distinct (map fl_name (xs @ ys))"
  shows "foldl (env_step env prefix) (fs, errs) (map fl_name ys) =
    (fs\<lparr>fs_flags := xs @ map (env_flag env prefix) ys\<rparr>, errs @ concat (map (env_flag_errors env prefix) ys))"
  using assms
proof (induction ys arbitrary: fs xs errs)
  case Nil
  then show ?case by (cases fs) simp
next
  case (Cons f ys)
  let ?fs = "fs\<lparr>fs_flags := xs @ env_flag env prefix f # ys\<rparr>"
  have "env_step env prefix (fs, errs) (fl_name f) = (?fs, errs @ env_flag_errors env prefix f)"
    by (rule env_step_at [OF Cons.prems(1)]) (use Cons.prems(2) in auto)
  moreover have "fs_flags ?fs = (xs @ [env_flag env prefix f]) @ ys"
    "distinct (map fl_name ((xs @ [env_flag env prefix f]) @ ys))"
    using Cons.prems(2) by auto
  ultimately show ?case using Cons.IH [of ?fs "xs @ [env_flag env prefix f]"] by simp
qed

text \<open>The value a variable leaves in a flag: it replaces the value of a boolean, a number or a text and extends a slice.\<close>

definition env_value :: "string \<Rightarrow> flag \<Rightarrow> fvalue" where
  "env_value raw f =
     (if raw = [] then fl_value f
      else case fl_kind f of
          KBool \<Rightarrow> (case flag_parse_bool raw of Inr b \<Rightarrow> VBool b | Inl _ \<Rightarrow> fl_value f)
        | KInt \<Rightarrow> (case flag_parse_int raw of Inr i \<Rightarrow> VInt i | Inl _ \<Rightarrow> fl_value f)
        | KStr \<Rightarrow> VStr raw
        | KSlice \<Rightarrow> (case fl_value f of VSlice items \<Rightarrow> VSlice (items @ [raw]) | v \<Rightarrow> v))"

lemma env_flag_value: "fl_value (env_flag env prefix f) = env_value (env (env_key prefix (fl_name f))) f"
  by (auto simp: env_flag_def env_value_def Let_def set_flag_value_def map_sum_def
      split: kind.splits sum.splits fvalue.splits)

text \<open>With distinct flag names, \<open>set_flags_from_env\<close> treats every flag on its own: a flag whose variable is not empty
  and valid gets that value whatever the command line gave it (a slice is extended by it, not replaced), one whose
  variable is invalid keeps its value and adds one error, in the order of the flags.\<close>

theorem env_overrides_each_flag:
  assumes "distinct (map fl_name (fs_flags fs))"
  shows "set_flags_from_env env prefix fs =
       (fs\<lparr>fs_flags := map (env_flag env prefix) (fs_flags fs)\<rparr>,
        concat (map (env_flag_errors env prefix) (fs_flags fs))) \<and>
     map fl_value (fs_flags (fst (set_flags_from_env env prefix fs))) =
       map (\<lambda>f. env_value (env (env_key prefix (fl_name f))) f) (fs_flags fs)"
  using env_steps [of fs "[]" "fs_flags fs" env prefix "[]"] assms
  by (simp add: set_flags_from_env_def env_flag_value)

text \<open>The interface given on the command line stays in front of the one of the environment.\<close>

definition two_flags :: flag_set where
  "two_flags = the (Option.bind (register_slice ''iface'' [] (flag_set_new ''flannel'')) (register_string ''public-ip'' [] []))"

definition two_vars :: "string \<Rightarrow> string" where
  "two_vars k = (if k = ''FLANNELD_IFACE'' then ''eth1'' else if k = ''FLANNELD_PUBLIC_IP'' then ''10.0.0.2'' else [])"

theorem env_overrides_each_flag_witness:
  "map fl_value (fs_flags (fst (set_flags_from_env two_vars ''FLANNELD''
       (fst (parse_flags [''-iface=eth0'', ''--public-ip'', ''10.0.0.1''] two_flags))))) =
     [VSlice [''eth0'', ''eth1''], VStr ''10.0.0.2'']"
proof -
  let ?fs = "fst (parse_flags [''-iface=eth0'', ''--public-ip'', ''10.0.0.1''] two_flags)"
  have "distinct (map fl_name (fs_flags ?fs))" by code_simp
  from env_overrides_each_flag [OF this, of two_vars "''FLANNELD''"]
  have "map fl_value (fs_flags (fst (set_flags_from_env two_vars ''FLANNELD'' ?fs))) =
    map (\<lambda>f. env_value (two_vars (env_key ''FLANNELD'' (fl_name f))) f) (fs_flags ?fs)" by (rule conjunct2)
  also have "\<dots> = [VSlice [''eth0'', ''eth1''], VStr ''10.0.0.2'']" by code_simp
  finally show ?thesis .
qed

section \<open>Command lines\<close>

text \<open>A setting of a flag and the ways a command line writes it: one or two dashes, the value in the argument or as the
  next one, and for a boolean no value at all. Its meaning is one assignment.\<close>

datatype form = Inline | Separate | Bare

record setting =
  st_name :: string
  st_raw :: string
  st_double :: bool
  st_form :: form

definition setting_args :: "setting \<Rightarrow> string list" where
  "setting_args s =
     (let dash = (if st_double s then ''--'' else ''-'') @ st_name s in
      case st_form s of Inline \<Rightarrow> [dash @ ''='' @ st_raw s] | Separate \<Rightarrow> [dash, st_raw s] | Bare \<Rightarrow> [dash])"

definition setting_ok :: "flag_set \<Rightarrow> setting \<Rightarrow> bool" where
  "setting_ok fs s \<longleftrightarrow>
     st_name s \<noteq> [] \<and> hd (st_name s) \<noteq> CHR ''-'' \<and> CHR ''='' \<notin> set (st_name s) \<and>
     (case kinds fs (st_name s) of
        None \<Rightarrow> False
      | Some k \<Rightarrow>
          (case st_form s of
             Inline \<Rightarrow> True | Separate \<Rightarrow> k \<noteq> KBool | Bare \<Rightarrow> k = KBool \<and> st_raw s = ''true''))"

fun assign_all :: "setting list \<Rightarrow> flag_set \<Rightarrow> flag_set \<times> (flag_error + unit)" where
  "assign_all [] fs = (fs, Inr ())"
| "assign_all (s # ss) fs =
     (case find_flag fs (st_name s) of
        None \<Rightarrow> (fs, Inl (UnknownFlag (st_name s)))
      | Some i \<Rightarrow>
          (case set_flag_value (fs_flags fs ! i) (st_raw s) of
             Inl reason \<Rightarrow> (fs, Inl (BadValue (st_name s) (st_raw s) reason))
           | Inr f \<Rightarrow> assign_all ss (store_flag i (f\<lparr>fl_set_by_cli := True\<rparr>) fs)))"

lemma split_once_notin [simp]: "c \<notin> set s \<Longrightarrow> split_once c s = None"
  by (induction s) auto

lemma split_arg_body:
  assumes "body \<noteq> []" and "hd body \<noteq> CHR ''-''" and "hd body \<noteq> CHR ''=''"
  shows "split_arg ((if double then ''--'' else ''-'') @ body) =
    (case split_once (CHR ''='') body of Some (name, inline) \<Rightarrow> FlagForm name (Some inline) | None \<Rightarrow> FlagForm body None)"
  using assms by (cases double; cases body) (simp_all add: split_arg_def cong: option.case_cong)

lemma split_arg_setting:
  assumes "name \<noteq> []" and "hd name \<noteq> CHR ''-''" and "CHR ''='' \<notin> set name"
  shows "split_arg ((if double then ''--'' else ''-'') @ name) = FlagForm name None"
    and "split_arg ((if double then ''--'' else ''-'') @ name @ CHR ''='' # raw) = FlagForm name (Some raw)"
proof -
  have "hd name \<noteq> CHR ''=''" using assms(1,3) by (metis hd_in_set)
  then show "split_arg ((if double then ''--'' else ''-'') @ name) = FlagForm name None"
    and "split_arg ((if double then ''--'' else ''-'') @ name @ CHR ''='' # raw) = FlagForm name (Some raw)"
    using assms split_arg_body [of name double] split_arg_body [of "name @ CHR ''='' # raw" double]
    by (simp_all add: split_once_append)
qed

lemma parse_setting:
  assumes ok: "setting_ok fs s" and i: "find_flag fs (st_name s) = Some i"
  shows "parse_flags (setting_args s @ rest) fs =
    (case set_flag_value (fs_flags fs ! i) (st_raw s) of
       Inl reason \<Rightarrow> (fs, Inl (BadValue (st_name s) (st_raw s) reason))
     | Inr f \<Rightarrow> parse_flags rest (store_flag i (f\<lparr>fl_set_by_cli := True\<rparr>) fs))"
proof -
  have k: "kinds fs (st_name s) = Some (fl_kind (fs_flags fs ! i))"
    using i by (simp add: kinds_flag_of flag_of_def)
  have n: "st_name s \<noteq> []" "hd (st_name s) \<noteq> CHR ''-''" "CHR ''='' \<notin> set (st_name s)"
    using ok by (simp_all add: setting_ok_def)
  show ?thesis
  proof (cases "st_form s")
    case Bare
    then have "fl_kind (fs_flags fs ! i) = KBool" "st_raw s = ''true''"
      using ok k by (simp_all add: setting_ok_def)
    with i Bare show ?thesis
      by (simp add: setting_args_def Let_def split_arg_setting [OF n] take_value_def del: if_split cong: sum.case_cong)
  qed (use ok k i in \<open>simp_all add: setting_ok_def setting_args_def Let_def split_arg_setting [OF n] take_value_def del: if_split\<close>)
qed

text \<open>C28. A command line that writes settings of registered flags, in any of the accepted forms, followed by the
  terminator and further arguments is parsed as the sequence of its assignments: the first invalid value stops it with
  its error and the flags set so far; else every flag has its last value (a slice all of them) and the remaining
  arguments are exactly those after the terminator.\<close>

theorem parse_flags_assigns:
  assumes "list_all (setting_ok fs) ss"
  shows "parse_flags (concat (map setting_args ss) @ ''--'' # tail) fs =
    (case assign_all ss fs of
       (fs', Inr _) \<Rightarrow> (fs'\<lparr>fs_remaining := tail\<rparr>, Inr ())
     | (fs', Inl e) \<Rightarrow> (fs', Inl e))"
  using assms
proof (induction ss arbitrary: fs)
  case Nil
  then show ?case by (simp add: split_arg_def)
next
  case (Cons s ss)
  have ok: "setting_ok fs s" "list_all (setting_ok fs) ss" using Cons.prems by simp_all
  then obtain i where i: "find_flag fs (st_name s) = Some i"
    by (auto simp: setting_ok_def kinds_flag_of flag_of_def split: option.splits)
  show ?case
  proof (cases "set_flag_value (fs_flags fs ! i) (st_raw s)")
    case (Inl r)
    then show ?thesis using i by (simp add: parse_setting [OF ok(1) i])
  next
    case (Inr f)
    let ?fs = "store_flag i (f\<lparr>fl_set_by_cli := True\<rparr>) fs"
    have "list_all (setting_ok ?fs) ss"
      using ok(2) kinds_keeps [OF assign_keeps(1) [OF i Inr]] by (simp add: setting_ok_def [abs_def])
    from Cons.IH [OF this] i Inr show ?thesis by (simp add: parse_setting [OF ok(1) i])
  qed
qed

theorem parse_flags_assigns_witness:
  "parse_flags [''--public-ip'', ''10.0.0.1'', ''-iface=eth0'', ''--iface'', ''-x'', ''--'', ''-v''] two_flags =
     (two_flags\<lparr>fs_flags := [\<lparr>fl_name = ''iface'', fl_kind = KSlice, fl_help = [], fl_value = VSlice [''eth0'', ''-x''],
          fl_default = VSlice [], fl_set_by_cli = True, fl_set_by_env = False\<rparr>,
        \<lparr>fl_name = ''public-ip'', fl_kind = KStr, fl_help = [], fl_value = VStr ''10.0.0.1'',
          fl_default = VStr [], fl_set_by_cli = True, fl_set_by_env = False\<rparr>], fs_remaining := [''-v'']\<rparr>, Inr ())"
proof -
  let ?ss = "[\<lparr>st_name = ''public-ip'', st_raw = ''10.0.0.1'', st_double = True, st_form = Separate\<rparr>,
    \<lparr>st_name = ''iface'', st_raw = ''eth0'', st_double = False, st_form = Inline\<rparr>,
    \<lparr>st_name = ''iface'', st_raw = ''-x'', st_double = True, st_form = Separate\<rparr>]"
  have "list_all (setting_ok two_flags) ?ss" by code_simp
  from parse_flags_assigns [OF this, of "[''-v'']"] show ?thesis
    by (simp add: setting_args_def two_flags_def register_slice_def register_string_def register_flag_def find_flag_def
        flag_set_new_def set_flag_value_def store_flag_def)
qed

section \<open>Numbers\<close>

lemma digits_value_Cons:
  "digits_value r (c # s) = (case to_digit r c of None \<Rightarrow> 0 | Some d \<Rightarrow> d) * r ^ length s + digits_value r s"
proof (induction s rule: rev_induct)
  case Nil
  then show ?case by (simp add: digits_value_def)
next
  case (snoc x s)
  then show ?case
    using digits_value_snoc [of r "c # s" x] digits_value_snoc [of r s x] by (simp add: add_mult_distrib)
qed

text \<open>The digits of a number that fits are read without overflow: what is read so far is never larger.\<close>

lemma radix_loop_fits:
  assumes "\<forall>c \<in> set s. is_digit r c" and "0 < r" and "0 \<le> acc"
    and "sg \<in> {1, -1}" and "in_i64 (sg * (acc * int r ^ length s + int (digits_value r s)))"
  shows "radix_loop r (sg = -1) s (sg * acc) = Inr (sg * (acc * int r ^ length s + int (digits_value r s)))"
  using assms
proof (induction s arbitrary: acc)
  case Nil
  then show ?case by (simp add: digits_value_def)
next
  case (Cons c s)
  obtain d where d: "to_digit r c = Some d" using Cons.prems(1) by auto
  let ?acc = "acc * int r + int d"
  have eq: "acc * int r ^ length (c # s) + int (digits_value r (c # s)) = ?acc * int r ^ length s + int (digits_value r s)"
    by (simp add: digits_value_Cons d algebra_simps)
  have "0 \<le> acc * int r" using Cons.prems(3) by simp
  moreover have "?acc \<le> ?acc * int r ^ length s + int (digits_value r s)"
    using mult_left_mono [of 1 "int r ^ length s" ?acc] Cons.prems(2) \<open>0 \<le> acc * int r\<close> by simp
  ultimately have fits: "in_i64 (sg * (acc * int r))" "in_i64 (sg * ?acc)"
    using Cons.prems(4,5) unfolding eq by (auto simp: in_i64_def)
  have "radix_loop r (sg = -1) s (sg * ?acc) = Inr (sg * (?acc * int r ^ length s + int (digits_value r s)))"
    by (rule Cons.IH) (use Cons.prems eq \<open>0 \<le> acc * int r\<close> in auto)
  moreover have "(if sg = -1 then sg * acc * int r - int d else sg * acc * int r + int d) = sg * ?acc"
    using Cons.prems(4) by (auto simp: algebra_simps)
  moreover have "sg * acc * int r = sg * (acc * int r)" by (simp add: mult.assoc)
  ultimately show ?case using fits unfolding eq by (simp only: radix_loop.simps d option.case Let_def) simp
qed

lemma lowercase_zero: "to_ascii_lowercase c = CHR ''0'' \<Longrightarrow> c = CHR ''0''"
proof -
  assume c: "to_ascii_lowercase c = CHR ''0''"
  show "c = CHR ''0''"
  proof (cases "65 \<le> (of_char c :: nat) \<and> (of_char c :: nat) \<le> 90")
    case True
    then have "(of_char (to_ascii_lowercase c) :: nat) = of_char c + 32" by (simp add: to_ascii_lowercase_def)
    then show ?thesis using c True by simp
  next
    case False
    then show ?thesis using c by (auto simp: to_ascii_lowercase_def Let_def split: if_splits)
  qed
qed

lemma split_radix_decimal: "split_radix (show_nat n) = (show_nat n, 10)"
proof -
  have zero: "digit_char 0 = CHR ''0''" by code_simp
  have "hd (show_nat n) \<noteq> CHR ''0''" if "1 < length (show_nat n)"
    using hd_show_nat_zero [OF that] zero by metis
  moreover obtain c cs where s: "show_nat n = c # cs" by (meson list.exhaust show_nat_not_Nil)
  ultimately have "cs = [] \<or> c \<noteq> CHR ''0'' \<and> to_ascii_lowercase c \<noteq> CHR ''0''" using lowercase_zero by auto
  then show ?thesis by (auto simp: s split_radix_def lower_def Let_def)
qed

lemma show_nat_sign: "hd (show_nat n) \<noteq> CHR ''+''" "hd (show_nat n) \<noteq> CHR ''-''"
  using show_nat_digits [OF hd_in_set [OF show_nat_not_Nil], of n] by (auto simp: to_digit_def)

lemma i64_from_str_show: "in_i64 i \<Longrightarrow> i64_from_str_radix (show_int i) 10 = Inr i"
proof -
  assume i: "in_i64 i"
  have digits: "\<forall>c \<in> set (show_nat (nat \<bar>i\<bar>)). is_digit 10 c" using show_nat_digits by blast
  have "radix_loop 10 (i < 0) (show_nat (nat \<bar>i\<bar>)) 0 = Inr i"
    using radix_loop_fits [OF digits, of 0 "1"] radix_loop_fits [OF digits, of 0 "-1"] i
    by (cases "i < 0") (simp_all add: digits_value_show_nat)
  moreover have "show_nat (nat i) \<noteq> ''+''" "show_nat (nat i) \<noteq> ''-''"
    using show_nat_sign [of "nat i"] by (metis list.sel(1))+
  ultimately show ?thesis using show_nat_sign [of "nat i"]
    by (cases "i < 0") (simp_all add: i64_from_str_radix_def show_int_def)
qed

lemma split_sign_show: "split_sign (show_int i) = (if i < 0 then (''-'', show_nat (nat (- i))) else ([], show_nat (nat i)))"
  using show_nat_sign [of "nat i"] by (cases "show_nat (nat i)") (simp_all add: split_sign_def show_int_def)

lemma flag_parse_int_show: "in_i64 i \<Longrightarrow> flag_parse_int (show_int i) = Inr i"
  using i64_from_str_show [of i] split_sign_show [of i] split_radix_decimal
  by (cases "i < 0") (simp_all add: flag_parse_int_def Let_def show_int_def)

text \<open>An integer flag reads back every 64-bit number from its decimal text, signs included, and everything it accepts
  is a 64-bit number. A sign after the radix prefix is accepted too, which \<open>strconv.ParseInt\<close> refuses.\<close>

theorem flag_int_roundtrip:
  "(flag_parse_int (show_int i) = Inr i \<longleftrightarrow> in_i64 i) \<and>
   flag_parse_int ''0x-5'' = Inr (- 5) \<and> flag_parse_int ''0+7'' = Inr 7"
proof -
  have "flag_parse_int ''0x-5'' = Inr (- 5)" "flag_parse_int ''0+7'' = Inr 7" by code_simp+
  then show ?thesis using flag_parse_int_range flag_parse_int_show by blast
qed

end
