(* ===== verification/Daemon.thy ===== *)
theory Daemon
  imports Flags Backends "HOL-Library.Sublist" "HOL-Library.Multiset"
begin

text \<open>
  The daemon (\<open>flanneld/src\<close>): \<open>daemon.rs\<close> with the creation of the manager and the wait for the configuration
  (\<open>subnet_mgr.rs\<close>), the choice of the interface (\<open>iface_select.rs\<close>), the health server (\<open>healthz.rs\<close>), the
  notification of systemd (\<open>systemd.rs\<close>) and \<open>main.rs\<close>. What the daemon calls on other objects (the subnet manager, the
  backend, the traffic manager, tasks and signals) are operations on the state of the world, a type variable; an
  operation returns the world as it and the tasks that ran meanwhile leave it. The daemon keeps the tasks it recorded,
  the ready flag and a trace of the calls that succeeded. Waiting for a task that never ends gives \<open>None\<close>. Log lines
  are not modelled.
\<close>

section \<open>The subnet manager\<close>

text \<open>\<open>KubeConfig\<close> and \<open>KubeClient\<close> are type variables, what makes them are operations.\<close>

record ('s, 'c, 'l, 'm) manager_env =
  me_resolve :: "string \<Rightarrow> string \<Rightarrow> ('s, err, 'c) step"
  me_client_new :: "'c \<Rightarrow> ('s, err, 'l) step"
  me_new_subnet_manager :: "'l \<Rightarrow> string \<Rightarrow> string \<Rightarrow> bool \<Rightarrow> ('s, err, 'm) step"

definition create_subnet_manager :: "('s, 'c, 'l, 'm) manager_env \<Rightarrow> options \<Rightarrow> ('s, err, 'm) step" where
  "create_subnet_manager me opts =
     (if \<not> op_kube_subnet_mgr opts
      then lift_result (Inl [''flannel-rust only supports --kube-subnet-mgr (no etcd)''])
      else
        then_do (me_resolve me (op_kube_api_url opts) (op_kubeconfig_file opts)) (\<lambda>config.
        then_do (me_client_new me config) (\<lambda>client.
        me_new_subnet_manager me client (op_kube_annotation_prefix opts) (op_net_config_path opts)
          (op_set_node_network_unavailable opts))))"

text \<open>One round of \<open>get_config\<close> asks the manager; between rounds the token may fire or a second pass (\<open>tick\<close>
  tells whether the token fired first). The typed sentinel \<open>Canceled\<close> is its only error.\<close>

datatype canceled = Canceled

partial_function (option) get_config ::
  "('s, err, config) step \<Rightarrow> ('s \<Rightarrow> 's \<times> bool) \<Rightarrow> 's \<Rightarrow> ('s \<times> (canceled + config)) option" where
  "get_config get_network_config tick s =
     (case get_network_config s of
        (s1, Inr config) \<Rightarrow> Some (s1, Inr config)
      | (s1, Inl e) \<Rightarrow>
          if snd (tick s1) then Some (fst (tick s1), Inl Canceled)
          else get_config get_network_config tick (fst (tick s1)))"

datatype stat = Present | NotFound string | StatError string

definition BR_NETFILTER_V4_PATH :: string where
  "BR_NETFILTER_V4_PATH = ''/proc/sys/net/bridge/bridge-nf-call-iptables''"

definition BR_NETFILTER_V6_PATH :: string where
  "BR_NETFILTER_V6_PATH = ''/proc/sys/net/bridge/bridge-nf-call-ip6tables''"

definition check_exists :: "(string \<Rightarrow> stat) \<Rightarrow> string \<Rightarrow> err + unit" where
  "check_exists metadata path =
     (case metadata path of
        Present \<Rightarrow> Inr ()
      | NotFound e \<Rightarrow> Inl [''Failed to check br_netfilter: '' @ e]
      | StatError _ \<Rightarrow> Inr ())"

definition check_br_netfilter_paths :: "(string \<Rightarrow> stat) \<Rightarrow> bool \<Rightarrow> bool \<Rightarrow> string \<Rightarrow> string \<Rightarrow> err + unit" where
  "check_br_netfilter_paths metadata v4 v6 v4_path v6_path =
     rbind (if v4 then check_exists metadata v4_path else Inr ()) (\<lambda>_.
     if v6 then check_exists metadata v6_path else Inr ())"

section \<open>The external interface\<close>

definition NO_MATCH :: string where
  "NO_MATCH = ''Failed to find interface to use that matches the interfaces and/or regexes provided''"

text \<open>A lookup of a list of names or patterns, in order, until one succeeds.\<close>

fun first_found :: "('a \<Rightarrow> err + 'b) \<Rightarrow> 'a list \<Rightarrow> 'b option" where
  "first_found look [] = None"
| "first_found look (x # xs) = (case look x of Inr found \<Rightarrow> Some found | Inl _ \<Rightarrow> first_found look xs)"

definition select_external_iface ::
  "(string \<Rightarrow> string + regex) \<Rightarrow> string + netlink \<Rightarrow> options \<Rightarrow> ip_stack \<Rightarrow> err + external_interface" where
  "select_external_iface regex_new netlink opts stack =
     (let public_opts = \<lparr>po_public_ip = op_public_ip opts, po_public_ip_v6 = op_public_ipv6 opts\<rparr>;
          no_explicit = (op_iface opts = [] \<and> op_iface_regex opts = [] \<and> op_iface_can_reach opts = [])
      in case netlink of
        Inl e \<Rightarrow> Inl [if no_explicit then ''Failed to find any valid interface to use: '' @ e else NO_MATCH]
      | Inr nl \<Rightarrow>
          if no_explicit then
            (let ifname = if op_public_ip opts \<noteq> [] then op_public_ip opts else op_public_ipv6 opts in
             case lookup_ext_iface regex_new nl ifname [] [] stack public_opts of
               Inl e \<Rightarrow> Inl [''Failed to find any valid interface to use: '' @ (case e of [] \<Rightarrow> [] | t # _ \<Rightarrow> t)]
             | Inr ei \<Rightarrow> Inr ei)
          else
            (let by_iface = first_found (\<lambda>iface. lookup_ext_iface regex_new nl iface [] [] stack public_opts) (op_iface opts);
                 by_pattern = (if by_iface = None
                   then first_found (\<lambda>re. lookup_ext_iface regex_new nl [] re [] stack public_opts) (op_iface_regex opts)
                   else by_iface);
                 found = (if by_pattern = None \<and> op_iface_can_reach opts \<noteq> []
                   then (case lookup_ext_iface regex_new nl [] [] (op_iface_can_reach opts) stack public_opts of
                           Inr ei \<Rightarrow> Some ei | Inl _ \<Rightarrow> by_pattern)
                   else by_pattern)
             in case found of Some ei \<Rightarrow> Inr ei | None \<Rightarrow> Inl [NO_MATCH]))"

section \<open>Health\<close>

definition healthz_handler :: "nat \<times> string" where
  "healthz_handler = (200, ''flanneld is running'')"

definition readyz_handler :: "bool \<Rightarrow> nat \<times> string" where
  "readyz_handler ready =
     (if ready then (200, ''flanneld is ready'') else (503, ''flanneld is not ready yet''))"

text \<open>The answer to a \<open>GET\<close> of one of the two routes.\<close>

definition healthz_router :: "bool \<Rightarrow> string \<Rightarrow> (nat \<times> string) option" where
  "healthz_router ready path =
     (if path = ''/healthz'' then Some healthz_handler
      else if path = ''/readyz'' then Some (readyz_handler ready)
      else None)"

definition healthz_listen_port :: "int \<Rightarrow> err + 16 word option" where
  "healthz_listen_port port =
     (if port \<le> 0 then Inr None
      else if port < 65536 then Inr (Some (of_int port))
      else Inl [''listen: invalid port '' @ show_int port])"

section \<open>systemd\<close>

datatype unix_addr = Abstract string | Pathname string

record 's notify_env =
  ne_socket_var :: "string option"
  ne_socket :: "('s, string, unit) step"
  ne_unix_addr :: "unix_addr \<Rightarrow> string + unit"
  ne_sendto :: "unix_addr \<Rightarrow> string \<Rightarrow> ('s, string, unit) step"

definition send_state :: "'s notify_env \<Rightarrow> string \<Rightarrow> string \<Rightarrow> ('s, err, unit) step" where
  "send_state ne socket_name state =
     then_do (on_err (\<lambda>e. [''failed to create notify socket: '' @ e]) (ne_socket ne)) (\<lambda>_.
     then_do (lift_result
       (case socket_name of
          CHR ''@'' # abstract_name \<Rightarrow>
            (case ne_unix_addr ne (Abstract abstract_name) of
               Inr _ \<Rightarrow> Inr (Abstract abstract_name) | Inl e \<Rightarrow> Inl [''bad abstract notify socket: '' @ e])
        | _ \<Rightarrow>
            (case ne_unix_addr ne (Pathname socket_name) of
               Inr _ \<Rightarrow> Inr (Pathname socket_name) | Inl e \<Rightarrow> Inl [''bad notify socket path: '' @ e]))) (\<lambda>addr.
     on_err (\<lambda>e. [''failed to send notify message: '' @ e]) (ne_sendto ne addr state)))"

definition sd_notify_ready :: "'s notify_env \<Rightarrow> ('s, err, unit) step" where
  "sd_notify_ready ne =
     (case ne_socket_var ne of
        None \<Rightarrow> give ()
      | Some path \<Rightarrow> if path = [] then give () else send_state ne path ''READY=1'')"

section \<open>The daemon\<close>

text \<open>The blackhole loops have their period in seconds.\<close>

datatype daemon_task = ShutdownHandler | HealthzServer | BlackholeV4 nat | BlackholeV6 nat | BackendRun

text \<open>The arguments of \<open>setup_and_ensure_masq_rules\<close>.\<close>

record masq_args =
  ma_network :: ip4net
  ma_prev_subnet :: ip4net
  ma_prev_network :: ip4net
  ma_ipv6_network :: ip6net
  ma_prev_ipv6_subnet :: ip6net
  ma_prev_ipv6_network :: ip6net
  ma_lease :: lease
  ma_resync_seconds :: int
  ma_random_fully_disable :: bool

record subnet_file_args =
  sa_path :: string
  sa_config :: config
  sa_ip_masq :: bool
  sa_subnet :: ip4net
  sa_ipv6_subnet :: ip6net
  sa_mtu :: u32

text \<open>What the daemon did, each recorded when it succeeded. The flag of a traffic manager is its argument
  \<open>use_nftables\<close>.\<close>

datatype act =
    Spawned daemon_task
  | Joined daemon_task
  | TokenCancelled
  | Registered lease
  | CleanedUp bool
  | Initialised bool
  | Masqueraded bool masq_args
  | Forwarded bool ip4net ip6net int
  | WroteSubnetFile subnet_file_args
  | ReadySet

text \<open>The errors of \<open>complete_lease\<close>: the sentinel of a revoked lease, or another one.\<close>

datatype complete_error = Interrupted | CompleteFailed err

record ('s, 'c, 'l, 'm, 'n) daemon_env =
  de_manager :: "('s, 'c, 'l, 'm) manager_env"
  de_signal :: "string \<Rightarrow> ('s, string, unit) step"
  de_bind :: "string \<Rightarrow> ('s, string, unit) step"
  de_get_network_config :: "'m \<Rightarrow> ('s, err, config) step"
  de_tick :: "'s \<Rightarrow> 's \<times> bool"
  de_metadata :: "'s \<Rightarrow> string \<Rightarrow> stat"
  de_stored_public_ip :: "'m \<Rightarrow> 's \<Rightarrow> 's \<times> (string \<times> string)"
  de_regex :: "string \<Rightarrow> string + regex"
  de_netlink :: "('s, string, netlink) step"
  de_register_network :: "'m backend \<Rightarrow> config \<Rightarrow> ('s, err, 'n) step"
  de_lease :: "'n \<Rightarrow> lease"
  de_mtu :: "'n \<Rightarrow> u32"
  de_clean_up :: "bool \<Rightarrow> ('s, err, unit) step"
  de_init :: "bool \<Rightarrow> ('s, err, unit) step"
  de_subnet_env :: "'s \<Rightarrow> string \<Rightarrow> string + string option"
  de_masq :: "bool \<Rightarrow> masq_args \<Rightarrow> ('s, err, unit) step"
  de_forward :: "bool \<Rightarrow> ip4net \<Rightarrow> ip6net \<Rightarrow> int \<Rightarrow> 's \<Rightarrow> 's"
  de_subnet_file :: "'m \<Rightarrow> subnet_file_args \<Rightarrow> ('s, err, unit) step"
  de_notify :: "'s notify_env"
  de_complete_lease :: "'m \<Rightarrow> lease \<Rightarrow> ('s, complete_error, unit) step"
  de_spawn :: "daemon_task \<Rightarrow> 's \<Rightarrow> 's"
  de_join :: "daemon_task \<Rightarrow> 's \<Rightarrow> 's option"
  de_cancel :: "'s \<Rightarrow> 's"

record 's daemon =
  dm_world :: 's
  dm_tasks :: "daemon_task list"
  dm_signal_task :: "daemon_task option"
  dm_ready :: bool
  dm_trace :: "act list"

text \<open>A step of the daemon does not return, stops \<open>run_inner\<close> with a code or an error, or goes on with a value.\<close>

datatype stop = Code int | Failed err

type_synonym ('s, 'a) dstep = "'s daemon \<Rightarrow> ('s daemon \<times> (stop + 'a)) option"

definition bnd :: "('s, 'a) dstep \<Rightarrow> ('a \<Rightarrow> ('s, 'b) dstep) \<Rightarrow> ('s, 'b) dstep" where
  "bnd m f d =
     (case m d of
        None \<Rightarrow> None
      | Some (d1, Inl x) \<Rightarrow> Some (d1, Inl x)
      | Some (d1, Inr v) \<Rightarrow> f v d1)"

definition stop_with :: "stop \<Rightarrow> ('s, 'a) dstep" where
  "stop_with x d = Some (d, Inl x)"

definition ret :: "'a \<Rightarrow> ('s, 'a) dstep" where
  "ret v d = Some (d, Inr v)"

text \<open>A call of the outside world, recorded when it succeeded.\<close>

definition call :: "('a \<Rightarrow> act list) \<Rightarrow> ('s, 'e, 'a) step \<Rightarrow> ('s, 'e + 'a) dstep" where
  "call note m d =
     (case m (dm_world d) of (w, r) \<Rightarrow>
        Some (d\<lparr>dm_world := w, dm_trace := dm_trace d @ (case r of Inl _ \<Rightarrow> [] | Inr v \<Rightarrow> note v)\<rparr>, Inr r))"

definition silent :: "'a \<Rightarrow> act list" where
  "silent _ = []"

definition update :: "('s \<Rightarrow> 's) \<Rightarrow> act list \<Rightarrow> ('s, unit) dstep" where
  "update f acts d = Some (d\<lparr>dm_world := f (dm_world d), dm_trace := dm_trace d @ acts\<rparr>, Inr ())"

definition reading :: "('s \<Rightarrow> 'a) \<Rightarrow> ('s, 'a) dstep" where
  "reading f d = Some (d, Inr (f (dm_world d)))"

text \<open>The error is logged and the daemon stops with exit code one.\<close>

definition or_exit :: "'e + 'a \<Rightarrow> ('s, 'a) dstep" where
  "or_exit r = (case r of Inl _ \<Rightarrow> stop_with (Code 1) | Inr v \<Rightarrow> ret v)"

definition spawn :: "('s, 'c, 'l, 'm, 'n) daemon_env \<Rightarrow> daemon_task \<Rightarrow> ('s, unit) dstep" where
  "spawn env t = update (de_spawn env t) [Spawned t]"

definition join_task :: "('s, 'c, 'l, 'm, 'n) daemon_env \<Rightarrow> daemon_task \<Rightarrow> ('s, unit) dstep" where
  "join_task env t d =
     (case de_join env t (dm_world d) of
        None \<Rightarrow> None
      | Some w \<Rightarrow> Some (d\<lparr>dm_world := w, dm_trace := dm_trace d @ [Joined t]\<rparr>, Inr ()))"

definition push_task :: "daemon_task \<Rightarrow> ('s, unit) dstep" where
  "push_task t d = Some (d\<lparr>dm_tasks := dm_tasks d @ [t]\<rparr>, Inr ())"

fun drain :: "('s, 'c, 'l, 'm, 'n) daemon_env \<Rightarrow> daemon_task list \<Rightarrow> ('s, unit) dstep" where
  "drain env [] = ret ()"
| "drain env (t # ts) = bnd (join_task env t) (\<lambda>_. drain env ts)"

definition drain_signal_task :: "('s, 'c, 'l, 'm, 'n) daemon_env \<Rightarrow> daemon_task option \<Rightarrow> ('s, unit) dstep" where
  "drain_signal_task env t = (case t of Some t \<Rightarrow> join_task env t | None \<Rightarrow> ret ())"

text \<open>Draining takes the recorded tasks first (\<open>mem::take\<close>), then the signal task.\<close>

definition drain_tasks :: "('s, 'c, 'l, 'm, 'n) daemon_env \<Rightarrow> ('s, unit) dstep" where
  "drain_tasks env d =
     bnd (drain env (dm_tasks d)) (\<lambda>_ d1. drain_signal_task env (dm_signal_task d) (d1\<lparr>dm_signal_task := None\<rparr>))
       (d\<lparr>dm_tasks := []\<rparr>)"

definition owns_shutdown_handler :: "options \<Rightarrow> bool" where
  "owns_shutdown_handler opts = op_install_signal_handlers opts"

definition install_shutdown_handler :: "('s, 'c, 'l, 'm, 'n) daemon_env \<Rightarrow> options \<Rightarrow> ('s, daemon_task option) dstep" where
  "install_shutdown_handler env opts =
     (if \<not> owns_shutdown_handler opts then ret None
      else
        bnd (call silent (de_signal env ''SIGINT'')) (\<lambda>sigint.
        case sigint of
          Inl e \<Rightarrow> stop_with (Failed [''install SIGINT handler: '' @ e])
        | Inr _ \<Rightarrow>
            bnd (call silent (de_signal env ''SIGTERM'')) (\<lambda>sigterm.
            case sigterm of
              Inl e \<Rightarrow> stop_with (Failed [''install SIGTERM handler: '' @ e])
            | Inr _ \<Rightarrow> bnd (spawn env ShutdownHandler) (\<lambda>_. ret (Some ShutdownHandler)))))"

text \<open>The result of \<open>start_healthz\<close> with the spawned server, or nothing when it is disabled.\<close>

definition spawn_healthz ::
  "('s, 'c, 'l, 'm, 'n) daemon_env \<Rightarrow> string \<Rightarrow> 16 word \<Rightarrow> ('s, err + daemon_task) dstep" where
  "spawn_healthz env listen_ip port =
     (let address = listen_ip @ '':'' @ show_nat (unat port) in
      bnd (call silent (de_bind env address)) (\<lambda>bound.
      case bound of
        Inl e \<Rightarrow> ret (Inl [''bind '' @ address @ '': '' @ e])
      | Inr _ \<Rightarrow> bnd (spawn env HealthzServer) (\<lambda>_. ret (Inr HealthzServer))))"

definition start_healthz :: "('s, 'c, 'l, 'm, 'n) daemon_env \<Rightarrow> options \<Rightarrow> ('s, err + daemon_task option) dstep" where
  "start_healthz env opts =
     (case healthz_listen_port (op_healthz_port opts) of
        Inl e \<Rightarrow> ret (Inl e)
      | Inr None \<Rightarrow> ret (Inr None)
      | Inr (Some port) \<Rightarrow>
          bnd (spawn_healthz env (op_healthz_ip opts) port) (\<lambda>r.
          ret (case r of Inl e \<Rightarrow> Inl e | Inr t \<Rightarrow> Inr (Some t))))"

definition complete_lease_exit_code :: "('s, 'c, 'l, 'm, 'n) daemon_env \<Rightarrow> complete_error + unit \<Rightarrow> ('s, int) dstep" where
  "complete_lease_exit_code env result =
     (case result of
        Inl Interrupted \<Rightarrow> bnd (update (de_cancel env) [TokenCancelled]) (\<lambda>_. ret 0)
      | _ \<Rightarrow> ret 0)"

subsection \<open>run\<open>_\<close>inner\<close>

definition attempt_call :: "('a \<Rightarrow> act list) \<Rightarrow> ('s, 'e, 'a) step \<Rightarrow> ('s, 'a) dstep" where
  "attempt_call note m = bnd (call note m) or_exit"

definition set_signal_task :: "daemon_task option \<Rightarrow> ('s, unit) dstep" where
  "set_signal_task t d = Some (d\<lparr>dm_signal_task := t\<rparr>, Inr ())"

text \<open>The manager, the signal handlers and the health server.\<close>

definition start_services :: "('s, 'c, 'l, 'm, 'n) daemon_env \<Rightarrow> options \<Rightarrow> ('s, 'm) dstep" where
  "start_services env opts =
     bnd (attempt_call silent (create_subnet_manager (de_manager env) opts)) (\<lambda>sm.
     bnd (install_shutdown_handler env opts) (\<lambda>signal_task.
     bnd (set_signal_task signal_task) (\<lambda>_.
     bnd (if op_healthz_port opts > 0
          then bnd (start_healthz env opts) (\<lambda>r. bnd (or_exit r) (\<lambda>t. case t of Some t \<Rightarrow> push_task t | None \<Rightarrow> ret ()))
          else ret ()) (\<lambda>_.
     ret sm))))"

text \<open>The configuration; a cancelled token ends the daemon with exit code zero here.\<close>

definition fetch_config :: "('s, 'c, 'l, 'm, 'n) daemon_env \<Rightarrow> 'm \<Rightarrow> ('s, config) dstep" where
  "fetch_config env sm d =
     (case get_config (de_get_network_config env sm) (de_tick env) (dm_world d) of
        None \<Rightarrow> None
      | Some (w, Inl Canceled) \<Rightarrow> Some (d\<lparr>dm_world := w\<rparr>, Inl (Code 0))
      | Some (w, Inr config) \<Rightarrow> Some (d\<lparr>dm_world := w\<rparr>, Inr config))"

text \<open>The addresses of the annotations override those of the options.\<close>

definition override_public_ip :: "string \<times> string \<Rightarrow> options \<Rightarrow> options" where
  "override_public_ip stored opts =
     (let opts = (if fst stored \<noteq> [] then opts\<lparr>op_public_ip := fst stored\<rparr> else opts)
      in if snd stored \<noteq> [] then opts\<lparr>op_public_ipv6 := snd stored\<rparr> else opts)"

definition choose_iface ::
  "('s, 'c, 'l, 'm, 'n) daemon_env \<Rightarrow> options \<Rightarrow> 'm \<Rightarrow> config \<Rightarrow> ('s, options \<times> external_interface) dstep" where
  "choose_iface env opts sm config =
     bnd (or_exit (get_ip_family (cfg_enable_ipv4 config) (cfg_enable_ipv6 config))) (\<lambda>stack.
     bnd (if cfg_enable_nftables config then ret ()
          else bnd (reading (de_metadata env)) (\<lambda>metadata.
            or_exit (check_br_netfilter_paths metadata (cfg_enable_ipv4 config) (cfg_enable_ipv6 config)
              BR_NETFILTER_V4_PATH BR_NETFILTER_V6_PATH))) (\<lambda>_.
     bnd (call silent (\<lambda>w. (fst (de_stored_public_ip env sm w), Inr (snd (de_stored_public_ip env sm w)) :: unit + string \<times> string))) (\<lambda>stored.
     let opts = (case stored of Inr ips \<Rightarrow> override_public_ip ips opts | Inl _ \<Rightarrow> opts) in
     bnd (call silent (de_netlink env)) (\<lambda>nl.
     bnd (or_exit (select_external_iface (de_regex env) nl opts stack)) (\<lambda>ei.
     ret (opts, ei))))))"

text \<open>The backend is created from the registry and registers the network.\<close>

definition register_backend ::
  "('s, 'c, 'l, 'm, 'n) daemon_env \<Rightarrow> 'm \<Rightarrow> config \<Rightarrow> external_interface \<Rightarrow> ('s, 'n) dstep" where
  "register_backend env sm config ei =
     bnd (or_exit (bm_create (default_registry (new_backend_manager sm)) (cfg_backend_type config) ei)) (\<lambda>be.
     attempt_call (\<lambda>bn. [Registered (de_lease env bn)]) (de_register_network env be config))"

definition masq_args_of ::
  "options \<Rightarrow> config \<Rightarrow> string + string option \<Rightarrow> lease \<Rightarrow> masq_args" where
  "masq_args_of opts config subnet_env l =
     \<lparr>ma_network = cfg_network config,
      ma_prev_subnet = read_cidr_from_subnet_file subnet_env ''FLANNEL_SUBNET'',
      ma_prev_network = read_cidr_from_subnet_file subnet_env ''FLANNEL_NETWORK'',
      ma_ipv6_network = cfg_ipv6_network config,
      ma_prev_ipv6_subnet = read_ip6_cidr_from_subnet_file subnet_env ''FLANNEL_IPV6_SUBNET'',
      ma_prev_ipv6_network = read_ip6_cidr_from_subnet_file subnet_env ''FLANNEL_IPV6_NETWORK'',
      ma_lease = l, ma_resync_seconds = op_iptables_resync_seconds opts,
      ma_random_fully_disable = op_ip_masq_random_fully_disable opts\<rparr>"

text \<open>The rules of the other traffic manager are removed, then those of the chosen one are set up.\<close>

definition set_up_traffic :: "('s, 'c, 'l, 'm, 'n) daemon_env \<Rightarrow> options \<Rightarrow> config \<Rightarrow> 'n \<Rightarrow> ('s, unit) dstep" where
  "set_up_traffic env opts config bn =
     (let nft = cfg_enable_nftables config in
      bnd (attempt_call (\<lambda>_. [CleanedUp (\<not> nft)]) (de_clean_up env (\<not> nft))) (\<lambda>_.
      bnd (attempt_call (\<lambda>_. [Initialised nft]) (de_init env nft)) (\<lambda>_.
      bnd (if op_ip_masq opts
           then bnd (reading (\<lambda>w. masq_args_of opts config (de_subnet_env env w (op_subnet_file opts)) (de_lease env bn))) (\<lambda>args.
             attempt_call (\<lambda>_. [Masqueraded nft args]) (de_masq env nft args))
           else ret ()) (\<lambda>_.
      if op_iptables_forward_rules opts
      then update (de_forward env nft (cfg_network config) (cfg_ipv6_network config) (op_iptables_resync_seconds opts))
        [Forwarded nft (cfg_network config) (cfg_ipv6_network config) (op_iptables_resync_seconds opts)]
      else ret ()))))"

definition start_blackholes :: "('s, 'c, 'l, 'm, 'n) daemon_env \<Rightarrow> options \<Rightarrow> config \<Rightarrow> ('s, unit) dstep" where
  "start_blackholes env opts config =
     (if op_blackhole_route opts then
        let period = nat (max 0 (op_iptables_resync_seconds opts)) in
        bnd (if cfg_enable_ipv4 config then bnd (spawn env (BlackholeV4 period)) (\<lambda>_. push_task (BlackholeV4 period)) else ret ()) (\<lambda>_.
        if cfg_enable_ipv6 config then bnd (spawn env (BlackholeV6 period)) (\<lambda>_. push_task (BlackholeV6 period)) else ret ())
      else ret ())"

definition set_ready :: "('s, unit) dstep" where
  "set_ready d = Some (d\<lparr>dm_ready := True, dm_trace := dm_trace d @ [ReadySet]\<rparr>, Inr ())"

definition subnet_file_args_of :: "options \<Rightarrow> config \<Rightarrow> lease \<Rightarrow> u32 \<Rightarrow> subnet_file_args" where
  "subnet_file_args_of opts config l mtu =
     \<lparr>sa_path = op_subnet_file opts, sa_config = config, sa_ip_masq = op_ip_masq opts, sa_subnet = subnet l,
      sa_ipv6_subnet = ipv6_subnet l, sa_mtu = mtu\<rparr>"

definition publish_subnet ::
  "('s, 'c, 'l, 'm, 'n) daemon_env \<Rightarrow> options \<Rightarrow> 'm \<Rightarrow> config \<Rightarrow> 'n \<Rightarrow> ('s, unit) dstep" where
  "publish_subnet env opts sm config bn =
     (let args = subnet_file_args_of opts config (de_lease env bn) (de_mtu env bn) in
      bnd (call (\<lambda>_. [WroteSubnetFile args]) (de_subnet_file env sm args)) (\<lambda>file_result.
      case file_result of Inl _ \<Rightarrow> ret () | Inr _ \<Rightarrow> set_ready))"

text \<open>The backend runs until it is cancelled; completing the lease never fails the daemon.\<close>

definition run_backend :: "('s, 'c, 'l, 'm, 'n) daemon_env \<Rightarrow> 'm \<Rightarrow> 'n \<Rightarrow> ('s, int) dstep" where
  "run_backend env sm bn =
     bnd (spawn env BackendRun) (\<lambda>_.
     bnd (call silent (sd_notify_ready (de_notify env))) (\<lambda>_.
     bnd (call silent (de_complete_lease env sm (de_lease env bn))) (\<lambda>lease_result.
     bnd (complete_lease_exit_code env lease_result) (\<lambda>exit_code.
     bnd (join_task env BackendRun) (\<lambda>_.
     bnd (drain_tasks env) (\<lambda>_.
     ret exit_code))))))"

definition run_inner :: "('s, 'c, 'l, 'm, 'n) daemon_env \<Rightarrow> options \<Rightarrow> ('s, int) dstep" where
  "run_inner env opts =
     bnd (start_services env opts) (\<lambda>sm.
     bnd (fetch_config env sm) (\<lambda>config.
     bnd (choose_iface env opts sm config) (\<lambda>(opts, ei).
     bnd (register_backend env sm config ei) (\<lambda>bn.
     bnd (set_up_traffic env opts config bn) (\<lambda>_.
     bnd (start_blackholes env opts config) (\<lambda>_.
     bnd (publish_subnet env opts sm config bn) (\<lambda>_.
     run_backend env sm bn)))))))"

subsection \<open>run and main\<close>

definition new_daemon :: "'s \<Rightarrow> 's daemon" where
  "new_daemon w = \<lparr>dm_world = w, dm_tasks = [], dm_signal_task = None, dm_ready = False, dm_trace = []\<rparr>"

definition bad_margin :: "options \<Rightarrow> bool" where
  "bad_margin opts \<longleftrightarrow> op_subnet_lease_renew_margin opts \<ge> 24 * 60 \<or> op_subnet_lease_renew_margin opts \<le> 0"

definition clean_shutdown :: "('s, 'c, 'l, 'm, 'n) daemon_env \<Rightarrow> ('s, unit) dstep" where
  "clean_shutdown env = bnd (update (de_cancel env) [TokenCancelled]) (\<lambda>_. drain_tasks env)"

fun exit_result :: "stop + int \<Rightarrow> err + int" where
  "exit_result (Inr code) = Inr code"
| "exit_result (Inl (Code code)) = Inr code"
| "exit_result (Inl (Failed e)) = Inl e"

definition run :: "('s, 'c, 'l, 'm, 'n) daemon_env \<Rightarrow> options \<Rightarrow> 's \<Rightarrow> ('s daemon \<times> (err + int)) option" where
  "run env opts w =
     (if op_version opts then Some (new_daemon w, Inr 0)
      else if bad_margin opts then Some (new_daemon w, Inr 1)
      else case run_inner env opts (new_daemon w) of
        None \<Rightarrow> None
      | Some (d, result) \<Rightarrow>
          (case clean_shutdown env d of None \<Rightarrow> None | Some (d', _) \<Rightarrow> Some (d', exit_result result)))"

text \<open>How the process ends: with an exit code, by a panic, or not at all.\<close>

datatype process_end = Exit int | Panic | Diverges

definition flanneld_main ::
  "('s, 'c, 'l, 'm, 'n) daemon_env \<Rightarrow> string list \<Rightarrow> (string \<Rightarrow> string) \<Rightarrow> 's \<Rightarrow> process_end" where
  "flanneld_main env args vars w =
     (case build_flag_set of
        None \<Rightarrow> Panic
      | Some fs \<Rightarrow>
          (case parse_flags args fs of
             (_, Inl Help) \<Rightarrow> Exit 0
           | (_, Inl _) \<Rightarrow> Exit 2
           | (fs1, Inr _) \<Rightarrow>
               (case options_from_flag_set (fst (set_flags_from_env vars ''FLANNELD'' fs1)) of
                  None \<Rightarrow> Panic
                | Some opts \<Rightarrow>
                    (case run env opts w of
                       None \<Rightarrow> Diverges
                     | Some (_, Inr code) \<Rightarrow> Exit code
                     | Some (_, Inl _) \<Rightarrow> Exit 1))))"

section \<open>The tasks of the daemon\<close>

text \<open>What wakes the shutdown handler; the token is cancelled when a signal came first.\<close>

datatype shutdown_wake = TokenFired | SignalReceived

definition shutdown_handler :: "('s, 'c, 'l, 'm, 'n) daemon_env \<Rightarrow> shutdown_wake \<Rightarrow> 's \<Rightarrow> 's" where
  "shutdown_handler env wake w = (case wake of TokenFired \<Rightarrow> w | SignalReceived \<Rightarrow> de_cancel env w)"

record 'k blackhole_kernel =
  bk_netlink :: "'k \<Rightarrow> string + netlink"
  bk_route_add :: "route_message \<Rightarrow> 'k \<Rightarrow> 'k \<times> string option"

text \<open>One round of a loop: a new connection, then the route. The error is logged.\<close>

definition blackhole_round ::
  "'k blackhole_kernel \<Rightarrow> (netlink \<Rightarrow> (route_message \<Rightarrow> string option) \<Rightarrow> route_message option \<times> (err + unit)) \<Rightarrow> 'k \<Rightarrow> 'k" where
  "blackhole_round kern add k =
     (case bk_netlink kern k of
        Inl e \<Rightarrow> k
      | Inr nl \<Rightarrow>
          (case fst (add nl (\<lambda>msg. snd (bk_route_add kern msg k))) of
             None \<Rightarrow> k
           | Some msg \<Rightarrow> fst (bk_route_add kern msg k)))"

text \<open>The loops consume what ends their waits: \<open>None\<close> when the token fired, or the period with what the rest of the
  system did to the kernel meanwhile.\<close>

fun blackhole_v4_loop :: "'k blackhole_kernel \<Rightarrow> lease \<Rightarrow> ('k \<Rightarrow> 'k) option list \<Rightarrow> 'k \<Rightarrow> 'k" where
  "blackhole_v4_loop kern l [] k = k"
| "blackhole_v4_loop kern l (None # ws) k = k"
| "blackhole_v4_loop kern l (Some f # ws) k =
     blackhole_v4_loop kern l ws (blackhole_round kern (\<lambda>nl ans. add_blackhole_v4_route nl ans (subnet l)) (f k))"

fun blackhole_v6_loop :: "'k blackhole_kernel \<Rightarrow> lease \<Rightarrow> ('k \<Rightarrow> 'k) option list \<Rightarrow> 'k \<Rightarrow> 'k" where
  "blackhole_v6_loop kern l [] k = k"
| "blackhole_v6_loop kern l (None # ws) k = k"
| "blackhole_v6_loop kern l (Some f # ws) k =
     blackhole_v6_loop kern l ws (blackhole_round kern (\<lambda>nl ans. add_blackhole_v6_route nl ans (ipv6_subnet l)) (f k))"

section \<open>A calculus for the steps\<close>

text \<open>A triple with a postcondition for a value and one for a stop; a step that does not return satisfies it.\<close>

definition hoare ::
  "('s daemon \<Rightarrow> bool) \<Rightarrow> ('s, 'a) dstep \<Rightarrow> ('a \<Rightarrow> 's daemon \<Rightarrow> bool) \<Rightarrow> (stop \<Rightarrow> 's daemon \<Rightarrow> bool) \<Rightarrow> bool" where
  "hoare P m Q E \<longleftrightarrow>
     (\<forall>d d' r. P d \<longrightarrow> m d = Some (d', r) \<longrightarrow> (case r of Inr v \<Rightarrow> Q v d' | Inl x \<Rightarrow> E x d'))"

named_theorems triples "triples of the operations, for both invariants"

lemma hoareI:
  assumes "\<And>d d' r. P d \<Longrightarrow> m d = Some (d', r) \<Longrightarrow> (case r of Inr v \<Rightarrow> Q v d' | Inl x \<Rightarrow> E x d')"
  shows "hoare P m Q E"
  using assms by (auto simp: hoare_def)

lemma hoare_value: "hoare P m Q E \<Longrightarrow> P d \<Longrightarrow> m d = Some (d', Inr v) \<Longrightarrow> Q v d'"
  by (auto simp: hoare_def split: sum.splits)

lemma hoare_stop: "hoare P m Q E \<Longrightarrow> P d \<Longrightarrow> m d = Some (d', Inl x) \<Longrightarrow> E x d'"
  by (auto simp: hoare_def split: sum.splits)

lemma hoare_bnd [intro?]:
  assumes "hoare P m R E" and "\<And>v. hoare (R v) (f v) Q E"
  shows "hoare P (bnd m f) Q E"
proof (rule hoareI)
  fix d d' r assume d: "P d" "bnd m f d = Some (d', r)"
  then consider x where "m d = Some (d', Inl x)" "r = Inl x"
    | v d1 where "m d = Some (d1, Inr v)" "f v d1 = Some (d', r)"
    by (auto simp: bnd_def split: option.splits prod.splits sum.splits)
  then show "case r of Inr v \<Rightarrow> Q v d' | Inl x \<Rightarrow> E x d'"
  proof cases
    case 1
    then show ?thesis using hoare_stop [OF assms(1) d(1)] by simp
  next
    case 2
    then show ?thesis using hoare_value [OF assms(1) d(1)] assms(2) [of v] by (auto simp: hoare_def)
  qed
qed

lemma hoare_conseq:
  assumes "hoare P' m Q' E'" and "\<And>d. P d \<Longrightarrow> P' d" and "\<And>v d. Q' v d \<Longrightarrow> Q v d" and "\<And>x d. E' x d \<Longrightarrow> E x d"
  shows "hoare P m Q E"
  using assms unfolding hoare_def by (fastforce split: sum.splits)

lemma hoare_ret: "(\<And>d. P d \<Longrightarrow> Q v d) \<Longrightarrow> hoare P (ret v) Q E"
  by (auto simp: hoare_def ret_def)

lemma hoare_halt: "(\<And>d. P d \<Longrightarrow> E x d) \<Longrightarrow> hoare P (stop_with x) Q E"
  by (auto simp: hoare_def stop_with_def)

lemma hoare_or_exit:
  "(\<And>v d. P d \<Longrightarrow> r = Inr v \<Longrightarrow> Q v d) \<Longrightarrow> (\<And>d. P d \<Longrightarrow> E (Code 1) d) \<Longrightarrow> hoare P (or_exit r) Q E"
  by (cases r) (auto simp: or_exit_def intro: hoare_ret hoare_halt)

lemma hoare_call:
  assumes "\<And>d w v. P d \<Longrightarrow> Q (Inr v) (d\<lparr>dm_world := w, dm_trace := dm_trace d @ note v\<rparr>)"
    and "\<And>d w e. P d \<Longrightarrow> Q (Inl e) (d\<lparr>dm_world := w\<rparr>)"
  shows "hoare P (call note m) Q E"
proof (rule hoareI)
  fix d d' r assume d: "P d" "call note m d = Some (d', r)"
  obtain w x where "m (dm_world d) = (w, x)" by fastforce
  with d assms(1) [of d _ w] assms(2) [of d _ w] show "case r of Inr v \<Rightarrow> Q v d' | Inl x \<Rightarrow> E x d'"
    by (cases x) (auto simp: call_def)
qed

lemma hoare_update:
  "(\<And>d w. P d \<Longrightarrow> Q () (d\<lparr>dm_world := w, dm_trace := dm_trace d @ acts\<rparr>)) \<Longrightarrow> hoare P (update f acts) Q E"
  by (auto simp: hoare_def update_def)

lemma hoare_reading: "(\<And>v d. P d \<Longrightarrow> Q v d) \<Longrightarrow> hoare P (reading f) Q E"
  by (auto simp: hoare_def reading_def)

lemma hoare_join:
  "(\<And>d w. P d \<Longrightarrow> Q () (d\<lparr>dm_world := w, dm_trace := dm_trace d @ [Joined t]\<rparr>)) \<Longrightarrow> hoare P (join_task env t) Q E"
  by (auto simp: hoare_def join_task_def split: option.splits)

lemma hoare_fetch_config:
  "(\<And>c d w. P d \<Longrightarrow> Q c (d\<lparr>dm_world := w\<rparr>)) \<Longrightarrow> (\<And>d w. P d \<Longrightarrow> E (Code 0) (d\<lparr>dm_world := w\<rparr>)) \<Longrightarrow>
   hoare P (fetch_config env sm) Q E"
  by (auto simp: hoare_def fetch_config_def split: option.splits sum.splits canceled.splits)

section \<open>Every task is awaited\<close>

text \<open>The tasks that were spawned and not yet awaited; nothing when a task was awaited that was not running.\<close>

fun pending_after :: "daemon_task list \<Rightarrow> act list \<Rightarrow> daemon_task list option" where
  "pending_after p [] = Some p"
| "pending_after p (Spawned t # as) = pending_after (t # p) as"
| "pending_after p (Joined t # as) = (if t \<in> set p then pending_after (remove1 t p) as else None)"
| "pending_after p (a # as) = pending_after p as"

definition pending_tasks :: "act list \<Rightarrow> daemon_task list option" where
  "pending_tasks as = pending_after [] as"

lemma pending_after_append:
  "pending_after p (as @ bs) = Option.bind (pending_after p as) (\<lambda>q. pending_after q bs)"
  by (induction p as rule: pending_after.induct) auto

text \<open>The pending tasks are those recorded and, for handles held in local variables, \<open>extra\<close>.\<close>

definition accounted :: "daemon_task multiset \<Rightarrow> 's daemon \<Rightarrow> bool" where
  "accounted extra d \<longleftrightarrow>
     (\<exists>p. pending_tasks (dm_trace d) = Some p \<and> mset p = mset (dm_tasks d) + mset_set (set_option (dm_signal_task d)) + extra)"

definition task_act :: "act \<Rightarrow> bool" where
  "task_act a \<longleftrightarrow> (\<exists>t. a = Spawned t \<or> a = Joined t)"

lemma pending_after_other: "\<forall>a \<in> set as. \<not> task_act a \<Longrightarrow> pending_after p as = Some p"
  by (induction p as rule: pending_after.induct) (auto simp: task_act_def)

lemma accounted_world [simp]: "accounted extra (d\<lparr>dm_world := w\<rparr>) \<longleftrightarrow> accounted extra d"
  by (simp add: accounted_def)

lemma accounted_other:
  assumes "accounted extra d" and "\<forall>a \<in> set as. \<not> task_act a"
  shows "accounted extra (d\<lparr>dm_world := w, dm_trace := dm_trace d @ as\<rparr>)"
  using assms by (auto simp: accounted_def pending_tasks_def pending_after_append pending_after_other)

lemma accounted_spawned:
  "accounted extra d \<Longrightarrow> accounted (extra + {#t#}) (d\<lparr>dm_world := w, dm_trace := dm_trace d @ [Spawned t]\<rparr>)"
  by (auto simp: accounted_def pending_tasks_def pending_after_append)

lemma accounted_joined:
  assumes "accounted (extra + {#t#}) d"
  shows "accounted extra (d\<lparr>dm_world := w, dm_trace := dm_trace d @ [Joined t]\<rparr>)"
proof -
  obtain p where p: "pending_tasks (dm_trace d) = Some p"
      "mset p = mset (dm_tasks d) + mset_set (set_option (dm_signal_task d)) + (extra + {#t#})"
    using assms by (auto simp: accounted_def)
  then have "t \<in># mset p" by simp
  then have "t \<in> set p" by simp
  with p show ?thesis by (auto simp: accounted_def pending_tasks_def pending_after_append)
qed

lemma accounted_empty: "accounted {#} d \<Longrightarrow> dm_tasks d = [] \<Longrightarrow> dm_signal_task d = None \<Longrightarrow> pending_tasks (dm_trace d) = Some []"
  by (auto simp: accounted_def)

text \<open>Exit codes of a stop: zero or one.\<close>

definition stops_well :: "stop \<Rightarrow> bool" where
  "stops_well x \<longleftrightarrow> (case x of Code c \<Rightarrow> c = 0 \<or> c = 1 | Failed _ \<Rightarrow> True)"

abbreviation keeps :: "daemon_task multiset \<Rightarrow> ('s, 'a) dstep \<Rightarrow> bool" where
  "keeps extra m \<equiv> hoare (accounted extra) m (\<lambda>_. accounted extra) (\<lambda>x d. stops_well x \<and> accounted extra d)"

lemma stops_well_Code [simp]: "stops_well (Code 0)" "stops_well (Code 1)" "stops_well (Failed e)"
  by (simp_all add: stops_well_def)

lemma keeps_call: "\<forall>v. \<forall>a \<in> set (note v). \<not> task_act a \<Longrightarrow> keeps extra (call note m)"
  by (rule hoare_call) (simp_all add: accounted_other)

lemma keeps_silent [triples]: "keeps extra (call silent m)"
  by (rule keeps_call) (simp add: silent_def)

lemma keeps_ret [triples]: "keeps extra (ret v)"
  by (rule hoare_ret)

lemma keeps_or_exit [triples]: "keeps extra (or_exit r)"
  by (rule hoare_or_exit) simp_all

lemma keeps_reading [triples]: "keeps extra (reading f)"
  by (rule hoare_reading)

lemma keeps_attempt: "\<forall>v. \<forall>a \<in> set (note v). \<not> task_act a \<Longrightarrow> keeps extra (attempt_call note m)"
  unfolding attempt_call_def by (rule hoare_bnd [OF keeps_call keeps_or_exit])

lemma keeps_attempt_silent [triples]: "keeps extra (attempt_call silent m)"
  by (rule keeps_attempt) (simp add: silent_def)

lemma keeps_update: "\<forall>a \<in> set as. \<not> task_act a \<Longrightarrow> keeps extra (update f as)"
  by (rule hoare_update) (simp add: accounted_other)

lemma keeps_fetch_config [triples]: "keeps extra (fetch_config env sm)"
  by (rule hoare_fetch_config) simp_all

lemma keeps_bnd: "keeps extra m \<Longrightarrow> (\<And>v. keeps extra (f v)) \<Longrightarrow> keeps extra (bnd m f)"
  by (rule hoare_bnd)

lemma spawn_triple: "hoare (accounted extra) (spawn env t) (\<lambda>_. accounted (extra + {#t#})) E"
  unfolding spawn_def by (rule hoare_update) (rule accounted_spawned)

lemma push_triple: "hoare (accounted (extra + {#t#})) (push_task t) (\<lambda>_. accounted extra) E"
  by (auto simp: hoare_def push_task_def accounted_def)

lemma keeps_spawn_push: "keeps extra (bnd (spawn env t) (\<lambda>_. push_task t))"
  by (rule hoare_bnd [OF spawn_triple push_triple])

lemma join_triple: "hoare (accounted (extra + {#t#})) (join_task env t) (\<lambda>_. accounted extra) E"
  by (rule hoare_join) (rule accounted_joined)

text \<open>The signal task is recorded while none is.\<close>

definition no_signal :: "daemon_task multiset \<Rightarrow> 's daemon \<Rightarrow> bool" where
  "no_signal extra d \<longleftrightarrow> accounted extra d \<and> dm_signal_task d = None"

lemma signal_call: "hoare (no_signal {#}) (call silent m) (\<lambda>_. no_signal {#}) E"
  by (rule hoare_call) (simp_all add: no_signal_def accounted_other silent_def)

lemma signal_installed:
  "hoare (no_signal {#}) (bnd (install_shutdown_handler env opts) set_signal_task) (\<lambda>_. accounted {#})
     (\<lambda>x d. stops_well x \<and> accounted {#} d)"
proof -
  have set_None: "hoare (no_signal {#}) (set_signal_task None) (\<lambda>_. accounted {#}) E"
    and set_Some: "hoare (no_signal {#t#}) (set_signal_task (Some t)) (\<lambda>_. accounted {#}) E" for t E
    by (auto simp: hoare_def set_signal_task_def no_signal_def accounted_def)
  have sp: "hoare (no_signal {#}) (spawn env t) (\<lambda>_. no_signal {#t#}) E" for t E
    unfolding spawn_def by (rule hoare_update) (auto simp: no_signal_def dest: accounted_spawned [of "{#}", where t = t])
  have handed: "hoare (no_signal {#}) (install_shutdown_handler env opts)
      (\<lambda>t. case t of None \<Rightarrow> no_signal {#} | Some t \<Rightarrow> no_signal {#t#}) (\<lambda>x d. stops_well x \<and> accounted {#} d)"
    unfolding install_shutdown_handler_def
    by (auto intro!: hoare_ret hoare_halt hoare_bnd [OF signal_call] hoare_bnd [OF sp] simp: no_signal_def split: sum.splits)
  show ?thesis
    by (rule hoare_bnd [OF handed]) (auto intro: set_None set_Some split: option.splits)
qed

lemma healthz_started: "keeps extra (bnd (start_healthz env opts)
    (\<lambda>r. bnd (or_exit r) (\<lambda>t. case t of Some t \<Rightarrow> push_task t | None \<Rightarrow> ret ())))"
proof -
  let ?Q = "\<lambda>r. case r of Inr (Some t) \<Rightarrow> accounted (extra + {#t#}) | _ \<Rightarrow> accounted extra"
  let ?E = "\<lambda>x d. stops_well x \<and> accounted extra d"
  have spawned: "hoare (accounted extra) (spawn_healthz env ip port)
      (\<lambda>r. case r of Inr t \<Rightarrow> accounted (extra + {#t#}) | Inl _ \<Rightarrow> accounted extra) ?E" for ip port
    unfolding spawn_healthz_def Let_def
    by (rule hoare_bnd [OF keeps_silent]) (auto intro!: hoare_ret hoare_bnd [OF spawn_triple] split: sum.splits)
  have "hoare (accounted extra) (start_healthz env opts) ?Q ?E"
    unfolding start_healthz_def
    by (auto intro!: hoare_ret hoare_bnd [OF spawned] split: sum.splits option.splits)
  then show ?thesis
  proof (rule hoare_bnd)
    fix r :: "err + daemon_task option"
    show "hoare (?Q r) (bnd (or_exit r) (\<lambda>t. case t of Some t \<Rightarrow> push_task t | None \<Rightarrow> ret ())) (\<lambda>_. accounted extra) ?E"
      by (cases r; cases "projr r")
        (auto simp: or_exit_def bnd_def stop_with_def ret_def push_task_def hoare_def accounted_def)
  qed
qed

lemma services_started:
  "hoare (no_signal {#}) (start_services env opts) (\<lambda>_. accounted {#}) (\<lambda>x d. stops_well x \<and> accounted {#} d)"
proof -
  let ?E = "\<lambda>x d. stops_well x \<and> accounted {#} d"
  have manager: "hoare (no_signal {#}) (attempt_call silent m) (\<lambda>_. no_signal {#}) ?E" for m
    unfolding attempt_call_def by (rule hoare_bnd [OF signal_call]) (auto intro!: hoare_or_exit simp: no_signal_def)
  have assoc: "bnd (install_shutdown_handler env opts) (\<lambda>t. bnd (set_signal_task t) f) =
      bnd (bnd (install_shutdown_handler env opts) set_signal_task) f" for f
    by (auto simp: bnd_def fun_eq_iff split: option.splits prod.splits sum.splits)
  show ?thesis
    unfolding start_services_def assoc
    by (rule hoare_bnd [OF manager], rule hoare_bnd [OF signal_installed], rule hoare_bnd)
      (auto intro: healthz_started keeps_ret)
qed

lemma keeps_choose_iface [triples]: "keeps extra (choose_iface env opts sm config)"
  unfolding choose_iface_def Let_def by (intro keeps_bnd triples) (auto intro!: keeps_bnd triples split: if_splits)

lemma keeps_register_backend [triples]: "keeps extra (register_backend env sm config ei)"
  unfolding register_backend_def by (intro keeps_bnd triples keeps_attempt) (simp add: task_act_def)

lemma keeps_set_up_traffic [triples]: "keeps extra (set_up_traffic env opts config bn)"
  unfolding set_up_traffic_def Let_def
  by (auto intro!: keeps_bnd keeps_attempt keeps_update triples simp: task_act_def)

lemma keeps_start_blackholes [triples]: "keeps extra (start_blackholes env opts config)"
  unfolding start_blackholes_def Let_def
  by (auto intro!: keeps_bnd [OF keeps_spawn_push] keeps_bnd keeps_spawn_push triples split: if_splits)

lemma keeps_publish_subnet [triples]: "keeps extra (publish_subnet env opts sm config bn)"
proof -
  have "keeps extra set_ready"
    by (auto simp: hoare_def set_ready_def accounted_def pending_tasks_def pending_after_append)
  then show ?thesis
    unfolding publish_subnet_def Let_def
    by (auto intro!: keeps_bnd keeps_call triples simp: task_act_def split: sum.splits)
qed

text \<open>Draining awaits what is recorded and leaves nothing recorded.\<close>

lemma drain_result:
  "drain env ts d = Some (d', r) \<Longrightarrow>
   r = Inr () \<and> dm_trace d' = dm_trace d @ map Joined ts \<and> dm_tasks d' = dm_tasks d \<and>
   dm_signal_task d' = dm_signal_task d \<and> dm_ready d' = dm_ready d"
proof (induction ts arbitrary: d)
  case Nil
  then show ?case by (auto simp: ret_def)
next
  case (Cons t ts)
  then obtain w where "drain env ts (d\<lparr>dm_world := w, dm_trace := dm_trace d @ [Joined t]\<rparr>) = Some (d', r)"
    by (auto simp: bnd_def join_task_def split: option.splits)
  from Cons.IH [OF this] show ?case by auto
qed

definition handles :: "'s daemon \<Rightarrow> daemon_task list" where
  "handles d = dm_tasks d @ (case dm_signal_task d of None \<Rightarrow> [] | Some t \<Rightarrow> [t])"

lemma drain_tasks_result:
  assumes "drain_tasks env d = Some (d', r)"
  shows "r = Inr () \<and> dm_trace d' = dm_trace d @ map Joined (handles d) \<and> dm_tasks d' = [] \<and>
    dm_signal_task d' = None \<and> dm_ready d' = dm_ready d"
proof -
  obtain d1 r1 where d1: "drain env (dm_tasks d) (d\<lparr>dm_tasks := []\<rparr>) = Some (d1, r1)"
    using assms by (auto simp: drain_tasks_def bnd_def split: option.splits)
  from drain_result [OF this] assms d1 show ?thesis
    by (auto simp: drain_tasks_def bnd_def drain_signal_task_def ret_def handles_def join_task_def split: option.splits)
qed

lemma pending_joined_all:
  "mset p = mset ts + M \<Longrightarrow> \<exists>q. pending_after p (map Joined ts) = Some q \<and> mset q = M"
proof (induction ts arbitrary: p)
  case (Cons t ts)
  then have "t \<in># mset p" by simp
  then have "t \<in> set p" by simp
  moreover have "mset (remove1 t p) = mset ts + M" using Cons.prems by simp
  ultimately show ?case using Cons.IH by simp
qed simp

lemma drained:
  "hoare (accounted extra) (drain_tasks env)
     (\<lambda>_ d. accounted extra d \<and> dm_tasks d = [] \<and> dm_signal_task d = None) E"
proof (rule hoareI)
  fix d d' :: "'a daemon" and r :: "stop + unit" assume acc: "accounted extra d" and "drain_tasks env d = Some (d', r)"
  then have d': "r = Inr ()" "dm_trace d' = dm_trace d @ map Joined (handles d)" "dm_tasks d' = []" "dm_signal_task d' = None"
    by (auto dest: drain_tasks_result)
  have "mset (handles d) = mset (dm_tasks d) + mset_set (set_option (dm_signal_task d))"
    by (auto simp: handles_def split: option.splits)
  then obtain p where "pending_tasks (dm_trace d) = Some p" "mset p = mset (handles d) + extra"
    using acc by (auto simp: accounted_def)
  then have "accounted extra d'"
    using d' pending_joined_all by (auto simp: accounted_def pending_tasks_def pending_after_append)
  then show "case r of Inr v \<Rightarrow> accounted extra d' \<and> dm_tasks d' = [] \<and> dm_signal_task d' = None | Inl x \<Rightarrow> E x d'"
    by (simp add: d')
qed

lemma run_backend_keeps:
  "hoare (accounted {#}) (run_backend env sm bn) (\<lambda>c d. c = 0 \<and> accounted {#} d) E"
proof -
  let ?b = "{#} + {#BackendRun#}"
  have code: "hoare (accounted ?b) (complete_lease_exit_code env result) (\<lambda>c d. c = 0 \<and> accounted ?b d) E" for result
  proof (cases "result = Inl Interrupted")
    case True
    have "keeps ?b (update (de_cancel env) [TokenCancelled])" by (rule keeps_update) (simp add: task_act_def)
    then show ?thesis
      unfolding complete_lease_exit_code_def True
      by (auto simp: hoare_def bnd_def ret_def update_def)
  next
    case False
    then show ?thesis
      by (auto simp: complete_lease_exit_code_def hoare_def ret_def split: sum.splits complete_error.splits)
  qed
  have call: "hoare (accounted ?b) (call silent m) (\<lambda>_. accounted ?b) E" for m :: "('a, 'z, 'y) step"
    by (rule hoare_call) (simp_all add: accounted_other silent_def)
  have rest: "hoare (\<lambda>d. c = 0 \<and> accounted ?b d) (bnd (join_task env BackendRun) (\<lambda>_. bnd (drain_tasks env) (\<lambda>_. ret c)))
      (\<lambda>c d. c = 0 \<and> accounted {#} d) E" for c :: int
  proof (cases "c = 0")
    case True
    show ?thesis
      by (rule hoare_bnd [where R = "\<lambda>_. accounted {#}"], rule hoare_conseq [OF join_triple [of "{#}" BackendRun]])
        (auto intro!: hoare_bnd [OF drained] hoare_ret simp: True)
  qed (simp add: hoare_def)
  show ?thesis
    unfolding run_backend_def
    by (rule hoare_bnd [OF spawn_triple], rule hoare_bnd [OF call], rule hoare_bnd [OF call], rule hoare_bnd [OF code], rule rest)
qed

lemma run_inner_keeps:
  "hoare (no_signal {#}) (run_inner env opts) (\<lambda>c d. c = 0 \<and> accounted {#} d) (\<lambda>x d. stops_well x \<and> accounted {#} d)"
  unfolding run_inner_def
  by (rule hoare_bnd [OF services_started], rule hoare_bnd [OF keeps_fetch_config], rule hoare_bnd [OF keeps_choose_iface],
      simp only: split: prod.split, intro allI impI,
      rule hoare_bnd [OF keeps_register_backend], rule hoare_bnd [OF keeps_set_up_traffic],
      rule hoare_bnd [OF keeps_start_blackholes], rule hoare_bnd [OF keeps_publish_subnet], rule run_backend_keeps)

lemma no_signal_new [simp]: "no_signal {#} (new_daemon w)"
  by (simp add: no_signal_def accounted_def new_daemon_def pending_tasks_def)

lemma accounted_new [simp]: "accounted {#} (new_daemon w)"
  using no_signal_new [of w] by (simp add: no_signal_def)

lemma clean_shutdown_result:
  assumes "clean_shutdown env d = Some (d', r)"
  shows "dm_trace d' = dm_trace d @ TokenCancelled # map Joined (handles d)" "dm_tasks d' = []" "dm_signal_task d' = None"
    "dm_ready d' = dm_ready d" "r = Inr ()"
proof -
  have "drain_tasks env (d\<lparr>dm_world := de_cancel env (dm_world d), dm_trace := dm_trace d @ [TokenCancelled]\<rparr>) = Some (d', r)"
    using assms by (simp add: clean_shutdown_def bnd_def update_def)
  from drain_tasks_result [OF this] show "dm_trace d' = dm_trace d @ TokenCancelled # map Joined (handles d)" "dm_tasks d' = []"
      "dm_signal_task d' = None" "dm_ready d' = dm_ready d" "r = Inr ()"
    by (auto simp: handles_def)
qed

lemma shutdown_accounted:
  "hoare (accounted {#}) (clean_shutdown env) (\<lambda>_ d. accounted {#} d \<and> dm_tasks d = [] \<and> dm_signal_task d = None) E"
proof -
  have "hoare (accounted {#}) (update (de_cancel env) [TokenCancelled]) (\<lambda>_. accounted {#}) E"
    by (rule hoare_update) (simp add: accounted_other task_act_def)
  then show ?thesis unfolding clean_shutdown_def by (rule hoare_bnd) (rule drained)
qed

text \<open>What \<open>run\<close> does once the flags are accepted.\<close>

lemma run_cases:
  assumes "run env opts w = Some (d, r)"
  obtains "op_version opts" "d = new_daemon w" "r = Inr 0"
  | "\<not> op_version opts" "bad_margin opts" "d = new_daemon w" "r = Inr 1"
  | d1 x y where "\<not> op_version opts" "\<not> bad_margin opts" "run_inner env opts (new_daemon w) = Some (d1, x)"
      "clean_shutdown env d1 = Some (d, y)" "r = exit_result x"
  using assms by (auto simp: run_def split: if_splits option.splits)

lemma run_inner_end:
  assumes "run_inner env opts (new_daemon w) = Some (d, x)"
  shows "accounted {#} d \<and> (case exit_result x of Inr code \<Rightarrow> code = 0 \<or> code = 1 | Inl _ \<Rightarrow> True)"
proof (cases x)
  case (Inl s)
  then show ?thesis using hoare_stop [OF run_inner_keeps no_signal_new assms [unfolded Inl]] by (cases s) (auto simp: stops_well_def)
next
  case (Inr c)
  then show ?thesis using hoare_value [OF run_inner_keeps no_signal_new assms [unfolded Inr]] by auto
qed

lemma run_code:
  assumes "run env opts w = Some (d, r)"
  shows "case r of Inr code \<Rightarrow> code = 0 \<or> code = 1 | Inl _ \<Rightarrow> True"
  using assms by (cases rule: run_cases) (auto dest: run_inner_end)

text \<open>C5. However the daemon ends, every task it recorded is awaited exactly once, after it was spawned, and none is left;
  the exit code is zero or one; and unless it stopped before anything was spawned (version, or a margin out of range),
  the last thing it does is to cancel the token and await the tasks that are left.\<close>

theorem daemon_drains_tasks:
  assumes "run env opts w = Some (d, r)"
  shows "pending_tasks (dm_trace d) = Some [] \<and> dm_tasks d = [] \<and> dm_signal_task d = None \<and>
    (case r of Inr code \<Rightarrow> code = 0 \<or> code = 1 | Inl _ \<Rightarrow> True) \<and>
    (if op_version opts \<or> bad_margin opts then dm_trace d = []
     else \<exists>before p left. dm_trace d = before @ TokenCancelled # map Joined left \<and> pending_tasks before = Some p \<and> mset left = mset p)"
  using assms
proof (cases rule: run_cases)
  case (3 d1 x y)
  note inner = run_inner_end [OF 3(3)]
  have "accounted {#} d"
    using hoare_value [OF shutdown_accounted] inner 3(4) clean_shutdown_result(5) [OF 3(4)] by metis
  then have "pending_tasks (dm_trace d) = Some []" by (rule accounted_empty) (rule clean_shutdown_result [OF 3(4)])+
  moreover obtain p where "pending_tasks (dm_trace d1) = Some p" "mset (handles d1) = mset p"
    using inner by (auto simp: accounted_def handles_def split: option.splits)
  ultimately show ?thesis using clean_shutdown_result [OF 3(4)] inner 3(1,2,5) by auto
qed (simp_all add: new_daemon_def pending_tasks_def)

section \<open>Ready means set up\<close>

text \<open>What has happened, in this order, when the daemon says it is ready: the network is registered, the rules of the
  other traffic manager are gone, the chosen one is initialised and set up for the lease, and the subnet file with the
  subnets of the lease and the MTU of the network is written.\<close>

definition set_up_acts :: "options \<Rightarrow> config \<Rightarrow> string + string option \<Rightarrow> lease \<Rightarrow> act list" where
  "set_up_acts opts config subnet_env l =
     (let nft = cfg_enable_nftables config in
      [Registered l, CleanedUp (\<not> nft), Initialised nft] @
      (if op_ip_masq opts then [Masqueraded nft (masq_args_of opts config subnet_env l)] else []) @
      (if op_iptables_forward_rules opts
       then [Forwarded nft (cfg_network config) (cfg_ipv6_network config) (op_iptables_resync_seconds opts)] else []))"

definition ready_acts :: "options \<Rightarrow> config \<Rightarrow> string + string option \<Rightarrow> lease \<Rightarrow> u32 \<Rightarrow> act list" where
  "ready_acts opts config subnet_env l mtu =
     set_up_acts opts config subnet_env l @ [WroteSubnetFile (subnet_file_args_of opts config l mtu), ReadySet]"

text \<open>Nothing is ready yet and \<open>as\<close> happened so far, or readiness follows \<open>as\<close>.\<close>

definition so_far :: "act list \<Rightarrow> 's daemon \<Rightarrow> bool" where
  "so_far as d \<longleftrightarrow> \<not> dm_ready d \<and> subseq as (dm_trace d)"

definition ready_after :: "act list set \<Rightarrow> 's daemon \<Rightarrow> bool" where
  "ready_after S d \<longleftrightarrow> (dm_ready d \<longrightarrow> (\<exists>as \<in> S. subseq as (dm_trace d)))"

abbreviation goes_on :: "act list \<Rightarrow> ('s, 'a) dstep \<Rightarrow> bool" where
  "goes_on as m \<equiv> hoare (so_far as) m (\<lambda>_. so_far as) (\<lambda>_ d. \<not> dm_ready d)"

lemma so_far_more:
  "so_far as d \<Longrightarrow> so_far as (d\<lparr>dm_world := w, dm_trace := dm_trace d @ bs\<rparr>)"
  "so_far as d \<Longrightarrow> so_far (as @ bs) (d\<lparr>dm_world := w, dm_trace := dm_trace d @ bs\<rparr>)"
  "so_far as (d\<lparr>dm_world := w\<rparr>) \<longleftrightarrow> so_far as d"
  by (auto simp: so_far_def intro: list_emb_append_mono)

lemma so_far_unready: "so_far as d \<Longrightarrow> \<not> dm_ready d"
  by (simp add: so_far_def)

lemma goes_on_steps:
  "goes_on as (ret v)" "goes_on as (stop_with x)" "goes_on as (or_exit r)" "goes_on as (reading g)" "goes_on as (call nt m)"
  "goes_on as (update f bs)" "goes_on as (spawn env t)" "goes_on as (push_task t)" "goes_on as (set_signal_task u)"
  "goes_on as (fetch_config env sm)" "goes_on as (attempt_call nt m)"
proof -
  show or_exit: "goes_on as (or_exit r)" for r by (rule hoare_or_exit) (simp_all add: so_far_unready)
  show call: "goes_on as (call nt m)" for nt m by (rule hoare_call) (simp_all add: so_far_more)
  show "goes_on as (attempt_call nt m)" unfolding attempt_call_def by (rule hoare_bnd [OF call or_exit])
  show "goes_on as (push_task t)" "goes_on as (set_signal_task u)"
    by (auto simp: hoare_def push_task_def set_signal_task_def so_far_def)
  show "goes_on as (fetch_config env sm)"
    by (rule hoare_fetch_config) (simp_all add: so_far_more so_far_unready)
qed (auto intro!: hoare_ret hoare_halt hoare_reading hoare_update simp: so_far_more so_far_unready spawn_def)

lemma goes_on_bnd: "goes_on as m \<Longrightarrow> (\<And>v. goes_on as (f v)) \<Longrightarrow> goes_on as (bnd m f)"
  by (rule hoare_bnd)

lemma goes_on_services: "goes_on as (start_services env opts)"
  unfolding start_services_def install_shutdown_handler_def start_healthz_def spawn_healthz_def Let_def
  by (auto intro!: goes_on_bnd goes_on_steps split: option.splits sum.splits if_splits)

lemma attempt_noted:
  "hoare (so_far as) (attempt_call (\<lambda>v. bs v) m) (\<lambda>v. so_far (as @ bs v)) (\<lambda>_ d. \<not> dm_ready d)"
proof -
  have "hoare (so_far as) (call bs m) (\<lambda>r. case r of Inr v \<Rightarrow> so_far (as @ bs v) | Inl _ \<Rightarrow> so_far as) (\<lambda>_ d. \<not> dm_ready d)"
    by (rule hoare_call) (simp_all add: so_far_more)
  then show ?thesis
    unfolding attempt_call_def by (rule hoare_bnd) (auto intro!: hoare_or_exit simp: so_far_unready split: sum.splits)
qed

lemma set_up_noted:
  "hoare (so_far [Registered (de_lease env bn)]) (set_up_traffic env opts config bn)
     (\<lambda>_ d. \<exists>subnet_env. so_far (set_up_acts opts config subnet_env (de_lease env bn)) d) (\<lambda>_ d. \<not> dm_ready d)"
proof -
  let ?nft = "cfg_enable_nftables config" and ?l = "de_lease env bn" and ?E = "\<lambda>_ d. \<not> dm_ready d"
  let ?start = "[Registered ?l, CleanedUp (\<not> ?nft), Initialised ?nft]"
  let ?masq = "\<lambda>f. if op_ip_masq opts then [Masqueraded ?nft (masq_args_of opts config f ?l)] else []"
  let ?fwd = "[Forwarded ?nft (cfg_network config) (cfg_ipv6_network config) (op_iptables_resync_seconds opts)]"
  have masq: "hoare (so_far ?start)
      (if op_ip_masq opts
       then bnd (reading (\<lambda>w. masq_args_of opts config (de_subnet_env env w (op_subnet_file opts)) ?l))
         (\<lambda>args. attempt_call (\<lambda>_. [Masqueraded ?nft args]) (de_masq env ?nft args))
       else ret ()) (\<lambda>_ d. \<exists>f. so_far (?start @ ?masq f) d) ?E"
  proof (cases "op_ip_masq opts")
    case True
    have "hoare (so_far ?start) (reading (\<lambda>w. masq_args_of opts config (de_subnet_env env w (op_subnet_file opts)) ?l))
        (\<lambda>args d. (\<exists>f. args = masq_args_of opts config f ?l) \<and> so_far ?start d) ?E"
      by (auto simp: hoare_def reading_def)
    moreover have "hoare (\<lambda>d. (\<exists>f. args = masq_args_of opts config f ?l) \<and> so_far ?start d)
        (attempt_call (\<lambda>_. [Masqueraded ?nft args]) (de_masq env ?nft args)) (\<lambda>_ d. \<exists>f. so_far (?start @ ?masq f) d) ?E" for args
    proof (cases "\<exists>f. args = masq_args_of opts config f ?l")
      case args: True
      show ?thesis by (rule hoare_conseq [OF attempt_noted [of ?start]]) (use args True in auto)
    qed (simp add: hoare_def)
    ultimately show ?thesis using True by (simp add: hoare_bnd)
  qed (auto intro: hoare_ret)
  have fwd: "hoare (\<lambda>d. \<exists>f. so_far (?start @ ?masq f) d)
      (if op_iptables_forward_rules opts
       then update (de_forward env ?nft (cfg_network config) (cfg_ipv6_network config) (op_iptables_resync_seconds opts)) ?fwd
       else ret ()) (\<lambda>_ d. \<exists>f. so_far (set_up_acts opts config f ?l) d) ?E"
  proof (cases "op_iptables_forward_rules opts")
    case True
    have acts: "set_up_acts opts config f ?l = (?start @ ?masq f) @ ?fwd" for f by (simp add: set_up_acts_def Let_def True)
    show ?thesis unfolding acts if_P [OF True] by (rule hoare_update) (blast intro: so_far_more(2))
  next
    case False
    have acts: "set_up_acts opts config f ?l = ?start @ ?masq f" for f by (simp add: set_up_acts_def Let_def False)
    show ?thesis unfolding acts if_not_P [OF False] by (rule hoare_ret)
  qed
  have step: "hoare (so_far [Registered ?l]) (attempt_call (\<lambda>_. [CleanedUp (\<not> ?nft)]) m) (\<lambda>_. so_far [Registered ?l, CleanedUp (\<not> ?nft)]) ?E"
      "hoare (so_far [Registered ?l, CleanedUp (\<not> ?nft)]) (attempt_call (\<lambda>_. [Initialised ?nft]) m) (\<lambda>_. so_far ?start) ?E"
    for m :: "('a, err, unit) step"
    using attempt_noted [of "[Registered ?l]" "\<lambda>_. [CleanedUp (\<not> ?nft)]" m]
      attempt_noted [of "[Registered ?l, CleanedUp (\<not> ?nft)]" "\<lambda>_. [Initialised ?nft]" m] by simp_all
  show ?thesis
    unfolding set_up_traffic_def Let_def
    by (rule hoare_bnd [OF step(1)], rule hoare_bnd [OF step(2)], rule hoare_bnd [OF masq], rule fwd)
qed

lemma hoare_ex: "(\<And>f. hoare (P f) m (Q f) E) \<Longrightarrow> hoare (\<lambda>d. \<exists>f. P f d) m (\<lambda>v d. \<exists>f. Q f v d) E"
  unfolding hoare_def by (fastforce split: sum.splits)

lemma goes_on_blackholes: "goes_on as (start_blackholes env opts config)"
  unfolding start_blackholes_def Let_def by (auto intro!: goes_on_bnd goes_on_steps)

lemma published:
  "hoare (so_far as) (publish_subnet env opts sm config bn)
     (\<lambda>_. ready_after {as @ [WroteSubnetFile (subnet_file_args_of opts config (de_lease env bn) (de_mtu env bn)), ReadySet]}) E"
proof -
  let ?wrote = "[WroteSubnetFile (subnet_file_args_of opts config (de_lease env bn) (de_mtu env bn))]"
  have called: "hoare (so_far as) (call (\<lambda>_. ?wrote) m) (\<lambda>r. case r of Inr _ \<Rightarrow> so_far (as @ ?wrote) | Inl _ \<Rightarrow> so_far as) E"
    for m :: "('a, err, unit) step"
    by (rule hoare_call) (simp_all add: so_far_more)
  have "hoare (so_far (as @ ?wrote)) set_ready (\<lambda>_. ready_after {as @ ?wrote @ [ReadySet]}) E"
  proof -
    have "subseq ((as @ ?wrote) @ [ReadySet]) (tr @ [ReadySet])" if "subseq (as @ ?wrote) tr" for tr
      using that by (rule list_emb_append_mono) simp
    then show ?thesis by (auto simp: hoare_def set_ready_def ready_after_def so_far_def)
  qed
  then show ?thesis
    unfolding publish_subnet_def Let_def
    by (intro hoare_bnd [OF called]) (auto intro!: hoare_ret simp: ready_after_def so_far_def split: sum.splits)
qed

lemma ready_after_mono: "ready_after S d \<Longrightarrow> dm_ready d' = dm_ready d \<Longrightarrow> prefix (dm_trace d) (dm_trace d') \<Longrightarrow> ready_after S d'"
  unfolding ready_after_def by (meson prefix_imp_subseq subseq_order.order_trans)

lemma ready_after_one: "ready_after {as} d \<Longrightarrow> as \<in> S \<Longrightarrow> ready_after S d"
  by (auto simp: ready_after_def)

lemma ready_after_more:
  "ready_after S d \<Longrightarrow> ready_after S (d\<lparr>dm_world := w, dm_trace := dm_trace d @ bs\<rparr>)"
  "ready_after S d \<Longrightarrow> ready_after S (d\<lparr>dm_world := w\<rparr>)"
  by (erule ready_after_mono, simp_all)+

lemma ready_after_drain: "hoare (ready_after S) (drain_tasks env) (\<lambda>_. ready_after S) E"
  by (rule hoareI, drule drain_tasks_result, elim conjE) (simp, erule ready_after_mono, simp_all)

lemma ready_after_backend: "hoare (ready_after S) (run_backend env sm bn) (\<lambda>_. ready_after S) E"
proof -
  have "hoare (ready_after S) (complete_lease_exit_code env result) (\<lambda>_. ready_after S) E" for result
    unfolding complete_lease_exit_code_def
    by (auto intro!: hoare_bnd [where R = "\<lambda>_. ready_after S"] hoare_ret hoare_update
        simp: ready_after_more split: sum.splits complete_error.splits)
  then show ?thesis
    unfolding run_backend_def spawn_def
    by (intro hoare_bnd [where R = "\<lambda>_. ready_after S"] hoare_update hoare_call hoare_join ready_after_drain hoare_ret)
      (simp_all add: ready_after_more)
qed

lemma override_ready_acts [simp]: "ready_acts (override_public_ip ips opts) = ready_acts opts"
  by (auto simp: ready_acts_def set_up_acts_def masq_args_of_def subnet_file_args_of_def override_public_ip_def Let_def fun_eq_iff)

lemma iface_chosen:
  "hoare (so_far []) (choose_iface env opts sm config)
     (\<lambda>r d. (\<exists>ips. fst r = override_public_ip ips opts) \<and> so_far [] d) (\<lambda>_ d. \<not> dm_ready d)"
proof -
  have self: "\<exists>ips. opts = override_public_ip ips opts"
    by (rule exI [of _ "([], [])"]) (simp add: override_public_ip_def)
  show ?thesis
    unfolding choose_iface_def Let_def
    by (intro hoare_bnd [OF goes_on_steps(3)] hoare_bnd [OF goes_on_steps(5)] hoare_bnd [where R = "\<lambda>_. so_far []"])
      (auto intro!: hoare_ret goes_on_bnd goes_on_steps intro: self simp del: split_paired_Ex split: sum.splits if_splits)
qed

definition ready_traces :: "('s, 'c, 'l, 'm, 'n) daemon_env \<Rightarrow> options \<Rightarrow> act list set" where
  "ready_traces env opts =
     {ready_acts opts config subnet_env (de_lease env bn) (de_mtu env bn) | config subnet_env bn. True}"

lemma set_up_ready:
  "hoare (so_far [Registered (de_lease env bn)])
    (bnd (set_up_traffic env opts config bn) (\<lambda>_. bnd (start_blackholes env opts config) (\<lambda>_.
      bnd (publish_subnet env opts sm config bn) (\<lambda>_. run_backend env sm bn))))
    (\<lambda>_. ready_after (ready_traces env opts)) (\<lambda>_ d. \<not> dm_ready d)"
proof (rule hoare_bnd [OF set_up_noted], rule hoare_bnd [OF hoare_ex [OF goes_on_blackholes]], rule hoare_bnd)
  let ?acts = "\<lambda>f. set_up_acts opts config f (de_lease env bn)"
  let ?more = "[WroteSubnetFile (subnet_file_args_of opts config (de_lease env bn) (de_mtu env bn)), ReadySet]"
  have "?acts f @ ?more \<in> ready_traces env opts" for f
    by (auto simp: ready_traces_def ready_acts_def)
  then show "hoare (\<lambda>d. \<exists>f. so_far (?acts f) d) (publish_subnet env opts sm config bn)
      (\<lambda>_. ready_after (ready_traces env opts)) (\<lambda>_ d. \<not> dm_ready d)"
    by (intro hoare_conseq [OF hoare_ex [OF published]]) (simp, blast intro: ready_after_one, simp)
qed (rule ready_after_backend)

lemma register_ready:
  "hoare (\<lambda>d. (\<exists>ips. opts' = override_public_ip ips opts) \<and> so_far [] d)
      (bnd (register_backend env sm config ei) (\<lambda>bn. bnd (set_up_traffic env opts' config bn) (\<lambda>_.
        bnd (start_blackholes env opts' config) (\<lambda>_. bnd (publish_subnet env opts' sm config bn) (\<lambda>_. run_backend env sm bn)))))
      (\<lambda>_. ready_after (ready_traces env opts)) (\<lambda>_ d. \<not> dm_ready d)"
proof (cases "\<exists>ips. opts' = override_public_ip ips opts")
  case True
  then have same: "ready_traces env opts' = ready_traces env opts" by (elim exE) (simp add: ready_traces_def)
  have "hoare (so_far []) (register_backend env sm config ei) (\<lambda>bn. so_far [Registered (de_lease env bn)]) (\<lambda>_ d. \<not> dm_ready d)"
    unfolding register_backend_def
    using attempt_noted [of "[]" "\<lambda>bn. [Registered (de_lease env bn)]"] by (auto intro!: hoare_bnd [OF goes_on_steps(3)])
  from hoare_bnd [OF this set_up_ready [where opts = opts']] show ?thesis by (rule hoare_conseq) (auto simp: same)
qed (simp add: hoare_def)

lemma run_inner_ready:
  "hoare (so_far []) (run_inner env opts) (\<lambda>_. ready_after (ready_traces env opts)) (\<lambda>_ d. \<not> dm_ready d)"
  unfolding run_inner_def
  by (rule hoare_bnd [OF goes_on_services], rule hoare_bnd [OF goes_on_steps(10)], rule hoare_bnd [OF iface_chosen])
    (simp only: case_prod_beta, rule register_ready)

text \<open>C9. When the daemon has said that it is ready, then before that and in this order its network was registered, the rules
  of the other traffic manager were removed, the chosen one was initialised, masqueraded for the lease (when asked to)
  with the previous networks of the subnet file, set up forwarding (when asked to), and the subnet file was written
  with the subnets of the lease and the MTU of the network.\<close>

theorem daemon_ready_after_setup:
  assumes "run env opts w = Some (d, r)" and "dm_ready d"
  shows "\<exists>config subnet_env bn.
    subseq (ready_acts opts config subnet_env (de_lease env bn) (de_mtu env bn)) (dm_trace d)"
  using assms(1)
proof (cases rule: run_cases)
  case (3 d1 x y)
  have ready: "dm_ready d1" "prefix (dm_trace d1) (dm_trace d)"
    using assms(2) clean_shutdown_result [OF 3(4)] by simp_all
  have start: "so_far [] (new_daemon w)" by (simp add: so_far_def new_daemon_def)
  have "ready_after (ready_traces env opts) d1"
    using run_inner_ready [of env opts] start 3(3) ready(1) by (cases x) (auto simp: hoare_def)
  with ready have "ready_after (ready_traces env opts) d" using assms(2) by (auto elim!: ready_after_mono)
  then show ?thesis using assms(2) by (auto simp: ready_after_def ready_traces_def)
qed (use assms(2) in \<open>auto simp: new_daemon_def\<close>)

section \<open>The daemon returns\<close>

text \<open>Within \<open>n\<close> rounds the manager answers or the token fires.\<close>

fun config_within :: "nat \<Rightarrow> ('s, err, config) step \<Rightarrow> ('s \<Rightarrow> 's \<times> bool) \<Rightarrow> 's \<Rightarrow> bool" where
  "config_within 0 get_network_config tick s = False"
| "config_within (Suc n) get_network_config tick s =
     (case get_network_config s of
        (s1, Inr _) \<Rightarrow> True
      | (s1, Inl _) \<Rightarrow> snd (tick s1) \<or> config_within n get_network_config tick (fst (tick s1)))"

lemma get_config_returns: "config_within n g tick s \<Longrightarrow> \<exists>y. get_config g tick s = Some y"
proof (induction n arbitrary: s)
  case (Suc n)
  then show ?case by (subst get_config.simps) (auto split: prod.splits sum.splits)
qed simp

definition returns :: "('s, 'a) dstep \<Rightarrow> bool" where
  "returns m \<longleftrightarrow> (\<forall>d. m d \<noteq> None)"

lemma returns_bnd: "returns m \<Longrightarrow> (\<And>v. returns (f v)) \<Longrightarrow> returns (bnd m f)"
  unfolding returns_def bnd_def by (auto split: option.splits sum.splits)

lemma returns_steps:
  "returns (ret v)" "returns (stop_with x)" "returns (or_exit r)" "returns (reading g)" "returns (call nt m)"
  "returns (update f bs)" "returns (spawn env t)" "returns (push_task t)" "returns (set_signal_task u)" "returns set_ready"
  "returns (attempt_call nt m)"
proof -
  show or_exit: "returns (or_exit r)" for r by (auto simp: returns_def or_exit_def ret_def stop_with_def split: sum.splits)
  show call: "returns (call nt m)" for nt m by (auto simp: returns_def call_def split: prod.splits)
  show "returns (attempt_call nt m)" unfolding attempt_call_def by (rule returns_bnd [OF call or_exit])
qed (auto simp: returns_def ret_def stop_with_def reading_def update_def spawn_def push_task_def set_signal_task_def set_ready_def)

lemma returns_parts:
  "returns (start_services env opts)" "returns (choose_iface env opts sm config)" "returns (register_backend env sm config ei)"
  "returns (set_up_traffic env opts config bn)" "returns (start_blackholes env opts config)" "returns (publish_subnet env opts sm config bn)"
  unfolding start_services_def install_shutdown_handler_def start_healthz_def spawn_healthz_def choose_iface_def
    register_backend_def set_up_traffic_def start_blackholes_def publish_subnet_def Let_def
  by (auto intro!: returns_bnd returns_steps split: option.splits sum.splits)

text \<open>Once the token has fired, draining returns and the token stays fired.\<close>

lemma drain_returns:
  assumes "\<And>t w. fired w \<Longrightarrow> \<exists>w'. de_join env t w = Some w' \<and> fired w'"
  shows "fired (dm_world d) \<Longrightarrow> \<exists>d'. drain env ts d = Some (d', Inr ()) \<and> fired (dm_world d')"
proof (induction ts arbitrary: d)
  case (Cons t ts)
  from assms [OF Cons.prems] obtain w where w: "de_join env t (dm_world d) = Some w" "fired w" by auto
  from Cons.IH [of "d\<lparr>dm_world := w, dm_trace := dm_trace d @ [Joined t]\<rparr>"] w show ?case
    by (simp add: bnd_def join_task_def)
qed (simp add: ret_def)

lemma drain_tasks_returns:
  assumes ends: "\<And>t w. fired w \<Longrightarrow> \<exists>w'. de_join env t w = Some w' \<and> fired w'" and "fired (dm_world d)"
  shows "\<exists>d'. drain_tasks env d = Some (d', Inr ()) \<and> fired (dm_world d')"
proof -
  obtain d1 where d1: "drain env (dm_tasks d) (d\<lparr>dm_tasks := []\<rparr>) = Some (d1, Inr ())" "fired (dm_world d1)"
    using drain_returns [of fired env "d\<lparr>dm_tasks := []\<rparr>", OF ends] assms(2) by auto
  show ?thesis
  proof (cases "dm_signal_task d")
    case (Some t)
    obtain w where "de_join env t (dm_world d1) = Some w" "fired w" using ends d1(2) by blast
    with d1 Some show ?thesis by (simp add: drain_tasks_def bnd_def drain_signal_task_def join_task_def)
  qed (use d1 in \<open>simp add: drain_tasks_def bnd_def drain_signal_task_def ret_def\<close>)
qed

text \<open>C37. The daemon always returns when its collaborators do their part: a cancelled token stays cancelled and ends the
  tasks, the backend runs until the token fires, and the manager answers at last or the token fires meanwhile.\<close>

theorem daemon_returns:
  assumes cancel: "\<forall>w. fired (de_cancel env w)"
    and ends: "\<forall>t w. fired w \<longrightarrow> (\<exists>w'. de_join env t w = Some w' \<and> fired w')"
    and backend: "\<forall>w. \<exists>w'. de_join env BackendRun w = Some w' \<and> fired w'"
    and config: "\<forall>sm w. \<exists>n. config_within n (de_get_network_config env sm) (de_tick env) w"
  shows "\<exists>d r. run env opts w = Some (d, r) \<and> dm_tasks d = [] \<and> fired (dm_world d) = (\<not> op_version opts \<and> \<not> bad_margin opts \<or> fired w)"
proof -
  have drain: "\<exists>d'. drain_tasks env d = Some (d', Inr ()) \<and> fired (dm_world d')" if "fired (dm_world d)" for d
    using drain_tasks_returns [of fired env d] ends that by blast
  have fetch: "returns (fetch_config env sm)" for sm
    using config get_config_returns unfolding returns_def fetch_config_def
    by (fastforce split: option.splits sum.splits canceled.splits)
  have last: "returns (bnd (join_task env BackendRun) (\<lambda>_. bnd (drain_tasks env) (\<lambda>_. ret c)))" for c :: int
    unfolding returns_def
  proof
    fix d :: "'a daemon"
    obtain w' where w': "de_join env BackendRun (dm_world d) = Some w'" "fired w'" using backend by blast
    from drain [of "d\<lparr>dm_world := w', dm_trace := dm_trace d @ [Joined BackendRun]\<rparr>"] w'
    show "bnd (join_task env BackendRun) (\<lambda>_. bnd (drain_tasks env) (\<lambda>_. ret c)) d \<noteq> None"
      by (auto simp: bnd_def join_task_def ret_def)
  qed
  have code: "returns (complete_lease_exit_code env r)" for r
    unfolding complete_lease_exit_code_def
    by (auto intro!: returns_bnd returns_steps split: sum.splits complete_error.splits)
  have "returns (run_backend env sm bn)" for sm bn
    unfolding run_backend_def
    by (intro returns_bnd [OF returns_steps(7)] returns_bnd [OF returns_steps(5)] returns_bnd [OF code] last)
  then have "returns (run_inner env opts)"
    unfolding run_inner_def by (auto intro!: returns_bnd returns_parts fetch split: prod.split)
  then obtain d1 x where d1: "run_inner env opts (new_daemon w) = Some (d1, x)" unfolding returns_def by fastforce
  obtain d2 where "clean_shutdown env d1 = Some (d2, Inr ())" "fired (dm_world d2)"
    using drain [of "d1\<lparr>dm_world := de_cancel env (dm_world d1), dm_trace := dm_trace d1 @ [TokenCancelled]\<rparr>"] cancel
    by (auto simp: clean_shutdown_def bnd_def update_def)
  with d1 show ?thesis
    using clean_shutdown_result(2) by (fastforce simp: run_def new_daemon_def)
qed

section \<open>The choice of the interface\<close>

text \<open>The lookups that the options ask for, in their order: names, patterns, an address to reach.\<close>

definition candidates :: "options \<Rightarrow> (string \<times> string \<times> string) list" where
  "candidates opts =
     map (\<lambda>n. (n, [], [])) (op_iface opts) @ map (\<lambda>re. ([], re, [])) (op_iface_regex opts) @
     (if op_iface_can_reach opts = [] then [] else [([], [], op_iface_can_reach opts)])"

lemma first_found_append:
  "first_found look (xs @ ys) = (case first_found look xs of Some y \<Rightarrow> Some y | None \<Rightarrow> first_found look ys)"
  by (induction xs) (auto split: sum.splits)

lemma first_found_map: "first_found look (map f xs) = first_found (\<lambda>x. look (f x)) xs"
  by (induction xs) (auto split: sum.splits)

text \<open>With any interface option given, the interface is the first that a lookup finds, in the order of names, patterns
  and the address to reach, whatever the failures before it; without one it is the one of the public address, or of
  the default route.\<close>

theorem select_first_candidate:
  "select_external_iface regex_new (Inr nl) opts stack =
     (let look = (\<lambda>(name, re, reach). lookup_ext_iface regex_new nl name re reach stack
            \<lparr>po_public_ip = op_public_ip opts, po_public_ip_v6 = op_public_ipv6 opts\<rparr>)
      in if candidates opts = []
         then (case look (if op_public_ip opts = [] then op_public_ipv6 opts else op_public_ip opts, [], []) of
             Inr ei \<Rightarrow> Inr ei
           | Inl e \<Rightarrow> Inl [''Failed to find any valid interface to use: '' @ (case e of [] \<Rightarrow> [] | t # _ \<Rightarrow> t)])
         else (case first_found look (candidates opts) of Some ei \<Rightarrow> Inr ei | None \<Rightarrow> Inl [NO_MATCH]))"
proof -
  have none: "candidates opts = [] \<longleftrightarrow> op_iface opts = [] \<and> op_iface_regex opts = [] \<and> op_iface_can_reach opts = []"
    by (auto simp: candidates_def)
  show ?thesis
  proof (cases "candidates opts = []")
    case True
    then show ?thesis using none by (simp add: select_external_iface_def Let_def)
  next
    case False
    then show ?thesis
      using none
      by (auto simp: select_external_iface_def Let_def candidates_def first_found_append first_found_map
          split: option.splits sum.splits)
  qed
qed

section \<open>Blackhole routes\<close>

text \<open>A kernel whose route requests succeed: an added route is in the table.\<close>

definition keeps_routes :: "'k blackhole_kernel \<Rightarrow> ('k \<Rightarrow> route_message list) \<Rightarrow> bool" where
  "keeps_routes kern routes \<longleftrightarrow>
     (\<forall>k. \<exists>nl. bk_netlink kern k = Inr nl \<and> nl_routes nl = (routes k, None)) \<and>
     (\<forall>k msg. snd (bk_route_add kern msg k) = None \<and> routes (fst (bk_route_add kern msg k)) = routes k @ [msg])"

lemma blackhole_for_message:
  "blackhole_for Inet (V4 ip) len (blackhole_message Inet (RouteInet ip) len)"
  "blackhole_for Inet6 (V6 ip6) len (blackhole_message Inet6 (RouteInet6 ip6) len)"
  by (simp_all add: blackhole_for_def blackhole_message_def route_dst_def route_attr_ip_def route_addr_to_ip_def)

lemma blackhole_round_adds:
  assumes "keeps_routes kern routes"
    and "\<And>nl ans. snd (nl_routes nl) = None \<Longrightarrow> fst (add nl ans) = (if list_ex p (fst (nl_routes nl)) then None else Some msg)"
  shows "routes (blackhole_round kern add k) = (if list_ex p (routes k) then routes k else routes k @ [msg])"
proof -
  obtain nl where nl: "bk_netlink kern k = Inr nl" "nl_routes nl = (routes k, None)"
      "\<And>msg. routes (fst (bk_route_add kern msg k)) = routes k @ [msg]"
    using assms(1) unfolding keeps_routes_def by meson
  then show ?thesis using assms(2) [of nl] by (simp add: blackhole_round_def)
qed

lemma blackhole_v4_loop_append:
  "None \<notin> set ws \<Longrightarrow> blackhole_v4_loop kern l (ws @ vs) k = blackhole_v4_loop kern l vs (blackhole_v4_loop kern l ws k)"
  by (induction kern l ws k rule: blackhole_v4_loop.induct) auto

lemma blackhole_v6_loop_append:
  "None \<notin> set ws \<Longrightarrow> blackhole_v6_loop kern l (ws @ vs) k = blackhole_v6_loop kern l vs (blackhole_v6_loop kern l ws k)"
  by (induction kern l ws k rule: blackhole_v6_loop.induct) auto

text \<open>After every period of the loops, whatever the rest of the system did to the table meanwhile, the blackhole routes
  of the subnets of the lease are there; a table that has them is not changed, nothing else is ever removed or added,
  and after the token nothing happens any more.\<close>

theorem blackhole_routes_kept:
  assumes "keeps_routes kern routes" and "None \<notin> set ws"
  shows "(let p4 = blackhole_for Inet (V4 (n4_ip (subnet l))) (ucast (n4_prefix_len (subnet l)));
       m4 = blackhole_message Inet (RouteInet (n4_ip (subnet l))) (ucast (n4_prefix_len (subnet l)));
       t4 = routes (f (blackhole_v4_loop kern l ws k)) in
     routes (blackhole_v4_loop kern l (ws @ [Some f]) k) = (if list_ex p4 t4 then t4 else t4 @ [m4]) \<and> p4 m4) \<and>
   (let p6 = blackhole_for Inet6 (V6 (n6_ip (ipv6_subnet l))) (ucast (n6_prefix_len (ipv6_subnet l)));
       m6 = blackhole_message Inet6 (RouteInet6 (n6_ip (ipv6_subnet l))) (ucast (n6_prefix_len (ipv6_subnet l)));
       t6 = routes (f (blackhole_v6_loop kern l ws k)) in
     routes (blackhole_v6_loop kern l (ws @ [Some f]) k) = (if list_ex p6 t6 then t6 else t6 @ [m6]) \<and> p6 m6) \<and>
   blackhole_v4_loop kern l (ws @ None # vs) k = blackhole_v4_loop kern l ws k \<and>
   blackhole_v6_loop kern l (ws @ None # vs) k = blackhole_v6_loop kern l ws k"
proof -
  have add4: "fst (add_blackhole_v4_route nl ans sn) =
      (if list_ex (blackhole_for Inet (V4 (n4_ip sn)) (ucast (n4_prefix_len sn))) (fst (nl_routes nl)) then None
       else Some (blackhole_message Inet (RouteInet (n4_ip sn)) (ucast (n4_prefix_len sn))))"
    if "snd (nl_routes nl) = None" for nl ans sn
    using that by (simp add: add_blackhole_v4_route_def has_blackhole_route_def Let_def)
  have add6: "fst (add_blackhole_v6_route nl ans sn) =
      (if list_ex (blackhole_for Inet6 (V6 (n6_ip sn)) (ucast (n6_prefix_len sn))) (fst (nl_routes nl)) then None
       else Some (blackhole_message Inet6 (RouteInet6 (n6_ip sn)) (ucast (n6_prefix_len sn))))"
    if "snd (nl_routes nl) = None" for nl ans sn
    using that by (simp add: add_blackhole_v6_route_def has_blackhole_route_def Let_def)
  show ?thesis
    by (simp only: blackhole_v4_loop_append [OF assms(2)] blackhole_v6_loop_append [OF assms(2)] blackhole_v4_loop.simps
        blackhole_v6_loop.simps Let_def blackhole_for_message blackhole_round_adds [OF assms(1) add4]
        blackhole_round_adds [OF assms(1) add6])
qed

section \<open>The process\<close>

text \<open>The process ends with exit code zero, one or two, or runs until it is stopped: two when the command line cannot be
  parsed, zero for a request for help. It never panics.\<close>

theorem flanneld_exit_codes:
  "flanneld_main env args vars w \<in> {Exit 0, Exit 1, Exit 2, Diverges} \<and>
   (flanneld_main env args vars w = Exit 2 \<longleftrightarrow>
      (\<exists>e. snd (parse_flags args (the build_flag_set)) = Inl e \<and> e \<noteq> Help))"
proof -
  obtain fs where fs: "build_flag_set = Some fs" using build_flag_set_eval by auto
  obtain fs1 r where p: "parse_flags args fs = (fs1, r)" by fastforce
  obtain o1 where o1: "options_from_flag_set (fst (set_flags_from_env vars ''FLANNELD'' fs1)) = Some o1"
    using options_read [OF fs, of vars "''FLANNELD''" args] p by auto
  have codes: "case q of Inr code \<Rightarrow> code = 0 \<or> code = 1 | Inl _ \<Rightarrow> True" if "run env o1 w = Some (d, q)" for d q
    using run_code [OF that] .
  have main: "flanneld_main env args vars w =
      (case r of Inl Help \<Rightarrow> Exit 0 | Inl _ \<Rightarrow> Exit 2
       | Inr _ \<Rightarrow> (case run env o1 w of None \<Rightarrow> Diverges | Some (_, Inr code) \<Rightarrow> Exit code | Some (_, Inl _) \<Rightarrow> Exit 1))"
    unfolding flanneld_main_def fs option.case p prod.case by (cases r) (simp_all add: o1)
  have "snd (parse_flags args (the build_flag_set)) = r" by (simp add: fs p)
  with main codes show ?thesis
    by (cases r; cases "run env o1 w") (auto split: flag_error.splits sum.splits)
qed

section \<open>A run\<close>

text \<open>A node with two interfaces and the alloc backend; the world is whether the token has fired, which the backend
  waits for.\<close>

definition sample_options :: options where
  "sample_options =
     \<lparr>op_etcd_endpoints = [], op_etcd_prefix = [], op_etcd_keyfile = [], op_etcd_certfile = [], op_etcd_cafile = [],
      op_etcd_username = [], op_etcd_password = [], op_version = False, op_kube_subnet_mgr = True, op_kube_api_url = [],
      op_kube_annotation_prefix = ''flannel.alpha.coreos.com'', op_kubeconfig_file = [], op_iface = [''eth1''],
      op_iface_regex = [], op_iface_can_reach = [], op_ip_masq = True, op_ip_masq_random_fully_disable = False,
      op_subnet_file = ''/run/flannel/subnet.env'', op_public_ip = [], op_public_ipv6 = [],
      op_subnet_lease_renew_margin = 60, op_healthz_ip = ''0.0.0.0'', op_healthz_port = 8285, op_iptables_resync_seconds = 5,
      op_iptables_forward_rules = True, op_blackhole_route = True, op_net_config_path = ''/etc/kube-flannel/net-conf.json'',
      op_set_node_network_unavailable = True, op_install_signal_handlers = True\<rparr>"

definition sample_daemon_config :: config where
  "sample_daemon_config = sample_env_config\<lparr>cfg_backend_type := ''alloc''\<rparr>"

definition sample_daemon_env :: "(bool, unit, unit, unit, lease) daemon_env" where
  "sample_daemon_env =
     \<lparr>de_manager = \<lparr>me_resolve = (\<lambda>_ _. give ()), me_client_new = (\<lambda>_. give ()), me_new_subnet_manager = (\<lambda>_ _ _ _. give ())\<rparr>,
      de_signal = (\<lambda>_. give ()), de_bind = (\<lambda>_. give ()), de_get_network_config = (\<lambda>_. give sample_daemon_config),
      de_tick = (\<lambda>w. (w, w)), de_metadata = (\<lambda>_ _. Present), de_stored_public_ip = (\<lambda>_ w. (w, ([], []))),
      de_regex = sample_regex, de_netlink = give two_links, de_register_network = (\<lambda>_ _. give (sample_lease 1)),
      de_lease = id, de_mtu = (\<lambda>_. 1500), de_clean_up = (\<lambda>_. give ()), de_init = (\<lambda>_. give ()),
      de_subnet_env = (\<lambda>_ _. Inr None), de_masq = (\<lambda>_ _. give ()), de_forward = (\<lambda>_ _ _ _ w. w),
      de_subnet_file = (\<lambda>_ _. give ()),
      de_notify = \<lparr>ne_socket_var = None, ne_socket = give (), ne_unix_addr = (\<lambda>_. Inr ()), ne_sendto = (\<lambda>_ _. give ())\<rparr>,
      de_complete_lease = (\<lambda>_ _. give ()), de_spawn = (\<lambda>_ w. w), de_join = (\<lambda>_ w. Some True), de_cancel = (\<lambda>_. True)\<rparr>"

lemma sample_iface: "\<not> isl (select_external_iface sample_regex (Inr two_links) sample_options IPV4_STACK)"
  by code_simp

definition sample_started :: "bool daemon" where
  "sample_started =
     \<lparr>dm_world = False, dm_tasks = [HealthzServer], dm_signal_task = Some ShutdownHandler, dm_ready = False,
      dm_trace = [Spawned ShutdownHandler, Spawned HealthzServer]\<rparr>"

lemma sample_services: "start_services sample_daemon_env sample_options (new_daemon False) = Some (sample_started, Inr ())"
  by code_simp

lemma sample_fetch: "fetch_config sample_daemon_env () sample_started = Some (sample_started, Inr sample_daemon_config)"
  by (simp add: fetch_config_def get_config.simps sample_daemon_env_def)

definition sample_rest :: "bool daemon \<Rightarrow> (bool daemon \<times> (stop + int)) option" where
  "sample_rest =
     bnd (choose_iface sample_daemon_env sample_options () sample_daemon_config) (\<lambda>(opts, ei).
     bnd (register_backend sample_daemon_env () sample_daemon_config ei) (\<lambda>bn.
     bnd (set_up_traffic sample_daemon_env opts sample_daemon_config bn) (\<lambda>_.
     bnd (start_blackholes sample_daemon_env opts sample_daemon_config) (\<lambda>_.
     bnd (publish_subnet sample_daemon_env opts () sample_daemon_config bn) (\<lambda>_.
     run_backend sample_daemon_env () bn)))))"

lemma sample_rest_eval:
  "map_option (\<lambda>(d, r). (map_option (\<lambda>(d, r). (dm_ready d, length (dm_trace d))) (clean_shutdown sample_daemon_env d), r))
     (sample_rest sample_started) = Some (Some (True, 16), Inr 0)"
  by code_simp

lemma sample_run: "\<exists>d. run sample_daemon_env sample_options False = Some (d, Inr 0) \<and> dm_ready d \<and> length (dm_trace d) = 16"
proof -
  have "run_inner sample_daemon_env sample_options (new_daemon False) = sample_rest sample_started"
    by (simp add: run_inner_def sample_rest_def bnd_def [of "start_services _ _"] bnd_def [of "fetch_config _ _"] sample_services sample_fetch)
  then show ?thesis
    using sample_rest_eval by (auto simp: run_def sample_options_def bad_margin_def)
qed

theorem daemon_drains_tasks_witness:
  "\<exists>d before p left. run sample_daemon_env sample_options False = Some (d, Inr 0) \<and> pending_tasks (dm_trace d) = Some [] \<and>
     length (dm_trace d) = 16 \<and> dm_trace d = before @ TokenCancelled # map Joined left \<and> pending_tasks before = Some p \<and> mset left = mset p"
proof -
  obtain d where d: "run sample_daemon_env sample_options False = Some (d, Inr 0)" "length (dm_trace d) = 16"
    using sample_run by auto
  have "\<not> (op_version sample_options \<or> bad_margin sample_options)" by (simp add: sample_options_def bad_margin_def)
  with daemon_drains_tasks [OF d(1)] d show ?thesis by auto
qed

theorem daemon_ready_after_setup_witness:
  "\<exists>d config subnet_env bn. run sample_daemon_env sample_options False = Some (d, Inr 0) \<and> dm_ready d \<and>
     subseq (ready_acts sample_options config subnet_env (de_lease sample_daemon_env bn) (de_mtu sample_daemon_env bn)) (dm_trace d)"
  using sample_run daemon_ready_after_setup [of sample_daemon_env sample_options False] by blast

theorem daemon_returns_witness:
  "\<exists>d r. run sample_daemon_env sample_options False = Some (d, r) \<and> dm_tasks d = [] \<and> dm_world d"
proof -
  have "config_within 1 (de_get_network_config sample_daemon_env sm) (de_tick sample_daemon_env) w" for sm w
    by (simp add: sample_daemon_env_def)
  then have config: "\<forall>sm w. \<exists>n. config_within n (de_get_network_config sample_daemon_env sm) (de_tick sample_daemon_env) w" by blast
  have "\<exists>d r. run sample_daemon_env sample_options False = Some (d, r) \<and> dm_tasks d = [] \<and>
      dm_world d = (\<not> op_version sample_options \<and> \<not> bad_margin sample_options \<or> False)"
    by (rule daemon_returns [where fired = "\<lambda>w. w" and env = sample_daemon_env, OF _ _ _ config])
      (simp_all add: sample_daemon_env_def, blast)
  then show ?thesis by (simp add: sample_options_def bad_margin_def)
qed

end
