(* ===== verification/Xfrm.thy ===== *)
theory Xfrm
  imports Genl
begin

text \<open>
  The policy client of the IPsec backend, \<open>backend/ipsec/xfrm.rs\<close>: the C structures with their byte layout, the
  attributes, requests with the replies of the kernel, and the four operations on policies. The kernel is a
  parameter of the same shape as for generic netlink. Numbers have the byte order of the host, little endian.
\<close>

section \<open>Structures\<close>

record xfrm_policy_spec =
  xs_src :: ip_addr
  xs_src_prefix :: u8
  xs_dst :: ip_addr
  xs_dst_prefix :: u8
  xs_dir :: u8
  xs_tunnel_src :: ip_addr
  xs_tunnel_dst :: ip_addr
  xs_reqid :: u32

record xfrm_tmpl =
  xt_src :: ip_addr
  xt_dst :: ip_addr
  xt_proto :: u8
  xt_mode :: u8
  xt_reqid :: u32

record xfrm_policy =
  xp_src :: ip_addr
  xp_src_prefix :: u8
  xp_dst :: ip_addr
  xp_dst_prefix :: u8
  xp_dir :: u8
  xp_index :: u32
  xp_priority :: u32
  xp_tmpls :: "xfrm_tmpl list"

text \<open>An address is an array of sixteen bytes.\<close>

type_synonym xfrm_address = "u8 list"

record xfrm_selector =
  sel_daddr :: xfrm_address
  sel_saddr :: xfrm_address
  sel_dport :: u16
  sel_dport_mask :: u16
  sel_sport :: u16
  sel_sport_mask :: u16
  sel_family :: u16
  sel_prefixlen_d :: u8
  sel_prefixlen_s :: u8
  sel_proto :: u8
  sel_ifindex :: u32
  sel_user :: u32

record xfrm_lifetime_cfg =
  lft_soft_byte_limit :: u64
  lft_hard_byte_limit :: u64
  lft_soft_packet_limit :: u64
  lft_hard_packet_limit :: u64
  lft_soft_add_expires_seconds :: u64
  lft_hard_add_expires_seconds :: u64
  lft_soft_use_expires_seconds :: u64
  lft_hard_use_expires_seconds :: u64

record xfrm_lifetime_cur =
  cur_bytes :: u64
  cur_packets :: u64
  cur_add_time :: u64
  cur_use_time :: u64

record xfrm_userpolicy_info =
  upi_sel :: xfrm_selector
  upi_lft :: xfrm_lifetime_cfg
  upi_curlft :: xfrm_lifetime_cur
  upi_priority :: u32
  upi_index :: u32
  upi_dir :: u8
  upi_action :: u8
  upi_flags :: u8
  upi_share :: u8

record xfrm_id =
  xi_daddr :: xfrm_address
  xi_spi :: u32
  xi_proto :: u8

record xfrm_user_tmpl =
  ut_id :: xfrm_id
  ut_family :: u16
  ut_saddr :: xfrm_address
  ut_reqid :: u32
  ut_mode :: u8
  ut_share :: u8
  ut_optional :: u8
  ut_aalgos :: u32
  ut_ealgos :: u32
  ut_calgos :: u32

record xfrm_userpolicy_id =
  upd_sel :: xfrm_selector
  upd_index :: u32
  upd_dir :: u8

definition zero_address :: xfrm_address where
  "zero_address = replicate 16 0"

text \<open>\<open>std::mem::zeroed\<close>.\<close>

definition zero_selector :: xfrm_selector where
  "zero_selector = \<lparr>sel_daddr = zero_address, sel_saddr = zero_address, sel_dport = 0, sel_dport_mask = 0, sel_sport = 0,
     sel_sport_mask = 0, sel_family = 0, sel_prefixlen_d = 0, sel_prefixlen_s = 0, sel_proto = 0, sel_ifindex = 0,
     sel_user = 0\<rparr>"

definition zero_policy_info :: xfrm_userpolicy_info where
  "zero_policy_info = \<lparr>upi_sel = zero_selector, upi_lft = \<lparr>lft_soft_byte_limit = 0, lft_hard_byte_limit = 0, lft_soft_packet_limit = 0, lft_hard_packet_limit = 0, lft_soft_add_expires_seconds = 0, lft_hard_add_expires_seconds = 0, lft_soft_use_expires_seconds = 0, lft_hard_use_expires_seconds = 0\<rparr>,
     upi_curlft = \<lparr>cur_bytes = 0, cur_packets = 0, cur_add_time = 0, cur_use_time = 0\<rparr>, upi_priority = 0, upi_index = 0, upi_dir = 0, upi_action = 0,
     upi_flags = 0, upi_share = 0\<rparr>"

definition zero_user_tmpl :: xfrm_user_tmpl where
  "zero_user_tmpl = \<lparr>ut_id = \<lparr>xi_daddr = zero_address, xi_spi = 0, xi_proto = 0\<rparr>, ut_family = 0, ut_saddr = zero_address,
     ut_reqid = 0, ut_mode = 0, ut_share = 0, ut_optional = 0, ut_aalgos = 0, ut_ealgos = 0, ut_calgos = 0\<rparr>"

definition zero_policy_id :: xfrm_userpolicy_id where
  "zero_policy_id = \<lparr>upd_sel = zero_selector, upd_index = 0, upd_dir = 0\<rparr>"

definition DIR_IN :: u8 where "DIR_IN = 0"
definition DIR_OUT :: u8 where "DIR_OUT = 1"
definition DIR_FWD :: u8 where "DIR_FWD = 2"
definition PROTO_ESP :: u8 where "PROTO_ESP = 50"
definition MODE_TUNNEL :: u8 where "MODE_TUNNEL = 1"
definition XFRMA_TMPL :: u16 where "XFRMA_TMPL = 5"
definition XFRM_MSG_NEWPOLICY :: u16 where "XFRM_MSG_NEWPOLICY = 19"
definition XFRM_MSG_DELPOLICY :: u16 where "XFRM_MSG_DELPOLICY = 20"
definition XFRM_MSG_GETPOLICY :: u16 where "XFRM_MSG_GETPOLICY = 21"
definition XFRM_MSG_UPDPOLICY :: u16 where "XFRM_MSG_UPDPOLICY = 25"

definition xfrm_addr :: "ip_addr \<Rightarrow> xfrm_address" where
  "xfrm_addr ip = (case ip of V4 v4 \<Rightarrow> ip4_octets v4 @ replicate 12 0 | V6 v6 \<Rightarrow> ip6_bytes v6)"

definition family_of :: "ip_addr \<Rightarrow> u16" where
  "family_of ip = (case ip of V4 _ \<Rightarrow> AF_INET | V6 _ \<Rightarrow> AF_INET6)"

definition ip_of :: "xfrm_address \<Rightarrow> u16 \<Rightarrow> ip_addr" where
  "ip_of a family = (if family = AF_INET6 then V6 (IP6 a) else V4 (ip4_from_bytes (take 4 a)))"

definition fill_selector :: "xfrm_selector \<Rightarrow> xfrm_policy_spec \<Rightarrow> xfrm_selector" where
  "fill_selector sel spec =
     sel\<lparr>sel_family := family_of (xs_src spec), sel_saddr := xfrm_addr (xs_src spec),
       sel_prefixlen_s := xs_src_prefix spec, sel_daddr := xfrm_addr (xs_dst spec),
       sel_prefixlen_d := xs_dst_prefix spec\<rparr>"

definition policy_info :: "xfrm_policy_spec \<Rightarrow> xfrm_userpolicy_info" where
  "policy_info spec =
     zero_policy_info\<lparr>upi_sel := fill_selector (upi_sel zero_policy_info) spec, upi_dir := xs_dir spec\<rparr>"

definition user_tmpl :: "xfrm_policy_spec \<Rightarrow> xfrm_user_tmpl" where
  "user_tmpl spec =
     zero_user_tmpl\<lparr>ut_id := (ut_id zero_user_tmpl)\<lparr>xi_daddr := xfrm_addr (xs_tunnel_dst spec), xi_proto := PROTO_ESP\<rparr>,
       ut_family := family_of (xs_tunnel_src spec), ut_saddr := xfrm_addr (xs_tunnel_src spec),
       ut_reqid := xs_reqid spec, ut_mode := MODE_TUNNEL\<rparr>"

section \<open>Layout\<close>

text \<open>\<open>bytes_of\<close> and \<open>read_struct\<close> on the \<open>repr(C)\<close> structures: a field stands at the next multiple of its alignment.
  The array of an address has alignment one. Padding is zero, since every structure starts zeroed.\<close>

definition selector_bytes :: "xfrm_selector \<Rightarrow> u8 list" where
  "selector_bytes s =
     sel_daddr s @ sel_saddr s @ to_ne_bytes 2 (sel_dport s) @ to_ne_bytes 2 (sel_dport_mask s) @
     to_ne_bytes 2 (sel_sport s) @ to_ne_bytes 2 (sel_sport_mask s) @ to_ne_bytes 2 (sel_family s) @
     [sel_prefixlen_d s, sel_prefixlen_s s, sel_proto s] @ replicate 3 0 @
     to_ne_bytes 4 (sel_ifindex s) @ to_ne_bytes 4 (sel_user s)"

definition lifetime_cfg_bytes :: "xfrm_lifetime_cfg \<Rightarrow> u8 list" where
  "lifetime_cfg_bytes l =
     to_ne_bytes 8 (lft_soft_byte_limit l) @
     to_ne_bytes 8 (lft_hard_byte_limit l) @
     to_ne_bytes 8 (lft_soft_packet_limit l) @
     to_ne_bytes 8 (lft_hard_packet_limit l) @
     to_ne_bytes 8 (lft_soft_add_expires_seconds l) @
     to_ne_bytes 8 (lft_hard_add_expires_seconds l) @
     to_ne_bytes 8 (lft_soft_use_expires_seconds l) @
     to_ne_bytes 8 (lft_hard_use_expires_seconds l)"

definition lifetime_cur_bytes :: "xfrm_lifetime_cur \<Rightarrow> u8 list" where
  "lifetime_cur_bytes l =
     to_ne_bytes 8 (cur_bytes l) @ to_ne_bytes 8 (cur_packets l) @ to_ne_bytes 8 (cur_add_time l) @ to_ne_bytes 8 (cur_use_time l)"

definition policy_info_bytes :: "xfrm_userpolicy_info \<Rightarrow> u8 list" where
  "policy_info_bytes i =
     selector_bytes (upi_sel i) @ lifetime_cfg_bytes (upi_lft i) @
     lifetime_cur_bytes (upi_curlft i) @ to_ne_bytes 4 (upi_priority i) @
     to_ne_bytes 4 (upi_index i) @ [upi_dir i, upi_action i, upi_flags i, upi_share i] @ replicate 4 0"

definition xfrm_id_bytes :: "xfrm_id \<Rightarrow> u8 list" where
  "xfrm_id_bytes i = xi_daddr i @ to_ne_bytes 4 (xi_spi i) @ [xi_proto i] @ replicate 3 0"

definition user_tmpl_bytes :: "xfrm_user_tmpl \<Rightarrow> u8 list" where
  "user_tmpl_bytes t =
     xfrm_id_bytes (ut_id t) @ to_ne_bytes 2 (ut_family t) @ ut_saddr t @ replicate 2 0 @ to_ne_bytes 4 (ut_reqid t) @
     [ut_mode t, ut_share t, ut_optional t] @ replicate 1 0 @
     to_ne_bytes 4 (ut_aalgos t) @ to_ne_bytes 4 (ut_ealgos t) @ to_ne_bytes 4 (ut_calgos t)"

definition policy_id_bytes :: "xfrm_userpolicy_id \<Rightarrow> u8 list" where
  "policy_id_bytes p = selector_bytes (upd_sel p) @ to_ne_bytes 4 (upd_index p) @ [upd_dir p] @ replicate 3 0"

definition field :: "nat \<Rightarrow> nat \<Rightarrow> u8 list \<Rightarrow> u8 list" where
  "field off k b = take k (drop off b)"

definition selector_at :: "u8 list \<Rightarrow> xfrm_selector" where
  "selector_at b = \<lparr>sel_daddr = field 0 16 b, sel_saddr = field 16 16 b, sel_dport = from_ne_bytes (field 32 2 b),
     sel_dport_mask = from_ne_bytes (field 34 2 b), sel_sport = from_ne_bytes (field 36 2 b),
     sel_sport_mask = from_ne_bytes (field 38 2 b), sel_family = from_ne_bytes (field 40 2 b),
     sel_prefixlen_d = b ! 42, sel_prefixlen_s = b ! 43, sel_proto = b ! 44,
     sel_ifindex = from_ne_bytes (field 48 4 b), sel_user = from_ne_bytes (field 52 4 b)\<rparr>"

definition lifetime_cfg_at :: "u8 list \<Rightarrow> xfrm_lifetime_cfg" where
  "lifetime_cfg_at b = \<lparr>lft_soft_byte_limit = from_ne_bytes (field 0 8 b),
     lft_hard_byte_limit = from_ne_bytes (field 8 8 b),
     lft_soft_packet_limit = from_ne_bytes (field 16 8 b),
     lft_hard_packet_limit = from_ne_bytes (field 24 8 b),
     lft_soft_add_expires_seconds = from_ne_bytes (field 32 8 b),
     lft_hard_add_expires_seconds = from_ne_bytes (field 40 8 b),
     lft_soft_use_expires_seconds = from_ne_bytes (field 48 8 b),
     lft_hard_use_expires_seconds = from_ne_bytes (field 56 8 b)\<rparr>"

definition lifetime_cur_at :: "u8 list \<Rightarrow> xfrm_lifetime_cur" where
  "lifetime_cur_at b = \<lparr>cur_bytes = from_ne_bytes (field 0 8 b), cur_packets = from_ne_bytes (field 8 8 b), cur_add_time = from_ne_bytes (field 16 8 b), cur_use_time = from_ne_bytes (field 24 8 b)\<rparr>"

definition read_policy_info :: "u8 list \<Rightarrow> xfrm_userpolicy_info option" where
  "read_policy_info b =
     map_option (\<lambda>c. \<lparr>upi_sel = selector_at c,
       upi_lft = lifetime_cfg_at (drop 56 c),
       upi_curlft = lifetime_cur_at (drop 120 c),
       upi_priority = from_ne_bytes (field 152 4 c), upi_index = from_ne_bytes (field 156 4 c),
       upi_dir = c ! 160, upi_action = c ! 161, upi_flags = c ! 162, upi_share = c ! 163\<rparr>)
     (get_range 0 168 b)"

definition read_user_tmpl :: "u8 list \<Rightarrow> xfrm_user_tmpl option" where
  "read_user_tmpl b =
     map_option (\<lambda>c. \<lparr>ut_id = \<lparr>xi_daddr = field 0 16 c, xi_spi = from_ne_bytes (field 16 4 c), xi_proto = c ! 20\<rparr>,
       ut_family = from_ne_bytes (field 24 2 c), ut_saddr = field 26 16 c, ut_reqid = from_ne_bytes (field 44 4 c),
       ut_mode = c ! 48, ut_share = c ! 49, ut_optional = c ! 50, ut_aalgos = from_ne_bytes (field 52 4 c),
       ut_ealgos = from_ne_bytes (field 56 4 c), ut_calgos = from_ne_bytes (field 60 4 c)\<rparr>)
     (get_range 0 64 b)"

section \<open>Attributes and replies\<close>

definition rtattr :: "u16 \<Rightarrow> u8 list \<Rightarrow> u8 list" where
  "rtattr attr_type payload =
     (let v = to_ne_bytes 2 (of_nat (4 + length payload) :: u16) @ to_ne_bytes 2 attr_type @ payload
      in v @ replicate (align4 (length v) - length v) 0)"

text \<open>\<open>None\<close> is the panic of the slice \<open>&b[align4(len)..]\<close>.\<close>

function parse_rtattrs :: "u8 list \<Rightarrow> (u16 \<times> u8 list) list option" where
  "parse_rtattrs b =
     (if length b < 4 then Some []
      else
        let len = unat (from_ne_bytes (take 2 b) :: u16); t = from_ne_bytes (take 2 (drop 2 b)) in
        if len < 4 \<or> len > length b then Some []
        else if align4 len > length b then None
        else map_option (Cons (t, take (len - 4) (drop 4 b))) (parse_rtattrs (drop (align4 len) b)))"
  by pat_completeness auto
termination
proof (relation "measure length")
  fix b :: "u8 list" and len
  assume "\<not> length b < 4" "\<not> (len < 4 \<or> len > length b)"
  then have "4 \<le> len" "length b > 0" by auto
  with align4_bounds(1) [of len] show "(drop (align4 len) b, b) \<in> measure length" by simp
qed simp

declare parse_rtattrs.simps [simp del]

lemma align4_drop: "\<not> n < 16 \<Longrightarrow> \<not> length b < n \<Longrightarrow> length (drop (align4 n) b) < length b"
  using align4_bounds(1) [of n] by simp

text \<open>One datagram: the bodies, whether the answer is complete, and the number of malformed messages.\<close>

function parse_reply :: "u8 list \<Rightarrow> u8 list list \<times> bool \<times> nat \<Rightarrow> io_error + u8 list list \<times> bool \<times> nat" where
  "parse_reply buf (results, done', shorts) =
     (if length buf < 16 then Inr (results, done', shorts)
      else
        let mlen = unat (from_ne_bytes (take 4 buf) :: u32) in
        if mlen < 16 \<or> mlen > length buf then Inr (results, done', shorts + 1)
        else
          let mtype = from_ne_bytes (field 4 2 buf) :: u16; rest = drop (align4 mlen) buf in
          if mtype = 2 \<and> mlen \<ge> 20 then
            (let code = sint (from_ne_bytes (field 16 4 buf) :: u32) in
             if code \<noteq> 0 then Inl (RawOs (- code)) else parse_reply rest (results, True, shorts))
          else if mtype = 2 then parse_reply rest (results, done', shorts + 1)
          else if mtype = 3 then parse_reply rest (results, True, shorts)
          else parse_reply rest (results @ [field 16 (mlen - 16) buf], done', shorts))"
  by pat_completeness auto
termination
  by (relation "measure (length \<circ> fst)") (auto simp del: length_drop intro!: align4_drop)

declare parse_reply.simps [simp del]

section \<open>Requests\<close>

definition MAX_SHORT_REPLIES :: nat where "MAX_SHORT_REPLIES = 8"

definition short_reply_error :: "nat \<Rightarrow> io_error option" where
  "short_reply_error short_replies =
     (if short_replies \<ge> MAX_SHORT_REPLIES
      then Some (IoErr (''xfrm netlink: '' @ show_nat short_replies @ '' consecutive short replies'')) else None)"

definition xfrm_message :: "u32 \<Rightarrow> u32 \<Rightarrow> u16 \<Rightarrow> u8 list \<Rightarrow> u8 list" where
  "xfrm_message port seq msg_type payload =
     to_ne_bytes 4 (of_nat (16 + length payload) :: u32) @ to_ne_bytes 2 msg_type @
     to_ne_bytes 2 (NLM_F_REQUEST OR NLM_F_ACK) @ to_ne_bytes 4 seq @ to_ne_bytes 4 port @ payload"

text \<open>The loop over \<open>recv\<close> with the bodies so far and the count of malformed replies.\<close>

fun xfrm_replies :: "(io_error + u8 list) list \<Rightarrow> u8 list list \<Rightarrow> nat \<Rightarrow> u8 list list outcome" where
  "xfrm_replies [] results short_replies = Blocked"
| "xfrm_replies (Inl e # ds) results short_replies = Ret (Inl e)"
| "xfrm_replies (Inr d # ds) results short_replies =
     (let buf = take 65536 d in
      case parse_reply buf ([], False, 0) of
        Inl e \<Rightarrow> Ret (Inl e)
      | Inr (bodies, done', shorts) \<Rightarrow>
          (let results = results @ bodies in
           if done' then Ret (Inr results)
           else if shorts > 0 \<or> buf = [] then
             (let short_replies = short_replies + shorts + (if buf = [] then 1 else 0) in
              case short_reply_error short_replies of
                Some e \<Rightarrow> Ret (Inl e)
              | None \<Rightarrow> xfrm_replies ds results short_replies)
           else xfrm_replies ds results short_replies))"

text \<open>A socket for one request, whose sequence number is one.\<close>

definition xfrm_request :: "'s genl_kernel \<Rightarrow> u16 \<Rightarrow> u8 list \<Rightarrow> 's \<Rightarrow> 's \<times> u8 list list outcome" where
  "xfrm_request kern msg_type payload s =
     (case gk_socket kern s of
        (s1, Inl e) \<Rightarrow> (s1, Ret (Inl e))
      | (s1, Inr port) \<Rightarrow>
          (case gk_send kern (xfrm_message port 1 msg_type payload) s1 of
             (s2, Inl e) \<Rightarrow> (s2, Ret (Inl e))
           | (s2, Inr ds) \<Rightarrow> (s2, xfrm_replies ds [] 0)))"

fun map_outcome :: "('a \<Rightarrow> 'b) \<Rightarrow> 'a outcome \<Rightarrow> 'b outcome" where
  "map_outcome f (Ret (Inr x)) = Ret (Inr (f x))"
| "map_outcome f (Ret (Inl e)) = Ret (Inl e)"
| "map_outcome f Blocked = Blocked"
| "map_outcome f Panicked = Panicked"

definition xfrm_req :: "'s genl_kernel \<Rightarrow> u16 \<Rightarrow> u8 list \<Rightarrow> 's \<Rightarrow> 's \<times> unit outcome" where
  "xfrm_req kern msg_type payload s = apsnd (map_outcome (\<lambda>_. ())) (xfrm_request kern msg_type payload s)"

section \<open>Policies\<close>

definition policy_info_msg :: "xfrm_policy_spec \<Rightarrow> u8 list" where
  "policy_info_msg spec =
     policy_info_bytes (policy_info spec) @ rtattr XFRMA_TMPL (user_tmpl_bytes (user_tmpl spec))"

definition policy_id_msg :: "xfrm_policy_spec \<Rightarrow> u8 list" where
  "policy_id_msg spec =
     policy_id_bytes (zero_policy_id\<lparr>upd_sel := fill_selector (upd_sel zero_policy_id) spec, upd_dir := xs_dir spec\<rparr>)"

text \<open>\<open>slice::chunks_exact\<close>.\<close>

function chunks_exact :: "nat \<Rightarrow> 'a list \<Rightarrow> 'a list list" where
  "chunks_exact n xs = (if n = 0 \<or> length xs < n then [] else take n xs # chunks_exact n (drop n xs))"
  by pat_completeness auto
termination
  by (relation "measure (length \<circ> snd)") auto

declare chunks_exact.simps [simp del]

definition tmpl_of :: "xfrm_user_tmpl \<Rightarrow> xfrm_tmpl" where
  "tmpl_of ut =
     \<lparr>xt_src = ip_of (ut_saddr ut) (ut_family ut), xt_dst = ip_of (xi_daddr (ut_id ut)) (ut_family ut),
      xt_proto = xi_proto (ut_id ut), xt_mode = ut_mode ut, xt_reqid = ut_reqid ut\<rparr>"

definition tmpls_of :: "(u16 \<times> u8 list) list \<Rightarrow> xfrm_tmpl list" where
  "tmpls_of attrs =
     concat (map (\<lambda>(t, payload).
       if t \<noteq> XFRMA_TMPL then [] else map tmpl_of (List.map_filter read_user_tmpl (chunks_exact 64 payload))) attrs)"

definition parse_policy :: "u8 list \<Rightarrow> xfrm_policy outcome" where
  "parse_policy body =
     (case read_policy_info body of
        None \<Rightarrow> Ret (Inl (IoErr ''short GETPOLICY reply''))
      | Some info \<Rightarrow>
          (case parse_rtattrs (drop 168 body) of
             None \<Rightarrow> Panicked
           | Some attrs \<Rightarrow>
               (let sel = upi_sel info; family = sel_family sel in
                Ret (Inr \<lparr>xp_src = ip_of (sel_saddr sel) family, xp_src_prefix = sel_prefixlen_s sel,
                  xp_dst = ip_of (sel_daddr sel) family, xp_dst_prefix = sel_prefixlen_d sel,
                  xp_dir = upi_dir info, xp_index = upi_index info, xp_priority = upi_priority info,
                  xp_tmpls = tmpls_of attrs\<rparr>))))"

definition add_policy :: "'s genl_kernel \<Rightarrow> xfrm_policy_spec \<Rightarrow> 's \<Rightarrow> 's \<times> unit outcome" where
  "add_policy kern spec = xfrm_req kern XFRM_MSG_NEWPOLICY (policy_info_msg spec)"

definition update_policy :: "'s genl_kernel \<Rightarrow> xfrm_policy_spec \<Rightarrow> 's \<Rightarrow> 's \<times> unit outcome" where
  "update_policy kern spec = xfrm_req kern XFRM_MSG_UPDPOLICY (policy_info_msg spec)"

definition del_policy :: "'s genl_kernel \<Rightarrow> xfrm_policy_spec \<Rightarrow> 's \<Rightarrow> 's \<times> unit outcome" where
  "del_policy kern spec = xfrm_req kern XFRM_MSG_DELPOLICY (policy_id_msg spec)"

definition ENOENT :: int where "ENOENT = 2"
definition ENODATA :: int where "ENODATA = 61"

definition get_policy :: "'s genl_kernel \<Rightarrow> xfrm_policy_spec \<Rightarrow> 's \<Rightarrow> 's \<times> xfrm_policy option outcome" where
  "get_policy kern spec s =
     (case xfrm_request kern XFRM_MSG_GETPOLICY (policy_id_msg spec) s of
        (s1, Ret (Inl e)) \<Rightarrow> (s1, if e = RawOs ENOENT \<or> e = RawOs ENODATA then Ret (Inr None) else Ret (Inl e))
      | (s1, Ret (Inr [])) \<Rightarrow> (s1, Ret (Inr None))
      | (s1, Ret (Inr (b # _))) \<Rightarrow> (s1, map_outcome Some (parse_policy b))
      | (s1, Blocked) \<Rightarrow> (s1, Blocked)
      | (s1, Panicked) \<Rightarrow> (s1, Panicked))"

section \<open>Policies are read back\<close>

lemma field_skip: "length xs \<le> off \<Longrightarrow> field off k (xs @ ys) = field (off - length xs) k ys"
  by (simp add: field_def)

lemma field_here: "length xs = k \<Longrightarrow> field 0 k (xs @ ys) = xs"
  by (simp add: field_def)

lemma field_all: "length xs = k \<Longrightarrow> field 0 k xs = xs"
  by (simp add: field_def)

lemma field_Cons: "0 < off \<Longrightarrow> field off k (x # xs) = field (off - 1) k xs"
  by (cases off) (simp_all add: field_def)

lemmas field_simps' = field_skip field_here field_all field_Cons nth_append

definition ip_ok :: "ip_addr \<Rightarrow> bool" where
  "ip_ok ip = (case ip of V4 _ \<Rightarrow> True | V6 v6 \<Rightarrow> length (ip6_bytes v6) = 16)"

lemma length_ip4_octets [simp]: "length (ip4_octets ip) = 4"
  by (simp add: ip4_octets_def)

lemma length_xfrm_addr: "ip_ok ip \<Longrightarrow> length (xfrm_addr ip) = 16"
  by (cases ip) (simp_all add: xfrm_addr_def ip_ok_def)

lemma ip_of_xfrm_addr: "ip_ok ip \<Longrightarrow> ip_of (xfrm_addr ip) (family_of ip) = ip"
  by (cases ip) (simp_all add: xfrm_addr_def ip_of_def family_of_def AF_INET_def AF_INET6_def ip4_from_bytes_def
      ip4_octets_def byte_simps)

definition spec_ok :: "xfrm_policy_spec \<Rightarrow> bool" where
  "spec_ok spec \<longleftrightarrow>
     ip_ok (xs_src spec) \<and> ip_ok (xs_dst spec) \<and> family_of (xs_src spec) = family_of (xs_dst spec) \<and>
     ip_ok (xs_tunnel_src spec) \<and> ip_ok (xs_tunnel_dst spec) \<and> family_of (xs_tunnel_src spec) = family_of (xs_tunnel_dst spec)"

lemma length_selector_bytes:
  "length (sel_daddr s) = 16 \<Longrightarrow> length (sel_saddr s) = 16 \<Longrightarrow> length (selector_bytes s) = 56"
  by (simp add: selector_bytes_def)

lemma length_policy_info_bytes: "length (selector_bytes (upi_sel i)) = 56 \<Longrightarrow> length (policy_info_bytes i) = 168"
  by (simp add: policy_info_bytes_def lifetime_cfg_bytes_def lifetime_cur_bytes_def)

lemma length_user_tmpl_bytes:
  "length (xi_daddr (ut_id t)) = 16 \<Longrightarrow> length (ut_saddr t) = 16 \<Longrightarrow> length (user_tmpl_bytes t) = 64"
  by (simp add: user_tmpl_bytes_def xfrm_id_bytes_def)

lemma read_user_tmpl_bytes:
  assumes "length (xi_daddr (ut_id t)) = 16" "length (ut_saddr t) = 16"
  shows "read_user_tmpl (user_tmpl_bytes t) = Some t"
proof -
  have "get_range 0 64 (user_tmpl_bytes t) = Some (user_tmpl_bytes t)"
    using length_user_tmpl_bytes [OF assms] by (simp add: get_range_def)
  then show ?thesis
    using assms by (simp add: read_user_tmpl_def user_tmpl_bytes_def xfrm_id_bytes_def field_simps' byte_simps)
qed

lemma selector_at_bytes:
  assumes "length (sel_daddr s) = 16" "length (sel_saddr s) = 16"
  shows "selector_at (selector_bytes s @ rest) = s"
  using assms by (simp add: selector_at_def selector_bytes_def field_simps' byte_simps)

lemma read_policy_info_bytes:
  assumes "length (sel_daddr (upi_sel i)) = 16" "length (sel_saddr (upi_sel i)) = 16"
  shows "map_option (\<lambda>j. (upi_sel j, upi_dir j, upi_index j, upi_priority j)) (read_policy_info (policy_info_bytes i @ rest)) =
    Some (upi_sel i, upi_dir i, upi_index i, upi_priority i)"
proof -
  have len: "length (selector_bytes (upi_sel i)) = 56" "length (policy_info_bytes i) = 168"
    using length_selector_bytes [OF assms] length_policy_info_bytes by simp_all
  have "get_range 0 168 (policy_info_bytes i @ rest) = Some (policy_info_bytes i)"
    using len by (simp add: get_range_def)
  moreover have "field 152 4 (policy_info_bytes i) = to_ne_bytes 4 (upi_priority i)"
    "field 156 4 (policy_info_bytes i) = to_ne_bytes 4 (upi_index i)" "policy_info_bytes i ! 160 = upi_dir i"
    using len by (simp_all add: policy_info_bytes_def lifetime_cfg_bytes_def lifetime_cur_bytes_def field_simps')
  moreover have "selector_at (policy_info_bytes i) = upi_sel i"
    unfolding policy_info_bytes_def by (rule selector_at_bytes [OF assms])
  ultimately show ?thesis by (simp add: read_policy_info_def byte_simps)
qed

lemma parse_rtattr_one:
  assumes "length p < 65532" and "4 dvd length p"
  shows "parse_rtattrs (rtattr t p) = Some [(t, p)]"
proof -
  have al: "align4 (4 + length p) = 4 + length p" using assms(2) by (auto simp: align4_def dvd_def)
  then have r: "rtattr t p = to_ne_bytes 2 (of_nat (4 + length p) :: u16) @ to_ne_bytes 2 t @ p"
    by (simp add: rtattr_def Let_def add.commute [of _ 4] numeral_eq_Suc)
  have len: "unat (of_nat (4 + length p) :: u16) = 4 + length p"
    using assms(1) unfolding unat_of_nat by simp
  have "parse_rtattrs [] = Some []" by (simp add: parse_rtattrs.simps)
  then show ?thesis
    using len al unfolding r by (subst parse_rtattrs.simps) (simp add: byte_simps del: of_nat_add)
qed

lemma tmpls_of_one:
  assumes "length (xi_daddr (ut_id t)) = 16" "length (ut_saddr t) = 16"
  shows "tmpls_of [(XFRMA_TMPL, user_tmpl_bytes t)] = [tmpl_of t]"
proof -
  have "chunks_exact 64 (user_tmpl_bytes t) = [user_tmpl_bytes t]"
    using length_user_tmpl_bytes [OF assms] by (simp add: chunks_exact.simps [of 64])
  then show ?thesis by (simp add: tmpls_of_def List.map_filter_def read_user_tmpl_bytes [OF assms])
qed

text \<open>C24. What the client sends to add or update a policy is what it reads back from a reply with the same bytes: both
  networks, the direction and one ESP tunnel template with the two endpoints and the request id. The identifier of
  the policy in a query or a deletion has the selector and direction of the policy that was added.\<close>

theorem xfrm_policy_roundtrip:
  assumes "spec_ok spec"
  shows "parse_policy (policy_info_msg spec) =
      Ret (Inr \<lparr>xp_src = xs_src spec, xp_src_prefix = xs_src_prefix spec, xp_dst = xs_dst spec,
        xp_dst_prefix = xs_dst_prefix spec, xp_dir = xs_dir spec, xp_index = 0, xp_priority = 0,
        xp_tmpls = [\<lparr>xt_src = xs_tunnel_src spec, xt_dst = xs_tunnel_dst spec, xt_proto = PROTO_ESP,
          xt_mode = MODE_TUNNEL, xt_reqid = xs_reqid spec\<rparr>]\<rparr>) \<and>
    length (policy_id_msg spec) = 64 \<and> take 56 (policy_id_msg spec) = take 56 (policy_info_msg spec) \<and>
    policy_id_msg spec ! 60 = policy_info_msg spec ! 160"
proof -
  note ok = assms [unfolded spec_ok_def]
  let ?i = "policy_info spec" and ?t = "user_tmpl spec" and ?s = "fill_selector zero_selector spec"
  have sel: "upi_sel ?i = ?s" "upi_dir ?i = xs_dir spec" "upi_index ?i = 0" "upi_priority ?i = 0"
    by (simp_all add: policy_info_def zero_policy_info_def)
  have sl: "length (sel_daddr ?s) = 16" "length (sel_saddr ?s) = 16"
    using ok by (simp_all add: fill_selector_def length_xfrm_addr)
  have tl: "length (xi_daddr (ut_id ?t)) = 16" "length (ut_saddr ?t) = 16"
    using ok by (simp_all add: user_tmpl_def length_xfrm_addr)
  have ilen: "length (policy_info_bytes ?i) = 168" "length (selector_bytes ?s) = 56"
    using length_policy_info_bytes [of ?i] length_selector_bytes [OF sl] sel by simp_all
  have attrs: "parse_rtattrs (drop 168 (policy_info_msg spec)) = Some [(XFRMA_TMPL, user_tmpl_bytes ?t)]"
    using parse_rtattr_one [of "user_tmpl_bytes ?t" XFRMA_TMPL] length_user_tmpl_bytes [OF tl] ilen
    by (simp add: policy_info_msg_def)
  obtain j where j: "read_policy_info (policy_info_msg spec) = Some j" "upi_sel j = ?s" "upi_dir j = xs_dir spec"
      "upi_index j = 0" "upi_priority j = 0"
    using read_policy_info_bytes [of ?i "rtattr XFRMA_TMPL (user_tmpl_bytes ?t)"] sl sel by (auto simp: policy_info_msg_def)
  have t: "tmpl_of ?t = \<lparr>xt_src = xs_tunnel_src spec, xt_dst = xs_tunnel_dst spec, xt_proto = PROTO_ESP,
      xt_mode = MODE_TUNNEL, xt_reqid = xs_reqid spec\<rparr>"
    using ok ip_of_xfrm_addr [of "xs_tunnel_src spec"] ip_of_xfrm_addr [of "xs_tunnel_dst spec"]
    by (simp add: tmpl_of_def user_tmpl_def zero_user_tmpl_def)
  have "parse_policy (policy_info_msg spec) =
      Ret (Inr \<lparr>xp_src = xs_src spec, xp_src_prefix = xs_src_prefix spec, xp_dst = xs_dst spec,
        xp_dst_prefix = xs_dst_prefix spec, xp_dir = xs_dir spec, xp_index = 0, xp_priority = 0,
        xp_tmpls = [tmpl_of ?t]\<rparr>)"
    using ok ip_of_xfrm_addr [of "xs_src spec"] ip_of_xfrm_addr [of "xs_dst spec"]
    by (simp add: parse_policy_def j attrs tmpls_of_one [OF tl] fill_selector_def Let_def)
  moreover have "length (policy_id_msg spec) = 64" "take 56 (policy_id_msg spec) = selector_bytes ?s"
      "policy_id_msg spec ! 60 = xs_dir spec"
    using ilen(2) by (simp_all add: policy_id_msg_def policy_id_bytes_def zero_policy_id_def nth_append)
  moreover have "take 56 (policy_info_msg spec) = selector_bytes ?s" "policy_info_msg spec ! 160 = xs_dir spec"
    using ilen sel by (simp_all add: policy_info_msg_def policy_info_bytes_def lifetime_cfg_bytes_def
        lifetime_cur_bytes_def nth_append)
  ultimately show ?thesis using t by simp
qed

definition sample_spec :: xfrm_policy_spec where
  "sample_spec = \<lparr>xs_src = V4 (IP4 0x0af40100), xs_src_prefix = 24, xs_dst = V4 (IP4 0x0af40200), xs_dst_prefix = 24,
     xs_dir = DIR_OUT, xs_tunnel_src = V4 (IP4 0xc0a80001), xs_tunnel_dst = V4 (IP4 0xc0a80002), xs_reqid = 11\<rparr>"

theorem xfrm_policy_roundtrip_witness:
  "parse_policy (policy_info_msg sample_spec) =
     Ret (Inr \<lparr>xp_src = V4 (IP4 0x0af40100), xp_src_prefix = 24, xp_dst = V4 (IP4 0x0af40200), xp_dst_prefix = 24,
       xp_dir = DIR_OUT, xp_index = 0, xp_priority = 0,
       xp_tmpls = [\<lparr>xt_src = V4 (IP4 0xc0a80001), xt_dst = V4 (IP4 0xc0a80002), xt_proto = 50, xt_mode = 1, xt_reqid = 11\<rparr>]\<rparr>)"
proof -
  have "spec_ok sample_spec" by (simp add: spec_ok_def sample_spec_def ip_ok_def family_of_def)
  from xfrm_policy_roundtrip [OF this] show ?thesis by (simp add: sample_spec_def PROTO_ESP_def MODE_TUNNEL_def)
qed

section \<open>The layout of the kernel\<close>

text \<open>In \<open>linux/xfrm.h\<close> the address \<open>xfrm_address_t\<close> is a union with 32-bit members, so that in \<open>struct xfrm_user_tmpl\<close>
  it is aligned to four bytes: \<open>id\<close> at 0, \<open>family\<close> at 24, \<open>saddr\<close> at 28, \<open>reqid\<close> at 44, \<open>mode\<close> at 48.\<close>

record kernel_tmpl =
  kt_daddr :: xfrm_address
  kt_proto :: u8
  kt_family :: u16
  kt_saddr :: xfrm_address
  kt_reqid :: u32
  kt_mode :: u8

definition kernel_read_tmpl :: "u8 list \<Rightarrow> kernel_tmpl" where
  "kernel_read_tmpl b =
     \<lparr>kt_daddr = field 0 16 b, kt_proto = b ! 20, kt_family = from_ne_bytes (field 24 2 b), kt_saddr = field 28 16 b,
      kt_reqid = from_ne_bytes (field 44 4 b), kt_mode = b ! 48\<rparr>"

text \<open>C38. The kernel reads the template that the client sends with every field right but the source of the tunnel: the
  array of an address has alignment one in \<open>XfrmUserTmpl\<close> and starts at offset 26, the kernel reads it at 28, so
  for an IPv4 tunnel it gets the last two octets of the address followed by zeros. The asserted size, 64 bytes, is the
  same in both layouts, and the client reads its own layout back.\<close>

theorem xfrm_tmpl_source_misplaced:
  assumes "xs_tunnel_src spec = V4 src" and "xs_tunnel_dst spec = V4 dst"
  shows "kernel_read_tmpl (user_tmpl_bytes (user_tmpl spec)) =
    \<lparr>kt_daddr = ip4_octets dst @ replicate 12 0, kt_proto = PROTO_ESP, kt_family = AF_INET,
     kt_saddr = drop 2 (ip4_octets src) @ replicate 14 0, kt_reqid = xs_reqid spec, kt_mode = MODE_TUNNEL\<rparr>"
proof -
  obtain a b c d where o4: "ip4_octets src = [a, b, c, d]"
    using length_ip4_octets [of src] by (auto simp: numeral_eq_Suc length_Suc_conv simp del: length_ip4_octets)
  have "field 2 16 (ip4_octets src @ replicate 12 0 @ replicate 2 0 @ rest) = drop 2 (ip4_octets src) @ replicate 14 0"
    for rest :: "u8 list"
    by (simp add: o4 field_def numeral_eq_Suc)
  moreover have "field 0 16 (ip4_octets dst @ replicate 12 0 @ rest) = ip4_octets dst @ replicate 12 0" for rest :: "u8 list"
    by (simp add: field_def)
  ultimately show ?thesis
    using assms
    by (simp add: kernel_read_tmpl_def user_tmpl_bytes_def xfrm_id_bytes_def user_tmpl_def zero_user_tmpl_def xfrm_addr_def
        family_of_def field_simps' byte_simps)
qed

theorem xfrm_tmpl_source_misplaced_witness:
  "take 4 (kt_saddr (kernel_read_tmpl (user_tmpl_bytes (user_tmpl sample_spec)))) = [0, 1, 0, 0] \<and>
   ip4_octets (IP4 0xc0a80001) = [192, 168, 0, 1]"
proof -
  have "ip4_octets (IP4 0xc0a80001) = [192, 168, 0, 1]" by code_simp
  with xfrm_tmpl_source_misplaced [of sample_spec "IP4 0xc0a80001" "IP4 0xc0a80002"] show ?thesis
    by (simp add: sample_spec_def numeral_eq_Suc)
qed

section \<open>A request ends\<close>

text \<open>A datagram that carries no acknowledgement although nothing legitimate is left to wait for: it is empty, or a
  message in it is malformed.\<close>

definition malformed :: "u8 list \<Rightarrow> bool" where
  "malformed d =
     (case parse_reply (take 65536 d) ([], False, 0) of Inr (_, _, shorts) \<Rightarrow> shorts > 0 \<or> d = [] | Inl _ \<Rightarrow> False)"

lemma xfrm_replies_bounded:
  assumes "\<forall>d \<in> set ds. case d of Inr b \<Rightarrow> malformed b | Inl _ \<Rightarrow> True"
    and "MAX_SHORT_REPLIES \<le> length ds + n" and "n < MAX_SHORT_REPLIES"
  shows "\<exists>r. xfrm_replies ds results n = Ret r"
  using assms
proof (induction ds arbitrary: results n)
  case Nil
  then show ?case by simp
next
  case (Cons d ds)
  show ?case
  proof (cases d)
    case (Inl e)
    then show ?thesis by simp
  next
    case (Inr b)
    with Cons.prems(1) have "malformed b" by simp
    then obtain bodies dn k where p: "parse_reply (take 65536 b) ([], False, 0) = Inr (bodies, dn, k)" "k > 0 \<or> b = []"
      by (auto simp: malformed_def split: sum.splits)
    let ?n = "n + k + (if b = [] then 1 else 0)"
    have "\<exists>r. xfrm_replies ds (results @ bodies) ?n = Ret r" if "?n < MAX_SHORT_REPLIES"
      using Cons.prems p(2) that by (intro Cons.IH) auto
    then show ?thesis using p by (auto simp: Inr Let_def short_reply_error_def split: if_splits)
  qed
qed

text \<open>A kernel that keeps answering with malformed or empty datagrams cannot hold a request: of the datagrams that
  carry no complete answer at most eight are read, then the request fails. So every request returns when the kernel
  sends at least eight datagrams, all of them malformed, errors or a final acknowledgement.\<close>

theorem xfrm_request_returns:
  assumes "gk_socket kern s = (s1, Inr port)" and "gk_send kern (xfrm_message port 1 t payload) s1 = (s2, Inr ds)"
    and "\<forall>d \<in> set ds. case d of Inr b \<Rightarrow> malformed b | Inl _ \<Rightarrow> True" and "8 \<le> length ds"
  shows "\<exists>r. xfrm_request kern t payload s = (s2, Ret r)"
  using xfrm_replies_bounded [OF assms(3), of 0 "[]"] assms(1,2,4) by (auto simp: xfrm_request_def MAX_SHORT_REPLIES_def)

end
