(* ===== verification/Ipsec.thy ===== *)
theory Ipsec
  imports Xfrm Vici Backends
begin

text \<open>
  The IPsec backend: the daemon charon (\<open>backend/ipsec/charon.rs\<close>), the network with its policies
  (\<open>backend/ipsec/network.rs\<close>) and the registration (\<open>backend/ipsec/mod.rs\<close>). The kernel, the VICI socket, the
  clock with the cancellation token, the file system and the start of a process are a parameter. \<open>None\<close> as the
  result of a call is a call that does not return: a wait that never ends or a reply that never comes.
\<close>

record 's ipsec_os =
  io_xfrm :: "'s genl_kernel"
  io_connect :: "'s \<Rightarrow> 's \<times> (string + unit)"
  io_vici :: "u8 list \<Rightarrow> 's \<Rightarrow> 's \<times> u8 list"
  io_wait :: "'s \<Rightarrow> 's \<times> bool"
  io_text :: "io_error \<Rightarrow> string"
  io_vici_text :: "vici_error \<Rightarrow> string"
  io_join :: string
  io_path :: "string option"
  io_executable :: "string \<Rightarrow> bool"
  io_spawn :: "string \<Rightarrow> 's \<Rightarrow> 's \<times> (string + unit)"

text \<open>\<open>io_vici\<close> takes the bytes written to the socket and gives the bytes that can be read from it afterwards;
  \<open>io_wait\<close> is the choice between a second that passes and the cancellation, which is true.\<close>

type_synonym ('s, 'a) task = "'s \<Rightarrow> ('s \<times> (err + 'a)) option"

definition task_bind :: "('s, 'a) task \<Rightarrow> ('a \<Rightarrow> ('s, 'b) task) \<Rightarrow> ('s, 'b) task" where
  "task_bind m f s =
     (case m s of
        None \<Rightarrow> None
      | Some (s1, Inl e) \<Rightarrow> Some (s1, Inl e)
      | Some (s1, Inr x) \<Rightarrow> f x s1)"

definition task_err :: "string \<Rightarrow> ('s, 'a) task \<Rightarrow> ('s, 'a) task" where
  "task_err what m s = map_option (apsnd (map_err (prefix_err what))) (m s)"

section \<open>Charon\<close>

definition look_path_in :: "'s ipsec_os \<Rightarrow> string \<Rightarrow> string option \<Rightarrow> string option" where
  "look_path_in os candidate path_var =
     (if CHR ''/'' \<in> set candidate then (if io_executable os candidate then Some candidate else None)
      else case path_var of
          None \<Rightarrow> None
        | Some path \<Rightarrow>
            find (io_executable os)
              (map (\<lambda>dir. if dir = [] then candidate
                 else rev (dropWhile (\<lambda>c. c = CHR ''/'') (rev dir)) @ ''/'' @ candidate) (split_on (CHR '':'') path)))"

definition CHARON_CANDIDATES :: "string list" where
  "CHARON_CANDIDATES =
     [''charon'', ''/usr/lib/strongswan/charon'', ''/usr/lib/ipsec/charon'', ''/usr/libexec/strongswan/charon'',
      ''/usr/libexec/ipsec/charon'']"

fun first_some :: "('a \<Rightarrow> 'b option) \<Rightarrow> 'a list \<Rightarrow> 'b option" where
  "first_some f [] = None"
| "first_some f (x # xs) = (case f x of Some y \<Rightarrow> Some y | None \<Rightarrow> first_some f xs)"

text \<open>The format \<open>{:?}\<close> of the list of candidates.\<close>

definition candidates_text :: string where
  "candidates_text =
     ''['' @ join_with '', '' (map (\<lambda>c. [CHR 0x22] @ c @ [CHR 0x22]) CHARON_CANDIDATES) @ '']''"

definition find_exec_path_in :: "'s ipsec_os \<Rightarrow> string option \<Rightarrow> err + string" where
  "find_exec_path_in os path_var =
     (case first_some (\<lambda>c. look_path_in os c path_var) CHARON_CANDIDATES of
        Some p \<Rightarrow> Inr p
      | None \<Rightarrow> Inl [''no valid charon executable found at paths '' @ candidates_text])"

definition find_exec_path :: "'s ipsec_os \<Rightarrow> err + string" where
  "find_exec_path os = find_exec_path_in os (io_path os)"

record charon =
  ch_esp_proposal :: string

text \<open>\<open>io_spawn\<close> is \<open>spawn_charon\<close>: the child is terminated when the token is cancelled.\<close>

definition new_charon :: "'s ipsec_os \<Rightarrow> string \<Rightarrow> ('s, charon) task" where
  "new_charon os esp_proposal s =
     (case find_exec_path os of
        Inl e \<Rightarrow> Some (s, Inl e)
      | Inr exec_path \<Rightarrow>
          (case io_spawn os exec_path s of
             (s1, Inl e) \<Rightarrow> Some (s1, Inl [e])
           | (s1, Inr _) \<Rightarrow> Some (s1, Inr \<lparr>ch_esp_proposal = esp_proposal\<rparr>)))"

partial_function (option) get_client :: "'s ipsec_os \<Rightarrow> bool \<Rightarrow> 's \<Rightarrow> ('s \<times> (string + unit)) option" where
  "get_client os wait s =
     (case io_connect os s of
        (s1, Inr _) \<Rightarrow> Some (s1, Inr ())
      | (s1, Inl e) \<Rightarrow>
          if \<not> wait then Some (s1, Inl e)
          else (case io_wait os s1 of
              (s2, cancelled) \<Rightarrow> if cancelled then Some (s2, Inl e) else get_client os wait s2))"

definition acquire_client :: "'s ipsec_os \<Rightarrow> bool \<Rightarrow> ('s, unit) task" where
  "acquire_client os wait s =
     map_option (apsnd (map_err (\<lambda>e. [''Failed to acquire Vici client: '' @ e]))) (get_client os wait s)"

text \<open>A call of the VICI client: the bytes it writes do not depend on those it reads.\<close>

definition with_client ::
  "'s ipsec_os \<Rightarrow> (u8 list \<Rightarrow> u8 list \<times> (vici_error + unit)) \<Rightarrow> 's \<Rightarrow> 's \<times> (vici_error + unit)" where
  "with_client os op s = (let (s1, stream) = io_vici os (fst (op [])) s in (s1, snd (op stream)))"

partial_function (option) load_shared_loop ::
  "'s ipsec_os \<Rightarrow> string \<Rightarrow> string \<Rightarrow> 's \<Rightarrow> ('s \<times> (err + unit)) option" where
  "load_shared_loop os owner pw s =
     (case with_client os (load_shared (bytes_of ''IKE'') (bytes_of pw) [bytes_of owner]) s of
        (s1, Inr _) \<Rightarrow> Some (s1, Inr ())
      | (s1, Inl _) \<Rightarrow>
          (case io_wait os s1 of
             (s2, cancelled) \<Rightarrow>
               if cancelled then Some (s2, Inl [''cancelled while loading shared key''])
               else load_shared_loop os owner pw s2))"

definition load_shared_key :: "'s ipsec_os \<Rightarrow> string \<Rightarrow> string \<Rightarrow> ('s, unit) task" where
  "load_shared_key os remote_public_ip password =
     task_bind (acquire_client os True) (\<lambda>_. load_shared_loop os remote_public_ip password)"

definition format_connection_name :: "lease \<Rightarrow> lease \<Rightarrow> string" where
  "format_connection_name local_lease remote_lease =
     ip4_to_string (public_ip (attrs local_lease)) @ ''-'' @ n4_to_string (subnet local_lease) @ ''-'' @
     n4_to_string (subnet remote_lease) @ ''-'' @ ip4_to_string (public_ip (attrs remote_lease))"

definition format_child_sa_conf_name :: "lease \<Rightarrow> lease \<Rightarrow> string" where
  "format_child_sa_conf_name local_lease remote_lease =
     n4_to_string (subnet local_lease) @ ''-'' @ n4_to_string (subnet remote_lease)"

definition connection_conf :: "charon \<Rightarrow> lease \<Rightarrow> lease \<Rightarrow> string \<Rightarrow> bool \<Rightarrow> ike_conf" where
  "connection_conf ch local_lease remote_lease req_id encap =
     \<lparr>ic_local_addrs = [bytes_of (ip4_to_string (public_ip (attrs local_lease)))],
      ic_remote_addrs = [bytes_of (ip4_to_string (public_ip (attrs remote_lease)))],
      ic_proposals = [bytes_of ''aes256-sha256-modp4096''],
      ic_version = bytes_of ''2'', ic_keying_tries = bytes_of ''0'',
      ic_encap = bytes_of (if encap then ''true'' else ''false''),
      ic_child_name = bytes_of (format_child_sa_conf_name local_lease remote_lease),
      ic_child =
        \<lparr>cc_local_ts = [bytes_of (n4_to_string (subnet local_lease))],
         cc_remote_ts = [bytes_of (n4_to_string (subnet remote_lease))],
         cc_esp_proposals = [bytes_of (ch_esp_proposal ch)],
         cc_start_action = bytes_of ''start'', cc_close_action = bytes_of ''trap'', cc_dpd_action = bytes_of ''restart'',
         cc_mode = bytes_of ''tunnel'', cc_reqid = bytes_of req_id, cc_rekey_time = bytes_of ''1h'',
         cc_install_policy = bytes_of ''no''\<rparr>\<rparr>"

definition load_connection ::
  "'s ipsec_os \<Rightarrow> charon \<Rightarrow> lease \<Rightarrow> lease \<Rightarrow> string \<Rightarrow> bool \<Rightarrow> ('s, unit) task" where
  "load_connection os ch local_lease remote_lease req_id encap =
     task_bind (acquire_client os True) (\<lambda>_ s.
       case with_client os (load_conn (bytes_of (format_connection_name local_lease remote_lease))
              (connection_conf ch local_lease remote_lease req_id encap)) s of
         (s1, Inr _) \<Rightarrow> Some (s1, Inr ())
       | (s1, Inl e) \<Rightarrow> Some (s1, Inl [''error loading connection: '' @ io_vici_text os e]))"

definition unload_charon_connection :: "'s ipsec_os \<Rightarrow> lease \<Rightarrow> lease \<Rightarrow> ('s, unit) task" where
  "unload_charon_connection os local_lease remote_lease =
     task_bind (acquire_client os False) (\<lambda>_ s.
       case with_client os (unload_conn (bytes_of (format_connection_name local_lease remote_lease))) s of
         (s1, Inr _) \<Rightarrow> Some (s1, Inr ())
       | (s1, Inl e) \<Rightarrow> Some (s1, Inl [''error unloading connection: '' @ io_vici_text os e]))"

section \<open>Policies\<close>

text \<open>Work on a blocking thread: a panic there is an error of the task.\<close>

definition blocking :: "'s ipsec_os \<Rightarrow> ('s \<Rightarrow> 's \<times> 'a outcome) \<Rightarrow> ('s, 'a) task" where
  "blocking os m s =
     (case m s of
        (s1, Blocked) \<Rightarrow> None
      | (s1, outcome.Panicked) \<Rightarrow> Some (s1, Inl [io_join os])
      | (s1, Ret (Inl e)) \<Rightarrow> Some (s1, Inl [io_text os e])
      | (s1, Ret (Inr x)) \<Rightarrow> Some (s1, Inr x))"

definition policy_spec :: "lease \<Rightarrow> lease \<Rightarrow> u8 \<Rightarrow> u32 \<Rightarrow> xfrm_policy_spec" where
  "policy_spec src_lease dst_lease dir req_id =
     \<lparr>xs_src = V4 (n4_ip (subnet src_lease)), xs_src_prefix = ucast (n4_prefix_len (subnet src_lease)),
      xs_dst = V4 (n4_ip (subnet dst_lease)), xs_dst_prefix = ucast (n4_prefix_len (subnet dst_lease)), xs_dir = dir,
      xs_tunnel_src = V4 (public_ip (attrs src_lease)), xs_tunnel_dst = V4 (public_ip (attrs dst_lease)),
      xs_reqid = req_id\<rparr>"

definition add_xfrm_policy :: "'s ipsec_os \<Rightarrow> lease \<Rightarrow> lease \<Rightarrow> u8 \<Rightarrow> u32 \<Rightarrow> ('s, unit) task" where
  "add_xfrm_policy os my_lease remote_lease dir req_id =
     (let spec = policy_spec my_lease remote_lease dir req_id in
      task_bind (blocking os (get_policy (io_xfrm os) spec)) (\<lambda>existing.
        case existing of
          None \<Rightarrow> task_err ''error adding policy: '' (blocking os (add_policy (io_xfrm os) spec))
        | Some _ \<Rightarrow> task_err ''error updating policy: '' (blocking os (update_policy (io_xfrm os) spec))))"

definition del_xfrm_policy :: "'s ipsec_os \<Rightarrow> lease \<Rightarrow> lease \<Rightarrow> u8 \<Rightarrow> u32 \<Rightarrow> ('s, unit) task" where
  "del_xfrm_policy os src_lease dst_lease dir req_id =
     task_err ''error deleting policy: '' (blocking os (del_policy (io_xfrm os) (policy_spec src_lease dst_lease dir req_id)))"

definition add_ipsec_policies :: "'s ipsec_os \<Rightarrow> lease \<Rightarrow> lease \<Rightarrow> u32 \<Rightarrow> ('s, unit) task" where
  "add_ipsec_policies os local_lease remote_lease req_id =
     task_bind (task_err ''error adding ipsec out policy: '' (add_xfrm_policy os local_lease remote_lease DIR_OUT req_id)) (\<lambda>_.
     task_bind (task_err ''error adding ipsec in policy: '' (add_xfrm_policy os remote_lease local_lease DIR_IN req_id)) (\<lambda>_.
     task_err ''error adding ipsec fwd policy: '' (add_xfrm_policy os remote_lease local_lease DIR_FWD req_id)))"

definition delete_ipsec_policies :: "'s ipsec_os \<Rightarrow> lease \<Rightarrow> lease \<Rightarrow> u32 \<Rightarrow> ('s, unit) task" where
  "delete_ipsec_policies os local_lease remote_lease req_id =
     task_bind (task_err ''error deleting ipsec out policy: '' (del_xfrm_policy os local_lease remote_lease DIR_OUT req_id)) (\<lambda>_.
     task_bind (task_err ''error deleting ipsec in policy: '' (del_xfrm_policy os remote_lease local_lease DIR_IN req_id)) (\<lambda>_.
     task_err ''error deleting ipsec fwd policy: '' (del_xfrm_policy os remote_lease local_lease DIR_FWD req_id)))"

section \<open>The network\<close>

definition IPSEC_OVERHEAD :: u32 where "IPSEC_OVERHEAD = 77"
definition IPSEC_UDP_ENCAP_OVERHEAD :: u32 where "IPSEC_UDP_ENCAP_OVERHEAD = 8"
definition DEFAULT_REQ_ID :: u32 where "DEFAULT_REQ_ID = 11"
definition IPSEC_BACKEND_TYPE :: string where "IPSEC_BACKEND_TYPE = ''ipsec''"

record ipsec_network =
  in_lease :: lease
  in_mtu :: u32
  in_password :: string
  in_udp_encap :: bool
  in_iked :: charon

definition sat_sub :: "u32 \<Rightarrow> u32 \<Rightarrow> u32" where
  "sat_sub a b = (if a < b then 0 else a - b)"

definition ipsec_new_network :: "u32 \<Rightarrow> bool \<Rightarrow> string \<Rightarrow> charon \<Rightarrow> lease \<Rightarrow> ipsec_network" where
  "ipsec_new_network ext_mtu udp_encap password iked l =
     (let mtu = sat_sub ext_mtu IPSEC_OVERHEAD;
          mtu = (if udp_encap then sat_sub mtu IPSEC_UDP_ENCAP_OVERHEAD else mtu)
      in \<lparr>in_lease = l, in_mtu = mtu, in_password = password, in_udp_encap = udp_encap, in_iked = iked\<rparr>)"

text \<open>An error of a call is logged and the handler goes on.\<close>

definition logged :: "('s, 'a) task \<Rightarrow> 's \<Rightarrow> 's option" where
  "logged m s = map_option fst (m s)"

definition ipsec_added :: "'s ipsec_os \<Rightarrow> ipsec_network \<Rightarrow> lease \<Rightarrow> 's \<Rightarrow> 's option" where
  "ipsec_added os net l s =
     Option.bind (logged (add_ipsec_policies os (in_lease net) l DEFAULT_REQ_ID) s) (\<lambda>s.
     Option.bind (logged (load_shared_key os (ip4_to_string (public_ip (attrs l))) (in_password net)) s) (\<lambda>s.
     logged (load_connection os (in_iked net) (in_lease net) l (show_nat (unat DEFAULT_REQ_ID)) (in_udp_encap net)) s))"

definition ipsec_removed :: "'s ipsec_os \<Rightarrow> ipsec_network \<Rightarrow> lease \<Rightarrow> 's \<Rightarrow> 's option" where
  "ipsec_removed os net l s =
     Option.bind (logged (unload_charon_connection os (in_lease net) l) s) (\<lambda>s.
     logged (delete_ipsec_policies os (in_lease net) l DEFAULT_REQ_ID) s)"

definition ipsec_event :: "'s ipsec_os \<Rightarrow> ipsec_network \<Rightarrow> event \<Rightarrow> 's \<Rightarrow> 's option" where
  "ipsec_event os net evt s =
     (let l = ev_lease evt in
      if backend_type (attrs l) \<noteq> IPSEC_BACKEND_TYPE then Some s
      else if subnet l = subnet (in_lease net) then Some s
      else case ev_type evt of Added \<Rightarrow> ipsec_added os net l s | Removed \<Rightarrow> ipsec_removed os net l s)"

fun ipsec_handle_subnet_events :: "'s ipsec_os \<Rightarrow> ipsec_network \<Rightarrow> event list \<Rightarrow> 's \<Rightarrow> 's option" where
  "ipsec_handle_subnet_events os net [] s = Some s"
| "ipsec_handle_subnet_events os net (evt # batch) s =
     Option.bind (ipsec_event os net evt s) (ipsec_handle_subnet_events os net batch)"

text \<open>\<open>run\<close> with the batches received until the channel closes.\<close>

fun ipsec_batches :: "'s ipsec_os \<Rightarrow> ipsec_network \<Rightarrow> event list list \<Rightarrow> 's \<Rightarrow> 's option" where
  "ipsec_batches os net [] s = Some s"
| "ipsec_batches os net (b # bs) s = Option.bind (ipsec_handle_subnet_events os net b s) (ipsec_batches os net bs)"

definition ipsec_run :: "'s ipsec_os \<Rightarrow> ipsec_network \<Rightarrow> event list list \<Rightarrow> 's \<Rightarrow> 's option" where
  "ipsec_run os net batches s =
     (case load_shared_key os (ip4_to_string (public_ip (attrs (in_lease net)))) (in_password net) s of
        None \<Rightarrow> None
      | Some (s1, Inl _) \<Rightarrow> Some s1
      | Some (s1, Inr _) \<Rightarrow> ipsec_batches os net batches s1)"

section \<open>Registration\<close>

definition DEFAULT_ESP_PROPOSAL :: string where
  "DEFAULT_ESP_PROPOSAL = ''aes128gcm16-sha256-prfsha256-ecp256''"

definition MIN_PASSWORD_LENGTH :: nat where "MIN_PASSWORD_LENGTH = 96"

record ipsec_cfg =
  xc_udp_encap :: bool
  xc_esp_proposal :: string
  xc_psk :: string

definition ipsec_cfg_of :: "type_error \<Rightarrow> json \<Rightarrow> string + ipsec_cfg" where
  "ipsec_cfg_of te v =
     rbind (struct_members te ''IPsecCfgJson'' [''UDPEncap'', ''ESPProposal'', ''PSK''] v) (\<lambda>f.
     rbind (de_field False (de_bool te) (f 0)) (\<lambda>encap.
     rbind (de_field DEFAULT_ESP_PROPOSAL (de_string te) (f 1)) (\<lambda>esp.
     rbind (de_field [] (de_string te) (f 2)) (\<lambda>psk.
     Inr \<lparr>xc_udp_encap = encap, xc_esp_proposal = esp, xc_psk = psk\<rparr>))))"

text \<open>\<open>Config::backend\<close> is the text of a JSON value. \<open>String::len\<close> counts bytes; the texts are ASCII.\<close>

definition parse_ipsec_config :: "(string \<Rightarrow> string + json) \<Rightarrow> type_error \<Rightarrow> string option \<Rightarrow> err + ipsec_cfg" where
  "parse_ipsec_config parse te backend =
     rbind
       (case backend of
          None \<Rightarrow> Inr \<lparr>xc_udp_encap = False, xc_esp_proposal = DEFAULT_ESP_PROPOSAL, xc_psk = []\<rparr>
        | Some t \<Rightarrow>
            if t \<noteq> [] \<and> t \<noteq> ''null''
            then map_err (\<lambda>e. [''error decoding IPSEC backend config: '' @ e]) (rbind (parse t) (ipsec_cfg_of te))
            else Inr \<lparr>xc_udp_encap = False, xc_esp_proposal = DEFAULT_ESP_PROPOSAL, xc_psk = []\<rparr>)
       (\<lambda>cfg. if length (xc_psk cfg) < MIN_PASSWORD_LENGTH then Inl [''config error, password is too short''] else Inr cfg)"

definition ipsec_attrs :: "external_interface \<Rightarrow> lease_attrs" where
  "ipsec_attrs ei =
     (let a = lease_attrs_default\<lparr>backend_type := IPSEC_BACKEND_TYPE\<rparr> in
      case ei_ext_addr ei of Some (V4 ip) \<Rightarrow> a\<lparr>public_ip := ip\<rparr> | _ \<Rightarrow> a)"

text \<open>Opening the netlink socket is taken to succeed; the tables of the kernel are read at the end.\<close>

definition ipsec_register_network ::
  "'s ipsec_os \<Rightarrow> ('s \<Rightarrow> netlink) \<Rightarrow> reg_env \<Rightarrow> type_error \<Rightarrow> external_interface \<Rightarrow> config \<Rightarrow> ('s, ipsec_network) task" where
  "ipsec_register_network os nl env te ei config s =
     (case parse_ipsec_config (re_parse env) te (cfg_backend config) of
        Inl e \<Rightarrow> Some (s, Inl e)
      | Inr cfg \<Rightarrow>
          (case acquire_or_fail env (ipsec_attrs ei) of
             Inl e \<Rightarrow> Some (s, Inl e)
           | Inr l \<Rightarrow>
               task_bind (task_err ''error creating CharonIKEDaemon struct: '' (new_charon os (xc_esp_proposal cfg))) (\<lambda>iked s1.
                 case get_link_mtu (nl s1) (ei_iface_index ei) of
                   Inl e \<Rightarrow> Some (s1, Inl e)
                 | Inr ext_mtu \<Rightarrow> Some (s1, Inr (ipsec_new_network ext_mtu (xc_udp_encap cfg) (xc_psk cfg) iked l))) s))"

section \<open>Policies and connections follow the leases\<close>

text \<open>What a policy is found by, the bytes of its selector and direction, and what it holds, the bytes of its template.\<close>

definition key_of :: "xfrm_policy_spec \<Rightarrow> u8 list" where
  "key_of spec = policy_id_msg spec"

definition tmpl_bytes :: "xfrm_policy_spec \<Rightarrow> u8 list" where
  "tmpl_bytes spec = user_tmpl_bytes (user_tmpl spec)"

definition v4_spec :: "xfrm_policy_spec \<Rightarrow> bool" where
  "v4_spec spec \<longleftrightarrow>
     (\<exists>a b c d. xs_src spec = V4 a \<and> xs_dst spec = V4 b \<and> xs_tunnel_src spec = V4 c \<and> xs_tunnel_dst spec = V4 d)"

lemma v4_policy_spec [simp]: "v4_spec (policy_spec a b dir r)"
  by (simp add: v4_spec_def policy_spec_def)

lemma task_err_Inr: "m s = Some (s1, Inr x) \<Longrightarrow> task_err w m s = Some (s1, Inr x)"
  by (simp add: task_err_def map_err_def)

lemma task_err_Inl: "m s = Some (s1, Inl e) \<Longrightarrow> task_err w m s = Some (s1, Inl (prefix_err w e))"
  by (simp add: task_err_def map_err_def)

text \<open>What is documented of the kernel (\<open>pol\<close> is its policy table) and of charon (\<open>conns\<close> are its connections): a query
  answers with the policy or \<open>ENOENT\<close>, an addition, update and deletion change the table and are acknowledged, the
  socket of charon can be opened, and loading and unloading a connection succeed and change the table.\<close>

locale ipsec_world =
  fixes os :: "'s ipsec_os"
    and pol :: "'s \<Rightarrow> u8 list \<rightharpoonup> u8 list"
    and conns :: "'s \<Rightarrow> u8 list \<rightharpoonup> vici_message"
  assumes socket: "\<exists>s1 port. gk_socket (io_xfrm os) s = (s1, Inr port) \<and> pol s1 = pol s \<and> conns s1 = conns s"
    and get_absent: "v4_spec spec \<Longrightarrow> pol s (key_of spec) = None \<Longrightarrow>
      \<exists>s1 ds. gk_send (io_xfrm os) (xfrm_message port 1 XFRM_MSG_GETPOLICY (policy_id_msg spec)) s = (s1, Inr ds) \<and>
        xfrm_replies ds [] 0 = Ret (Inl (RawOs ENOENT)) \<and> pol s1 = pol s \<and> conns s1 = conns s"
    and get_present: "v4_spec spec \<Longrightarrow> pol s (key_of spec) \<noteq> None \<Longrightarrow>
      \<exists>s1 ds b bs p. gk_send (io_xfrm os) (xfrm_message port 1 XFRM_MSG_GETPOLICY (policy_id_msg spec)) s = (s1, Inr ds) \<and>
        xfrm_replies ds [] 0 = Ret (Inr (b # bs)) \<and> parse_policy b = Ret (Inr p) \<and> pol s1 = pol s \<and> conns s1 = conns s"
    and add_absent: "v4_spec spec \<Longrightarrow> pol s (key_of spec) = None \<Longrightarrow>
      \<exists>s1 ds bs. gk_send (io_xfrm os) (xfrm_message port 1 XFRM_MSG_NEWPOLICY (policy_info_msg spec)) s = (s1, Inr ds) \<and>
        xfrm_replies ds [] 0 = Ret (Inr bs) \<and> pol s1 = (pol s)(key_of spec \<mapsto> tmpl_bytes spec) \<and> conns s1 = conns s"
    and update_present: "v4_spec spec \<Longrightarrow> pol s (key_of spec) \<noteq> None \<Longrightarrow>
      \<exists>s1 ds bs. gk_send (io_xfrm os) (xfrm_message port 1 XFRM_MSG_UPDPOLICY (policy_info_msg spec)) s = (s1, Inr ds) \<and>
        xfrm_replies ds [] 0 = Ret (Inr bs) \<and> pol s1 = (pol s)(key_of spec \<mapsto> tmpl_bytes spec) \<and> conns s1 = conns s"
    and del_present: "v4_spec spec \<Longrightarrow> pol s (key_of spec) \<noteq> None \<Longrightarrow>
      \<exists>s1 ds bs. gk_send (io_xfrm os) (xfrm_message port 1 XFRM_MSG_DELPOLICY (policy_id_msg spec)) s = (s1, Inr ds) \<and>
        xfrm_replies ds [] 0 = Ret (Inr bs) \<and> pol s1 = (pol s)(key_of spec := None) \<and> conns s1 = conns s"
    and del_absent: "v4_spec spec \<Longrightarrow> pol s (key_of spec) = None \<Longrightarrow>
      \<exists>s1 ds. gk_send (io_xfrm os) (xfrm_message port 1 XFRM_MSG_DELPOLICY (policy_id_msg spec)) s = (s1, Inr ds) \<and>
        xfrm_replies ds [] 0 = Ret (Inl (RawOs ENOENT)) \<and> pol s1 = pol s \<and> conns s1 = conns s"
    and connect: "\<exists>s1. io_connect os s = (s1, Inr ()) \<and> pol s1 = pol s \<and> conns s1 = conns s"
    and shared: "fits (load_shared_msg ty data owners) \<Longrightarrow> \<exists>s1 stream. io_vici os (fst (load_shared ty data owners [])) s = (s1, stream) \<and>
      snd (load_shared ty data owners stream) = Inr () \<and> pol s1 = pol s \<and> conns s1 = conns s"
    and load: "fits (load_conn_msg name ike) \<Longrightarrow> \<exists>s1 stream. io_vici os (fst (load_conn name ike [])) s = (s1, stream) \<and>
      snd (load_conn name ike stream) = Inr () \<and> pol s1 = pol s \<and> conns s1 = (conns s)(name \<mapsto> load_conn_msg name ike)"
    and unload: "fits (unload_conn_msg name) \<Longrightarrow> \<exists>s1 stream. io_vici os (fst (unload_conn name [])) s = (s1, stream) \<and>
      (snd (unload_conn name stream) = Inr () \<longleftrightarrow> conns s name \<noteq> None) \<and> pol s1 = pol s \<and> conns s1 = (conns s)(name := None)"
begin

lemma request_reply:
  assumes "\<And>port s1. pol s1 = pol s \<Longrightarrow> conns s1 = conns s \<Longrightarrow>
    \<exists>s2 ds. gk_send (io_xfrm os) (xfrm_message port 1 t payload) s1 = (s2, Inr ds) \<and> P s2 (xfrm_replies ds [] 0)"
  shows "\<exists>s2 r. xfrm_request (io_xfrm os) t payload s = (s2, r) \<and> P s2 r"
proof -
  obtain s1 port where 1: "gk_socket (io_xfrm os) s = (s1, Inr port)" "pol s1 = pol s" "conns s1 = conns s"
    using socket by blast
  from assms [OF 1(2,3), of port] 1(1) show ?thesis by (auto simp: xfrm_request_def)
qed

lemma get_step:
  "v4_spec spec \<Longrightarrow> \<exists>s1 r. blocking os (get_policy (io_xfrm os) spec) s = Some (s1, Inr r) \<and>
     (r = None \<longleftrightarrow> pol s (key_of spec) = None) \<and> pol s1 = pol s \<and> conns s1 = conns s"
proof (cases "pol s (key_of spec) = None")
  assume v4: "v4_spec spec"
  case True
  have "\<exists>s2 r. xfrm_request (io_xfrm os) XFRM_MSG_GETPOLICY (policy_id_msg spec) s = (s2, r) \<and>
      (r = Ret (Inl (RawOs ENOENT)) \<and> pol s2 = pol s \<and> conns s2 = conns s)"
    by (rule request_reply) (use get_absent [OF v4] True in metis)
  then show ?thesis using True by (auto simp: blocking_def get_policy_def)
next
  assume v4: "v4_spec spec"
  case False
  have "\<exists>s2 r. xfrm_request (io_xfrm os) XFRM_MSG_GETPOLICY (policy_id_msg spec) s = (s2, r) \<and>
      ((\<exists>b bs p. r = Ret (Inr (b # bs)) \<and> parse_policy b = Ret (Inr p)) \<and> pol s2 = pol s \<and> conns s2 = conns s)"
    by (rule request_reply) (use get_present [OF v4] False in metis)
  then show ?thesis using False by (auto simp: blocking_def get_policy_def)
qed

lemma change_step:
  assumes "\<And>port s1. pol s1 = pol s \<Longrightarrow> conns s1 = conns s \<Longrightarrow>
    \<exists>s2 ds bs. gk_send (io_xfrm os) (xfrm_message port 1 t payload) s1 = (s2, Inr ds) \<and>
      xfrm_replies ds [] 0 = Ret (Inr bs) \<and> pol s2 = p \<and> conns s2 = conns s"
  shows "\<exists>s1. blocking os (xfrm_req (io_xfrm os) t payload) s = Some (s1, Inr ()) \<and> pol s1 = p \<and> conns s1 = conns s"
proof -
  have "\<exists>s2 r. xfrm_request (io_xfrm os) t payload s = (s2, r) \<and>
      ((\<exists>bs. r = Ret (Inr bs)) \<and> pol s2 = p \<and> conns s2 = conns s)"
    by (rule request_reply) (use assms in metis)
  then show ?thesis by (auto simp: blocking_def xfrm_req_def)
qed

lemma add_step:
  "\<exists>s1. add_xfrm_policy os a b dir r s = Some (s1, Inr ()) \<and>
     pol s1 = (pol s)(key_of (policy_spec a b dir r) \<mapsto> tmpl_bytes (policy_spec a b dir r)) \<and> conns s1 = conns s"
proof -
  let ?spec = "policy_spec a b dir r"
  obtain s1 x where 1: "blocking os (get_policy (io_xfrm os) ?spec) s = Some (s1, Inr x)"
      "x = None \<longleftrightarrow> pol s (key_of ?spec) = None" "pol s1 = pol s" "conns s1 = conns s"
    using get_step [OF v4_policy_spec] by blast
  show ?thesis
  proof (cases x)
    case None
    have "\<exists>s2. blocking os (add_policy (io_xfrm os) ?spec) s1 = Some (s2, Inr ()) \<and>
        pol s2 = (pol s)(key_of ?spec \<mapsto> tmpl_bytes ?spec) \<and> conns s2 = conns s1"
      unfolding add_policy_def by (rule change_step) (use add_absent [OF v4_policy_spec] 1 None in metis)
    then show ?thesis using 1 None by (auto simp: add_xfrm_policy_def task_bind_def task_err_Inr Let_def)
  next
    case (Some y)
    have "\<exists>s2. blocking os (update_policy (io_xfrm os) ?spec) s1 = Some (s2, Inr ()) \<and>
        pol s2 = (pol s)(key_of ?spec \<mapsto> tmpl_bytes ?spec) \<and> conns s2 = conns s1"
      unfolding update_policy_def by (rule change_step) (use update_present [OF v4_policy_spec] 1 Some in \<open>metis option.distinct(1)\<close>)
    then show ?thesis using 1 Some by (auto simp: add_xfrm_policy_def task_bind_def task_err_Inr Let_def)
  qed
qed

lemma del_step:
  "\<exists>s1 x. del_xfrm_policy os a b dir r s = Some (s1, x) \<and>
     ((\<exists>u. x = Inr u) \<longleftrightarrow> pol s (key_of (policy_spec a b dir r)) \<noteq> None) \<and>
     pol s1 = (pol s)(key_of (policy_spec a b dir r) := None) \<and> conns s1 = conns s"
proof (cases "pol s (key_of (policy_spec a b dir r)) = None")
  case True
  have "\<exists>s2 x. xfrm_request (io_xfrm os) XFRM_MSG_DELPOLICY (policy_id_msg (policy_spec a b dir r)) s = (s2, x) \<and>
      (x = Ret (Inl (RawOs ENOENT)) \<and> pol s2 = pol s \<and> conns s2 = conns s)"
    by (rule request_reply) (use del_absent [OF v4_policy_spec] True in metis)
  then show ?thesis using True
    by (auto simp: del_xfrm_policy_def task_err_def map_err_def blocking_def del_policy_def xfrm_req_def fun_upd_idem)
next
  case False
  have "\<exists>s2. blocking os (del_policy (io_xfrm os) (policy_spec a b dir r)) s = Some (s2, Inr ()) \<and>
      pol s2 = (pol s)(key_of (policy_spec a b dir r) := None) \<and> conns s2 = conns s"
    unfolding del_policy_def by (rule change_step) (use del_present [OF v4_policy_spec] False in metis)
  then show ?thesis using False by (auto simp: del_xfrm_policy_def task_err_Inr)
qed

end

lemma ip4_octets_inj: "ip4_octets a = ip4_octets b \<longleftrightarrow> a = b"
proof
  assume "ip4_octets a = ip4_octets b"
  then have "ip4_from_bytes (ip4_octets a) = ip4_from_bytes (ip4_octets b)" by simp
  then show "a = b" by (simp add: ip4_from_bytes_def ip4_octets_def byte_simps)
qed simp

text \<open>The networks and the direction that the key of a policy stands for.\<close>

definition ends :: "lease \<Rightarrow> ip4 \<times> u8" where
  "ends l = (n4_ip (subnet l), ucast (n4_prefix_len (subnet l)))"

lemma key_of_policy_spec:
  "key_of (policy_spec a b d r) = key_of (policy_spec a' b' d' r') \<longleftrightarrow> ends a = ends a' \<and> ends b = ends b' \<and> d = d'"
  by (auto simp: key_of_def policy_id_msg_def policy_id_bytes_def selector_bytes_def fill_selector_def zero_policy_id_def
      zero_selector_def policy_spec_def xfrm_addr_def family_of_def ends_def ip4_octets_inj)

text \<open>The three policies of a peer.\<close>

definition peer_specs :: "lease \<Rightarrow> lease \<Rightarrow> xfrm_policy_spec list" where
  "peer_specs own l =
     [policy_spec own l DIR_OUT DEFAULT_REQ_ID, policy_spec l own DIR_IN DEFAULT_REQ_ID, policy_spec l own DIR_FWD DEFAULT_REQ_ID]"

definition set_policies :: "xfrm_policy_spec list \<Rightarrow> (u8 list \<rightharpoonup> u8 list) \<Rightarrow> (u8 list \<rightharpoonup> u8 list)" where
  "set_policies specs m = foldl (\<lambda>m sp. m(key_of sp \<mapsto> tmpl_bytes sp)) m specs"

definition unset_policies :: "xfrm_policy_spec list \<Rightarrow> (u8 list \<rightharpoonup> u8 list) \<Rightarrow> (u8 list \<rightharpoonup> u8 list)" where
  "unset_policies specs m = foldl (\<lambda>m sp. m(key_of sp := None)) m specs"

definition peer_name :: "ipsec_network \<Rightarrow> lease \<Rightarrow> u8 list" where
  "peer_name net l = bytes_of (format_connection_name (in_lease net) l)"

definition peer_conf :: "ipsec_network \<Rightarrow> lease \<Rightarrow> vici_message" where
  "peer_conf net l =
     load_conn_msg (peer_name net l) (connection_conf (in_iked net) (in_lease net) l ''11'' (in_udp_encap net))"

text \<open>What one event means for the policy table and the connections.\<close>

definition ipsec_spec ::
  "ipsec_network \<Rightarrow> (u8 list \<rightharpoonup> u8 list) \<times> (u8 list \<rightharpoonup> vici_message) \<Rightarrow> event \<Rightarrow>
   (u8 list \<rightharpoonup> u8 list) \<times> (u8 list \<rightharpoonup> vici_message)" where
  "ipsec_spec net st evt =
     (let (pol, conns) = st; l = ev_lease evt in
      if backend_type (attrs l) \<noteq> IPSEC_BACKEND_TYPE \<or> subnet l = subnet (in_lease net) then st
      else case ev_type evt of
          Added \<Rightarrow> (set_policies (peer_specs (in_lease net) l) pol, conns(peer_name net l \<mapsto> peer_conf net l))
        | Removed \<Rightarrow> (unset_policies (peer_specs (in_lease net) l) pol, conns(peer_name net l := None)))"

text \<open>Of the three policies of a peer all are there or none is.\<close>

definition paired :: "lease \<Rightarrow> (u8 list \<rightharpoonup> u8 list) \<Rightarrow> bool" where
  "paired own pol \<longleftrightarrow>
     (\<forall>l r. (pol (key_of (policy_spec own l DIR_OUT r)) = None \<longleftrightarrow> pol (key_of (policy_spec l own DIR_IN r)) = None) \<and>
       (pol (key_of (policy_spec own l DIR_OUT r)) = None \<longleftrightarrow> pol (key_of (policy_spec l own DIR_FWD r)) = None))"

lemmas dirs = DIR_IN_def DIR_OUT_def DIR_FWD_def

lemma paired_set: "paired own pol \<Longrightarrow> paired own (set_policies (peer_specs own l) pol)"
  by (auto simp: paired_def set_policies_def peer_specs_def key_of_policy_spec dirs)

lemma paired_unset: "paired own pol \<Longrightarrow> paired own (unset_policies (peer_specs own l) pol)"
  by (auto simp: paired_def unset_policies_def peer_specs_def key_of_policy_spec dirs)

lemma paired_spec: "paired (in_lease net) (fst st) \<Longrightarrow> paired (in_lease net) (fst (ipsec_spec net st evt))"
  by (auto simp: ipsec_spec_def Let_def paired_set paired_unset split: prod.splits event_type.splits)

lemma get_client_connected:
  "io_connect os s = (s1, Inr ()) \<Longrightarrow> acquire_client os wait s = Some (s1, Inr ())"
  by (simp add: acquire_client_def get_client.simps map_err_def)

text \<open>The messages fit the encoding: the names are short ASCII texts.\<close>

lemma ascii_lossless: "list_all (\<lambda>b. b < 0x80) bs \<Longrightarrow> from_utf8_lossy bs = bs"
  by (induction bs) (simp_all add: utf8_tail_def)

definition ascii :: "string \<Rightarrow> bool" where
  "ascii s \<longleftrightarrow> list_all (\<lambda>b. b < 0x80) (bytes_of s)"

lemma ascii_append [simp]: "ascii (a @ b) \<longleftrightarrow> ascii a \<and> ascii b"
  by (simp add: ascii_def bytes_of_def)

lemma ascii_Cons [simp]: "ascii (c # s) \<longleftrightarrow> (of_char c :: u8) < 0x80 \<and> ascii s"
  by (simp add: ascii_def bytes_of_def)

lemma ascii_Nil [simp]: "ascii []"
  by (simp add: ascii_def bytes_of_def)

lemma ascii_show_nat [simp]: "ascii (show_nat n)"
proof (induction n rule: show_nat.induct)
  case (1 n)
  have "(of_char (digit_char d) :: u8) < 0x80" if "d < 10" for d
  proof -
    have "(of_char (digit_char d) :: u8) = of_nat (of_char (digit_char d))" by (rule of_nat_of_char [symmetric])
    also have "\<dots> = of_nat (48 + d)" using that by (simp only: of_char_digit_char)
    finally show ?thesis using that by (simp add: word_less_nat_alt unat_of_nat del: of_nat_add)
  qed
  then show ?case using "1.IH" by (simp add: show_nat.simps [of n])
qed

lemma ascii_ip4 [simp]: "ascii (ip4_to_string ip)"
proof -
  obtain a b c d where "ip4_octets ip = [a, b, c, d]"
    using length_ip4_octets [of ip] by (auto simp: numeral_eq_Suc length_Suc_conv simp del: length_ip4_octets)
  then show ?thesis by (simp add: ip4_to_string_def show_u8_def)
qed

lemma ascii_n4 [simp]: "ascii (n4_to_string n)"
  by (simp add: n4_to_string_def show_u32_def)

lemma n4_to_string_length: "length (n4_to_string n) \<le> 26"
proof -
  have "length (show_u32 (n4_prefix_len n)) \<le> 10"
    using length_show_nat_le [of "unat (n4_prefix_len n)" 10] unat_lt2p [of "n4_prefix_len n"] by (simp add: show_u32_def)
  then show ?thesis using ip4_to_string_length [of "n4_ip n"] by (simp add: n4_to_string_def)
qed

lemma fits_name_ascii: "ascii s \<Longrightarrow> length s < 256 \<Longrightarrow> fits_name (bytes_of s)"
  by (simp add: fits_name_def ascii_lossless ascii_def) (simp add: bytes_of_def)

lemma fits_value_text [simp]: "fits_value (bytes_of s) \<longleftrightarrow> length s < 65536"
  by (simp add: fits_value_def bytes_of_def)

lemma peer_name_fits: "fits_name (peer_name net l)"
  using ip4_to_string_length [of "public_ip (attrs l)"] ip4_to_string_length [of "public_ip (attrs (in_lease net))"]
    n4_to_string_length [of "subnet l"] n4_to_string_length [of "subnet (in_lease net)"]
  unfolding peer_name_def format_connection_name_def by (intro fits_name_ascii) simp_all

lemma peer_conf_fits: "length (ch_esp_proposal (in_iked net)) < 65536 \<Longrightarrow> fits (peer_conf net l)"
  using ip4_to_string_length [of "public_ip (attrs l)"] ip4_to_string_length [of "public_ip (attrs (in_lease net))"]
    n4_to_string_length [of "subnet l"] n4_to_string_length [of "subnet (in_lease net)"] peer_name_fits [of net l]
  by (simp add: peer_conf_def load_conn_msg_def child_msg_def connection_conf_def format_child_sa_conf_name_def fits_name_ascii)

context ipsec_world
begin

lemma add_policies_step:
  "\<exists>s1. logged (add_ipsec_policies os own l DEFAULT_REQ_ID) s = Some s1 \<and>
     pol s1 = set_policies (peer_specs own l) (pol s) \<and> conns s1 = conns s"
proof -
  obtain s1 where 1: "add_xfrm_policy os own l DIR_OUT DEFAULT_REQ_ID s = Some (s1, Inr ())"
      "pol s1 = (pol s)(key_of (policy_spec own l DIR_OUT DEFAULT_REQ_ID) \<mapsto> tmpl_bytes (policy_spec own l DIR_OUT DEFAULT_REQ_ID))"
      "conns s1 = conns s"
    using add_step by blast
  obtain s2 where 2: "add_xfrm_policy os l own DIR_IN DEFAULT_REQ_ID s1 = Some (s2, Inr ())"
      "pol s2 = (pol s1)(key_of (policy_spec l own DIR_IN DEFAULT_REQ_ID) \<mapsto> tmpl_bytes (policy_spec l own DIR_IN DEFAULT_REQ_ID))"
      "conns s2 = conns s1"
    using add_step by blast
  obtain s3 where 3: "add_xfrm_policy os l own DIR_FWD DEFAULT_REQ_ID s2 = Some (s3, Inr ())"
      "pol s3 = (pol s2)(key_of (policy_spec l own DIR_FWD DEFAULT_REQ_ID) \<mapsto> tmpl_bytes (policy_spec l own DIR_FWD DEFAULT_REQ_ID))"
      "conns s3 = conns s2"
    using add_step by blast
  show ?thesis
    using 1 2 3 by (simp add: logged_def add_ipsec_policies_def task_bind_def task_err_Inr set_policies_def peer_specs_def)
qed

lemma delete_policies_step:
  assumes "paired own (pol s)"
  shows "\<exists>s1. logged (delete_ipsec_policies os own l DEFAULT_REQ_ID) s = Some s1 \<and>
     pol s1 = unset_policies (peer_specs own l) (pol s) \<and> conns s1 = conns s"
proof -
  let ?o = "policy_spec own l DIR_OUT DEFAULT_REQ_ID" and ?i = "policy_spec l own DIR_IN DEFAULT_REQ_ID"
    and ?f = "policy_spec l own DIR_FWD DEFAULT_REQ_ID"
  obtain s1 x where 1: "del_xfrm_policy os own l DIR_OUT DEFAULT_REQ_ID s = Some (s1, x)"
      "(\<exists>u. x = Inr u) \<longleftrightarrow> pol s (key_of ?o) \<noteq> None" "pol s1 = (pol s)(key_of ?o := None)" "conns s1 = conns s"
    using del_step by blast
  show ?thesis
  proof (cases "pol s (key_of ?o) = None")
    case True
    with assms have "pol s (key_of ?i) = None" "pol s (key_of ?f) = None" by (auto simp: paired_def)
    moreover obtain e where "x = Inl e" using True 1(2) by (cases x) auto
    ultimately show ?thesis using 1 True
      by (auto simp: logged_def delete_ipsec_policies_def task_bind_def task_err_Inl unset_policies_def peer_specs_def fun_upd_idem)
  next
    case False
    with assms have there: "pol s (key_of ?i) \<noteq> None" "pol s (key_of ?f) \<noteq> None" unfolding paired_def by metis+
    have differ: "key_of ?o \<noteq> key_of ?i" "key_of ?o \<noteq> key_of ?f" "key_of ?i \<noteq> key_of ?f"
      by (auto simp: key_of_policy_spec dirs)
    obtain u where x: "x = Inr u" using False 1(2) by auto
    obtain s2 y where 2: "del_xfrm_policy os l own DIR_IN DEFAULT_REQ_ID s1 = Some (s2, y)"
        "(\<exists>u. y = Inr u) \<longleftrightarrow> pol s1 (key_of ?i) \<noteq> None" "pol s2 = (pol s1)(key_of ?i := None)" "conns s2 = conns s1"
      using del_step by blast
    obtain v where y: "y = Inr v" using 2(2) 1(3) there differ by auto
    obtain s3 z where 3: "del_xfrm_policy os l own DIR_FWD DEFAULT_REQ_ID s2 = Some (s3, z)"
        "pol s3 = (pol s2)(key_of ?f := None)" "conns s3 = conns s2"
      using del_step by blast
    have "\<exists>w. task_err ''error deleting ipsec fwd policy: '' (del_xfrm_policy os l own DIR_FWD DEFAULT_REQ_ID) s2 = Some (s3, w)"
      using 3(1) by (simp add: task_err_def)
    then show ?thesis using 1 2 3 x y
      by (auto simp: logged_def delete_ipsec_policies_def task_bind_def task_err_Inr unset_policies_def peer_specs_def)
  qed
qed

lemma shared_key_step:
  assumes "length ip < 65536" and "length pw < 65536"
  shows "\<exists>s1. load_shared_key os ip pw s = Some (s1, Inr ()) \<and> pol s1 = pol s \<and> conns s1 = conns s"
proof -
  obtain s1 where 1: "io_connect os s = (s1, Inr ())" "pol s1 = pol s" "conns s1 = conns s" using connect by blast
  obtain s2 stream where 2: "io_vici os (fst (load_shared (bytes_of ''IKE'') (bytes_of pw) [bytes_of ip] [])) s1 = (s2, stream)"
      "snd (load_shared (bytes_of ''IKE'') (bytes_of pw) [bytes_of ip] stream) = Inr ()" "pol s2 = pol s1" "conns s2 = conns s1"
    using shared [of "bytes_of ''IKE''" "bytes_of pw" "[bytes_of ip]"] assms
    by (fastforce simp: load_shared_msg_def fits_name_ascii)
  have "load_shared_loop os ip pw s1 = Some (s2, Inr ())"
    using 2 by (simp add: load_shared_loop.simps with_client_def)
  then show ?thesis using 1 2 by (simp add: load_shared_key_def task_bind_def get_client_connected)
qed

lemma connection_step:
  assumes "length (ch_esp_proposal (in_iked net)) < 65536"
  shows "\<exists>s1. logged (load_connection os (in_iked net) (in_lease net) l ''11'' (in_udp_encap net)) s = Some s1 \<and>
     pol s1 = pol s \<and> conns s1 = (conns s)(peer_name net l \<mapsto> peer_conf net l)"
proof -
  obtain s1 where 1: "io_connect os s = (s1, Inr ())" "pol s1 = pol s" "conns s1 = conns s" using connect by blast
  let ?ike = "connection_conf (in_iked net) (in_lease net) l ''11'' (in_udp_encap net)"
  obtain s2 stream where 2: "io_vici os (fst (load_conn (peer_name net l) ?ike [])) s1 = (s2, stream)"
      "snd (load_conn (peer_name net l) ?ike stream) = Inr ()" "pol s2 = pol s1"
      "conns s2 = (conns s1)(peer_name net l \<mapsto> peer_conf net l)"
    using load [OF peer_conf_fits [OF assms, unfolded peer_conf_def]] unfolding peer_conf_def by blast
  then show ?thesis using 1
    by (simp add: logged_def load_connection_def task_bind_def get_client_connected with_client_def peer_name_def)
qed

lemma unload_step:
  "\<exists>s1. logged (unload_charon_connection os (in_lease net) l) s = Some s1 \<and>
     pol s1 = pol s \<and> conns s1 = (conns s)(peer_name net l := None)"
proof -
  obtain s1 where 1: "io_connect os s = (s1, Inr ())" "pol s1 = pol s" "conns s1 = conns s" using connect by blast
  have name: "fits (unload_conn_msg (peer_name net l))"
    using peer_name_fits [of net l]
    by (simp add: unload_conn_msg_def fits_name_ascii) (simp add: fits_value_def fits_name_def)
  obtain s2 stream where 2: "io_vici os (fst (unload_conn (peer_name net l) [])) s1 = (s2, stream)" "pol s2 = pol s1"
      "conns s2 = (conns s1)(peer_name net l := None)"
    using unload [OF name] by blast
  have "with_client os (unload_conn (peer_name net l)) s1 = (s2, snd (unload_conn (peer_name net l) stream))"
    using 2(1) by (simp add: with_client_def)
  then show ?thesis using 1 2(2,3)
    by (cases "snd (unload_conn (peer_name net l) stream)")
      (simp_all add: logged_def unload_charon_connection_def task_bind_def get_client_connected peer_name_def)
qed

lemma event_step:
  assumes "paired (in_lease net) (pol s)"
    and lens: "length (in_password net) < 65536" "length (ch_esp_proposal (in_iked net)) < 65536"
  shows "\<exists>s1. ipsec_event os net evt s = Some s1 \<and> (pol s1, conns s1) = ipsec_spec net (pol s, conns s) evt"
proof (cases "backend_type (attrs (ev_lease evt)) \<noteq> IPSEC_BACKEND_TYPE \<or> subnet (ev_lease evt) = subnet (in_lease net)")
  case True
  then have "ipsec_event os net evt s = Some s" by (auto simp: ipsec_event_def Let_def)
  with True show ?thesis by (auto simp: ipsec_spec_def)
next
  case False
  let ?l = "ev_lease evt"
  have eleven: "show_nat (unat DEFAULT_REQ_ID) = ''11''" by code_simp
  show ?thesis
  proof (cases "ev_type evt")
    case Added
    obtain s1 where 1: "logged (add_ipsec_policies os (in_lease net) ?l DEFAULT_REQ_ID) s = Some s1"
        "pol s1 = set_policies (peer_specs (in_lease net) ?l) (pol s)" "conns s1 = conns s"
      using add_policies_step by blast
    have ip: "length (ip4_to_string (public_ip (attrs ?l))) < 65536"
      using ip4_to_string_length [of "public_ip (attrs ?l)"] by simp
    obtain s2 where 2: "load_shared_key os (ip4_to_string (public_ip (attrs ?l))) (in_password net) s1 = Some (s2, Inr ())"
        "pol s2 = pol s1" "conns s2 = conns s1"
      using shared_key_step [OF ip lens(1)] by blast
    obtain s3 where "logged (load_connection os (in_iked net) (in_lease net) ?l ''11'' (in_udp_encap net)) s2 = Some s3"
        "pol s3 = pol s2" "conns s3 = (conns s2)(peer_name net ?l \<mapsto> peer_conf net ?l)"
      using connection_step [OF lens(2)] by blast
    then show ?thesis using 1 2 False Added
      by (simp add: ipsec_event_def ipsec_spec_def ipsec_added_def Let_def eleven logged_def [of "load_shared_key _ _ _"])
  next
    case Removed
    obtain s1 where 1: "logged (unload_charon_connection os (in_lease net) ?l) s = Some s1" "pol s1 = pol s"
        "conns s1 = (conns s)(peer_name net ?l := None)"
      using unload_step by blast
    obtain s2 where "logged (delete_ipsec_policies os (in_lease net) ?l DEFAULT_REQ_ID) s1 = Some s2"
        "pol s2 = unset_policies (peer_specs (in_lease net) ?l) (pol s1)" "conns s2 = conns s1"
      using delete_policies_step assms(1) 1(2) by metis
    then show ?thesis using 1 False Removed by (simp add: ipsec_event_def ipsec_spec_def ipsec_removed_def Let_def)
  qed
qed

lemma batch_follows:
  assumes "paired (in_lease net) (pol s)"
    and lens: "length (in_password net) < 65536" "length (ch_esp_proposal (in_iked net)) < 65536"
  shows "\<exists>s1. ipsec_handle_subnet_events os net es s = Some s1 \<and>
    (pol s1, conns s1) = foldl (ipsec_spec net) (pol s, conns s) es \<and> paired (in_lease net) (pol s1)"
  using assms(1)
proof (induction es arbitrary: s)
  case (Cons e es)
  obtain s1 where 1: "ipsec_event os net e s = Some s1" "(pol s1, conns s1) = ipsec_spec net (pol s, conns s) e"
    using event_step [OF Cons.prems lens] by blast
  have "paired (in_lease net) (pol s1)"
    using paired_spec [of net "(pol s, conns s)" e] Cons.prems 1(2) by (metis fst_conv)
  from Cons.IH [OF this] 1 show ?case by auto
qed simp

end

section \<open>A kernel and a charon\<close>

text \<open>A kernel that decodes the requests and keeps the templates under the selector and direction, and a charon that
  decodes its requests and keeps the connections. Their state is the pair of the two tables.\<close>

type_synonym tables = "(u8 list \<rightharpoonup> u8 list) \<times> (u8 list \<rightharpoonup> vici_message)"

definition nl_message :: "u16 \<Rightarrow> u8 list \<Rightarrow> u8 list" where
  "nl_message t body =
     to_ne_bytes 4 (of_nat (16 + length body) :: u32) @ to_ne_bytes 2 t @ replicate 10 0 @ body"

definition nl_errno :: "int \<Rightarrow> u8 list" where
  "nl_errno code = nl_message 2 (to_ne_bytes 4 (of_int (- code) :: u32))"

definition policy_reply :: "u8 list \<Rightarrow> u8 list \<Rightarrow> u8 list" where
  "policy_reply key tm =
     take 56 key @ replicate 104 0 @ [key ! 60] @ replicate 7 0 @ (if length tm = 64 then rtattr XFRMA_TMPL tm else [])"

definition kernel_policy :: "u8 list \<Rightarrow> tables \<Rightarrow> tables \<times> (io_error + u8 list) list" where
  "kernel_policy msg st =
     (let (p, c) = st; t = from_ne_bytes (field 4 2 msg) :: u16; b = drop 16 msg;
          key = take 56 b @ replicate 4 0 @ [b ! 160] @ replicate 3 0; tm = drop 172 b
      in if t = XFRM_MSG_GETPOLICY then
           (case p b of
              None \<Rightarrow> (st, [Inr (nl_errno ENOENT)])
            | Some tm \<Rightarrow> (st, [Inr (nl_message XFRM_MSG_NEWPOLICY (policy_reply b tm) @ nl_errno 0)]))
         else if t = XFRM_MSG_DELPOLICY then
           (if p b = None then (st, [Inr (nl_errno ENOENT)]) else ((p(b := None), c), [Inr (nl_errno 0)]))
         else if t = XFRM_MSG_NEWPOLICY \<and> p key \<noteq> None then (st, [Inr (nl_errno 17)])
         else ((p(key \<mapsto> tm), c), [Inr (nl_errno 0)]))"

definition vici_yes :: "u8 list" where
  "vici_yes = write_packet CMD_RESPONSE (encode_segments [VKey (bytes_of ''success'') (bytes_of ''yes'')])"

definition vici_no :: "u8 list" where
  "vici_no = write_packet CMD_RESPONSE (encode_segments [VKey (bytes_of ''success'') (bytes_of ''no'')])"

definition charon_answer :: "u8 list \<Rightarrow> tables \<Rightarrow> tables \<times> u8 list" where
  "charon_answer req st =
     (let (p, c) = st in
      case read_name (drop 5 req) of
        Inl _ \<Rightarrow> (st, vici_no)
      | Inr (name, msg) \<Rightarrow>
          (case vici_parse msg of
             Inr [VSection n body] \<Rightarrow>
               if name = bytes_of ''load-conn'' then ((p, c(n \<mapsto> [VSection n body])), vici_yes) else (st, vici_no)
           | Inr [VKey _ n] \<Rightarrow>
               if name = bytes_of ''unload-conn'' \<and> c n \<noteq> None then ((p, c(n := None)), vici_yes) else (st, vici_no)
           | _ \<Rightarrow> (st, if name = bytes_of ''load-shared'' then vici_yes else vici_no)))"

definition tables_os :: "tables ipsec_os" where
  "tables_os =
     \<lparr>io_xfrm = \<lparr>gk_socket = (\<lambda>s. (s, Inr 1)), gk_send = (\<lambda>m s. map_prod id Inr (kernel_policy m s))\<rparr>,
      io_connect = (\<lambda>s. (s, Inr ())), io_vici = charon_answer, io_wait = (\<lambda>s. (s, True)),
      io_text = (\<lambda>_. []), io_vici_text = (\<lambda>_. []), io_join = [], io_path = None, io_executable = (\<lambda>_. True),
      io_spawn = (\<lambda>_ s. (s, Inr ()))\<rparr>"

lemma parse_reply_message:
  assumes "4 dvd length body" and "length body < 65000" and "t \<noteq> 2" and "t \<noteq> 3"
  shows "parse_reply (nl_message t body @ rest) (r, d, n) = parse_reply rest (r @ [body], d, n)"
proof -
  have len: "unat (of_nat (16 + length body) :: u32) = 16 + length body" using assms(2) unfolding unat_of_nat by simp
  have al: "align4 (16 + length body) = 16 + length body" using assms(1) by (auto simp: align4_def dvd_def)
  have "length (nl_message t body) = 16 + length body" by (simp add: nl_message_def)
  moreover have "take 4 (nl_message t body @ rest) = to_ne_bytes 4 (of_nat (16 + length body) :: u32)"
    "field 4 2 (nl_message t body @ rest) = to_ne_bytes 2 t" "field 16 (length body) (nl_message t body @ rest) = body"
    by (simp_all add: nl_message_def field_def del: of_nat_add)
  ultimately show ?thesis
    using assms(3,4) len al by (subst parse_reply.simps) (simp add: byte_simps del: of_nat_add)
qed

lemma parse_reply_errno:
  "parse_reply (nl_errno ENOENT) ([], False, 0) = Inl (RawOs ENOENT)"
  "parse_reply (nl_errno 0) (r, False, n) = Inr (r, True, n)"
proof -
  show "parse_reply (nl_errno ENOENT) ([], False, 0) = Inl (RawOs ENOENT)" by code_simp
  have e: "nl_errno 0 = [20, 0, 0, 0, 2, 0] @ replicate 14 0" by code_simp
  have "(from_ne_bytes (take 4 (nl_errno 0)) :: u32) = 20" "(from_ne_bytes (field 4 2 (nl_errno 0)) :: u16) = 2"
    "sint (from_ne_bytes (field 16 4 (nl_errno 0)) :: u32) = 0" "length (nl_errno 0) = 20" "align4 20 = 20" by code_simp+
  then show "parse_reply (nl_errno 0) (r, False, n) = Inr (r, True, n)"
    by (subst parse_reply.simps) (simp add: parse_reply.simps [of "[]"])
qed

lemma xfrm_replies_errno:
  "xfrm_replies [Inr (nl_errno ENOENT)] [] 0 = Ret (Inl (RawOs ENOENT))"
  "xfrm_replies [Inr (nl_errno 0)] [] 0 = Ret (Inr [])"
proof -
  have "length (nl_errno e) = 20" for e by (simp add: nl_errno_def nl_message_def)
  then show "xfrm_replies [Inr (nl_errno ENOENT)] [] 0 = Ret (Inl (RawOs ENOENT))"
    "xfrm_replies [Inr (nl_errno 0)] [] 0 = Ret (Inr [])"
    by (simp_all add: parse_reply_errno)
qed

lemma v4_spec_ok: "v4_spec spec \<Longrightarrow> spec_ok spec"
  by (auto simp: v4_spec_def spec_ok_def ip_ok_def family_of_def)

lemma policy_msgs:
  assumes "v4_spec spec"
  shows "length (policy_id_msg spec) = 64"
    and "take 56 (policy_info_msg spec) @ replicate 4 0 @ [policy_info_msg spec ! 160] @ replicate 3 0 = policy_id_msg spec"
    and "drop 172 (policy_info_msg spec) = tmpl_bytes spec" and "length (tmpl_bytes spec) = 64"
proof -
  let ?s = "fill_selector zero_selector spec" and ?t = "user_tmpl spec"
  have sl: "length (selector_bytes ?s) = 56" and tl: "length (user_tmpl_bytes ?t) = 64"
    using v4_spec_ok [OF assms]
    by (simp_all add: spec_ok_def length_selector_bytes length_user_tmpl_bytes fill_selector_def user_tmpl_def length_xfrm_addr)
  have id: "policy_id_msg spec = selector_bytes ?s @ replicate 4 0 @ [xs_dir spec] @ replicate 3 0"
  proof -
    have "to_ne_bytes 4 (0 :: u32) = replicate 4 0" by code_simp
    then show ?thesis by (simp add: policy_id_msg_def policy_id_bytes_def zero_policy_id_def)
  qed
  have sel: "upi_sel (policy_info spec) = ?s" "upi_dir (policy_info spec) = xs_dir spec"
    by (simp_all add: policy_info_def zero_policy_info_def)
  have "rtattr XFRMA_TMPL (user_tmpl_bytes ?t) = [68, 0, 5, 0] @ user_tmpl_bytes ?t"
  proof -
    have "to_ne_bytes 2 (of_nat (4 + 64) :: u16) = [68, 0]" "to_ne_bytes 2 XFRMA_TMPL = [5, 0]" "align4 68 = 68" by code_simp+
    then show ?thesis using tl by (simp add: rtattr_def Let_def del: of_nat_add)
  qed
  then have info: "policy_info_msg spec = policy_info_bytes (policy_info spec) @ [68, 0, 5, 0] @ user_tmpl_bytes ?t"
    by (simp add: policy_info_msg_def)
  have il: "length (policy_info_bytes (policy_info spec)) = 168" using length_policy_info_bytes sel sl by simp
  have "take 56 (policy_info_msg spec) = selector_bytes ?s" "policy_info_msg spec ! 160 = xs_dir spec"
    unfolding info using il sl sel
    by (simp_all add: policy_info_bytes_def lifetime_cfg_bytes_def lifetime_cur_bytes_def nth_append)
  then show "take 56 (policy_info_msg spec) @ replicate 4 0 @ [policy_info_msg spec ! 160] @ replicate 3 0 = policy_id_msg spec"
    using id by simp
  show "length (policy_id_msg spec) = 64" unfolding id using sl by simp
  show "drop 172 (policy_info_msg spec) = tmpl_bytes spec" unfolding info tmpl_bytes_def using il by simp
  show "length (tmpl_bytes spec) = 64" unfolding tmpl_bytes_def by (rule tl)
qed

lemma xfrm_message_parts:
  "drop 16 (xfrm_message port seq t payload) = payload" "(from_ne_bytes (field 4 2 (xfrm_message port seq t payload)) :: u16) = t"
  by (simp_all add: xfrm_message_def field_def byte_simps)

lemma policy_reply_ok:
  assumes "length key = 64"
  shows "\<exists>p. parse_policy (policy_reply key tm) = Ret (Inr p)"
    and "4 dvd length (policy_reply key tm)" and "length (policy_reply key tm) \<le> 236"
proof -
  let ?h = "take 56 key @ replicate 104 0 @ [key ! 60] @ replicate 7 0"
  have h: "length ?h = 168" using assms by simp
  have r: "policy_reply key tm = ?h @ (if length tm = 64 then rtattr XFRMA_TMPL tm else [])" by (simp add: policy_reply_def)
  have "\<exists>as. parse_rtattrs (drop 168 (policy_reply key tm)) = Some as"
    unfolding r using h parse_rtattr_one [of tm XFRMA_TMPL] by (auto simp: parse_rtattrs.simps [of "[]"])
  moreover have "\<exists>i. read_policy_info (policy_reply key tm) = Some i"
    unfolding r read_policy_info_def using h by (simp add: get_range_def)
  ultimately show "\<exists>p. parse_policy (policy_reply key tm) = Ret (Inr p)" by (auto simp: parse_policy_def Let_def)
  have "length (rtattr XFRMA_TMPL tm) = 68" if "length tm = 64"
  proof -
    have "align4 68 = 68" by code_simp
    then show ?thesis using that by (simp add: rtattr_def Let_def)
  qed
  then show "4 dvd length (policy_reply key tm)" "length (policy_reply key tm) \<le> 236" unfolding r using h by auto
qed

lemma xfrm_replies_policy:
  assumes "length key = 64"
  shows "xfrm_replies [Inr (nl_message XFRM_MSG_NEWPOLICY (policy_reply key tm) @ nl_errno 0)] [] 0 = Ret (Inr [policy_reply key tm])"
proof -
  let ?m = "nl_message XFRM_MSG_NEWPOLICY (policy_reply key tm) @ nl_errno 0"
  note ok = policy_reply_ok [OF assms, of tm]
  have "length ?m \<le> 65536" using ok(3) by (simp add: nl_message_def nl_errno_def)
  moreover have "parse_reply ?m ([], False, 0) = Inr ([policy_reply key tm], True, 0)"
    using parse_reply_message [OF ok(2), of XFRM_MSG_NEWPOLICY "nl_errno 0" "[]" False 0] ok(3)
    by (simp add: XFRM_MSG_NEWPOLICY_def parse_reply_errno)
  ultimately show ?thesis by simp
qed

lemma vici_request_parts:
  assumes "length (bytes_of cmd) < 256" and "from_utf8_lossy (bytes_of cmd) = bytes_of cmd"
  shows "read_name (drop 5 (fst (vici_call cmd msg s))) = Inr (bytes_of cmd, encode_segments msg)"
proof -
  have "fits_name (bytes_of cmd)" using assms by (simp add: fits_name_def)
  from read_name_push [OF this, of "encode_segments msg"] show ?thesis
    by (simp add: vici_call_def vici_request_def write_packet_def cmd_request_payload_def push_name_def)
qed

lemma parse_fits: "fits msg \<Longrightarrow> vici_parse (encode_segments msg) = Inr msg"
  using parse_segments_encode [of msg "Suc (length (encode_segments msg))" "[]" "[]"]
  by (simp add: vici_parse_def del: parse_segments.simps)

lemma vici_answers:
  "snd (vici_call cmd msg vici_yes) = Inr ()" "\<exists>e. snd (vici_call cmd msg vici_no) = Inl e"
proof -
  have f: "fits [VKey (bytes_of ''success'') (bytes_of ''yes'')]" "fits [VKey (bytes_of ''success'') (bytes_of ''no'')]"
    by code_simp+
  have l: "length (encode_segments [VKey (bytes_of ''success'') (bytes_of ''yes'')]) < MAX_PACKET_LEN"
    "length (encode_segments [VKey (bytes_of ''success'') (bytes_of ''no'')]) < MAX_PACKET_LEN" by code_simp+
  have "check_success [VKey (bytes_of ''success'') (bytes_of ''yes'')] = Inr ()" by code_simp
  moreover have "check_success [VKey (bytes_of ''success'') (bytes_of ''no'')] = Inl (Refused (bytes_of ''unknown error''))"
    by code_simp
  ultimately show "snd (vici_call cmd msg vici_yes) = Inr ()" "\<exists>e. snd (vici_call cmd msg vici_no) = Inl e"
    using await_response_found [OF f(1) l(1), of "bytes_of cmd" "[]"] await_response_found [OF f(2) l(2), of "bytes_of cmd" "[]"]
    by (simp_all add: vici_call_def vici_request_def vici_yes_def vici_no_def)
qed

lemma command_names:
  "read_name (drop 5 (fst (vici_call ''load-conn'' msg s))) = Inr (bytes_of ''load-conn'', encode_segments msg)"
  "read_name (drop 5 (fst (vici_call ''unload-conn'' msg s))) = Inr (bytes_of ''unload-conn'', encode_segments msg)"
  "read_name (drop 5 (fst (vici_call ''load-shared'' msg s))) = Inr (bytes_of ''load-shared'', encode_segments msg)"
  by (rule vici_request_parts; code_simp)+

lemma kernel_policy_send:
  assumes "v4_spec spec"
  shows "kernel_policy (xfrm_message port 1 XFRM_MSG_GETPOLICY (policy_id_msg spec)) (p, c) =
      ((p, c), case p (key_of spec) of
         None \<Rightarrow> [Inr (nl_errno ENOENT)]
       | Some tm \<Rightarrow> [Inr (nl_message XFRM_MSG_NEWPOLICY (policy_reply (policy_id_msg spec) tm) @ nl_errno 0)])"
    and "kernel_policy (xfrm_message port 1 XFRM_MSG_DELPOLICY (policy_id_msg spec)) (p, c) =
      (if p (key_of spec) = None then ((p, c), [Inr (nl_errno ENOENT)]) else ((p(key_of spec := None), c), [Inr (nl_errno 0)]))"
    and "p (key_of spec) = None \<Longrightarrow> kernel_policy (xfrm_message port 1 XFRM_MSG_NEWPOLICY (policy_info_msg spec)) (p, c) =
      ((p(key_of spec \<mapsto> tmpl_bytes spec), c), [Inr (nl_errno 0)])"
    and "kernel_policy (xfrm_message port 1 XFRM_MSG_UPDPOLICY (policy_info_msg spec)) (p, c) =
      ((p(key_of spec \<mapsto> tmpl_bytes spec), c), [Inr (nl_errno 0)])"
  using policy_msgs [OF assms]
  by (simp_all add: kernel_policy_def Let_def xfrm_message_parts XFRM_MSG_GETPOLICY_def XFRM_MSG_DELPOLICY_def
      XFRM_MSG_NEWPOLICY_def XFRM_MSG_UPDPOLICY_def key_of_def split: option.splits)

interpretation tables: ipsec_world tables_os fst snd
proof
  fix s :: tables and spec port
  obtain p c where s: "s = (p, c)" by fastforce
  show "\<exists>s1 port. gk_socket (io_xfrm tables_os) s = (s1, Inr port) \<and> fst s1 = fst s \<and> snd s1 = snd s"
    and "\<exists>s1. io_connect tables_os s = (s1, Inr ()) \<and> fst s1 = fst s \<and> snd s1 = snd s"
    by (simp_all add: tables_os_def)
  assume v4: "v4_spec spec"
  note send = kernel_policy_send [OF v4]
  show "\<exists>s1 ds. gk_send (io_xfrm tables_os) (xfrm_message port 1 XFRM_MSG_GETPOLICY (policy_id_msg spec)) s = (s1, Inr ds) \<and>
        xfrm_replies ds [] 0 = Ret (Inl (RawOs ENOENT)) \<and> fst s1 = fst s \<and> snd s1 = snd s"
    and "\<exists>s1 ds. gk_send (io_xfrm tables_os) (xfrm_message port 1 XFRM_MSG_DELPOLICY (policy_id_msg spec)) s = (s1, Inr ds) \<and>
        xfrm_replies ds [] 0 = Ret (Inl (RawOs ENOENT)) \<and> fst s1 = fst s \<and> snd s1 = snd s"
    and "\<exists>s1 ds bs. gk_send (io_xfrm tables_os) (xfrm_message port 1 XFRM_MSG_NEWPOLICY (policy_info_msg spec)) s = (s1, Inr ds) \<and>
        xfrm_replies ds [] 0 = Ret (Inr bs) \<and> fst s1 = (fst s)(key_of spec \<mapsto> tmpl_bytes spec) \<and> snd s1 = snd s"
    if "fst s (key_of spec) = None"
    using that by (simp_all add: s tables_os_def send xfrm_replies_errno del: xfrm_replies.simps)
  show "\<exists>s1 ds b bs p. gk_send (io_xfrm tables_os) (xfrm_message port 1 XFRM_MSG_GETPOLICY (policy_id_msg spec)) s = (s1, Inr ds) \<and>
        xfrm_replies ds [] 0 = Ret (Inr (b # bs)) \<and> parse_policy b = Ret (Inr p) \<and> fst s1 = fst s \<and> snd s1 = snd s"
    if "fst s (key_of spec) \<noteq> None"
    using that policy_reply_ok(1) [OF policy_msgs(1) [OF v4]]
    by (auto simp: s tables_os_def send xfrm_replies_policy [OF policy_msgs(1) [OF v4]] simp del: xfrm_replies.simps)
  show "\<exists>s1 ds bs. gk_send (io_xfrm tables_os) (xfrm_message port 1 XFRM_MSG_UPDPOLICY (policy_info_msg spec)) s = (s1, Inr ds) \<and>
        xfrm_replies ds [] 0 = Ret (Inr bs) \<and> fst s1 = (fst s)(key_of spec \<mapsto> tmpl_bytes spec) \<and> snd s1 = snd s"
    and "\<exists>s1 ds bs. gk_send (io_xfrm tables_os) (xfrm_message port 1 XFRM_MSG_DELPOLICY (policy_id_msg spec)) s = (s1, Inr ds) \<and>
        xfrm_replies ds [] 0 = Ret (Inr bs) \<and> fst s1 = (fst s)(key_of spec := None) \<and> snd s1 = snd s"
    if "fst s (key_of spec) \<noteq> None"
    using that by (simp_all add: s tables_os_def send xfrm_replies_errno del: xfrm_replies.simps)
next
  fix s :: tables and name ike
  assume fit: "fits (load_conn_msg name ike)"
  have "charon_answer (fst (load_conn name ike [])) s = ((fst s, (snd s)(name \<mapsto> load_conn_msg name ike)), vici_yes)"
    using parse_fits [OF fit] by (simp add: charon_answer_def load_conn_def command_names split: prod.splits) (simp add: load_conn_msg_def)
  then show "\<exists>s1 stream. io_vici tables_os (fst (load_conn name ike [])) s = (s1, stream) \<and>
      snd (load_conn name ike stream) = Inr () \<and> fst s1 = fst s \<and> snd s1 = (snd s)(name \<mapsto> load_conn_msg name ike)"
    by (simp add: tables_os_def load_conn_def vici_answers)
next
  fix s :: tables and name
  assume fit: "fits (unload_conn_msg name)"
  have "charon_answer (fst (unload_conn name [])) s =
      (if snd s name \<noteq> None then ((fst s, (snd s)(name := None)), vici_yes) else (s, vici_no))"
    using parse_fits [OF fit] by (simp add: charon_answer_def unload_conn_def command_names split: prod.splits) (simp add: unload_conn_msg_def)
  then show "\<exists>s1 stream. io_vici tables_os (fst (unload_conn name [])) s = (s1, stream) \<and>
      (snd (unload_conn name stream) = Inr ()) = (snd s name \<noteq> None) \<and> fst s1 = fst s \<and> snd s1 = (snd s)(name := None)"
    using vici_answers(2) [of "''unload-conn''" "unload_conn_msg name"]
    by (auto simp: tables_os_def unload_conn_def vici_answers(1) fun_upd_idem)
next
  fix s :: tables and ty data owners
  assume fit: "fits (load_shared_msg ty data owners)"
  have "charon_answer (fst (load_shared ty data owners [])) s = (s, vici_yes)"
    using parse_fits [OF fit] by (simp add: charon_answer_def load_shared_def command_names split: prod.splits) (simp add: load_shared_msg_def)
  then show "\<exists>s1 stream. io_vici tables_os (fst (load_shared ty data owners [])) s = (s1, stream) \<and>
      snd (load_shared ty data owners stream) = Inr () \<and> fst s1 = fst s \<and> snd s1 = snd s"
    by (simp add: tables_os_def load_shared_def vici_answers)
qed


definition ipsec_lease :: "u32 \<Rightarrow> u32 \<Rightarrow> lease" where
  "ipsec_lease net ip =
     \<lparr>enable_ipv4 = True, enable_ipv6 = False, subnet = \<lparr>n4_ip = IP4 net, n4_prefix_len = 24\<rparr>, ipv6_subnet = \<lparr>n6_ip = IP6 (replicate 16 0), n6_prefix_len = 0\<rparr>,
      attrs = lease_attrs_default\<lparr>backend_type := ''ipsec'', public_ip := IP4 ip\<rparr>, expiration = 0, asof = 0\<rparr>"

definition sample_ipsec :: ipsec_network where
  "sample_ipsec = ipsec_new_network 1500 False (replicate 96 (CHR ''k'')) \<lparr>ch_esp_proposal = DEFAULT_ESP_PROPOSAL\<rparr>
     (ipsec_lease 0x0af40100 0xc0a80001)"


text \<open>The two ends of a tunnel agree: when node A handles the lease of B and B that of A, the policy by which A
  encrypts is, selector and template byte for byte, the one by which B accepts and forwards, whatever else was in their
  tables; and the MTU of the network leaves room for the headers.\<close>

theorem ipsec_ends_agree:
  "(let pa = set_policies (peer_specs a b) pol_a; pb = set_policies (peer_specs b a) pol_b;
        flow = (\<lambda>dir. key_of (policy_spec a b dir DEFAULT_REQ_ID)) in
      pa (flow DIR_OUT) = Some (tmpl_bytes (policy_spec a b DIR_OUT DEFAULT_REQ_ID)) \<and>
      pb (flow DIR_IN) = pa (flow DIR_OUT) \<and> pb (flow DIR_FWD) = pa (flow DIR_OUT)) \<and>
   unat (in_mtu (ipsec_new_network ext encap pw iked l)) = unat ext - (if encap then 85 else 77)"
proof -
  have t: "tmpl_bytes (policy_spec a b dir r) = tmpl_bytes (policy_spec a b DIR_OUT r)" for dir r
    by (simp add: tmpl_bytes_def user_tmpl_def policy_spec_def)
  have sat: "unat (sat_sub x y) = unat x - unat y" for x y
    by (simp add: sat_sub_def word_less_nat_alt unat_sub word_le_nat_alt)
  show ?thesis
    by (auto simp: set_policies_def peer_specs_def key_of_policy_spec dirs t [of DIR_IN, unfolded dirs] t [of DIR_FWD, unfolded dirs] Let_def
        ipsec_new_network_def sat IPSEC_OVERHEAD_def IPSEC_UDP_ENCAP_OVERHEAD_def)
qed

end
