(* ===== verification/Extension.thy ===== *)
theory Extension
  imports Backends World SubnetEnv
begin

text \<open>
  The extension backend, \<open>backend/extension/mod.rs\<close> and \<open>network.rs\<close>: commands of the user run at startup and for
  every lease event. The environment of the process, the start of a child with its result, and the two directions of
  JSON are parameters. Texts are valid UTF-8, on which \<open>from_utf8_lossy\<close> is the identity.
\<close>

section \<open>Commands\<close>

datatype spawn_error = NotFound | SpawnErr string | WriteErr string | WaitErr string

record child_output =
  co_stdout :: string
  co_stderr :: string
  co_code :: "int option"

text \<open>\<open>eo_spawn\<close>: environment, program, arguments and standard input of a child. A broken pipe on its standard input is
  no error of it.\<close>

record 's ext_os =
  eo_vars :: "string \<rightharpoonup> string"
  eo_spawn :: "(string \<rightharpoonup> string) \<Rightarrow> string \<Rightarrow> string list \<Rightarrow> string \<Rightarrow> ('s, spawn_error, child_output) step"
  eo_json :: "string \<Rightarrow> string"

record ext_config =
  xe_pre_startup :: "string option"
  xe_post_startup :: "string option"
  xe_subnet_add :: "string option"
  xe_subnet_remove :: "string option"

definition EXT_BACKEND_TYPE :: string where "EXT_BACKEND_TYPE = ''extension''"

definition ext_config_default :: ext_config where
  "ext_config_default = \<lparr>xe_pre_startup = None, xe_post_startup = None, xe_subnet_add = None, xe_subnet_remove = None\<rparr>"

definition ext_config_of :: "type_error \<Rightarrow> json \<Rightarrow> string + ext_config" where
  "ext_config_of te v =
     rbind (struct_members te ''ExtensionConfig''
       [''PreStartupCommand'', ''PostStartupCommand'', ''SubnetAddCommand'', ''SubnetRemoveCommand''] v) (\<lambda>f.
     rbind (de_field None (de_option de_string te) (f 0)) (\<lambda>pre.
     rbind (de_field None (de_option de_string te) (f 1)) (\<lambda>post.
     rbind (de_field None (de_option de_string te) (f 2)) (\<lambda>add.
     rbind (de_field None (de_option de_string te) (f 3)) (\<lambda>remove.
     Inr \<lparr>xe_pre_startup = pre, xe_post_startup = post, xe_subnet_add = add, xe_subnet_remove = remove\<rparr>)))))"

text \<open>\<open>str::split_whitespace\<close>.\<close>

function split_whitespace :: "string \<Rightarrow> string list" where
  "split_whitespace s =
     (let s = dropWhile is_whitespace s in
      if s = [] then []
      else takeWhile (\<lambda>c. \<not> is_whitespace c) s # split_whitespace (dropWhile (\<lambda>c. \<not> is_whitespace c) s))"
  by pat_completeness auto
termination
proof (relation "measure length")
  fix s x :: string
  assume x: "x = dropWhile is_whitespace s" "x \<noteq> []"
  then have "\<not> is_whitespace (hd x)" by (metis hd_dropWhile)
  with x(2) have "length (dropWhile (\<lambda>c. \<not> is_whitespace c) x) < length x"
    by (cases x) (auto simp: less_Suc_eq_le length_dropWhile_le)
  also have "\<dots> \<le> length s" using x(1) length_dropWhile_le by blast
  finally show "(dropWhile (\<lambda>c. \<not> is_whitespace c) x, s) \<in> measure length" by simp
qed simp

declare split_whitespace.simps [simp del]

definition split_command :: "string \<Rightarrow> string list option" where
  "split_command cmd = (case split_whitespace cmd of [] \<Rightarrow> None | f # fs \<Rightarrow> Some (f # fs))"

definition build_env_map :: "(string \<rightharpoonup> string) \<Rightarrow> string list \<Rightarrow> (string \<rightharpoonup> string)" where
  "build_env_map vars env =
     foldl (\<lambda>m e. let (k, v) = (case split_once (CHR ''='') e of Some kv \<Rightarrow> kv | None \<Rightarrow> (e, [])) in m(k \<mapsto> v)) vars env"

section \<open>Expansion\<close>

definition is_shell_special_var :: "char \<Rightarrow> bool" where
  "is_shell_special_var c \<longleftrightarrow>
     c \<in> set [CHR ''*'', CHR ''#'', CHR ''$'', CHR ''@'', CHR ''!'', CHR ''?'', CHR ''-''] \<or>
     48 \<le> (of_char c :: nat) \<and> (of_char c :: nat) \<le> 57"

definition is_alpha_num :: "char \<Rightarrow> bool" where
  "is_alpha_num c \<longleftrightarrow>
     (let n = (of_char c :: nat) in
      c = CHR ''_'' \<or> 48 \<le> n \<and> n \<le> 57 \<or> 65 \<le> n \<and> n \<le> 90 \<or> 97 \<le> n \<and> n \<le> 122)"

text \<open>The name and the number of bytes consumed; only called on texts that are not empty.\<close>

definition get_shell_name :: "string \<Rightarrow> string \<times> nat" where
  "get_shell_name s =
     (case s of
        [] \<Rightarrow> ([], 0)
      | c # cs \<Rightarrow>
          if c = CHR ''{'' then
            (if length s > 2 \<and> is_shell_special_var (s ! 1) \<and> s ! 2 = CHR ''}'' then ([s ! 1], 3)
             else
               let name = takeWhile (\<lambda>c. c \<noteq> CHR ''}'') cs in
               if length name < length cs then (if name = [] then ([], 2) else (name, length name + 2)) else ([], 1))
          else if is_shell_special_var c then ([c], 1)
          else if is_alpha_num c then (let name = takeWhile is_alpha_num s in (name, length name))
          else ([], 0))"

lemma get_shell_name_width: "s \<noteq> [] \<Longrightarrow> snd (get_shell_name s) \<le> length s"
proof -
  assume "s \<noteq> []"
  then obtain c cs where s: "s = c # cs" by (cases s) auto
  have "length (takeWhile is_alpha_num (c # cs)) \<le> Suc (length cs)"
    using length_takeWhile_le [of is_alpha_num "c # cs"] by simp
  then show ?thesis by (auto simp: s get_shell_name_def Let_def Suc_le_eq)
qed

text \<open>The loop with its two indices.\<close>

function expand_loop :: "string \<Rightarrow> (string \<rightharpoonup> string) \<Rightarrow> nat \<Rightarrow> nat \<Rightarrow> string \<Rightarrow> string" where
  "expand_loop b m i j out =
     (if j < length b then
        if b ! j = CHR ''$'' \<and> j + 1 < length b then
          let out = out @ take (j - i) (drop i b);
              (name, w) = get_shell_name (drop (j + 1) b);
              out = (if name \<noteq> [] then out @ (case m name of Some v \<Rightarrow> v | None \<Rightarrow> [])
                     else if w = 0 then out @ [b ! j] else out)
          in expand_loop b m (j + w + 1) (j + w + 1) out
        else expand_loop b m i (j + 1) out
      else out @ drop i b)"
  by pat_completeness auto
termination
  by (relation "measure (\<lambda>(b, m, i, j, out). length b - j)") auto

declare expand_loop.simps [simp del]

definition expand :: "string \<Rightarrow> (string \<rightharpoonup> string) \<Rightarrow> string" where
  "expand s m = expand_loop s m 0 0 []"

definition expand_vars :: "(string \<rightharpoonup> string) \<Rightarrow> string list \<Rightarrow> string list" where
  "expand_vars m args = map (\<lambda>a. expand a m) args"

section \<open>Running a command\<close>

definition spawn_err :: "string \<Rightarrow> spawn_error \<Rightarrow> err" where
  "spawn_err name e =
     (case e of
        NotFound \<Rightarrow> [''exec: '' @ [CHR 0x22] @ name @ [CHR 0x22] @ '': executable file not found in $PATH'']
      | SpawnErr t \<Rightarrow> [t]
      | WriteErr t \<Rightarrow> [t]
      | WaitErr t \<Rightarrow> [t])"

definition run_cmd :: "'s ext_os \<Rightarrow> string list \<Rightarrow> string \<Rightarrow> string \<Rightarrow> string list \<Rightarrow> ('s, err, string) step" where
  "run_cmd os env stdin program args s =
     (let env_map = build_env_map (eo_vars os) env; expanded = expand_vars env_map (program # args);
          name = hd expanded
      in if name = [] then (s, Inr [])
         else case eo_spawn os env_map name (tl expanded) (stdin @ [CHR 0x0a]) s of
             (s1, Inl e) \<Rightarrow> (s1, Inl (spawn_err name e))
           | (s1, Inr out) \<Rightarrow>
               (let combined = trim (co_stdout out @ co_stderr out) in
                (s1, case co_code out of
                   None \<Rightarrow> Inl [''process terminated by signal Output: '' @ combined]
                 | Some code \<Rightarrow>
                     if code = 0 then Inr combined
                     else Inl [''exit status '' @ show_int code @ '' Output: '' @ combined])))"

section \<open>Registration\<close>

record ext_network =
  en_lease :: lease
  en_mtu :: u32
  en_cfg :: ext_config

definition read_ext_config :: "reg_env \<Rightarrow> type_error \<Rightarrow> config \<Rightarrow> err + ext_config" where
  "read_ext_config env te config =
     (case cfg_backend config of
        None \<Rightarrow> Inr ext_config_default
      | Some raw \<Rightarrow>
          if trim raw = ''null'' then Inr ext_config_default
          else map_err (\<lambda>e. [''error decoding backend config: '' @ e]) (rbind (re_parse env raw) (ext_config_of te)))"

definition cmd_error :: "string \<Rightarrow> err \<Rightarrow> err" where
  "cmd_error cmd e = prefix_err (''failed to run command: '' @ cmd @ '' Err: '') e"

definition pre_startup :: "'s ext_os \<Rightarrow> ext_config \<Rightarrow> ('s, err, string option) step" where
  "pre_startup os cfg =
     (let cmd = (case xe_pre_startup cfg of Some c \<Rightarrow> c | None \<Rightarrow> []) in
      case split_command cmd of
        None \<Rightarrow> give None
      | Some parts \<Rightarrow>
          then_do (on_err (cmd_error cmd) (run_cmd os [] [] (hd parts) (tl parts))) (\<lambda>out. give (Some (eo_json os out))))"

definition ext_attrs :: "external_interface \<Rightarrow> string option \<Rightarrow> lease_attrs" where
  "ext_attrs ei data =
     (let a = lease_attrs_default\<lparr>backend_type := EXT_BACKEND_TYPE, backend_data := data\<rparr>;
          a = (case ei_iface_addr ei of Some (V4 ip) \<Rightarrow> a\<lparr>public_ip := ip\<rparr> | _ \<Rightarrow> a)
      in case ei_iface_v6_addr ei of Some (V6 ip) \<Rightarrow> a\<lparr>public_ipv6 := Some ip\<rparr> | _ \<Rightarrow> a)"

definition post_startup :: "'s ext_os \<Rightarrow> ext_config \<Rightarrow> config \<Rightarrow> lease_attrs \<Rightarrow> lease \<Rightarrow> ('s, err, unit) step" where
  "post_startup os cfg config a l =
     (case Option.bind (xe_post_startup cfg) split_command of
        None \<Rightarrow> give ()
      | Some parts \<Rightarrow>
          (let env =
             [''NETWORK='' @ n4_to_string (cfg_network config),
              ''SUBNET='' @ n4_to_string (subnet l),
              ''IPV6SUBNET='' @ n6_to_string (ipv6_subnet l),
              ''PUBLIC_IP='' @ ip4_to_string (public_ip a),
              ''PUBLIC_IPV6='' @ (case public_ipv6 a of Some ip \<Rightarrow> ip6_to_string ip | None \<Rightarrow> ''<nil>'')]
           in then_do (on_err (cmd_error (join_with '' '' parts)) (run_cmd os env [] (hd parts) (tl parts))) (\<lambda>_. give ())))"

text \<open>Opening the netlink socket is taken to succeed.\<close>

definition ext_register_network ::
  "'s ext_os \<Rightarrow> ('s \<Rightarrow> netlink) \<Rightarrow> reg_env \<Rightarrow> type_error \<Rightarrow> external_interface \<Rightarrow> config \<Rightarrow> ('s, err, ext_network) step" where
  "ext_register_network os nl env te ei config =
     then_do (lift_result (read_ext_config env te config)) (\<lambda>cfg.
     then_do (\<lambda>s. (s, get_link_mtu (nl s) (ei_iface_index ei))) (\<lambda>ext_mtu.
     then_do (pre_startup os cfg) (\<lambda>data.
     let a = ext_attrs ei data in
     then_do (lift_result (acquire_or_fail env a)) (\<lambda>l.
     then_do (post_startup os cfg config a l) (\<lambda>_.
     give \<lparr>en_lease = l, en_mtu = ext_mtu, en_cfg = cfg\<rparr>)))))"

section \<open>Events\<close>

definition command_env :: "lease \<Rightarrow> string list" where
  "command_env l = [''SUBNET='' @ n4_to_string (subnet l), ''PUBLIC_IP='' @ ip4_to_string (public_ip (attrs l))]"

definition run_event_command ::
  "'s ext_os \<Rightarrow> (string \<Rightarrow> string + json) \<Rightarrow> type_error \<Rightarrow> string \<Rightarrow> lease \<Rightarrow> 's \<Rightarrow> 's" where
  "run_event_command os parse te cmd l s =
     (case (case backend_data (attrs l) of Some raw \<Rightarrow> rbind (parse raw) (de_string te) | None \<Rightarrow> Inr []) of
        Inl _ \<Rightarrow> s
      | Inr data \<Rightarrow>
          (case split_command cmd of
             None \<Rightarrow> s
           | Some parts \<Rightarrow> fst (run_cmd os (command_env l) data (hd parts) (tl parts) s)))"

definition ext_handle_event ::
  "'s ext_os \<Rightarrow> (string \<Rightarrow> string + json) \<Rightarrow> type_error \<Rightarrow> ext_config \<Rightarrow> event \<Rightarrow> 's \<Rightarrow> 's" where
  "ext_handle_event os parse te cfg evt s =
     (let l = ev_lease evt in
      if backend_type (attrs l) \<noteq> EXT_BACKEND_TYPE then s
      else
        let c = (case ev_type evt of Added \<Rightarrow> xe_subnet_add cfg | Removed \<Rightarrow> xe_subnet_remove cfg);
            cmd = (case c of Some c \<Rightarrow> c | None \<Rightarrow> [])
        in if cmd \<noteq> [] then run_event_command os parse te cmd l s else s)"

definition ext_handle_subnet_events ::
  "'s ext_os \<Rightarrow> (string \<Rightarrow> string + json) \<Rightarrow> type_error \<Rightarrow> ext_config \<Rightarrow> event list \<Rightarrow> 's \<Rightarrow> 's" where
  "ext_handle_subnet_events os parse te cfg batch s = foldl (\<lambda>s e. ext_handle_event os parse te cfg e s) s batch"

text \<open>\<open>run\<close> with the batches received until the channel closes.\<close>

definition ext_run ::
  "'s ext_os \<Rightarrow> (string \<Rightarrow> string + json) \<Rightarrow> type_error \<Rightarrow> ext_network \<Rightarrow> event list list \<Rightarrow> 's \<Rightarrow> 's" where
  "ext_run os parse te net batches s =
     foldl (\<lambda>s b. ext_handle_subnet_events os parse te (en_cfg net) b s) s batches"

section \<open>Expansion read off the text\<close>

text \<open>What the documentation of \<open>expand\<close> says, as a recursion over the text: a dollar with a name after it is the value
  of the name, one with bad syntax is dropped with what was consumed, another one stays; values are not looked at again.\<close>

function expansion :: "(string \<rightharpoonup> string) \<Rightarrow> string \<Rightarrow> string" where
  "expansion m [] = []"
| "expansion m (c # cs) =
     (if c = CHR ''$'' \<and> cs \<noteq> [] then
        let (name, w) = get_shell_name cs in
        (if name \<noteq> [] then (case m name of Some v \<Rightarrow> v | None \<Rightarrow> []) else if w = 0 then [c] else []) @
        expansion m (drop w cs)
      else c # expansion m cs)"
  by pat_completeness auto
termination by (relation "measure (length \<circ> snd)") auto

lemma expand_loop_expansion:
  "i \<le> j \<Longrightarrow> j \<le> length b \<Longrightarrow> expand_loop b m i j out = out @ take (j - i) (drop i b) @ expansion m (drop j b)"
proof (induction b m i j out rule: expand_loop.induct)
  case (1 b m i j out)
  show ?case
  proof (cases "j < length b")
    case False
    then show ?thesis using "1.prems" by (subst expand_loop.simps) simp
  next
    case True
    then have drop: "drop j b = b ! j # drop (j + 1) b" by (simp add: Cons_nth_drop_Suc)
    show ?thesis
    proof (cases "b ! j = CHR ''$'' \<and> j + 1 < length b")
      case False
      have "take (Suc j - i) (drop i b) = take (j - i) (drop i b) @ [b ! j]"
        using "1.prems" True by (simp add: Suc_diff_le take_Suc_conv_app_nth)
      moreover have "expand_loop b m i (j + 1) out = out @ take (j + 1 - i) (drop i b) @ expansion m (drop (j + 1) b)"
        using "1.prems" True False by (intro "1.IH"(2)) auto
      ultimately show ?thesis using True False "1.prems" drop by (subst expand_loop.simps) auto
    next
      case dollar: True
      obtain name w where n: "get_shell_name (drop (j + 1) b) = (name, w)" by fastforce
      have rest: "drop (j + 1) b \<noteq> []" using dollar by simp
      have w: "j + w + 1 \<le> length b" using get_shell_name_width [OF rest] n dollar by (simp add: le_diff_conv2)
      let ?v = "if name \<noteq> [] then (case m name of Some v \<Rightarrow> v | None \<Rightarrow> []) else if w = 0 then [b ! j] else []"
      have "expand_loop b m i j out = expand_loop b m (j + w + 1) (j + w + 1) ((out @ take (j - i) (drop i b)) @ ?v)"
        using True dollar n by (subst expand_loop.simps) auto
      also have "\<dots> = (out @ take (j - i) (drop i b)) @ ?v @ expansion m (drop (j + w + 1) b)"
        using "1.IH"(1) [OF True dollar refl n [symmetric] refl refl] w by auto
      also have "?v @ expansion m (drop (j + w + 1) b) = expansion m (drop j b)"
        using dollar rest n by (simp add: drop add.commute)
      finally show ?thesis by simp
    qed
  qed
qed

lemma expansion_plain: "CHR ''$'' \<notin> set s \<Longrightarrow> expansion m s = s"
  by (induction s) auto

lemma get_shell_name_braced:
  assumes "name \<noteq> []" and "CHR ''}'' \<notin> set name"
  shows "get_shell_name (CHR ''{'' # name @ CHR ''}'' # s) = (name, length name + 2)"
proof -
  have "takeWhile (\<lambda>c. c \<noteq> CHR ''}'') (name @ CHR ''}'' # s) = name"
    using assms(2) by (induction name) auto
  then show ?thesis
    using assms by (cases name; cases "tl name") (auto simp: get_shell_name_def Let_def numeral_eq_Suc)
qed

lemma expansion_braced:
  assumes "name \<noteq> []" and "CHR ''}'' \<notin> set name"
  shows "expansion m (''${'' @ name @ ''}'' @ s) = (case m name of Some v \<Rightarrow> v | None \<Rightarrow> []) @ expansion m s"
  using assms get_shell_name_braced [OF assms, of s] by simp

text \<open>C27. The expansion of variables in a command, a loop over two indices, is the recursion over the text that its
  documentation describes, for every text and environment: in particular a value is inserted as it is, dollars and
  blanks included, and the number of arguments does not change.\<close>

theorem expand_is_expansion:
  "expand s m = expansion m s \<and> length (expand_vars m args) = length args"
  using expand_loop_expansion [of 0 0 s m "[]"] by (simp add: expand_def expand_vars_def)

section \<open>From node to node\<close>

text \<open>What the startup command of a node prints is what the commands of the other nodes read: the lease of a node
  that registered carries the trimmed output of its startup command as JSON, and a peer that handles the addition of
  that lease does nothing but run its own command with exactly this output on standard input and the subnet and
  address of the node in the environment.\<close>

theorem extension_data_reaches_peers:
  assumes reg: "ext_register_network os nl env te ei config s = (s1, Inr net)"
    and cfg: "read_ext_config env te config = Inr cfg" "xe_pre_startup cfg = Some pre" "split_command pre = Some (p # ps)"
    and acquired: "\<forall>a l. re_acquire env a = Inr l \<longrightarrow> attrs l = a"
    and json: "\<forall>t. parse (eo_json os t) = Inr (JString t)"
    and peer: "xe_subnet_add cfg' = Some cmd" "split_command cmd = Some (q # qs)"
  shows "\<exists>out s2. run_cmd os [] [] p ps s = (s2, Inr out) \<and>
    ext_handle_subnet_events os' parse te' cfg' [\<lparr>ev_type = Added, ev_lease = en_lease net\<rparr>] t =
      fst (run_cmd os' [''SUBNET='' @ n4_to_string (subnet (en_lease net)),
        ''PUBLIC_IP='' @ ip4_to_string (public_ip (attrs (en_lease net)))] out q qs t)"
proof -
  from reg cfg obtain mtu s2 data l where
      mtu: "get_link_mtu (nl s) (ei_iface_index ei) = Inr mtu"
    and pre: "pre_startup os cfg s = (s2, Inr data)"
    and acq: "acquire_or_fail env (ext_attrs ei data) = Inr l" and net: "en_lease net = l"
    by (auto simp: ext_register_network_def then_do_eq_Inr lift_result_def Let_def)
  from pre cfg obtain out where out: "run_cmd os [] [] p ps s = (s2, Inr out)" "data = Some (eo_json os out)"
    by (auto simp: pre_startup_def then_do_eq_Inr on_err_eq_Inr)
  have "attrs l = ext_attrs ei data"
    using acq acquired by (auto simp: acquire_or_fail_def split: sum.splits)
  then have a: "backend_type (attrs l) = EXT_BACKEND_TYPE" "backend_data (attrs l) = Some (eo_json os out)"
    using out(2) by (auto simp: ext_attrs_def Let_def split: option.splits ip_addr.splits)
  have "cmd \<noteq> []" using peer(2) by (auto simp: split_command_def split_whitespace.simps)
  then have "ext_handle_subnet_events os' parse te' cfg' [\<lparr>ev_type = Added, ev_lease = l\<rparr>] t =
      fst (run_cmd os' (command_env l) out q qs t)"
    using a peer json by (simp add: ext_handle_subnet_events_def ext_handle_event_def run_event_command_def de_string_def)
  then show ?thesis using out(1) net by (auto simp: command_env_def)
qed

text \<open>Nodes whose children print their standard input and arguments; the state is the list of programs run. JSON texts
  are quoted, without escapes.\<close>

definition echo_os :: "(string \<times> string list \<times> string) list ext_os" where
  "echo_os =
     \<lparr>eo_vars = Map.empty,
      eo_spawn = (\<lambda>env name args stdin s.
        (s @ [(name, args, stdin)], Inr \<lparr>co_stdout = concat args @ stdin, co_stderr = [], co_code = Some 0\<rparr>)),
      eo_json = (\<lambda>t. CHR 0x22 # t)\<rparr>"

definition echo_parse :: "string \<Rightarrow> string + json" where
  "echo_parse t =
     (if t = ''pre'' then Inr (JObject [(''PreStartupCommand'', JString ''echo key'')])
      else case t of c # cs \<Rightarrow> Inr (JString cs) | [] \<Rightarrow> Inl [])"

definition echo_env :: reg_env where
  "echo_env =
     \<lparr>re_parse = echo_parse, re_ser = (\<lambda>_. []), re_macs = ([], []), re_random = ([], []),
      re_acquire = (\<lambda>a. Inr (blank_lease\<lparr>subnet := \<lparr>n4_ip = IP4 0x0af40100, n4_prefix_len = 24\<rparr>, attrs := a\<rparr>)), re_cancelled = False\<rparr>"

text \<open>The node prints \<open>key\<close> at startup, and its peer runs \<open>/bin/add\<close> with the subnet of the node as the argument.\<close>

definition echo_config :: config where
  "echo_config = config_default\<lparr>cfg_backend := Some ''pre''\<rparr>"

definition echo_cfg :: ext_config where
  "echo_cfg = ext_config_default\<lparr>xe_pre_startup := Some ''echo key''\<rparr>"

definition echo_peer :: ext_config where
  "echo_peer = ext_config_default\<lparr>xe_subnet_add := Some ''/bin/add $SUBNET''\<rparr>"

theorem extension_data_reaches_peers_witness:
  "\<exists>net s1. ext_register_network echo_os (\<lambda>_. sample_netlink) echo_env (\<lambda>_ _. []) sample_ei echo_config [] = (s1, Inr net) \<and>
    ext_handle_subnet_events echo_os echo_parse (\<lambda>_ _. []) echo_peer [\<lparr>ev_type = Added, ev_lease = en_lease net\<rparr>] [] =
      [(''/bin/add'', [''10.244.1.0/24''], ''key'' @ [CHR 0x0a])]"
proof -
  have cfg: "read_ext_config echo_env (\<lambda>_ _. []) echo_config = Inr echo_cfg"
    by (simp add: read_ext_config_def echo_config_def echo_env_def echo_parse_def trim_def is_whitespace_def ext_config_of_def
        struct_members_def de_field_def de_option_def de_string_def echo_cfg_def ext_config_default_def map_err_def)
  have parts: "xe_pre_startup echo_cfg = Some ''echo key''" "split_command ''echo key'' = Some [''echo'', ''key'']"
    "xe_subnet_add echo_peer = Some ''/bin/add $SUBNET''" "split_command ''/bin/add $SUBNET'' = Some [''/bin/add'', ''$SUBNET'']"
    by code_simp+
  have out: "run_cmd echo_os [] [] ''echo'' [''key''] [] = ([(''echo'', [''key''], [CHR 0x0a])], Inr ''key'')" by code_simp
  have mtu: "get_link_mtu sample_netlink i = Inr 1400" for i
    by (simp add: get_link_mtu_def sample_netlink_def first_of_dump_def link_mtu_def)
  have pre: "pre_startup echo_os echo_cfg [] = ([(''echo'', [''key''], [CHR 0x0a])], Inr (Some (eo_json echo_os ''key'')))"
    by (simp add: pre_startup_def parts(1,2) then_do_def on_err_def out)
  have post: "post_startup echo_os echo_cfg echo_config a l s = (s, Inr ())" for a l s
    by (simp add: post_startup_def echo_cfg_def ext_config_default_def)
  have got: "acquire_or_fail echo_env a = Inr (blank_lease\<lparr>subnet := \<lparr>n4_ip = IP4 0x0af40100, n4_prefix_len = 24\<rparr>, attrs := a\<rparr>)" for a
    by (simp add: acquire_or_fail_def echo_env_def)
  obtain s1 net where reg: "ext_register_network echo_os (\<lambda>_. sample_netlink) echo_env (\<lambda>_ _. []) sample_ei echo_config [] = (s1, Inr net)"
      and l: "subnet (en_lease net) = \<lparr>n4_ip = IP4 0x0af40100, n4_prefix_len = 24\<rparr>"
    by (simp add: ext_register_network_def then_do_def lift_result_def cfg mtu pre got post Let_def)
  have acq: "\<forall>a l. re_acquire echo_env a = Inr l \<longrightarrow> attrs l = a" by (auto simp: echo_env_def)
  have json: "\<forall>t. echo_parse (eo_json echo_os t) = Inr (JString t)" by (simp add: echo_parse_def echo_os_def)
  from extension_data_reaches_peers [OF reg cfg parts(1,2) acq json parts(3,4), of echo_os "\<lambda>_ _. []" "[]"] out
  have "ext_handle_subnet_events echo_os echo_parse (\<lambda>_ _. []) echo_peer [\<lparr>ev_type = Added, ev_lease = en_lease net\<rparr>] [] =
      fst (run_cmd echo_os [''SUBNET='' @ n4_to_string (subnet (en_lease net)),
        ''PUBLIC_IP='' @ ip4_to_string (public_ip (attrs (en_lease net)))] ''key'' ''/bin/add'' [''$SUBNET''] [])" by simp
  moreover have "fst (run_cmd echo_os [''SUBNET='' @ n4_to_string \<lparr>n4_ip = IP4 0x0af40100, n4_prefix_len = 24\<rparr>,
      ''PUBLIC_IP='' @ x] ''key'' ''/bin/add'' [''$SUBNET''] []) = [(''/bin/add'', [''10.244.1.0/24''], ''key'' @ [CHR 0x0a])]" for x
  proof -
    have "n4_to_string \<lparr>n4_ip = IP4 0x0af40100, n4_prefix_len = 24\<rparr> = ''10.244.1.0/24''" by code_simp
    moreover have "expand ''$SUBNET'' m = (case m ''SUBNET'' of Some v \<Rightarrow> v | None \<Rightarrow> [])" for m
      using expand_loop_expansion [of 0 0 "''$SUBNET''" m "[]"]
      by (simp add: expand_def get_shell_name_def is_shell_special_var_def is_alpha_num_def split: option.splits)
    moreover have "expand ''/bin/add'' m = ''/bin/add''" for m
      using expand_loop_expansion [of 0 0 "''/bin/add''" m "[]"] by (simp add: expand_def)
    ultimately show ?thesis
      by (simp add: run_cmd_def echo_os_def build_env_map_def expand_vars_def Let_def)
  qed
  ultimately show ?thesis using reg l by auto
qed

end
