(* ===== verification/Apiserver.thy ===== *)
theory Apiserver
  imports Informer World Flags "HOL-Library.Sublist"
begin

text \<open>
  The client of the Kubernetes API (\<open>kube/types.rs\<close>, \<open>watch.rs\<close>, \<open>client.rs\<close>, \<open>config.rs\<close>): the JSON of nodes, pods
  and errors, the decoding of the watch stream from chunks of bytes, requests with the classification of their
  replies, and where the address and the credentials come from. The JSON and YAML parsers, the URL parser, the HTTP
  transport, files and environment variables are parameters. Bytes are the characters of a text; UTF-8 is modelled
  as \<open>String::from_utf8\<close> and \<open>from_utf8_lossy\<close> treat it.
\<close>

section \<open>UTF-8\<close>

definition in_range :: "u8 list \<Rightarrow> nat \<Rightarrow> u8 \<Rightarrow> u8 \<Rightarrow> bool" where
  "in_range bs i lo hi \<longleftrightarrow> i < length bs \<and> lo \<le> bs ! i \<and> bs ! i \<le> hi"

text \<open>The length of the first character, or of the part of an ill-formed one that is replaced as a whole.\<close>

definition utf8_step :: "u8 list \<Rightarrow> nat \<times> bool" where
  "utf8_step bs =
     (if bs = [] \<or> hd bs < 0x80 then (1, True)
      else if in_range bs 0 0xC2 0xDF then (if in_range bs 1 0x80 0xBF then (2, True) else (1, False))
      else if in_range bs 0 0xE0 0xEF then
        (if \<not> in_range bs 1 (if hd bs = 0xE0 then 0xA0 else 0x80) (if hd bs = 0xED then 0x9F else 0xBF) then (1, False)
         else if in_range bs 2 0x80 0xBF then (3, True) else (2, False))
      else if in_range bs 0 0xF0 0xF4 then
        (if \<not> in_range bs 1 (if hd bs = 0xF0 then 0x90 else 0x80) (if hd bs = 0xF4 then 0x8F else 0xBF) then (1, False)
         else if \<not> in_range bs 2 0x80 0xBF then (2, False)
         else if in_range bs 3 0x80 0xBF then (4, True) else (3, False))
      else (1, False))"

lemma utf8_step_pos: "fst (utf8_step bs) > 0"
  by (simp add: utf8_step_def)

function from_utf8 :: "u8 list \<Rightarrow> string option" where
  "from_utf8 bs =
     (if bs = [] then Some []
      else if \<not> snd (utf8_step bs) then None
      else map_option (\<lambda>s. bytes_text (take (fst (utf8_step bs)) bs) @ s) (from_utf8 (drop (fst (utf8_step bs)) bs)))"
  by pat_completeness auto
termination by (relation "measure length") (auto simp: utf8_step_pos)

text \<open>The replacement character is three bytes long.\<close>

function from_utf8_lossy :: "u8 list \<Rightarrow> string" where
  "from_utf8_lossy bs =
     (if bs = [] then []
      else (if snd (utf8_step bs) then bytes_text (take (fst (utf8_step bs)) bs) else bytes_text [0xEF, 0xBF, 0xBD]) @
        from_utf8_lossy (drop (fst (utf8_step bs)) bs))"
  by pat_completeness auto
termination by (relation "measure length") (auto simp: utf8_step_pos)

declare from_utf8.simps [simp del] from_utf8_lossy.simps [simp del]

section \<open>Objects\<close>

text \<open>\<open>serde_json::Value\<close> keeps the last value of a repeated key.\<close>

fun last_wins :: "(string \<times> json) list \<Rightarrow> (string \<times> json) list" where
  "last_wins [] = []"
| "last_wins ((k, v) # ms) = (if k \<in> fst ` set ms then last_wins ms else (k, v) # last_wins ms)"

fun value_of :: "json \<Rightarrow> json" where
  "value_of (JObject ms) = JObject (last_wins (map (\<lambda>(k, v). (k, value_of v)) ms))"
| "value_of (JArray vs) = JArray (map value_of vs)"
| "value_of v = v"

text \<open>A \<open>BTreeMap<String, String>\<close>.\<close>

definition de_string_map :: "type_error \<Rightarrow> json \<Rightarrow> string + (string \<rightharpoonup> string)" where
  "de_string_map te v =
     (case v of
        JObject ms \<Rightarrow>
          map_sum id (\<lambda>ts. foldl (\<lambda>m (k, t). m(k \<mapsto> t)) Map.empty (zip (map fst ms) ts)) (de_list (de_string te) (map snd ms))
      | _ \<Rightarrow> Inl (te ''a map'' v))"

definition de_u16 :: "type_error \<Rightarrow> json \<Rightarrow> string + 16 word" where
  "de_u16 te v =
     (case v of JPos n \<Rightarrow> if n < 2 ^ 16 then Inr (of_nat n) else Inl (te ''u16'' v) | _ \<Rightarrow> Inl (te ''u16'' v))"

record object_meta =
  om_name :: string
  om_uid :: string
  om_resource_version :: "string option"
  om_annotations :: "string \<rightharpoonup> string"

definition object_meta_default :: object_meta where
  "object_meta_default = \<lparr>om_name = [], om_uid = [], om_resource_version = None, om_annotations = Map.empty\<rparr>"

definition object_meta_of :: "type_error \<Rightarrow> json \<Rightarrow> string + object_meta" where
  "object_meta_of te v =
     rbind (struct_members te ''ObjectMeta'' [''name'', ''uid'', ''resourceVersion'', ''annotations''] v) (\<lambda>f.
     rbind (de_field [] (de_string te) (f 0)) (\<lambda>name.
     rbind (de_field [] (de_string te) (f 1)) (\<lambda>uid.
     rbind (de_field None (de_option de_string te) (f 2)) (\<lambda>rv.
     rbind (de_field Map.empty (de_string_map te) (f 3)) (\<lambda>ann.
     Inr \<lparr>om_name = name, om_uid = uid, om_resource_version = rv, om_annotations = ann\<rparr>)))))"

definition node_spec_of :: "type_error \<Rightarrow> json \<Rightarrow> string + (string option \<times> string list)" where
  "node_spec_of te v =
     rbind (struct_members te ''NodeSpec'' [''podCIDR'', ''podCIDRs''] v) (\<lambda>f.
     rbind (de_field None (de_option de_string te) (f 0)) (\<lambda>cidr.
     rbind (de_field [] (de_vec (de_string te) te) (f 1)) (\<lambda>cidrs.
     Inr (cidr, cidrs))))"

definition node_of_json :: "type_error \<Rightarrow> json \<Rightarrow> string + node" where
  "node_of_json te v =
     rbind (struct_members te ''Node'' [''metadata'', ''spec''] v) (\<lambda>f.
     rbind (de_field object_meta_default (object_meta_of te) (f 0)) (\<lambda>meta.
     rbind (de_field (None, []) (node_spec_of te) (f 1)) (\<lambda>spec.
     Inr \<lparr>nd_name = om_name meta, nd_uid = om_uid meta, nd_resource_version = om_resource_version meta,
       nd_annotations = om_annotations meta, nd_pod_cidr = fst spec, nd_pod_cidrs = snd spec\<rparr>)))"

text \<open>A list is its resource version and its items.\<close>

definition list_meta_of :: "type_error \<Rightarrow> json \<Rightarrow> string + string option" where
  "list_meta_of te v =
     rbind (struct_members te ''ListMeta'' [''resourceVersion''] v) (\<lambda>f. de_field None (de_option de_string te) (f 0))"

definition node_list_of :: "type_error \<Rightarrow> json \<Rightarrow> string + (string option \<times> node list)" where
  "node_list_of te v =
     rbind (struct_members te ''NodeList'' [''metadata'', ''items''] v) (\<lambda>f.
     rbind (de_field None (list_meta_of te) (f 0)) (\<lambda>rv.
     rbind (de_field [] (de_vec (node_of_json te) te) (f 1)) (\<lambda>items.
     Inr (rv, items))))"

text \<open>Of a pod only the name of its node is read.\<close>

definition pod_spec_of :: "type_error \<Rightarrow> json \<Rightarrow> string + string option" where
  "pod_spec_of te v =
     rbind (struct_members te ''PodSpec'' [''nodeName''] v) (\<lambda>f. de_field None (de_option de_string te) (f 0))"

definition pod_of :: "type_error \<Rightarrow> json \<Rightarrow> string + string option" where
  "pod_of te v =
     rbind (struct_members te ''Pod'' [''metadata'', ''spec''] v) (\<lambda>f.
     rbind (de_field object_meta_default (object_meta_of te) (f 0)) (\<lambda>_.
     de_field None (pod_spec_of te) (f 1)))"

record api_status =
  as_message :: string
  as_reason :: string
  as_code :: "16 word"

definition api_status_of :: "type_error \<Rightarrow> json \<Rightarrow> string + api_status" where
  "api_status_of te v =
     rbind (struct_members te ''Status'' [''message'', ''reason'', ''code''] v) (\<lambda>f.
     rbind (de_field [] (de_string te) (f 0)) (\<lambda>message.
     rbind (de_field [] (de_string te) (f 1)) (\<lambda>reason.
     rbind (de_field 0 (de_u16 te) (f 2)) (\<lambda>code.
     Inr \<lparr>as_message = message, as_reason = reason, as_code = code\<rparr>))))"

definition api_status_text :: "api_status \<Rightarrow> string" where
  "api_status_text st =
     as_message st @ '' (reason: '' @ as_reason st @ '', code: '' @ show_nat (unat (as_code st)) @ '')''"

definition is_expired :: "api_status \<Rightarrow> bool" where
  "is_expired st \<longleftrightarrow> as_code st = 410 \<or> as_reason st = ''Expired''"

definition watch_event_type_of :: "type_error \<Rightarrow> json \<Rightarrow> string + watch_event_type" where
  "watch_event_type_of te v =
     rbind (de_string te v) (\<lambda>s.
       case map_of [(''ADDED'', WAdded), (''MODIFIED'', WModified), (''DELETED'', WDeleted), (''BOOKMARK'', WBookmark), (''ERROR'', WError)] s of
         Some t \<Rightarrow> Inr t
       | None \<Rightarrow> Inl (te ''variant'' v))"

section \<open>The watch stream\<close>

datatype decode_error =
    Transport string
  | InvalidFrame string string
  | InvalidStatus string
  | InvalidNode watch_event_type string
  | NotUtf8
  | InvalidBody string string
  | Unserializable string

datatype client_error =
    Http string
  | Api api_status
  | ResourceNotFound string
  | Gone
  | ConfigError string
  | Decode decode_error
  | RequestCanceled

definition watch_frame_of :: "type_error \<Rightarrow> json \<Rightarrow> string + (watch_event_type \<times> json)" where
  "watch_frame_of te v =
     rbind (struct_members te ''Frame'' [''type'', ''object''] v) (\<lambda>f.
     rbind (de_required (watch_event_type_of te) te v (f 0)) (\<lambda>t.
     rbind (de_required Inr te v (f 1)) (\<lambda>obj. Inr (t, value_of obj))))"

definition parse_watch_line ::
  "(string \<Rightarrow> string + json) \<Rightarrow> type_error \<Rightarrow> string \<Rightarrow> client_error + (watch_event_type \<times> node)" where
  "parse_watch_line parse te line =
     (case rbind (parse line) (watch_frame_of te) of
        Inl e \<Rightarrow> Inl (Decode (InvalidFrame line e))
      | Inr (WError, obj) \<Rightarrow>
          (case api_status_of te obj of
             Inl e \<Rightarrow> Inl (Decode (InvalidStatus e))
           | Inr st \<Rightarrow> Inl (if is_expired st then Gone else Api st))
      | Inr (t, obj) \<Rightarrow>
          (case node_of_json te obj of
             Inl e \<Rightarrow> Inl (Decode (InvalidNode t e))
           | Inr n \<Rightarrow> Inr (t, n)))"

abbreviation LF :: u8 where "LF \<equiv> 10"
abbreviation CR :: u8 where "CR \<equiv> 13"

definition drop_cr :: "u8 list \<Rightarrow> u8 list" where
  "drop_cr line = (if line \<noteq> [] \<and> last line = CR then butlast line else line)"

lemma after_line_shorter:
  assumes "x \<in> set buf"
  shows "length (tl (dropWhile (\<lambda>b. b \<noteq> x) buf)) < length buf"
proof -
  have "dropWhile (\<lambda>b. b \<noteq> x) buf \<noteq> []" using assms by (simp add: dropWhile_eq_Nil_conv)
  then have "length (tl (dropWhile (\<lambda>b. b \<noteq> x) buf)) < length (dropWhile (\<lambda>b. b \<noteq> x) buf)" by simp
  also have "\<dots> \<le> length buf" by (rule length_dropWhile_le)
  finally show ?thesis .
qed

text \<open>The events of the complete lines of the buffer and what is left of it; \<open>f\<close> is \<open>parse_watch_line\<close>.\<close>

function decode_lines :: "(string \<Rightarrow> client_error + 'e) \<Rightarrow> u8 list \<Rightarrow> client_error + ('e list \<times> u8 list)" where
  "decode_lines f buf =
     (if LF \<notin> set buf then Inr ([], buf)
      else
        let line = drop_cr (takeWhile (\<lambda>b. b \<noteq> LF) buf);
            rest = tl (dropWhile (\<lambda>b. b \<noteq> LF) buf)
        in if line = [] then decode_lines f rest
           else case from_utf8 line of
               None \<Rightarrow> Inl (Decode NotUtf8)
             | Some text \<Rightarrow> rbind (f text) (\<lambda>event. map_sum id (\<lambda>(events, left). (event # events, left)) (decode_lines f rest)))"
  by pat_completeness auto
termination by (relation "measure (\<lambda>(f, buf). length buf)") (auto dest: after_line_shorter)

declare decode_lines.simps [simp del]

definition take_trailing :: "u8 list \<Rightarrow> string" where
  "take_trailing buf = from_utf8_lossy (rev (dropWhile (\<lambda>b. b = LF \<or> b = CR) (rev buf)))"

text \<open>The last line, when it has no end; then the stream: the events it yields and the error that ends it. A chunk is
  the bytes, or the text of a transport error.\<close>

definition decode_trailing :: "(string \<Rightarrow> client_error + 'e) \<Rightarrow> u8 list \<Rightarrow> 'e list \<times> client_error option" where
  "decode_trailing f buf =
     (if buf = [] \<or> take_trailing buf = [] then ([], None)
      else case f (take_trailing buf) of Inl e \<Rightarrow> ([], Some e) | Inr event \<Rightarrow> ([event], None))"

fun stream_chunks ::
  "(u8 list \<Rightarrow> 'e list \<times> client_error option) \<Rightarrow> (string \<Rightarrow> client_error + 'e) \<Rightarrow> u8 list \<Rightarrow> (string + u8 list) list \<Rightarrow>
     'e list \<times> client_error option" where
  "stream_chunks at_end f buf [] = at_end buf"
| "stream_chunks at_end f buf (Inl e # chunks) = ([], Some (Decode (Transport e)))"
| "stream_chunks at_end f buf (Inr chunk # chunks) =
     (case decode_lines f (buf @ chunk) of
        Inl e \<Rightarrow> ([], Some e)
      | Inr (events, left) \<Rightarrow> map_prod (append events) id (stream_chunks at_end f left chunks))"

definition decode_watch_stream ::
  "(string \<Rightarrow> client_error + 'e) \<Rightarrow> u8 list \<Rightarrow> (string + u8 list) list \<Rightarrow> 'e list \<times> client_error option" where
  "decode_watch_stream f buf chunks = stream_chunks (decode_trailing f) f buf chunks"

text \<open>\<open>take_until\<close>: when the token fires first, the stream just ends.\<close>

definition stream_until_token :: "(string \<Rightarrow> client_error + 'e) \<Rightarrow> (string + u8 list) list \<Rightarrow> 'e list \<times> client_error option" where
  "stream_until_token f chunks = stream_chunks (\<lambda>_. ([], None)) f [] chunks"

section \<open>Chunks do not matter\<close>

text \<open>The reference reads the stream byte by byte: the complete lines after the bytes \<open>cur\<close> of an open one, and the
  line that is open at the end.\<close>

fun cut_lines :: "u8 list \<Rightarrow> u8 list \<Rightarrow> u8 list list \<times> u8 list" where
  "cut_lines cur [] = ([], cur)"
| "cut_lines cur (b # bs) = (if b = LF then map_prod (Cons cur) id (cut_lines [] bs) else cut_lines (cur @ [b]) bs)"

text \<open>The events of lines up to the first that is no event, with its error.\<close>

fun run_lines :: "(string \<Rightarrow> client_error + 'e) \<Rightarrow> u8 list list \<Rightarrow> 'e list \<times> client_error option" where
  "run_lines f [] = ([], None)"
| "run_lines f (l # ls) =
     (if drop_cr l = [] then run_lines f ls
      else case from_utf8 (drop_cr l) of
          None \<Rightarrow> ([], Some (Decode NotUtf8))
        | Some text \<Rightarrow>
            (case f text of
               Inl e \<Rightarrow> ([], Some e)
             | Inr event \<Rightarrow> map_prod (Cons event) id (run_lines f ls)))"

definition watch_from :: "(string \<Rightarrow> client_error + 'e) \<Rightarrow> u8 list \<Rightarrow> u8 list \<Rightarrow> 'e list \<times> client_error option" where
  "watch_from f cur bytes =
     (case run_lines f (fst (cut_lines cur bytes)) of
        (events, Some e) \<Rightarrow> (events, Some e)
      | (events, None) \<Rightarrow> map_prod (append events) id (decode_trailing f (snd (cut_lines cur bytes))))"

definition watch_reference :: "(string \<Rightarrow> client_error + 'e) \<Rightarrow> u8 list \<Rightarrow> 'e list \<times> client_error option" where
  "watch_reference f bytes = watch_from f [] bytes"

lemma cut_lines_append:
  "cut_lines cur (xs @ ys) =
     (fst (cut_lines cur xs) @ fst (cut_lines (snd (cut_lines cur xs)) ys), snd (cut_lines (snd (cut_lines cur xs)) ys))"
  by (induction cur xs rule: cut_lines.induct) (auto simp: map_prod_def split: prod.splits)

lemma cut_lines_open: "LF \<notin> set buf \<Longrightarrow> cut_lines cur buf = ([], cur @ buf)"
  by (induction cur buf rule: cut_lines.induct) auto

lemma cut_lines_line:
  "LF \<in> set buf \<Longrightarrow> cut_lines cur buf =
     map_prod (Cons (cur @ takeWhile (\<lambda>b. b \<noteq> LF) buf)) id (cut_lines [] (tl (dropWhile (\<lambda>b. b \<noteq> LF) buf)))"
  by (induction cur buf rule: cut_lines.induct) auto

lemma cut_lines_left: "LF \<notin> set cur \<Longrightarrow> LF \<notin> set (snd (cut_lines cur bs))"
  by (induction cur bs rule: cut_lines.induct) auto

lemma run_lines_append:
  "run_lines f (xs @ ys) =
     (case run_lines f xs of
        (events, Some e) \<Rightarrow> (events, Some e)
      | (events, None) \<Rightarrow> map_prod (append events) id (run_lines f ys))"
  by (induction xs) (auto simp: map_prod_def split: option.splits sum.splits prod.splits)

lemma decode_lines_run:
  "decode_lines f buf =
     (case run_lines f (fst (cut_lines [] buf)) of
        (events, Some e) \<Rightarrow> Inl e
      | (events, None) \<Rightarrow> Inr (events, snd (cut_lines [] buf)))"
proof (induction f buf rule: decode_lines.induct)
  case (1 f buf)
  show ?case
  proof (cases "LF \<in> set buf")
    case False
    then show ?thesis by (simp add: decode_lines.simps [of f buf] cut_lines_open)
  next
    case True
    let ?line = "drop_cr (takeWhile (\<lambda>b. b \<noteq> LF) buf)" and ?rest = "tl (dropWhile (\<lambda>b. b \<noteq> LF) buf)"
    have cut: "fst (cut_lines [] buf) = takeWhile (\<lambda>b. b \<noteq> LF) buf # fst (cut_lines [] ?rest)"
        "snd (cut_lines [] buf) = snd (cut_lines [] ?rest)"
      using cut_lines_line [OF True, of "[]"] by simp_all
    show ?thesis
    proof (cases "?line = []")
      case empty: True
      then show ?thesis unfolding cut using 1(1) True by (simp add: decode_lines.simps [of f buf] Let_def)
    next
      case False
      note IH = 1(2) [OF _ refl refl False]
      show ?thesis
        using True False IH
        by (auto simp: decode_lines.simps [of f buf] cut Let_def rbind_def map_prod_def split: option.splits sum.splits prod.splits)
    qed
  qed
qed

text \<open>The buffer between two chunks is an open line.\<close>

lemma decode_chunk:
  assumes "LF \<notin> set buf"
  shows "decode_lines f (buf @ chunk) =
     (case run_lines f (fst (cut_lines buf chunk)) of
        (events, Some e) \<Rightarrow> Inl e
      | (events, None) \<Rightarrow> Inr (events, snd (cut_lines buf chunk)))"
  unfolding decode_lines_run using cut_lines_append [of "[]" buf chunk] by (simp add: cut_lines_open [OF assms])

lemma watch_from_chunk:
  "watch_from f cur (chunk @ bytes) =
     (case run_lines f (fst (cut_lines cur chunk)) of
        (events, Some e) \<Rightarrow> (events, Some e)
      | (events, None) \<Rightarrow> map_prod (append events) id (watch_from f (snd (cut_lines cur chunk)) bytes))"
  by (auto simp: watch_from_def cut_lines_append run_lines_append map_prod_def split: option.splits prod.splits)

lemma watch_stream_from:
  assumes "LF \<notin> set buf"
  shows "snd (decode_watch_stream f buf (map Inr chunks)) = snd (watch_from f buf (concat chunks)) \<and>
    prefix (fst (decode_watch_stream f buf (map Inr chunks))) (fst (watch_from f buf (concat chunks))) \<and>
    (snd (watch_from f buf (concat chunks)) = None \<or> (\<forall>c \<in> set chunks. count_list c LF \<le> 1) \<longrightarrow>
       decode_watch_stream f buf (map Inr chunks) = watch_from f buf (concat chunks))"
  using assms
proof (induction chunks arbitrary: buf)
  case Nil
  then show ?case by (cases "decode_trailing f buf") (simp add: watch_from_def decode_watch_stream_def)
next
  case (Cons c cs)
  obtain events err where r: "run_lines f (fst (cut_lines buf c)) = (events, err)" by fastforce
  show ?case
  proof (cases err)
    case None
    with Cons.IH [OF cut_lines_left [OF Cons.prems, of c]] r show ?thesis
      by (auto simp: decode_watch_stream_def decode_chunk [OF Cons.prems] watch_from_chunk map_prod_def split: prod.splits)
  next
    case (Some e)
    have "events = []" if "count_list c LF \<le> 1"
    proof -
      have "length (fst (cut_lines cur bs)) = count_list bs LF" for cur bs
        by (induction cur bs rule: cut_lines.induct) auto
      then have "length (fst (cut_lines buf c)) \<le> 1" using that by simp
      then obtain l where "fst (cut_lines buf c) = [] \<or> fst (cut_lines buf c) = [l]"
        by (cases "fst (cut_lines buf c)") auto
      with r Some show ?thesis by (auto split: if_splits option.splits sum.splits)
    qed
    with r Some show ?thesis by (auto simp: decode_watch_stream_def decode_chunk [OF Cons.prems] watch_from_chunk)
  qed
qed

text \<open>C25. However the bytes of a watch are cut into chunks, the decoder yields the events a reader of single bytes finds, in
  order, and ends with the same error or none. Only the events that precede an error in the same chunk are lost:
  what is yielded is a prefix, and all of it when there is no error or no chunk ends two lines.\<close>

theorem watch_stream_chunking:
  "snd (decode_watch_stream f [] (map Inr chunks)) = snd (watch_reference f (concat chunks)) \<and>
   prefix (fst (decode_watch_stream f [] (map Inr chunks))) (fst (watch_reference f (concat chunks))) \<and>
   (snd (watch_reference f (concat chunks)) = None \<or> (\<forall>c \<in> set chunks. count_list c LF \<le> 1) \<longrightarrow>
      decode_watch_stream f [] (map Inr chunks) = watch_reference f (concat chunks))"
  unfolding watch_reference_def by (rule watch_stream_from) simp

definition sample_line :: "string \<Rightarrow> client_error + string" where
  "sample_line t = (if t = ''bad'' then Inl Gone else Inr t)"

text \<open>Two lines in three chunks; a good line is lost when a bad one follows in its chunk, and not when it has its own.\<close>

theorem watch_stream_chunking_witness:
  "decode_watch_stream sample_line [] (map Inr [[97], [98, 13, 10, 99], [10]]) =
     watch_reference sample_line (concat [[97], [98, 13, 10, 99], [10]]) \<and>
   watch_reference sample_line (concat [[97], [98, 13, 10, 99], [10]]) = ([''ab'', ''c''], None) \<and>
   fst (decode_watch_stream sample_line [] (map Inr [[97, 10, 98, 97, 100, 10]])) = [] \<and>
   decode_watch_stream sample_line [] (map Inr [[97, 10], [98, 97, 100, 10]]) = ([''a''], Some Gone)"
proof -
  have one: "\<forall>c \<in> set [[97], [98, 13, 10, 99], [10 :: u8]]. count_list c LF \<le> 1" by simp
  have "watch_reference sample_line (concat [[97], [98, 13, 10, 99], [10]]) = ([''ab'', ''c''], None)"
    "fst (decode_watch_stream sample_line [] (map Inr [[97, 10, 98, 97, 100, 10]])) = []"
    "decode_watch_stream sample_line [] (map Inr [[97, 10], [98, 97, 100, 10]]) = ([''a''], Some Gone)"
    by code_simp+
  with watch_stream_chunking [of sample_line "[[97], [98, 13, 10, 99], [10]]"] one show ?thesis by blast
qed

section \<open>Requests\<close>

datatype http_method = GET | PATCH

datatype patch_type = StrategicMerge | Merge

definition content_type :: "patch_type \<Rightarrow> string" where
  "content_type t =
     (case t of StrategicMerge \<Rightarrow> ''application/strategic-merge-patch+json'' | Merge \<Rightarrow> ''application/merge-patch+json'')"

record request =
  rq_method :: http_method
  rq_url :: string
  rq_query :: "(string \<times> string) list"
  rq_content_type :: "string option"
  rq_body :: "string option"

text \<open>What came first, the token, a failure of the transport, or the status and the body of the reply.\<close>

datatype reply = TokenFirst | TransportError string | Reply nat string

definition status_error :: "(string \<Rightarrow> string + json) \<Rightarrow> type_error \<Rightarrow> 16 word \<Rightarrow> string \<Rightarrow> client_error" where
  "status_error parse te code body =
     (let st = (case rbind (parse body) (api_status_of te) of
                  Inr st \<Rightarrow> st
                | Inl _ \<Rightarrow> \<lparr>as_message = body, as_reason = ''Unknown'', as_code = code\<rparr>);
          st = (if as_code st = 0 then st\<lparr>as_code := code\<rparr> else st)
      in if is_expired st then Gone else Api st)"

definition is_success :: "nat \<Rightarrow> bool" where
  "is_success code \<longleftrightarrow> 200 \<le> code \<and> code < 300"

definition request_json ::
  "(string \<Rightarrow> string + json) \<Rightarrow> type_error \<Rightarrow> (json \<Rightarrow> string + 'a) \<Rightarrow> string \<Rightarrow> reply \<Rightarrow> client_error + 'a" where
  "request_json parse te de resource r =
     (case r of
        TokenFirst \<Rightarrow> Inl RequestCanceled
      | TransportError e \<Rightarrow> Inl (Http e)
      | Reply code body \<Rightarrow>
          if code = 404 then Inl (ResourceNotFound resource)
          else if \<not> is_success code then Inl (status_error parse te (of_nat code) body)
          else (case rbind (parse body) de of
                  Inl e \<Rightarrow> Inl (Decode (InvalidBody resource e))
                | Inr x \<Rightarrow> Inr x))"

definition trim_slashes :: "string \<Rightarrow> string" where
  "trim_slashes s = rev (dropWhile (\<lambda>c. c = CHR ''/'') (rev s))"

record kube_config =
  kc_server :: string
  kc_bearer_token :: "string option"
  kc_ca_path :: "string option"
  kc_insecure :: bool

text \<open>A client sends its headers with every request; the timeout of the dial is a constant.\<close>

record kube_client =
  cl_base_url :: string
  cl_authorization :: "string option"
  cl_accept_invalid_certs :: bool
  cl_root_cert :: "string option"

text \<open>The world of the constructor: header values, files, certificates, the builder.\<close>

record client_env =
  ce_header_value :: "string \<Rightarrow> string + unit"
  ce_read :: "string \<Rightarrow> string + string"
  ce_from_pem :: "string \<Rightarrow> string + unit"
  ce_build :: "kube_config \<Rightarrow> string + unit"
  ce_url :: "string \<Rightarrow> string + string"

definition bearer_header :: "client_env \<Rightarrow> kube_config \<Rightarrow> client_error + string option" where
  "bearer_header env cfg =
     (case kc_bearer_token cfg of
        None \<Rightarrow> Inr None
      | Some token \<Rightarrow>
          (case ce_header_value env (''Bearer '' @ token) of
             Inl e \<Rightarrow> Inl (ConfigError (''invalid bearer token: '' @ e))
           | Inr _ \<Rightarrow> Inr (Some (''Bearer '' @ token))))"

definition root_certificate :: "client_env \<Rightarrow> kube_config \<Rightarrow> client_error + string option" where
  "root_certificate env cfg =
     (case kc_ca_path cfg of
        None \<Rightarrow> Inr None
      | Some ca \<Rightarrow>
          (case ce_read env ca of
             Inl e \<Rightarrow> Inl (ConfigError (''unable to read CA '' @ ca @ '': '' @ e))
           | Inr pem \<Rightarrow>
               (case ce_from_pem env pem of
                  Inl e \<Rightarrow> Inl (ConfigError (''invalid CA cert '' @ ca @ '': '' @ e))
                | Inr _ \<Rightarrow> Inr (Some pem))))"

definition kube_client_new :: "client_env \<Rightarrow> kube_config \<Rightarrow> client_error + kube_client" where
  "kube_client_new env cfg =
     rbind (bearer_header env cfg) (\<lambda>authorization.
     rbind (root_certificate env cfg) (\<lambda>cert.
     case ce_build env cfg of
       Inl e \<Rightarrow> Inl (Http e)
     | Inr _ \<Rightarrow>
         Inr \<lparr>cl_base_url = trim_slashes (kc_server cfg), cl_authorization = authorization,
           cl_accept_invalid_certs = kc_insecure cfg, cl_root_cert = cert\<rparr>))"

definition endpoint :: "client_env \<Rightarrow> kube_client \<Rightarrow> string \<Rightarrow> client_error + string" where
  "endpoint env client path =
     (case ce_url env (cl_base_url client @ path) of
        Inl e \<Rightarrow> Inl (ConfigError (''invalid server url '' @ [CHR 0x22] @ concat (map debug_char (cl_base_url client)) @ [CHR 0x22] @ '': '' @ e))
      | Inr _ \<Rightarrow> Inr (cl_base_url client @ path))"

definition get_request :: "string \<Rightarrow> (string \<times> string) list \<Rightarrow> request" where
  "get_request url query = \<lparr>rq_method = GET, rq_url = url, rq_query = query, rq_content_type = None, rq_body = None\<rparr>"

definition get_pod_request :: "client_env \<Rightarrow> kube_client \<Rightarrow> string \<Rightarrow> string \<Rightarrow> client_error + (request \<times> string)" where
  "get_pod_request env client ns name =
     rbind (endpoint env client (''/api/v1/namespaces/'' @ ns @ ''/pods/'' @ name)) (\<lambda>url.
     Inr (get_request url [], ''pod '' @ ns @ ''/'' @ name))"

definition get_node_request :: "client_env \<Rightarrow> kube_client \<Rightarrow> string \<Rightarrow> client_error + (request \<times> string)" where
  "get_node_request env client name =
     rbind (endpoint env client (''/api/v1/nodes/'' @ name)) (\<lambda>url. Inr (get_request url [], ''node '' @ name))"

definition list_nodes_request :: "client_env \<Rightarrow> kube_client \<Rightarrow> string option \<Rightarrow> client_error + (request \<times> string)" where
  "list_nodes_request env client selector =
     rbind (endpoint env client ''/api/v1/nodes'') (\<lambda>url.
     Inr (get_request url (case selector of None \<Rightarrow> [] | Some s \<Rightarrow> [(''fieldSelector'', s)]), ''node list''))"

definition patch_node_at_request ::
  "(json \<Rightarrow> string + string) \<Rightarrow> client_env \<Rightarrow> kube_client \<Rightarrow> string \<Rightarrow> string \<Rightarrow> json \<Rightarrow> patch_type \<Rightarrow> client_error + (request \<times> string)" where
  "patch_node_at_request to_text env client name subresource patch t =
     rbind (endpoint env client (''/api/v1/nodes/'' @ name @ subresource)) (\<lambda>url.
     case to_text patch of
       Inl e \<Rightarrow> Inl (Decode (Unserializable e))
     | Inr body \<Rightarrow>
         Inr (\<lparr>rq_method = PATCH, rq_url = url, rq_query = [], rq_content_type = Some (content_type t), rq_body = Some body\<rparr>,
              ''node '' @ name))"

definition patch_node_request where
  "patch_node_request to_text env client name = patch_node_at_request to_text env client name []"

definition patch_node_status_request where
  "patch_node_status_request to_text env client name = patch_node_at_request to_text env client name ''/status''"

definition watch_nodes_request ::
  "client_env \<Rightarrow> kube_client \<Rightarrow> string option \<Rightarrow> string option \<Rightarrow> bool \<Rightarrow> client_error + request" where
  "watch_nodes_request env client selector resource_version allow_bookmarks =
     rbind (endpoint env client ''/api/v1/nodes'') (\<lambda>url.
     Inr (get_request url
       ([(''watch'', ''true'')] @ (case selector of None \<Rightarrow> [] | Some s \<Rightarrow> [(''fieldSelector'', s)]) @
        (case resource_version of None \<Rightarrow> [] | Some rv \<Rightarrow> [(''resourceVersion'', rv)]) @
        (if allow_bookmarks then [(''allowWatchBookmarks'', ''true'')] else []))))"

text \<open>The stream of a watch: \<open>sent\<close> is an error of the transport, or the status with the body of an error (empty when it
  could not be read), the chunks, and whether the token fired after them.\<close>

definition watch_nodes ::
  "(string \<Rightarrow> string + json) \<Rightarrow> type_error \<Rightarrow> string + (nat \<times> string \<times> (string + u8 list) list \<times> bool) \<Rightarrow>
     client_error + ((watch_event_type \<times> node) list \<times> client_error option)" where
  "watch_nodes parse te sent =
     (case sent of
        Inl e \<Rightarrow> Inl (Http e)
      | Inr (code, body, chunks, fired) \<Rightarrow>
          if \<not> is_success code then Inl (status_error parse te (of_nat code) body)
          else if fired then Inr (stream_until_token (parse_watch_line parse te) chunks)
          else Inr (decode_watch_stream (parse_watch_line parse te) [] chunks))"

section \<open>Where the API server is\<close>

definition SERVICE_ACCOUNT_TOKEN :: string where
  "SERVICE_ACCOUNT_TOKEN = ''/var/run/secrets/kubernetes.io/serviceaccount/token''"

definition SERVICE_ACCOUNT_CA :: string where
  "SERVICE_ACCOUNT_CA = ''/var/run/secrets/kubernetes.io/serviceaccount/ca.crt''"

record named_cluster =
  nc_cluster_name :: string
  nc_server :: string
  nc_certificate_authority :: "string option"
  nc_insecure_skip_tls_verify :: bool

text \<open>A user is a mapping from keys to values, each of which may be a text or not, or something else.\<close>

record named_user =
  nu_name :: string
  nu_user :: "(string option \<times> string option) list option"

record raw_kubeconfig =
  rk_current_context :: string
  rk_contexts :: "(string \<times> string \<times> string) list"
  rk_clusters :: "named_cluster list"
  rk_users :: "named_user list"

record kube_env =
  ke_var :: "string \<rightharpoonup> string"
  ke_read :: "string \<Rightarrow> string + string"
  ke_exists :: "string \<Rightarrow> bool"
  ke_scheme :: "string \<Rightarrow> string + string"
  ke_yaml :: "string \<Rightarrow> string + raw_kubeconfig"

definition debug_text :: "string \<Rightarrow> string" where
  "debug_text s = [CHR 0x22] @ concat (map debug_char s) @ [CHR 0x22]"

definition from_api_url :: "kube_env \<Rightarrow> string \<Rightarrow> client_error + kube_config" where
  "from_api_url env url =
     (case ke_scheme env url of
        Inl e \<Rightarrow> Inl (ConfigError (''invalid api url '' @ debug_text url @ '': '' @ e))
      | Inr scheme \<Rightarrow>
          if scheme \<noteq> ''http'' \<and> scheme \<noteq> ''https'' then Inl (ConfigError (''api url must be http(s): '' @ debug_text url))
          else Inr \<lparr>kc_server = trim_slashes url, kc_bearer_token = None, kc_ca_path = None, kc_insecure = False\<rparr>)"

definition join_host_port :: "string \<Rightarrow> string \<Rightarrow> string" where
  "join_host_port host port =
     (if CHR '':'' \<in> set host \<and> take 1 host \<noteq> ''['' then ''['' @ host @ '']:'' @ port else host @ '':'' @ port)"

definition in_cluster_with :: "kube_env \<Rightarrow> string \<Rightarrow> string \<Rightarrow> client_error + kube_config" where
  "in_cluster_with env token_path ca_path =
     (case ke_var env ''KUBERNETES_SERVICE_HOST'' of
        None \<Rightarrow> Inl (ConfigError ''KUBERNETES_SERVICE_HOST not set (not in-cluster?)'')
      | Some host \<Rightarrow>
     (case ke_var env ''KUBERNETES_SERVICE_PORT'' of
        None \<Rightarrow> Inl (ConfigError ''KUBERNETES_SERVICE_PORT not set (not in-cluster?)'')
      | Some port \<Rightarrow>
     (case ke_read env token_path of
        Inl e \<Rightarrow> Inl (ConfigError (''unable to read service account token '' @ token_path @ '': '' @ e))
      | Inr token \<Rightarrow>
          Inr \<lparr>kc_server = ''https://'' @ join_host_port host port, kc_bearer_token = Some (trim token),
            kc_ca_path = (if ke_exists env ca_path then Some ca_path else None), kc_insecure = False\<rparr>)))"

definition in_cluster :: "kube_env \<Rightarrow> client_error + kube_config" where
  "in_cluster env = in_cluster_with env SERVICE_ACCOUNT_TOKEN SERVICE_ACCOUNT_CA"

text \<open>The entries of a user, in order: the last token and the last token file; any other key is refused.\<close>

fun user_entries ::
  "string \<Rightarrow> (string option \<times> string option) list \<Rightarrow> string option \<times> string option \<Rightarrow>
     client_error + (string option \<times> string option)" where
  "user_entries name [] acc = Inr acc"
| "user_entries name ((key, v) # es) (token, token_file) =
     (if key = Some ''token'' then user_entries name es (v, token_file)
      else if key = Some ''tokenFile'' then user_entries name es (token, v)
      else Inl (ConfigError (''unsupported kubeconfig auth for user '' @ name @
        (case key of Some other \<Rightarrow> '': '' @ other | None \<Rightarrow> []))))"

definition user_token :: "kube_env \<Rightarrow> named_user \<Rightarrow> client_error + string" where
  "user_token env u =
     rbind (case nu_user u of None \<Rightarrow> Inr (None, None) | Some es \<Rightarrow> user_entries (nu_name u) es (None, None)) (\<lambda>(token, token_file).
     case token of
       Some t \<Rightarrow> Inr t
     | None \<Rightarrow>
         (case token_file of
            None \<Rightarrow> Inl (ConfigError (''unsupported kubeconfig auth for user '' @ nu_name u))
          | Some p \<Rightarrow>
              (case ke_read env p of
                 Inl e \<Rightarrow> Inl (ConfigError (''unable to read tokenFile '' @ debug_text p @ '' for user '' @ nu_name u @ '': '' @ e))
               | Inr t \<Rightarrow> Inr (trim t))))"

definition or_config_error :: "string \<Rightarrow> 'a option \<Rightarrow> client_error + 'a" where
  "or_config_error msg r = (case r of Some x \<Rightarrow> Inr x | None \<Rightarrow> Inl (ConfigError msg))"

definition from_kubeconfig :: "kube_env \<Rightarrow> string \<Rightarrow> client_error + kube_config" where
  "from_kubeconfig env path =
     (case ke_read env path of
        Inl e \<Rightarrow> Inl (ConfigError (''unable to read kubeconfig '' @ path @ '': '' @ e))
      | Inr raw \<Rightarrow>
     (case ke_yaml env raw of
        Inl e \<Rightarrow> Inl (ConfigError (''invalid kubeconfig '' @ path @ '': '' @ e))
      | Inr kc \<Rightarrow>
          if rk_current_context kc = [] then Inl (ConfigError (''kubeconfig '' @ path @ '' has no current-context''))
          else
            rbind (or_config_error (''context '' @ debug_text (rk_current_context kc) @ '' not found in kubeconfig'')
              (find (\<lambda>c. fst c = rk_current_context kc) (rk_contexts kc))) (\<lambda>(_, cluster_name, user_name).
            rbind (or_config_error (''cluster '' @ debug_text cluster_name @ '' not found in kubeconfig'')
              (find (\<lambda>c. nc_cluster_name c = cluster_name) (rk_clusters kc))) (\<lambda>cluster.
            rbind (or_config_error (''user '' @ debug_text user_name @ '' not found in kubeconfig'')
              (find (\<lambda>u. nu_name u = user_name) (rk_users kc))) (\<lambda>user.
            rbind (user_token env user) (\<lambda>token.
            Inr \<lparr>kc_server = trim_slashes (nc_server cluster), kc_bearer_token = Some token,
              kc_ca_path = nc_certificate_authority cluster, kc_insecure = nc_insecure_skip_tls_verify cluster\<rparr>))))))"

definition env_kubeconfig :: "kube_env \<Rightarrow> string option" where
  "env_kubeconfig env =
     Option.bind (ke_var env ''KUBECONFIG'') (\<lambda>v.
       find (\<lambda>p. p \<noteq> [] \<and> ke_exists env p) (map trim (split_on (CHR '':'') v)))"

definition default_kubeconfig_path :: "kube_env \<Rightarrow> string option" where
  "default_kubeconfig_path env = map_option (\<lambda>home. path_join (path_join home ''.kube'') ''config'') (ke_var env ''HOME'')"

definition NO_KUBE_CONFIG :: string where
  "NO_KUBE_CONFIG = ''unable to resolve kube config: not running in-cluster and no kubeconfig found (pass an api url or kubeconfig, or set $KUBECONFIG or ~/.kube/config)''"

definition resolve :: "kube_env \<Rightarrow> string \<Rightarrow> string \<Rightarrow> client_error + kube_config" where
  "resolve env api_url kubeconfig_path =
     (if kubeconfig_path \<noteq> [] then
        rbind (from_kubeconfig env kubeconfig_path) (\<lambda>cfg.
        if api_url \<noteq> [] then rbind (from_api_url env api_url) (\<lambda>c. Inr (cfg\<lparr>kc_server := kc_server c\<rparr>)) else Inr cfg)
      else if api_url \<noteq> [] then from_api_url env api_url
      else case in_cluster env of
          Inr cfg \<Rightarrow> Inr cfg
        | Inl _ \<Rightarrow>
            (case env_kubeconfig env of
               Some path \<Rightarrow> from_kubeconfig env path
             | None \<Rightarrow>
                 (case default_kubeconfig_path env of
                    Some path \<Rightarrow> if ke_exists env path then from_kubeconfig env path else Inl (ConfigError NO_KUBE_CONFIG)
                  | None \<Rightarrow> Inl (ConfigError NO_KUBE_CONFIG))))"

subsection \<open>Credentials\<close>

lemma or_config_error_find: "or_config_error msg (find P xs) = Inr x \<Longrightarrow> x \<in> set xs"
  by (auto simp: or_config_error_def find_Some_iff split: option.splits)

lemma from_kubeconfig_ok:
  assumes "from_kubeconfig env path = Inr cfg"
  shows "\<exists>raw kc u token. ke_read env path = Inr raw \<and> ke_yaml env raw = Inr kc \<and>
     u \<in> set (rk_users kc) \<and> user_token env u = Inr token \<and> kc_bearer_token cfg = Some token"
proof -
  obtain raw kc where kc: "ke_read env path = Inr raw" "ke_yaml env raw = Inr kc"
    using assms by (auto simp: from_kubeconfig_def split: sum.splits)
  obtain user_name u token msg where u: "or_config_error msg (find (\<lambda>u. nu_name u = user_name) (rk_users kc)) = Inr u"
      "user_token env u = Inr token" "kc_bearer_token cfg = Some token"
    using assms kc by (auto simp: from_kubeconfig_def rbind_eq_Inr split: if_splits)
  with kc or_config_error_find [OF u(1)] show ?thesis by auto
qed

text \<open>Where a token goes: with a kubeconfig there is a token, of a user of that file, and an explicit address replaces
  the one of the file; with an explicit address alone no token is sent and certificates are always verified; in a
  cluster the token of the service account goes over https.\<close>

theorem resolve_sources:
  assumes "resolve env api path = Inr cfg"
  shows "if path \<noteq> [] then
      (\<exists>raw kc u token. ke_read env path = Inr raw \<and> ke_yaml env raw = Inr kc \<and> u \<in> set (rk_users kc) \<and>
         user_token env u = Inr token \<and> kc_bearer_token cfg = Some token) \<and> (api = [] \<or> kc_server cfg = trim_slashes api)
    else if api \<noteq> [] then
      kc_bearer_token cfg = None \<and> \<not> kc_insecure cfg \<and> kc_server cfg = trim_slashes api \<and>
      (ke_scheme env api = Inr ''http'' \<or> ke_scheme env api = Inr ''https'')
    else kc_bearer_token cfg \<noteq> None \<and> (isl (in_cluster env) \<or> prefix ''https://'' (kc_server cfg) \<and> \<not> kc_insecure cfg)"
proof (cases "path = []")
  case False
  then obtain c where c: "from_kubeconfig env path = Inr c" and cfg: "kc_bearer_token cfg = kc_bearer_token c"
      "api = [] \<or> kc_server cfg = trim_slashes api"
    using assms by (auto simp: resolve_def from_api_url_def split: if_splits sum.splits)
  from from_kubeconfig_ok [OF c] cfg False show ?thesis by auto
next
  case True
  show ?thesis
  proof (cases "api = []")
    case False
    with True assms show ?thesis by (auto simp: resolve_def from_api_url_def split: sum.splits if_splits)
  next
    case api: True
    show ?thesis
    proof (cases "in_cluster env")
      case (Inl e)
      with assms True api have "\<exists>p. from_kubeconfig env p = Inr cfg" by (auto simp: resolve_def split: option.splits if_splits)
      with Inl True api show ?thesis by (auto dest: from_kubeconfig_ok)
    next
      case (Inr c)
      then have "kc_bearer_token c \<noteq> None" "prefix ''https://'' (kc_server c)" "\<not> kc_insecure c"
        by (auto simp: in_cluster_def in_cluster_with_def split: option.splits sum.splits)
      with Inr assms True api show ?thesis by (simp add: resolve_def)
    qed
  qed
qed

definition sample_kube_env :: kube_env where
  "sample_kube_env =
     \<lparr>ke_var = [''KUBERNETES_SERVICE_HOST'' \<mapsto> ''fd00::1'', ''KUBERNETES_SERVICE_PORT'' \<mapsto> ''443''],
      ke_read = (\<lambda>p. Inr ''token ''), ke_exists = (\<lambda>_. False), ke_scheme = (\<lambda>_. Inr ''http''),
      ke_yaml = (\<lambda>_. Inl ''no yaml'')\<rparr>"

theorem resolve_sources_witness:
  "\<exists>cfg. resolve sample_kube_env [] [] = Inr cfg \<and> kc_server cfg = ''https://[fd00::1]:443'' \<and>
     kc_bearer_token cfg = Some ''token'' \<and> prefix ''https://'' (kc_server cfg)"
proof -
  let ?cfg = "\<lparr>kc_server = ''https://[fd00::1]:443'', kc_bearer_token = Some ''token'', kc_ca_path = None, kc_insecure = False\<rparr>"
  have c: "resolve sample_kube_env [] [] = Inr ?cfg" "\<not> isl (in_cluster sample_kube_env)" by code_simp+
  with resolve_sources [OF c(1)] show ?thesis by simp
qed

end
