(* ===== verification/KubeManager.thy ===== *)
theory KubeManager
  imports Apiserver Acquire Hub
begin

text \<open>
  How the Kubernetes subnet manager is made (\<open>subnet/kube/mod.rs\<close>: \<open>new_subnet_manager\<close> and
  \<open>new_kube_subnet_manager\<close>) and how a session of the watch (\<open>kube/watch.rs\<close>) drives its informer.
\<close>

section \<open>The constructor\<close>

text \<open>\<open>Semaphore::MAX_PERMITS\<close> on a 64-bit machine; a channel with a larger buffer panics.\<close>

definition MAX_PERMITS :: nat where "MAX_PERMITS = 2 ^ 61 - 1"

datatype manager_error =
    NodeName node_name_error
  | ReadConf string
  | ParseConf config_error
  | Annotations kube_error
  | QueueDepth string
  | SyncFailed sync_error

record 'l subnet_manager =
  sm_client :: 'l
  sm_kube :: kube_manager
  sm_annotation_prefix :: string
  sm_enable_ipv4 :: bool
  sm_enable_ipv6 :: bool
  sm_informer :: informer
  sm_queue_capacity :: nat
  sm_hub :: hub
  sm_semaphore :: nat
  sm_set_node_network_unavailable :: bool

text \<open>The environment: variables (empty when unset), the file of the configuration, the JSON library, the request for the
  pod, and the rounds of the wait for the informer.\<close>

record 'l manager_world =
  mw_var :: "string \<Rightarrow> string"
  mw_net_conf :: "string \<Rightarrow> string + string"
  mw_members :: "string \<Rightarrow> string + member list"
  mw_parse :: "string \<Rightarrow> string + json"
  mw_type_error :: type_error
  mw_get_pod :: "'l \<Rightarrow> string \<Rightarrow> string \<Rightarrow> string option option"
  mw_now :: nat
  mw_rounds :: "bool attempt list"

datatype manager_task = FanOut | NodeInformer

text \<open>Making the manager can fail or panic; waiting for the sync may not be over yet.\<close>

datatype 'a start_outcome = Started 'a | Refused manager_error | ChannelPanic | StillWaiting

definition new_kube_subnet_manager ::
  "'l manager_world \<Rightarrow> 'l \<Rightarrow> config \<Rightarrow> string \<Rightarrow> string \<Rightarrow> 'l subnet_manager start_outcome" where
  "new_kube_subnet_manager mw client config node_name key_prefix =
     (case new_annotations key_prefix of
        Inl e \<Rightarrow> Refused (Annotations e)
      | Inr annotations \<Rightarrow>
          (case event_queue_depth (mw_var mw ''EVENT_QUEUE_DEPTH'') of
             Inl e \<Rightarrow> Refused (QueueDepth e)
           | Inr scale \<Rightarrow>
               if scale > MAX_PERMITS then ChannelPanic
               else Started
                 \<lparr>sm_client = client,
                  sm_kube = \<lparr>km_config = config, km_node_name = node_name, km_annotations = annotations,
                    km_disable_node_informer = (cfg_backend_type config = ''alloc'')\<rparr>,
                  sm_annotation_prefix = key_prefix, sm_enable_ipv4 = cfg_enable_ipv4 config,
                  sm_enable_ipv6 = cfg_enable_ipv6 config, sm_informer = informer_start, sm_queue_capacity = scale,
                  sm_hub = hub_new scale, sm_semaphore = ASYNC_SEND_SLOTS, sm_set_node_network_unavailable = False\<rparr>))"

text \<open>The tasks that were spawned and how the constructor ended.\<close>

definition new_subnet_manager ::
  "'l manager_world \<Rightarrow> 'l \<Rightarrow> string \<Rightarrow> string \<Rightarrow> bool \<Rightarrow> manager_task list \<times> 'l subnet_manager start_outcome" where
  "new_subnet_manager mw client key_prefix net_conf_path set_unavailable =
     (case resolve_node_name (mw_var mw ''NODE_NAME'') (mw_var mw ''POD_NAME'') (mw_var mw ''POD_NAMESPACE'') (mw_get_pod mw client) of
        Inl e \<Rightarrow> ([], Refused (NodeName e))
      | Inr node_name \<Rightarrow>
     (case mw_net_conf mw net_conf_path of
        Inl e \<Rightarrow> ([], Refused (ReadConf e))
      | Inr net_conf \<Rightarrow>
     (case parse_config (mw_members mw) (mw_parse mw) (mw_type_error mw) net_conf of
        Inl e \<Rightarrow> ([], Refused (ParseConf e))
      | Inr config \<Rightarrow>
     (case new_kube_subnet_manager mw client config node_name key_prefix of
        Started sm \<Rightarrow>
          (let sm = sm\<lparr>sm_set_node_network_unavailable := set_unavailable\<rparr> in
           if km_disable_node_informer (sm_kube sm) then ([], Started sm)
           else ([FanOut, NodeInformer],
             case wait_synced (mw_now mw + NODE_CONTROLLER_SYNC_TIMEOUT) (mw_rounds mw) of
               None \<Rightarrow> StillWaiting
             | Some (Inl e) \<Rightarrow> Refused (SyncFailed e)
             | Some (Inr _) \<Rightarrow> Started sm))
      | Refused e \<Rightarrow> ([], Refused e)
      | ChannelPanic \<Rightarrow> ([], ChannelPanic)
      | StillWaiting \<Rightarrow> ([], StillWaiting)))))"

lemma wait_synced_ok: "wait_synced deadline rounds = Some (Inr ()) \<Longrightarrow> \<exists>a \<in> set rounds. at_reply a"
  by (induction rounds) (auto split: if_splits)

lemma new_kube_subnet_manager_ok:
  "new_kube_subnet_manager mw client config node_name key_prefix = Started sm \<Longrightarrow>
   new_annotations key_prefix = Inr (km_annotations (sm_kube sm)) \<and> km_config (sm_kube sm) = config \<and>
   km_node_name (sm_kube sm) = node_name \<and>
   km_disable_node_informer (sm_kube sm) = (cfg_backend_type config = ''alloc'') \<and>
   sm_enable_ipv4 sm = cfg_enable_ipv4 config \<and> sm_enable_ipv6 sm = cfg_enable_ipv6 config \<and>
   0 < sm_queue_capacity sm \<and> sm_queue_capacity sm \<le> MAX_PERMITS \<and> sm_hub sm = hub_new (sm_queue_capacity sm) \<and>
   sm_informer sm = informer_start"
  by (auto simp: new_kube_subnet_manager_def event_queue_depth_def DEFAULT_EVENT_QUEUE_DEPTH_def
      split: sum.splits if_splits option.splits)

text \<open>A manager that was made has the name of its node, the configuration of the file and the keys of the prefix; it
  runs its two tasks, and its store was seen in sync, unless the backend is alloc, which has neither.\<close>

theorem manager_started:
  assumes "new_subnet_manager mw client key_prefix path flag = (tasks, Started sm)"
  shows "km_node_name (sm_kube sm) \<noteq> [] \<and> new_annotations key_prefix = Inr (km_annotations (sm_kube sm)) \<and>
    (\<exists>text. mw_net_conf mw path = Inr text \<and>
       parse_config (mw_members mw) (mw_parse mw) (mw_type_error mw) text = Inr (km_config (sm_kube sm))) \<and>
    sm_set_node_network_unavailable sm = flag \<and> sm_hub sm = hub_new (sm_queue_capacity sm) \<and> 0 < sm_queue_capacity sm \<and>
    (if cfg_backend_type (km_config (sm_kube sm)) = ''alloc'' then tasks = [] \<and> km_disable_node_informer (sm_kube sm)
     else tasks = [FanOut, NodeInformer] \<and> \<not> km_disable_node_informer (sm_kube sm) \<and> (\<exists>a \<in> set (mw_rounds mw). at_reply a))"
proof -
  obtain name conf config sm0 where
      name: "resolve_node_name (mw_var mw ''NODE_NAME'') (mw_var mw ''POD_NAME'') (mw_var mw ''POD_NAMESPACE'') (mw_get_pod mw client) = Inr name"
    and conf: "mw_net_conf mw path = Inr conf"
    and config: "parse_config (mw_members mw) (mw_parse mw) (mw_type_error mw) conf = Inr config"
    and sm0: "new_kube_subnet_manager mw client config name key_prefix = Started sm0"
    using assms by (auto simp: new_subnet_manager_def split: sum.splits start_outcome.splits)
  have "name \<noteq> []" using name by (auto simp: resolve_node_name_def split: if_splits option.splits)
  with assms name conf config sm0 new_kube_subnet_manager_ok [OF sm0] show ?thesis
    by (auto simp: new_subnet_manager_def Let_def split: if_splits option.splits sum.splits dest: wait_synced_ok)
qed

text \<open>A queue depth beyond what the channel can hold is accepted by the parser and panics.\<close>

lemma queue_depth_panics:
  assumes "mw_var mw ''EVENT_QUEUE_DEPTH'' = ''2305843009213693952''" and "new_annotations key_prefix = Inr a"
  shows "new_kube_subnet_manager mw client config name key_prefix = ChannelPanic"
proof -
  have "event_queue_depth ''2305843009213693952'' = Inr (2 ^ 61)" by code_simp
  with assms show ?thesis by (simp add: new_kube_subnet_manager_def MAX_PERMITS_def)
qed

section \<open>A session of the watch\<close>

text \<open>What the informer gets from a stream: its frames, then how it ended.\<close>

definition session_inputs :: "(watch_event_type \<times> node) list \<times> client_error option \<Rightarrow> inf_input list" where
  "session_inputs stream =
     map (\<lambda>(t, n). Frame t n) (fst stream) @
     [case snd stream of None \<Rightarrow> StreamEnd | Some Gone \<Rightarrow> FrameGone | Some _ \<Rightarrow> FrameErr]"

fun informer_run :: "event_env \<Rightarrow> (node_store \<Rightarrow> string list) \<Rightarrow> inf_input list \<Rightarrow> informer \<Rightarrow> informer option" where
  "informer_run env iter [] st = Some st"
| "informer_run env iter (i # inps) st = Option.bind (informer_step env iter st i) (informer_run env iter inps)"

lemma informer_run_append:
  "informer_run env iter (inps @ js) st = Option.bind (informer_run env iter inps st) (informer_run env iter js)"
proof (induction inps arbitrary: st)
  case (Cons i inps)
  then show ?case by (cases "informer_step env iter st i") (simp_all del: informer_step.simps)
qed simp

lemma informer_run_frames:
  "inf_phase st = Watching \<Longrightarrow> \<exists>st'. informer_run env iter (map (\<lambda>(t, n). Frame t n) evs) st = Some st' \<and> inf_phase st' = Watching"
  by (induction evs arbitrary: st) (auto split: prod.splits)

lemma session_ends:
  assumes "inf_phase st = Watching"
  shows "\<exists>st'. informer_run env iter (session_inputs stream) st = Some st' \<and> inf_phase st' = RelistWait"
proof -
  obtain st1 where st1: "informer_run env iter (map (\<lambda>(t, n). Frame t n) (fst stream)) st = Some st1" "inf_phase st1 = Watching"
    using informer_run_frames [OF assms] by blast
  then show ?thesis
    by (auto simp: session_inputs_def informer_run_append split: option.splits client_error.splits)
qed


section \<open>Examples\<close>

definition sample_world :: "unit manager_world" where
  "sample_world =
     \<lparr>mw_var = (\<lambda>n. if n = ''NODE_NAME'' then ''node1'' else []), mw_net_conf = (\<lambda>_. Inr ''{}''), mw_members = (\<lambda>_. Inr []),
      mw_parse = (\<lambda>_. Inl ''no json''), mw_type_error = (\<lambda>s _. s), mw_get_pod = (\<lambda>_ _ _. None), mw_now = 0,
      mw_rounds = [\<lparr>at_reply = False, at_cancelled = False, at_now = 10, at_slept = True\<rparr>,
        \<lparr>at_reply = True, at_cancelled = False, at_now = 1010, at_slept = True\<rparr>]\<rparr>"

theorem manager_started_witness:
  "\<exists>sm. new_subnet_manager sample_world () ''flannel.alpha.coreos.com'' ''net-conf.json'' True = ([FanOut, NodeInformer], Started sm) \<and>
     km_node_name (sm_kube sm) \<noteq> [] \<and> sm_hub sm = hub_new (sm_queue_capacity sm) \<and> 0 < sm_queue_capacity sm"
proof -
  let ?r = "new_subnet_manager sample_world () ''flannel.alpha.coreos.com'' ''net-conf.json'' True"
  have "case ?r of (ts, Started sm) \<Rightarrow> ts = [FanOut, NodeInformer] | _ \<Rightarrow> False" by code_simp
  then obtain sm where sm: "?r = ([FanOut, NodeInformer], Started sm)" by (auto split: prod.splits start_outcome.splits)
  from manager_started [OF sm] sm show ?thesis by auto
qed

definition sample_parse :: "string \<Rightarrow> string + json" where
  "sample_parse t =
     (if t = ''frame''
      then Inr (JObject [(''type'', JString ''ADDED''), (''object'', JObject [(''metadata'', JObject [(''name'', JString ''n1'')])])])
      else Inl ''no json'')"


end
