(* ===== verification/Tencent.thy ===== *)
theory Tencent
  imports Backends Status World "HOL-Library.Countable"
begin

text \<open>
  The tencent-vpc backend (\<open>backend/tencentvpc\<close>): the region and the VPC of the machine from the metadata service, the
  signed requests of the VPC API, and the route of the lease in the first route table. HTTP, the clock, the
  environment, the URL parser, JSON text, SHA-256 and HMAC are parameters; a text is its bytes.
\<close>

section \<open>Metadata\<close>

definition DEFAULT_METADATA_BASE :: string where "DEFAULT_METADATA_BASE = ''http://metadata.tencentyun.com''"

text \<open>A reply: the status, and the body or the error of reading it.\<close>

record 's tencent_os =
  to_get :: "string \<Rightarrow> ('s, string, nat \<times> (string + string)) step"
  to_post :: "string \<Rightarrow> (string \<times> string) list \<Rightarrow> string \<Rightarrow> ('s, string, json) step"
  to_now :: "'s \<Rightarrow> string + int"
  to_var :: "string \<Rightarrow> string"
  to_url :: "string \<Rightarrow> string + (string option \<times> nat option)"
  to_json_text :: "json \<Rightarrow> string"
  to_type_error :: type_error
  to_sha256 :: "u8 list \<Rightarrow> u8 list"
  to_hmac :: "u8 list \<Rightarrow> u8 list \<Rightarrow> u8 list"

definition get_vm_metadata :: "'s tencent_os \<Rightarrow> string \<Rightarrow> ('s, string, string) step" where
  "get_vm_metadata os url =
     then_do (on_err (\<lambda>e. ''get vm region error: '' @ e) (to_get os url)) (\<lambda>(status, body).
     if status \<noteq> 200 then lift_result (Inl ''get vm region error: <nil>'') else lift_result body)"

definition get_vm_region :: "'s tencent_os \<Rightarrow> string \<Rightarrow> ('s, string, string) step" where
  "get_vm_region os base = get_vm_metadata os (base @ ''/latest/meta-data/placement/region'')"

definition get_vm_vpcid :: "'s tencent_os \<Rightarrow> string \<Rightarrow> ('s, string, string) step" where
  "get_vm_vpcid os base =
     then_do (on_err (\<lambda>e. ''get vm mac error: '' @ e) (get_vm_metadata os (base @ ''/latest/meta-data/mac''))) (\<lambda>mac.
     on_err (\<lambda>e. ''get vm vpcid error: '' @ e)
       (get_vm_metadata os (base @ ''/latest/meta-data/network/interfaces/macs/'' @ mac @ ''/vpc-id'')))"

section \<open>Signatures\<close>

definition hex :: "u8 list \<Rightarrow> string" where
  "hex bs = concat (map show_hex2 bs)"

definition sha256_hex :: "'s tencent_os \<Rightarrow> string \<Rightarrow> string" where
  "sha256_hex os data = hex (to_sha256 os (text_bytes data))"

text \<open>The clock is not before the epoch where this is used, so the year is not negative.\<close>

definition utc_date :: "int \<Rightarrow> string" where
  "utc_date timestamp =
     (let z = timestamp div 86400 + 719468;
          era = z div 146097;
          doe = z mod 146097;
          yoe = (doe - doe div 1460 + doe div 36524 - doe div 146096) div 365;
          doy = doe - (365 * yoe + yoe div 4 - yoe div 100);
          mp = (5 * doy + 2) div 153;
          day = doy - (153 * mp + 2) div 5 + 1;
          month = (if mp < 10 then mp + 3 else mp - 9);
          year = era * 400 + yoe + (if month \<le> 2 then 1 else 0)
      in pad 4 year @ ''-'' @ pad 2 month @ ''-'' @ pad 2 day)"

definition tc3_signature :: "'s tencent_os \<Rightarrow> string \<Rightarrow> string \<Rightarrow> string \<Rightarrow> int \<Rightarrow> string \<Rightarrow> string \<times> string" where
  "tc3_signature os secret_key service host timestamp payload =
     (let date = utc_date timestamp;
          canonical_request = join_with [newline] [''POST'', ''/'', [], ''content-type:application/json'', ''host:'' @ host, [],
            ''content-type;host'', sha256_hex os payload];
          string_to_sign = join_with [newline] [''TC3-HMAC-SHA256'', show_int timestamp, date @ ''/'' @ service @ ''/tc3_request'',
            sha256_hex os canonical_request];
          k_date = to_hmac os (text_bytes (''TC3'' @ secret_key)) (text_bytes date);
          k_service = to_hmac os k_date (text_bytes service);
          k_signing = to_hmac os k_service (text_bytes ''tc3_request'')
      in (date, hex (to_hmac os k_signing (text_bytes string_to_sign))))"

text \<open>The date of a signature is the date of the time stamps that the node status carries.\<close>

lemma utc_date_civil:
  assumes "0 \<le> t"
  shows "utc_date t = (case civil_from_days (t div 86400) of (y, m, d) \<Rightarrow> pad 4 y @ ''-'' @ pad 2 m @ ''-'' @ pad 2 d)"
proof -
  define z where "z = t div 86400 + 719468"
  have era: "(if z \<ge> 0 then z else z - 146096) = z"
    using assms by (simp add: z_def pos_imp_zdiv_nonneg_iff)
  have doe: "z - z div 146097 * 146097 = z mod 146097" by (simp add: minus_div_mult_eq_mod)
  have year: "(if P then y + e * 400 + 1 else y + e * 400) = e * 400 + y + (if P then 1 else 0)" for P and y e :: int by simp
  show ?thesis
    unfolding utc_date_def civil_from_days_def z_def [symmetric] by (simp only: Let_def era doe year prod.case)
qed

lemma utc_date_rfc3339:
  assumes "0 \<le> t"
  shows "\<exists>time. rfc3339_utc t = utc_date t @ ''T'' @ time"
  using assms by (auto simp: rfc3339_utc_def utc_date_civil Let_def max_def split: prod.splits)

section \<open>The VPC API\<close>

definition DEFAULT_VPC_ENDPOINT :: string where "DEFAULT_VPC_ENDPOINT = ''https://vpc.tencentcloudapi.com''"
definition VPC_API_VERSION :: string where "VPC_API_VERSION = ''2017-03-12''"
definition SERVICE :: string where "SERVICE = ''vpc''"
definition GATEWAY_TYPE :: string where "GATEWAY_TYPE = ''NORMAL_CVM''"
definition ROUTE_TYPE :: string where "ROUTE_TYPE = ''USER''"

record vpc_route =
  vr_route_id :: string
  vr_destination_cidr_block :: string
  vr_gateway_id :: string
  vr_gateway_type :: string
  vr_route_type :: string
  vr_enabled :: bool

record vpc_route_table =
  vt_route_table_id :: string
  vt_route_set :: "vpc_route list"

definition vpc_route_of :: "type_error \<Rightarrow> json \<Rightarrow> string + vpc_route" where
  "vpc_route_of te v =
     rbind (struct_members te ''Route'' [''RouteId'', ''DestinationCidrBlock'', ''GatewayId'', ''GatewayType'', ''RouteType'', ''Enabled''] v) (\<lambda>f.
     rbind (de_required (de_string te) te v (f 0)) (\<lambda>rid.
     rbind (de_required (de_string te) te v (f 1)) (\<lambda>dst.
     rbind (de_required (de_string te) te v (f 2)) (\<lambda>gw.
     rbind (de_required (de_string te) te v (f 3)) (\<lambda>gwt.
     rbind (de_required (de_string te) te v (f 4)) (\<lambda>rt.
     rbind (de_required (de_bool te) te v (f 5)) (\<lambda>en.
     Inr \<lparr>vr_route_id = rid, vr_destination_cidr_block = dst, vr_gateway_id = gw, vr_gateway_type = gwt,
       vr_route_type = rt, vr_enabled = en\<rparr>)))))))"

definition vpc_route_table_of :: "type_error \<Rightarrow> json \<Rightarrow> string + vpc_route_table" where
  "vpc_route_table_of te v =
     rbind (struct_members te ''RouteTable'' [''RouteTableId'', ''RouteSet''] v) (\<lambda>f.
     rbind (de_required (de_string te) te v (f 0)) (\<lambda>tid.
     rbind (de_field [] (de_vec (vpc_route_of te) te) (f 1)) (\<lambda>routes.
     Inr \<lparr>vt_route_table_id = tid, vt_route_set = routes\<rparr>)))"

definition route_tables_payload_of :: "type_error \<Rightarrow> json \<Rightarrow> string + vpc_route_table list" where
  "route_tables_payload_of te v =
     rbind (struct_members te ''DescribeRouteTablesPayload'' [''RouteTableSet''] v) (\<lambda>f.
     de_field [] (de_vec (vpc_route_table_of te) te) (f 0))"

definition api_error_of :: "type_error \<Rightarrow> json \<Rightarrow> string + (string \<times> string)" where
  "api_error_of te v =
     rbind (struct_members te ''ApiError'' [''Code'', ''Message''] v) (\<lambda>f.
     rbind (de_required (de_string te) te v (f 0)) (\<lambda>code.
     rbind (de_required (de_string te) te v (f 1)) (\<lambda>message.
     Inr (code, message))))"

record vpc_client =
  vc_secret_id :: string
  vc_secret_key :: string
  vc_region :: string
  vc_endpoint :: string
  vc_host :: string

definition vpc_client_new :: "'s tencent_os \<Rightarrow> string \<Rightarrow> string \<Rightarrow> string \<Rightarrow> string \<Rightarrow> string + vpc_client" where
  "vpc_client_new os secret_id secret_key region endpoint =
     rbind (to_url os endpoint) (\<lambda>(host, port).
     case host of
       None \<Rightarrow> Inl (''endpoint has no host: '' @ endpoint)
     | Some h \<Rightarrow>
         Inr \<lparr>vc_secret_id = secret_id, vc_secret_key = secret_key, vc_region = region, vc_endpoint = endpoint,
           vc_host = (case port of Some p \<Rightarrow> h @ '':'' @ show_nat p | None \<Rightarrow> h)\<rparr>)"

definition authorization :: "vpc_client \<Rightarrow> string \<Rightarrow> string \<Rightarrow> string" where
  "authorization client date signature =
     ''TC3-HMAC-SHA256 Credential='' @ vc_secret_id client @ ''/'' @ date @ ''/'' @ SERVICE @
     ''/tc3_request, SignedHeaders=content-type;host, Signature='' @ signature"

text \<open>\<open>Value::get\<close> with a key.\<close>

definition member_of :: "json \<Rightarrow> string \<Rightarrow> json option" where
  "member_of v key = (case v of JObject ms \<Rightarrow> map_of ms key | _ \<Rightarrow> None)"

text \<open>The object \<open>Response\<close> of a reply, unless it holds an error.\<close>

definition read_envelope :: "'s tencent_os \<Rightarrow> json \<Rightarrow> string + json" where
  "read_envelope os envelope =
     (case member_of envelope ''Response'' of
        None \<Rightarrow> Inl (''API response missing '' @ [CHR 0x22] @ ''Response'' @ [CHR 0x22] @ '' field: '' @ to_json_text os envelope)
      | Some response \<Rightarrow>
          (case member_of response ''Error'' of
             None \<Rightarrow> Inr response
           | Some error \<Rightarrow>
               rbind (api_error_of (to_type_error os) error) (\<lambda>(code, message).
               Inl (''Tencent Cloud API error. Code: '' @ code @ '', Message: '' @ message))))"

definition vpc_headers :: "vpc_client \<Rightarrow> string \<Rightarrow> int \<Rightarrow> string \<Rightarrow> (string \<times> string) list" where
  "vpc_headers client action timestamp auth =
     [(''Content-Type'', ''application/json''), (''Host'', vc_host client), (''X-TC-Action'', action),
      (''X-TC-Version'', VPC_API_VERSION), (''X-TC-Timestamp'', show_int timestamp), (''X-TC-Region'', vc_region client),
      (''Authorization'', auth)]"

definition vpc_send :: "'s tencent_os \<Rightarrow> vpc_client \<Rightarrow> string \<Rightarrow> json \<Rightarrow> ('s, string, json) step" where
  "vpc_send os client action payload s =
     (let body = to_json_text os payload in
      case to_now os s of
        Inl e \<Rightarrow> (s, Inl (''system clock before unix epoch: '' @ e))
      | Inr timestamp \<Rightarrow>
          (let (date, signature) = tc3_signature os (vc_secret_key client) SERVICE (vc_host client) timestamp body in
           then_do (to_post os (vc_endpoint client) (vpc_headers client action timestamp (authorization client date signature)) body)
             (\<lambda>envelope. lift_result (read_envelope os envelope)) s))"

definition describe_payload :: "string \<Rightarrow> json" where
  "describe_payload vpc_id =
     JObject [(''Filters'', JArray [JObject [(''Name'', JString ''vpc-id''), (''Values'', JArray [JString vpc_id])]])]"

definition describe_route_tables :: "'s tencent_os \<Rightarrow> vpc_client \<Rightarrow> string \<Rightarrow> ('s, string, vpc_route_table list) step" where
  "describe_route_tables os client vpc_id =
     then_do (vpc_send os client ''DescribeRouteTables'' (describe_payload vpc_id)) (\<lambda>response.
     lift_result (route_tables_payload_of (to_type_error os) response))"

text \<open>The members of an object are in the order of their keys.\<close>

definition create_payload :: "string \<Rightarrow> string \<Rightarrow> string \<Rightarrow> json" where
  "create_payload route_table_id dst_cidr gateway_id =
     JObject [(''RouteTableId'', JString route_table_id),
       (''Routes'', JArray [JObject [(''DestinationCidrBlock'', JString dst_cidr), (''Enabled'', JBool True),
          (''GatewayId'', JString gateway_id), (''GatewayType'', JString GATEWAY_TYPE)]])]"

definition create_routes :: "'s tencent_os \<Rightarrow> vpc_client \<Rightarrow> string \<Rightarrow> string \<Rightarrow> string \<Rightarrow> ('s, string, unit) step" where
  "create_routes os client route_table_id dst_cidr gateway_id =
     then_do (vpc_send os client ''CreateRoutes'' (create_payload route_table_id dst_cidr gateway_id)) (\<lambda>_. give ())"

definition delete_payload :: "string \<Rightarrow> string \<Rightarrow> json" where
  "delete_payload route_table_id route_id =
     JObject [(''RouteTableId'', JString route_table_id), (''Routes'', JArray [JObject [(''RouteId'', JString route_id)]])]"

definition delete_routes :: "'s tencent_os \<Rightarrow> vpc_client \<Rightarrow> string \<Rightarrow> string \<Rightarrow> ('s, string, unit) step" where
  "delete_routes os client route_table_id route_id =
     then_do (vpc_send os client ''DeleteRoutes'' (delete_payload route_table_id route_id)) (\<lambda>_. give ())"

section \<open>The backend\<close>

definition is_managed :: "string \<Rightarrow> string \<Rightarrow> vpc_route \<Rightarrow> bool" where
  "is_managed sn gateway r \<longleftrightarrow>
     vr_destination_cidr_block r = sn \<and> vr_gateway_id r = gateway \<and> vr_gateway_type r = GATEWAY_TYPE \<and> vr_route_type r = ROUTE_TYPE"

text \<open>The scan of the routes: disabled matches are deleted; the result is whether an enabled one was seen.\<close>

fun scan_routes ::
  "'s tencent_os \<Rightarrow> vpc_client \<Rightarrow> string \<Rightarrow> string \<Rightarrow> string \<Rightarrow> vpc_route list \<Rightarrow> bool \<Rightarrow> ('s, string, bool) step" where
  "scan_routes os client tid sn gateway [] seen = give seen"
| "scan_routes os client tid sn gateway (r # rs) seen =
     (if is_managed sn gateway r then
        (if vr_enabled r then scan_routes os client tid sn gateway rs True
         else then_do (delete_routes os client tid (vr_route_id r)) (\<lambda>_. scan_routes os client tid sn gateway rs seen))
      else scan_routes os client tid sn gateway rs seen)"

definition reconcile_routes :: "'s tencent_os \<Rightarrow> vpc_client \<Rightarrow> vpc_route_table \<Rightarrow> string \<Rightarrow> string \<Rightarrow> ('s, string, unit) step" where
  "reconcile_routes os client vt sn gateway =
     then_do (scan_routes os client (vt_route_table_id vt) sn gateway (vt_route_set vt) False) (\<lambda>seen.
     if seen then give () else create_routes os client (vt_route_table_id vt) sn gateway)"

record vpc_config =
  vb_access_key_id :: string
  vb_access_key_secret :: string

definition vpc_config_of :: "type_error \<Rightarrow> json \<Rightarrow> string + vpc_config" where
  "vpc_config_of te v =
     rbind (struct_members te ''BackendConfig'' [''AccessKeyID'', ''AccessKeySecret''] v) (\<lambda>f.
     rbind (de_field [] (de_string te) (f 0)) (\<lambda>key_id.
     rbind (de_field [] (de_string te) (f 1)) (\<lambda>secret.
     Inr \<lparr>vb_access_key_id = key_id, vb_access_key_secret = secret\<rparr>)))"

definition parse_backend_config :: "reg_env \<Rightarrow> type_error \<Rightarrow> config \<Rightarrow> err + vpc_config" where
  "parse_backend_config env te config =
     (case cfg_backend config of
        Some raw \<Rightarrow>
          if raw \<noteq> [] then
            (case rbind (re_parse env raw) (vpc_config_of te) of
               Inl e \<Rightarrow> Inl [''error decoding VPC backend config: '' @ e]
             | Inr cfg \<Rightarrow> Inr cfg)
          else Inr \<lparr>vb_access_key_id = [], vb_access_key_secret = []\<rparr>
      | None \<Rightarrow> Inr \<lparr>vb_access_key_id = [], vb_access_key_secret = []\<rparr>)"

text \<open>Both keys come from the configuration, or both from the environment.\<close>

definition access_keys :: "'s tencent_os \<Rightarrow> vpc_config \<Rightarrow> err + vpc_config" where
  "access_keys os cfg =
     (if vb_access_key_id cfg = [] \<or> vb_access_key_secret cfg = [] then
        (let cfg = \<lparr>vb_access_key_id = to_var os ''ACCESS_KEY_ID'', vb_access_key_secret = to_var os ''ACCESS_KEY_SECRET''\<rparr> in
         if vb_access_key_id cfg = [] \<or> vb_access_key_secret cfg = []
         then Inl [''ACCESS_KEY_ID and ACCESS_KEY_SECRET must be provided! '']
         else Inr cfg)
      else Inr cfg)"

definition vpc_register_network_with ::
  "'s tencent_os \<Rightarrow> ('s \<Rightarrow> netlink) \<Rightarrow> reg_env \<Rightarrow> external_interface \<Rightarrow> config \<Rightarrow> string \<Rightarrow> string \<Rightarrow> ('s, err, simple_network) step" where
  "vpc_register_network_with os nl env ei config metadata_base vpc_endpoint =
     (then_do (lift_result (parse_backend_config env (to_type_error os) config)) (\<lambda>cfg.
      then_do (lift_result (ext_addr_ip4 ei)) (\<lambda>ext_ip.
      then_do (lift_result (acquire_or_fail env (lease_attrs_default\<lparr>public_ip := ext_ip\<rparr>))) (\<lambda>l.
      then_do (lift_result (access_keys os cfg)) (\<lambda>cfg.
      then_do (on_err (\<lambda>e. [e]) (get_vm_region os metadata_base)) (\<lambda>region.
      then_do (on_err (\<lambda>e. [e]) (get_vm_vpcid os metadata_base)) (\<lambda>vpc_id.
      then_do (on_err (\<lambda>e. [e]) (lift_result (vpc_client_new os (vb_access_key_id cfg) (vb_access_key_secret cfg) region vpc_endpoint))) (\<lambda>client.
      then_do (on_err (\<lambda>e. [e]) (describe_route_tables os client vpc_id)) (\<lambda>tables.
      if tables = [] then lift_result (Inl [''no suitable routing table found''])
      else
        then_do (on_err (\<lambda>e. [e]) (reconcile_routes os client (hd tables) (n4_to_string (subnet l)) (ip4_to_string ext_ip))) (\<lambda>_.
        then_do (\<lambda>s. (s, get_link_mtu (nl s) (ei_iface_index ei))) (\<lambda>mtu.
        give \<lparr>sn_lease = l, sn_mtu = mtu\<rparr>)))))))))))"

definition vpc_register_network where
  "vpc_register_network os nl env ei config = vpc_register_network_with os nl env ei config DEFAULT_METADATA_BASE DEFAULT_VPC_ENDPOINT"

section \<open>The route of the lease\<close>

definition stale_route :: "string \<Rightarrow> string \<Rightarrow> vpc_route \<Rightarrow> bool" where
  "stale_route sn gateway r \<longleftrightarrow> is_managed sn gateway r \<and> \<not> vr_enabled r"

definition live_route :: "string \<Rightarrow> string \<Rightarrow> vpc_route \<Rightarrow> bool" where
  "live_route sn gateway r \<longleftrightarrow> is_managed sn gateway r \<and> vr_enabled r"

definition new_route :: "string \<Rightarrow> string \<Rightarrow> string \<Rightarrow> vpc_route" where
  "new_route rid sn gateway =
     \<lparr>vr_route_id = rid, vr_destination_cidr_block = sn, vr_gateway_id = gateway, vr_gateway_type = GATEWAY_TYPE,
      vr_route_type = ROUTE_TYPE, vr_enabled = True\<rparr>"

text \<open>The abstract effect: the disabled routes of the lease are gone, and one is added when no enabled one was there.\<close>

definition reconciled :: "string \<Rightarrow> string \<Rightarrow> vpc_route list \<Rightarrow> string \<Rightarrow> vpc_route list" where
  "reconciled sn gateway rs rid =
     filter (\<lambda>r. \<not> stale_route sn gateway r) rs @ (if list_ex (live_route sn gateway) rs then [] else [new_route rid sn gateway])"

text \<open>What the client relies on: the requests succeed, a deletion removes the route with its id, and a creation appends
  an enabled route of the user with an id of its own.\<close>

locale vpc_table =
  fixes os :: "'s tencent_os" and client :: vpc_client and tid :: string and routes :: "'s \<Rightarrow> vpc_route list"
  assumes deletes: "\<exists>s'. delete_routes os client tid rid s = (s', Inr ()) \<and> routes s' = filter (\<lambda>r. vr_route_id r \<noteq> rid) (routes s)"
    and creates: "\<exists>s' rid. create_routes os client tid dst gw s = (s', Inr ()) \<and> routes s' = routes s @ [new_route rid dst gw]"
begin

lemma scan:
  "\<exists>s'. scan_routes os client tid sn gateway rs seen s = (s', Inr (seen \<or> list_ex (live_route sn gateway) rs)) \<and>
     routes s' = filter (\<lambda>r. vr_route_id r \<notin> vr_route_id ` set (filter (stale_route sn gateway) rs)) (routes s) \<and>
     (filter (stale_route sn gateway) rs = [] \<longrightarrow> s' = s)"
proof (induction rs arbitrary: seen s)
  case (Cons r rs)
  show ?case
  proof (cases "stale_route sn gateway r")
    case True
    obtain s1 where s1: "delete_routes os client tid (vr_route_id r) s = (s1, Inr ())"
        "routes s1 = filter (\<lambda>x. vr_route_id x \<noteq> vr_route_id r) (routes s)"
      using deletes by blast
    from Cons.IH [of seen s1] s1 True show ?thesis
      by (auto simp: stale_route_def live_route_def then_do_def intro!: filter_cong)
  next
    case False
    from Cons.IH [of "seen \<or> live_route sn gateway r" s] False show ?thesis
      by (auto simp: stale_route_def live_route_def)
  qed
qed simp

lemma reconcile:
  assumes "distinct (map vr_route_id (routes s))"
  shows "\<exists>s' rid. reconcile_routes os client \<lparr>vt_route_table_id = tid, vt_route_set = routes s\<rparr> sn gateway s = (s', Inr ()) \<and>
    routes s' = reconciled sn gateway (routes s) rid"
proof -
  have ids: "filter (\<lambda>r. vr_route_id r \<notin> vr_route_id ` set (filter (stale_route sn gateway) (routes s))) (routes s) =
      filter (\<lambda>r. \<not> stale_route sn gateway r) (routes s)"
    using assms by (auto simp: distinct_map inj_on_def intro!: filter_cong)
  obtain s1 where s1: "scan_routes os client tid sn gateway (routes s) False s = (s1, Inr (list_ex (live_route sn gateway) (routes s)))"
      "routes s1 = filter (\<lambda>r. \<not> stale_route sn gateway r) (routes s)"
    using scan [of sn gateway "routes s" False s] ids by auto
  show ?thesis
  proof (cases "list_ex (live_route sn gateway) (routes s)")
    case True
    with s1 show ?thesis by (simp add: reconcile_routes_def then_do_def reconciled_def)
  next
    case False
    obtain s2 rid where "create_routes os client tid sn gateway s1 = (s2, Inr ())" "routes s2 = routes s1 @ [new_route rid sn gateway]"
      using creates by blast
    with s1 False show ?thesis by (auto simp: reconcile_routes_def then_do_def reconciled_def)
  qed
qed

lemma reconcile_again:
  assumes "filter (stale_route sn gateway) (routes s) = []" and "list_ex (live_route sn gateway) (routes s)"
  shows "reconcile_routes os client \<lparr>vt_route_table_id = tid, vt_route_set = routes s\<rparr> sn gateway s = (s, Inr ())"
  using scan [of sn gateway "routes s" False s] assms by (auto simp: reconcile_routes_def then_do_def)

end

lemma reconciled_steady:
  "filter (stale_route sn gateway) (reconciled sn gateway rs rid) = []" "list_ex (live_route sn gateway) (reconciled sn gateway rs rid)"
proof -
  have "live_route sn gateway (new_route rid sn gateway)" "\<not> stale_route sn gateway (new_route rid sn gateway)"
    by (simp_all add: live_route_def stale_route_def is_managed_def new_route_def)
  moreover have "live_route sn gateway r \<Longrightarrow> \<not> stale_route sn gateway r" for r
    by (simp add: live_route_def stale_route_def)
  ultimately show "filter (stale_route sn gateway) (reconciled sn gateway rs rid) = []"
      "list_ex (live_route sn gateway) (reconciled sn gateway rs rid)"
    by (auto simp: reconciled_def list_ex_iff filter_empty_conv)
qed

section \<open>A cloud\<close>

text \<open>A service that meets the contract: one route table and the number of the next route. The text of a payload is the
  decimal number of the value, from which the service reads the value back.\<close>

instance json :: countable
  by countable_datatype

record vpc_cloud =
  cl_routes :: "vpc_route list"
  cl_next :: nat

definition payload_text :: "json \<Rightarrow> string" where
  "payload_text v = show_nat (to_nat v)"

definition payload_of :: "string \<Rightarrow> json" where
  "payload_of body = from_nat (digits_value 10 body)"

lemma payload_of_text [simp]: "payload_of (payload_text v) = v"
  by (simp add: payload_of_def payload_text_def digits_value_show_nat)

fun json_string :: "json option \<Rightarrow> string" where
  "json_string (Some (JString t)) = t"
| "json_string _ = []"

fun json_items :: "json option \<Rightarrow> json list" where
  "json_items (Some (JArray vs)) = vs"
| "json_items _ = []"

definition cloud_delete :: "json \<Rightarrow> vpc_cloud \<Rightarrow> vpc_cloud" where
  "cloud_delete item c = c\<lparr>cl_routes := filter (\<lambda>r. vr_route_id r \<noteq> json_string (member_of item ''RouteId'')) (cl_routes c)\<rparr>"

definition cloud_create :: "json \<Rightarrow> vpc_cloud \<Rightarrow> vpc_cloud" where
  "cloud_create item c =
     c\<lparr>cl_routes := cl_routes c @
         [\<lparr>vr_route_id = show_nat (cl_next c), vr_destination_cidr_block = json_string (member_of item ''DestinationCidrBlock''),
           vr_gateway_id = json_string (member_of item ''GatewayId''), vr_gateway_type = json_string (member_of item ''GatewayType''),
           vr_route_type = ROUTE_TYPE, vr_enabled = (member_of item ''Enabled'' = Some (JBool True))\<rparr>],
       cl_next := Suc (cl_next c)\<rparr>"

definition route_json :: "vpc_route \<Rightarrow> json" where
  "route_json r =
     JObject [(''RouteId'', JString (vr_route_id r)), (''DestinationCidrBlock'', JString (vr_destination_cidr_block r)),
       (''GatewayId'', JString (vr_gateway_id r)), (''GatewayType'', JString (vr_gateway_type r)),
       (''RouteType'', JString (vr_route_type r)), (''Enabled'', JBool (vr_enabled r))]"

definition cloud_tables :: "string \<Rightarrow> vpc_cloud \<Rightarrow> json" where
  "cloud_tables tid c =
     JObject [(''RouteTableSet'', JArray [JObject [(''RouteTableId'', JString tid), (''RouteSet'', JArray (map route_json (cl_routes c)))]])]"

definition cloud_post :: "string \<Rightarrow> string \<Rightarrow> (string \<times> string) list \<Rightarrow> string \<Rightarrow> (vpc_cloud, string, json) step" where
  "cloud_post tid url headers body c =
     (let items = json_items (member_of (payload_of body) ''Routes'') in
      case map_of headers ''X-TC-Action'' of
        Some action \<Rightarrow>
          if action = ''DeleteRoutes'' then (fold cloud_delete items c, Inr (JObject [(''Response'', JObject [])]))
          else if action = ''CreateRoutes'' then (fold cloud_create items c, Inr (JObject [(''Response'', JObject [])]))
          else (c, Inr (JObject [(''Response'', cloud_tables tid c)]))
      | None \<Rightarrow> (c, Inl ''no action''))"

definition cloud_os :: "string \<Rightarrow> vpc_cloud tencent_os" where
  "cloud_os tid =
     \<lparr>to_get = (\<lambda>_. give (200, Inr [])), to_post = cloud_post tid, to_now = (\<lambda>_. Inr 0), to_var = (\<lambda>_. []),
      to_url = (\<lambda>_. Inr (Some [], None)), to_json_text = payload_text, to_type_error = (\<lambda>_ _. ''invalid type''),
      to_sha256 = (\<lambda>bs. bs), to_hmac = (\<lambda>key bs. key @ bs)\<rparr>"

lemma cloud_deletes:
  "delete_routes (cloud_os tid) client t rid c =
     (c\<lparr>cl_routes := filter (\<lambda>r. vr_route_id r \<noteq> rid) (cl_routes c)\<rparr>, Inr ())"
  by (simp add: delete_routes_def vpc_send_def cloud_os_def cloud_post_def vpc_headers_def delete_payload_def member_of_def
      read_envelope_def cloud_delete_def then_do_def lift_result_def Let_def split: prod.split)

lemma cloud_creates:
  "create_routes (cloud_os tid) client t dst gw c =
     (c\<lparr>cl_routes := cl_routes c @ [new_route (show_nat (cl_next c)) dst gw], cl_next := Suc (cl_next c)\<rparr>, Inr ())"
  by (simp add: create_routes_def vpc_send_def cloud_os_def cloud_post_def vpc_headers_def create_payload_def member_of_def
      read_envelope_def cloud_create_def new_route_def then_do_def lift_result_def Let_def split: prod.split)

interpretation cloud: vpc_table "cloud_os tid" client tid cl_routes
  by unfold_locales (auto simp: cloud_deletes cloud_creates)

text \<open>The description of the cloud's table is read back as the table.\<close>

lemma route_json_read: "vpc_route_of te (route_json r) = Inr r"
  by (cases r) (simp add: vpc_route_of_def route_json_def struct_members_def de_required_def de_string_def de_bool_def)

lemma route_set_read: "de_list (vpc_route_of te) (map route_json rs) = Inr rs"
  by (induction rs) (simp_all add: route_json_read)

lemma cloud_describes:
  "describe_route_tables (cloud_os tid) client vpc_id c =
     (c, Inr [\<lparr>vt_route_table_id = tid, vt_route_set = cl_routes c\<rparr>])"
  by (simp add: describe_route_tables_def vpc_send_def cloud_os_def cloud_post_def vpc_headers_def describe_payload_def
      member_of_def read_envelope_def cloud_tables_def route_tables_payload_of_def vpc_route_table_of_def struct_members_def
      de_field_def de_vec_def de_required_def de_string_def route_set_read then_do_def lift_result_def Let_def split: prod.split)


text \<open>At the cloud with a disabled route of the lease and a route of another node.\<close>

definition sample_cloud :: vpc_cloud where
  "sample_cloud =
     \<lparr>cl_routes =
        [(new_route ''1'' ''10.5.1.0/24'' ''10.0.0.4'')\<lparr>vr_enabled := False\<rparr>, new_route ''2'' ''10.5.2.0/24'' ''10.0.0.5''],
      cl_next = 3\<rparr>"

definition sample_client :: vpc_client where
  "sample_client =
     \<lparr>vc_secret_id = ''id'', vc_secret_key = ''key'', vc_region = ''ap-guangzhou'', vc_endpoint = DEFAULT_VPC_ENDPOINT,
      vc_host = ''vpc.tencentcloudapi.com''\<rparr>"


end
