(* ===== verification/Files.thy ===== *)
theory Files
  imports SubnetEnv World
begin

text \<open>
  Atomic files (\<open>utils.rs\<close>): writing and copying through a temporary file that is renamed into place, and the writing of
  \<open>subnet.env\<close> with it. The file system is a map from paths to files; every system call may fail, a failing write after
  any number of bytes, and the maps that other processes see after each call are recorded. A text is its bytes.
\<close>

section \<open>The file system\<close>

text \<open>A path by its components: whether it starts at the root, and the names without \<open>.\<close> and empty ones.\<close>

type_synonym path_key = "bool \<times> string list"

definition path_key :: "string \<Rightarrow> path_key" where
  "path_key p = (p \<noteq> [] \<and> hd p = CHR ''/'', filter (\<lambda>c. c \<noteq> [] \<and> c \<noteq> ''.'') (split_on (CHR ''/'') p))"

text \<open>The last component when it is a name, and the directory, \<open>.\<close> when there is none.\<close>

definition key_file_name :: "path_key \<Rightarrow> string option" where
  "key_file_name k = (if snd k = [] \<or> last (snd k) = ''..'' then None else Some (last (snd k)))"

definition key_dir :: "path_key \<Rightarrow> path_key" where
  "key_dir k = (if snd k = [] then (False, []) else (fst k, butlast (snd k)))"

datatype io_kind = NotFound | AlreadyExists | OtherKind

record io_error =
  ie_kind :: io_kind
  ie_text :: string

record file_node =
  fi_content :: string
  fi_mode :: nat

type_synonym files = "path_key \<rightharpoonup> file_node"

record fs =
  fs_files :: files
  fs_clock :: nat
  fs_seen :: "files list"

text \<open>What the host decides: which call fails and how, how much a failing write has written, random numbers, the
  number of the process and the mode of a new file.\<close>

record host =
  ho_fault :: "nat \<Rightarrow> io_error option"
  ho_cut :: "nat \<Rightarrow> nat"
  ho_random :: "nat \<Rightarrow> u64"
  ho_pid :: nat
  ho_new_mode :: nat

definition syscall ::
  "host \<Rightarrow> (nat \<Rightarrow> files \<Rightarrow> files) \<Rightarrow> (files \<Rightarrow> io_error + files \<times> 'a) \<Rightarrow> (fs, io_error, 'a) step" where
  "syscall h damage act s =
     (let (m, r) = (case ho_fault h (fs_clock s) of
          Some e \<Rightarrow> (damage (ho_cut h (fs_clock s)) (fs_files s), Inl e)
        | None \<Rightarrow> (case act (fs_files s) of Inl e \<Rightarrow> (fs_files s, Inl e) | Inr (m, x) \<Rightarrow> (m, Inr x)))
      in (\<lparr>fs_files = m, fs_clock = Suc (fs_clock s), fs_seen = fs_seen s @ [m]\<rparr>, r))"

abbreviation harmless :: "nat \<Rightarrow> files \<Rightarrow> files" where
  "harmless \<equiv> \<lambda>_ m. m"

definition not_found :: io_error where
  "not_found = \<lparr>ie_kind = NotFound, ie_text = ''No such file or directory (os error 2)''\<rparr>"

definition already_exists :: io_error where
  "already_exists = \<lparr>ie_kind = AlreadyExists, ie_text = ''File exists (os error 17)''\<rparr>"

definition file_at :: "files \<Rightarrow> path_key \<Rightarrow> io_error + file_node" where
  "file_at m k = ok_or not_found (m k)"

text \<open>\<open>File::create\<close>, which truncates; \<open>OpenOptions\<close> with \<open>create_new\<close> and a mode; \<open>File::open\<close>.\<close>

definition file_create :: "host \<Rightarrow> path_key \<Rightarrow> (fs, io_error, unit) step" where
  "file_create h k =
     syscall h harmless (\<lambda>m. Inr (m(k \<mapsto> \<lparr>fi_content = [], fi_mode = (case m k of Some f \<Rightarrow> fi_mode f | None \<Rightarrow> ho_new_mode h)\<rparr>), ()))"

definition file_create_new :: "host \<Rightarrow> nat \<Rightarrow> path_key \<Rightarrow> (fs, io_error, unit) step" where
  "file_create_new h mode k =
     syscall h harmless (\<lambda>m. if m k \<noteq> None then Inl already_exists else Inr (m(k \<mapsto> \<lparr>fi_content = [], fi_mode = mode\<rparr>), ()))"

definition file_open :: "host \<Rightarrow> path_key \<Rightarrow> (fs, io_error, unit) step" where
  "file_open h k = syscall h harmless (\<lambda>m. map_sum id (\<lambda>_. (m, ())) (file_at m k))"

definition append_to :: "path_key \<Rightarrow> string \<Rightarrow> files \<Rightarrow> files" where
  "append_to k bytes m = m(k := map_option (\<lambda>f. f\<lparr>fi_content := fi_content f @ bytes\<rparr>) (m k))"

definition write_all :: "host \<Rightarrow> path_key \<Rightarrow> string \<Rightarrow> (fs, io_error, unit) step" where
  "write_all h k bytes = syscall h (\<lambda>n. append_to k (take n bytes)) (\<lambda>m. Inr (append_to k bytes m, ()))"

text \<open>\<open>io::copy\<close> between two open files.\<close>

definition content_of :: "files \<Rightarrow> path_key \<Rightarrow> string" where
  "content_of m k = (case m k of Some f \<Rightarrow> fi_content f | None \<Rightarrow> [])"

definition io_copy :: "host \<Rightarrow> path_key \<Rightarrow> path_key \<Rightarrow> (fs, io_error, unit) step" where
  "io_copy h src k =
     syscall h (\<lambda>n m. append_to k (take n (content_of m src)) m) (\<lambda>m. Inr (append_to k (content_of m src) m, ()))"

definition sync_all :: "host \<Rightarrow> (fs, io_error, unit) step" where
  "sync_all h = syscall h harmless (\<lambda>m. Inr (m, ()))"

definition metadata_mode :: "host \<Rightarrow> path_key \<Rightarrow> (fs, io_error, nat) step" where
  "metadata_mode h k = syscall h harmless (\<lambda>m. map_sum id (\<lambda>f. (m, fi_mode f)) (file_at m k))"

text \<open>Only the low twelve bits of a mode are set.\<close>

definition set_permissions :: "host \<Rightarrow> path_key \<Rightarrow> nat \<Rightarrow> (fs, io_error, unit) step" where
  "set_permissions h k mode =
     syscall h harmless (\<lambda>m. map_sum id (\<lambda>f. (m(k \<mapsto> f\<lparr>fi_mode := mode mod 4096\<rparr>), ())) (file_at m k))"

definition rename :: "host \<Rightarrow> path_key \<Rightarrow> path_key \<Rightarrow> (fs, io_error, unit) step" where
  "rename h old new = syscall h harmless (\<lambda>m. map_sum id (\<lambda>f. (m(old := None, new \<mapsto> f), ())) (file_at m old))"

definition remove_file :: "host \<Rightarrow> path_key \<Rightarrow> (fs, io_error, unit) step" where
  "remove_file h k = syscall h harmless (\<lambda>m. map_sum id (\<lambda>_. (m(k := None), ())) (file_at m k))"

text \<open>The error of a step is looked at by a second one; \<open>let _ =\<close> drops it.\<close>

definition or_else :: "('s, 'e, 'a) step \<Rightarrow> ('e \<Rightarrow> ('s, 'f, 'a) step) \<Rightarrow> ('s, 'f, 'a) step" where
  "or_else m f s = (case m s of (s1, Inl e) \<Rightarrow> f e s1 | (s1, Inr x) \<Rightarrow> (s1, Inr x))"

definition ignored :: "('s, 'e, 'a) step \<Rightarrow> ('s, 'f, unit) step" where
  "ignored m s = (fst (m s), Inr ())"

section \<open>Writing\<close>

definition tmp_name :: "host \<Rightarrow> path_key \<Rightarrow> string" where
  "tmp_name h k =
     ''.'' @ (case key_file_name k of Some n \<Rightarrow> n | None \<Rightarrow> ''file'') @ ''.tmp-'' @ show_nat (ho_pid h)"

definition tmp_key :: "host \<Rightarrow> path_key \<Rightarrow> path_key" where
  "tmp_key h k = (fst (key_dir k), snd (key_dir k) @ [tmp_name h k])"

definition prepare_file :: "host \<Rightarrow> path_key \<Rightarrow> string \<Rightarrow> nat \<Rightarrow> (fs, io_error, unit) step" where
  "prepare_file h k bytes mode =
     then_do (file_create h k) (\<lambda>_. then_do (write_all h k bytes) (\<lambda>_. then_do (sync_all h) (\<lambda>_. set_permissions h k mode)))"

definition write_file_atomic :: "host \<Rightarrow> string \<Rightarrow> string \<Rightarrow> nat \<Rightarrow> (fs, io_error, unit) step" where
  "write_file_atomic h path bytes mode =
     (let k = path_key path; tmp = tmp_key h k in
      then_do (prepare_file h tmp bytes mode) (\<lambda>_.
      or_else (rename h tmp k) (\<lambda>e. then_do (ignored (remove_file h tmp)) (\<lambda>_. lift_result (Inl e)))))"

section \<open>Copying\<close>

definition other_err :: "string \<Rightarrow> io_error" where
  "other_err msg = \<lparr>ie_kind = OtherKind, ie_text = msg\<rparr>"

definition quoted_str :: "string \<Rightarrow> string" where
  "quoted_str s = [CHR 0x22] @ s @ [CHR 0x22]"

definition quoted_path :: "string \<Rightarrow> string" where
  "quoted_path p = [CHR 0x22] @ p @ [CHR 0x22]"

definition next_random :: "host \<Rightarrow> nat \<Rightarrow> string" where
  "next_random h t = show_nat (unat (ho_random h t))"

text \<open>The pattern before and after its last star.\<close>

definition split_pattern :: "string \<Rightarrow> string \<times> string" where
  "split_pattern pattern =
     (case position (\<lambda>c. c = CHR ''*'') (rev pattern) of
        Some i \<Rightarrow> (take (length pattern - Suc i) pattern, drop (length pattern - i) pattern)
      | None \<Rightarrow> (pattern, []))"

definition temp_path :: "host \<Rightarrow> string \<Rightarrow> string \<Rightarrow> nat \<Rightarrow> string" where
  "temp_path h dir pattern t = (case split_pattern pattern of (a, b) \<Rightarrow> path_join dir (a @ next_random h t @ b))"

fun create_temp_tries :: "host \<Rightarrow> string \<Rightarrow> string \<Rightarrow> nat \<Rightarrow> (fs, io_error, string) step" where
  "create_temp_tries h dir pattern 0 s =
     (s, Inl \<lparr>ie_kind = AlreadyExists, ie_text = ''could not create unique temp file''\<rparr>)"
| "create_temp_tries h dir pattern (Suc n) s =
     (let p = temp_path h dir pattern (fs_clock s) in
      case file_create_new h 384 (path_key p) s of
        (s1, Inr _) \<Rightarrow> (s1, Inr p)
      | (s1, Inl e) \<Rightarrow> if ie_kind e = AlreadyExists then create_temp_tries h dir pattern n s1 else (s1, Inl e))"

definition create_temp :: "host \<Rightarrow> string \<Rightarrow> string \<Rightarrow> (fs, io_error, string) step" where
  "create_temp h dir pattern = create_temp_tries h dir pattern 1000"

definition remove_old_temp :: "host \<Rightarrow> string \<Rightarrow> (fs, io_error, unit) step" where
  "remove_old_temp h temp_file_path s =
     (case metadata_mode h (path_key temp_file_path) s of
        (s1, Inr _) \<Rightarrow>
          on_err (\<lambda>e. other_err (''cannot remove old temp file '' @ quoted_path temp_file_path @ '': '' @ ie_text e))
            (remove_file h (path_key temp_file_path)) s1
      | (s1, Inl _) \<Rightarrow> (s1, Inr ()))"

definition fill_temp :: "host \<Rightarrow> string \<Rightarrow> string \<Rightarrow> string \<Rightarrow> (fs, io_error, unit) step" where
  "fill_temp h src_file_path temp_file_path tmp =
     then_do (on_err (\<lambda>e. other_err (''cannot open file '' @ quoted_str src_file_path @ '': '' @ ie_text e))
       (file_open h (path_key src_file_path))) (\<lambda>_.
     then_do (or_else (io_copy h (path_key src_file_path) (path_key tmp)) (\<lambda>e.
       then_do (ignored (remove_file h (path_key temp_file_path))) (\<lambda>_.
       lift_result (Inl (other_err (''cannot write data to temp file '' @ quoted_path temp_file_path @ '': '' @ ie_text e)))))) (\<lambda>_.
     on_err (\<lambda>e. other_err (''cannot flush temp file '' @ quoted_path temp_file_path @ '': '' @ ie_text e)) (sync_all h)))"

definition prepare_copy :: "host \<Rightarrow> string \<Rightarrow> string \<Rightarrow> string \<Rightarrow> string \<Rightarrow> (fs, io_error, string) step" where
  "prepare_copy h src_file_path dest_dir temp_file_name dest_file_path =
     (let temp_file_path = path_join dest_dir temp_file_name in
      then_do (remove_old_temp h temp_file_path) (\<lambda>_.
      then_do (on_err (\<lambda>e. other_err (''cannot create temp file '' @ quoted_str temp_file_name @ '' in '' @ quoted_str dest_dir @ '': '' @ ie_text e))
        (create_temp h dest_dir temp_file_name)) (\<lambda>tmp.
      then_do (fill_temp h src_file_path temp_file_path tmp) (\<lambda>_.
      then_do (or_else (then_do (metadata_mode h (path_key dest_file_path)) (\<lambda>_. give ()))
        (\<lambda>e. if ie_kind e = NotFound then give () else lift_result (Inl e))) (\<lambda>_.
      then_do (metadata_mode h (path_key src_file_path)) (\<lambda>mode.
      then_do (on_err (\<lambda>e. other_err (''cannot set stat on temp file '' @ quoted_path tmp @ '': '' @ ie_text e))
        (set_permissions h (path_key tmp) mode)) (\<lambda>_. give tmp)))))))"

definition copy_file_atomic :: "host \<Rightarrow> string \<Rightarrow> string \<Rightarrow> string \<Rightarrow> string \<Rightarrow> (fs, io_error, unit) step" where
  "copy_file_atomic h src_file_path dest_dir temp_file_name dest_file_name =
     (let dest_file_path = path_join dest_dir dest_file_name in
      then_do (prepare_copy h src_file_path dest_dir temp_file_name dest_file_path) (\<lambda>tmp.
      on_err (\<lambda>e. other_err (''cannot replace '' @ quoted_path dest_file_path @ '' with temp file '' @ quoted_path tmp @ '': '' @ ie_text e))
        (rename h (path_key tmp) (path_key dest_file_path))))"

section \<open>The subnet file\<close>

text \<open>\<open>mkdir_all_0755\<close> is a call that makes no file; the root and the empty path have no parent.\<close>

definition mkdir_all_0755 :: "host \<Rightarrow> (fs, io_error, unit) step" where
  "mkdir_all_0755 h = syscall h harmless (\<lambda>m. Inr (m, ()))"

definition has_parent :: "string \<Rightarrow> bool" where
  "has_parent path \<longleftrightarrow> path \<noteq> [] \<and> (fst (path_key path) \<longrightarrow> snd (path_key path) \<noteq> [])"

definition write_subnet_file_at ::
  "host \<Rightarrow> string \<Rightarrow> config \<Rightarrow> bool \<Rightarrow> ip4net \<Rightarrow> ip6net \<Rightarrow> u32 \<Rightarrow> (fs, io_error, unit) step" where
  "write_subnet_file_at h path config ip_masq sn ipv6sn mtu =
     then_do (if has_parent path then mkdir_all_0755 h else give ()) (\<lambda>_.
     write_file_atomic h path (subnet_file_text config ip_masq sn ipv6sn mtu) 420)"

text \<open>This is the writing of the file with the results of the two calls.\<close>

lemma write_subnet_file_result:
  assumes "(if has_parent path then mkdir_all_0755 h s else (s, Inr ())) = (s1, made)"
  shows "map_sum id (\<lambda>_. subnet_file_text config ip_masq sn ipv6sn mtu) (snd (write_subnet_file_at h path config ip_masq sn ipv6sn mtu s)) =
    write_subnet_file (case made of Inl e \<Rightarrow> Some e | Inr _ \<Rightarrow> None)
      (\<lambda>b. case snd (write_file_atomic h path b 420 s1) of Inl e \<Rightarrow> Some e | Inr _ \<Rightarrow> None) config ip_masq sn ipv6sn mtu"
  using assms by (cases made) (auto simp: write_subnet_file_at_def write_subnet_file_def then_do_def Let_def split: sum.splits prod.splits if_splits)

section \<open>What other processes see\<close>

text \<open>A step that keeps \<open>P\<close> at every moment: from a map with \<open>P\<close>, the maps seen have \<open>P\<close>, and so has the last.\<close>

definition stays :: "(files \<Rightarrow> bool) \<Rightarrow> (fs, 'e, 'a) step \<Rightarrow> bool" where
  "stays P m \<longleftrightarrow> (\<forall>s. P (fs_files s) \<longrightarrow>
     P (fs_files (fst (m s))) \<and> (\<exists>ms. fs_seen (fst (m s)) = fs_seen s @ ms \<and> list_all P ms))"

named_theorems stays_intro

lemma staysD:
  assumes "stays P m" and "m s = (s', r)" and "P (fs_files s)"
  shows "P (fs_files s') \<and> (\<exists>ms. fs_seen s' = fs_seen s @ ms \<and> list_all P ms)"
  using assms by (metis fst_conv stays_def)

lemma stays_sequence:
  assumes m: "stays P m" and g: "\<And>r. stays P (g r)"
  shows "stays P (\<lambda>s. g (snd (m s)) (fst (m s)))"
  unfolding stays_def
proof (intro allI impI)
  fix s :: fs assume P: "P (fs_files s)"
  obtain s1 r where 1: "m s = (s1, r)" by fastforce
  obtain s2 r2 where 2: "g r s1 = (s2, r2)" by fastforce
  from staysD [OF m 1 P] obtain ms where ms: "P (fs_files s1)" "fs_seen s1 = fs_seen s @ ms" "list_all P ms" by blast
  from staysD [OF g 2 ms(1)] obtain ms2 where "P (fs_files s2)" "fs_seen s2 = fs_seen s1 @ ms2" "list_all P ms2" by blast
  with 1 2 ms show "P (fs_files (fst (g (snd (m s)) (fst (m s))))) \<and>
      (\<exists>ms. fs_seen (fst (g (snd (m s)) (fst (m s)))) = fs_seen s @ ms \<and> list_all P ms)"
    by auto
qed

lemma stays_result: "stays P (lift_result r)"
  by (simp add: stays_def lift_result_def)

lemma stays_then_do [stays_intro]:
  assumes "stays P m" and "\<And>x. stays P (f x)"
  shows "stays P (then_do m f)"
proof -
  let ?g = "\<lambda>r. case r of Inl e \<Rightarrow> lift_result (Inl e) | Inr x \<Rightarrow> f x"
  have "then_do m f = (\<lambda>s. ?g (snd (m s)) (fst (m s)))"
    by (auto simp: fun_eq_iff then_do_def lift_result_def split: prod.splits sum.splits)
  moreover have "stays P (?g r)" for r using assms(2) by (cases r) (simp_all add: stays_result)
  ultimately show ?thesis using stays_sequence [of P m ?g] assms(1) by simp
qed

lemma stays_or_else [stays_intro]:
  assumes "stays P m" and "\<And>e. stays P (f e)"
  shows "stays P (or_else m f)"
proof -
  let ?g = "\<lambda>r. case r of Inl e \<Rightarrow> f e | Inr x \<Rightarrow> lift_result (Inr x)"
  have "or_else m f = (\<lambda>s. ?g (snd (m s)) (fst (m s)))"
    by (auto simp: fun_eq_iff or_else_def lift_result_def split: prod.splits sum.splits)
  moreover have "stays P (?g r)" for r using assms(2) by (cases r) (simp_all add: stays_result)
  ultimately show ?thesis using stays_sequence [of P m ?g] assms(1) by simp
qed

lemma stays_simple [stays_intro]:
  "stays P (give x)" "stays P (lift_result r)" "stays P m \<Longrightarrow> stays P (on_err g m)" "stays P n \<Longrightarrow> stays P (ignored n)"
  by (auto simp: stays_def lift_result_def on_err_def ignored_def split: prod.splits sum.splits)

lemma stays_syscall [stays_intro]:
  assumes "\<And>n m. P m \<Longrightarrow> P (damage n m)" and "\<And>m m' x. P m \<Longrightarrow> act m = Inr (m', x) \<Longrightarrow> P m'"
  shows "stays P (syscall h damage act)"
  using assms by (auto simp: stays_def syscall_def Let_def split: option.splits sum.splits prod.splits)

text \<open>The calls change only the files they name.\<close>

definition agrees :: "path_key set \<Rightarrow> files \<Rightarrow> files \<Rightarrow> bool" where
  "agrees T m0 m \<longleftrightarrow> (\<forall>k. k \<notin> T \<longrightarrow> m k = m0 k)"

lemma stays_calls [stays_intro]:
  assumes "k \<in> T"
  shows "stays (agrees T m0) (file_create h k)" "stays (agrees T m0) (file_create_new h mode k)" "stays (agrees T m0) (write_all h k bytes)"
    "stays (agrees T m0) (io_copy h src k)" "stays (agrees T m0) (set_permissions h k mode)" "stays (agrees T m0) (remove_file h k)"
  using assms unfolding file_create_def file_create_new_def write_all_def io_copy_def set_permissions_def remove_file_def
  by (auto intro!: stays_syscall simp: agrees_def append_to_def map_sum_def split: if_splits sum.splits)

lemma stays_queries [stays_intro]:
  "stays P (sync_all h)" "stays P (file_open h k)" "stays P (metadata_mode h k)" "stays P (mkdir_all_0755 h)"
  unfolding sync_all_def file_open_def metadata_mode_def mkdir_all_0755_def
  by (auto intro!: stays_syscall simp: map_sum_def split: sum.splits)

lemma tmp_key_other: "tmp_key h k \<noteq> k"
proof (cases "snd k = []")
  case True
  then show ?thesis by (auto simp: tmp_key_def prod_eq_iff)
next
  case False
  have "tmp_name h k \<noteq> last (snd k)"
    using False by (auto simp: tmp_name_def key_file_name_def dest: arg_cong [where f = length])
  then show ?thesis
    using False by (metis last_snoc snd_conv tmp_key_def)
qed

lemma call_results:
  "file_create h k s = (s', Inr ()) \<Longrightarrow> \<exists>mode. fs_files s' k = Some \<lparr>fi_content = [], fi_mode = mode\<rparr>"
  "write_all h k bytes s = (s', Inr ()) \<Longrightarrow> fs_files s' = append_to k bytes (fs_files s)"
  "io_copy h src k s = (s', Inr ()) \<Longrightarrow> fs_files s' = append_to k (content_of (fs_files s) src) (fs_files s)"
  "sync_all h s = (s', Inr ()) \<Longrightarrow> fs_files s' = fs_files s"
  "file_open h k s = (s', Inr ()) \<Longrightarrow> fs_files s' = fs_files s"
  "metadata_mode h k s = (s', rm) \<Longrightarrow> fs_files s' = fs_files s \<and> (rm = Inr mode \<longrightarrow> (\<exists>f. fs_files s k = Some f \<and> fi_mode f = mode))"
  "set_permissions h k mode s = (s', Inr ()) \<Longrightarrow> \<exists>f. fs_files s k = Some f \<and> fs_files s' = (fs_files s)(k \<mapsto> f\<lparr>fi_mode := mode mod 4096\<rparr>)"
  by (auto simp: file_create_def write_all_def io_copy_def sync_all_def file_open_def metadata_mode_def set_permissions_def syscall_def
      file_at_def ok_or_def Let_def split: option.splits)

lemma prepare_file_result:
  assumes "prepare_file h k bytes mode s = (s', Inr ())"
  shows "fs_files s' k = Some \<lparr>fi_content = bytes, fi_mode = mode mod 4096\<rparr>"
  using assms unfolding prepare_file_def then_do_eq_Inr
  by (auto dest!: call_results simp: append_to_def)

lemma stays_prepare: "stays (agrees {k} m0) (prepare_file h k bytes mode)"
  unfolding prepare_file_def by (intro stays_intro) simp_all

lemma rename_result:
  assumes "rename h a b s = (s', r)"
  shows "fs_seen s' = fs_seen s @ [fs_files s']"
    and "r = Inr () \<Longrightarrow> \<exists>f. fs_files s a = Some f \<and> fs_files s' = (fs_files s)(a := None, b \<mapsto> f)"
    and "r = Inl e \<Longrightarrow> fs_files s' = fs_files s"
  using assms by (auto simp: rename_def syscall_def file_at_def ok_or_def Let_def split: option.splits)

text \<open>The outcome of replacing a file through temporary files \<open>T\<close>: at every moment it is the old or the new one, nothing
  but it and the temporary files changes, and the new one is in place exactly when the result is no error.\<close>

definition replaced_atomically :: "path_key set \<Rightarrow> path_key \<Rightarrow> file_node \<Rightarrow> fs \<Rightarrow> fs \<Rightarrow> io_error + unit \<Rightarrow> bool" where
  "replaced_atomically T k new s s' r \<longleftrightarrow>
     (\<exists>ms. fs_seen s' = fs_seen s @ ms \<and>
        list_all (\<lambda>m. m k \<in> {fs_files s k, Some new} \<and> agrees (insert k T) (fs_files s) m) ms) \<and>
     fs_files s' k = (case r of Inr _ \<Rightarrow> Some new | Inl _ \<Rightarrow> fs_files s k) \<and> agrees (insert k T) (fs_files s) (fs_files s')"

lemma agrees_refl: "agrees T m m"
  by (simp add: agrees_def)

lemma agrees_at: "agrees T m0 m \<Longrightarrow> k \<notin> T \<Longrightarrow> m k = m0 k"
  by (simp add: agrees_def del: split_paired_All)

lemma agrees_insert: "agrees T m0 m \<Longrightarrow> agrees (insert k T) m0 m"
  by (simp add: agrees_def del: split_paired_All)

lemma agrees_trans: "agrees T m0 m1 \<Longrightarrow> agrees T m1 m \<Longrightarrow> agrees T m0 m"
  by (simp add: agrees_def del: split_paired_All)

text \<open>A run through temporary files only, from one state to another.\<close>

definition only_temp :: "path_key set \<Rightarrow> fs \<Rightarrow> fs \<Rightarrow> bool" where
  "only_temp T s s' \<longleftrightarrow>
     agrees T (fs_files s) (fs_files s') \<and> (\<exists>ms. fs_seen s' = fs_seen s @ ms \<and> list_all (agrees T (fs_files s)) ms)"

lemma only_temp_trans: "only_temp T s s1 \<Longrightarrow> only_temp T s1 s2 \<Longrightarrow> only_temp T s s2"
  unfolding only_temp_def
  by (elim conjE exE, intro conjI exI [where x = "ms @ msa" for ms msa]) (auto simp: agrees_def list_all_iff simp del: split_paired_All)

lemma only_temp_run:
  assumes "stays (agrees T (fs_files s)) m" and "m s = (s', r)"
  shows "only_temp T s s'"
  using staysD [OF assms] by (auto simp: only_temp_def agrees_refl)

lemma only_temp_rename_failed: "rename h a b s = (s', Inl e) \<Longrightarrow> only_temp T s s'"
  using rename_result(1) [of h a b s s' "Inl e"] rename_result(3) [of h a b s s' "Inl e" e] by (simp add: only_temp_def agrees_refl)

lemma replaced_failure:
  assumes "only_temp T s s'" and "k \<notin> T"
  shows "replaced_atomically T k new s s' (Inl e)"
  using assms by (auto simp: only_temp_def replaced_atomically_def agrees_def list_all_iff simp del: split_paired_All)

lemma replaced_success:
  assumes m: "only_temp T s s1" and T: "k \<notin> T" "tmp \<in> T"
    and new: "fs_files s1 tmp = Some new" and renamed: "rename h tmp k s1 = (s', Inr ())"
  shows "replaced_atomically T k new s s' (Inr ()) \<and> fs_files s' tmp = None"
proof -
  have s': "fs_files s' = (fs_files s1)(tmp := None, k \<mapsto> new)" "fs_seen s' = fs_seen s1 @ [fs_files s']"
    using rename_result [OF renamed] new by auto
  have "tmp \<noteq> k" using T by blast
  with m s' T show ?thesis
    by (auto simp: only_temp_def replaced_atomically_def agrees_def list_all_iff simp del: split_paired_All)
qed

lemma write_file_atomic_replaces:
  assumes run: "write_file_atomic h path bytes mode s = (s', r)"
  defines "k \<equiv> path_key path"
  shows "replaced_atomically {tmp_key h k} k \<lparr>fi_content = bytes, fi_mode = mode mod 4096\<rparr> s s' r \<and>
    (r = Inr () \<longrightarrow> fs_files s' (tmp_key h k) = None)"
proof -
  let ?tmp = "tmp_key h k" and ?T = "{tmp_key h k}"
  have k: "k \<notin> ?T" using tmp_key_other [of h k] by auto
  obtain s1 r1 where prep: "prepare_file h ?tmp bytes mode s = (s1, r1)" by fastforce
  obtain s2 r2 where ren: "rename h ?tmp k s1 = (s2, r2)" by fastforce
  obtain s3 r3 where rem: "remove_file h ?tmp s2 = (s3, r3)" by fastforce
  note s1 = only_temp_run [OF stays_prepare prep]
  have outcome: "(s', r) = (case r1 of Inl e \<Rightarrow> (s1, Inl e) | Inr _ \<Rightarrow> (case r2 of Inl e \<Rightarrow> (s3, Inl e) | Inr _ \<Rightarrow> (s2, Inr ())))"
    using run prep ren rem
    by (auto simp: write_file_atomic_def k_def [symmetric] Let_def then_do_def or_else_def ignored_def lift_result_def split: sum.splits)
  show ?thesis
  proof (cases r1)
    case (Inl e)
    with replaced_failure [OF s1 k] outcome show ?thesis by simp
  next
    case Inr1: (Inr u)
    show ?thesis
    proof (cases r2)
      case (Inl e)
      have "only_temp ?T s2 s3" by (rule only_temp_run [OF stays_calls(6) rem]) simp
      then have "only_temp ?T s s3"
        using only_temp_trans [OF s1 only_temp_trans [OF only_temp_rename_failed]] ren Inl by simp
      with replaced_failure [OF _ k] outcome Inr1 Inl show ?thesis by simp
    next
      case (Inr v)
      moreover from prep Inr1 have "fs_files s1 ?tmp = Some \<lparr>fi_content = bytes, fi_mode = mode mod 4096\<rparr>"
        by (simp add: prepare_file_result)
      ultimately show ?thesis using replaced_success [OF s1 k] ren outcome Inr1 by simp
    qed
  qed
qed

text \<open>Without a failing call the file is written.\<close>

lemma write_file_atomic_returns:
  assumes "ho_fault h = (\<lambda>_. None)"
  shows "snd (write_file_atomic h path bytes mode s) = Inr ()"
  using assms
  by (simp add: write_file_atomic_def prepare_file_def file_create_def write_all_def sync_all_def set_permissions_def rename_def
      syscall_def then_do_def or_else_def file_at_def append_to_def Let_def)

lemma replaced_after:
  assumes "only_temp T s s1" and "replaced_atomically T k new s1 s' r" and "k \<notin> T"
  shows "replaced_atomically T k new s s' r"
proof -
  obtain ms where ms: "agrees T (fs_files s) (fs_files s1)" "fs_seen s1 = fs_seen s @ ms" "list_all (agrees T (fs_files s)) ms"
    using assms(1) by (auto simp: only_temp_def)
  obtain ns where ns: "fs_seen s' = fs_seen s1 @ ns"
      "list_all (\<lambda>m. m k \<in> {fs_files s1 k, Some new} \<and> agrees (insert k T) (fs_files s1) m) ns"
      "fs_files s' k = (case r of Inr _ \<Rightarrow> Some new | Inl _ \<Rightarrow> fs_files s1 k)" "agrees (insert k T) (fs_files s1) (fs_files s')"
    using assms(2) by (auto simp: replaced_atomically_def)
  have k: "fs_files s1 k = fs_files s k" using agrees_at [OF ms(1) assms(3)] .
  note agr = agrees_trans [OF agrees_insert [OF ms(1), of k]]
  have "list_all (\<lambda>m. m k \<in> {fs_files s k, Some new} \<and> agrees (insert k T) (fs_files s) m) ms"
    using ms(3) by (rule list.pred_mono_strong) (simp add: agrees_at [OF _ assms(3)] agrees_insert)
  moreover have "list_all (\<lambda>m. m k \<in> {fs_files s k, Some new} \<and> agrees (insert k T) (fs_files s) m) ns"
    using ns(2) by (rule list.pred_mono_strong) (simp add: k agr)
  ultimately have "list_all (\<lambda>m. m k \<in> {fs_files s k, Some new} \<and> agrees (insert k T) (fs_files s) m) (ms @ ns)"
    by simp
  with ms(2) ns(1,3) agr [OF ns(4)] show ?thesis by (cases r) (simp_all add: replaced_atomically_def k)
qed

text \<open>C16. Whatever call fails and wherever a write breaks off, the subnet file is at every moment the old file or the complete
  new one, the result says which of them it is in the end, and no file but it and the temporary file changes; when
  no call fails it is the new one.\<close>

theorem subnet_file_atomic:
  assumes "write_subnet_file_at h path config ip_masq sn ipv6sn mtu s = (s', r)"
  defines "k \<equiv> path_key path"
  defines "new \<equiv> \<lparr>fi_content = subnet_file_text config ip_masq sn ipv6sn mtu, fi_mode = 420\<rparr>"
  shows "replaced_atomically {tmp_key h k} k new s s' r \<and> (r = Inr () \<longrightarrow> fs_files s' (tmp_key h k) = None) \<and>
    (ho_fault h = (\<lambda>_. None) \<longrightarrow> r = Inr ())"
proof -
  let ?made = "if has_parent path then mkdir_all_0755 h else give ()"
  have k: "k \<notin> {tmp_key h k}" using tmp_key_other [of h k] by auto
  obtain s1 r1 where made: "?made s = (s1, r1)" by fastforce
  obtain s2 r2 where wrote: "write_file_atomic h path (subnet_file_text config ip_masq sn ipv6sn mtu) 420 s1 = (s2, r2)" by fastforce
  have "stays (agrees {tmp_key h k} (fs_files s)) ?made" by (simp add: stays_queries stays_simple)
  from only_temp_run [OF this made] have s1: "only_temp {tmp_key h k} s s1" .
  have outcome: "(s', r) = (case r1 of Inl e \<Rightarrow> (s1, Inl e) | Inr _ \<Rightarrow> (s2, r2))"
    using assms(1) made wrote by (auto simp: write_subnet_file_at_def then_do_def split: sum.splits)
  have returns: "ho_fault h = (\<lambda>_. None) \<Longrightarrow> r1 = Inr () \<and> r2 = Inr ()"
    using made wrote write_file_atomic_returns [of h path "subnet_file_text config ip_masq sn ipv6sn mtu" 420 s1]
    by (auto simp: mkdir_all_0755_def syscall_def split: if_splits)
  show ?thesis
  proof (cases r1)
    case (Inl e)
    with outcome replaced_failure [OF s1 k] returns show ?thesis by auto
  next
    case (Inr u)
    with outcome replaced_after [OF s1 _ k] write_file_atomic_replaces [OF wrote] returns show ?thesis by (auto simp: k_def new_def)
  qed
qed

section \<open>Copies\<close>

text \<open>The temporary files of a copy: the one that is removed, and those that the random numbers give.\<close>

definition copy_temps :: "host \<Rightarrow> string \<Rightarrow> string \<Rightarrow> path_key set" where
  "copy_temps h dir pattern = insert (path_key (path_join dir pattern)) (range (\<lambda>t. path_key (temp_path h dir pattern t)))"

lemma stays_then_do_value:
  assumes "stays P m" and "\<And>s s' x. m s = (s', Inr x) \<Longrightarrow> Q x" and "\<And>x. Q x \<Longrightarrow> stays P (f x)"
  shows "stays P (then_do m f)"
proof -
  have "then_do m f = then_do m (\<lambda>x. if Q x then f x else lift_result (Inr undefined))"
    using assms(2) by (auto simp: fun_eq_iff then_do_def split: prod.splits sum.splits)
  moreover have "stays P (then_do m (\<lambda>x. if Q x then f x else lift_result (Inr undefined)))"
    using assms(1,3) by (intro stays_then_do) (simp_all add: stays_result)
  ultimately show ?thesis by simp
qed

lemma create_temp_tries_result:
  assumes "create_temp_tries h dir pattern n s = (s', Inr p)"
  shows "path_key p \<in> copy_temps h dir pattern \<and> fs_files s' (path_key p) = Some \<lparr>fi_content = [], fi_mode = 384\<rparr>"
  using assms
proof (induction n arbitrary: s)
  case (Suc n)
  then show ?case
    by (auto simp: copy_temps_def file_create_new_def syscall_def Let_def split: prod.splits sum.splits if_splits option.splits)
qed simp

lemma stays_create_temp_tries: "stays (agrees (copy_temps h dir pattern) m0) (create_temp_tries h dir pattern n)"
proof (induction n)
  case (Suc n)
  let ?P = "agrees (copy_temps h dir pattern) m0"
  have "path_key (temp_path h dir pattern t) \<in> copy_temps h dir pattern" for t by (simp add: copy_temps_def)
  note new = stays_calls(2) [OF this]
  show ?case
    unfolding stays_def
  proof (intro allI impI)
    fix s :: fs assume P: "?P (fs_files s)"
    obtain s1 r where 1: "file_create_new h 384 (path_key (temp_path h dir pattern (fs_clock s))) s = (s1, r)" by fastforce
    obtain s2 r2 where 2: "create_temp_tries h dir pattern n s1 = (s2, r2)" by fastforce
    from staysD [OF new 1 P] obtain ms where ms: "?P (fs_files s1)" "fs_seen s1 = fs_seen s @ ms" "list_all ?P ms" by blast
    from staysD [OF Suc 2 ms(1)] obtain ns where "?P (fs_files s2)" "fs_seen s2 = fs_seen s1 @ ns" "list_all ?P ns" by blast
    with 1 2 ms show "?P (fs_files (fst (create_temp_tries h dir pattern (Suc n) s))) \<and>
        (\<exists>ms. fs_seen (fst (create_temp_tries h dir pattern (Suc n) s)) = fs_seen s @ ms \<and> list_all ?P ms)"
      by (auto simp: Let_def split: sum.splits)
  qed
qed (simp add: stays_def)

lemma stays_remove_old_temp [stays_intro]:
  assumes "path_key p \<in> T"
  shows "stays (agrees T m0) (remove_old_temp h p)"
proof -
  let ?rm = "on_err (\<lambda>e. other_err (''cannot remove old temp file '' @ quoted_path p @ '': '' @ ie_text e)) (remove_file h (path_key p))"
  have "remove_old_temp h p = (\<lambda>s. (case snd (metadata_mode h (path_key p) s) of Inr _ \<Rightarrow> ?rm | Inl _ \<Rightarrow> give ())
      (fst (metadata_mode h (path_key p) s)))"
    by (auto simp: fun_eq_iff remove_old_temp_def split: prod.splits sum.splits)
  moreover have "stays (agrees T m0) (case r of Inr _ \<Rightarrow> ?rm | Inl _ \<Rightarrow> give ())" for r :: "io_error + nat"
    using assms by (cases r) (auto intro!: stays_intro)
  ultimately show ?thesis
    using stays_sequence [OF stays_queries(3), where g = "\<lambda>r. case r of Inr _ \<Rightarrow> ?rm | Inl _ \<Rightarrow> give ()"] by simp
qed

lemma stays_fill_temp [stays_intro]:
  "path_key tmp \<in> T \<Longrightarrow> path_key p \<in> T \<Longrightarrow> stays (agrees T m0) (fill_temp h src p tmp)"
  unfolding fill_temp_def by (intro stays_intro)

lemma stays_prepare_copy:
  "stays (agrees (copy_temps h dir pattern) m0) (prepare_copy h src dir pattern dest)"
proof -
  let ?T = "copy_temps h dir pattern"
  have old: "path_key (path_join dir pattern) \<in> ?T" by (simp add: copy_temps_def)
  have temp: "create_temp h dir pattern s = (s', Inr p) \<Longrightarrow> path_key p \<in> ?T" for s s' p
    using create_temp_tries_result by (simp add: create_temp_def)
  have create: "stays (agrees ?T m0) (create_temp h dir pattern)"
    unfolding create_temp_def by (rule stays_create_temp_tries)
  show ?thesis
    unfolding prepare_copy_def Let_def
    by (rule stays_then_do [OF stays_remove_old_temp [OF old]],
        rule stays_then_do_value [where Q = "\<lambda>p. path_key p \<in> ?T"])
      (auto simp: on_err_eq_Inr dest: temp intro!: stays_intro create old)
qed

lemma source_kept:
  assumes "stays (agrees T (fs_files s)) m" and "m s = (s', r)" and "src \<notin> T"
  shows "fs_files s' src = fs_files s src"
  using only_temp_run [OF assms(1,2)] agrees_at [OF _ assms(3)] by (auto simp: only_temp_def)

lemma cleanup_eq_Inr:
  "or_else m (\<lambda>e. then_do (ignored n) (\<lambda>_. lift_result (Inl (g e)))) s = (s', Inr x) \<longleftrightarrow> m s = (s', Inr x)"
  by (cases "m s") (auto simp: or_else_def then_do_def ignored_def lift_result_def split: sum.splits)

lemma fill_temp_result:
  assumes "fill_temp h src p tmp s = (s', Inr ())" and "fs_files s (path_key tmp) = Some \<lparr>fi_content = [], fi_mode = mode\<rparr>"
  shows "fs_files s' (path_key tmp) = Some \<lparr>fi_content = content_of (fs_files s) (path_key src), fi_mode = mode\<rparr>"
  using assms unfolding fill_temp_def then_do_eq_Inr on_err_eq_Inr cleanup_eq_Inr
  by (auto simp: append_to_def dest!: call_results(3,4,5))

lemma check_dest_files:
  assumes "or_else (then_do (metadata_mode h k) (\<lambda>_. give ())) (\<lambda>e. if ie_kind e = NotFound then give () else lift_result (Inl e)) s = (s', Inr ())"
  shows "fs_files s' = fs_files s"
proof -
  obtain s1 r where m: "metadata_mode h k s = (s1, r)" by fastforce
  with assms have "s' = s1" by (auto simp: or_else_def then_do_def lift_result_def split: sum.splits if_splits)
  with call_results(6) [OF m] show ?thesis by simp
qed

lemma prepare_copy_result:
  assumes run: "prepare_copy h src dir pattern dest s = (s', Inr tmp)"
    and src: "path_key src \<notin> copy_temps h dir pattern" "fs_files s (path_key src) = Some f"
  shows "path_key tmp \<in> copy_temps h dir pattern \<and>
    fs_files s' (path_key tmp) = Some \<lparr>fi_content = fi_content f, fi_mode = fi_mode f mod 4096\<rparr>"
proof -
  let ?T = "copy_temps h dir pattern" and ?old = "path_join dir pattern"
  from run obtain s1 s2 s3 s4 s5 s6 mode where
    1: "remove_old_temp h ?old s = (s1, Inr ())" and 2: "create_temp h dir pattern s1 = (s2, Inr tmp)" and
    3: "fill_temp h src ?old tmp s2 = (s3, Inr ())" and
    4: "or_else (then_do (metadata_mode h (path_key dest)) (\<lambda>_. give ())) (\<lambda>e. if ie_kind e = NotFound then give () else lift_result (Inl e)) s3 = (s4, Inr ())" and
    5: "metadata_mode h (path_key src) s4 = (s5, Inr mode)" and 6: "set_permissions h (path_key tmp) mode s5 = (s', Inr ())"
    unfolding prepare_copy_def Let_def then_do_eq_Inr on_err_eq_Inr give_apply by auto
  have old: "path_key ?old \<in> ?T" by (simp add: copy_temps_def)
  have tmp: "path_key tmp \<in> ?T" "fs_files s2 (path_key tmp) = Some \<lparr>fi_content = [], fi_mode = 384\<rparr>"
    using create_temp_tries_result 2 by (simp_all add: create_temp_def)
  have "fs_files s1 (path_key src) = Some f"
    using source_kept [OF stays_remove_old_temp [OF old] 1 src(1)] src(2) by simp
  then have s2: "fs_files s2 (path_key src) = Some f"
    using source_kept [OF stays_create_temp_tries 2 [unfolded create_temp_def] src(1)] by simp
  then have "fs_files s3 (path_key src) = Some f"
    using source_kept [OF stays_fill_temp [OF tmp(1) old] 3 src(1)] by simp
  with check_dest_files [OF 4] call_results(6) [OF 5, of mode] have s5: "fs_files s5 = fs_files s3" "mode = fi_mode f" by auto
  have "fs_files s3 (path_key tmp) = Some \<lparr>fi_content = fi_content f, fi_mode = 384\<rparr>"
    using fill_temp_result [OF 3 tmp(2)] s2 by (simp add: content_of_def)
  with call_results(7) [OF 6] s5 tmp(1) show ?thesis by auto
qed

text \<open>A copy is atomic too, when neither the source nor the destination has the name of a temporary file.\<close>

theorem copy_file_replaces:
  assumes run: "copy_file_atomic h src dir pattern dest s = (s', r)"
    and src: "path_key src \<notin> copy_temps h dir pattern" "fs_files s (path_key src) = Some f"
    and k: "path_key (path_join dir dest) \<notin> copy_temps h dir pattern"
  shows "replaced_atomically (copy_temps h dir pattern) (path_key (path_join dir dest))
    \<lparr>fi_content = fi_content f, fi_mode = fi_mode f mod 4096\<rparr> s s' r"
proof -
  let ?dest = "path_join dir dest"
  obtain s1 r1 where prep: "prepare_copy h src dir pattern ?dest s = (s1, r1)" by fastforce
  note s1 = only_temp_run [OF stays_prepare_copy prep]
  show ?thesis
  proof (cases r1)
    case (Inl e)
    with run prep have "s' = s1" "r = Inl e" by (simp_all add: copy_file_atomic_def Let_def then_do_def)
    with replaced_failure [OF s1 k] show ?thesis by simp
  next
    case (Inr tmp)
    obtain s2 r2 where ren: "rename h (path_key tmp) (path_key ?dest) s1 = (s2, r2)" by fastforce
    have tmp: "path_key tmp \<in> copy_temps h dir pattern"
        "fs_files s1 (path_key tmp) = Some \<lparr>fi_content = fi_content f, fi_mode = fi_mode f mod 4096\<rparr>"
      using prepare_copy_result [OF _ src] prep Inr by blast+
    show ?thesis
    proof (cases r2)
      case Inl2: (Inl e)
      with run prep Inr ren obtain e' where "s' = s2" "r = Inl e'" by (auto simp: copy_file_atomic_def Let_def then_do_def on_err_def)
      with replaced_failure [OF only_temp_trans [OF s1 only_temp_rename_failed] k] ren Inl2 show ?thesis by simp
    next
      case Inr2: (Inr u)
      with run prep Inr ren have "s' = s2" "r = Inr ()" by (simp_all add: copy_file_atomic_def Let_def then_do_def on_err_def)
      with replaced_success [OF s1 k tmp] ren Inr2 show ?thesis by simp
    qed
  qed
qed

text \<open>Only a failing rename removes the temporary file: a failing flush leaves it.\<close>

lemma temp_left_behind:
  assumes "ho_fault h = (\<lambda>t. if t = fs_clock s + 2 then Some e else None)"
  shows "\<exists>s'. write_file_atomic h path bytes mode s = (s', Inl e) \<and>
    fs_files s' (tmp_key h (path_key path)) \<noteq> None \<and> fs_files s' (path_key path) = fs_files s (path_key path)"
  using assms tmp_key_other [of h "path_key path"]
  by (simp add: write_file_atomic_def prepare_file_def file_create_def write_all_def sync_all_def
      syscall_def then_do_def append_to_def Let_def fun_upd_def)

text \<open>At a host whose sixth call, the rename, fails: the error is returned and the old file is there.\<close>

definition failing_host :: host where
  "failing_host =
     \<lparr>ho_fault = (\<lambda>t. if t = 5 then Some \<lparr>ie_kind = OtherKind, ie_text = ''Read-only file system''\<rparr> else None), ho_cut = (\<lambda>_. 0),
      ho_random = (\<lambda>_. 0), ho_pid = 7, ho_new_mode = 420\<rparr>"

definition old_files :: fs where
  "old_files =
     \<lparr>fs_files = [path_key ''/run/flannel/subnet.env'' \<mapsto> \<lparr>fi_content = ''FLANNEL_MTU=1450'', fi_mode = 420\<rparr>], fs_clock = 0, fs_seen = []\<rparr>"

theorem subnet_file_atomic_witness:
  "\<exists>s' e. write_subnet_file_at failing_host ''/run/flannel/subnet.env'' sample_env_config True ip4net_default ip6net_default 1500
       old_files = (s', Inl e) \<and>
     fs_files s' (path_key ''/run/flannel/subnet.env'') = Some \<lparr>fi_content = ''FLANNEL_MTU=1450'', fi_mode = 420\<rparr>"
proof -
  let ?path = "''/run/flannel/subnet.env''"
  let ?run = "write_subnet_file_at failing_host ?path sample_env_config True ip4net_default ip6net_default 1500 old_files"
  obtain s' r where run: "?run = (s', r)" by fastforce
  have "\<exists>e. snd ?run = Inl e"
    by (simp add: write_subnet_file_at_def mkdir_all_0755_def has_parent_def path_key_def write_file_atomic_def prepare_file_def file_create_def
        write_all_def sync_all_def set_permissions_def rename_def syscall_def then_do_def or_else_def lift_result_def ignored_def file_at_def
        append_to_def failing_host_def old_files_def Let_def)
  then obtain e where "r = Inl e" using run by auto
  with run subnet_file_atomic [OF run] show ?thesis by (auto simp: replaced_atomically_def old_files_def)
qed

end
