(* ===== verification/Spec2Isabelle.thy ===== *)
theory Spec2Isabelle
  imports Watch Config Proxy Vici Informer Hub Acquire Ipmatch RouteNetwork VxlanEvents Status Cni Masquerade Mesh Udp Wireguard Daemon Ipsec Extension KubeManager Tencent Files
begin

text \<open>
  \<^bold>\<open>flannel in Rust: a verification development.\<close>

  flanneld runs on every node of a cluster. It picks the external interface of the node (\<open>ipmatch\<close>), reads
  net-conf.json (\<open>subnet/config.rs\<close>), takes a lease on a pod subnet and publishes it as annotations of its
  node object (\<open>subnet/kube/acquire.rs\<close>), tells the CNI plugin about it through the file subnet.env
  (\<open>subnetfile.rs\<close>), installs the masquerading and forwarding rules (\<open>trafficmngr\<close>) and then follows the
  leases of the other nodes: an informer turns node objects into lease events (\<open>informer.rs\<close>, \<open>events.rs\<close>),
  a hub fans them out (\<open>kube/mod.rs\<close>), a watcher folds them into batches (\<open>subnet/watch.rs\<close>, \<open>lease/mod.rs\<close>)
  and the backend turns each batch into routes, neighbour and forwarding entries or tunnels (\<open>backend/\<close>).

  \<^bold>\<open>Theories.\<close> The order is that of the dependencies.

  \<^item> \<open>Prelude\<close>, \<open>Bytes\<close>, \<open>Cidr\<close>, \<open>Keyed\<close>, \<open>World\<close>: shared vocabulary. Results are sums (\<open>Inl\<close> is \<open>Err\<close>), \<open>?\<close> is
    \<open>rbind\<close>; machine integers are words; \<open>Keyed\<close> has the locale of a vector kept as a table under a match
    predicate, interpreted by the lease watcher, the static routes and the proxy routes; \<open>World\<close> has state
    passing over an arbitrary outside world for the code that runs programs.
  \<^item> \<open>Ipnet\<close>, \<open>Ip6net\<close>: \<open>ip/ipnet.rs\<close>, \<open>ip/ip6net.rs\<close>. Networks are intervals, containment is inclusion, text
    round trips.
  \<^item> \<open>Lease\<close>, \<open>Watch\<close>: \<open>lease/mod.rs\<close>, \<open>subnet/watch.rs\<close>. The watcher refines a map of leases; the receiver of
    the loop tracks it under every interleaving.
  \<^item> \<open>Json\<close>, \<open>Config\<close>: \<open>subnet/config.rs\<close>. Decoding of net-conf.json and the checks on the subnet pool.
  \<^item> \<open>Kube\<close>, \<open>Informer\<close>, \<open>Hub\<close>, \<open>Acquire\<close>, \<open>Status\<close>: \<open>subnet/kube/\<close>. From node objects to lease events and
    back: replaying the events gives the leases of the store; a lease that is acquired is the lease other nodes
    derive; the hub delivers without gaps.
  \<^item> \<open>Iface\<close>, \<open>Ipmatch\<close>: \<open>ip/iface/\<close>, \<open>ipmatch/mod.rs\<close>, \<open>backend/common.rs\<close>.
  \<^item> \<open>Packet\<close>, \<open>Proxy\<close>: \<open>backend/udp/\<close>. The packet transformations and the proxy loop.
  \<^item> \<open>Udp\<close>: \<open>backend/udp/mod.rs\<close>, \<open>network.rs\<close>, \<open>ip/tun.rs\<close>. Registration, with an account of the descriptors.
  \<^item> \<open>RouteNetwork\<close>, \<open>RouteRun\<close>: \<open>backend/route_network.rs\<close>, \<open>spec.rs\<close> and the route closures of \<open>hostgw.rs\<close>,
    \<open>ipip.rs\<close>: the event handlers, and the run loop with its periodic check under every interleaving.
  \<^item> \<open>Backends\<close>, \<open>Mesh\<close>: \<open>backend/manager.rs\<close>, \<open>alloc.rs\<close>, \<open>hostgw.rs\<close>, \<open>ipip.rs\<close>. The registry and the registration of
    the route backends; \<open>Mesh\<close> composes registration, the annotations, the informer and the handlers of another
    node: a node that registers is routed to.
  \<^item> \<open>Vxlan\<close>, \<open>VxlanEvents\<close>: \<open>mac.rs\<close>, \<open>backend/vxlan/\<close>.
  \<^item> \<open>Genl\<close>, \<open>Wireguard\<close>: \<open>backend/wireguard/\<close>. The netlink attributes byte for byte; the peers of the device follow
    the leases.
  \<^item> \<open>Vici\<close>, \<open>Xfrm\<close>, \<open>Ipsec\<close>: \<open>backend/ipsec/\<close>. The messages of charon and of the kernel byte for byte; policies and
    connections follow the leases.
  \<^item> \<open>Extension\<close>: \<open>backend/extension/\<close>. Expansion and splitting of commands, and what they are given.
  \<^item> \<open>Tencent\<close>: \<open>backend/tencentvpc/\<close>. Metadata, signed requests, and the route of the lease. The contract of the VPC
    API is the locale \<open>vpc_table\<close>, interpreted on a cloud with one route table.
  \<^item> \<open>SubnetEnv\<close>, \<open>Files\<close>: \<open>subnet/writefile.rs\<close>, \<open>subnetfile.rs\<close> of flanneld, the reader in \<open>netconf.rs\<close> of the plugin;
    \<open>utils.rs\<close>, where every system call may fail and what other processes see is recorded: the file is never torn.
  \<^item> \<open>Cni\<close>: the crate \<open>flannel-cni\<close>.
  \<^item> \<open>Iptables\<close>, \<open>IptablesRules\<close>, \<open>Nftables\<close>, \<open>Masquerade\<close>: \<open>trafficmngr/\<close>. The programs that are run, the rules
    that result, and the packets they masquerade in either mode.
  \<^item> \<open>Apiserver\<close>, \<open>KubeManager\<close>: \<open>kube/\<close> and the constructor in \<open>subnet/kube/mod.rs\<close>. The wire types, requests and
    replies, the decoder of watch streams against a reader of single bytes, the choice of the configuration; a
    session of the watch always takes the informer back to its relist.
  \<^item> \<open>Flags\<close>, \<open>Daemon\<close>: \<open>flags.rs\<close>, \<open>flags_defs.rs\<close>, and \<open>daemon.rs\<close>, \<open>subnet_mgr.rs\<close>, \<open>iface_select.rs\<close>,
    \<open>healthz.rs\<close>, \<open>systemd.rs\<close>, \<open>main.rs\<close> of flanneld. The command line, the order of the start, the ready flag, and
    that the daemon awaits its tasks however it ends.

  \<^bold>\<open>Outside code.\<close> The kernel, the API server, charon, the VPC API, the programs iptables, nft, the commands of the
  extension backend and the CNI delegates, the file system, HTTP and TLS, the JSON and YAML readers, cryptography
  and the regular expression library are parameters. What a property relies on is a named hypothesis of it (for
  instance \<open>programs_ok\<close> or \<open>vpc_table\<close>), and its witness instantiates the parameter.

  \<^bold>\<open>Loops.\<close> Loops over data are structural recursion. Loops that wait for the outside world are step functions
  over the inputs they receive, and invariants hold for every sequence of inputs; a bounded wait (\<open>poll\<close>,
  \<open>retry_do\<close>, the 1000 names of \<open>create_temp\<close>) is a recursion over its attempts, with a proof that it ends where the
  code bounds it. The daemon and the loops that may not end are partial functions, and that they return is proved.

  \<^bold>\<open>Not modelled.\<close> Logging and metrics; the asynchronous runtime, beyond which task takes which step when; the
  sockets below netlink and HTTP, and TLS; tests, mocks, the end-to-end crates and the examples; \<open>endian.rs\<close>, which
  is empty. They hold no logic of the program or are input and output.
\<close>

end
